(* ===== verification/Prelude.thy ===== *)
theory Prelude
  imports Main "HOL-Library.AList"
begin

text \<open>
  Shared material of the development: Python dictionaries, results with exceptions,
  string helpers, and the generic interfaces (locales) that the components instantiate.

  A Python \<^verbatim>\<open>dict\<close> keeps the insertion order of its keys, and the code iterates over
  dictionaries in that order (first match wins). It is an association list with
  \<open>AList.update\<close> (replaces the value in place, or appends a new key at the end),
  \<open>AList.delete\<close> and \<open>map_of\<close>.
\<close>

named_theorems py_defs "small helpers of the language that proofs unfold"

section \<open>Dictionaries\<close>

type_synonym ('k, 'v) dict = "('k \<times> 'v) list"

abbreviation dget :: "('k, 'v) dict \<Rightarrow> 'k \<Rightarrow> 'v option" where
  "dget \<equiv> map_of"

abbreviation dput :: "'k \<Rightarrow> 'v \<Rightarrow> ('k, 'v) dict \<Rightarrow> ('k, 'v) dict" where
  "dput \<equiv> AList.update"

abbreviation ddel :: "'k \<Rightarrow> ('k, 'v) dict \<Rightarrow> ('k, 'v) dict" where
  "ddel \<equiv> AList.delete"

abbreviation dkeys :: "('k, 'v) dict \<Rightarrow> 'k list" where
  "dkeys d \<equiv> map fst d"

abbreviation dvals :: "('k, 'v) dict \<Rightarrow> 'v list" where
  "dvals d \<equiv> map snd d"

definition dwf :: "('k, 'v) dict \<Rightarrow> bool" where
  "dwf d \<longleftrightarrow> distinct (dkeys d)"

definition dget_or :: "('k, 'v) dict \<Rightarrow> 'k \<Rightarrow> 'v \<Rightarrow> 'v" where
  "dget_or d k v = (case dget d k of None \<Rightarrow> v | Some w \<Rightarrow> w)"

definition dhas :: "('k, 'v) dict \<Rightarrow> 'k \<Rightarrow> bool" where
  "dhas d k \<longleftrightarrow> dget d k \<noteq> None"

declare dget_or_def [py_defs] dhas_def [py_defs]

text \<open>What the code relies on when it uses a dictionary as a keyed store.\<close>

locale keyed_store =
  fixes lookup :: "'d \<Rightarrow> 'k \<Rightarrow> 'v option"
    and put :: "'k \<Rightarrow> 'v \<Rightarrow> 'd \<Rightarrow> 'd"
    and del :: "'k \<Rightarrow> 'd \<Rightarrow> 'd"
  assumes lookup_put: "lookup (put k v d) j = (if j = k then Some v else lookup d j)"
    and lookup_del: "lookup (del k d) j = (if j = k then None else lookup d j)"
begin

lemma lookup_put_same: "lookup (put k v d) k = Some v"
  by (simp add: lookup_put)

lemma lookup_put_other: "j \<noteq> k \<Longrightarrow> lookup (put k v d) j = lookup d j"
  by (simp add: lookup_put)

lemma lookup_del_put: "lookup (del k (put k v d)) j = lookup (del k d) j"
  by (simp add: lookup_del lookup_put)

lemma lookup_del_fold:
  "lookup (fold del ks d) j = (if j \<in> set ks then None else lookup d j)"
  by (induction ks arbitrary: d) (auto simp: lookup_del)

end

interpretation dict: keyed_store dget dput ddel
  by unfold_locales (auto simp: update_conv' delete_conv')

lemmas dget_put [simp] = dict.lookup_put
lemmas dget_del [simp] = dict.lookup_del

lemma dwf_Nil [simp, intro]: "dwf []"
  by (simp add: dwf_def)

lemma dwf_put [simp, intro]: "dwf d \<Longrightarrow> dwf (dput k v d)"
  by (simp add: dwf_def distinct_update)

lemma dwf_del [simp, intro]: "dwf d \<Longrightarrow> dwf (ddel k d)"
  by (simp add: dwf_def distinct_delete)

lemma dwf_filter [simp, intro]: "dwf d \<Longrightarrow> dwf (filter P d)"
  by (induction d) (auto simp: dwf_def)

lemma dwf_dget_iff: "dwf d \<Longrightarrow> dget d k = Some v \<longleftrightarrow> (k, v) \<in> set d"
  by (simp add: dwf_def)

lemma dkeys_put: "dkeys (dput k v d) = (if k \<in> set (dkeys d) then dkeys d else dkeys d @ [k])"
  by (induction d) auto

lemma dget_filter:
  "dwf d \<Longrightarrow> dget (filter P d) k = (case dget d k of None \<Rightarrow> None
     | Some v \<Rightarrow> if P (k, v) then Some v else None)"
proof (induction d)
  case (Cons x d)
  have "k \<notin> fst ` set (filter P d)" if "k \<notin> fst ` set d"
    using that by auto
  with Cons show ?case
    by (cases x) (auto simp: dwf_def map_of_eq_None_iff split: option.splits)
qed simp

lemma dget_map_ran: "dget (map (\<lambda>(k, v). (k, f k v)) d) k = map_option (f k) (dget d k)"
  by (induction d) auto

lemma dwf_map_ran [simp, intro]: "dwf d \<Longrightarrow> dwf (map (\<lambda>(k, v). (k, f k v)) d)"
  by (simp add: dwf_def comp_def case_prod_unfold)

lemma length_dput: "length (dput k v d) = (if dget d k = None then Suc (length d) else length d)"
  by (induction d) auto

lemma length_ddel_le: "length (ddel k d) \<le> length d"
  by (rule length_delete_le)

section \<open>Results with exceptions\<close>

fun rbind :: "'e + 'a \<Rightarrow> ('a \<Rightarrow> 'e + 'b) \<Rightarrow> 'e + 'b" where
  "rbind (Inl e) f = Inl e"
| "rbind (Inr a) f = f a"

definition guard :: "bool \<Rightarrow> 'e \<Rightarrow> 'e + unit" where
  "guard ok e = (if ok then Inr () else Inl e)"

lemma rbind_Inr_iff: "rbind r f = Inr b \<longleftrightarrow> (\<exists>a. r = Inr a \<and> f a = Inr b)"
  by (cases r) auto

lemma guard_Inr_iff [simp]: "guard ok e = Inr u \<longleftrightarrow> ok"
  by (simp add: guard_def)

text \<open>\<^verbatim>\<open>for x in xs: check(x)\<close> where the check may raise: the first failure propagates.\<close>

fun rforeach :: "('a \<Rightarrow> 'e + unit) \<Rightarrow> 'a list \<Rightarrow> 'e + unit" where
  "rforeach f [] = Inr ()"
| "rforeach f (x # xs) = rbind (f x) (\<lambda>_. rforeach f xs)"

lemma rforeach_Inr_iff: "rforeach f xs = Inr u \<longleftrightarrow> (\<forall>x\<in>set xs. f x = Inr ())"
  by (induction xs) (auto simp: rbind_Inr_iff)

section \<open>Strings\<close>

definition lower_char :: "char \<Rightarrow> char" where
  "lower_char c = (let n = (of_char c :: nat)
     in if 65 \<le> n \<and> n \<le> 90 then char_of (n + 32) else c)"

definition upper_char :: "char \<Rightarrow> char" where
  "upper_char c = (let n = (of_char c :: nat)
     in if 97 \<le> n \<and> n \<le> 122 then char_of (n - 32) else c)"

definition str_lower :: "string \<Rightarrow> string" where
  "str_lower s = map lower_char s"

definition str_upper :: "string \<Rightarrow> string" where
  "str_upper s = map upper_char s"

definition starts_with :: "string \<Rightarrow> string \<Rightarrow> bool" where
  "starts_with p s \<longleftrightarrow> take (length p) s = p"

fun str_contains :: "string \<Rightarrow> string \<Rightarrow> bool" where
  "str_contains p [] \<longleftrightarrow> p = []"
| "str_contains p (c # cs) \<longleftrightarrow> starts_with p (c # cs) \<or> str_contains p cs"

lemma upper_char_idem [simp]: "upper_char (upper_char c) = upper_char c"
proof -
  have "of_char c < (256 :: nat)" by simp
  then show ?thesis
    by (auto simp: upper_char_def Let_def)
qed

lemma str_upper_idem [simp]: "str_upper (str_upper s) = str_upper s"
  by (simp add: str_upper_def)

section \<open>Generic interfaces of state machines\<close>

text \<open>
  A component whose operations are events: every operation keeps an invariant, so every
  run does. The components interpret these locales on their own step functions.
\<close>

locale event_system =
  fixes step :: "'s \<Rightarrow> 'e \<Rightarrow> 's"
    and inv :: "'s \<Rightarrow> bool"
  assumes step_inv: "inv s \<Longrightarrow> inv (step s e)"
begin

lemma run_inv: "inv s \<Longrightarrow> inv (foldl step s es)"
  by (induction es arbitrary: s) (auto intro: step_inv)

lemma run_prefix_inv: "inv s \<Longrightarrow> inv (foldl step s (take n es))"
  by (rule run_inv)

end

text \<open>A quantity that no operation decreases.\<close>

locale monotone_system = event_system step inv
  for step :: "'s \<Rightarrow> 'e \<Rightarrow> 's" and inv :: "'s \<Rightarrow> bool" +
  fixes level :: "'s \<Rightarrow> 'a :: order"
  assumes step_level: "inv s \<Longrightarrow> level s \<le> level (step s e)"
begin

lemma run_level: "inv s \<Longrightarrow> level s \<le> level (foldl step s es)"
proof (induction es arbitrary: s)
  case (Cons e es)
  then show ?case
    using step_level [of s e] step_inv [of s e] Cons.IH [of "step s e"] by (auto intro: order_trans)
qed simp

end

text \<open>A latched condition: only a releasing event ends it.\<close>

locale latched_system =
  fixes step :: "'s \<Rightarrow> 'e \<Rightarrow> 's"
    and latched :: "'s \<Rightarrow> bool"
    and releases :: "'e \<Rightarrow> bool"
  assumes step_latched: "latched s \<Longrightarrow> \<not> releases e \<Longrightarrow> latched (step s e)"
begin

lemma run_latched: "latched s \<Longrightarrow> \<forall>e\<in>set es. \<not> releases e \<Longrightarrow> latched (foldl step s es)"
  by (induction es arbitrary: s) (auto intro: step_latched)

lemma unlatched_released:
  assumes "latched s" and "\<not> latched (foldl step s es)"
  shows "\<exists>e\<in>set es. releases e"
  using run_latched [of s es] assms by blast

end

lemma foldl_invariant:
  "P s \<Longrightarrow> (\<And>s x. x \<in> set xs \<Longrightarrow> P s \<Longrightarrow> P (f s x)) \<Longrightarrow> P (foldl f s xs)"
  by (induction xs arbitrary: s) auto

end
