(* ===== verification/Float64.thy ===== *)
theory Float64
  imports Complex_Main "HOL-Library.Log_Nat" Prelude
begin

text \<open>
  Python's \<^verbatim>\<open>float\<close>: IEEE-754 binary64 on finite values. A double is the rational it
  denotes, and \<open>fl\<close> rounds a rational to the nearest double (ties to even, 53 significant
  bits, gradual underflow at \<open>2 ^ -1074\<close>). Every arithmetic operation of the source is the
  exact operation followed by \<open>fl\<close>, so the rounding errors of the code are errors of the
  model. Infinities and NaN, which need an overflow beyond \<open>2 ^ 1024\<close> or an invalid
  operation, are not modelled; comparisons are exact, as they are in the code.
\<close>

definition fexp :: "rat \<Rightarrow> int" where
  "fexp x = (let (p, q) = quotient_of x; e = bitlen p - bitlen q
             in if 2 powi e \<le> x then e else e - 1)"

definition round_even :: "rat \<Rightarrow> int" where
  "round_even x = (let n = floor x; r = x - of_int n
     in if r < 1/2 then n else if 1/2 < r then n + 1 else if even n then n else n + 1)"

definition ulp_exp :: "rat \<Rightarrow> int" where
  "ulp_exp x = max (fexp \<bar>x\<bar> - 52) (- 1074)"

definition fl :: "rat \<Rightarrow> rat" where
  "fl x = (if x = 0 then 0 else of_int (round_even (x / 2 powi ulp_exp x)) * 2 powi ulp_exp x)"

lemma bitlen_rat_bounds:
  assumes "0 < n"
  shows "2 powi (bitlen n - 1) \<le> (of_int n :: rat)" and "(of_int n :: rat) < 2 powi bitlen n"
proof -
  have b: "2 ^ nat (bitlen n - 1) \<le> n \<and> n < 2 ^ nat (bitlen n)"
    using bitlen_bounds [OF assms] .
  have pos: "0 < bitlen n"
    using assms by (metis b bitlen_nonneg leD le_less less_one linorder_not_less nat_0 power_0 zless_nat_conj int_one_le_iff_zero_less)
  have "(of_int (2 ^ nat (bitlen n - 1)) :: rat) \<le> of_int n"
    using b by (simp only: of_int_le_iff)
  then show "2 powi (bitlen n - 1) \<le> (of_int n :: rat)"
    using pos by (simp add: power_int_def)
  have "(of_int n :: rat) < of_int (2 ^ nat (bitlen n))"
    using b by (simp only: of_int_less_iff)
  then show "(of_int n :: rat) < 2 powi bitlen n"
    using pos by (simp add: power_int_def)
qed

lemma fexp_bounds:
  assumes "0 < x"
  shows "2 powi fexp x \<le> x" and "x < 2 powi (fexp x + 1)"
proof -
  obtain p q where pq: "quotient_of x = (p, q)" by (cases "quotient_of x")
  have q: "0 < q" using pq by (simp add: quotient_of_denom_pos)
  have x: "x = of_int p / of_int q" using pq by (rule quotient_of_div)
  have p: "0 < p" using assms q by (simp add: x zero_less_divide_iff)
  let ?e = "bitlen p - bitlen q"
  note bp = bitlen_rat_bounds [OF p] and bq = bitlen_rat_bounds [OF q]
  have "2 powi (?e - 1) * of_int q < 2 powi (?e - 1) * (2 powi bitlen q :: rat)"
    using bq(2) by (intro mult_strict_left_mono) simp_all
  also have "\<dots> = 2 powi (bitlen p - 1)" by (simp flip: power_int_add)
  also have "\<dots> \<le> of_int p" by (rule bp(1))
  finally have lo: "2 powi (?e - 1) \<le> x" using q by (simp add: x pos_le_divide_eq)
  have "(of_int p :: rat) < 2 powi bitlen p" by (rule bp(2))
  also have "\<dots> = 2 powi (?e + 1) * 2 powi (bitlen q - 1)" by (simp flip: power_int_add)
  also have "\<dots> \<le> 2 powi (?e + 1) * of_int q"
    using bq(1) by (intro mult_left_mono) simp_all
  finally have hi: "x < 2 powi (?e + 1)" using q by (simp add: x pos_divide_less_eq)
  show "2 powi fexp x \<le> x" using lo by (auto simp: fexp_def pq Let_def)
  show "x < 2 powi (fexp x + 1)" using hi by (auto simp: fexp_def pq Let_def)
qed

lemma fexp_le_iff: "0 < x \<Longrightarrow> e \<le> fexp x \<longleftrightarrow> 2 powi e \<le> x"
proof
  assume x: "0 < x" and "e \<le> fexp x"
  then have "2 powi e \<le> (2 powi fexp x :: rat)" by (simp add: power_int_increasing)
  also have "\<dots> \<le> x" by (rule fexp_bounds(1) [OF x])
  finally show "2 powi e \<le> x" .
next
  assume x: "0 < x" and "2 powi e \<le> x"
  then have "2 powi e < (2 powi (fexp x + 1) :: rat)" using fexp_bounds(2) [OF x] by linarith
  then show "e \<le> fexp x" by (metis linorder_not_less numeral_le_one_iff one_le_numeral
     power_int_increasing semiring_norm(69) zless_imp_add1_zle not_le zless_add1_eq)
qed

lemma fexp_mono: "0 < x \<Longrightarrow> x \<le> y \<Longrightarrow> fexp x \<le> fexp y"
  using fexp_bounds(1) [of x] by (simp add: fexp_le_iff [of y])

lemma round_even_mono: "x \<le> y \<Longrightarrow> round_even x \<le> round_even y"
proof -
  assume le: "x \<le> y"
  show ?thesis
  proof (cases "floor x = floor y")
    case True
    then show ?thesis using le by (auto simp: round_even_def Let_def)
  next
    case False
    then have "floor x + 1 \<le> floor y" using le floor_mono [OF le] by linarith
    moreover have "round_even x \<le> floor x + 1" "floor y \<le> round_even y"
      by (auto simp: round_even_def Let_def)
    ultimately show ?thesis by linarith
  qed
qed

lemma round_even_of_int [simp]: "round_even (of_int n) = n"
  by (simp add: round_even_def)

lemma round_even_minus: "round_even (- x) = - round_even x"
proof (cases "x = of_int (floor x)")
  case True
  then show ?thesis by (metis of_int_minus round_even_of_int)
next
  case False
  then have "floor (- x) = - floor x - 1" by (simp add: floor_minus ceiling_altdef)
  moreover have "0 < x - of_int (floor x)" using False by (simp add: less_le)
  ultimately show ?thesis by (auto simp: round_even_def Let_def)
qed

lemma round_even_error: "\<bar>of_int (round_even x) - x\<bar> \<le> 1 / 2"
proof -
  have "of_int (floor x) \<le> x" "x < of_int (floor x) + 1" by linarith+
  then show ?thesis by (auto simp: round_even_def Let_def abs_le_iff)
qed

lemma fl_zero [simp]: "fl 0 = 0"
  by (simp add: fl_def)

lemma fl_minus: "fl (- x) = - fl x"
  by (simp add: fl_def ulp_exp_def round_even_minus flip: minus_divide_left)

lemma fl_pos_form:
  "0 < x \<Longrightarrow> fl x = of_int (round_even (x / 2 powi ulp_exp x)) * 2 powi ulp_exp x"
  by (simp add: fl_def)

lemma ulp_exp_mono: "0 < x \<Longrightarrow> x \<le> y \<Longrightarrow> ulp_exp x \<le> ulp_exp y"
  using fexp_mono [of x y] by (auto simp: ulp_exp_def)

lemma fl_nonneg: "0 \<le> x \<Longrightarrow> 0 \<le> fl x"
proof (cases "x = 0")
  case False
  assume "0 \<le> x"
  then have "round_even 0 \<le> round_even (x / 2 powi ulp_exp x)"
    by (intro round_even_mono) simp
  moreover have "round_even 0 = 0" using round_even_of_int [of 0] by simp
  ultimately show ?thesis by (simp add: fl_def)
qed simp

text \<open>A number with at most 53 significant bits, above the subnormal grid, is a double.\<close>

lemma ulp_exp_le:
  assumes "0 < x" "x < 2 powi (e + 53)" "- 1074 \<le> e"
  shows "ulp_exp x \<le> e"
proof -
  have "fexp x < e + 53"
    using assms(2) fexp_le_iff [OF assms(1), of "e + 53"] by linarith
  then show ?thesis using assms(1,3) by (simp add: ulp_exp_def)
qed

lemma fl_grid_pos:
  assumes "0 < m" "m \<le> 2 ^ 53" "- 1074 \<le> e"
  shows "fl (of_int m * 2 powi e) = of_int m * 2 powi e"
proof -
  let ?x = "of_int m * 2 powi e :: rat"
  have pos: "0 < ?x" using assms(1) by simp
  have exact: "fl ?x = ?x" if u: "ulp_exp ?x = u" and k: "?x = of_int k * 2 powi u" for u k
  proof -
    have "?x / 2 powi u = of_int k" by (subst k) simp
    then show ?thesis unfolding fl_pos_form [OF pos] u by (simp only: round_even_of_int k)
  qed
  show ?thesis
  proof (cases "m = 2 ^ 53")
    case False
    then have m: "m < 2 ^ 53" using assms(2) by simp
    have "(of_int m :: rat) < of_int (2 ^ 53)" using m by (simp only: of_int_less_iff)
    then have "?x < 2 ^ 53 * 2 powi e" by simp
    also have "\<dots> = 2 powi (e + 53)" by (simp add: power_int_add)
    finally have le: "ulp_exp ?x \<le> e" by (rule ulp_exp_le [OF pos _ assms(3)])
    let ?k = "m * 2 ^ nat (e - ulp_exp ?x)"
    have "(2 :: rat) powi e = 2 powi (e - ulp_exp ?x) * 2 powi ulp_exp ?x"
      by (simp flip: power_int_add)
    then have "?x = of_int ?k * 2 powi ulp_exp ?x"
      using le by (simp add: power_int_def)
    then show ?thesis by (rule exact [OF refl])
  next
    case True
    have x: "?x = 2 powi (e + 53)" by (simp add: True power_int_add)
    have "fexp ?x = e + 53"
      using fexp_bounds [OF pos] fexp_le_iff [OF pos, of "e + 53"] fexp_le_iff [OF pos, of "e + 54"]
      unfolding x by (auto simp: power_int_add)
    then have "ulp_exp ?x = e + 1" using pos assms(3) by (simp add: ulp_exp_def)
    moreover have "?x = of_int (2 ^ 52) * 2 powi (e + 1)" by (simp add: x power_int_add)
    ultimately show ?thesis by (rule exact)
  qed
qed

lemma fl_grid:
  assumes "\<bar>m\<bar> \<le> 2 ^ 53" "- 1074 \<le> e"
  shows "fl (of_int m * 2 powi e) = of_int m * 2 powi e"
proof (cases m "0 :: int" rule: linorder_cases)
  case less
  then have "fl (of_int (- m) * 2 powi e) = of_int (- m) * 2 powi e"
    using assms by (intro fl_grid_pos) auto
  then show ?thesis by (simp add: fl_minus)
qed (use assms fl_grid_pos in auto)

lemma fl_dyadic:
  assumes "\<bar>m\<bar> \<le> 2 ^ 53" "k \<le> 1074"
  shows "fl (of_int m / 2 ^ k) = of_int m / 2 ^ k"
  using fl_grid [of m "- int k"] assms by (simp add: power_int_minus divide_inverse)

lemma fl_of_int: "\<bar>m\<bar> \<le> 2 ^ 53 \<Longrightarrow> fl (of_int m) = of_int m"
  using fl_grid [of m 0] by simp

lemma round_even_le: "x \<le> of_int n \<Longrightarrow> round_even x \<le> n"
  using round_even_mono [of x "of_int n"] by simp

lemma round_even_ge: "of_int n \<le> x \<Longrightarrow> n \<le> round_even x"
  using round_even_mono [of "of_int n" x] by simp

lemma fl_significand:
  assumes "0 < x"
  shows "0 \<le> round_even (x / 2 powi ulp_exp x)" and "round_even (x / 2 powi ulp_exp x) \<le> 2 ^ 53"
proof -
  show "0 \<le> round_even (x / 2 powi ulp_exp x)"
    using assms by (intro round_even_ge) simp
  have "x < 2 powi (fexp x + 1)" by (rule fexp_bounds(2) [OF assms])
  also have "\<dots> \<le> 2 powi (ulp_exp x + 53)"
    using assms by (intro power_int_increasing) (auto simp: ulp_exp_def)
  also have "\<dots> = 2 ^ 53 * 2 powi ulp_exp x" by (simp add: power_int_add)
  finally show "round_even (x / 2 powi ulp_exp x) \<le> 2 ^ 53"
    by (intro round_even_le) (simp add: divide_le_eq)
qed

lemma fl_idem [simp]: "fl (fl x) = fl x"
proof -
  have pos: "fl (fl x) = fl x" if "0 < x" for x
    using fl_significand [OF that] unfolding fl_pos_form [OF that]
    by (intro fl_grid) (auto simp: ulp_exp_def)
  show ?thesis
  proof (cases x "0 :: rat" rule: linorder_cases)
    case less
    then have "fl (fl (- x)) = fl (- x)" by (intro pos) simp
    then show ?thesis by (simp add: fl_minus)
  qed (use pos in auto)
qed

lemma fl_mono_pos:
  assumes "0 < x" "x \<le> y"
  shows "fl x \<le> fl y"
proof -
  have y: "0 < y" using assms by simp
  note le = ulp_exp_mono [OF assms]
  show ?thesis
  proof (cases "ulp_exp x = ulp_exp y")
    case True
    have "round_even (x / 2 powi ulp_exp y) \<le> round_even (y / 2 powi ulp_exp y)"
      using assms(2) by (intro round_even_mono) (simp add: divide_right_mono)
    then show ?thesis using True by (simp add: fl_pos_form assms(1) y)
  next
    case False
    then have u: "ulp_exp x + 1 \<le> ulp_exp y" using le by simp
    then have yu: "ulp_exp y = fexp y - 52" using y by (auto simp: ulp_exp_def split: if_splits)
    have "fl x \<le> of_int (2 ^ 53) * 2 powi ulp_exp x"
      unfolding fl_pos_form [OF assms(1)] using fl_significand(2) [OF assms(1)]
      by (intro mult_right_mono) (simp_all only: of_int_le_iff, simp_all)
    also have "\<dots> = 2 powi (ulp_exp x + 53)" by (simp add: power_int_add)
    also have "\<dots> \<le> 2 powi fexp y"
      using u yu by (intro power_int_increasing) auto
    also have "\<dots> = of_int (2 ^ 52) * 2 powi ulp_exp y"
      by (simp add: yu power_int_diff)
    also have "\<dots> \<le> fl y"
    proof -
      have "2 ^ 52 * 2 powi ulp_exp y \<le> y"
        using fexp_bounds(1) [OF y] by (simp add: yu power_int_diff)
      then have "2 ^ 52 \<le> round_even (y / 2 powi ulp_exp y)"
        by (intro round_even_ge) (simp add: le_divide_eq)
      then show ?thesis unfolding fl_pos_form [OF y]
        by (intro mult_right_mono) (simp_all only: of_int_le_iff, simp_all)
    qed
    finally show ?thesis .
  qed
qed

lemma fl_mono: "x \<le> y \<Longrightarrow> fl x \<le> fl y"
proof -
  assume le: "x \<le> y"
  consider "0 < x" | "x \<le> 0" "0 \<le> y" | "y < 0" by linarith
  then show ?thesis
  proof cases
    case 1
    then show ?thesis using le by (rule fl_mono_pos)
  next
    case 2
    then have "fl x \<le> 0" using fl_nonneg [of "- x"] by (simp add: fl_minus)
    also have "0 \<le> fl y" using 2 by (simp add: fl_nonneg)
    finally show ?thesis .
  next
    case 3
    then have "fl (- y) \<le> fl (- x)" using le by (intro fl_mono_pos) auto
    then show ?thesis by (simp add: fl_minus)
  qed
qed

section \<open>The interface of a rounding function\<close>

text \<open>What the components rely on; \<open>fl\<close> provides it.\<close>

locale float_rounding =
  fixes rnd :: "rat \<Rightarrow> rat"
  assumes rnd_mono: "x \<le> y \<Longrightarrow> rnd x \<le> rnd y"
    and rnd_zero: "rnd 0 = 0"
    and rnd_minus: "rnd (- x) = - rnd x"
    and rnd_idem: "rnd (rnd x) = rnd x"
begin

lemma rnd_nonneg: "0 \<le> x \<Longrightarrow> 0 \<le> rnd x"
  using rnd_mono [of 0 x] by (simp add: rnd_zero)

lemma rnd_nonpos: "x \<le> 0 \<Longrightarrow> rnd x \<le> 0"
  using rnd_mono [of x 0] by (simp add: rnd_zero)

lemma rnd_le_rep: "rnd b = b \<Longrightarrow> x \<le> b \<Longrightarrow> rnd x \<le> b"
  using rnd_mono [of x b] by simp

lemma rnd_ge_rep: "rnd a = a \<Longrightarrow> a \<le> x \<Longrightarrow> a \<le> rnd x"
  using rnd_mono [of a x] by simp

lemma rnd_pos_imp: "0 < rnd x \<Longrightarrow> 0 < x"
  using rnd_nonpos [of x] by linarith

lemma rnd_neg_imp: "rnd x < 0 \<Longrightarrow> x < 0"
  using rnd_nonneg [of x] by linarith

end

interpretation f64: float_rounding fl
  by unfold_locales (auto simp: fl_mono fl_minus)

section \<open>Arithmetic of doubles\<close>

definition is_double :: "rat \<Rightarrow> bool" where
  "is_double x \<longleftrightarrow> fl x = x"

definition fadd :: "rat \<Rightarrow> rat \<Rightarrow> rat" where
  "fadd a b = fl (a + b)"

definition fsub :: "rat \<Rightarrow> rat \<Rightarrow> rat" where
  "fsub a b = fl (a - b)"

definition fmul :: "rat \<Rightarrow> rat \<Rightarrow> rat" where
  "fmul a b = fl (a * b)"

text \<open>\<^verbatim>\<open>a / b\<close>; a zero divisor raises ZeroDivisionError, which the callers exclude or
  model themselves.\<close>

definition fdiv :: "rat \<Rightarrow> rat \<Rightarrow> rat" where
  "fdiv a b = fl (a / b)"

text \<open>\<^verbatim>\<open>round(x, n)\<close> of a float: the decimal rounding is exact (half to even on the exact
  value), then the decimal is converted to the nearest double.\<close>

definition py_round :: "rat \<Rightarrow> nat \<Rightarrow> rat" where
  "py_round x n = fl (of_int (round_even (x * 10 ^ n)) / 10 ^ n)"

text \<open>\<^verbatim>\<open>int(x)\<close> of a float truncates towards zero.\<close>

definition py_int :: "rat \<Rightarrow> int" where
  "py_int x = (if 0 \<le> x then floor x else ceiling x)"

lemma is_double_fl [simp]: "is_double (fl x)"
  by (simp add: is_double_def)

lemma is_double_0 [simp]: "is_double 0"
  by (simp add: is_double_def)

lemma is_double_1 [simp]: "is_double 1"
  using fl_of_int [of 1] by (simp add: is_double_def)

lemma is_double_ops [simp]:
  "is_double (fadd a b)" "is_double (fsub a b)" "is_double (fmul a b)" "is_double (fdiv a b)"
  by (simp_all add: fadd_def fsub_def fmul_def fdiv_def)

lemma is_double_max [simp]: "is_double a \<Longrightarrow> is_double b \<Longrightarrow> is_double (max a b)"
  by (simp add: max_def)

lemma is_double_min [simp]: "is_double a \<Longrightarrow> is_double b \<Longrightarrow> is_double (min a b)"
  by (simp add: min_def)

lemma fl_double [simp]: "is_double x \<Longrightarrow> fl x = x"
  by (simp add: is_double_def)

lemma fadd_mono: "a \<le> c \<Longrightarrow> b \<le> d \<Longrightarrow> fadd a b \<le> fadd c d"
  by (simp add: fadd_def fl_mono)

lemma fsub_mono: "a \<le> c \<Longrightarrow> d \<le> b \<Longrightarrow> fsub a b \<le> fsub c d"
  by (simp add: fsub_def fl_mono)

lemma fmul_mono: "a \<le> c \<Longrightarrow> b \<le> d \<Longrightarrow> 0 \<le> b \<Longrightarrow> 0 \<le> c \<Longrightarrow> fmul a b \<le> fmul c d"
  by (simp add: fmul_def fl_mono mult_mono)

lemma fadd_nonneg: "0 \<le> a \<Longrightarrow> 0 \<le> b \<Longrightarrow> 0 \<le> fadd a b"
  by (simp add: fadd_def f64.rnd_nonneg)

lemma fadd_ge_left: "is_double a \<Longrightarrow> 0 \<le> b \<Longrightarrow> a \<le> fadd a b"
  unfolding fadd_def by (rule f64.rnd_ge_rep) (simp_all add: is_double_def)

lemma fsub_nonneg: "b \<le> a \<Longrightarrow> 0 \<le> fsub a b"
  by (simp add: fsub_def f64.rnd_nonneg)

lemma fsub_le_left: "is_double a \<Longrightarrow> 0 \<le> b \<Longrightarrow> fsub a b \<le> a"
  unfolding fsub_def by (rule f64.rnd_le_rep) (simp_all add: is_double_def)

lemma fmul_nonneg: "0 \<le> a \<Longrightarrow> 0 \<le> b \<Longrightarrow> 0 \<le> fmul a b"
  by (simp add: fmul_def f64.rnd_nonneg)

lemma fdiv_nonneg: "0 \<le> a \<Longrightarrow> 0 \<le> b \<Longrightarrow> 0 \<le> fdiv a b"
  by (simp add: fdiv_def f64.rnd_nonneg)

lemma fsub_pos_imp: "0 < fsub a b \<Longrightarrow> b < a"
  unfolding fsub_def using f64.rnd_pos_imp [of "a - b"] by simp

lemma fsub_self [simp]: "fsub a a = 0"
  by (simp add: fsub_def)

lemma py_round_mono: "x \<le> y \<Longrightarrow> py_round x n \<le> py_round y n"
  unfolding py_round_def by (intro fl_mono divide_right_mono) (auto intro: round_even_mono mult_right_mono)

lemma py_round_int: "\<bar>k\<bar> \<le> 2 ^ 53 \<Longrightarrow> py_round (of_int k) n = of_int k"
proof -
  assume k: "\<bar>k\<bar> \<le> 2 ^ 53"
  have "of_int k * 10 ^ n = (of_int (k * 10 ^ n) :: rat)" by simp
  then have "round_even (of_int k * 10 ^ n) = k * 10 ^ n" by (metis round_even_of_int)
  then show ?thesis using fl_of_int [OF k] by (simp add: py_round_def)
qed

lemmas fl_ops = fadd_def fsub_def fmul_def fdiv_def

end
