(* ===== verification/Json.thy ===== *)
theory Json
  imports Prelude Float64
begin

text \<open>
  JSON values as Python holds them after \<^verbatim>\<open>json.loads\<close>, with the type tests and the
  accessors that the code applies to them.
\<close>

datatype json =
    JNull
  | JBool bool
  | JInt int
  | JFloat rat
  | JStr string
  | JArr "json list"
  | JObj "(string \<times> json) list"

fun is_jstr :: "json \<Rightarrow> bool" where
  "is_jstr (JStr s) = True"
| "is_jstr _ = False"

fun is_jobj :: "json \<Rightarrow> bool" where
  "is_jobj (JObj d) = True"
| "is_jobj _ = False"

text \<open>\<^verbatim>\<open>isinstance(x, int)\<close>: a \<^verbatim>\<open>bool\<close> is an \<^verbatim>\<open>int\<close> in Python.\<close>

fun is_py_int :: "json \<Rightarrow> bool" where
  "is_py_int (JInt n) = True"
| "is_py_int (JBool b) = True"
| "is_py_int _ = False"

text \<open>\<^verbatim>\<open>isinstance(x, (int, float)) and not isinstance(x, bool)\<close>.\<close>

fun is_number :: "json \<Rightarrow> bool" where
  "is_number (JInt n) = True"
| "is_number (JFloat q) = True"
| "is_number _ = False"

text \<open>\<^verbatim>\<open>x == n\<close> for an integer literal \<open>n\<close>: numbers compare across types.\<close>

fun py_eq_int :: "json \<Rightarrow> int \<Rightarrow> bool" where
  "py_eq_int (JInt k) n = (k = n)"
| "py_eq_int (JFloat q) n = (q = of_int n)"
| "py_eq_int (JBool b) n = ((if b then 1 else 0) = n)"
| "py_eq_int _ n = False"

text \<open>\<^verbatim>\<open>d.get(k)\<close> of a dictionary (\<^verbatim>\<open>None\<close> when absent or when the value is null).\<close>

fun jget :: "string \<Rightarrow> json \<Rightarrow> json" where
  "jget k (JObj d) = (case dget d k of None \<Rightarrow> JNull | Some v \<Rightarrow> v)"
| "jget k _ = JNull"

text \<open>\<^verbatim>\<open>d[k] = v\<close> on a dictionary.\<close>

fun jset :: "string \<Rightarrow> json \<Rightarrow> json \<Rightarrow> json" where
  "jset k v (JObj d) = JObj (dput k v d)"
| "jset k v j = j"

fun jpop :: "string \<Rightarrow> json \<Rightarrow> json" where
  "jpop k (JObj d) = JObj (ddel k d)"
| "jpop k j = j"

text \<open>\<^verbatim>\<open>d.update({...})\<close>.\<close>

definition jupdate :: "(string \<times> json) list \<Rightarrow> json \<Rightarrow> json" where
  "jupdate kvs e = fold (\<lambda>(k, v). jset k v) kvs e"

fun jstr_or :: "string \<Rightarrow> json \<Rightarrow> string" where
  "jstr_or s (JStr t) = t"
| "jstr_or s _ = s"

lemma jget_jset [simp]: "is_jobj e \<Longrightarrow> jget j (jset k v e) = (if j = k then v else jget j e)"
  by (cases e) auto

lemma jget_jpop [simp]: "is_jobj e \<Longrightarrow> jget j (jpop k e) = (if j = k then JNull else jget j e)"
  by (cases e) auto

lemma is_jobj_jset [simp]: "is_jobj (jset k v e) = is_jobj e"
  by (cases e) auto

lemma is_jobj_jpop [simp]: "is_jobj (jpop k e) = is_jobj e"
  by (cases e) auto

lemma jupdate_Nil [simp]: "jupdate [] e = e"
  by (simp add: jupdate_def)

lemma jupdate_Cons [simp]: "jupdate ((k, v) # kvs) e = jupdate kvs (jset k v e)"
  by (simp add: jupdate_def)

lemma is_jobj_jupdate [simp]: "is_jobj (jupdate kvs e) = is_jobj e"
proof (induction kvs arbitrary: e)
  case (Cons kv kvs)
  then show ?case by (cases kv) simp
qed simp

lemma jget_not_null_obj: "jget k e \<noteq> JNull \<Longrightarrow> is_jobj e"
  by (cases e) auto

lemma is_jobj_iff: "is_jobj e \<longleftrightarrow> (\<exists>d. e = JObj d)"
  by (cases e) auto

lemma is_jstr_iff: "is_jstr e \<longleftrightarrow> (\<exists>s. e = JStr s)"
  by (cases e) auto

end
