(* ===== verification/RetryPolicy.thy ===== *)
theory RetryPolicy
  imports Json "HOL-Library.Product_Lexorder"
begin

text \<open>
  The retry policy of \<^verbatim>\<open>src/app/exchange/retry_budget.py\<close>: outcome classification of a
  Bybit answer, request priorities with their rate-limit retry caps, and the bounded,
  non-decreasing backoff schedule of one logical request.
\<close>

section \<open>Outcome classes\<close>

datatype outcome_class =
    CLASS_OK | CLASS_TIMEOUT | CLASS_RATE_LIMIT | CLASS_API_ERROR
  | CLASS_ACCESS_DENIED | CLASS_HTTP_ERROR | CLASS_PAYLOAD_ERROR | CLASS_TRANSPORT_ERROR

definition RETRYABLE_CLASSES :: "outcome_class list" where
  "RETRYABLE_CLASSES = [CLASS_TIMEOUT, CLASS_RATE_LIMIT]"

definition HARD_MAX_ATTEMPTS :: int where
  "HARD_MAX_ATTEMPTS = 3"

definition RATE_LIMIT_PHRASES :: "string list" where
  "RATE_LIMIT_PHRASES = [''too many visits'', ''exceeded the api rate limit'']"

definition ACCESS_DENIED_PHRASES :: "string list" where
  "ACCESS_DENIED_PHRASES = [''access too frequent'']"

definition AUTH_DENIED_CODES :: "int list" where
  "AUTH_DENIED_CODES = [10003, 10004, 10005]"

text \<open>A strict \<^verbatim>\<open>retCode\<close>: a JSON integer, not a boolean.\<close>

fun is_valid_ret_code :: "json \<Rightarrow> bool" where
  "is_valid_ret_code (JInt n) = True"
| "is_valid_ret_code _ = False"

definition is_auth_error_result :: "json \<Rightarrow> bool" where
  "is_auth_error_result ret_code \<longleftrightarrow>
     is_valid_ret_code ret_code \<and> list_ex (py_eq_int ret_code) AUTH_DENIED_CODES"

text \<open>\<^verbatim>\<open>str(ret_msg or "").lower()\<close>; the message is text or absent.\<close>

definition lowered_msg :: "string option \<Rightarrow> string" where
  "lowered_msg msg = (case msg of None \<Rightarrow> '''' | Some s \<Rightarrow> str_lower s)"

definition is_rate_limit_result :: "json \<Rightarrow> string option \<Rightarrow> bool" where
  "is_rate_limit_result ret_code ret_msg \<longleftrightarrow>
     py_eq_int ret_code 10006 \<or>
     list_ex (\<lambda>phrase. str_contains phrase (lowered_msg ret_msg)) RATE_LIMIT_PHRASES"

definition is_access_denied_result :: "string option \<Rightarrow> bool" where
  "is_access_denied_result ret_msg \<longleftrightarrow>
     list_ex (\<lambda>phrase. str_contains phrase (lowered_msg ret_msg)) ACCESS_DENIED_PHRASES"

definition classify_api_result :: "json \<Rightarrow> string option \<Rightarrow> outcome_class" where
  "classify_api_result ret_code ret_msg =
     (if is_access_denied_result ret_msg \<or> is_auth_error_result ret_code then CLASS_ACCESS_DENIED
      else if is_rate_limit_result ret_code ret_msg then CLASS_RATE_LIMIT
      else if \<not> is_valid_ret_code ret_code then CLASS_PAYLOAD_ERROR
      else if \<not> py_eq_int ret_code 0 then CLASS_API_ERROR
      else CLASS_OK)"

definition is_retryable :: "outcome_class \<Rightarrow> bool" where
  "is_retryable c \<longleftrightarrow> c \<in> set RETRYABLE_CLASSES"

section \<open>Priorities\<close>

datatype prio = P0 | P1 | P2 | P3

text \<open>\<^verbatim>\<open>PRIORITY_ORDER.index(prio)\<close>.\<close>

fun prio_index :: "prio \<Rightarrow> nat" where
  "prio_index P0 = 0"
| "prio_index P1 = 1"
| "prio_index P2 = 2"
| "prio_index P3 = 3"

lemma prio_index_inject [simp]: "prio_index p = prio_index q \<longleftrightarrow> p = q"
  by (cases p; cases q) auto

instantiation prio :: linorder
begin

definition less_eq_prio :: "prio \<Rightarrow> prio \<Rightarrow> bool" where
  "less_eq_prio p q \<longleftrightarrow> prio_index p \<le> prio_index q"

definition less_prio :: "prio \<Rightarrow> prio \<Rightarrow> bool" where
  "less_prio p q \<longleftrightarrow> prio_index p < prio_index q"

instance
  by intro_classes (auto simp: less_eq_prio_def less_prio_def)

end

definition PRIORITY_ORDER :: "prio list" where
  "PRIORITY_ORDER = [P0, P1, P2, P3]"

lemma set_PRIORITY_ORDER [simp]: "p \<in> set PRIORITY_ORDER"
  by (cases p) (auto simp: PRIORITY_ORDER_def)

fun prio_of_string :: "string \<Rightarrow> prio option" where
  "prio_of_string s =
     (if s = ''P0'' then Some P0 else if s = ''P1'' then Some P1
      else if s = ''P2'' then Some P2 else if s = ''P3'' then Some P3 else None)"

definition DEFAULT_PRIORITY :: prio where
  "DEFAULT_PRIORITY = P2"

definition ENDPOINT_PRIORITY :: "(string \<times> prio) list" where
  "ENDPOINT_PRIORITY =
     [(''/v5/order'', P0), (''/v5/position'', P0), (''/v5/market/kline'', P1),
      (''/v5/market/tickers'', P1), (''/v5/market/time'', P1), (''/v5/market'', P2)]"

datatype policy_error = ValueError string

text \<open>An explicit override wins (and must be known), then the first matching prefix.\<close>

definition resolve_priority :: "string option \<Rightarrow> string \<Rightarrow> policy_error + prio" where
  "resolve_priority explicit endpoint =
     (case explicit of
        Some s \<Rightarrow> (case prio_of_string s of None \<Rightarrow> Inl (ValueError s) | Some p \<Rightarrow> Inr p)
      | None \<Rightarrow> (case find (\<lambda>(prefix, _). starts_with prefix endpoint) ENDPOINT_PRIORITY of
                   Some (_, p) \<Rightarrow> Inr p | None \<Rightarrow> Inr DEFAULT_PRIORITY))"

fun RL_RETRY_CAPS :: "prio \<Rightarrow> int" where
  "RL_RETRY_CAPS P0 = 3"
| "RL_RETRY_CAPS P1 = 2"
| "RL_RETRY_CAPS P2 = 2"
| "RL_RETRY_CAPS P3 = 1"

definition rl_retry_cap :: "string \<Rightarrow> int" where
  "rl_retry_cap s =
     (case prio_of_string s of Some p \<Rightarrow> RL_RETRY_CAPS p | None \<Rightarrow> RL_RETRY_CAPS DEFAULT_PRIORITY)"

section \<open>Backoff\<close>

record backoff =
  timeout_base_s :: rat
  rate_limit_base_s :: rat
  max_delay_s :: rat
  last_delay :: rat

definition new_backoff :: "rat \<Rightarrow> rat \<Rightarrow> rat \<Rightarrow> backoff" where
  "new_backoff timeout_base rl_base max_delay =
     \<lparr>timeout_base_s = max 0 timeout_base, rate_limit_base_s = max 0 rl_base,
      max_delay_s = max 0 max_delay, last_delay = 0\<rparr>"

definition floor_and_bound :: "backoff \<Rightarrow> rat \<Rightarrow> rat \<times> backoff" where
  "floor_and_bound b delay =
     (let delay = max delay (last_delay b); delay = min delay (max_delay_s b)
      in (delay, b\<lparr>last_delay := delay\<rparr>))"

text \<open>\<open>jitter\<close> is the schedule's jitter source: the value it returns for a given span.\<close>

definition next_delay :: "(rat \<Rightarrow> rat) \<Rightarrow> backoff \<Rightarrow> outcome_class \<Rightarrow> int \<Rightarrow> rat \<times> backoff" where
  "next_delay jitter b classification attempt_number =
     (let n = max 1 attempt_number in
      if classification = CLASS_RATE_LIMIT then
        let base = fmul (rate_limit_base_s b) (2 ^ nat (n - 1));
            delay = fadd base (jitter (fmul base (1 / 2)))
        in floor_and_bound b delay
      else
        let base = fmul (timeout_base_s b) (2 ^ nat (n - 1))
        in floor_and_bound b base)"

text \<open>The delays of a sequence of retryable failures of one logical request.\<close>

fun delays :: "(rat \<Rightarrow> rat) \<Rightarrow> backoff \<Rightarrow> (outcome_class \<times> int) list \<Rightarrow> rat list" where
  "delays jitter b [] = []"
| "delays jitter b ((c, n) # fs) =
     (case next_delay jitter b c n of (d, b') \<Rightarrow> d # delays jitter b' fs)"

section \<open>Lemmas\<close>

named_theorems retry_defs "definitions of the retry policy"

declare classify_api_result_def [retry_defs] is_access_denied_result_def [retry_defs]
  is_auth_error_result_def [retry_defs] is_rate_limit_result_def [retry_defs]
  is_retryable_def [retry_defs] RETRYABLE_CLASSES_def [retry_defs]
  AUTH_DENIED_CODES_def [retry_defs] RATE_LIMIT_PHRASES_def [retry_defs]
  ACCESS_DENIED_PHRASES_def [retry_defs] lowered_msg_def [retry_defs]

lemma is_valid_ret_code_iff: "is_valid_ret_code c \<longleftrightarrow> (\<exists>n. c = JInt n)"
  by (cases c) auto

text \<open>Only the integer 0, without an access-denied or rate-limit phrase, is a success:
  no missing, null, boolean, float or text retCode is ever classified as OK.\<close>

theorem classify_ok_iff:
  "classify_api_result rc msg = CLASS_OK \<longleftrightarrow>
     rc = JInt 0 \<and> \<not> is_access_denied_result msg \<and> \<not> is_rate_limit_result rc msg"
  by (cases rc) (auto simp: classify_api_result_def is_auth_error_result_def AUTH_DENIED_CODES_def)

text \<open>An answer that is access-throttled or carries an authentication code is never
  retried, even when it also looks like a rate limit; the only answers retried are
  rate limits.\<close>

theorem retry_only_rate_limit:
  "is_retryable (classify_api_result rc msg) \<longleftrightarrow>
     is_rate_limit_result rc msg \<and> \<not> is_access_denied_result msg \<and> \<not> is_auth_error_result rc"
  by (auto simp: classify_api_result_def is_retryable_def RETRYABLE_CLASSES_def)

lemma RL_RETRY_CAPS_bounds: "1 \<le> RL_RETRY_CAPS p \<and> RL_RETRY_CAPS p \<le> HARD_MAX_ATTEMPTS"
  by (cases p) (auto simp: HARD_MAX_ATTEMPTS_def)

lemma RL_RETRY_CAPS_antimono: "p \<le> q \<Longrightarrow> RL_RETRY_CAPS q \<le> RL_RETRY_CAPS p"
  by (cases p; cases q) (auto simp: less_eq_prio_def)

lemma floor_and_bound_result:
  assumes "floor_and_bound b delay = (d, b')" and "last_delay b \<le> max_delay_s b"
  shows "last_delay b \<le> d" "d \<le> max_delay_s b" "last_delay b' = d"
    "max_delay_s b' = max_delay_s b"
  using assms by (auto simp: floor_and_bound_def Let_def)

lemma next_delay_is_bounded:
  "\<exists>delay. next_delay jitter b c n = floor_and_bound b delay"
  by (auto simp: next_delay_def Let_def)

lemma next_delay_result:
  assumes "next_delay jitter b c n = (d, b')" and "last_delay b \<le> max_delay_s b"
  shows "last_delay b \<le> d" "d \<le> max_delay_s b" "last_delay b' = d"
    "max_delay_s b' = max_delay_s b"
  using next_delay_is_bounded [of jitter b c n] floor_and_bound_result [OF _ assms(2)] assms(1)
  by metis+

lemma delays_bounded_sorted:
  "last_delay b \<le> max_delay_s b \<Longrightarrow>
     sorted (last_delay b # delays jitter b fs) \<and> (\<forall>d\<in>set (delays jitter b fs). d \<le> max_delay_s b)"
proof (induction fs arbitrary: b)
  case (Cons f fs)
  obtain c n where f: "f = (c, n)" by (cases f)
  obtain d b' where d: "next_delay jitter b c n = (d, b')" by (cases "next_delay jitter b c n")
  note r = next_delay_result [OF d Cons.prems]
  have "last_delay b' \<le> max_delay_s b'" using r by simp
  from Cons.IH [OF this] r show ?case by (auto simp: f d)
qed simp

text \<open>Every sequence of backoff delays of one logical request is non-decreasing,
  non-negative and bounded by the schedule's maximum, whatever the failure classes, the
  attempt numbers and the jitter source.\<close>

theorem backoff_monotone_bounded:
  "sorted (0 # delays jitter (new_backoff tb rb md) fs @ [max 0 md])"
proof -
  have b: "last_delay (new_backoff tb rb md) = 0" "max_delay_s (new_backoff tb rb md) = max 0 md"
    by (simp_all add: new_backoff_def)
  show ?thesis using delays_bounded_sorted [of "new_backoff tb rb md" jitter fs] unfolding b
    by (auto simp: sorted_append)
qed

end
