(* ===== verification/RetryGuards.thy ===== *)
theory RetryGuards
  imports RetryPolicy
begin

text \<open>
  The two process-wide guards of \<^verbatim>\<open>src/app/exchange/retry_budget.py\<close>: the retry storm guard
  (a sliding window over the monotonic times of attempts and retries) and the rate-limit
  breaker (a cooldown). Every method takes the reading of \<^verbatim>\<open>time.monotonic()\<close> it makes.
\<close>

section \<open>Retry storm guard\<close>

record storm_guard =
  sg_window_s :: rat
  sg_max_retries :: int
  sg_max_share :: rat
  sg_min_sample :: int
  sg_attempts :: "rat list"
  sg_retries :: "rat list"

definition new_storm_guard :: "rat \<Rightarrow> int \<Rightarrow> rat \<Rightarrow> int \<Rightarrow> storm_guard" where
  "new_storm_guard window retries share sample =
     \<lparr>sg_window_s = max (fl (1 / 1000)) window, sg_max_retries = max 0 retries,
      sg_max_share = min 1 (max 0 share), sg_min_sample = max 1 sample,
      sg_attempts = [], sg_retries = []\<rparr>"

definition storm_configure ::
  "rat option \<Rightarrow> int option \<Rightarrow> rat option \<Rightarrow> int option \<Rightarrow> storm_guard \<Rightarrow> storm_guard" where
  "storm_configure window retries share sample g =
     (let g = (case window of Some w \<Rightarrow> if 0 < w then g\<lparr>sg_window_s := w\<rparr> else g | None \<Rightarrow> g);
          g = (case retries of Some n \<Rightarrow> if 0 \<le> n then g\<lparr>sg_max_retries := n\<rparr> else g | None \<Rightarrow> g);
          g = (case share of Some s \<Rightarrow> if 0 \<le> s \<and> s \<le> 1 then g\<lparr>sg_max_share := s\<rparr> else g
                 | None \<Rightarrow> g)
      in case sample of Some n \<Rightarrow> if 1 \<le> n then g\<lparr>sg_min_sample := n\<rparr> else g | None \<Rightarrow> g)"

definition storm_prune :: "rat \<Rightarrow> storm_guard \<Rightarrow> storm_guard" where
  "storm_prune now g =
     (let cutoff = fsub now (sg_window_s g)
      in g\<lparr>sg_attempts := dropWhile (\<lambda>t. t \<le> cutoff) (sg_attempts g),
           sg_retries := dropWhile (\<lambda>t. t \<le> cutoff) (sg_retries g)\<rparr>)"

definition note_attempt :: "bool \<Rightarrow> rat \<Rightarrow> storm_guard \<Rightarrow> storm_guard" where
  "note_attempt is_retry now g =
     (let g = storm_prune now g;
          g = g\<lparr>sg_attempts := sg_attempts g @ [now]\<rparr>
      in if is_retry then g\<lparr>sg_retries := sg_retries g @ [now]\<rparr> else g)"

definition allow_retry :: "rat \<Rightarrow> storm_guard \<Rightarrow> bool \<times> storm_guard" where
  "allow_retry now g =
     (let g = storm_prune now g;
          attempts = int (length (sg_attempts g));
          retries = int (length (sg_retries g))
      in (if retries + 1 > sg_max_retries g then False
          else if attempts < sg_min_sample g then True
          else of_int (retries + 1) \<le> fmul (sg_max_share g) (of_int (attempts + 1)), g))"

definition storm_snapshot :: "rat \<Rightarrow> storm_guard \<Rightarrow> (nat \<times> nat) \<times> storm_guard" where
  "storm_snapshot now g =
     (let g = storm_prune now g in ((length (sg_attempts g), length (sg_retries g)), g))"

definition storm_reset :: "storm_guard \<Rightarrow> storm_guard" where
  "storm_reset g = g\<lparr>sg_attempts := [], sg_retries := []\<rparr>"

section \<open>Rate-limit breaker\<close>

record rl_breaker =
  bk_cooldown_until :: rat

definition new_breaker :: rl_breaker where
  "new_breaker = \<lparr>bk_cooldown_until = 0\<rparr>"

definition breaker_trip :: "rat \<Rightarrow> rat \<Rightarrow> rl_breaker \<Rightarrow> rl_breaker" where
  "breaker_trip now cooldown_s b =
     (let until = fadd now (max 0 cooldown_s)
      in b\<lparr>bk_cooldown_until := max (bk_cooldown_until b) until\<rparr>)"

definition breaker_remaining :: "rat \<Rightarrow> rl_breaker \<Rightarrow> rat" where
  "breaker_remaining now b = max 0 (fsub (bk_cooldown_until b) now)"

definition breaker_is_open :: "rat \<Rightarrow> rl_breaker \<Rightarrow> bool" where
  "breaker_is_open now b \<longleftrightarrow> breaker_remaining now b > 0"

datatype gate_result = GateProceed "rat option" | GateDeferred rat

text \<open>
  The gate reads the breaker twice, before and after its bounded sleep. The other threads of
  the process may trip it in between, so the second reading has a state of its own.
  \<open>GateProceed (Some w)\<close> slept for \<open>w\<close>; \<open>GateDeferred\<close> is the raised BybitRateLimitError.
\<close>

definition breaker_gate ::
  "prio \<Rightarrow> rat \<Rightarrow> rat \<Rightarrow> rl_breaker \<Rightarrow> rat \<Rightarrow> rl_breaker \<Rightarrow> gate_result" where
  "breaker_gate priority max_wait_s now b now' b' =
     (let remaining = breaker_remaining now b in
      if remaining \<le> 0 then GateProceed None
      else if priority = P3 then GateDeferred remaining
      else
        let wait = min remaining (max 0 max_wait_s);
            left = breaker_remaining now' b'
        in if left > 0 \<and> wait < remaining then GateDeferred left
           else GateProceed (if wait > 0 then Some wait else None))"

definition breaker_reset :: "rl_breaker \<Rightarrow> rl_breaker" where
  "breaker_reset b = b\<lparr>bk_cooldown_until := 0\<rparr>"

section \<open>A history of the storm guard under its callers' discipline\<close>

text \<open>
  The request loop asks \<open>allow_retry\<close> before a retry and notes the attempt when it is
  about to be sent. \<open>StormRetry t1 t2\<close> is one such retry of a single caller; the second
  component of the state is the whole history of noted retries.
\<close>

datatype storm_event = StormFirst rat | StormRetry rat rat

fun storm_times :: "storm_event \<Rightarrow> rat list" where
  "storm_times (StormFirst t) = [t]"
| "storm_times (StormRetry t1 t2) = [t1, t2]"

fun storm_step :: "storm_guard \<times> rat list \<Rightarrow> storm_event \<Rightarrow> storm_guard \<times> rat list" where
  "storm_step (g, hist) (StormFirst t) = (note_attempt False t g, hist)"
| "storm_step (g, hist) (StormRetry t1 t2) =
     (case allow_retry t1 g of
        (True, g') \<Rightarrow> (note_attempt True t2 g', hist @ [t2])
      | (False, g') \<Rightarrow> (g', hist))"

section \<open>Lemmas on the storm guard\<close>

text \<open>The retries held by the guard are the newest part of the history; everything before
  them is outside the window of any later time.\<close>

definition storm_inv :: "rat \<Rightarrow> storm_guard \<times> rat list \<Rightarrow> bool" where
  "storm_inv now s \<longleftrightarrow> (case s of (g, hist) \<Rightarrow>
     (\<exists>pre. hist = pre @ sg_retries g \<and> (\<forall>t\<in>set pre. t \<le> fsub now (sg_window_s g))) \<and>
     int (length (sg_retries g)) \<le> sg_max_retries g)"

lemma storm_invI:
  "hist = pre @ sg_retries g \<Longrightarrow> \<forall>t\<in>set pre. t \<le> fsub now (sg_window_s g) \<Longrightarrow>
     int (length (sg_retries g)) \<le> sg_max_retries g \<Longrightarrow> storm_inv now (g, hist)"
  by (auto simp: storm_inv_def)

lemma storm_prune_simps [simp]:
  "sg_window_s (storm_prune now g) = sg_window_s g"
  "sg_max_retries (storm_prune now g) = sg_max_retries g"
  "sg_max_share (storm_prune now g) = sg_max_share g"
  "sg_min_sample (storm_prune now g) = sg_min_sample g"
  "sg_retries (storm_prune now g) =
     dropWhile (\<lambda>t. t \<le> fsub now (sg_window_s g)) (sg_retries g)"
  by (simp_all add: storm_prune_def Let_def)

lemma note_attempt_simps [simp]:
  "sg_window_s (note_attempt r now g) = sg_window_s g"
  "sg_max_retries (note_attempt r now g) = sg_max_retries g"
  "sg_retries (note_attempt r now g) =
     dropWhile (\<lambda>t. t \<le> fsub now (sg_window_s g)) (sg_retries g) @ (if r then [now] else [])"
  by (simp_all add: note_attempt_def Let_def)

lemma storm_prune_inv:
  assumes "storm_inv now (g, hist)" and "now \<le> now'"
  shows "storm_inv now' (storm_prune now' g, hist)"
proof -
  let ?c' = "fsub now' (sg_window_s g)"
  from assms(1) obtain pre where pre: "hist = pre @ sg_retries g"
    "\<forall>t\<in>set pre. t \<le> fsub now (sg_window_s g)" "int (length (sg_retries g)) \<le> sg_max_retries g"
    by (auto simp: storm_inv_def)
  have le: "fsub now (sg_window_s g) \<le> ?c'" using assms(2) by (simp add: fsub_mono)
  show ?thesis
  proof (rule storm_invI)
    show "hist = (pre @ takeWhile (\<lambda>t. t \<le> ?c') (sg_retries g)) @ sg_retries (storm_prune now' g)"
      by (simp add: pre(1))
    show "\<forall>t\<in>set (pre @ takeWhile (\<lambda>t. t \<le> ?c') (sg_retries g)).
            t \<le> fsub now' (sg_window_s (storm_prune now' g))"
      using pre(2) le by (auto dest: set_takeWhileD)
    show "int (length (sg_retries (storm_prune now' g))) \<le> sg_max_retries (storm_prune now' g)"
      using pre(3) length_dropWhile_le [of "\<lambda>t. t \<le> ?c'" "sg_retries g"] by simp
  qed
qed

lemma storm_inv_later:
  assumes "storm_inv now s" and "now \<le> now'"
  shows "storm_inv now' s"
proof -
  obtain g hist where s: "s = (g, hist)" by (cases s)
  from assms(1) obtain pre where pre: "hist = pre @ sg_retries g"
    "\<forall>t\<in>set pre. t \<le> fsub now (sg_window_s g)" "int (length (sg_retries g)) \<le> sg_max_retries g"
    by (auto simp: storm_inv_def s)
  have "fsub now (sg_window_s g) \<le> fsub now' (sg_window_s g)" using assms(2) by (simp add: fsub_mono)
  with pre(2) have "\<forall>t\<in>set pre. t \<le> fsub now' (sg_window_s g)" by fastforce
  with pre show ?thesis unfolding s by (intro storm_invI)
qed

lemma storm_first_inv:
  "storm_inv now (g, hist) \<Longrightarrow> now \<le> t \<Longrightarrow> storm_inv t (note_attempt False t g, hist)"
  using storm_prune_inv [of now g hist t] by (simp add: storm_inv_def)

lemma storm_retry_inv:
  assumes "storm_inv t1 (g, hist)" and "t1 \<le> t2"
    and "int (length (sg_retries g)) + 1 \<le> sg_max_retries g"
  shows "storm_inv t2 (note_attempt True t2 g, hist @ [t2])"
proof -
  from storm_prune_inv [OF assms(1,2)]
  obtain pre where "hist = pre @ sg_retries (storm_prune t2 g)"
    "\<forall>t\<in>set pre. t \<le> fsub t2 (sg_window_s g)"
    by (auto simp: storm_inv_def)
  then show ?thesis
    using assms(3) length_dropWhile_le [of "\<lambda>t. t \<le> fsub t2 (sg_window_s g)" "sg_retries g"]
    by (intro storm_invI [of _ pre]) auto
qed

lemma allow_retry_True:
  "allow_retry t g = (True, g') \<Longrightarrow>
     g' = storm_prune t g \<and> int (length (sg_retries g')) + 1 \<le> sg_max_retries g'"
  by (auto simp: allow_retry_def Let_def split: if_splits)

lemma allow_retry_state: "allow_retry t g = (ok, g') \<Longrightarrow> g' = storm_prune t g"
  by (auto simp: allow_retry_def Let_def)

lemma storm_step_inv:
  assumes "storm_inv now s" and "sorted (now # storm_times e)"
  shows "storm_inv (last (storm_times e)) (storm_step s e)"
proof (cases s)
  case (Pair g hist)
  show ?thesis
  proof (cases e)
    case (StormFirst t)
    then show ?thesis using assms storm_first_inv by (simp add: Pair)
  next
    case (StormRetry t1 t2)
    with assms have le: "now \<le> t1" "t1 \<le> t2" by auto
    obtain ok g' where a: "allow_retry t1 g = (ok, g')" by (cases "allow_retry t1 g")
    note inv1 = storm_prune_inv [OF assms(1) [unfolded Pair] le(1)]
    show ?thesis
    proof (cases ok)
      case True
      with a have "g' = storm_prune t1 g" "int (length (sg_retries g')) + 1 \<le> sg_max_retries g'"
        by (auto dest: allow_retry_True)
      with inv1 le(2) a True show ?thesis
        by (simp add: Pair StormRetry storm_retry_inv)
    next
      case False
      have "storm_inv t2 (storm_prune t1 g, hist)"
        using inv1 le(2) by (rule storm_inv_later)
      with a False allow_retry_state [OF a] show ?thesis by (simp add: Pair StormRetry)
    qed
  qed
qed

lemma storm_step_params:
  "storm_step (g, hist) e = (g', hist') \<Longrightarrow>
     sg_window_s g' = sg_window_s g \<and> sg_max_retries g' = sg_max_retries g"
  by (cases e) (auto simp: allow_retry_def Let_def split: prod.splits bool.splits)

lemma storm_run_inv:
  assumes "storm_inv now s" and "sorted (now # concat (map storm_times es))"
    and "last (now # concat (map storm_times es)) \<le> T"
  shows "storm_inv T (foldl storm_step s es)"
  using assms
proof (induction es arbitrary: now s)
  case Nil
  then show ?case
    by (auto intro: storm_inv_later)
next
  case (Cons e es)
  have ne: "storm_times e \<noteq> []" by (cases e) auto
  have "sorted (now # storm_times e)"
    using Cons.prems(2) by (auto simp: sorted_append)
  with Cons.prems(1) have "storm_inv (last (storm_times e)) (storm_step s e)"
    by (rule storm_step_inv)
  moreover have "sorted (last (storm_times e) # concat (map storm_times es))"
    using Cons.prems(2) ne by (auto simp: sorted_append)
  moreover have "last (last (storm_times e) # concat (map storm_times es)) \<le> T"
    using Cons.prems(3) ne by (cases "concat (map storm_times es) = []") (auto simp del: concat_eq_Nil_conv)
  ultimately show ?case using Cons.IH by simp
qed

lemma storm_run_params:
  "foldl storm_step (g, hist) es = (g', hist') \<Longrightarrow>
     sg_window_s g' = sg_window_s g \<and> sg_max_retries g' = sg_max_retries g"
proof (induction es arbitrary: g hist)
  case (Cons e es)
  obtain h hist1 where s: "storm_step (g, hist) e = (h, hist1)" by (cases "storm_step (g, hist) e")
  with Cons.prems have "foldl storm_step (h, hist1) es = (g', hist')" by simp
  from Cons.IH [OF this] storm_step_params [OF s] show ?case by simp
qed simp

text \<open>Retry storm bound. Whatever requests a caller makes at non-decreasing monotonic
  times, in no sliding window of the configured length are more retries sent than the
  configured cap: of the whole history of retries noted up to \<open>T\<close>, at most
  \<open>max_retries\<close> are younger than the window at \<open>T\<close>.\<close>

theorem storm_window_bound:
  assumes "foldl storm_step (new_storm_guard w n share sample, []) es = (g, hist)"
    and "sorted (now # concat (map storm_times es))"
    and "last (now # concat (map storm_times es)) \<le> T"
  shows "int (length (filter (\<lambda>t. fsub T (sg_window_s g) < t) hist)) \<le> sg_max_retries g
     \<and> sg_max_retries g = max 0 n"
proof -
  let ?g0 = "new_storm_guard w n share sample"
  have "storm_inv now (?g0, [])" by (simp add: storm_inv_def new_storm_guard_def)
  from storm_run_inv [OF this assms(2,3)] assms(1)
  obtain pre where "hist = pre @ sg_retries g" "\<forall>t\<in>set pre. t \<le> fsub T (sg_window_s g)"
    and len: "int (length (sg_retries g)) \<le> sg_max_retries g"
    by (auto simp: storm_inv_def)
  then have "filter (\<lambda>t. fsub T (sg_window_s g) < t) hist =
      filter (\<lambda>t. fsub T (sg_window_s g) < t) (sg_retries g)"
    by (auto simp: filter_empty_conv)
  then have "length (filter (\<lambda>t. fsub T (sg_window_s g) < t) hist) \<le> length (sg_retries g)"
    by (simp add: length_filter_le)
  with len storm_run_params [OF assms(1)] show ?thesis
    by (simp add: new_storm_guard_def)
qed

theorem storm_window_bound_witness:
  "\<exists>g hist. foldl storm_step (new_storm_guard 60 1 (1 / 2) 10, [])
       [StormFirst 1, StormRetry 2 3, StormFirst 4, StormRetry 5 6] = (g, hist)
     \<and> hist = [3] \<and> int (length (filter (\<lambda>t. fsub 7 (sg_window_s g) < t) hist)) \<le> sg_max_retries g"
proof -
  have run: "foldl storm_step (new_storm_guard 60 1 (1 / 2) 10, [])
       [StormFirst 1, StormRetry 2 3, StormFirst 4, StormRetry 5 6] =
       (\<lparr>sg_window_s = 60, sg_max_retries = 1, sg_max_share = 1 / 2, sg_min_sample = 10,
         sg_attempts = [1, 3, 4], sg_retries = [3]\<rparr>, [3])"
    by code_simp
  from storm_window_bound [OF this, of 0 7] show ?thesis unfolding run by simp
qed

text \<open>The check and the note are separate critical sections: two callers that both ask
  before either notes exceed the cap (here one retry allowed, two sent in the window).\<close>

theorem storm_check_then_act_overshoot:
  "\<exists>g ok1 g1 ok2 g2. g = new_storm_guard 60 1 1 1
     \<and> allow_retry 1 g = (ok1, g1) \<and> allow_retry 1 g1 = (ok2, g2) \<and> ok1 \<and> ok2
     \<and> int (length (sg_retries (note_attempt True 1 (note_attempt True 1 g2)))) > sg_max_retries g"
proof -
  let ?g = "new_storm_guard 60 1 1 1"
  have a: "allow_retry 1 ?g = (True, ?g)" by code_simp
  have "int (length (sg_retries (note_attempt True 1 (note_attempt True 1 ?g)))) > sg_max_retries ?g"
    by code_simp
  with a show ?thesis by blast
qed

section \<open>Lemmas on the breaker\<close>

lemma breaker_remaining_nonneg [simp]: "0 \<le> breaker_remaining now b"
  by (simp add: breaker_remaining_def)

text \<open>A trip never shortens a cooldown: the end of the cooldown and the remaining time
  seen by any later reading only grow, and the new end is at least the tripping time plus the
  requested cooldown.\<close>

theorem breaker_trip_extends:
  "bk_cooldown_until b \<le> bk_cooldown_until (breaker_trip now cd b)
   \<and> fadd now cd \<le> bk_cooldown_until (breaker_trip now cd b)
   \<and> breaker_remaining t b \<le> breaker_remaining t (breaker_trip now cd b)"
proof -
  have "fadd now cd \<le> fadd now (max 0 cd)" by (simp add: fadd_mono)
  then have "fadd now cd \<le> bk_cooldown_until (breaker_trip now cd b)"
    by (simp add: breaker_trip_def Let_def le_max_iff_disj)
  moreover have le: "bk_cooldown_until b \<le> bk_cooldown_until (breaker_trip now cd b)"
    by (simp add: breaker_trip_def Let_def)
  moreover have "breaker_remaining t b \<le> breaker_remaining t (breaker_trip now cd b)"
    using fsub_mono [OF le order_refl, of t] by (auto simp: breaker_remaining_def)
  ultimately show ?thesis by blast
qed

text \<open>With an open cooldown a P3 request is always deferred; any other request
  proceeds only after it slept for the whole remaining cooldown or after the cooldown was
  observed to be over. The sleep never exceeds the configured bound.\<close>

theorem breaker_gate_open:
  assumes "breaker_is_open now b"
  shows "(priority = P3 \<longrightarrow>
            breaker_gate priority mw now b now' b' = GateDeferred (breaker_remaining now b)) \<and>
     (\<forall>slept. breaker_gate priority mw now b now' b' = GateProceed slept \<longrightarrow>
        (slept = Some (breaker_remaining now b) \<or> breaker_remaining now' b' = 0) \<and>
        (\<forall>w. slept = Some w \<longrightarrow> w \<le> max 0 mw))"
proof -
  have r: "0 < breaker_remaining now b" using assms by (simp add: breaker_is_open_def)
  have z: "0 < breaker_remaining now' b' \<or> breaker_remaining now' b' = 0"
    by (auto simp: breaker_remaining_def)
  show ?thesis
  proof (cases "priority = P3")
    case True
    then show ?thesis using r by (simp add: breaker_gate_def)
  next
    case False
    define wait where "wait = min (breaker_remaining now b) (max 0 mw)"
    have g: "breaker_gate priority mw now b now' b' =
        (if breaker_remaining now' b' > 0 \<and> wait < breaker_remaining now b
         then GateDeferred (breaker_remaining now' b')
         else GateProceed (if wait > 0 then Some wait else None))"
      using r False by (simp add: breaker_gate_def wait_def Let_def)
    have "wait \<le> max 0 mw" "wait \<le> breaker_remaining now b" by (simp_all add: wait_def)
    then show ?thesis using False r z unfolding g by auto
  qed
qed

theorem breaker_gate_open_witness:
  "breaker_is_open 5 \<lparr>bk_cooldown_until = 7\<rparr>
   \<and> breaker_gate P3 30 5 \<lparr>bk_cooldown_until = 7\<rparr> 7 \<lparr>bk_cooldown_until = 7\<rparr> = GateDeferred 2"
proof -
  have o: "breaker_is_open 5 \<lparr>bk_cooldown_until = 7\<rparr>" by code_simp
  have "breaker_remaining 5 \<lparr>bk_cooldown_until = 7\<rparr> = 2" by code_simp
  with breaker_gate_open [OF o, of P3] o show ?thesis by simp
qed

text \<open>A trip by another thread during the bounded sleep is not seen by the gate when the
  sleep covered the cooldown read at entry: the request proceeds into the open cooldown.\<close>

theorem breaker_gate_misses_trip_during_sleep:
  "breaker_gate P1 30 5 \<lparr>bk_cooldown_until = 7\<rparr> 7 (breaker_trip 6 30 \<lparr>bk_cooldown_until = 7\<rparr>)
     = GateProceed (Some 2)
   \<and> breaker_is_open 7 (breaker_trip 6 30 \<lparr>bk_cooldown_until = 7\<rparr>)"
  by code_simp

end
