(* ===== verification/BudgetedGet.thy ===== *)
theory BudgetedGet
  imports RetryGuards
begin

text \<open>
  One budgeted logical GET of \<^verbatim>\<open>src/app/exchange/bybit_client.py\<close>
  (\<^verbatim>\<open>BybitClient._budgeted_get\<close>): the classification of one HTTP attempt, the shared-limiter
  gate around it, and the single retry loop. What the loop does not control (clock readings,
  the transport's answer, the shared limiter's grant, the other threads' use of the
  process-wide guards) is one environment record per iteration.
\<close>

section \<open>One HTTP attempt\<close>

datatype http_body = BodyUndecodable | BodyJson json

datatype http_result =
    HttpTimeout
  | HttpRaisedStatus "int option"
  | HttpUrlError bool
  | HttpOtherExc
  | HttpResponse int http_body

datatype get_error =
    BybitErr | BybitAuthErr | TransportExc
  | BybitRateLimitErr string | BybitTimeoutErr string

datatype attempt_outcome =
    AttemptClass outcome_class "json option"
  | AttemptRaise get_error

datatype telemetry = T_OK | T_TIMEOUT | T_RATE_LIMIT | T_ERROR | T_SKIP

definition http_status_error :: "int option \<Rightarrow> get_error" where
  "http_status_error status = (if status \<in> {Some 401, Some 403} then BybitAuthErr else BybitErr)"

definition raise_for_status_ok :: "int \<Rightarrow> bool" where
  "raise_for_status_ok status \<longleftrightarrow> 200 \<le> status \<and> status < 300"

text \<open>\<^verbatim>\<open>payload.get("retMsg", "")\<close>: text, or absent.\<close>

fun msg_of_json :: "json \<Rightarrow> string option" where
  "msg_of_json (JStr s) = Some s"
| "msg_of_json _ = None"

definition classify_payload :: "json \<Rightarrow> telemetry \<times> attempt_outcome" where
  "classify_payload payload =
     (if \<not> is_jobj payload then (T_ERROR, AttemptRaise BybitErr)
      else
        let ret_code = jget ''retCode'' payload;
            ret_msg = msg_of_json (jget ''retMsg'' payload)
        in if \<not> is_valid_ret_code ret_code then (T_ERROR, AttemptRaise BybitErr)
           else (case classify_api_result ret_code ret_msg of
                   CLASS_OK \<Rightarrow> (T_OK, AttemptClass CLASS_OK (Some payload))
                 | CLASS_RATE_LIMIT \<Rightarrow> (T_RATE_LIMIT, AttemptClass CLASS_RATE_LIMIT None)
                 | CLASS_ACCESS_DENIED \<Rightarrow> (T_ERROR, AttemptRaise BybitAuthErr)
                 | _ \<Rightarrow> (T_ERROR, AttemptRaise BybitErr)))"

text \<open>Exactly one telemetry record per attempt is part of the result.\<close>

fun attempt_once :: "http_result \<Rightarrow> telemetry \<times> attempt_outcome" where
  "attempt_once HttpTimeout = (T_TIMEOUT, AttemptClass CLASS_TIMEOUT None)"
| "attempt_once (HttpRaisedStatus status) =
     (if status = Some 429 then (T_RATE_LIMIT, AttemptClass CLASS_RATE_LIMIT None)
      else (T_ERROR, AttemptRaise (http_status_error status)))"
| "attempt_once (HttpUrlError is_timeout) =
     (if is_timeout then (T_TIMEOUT, AttemptClass CLASS_TIMEOUT None)
      else (T_ERROR, AttemptRaise TransportExc))"
| "attempt_once HttpOtherExc = (T_ERROR, AttemptRaise TransportExc)"
| "attempt_once (HttpResponse status body) =
     (if status = 429 then (T_RATE_LIMIT, AttemptClass CLASS_RATE_LIMIT None)
      else if \<not> raise_for_status_ok status then (T_ERROR, AttemptRaise BybitErr)
      else (case body of
              BodyUndecodable \<Rightarrow> (T_ERROR, AttemptRaise TransportExc)
            | BodyJson payload \<Rightarrow> classify_payload payload))"

section \<open>Outcomes reported to the shared limiter\<close>

datatype lim_outcome = L_OK | L_RATE_LIMIT | L_TIMEOUT | L_AUTH | L_ERROR | L_NOT_SENT | L_REVOKED

fun limiter_outcome_for_class :: "outcome_class \<Rightarrow> lim_outcome" where
  "limiter_outcome_for_class CLASS_OK = L_OK"
| "limiter_outcome_for_class CLASS_RATE_LIMIT = L_RATE_LIMIT"
| "limiter_outcome_for_class CLASS_TIMEOUT = L_TIMEOUT"
| "limiter_outcome_for_class CLASS_ACCESS_DENIED = L_AUTH"
| "limiter_outcome_for_class _ = L_ERROR"

fun limiter_outcome_for_exception :: "get_error \<Rightarrow> lim_outcome" where
  "limiter_outcome_for_exception BybitAuthErr = L_AUTH"
| "limiter_outcome_for_exception (BybitRateLimitErr _) = L_RATE_LIMIT"
| "limiter_outcome_for_exception (BybitTimeoutErr _) = L_TIMEOUT"
| "limiter_outcome_for_exception _ = L_ERROR"

fun limiter_outcome_of :: "attempt_outcome \<Rightarrow> lim_outcome" where
  "limiter_outcome_of (AttemptClass c _) = limiter_outcome_for_class c"
| "limiter_outcome_of (AttemptRaise e) = limiter_outcome_for_exception e"

text \<open>The shared limiter's answer: off, failed, no grant, or a grant with the clock reading
  after the blocking acquire and the answer of \<^verbatim>\<open>prepare_send\<close>.\<close>

datatype limiter_gate = LimDisabled | LimError | LimDenied | LimGranted rat bool

definition deny :: "outcome_class option \<Rightarrow> string \<Rightarrow> get_error" where
  "deny last_class reason =
     (if last_class = Some CLASS_RATE_LIMIT then BybitRateLimitErr reason
      else BybitTimeoutErr reason)"

record send_report =
  sr_sent :: bool
  sr_granted :: bool
  sr_recorded :: "lim_outcome list"
  sr_telemetry :: telemetry
  sr_outcome :: attempt_outcome

definition skip_report :: "bool \<Rightarrow> lim_outcome list \<Rightarrow> get_error \<Rightarrow> send_report" where
  "skip_report granted recorded e =
     \<lparr>sr_sent = False, sr_granted = granted, sr_recorded = recorded, sr_telemetry = T_SKIP,
      sr_outcome = AttemptRaise e\<rparr>"

text \<open>\<^verbatim>\<open>send_once\<close>: acquire, deadline, prepare_send, deadline again, then the one HTTP send.\<close>

definition send_once ::
  "outcome_class option \<Rightarrow> rat option \<Rightarrow> limiter_gate \<Rightarrow> rat \<Rightarrow> http_result \<Rightarrow> send_report" where
  "send_once last_class deadline_at lgate now_send http =
     (let granted = (case lgate of LimGranted _ _ \<Rightarrow> True | _ \<Rightarrow> False);
          expired = deny last_class ''retry deadline exceeded'';
          transmit =
            (if (case deadline_at of None \<Rightarrow> False | Some d \<Rightarrow> fsub d now_send \<le> 0)
             then skip_report granted (if granted then [L_NOT_SENT] else []) expired
             else (case attempt_once http of (tel, out) \<Rightarrow>
               \<lparr>sr_sent = True, sr_granted = granted,
                sr_recorded = (if granted then [limiter_outcome_of out] else []),
                sr_telemetry = tel, sr_outcome = out\<rparr>))
      in case lgate of
           LimDisabled \<Rightarrow> transmit
         | LimError \<Rightarrow> skip_report False [] (BybitRateLimitErr ''LIMITER_UNAVAILABLE'')
         | LimDenied \<Rightarrow> skip_report False [] (BybitRateLimitErr ''limiter denied'')
         | LimGranted now_acq prepared \<Rightarrow>
             (if (case deadline_at of None \<Rightarrow> False | Some d \<Rightarrow> now_acq \<ge> d)
              then skip_report True [L_NOT_SENT] expired
              else if \<not> prepared
              then skip_report True [L_REVOKED] (BybitRateLimitErr ''grant_revoked'')
              else transmit))"

section \<open>The retry loop\<close>

record get_settings =
  gs_retry_deadline_s :: rat
  gs_max_attempts :: int
  gs_rl_max_retries :: int
  gs_retry_backoff :: rat
  gs_rl_retry_backoff :: rat
  gs_cooldown_s :: rat
  gs_breaker_max_wait_s :: rat
  gs_storm_window_s :: rat
  gs_storm_max_retries :: int
  gs_storm_max_share :: rat

definition absolute_deadline ::
  "rat \<Rightarrow> get_settings \<Rightarrow> rat option \<Rightarrow> rat option \<Rightarrow> rat option" where
  "absolute_deadline anchor cfg caller_deadline_at caller_deadline_s =
     (let d = (if gs_retry_deadline_s cfg > 0 then Some (fadd anchor (gs_retry_deadline_s cfg))
               else None);
          d = (case caller_deadline_at of None \<Rightarrow> d
               | Some c \<Rightarrow> Some (case d of None \<Rightarrow> c | Some e \<Rightarrow> min e c))
      in case caller_deadline_s of None \<Rightarrow> d
         | Some s \<Rightarrow> (let c = fadd anchor (max 0 s)
                     in Some (case d of None \<Rightarrow> c | Some e \<Rightarrow> min e c)))"

definition attempt_budget :: "get_settings \<Rightarrow> int" where
  "attempt_budget cfg = max 1 (min (gs_max_attempts cfg) HARD_MAX_ATTEMPTS)"

definition rl_cap :: "get_settings \<Rightarrow> prio \<Rightarrow> int" where
  "rl_cap cfg priority = min (RL_RETRY_CAPS priority) (max 0 (gs_rl_max_retries cfg))"

text \<open>One iteration's environment. \<open>ie_storm_others\<close> and the two \<open>ie_breaker_others\<close> are
  what the other threads did to the shared guards before the respective access.\<close>

record iter_env =
  ie_now_deadline :: rat
  ie_storm_others :: "storm_guard \<Rightarrow> storm_guard"
  ie_now_allow :: rat
  ie_breaker_others :: "rl_breaker \<Rightarrow> rl_breaker"
  ie_now_gate :: rat
  ie_breaker_during :: "rl_breaker \<Rightarrow> rl_breaker"
  ie_now_gate' :: rat
  ie_now_presend :: rat
  ie_now_note :: rat
  ie_lim :: limiter_gate
  ie_now_send :: rat
  ie_http :: http_result
  ie_now_trip :: rat
  ie_jitter :: "rat \<Rightarrow> rat"

record loop_state =
  ls_attempt :: int
  ls_sends :: int
  ls_rl_used :: int
  ls_to_used :: int
  ls_last :: "outcome_class option"
  ls_sched :: backoff
  ls_storm :: storm_guard
  ls_breaker :: rl_breaker
  ls_slept :: "rat list"
  ls_send_times :: "rat list"
  ls_telemetry :: "telemetry list"
  ls_grants :: nat
  ls_recorded :: "lim_outcome list"

datatype loop_result = LoopReturn json | LoopRaise get_error

datatype step_result = StepDone loop_result loop_state | StepRetry loop_state

text \<open>The decision after an attempt that came back with a retryable class.\<close>

definition note_class :: "get_settings \<Rightarrow> iter_env \<Rightarrow> outcome_class \<Rightarrow> loop_state \<Rightarrow> loop_state" where
  "note_class cfg e cls st =
     st\<lparr>ls_last := Some cls,
        ls_breaker := (if cls = CLASS_RATE_LIMIT
                       then breaker_trip (ie_now_trip e) (gs_cooldown_s cfg) (ls_breaker st)
                       else ls_breaker st)\<rparr>"

definition sleep_rate_limit :: "iter_env \<Rightarrow> loop_state \<Rightarrow> loop_state" where
  "sleep_rate_limit e st =
     (case next_delay (ie_jitter e) (ls_sched st) CLASS_RATE_LIMIT (ls_rl_used st + 1) of
        (delay, sched) \<Rightarrow>
          st\<lparr>ls_rl_used := ls_rl_used st + 1, ls_sched := sched, ls_slept := ls_slept st @ [delay]\<rparr>)"

definition sleep_timeout :: "iter_env \<Rightarrow> loop_state \<Rightarrow> loop_state" where
  "sleep_timeout e st =
     (case next_delay (ie_jitter e) (ls_sched st) CLASS_TIMEOUT (ls_to_used st + 1) of
        (delay, sched) \<Rightarrow>
          st\<lparr>ls_to_used := ls_to_used st + 1, ls_sched := sched, ls_slept := ls_slept st @ [delay]\<rparr>)"

definition retry_decision ::
  "get_settings \<Rightarrow> prio \<Rightarrow> iter_env \<Rightarrow> outcome_class \<Rightarrow> loop_state \<Rightarrow> step_result" where
  "retry_decision cfg priority e cls st0 =
     (let st = note_class cfg e cls st0
      in if ls_attempt st \<ge> attempt_budget cfg
         then StepDone (LoopRaise (deny (ls_last st) ''attempt budget'')) st
         else if cls = CLASS_RATE_LIMIT \<and> ls_rl_used st \<ge> rl_cap cfg priority
         then StepDone (LoopRaise (deny (ls_last st) ''rate-limit retry cap'')) st
         else StepRetry (if cls = CLASS_RATE_LIMIT then sleep_rate_limit e st
                         else sleep_timeout e st))"

text \<open>From the pre-send deadline check on: note the attempt, send, decide.\<close>

definition record_send :: "iter_env \<Rightarrow> bool \<Rightarrow> send_report \<Rightarrow> loop_state \<Rightarrow> loop_state" where
  "record_send e is_retry r st =
     st\<lparr>ls_storm := note_attempt is_retry (ie_now_note e) (ls_storm st),
        ls_telemetry := ls_telemetry st @ [sr_telemetry r],
        ls_sends := (if sr_sent r then ls_sends st + 1 else ls_sends st),
        ls_send_times := (if sr_sent r then ls_send_times st @ [ie_now_send e]
                          else ls_send_times st),
        ls_grants := (if sr_granted r then ls_grants st + 1 else ls_grants st),
        ls_recorded := ls_recorded st @ sr_recorded r\<rparr>"

definition attempt_and_decide ::
  "get_settings \<Rightarrow> prio \<Rightarrow> rat option \<Rightarrow> iter_env \<Rightarrow> bool \<Rightarrow> loop_state \<Rightarrow> step_result" where
  "attempt_and_decide cfg priority deadline_at e is_retry st =
     (if (case deadline_at of None \<Rightarrow> False | Some d \<Rightarrow> fsub d (ie_now_presend e) \<le> 0)
      then StepDone (LoopRaise (deny (ls_last st) ''retry deadline exceeded''))
             (st\<lparr>ls_telemetry := ls_telemetry st @ [T_SKIP]\<rparr>)
      else
        let r = send_once (ls_last st) deadline_at (ie_lim e) (ie_now_send e) (ie_http e)
        in case sr_outcome r of
             AttemptRaise err \<Rightarrow> StepDone (LoopRaise err) (record_send e is_retry r st)
           | AttemptClass cls payload \<Rightarrow>
               (if cls = CLASS_OK
                then StepDone (LoopReturn (case payload of Some p \<Rightarrow> p | None \<Rightarrow> JNull))
                       (record_send e is_retry r st)
                else retry_decision cfg priority e cls (record_send e is_retry r st)))"

text \<open>The shared breaker's gate in front of the attempt; the state stays as the other
  threads left the breaker.\<close>

definition gate_and_attempt ::
  "get_settings \<Rightarrow> prio \<Rightarrow> rat option \<Rightarrow> iter_env \<Rightarrow> bool \<Rightarrow> loop_state \<Rightarrow> step_result" where
  "gate_and_attempt cfg priority deadline_at e is_retry st0 =
     (let b = ie_breaker_others e (ls_breaker st0);
          b' = ie_breaker_during e b;
          st = st0\<lparr>ls_breaker := b'\<rparr>
      in case breaker_gate priority (gs_breaker_max_wait_s cfg) (ie_now_gate e) b (ie_now_gate' e) b' of
           GateDeferred left \<Rightarrow> StepDone (LoopRaise (BybitRateLimitErr ''request deferred'')) st
         | GateProceed _ \<Rightarrow> attempt_and_decide cfg priority deadline_at e is_retry st)"

definition next_attempt :: "loop_state \<Rightarrow> loop_state" where
  "next_attempt st = st\<lparr>ls_attempt := ls_attempt st + 1\<rparr>"

definition loop_step ::
  "get_settings \<Rightarrow> prio \<Rightarrow> rat option \<Rightarrow> iter_env \<Rightarrow> loop_state \<Rightarrow> step_result" where
  "loop_step cfg priority deadline_at e st0 =
     (let st = next_attempt st0
      in if ls_attempt st > 1
         then if (case deadline_at of None \<Rightarrow> False | Some d \<Rightarrow> ie_now_deadline e \<ge> d)
              then StepDone (LoopRaise (deny (ls_last st) ''retry deadline exceeded'')) st
              else (case allow_retry (ie_now_allow e) (ie_storm_others e (ls_storm st)) of
                      (ok, storm) \<Rightarrow>
                        if \<not> ok
                        then StepDone (LoopRaise (deny (ls_last st) ''storm guard: retry share capped''))
                               (st\<lparr>ls_storm := storm\<rparr>)
                        else gate_and_attempt cfg priority deadline_at e True (st\<lparr>ls_storm := storm\<rparr>))
         else gate_and_attempt cfg priority deadline_at e False st)"

lemma retry_decision_retry:
  "retry_decision cfg priority e cls st = StepRetry st' \<Longrightarrow>
     ls_attempt st' = ls_attempt st \<and> ls_attempt st < attempt_budget cfg"
  by (auto simp: retry_decision_def Let_def note_class_def sleep_rate_limit_def sleep_timeout_def
      split: if_splits prod.splits)

lemma attempt_and_decide_retry:
  assumes "attempt_and_decide cfg priority d e is_retry st = StepRetry st'"
  shows "ls_attempt st' = ls_attempt st \<and> ls_attempt st < attempt_budget cfg"
  using assms
  by (auto simp: attempt_and_decide_def Let_def record_send_def dest!: retry_decision_retry
      split: if_splits attempt_outcome.splits)

lemma gate_and_attempt_retry:
  assumes "gate_and_attempt cfg priority d e is_retry st = StepRetry st'"
  shows "ls_attempt st' = ls_attempt st \<and> ls_attempt st < attempt_budget cfg"
  using assms
  by (auto simp: gate_and_attempt_def Let_def dest!: attempt_and_decide_retry
      split: gate_result.splits)

lemma loop_step_retry:
  assumes "loop_step cfg priority d e st = StepRetry st'"
  shows "ls_attempt st' = ls_attempt st + 1 \<and> ls_attempt st' < attempt_budget cfg"
  using assms
  by (auto simp: loop_step_def next_attempt_def Let_def dest!: gate_and_attempt_retry
      split: if_splits prod.splits)

function budgeted_loop ::
  "get_settings \<Rightarrow> prio \<Rightarrow> rat option \<Rightarrow> (int \<Rightarrow> iter_env) \<Rightarrow> loop_state \<Rightarrow> loop_result \<times> loop_state"
where
  "budgeted_loop cfg priority deadline_at env st =
     (case loop_step cfg priority deadline_at (env (ls_attempt st)) st of
        StepDone r st' \<Rightarrow> (r, st')
      | StepRetry st' \<Rightarrow> budgeted_loop cfg priority deadline_at env st')"
  by pat_completeness auto
termination
  by (relation "measure (\<lambda>(cfg, priority, d, env, st). nat (attempt_budget cfg - ls_attempt st))")
    (auto dest: loop_step_retry)

declare budgeted_loop.simps [simp del]

definition initial_loop :: "get_settings \<Rightarrow> storm_guard \<Rightarrow> rl_breaker \<Rightarrow> loop_state" where
  "initial_loop cfg storm breaker =
     \<lparr>ls_attempt = 0, ls_sends = 0, ls_rl_used = 0, ls_to_used = 0, ls_last = None,
      ls_sched = new_backoff (gs_retry_backoff cfg) (gs_rl_retry_backoff cfg) 30,
      ls_storm = storm_configure (Some (gs_storm_window_s cfg)) (Some (gs_storm_max_retries cfg))
        (Some (gs_storm_max_share cfg)) None storm,
      ls_breaker = breaker, ls_slept = [], ls_send_times = [],
      ls_telemetry = [], ls_grants = 0, ls_recorded = []\<rparr>"

definition budgeted_get ::
  "get_settings \<Rightarrow> string option \<Rightarrow> string \<Rightarrow> rat \<Rightarrow> rat option \<Rightarrow> rat option \<Rightarrow>
   (int \<Rightarrow> iter_env) \<Rightarrow> storm_guard \<Rightarrow> rl_breaker \<Rightarrow> policy_error + (loop_result \<times> loop_state)" where
  "budgeted_get cfg retry_priority endpoint anchor caller_at caller_s env storm breaker =
     (let deadline_at = absolute_deadline anchor cfg caller_at caller_s
      in rbind (resolve_priority retry_priority endpoint)
           (\<lambda>priority. Inr (budgeted_loop cfg priority deadline_at env (initial_loop cfg storm breaker))))"

section \<open>Invariant of the loop\<close>

text \<open>The sleeps so far and the schedule that produced them.\<close>

definition paced :: "backoff \<Rightarrow> rat list \<Rightarrow> bool" where
  "paced sched slept \<longleftrightarrow>
     last_delay sched \<le> max_delay_s sched \<and> max_delay_s sched = 30 \<and>
     sorted (0 # slept) \<and> (\<forall>x\<in>set (0 # slept). x \<le> last_delay sched)"

definition loop_inv :: "get_settings \<Rightarrow> prio \<Rightarrow> rat option \<Rightarrow> loop_state \<Rightarrow> bool" where
  "loop_inv cfg priority d st \<longleftrightarrow>
     0 \<le> ls_sends st \<and> ls_sends st \<le> ls_attempt st \<and> ls_attempt st \<le> attempt_budget cfg \<and>
     int (length (ls_send_times st)) = ls_sends st \<and>
     int (length (filter (\<lambda>t. t \<noteq> T_SKIP) (ls_telemetry st))) = ls_sends st \<and>
     length (ls_recorded st) = ls_grants st \<and>
     0 \<le> ls_rl_used st \<and> ls_rl_used st \<le> rl_cap cfg priority \<and>
     paced (ls_sched st) (ls_slept st) \<and>
     (\<forall>t\<in>set (ls_send_times st). \<forall>dl. d = Some dl \<longrightarrow> t < dl)"

lemma paced_next:
  assumes "paced sched slept" and "next_delay j sched c n = (dl, sched')"
  shows "paced sched' (slept @ [dl])"
proof -
  have p: "last_delay sched \<le> max_delay_s sched" "max_delay_s sched = 30"
    "sorted (0 # slept)" "\<forall>x\<in>set (0 # slept). x \<le> last_delay sched"
    using assms(1) by (auto simp: paced_def)
  note r = next_delay_result [OF assms(2) p(1)]
  have "\<forall>x\<in>set (0 # slept). x \<le> dl" using p(4) r(1) by (meson order_trans)
  with p r show ?thesis unfolding paced_def by (auto simp: sorted_append)
qed

fun step_state :: "step_result \<Rightarrow> loop_state" where
  "step_state (StepDone r st) = st"
| "step_state (StepRetry st) = st"

lemma rl_cap_nonneg: "0 \<le> rl_cap cfg priority"
  using RL_RETRY_CAPS_bounds [of priority] by (auto simp: rl_cap_def)

lemma attempt_budget_bounds: "1 \<le> attempt_budget cfg" "attempt_budget cfg \<le> 3"
  by (auto simp: attempt_budget_def HARD_MAX_ATTEMPTS_def)

lemma send_once_report:
  assumes "send_once lc d g now http = r"
  shows "length (sr_recorded r) = (if sr_granted r then 1 else 0)"
    and "sr_sent r \<longleftrightarrow> sr_telemetry r \<noteq> T_SKIP"
    and "sr_sent r \<Longrightarrow> d = Some dl \<Longrightarrow> now < dl"
    and "sr_outcome r = AttemptClass cls p \<Longrightarrow> sr_sent r"
proof -
  have tel: "fst (attempt_once h) \<noteq> T_SKIP" for h
    by (cases h) (auto simp: classify_payload_def Let_def split: outcome_class.splits http_body.splits)
  define transmit where "transmit =
      (if (case d of None \<Rightarrow> False | Some d \<Rightarrow> fsub d now \<le> 0)
       then skip_report (case g of LimGranted _ _ \<Rightarrow> True | _ \<Rightarrow> False)
              (if (case g of LimGranted _ _ \<Rightarrow> True | _ \<Rightarrow> False) then [L_NOT_SENT] else [])
              (deny lc ''retry deadline exceeded'')
       else (case attempt_once http of (tel, out) \<Rightarrow>
         \<lparr>sr_sent = True, sr_granted = (case g of LimGranted _ _ \<Rightarrow> True | _ \<Rightarrow> False),
          sr_recorded = (if (case g of LimGranted _ _ \<Rightarrow> True | _ \<Rightarrow> False)
                         then [limiter_outcome_of out] else []),
          sr_telemetry = tel, sr_outcome = out\<rparr>))"
  define skipped where "skipped \<longleftrightarrow>
      (\<exists>gr rec e. r = skip_report gr rec e \<and> length rec = (if gr then 1 else 0))"
  have skipI: "r = skip_report gr rec e \<Longrightarrow> length rec = (if gr then 1 else 0) \<Longrightarrow> skipped" for gr rec e
    unfolding skipped_def by blast
  have "r = transmit \<or> skipped"
  proof (cases g)
    case (LimGranted na p)
    have "r = (if (case d of None \<Rightarrow> False | Some d \<Rightarrow> na \<ge> d)
                then skip_report True [L_NOT_SENT] (deny lc ''retry deadline exceeded'')
                else if \<not> p then skip_report True [L_REVOKED] (BybitRateLimitErr ''grant_revoked'')
                else transmit)"
      using assms unfolding send_once_def Let_def transmit_def LimGranted by simp
    then show ?thesis by (auto intro: skipI split: if_split_asm)
  next
    case LimDisabled
    then show ?thesis using assms unfolding send_once_def Let_def transmit_def by simp
  next
    case LimError
    then show ?thesis using assms unfolding send_once_def Let_def by (auto intro: skipI)
  next
    case LimDenied
    then show ?thesis using assms unfolding send_once_def Let_def by (auto intro: skipI)
  qed
  then have cases: "r = transmit \<or> (\<exists>gr rec e. r = skip_report gr rec e \<and> length rec = (if gr then 1 else 0))"
    unfolding skipped_def .
  have sent: "sr_sent transmit \<Longrightarrow> d = Some dl \<Longrightarrow> now < dl"
    using fsub_pos_imp [of dl now] by (auto simp: transmit_def skip_report_def split: if_splits)
  show "length (sr_recorded r) = (if sr_granted r then 1 else 0)"
    using cases by (auto simp: transmit_def skip_report_def split: if_splits prod.splits)
  show "sr_sent r \<longleftrightarrow> sr_telemetry r \<noteq> T_SKIP"
    using cases tel [of http] by (auto simp: transmit_def skip_report_def split: if_splits prod.splits)
  show "sr_sent r \<Longrightarrow> d = Some dl \<Longrightarrow> now < dl"
    using cases sent by (auto simp: skip_report_def)
  show "sr_outcome r = AttemptClass cls p \<Longrightarrow> sr_sent r"
    using cases by (auto simp: transmit_def skip_report_def split: if_splits prod.splits)
qed

lemma note_class_inv:
  "loop_inv cfg priority d st \<Longrightarrow> loop_inv cfg priority d (note_class cfg e cls st)"
  by (simp add: loop_inv_def note_class_def)

lemma sleep_timeout_inv:
  assumes "loop_inv cfg priority d st"
  shows "loop_inv cfg priority d (sleep_timeout e st)"
proof -
  obtain dl sc where n: "next_delay (ie_jitter e) (ls_sched st) CLASS_TIMEOUT (ls_to_used st + 1) = (dl, sc)"
    by fastforce
  have p: "paced sc (ls_slept st @ [dl])"
    using assms by (intro paced_next [OF _ n]) (simp add: loop_inv_def)
  show ?thesis
    unfolding sleep_timeout_def n prod.case using assms p unfolding loop_inv_def by simp
qed

lemma sleep_rate_limit_inv:
  assumes "loop_inv cfg priority d st" and "ls_rl_used st < rl_cap cfg priority"
  shows "loop_inv cfg priority d (sleep_rate_limit e st)"
proof -
  obtain dl sc where n: "next_delay (ie_jitter e) (ls_sched st) CLASS_RATE_LIMIT (ls_rl_used st + 1) = (dl, sc)"
    by fastforce
  have p: "paced sc (ls_slept st @ [dl])"
    using assms by (intro paced_next [OF _ n]) (simp add: loop_inv_def)
  show ?thesis
    unfolding sleep_rate_limit_def n prod.case using assms p unfolding loop_inv_def by simp
qed

lemma retry_decision_inv:
  assumes "loop_inv cfg priority d st"
  shows "loop_inv cfg priority d (step_state (retry_decision cfg priority e cls st))"
  using note_class_inv [OF assms, of e cls]
  by (auto simp: retry_decision_def Let_def intro: sleep_timeout_inv sleep_rate_limit_inv)

lemma record_send_inv:
  assumes "loop_inv cfg priority d st" and "ls_sends st < ls_attempt st"
    and "r = send_once (ls_last st) d (ie_lim e) (ie_now_send e) (ie_http e)"
  shows "loop_inv cfg priority d (record_send e is_retry r st)"
  using assms(1,2) send_once_report(1-3) [OF assms(3) [symmetric]]
  by (auto simp: loop_inv_def record_send_def)

lemma attempt_and_decide_inv:
  assumes "loop_inv cfg priority d st" and "ls_sends st < ls_attempt st"
  shows "loop_inv cfg priority d (step_state (attempt_and_decide cfg priority d e is_retry st))"
proof -
  define r where "r = send_once (ls_last st) d (ie_lim e) (ie_now_send e) (ie_http e)"
  note inv1 = record_send_inv [OF assms r_def, of is_retry]
  have skip: "loop_inv cfg priority d (st\<lparr>ls_telemetry := ls_telemetry st @ [T_SKIP]\<rparr>)"
    using assms by (simp add: loop_inv_def)
  show ?thesis
    using skip inv1 retry_decision_inv [OF inv1]
    by (simp add: attempt_and_decide_def Let_def r_def [symmetric] split: attempt_outcome.split)
qed

lemma gate_and_attempt_inv:
  assumes "loop_inv cfg priority d st" and "ls_sends st < ls_attempt st"
  shows "loop_inv cfg priority d (step_state (gate_and_attempt cfg priority d e is_retry st))"
proof -
  let ?st = "st\<lparr>ls_breaker := ie_breaker_during e (ie_breaker_others e (ls_breaker st))\<rparr>"
  have i: "loop_inv cfg priority d ?st" "ls_sends ?st < ls_attempt ?st"
    using assms by (simp_all add: loop_inv_def)
  from attempt_and_decide_inv [OF i, of e is_retry] i(1) show ?thesis
    by (simp add: gate_and_attempt_def Let_def split: gate_result.split)
qed

lemma loop_step_inv:
  assumes "loop_inv cfg priority d st" and "ls_attempt st < attempt_budget cfg"
  shows "loop_inv cfg priority d (step_state (loop_step cfg priority d e st))"
proof -
  have i: "loop_inv cfg priority d (next_attempt st)" "ls_sends (next_attempt st) < ls_attempt (next_attempt st)"
    using assms by (simp_all add: loop_inv_def next_attempt_def)
  have j: "loop_inv cfg priority d (next_attempt st\<lparr>ls_storm := g\<rparr>)"
    "ls_sends (next_attempt st\<lparr>ls_storm := g\<rparr>) < ls_attempt (next_attempt st\<lparr>ls_storm := g\<rparr>)" for g
    using i by (simp_all add: loop_inv_def)
  show ?thesis
    using i j gate_and_attempt_inv [OF i, of e False] gate_and_attempt_inv [OF j, of e True]
    by (simp add: loop_step_def Let_def split: prod.split)
qed

lemma budgeted_loop_inv:
  "loop_inv cfg priority d st \<Longrightarrow> ls_attempt st < attempt_budget cfg \<Longrightarrow>
     budgeted_loop cfg priority d env st = (r, st') \<Longrightarrow> loop_inv cfg priority d st'"
proof (induction cfg priority d env st rule: budgeted_loop.induct)
  case (1 cfg priority d env st)
  note step = loop_step_inv [OF "1.prems"(1,2), of "env (ls_attempt st)"]
  show ?case
  proof (cases "loop_step cfg priority d (env (ls_attempt st)) st")
    case (StepDone r1 st1)
    with "1.prems"(3) step show ?thesis by (simp add: budgeted_loop.simps [of cfg priority d env st])
  next
    case (StepRetry st1)
    from loop_step_retry [OF StepRetry] have "ls_attempt st1 < attempt_budget cfg" by simp
    with StepRetry "1.IH" [OF StepRetry] "1.prems"(3) step show ?thesis
      by (simp add: budgeted_loop.simps [of cfg priority d env st])
  qed
qed

lemma initial_loop_inv: "loop_inv cfg priority d (initial_loop cfg storm breaker)"
  using rl_cap_nonneg [of cfg priority] attempt_budget_bounds [of cfg]
  by (simp add: loop_inv_def initial_loop_def paced_def new_backoff_def)

lemma budgeted_get_inv:
  assumes "budgeted_get cfg rp endpoint anchor c_at c_s env storm breaker = Inr (r, st)"
  shows "\<exists>priority. resolve_priority rp endpoint = Inr priority \<and>
           loop_inv cfg priority (absolute_deadline anchor cfg c_at c_s) st"
proof -
  obtain priority where p: "resolve_priority rp endpoint = Inr priority"
    "budgeted_loop cfg priority (absolute_deadline anchor cfg c_at c_s) env
       (initial_loop cfg storm breaker) = (r, st)"
    using assms by (auto simp: budgeted_get_def Let_def rbind_Inr_iff)
  have "ls_attempt (initial_loop cfg storm breaker) < attempt_budget cfg"
    using attempt_budget_bounds [of cfg] by (simp add: initial_loop_def)
  from budgeted_loop_inv [OF initial_loop_inv this p(2)] p(1) show ?thesis by blast
qed

section \<open>What a logical GET guarantees\<close>

lemma attempt_once_classes:
  "snd (attempt_once h) = AttemptClass c p \<Longrightarrow> c \<in> {CLASS_OK, CLASS_RATE_LIMIT, CLASS_TIMEOUT}"
  by (cases h) (auto simp: classify_payload_def Let_def
      split: outcome_class.splits http_body.splits if_splits)

lemma send_once_class:
  assumes "sr_outcome (send_once lc d g now http) = AttemptClass c p"
  shows "snd (attempt_once http) = AttemptClass c p"
proof -
  have skip: "sr_outcome (skip_report gr rec e) \<noteq> AttemptClass c p" for gr rec e
    by (simp add: skip_report_def)
  show ?thesis
    using assms skip unfolding send_once_def Let_def
    by (cases g; cases "attempt_once http") (auto split: if_split_asm)
qed

lemma attempt_and_decide_retries:
  assumes "attempt_and_decide cfg priority d e is_retry st = StepRetry st'"
  shows "\<exists>p c. snd (attempt_once (ie_http e)) = AttemptClass c p \<and> c \<in> {CLASS_RATE_LIMIT, CLASS_TIMEOUT}"
proof -
  let ?o = "sr_outcome (send_once (ls_last st) d (ie_lim e) (ie_now_send e) (ie_http e))"
  obtain c p where "?o = AttemptClass c p" "c \<noteq> CLASS_OK"
    using assms by (cases ?o) (auto simp: attempt_and_decide_def Let_def split: if_split_asm)
  with attempt_once_classes [of "ie_http e" c p] send_once_class [of "ls_last st" d "ie_lim e" "ie_now_send e" "ie_http e" c p]
  show ?thesis by blast
qed

lemma classify_ok_shape: "classify_api_result rc msg = CLASS_OK \<Longrightarrow> is_valid_ret_code rc"
  by (auto simp: classify_api_result_def split: if_splits)

text \<open>C22. Budget: whatever the transport, the shared limiter, the other threads and the clocks
  do, one logical GET performs at most \<open>attempt_budget\<close> HTTP sends (and never more than three),
  records exactly one non-skip telemetry entry per send, and reports exactly one outcome to the
  shared limiter for every grant it obtained.\<close>

theorem get_send_budget:
  assumes "budgeted_get cfg rp endpoint anchor c_at c_s env storm breaker = Inr (r, st)"
  shows "ls_sends st \<le> attempt_budget cfg \<and> ls_sends st \<le> 3 \<and>
         int (length (filter (\<lambda>t. t \<noteq> T_SKIP) (ls_telemetry st))) = ls_sends st \<and>
         length (ls_recorded st) = ls_grants st"
proof -
  from budgeted_get_inv [OF assms] obtain priority where
    "loop_inv cfg priority (absolute_deadline anchor cfg c_at c_s) st" by blast
  then show ?thesis using attempt_budget_bounds(2) [of cfg] by (auto simp: loop_inv_def)
qed

text \<open>Deadline: no HTTP send starts at or after the absolute deadline of the logical GET,
  whichever of the configured deadline, the caller's absolute one and the caller's relative one
  is the earliest.\<close>

theorem get_no_send_after_deadline:
  assumes "budgeted_get cfg rp endpoint anchor c_at c_s env storm breaker = Inr (r, st)"
    and "absolute_deadline anchor cfg c_at c_s = Some dl"
  shows "\<forall>t\<in>set (ls_send_times st). t < dl"
proof -
  from budgeted_get_inv [OF assms(1)] obtain priority where
    "loop_inv cfg priority (absolute_deadline anchor cfg c_at c_s) st" by blast
  then show ?thesis using assms(2) by (auto simp: loop_inv_def)
qed

text \<open>Rate-limit pacing: the rate-limit retries of one logical GET stay within the cap of its
  priority, and the delays slept between its attempts never decrease and never exceed thirty
  seconds.\<close>

theorem get_retries_paced:
  assumes "resolve_priority rp endpoint = Inr priority"
    and "budgeted_get cfg rp endpoint anchor c_at c_s env storm breaker = Inr (r, st)"
  shows "ls_rl_used st \<le> rl_cap cfg priority \<and> sorted (ls_slept st) \<and>
         (\<forall>x\<in>set (ls_slept st). 0 \<le> x \<and> x \<le> 30)"
proof -
  from budgeted_get_inv [OF assms(2)] assms(1) have
    "loop_inv cfg priority (absolute_deadline anchor cfg c_at c_s) st" by auto
  then show ?thesis by (auto simp: loop_inv_def paced_def)
qed

text \<open>Retry classes: an iteration asks for another attempt only when the attempt it made was
  classified as a timeout or as a rate limit; access denials, client errors and malformed
  payloads end the logical GET at once.\<close>

theorem get_retries_only_timeout_or_rate_limit:
  assumes "loop_step cfg priority d e st = StepRetry st'"
  shows "\<exists>p c. snd (attempt_once (ie_http e)) = AttemptClass c p \<and>
           c \<in> {CLASS_RATE_LIMIT, CLASS_TIMEOUT}"
  using assms
  by (auto simp: loop_step_def gate_and_attempt_def Let_def
      dest!: attempt_and_decide_retries split: if_split_asm prod.splits gate_result.splits)

text \<open>Success: with the limiter off, the breaker closed and the deadline ahead, a first attempt
  that answers with HTTP success and an object classified as OK ends the logical GET with exactly
  that payload after one send and no sleep.\<close>

theorem get_first_attempt_succeeds:
  assumes "resolve_priority rp endpoint = Inr priority"
    and "ie_lim (env 0) = LimDisabled" and "ie_http (env 0) = HttpResponse 200 (BodyJson payload)"
    and "is_jobj payload"
    and "classify_api_result (jget ''retCode'' payload) (msg_of_json (jget ''retMsg'' payload)) = CLASS_OK"
    and "absolute_deadline anchor cfg c_at c_s = None"
    and "breaker_gate priority (gs_breaker_max_wait_s cfg) (ie_now_gate (env 0))
           (ie_breaker_others (env 0) breaker) (ie_now_gate' (env 0))
           (ie_breaker_during (env 0) (ie_breaker_others (env 0) breaker)) = GateProceed w"
  shows "\<exists>st. budgeted_get cfg rp endpoint anchor c_at c_s env storm breaker =
                 Inr (LoopReturn payload, st) \<and> ls_sends st = 1 \<and> ls_slept st = []"
proof -
  have "attempt_once (ie_http (env 0)) = (T_OK, AttemptClass CLASS_OK (Some payload))"
    using assms(3-5) by (auto simp: raise_for_status_ok_def classify_payload_def Let_def classify_ok_shape)
  then show ?thesis
    using assms(1,2,6,7)
    by (simp add: budgeted_get_def budgeted_loop.simps loop_step_def next_attempt_def Let_def
        initial_loop_def gate_and_attempt_def attempt_and_decide_def send_once_def record_send_def)
qed

text \<open>Delivery of an HTTP denial: a status 401 or 403 that the transport raises becomes the
  authorisation error, while the same status on a returned response becomes the generic client
  error, so the two ways of delivering one status are not equivalent.\<close>

theorem http_denial_depends_on_delivery:
  assumes "status = 401 \<or> status = 403"
  shows "snd (attempt_once (HttpRaisedStatus (Some status))) = AttemptRaise BybitAuthErr \<and>
         snd (attempt_once (HttpResponse status body)) = AttemptRaise BybitErr"
  using assms by (auto simp: http_status_error_def raise_for_status_ok_def)

text \<open>A concrete run for the witnesses: two attempts, a timeout and then a success.\<close>

definition demo_settings :: get_settings where
  "demo_settings = \<lparr>gs_retry_deadline_s = 60, gs_max_attempts = 3, gs_rl_max_retries = 5,
     gs_retry_backoff = 1, gs_rl_retry_backoff = 2, gs_cooldown_s = 5, gs_breaker_max_wait_s = 2,
     gs_storm_window_s = 60, gs_storm_max_retries = 30, gs_storm_max_share = 1 / 2\<rparr>"

definition demo_payload :: json where
  "demo_payload = JObj [(''retCode'', JInt 0), (''retMsg'', JStr ''OK'')]"

definition demo_iter :: "int \<Rightarrow> http_result \<Rightarrow> iter_env" where
  "demo_iter t http = \<lparr>ie_now_deadline = of_int t, ie_storm_others = id, ie_now_allow = of_int t,
     ie_breaker_others = id, ie_now_gate = of_int t, ie_breaker_during = id, ie_now_gate' = of_int t,
     ie_now_presend = of_int t, ie_now_note = of_int t, ie_lim = LimGranted (of_int t) True,
     ie_now_send = of_int t, ie_http = http, ie_now_trip = of_int t, ie_jitter = (\<lambda>_. 0)\<rparr>"

definition demo_env :: "int \<Rightarrow> iter_env" where
  "demo_env i = (if i = 0 then demo_iter 101 HttpTimeout
                 else demo_iter 103 (HttpResponse 200 (BodyJson demo_payload)))"

definition demo_run :: "policy_error + (loop_result \<times> loop_state)" where
  "demo_run = budgeted_get demo_settings (Some ''P1'') ''/v5/market/tickers'' 100 None (Some 20)
     demo_env (new_storm_guard 60 30 (1 / 2) 10) new_breaker"

definition demo_final :: loop_state where
  "demo_final = snd (projr demo_run)"

lemma demo_run_returns:
  obtains r where "budgeted_get demo_settings (Some ''P1'') ''/v5/market/tickers'' 100 None (Some 20)
     demo_env (new_storm_guard 60 30 (1 / 2) 10) new_breaker = Inr (r, demo_final)"
proof -
  have "\<not> isl demo_run" by code_simp
  note run = sum.collapse(2) [OF this, symmetric]
  have "projr demo_run = (fst (projr demo_run), demo_final)"
    by (simp add: demo_final_def)
  with run have "demo_run = Inr (fst (projr demo_run), demo_final)" by metis
  then obtain r where "demo_run = Inr (r, demo_final)" ..
  from that [OF this [unfolded demo_run_def]] show ?thesis .
qed

lemma demo_priority: "resolve_priority (Some ''P1'') ''/v5/market/tickers'' = Inr P1"
  by code_simp

lemma demo_deadline: "absolute_deadline 100 demo_settings None (Some 20) = Some 120"
  by code_simp

lemma demo_values:
  "ls_sends demo_final = 2" "ls_send_times demo_final = [101, 103]" "ls_slept demo_final = [1]"
  by code_simp+

theorem get_send_budget_witness:
  "ls_sends demo_final = 2 \<and> ls_sends demo_final \<le> attempt_budget demo_settings"
proof (rule demo_run_returns)
  fix r assume "budgeted_get demo_settings (Some ''P1'') ''/v5/market/tickers'' 100 None (Some 20)
     demo_env (new_storm_guard 60 30 (1 / 2) 10) new_breaker = Inr (r, demo_final)"
  from get_send_budget [OF this] demo_values(1) show ?thesis by blast
qed

theorem get_no_send_after_deadline_witness:
  "ls_send_times demo_final = [101, 103] \<and> list_all (\<lambda>t. t < 120) (ls_send_times demo_final)"
proof (rule demo_run_returns)
  fix r assume "budgeted_get demo_settings (Some ''P1'') ''/v5/market/tickers'' 100 None (Some 20)
     demo_env (new_storm_guard 60 30 (1 / 2) 10) new_breaker = Inr (r, demo_final)"
  from get_no_send_after_deadline [OF this demo_deadline] demo_values(2) show ?thesis by (simp add: list_all_iff)
qed

theorem get_retries_paced_witness:
  "ls_slept demo_final = [1] \<and> sorted (ls_slept demo_final)"
proof (rule demo_run_returns)
  fix r assume "budgeted_get demo_settings (Some ''P1'') ''/v5/market/tickers'' 100 None (Some 20)
     demo_env (new_storm_guard 60 30 (1 / 2) 10) new_breaker = Inr (r, demo_final)"
  from get_retries_paced [OF demo_priority this] demo_values(3) show ?thesis by blast
qed

definition demo_start :: loop_state where
  "demo_start = initial_loop demo_settings (new_storm_guard 60 30 (1 / 2) 10) new_breaker"

definition demo_retry :: "step_result \<Rightarrow> loop_state" where
  "demo_retry r = (case r of StepRetry st \<Rightarrow> st | StepDone _ st \<Rightarrow> st)"

theorem get_retries_only_timeout_or_rate_limit_witness:
  "\<exists>p c. snd (attempt_once (ie_http (demo_env 0))) = AttemptClass c p \<and>
     c \<in> {CLASS_RATE_LIMIT, CLASS_TIMEOUT}"
proof (rule get_retries_only_timeout_or_rate_limit)
  have "(case loop_step demo_settings P1 (Some 120) (demo_env 0) demo_start of
           StepRetry st \<Rightarrow> True | StepDone _ _ \<Rightarrow> False)" by code_simp
  then show "loop_step demo_settings P1 (Some 120) (demo_env 0) demo_start =
     StepRetry (demo_retry (loop_step demo_settings P1 (Some 120) (demo_env 0) demo_start))"
    by (auto simp: demo_retry_def split: step_result.splits)
qed

definition calm_settings :: get_settings where
  "calm_settings = demo_settings\<lparr>gs_retry_deadline_s := 0\<rparr>"

definition calm_env :: "int \<Rightarrow> iter_env" where
  "calm_env i = (demo_iter 101 (HttpResponse 200 (BodyJson demo_payload)))\<lparr>ie_lim := LimDisabled\<rparr>"

theorem get_first_attempt_succeeds_witness:
  "\<exists>st. budgeted_get calm_settings (Some ''P1'') ''/v5/market/tickers'' 100 None None calm_env
     (new_storm_guard 60 30 (1 / 2) 10) new_breaker = Inr (LoopReturn demo_payload, st) \<and>
     ls_sends st = 1 \<and> ls_slept st = []"
proof (rule get_first_attempt_succeeds [OF demo_priority])
  show "ie_lim (calm_env 0) = LimDisabled" by (simp add: calm_env_def)
  show "ie_http (calm_env 0) = HttpResponse 200 (BodyJson demo_payload)"
    by (simp add: calm_env_def demo_iter_def)
  show "is_jobj demo_payload" by code_simp
  show "classify_api_result (jget ''retCode'' demo_payload)
          (msg_of_json (jget ''retMsg'' demo_payload)) = CLASS_OK" by code_simp
  show "absolute_deadline 100 calm_settings None None = None" by code_simp
  show "breaker_gate P1 (gs_breaker_max_wait_s calm_settings) (ie_now_gate (calm_env 0))
     (ie_breaker_others (calm_env 0) new_breaker) (ie_now_gate' (calm_env 0))
     (ie_breaker_during (calm_env 0) (ie_breaker_others (calm_env 0) new_breaker)) = GateProceed None"
    by code_simp
qed

theorem http_denial_depends_on_delivery_witness:
  "snd (attempt_once (HttpRaisedStatus (Some 401))) \<noteq> snd (attempt_once (HttpResponse 401 BodyUndecodable))"
  using http_denial_depends_on_delivery [of 401 BodyUndecodable] by simp

end
