(* ===== verification/JournalDoc.thy ===== *)
theory JournalDoc
  imports Json "HOL-Library.List_Lexorder" "HOL-Library.Char_ord"
begin

text \<open>
  The document of the order-submit journal of \<^verbatim>\<open>src/app/exchange/retry_budget.py\<close>: the
  compact JSON text that keys an entry (\<^verbatim>\<open>OrderSubmitGuard._key\<close>), the canonical form with
  sorted keys that is written and hashed (\<^verbatim>\<open>_document\<close>), and the strict validation on every
  read (\<^verbatim>\<open>_validate_journal_document\<close>). SHA-256 is a parameter of the definitions that hash.
\<close>

section \<open>Compact JSON text of strings\<close>

definition hex_digit :: "nat \<Rightarrow> char" where
  "hex_digit n = (if n < 10 then char_of (48 + n) else char_of (87 + n))"

text \<open>\<^verbatim>\<open>json.dumps\<close> of one character with \<^verbatim>\<open>ensure_ascii\<close>.\<close>

definition esc :: "char \<Rightarrow> string" where
  "esc c =
     (if c = CHR 0x22 then [CHR 0x5C, CHR 0x22]
      else if c = CHR 0x5C then [CHR 0x5C, CHR 0x5C]
      else if c = CHR 0x0A then [CHR 0x5C, CHR ''n'']
      else if c = CHR 0x0D then [CHR 0x5C, CHR ''r'']
      else if c = CHR 0x09 then [CHR 0x5C, CHR ''t'']
      else if c = CHR 0x0C then [CHR 0x5C, CHR ''f'']
      else if c = CHR 0x08 then [CHR 0x5C, CHR ''b'']
      else let n = (of_char c :: nat) in
        if 32 \<le> n \<and> n < 127 then [c]
        else [CHR 0x5C, CHR ''u'', CHR ''0'', CHR ''0'', hex_digit (n div 16), hex_digit (n mod 16)])"

definition json_str :: "string \<Rightarrow> string" where
  "json_str s = CHR 0x22 # concat (map esc s) @ [CHR 0x22]"

fun json_strs :: "string list \<Rightarrow> string" where
  "json_strs [] = ''''"
| "json_strs [s] = json_str s"
| "json_strs (s # ss) = json_str s @ '','' @ json_strs ss"

text \<open>\<^verbatim>\<open>OrderSubmitGuard._key\<close>.\<close>

definition journal_key :: "string list \<Rightarrow> string \<Rightarrow> string" where
  "journal_key fingerprint order_link_id =
     ''[['' @ json_strs fingerprint @ ''],'' @ json_str order_link_id @ '']''"

section \<open>Canonical documents\<close>

text \<open>The value that comes back after \<^verbatim>\<open>json.dumps(..., sort_keys=True)\<close> and \<^verbatim>\<open>json.loads\<close>.\<close>

fun canon :: "json \<Rightarrow> json" where
  "canon (JArr xs) = JArr (map canon xs)"
| "canon (JObj d) = JObj (sort_key fst (map (\<lambda>(k, v). (k, canon v)) d))"
| "canon j = j"

definition ORDER_JOURNAL_SCHEMA :: int where
  "ORDER_JOURNAL_SCHEMA = 2"

definition journal_document :: "(json \<Rightarrow> string) \<Rightarrow> (string \<times> json) list \<Rightarrow> json" where
  "journal_document digest entries =
     JObj [(''schema'', JInt ORDER_JOURNAL_SCHEMA), (''entries'', JObj entries),
           (''checksum'', JStr (digest (canon (JObj entries))))]"

section \<open>Validation\<close>

definition ORDER_ACTIVE_STATES :: "string list" where
  "ORDER_ACTIVE_STATES = [''in_flight'', ''unknown'']"

definition ORDER_ALL_STATES :: "string list" where
  "ORDER_ALL_STATES = [''in_flight'', ''unknown'', ''resolved'']"

fun json_in :: "json \<Rightarrow> string list \<Rightarrow> bool" where
  "json_in (JStr s) ss = (s \<in> set ss)"
| "json_in _ ss = False"

fun is_jstr_list :: "json \<Rightarrow> bool" where
  "is_jstr_list (JArr xs) = list_all is_jstr xs"
| "is_jstr_list _ = False"

fun is_jobj_list :: "json \<Rightarrow> bool" where
  "is_jobj_list (JArr xs) = list_all is_jobj xs"
| "is_jobj_list _ = False"

fun nonempty_jstr :: "json \<Rightarrow> bool" where
  "nonempty_jstr (JStr s) = (s \<noteq> '''')"
| "nonempty_jstr _ = False"

fun str_str_obj :: "json \<Rightarrow> bool" where
  "str_str_obj (JObj d) = list_all is_jstr (dvals d)"
| "str_str_obj _ = False"

definition owner_id_char :: "char \<Rightarrow> bool" where
  "owner_id_char c = (let n = (of_char c :: nat) in
     65 \<le> n \<and> n \<le> 90 \<or> 97 \<le> n \<and> n \<le> 122 \<or> 48 \<le> n \<and> n \<le> 57 \<or> n = 95 \<or> n = 45)"

text \<open>\<^verbatim>\<open>_OWNER_ID_RE\<close>.\<close>

definition owner_id_ok :: "string \<Rightarrow> bool" where
  "owner_id_ok s \<longleftrightarrow> list_all owner_id_char s \<and> 8 \<le> length s \<and> length s \<le> 64"

text \<open>\<^verbatim>\<open>os.path.basename(s) == s\<close> and not empty.\<close>

definition bare_name :: "string \<Rightarrow> bool" where
  "bare_name s \<longleftrightarrow> s \<noteq> '''' \<and> CHR ''/'' \<notin> set s"

definition owner_ok :: "json \<Rightarrow> string + unit" where
  "owner_ok owner =
     (if owner = JNull then Inr ()
      else rbind (guard (is_jobj owner) ''owner must be an object'') (\<lambda>_.
        rbind (guard (is_jstr (jget ''owner_id'' owner) \<and> owner_id_ok (jstr_or '''' (jget ''owner_id'' owner)))
                 ''owner_id invalid'') (\<lambda>_.
        rbind (guard (is_jstr (jget ''witness'' owner) \<and> bare_name (jstr_or '''' (jget ''witness'' owner)))
                 ''owner witness invalid'') (\<lambda>_.
        rbind (guard (is_py_int (jget ''pid'' owner)) ''owner pid must be an int'') (\<lambda>_.
        guard (is_jstr (jget ''started_at'' owner)) ''owner started_at must be a string'')))))"

definition entry_ok :: "string \<times> json \<Rightarrow> string + unit" where
  "entry_ok ke =
     (let entry = snd ke in
      rbind (guard (is_jobj entry) ''entry must be an object'') (\<lambda>_.
      rbind (guard (is_jstr_list (jget ''fingerprint'' entry)) ''fingerprint must be str[]'') (\<lambda>_.
      rbind (guard (nonempty_jstr (jget ''order_link_id'' entry)) ''order_link_id must be non-empty'') (\<lambda>_.
      rbind (guard (json_in (jget ''state'' entry) ORDER_ALL_STATES) ''state not allowed'') (\<lambda>_.
      rbind (rforeach (\<lambda>f. guard (is_jstr (jget f entry)) ''field must be a string'')
               [''reason'', ''evidence'', ''ts_utc'']) (\<lambda>_.
      rbind (owner_ok (jget ''owner'' entry)) (\<lambda>_.
      rbind (guard (jget ''recovery'' entry = JNull \<or> str_str_obj (jget ''recovery'' entry))
               ''recovery must be str->str'') (\<lambda>_.
      guard (jget ''history'' entry = JNull \<or> is_jobj_list (jget ''history'' entry))
        ''history must be a list of objects''))))))))"

fun jobj_items :: "json \<Rightarrow> (string \<times> json) list" where
  "jobj_items (JObj d) = d"
| "jobj_items _ = []"

definition validate_journal_document :: "(json \<Rightarrow> string) \<Rightarrow> json \<Rightarrow> string + (string \<times> json) list" where
  "validate_journal_document digest data =
     rbind (guard (is_jobj data) ''document must be an object'') (\<lambda>_.
     rbind (guard (py_eq_int (jget ''schema'' data) ORDER_JOURNAL_SCHEMA) ''schema mismatch'') (\<lambda>_.
     rbind (guard (is_jobj (jget ''entries'' data)) ''entries must be an object'') (\<lambda>_.
     rbind (guard (nonempty_jstr (jget ''checksum'' data)) ''checksum missing'') (\<lambda>_.
     rbind (guard (JStr (digest (canon (jget ''entries'' data))) = jget ''checksum'' data)
              ''checksum mismatch'') (\<lambda>_.
     rbind (rforeach entry_ok (jobj_items (jget ''entries'' data))) (\<lambda>_.
     Inr (jobj_items (jget ''entries'' data))))))))"

section \<open>The key determines the submission\<close>

fun tok_len :: "string \<Rightarrow> nat" where
  "tok_len (c # d # r) = (if c = CHR 0x5C then if d = CHR ''u'' then 6 else 2 else 1)"
| "tok_len _ = 1"

definition unhex :: "char \<Rightarrow> nat" where
  "unhex c = (let n = of_char c in if n < 58 then n - 48 else n - 87)"

fun unesc :: "string \<Rightarrow> nat" where
  "unesc [c] = of_char c"
| "unesc [_, d] =
     (if d = CHR ''n'' then 10 else if d = CHR ''r'' then 13 else if d = CHR ''t'' then 9
      else if d = CHR ''f'' then 12 else if d = CHR ''b'' then 8 else of_char d)"
| "unesc [_, _, _, _, x, y] = 16 * unhex x + unhex y"
| "unesc _ = 0"

lemma unhex_hex_digit: "d < 16 \<Longrightarrow> unhex (hex_digit d) = d"
  by (auto simp: unhex_def hex_digit_def Let_def)

lemma code_div_16: "(of_char c :: nat) div 16 < 16"
proof -
  have "of_char c < (256 :: nat)" by (rule nat_of_char_less_256)
  then show ?thesis by (intro less_mult_imp_div_less) simp
qed

lemma unesc_esc: "unesc (esc c) = of_char c"
  using code_div_16 [of c] by (simp add: esc_def Let_def unhex_hex_digit)

lemma esc_inj: "esc c = esc d \<Longrightarrow> c = d"
  by (metis unesc_esc of_char_eq_iff)

lemma esc_shape:
  "esc c \<noteq> [] \<and> hd (esc c) \<noteq> CHR 0x22 \<and>
   (hd (esc c) \<noteq> CHR 0x5C \<longrightarrow> length (esc c) = 1) \<and>
   (hd (esc c) = CHR 0x5C \<longrightarrow> 2 \<le> length (esc c) \<and>
      length (esc c) = (if esc c ! 1 = CHR ''u'' then 6 else 2))"
  by (simp add: esc_def Let_def)

lemma tok_len_esc: "r \<noteq> [] \<Longrightarrow> tok_len (esc c @ r) = length (esc c)"
  using esc_shape [of c]
  by (cases "esc c"; cases "tl (esc c)"; cases r) (auto split: if_splits)

lemma json_str_split:
  "concat (map esc s) @ CHR 0x22 # r = concat (map esc s') @ CHR 0x22 # r' \<Longrightarrow> s = s' \<and> r = r'"
proof (induction s arbitrary: s')
  case Nil
  show ?case
  proof (cases s')
    case (Cons d t)
    have "esc d \<noteq> []" "hd (esc d) \<noteq> CHR 0x22" using esc_shape [of d] by auto
    with Nil.prems Cons show ?thesis by (cases "esc d") auto
  qed (use Nil.prems in simp)
next
  case (Cons c s)
  show ?case
  proof (cases s')
    case Nil
    have "esc c \<noteq> []" "hd (esc c) \<noteq> CHR 0x22" using esc_shape [of c] by auto
    with Cons.prems Nil show ?thesis by (cases "esc c") auto
  next
    case (Cons d t)
    let ?x = "concat (map esc s) @ CHR 0x22 # r" and ?y = "concat (map esc t) @ CHR 0x22 # r'"
    have eq: "esc c @ ?x = esc d @ ?y" using Cons.prems Cons by simp
    have "length (esc c) = length (esc d)"
      using arg_cong [OF eq, of tok_len] by (simp add: tok_len_esc)
    with eq have "esc c = esc d" "?x = ?y" by auto
    with Cons.IH [of t] esc_inj [of c d] Cons show ?thesis by auto
  qed
qed

lemma json_str_inj: "json_str s @ r = json_str s' @ r' \<Longrightarrow> s = s' \<and> r = r'"
  unfolding json_str_def by (auto dest: json_str_split)

lemma json_strs_split:
  "json_strs ss @ CHR '']'' # r = json_strs ts @ CHR '']'' # r' \<Longrightarrow> ss = ts \<and> r = r'"
proof (induction ss arbitrary: ts rule: json_strs.induct)
  case 1
  then show ?case by (cases ts rule: json_strs.cases) (auto simp: json_str_def)
next
  case (2 s)
  show ?case
  proof (cases ts rule: json_strs.cases)
    case 1
    with "2.prems" show ?thesis by (simp add: json_str_def)
  next
    case (2 t)
    with "2.prems" json_str_inj [of s "CHR '']'' # r" t "CHR '']'' # r'"] show ?thesis by simp
  next
    case (3 t v vs)
    with "2.prems" json_str_inj [of s "CHR '']'' # r" t "'','' @ json_strs (v # vs) @ CHR '']'' # r'"]
    show ?thesis by simp
  qed
next
  case (3 s u us)
  show ?case
  proof (cases ts rule: json_strs.cases)
    case 1
    with "3.prems" show ?thesis by (simp add: json_str_def)
  next
    case (2 t)
    with "3.prems" json_str_inj [of s "'','' @ json_strs (u # us) @ CHR '']'' # r" t "CHR '']'' # r'"]
    show ?thesis by simp
  next
    case (3 t v vs)
    with "3.prems" have "json_str s @ '','' @ json_strs (u # us) @ CHR '']'' # r =
      json_str t @ '','' @ json_strs (v # vs) @ CHR '']'' # r'" by simp
    from json_str_inj [OF this] "3.IH" [of "v # vs"] 3 show ?thesis by auto
  qed
qed

text \<open>The key of a journal entry is injective: two submissions share a key only when
  fingerprint and orderLinkId are the same, whatever characters they contain, so no entry of
  another submission can be overwritten through its key.\<close>

theorem journal_key_injective:
  "journal_key fp olid = journal_key fp' olid' \<longleftrightarrow> fp = fp' \<and> olid = olid'"
proof
  assume "journal_key fp olid = journal_key fp' olid'"
  then have e: "json_strs fp @ CHR '']'' # '','' @ json_str olid @ '']'' =
      json_strs fp' @ CHR '']'' # '','' @ json_str olid' @ '']''"
    by (simp add: journal_key_def)
  from json_strs_split [OF e] have "fp = fp'" "json_str olid @ '']'' = json_str olid' @ '']''" by auto
  with json_str_inj show "fp = fp' \<and> olid = olid'" by blast
qed simp

section \<open>Reading back what was written\<close>

lemma map_of_find: "map_of d k = map_option snd (List.find (\<lambda>x. fst x = k) d)"
  by (induction d) auto

lemma find_filter: "List.find P xs = (case filter P xs of [] \<Rightarrow> None | x # _ \<Rightarrow> Some x)"
  by (induction xs) auto

lemma map_of_sort_key [simp]: "map_of (sort_key fst d) k = map_of d k"
  by (simp add: map_of_find find_filter sort_key_stable)

lemma dget_map_canon [simp]:
  "dget (map (\<lambda>(k, v). (k, canon v)) d) k = map_option canon (dget d k)"
  by (induction d) auto

lemma jget_canon: "jget k (canon j) = canon (jget k j)"
  by (cases j) (auto split: option.splits)

lemma canon_simps [simp]:
  "is_jobj (canon j) = is_jobj j" "is_jstr (canon j) = is_jstr j"
  "is_py_int (canon j) = is_py_int j" "py_eq_int (canon j) n = py_eq_int j n"
  "nonempty_jstr (canon j) = nonempty_jstr j" "json_in (canon j) ss = json_in j ss"
  "jstr_or t (canon j) = jstr_or t j" "canon j = JNull \<longleftrightarrow> j = JNull" "JNull = canon j \<longleftrightarrow> j = JNull"
  by (cases j; simp)+

lemma is_jstr_list_canon [simp]: "is_jstr_list (canon j) = is_jstr_list j"
  by (cases j) (auto simp: list_all_iff)

lemma is_jobj_list_canon [simp]: "is_jobj_list (canon j) = is_jobj_list j"
  by (cases j) (auto simp: list_all_iff)

lemma str_str_obj_canon [simp]: "str_str_obj (canon j) = str_str_obj j"
  by (cases j) (auto simp: list_all_iff)

lemma canon_JStr_iff [simp]: "canon j = JStr s \<longleftrightarrow> j = JStr s"
  by (cases j) auto

lemma insort_map_canon:
  "insort_key fst (case x of (k, v) \<Rightarrow> (k, canon v)) (map (\<lambda>(k, v). (k, canon v)) e) =
     map (\<lambda>(k, v). (k, canon v)) (insort_key fst x e)"
  by (induction e) (auto split: prod.splits)

lemma sort_map_canon:
  "sort_key fst (map (\<lambda>(k, v). (k, canon v)) d) = map (\<lambda>(k, v). (k, canon v)) (sort_key fst d)"
  by (induction d) (simp_all add: insort_map_canon)

lemma canon_idem [simp]: "canon (canon j) = canon j"
proof (induction j rule: canon.induct)
  case (2 d)
  have "map (\<lambda>(k, v). (k, canon v)) (map (\<lambda>(k, v). (k, canon v)) d) = map (\<lambda>(k, v). (k, canon v)) d"
    using 2 by auto
  then show ?case
    by (simp add: sort_map_canon [symmetric] sort_key_id_if_sorted del: map_map)
qed (auto simp: comp_def)

lemma owner_ok_canon [simp]: "owner_ok (canon j) = owner_ok j"
  by (simp add: owner_ok_def jget_canon)

lemma entry_ok_canon [simp]: "entry_ok (k, canon j) = entry_ok (k, j)"
  by (simp add: entry_ok_def jget_canon)

text \<open>The entries of a document after a write and a read.\<close>

definition stored_entries :: "(string \<times> json) list \<Rightarrow> (string \<times> json) list" where
  "stored_entries es = sort_key fst (map (\<lambda>(k, v). (k, canon v)) es)"

lemma dget_stored: "dget (stored_entries es) k = map_option canon (dget es k)"
  by (simp add: stored_entries_def)

lemma distinct_sort_key_fst: "distinct (map fst (sort_key fst d)) = distinct (map fst d)"
proof -
  have "distinct xs \<longleftrightarrow> card (set xs) = length xs" for xs :: "'a list"
    using distinct_card card_distinct by blast
  then show ?thesis by simp
qed

lemma dwf_stored [simp]: "dwf (stored_entries es) = dwf es"
  by (simp add: stored_entries_def dwf_def distinct_sort_key_fst comp_def case_prod_unfold)

text \<open>C21. Write and read: every document the guard writes passes the validation of the next read
  when its entries do, and yields the same entries in canonical order.\<close>

theorem journal_roundtrip:
  assumes "list_all (\<lambda>ke. entry_ok ke = Inr ()) es"
    and "digest (canon (JObj es)) \<noteq> ''''"
  shows "validate_journal_document digest (canon (journal_document digest es)) = Inr (stored_entries es)"
proof -
  have e: "jget ''entries'' (canon (journal_document digest es)) = canon (JObj es)"
    "jget ''schema'' (canon (journal_document digest es)) = JInt 2"
    "jget ''checksum'' (canon (journal_document digest es)) = JStr (digest (canon (JObj es)))"
    unfolding jget_canon by (simp_all add: journal_document_def ORDER_JOURNAL_SCHEMA_def)
  have i: "jobj_items (canon (JObj es)) = stored_entries es" "is_jobj (canon (JObj es))"
    by (simp_all add: stored_entries_def)
  have o: "is_jobj (canon (journal_document digest es))" by (simp add: journal_document_def)
  have "rforeach entry_ok (stored_entries es) = Inr ()"
    using assms(1) by (auto simp: rforeach_Inr_iff stored_entries_def list_all_iff)
  then show ?thesis
    unfolding validate_journal_document_def e canon_idem i
    using assms(2) o by (simp add: guard_def ORDER_JOURNAL_SCHEMA_def)
qed

end
