(* ===== verification/OrderGuard.thy ===== *)
theory OrderGuard
  imports JournalDoc
begin

text \<open>
  The persistent double-submit guard of \<^verbatim>\<open>src/app/exchange/retry_budget.py\<close>
  (\<^verbatim>\<open>OrderSubmitGuard\<close>): guard state, journal files on a shared disk, the journal
  transaction (directory, lock, reload, recovery, body, durable write) and every operation on
  it. What the operating system answers during one operation (directory, lock, read, write,
  witness probes, identifiers, time) is one environment record; SHA-256 over the canonical
  document is the parameter \<open>digest\<close>.
\<close>

section \<open>Owner liveness\<close>

datatype liveness = LIVENESS_ALIVE | LIVENESS_ORPHANED | LIVENESS_UNVERIFIED

text \<open>What the operating system answers to the probe of one witness file.\<close>

datatype witness_probe = ProbeOpenFails | ProbeFdopenFails | ProbeLockConflict | ProbeLockFails | ProbeLocked

fun verify_owner_witness :: "witness_probe \<Rightarrow> liveness" where
  "verify_owner_witness ProbeOpenFails = LIVENESS_UNVERIFIED"
| "verify_owner_witness ProbeFdopenFails = LIVENESS_UNVERIFIED"
| "verify_owner_witness ProbeLockConflict = LIVENESS_ALIVE"
| "verify_owner_witness ProbeLockFails = LIVENESS_UNVERIFIED"
| "verify_owner_witness ProbeLocked = LIVENESS_ORPHANED"

section \<open>State\<close>

datatype journal_file = FileAbsent | FileUnparsable | FileDoc json

type_synonym disk = "string \<Rightarrow> journal_file"

datatype order_error =
    E_NotConfigured | E_Degraded | E_Directory | E_Lock | E_Journal | E_Write | E_Witness
  | E_ManualNotImplemented

record recovery_report =
  rr_recovered :: "json list"
  rr_alive :: "json list"
  rr_unverified :: "json list"

definition empty_report :: recovery_report where
  "empty_report = \<lparr>rr_recovered = [], rr_alive = [], rr_unverified = []\<rparr>"

record order_guard =
  og_path :: string
  og_load_error :: bool
  og_write_degraded :: bool
  og_entries :: "(string \<times> json) list"
  og_witness :: "json option"
  og_last_recovery :: "recovery_report option"
  og_mutated :: bool

text \<open>\<^verbatim>\<open>OrderSubmitGuard.__init__\<close> without a path; the empty path stands for \<^verbatim>\<open>None\<close>
  (both are falsy).\<close>

definition new_order_guard :: order_guard where
  "new_order_guard = \<lparr>og_path = '''', og_load_error = False, og_write_degraded = False,
     og_entries = [], og_witness = None, og_last_recovery = None, og_mutated = False\<rparr>"

datatype write_outcome = WriteDone | WriteFailed | WriteReplacedThenFailed

record txn_env =
  te_dir_ok :: bool
  te_lock_ok :: bool
  te_read_ok :: bool
  te_write :: write_outcome
  te_witness_ok :: bool
  te_uuid :: string
  te_pid :: int
  te_now :: string
  te_live :: "string \<Rightarrow> bool"
  te_probe :: "string \<Rightarrow> witness_probe"

section \<open>Ownership\<close>

text \<open>\<^verbatim>\<open>str(owner.get(field, ""))\<close>; the validated documents hold text there.\<close>

definition verify_owner :: "txn_env \<Rightarrow> json \<Rightarrow> liveness" where
  "verify_owner e owner =
     (if \<not> is_jobj owner then LIVENESS_UNVERIFIED
      else let owner_id = jstr_or '''' (jget ''owner_id'' owner);
               witness = jstr_or '''' (jget ''witness'' owner)
           in if \<not> owner_id_ok owner_id then LIVENESS_UNVERIFIED
              else if \<not> bare_name witness then LIVENESS_UNVERIFIED
              else if te_live e owner_id then LIVENESS_ALIVE
              else verify_owner_witness (te_probe e witness))"

definition basename :: "string \<Rightarrow> string" where
  "basename p = rev (takeWhile (\<lambda>c. c \<noteq> CHR ''/'') (rev p))"

definition new_witness :: "txn_env \<Rightarrow> string \<Rightarrow> json" where
  "new_witness e path = JObj
     [(''owner_id'', JStr (te_uuid e)), (''pid'', JInt (te_pid e)),
      (''witness'', JStr (basename path @ ''.owner.'' @ te_uuid e @ ''.lock'')),
      (''started_at'', JStr (te_now e))]"

text \<open>\<^verbatim>\<open>_ensure_witness\<close> and \<^verbatim>\<open>_owner_identity\<close>.\<close>

definition owner_identity :: "txn_env \<Rightarrow> order_guard \<Rightarrow> (order_error + json) \<times> order_guard" where
  "owner_identity e g =
     (case og_witness g of
        Some w \<Rightarrow> (Inr w, g)
      | None \<Rightarrow>
          if og_path g = '''' then (Inl E_NotConfigured, g)
          else if \<not> te_witness_ok e then (Inl E_Witness, g\<lparr>og_write_degraded := True\<rparr>)
          else let w = new_witness e (og_path g) in (Inr w, g\<lparr>og_witness := Some w\<rparr>))"

definition release_witness :: "order_guard \<Rightarrow> order_guard" where
  "release_witness g = g\<lparr>og_witness := None\<rparr>"

section \<open>Reading, recovery, writing\<close>

definition read_journal ::
  "(json \<Rightarrow> string) \<Rightarrow> txn_env \<Rightarrow> disk \<Rightarrow> string \<Rightarrow> string + (string \<times> json) list" where
  "read_journal digest e disk path =
     (if path = '''' then Inr []
      else case disk path of
        FileAbsent \<Rightarrow> Inr []
      | FileUnparsable \<Rightarrow> Inl ''unparsable''
      | FileDoc doc \<Rightarrow> if te_read_ok e then validate_journal_document digest doc
                       else Inl ''unreadable'')"

text \<open>One entry of \<^verbatim>\<open>_recover_locked\<close>: the in-flight record of an owner that is provably gone.\<close>

definition recovered_entry :: "string \<Rightarrow> json \<Rightarrow> json" where
  "recovered_entry now entry =
     (let r = jset ''state'' (JStr ''unknown'') entry;
          r = (if jstr_or '''' (jget ''reason'' r) = ''''
               then jset ''reason'' (JStr ''in_flight at crash/restart (outcome UNKNOWN)'') r else r)
      in jset ''recovery'' (JObj
           [(''from_state'', JStr ''in_flight''), (''to_state'', JStr ''unknown''),
            (''ts_utc'', JStr now),
            (''detail'', JStr ''owner not alive (witness lock released), outcome UNKNOWN, awaiting reconciliation'')]) r)"

definition recover_one :: "txn_env \<Rightarrow> json \<Rightarrow> json" where
  "recover_one e entry =
     (if jget ''state'' entry = JStr ''in_flight'' \<and>
         verify_owner e (jget ''owner'' entry) = LIVENESS_ORPHANED
      then recovered_entry (te_now e) entry else entry)"

definition with_verdict :: "txn_env \<Rightarrow> liveness \<Rightarrow> (string \<times> json) list \<Rightarrow> json list" where
  "with_verdict e v entries =
     filter (\<lambda>x. jget ''state'' x = JStr ''in_flight'' \<and> verify_owner e (jget ''owner'' x) = v)
       (dvals entries)"

definition recovery_report_of :: "txn_env \<Rightarrow> (string \<times> json) list \<Rightarrow> recovery_report" where
  "recovery_report_of e entries =
     \<lparr>rr_recovered = map (recovered_entry (te_now e)) (with_verdict e LIVENESS_ORPHANED entries),
      rr_alive = with_verdict e LIVENESS_ALIVE entries,
      rr_unverified = with_verdict e LIVENESS_UNVERIFIED entries\<rparr>"

definition recover_locked :: "txn_env \<Rightarrow> order_guard \<Rightarrow> order_guard" where
  "recover_locked e g =
     g\<lparr>og_entries := map (\<lambda>(k, v). (k, recover_one e v)) (og_entries g),
       og_mutated := (og_mutated g \<or> with_verdict e LIVENESS_ORPHANED (og_entries g) \<noteq> []),
       og_last_recovery := Some (recovery_report_of e (og_entries g))\<rparr>"

text \<open>The directory, the lock and the reload of \<^verbatim>\<open>_transaction\<close>, then the recovery step.\<close>

definition open_transaction ::
  "(json \<Rightarrow> string) \<Rightarrow> txn_env \<Rightarrow> disk \<Rightarrow> order_guard \<Rightarrow> (order_error + unit) \<times> order_guard" where
  "open_transaction digest e disk g =
     (if og_load_error g \<or> og_write_degraded g then (Inl E_Degraded, g)
      else if og_path g = '''' then (Inl E_NotConfigured, g)
      else if \<not> te_dir_ok e then (Inl E_Directory, g\<lparr>og_write_degraded := True\<rparr>)
      else if \<not> te_lock_ok e then (Inl E_Lock, g)
      else case read_journal digest e disk (og_path g) of
        Inl _ \<Rightarrow> (Inl E_Journal, g\<lparr>og_load_error := True\<rparr>)
      | Inr entries \<Rightarrow>
          (Inr (), recover_locked e (g\<lparr>og_entries := entries, og_load_error := False, og_mutated := False\<rparr>)))"

definition write_journal :: "(json \<Rightarrow> string) \<Rightarrow> order_guard \<Rightarrow> disk \<Rightarrow> disk" where
  "write_journal digest g disk =
     disk(og_path g := FileDoc (canon (journal_document digest (og_entries g))))"

text \<open>The end of \<^verbatim>\<open>_transaction\<close>: the durable write of a mutated journal.\<close>

definition close_transaction ::
  "(json \<Rightarrow> string) \<Rightarrow> txn_env \<Rightarrow> bool \<Rightarrow> 'a \<Rightarrow> disk \<Rightarrow> order_guard \<Rightarrow>
   (order_error + 'a) \<times> disk \<times> order_guard" where
  "close_transaction digest e strict_write a disk g =
     (if \<not> og_mutated g then (Inr a, disk, g)
      else if te_write e = WriteDone then (Inr a, write_journal digest g disk, g)
      else (if strict_write then Inl E_Write else Inr a,
            (if te_write e = WriteReplacedThenFailed then write_journal digest g disk else disk),
            g\<lparr>og_last_recovery := None, og_write_degraded := True\<rparr>))"

definition transaction ::
  "(json \<Rightarrow> string) \<Rightarrow> txn_env \<Rightarrow> bool \<Rightarrow> (order_guard \<Rightarrow> (order_error + 'a) \<times> order_guard) \<Rightarrow>
   disk \<Rightarrow> order_guard \<Rightarrow> (order_error + 'a) \<times> disk \<times> order_guard" where
  "transaction digest e strict_write body disk g =
     (case open_transaction digest e disk g of
        (Inl err, g1) \<Rightarrow> (Inl err, disk, g1)
      | (Inr _, g1) \<Rightarrow>
          (case body g1 of
             (Inl err, g2) \<Rightarrow> (Inl err, disk, g2)
           | (Inr a, g2) \<Rightarrow> close_transaction digest e strict_write a disk g2))"

section \<open>Operations\<close>

definition entry_active :: "json \<Rightarrow> bool" where
  "entry_active entry \<longleftrightarrow> json_in (jget ''state'' entry) ORDER_ACTIVE_STATES"

definition entry_fp :: "json \<Rightarrow> json" where
  "entry_fp entry = jget ''fingerprint'' entry"

definition entry_olid :: "json \<Rightarrow> string" where
  "entry_olid entry = jstr_or '''' (jget ''order_link_id'' entry)"

definition fp_json :: "string list \<Rightarrow> json" where
  "fp_json fp = JArr (map JStr fp)"

definition new_entry ::
  "txn_env \<Rightarrow> string list \<Rightarrow> string \<Rightarrow> string \<Rightarrow> order_guard \<Rightarrow> (order_error + json) \<times> order_guard" where
  "new_entry e fp olid state g =
     (case owner_identity e g of
        (Inl err, g') \<Rightarrow> (Inl err, g')
      | (Inr owner, g') \<Rightarrow>
          (Inr (JObj [(''fingerprint'', fp_json fp), (''order_link_id'', JStr olid),
             (''state'', JStr state), (''reason'', JStr ''''), (''evidence'', JStr ''''),
             (''ts_utc'', JStr (te_now e)), (''owner'', owner)]), g'))"

definition store_entry :: "string \<Rightarrow> json \<Rightarrow> order_guard \<Rightarrow> order_guard" where
  "store_entry key entry g = g\<lparr>og_entries := dput key entry (og_entries g), og_mutated := True\<rparr>"

definition blocks :: "string list \<Rightarrow> string \<Rightarrow> json \<Rightarrow> bool" where
  "blocks fp olid entry \<longleftrightarrow>
     entry_active entry \<and> (entry_fp entry = fp_json fp \<or> entry_olid entry = olid)"

fun jarr_items :: "json \<Rightarrow> json list" where
  "jarr_items (JArr xs) = xs"
| "jarr_items _ = []"

text \<open>A previous record under the same key is kept in the history of the new one.\<close>

definition with_history :: "json option \<Rightarrow> json \<Rightarrow> json" where
  "with_history existing entry =
     (case existing of None \<Rightarrow> entry
      | Some old \<Rightarrow>
          jset ''history'' (JArr (jarr_items (jget ''history'' old) @ [jpop ''history'' old])) entry)"

definition begin_body ::
  "txn_env \<Rightarrow> string list \<Rightarrow> string \<Rightarrow> order_guard \<Rightarrow> (order_error + bool) \<times> order_guard" where
  "begin_body e fp olid g =
     (if list_ex (blocks fp olid) (dvals (og_entries g)) then (Inr False, g)
      else case new_entry e fp olid ''in_flight'' g of
        (Inl err, g') \<Rightarrow> (Inl err, g')
      | (Inr entry, g') \<Rightarrow>
          let key = journal_key fp olid
          in (Inr True, store_entry key (with_history (dget (og_entries g) key) entry) g'))"

definition submit_begin ::
  "(json \<Rightarrow> string) \<Rightarrow> txn_env \<Rightarrow> string list \<Rightarrow> string \<Rightarrow> disk \<Rightarrow> order_guard \<Rightarrow>
   (order_error + bool) \<times> disk \<times> order_guard" where
  "submit_begin digest e fp olid = transaction digest e True (begin_body e fp olid)"

text \<open>The common shape of \<^verbatim>\<open>mark_unknown\<close> and \<^verbatim>\<open>mark_resolved\<close>: update the entry of the key or
  a new one. Any failure is swallowed and leaves the guard degraded.\<close>

definition mark_body ::
  "txn_env \<Rightarrow> string list \<Rightarrow> string \<Rightarrow> string \<Rightarrow> (string \<times> json) list \<Rightarrow> order_guard \<Rightarrow>
   (order_error + unit) \<times> order_guard" where
  "mark_body e fp olid state kvs g =
     (let key = journal_key fp olid in
      case dget (og_entries g) key of
        Some entry \<Rightarrow> (Inr (), store_entry key (jupdate kvs entry) g)
      | None \<Rightarrow>
          (case new_entry e fp olid state g of
             (Inl err, g') \<Rightarrow> (Inl err, g')
           | (Inr entry, g') \<Rightarrow> (Inr (), store_entry key (jupdate kvs entry) g')))"

definition swallow_errors ::
  "(order_error + unit) \<times> disk \<times> order_guard \<Rightarrow> disk \<times> order_guard" where
  "swallow_errors r =
     (case r of (Inl _, disk, g) \<Rightarrow> (disk, g\<lparr>og_write_degraded := True\<rparr>) | (Inr _, disk, g) \<Rightarrow> (disk, g))"

definition mark_unknown ::
  "(json \<Rightarrow> string) \<Rightarrow> txn_env \<Rightarrow> string list \<Rightarrow> string \<Rightarrow> string \<Rightarrow> disk \<Rightarrow> order_guard \<Rightarrow>
   disk \<times> order_guard" where
  "mark_unknown digest e fp olid reason disk g =
     swallow_errors (transaction digest e False
       (mark_body e fp olid ''unknown''
          [(''order_link_id'', JStr olid), (''state'', JStr ''unknown''), (''reason'', JStr reason),
           (''ts_utc'', JStr (te_now e))]) disk g)"

definition mark_resolved ::
  "(json \<Rightarrow> string) \<Rightarrow> txn_env \<Rightarrow> string list \<Rightarrow> string \<Rightarrow> string \<Rightarrow> disk \<Rightarrow> order_guard \<Rightarrow>
   disk \<times> order_guard" where
  "mark_resolved digest e fp olid evidence disk g =
     swallow_errors (transaction digest e False
       (mark_body e fp olid ''resolved''
          [(''state'', JStr ''resolved''), (''evidence'', JStr evidence), (''ts_utc'', JStr (te_now e))])
       disk g)"

text \<open>The first active entry with the orderLinkId, in journal order.\<close>

definition reconciled_body ::
  "txn_env \<Rightarrow> string \<Rightarrow> string \<Rightarrow> order_guard \<Rightarrow> (order_error + bool) \<times> order_guard" where
  "reconciled_body e olid evidence g =
     (case List.find (\<lambda>(k, x). entry_olid x = olid \<and> entry_active x) (og_entries g) of
        None \<Rightarrow> (Inr False, g)
      | Some (k, x) \<Rightarrow>
          (Inr True, store_entry k (jupdate [(''state'', JStr ''resolved''), (''evidence'', JStr evidence),
             (''ts_utc'', JStr (te_now e))] x) g))"

definition resolve_reconciled ::
  "(json \<Rightarrow> string) \<Rightarrow> txn_env \<Rightarrow> string \<Rightarrow> string \<Rightarrow> disk \<Rightarrow> order_guard \<Rightarrow>
   (order_error + bool) \<times> disk \<times> order_guard" where
  "resolve_reconciled digest e olid evidence = transaction digest e True (reconciled_body e olid evidence)"

definition resolve_manual :: "disk \<Rightarrow> order_guard \<Rightarrow> (order_error + unit) \<times> disk \<times> order_guard" where
  "resolve_manual disk g = (Inl E_ManualNotImplemented, disk, g)"

definition recover_orphaned_in_flight ::
  "(json \<Rightarrow> string) \<Rightarrow> txn_env \<Rightarrow> disk \<Rightarrow> order_guard \<Rightarrow>
   (order_error + recovery_report) \<times> disk \<times> order_guard" where
  "recover_orphaned_in_flight digest e disk g =
     (case transaction digest e True (\<lambda>g. (Inr (), g)) disk g of
        (Inl err, disk', g') \<Rightarrow> (Inl err, disk', g')
      | (Inr _, disk', g') \<Rightarrow>
          (Inr (case og_last_recovery g' of Some r \<Rightarrow> r | None \<Rightarrow> empty_report), disk', g'))"

text \<open>Binding a path reads the journal and runs the durable recovery; a failure of either
  leaves the guard refusing submissions.\<close>

definition configure_bind :: "string \<Rightarrow> order_guard \<Rightarrow> order_guard" where
  "configure_bind path g = (release_witness g)\<lparr>og_path := path, og_load_error := False,
     og_write_degraded := False, og_last_recovery := None\<rparr>"

definition configure ::
  "(json \<Rightarrow> string) \<Rightarrow> txn_env \<Rightarrow> string \<Rightarrow> disk \<Rightarrow> order_guard \<Rightarrow> disk \<times> order_guard" where
  "configure digest e path disk g =
     (if path = og_path g then (disk, g)
      else case read_journal digest e disk path of
        Inl _ \<Rightarrow> (disk, (configure_bind path g)\<lparr>og_entries := [], og_load_error := True\<rparr>)
      | Inr entries \<Rightarrow>
          (case recover_orphaned_in_flight digest e disk ((configure_bind path g)\<lparr>og_entries := entries\<rparr>) of
             (Inl _, disk', g') \<Rightarrow> (disk', g'\<lparr>og_load_error := True\<rparr>)
           | (Inr _, disk', g') \<Rightarrow> (disk', g')))"

definition guard_reset :: "order_guard \<Rightarrow> order_guard" where
  "guard_reset g = (release_witness g)\<lparr>og_entries := [], og_load_error := False,
     og_write_degraded := False, og_last_recovery := None, og_path := ''''\<rparr>"

section \<open>Inspection\<close>

definition blocking_entry :: "string list \<Rightarrow> order_guard \<Rightarrow> (json \<times> string) option" where
  "blocking_entry fp g =
     map_option (\<lambda>x. (jget ''state'' x, entry_olid x))
       (List.find (\<lambda>x. entry_active x \<and> entry_fp x = fp_json fp) (dvals (og_entries g)))"

definition pending_unknown :: "order_guard \<Rightarrow> json list" where
  "pending_unknown g = filter (\<lambda>x. jget ''state'' x = JStr ''unknown'') (dvals (og_entries g))"

definition active_unknown :: "order_guard \<Rightarrow> json list" where
  "active_unknown g = filter entry_active (dvals (og_entries g))"

end
