(* ===== verification/OrderWorld.thy ===== *)
theory OrderWorld
  imports OrderGuard
begin

text \<open>
  The guards of several processes on one shared disk: events, the durable block that a
  reservation leaves in the journal, and the theorems that no second submission of the same
  order starts before the first one is resolved. Every event is one operation of one guard
  with the environment it met; a crash replaces the guard by a fresh one.
\<close>

section \<open>Lemmas on entries\<close>

definition entries_block :: "string list \<Rightarrow> string \<Rightarrow> (string \<times> json) list \<Rightarrow> bool" where
  "entries_block fp olid es \<longleftrightarrow>
     dwf es \<and> (\<exists>x. dget es (journal_key fp olid) = Some x \<and> entry_active x \<and>
               entry_fp x = fp_json fp \<and> entry_olid x = olid)"

lemma canon_fp_json [simp]: "canon (fp_json fp) = fp_json fp"
  by (simp add: fp_json_def comp_def)

lemma fp_json_inj [simp]: "fp_json fp = fp_json fp' \<longleftrightarrow> fp = fp'"
  by (auto simp: fp_json_def dest: map_injective [rotated] simp: inj_def)

lemma entry_active_canon [simp]: "entry_active (canon x) = entry_active x"
  by (simp add: entry_active_def jget_canon)

lemma entry_olid_canon [simp]: "entry_olid (canon x) = entry_olid x"
  by (simp add: entry_olid_def jget_canon)

lemma entry_fp_canon: "entry_fp x = fp_json fp \<Longrightarrow> entry_fp (canon x) = fp_json fp"
  by (simp add: entry_fp_def jget_canon)

lemma entries_block_stored: "entries_block fp olid es \<Longrightarrow> entries_block fp olid (stored_entries es)"
  by (auto simp: entries_block_def dget_stored entry_fp_canon)

lemma validate_entries:
  "validate_journal_document digest d = Inr es \<Longrightarrow> es = jobj_items (jget ''entries'' d)"
  by (auto simp: validate_journal_document_def rbind_Inr_iff)

lemma validate_written:
  "validate_journal_document digest (canon (journal_document digest es)) = Inr es' \<Longrightarrow> es' = stored_entries es"
  by (drule validate_entries, simp add: jget_canon)
    (simp add: journal_document_def stored_entries_def)

section \<open>Recovery keeps every block\<close>

lemma entry_active_obj: "entry_active x \<Longrightarrow> is_jobj x"
  by (cases x) (auto simp: entry_active_def)

lemma recovered_entry_get:
  assumes "is_jobj x"
  shows "jget f (recovered_entry now x) =
    (if f = ''recovery'' then jget f (recovered_entry now x)
     else if f = ''state'' then JStr ''unknown''
     else if f = ''reason'' \<and> jstr_or '''' (jget ''reason'' x) = ''''
     then JStr ''in_flight at crash/restart (outcome UNKNOWN)'' else jget f x)"
  using assms by (simp add: recovered_entry_def Let_def)

lemma recover_one_block:
  assumes "is_jobj x"
  shows "entry_active (recover_one e x) = entry_active x" "entry_fp (recover_one e x) = entry_fp x"
    "entry_olid (recover_one e x) = entry_olid x" "is_jobj (recover_one e x)"
  using assms
  by (auto simp: recover_one_def recovered_entry_def Let_def entry_active_def entry_fp_def
      entry_olid_def ORDER_ACTIVE_STATES_def)

lemma dwf_recover [simp]: "dwf (map (\<lambda>(k, v). (k, recover_one e v)) es) = dwf es"
  by (simp add: dwf_def comp_def case_prod_unfold)

lemma dget_recover [simp]: "dget (map (\<lambda>(k, v). (k, recover_one e v)) es) k = map_option (recover_one e) (dget es k)"
  by (induction es) auto

lemma entries_block_recover:
  "entries_block fp olid es \<Longrightarrow> entries_block fp olid (map (\<lambda>(k, v). (k, recover_one e v)) es)"
  by (auto simp: entries_block_def recover_one_block entry_active_obj)

section \<open>Blocked journals\<close>

text \<open>A file in which no reservation of the submission can succeed: no document, an invalid
  one, or one with an active entry of the submission.\<close>

definition file_blocked :: "(json \<Rightarrow> string) \<Rightarrow> string list \<Rightarrow> string \<Rightarrow> journal_file \<Rightarrow> bool" where
  "file_blocked digest fp olid f =
     (case f of FileAbsent \<Rightarrow> False | FileUnparsable \<Rightarrow> True
      | FileDoc d \<Rightarrow> (case validate_journal_document digest d of
            Inl _ \<Rightarrow> True | Inr es \<Rightarrow> entries_block fp olid es))"

lemma write_blocked:
  "entries_block fp olid es \<Longrightarrow>
     file_blocked digest fp olid (FileDoc (canon (journal_document digest es)))"
  by (auto simp: file_blocked_def dest!: validate_written intro: entries_block_stored split: sum.splits)

lemma open_transaction_path:
  "open_transaction digest e disk g = (r, g1) \<Longrightarrow> og_path g1 = og_path g"
  by (auto simp: open_transaction_def recover_locked_def split: if_splits sum.splits)

lemma open_transaction_blocked:
  assumes "open_transaction digest e disk g = (Inr u, g1)"
    and "file_blocked digest fp olid (disk (og_path g))"
  shows "entries_block fp olid (og_entries g1)"
  using assms entries_block_recover
  by (auto simp: open_transaction_def recover_locked_def read_journal_def file_blocked_def
      split: if_splits sum.splits journal_file.splits)

text \<open>A body of a transaction that keeps the path and the block.\<close>

definition keeps_block ::
  "string list \<Rightarrow> string \<Rightarrow> (order_guard \<Rightarrow> (order_error + 'a) \<times> order_guard) \<Rightarrow> bool" where
  "keeps_block fp olid body \<longleftrightarrow>
     (\<forall>g a g'. body g = (Inr a, g') \<longrightarrow> og_path g' = og_path g \<and>
        (entries_block fp olid (og_entries g) \<longrightarrow> entries_block fp olid (og_entries g')))"

lemma close_transaction_blocked:
  assumes "close_transaction digest e s a disk g = (r, disk', g')"
    and "file_blocked digest fp olid (disk p)"
    and "og_path g = p \<Longrightarrow> entries_block fp olid (og_entries g)"
  shows "file_blocked digest fp olid (disk' p)"
  using assms write_blocked
  by (auto simp: close_transaction_def write_journal_def split: if_splits)

lemma transaction_blocked:
  assumes "transaction digest e s body disk g = (r, disk', g')"
    and "keeps_block fp olid body" and "file_blocked digest fp olid (disk p)"
  shows "file_blocked digest fp olid (disk' p)"
proof -
  obtain r1 g1 where o: "open_transaction digest e disk g = (r1, g1)" by fastforce
  obtain r2 g2 where b: "body g1 = (r2, g2)" by fastforce
  show ?thesis
  proof (cases "isl r1 \<or> isl r2")
    case True
    then show ?thesis using assms(1,3) by (auto simp: transaction_def o b split: sum.splits)
  next
    case False
    then obtain u a where r: "r1 = Inr u" "r2 = Inr a" by (cases r1; cases r2) auto
    have c: "close_transaction digest e s a disk g2 = (r, disk', g')"
      using assms(1) by (simp add: transaction_def o b r)
    have p: "og_path g2 = og_path g" and k: "entries_block fp olid (og_entries g1) \<Longrightarrow>
      entries_block fp olid (og_entries g2)"
      using assms(2) b open_transaction_path [OF o] unfolding keeps_block_def r by auto
    from close_transaction_blocked [OF c assms(3)] show ?thesis
      using open_transaction_blocked [of digest e disk g u g1 fp olid] o r p k assms(3) by auto
  qed
qed

section \<open>The bodies of the operations\<close>

lemma owner_identity_frame:
  "owner_identity e g = (r, g') \<Longrightarrow> og_path g' = og_path g \<and> og_entries g' = og_entries g \<and>
     og_mutated g' = og_mutated g"
  by (auto simp: owner_identity_def Let_def split: option.splits if_splits)

lemma new_entry_frame:
  "new_entry e fp olid s g = (r, g') \<Longrightarrow> og_path g' = og_path g \<and> og_entries g' = og_entries g \<and>
     og_mutated g' = og_mutated g"
  by (auto simp: new_entry_def split: prod.splits sum.splits dest!: owner_identity_frame)

lemma new_entry_get:
  assumes "new_entry e fp olid s g = (Inr x, g')"
  shows "is_jobj x" "entry_fp x = fp_json fp" "entry_olid x = olid" "jget ''state'' x = JStr s"
  using assms by (auto simp: new_entry_def entry_fp_def entry_olid_def split: prod.splits sum.splits)

lemma store_entry_simps [simp]:
  "og_path (store_entry k x g) = og_path g" "og_entries (store_entry k x g) = dput k x (og_entries g)"
  "og_mutated (store_entry k x g)"
  by (simp_all add: store_entry_def)

lemma entries_block_dput:
  assumes "entries_block fp olid es"
    and "k = journal_key fp olid \<Longrightarrow> entry_active x \<and> entry_fp x = fp_json fp \<and> entry_olid x = olid"
  shows "entries_block fp olid (dput k x es)"
  using assms by (auto simp: entries_block_def)

lemma begin_body_blocked:
  "entries_block fp olid (og_entries g) \<Longrightarrow> fp' = fp \<or> olid' = olid \<Longrightarrow>
     begin_body e fp' olid' g = (Inr False, g)"
  by (auto simp: entries_block_def begin_body_def blocks_def list_ex_iff dest!: map_of_SomeD)

lemma begin_body_keeps: "keeps_block fp olid (begin_body e fp' olid')"
  unfolding keeps_block_def
proof (intro allI impI)
  fix g a g' assume b: "begin_body e fp' olid' g = (Inr a, g')"
  show "og_path g' = og_path g \<and>
    (entries_block fp olid (og_entries g) \<longrightarrow> entries_block fp olid (og_entries g'))"
  proof (cases "list_ex (blocks fp' olid') (dvals (og_entries g))")
    case True
    then show ?thesis using b by (simp add: begin_body_def)
  next
    case False
    have "journal_key fp' olid' \<noteq> journal_key fp olid" if "entries_block fp olid (og_entries g)"
      using begin_body_blocked [OF that, of fp' olid' e] b False
      by (auto simp: journal_key_injective begin_body_def Let_def split: sum.splits prod.splits)
    then show ?thesis using b False
      by (auto simp: begin_body_def Let_def split: sum.splits prod.splits
          dest!: new_entry_frame intro!: entries_block_dput)
  qed
qed

lemma jget_jupdate:
  "is_jobj x \<Longrightarrow> jget f (jupdate kvs x) = (case dget (rev kvs) f of None \<Rightarrow> jget f x | Some v \<Rightarrow> v)"
proof (induction kvs arbitrary: x)
  case (Cons kv kvs)
  then show ?case by (cases kv) (auto split: option.splits simp: map_add_def)
qed simp

text \<open>A mark that is not the definitive outcome of this very submission keeps its block.\<close>

lemma mark_body_keeps:
  assumes "dget (rev kvs) ''fingerprint'' = None"
    and "fp' \<noteq> fp \<or> olid' \<noteq> olid \<or>
         (dget (rev kvs) ''order_link_id'' = Some (JStr olid) \<and> dget (rev kvs) ''state'' = Some (JStr ''unknown''))"
  shows "keeps_block fp olid (mark_body e fp' olid' st kvs)"
  unfolding keeps_block_def
proof (intro allI impI)
  fix g a g' assume b: "mark_body e fp' olid' st kvs g = (Inr a, g')"
  let ?k = "journal_key fp' olid'"
  have upd: "entry_active (jupdate kvs x) \<and> entry_fp (jupdate kvs x) = fp_json fp \<and>
      entry_olid (jupdate kvs x) = olid"
    if "is_jobj x" "entry_fp x = fp_json fp" "fp' = fp" "olid' = olid" for x
    using that assms
    by (auto simp: entry_active_def entry_fp_def entry_olid_def jget_jupdate ORDER_ACTIVE_STATES_def)
  show "og_path g' = og_path g \<and>
    (entries_block fp olid (og_entries g) \<longrightarrow> entries_block fp olid (og_entries g'))"
  proof (cases "dget (og_entries g) ?k")
    case (Some x)
    have "entries_block fp olid (dput ?k (jupdate kvs x) (og_entries g))"
      if "entries_block fp olid (og_entries g)"
      using that Some by (intro entries_block_dput [OF that] upd)
        (auto simp: entries_block_def journal_key_injective entry_active_obj)
    with b Some show ?thesis by (auto simp: mark_body_def)
  next
    case None
    then have "?k \<noteq> journal_key fp olid" if "entries_block fp olid (og_entries g)"
      using that by (auto simp: entries_block_def)
    with b None show ?thesis
      by (auto simp: mark_body_def split: sum.splits prod.splits dest!: new_entry_frame
          intro!: entries_block_dput)
  qed
qed

lemma find_in_dict:
  assumes "List.find P es = Some (k, x)" and "dwf es"
  shows "dget es k = Some x \<and> P (k, x)"
proof -
  have "(k, x) \<in> set es" "P (k, x)" using assms(1) by (auto simp: find_Some_iff)
  then show ?thesis using assms(2) by (simp add: dwf_def)
qed

lemma reconciled_body_keeps:
  assumes "olid' \<noteq> olid"
  shows "keeps_block fp olid (reconciled_body e olid' ev)"
  unfolding keeps_block_def
proof (intro allI impI)
  fix g a g' assume b: "reconciled_body e olid' ev g = (Inr a, g')"
  show "og_path g' = og_path g \<and>
    (entries_block fp olid (og_entries g) \<longrightarrow> entries_block fp olid (og_entries g'))"
  proof (cases "List.find (\<lambda>(k, x). entry_olid x = olid' \<and> entry_active x) (og_entries g)")
    case None
    with b show ?thesis by (simp add: reconciled_body_def)
  next
    case (Some kx)
    obtain k x where kx: "kx = (k, x)" by (cases kx)
    have "k \<noteq> journal_key fp olid" if "entries_block fp olid (og_entries g)"
      using find_in_dict [OF Some [unfolded kx]] that assms by (auto simp: entries_block_def)
    with b Some kx show ?thesis by (auto simp: reconciled_body_def intro!: entries_block_dput)
  qed
qed

section \<open>Processes and events\<close>

datatype guard_op =
    OpConfigure string
  | OpBegin "string list" string
  | OpUnknown "string list" string string
  | OpResolved "string list" string string
  | OpReconciled string string
  | OpRecover
  | OpManual
  | OpReset
  | OpCrash

record order_world =
  ow_disk :: disk
  ow_guards :: "nat \<Rightarrow> order_guard"

fun run_op ::
  "(json \<Rightarrow> string) \<Rightarrow> txn_env \<Rightarrow> guard_op \<Rightarrow> disk \<Rightarrow> order_guard \<Rightarrow> disk \<times> order_guard" where
  "run_op digest e (OpConfigure path) disk g = configure digest e path disk g"
| "run_op digest e (OpBegin fp olid) disk g = snd (submit_begin digest e fp olid disk g)"
| "run_op digest e (OpUnknown fp olid reason) disk g = mark_unknown digest e fp olid reason disk g"
| "run_op digest e (OpResolved fp olid ev) disk g = mark_resolved digest e fp olid ev disk g"
| "run_op digest e (OpReconciled olid ev) disk g = snd (resolve_reconciled digest e olid ev disk g)"
| "run_op digest e OpRecover disk g = snd (recover_orphaned_in_flight digest e disk g)"
| "run_op digest e OpManual disk g = snd (resolve_manual disk g)"
| "run_op digest e OpReset disk g = (disk, guard_reset g)"
| "run_op digest e OpCrash disk g = (disk, new_order_guard)"

definition world_step :: "(json \<Rightarrow> string) \<Rightarrow> order_world \<Rightarrow> nat \<times> txn_env \<times> guard_op \<Rightarrow> order_world" where
  "world_step digest w ev =
     (case ev of (i, e, op) \<Rightarrow>
        case run_op digest e op (ow_disk w) (ow_guards w i) of
          (disk, g) \<Rightarrow> \<lparr>ow_disk = disk, ow_guards = (ow_guards w)(i := g)\<rparr>)"

text \<open>The two operations that end the block of a submission: the definitive outcome of the
  submission itself, and its confirmed reconciliation.\<close>

fun op_resolves :: "string list \<Rightarrow> string \<Rightarrow> guard_op \<Rightarrow> bool" where
  "op_resolves fp olid (OpResolved fp' olid' _) \<longleftrightarrow> fp' = fp \<and> olid' = olid"
| "op_resolves fp olid (OpReconciled olid' _) \<longleftrightarrow> olid' = olid"
| "op_resolves fp olid _ \<longleftrightarrow> False"

definition event_resolves :: "string list \<Rightarrow> string \<Rightarrow> nat \<times> txn_env \<times> guard_op \<Rightarrow> bool" where
  "event_resolves fp olid ev = op_resolves fp olid (snd (snd ev))"

lemma recover_blocked:
  assumes "recover_orphaned_in_flight digest e disk g = (r, disk', g')"
    and "file_blocked digest fp olid (disk p)"
  shows "file_blocked digest fp olid (disk' p)"
proof -
  obtain r1 d1 g1 where t: "transaction digest e True (\<lambda>g. (Inr (), g)) disk g = (r1, d1, g1)"
    by (metis prod_cases3)
  have "keeps_block fp olid (\<lambda>g. (Inr (), g))" by (simp add: keeps_block_def)
  from transaction_blocked [OF t this assms(2)] assms(1) show ?thesis
    by (auto simp: recover_orphaned_in_flight_def t split: sum.splits)
qed

lemma swallow_disk: "fst (swallow_errors r) = fst (snd r)"
  by (auto simp: swallow_errors_def split: sum.splits prod.splits)

lemma configure_blocked:
  assumes "file_blocked digest fp olid (disk p)"
  shows "file_blocked digest fp olid (fst (configure digest e path disk g) p)"
  using assms recover_blocked [of digest e disk _ _ _ _ fp olid p]
  by (auto simp: configure_def split: sum.splits prod.splits)

lemma run_op_blocked:
  assumes "file_blocked digest fp olid (disk p)" and "\<not> op_resolves fp olid op"
  shows "file_blocked digest fp olid (fst (run_op digest e op disk g) p)"
proof -
  have t: "file_blocked digest fp olid (fst (snd (transaction digest e s body disk g)) p)"
    if "keeps_block fp olid body" for s and body :: "order_guard \<Rightarrow> (order_error + 'x) \<times> order_guard"
    using transaction_blocked [where disk = disk and p = p, OF _ that assms(1)]
    by (metis fst_conv prod.collapse snd_conv)
  show ?thesis
  proof (cases op)
    case (OpBegin fp' olid')
    then show ?thesis using t [OF begin_body_keeps] by (simp add: submit_begin_def)
  next
    case (OpUnknown fp' olid' reason)
    have "keeps_block fp olid (mark_body e fp' olid' ''unknown''
       [(''order_link_id'', JStr olid'), (''state'', JStr ''unknown''), (''reason'', JStr reason),
        (''ts_utc'', JStr (te_now e))])"
      by (rule mark_body_keeps) auto
    from t [OF this] show ?thesis by (simp add: OpUnknown mark_unknown_def swallow_disk)
  next
    case (OpResolved fp' olid' ev)
    have "keeps_block fp olid (mark_body e fp' olid' ''resolved''
       [(''state'', JStr ''resolved''), (''evidence'', JStr ev), (''ts_utc'', JStr (te_now e))])"
      using assms(2) OpResolved by (intro mark_body_keeps) auto
    from t [OF this] show ?thesis by (simp add: OpResolved mark_resolved_def swallow_disk)
  next
    case (OpReconciled olid' ev)
    then have "olid' \<noteq> olid" using assms(2) by simp
    from t [OF reconciled_body_keeps [OF this]] show ?thesis
      by (simp add: OpReconciled resolve_reconciled_def)
  next
    case OpRecover
    then show ?thesis using recover_blocked [where disk = disk and p = p, OF _ assms(1)]
      by (simp, metis prod.collapse)
  qed (use assms(1) configure_blocked in \<open>auto simp: resolve_manual_def\<close>)
qed

interpretation block: latched_system "world_step digest"
  "\<lambda>w. file_blocked digest fp olid (ow_disk w p)" "event_resolves fp olid"
  for digest fp olid p
proof unfold_locales
  fix w :: order_world and ev :: "nat \<times> txn_env \<times> guard_op"
  assume "file_blocked digest fp olid (ow_disk w p)" "\<not> event_resolves fp olid ev"
  then show "file_blocked digest fp olid (ow_disk (world_step digest w ev) p)"
    using run_op_blocked by (auto simp: world_step_def event_resolves_def split: prod.splits)
      (metis fst_conv)
qed

section \<open>A reservation blocks\<close>

text \<open>The keys of a JSON object that \<^verbatim>\<open>json.loads\<close> returns are distinct.\<close>

definition file_wf :: "journal_file \<Rightarrow> bool" where
  "file_wf f = (case f of FileDoc d \<Rightarrow> dwf (jobj_items (jget ''entries'' d)) | _ \<Rightarrow> True)"

lemma open_transaction_dwf:
  assumes "open_transaction digest e disk g = (Inr u, g1)" and "file_wf (disk (og_path g))"
  shows "dwf (og_entries g1)"
  using assms
  by (auto simp: open_transaction_def recover_locked_def read_journal_def file_wf_def
      split: if_splits sum.splits journal_file.splits dest!: validate_entries)

lemma transaction_cases:
  assumes "transaction digest e s body disk g = (Inr a, disk', g')"
  obtains g1 g2 where "open_transaction digest e disk g = (Inr (), g1)" "body g1 = (Inr a, g2)"
    "close_transaction digest e s a disk g2 = (Inr a, disk', g')"
proof -
  obtain r1 g1 where o: "open_transaction digest e disk g = (r1, g1)" by fastforce
  obtain r2 g2 where b: "body g1 = (r2, g2)" by fastforce
  from assms o b obtain a' where r: "r1 = Inr ()" "r2 = Inr a'"
    "close_transaction digest e s a' disk g2 = (Inr a, disk', g')"
    by (auto simp: transaction_def split: sum.splits)
  then have "a' = a" by (auto simp: close_transaction_def split: if_splits)
  with r o b that show ?thesis by blast
qed

lemma with_history_block:
  assumes "is_jobj x"
  shows "is_jobj (with_history old x)" "entry_active (with_history old x) = entry_active x"
    "entry_fp (with_history old x) = entry_fp x" "entry_olid (with_history old x) = entry_olid x"
  using assms by (auto simp: with_history_def entry_active_def entry_fp_def entry_olid_def split: option.splits)

lemma begin_body_True:
  assumes "begin_body e fp olid g = (Inr True, g')" and "dwf (og_entries g)"
  shows "entries_block fp olid (og_entries g')" "og_mutated g'" "og_path g' = og_path g"
proof -
  from assms(1) obtain x h where n: "new_entry e fp olid ''in_flight'' g = (Inr x, h)"
    "g' = store_entry (journal_key fp olid) (with_history (dget (og_entries g) (journal_key fp olid)) x) h"
    by (auto simp: begin_body_def Let_def split: if_splits prod.splits sum.splits)
  note f = new_entry_frame [OF n(1)] and x = new_entry_get [OF n(1)]
  have "entry_active x" using x(4) by (simp add: entry_active_def ORDER_ACTIVE_STATES_def)
  with f x assms(2) show "entries_block fp olid (og_entries g')"
    by (auto simp: n(2) entries_block_def with_history_block)
  show "og_mutated g'" "og_path g' = og_path g" using f by (simp_all add: n(2))
qed

text \<open>Durable reservation: \<^verbatim>\<open>begin\<close> answers true only after the durable write, and the
  journal it leaves on disk blocks every further reservation of the order.\<close>

theorem begin_reserves_durably:
  assumes "submit_begin digest e fp olid disk g = (Inr True, disk', g')"
    and "file_wf (disk (og_path g))"
  shows "te_write e = WriteDone \<and> file_blocked digest fp olid (disk' (og_path g))"
proof -
  from transaction_cases [OF assms(1) [unfolded submit_begin_def]] obtain g1 g2 where
    t: "open_transaction digest e disk g = (Inr (), g1)" "begin_body e fp olid g1 = (Inr True, g2)"
      "close_transaction digest e True True disk g2 = (Inr True, disk', g')" by metis
  note b = begin_body_True [OF t(2) open_transaction_dwf [OF t(1) assms(2)]]
  have "og_path g2 = og_path g" using b(3) open_transaction_path [OF t(1)] by simp
  with t(3) b(1,2) show ?thesis
    by (auto simp: close_transaction_def write_journal_def intro: write_blocked split: if_splits)
qed

lemma begin_blocked_not_True:
  assumes "file_blocked digest fp olid (disk (og_path g))" and "fp' = fp \<or> olid' = olid"
  shows "fst (submit_begin digest e fp' olid' disk g) \<noteq> Inr True"
proof
  assume a: "fst (submit_begin digest e fp' olid' disk g) = Inr True"
  obtain r disk' g' where "submit_begin digest e fp' olid' disk g = (r, disk', g')" by (metis prod_cases3)
  with a have "transaction digest e True (begin_body e fp' olid') disk g = (Inr True, disk', g')"
    by (simp add: submit_begin_def)
  from transaction_cases [OF this] obtain g1 g2 where
    t: "open_transaction digest e disk g = (Inr (), g1)" "begin_body e fp' olid' g1 = (Inr True, g2)" by metis
  from begin_body_blocked [OF open_transaction_blocked [OF t(1) assms(1)] assms(2)] t(2) show False
    by simp
qed

text \<open>C2. No double submission: once a guard of any process obtained the reservation of an order,
  no guard on the same journal obtains a reservation with the same fingerprint or the same
  orderLinkId, through any number of operations, crashes, restarts, failed locks, failed writes
  and recoveries of any processes, until the outcome of that very submission is recorded or its
  orderLinkId is reconciled.\<close>

theorem no_double_submission:
  assumes "submit_begin digest e fp olid (ow_disk w) (ow_guards w i) = (Inr True, disk', g')"
    and "p = og_path (ow_guards w i)" and "file_wf (ow_disk w p)"
    and "list_all (\<lambda>ev. \<not> event_resolves fp olid ev) evs"
    and "w' = foldl (world_step digest) (world_step digest w (i, e, OpBegin fp olid)) evs"
    and "og_path (ow_guards w' j) = p" and "fp2 = fp \<or> olid2 = olid"
  shows "fst (submit_begin digest e2 fp2 olid2 (ow_disk w') (ow_guards w' j)) \<noteq> Inr True"
proof -
  have "file_blocked digest fp olid (ow_disk (world_step digest w (i, e, OpBegin fp olid)) p)"
    using begin_reserves_durably [OF assms(1)] assms(1-3) by (simp add: world_step_def)
  from block.run_latched [OF this, of evs] assms(4) have "file_blocked digest fp olid (ow_disk w' p)"
    unfolding assms(5) by (simp add: list_all_iff)
  then show ?thesis using assms(6,7) by (intro begin_blocked_not_True [of digest fp olid]) auto
qed

section \<open>Failing closed\<close>

text \<open>C5. Fail closed: with a degraded guard, no configured journal, an unusable directory, an
  unavailable lock or a journal that does not validate, a reservation raises and the disk is
  exactly what it was.\<close>

theorem begin_fails_closed:
  assumes "og_load_error g \<or> og_write_degraded g \<or> og_path g = '''' \<or> \<not> te_dir_ok e \<or>
           \<not> te_lock_ok e \<or> isl (read_journal digest e disk (og_path g))"
  shows "\<exists>err g'. submit_begin digest e fp olid disk g = (Inl err, disk, g')"
proof -
  from assms have "\<exists>err g1. open_transaction digest e disk g = (Inl err, g1)"
    by (auto simp: open_transaction_def isl_def split: sum.splits)
  then show ?thesis by (auto simp: submit_begin_def transaction_def)
qed

text \<open>A mark that could not be recorded stops the process: after a failed \<^verbatim>\<open>mark_unknown\<close> every
  later reservation of the same guard raises, in any environment and on any disk.\<close>

theorem failed_mark_degrades:
  assumes "og_load_error g \<or> og_write_degraded g \<or> \<not> te_dir_ok e \<or> \<not> te_lock_ok e \<or>
           isl (read_journal digest e disk (og_path g))"
  shows "fst (submit_begin digest e2 fp2 olid2 disk2 (snd (mark_unknown digest e fp olid reason disk g)))
           = Inl E_Degraded"
proof -
  from assms have "\<exists>err g1. open_transaction digest e disk g = (Inl err, g1)"
    by (auto simp: open_transaction_def isl_def split: sum.splits)
  then have "og_write_degraded (snd (mark_unknown digest e fp olid reason disk g))"
    by (auto simp: mark_unknown_def transaction_def swallow_errors_def)
  then show ?thesis by (simp add: submit_begin_def transaction_def open_transaction_def)
qed

text \<open>Audit trail: a successful reservation keeps every other record as it is, and a previous
  record under its own key becomes the last element of the history of the new one.\<close>

theorem begin_preserves_records:
  assumes "begin_body e fp olid g = (Inr True, g')" and "dget (og_entries g) k = Some x"
  shows "(k \<noteq> journal_key fp olid \<and> dget (og_entries g') k = Some x) \<or>
         (k = journal_key fp olid \<and> (\<exists>y. dget (og_entries g') k = Some y \<and>
            jget ''history'' y = JArr (jarr_items (jget ''history'' x) @ [jpop ''history'' x])))"
proof -
  from assms(1) obtain y h where n: "new_entry e fp olid ''in_flight'' g = (Inr y, h)"
    "g' = store_entry (journal_key fp olid) (with_history (dget (og_entries g) (journal_key fp olid)) y) h"
    by (auto simp: begin_body_def Let_def split: if_splits prod.splits sum.splits)
  from new_entry_frame [OF n(1)] new_entry_get(1) [OF n(1)] assms(2) show ?thesis
    by (cases "k = journal_key fp olid") (simp_all add: n(2) with_history_def)
qed

section \<open>Recovery\<close>

definition orphaned :: "txn_env \<Rightarrow> json \<Rightarrow> bool" where
  "orphaned e x \<longleftrightarrow> jget ''state'' x = JStr ''in_flight'' \<and>
     verify_owner e (jget ''owner'' x) = LIVENESS_ORPHANED"

lemma entry_ok_parts:
  "entry_ok (k, x) = Inr () \<longleftrightarrow>
     is_jobj x \<and> is_jstr_list (jget ''fingerprint'' x) \<and> nonempty_jstr (jget ''order_link_id'' x) \<and>
     json_in (jget ''state'' x) ORDER_ALL_STATES \<and> is_jstr (jget ''reason'' x) \<and>
     is_jstr (jget ''evidence'' x) \<and> is_jstr (jget ''ts_utc'' x) \<and> owner_ok (jget ''owner'' x) = Inr () \<and>
     (jget ''recovery'' x = JNull \<or> str_str_obj (jget ''recovery'' x)) \<and>
     (jget ''history'' x = JNull \<or> is_jobj_list (jget ''history'' x))"
  by (auto simp: entry_ok_def rbind_Inr_iff)

lemma recover_one_ok: "entry_ok (k, x) = Inr () \<Longrightarrow> entry_ok (k, recover_one e x) = Inr ()"
  unfolding entry_ok_parts
  by (auto simp: recover_one_def recovered_entry_def Let_def ORDER_ALL_STATES_def)

lemma recover_one_not_orphaned: "is_jobj x \<Longrightarrow> \<not> orphaned e (recover_one e x)"
  by (auto simp: orphaned_def recover_one_def recovered_entry_def Let_def)

lemma recover_one_id: "\<not> orphaned e x \<Longrightarrow> recover_one e x = x"
  by (auto simp: recover_one_def orphaned_def)

lemma orphaned_canon [simp]: "orphaned e (canon x) = orphaned e x"
  by (simp add: orphaned_def jget_canon verify_owner_def)

lemma validate_entry_ok:
  assumes "validate_journal_document digest d = Inr es" and "(k, x) \<in> set es"
  shows "entry_ok (k, x) = Inr ()"
  using assms by (auto simp: validate_journal_document_def rbind_Inr_iff rforeach_Inr_iff)

text \<open>One entry under recovery: either it is untouched, or it was in flight with an owner that is
  provably gone and is now unknown, with the fingerprint, orderLinkId, owner, evidence, time and
  history it had. In both cases it blocks exactly as before.\<close>

theorem recovery_touches_only_orphans:
  assumes "is_jobj x"
  shows "(recover_one e x = x \<or>
          (orphaned e x \<and> jget ''state'' (recover_one e x) = JStr ''unknown'' \<and>
           list_all (\<lambda>f. jget f (recover_one e x) = jget f x)
             [''fingerprint'', ''order_link_id'', ''owner'', ''evidence'', ''ts_utc'', ''history''])) \<and>
         entry_active (recover_one e x) = entry_active x"
  using assms recover_one_block(1) [OF assms, of e]
  by (auto simp: recover_one_def orphaned_def recovered_entry_def Let_def)

lemma no_orphans_verdict:
  "with_verdict e LIVENESS_ORPHANED es = [] \<Longrightarrow> (k, x) \<in> set es \<Longrightarrow> \<not> orphaned e x"
  by (auto simp: with_verdict_def orphaned_def filter_empty_conv)

text \<open>Durable recovery: when the recovery reports, the journal on disk reads back, every entry
  blocks exactly as before, and no entry in flight whose owner was judged gone is left, so a
  second recovery with the same verdicts changes nothing.\<close>

theorem recovery_is_durable:
  assumes "recover_orphaned_in_flight digest e disk g = (Inr rep, disk', g')"
    and "disk (og_path g) = FileDoc d" and "validate_journal_document digest d = Inr es"
    and "\<And>j. digest j \<noteq> ''''"
  shows "\<exists>es'. read_journal digest e disk' (og_path g) = Inr es' \<and>
           (\<forall>k. map_option entry_active (dget es' k) = map_option entry_active (dget es k)) \<and>
           list_all (\<lambda>(k, x). \<not> orphaned e x) es'"
proof -
  obtain r where "transaction digest e True (\<lambda>g. (Inr (), g)) disk g = (Inr r, disk', g')"
    using assms(1) by (auto simp: recover_orphaned_in_flight_def split: prod.splits sum.splits)
  then obtain g1 where o: "open_transaction digest e disk g = (Inr (), g1)"
    and c: "close_transaction digest e True () disk g1 = (Inr (), disk', g')"
    by (elim transaction_cases) auto
  have g1: "og_entries g1 = map (\<lambda>(k, v). (k, recover_one e v)) es"
    "og_mutated g1 \<longleftrightarrow> with_verdict e LIVENESS_ORPHANED es \<noteq> []" "og_path g1 = og_path g"
    "og_path g \<noteq> ''''" "te_read_ok e"
    using o assms(2,3) by (auto simp: open_transaction_def read_journal_def recover_locked_def split: if_splits)
  have obj: "is_jobj x" if "(k, x) \<in> set es" for k x
    using validate_entry_ok [OF assms(3) that] by (simp add: entry_ok_parts)
  show ?thesis
  proof (cases "og_mutated g1")
    case False
    then have "disk' = disk" using c by (simp add: close_transaction_def)
    moreover have "list_all (\<lambda>(k, x). \<not> orphaned e x) es"
      using False g1(2) no_orphans_verdict by (auto simp: list_all_iff)
    ultimately show ?thesis using assms(2,3) g1 by (simp add: read_journal_def)
  next
    case True
    let ?rec = "map (\<lambda>(k, v). (k, recover_one e v)) es"
    have d': "disk' (og_path g) = FileDoc (canon (journal_document digest ?rec))"
      using c True g1 by (auto simp: close_transaction_def write_journal_def split: if_splits)
    have "list_all (\<lambda>ke. entry_ok ke = Inr ()) ?rec"
      using validate_entry_ok [OF assms(3)] recover_one_ok by (auto simp: list_all_iff)
    from journal_roundtrip [OF this assms(4)] have
      rd: "read_journal digest e disk' (og_path g) = Inr (stored_entries ?rec)"
      using d' g1 by (simp add: read_journal_def)
    have act: "map_option entry_active (dget (stored_entries ?rec) k) = map_option entry_active (dget es k)" for k
      using obj recover_one_block(1) by (cases "dget es k") (auto simp: dget_stored dest!: map_of_SomeD)
    have "\<not> orphaned e x" if "(k, x) \<in> set (stored_entries ?rec)" for k x
      using that obj recover_one_not_orphaned by (auto simp: stored_entries_def)
    then show ?thesis using rd act by (auto simp: list_all_iff)
  qed
qed

section \<open>Concrete journals\<close>

definition demo_digest :: "json \<Rightarrow> string" where
  "demo_digest j = ''d41d''"

definition demo_txn :: "string \<Rightarrow> txn_env" where
  "demo_txn uuid = \<lparr>te_dir_ok = True, te_lock_ok = True, te_read_ok = True, te_write = WriteDone,
     te_witness_ok = True, te_uuid = uuid, te_pid = 77, te_now = ''2026-01-01T00:00:00+00:00'',
     te_live = (\<lambda>_. False), te_probe = (\<lambda>_. ProbeLocked)\<rparr>"

definition demo_guard :: order_guard where
  "demo_guard = new_order_guard\<lparr>og_path := ''var/j.json''\<rparr>"

definition demo_world :: order_world where
  "demo_world = \<lparr>ow_disk = (\<lambda>_. FileAbsent), ow_guards = (\<lambda>_. demo_guard)\<rparr>"

definition demo_fp :: "string list" where
  "demo_fp = [''BTCUSDT'', ''Buy'']"

definition demo_begin :: "(order_error + bool) \<times> disk \<times> order_guard" where
  "demo_begin = submit_begin demo_digest (demo_txn ''owner-a-1'') demo_fp ''link-1'' (\<lambda>_. FileAbsent) demo_guard"

lemma answered_True: "(case fst r of Inr b \<Rightarrow> b | Inl _ \<Rightarrow> False) \<Longrightarrow> r = (Inr True, snd r)"
  by (cases r) (auto split: sum.splits)

lemma demo_begin_True: "demo_begin = (Inr True, fst (snd demo_begin), snd (snd demo_begin))"
proof -
  have "(case fst demo_begin of Inr b \<Rightarrow> b | Inl _ \<Rightarrow> False)" by code_simp
  from answered_True [OF this] show ?thesis by simp
qed

theorem begin_reserves_durably_witness:
  "file_blocked demo_digest demo_fp ''link-1'' (fst (snd demo_begin) ''var/j.json'')"
proof -
  have "file_wf ((\<lambda>_. FileAbsent) (og_path demo_guard))" by (simp add: file_wf_def)
  from begin_reserves_durably [OF demo_begin_True [unfolded demo_begin_def], folded demo_begin_def, OF this]
  show ?thesis by (simp add: demo_guard_def)
qed

text \<open>A second process crashes, restarts, recovers and tries again with a new orderLinkId.\<close>

definition demo_events :: "(nat \<times> txn_env \<times> guard_op) list" where
  "demo_events = [(0, demo_txn ''owner-a-1'', OpCrash), (1, demo_txn ''owner-b-1'', OpRecover)]"

theorem no_double_submission_witness:
  "fst (submit_begin demo_digest (demo_txn ''owner-b-1'') demo_fp ''link-2''
     (ow_disk (foldl (world_step demo_digest) (world_step demo_digest demo_world
        (0, demo_txn ''owner-a-1'', OpBegin demo_fp ''link-1'')) demo_events))
     (ow_guards (foldl (world_step demo_digest) (world_step demo_digest demo_world
        (0, demo_txn ''owner-a-1'', OpBegin demo_fp ''link-1'')) demo_events) 1)) \<noteq> Inr True"
proof (rule no_double_submission [where p = "''var/j.json''" and i = 0 and e = "demo_txn ''owner-a-1''" and
      fp = demo_fp and olid = "''link-1''" and w = demo_world and evs = demo_events])
  show "submit_begin demo_digest (demo_txn ''owner-a-1'') demo_fp ''link-1'' (ow_disk demo_world)
     (ow_guards demo_world 0) = (Inr True, fst (snd demo_begin), snd (snd demo_begin))"
    using demo_begin_True by (simp add: demo_begin_def demo_world_def)
  show "''var/j.json'' = og_path (ow_guards demo_world 0)" by (simp add: demo_world_def demo_guard_def)
  show "file_wf (ow_disk demo_world ''var/j.json'')" by (simp add: demo_world_def file_wf_def)
  show "list_all (\<lambda>ev. \<not> event_resolves demo_fp ''link-1'' ev) demo_events" by code_simp
  show "og_path (ow_guards (foldl (world_step demo_digest) (world_step demo_digest demo_world
     (0, demo_txn ''owner-a-1'', OpBegin demo_fp ''link-1'')) demo_events) 1) = ''var/j.json''" by code_simp
qed simp_all

theorem begin_fails_closed_witness:
  "\<exists>err g'. submit_begin demo_digest ((demo_txn ''owner-a-1'')\<lparr>te_lock_ok := False\<rparr>) demo_fp ''link-1''
     (\<lambda>_. FileAbsent) demo_guard = (Inl err, \<lambda>_. FileAbsent, g')"
  by (rule begin_fails_closed) simp

theorem failed_mark_degrades_witness:
  "fst (submit_begin demo_digest (demo_txn ''owner-a-1'') demo_fp ''link-2'' (\<lambda>_. FileAbsent)
     (snd (mark_unknown demo_digest ((demo_txn ''owner-a-1'')\<lparr>te_lock_ok := False\<rparr>) demo_fp ''link-1''
        ''timeout'' (\<lambda>_. FileAbsent) demo_guard))) = Inl E_Degraded"
  by (rule failed_mark_degrades) simp

definition demo_guard_started :: order_guard where
  "demo_guard_started = snd (snd demo_begin)"

definition resolved_record :: json where
  "resolved_record = JObj [(''fingerprint'', fp_json demo_fp), (''order_link_id'', JStr ''link-1''),
     (''state'', JStr ''resolved''), (''reason'', JStr ''''), (''evidence'', JStr ''accepted''),
     (''ts_utc'', JStr ''2026-01-01T00:00:00+00:00'')]"

definition flying_record :: json where
  "flying_record = JObj [(''fingerprint'', fp_json demo_fp), (''order_link_id'', JStr ''link-1''),
     (''state'', JStr ''in_flight''), (''reason'', JStr ''''), (''evidence'', JStr ''''),
     (''ts_utc'', JStr ''2026-01-01T00:00:00+00:00''),
     (''owner'', JObj [(''owner_id'', JStr ''owner-a-1''), (''pid'', JInt 77),
        (''witness'', JStr ''j.json.owner.owner-a-1.lock''), (''started_at'', JStr ''t'')])]"

definition guard_with :: "json \<Rightarrow> order_guard" where
  "guard_with x = demo_guard\<lparr>og_entries := [(journal_key demo_fp ''link-1'', x)]\<rparr>"

theorem begin_preserves_records_witness:
  "\<exists>g' y. begin_body (demo_txn ''owner-a-1'') demo_fp ''link-1'' (guard_with resolved_record) = (Inr True, g') \<and>
     dget (og_entries g') (journal_key demo_fp ''link-1'') = Some y \<and>
     jget ''history'' y = JArr [resolved_record]"
proof -
  let ?r = "begin_body (demo_txn ''owner-a-1'') demo_fp ''link-1'' (guard_with resolved_record)"
  have "(case fst ?r of Inr b \<Rightarrow> b | Inl _ \<Rightarrow> False)" by code_simp
  then have b: "?r = (Inr True, snd ?r)" by (rule answered_True)
  have x: "dget (og_entries (guard_with resolved_record)) (journal_key demo_fp ''link-1'') = Some resolved_record"
    by (simp add: guard_with_def)
  have h: "jarr_items (jget ''history'' resolved_record) @ [jpop ''history'' resolved_record] = [resolved_record]"
    by code_simp
  from begin_preserves_records [OF b x] h b show ?thesis by auto
qed

theorem recovery_touches_only_orphans_witness:
  "jget ''state'' (recover_one (demo_txn ''owner-b-1'') flying_record) = JStr ''unknown'' \<and>
   entry_active (recover_one (demo_txn ''owner-b-1'') flying_record)"
proof -
  have o: "is_jobj flying_record" by code_simp
  have a: "entry_active flying_record" by code_simp
  have u: "jget ''state'' (recover_one (demo_txn ''owner-b-1'') flying_record) = JStr ''unknown''"
    by code_simp
  from recovery_touches_only_orphans [OF o, of "demo_txn ''owner-b-1''"] a u show ?thesis by simp
qed

definition flying_entries :: "(string \<times> json) list" where
  "flying_entries = [(journal_key demo_fp ''link-1'', flying_record)]"

lemma flying_entries_ok: "list_all (\<lambda>ke. entry_ok ke = Inr ()) flying_entries"
  by code_simp

theorem journal_roundtrip_witness:
  "validate_journal_document demo_digest (canon (journal_document demo_digest flying_entries)) =
     Inr (stored_entries flying_entries)"
  by (rule journal_roundtrip [OF flying_entries_ok]) (simp add: demo_digest_def)

lemma stored_flying_ok:
  "validate_journal_document demo_digest (canon (journal_document demo_digest flying_entries)) =
     Inr (stored_entries flying_entries)"
  by code_simp

definition flying_disk :: disk where
  "flying_disk = (\<lambda>_. FileDoc (canon (journal_document demo_digest flying_entries)))"

definition demo_recovery :: "(order_error + recovery_report) \<times> disk \<times> order_guard" where
  "demo_recovery = recover_orphaned_in_flight demo_digest (demo_txn ''owner-b-1'') flying_disk demo_guard"

theorem recovery_is_durable_witness:
  "\<exists>es'. read_journal demo_digest (demo_txn ''owner-b-1'') (fst (snd demo_recovery)) ''var/j.json'' = Inr es' \<and>
     list_all (\<lambda>(k, x). \<not> orphaned (demo_txn ''owner-b-1'') x) es'"
proof -
  have "\<not> isl (fst demo_recovery)" by code_simp
  then obtain rep where "demo_recovery = (Inr rep, fst (snd demo_recovery), snd (snd demo_recovery))"
    by (metis isl_def prod.collapse sum.exhaust)
  from recovery_is_durable [OF this [unfolded demo_recovery_def], folded demo_recovery_def,
      OF _ stored_flying_ok]
  show ?thesis by (auto simp: flying_disk_def demo_guard_def demo_digest_def)
qed

text \<open>A reservation that is refused can still leave its block: when the directory sync after the
  atomic replace fails, \<^verbatim>\<open>begin\<close> raises without a submission, but the journal on disk already
  holds the in-flight entry.\<close>

theorem refused_begin_can_leave_block:
  "\<exists>disk' g'. submit_begin demo_digest ((demo_txn ''owner-a-1'')\<lparr>te_write := WriteReplacedThenFailed\<rparr>)
     demo_fp ''link-1'' (\<lambda>_. FileAbsent) demo_guard = (Inl E_Write, disk', g') \<and>
     file_blocked demo_digest demo_fp ''link-1'' (disk' ''var/j.json'')"
proof -
  let ?r = "submit_begin demo_digest ((demo_txn ''owner-a-1'')\<lparr>te_write := WriteReplacedThenFailed\<rparr>)
     demo_fp ''link-1'' (\<lambda>_. FileAbsent) demo_guard"
  have "(case fst ?r of Inl E_Write \<Rightarrow> True | _ \<Rightarrow> False)" by code_simp
  then have r: "?r = (Inl E_Write, snd ?r)"
    by (cases ?r) (auto split: sum.splits order_error.splits)
  have "(case fst (snd ?r) ''var/j.json'' of FileDoc d \<Rightarrow>
     (case validate_journal_document demo_digest d of Inr es \<Rightarrow>
        distinct (map fst es) \<and> list_ex (\<lambda>(k, x). k = journal_key demo_fp ''link-1'' \<and> entry_active x \<and>
          entry_fp x = fp_json demo_fp \<and> entry_olid x = ''link-1'') es | Inl _ \<Rightarrow> False) | _ \<Rightarrow> False)"
    by code_simp
  then have "file_blocked demo_digest demo_fp ''link-1'' (fst (snd ?r) ''var/j.json'')"
    by (auto simp: file_blocked_def entries_block_def dwf_def list_ex_iff split: journal_file.splits sum.splits)
  with r show ?thesis by (metis prod.collapse)
qed

end
