(* ===== verification/OrderSubmit.thy ===== *)
theory OrderSubmit
  imports BudgetedGet OrderWorld
begin

text \<open>
  Order submission and reconciliation of \<^verbatim>\<open>src/app/exchange/bybit_client.py\<close>:
  \<^verbatim>\<open>create_order\<close> with its single POST attempt around the double-submit guard and the shared
  limiter, the strict reading of order query answers, and
  \<^verbatim>\<open>reconcile_order_submissions\<close>. The transport's answer, the limiter's answers and the
  operating system's answers to the journal transactions are one environment record.
\<close>

section \<open>The single POST attempt\<close>

datatype create_error =
    CE_LiveModeRequired | CE_CredentialsRequired
  | CE_RateLimit string | CE_Uncertain string | CE_Auth | CE_Bybit
  | CE_TimeoutExc | CE_TransportExc | CE_AttributeExc

datatype guard_mark = MarkUnknown string | MarkResolved string | MarkNone

definition status_create_error :: "int option \<Rightarrow> create_error" where
  "status_create_error status =
     (case http_status_error status of BybitAuthErr \<Rightarrow> CE_Auth | _ \<Rightarrow> CE_Bybit)"

text \<open>A status delivered as a raised \<^verbatim>\<open>HTTPError\<close> or on a returned response.\<close>

definition http_rejection :: "int option \<Rightarrow> guard_mark \<times> create_error" where
  "http_rejection status =
     ((if status = Some 429 \<or> status = None \<or> (case status of Some s \<Rightarrow> s \<ge> 500 | None \<Rightarrow> False)
       then MarkUnknown ''HTTP status, outcome UNKNOWN''
       else MarkResolved ''definitive HTTP rejection''),
      (if status = Some 429 then CE_RateLimit ''HTTP 429'' else status_create_error status))"

definition payload_verdict :: "json \<Rightarrow> guard_mark \<times> (create_error + json)" where
  "payload_verdict payload =
     (let ret_code = jget ''retCode'' payload;
          ret_msg = msg_of_json (jget ''retMsg'' payload)
      in if \<not> is_jobj payload \<or> \<not> is_valid_ret_code ret_code
         then (MarkUnknown ''malformed response'', Inl (CE_Uncertain ''no valid retCode''))
         else if \<not> py_eq_int ret_code 0
         then (MarkResolved ''definitive API rejection'',
               Inl (if is_auth_error_result ret_code \<or> is_access_denied_result ret_msg
                    then CE_Auth else CE_Bybit))
         else if \<not> (dget (jobj_items payload) ''result'' = None \<or> is_jobj (jget ''result'' payload))
         then (MarkNone, Inl CE_AttributeExc)
         else (MarkResolved ''order accepted by exchange'', Inr payload))"

fun create_order_attempt :: "http_result \<Rightarrow> guard_mark \<times> (create_error + json)" where
  "create_order_attempt HttpTimeout = (MarkUnknown ''timeout'', Inl CE_TimeoutExc)"
| "create_order_attempt (HttpRaisedStatus status) =
     (case http_rejection status of (m, err) \<Rightarrow> (m, Inl err))"
| "create_order_attempt (HttpUrlError _) = (MarkUnknown ''transport failure'', Inl CE_TransportExc)"
| "create_order_attempt HttpOtherExc = (MarkUnknown ''unhandled transport failure'', Inl CE_TransportExc)"
| "create_order_attempt (HttpResponse status body) =
     (if \<not> raise_for_status_ok status
      then (case http_rejection (Some status) of (m, err) \<Rightarrow> (m, Inl err))
      else case body of
        BodyUndecodable \<Rightarrow> (MarkUnknown ''unparseable response body'', Inl CE_TransportExc)
      | BodyJson payload \<Rightarrow> payload_verdict payload)"

fun order_limiter_outcome :: "create_error + json \<Rightarrow> lim_outcome" where
  "order_limiter_outcome (Inr _) = L_OK"
| "order_limiter_outcome (Inl CE_Auth) = L_AUTH"
| "order_limiter_outcome (Inl (CE_RateLimit _)) = L_RATE_LIMIT"
| "order_limiter_outcome (Inl CE_TimeoutExc) = L_TIMEOUT"
| "order_limiter_outcome (Inl _) = L_ERROR"

section \<open>Order creation\<close>

record order_request =
  or_symbol :: string
  or_side :: string
  or_qty :: string
  or_type :: string
  or_link :: "string option"

record submit_settings =
  ss_live_mode :: bool
  ss_live_enabled :: bool
  ss_has_credentials :: bool
  ss_journal_path :: string

datatype order_limiter = OLimDisabled | OLimError | OLimDenied | OLimGranted bool

record submit_env =
  se_uuid :: string
  se_lim :: order_limiter
  se_configure :: txn_env
  se_begin :: txn_env
  se_mark :: txn_env
  se_http :: http_result

record create_report =
  cr_result :: "create_error + json"
  cr_sends :: nat
  cr_granted :: bool
  cr_recorded :: "lim_outcome list"
  cr_disk :: disk
  cr_guard :: order_guard

definition ORDER_JOURNAL_DEFAULT_PATH :: string where
  "ORDER_JOURNAL_DEFAULT_PATH = ''var/reports/bybit_order_submit_journal_v1.json''"

definition journal_path :: "submit_settings \<Rightarrow> string" where
  "journal_path st = (if ss_journal_path st = '''' then ORDER_JOURNAL_DEFAULT_PATH else ss_journal_path st)"

definition order_fp :: "order_request \<Rightarrow> string list" where
  "order_fp r = [or_symbol r, or_side r, or_qty r, or_type r]"

definition order_link :: "submit_env \<Rightarrow> order_request \<Rightarrow> string" where
  "order_link e r = (case or_link r of Some l \<Rightarrow> if l = '''' then ''rb'' @ se_uuid e else l
                     | None \<Rightarrow> ''rb'' @ se_uuid e)"

definition apply_mark ::
  "(json \<Rightarrow> string) \<Rightarrow> txn_env \<Rightarrow> string list \<Rightarrow> string \<Rightarrow> guard_mark \<Rightarrow> disk \<Rightarrow> order_guard \<Rightarrow>
   disk \<times> order_guard" where
  "apply_mark digest e fp olid m disk g =
     (case m of MarkUnknown reason \<Rightarrow> mark_unknown digest e fp olid reason disk g
      | MarkResolved evidence \<Rightarrow> mark_resolved digest e fp olid evidence disk g
      | MarkNone \<Rightarrow> (disk, g))"

definition no_send_report ::
  "create_error \<Rightarrow> bool \<Rightarrow> lim_outcome list \<Rightarrow> disk \<Rightarrow> order_guard \<Rightarrow> create_report" where
  "no_send_report err granted recorded disk g =
     \<lparr>cr_result = Inl err, cr_sends = 0, cr_granted = granted, cr_recorded = recorded,
      cr_disk = disk, cr_guard = g\<rparr>"

text \<open>After the durable reservation: the fence of the shared limiter, the one POST, its mark.\<close>

definition send_reserved ::
  "(json \<Rightarrow> string) \<Rightarrow> submit_env \<Rightarrow> order_request \<Rightarrow> disk \<Rightarrow> order_guard \<Rightarrow> create_report" where
  "send_reserved digest e r disk g =
     (let granted = (case se_lim e of OLimGranted _ \<Rightarrow> True | _ \<Rightarrow> False)
      in if se_lim e = OLimGranted False
         then no_send_report (CE_RateLimit ''grant_revoked'') True [L_REVOKED] disk g
         else case create_order_attempt (se_http e) of (m, result) \<Rightarrow>
           (case apply_mark digest (se_mark e) (order_fp r) (order_link e r) m disk g of (disk', g') \<Rightarrow>
              \<lparr>cr_result = result, cr_sends = 1, cr_granted = granted,
               cr_recorded = (if granted then [order_limiter_outcome result] else []),
               cr_disk = disk', cr_guard = g'\<rparr>))"

definition reserve_and_send ::
  "(json \<Rightarrow> string) \<Rightarrow> submit_env \<Rightarrow> order_request \<Rightarrow> disk \<Rightarrow> order_guard \<Rightarrow> create_report" where
  "reserve_and_send digest e r disk g =
     (let granted = (case se_lim e of OLimGranted _ \<Rightarrow> True | _ \<Rightarrow> False)
      in case submit_begin digest (se_begin e) (order_fp r) (order_link e r) disk g of
           (Inl _, disk', g') \<Rightarrow> no_send_report (CE_Uncertain ''guard raised'') granted [] disk' g'
         | (Inr reserved, disk', g') \<Rightarrow>
             (if \<not> reserved
              then no_send_report (CE_Uncertain ''identical submission blocked'') granted
                     (if granted then [L_NOT_SENT] else []) disk' g'
              else send_reserved digest e r disk' g'))"

definition create_order ::
  "(json \<Rightarrow> string) \<Rightarrow> submit_settings \<Rightarrow> submit_env \<Rightarrow> order_request \<Rightarrow> disk \<Rightarrow> order_guard \<Rightarrow>
   create_report" where
  "create_order digest st e r disk g =
     (if \<not> ss_live_mode st \<or> \<not> ss_live_enabled st
      then no_send_report CE_LiveModeRequired False [] disk g
      else if \<not> ss_has_credentials st
      then no_send_report CE_CredentialsRequired False [] disk g
      else case configure digest (se_configure e) (journal_path st) disk g of (disk', g') \<Rightarrow>
        (case se_lim e of
           OLimError \<Rightarrow> no_send_report (CE_RateLimit ''limiter unavailable'') False [] disk' g'
         | OLimDenied \<Rightarrow> no_send_report (CE_RateLimit ''limiter denied'') False [] disk' g'
         | _ \<Rightarrow> reserve_and_send digest e r disk' g'))"

section \<open>Reading order query answers\<close>

definition ORDER_CONFIRMING_STATUSES :: "string list" where
  "ORDER_CONFIRMING_STATUSES = [''New'', ''PartiallyFilled'', ''Filled'', ''Cancelled'', ''Rejected'']"

definition ORDER_QUERY_CATEGORY :: string where
  "ORDER_QUERY_CATEGORY = ''linear''"

definition extract_order_rows :: "json \<Rightarrow> create_error + json list" where
  "extract_order_rows payload =
     (let result = jget ''result'' payload in
      rbind (guard (is_jobj payload) CE_Bybit) (\<lambda>_.
      rbind (guard (is_jobj result) CE_Bybit) (\<lambda>_.
      rbind (guard (jget ''category'' result = JStr ORDER_QUERY_CATEGORY) CE_Bybit) (\<lambda>_.
      rbind (guard (is_jobj_list (jget ''list'' result)) CE_Bybit) (\<lambda>_.
      Inr (jarr_items (jget ''list'' result)))))))"

text \<open>\<^verbatim>\<open>str(v)\<close> compared with a text: only text, null and booleans have a text modelled here;
  a number, a list or a dictionary never compares equal to a symbol or a category.\<close>

fun py_str_is :: "json \<Rightarrow> string \<Rightarrow> bool" where
  "py_str_is (JStr s) t \<longleftrightarrow> s = t"
| "py_str_is JNull t \<longleftrightarrow> t = ''None''"
| "py_str_is (JBool b) t \<longleftrightarrow> t = (if b then ''True'' else ''False'')"
| "py_str_is _ t \<longleftrightarrow> False"

definition is_strict_order_match :: "string \<Rightarrow> string \<Rightarrow> json \<Rightarrow> bool" where
  "is_strict_order_match symbol olid row =
     (nonempty_jstr (jget ''orderLinkId'' row) \<and> jget ''orderLinkId'' row = JStr olid \<and>
      (case dget (jobj_items row) ''symbol'' of None \<Rightarrow> symbol = '''' | Some v \<Rightarrow> py_str_is v symbol) \<and>
      (jget ''category'' row = JNull \<or> py_str_is (jget ''category'' row) ORDER_QUERY_CATEGORY))"

definition is_confirming_row :: "json \<Rightarrow> bool" where
  "is_confirming_row row = json_in (jget ''orderStatus'' row) ORDER_CONFIRMING_STATUSES"

text \<open>The signed GET of one endpoint: the payload of the budgeted logical request, or its error.\<close>

type_synonym order_query = "string \<Rightarrow> string \<Rightarrow> string \<Rightarrow> create_error + json"

definition matching_rows :: "order_query \<Rightarrow> string \<Rightarrow> string \<Rightarrow> string \<Rightarrow> create_error + json list" where
  "matching_rows query endpoint symbol olid =
     rbind (query endpoint symbol olid) (\<lambda>payload.
     rbind (extract_order_rows payload) (\<lambda>rows.
     Inr (filter (is_strict_order_match symbol olid) rows)))"

definition strict_order_rows :: "order_query \<Rightarrow> string \<Rightarrow> string \<Rightarrow> create_error + json list" where
  "strict_order_rows query symbol olid =
     (if olid = '''' then Inl CE_Bybit
      else rbind (matching_rows query ''/v5/order/realtime'' symbol olid) (\<lambda>rows.
        if list_ex is_confirming_row rows then Inr rows
        else rbind (matching_rows query ''/v5/order/history'' symbol olid) (\<lambda>more. Inr (rows @ more))))"

definition get_order_by_link_id :: "order_query \<Rightarrow> string \<Rightarrow> string \<Rightarrow> create_error + json option" where
  "get_order_by_link_id query symbol olid =
     rbind (strict_order_rows query symbol olid) (\<lambda>rows. Inr (List.find is_confirming_row rows))"

section \<open>Reconciliation\<close>

datatype resolution =
    OwnerUnverifiedBlocker | OwnerAliveBlocker | UnresolvedBlocker string | Resolved json

record reconcile_item =
  ri_link :: string
  ri_symbol :: string
  ri_resolution :: resolution

definition entry_symbol :: "json \<Rightarrow> string" where
  "entry_symbol x = (case jarr_items (entry_fp x) of [] \<Rightarrow> '''' | j # _ \<Rightarrow> jstr_or '''' j)"

definition item_of :: "resolution \<Rightarrow> json \<Rightarrow> reconcile_item" where
  "item_of res x = \<lparr>ri_link = entry_olid x, ri_symbol = entry_symbol x, ri_resolution = res\<rparr>"

text \<open>The verdict on one pending entry: the confirming row, or the blocker to report.\<close>

definition reconcile_verdict :: "order_query \<Rightarrow> json \<Rightarrow> resolution" where
  "reconcile_verdict query x =
     (if entry_olid x = '''' then UnresolvedBlocker ''no orderLinkId''
      else case strict_order_rows query (entry_symbol x) (entry_olid x) of
        Inl _ \<Rightarrow> UnresolvedBlocker ''query failed''
      | Inr rows \<Rightarrow>
          (case List.find is_confirming_row rows of
             Some row \<Rightarrow> Resolved row
           | None \<Rightarrow> UnresolvedBlocker (if rows \<noteq> [] then ''status not accepted'' else ''no exchange record'')))"

definition confirmation_evidence :: "json \<Rightarrow> json \<Rightarrow> string" where
  "confirmation_evidence x row =
     ''exchange-confirmed orderLinkId='' @ entry_olid x @ '' symbol='' @ entry_symbol x @
     '' category='' @ ORDER_QUERY_CATEGORY @ '' orderStatus='' @ jstr_or '''' (jget ''orderStatus'' row)"

fun reconcile_pending ::
  "(json \<Rightarrow> string) \<Rightarrow> order_query \<Rightarrow> (txn_env \<times> json) list \<Rightarrow> disk \<Rightarrow> order_guard \<Rightarrow>
   (order_error + reconcile_item list) \<times> disk \<times> order_guard" where
  "reconcile_pending digest query [] disk g = (Inr [], disk, g)"
| "reconcile_pending digest query ((e, x) # rest) disk g =
     (case reconcile_verdict query x of
        Resolved row \<Rightarrow>
          (case resolve_reconciled digest e (entry_olid x) (confirmation_evidence x row) disk g of
             (Inl err, disk', g') \<Rightarrow> (Inl err, disk', g')
           | (Inr _, disk', g') \<Rightarrow>
               (case reconcile_pending digest query rest disk' g' of
                  (r, disk'', g'') \<Rightarrow> (map_sum id (\<lambda>items. item_of (Resolved row) x # items) r, disk'', g'')))
      | blocker \<Rightarrow>
          (case reconcile_pending digest query rest disk g of
             (r, disk', g') \<Rightarrow> (map_sum id (\<lambda>items. item_of blocker x # items) r, disk', g')))"

definition reconcile_order_submissions ::
  "(json \<Rightarrow> string) \<Rightarrow> txn_env \<Rightarrow> (nat \<Rightarrow> txn_env) \<Rightarrow> order_query \<Rightarrow> disk \<Rightarrow> order_guard \<Rightarrow>
   (order_error + reconcile_item list) \<times> disk \<times> order_guard" where
  "reconcile_order_submissions digest e envs query disk g =
     (case recover_orphaned_in_flight digest e disk g of
        (Inl err, disk', g') \<Rightarrow> (Inl err, disk', g')
      | (Inr report, disk', g') \<Rightarrow>
          (let pending = pending_unknown g' in
           case reconcile_pending digest query (zip (map envs [0..<length pending]) pending) disk' g' of
             (r, disk'', g'') \<Rightarrow>
               (map_sum id (\<lambda>items. map (item_of OwnerUnverifiedBlocker) (rr_unverified report) @
                   map (item_of OwnerAliveBlocker) (rr_alive report) @ items) r, disk'', g'')))"

section \<open>Lemmas on submission\<close>

lemma order_link_nonempty [simp]: "order_link e r \<noteq> ''''"
  by (auto simp: order_link_def split: option.splits)

lemma journal_path_nonempty [simp]: "journal_path st \<noteq> ''''"
  by (auto simp: journal_path_def ORDER_JOURNAL_DEFAULT_PATH_def)

lemma file_wf_written: "dwf es \<Longrightarrow> file_wf (FileDoc (canon (journal_document digest es)))"
  unfolding file_wf_def
  by (simp add: jget_canon) (simp add: journal_document_def stored_entries_def [symmetric])

lemma transaction_file_wf:
  assumes "transaction digest e s (\<lambda>g. (Inr a, g)) disk g = (r, disk', g')" and "file_wf (disk p)"
  shows "file_wf (disk' p)"
proof -
  obtain r1 g1 where o: "open_transaction digest e disk g = (r1, g1)" by fastforce
  show ?thesis
  proof (cases r1)
    case (Inl err)
    with assms o show ?thesis by (simp add: transaction_def)
  next
    case (Inr u)
    from assms(1) o Inr have c: "close_transaction digest e s a disk g1 = (r, disk', g')"
      by (simp add: transaction_def)
    have "og_path g1 = p \<Longrightarrow> file_wf (FileDoc (canon (journal_document digest (og_entries g1))))"
      using open_transaction_dwf [of digest e disk g u g1] o Inr assms(2) open_transaction_path [OF o]
      by (intro file_wf_written) simp
    with c assms(2) show ?thesis
      by (auto simp: close_transaction_def write_journal_def split: if_splits)
  qed
qed

lemma recover_file_wf:
  assumes "recover_orphaned_in_flight digest e disk g = (r, disk', g')" and "file_wf (disk p)"
  shows "file_wf (disk' p)"
proof -
  obtain r1 d1 g1 where t: "transaction digest e True (\<lambda>g. (Inr (), g)) disk g = (r1, d1, g1)"
    by (metis prod_cases3)
  from transaction_file_wf [OF t assms(2)] assms(1) show ?thesis
    by (auto simp: recover_orphaned_in_flight_def t split: sum.splits)
qed

lemma transaction_path:
  assumes "transaction digest e s body disk g = (r, disk', g')"
    and "\<And>g r g'. body g = (r, g') \<Longrightarrow> og_path g' = og_path g"
  shows "og_path g' = og_path g"
proof -
  obtain r1 g1 where o: "open_transaction digest e disk g = (r1, g1)" by fastforce
  obtain r2 g2 where b: "body g1 = (r2, g2)" by fastforce
  note paths = open_transaction_path [OF o] assms(2) [OF b]
  show ?thesis
  proof (cases r1)
    case (Inl err)
    with assms(1) o paths show ?thesis by (simp add: transaction_def)
  next
    case (Inr u)
    with assms(1) o b paths show ?thesis
      by (cases r2) (auto simp: transaction_def close_transaction_def split: if_split_asm)
  qed
qed

lemma recover_path:
  assumes "recover_orphaned_in_flight digest e disk g = (r, disk', g')"
  shows "og_path g' = og_path g"
proof -
  obtain r1 d1 g1 where t: "transaction digest e True (\<lambda>g. (Inr (), g)) disk g = (r1, d1, g1)"
    by (metis prod_cases3)
  have "og_path g1 = og_path g" by (rule transaction_path [OF t]) simp
  with assms show ?thesis by (cases r1) (simp_all add: recover_orphaned_in_flight_def t)
qed

lemma configure_result:
  assumes "configure digest e path disk g = (disk', g')"
  shows "og_path g' = path" "file_wf (disk p) \<Longrightarrow> file_wf (disk' p)"
    "file_blocked digest fp olid (disk p) \<Longrightarrow> file_blocked digest fp olid (disk' p)"
proof -
  show "og_path g' = path"
    using assms by (auto simp: configure_def configure_bind_def split: if_splits sum.splits prod.splits
        dest!: recover_path)
  show "file_wf (disk p) \<Longrightarrow> file_wf (disk' p)"
    using assms recover_file_wf by (auto simp: configure_def split: if_splits sum.splits prod.splits)
  show "file_blocked digest fp olid (disk p) \<Longrightarrow> file_blocked digest fp olid (disk' p)"
    using configure_blocked [of digest fp olid disk p e path g] assms by simp
qed

lemma send_reserved_simps [simp]:
  "cr_sends (no_send_report err gr rec disk g) = 0" "cr_disk (no_send_report err gr rec disk g) = disk"
  "cr_granted (no_send_report err gr rec disk g) = gr" "cr_recorded (no_send_report err gr rec disk g) = rec"
  "cr_result (no_send_report err gr rec disk g) = Inl err"
  by (simp_all add: no_send_report_def)

lemma apply_mark_blocked:
  assumes "file_blocked digest fp olid (disk p)" and "\<nexists>ev. m = MarkResolved ev"
  shows "file_blocked digest fp olid (fst (apply_mark digest e fp olid m disk g) p)"
  using run_op_blocked [of digest fp olid disk p "OpUnknown fp olid _" e g] assms
  by (cases m) (auto simp: apply_mark_def)

lemma submit_begin_path:
  "submit_begin digest e fp olid disk g = (Inr b, disk', g') \<Longrightarrow> og_path g' = og_path g"
  unfolding submit_begin_def
  by (erule transaction_cases)
    (auto simp: begin_body_def Let_def close_transaction_def dest!: open_transaction_path new_entry_frame
      split: if_splits sum.splits prod.splits)

text \<open>The report of a create call that transmits.\<close>

lemma create_order_sent:
  assumes "cr_sends (create_order digest st e r disk g) \<noteq> 0"
  obtains d1 g1 d2 g2 where "configure digest (se_configure e) (journal_path st) disk g = (d1, g1)"
    "submit_begin digest (se_begin e) (order_fp r) (order_link e r) d1 g1 = (Inr True, d2, g2)"
    "create_order digest st e r disk g = send_reserved digest e r d2 g2"
proof -
  obtain d1 g1 where c: "configure digest (se_configure e) (journal_path st) disk g = (d1, g1)" by fastforce
  obtain rb d2 g2 where b: "submit_begin digest (se_begin e) (order_fp r) (order_link e r) d1 g1 = (rb, d2, g2)"
    by (metis prod_cases3)
  have eq: "create_order digest st e r disk g = reserve_and_send digest e r d1 g1"
    using assms c by (cases "se_lim e") (auto simp: create_order_def split: if_split_asm)
  have "rb = Inr True"
  proof (cases rb)
    case (Inl err)
    then show ?thesis using assms b unfolding eq by (simp add: reserve_and_send_def Let_def)
  next
    case (Inr reserved)
    then show ?thesis using assms b unfolding eq by (cases reserved) (simp_all add: reserve_and_send_def Let_def)
  qed
  with b have "create_order digest st e r disk g = send_reserved digest e r d2 g2"
    unfolding eq by (simp add: reserve_and_send_def Let_def)
  with that [OF c] b \<open>rb = Inr True\<close> show ?thesis by blast
qed

section \<open>Properties of submission\<close>

text \<open>C1. No double POST: when one process transmitted an order and its answer was not definitive
  (a timeout, a transport failure, HTTP 429 or 5xx, an unreadable or malformed answer), no process
  with the same journal transmits an order with the same fingerprint, through any operations,
  crashes, restarts and journal failures in between, until the outcome is recorded or the
  orderLinkId is reconciled.\<close>

theorem no_double_post:
  assumes "cr_sends (create_order digest st e r disk g) = 1"
    and "\<nexists>ev. fst (create_order_attempt (se_http e)) = MarkResolved ev"
    and "file_wf (disk (journal_path st))"
    and "ow_disk w (journal_path st) = cr_disk (create_order digest st e r disk g) (journal_path st)"
    and "list_all (\<lambda>ev. \<not> event_resolves (order_fp r) (order_link e r) ev) evs"
    and "w' = foldl (world_step digest) w evs"
    and "journal_path st2 = journal_path st" and "order_fp r2 = order_fp r"
  shows "cr_sends (create_order digest st2 e2 r2 (ow_disk w') (ow_guards w' j)) = 0"
proof (rule ccontr)
  let ?fp = "order_fp r" and ?l = "order_link e r" and ?p = "journal_path st"
  have "cr_sends (create_order digest st e r disk g) \<noteq> 0" using assms(1) by simp
  from create_order_sent [OF this] obtain d1 g1 d2 g2 where s:
    "configure digest (se_configure e) ?p disk g = (d1, g1)"
    "submit_begin digest (se_begin e) ?fp ?l d1 g1 = (Inr True, d2, g2)"
    "create_order digest st e r disk g = send_reserved digest e r d2 g2" .
  note c = configure_result [OF s(1)]
  have "file_blocked digest ?fp ?l (d2 ?p)"
    using begin_reserves_durably [OF s(2)] c(1) c(2) [OF assms(3)] by simp
  then have "file_blocked digest ?fp ?l (cr_disk (create_order digest st e r disk g) ?p)"
    using apply_mark_blocked [of digest ?fp ?l d2 ?p "fst (create_order_attempt (se_http e))" "se_mark e" g2] assms(2)
    unfolding s(3) by (auto simp: send_reserved_def Let_def split: prod.splits)
  then have "file_blocked digest ?fp ?l (ow_disk w' ?p)"
    using block.run_latched [of digest ?fp ?l w ?p evs] assms(4-6) by (simp add: list_all_iff)
  assume "cr_sends (create_order digest st2 e2 r2 (ow_disk w') (ow_guards w' j)) \<noteq> 0"
  from create_order_sent [OF this] obtain d3 g3 d4 g4 where
    "configure digest (se_configure e2) (journal_path st2) (ow_disk w') (ow_guards w' j) = (d3, g3)"
    "submit_begin digest (se_begin e2) (order_fp r2) (order_link e2 r2) d3 g3 = (Inr True, d4, g4)" .
  then have t: "configure digest (se_configure e2) ?p (ow_disk w') (ow_guards w' j) = (d3, g3)"
    "submit_begin digest (se_begin e2) ?fp (order_link e2 r2) d3 g3 = (Inr True, d4, g4)"
    unfolding assms(7,8) .
  note c2 = configure_result [OF t(1)]
  from c2(3) [OF \<open>file_blocked digest ?fp ?l (ow_disk w' ?p)\<close>] c2(1)
  have "fst (submit_begin digest (se_begin e2) ?fp (order_link e2 r2) d3 g3) \<noteq> Inr True"
    by (intro begin_blocked_not_True [of digest ?fp ?l]) auto
  with t(2) show False by simp
qed

text \<open>C3. A transmitted order was reserved before: whenever the POST leaves, the durable write of the
  reservation was done and the journal on disk already blocked the order.\<close>

theorem post_only_after_durable_reservation:
  assumes "cr_sends (create_order digest st e r disk g) \<noteq> 0" and "file_wf (disk (journal_path st))"
  shows "\<exists>d1 g1 d2 g2. configure digest (se_configure e) (journal_path st) disk g = (d1, g1) \<and>
           submit_begin digest (se_begin e) (order_fp r) (order_link e r) d1 g1 = (Inr True, d2, g2) \<and>
           te_write (se_begin e) = WriteDone \<and>
           file_blocked digest (order_fp r) (order_link e r) (d2 (journal_path st)) \<and>
           ss_live_mode st \<and> ss_live_enabled st"
proof -
  obtain d1 g1 d2 g2 where s: "configure digest (se_configure e) (journal_path st) disk g = (d1, g1)"
    "submit_begin digest (se_begin e) (order_fp r) (order_link e r) d1 g1 = (Inr True, d2, g2)"
    by (rule create_order_sent [OF assms(1)])
  have live: "ss_live_mode st \<and> ss_live_enabled st"
    using assms(1) by (auto simp: create_order_def split: if_splits)
  from begin_reserves_durably [OF s(2)] configure_result(1,2) [OF s(1)] assms(2) s live
  show ?thesis by auto
qed

text \<open>Which answers end the block: only an HTTP status outside the success range that is neither
  429 nor a server error, or a success with a valid integer retCode. Everything else keeps the
  order blocked.\<close>

theorem only_definitive_answers_resolve:
  "(\<exists>ev. fst (create_order_attempt h) = MarkResolved ev) \<longleftrightarrow>
     (\<exists>s. (h = HttpRaisedStatus (Some s) \<or> (\<exists>b. h = HttpResponse s b \<and> \<not> raise_for_status_ok s)) \<and>
          s \<noteq> 429 \<and> s < 500) \<or>
     (\<exists>s p n. h = HttpResponse s (BodyJson p) \<and> raise_for_status_ok s \<and> is_jobj p \<and>
          jget ''retCode'' p = JInt n \<and>
          (if n = 0 then dget (jobj_items p) ''result'' = None \<or> is_jobj (jget ''result'' p) else True))"
proof (cases h)
  case (HttpRaisedStatus s)
  then show ?thesis by (cases s) (auto simp: http_rejection_def split: prod.splits)
next
  case (HttpResponse s b)
  show ?thesis
  proof (cases "raise_for_status_ok s")
    case False
    then show ?thesis using HttpResponse by (auto simp: http_rejection_def split: prod.splits)
  next
    case True
    then show ?thesis using HttpResponse
      by (cases b) (auto simp: payload_verdict_def Let_def is_valid_ret_code_iff)
  qed
qed auto

text \<open>A grant revoked between the reservation and the send: nothing is transmitted, yet the
  reservation stays in the journal, so the order is blocked although it was never sent.\<close>

theorem revoked_grant_leaves_block:
  assumes "cr_result (create_order digest st e r disk g) = Inl (CE_RateLimit ''grant_revoked'')"
    and "se_lim e = OLimGranted False" and "file_wf (disk (journal_path st))"
  shows "cr_sends (create_order digest st e r disk g) = 0 \<and>
         file_blocked digest (order_fp r) (order_link e r)
           (cr_disk (create_order digest st e r disk g) (journal_path st))"
proof -
  obtain d1 g1 where c: "configure digest (se_configure e) (journal_path st) disk g = (d1, g1)" by fastforce
  obtain rb d2 g2 where b: "submit_begin digest (se_begin e) (order_fp r) (order_link e r) d1 g1 = (rb, d2, g2)"
    by (metis prod_cases3)
  have eq: "create_order digest st e r disk g = reserve_and_send digest e r d1 g1"
    using assms(1,2) c by (auto simp: create_order_def split: if_split_asm)
  have "rb = Inr True"
    using assms(1) b unfolding eq by (cases rb) (auto simp: reserve_and_send_def Let_def split: if_split_asm)
  moreover from this begin_reserves_durably [of digest "se_begin e" "order_fp r" "order_link e r" d1 g1 d2 g2] b
    configure_result(1,2) [OF c] assms(3)
  have "file_blocked digest (order_fp r) (order_link e r) (d2 (journal_path st))" by auto
  ultimately show ?thesis
    using b assms(2) unfolding eq by (simp add: reserve_and_send_def send_reserved_def Let_def)
qed

definition grant_accounted :: "create_report \<Rightarrow> bool" where
  "grant_accounted c \<longleftrightarrow> length (cr_recorded c) =
     (if cr_granted c \<and> cr_result c \<noteq> Inl (CE_Uncertain ''guard raised'') then 1 else 0)"

lemma attempt_not_guard_raised: "snd (create_order_attempt h) \<noteq> Inl (CE_Uncertain ''guard raised'')"
  by (cases h) (auto simp: http_rejection_def status_create_error_def payload_verdict_def Let_def
      split: http_body.splits get_error.splits prod.splits if_splits)

lemma send_reserved_accounted: "grant_accounted (send_reserved digest e r d g)"
  using attempt_not_guard_raised [of "se_http e"]
  by (auto simp: grant_accounted_def send_reserved_def Let_def split: prod.split order_limiter.split)

lemma reserve_and_send_accounted: "grant_accounted (reserve_and_send digest e r d g)"
proof -
  obtain rb d2 g2 where b: "submit_begin digest (se_begin e) (order_fp r) (order_link e r) d g = (rb, d2, g2)"
    by (metis prod_cases3)
  show ?thesis
  proof (cases "rb = Inr True")
    case True
    then show ?thesis using b send_reserved_accounted by (simp add: reserve_and_send_def Let_def)
  next
    case False
    then show ?thesis using b
      by (cases rb) (simp_all add: reserve_and_send_def Let_def grant_accounted_def)
  qed
qed

text \<open>Limiter accounting of the order path: each grant gets exactly one outcome, except when the
  guard itself raises, which leaves the grant without any.\<close>

theorem order_grant_accounting:
  "length (cr_recorded (create_order digest st e r disk g)) =
     (if cr_granted (create_order digest st e r disk g) \<and>
         cr_result (create_order digest st e r disk g) \<noteq> Inl (CE_Uncertain ''guard raised'')
      then 1 else 0)"
proof -
  obtain d1 g1 where "configure digest (se_configure e) (journal_path st) disk g = (d1, g1)"
    by fastforce
  moreover have "grant_accounted (no_send_report err False [] d2 g2)" for err d2 g2
    by (simp add: grant_accounted_def)
  ultimately have "grant_accounted (create_order digest st e r disk g)"
    using reserve_and_send_accounted by (cases "se_lim e") (simp_all add: create_order_def)
  then show ?thesis unfolding grant_accounted_def .
qed

section \<open>Properties of reconciliation\<close>

lemma extract_order_rows_linear:
  assumes "extract_order_rows payload = Inr rows"
  shows "jget ''category'' (jget ''result'' payload) = JStr ORDER_QUERY_CATEGORY"
    and "rows = jarr_items (jget ''list'' (jget ''result'' payload))"
  using assms by (auto simp: extract_order_rows_def Let_def rbind_Inr_iff)

lemma matching_rows_match:
  assumes "matching_rows query ep symbol olid = Inr rows" and "row \<in> set rows"
  shows "is_strict_order_match symbol olid row \<and>
    (\<exists>ep payload. query ep symbol olid = Inr payload \<and>
       jget ''category'' (jget ''result'' payload) = JStr ORDER_QUERY_CATEGORY \<and>
       row \<in> set (jarr_items (jget ''list'' (jget ''result'' payload))))"
proof -
  from assms obtain payload all_rows where p: "query ep symbol olid = Inr payload"
    "extract_order_rows payload = Inr all_rows" "row \<in> set all_rows" "is_strict_order_match symbol olid row"
    by (auto simp: matching_rows_def rbind_Inr_iff)
  from extract_order_rows_linear [OF p(2)] p show ?thesis by blast
qed

lemma strict_rows_match:
  assumes "strict_order_rows query symbol olid = Inr rows" and "row \<in> set rows"
  shows "olid \<noteq> '''' \<and> is_strict_order_match symbol olid row \<and>
    (\<exists>ep payload. query ep symbol olid = Inr payload \<and>
       jget ''category'' (jget ''result'' payload) = JStr ORDER_QUERY_CATEGORY \<and>
       row \<in> set (jarr_items (jget ''list'' (jget ''result'' payload))))"
proof -
  have "olid \<noteq> ''''" using assms(1) by (auto simp: strict_order_rows_def)
  moreover obtain ep mrows where "matching_rows query ep symbol olid = Inr mrows" "row \<in> set mrows"
    using assms by (auto simp: strict_order_rows_def rbind_Inr_iff split: if_split_asm)
  ultimately show ?thesis using matching_rows_match by blast
qed

text \<open>A confirmation is exact: an order found by its link identifier carries exactly this
  non-empty identifier, an accepted status, and comes from a query answer whose own category is
  the queried one.\<close>

theorem confirmation_is_strict:
  assumes "get_order_by_link_id query symbol olid = Inr (Some row)"
  shows "olid \<noteq> '''' \<and> jget ''orderLinkId'' row = JStr olid \<and>
         json_in (jget ''orderStatus'' row) ORDER_CONFIRMING_STATUSES \<and>
         (\<exists>ep payload. query ep symbol olid = Inr payload \<and>
            jget ''category'' (jget ''result'' payload) = JStr ORDER_QUERY_CATEGORY \<and>
            row \<in> set (jarr_items (jget ''list'' (jget ''result'' payload))))"
proof -
  obtain rows where r: "strict_order_rows query symbol olid = Inr rows" "List.find is_confirming_row rows = Some row"
    using assms by (auto simp: get_order_by_link_id_def rbind_Inr_iff)
  then have "row \<in> set rows" "is_confirming_row row" by (auto simp: find_Some_iff)
  with strict_rows_match [OF r(1)] show ?thesis
    by (auto simp: is_strict_order_match_def is_confirming_row_def)
qed

lemma reconcile_verdict_Resolved:
  assumes "reconcile_verdict query x = Resolved row"
  shows "get_order_by_link_id query (entry_symbol x) (entry_olid x) = Inr (Some row)"
  using assms
  by (auto simp: reconcile_verdict_def get_order_by_link_id_def split: if_split_asm sum.splits option.splits)

lemma resolve_other_blocked:
  assumes "file_blocked digest fp olid (disk p)" and "olid' \<noteq> olid"
    and "resolve_reconciled digest e olid' ev disk g = (r, disk', g')"
  shows "file_blocked digest fp olid (disk' p)"
  using run_op_blocked [of digest fp olid disk p "OpReconciled olid' ev" e g] assms by simp

lemma reconcile_pending_blocked:
  assumes "\<And>s row. get_order_by_link_id query s olid \<noteq> Inr (Some row)"
  shows "file_blocked digest fp olid (disk p) \<Longrightarrow>
    reconcile_pending digest query xs disk g = (r, disk', g') \<Longrightarrow> file_blocked digest fp olid (disk' p)"
proof (induction xs arbitrary: disk g r disk' g')
  case (Cons ex xs)
  obtain e x where ex: "ex = (e, x)" by (cases ex)
  show ?case
  proof (cases "reconcile_verdict query x")
    case (Resolved row)
    from reconcile_verdict_Resolved [OF this] assms have other: "entry_olid x \<noteq> olid" by metis
    obtain r1 d1 g1 where res: "resolve_reconciled digest e (entry_olid x) (confirmation_evidence x row) disk g = (r1, d1, g1)"
      by (metis prod_cases3)
    note b = resolve_other_blocked [OF Cons.prems(1) other res]
    show ?thesis
    proof (cases r1)
      case (Inl err)
      with Cons.prems(2) ex Resolved res b show ?thesis by simp
    next
      case (Inr u)
      obtain r2 d2 g2 where p: "reconcile_pending digest query xs d1 g1 = (r2, d2, g2)" by (metis prod_cases3)
      from Cons.IH [OF b p] Cons.prems(2) ex Resolved res Inr p show ?thesis by simp
    qed
  next
    case (UnresolvedBlocker why)
    obtain r1 d1 g1 where p: "reconcile_pending digest query xs disk g = (r1, d1, g1)" by (metis prod_cases3)
    from Cons.IH [OF Cons.prems(1) p] Cons.prems(2) ex UnresolvedBlocker p show ?thesis by simp
  next
    case OwnerUnverifiedBlocker
    obtain r1 d1 g1 where p: "reconcile_pending digest query xs disk g = (r1, d1, g1)" by (metis prod_cases3)
    from Cons.IH [OF Cons.prems(1) p] Cons.prems(2) ex OwnerUnverifiedBlocker p show ?thesis by simp
  next
    case OwnerAliveBlocker
    obtain r1 d1 g1 where p: "reconcile_pending digest query xs disk g = (r1, d1, g1)" by (metis prod_cases3)
    from Cons.IH [OF Cons.prems(1) p] Cons.prems(2) ex OwnerAliveBlocker p show ?thesis by simp
  qed
qed simp

text \<open>C4. Reconciliation needs the exchange: as long as no query answer confirms the orderLinkId of a
  blocked order, the whole reconciliation procedure, with whatever other entries it resolves and
  whatever fails on the way, leaves the order blocked.\<close>

theorem reconcile_needs_confirmation:
  assumes "reconcile_order_submissions digest e envs query disk g = (r, disk', g')"
    and "file_blocked digest fp olid (disk p)"
    and "\<And>s row. get_order_by_link_id query s olid \<noteq> Inr (Some row)"
  shows "file_blocked digest fp olid (disk' p)"
proof -
  obtain r1 d1 g1 where rec: "recover_orphaned_in_flight digest e disk g = (r1, d1, g1)" by (metis prod_cases3)
  note b = recover_blocked [OF rec assms(2)]
  show ?thesis
  proof (cases r1)
    case (Inl err)
    with assms(1) rec b show ?thesis by (simp add: reconcile_order_submissions_def)
  next
    case (Inr report)
    let ?xs = "zip (map envs [0..<length (pending_unknown g1)]) (pending_unknown g1)"
    obtain r2 d2 g2 where p: "reconcile_pending digest query ?xs d1 g1 = (r2, d2, g2)" by (metis prod_cases3)
    from reconcile_pending_blocked [OF assms(3) b p] assms(1) rec Inr p show ?thesis
      by (simp add: reconcile_order_submissions_def Let_def)
  qed
qed

section \<open>Concrete submissions\<close>

definition demo_submit_settings :: submit_settings where
  "demo_submit_settings = \<lparr>ss_live_mode = True, ss_live_enabled = True, ss_has_credentials = True,
     ss_journal_path = ''var/j.json''\<rparr>"

definition demo_submit_env :: "order_limiter \<Rightarrow> http_result \<Rightarrow> submit_env" where
  "demo_submit_env lmt http = \<lparr>se_uuid = ''00ff'', se_lim = lmt, se_configure = demo_txn ''owner-a-1'',
     se_begin = demo_txn ''owner-a-1'', se_mark = demo_txn ''owner-a-1'', se_http = http\<rparr>"

definition demo_request :: order_request where
  "demo_request = \<lparr>or_symbol = ''BTCUSDT'', or_side = ''Buy'', or_qty = ''0.01'', or_type = ''Market'',
     or_link = None\<rparr>"

definition demo_create :: "order_limiter \<Rightarrow> http_result \<Rightarrow> create_report" where
  "demo_create lmt http = create_order demo_digest demo_submit_settings (demo_submit_env lmt http)
     demo_request (\<lambda>_. FileAbsent) new_order_guard"

definition after_timeout :: order_world where
  "after_timeout = \<lparr>ow_disk = cr_disk (demo_create OLimDisabled HttpTimeout), ow_guards = (\<lambda>_. new_order_guard)\<rparr>"

lemma demo_sent: "cr_sends (demo_create OLimDisabled HttpTimeout) = 1"
  by code_simp

lemma absent_wf: "file_wf ((\<lambda>_. FileAbsent) p)"
  by (simp add: file_wf_def)

theorem no_double_post_witness:
  "cr_sends (create_order demo_digest demo_submit_settings (demo_submit_env OLimDisabled HttpTimeout) demo_request
     (ow_disk (foldl (world_step demo_digest) after_timeout [(0, demo_txn ''owner-a-1'', OpCrash)]))
     (ow_guards (foldl (world_step demo_digest) after_timeout [(0, demo_txn ''owner-a-1'', OpCrash)]) 0)) = 0"
proof (rule no_double_post [where e = "demo_submit_env OLimDisabled HttpTimeout" and r = demo_request and
      disk = "\<lambda>_. FileAbsent" and g = new_order_guard and w = after_timeout and
      evs = "[(0, demo_txn ''owner-a-1'', OpCrash)]"])
  show "cr_sends (create_order demo_digest demo_submit_settings (demo_submit_env OLimDisabled HttpTimeout)
     demo_request (\<lambda>_. FileAbsent) new_order_guard) = 1"
    using demo_sent by (simp add: demo_create_def)
  show "ow_disk after_timeout (journal_path demo_submit_settings) =
     cr_disk (create_order demo_digest demo_submit_settings (demo_submit_env OLimDisabled HttpTimeout)
       demo_request (\<lambda>_. FileAbsent) new_order_guard) (journal_path demo_submit_settings)"
    by (simp add: after_timeout_def demo_create_def)
qed (simp_all add: demo_submit_env_def absent_wf event_resolves_def)

theorem post_only_after_durable_reservation_witness:
  "file_blocked demo_digest (order_fp demo_request) (order_link (demo_submit_env OLimDisabled HttpTimeout) demo_request)
     (fst (snd (submit_begin demo_digest (demo_txn ''owner-a-1'') (order_fp demo_request)
        (order_link (demo_submit_env OLimDisabled HttpTimeout) demo_request)
        (fst (configure demo_digest (demo_txn ''owner-a-1'') ''var/j.json'' (\<lambda>_. FileAbsent) new_order_guard))
        (snd (configure demo_digest (demo_txn ''owner-a-1'') ''var/j.json'' (\<lambda>_. FileAbsent) new_order_guard))))
      ''var/j.json'')"
proof -
  have "cr_sends (create_order demo_digest demo_submit_settings (demo_submit_env OLimDisabled HttpTimeout)
     demo_request (\<lambda>_. FileAbsent) new_order_guard) \<noteq> 0"
    using demo_sent by (simp add: demo_create_def)
  from post_only_after_durable_reservation [OF this absent_wf]
  show ?thesis by (auto simp: demo_submit_env_def demo_submit_settings_def journal_path_def)
qed

theorem revoked_grant_leaves_block_witness:
  "cr_sends (demo_create (OLimGranted False) HttpTimeout) = 0 \<and>
   file_blocked demo_digest (order_fp demo_request)
     (order_link (demo_submit_env (OLimGranted False) HttpTimeout) demo_request)
     (cr_disk (demo_create (OLimGranted False) HttpTimeout) ''var/j.json'')"
proof -
  have "(case cr_result (demo_create (OLimGranted False) HttpTimeout) of
           Inl (CE_RateLimit s) \<Rightarrow> s = ''grant_revoked'' | _ \<Rightarrow> False)" by code_simp
  then have "cr_result (demo_create (OLimGranted False) HttpTimeout) = Inl (CE_RateLimit ''grant_revoked'')"
    by (auto split: sum.splits create_error.splits)
  from revoked_grant_leaves_block [OF this [unfolded demo_create_def] _ absent_wf, folded demo_create_def]
  show ?thesis by (simp add: demo_submit_env_def demo_submit_settings_def journal_path_def)
qed

definition demo_row :: json where
  "demo_row = JObj [(''orderLinkId'', JStr ''link-1''), (''symbol'', JStr ''BTCUSDT''),
     (''orderStatus'', JStr ''Filled'')]"

fun demo_query :: order_query where
  "demo_query ep symbol olid =
     (if olid = ''link-1'' then Inr (JObj [(''result'', JObj [(''category'', JStr ''linear''), (''list'', JArr [demo_row])])])
      else Inl CE_TimeoutExc)"

theorem confirmation_is_strict_witness:
  "get_order_by_link_id demo_query ''BTCUSDT'' ''link-1'' = Inr (Some demo_row) \<and>
   jget ''orderLinkId'' demo_row = JStr ''link-1''"
proof -
  have "get_order_by_link_id demo_query ''BTCUSDT'' ''link-1'' = Inr (Some demo_row)" by code_simp
  from confirmation_is_strict [OF this] this show ?thesis by blast
qed

theorem reconcile_needs_confirmation_witness:
  "file_blocked demo_digest demo_fp ''link-1''
     (fst (snd (reconcile_order_submissions demo_digest (demo_txn ''owner-b-1'') (\<lambda>_. demo_txn ''owner-b-1'')
        (\<lambda>_ _ _. Inl CE_TimeoutExc) flying_disk demo_guard)) ''var/j.json'')"
proof (rule reconcile_needs_confirmation)
  show "reconcile_order_submissions demo_digest (demo_txn ''owner-b-1'') (\<lambda>_. demo_txn ''owner-b-1'')
     (\<lambda>_ _ _. Inl CE_TimeoutExc) flying_disk demo_guard =
     (fst (reconcile_order_submissions demo_digest (demo_txn ''owner-b-1'') (\<lambda>_. demo_txn ''owner-b-1'')
        (\<lambda>_ _ _. Inl CE_TimeoutExc) flying_disk demo_guard),
      fst (snd (reconcile_order_submissions demo_digest (demo_txn ''owner-b-1'') (\<lambda>_. demo_txn ''owner-b-1'')
        (\<lambda>_ _ _. Inl CE_TimeoutExc) flying_disk demo_guard)),
      snd (snd (reconcile_order_submissions demo_digest (demo_txn ''owner-b-1'') (\<lambda>_. demo_txn ''owner-b-1'')
        (\<lambda>_ _ _. Inl CE_TimeoutExc) flying_disk demo_guard)))" by simp
  have "entries_block demo_fp ''link-1'' flying_entries"
    unfolding entries_block_def flying_entries_def
    by (simp add: dwf_def flying_record_def entry_active_def entry_fp_def entry_olid_def ORDER_ACTIVE_STATES_def)
  then show "file_blocked demo_digest demo_fp ''link-1'' (flying_disk ''var/j.json'')"
    by (simp add: flying_disk_def write_blocked)
  show "get_order_by_link_id (\<lambda>_ _ _. Inl CE_TimeoutExc) s ''link-1'' \<noteq> Inr (Some row)" for s row
    by (simp add: get_order_by_link_id_def strict_order_rows_def matching_rows_def)
qed

text \<open>A redirect status is recorded as a definitive rejection: the mark of a raised or returned
  status 302 resolves the submission like a client error does.\<close>

theorem redirect_counts_as_rejection:
  "fst (create_order_attempt (HttpResponse 302 BodyUndecodable)) = MarkResolved ''definitive HTTP rejection'' \<and>
   fst (create_order_attempt (HttpRaisedStatus (Some 302))) = MarkResolved ''definitive HTTP rejection''"
  by code_simp

end
