(* ===== verification/Dca.thy ===== *)
theory Dca
  imports Json
begin

text \<open>
  The DCA breakeven policy of \<^verbatim>\<open>src/app/paper/dca.py\<close>: the per-position state, price levels
  and position split in binary64 arithmetic, the transition table, the fill and the close, and
  the dictionary form that is stored. Times are integer microseconds; the clock default of the
  code is the \<open>now\<close> argument.
\<close>

section \<open>Data\<close>

datatype direction = LONG | SHORT

datatype dca_state =
    INITIAL_PENDING | INITIAL_FILLED | DCA_PENDING | DCA_FILLED
  | CLOSED_BREAKEVEN | CLOSED_STOP | CLOSED_NO_DCA | CANCELLED

definition TERMINAL_STATES :: "dca_state list" where
  "TERMINAL_STATES = [CLOSED_BREAKEVEN, CLOSED_STOP, CLOSED_NO_DCA, CANCELLED]"

record dca_settings =
  ds_enabled :: bool
  ds_level_atr :: rat
  ds_initial_entry_pct :: rat
  ds_dca_entry_pct :: rat
  ds_stop_loss_atr :: rat

record dca_position =
  dp_position_id :: "int option"
  dp_enabled :: bool
  dp_state :: dca_state
  dp_atr_at_entry :: rat
  dp_level_atr :: rat
  dp_dca_price :: rat
  dp_initial_entry_pct :: rat
  dp_dca_target_pct :: rat
  dp_initial_fill_price :: rat
  dp_initial_fill_qty :: rat
  dp_dca_fill_price :: rat
  dp_dca_fill_qty :: rat
  dp_dca_filled_at :: "int option"
  dp_avg_entry_price :: rat
  dp_original_tp :: rat
  dp_active_tp :: rat
  dp_tp_mode :: string
  dp_stop_price :: rat
  dp_initial_fee :: rat
  dp_initial_slippage :: rat
  dp_dca_fee :: rat
  dp_dca_slippage :: rat
  dp_fill_count :: int
  dp_order_active :: bool
  dp_created_at :: int
  dp_updated_at :: int

text \<open>The defaults of \<^verbatim>\<open>DCAPositionState\<close>.\<close>

definition default_dca :: "int \<Rightarrow> dca_position" where
  "default_dca now = \<lparr>dp_position_id = None, dp_enabled = False, dp_state = INITIAL_PENDING,
     dp_atr_at_entry = 0, dp_level_atr = 3 / 4, dp_dca_price = 0, dp_initial_entry_pct = 1 / 2,
     dp_dca_target_pct = 1 / 2, dp_initial_fill_price = 0, dp_initial_fill_qty = 0,
     dp_dca_fill_price = 0, dp_dca_fill_qty = 0, dp_dca_filled_at = None, dp_avg_entry_price = 0,
     dp_original_tp = 0, dp_active_tp = 0, dp_tp_mode = ''scanner'', dp_stop_price = 0,
     dp_initial_fee = 0, dp_initial_slippage = 0, dp_dca_fee = 0, dp_dca_slippage = 0,
     dp_fill_count = 0, dp_order_active = False, dp_created_at = now, dp_updated_at = now\<rparr>"

section \<open>Stored form\<close>

text \<open>The value of each state, and its inverse \<^verbatim>\<open>DCAState(value)\<close>.\<close>

fun dca_state_value :: "dca_state \<Rightarrow> string" where
  "dca_state_value INITIAL_PENDING = ''INITIAL_PENDING''"
| "dca_state_value INITIAL_FILLED = ''INITIAL_FILLED''"
| "dca_state_value DCA_PENDING = ''DCA_PENDING''"
| "dca_state_value DCA_FILLED = ''DCA_FILLED''"
| "dca_state_value CLOSED_BREAKEVEN = ''CLOSED_BREAKEVEN''"
| "dca_state_value CLOSED_STOP = ''CLOSED_STOP''"
| "dca_state_value CLOSED_NO_DCA = ''CLOSED_NO_DCA''"
| "dca_state_value CANCELLED = ''CANCELLED''"

definition ALL_DCA_STATES :: "dca_state list" where
  "ALL_DCA_STATES = [INITIAL_PENDING, INITIAL_FILLED, DCA_PENDING, DCA_FILLED,
     CLOSED_BREAKEVEN, CLOSED_STOP, CLOSED_NO_DCA, CANCELLED]"

definition dca_state_of :: "string \<Rightarrow> dca_state option" where
  "dca_state_of s = List.find (\<lambda>st. dca_state_value st = s) ALL_DCA_STATES"

text \<open>\<open>isofmt\<close> is \<^verbatim>\<open>datetime.isoformat\<close>.\<close>

definition dca_to_dict :: "(int \<Rightarrow> string) \<Rightarrow> dca_position \<Rightarrow> json" where
  "dca_to_dict isofmt d = JObj
     [(''dca_enabled'', JBool (dp_enabled d)), (''state'', JStr (dca_state_value (dp_state d))),
      (''atr_at_entry'', JFloat (dp_atr_at_entry d)), (''dca_level_atr'', JFloat (dp_level_atr d)),
      (''dca_price'', JFloat (dp_dca_price d)), (''initial_entry_pct'', JFloat (dp_initial_entry_pct d)),
      (''dca_target_pct'', JFloat (dp_dca_target_pct d)),
      (''initial_fill_price'', JFloat (dp_initial_fill_price d)),
      (''initial_fill_qty'', JFloat (dp_initial_fill_qty d)),
      (''dca_fill_price'', JFloat (dp_dca_fill_price d)), (''dca_fill_qty'', JFloat (dp_dca_fill_qty d)),
      (''dca_filled_at'', (case dp_dca_filled_at d of None \<Rightarrow> JNull | Some t \<Rightarrow> JStr (isofmt t))),
      (''avg_entry_price'', JFloat (dp_avg_entry_price d)), (''original_tp'', JFloat (dp_original_tp d)),
      (''active_tp'', JFloat (dp_active_tp d)), (''tp_mode'', JStr (dp_tp_mode d)),
      (''stop_price'', JFloat (dp_stop_price d)), (''initial_fee'', JFloat (dp_initial_fee d)),
      (''initial_slippage'', JFloat (dp_initial_slippage d)), (''dca_fee'', JFloat (dp_dca_fee d)),
      (''dca_slippage'', JFloat (dp_dca_slippage d)), (''dca_fill_count'', JInt (dp_fill_count d)),
      (''dca_order_active'', JBool (dp_order_active d)),
      (''created_at'', JStr (isofmt (dp_created_at d))), (''updated_at'', JStr (isofmt (dp_updated_at d)))]"

text \<open>\<^verbatim>\<open>float(data.get(k, default))\<close> and its relatives, on the value kinds the code stores.\<close>

fun jnum_or :: "rat \<Rightarrow> json option \<Rightarrow> rat" where
  "jnum_or v None = v"
| "jnum_or v (Some (JFloat q)) = q"
| "jnum_or v (Some (JInt n)) = fl (of_int n)"
| "jnum_or v (Some _) = v"

fun jint_or :: "int \<Rightarrow> json option \<Rightarrow> int" where
  "jint_or v None = v"
| "jint_or v (Some (JInt n)) = n"
| "jint_or v (Some (JFloat q)) = py_int q"
| "jint_or v (Some _) = v"

fun jbool_or :: "bool \<Rightarrow> json option \<Rightarrow> bool" where
  "jbool_or v (Some (JBool b)) = b"
| "jbool_or v _ = v"

fun jtext_or :: "string \<Rightarrow> json option \<Rightarrow> string" where
  "jtext_or v (Some (JStr s)) = s"
| "jtext_or v _ = v"

fun jtime :: "(string \<Rightarrow> int option) \<Rightarrow> json option \<Rightarrow> int option" where
  "jtime parse (Some (JStr s)) = parse s"
| "jtime parse _ = None"

text \<open>\<open>parse\<close> is \<^verbatim>\<open>datetime.fromisoformat\<close>; an unknown state value raises (\<open>None\<close>).\<close>

definition dca_from_dict :: "(string \<Rightarrow> int option) \<Rightarrow> int \<Rightarrow> (string \<times> json) list \<Rightarrow> dca_position option" where
  "dca_from_dict parse now data =
     (if data = [] then Some (default_dca now)
      else map_option (\<lambda>st.
        \<lparr>dp_position_id = None, dp_enabled = jbool_or False (dget data ''dca_enabled''), dp_state = st,
         dp_atr_at_entry = jnum_or 0 (dget data ''atr_at_entry''),
         dp_level_atr = jnum_or (3 / 4) (dget data ''dca_level_atr''),
         dp_dca_price = jnum_or 0 (dget data ''dca_price''),
         dp_initial_entry_pct = jnum_or (1 / 2) (dget data ''initial_entry_pct''),
         dp_dca_target_pct = jnum_or (1 / 2) (dget data ''dca_target_pct''),
         dp_initial_fill_price = jnum_or 0 (dget data ''initial_fill_price''),
         dp_initial_fill_qty = jnum_or 0 (dget data ''initial_fill_qty''),
         dp_dca_fill_price = jnum_or 0 (dget data ''dca_fill_price''),
         dp_dca_fill_qty = jnum_or 0 (dget data ''dca_fill_qty''),
         dp_dca_filled_at = jtime parse (dget data ''dca_filled_at''),
         dp_avg_entry_price = jnum_or 0 (dget data ''avg_entry_price''),
         dp_original_tp = jnum_or 0 (dget data ''original_tp''),
         dp_active_tp = jnum_or 0 (dget data ''active_tp''),
         dp_tp_mode = jtext_or ''scanner'' (dget data ''tp_mode''),
         dp_stop_price = jnum_or 0 (dget data ''stop_price''),
         dp_initial_fee = jnum_or 0 (dget data ''initial_fee''),
         dp_initial_slippage = jnum_or 0 (dget data ''initial_slippage''),
         dp_dca_fee = jnum_or 0 (dget data ''dca_fee''),
         dp_dca_slippage = jnum_or 0 (dget data ''dca_slippage''),
         dp_fill_count = jint_or 0 (dget data ''dca_fill_count''),
         dp_order_active = jbool_or False (dget data ''dca_order_active''),
         dp_created_at = (case jtime parse (dget data ''created_at'') of Some t \<Rightarrow> t | None \<Rightarrow> now),
         dp_updated_at = (case jtime parse (dget data ''updated_at'') of Some t \<Rightarrow> t | None \<Rightarrow> now)\<rparr>)
       (dca_state_of (jtext_or ''INITIAL_PENDING'' (dget data ''state''))))"

section \<open>Policy\<close>

definition calculate_dca_price :: "rat \<Rightarrow> rat \<Rightarrow> rat \<Rightarrow> direction \<Rightarrow> rat" where
  "calculate_dca_price entry atr level d =
     (if d = LONG then fsub entry (fmul level atr) else fadd entry (fmul level atr))"

definition calculate_stop_price :: "rat \<Rightarrow> rat \<Rightarrow> rat \<Rightarrow> direction \<Rightarrow> rat" where
  "calculate_stop_price entry atr stop_atr d =
     (if d = LONG then fsub entry (fmul stop_atr atr) else fadd entry (fmul stop_atr atr))"

definition round_down :: "rat \<Rightarrow> nat \<Rightarrow> rat" where
  "round_down v precision =
     (if precision = 0 then fl (of_int (py_int v))
      else fdiv (of_int (floor (fmul v (10 ^ precision)))) (10 ^ precision))"

definition calculate_position_split :: "rat \<Rightarrow> rat \<Rightarrow> rat \<Rightarrow> nat \<Rightarrow> rat \<times> rat" where
  "calculate_position_split target initial_pct dca_pct precision =
     (let initial_qty = round_down (fmul target initial_pct) precision;
          dca_qty = round_down (fmul target dca_pct) precision
      in (initial_qty,
          if fadd initial_qty dca_qty > target then round_down (fsub target initial_qty) precision
          else dca_qty))"

definition validate_invariants :: "rat \<Rightarrow> rat \<Rightarrow> rat \<Rightarrow> direction \<Rightarrow> rat \<Rightarrow> bool" where
  "validate_invariants entry dca stop d atr \<longleftrightarrow>
     (if atr \<le> 0 then False
      else if d = LONG then stop < dca \<and> dca < entry else entry < dca \<and> dca < stop)"

definition calculate_avg_entry :: "rat \<Rightarrow> rat \<Rightarrow> rat \<Rightarrow> rat \<Rightarrow> rat" where
  "calculate_avg_entry p q p' q' =
     (let total = fadd q q' in
      if total \<le> 0 then 0 else fdiv (fadd (fmul p q) (fmul p' q')) total)"

section \<open>Transitions\<close>

definition DCA_TRANSITIONS :: "((dca_state \<times> string) \<times> dca_state) list" where
  "DCA_TRANSITIONS =
     [((INITIAL_PENDING, ''initial_filled''), INITIAL_FILLED),
      ((INITIAL_FILLED, ''dca_filled''), DCA_FILLED),
      ((INITIAL_FILLED, ''position_closed''), CLOSED_NO_DCA),
      ((INITIAL_FILLED, ''cancelled''), CANCELLED),
      ((DCA_FILLED, ''breakeven_exit''), CLOSED_BREAKEVEN),
      ((DCA_FILLED, ''stop_exit''), CLOSED_STOP),
      ((INITIAL_FILLED, ''stop_exit''), CLOSED_STOP)]"

definition dca_terminal :: "dca_state \<Rightarrow> bool" where
  "dca_terminal st \<longleftrightarrow> st \<in> set TERMINAL_STATES"

text \<open>\<open>None\<close> is the raised DCATransitionError.\<close>

definition dca_transition :: "dca_position \<Rightarrow> string \<Rightarrow> dca_state option" where
  "dca_transition d event =
     (if dca_terminal (dp_state d) then Some (dp_state d)
      else dget DCA_TRANSITIONS (dp_state d, event))"

definition create_initial_state ::
  "int \<Rightarrow> int option \<Rightarrow> rat \<Rightarrow> rat \<Rightarrow> rat \<Rightarrow> dca_settings \<Rightarrow> direction \<Rightarrow> rat \<Rightarrow> rat \<Rightarrow> dca_position" where
  "create_initial_state now pid fill_price fill_qty atr ds d original_tp entry =
     (let dca_price = calculate_dca_price entry atr (ds_level_atr ds) d;
          stop_price = calculate_stop_price entry atr (ds_stop_loss_atr ds) d;
          base = (default_dca now)\<lparr>dp_position_id := pid, dp_atr_at_entry := atr,
            dp_level_atr := ds_level_atr ds, dp_dca_price := dca_price, dp_stop_price := stop_price,
            dp_initial_fill_price := fill_price, dp_initial_fill_qty := fill_qty,
            dp_original_tp := original_tp, dp_active_tp := original_tp\<rparr>
      in if \<not> validate_invariants entry dca_price stop_price d atr
         then base\<lparr>dp_state := CANCELLED\<rparr>
         else base\<lparr>dp_enabled := True, dp_state := INITIAL_FILLED,
            dp_initial_entry_pct := ds_initial_entry_pct ds, dp_dca_target_pct := ds_dca_entry_pct ds,
            dp_avg_entry_price := fill_price, dp_order_active := True\<rparr>)"

text \<open>The new record of \<^verbatim>\<open>fill_dca\<close> does not copy the DCA fee and slippage, which were not set
  before.\<close>

definition fill_dca :: "int \<Rightarrow> rat \<Rightarrow> rat \<Rightarrow> dca_position \<Rightarrow> dca_position" where
  "fill_dca now price qty d =
     (if dp_state d \<noteq> INITIAL_FILLED then d
      else if dp_fill_count d \<ge> 1 then d
      else let avg = calculate_avg_entry (dp_initial_fill_price d) (dp_initial_fill_qty d) price qty
        in d\<lparr>dp_state := DCA_FILLED, dp_dca_fill_price := price, dp_dca_fill_qty := qty,
             dp_dca_filled_at := Some now, dp_avg_entry_price := avg, dp_active_tp := avg,
             dp_tp_mode := ''breakeven'', dp_dca_fee := 0, dp_dca_slippage := 0, dp_fill_count := 1,
             dp_order_active := False, dp_updated_at := now\<rparr>)"

definition check_dca_level :: "dca_position \<Rightarrow> rat \<Rightarrow> direction \<Rightarrow> bool" where
  "check_dca_level d price dir \<longleftrightarrow>
     dp_state d = INITIAL_FILLED \<and> dp_order_active d \<and>
     (if dir = LONG then price \<le> dp_dca_price d else price \<ge> dp_dca_price d)"

definition get_active_tp :: "dca_position \<Rightarrow> rat option" where
  "get_active_tp d =
     (if dca_terminal (dp_state d) then None
      else if dp_tp_mode d = ''breakeven'' then Some (dp_avg_entry_price d)
      else if dp_original_tp d > 0 then Some (dp_original_tp d) else None)"

definition check_breakeven_tp :: "dca_position \<Rightarrow> rat \<Rightarrow> direction \<Rightarrow> bool" where
  "check_breakeven_tp d price dir \<longleftrightarrow>
     dp_state d = DCA_FILLED \<and> dp_tp_mode d = ''breakeven'' \<and> dp_avg_entry_price d > 0 \<and>
     (if dir = LONG then price \<ge> dp_avg_entry_price d else price \<le> dp_avg_entry_price d)"

definition closed_state_for :: "string \<Rightarrow> dca_state" where
  "closed_state_for reason =
     (if reason = ''DCA_BREAKEVEN'' then CLOSED_BREAKEVEN
      else if reason \<in> {''DCA_STOP'', ''STOP_LOSS'', ''STOP_LOSS_GAP''} then CLOSED_STOP
      else CLOSED_NO_DCA)"

definition close_position :: "int \<Rightarrow> string \<Rightarrow> dca_position \<Rightarrow> dca_position" where
  "close_position now reason d =
     (if dca_terminal (dp_state d) then d
      else d\<lparr>dp_state := closed_state_for reason, dp_order_active := False, dp_updated_at := now\<rparr>)"

section \<open>Lifecycle\<close>

text \<open>The operations on a position after its creation, as events.\<close>

datatype dca_event = DcaFill int rat rat | DcaClose int string

fun dca_step :: "dca_position \<Rightarrow> dca_event \<Rightarrow> dca_position" where
  "dca_step d (DcaFill now price qty) = fill_dca now price qty d"
| "dca_step d (DcaClose now reason) = close_position now reason d"

definition dca_plan :: "dca_position \<Rightarrow> rat \<times> rat \<times> rat \<times> rat" where
  "dca_plan d = (dp_stop_price d, dp_dca_price d, dp_initial_fill_price d, dp_initial_fill_qty d)"

definition dca_inv :: "dca_position \<Rightarrow> bool" where
  "dca_inv d \<longleftrightarrow>
     (dp_fill_count d = 0 \<or> dp_fill_count d = 1) \<and>
     (dp_state d = INITIAL_FILLED \<longrightarrow> dp_fill_count d = 0 \<and> dp_order_active d \<and> dp_tp_mode d = ''scanner'') \<and>
     (dp_state d = DCA_FILLED \<longrightarrow> dp_fill_count d = 1 \<and> \<not> dp_order_active d \<and> dp_tp_mode d = ''breakeven'' \<and>
        dp_active_tp d = dp_avg_entry_price d) \<and>
     (dca_terminal (dp_state d) \<longrightarrow> \<not> dp_order_active d) \<and>
     dp_state d \<in> {INITIAL_FILLED, DCA_FILLED, CLOSED_BREAKEVEN, CLOSED_STOP, CLOSED_NO_DCA, CANCELLED}"

lemmas terminal_defs = dca_terminal_def TERMINAL_STATES_def

lemma dca_step_inv: "dca_inv d \<Longrightarrow> dca_inv (dca_step d e)"
  by (cases e) (auto simp: dca_inv_def fill_dca_def close_position_def closed_state_for_def
      terminal_defs Let_def)

interpretation dca: event_system dca_step dca_inv
  by unfold_locales (rule dca_step_inv)

lemma dca_step_fills: "dca_inv d \<Longrightarrow> dp_fill_count d \<le> dp_fill_count (dca_step d e)"
  by (cases e) (auto simp: fill_dca_def close_position_def dca_inv_def Let_def)

interpretation dca_fills: monotone_system dca_step dca_inv dp_fill_count
  by unfold_locales (rule dca_step_fills)

lemma dca_terminal_step: "dca_terminal (dp_state d) \<Longrightarrow> dca_step d e = d"
  by (cases e) (auto simp: fill_dca_def close_position_def terminal_defs)

interpretation dca_closed: latched_system dca_step "\<lambda>d. dca_terminal (dp_state d)" "\<lambda>_. False"
  by unfold_locales (simp add: dca_terminal_step)

lemma dca_step_plan: "dca_plan (dca_step d e) = dca_plan d"
  by (cases e) (auto simp: dca_plan_def fill_dca_def close_position_def Let_def)

lemma dca_run_plan: "dca_plan (foldl dca_step d es) = dca_plan d"
  by (induction es arbitrary: d) (simp_all add: dca_step_plan)

lemma dca_terminal_run: "dca_terminal (dp_state d) \<Longrightarrow> foldl dca_step d es = d"
  by (induction es) (simp_all add: dca_terminal_step)

lemma create_initial_inv:
  "dca_inv (create_initial_state now pid fp fq atr ds dir tp entry)"
  by (simp add: create_initial_state_def Let_def dca_inv_def default_dca_def terminal_defs)

text \<open>C20. The DCA lifecycle: from the initial state of a position, through any fills and closes in
  any order, the second leg is filled at most once, the stop, the DCA level and the first leg
  never change, and the virtual order is never active next to a filled or closed state.\<close>

theorem dca_lifecycle:
  "let d0 = create_initial_state now pid fp fq atr ds dir tp entry; d = foldl dca_step d0 es
   in dp_fill_count d \<le> 1 \<and> dca_plan d = dca_plan d0 \<and>
      (dp_order_active d \<longleftrightarrow> dp_state d = INITIAL_FILLED)"
proof -
  define d0 where "d0 = create_initial_state now pid fp fq atr ds dir tp entry"
  have "dca_inv (foldl dca_step d0 es)"
    unfolding d0_def by (rule dca.run_inv [OF create_initial_inv])
  then show ?thesis
    unfolding d0_def [symmetric] Let_def dca_run_plan
    by (auto simp: dca_inv_def terminal_defs)
qed

text \<open>A closed position stays exactly as it was closed: no later fill or close event of any
  kind changes any field of it.\<close>

theorem dca_closed_absorbing:
  "foldl dca_step (close_position now reason d) es = close_position now reason d"
proof -
  have "dca_terminal (dp_state (close_position now reason d))"
    by (simp add: close_position_def closed_state_for_def terminal_defs)
  then show ?thesis by (rule dca_terminal_run)
qed

text \<open>The levels of an enabled position are ordered: the stop is beyond the DCA level, which is
  beyond the entry, on the losing side of the direction; otherwise DCA is cancelled for the
  position.\<close>

theorem dca_levels_ordered:
  "let d = create_initial_state now pid fp fq atr ds dir tp entry
   in (if dp_enabled d
       then dp_state d = INITIAL_FILLED \<and>
            (if dir = LONG then dp_stop_price d < dp_dca_price d \<and> dp_dca_price d < entry
             else entry < dp_dca_price d \<and> dp_dca_price d < dp_stop_price d)
       else dp_state d = CANCELLED)"
  by (simp add: create_initial_state_def Let_def default_dca_def validate_invariants_def)

text \<open>The direct operations agree with the transition table: filling and closing move the state
  exactly as the table says for their event, for every state a position can have.\<close>

theorem dca_operations_follow_table:
  assumes "dca_inv d"
  shows "dca_transition d ''dca_filled'' \<in> {Some (dp_state (fill_dca now p q d)), None} \<and>
         dca_transition d ''stop_exit'' = Some (dp_state (close_position now ''STOP_LOSS'' d)) \<and>
         dca_transition d ''breakeven_exit'' \<in> {Some (dp_state (close_position now ''DCA_BREAKEVEN'' d)), None}"
  using assms
  by (auto simp: dca_inv_def dca_transition_def DCA_TRANSITIONS_def fill_dca_def close_position_def
      closed_state_for_def terminal_defs Let_def)

lemma dca_state_roundtrip: "dca_state_of (dca_state_value st) = Some st"
  by (cases st) (simp_all add: dca_state_of_def ALL_DCA_STATES_def)

text \<open>Storing and loading: the state read back from the stored dictionary is the state that was
  stored, except for the position identifier, which the stored form does not carry.\<close>

theorem dca_roundtrip:
  assumes "\<And>t. parse (isofmt t) = Some t"
  shows "\<exists>data. dca_to_dict isofmt d = JObj data \<and>
           dca_from_dict parse now data = Some (d\<lparr>dp_position_id := None\<rparr>)"
  using assms dca_state_roundtrip [of "dp_state d"]
  by (simp add: dca_to_dict_def dca_from_dict_def split: option.split)

text \<open>The split of a position can exceed its target: for the target 1.7 split 60/40 the two
  rounded legs add up to more than the target even after the safety reduction.\<close>

theorem split_can_exceed_target:
  "case calculate_position_split (fl (17 / 10)) (fl (3 / 5)) (fl (2 / 5)) 8 of
     (i, q) \<Rightarrow> fadd i q > fl (17 / 10)"
  by code_simp

text \<open>A close for any other reason after the DCA fill is recorded as closed without DCA, although
  the second leg was filled; the transition table has no such transition.\<close>

theorem expiry_after_fill_marked_no_dca:
  assumes "dp_state d = DCA_FILLED"
  shows "dp_state (close_position now ''EXPIRED'' d) = CLOSED_NO_DCA \<and>
         dca_transition d ''position_closed'' = None"
  using assms by (simp add: close_position_def closed_state_for_def terminal_defs dca_transition_def
      DCA_TRANSITIONS_def)

section \<open>Concrete positions\<close>

definition demo_dca_settings :: dca_settings where
  "demo_dca_settings = \<lparr>ds_enabled = True, ds_level_atr = 3 / 4, ds_initial_entry_pct = 1 / 2,
     ds_dca_entry_pct = 1 / 2, ds_stop_loss_atr = 3 / 2\<rparr>"

definition demo_dca :: dca_position where
  "demo_dca = create_initial_state 0 (Some 1) 100 1 10 demo_dca_settings LONG 120 100"

definition unary_iso :: "int \<Rightarrow> string" where
  "unary_iso t = (if t < 0 then CHR ''-'' # replicate (nat (- t)) CHR ''1'' else replicate (nat t) CHR ''1'')"

definition unary_parse :: "string \<Rightarrow> int option" where
  "unary_parse s = (case s of c # r \<Rightarrow> if c = CHR ''-'' then Some (- int (length r)) else Some (int (length s))
     | [] \<Rightarrow> Some 0)"

lemma unary_parse_iso: "unary_parse (unary_iso t) = Some t"
proof (cases "0 < t")
  case True
  then obtain n where "nat t = Suc n" by (cases "nat t") auto
  then show ?thesis using True by (simp add: unary_parse_def unary_iso_def)
qed (auto simp: unary_parse_def unary_iso_def)

theorem dca_operations_follow_table_witness:
  "dca_transition demo_dca ''stop_exit'' = Some (dp_state (close_position 5 ''STOP_LOSS'' demo_dca))"
proof -
  have "dca_inv demo_dca" unfolding demo_dca_def by (rule create_initial_inv)
  from dca_operations_follow_table [OF this] show ?thesis by blast
qed

theorem dca_roundtrip_witness:
  "\<exists>data. dca_to_dict unary_iso demo_dca = JObj data \<and>
     dca_from_dict unary_parse 9 data = Some (demo_dca\<lparr>dp_position_id := None\<rparr>)"
  by (rule dca_roundtrip) (rule unary_parse_iso)

theorem expiry_after_fill_marked_no_dca_witness:
  "dp_state (close_position 9 ''EXPIRED'' (fill_dca 5 (185 / 2) 1 demo_dca)) = CLOSED_NO_DCA \<and>
   dp_fill_count (fill_dca 5 (185 / 2) 1 demo_dca) = 1"
proof -
  have s: "dp_state (fill_dca 5 (185 / 2) 1 demo_dca) = DCA_FILLED" by code_simp
  have c: "dp_fill_count (fill_dca 5 (185 / 2) 1 demo_dca) = 1" by code_simp
  from expiry_after_fill_marked_no_dca [OF s] c show ?thesis by blast
qed

end
