(* ===== verification/PaperTrade.thy ===== *)
theory PaperTrade
  imports Dca
begin

text \<open>
  The paper trading engine's data and the handling of one open trade
  (\<^verbatim>\<open>src/app/paper/engine.py\<close>, \<^verbatim>\<open>src/app/paper/exit_reasons.py\<close>): account state, funding, the
  close with its accounting, stop-gap events and the safety gate, and the ordered exit checks of
  \<^verbatim>\<open>check_exits\<close> for one trade. Prices and quantities are doubles (rationals rounded by
  \<open>fl\<close>), times are integer microseconds, and the clock reading of an operation is its
  \<open>now\<close> argument.
\<close>

section \<open>Exit reasons\<close>

definition PAPER_TRADE_EXIT_REASONS :: "string list" where
  "PAPER_TRADE_EXIT_REASONS =
     [''TAKE_PROFIT_1'', ''TAKE_PROFIT_2'', ''TAKE_PROFIT_SLIPPAGE'', ''STOP_LOSS'', ''STOP_LOSS_GAP'',
      ''TRAILING_STOP'', ''EXPIRED'', ''EXPIRED_PROFITABLE'', ''TIMEOUT'', ''MANUAL'', ''RISK_LIMIT'',
      ''DCA_BREAKEVEN'', ''DCA_STOP'', ''FIXED_HORIZON'']"

definition PAPER_ENGINE_EXIT_REASONS :: "string list" where
  "PAPER_ENGINE_EXIT_REASONS =
     [''TAKE_PROFIT_1'', ''TAKE_PROFIT_2'', ''STOP_LOSS'', ''STOP_LOSS_GAP'', ''TRAILING_STOP'',
      ''EXPIRED'', ''EXPIRED_PROFITABLE'', ''DCA_BREAKEVEN'', ''DCA_STOP'', ''FIXED_HORIZON'']"

section \<open>Settings and state\<close>

record exec_policy =
  ep_policy :: string
  ep_enabled :: bool
  ep_hold_minutes :: int
  ep_trailing_enabled :: bool
  ep_tp_enabled :: bool

datatype gate_mode = GateEnforce | GateObserve | GateOff

record paper_settings =
  ps_initial_balance :: rat
  ps_max_open_positions :: int
  ps_max_daily_loss :: rat
  ps_max_consecutive_losses :: int
  ps_paper_mode :: bool
  ps_cooldown_minutes :: int
  ps_regime_filter :: bool
  ps_regime_whitelist :: "((string \<times> direction) \<times> string list) list"
  ps_risk_per_trade :: rat
  ps_slippage :: rat
  ps_taker_fee :: rat
  ps_max_symbol_exposure :: rat
  ps_max_gross_exposure :: rat
  ps_max_net_exposure :: rat
  ps_min_effective_risk :: rat
  ps_policies :: "((string \<times> direction) \<times> exec_policy) list"
  ps_dca :: dca_settings
  ps_atr_stop_multiple :: rat
  ps_ttl_multiplier :: rat
  ps_funding_interval_hours :: int
  ps_severe_gap_r :: rat
  ps_severe_extra_r :: rat
  ps_gate_mode :: gate_mode

text \<open>\<^verbatim>\<open>lowest_since_entry\<close> is \<^verbatim>\<open>math.inf\<close> in a trade loaded from the database: \<open>None\<close>.\<close>

record paper_trade =
  pt_trade_id :: "int option"
  pt_setup_id :: string
  pt_symbol :: string
  pt_scanner :: string
  pt_direction :: direction
  pt_entry_price :: rat
  pt_entry_fee :: rat
  pt_stop_price :: rat
  pt_target_1 :: "rat option"
  pt_target_2 :: "rat option"
  pt_size :: rat
  pt_risk_usdt :: rat
  pt_entered_at :: int
  pt_entry_market :: rat
  pt_entry_slippage :: rat
  pt_mfe :: rat
  pt_mae :: rat
  pt_timeframe :: string
  pt_highest :: rat
  pt_lowest :: "rat option"
  pt_funding_paid :: rat
  pt_funding_periods :: int
  pt_dca_enabled :: bool
  pt_dca :: "dca_position option"
  pt_policy :: string
  pt_planned_exit :: "int option"

text \<open>One call of \<^verbatim>\<open>repo.close_paper_trade\<close> with the result of the close. \<open>pe_rows\<close> holds these
  calls, the ones that raised included.\<close>

record closed_row =
  cl_trade :: paper_trade
  cl_reason :: string
  cl_exit_price :: rat
  cl_gross :: rat
  cl_net :: rat

record gap_event =
  gv_symbol :: string
  gv_expected_exit :: rat
  gv_observed :: rat
  gv_severe :: bool
  gv_blocked :: bool
  gv_time :: int

record paper_engine =
  pe_balance :: rat
  pe_open :: "(string \<times> paper_trade) list"
  pe_peak_balance :: rat
  pe_peak_equity :: rat
  pe_max_drawdown :: rat
  pe_marks :: "(string \<times> rat) list"
  pe_daily_loss :: rat
  pe_losses :: int
  pe_cooldown :: "int option"
  pe_halt :: bool
  pe_risk_day :: int
  pe_gaps :: "gap_event list"
  pe_last_gap :: "gap_event option"
  pe_gate_since :: "int option"
  pe_gate_reason :: "string option"
  pe_rows :: "closed_row list"

text \<open>The two writes of an exit pass that re-raise a failure of the database, each as whether the call came
  back: the funding of a trade (identity, paid amount, periods) and the row of a close. The saves of the DCA
  state, of the gap event and of the gate swallow their exceptions and are left out.\<close>

record exit_writes =
  ew_funding :: "int option \<Rightarrow> rat \<Rightarrow> int \<Rightarrow> bool"
  ew_close :: "closed_row \<Rightarrow> bool"

definition writes_succeed :: exit_writes where
  "writes_succeed = \<lparr>ew_funding = (\<lambda>_ _ _. True), ew_close = (\<lambda>_. True)\<rparr>"

text \<open>How the handling of a trade ends: it is still held, it was closed, or an exception left it, either from the
  funding write or from the write of a close whose result is already booked.\<close>

datatype exit_result = Held | Shut closed_row | Aborted "closed_row option"

type_synonym exit_state = "paper_engine \<times> paper_trade \<times> exit_result"

text \<open>The close that was booked, whether or not its row was written.\<close>

fun attempted :: "exit_result \<Rightarrow> closed_row option" where
  "attempted Held = None"
| "attempted (Shut row) = Some row"
| "attempted (Aborted row) = row"

section \<open>Small helpers\<close>

definition total_seconds :: "int \<Rightarrow> rat" where
  "total_seconds us = fdiv (of_int us) 1000000"

definition market_entry :: "paper_trade \<Rightarrow> rat" where
  "market_entry t = (if pt_entry_market t \<noteq> 0 then pt_entry_market t else pt_entry_price t)"

definition is_dca_active :: "paper_trade \<Rightarrow> bool" where
  "is_dca_active t \<longleftrightarrow> pt_dca_enabled t \<and>
     (case pt_dca t of Some d \<Rightarrow> \<not> dca_terminal (dp_state d) | None \<Rightarrow> False)"

definition effective_stop_price :: "paper_trade \<Rightarrow> rat" where
  "effective_stop_price t =
     (if pt_dca_enabled t then (case pt_dca t of Some d \<Rightarrow> dp_stop_price d | None \<Rightarrow> pt_stop_price t)
      else pt_stop_price t)"

definition effective_tp :: "paper_trade \<Rightarrow> rat option" where
  "effective_tp t =
     (if pt_dca_enabled t then (case pt_dca t of Some d \<Rightarrow> get_active_tp d | None \<Rightarrow> pt_target_1 t)
      else pt_target_1 t)"

definition dca_filled :: "paper_trade \<Rightarrow> bool" where
  "dca_filled t \<longleftrightarrow> pt_dca_enabled t \<and>
     (case pt_dca t of Some d \<Rightarrow> dp_state d = DCA_FILLED | None \<Rightarrow> False)"

definition signed_move :: "direction \<Rightarrow> rat \<Rightarrow> rat \<Rightarrow> rat" where
  "signed_move d entry price = (if d = LONG then fsub price entry else fsub entry price)"

text \<open>\<^verbatim>\<open>price * (1 - slip if LONG else 1 + slip)\<close>: the side that costs when leaving a position.\<close>

definition adverse_exit :: "paper_settings \<Rightarrow> direction \<Rightarrow> rat \<Rightarrow> rat" where
  "adverse_exit ps d price =
     fmul price (if d = LONG then fsub 1 (ps_slippage ps) else fadd 1 (ps_slippage ps))"

text \<open>\<^verbatim>\<open>price * (1 + slip if LONG else 1 - slip)\<close>: the side that costs when entering.\<close>

definition adverse_entry :: "paper_settings \<Rightarrow> direction \<Rightarrow> rat \<Rightarrow> rat" where
  "adverse_entry ps d price =
     fmul price (if d = LONG then fadd 1 (ps_slippage ps) else fsub 1 (ps_slippage ps))"

definition floor_second :: "int \<Rightarrow> int" where
  "floor_second now = now div 1000000 * 1000000"

definition cooldown_from :: "paper_settings \<Rightarrow> int \<Rightarrow> int" where
  "cooldown_from ps now = floor_second now + ps_cooldown_minutes ps * 60000000"

section \<open>Funding\<close>

definition funding_due :: "paper_settings \<Rightarrow> int \<Rightarrow> paper_trade \<Rightarrow> int" where
  "funding_due ps now t =
     max 0 (floor (total_seconds (now - pt_entered_at t) / of_int (ps_funding_interval_hours ps * 3600)))"

definition funding_cost :: "rat \<Rightarrow> int \<Rightarrow> paper_trade \<Rightarrow> rat" where
  "funding_cost rate periods t =
     (let cost = fmul (fmul (fmul (pt_entry_price t) (pt_size t)) (fdiv rate 100)) (of_int periods)
      in if pt_direction t = SHORT then - cost else cost)"

definition apply_funding ::
  "paper_settings \<Rightarrow> exit_writes \<Rightarrow> int \<Rightarrow> rat \<Rightarrow> paper_engine \<Rightarrow> paper_trade \<Rightarrow> exit_state" where
  "apply_funding ps w now rate pe t =
     (let due = funding_due ps now t; periods = due - pt_funding_periods t
      in if periods \<le> 0 then (pe, t, Held)
         else let cost = funding_cost rate periods t;
                  t1 = t\<lparr>pt_funding_paid := fadd (pt_funding_paid t) cost, pt_funding_periods := due\<rparr>
           in (pe\<lparr>pe_balance := fsub (pe_balance pe) cost\<rparr>, t1,
               if ew_funding w (pt_trade_id t1) (py_round (pt_funding_paid t1) 6) (pt_funding_periods t1)
               then Held else Aborted None))"

section \<open>Closing a trade\<close>

definition close_gross :: "rat \<Rightarrow> paper_trade \<Rightarrow> rat" where
  "close_gross exit_price t =
     fmul (signed_move (pt_direction t) (market_entry t) exit_price) (pt_size t)"

definition close_exit_fee :: "paper_settings \<Rightarrow> rat \<Rightarrow> paper_trade \<Rightarrow> rat" where
  "close_exit_fee ps exit_price t =
     fmul (fmul (adverse_exit ps (pt_direction t) exit_price) (pt_size t)) (ps_taker_fee ps)"

definition close_exit_slippage :: "paper_settings \<Rightarrow> rat \<Rightarrow> paper_trade \<Rightarrow> rat" where
  "close_exit_slippage ps exit_price t =
     fmul \<bar>fsub (adverse_exit ps (pt_direction t) exit_price) exit_price\<bar> (pt_size t)"

definition close_net :: "paper_settings \<Rightarrow> rat \<Rightarrow> paper_trade \<Rightarrow> rat" where
  "close_net ps exit_price t =
     fsub (fsub (fsub (fsub (close_gross exit_price t) (pt_entry_fee t)) (close_exit_fee ps exit_price t))
             (pt_funding_paid t))
          (fadd (pt_entry_slippage t) (close_exit_slippage ps exit_price t))"

text \<open>The loss streak and the cooldown of a closed result.\<close>

definition book_result :: "paper_settings \<Rightarrow> int \<Rightarrow> rat \<Rightarrow> paper_engine \<Rightarrow> paper_engine" where
  "book_result ps now net pe =
     (if net < 0
      then pe\<lparr>pe_daily_loss := fadd (pe_daily_loss pe) (- net), pe_losses := pe_losses pe + 1,
              pe_cooldown := (if pe_losses pe + 1 \<ge> ps_max_consecutive_losses ps \<and> ps_paper_mode ps \<and>
                                 ps_cooldown_minutes ps > 0 \<and> pe_cooldown pe = None
                              then Some (cooldown_from ps now) else pe_cooldown pe)\<rparr>
      else pe\<lparr>pe_losses := 0\<rparr>)"

definition drawdown_of :: "rat \<Rightarrow> rat \<Rightarrow> rat" where
  "drawdown_of peak x = (if peak > 0 then fdiv (fsub peak x) peak else 0)"

definition book_peak :: "paper_engine \<Rightarrow> paper_engine" where
  "book_peak pe =
     (let peak = (if pe_balance pe > pe_peak_balance pe then pe_balance pe else pe_peak_balance pe)
      in pe\<lparr>pe_peak_balance := peak,
            pe_max_drawdown := max (pe_max_drawdown pe) (drawdown_of peak (pe_balance pe))\<rparr>)"

definition closed_record :: "paper_settings \<Rightarrow> rat \<Rightarrow> string \<Rightarrow> paper_trade \<Rightarrow> closed_row" where
  "closed_record ps exit_price reason t =
     \<lparr>cl_trade = t\<lparr>pt_entry_market := market_entry t, pt_dca_enabled := False, pt_dca := None,
                  pt_policy := ''DEFAULT'', pt_planned_exit := None\<rparr>,
      cl_reason = reason, cl_exit_price = py_round (adverse_exit ps (pt_direction t) exit_price) 6,
      cl_gross = close_gross exit_price t, cl_net = close_net ps exit_price t\<rparr>"

definition close_dca :: "int \<Rightarrow> string \<Rightarrow> paper_trade \<Rightarrow> paper_trade" where
  "close_dca now reason t =
     (if pt_dca_enabled t then t\<lparr>pt_dca := map_option (close_position now reason) (pt_dca t)\<rparr> else t)"

text \<open>The account is booked before the row is written. When the write raises, the close never returns: the trade
  stays as it was.\<close>

definition close_trade ::
  "paper_settings \<Rightarrow> exit_writes \<Rightarrow> int \<Rightarrow> rat \<Rightarrow> string \<Rightarrow> paper_engine \<Rightarrow> paper_trade \<Rightarrow> exit_state" where
  "close_trade ps w now exit_price reason pe t =
     (let row = closed_record ps exit_price reason t;
          bal = fadd (pe_balance pe) (fsub (fsub (close_gross exit_price t) (close_exit_fee ps exit_price t))
                                         (close_exit_slippage ps exit_price t));
          pe1 = book_peak (book_result ps now (close_net ps exit_price t) (pe\<lparr>pe_balance := bal\<rparr>));
          pe2 = pe1\<lparr>pe_rows := pe_rows pe1 @ [row]\<rparr>
      in if ew_close w row then (pe2, close_dca now reason t, Shut row) else (pe2, t, Aborted (Some row)))"

section \<open>Stop gaps and the safety gate\<close>

definition expected_stop_net :: "paper_settings \<Rightarrow> paper_trade \<Rightarrow> rat" where
  "expected_stop_net ps t =
     (let adj = adverse_exit ps (pt_direction t) (pt_stop_price t);
          gross = fmul (signed_move (pt_direction t) (market_entry t) (pt_stop_price t)) (pt_size t);
          fee = fmul (fmul adj (pt_size t)) (ps_taker_fee ps);
          slip = fmul \<bar>fsub adj (pt_stop_price t)\<bar> (pt_size t)
      in fsub (fsub (fsub (fsub (fsub gross (pt_entry_fee t)) fee) (pt_funding_paid t))
                (pt_entry_slippage t)) slip)"

definition gap_severe :: "paper_settings \<Rightarrow> paper_trade \<Rightarrow> rat \<Rightarrow> rat \<Rightarrow> bool" where
  "gap_severe ps t observed actual_net =
     (if pt_risk_usdt t \<le> 0 then False
      else
        let gap_r = fdiv (fmul \<bar>fsub observed (pt_stop_price t)\<bar> (pt_size t)) (pt_risk_usdt t);
            expected_r = fdiv (expected_stop_net ps t) (pt_risk_usdt t);
            actual_r = fdiv actual_net (pt_risk_usdt t)
        in gap_r > ps_severe_gap_r ps \<or> actual_r < fsub expected_r (ps_severe_extra_r ps))"

definition cleanup_gaps :: "int \<Rightarrow> paper_engine \<Rightarrow> paper_engine" where
  "cleanup_gaps now pe = pe\<lparr>pe_gaps := filter (\<lambda>g. gv_time g > now - 86400 * 1000000) (pe_gaps pe)\<rparr>"

definition activate_safety_gate :: "int \<Rightarrow> string \<Rightarrow> paper_engine \<Rightarrow> paper_engine" where
  "activate_safety_gate now reason pe =
     pe\<lparr>pe_gate_since := (if pe_halt pe then pe_gate_since pe else Some now),
        pe_halt := True, pe_gate_reason := Some reason\<rparr>"

definition record_stop_gap_event ::
  "paper_settings \<Rightarrow> int \<Rightarrow> paper_trade \<Rightarrow> rat \<Rightarrow> rat \<Rightarrow> bool \<Rightarrow> paper_engine \<Rightarrow> paper_engine" where
  "record_stop_gap_event ps now t expected observed severe pe =
     (let blocked = (severe \<and> ps_gate_mode ps = GateEnforce);
          ev = \<lparr>gv_symbol = pt_symbol t, gv_expected_exit = expected, gv_observed = observed,
                gv_severe = severe, gv_blocked = blocked, gv_time = now\<rparr>;
          pe1 = cleanup_gaps now (pe\<lparr>pe_gaps := pe_gaps pe @ [ev], pe_last_gap := Some ev\<rparr>)
      in if blocked then activate_safety_gate now ''STOP_LOSS_GAP'' pe1 else pe1)"

section \<open>The exit checks of one trade\<close>

definition lower_mark :: "rat option \<Rightarrow> rat \<Rightarrow> rat" where
  "lower_mark lo price = (case lo of None \<Rightarrow> price | Some l \<Rightarrow> min l price)"

definition update_watermarks :: "rat \<Rightarrow> paper_trade \<Rightarrow> paper_trade" where
  "update_watermarks price t =
     (let hi = max (pt_highest t) price; lo = lower_mark (pt_lowest t) price;
          up = fsub hi (pt_entry_price t); down = fsub (pt_entry_price t) lo
      in t\<lparr>pt_highest := hi, pt_lowest := Some lo,
           pt_mfe := max (pt_mfe t) (if pt_direction t = LONG then up else down),
           pt_mae := max (pt_mae t) (if pt_direction t = LONG then down else up)\<rparr>)"

definition fixed_horizon :: "paper_settings \<Rightarrow> paper_trade \<Rightarrow> bool" where
  "fixed_horizon ps t \<longleftrightarrow> pt_policy t \<noteq> ''DEFAULT'' \<and> ps_policies ps \<noteq> []"

definition fixed_tp_sl :: "paper_trade \<Rightarrow> bool" where
  "fixed_tp_sl t \<longleftrightarrow> pt_policy t = ''FIXED_TP_SL_HORIZON_V1''"

definition policy_config :: "paper_settings \<Rightarrow> paper_trade \<Rightarrow> exec_policy option" where
  "policy_config ps t =
     (if fixed_horizon ps t then dget (ps_policies ps) (pt_scanner t, pt_direction t) else None)"

definition policy_allows :: "(exec_policy \<Rightarrow> bool) \<Rightarrow> paper_settings \<Rightarrow> paper_trade \<Rightarrow> bool" where
  "policy_allows flag ps t \<longleftrightarrow>
     fixed_tp_sl t \<and> (case policy_config ps t of Some p \<Rightarrow> flag p | None \<Rightarrow> False)"

definition active_stop :: "paper_settings \<Rightarrow> paper_trade \<Rightarrow> rat" where
  "active_stop ps t = (if fixed_horizon ps t then pt_stop_price t else effective_stop_price t)"

text \<open>\<^verbatim>\<open>price <= level\<close> for a long and \<^verbatim>\<open>price >= level\<close> for a short: the losing side.\<close>

definition reached_down :: "direction \<Rightarrow> rat \<Rightarrow> rat \<Rightarrow> bool" where
  "reached_down d price level = (if d = LONG then price \<le> level else price \<ge> level)"

definition reached_up :: "direction \<Rightarrow> rat \<Rightarrow> rat \<Rightarrow> bool" where
  "reached_up d price level = (if d = LONG then price \<ge> level else price \<le> level)"

definition stop_reason :: "paper_trade \<Rightarrow> bool \<Rightarrow> string" where
  "stop_reason t gap =
     (if dca_filled t then ''DCA_STOP'' else if gap then ''STOP_LOSS_GAP'' else ''STOP_LOSS'')"

definition stop_phase ::
  "paper_settings \<Rightarrow> exit_writes \<Rightarrow> int \<Rightarrow> rat \<Rightarrow> paper_engine \<Rightarrow> paper_trade \<Rightarrow> exit_state" where
  "stop_phase ps w now price pe t =
     (let stop = active_stop ps t in
      if reached_down (pt_direction t) price stop
      then
        let gap = (price \<noteq> stop); reason = stop_reason t gap in
        case close_trade ps w now (adverse_exit ps (pt_direction t) stop) reason pe t of
          (pe1, t1, Shut row) \<Rightarrow>
            (if gap \<and> reason \<noteq> ''DCA_STOP''
             then record_stop_gap_event ps now t stop price (gap_severe ps t price (cl_net row)) pe1
             else pe1, t1, Shut row)
        | r \<Rightarrow> r
      else (pe, t, Held))"

text \<open>The later checks run only while nothing has closed the trade.\<close>

definition unless_closed ::
  "(paper_engine \<Rightarrow> paper_trade \<Rightarrow> exit_state) \<Rightarrow> exit_state \<Rightarrow> exit_state" where
  "unless_closed f s = (case s of (pe, t, Held) \<Rightarrow> f pe t | _ \<Rightarrow> s)"

definition horizon_phase ::
  "paper_settings \<Rightarrow> exit_writes \<Rightarrow> int \<Rightarrow> rat \<Rightarrow> paper_engine \<Rightarrow> paper_trade \<Rightarrow> exit_state" where
  "horizon_phase ps w now price pe t =
     (if fixed_horizon ps t \<and> (case pt_planned_exit t of Some due \<Rightarrow> now \<ge> due | None \<Rightarrow> False)
      then close_trade ps w now (adverse_entry ps (pt_direction t) price) ''FIXED_HORIZON'' pe t
      else (pe, t, Held))"

definition dca_fill_qty :: "dca_position \<Rightarrow> rat \<Rightarrow> rat" where
  "dca_fill_qty d held =
     (let q = fmul (fdiv (dp_dca_target_pct d) (dp_initial_entry_pct d)) (dp_initial_fill_qty d)
      in max 0 (min q (fsub (fadd (dp_initial_fill_qty d) q) held)))"

definition fill_second_leg ::
  "paper_settings \<Rightarrow> int \<Rightarrow> rat \<Rightarrow> rat \<Rightarrow> dca_position \<Rightarrow> paper_engine \<Rightarrow> paper_trade \<Rightarrow> paper_engine \<times> paper_trade" where
  "fill_second_leg ps now price qty d pe t =
     (let fill_price = adverse_entry ps (pt_direction t) price;
          d' = fill_dca now fill_price qty d;
          held = fadd (dp_initial_fill_qty d') (dp_dca_fill_qty d');
          cost = fadd (fmul (fmul fill_price qty) (ps_taker_fee ps)) (fmul \<bar>fsub fill_price price\<bar> qty)
      in (pe\<lparr>pe_balance := fsub (pe_balance pe) cost\<rparr>,
          t\<lparr>pt_dca := Some d', pt_size := held,
            pt_risk_usdt := fmul \<bar>fsub (pt_entry_price t) (pt_stop_price t)\<bar> held,
            pt_target_1 := None\<rparr>))"

definition dca_phase ::
  "paper_settings \<Rightarrow> exit_writes \<Rightarrow> int \<Rightarrow> rat \<Rightarrow> paper_engine \<Rightarrow> paper_trade \<Rightarrow> exit_state" where
  "dca_phase ps w now price pe t =
     (case pt_dca t of
        None \<Rightarrow> (pe, t, Held)
      | Some d \<Rightarrow>
          if is_dca_active t \<and> \<not> fixed_horizon ps t \<and> check_dca_level d price (pt_direction t) \<and>
             dca_fill_qty d (pt_size t) > 0
          then (case fill_second_leg ps now price (dca_fill_qty d (pt_size t)) d pe t of
                  (pe', t') \<Rightarrow> (pe', t', Held))
          else (pe, t, Held))"

definition breakeven_phase ::
  "paper_settings \<Rightarrow> exit_writes \<Rightarrow> int \<Rightarrow> rat \<Rightarrow> paper_engine \<Rightarrow> paper_trade \<Rightarrow> exit_state" where
  "breakeven_phase ps w now price pe t =
     (case pt_dca t of
        None \<Rightarrow> (pe, t, Held)
      | Some d \<Rightarrow>
          if pt_dca_enabled t \<and> \<not> fixed_horizon ps t \<and> check_breakeven_tp d price (pt_direction t)
          then close_trade ps w now (dp_avg_entry_price d) ''DCA_BREAKEVEN'' pe t
          else (pe, t, Held))"

definition tp1_phase ::
  "paper_settings \<Rightarrow> exit_writes \<Rightarrow> int \<Rightarrow> rat \<Rightarrow> paper_engine \<Rightarrow> paper_trade \<Rightarrow> exit_state" where
  "tp1_phase ps w now price pe t =
     (case pt_target_1 t of
        None \<Rightarrow> (pe, t, Held)
      | Some tp \<Rightarrow>
          if (policy_allows ep_tp_enabled ps t \<or> \<not> fixed_horizon ps t) \<and> reached_up (pt_direction t) price tp
          then close_trade ps w now tp ''TAKE_PROFIT_1'' pe t
          else (pe, t, Held))"

definition tp2_phase ::
  "paper_settings \<Rightarrow> exit_writes \<Rightarrow> int \<Rightarrow> rat \<Rightarrow> paper_engine \<Rightarrow> paper_trade \<Rightarrow> exit_state" where
  "tp2_phase ps w now price pe t =
     (case pt_target_2 t of
        None \<Rightarrow> (pe, t, Held)
      | Some tp \<Rightarrow>
          if \<not> fixed_horizon ps t \<and> reached_up (pt_direction t) price tp
          then close_trade ps w now tp ''TAKE_PROFIT_2'' pe t
          else (pe, t, Held))"

text \<open>A stop only ever moves towards the price: up for a long, down for a short.\<close>

definition tighten :: "direction \<Rightarrow> rat \<Rightarrow> rat \<Rightarrow> rat" where
  "tighten d old new = (if d = LONG then max old new else min old new)"

definition trailed_stop :: "paper_settings \<Rightarrow> rat \<Rightarrow> paper_trade \<Rightarrow> rat" where
  "trailed_stop ps price t =
     (let d = pt_direction t; entry = pt_entry_price t;
          risk = \<bar>fsub entry (pt_stop_price t)\<bar>;
          favorable = signed_move d entry price;
          away = (\<lambda>base x. if d = LONG then fadd base x else fsub base x);
          back = (\<lambda>base x. if d = LONG then fsub base x else fadd base x);
          stop1 = (if favorable \<ge> risk then tighten d (pt_stop_price t) (away entry (fmul (1 / 2) risk))
                   else pt_stop_price t);
          atr = (if ps_atr_stop_multiple ps > 0 then fdiv risk (ps_atr_stop_multiple ps) else risk)
      in if favorable \<ge> fmul (3 / 2) risk
         then tighten d stop1 (back price (fmul (ps_atr_stop_multiple ps) atr)) else stop1)"

definition check_trailing_stop ::
  "paper_settings \<Rightarrow> exit_writes \<Rightarrow> int \<Rightarrow> rat \<Rightarrow> paper_engine \<Rightarrow> paper_trade \<Rightarrow> exit_state" where
  "check_trailing_stop ps w now price pe t =
     (if \<bar>fsub (pt_entry_price t) (pt_stop_price t)\<bar> \<le> 0 then (pe, t, Held)
      else let stop = trailed_stop ps price t; t1 = t\<lparr>pt_stop_price := stop\<rparr>
        in if reached_down (pt_direction t) price stop
           then close_trade ps w now stop ''TRAILING_STOP'' pe t1
           else (pe, t1, Held))"

definition trailing_phase ::
  "paper_settings \<Rightarrow> exit_writes \<Rightarrow> int \<Rightarrow> rat \<Rightarrow> paper_engine \<Rightarrow> paper_trade \<Rightarrow> exit_state" where
  "trailing_phase ps w now price pe t =
     (if (policy_allows ep_trailing_enabled ps t \<or> \<not> fixed_horizon ps t) \<and> \<not> dca_filled t
      then check_trailing_stop ps w now price pe t else (pe, t, Held))"

fun timeframe_minutes :: "string \<Rightarrow> int" where
  "timeframe_minutes tf =
     (if tf = ''5m'' then 5 else if tf = ''15m'' then 15 else if tf = ''1h'' then 60
      else if tf = ''4h'' then 240 else 5)"

fun entry_timeout_base :: "string \<Rightarrow> int" where
  "entry_timeout_base tf =
     (if tf = ''5m'' then 12 else if tf = ''15m'' then 16 else if tf = ''1h'' then 6
      else if tf = ''4h'' then 4 else 12)"

definition is_expired :: "paper_settings \<Rightarrow> int \<Rightarrow> paper_trade \<Rightarrow> bool" where
  "is_expired ps now t \<longleftrightarrow>
     fdiv (total_seconds (now - pt_entered_at t)) 60 >
     fmul (fmul (of_int (entry_timeout_base (pt_timeframe t))) (ps_ttl_multiplier ps))
       (of_int (timeframe_minutes (pt_timeframe t)))"

definition unrealized_gross :: "paper_trade \<Rightarrow> rat \<Rightarrow> rat" where
  "unrealized_gross t price = fmul (signed_move (pt_direction t) (pt_entry_price t) price) (pt_size t)"

definition expiry_phase ::
  "paper_settings \<Rightarrow> exit_writes \<Rightarrow> int \<Rightarrow> rat \<Rightarrow> paper_engine \<Rightarrow> paper_trade \<Rightarrow> exit_state" where
  "expiry_phase ps w now price pe t =
     (if \<not> fixed_horizon ps t \<and> is_expired ps now t
      then close_trade ps w now price
             (if unrealized_gross t price > 0 then ''EXPIRED_PROFITABLE'' else ''EXPIRED'') pe t
      else (pe, t, Held))"

definition exit_checks ::
  "paper_settings \<Rightarrow> exit_writes \<Rightarrow> int \<Rightarrow> rat \<Rightarrow> paper_engine \<Rightarrow> paper_trade \<Rightarrow> exit_state" where
  "exit_checks ps w now price pe t =
     unless_closed (expiry_phase ps w now price)
    (unless_closed (trailing_phase ps w now price)
    (unless_closed (tp2_phase ps w now price)
    (unless_closed (tp1_phase ps w now price)
    (unless_closed (breakeven_phase ps w now price)
    (unless_closed (dca_phase ps w now price)
    (unless_closed (horizon_phase ps w now price)
      (stop_phase ps w now price pe t)))))))"

definition process_trade ::
  "paper_settings \<Rightarrow> exit_writes \<Rightarrow> int \<Rightarrow> rat \<Rightarrow> rat \<Rightarrow> paper_engine \<Rightarrow> paper_trade \<Rightarrow> exit_state" where
  "process_trade ps w now price rate pe t =
     unless_closed (\<lambda>pe t. exit_checks ps w now price pe (update_watermarks price t)) (apply_funding ps w now rate pe t)"

section \<open>What one close does\<close>

lemma close_trade_result:
  "snd (close_trade ps w now x reason pe t) =
     (let row = closed_record ps x reason t
      in if ew_close w row then (close_dca now reason t, Shut row) else (t, Aborted (Some row)))"
  by (simp add: close_trade_def Let_def)

lemma exec_result [simp]:
  "attempted (snd (snd (close_trade ps w now x reason pe t))) = Some (closed_record ps x reason t)"
  "snd (snd (close_trade ps w now x reason pe t)) \<noteq> Held"
  by (simp_all add: close_trade_result Let_def)

lemma closed_record_reason [simp]: "cl_reason (closed_record ps x reason t) = reason"
  by (simp add: closed_record_def)

lemma close_dca_keeps [simp]:
  "pt_size (close_dca now reason t) = pt_size t"
  "pt_stop_price (close_dca now reason t) = pt_stop_price t"
  "pt_direction (close_dca now reason t) = pt_direction t"
  "pt_funding_periods (close_dca now reason t) = pt_funding_periods t"
  "pt_policy (close_dca now reason t) = pt_policy t"
  by (simp_all add: close_dca_def)

lemma update_watermarks_keeps [simp]:
  "pt_size (update_watermarks price t) = pt_size t"
  "pt_stop_price (update_watermarks price t) = pt_stop_price t"
  "pt_direction (update_watermarks price t) = pt_direction t"
  "pt_dca (update_watermarks price t) = pt_dca t"
  "pt_dca_enabled (update_watermarks price t) = pt_dca_enabled t"
  "pt_policy (update_watermarks price t) = pt_policy t"
  by (simp_all add: update_watermarks_def Let_def)

lemma active_stop_cong:
  "pt_stop_price t = pt_stop_price u \<Longrightarrow> pt_policy t = pt_policy u \<Longrightarrow> pt_dca t = pt_dca u \<Longrightarrow>
   pt_dca_enabled t = pt_dca_enabled u \<Longrightarrow> active_stop ps t = active_stop ps u"
  by (simp add: active_stop_def fixed_horizon_def effective_stop_price_def split: option.split)

text \<open>The trade after its funding, and as the exit checks see it, after the watermarks.\<close>

definition funded_trade :: "paper_settings \<Rightarrow> int \<Rightarrow> rat \<Rightarrow> paper_trade \<Rightarrow> paper_trade" where
  "funded_trade ps now rate t =
     (let due = funding_due ps now t; periods = due - pt_funding_periods t
      in if periods \<le> 0 then t
         else t\<lparr>pt_funding_paid := fadd (pt_funding_paid t) (funding_cost rate periods t),
                pt_funding_periods := due\<rparr>)"

definition marked_trade :: "paper_settings \<Rightarrow> int \<Rightarrow> rat \<Rightarrow> rat \<Rightarrow> paper_trade \<Rightarrow> paper_trade" where
  "marked_trade ps now price rate t = update_watermarks price (funded_trade ps now rate t)"

text \<open>The funding of this pass is due and its write raises.\<close>

definition funding_raises :: "paper_settings \<Rightarrow> exit_writes \<Rightarrow> int \<Rightarrow> rat \<Rightarrow> paper_trade \<Rightarrow> bool" where
  "funding_raises ps w now rate t \<longleftrightarrow> pt_funding_periods t < funding_due ps now t \<and>
     \<not> ew_funding w (pt_trade_id t) (py_round (pt_funding_paid (funded_trade ps now rate t)) 6) (funding_due ps now t)"

lemma apply_funding_result:
  "snd (apply_funding ps w now rate pe t) =
     (funded_trade ps now rate t, if funding_raises ps w now rate t then Aborted None else Held)"
  by (simp add: apply_funding_def funded_trade_def funding_raises_def Let_def)

lemma process_trade_marked:
  "process_trade ps w now price rate pe t =
     (if funding_raises ps w now rate t
      then (fst (apply_funding ps w now rate pe t), funded_trade ps now rate t, Aborted None)
      else exit_checks ps w now price (fst (apply_funding ps w now rate pe t)) (marked_trade ps now price rate t))"
proof -
  obtain pe1 t1 r where a: "apply_funding ps w now rate pe t = (pe1, t1, r)" by (metis prod_cases3)
  then have "t1 = funded_trade ps now rate t" "r = (if funding_raises ps w now rate t then Aborted None else Held)"
    using apply_funding_result [of ps w now rate pe t] by simp_all
  with a show ?thesis by (simp add: process_trade_def marked_trade_def unless_closed_def)
qed

lemma funded_trade_keeps [simp]:
  "pt_size (funded_trade ps now rate t) = pt_size t"
  "pt_stop_price (funded_trade ps now rate t) = pt_stop_price t"
  "pt_direction (funded_trade ps now rate t) = pt_direction t"
  "pt_dca (funded_trade ps now rate t) = pt_dca t"
  "pt_dca_enabled (funded_trade ps now rate t) = pt_dca_enabled t"
  "pt_policy (funded_trade ps now rate t) = pt_policy t"
  by (simp_all add: funded_trade_def Let_def)

lemma marked_trade_keeps [simp]:
  "pt_size (marked_trade ps now price rate t) = pt_size t"
  "pt_stop_price (marked_trade ps now price rate t) = pt_stop_price t"
  "pt_direction (marked_trade ps now price rate t) = pt_direction t"
  "pt_dca (marked_trade ps now price rate t) = pt_dca t"
  "pt_dca_enabled (marked_trade ps now price rate t) = pt_dca_enabled t"
  "pt_policy (marked_trade ps now price rate t) = pt_policy t"
  by (simp_all add: marked_trade_def)

lemma active_stop_marked [simp]: "active_stop ps (marked_trade ps now price rate t) = active_stop ps t"
  by (rule active_stop_cong) simp_all

section \<open>Each check by itself\<close>

lemma unless_closed_done: "snd (snd s) \<noteq> Held \<Longrightarrow> unless_closed f s = s"
  by (auto simp: unless_closed_def split: prod.split exit_result.split)

lemma unless_closed_simps [simp]:
  "unless_closed f (pe, t, Held) = f pe t"
  "unless_closed f (pe, t, Shut row) = (pe, t, Shut row)"
  "unless_closed f (pe, t, Aborted a) = (pe, t, Aborted a)"
  by (simp_all add: unless_closed_def)

text \<open>A relation that every check keeps holds for their composition.\<close>

lemma exit_checks_rule:
  assumes stop: "Q (stop_phase ps w now price pe t)"
    and step: "\<And>f pe t. f \<in> {horizon_phase, dca_phase, breakeven_phase, tp1_phase, tp2_phase, trailing_phase,
                 expiry_phase} \<Longrightarrow> Q (pe, t, Held) \<Longrightarrow> Q (f ps w now price pe t)"
  shows "Q (exit_checks ps w now price pe t)"
proof -
  have carry: "Q (unless_closed (f ps w now price) s)"
    if "f \<in> {horizon_phase, dca_phase, breakeven_phase, tp1_phase, tp2_phase, trailing_phase, expiry_phase}"
      and "Q s" for f s
  proof (cases s)
    case (fields pe' t' r)
    with that step [of f pe' t'] show ?thesis by (cases r) auto
  qed
  show ?thesis
    unfolding exit_checks_def
    by (rule carry, simp)+ (rule stop)
qed

lemmas later_phases =
  horizon_phase_def dca_phase_def breakeven_phase_def tp1_phase_def tp2_phase_def trailing_phase_def
  check_trailing_stop_def expiry_phase_def

lemma unless_closed_close [simp]:
  "unless_closed f (close_trade ps w now x reason pe t) = close_trade ps w now x reason pe t"
  by (rule unless_closed_done) simp

definition stop_reasons :: "string list" where
  "stop_reasons = [''STOP_LOSS'', ''STOP_LOSS_GAP'', ''DCA_STOP'']"

lemma stop_reason_in: "stop_reason t gap \<in> set stop_reasons"
  by (simp add: stop_reason_def stop_reasons_def)

lemma stop_phase_hit:
  assumes "reached_down (pt_direction t) price (active_stop ps t)"
  shows "snd (stop_phase ps w now price pe t) =
           snd (close_trade ps w now (adverse_exit ps (pt_direction t) (active_stop ps t))
                  (stop_reason t (price \<noteq> active_stop ps t)) pe t)"
  using assms by (simp add: stop_phase_def Let_def split: prod.split exit_result.split)

lemma stop_phase_miss:
  "\<not> reached_down (pt_direction t) price (active_stop ps t) \<Longrightarrow> stop_phase ps w now price pe t = (pe, t, Held)"
  by (simp add: stop_phase_def Let_def)

text \<open>What the close and the gap event keep of the account, the stop check keeps.\<close>

lemma stop_phase_engine:
  assumes "P pe" and "\<And>x r. P (fst (close_trade ps w now x r pe t))"
    and gap: "\<And>u x y b p. P p \<Longrightarrow> P (record_stop_gap_event ps now u x y b p)"
  shows "P (fst (stop_phase ps w now price pe t))"
proof (cases "reached_down (pt_direction t) price (active_stop ps t)")
  case True
  let ?x = "adverse_exit ps (pt_direction t) (active_stop ps t)" and ?r = "stop_reason t (price \<noteq> active_stop ps t)"
  obtain pe1 t1 r where c: "close_trade ps w now ?x ?r pe t = (pe1, t1, r)" by (metis prod_cases3)
  have "P pe1" using assms(2) [of ?x ?r] by (simp add: c)
  then show ?thesis using True gap by (cases r) (simp_all add: stop_phase_def c Let_def)
qed (simp add: stop_phase_miss assms(1))

definition later_reasons :: "string list" where
  "later_reasons = [''FIXED_HORIZON'', ''DCA_BREAKEVEN'', ''TAKE_PROFIT_1'', ''TAKE_PROFIT_2'',
     ''TRAILING_STOP'', ''EXPIRED_PROFITABLE'', ''EXPIRED'']"

definition reason_ok :: "string list \<Rightarrow> exit_state \<Rightarrow> bool" where
  "reason_ok rs s = (case attempted (snd (snd s)) of None \<Rightarrow> True | Some row \<Rightarrow> cl_reason row \<in> set rs)"

lemma reason_ok_simps [simp]:
  "reason_ok rs (pe, t, Held)"
  "reason_ok rs (close_trade ps w now x reason pe t) \<longleftrightarrow> reason \<in> set rs"
  by (simp_all add: reason_ok_def)

lemma later_phase_reason:
  assumes "f \<in> {horizon_phase, dca_phase, breakeven_phase, tp1_phase, tp2_phase, trailing_phase, expiry_phase}"
  shows "reason_ok later_reasons (f ps w now price pe t)"
proof -
  have r: "''FIXED_HORIZON'' \<in> set later_reasons" "''DCA_BREAKEVEN'' \<in> set later_reasons"
    "''TAKE_PROFIT_1'' \<in> set later_reasons" "''TAKE_PROFIT_2'' \<in> set later_reasons"
    "''TRAILING_STOP'' \<in> set later_reasons" "''EXPIRED_PROFITABLE'' \<in> set later_reasons"
    "''EXPIRED'' \<in> set later_reasons"
    by (simp_all add: later_reasons_def)
  from assms consider "f = horizon_phase" | "f = dca_phase" | "f = breakeven_phase" | "f = tp1_phase"
    | "f = tp2_phase" | "f = trailing_phase" | "f = expiry_phase" by blast
  then show ?thesis
    by cases (simp_all add: r horizon_phase_def dca_phase_def breakeven_phase_def tp1_phase_def tp2_phase_def
        trailing_phase_def check_trailing_stop_def expiry_phase_def Let_def
        split: option.split prod.split)
qed

lemma exit_checks_miss_reason:
  assumes "\<not> reached_down (pt_direction t) price (active_stop ps t)"
  shows "reason_ok later_reasons (exit_checks ps w now price pe t)"
  by (rule exit_checks_rule) (simp_all add: stop_phase_miss [OF assms] later_phase_reason)

lemma exit_checks_hit:
  assumes "reached_down (pt_direction t) price (active_stop ps t)"
  shows "exit_checks ps w now price pe t = stop_phase ps w now price pe t"
  unfolding exit_checks_def by (simp only: unless_closed_done stop_phase_hit [OF assms] exec_result not_False_eq_True)


section \<open>Stops before anything else\<close>

text \<open>C16. The protective stop has priority over every other exit: whenever the price has reached the
  active stop, the trade is closed with a stop reason in the same pass, its size unchanged and no
  second leg bought, whatever targets, horizon or expiry also apply; only an exception of the database gets
  in between, either before the check, when the funding that is due cannot be written, or from the write of
  the close itself, and then too the close that was booked is a stop. When the price has not reached the
  stop, no close of the pass carries a stop reason.\<close>

theorem stop_takes_priority:
  "case process_trade ps w now price rate pe t of
     (pe', t', r) \<Rightarrow>
       (if reached_down (pt_direction t) price (active_stop ps t)
        then pt_size t' = pt_size t \<and>
             (case r of Shut row \<Rightarrow> cl_reason row \<in> set stop_reasons
              | Aborted (Some row) \<Rightarrow> cl_reason row \<in> set stop_reasons \<and> \<not> ew_close w row
              | Aborted None \<Rightarrow> funding_raises ps w now rate t
              | Held \<Rightarrow> False)
        else (case attempted r of Some row \<Rightarrow> cl_reason row \<in> set later_reasons \<and> cl_reason row \<notin> set stop_reasons
              | None \<Rightarrow> True))"
proof (cases "funding_raises ps w now rate t")
  case True
  then show ?thesis by (simp add: process_trade_marked)
next
  case funded: False
  let ?m = "marked_trade ps now price rate t" and ?pe = "fst (apply_funding ps w now rate pe t)"
  obtain pe' t' r where st: "process_trade ps w now price rate pe t = (pe', t', r)" by (metis prod_cases3)
  show ?thesis
  proof (cases "reached_down (pt_direction t) price (active_stop ps t)")
    case True
    then have m: "reached_down (pt_direction ?m) price (active_stop ps ?m)" by simp
    have "(t', r) = snd (close_trade ps w now (adverse_exit ps (pt_direction ?m) (active_stop ps ?m))
        (stop_reason ?m (price \<noteq> active_stop ps ?m)) ?pe ?m)"
      using st funded exit_checks_hit [OF m, where w = w and now = now and pe = ?pe]
        stop_phase_hit [OF m, where w = w and now = now and pe = ?pe]
      by (simp add: process_trade_marked)
    with True st show ?thesis by (auto simp: close_trade_result Let_def stop_reason_in split: if_splits)
  next
    case False
    then have "\<not> reached_down (pt_direction ?m) price (active_stop ps ?m)" by simp
    from exit_checks_miss_reason [OF this] have "reason_ok later_reasons (process_trade ps w now price rate pe t)"
      using funded by (simp add: process_trade_marked)
    moreover have "set later_reasons \<inter> set stop_reasons = {}" by (simp add: stop_reasons_def later_reasons_def)
    ultimately show ?thesis
      using False by (auto simp: reason_ok_def split: prod.splits option.splits)
  qed
qed

text \<open>Every close of the engine carries one of the exit reasons the module documents, so the repository never
  refuses one as unsupported.\<close>

theorem exit_reason_documented:
  "case process_trade ps w now price rate pe t of
     (pe', t', r) \<Rightarrow> (case attempted r of Some row \<Rightarrow> cl_reason row \<in> set PAPER_ENGINE_EXIT_REASONS | None \<Rightarrow> True)"
proof -
  have sub: "set stop_reasons \<subseteq> set PAPER_ENGINE_EXIT_REASONS" "set later_reasons \<subseteq> set PAPER_ENGINE_EXIT_REASONS"
    by (simp_all add: stop_reasons_def later_reasons_def PAPER_ENGINE_EXIT_REASONS_def)
  have "reason_ok PAPER_ENGINE_EXIT_REASONS (exit_checks ps w now price pe1 t1)" for pe1 t1
  proof (cases "reached_down (pt_direction t1) price (active_stop ps t1)")
    case True
    from exit_checks_hit [OF this] stop_phase_hit [OF this] show ?thesis
      using subsetD [OF sub(1) stop_reason_in] by (simp add: reason_ok_def)
  next
    case False
    from exit_checks_miss_reason [OF this, where w = w and now = now and pe = pe1] show ?thesis
      using sub(2) by (auto simp: reason_ok_def split: option.splits)
  qed
  then have "reason_ok PAPER_ENGINE_EXIT_REASONS (process_trade ps w now price rate pe t)"
    by (simp add: process_trade_marked reason_ok_def)
  then show ?thesis by (auto simp: reason_ok_def split: prod.splits)
qed

section \<open>The stop only tightens\<close>

definition not_looser :: "paper_trade \<Rightarrow> exit_state \<Rightarrow> bool" where
  "not_looser t s = (case s of (pe', t', r) \<Rightarrow>
     pt_direction t' = pt_direction t \<and>
     (if pt_direction t = LONG then pt_stop_price t \<le> pt_stop_price t' else pt_stop_price t' \<le> pt_stop_price t))"

lemma tighten_le: "if d = LONG then old \<le> tighten d old new else tighten d old new \<le> old"
  by (simp add: tighten_def)

lemma trailed_stop_tightens:
  "if pt_direction t = LONG then pt_stop_price t \<le> trailed_stop ps price t
   else trailed_stop ps price t \<le> pt_stop_price t"
  by (auto simp: trailed_stop_def Let_def tighten_def)

lemma not_looser_close [simp]:
  "not_looser u (close_trade ps w now x reason pe t) \<longleftrightarrow> not_looser u (pe, t, Held)"
  by (simp add: not_looser_def close_trade_def Let_def)

lemma later_phase_not_looser:
  assumes "f \<in> {horizon_phase, dca_phase, breakeven_phase, tp1_phase, tp2_phase, trailing_phase, expiry_phase}"
    and "not_looser u (pe, t, Held)"
  shows "not_looser u (f ps w now price pe t)"
proof -
  have trail: "not_looser u (pe, t\<lparr>pt_stop_price := trailed_stop ps price t\<rparr>, Held)"
    using assms(2) trailed_stop_tightens [of t ps price]
    by (auto simp: not_looser_def split: if_splits)
  have fill: "not_looser u (fst s, snd s, Held)" if "s = fill_second_leg ps now price q d pe t" for s q d
    using assms(2) by (simp add: that not_looser_def fill_second_leg_def Let_def)
  from assms(1) consider "f = horizon_phase" | "f = dca_phase" | "f = breakeven_phase" | "f = tp1_phase"
    | "f = tp2_phase" | "f = trailing_phase" | "f = expiry_phase" by blast
  then show ?thesis
    using assms(2) trail
    by cases (auto simp: horizon_phase_def dca_phase_def breakeven_phase_def tp1_phase_def tp2_phase_def
        trailing_phase_def check_trailing_stop_def expiry_phase_def Let_def dest: fill [OF sym, simplified]
        split: option.split prod.split)
qed

lemma process_not_looser: "not_looser t (process_trade ps w now price rate pe t)"
proof -
  have m: "not_looser t (p, marked_trade ps now price rate t, Held)" for p :: paper_engine
    by (simp add: not_looser_def)
  have "not_looser t (stop_phase ps w now price p (marked_trade ps now price rate t))" for p
    using m by (auto simp: stop_phase_def close_trade_def Let_def not_looser_def)
  then have "not_looser t (exit_checks ps w now price p (marked_trade ps now price rate t))" for p
    by (rule exit_checks_rule) (rule later_phase_not_looser)
  then show ?thesis by (simp add: process_trade_marked not_looser_def)
qed

text \<open>A run of the exit checks over the ticks of one trade: nothing happens after it is closed, and
  after an exception the next pass checks it again.\<close>

fun trade_tick :: "paper_settings \<Rightarrow> exit_state \<Rightarrow> exit_writes \<times> int \<times> rat \<times> rat \<Rightarrow> exit_state" where
  "trade_tick ps (pe, t, r) (w, now, price, rate) =
     (case r of Shut row \<Rightarrow> (pe, t, r) | _ \<Rightarrow> process_trade ps w now price rate pe t)"

interpretation long_trail: monotone_system "trade_tick ps" "\<lambda>s. pt_direction (fst (snd s)) = LONG"
    "\<lambda>s. pt_stop_price (fst (snd s))" for ps
proof
  fix s :: exit_state and e assume l: "pt_direction (fst (snd s)) = LONG"
  obtain pe t r where s: "s = (pe, t, r)" by (metis prod_cases3)
  have "not_looser t (trade_tick ps s e)"
    using process_not_looser by (cases r; cases e) (auto simp: s not_looser_def)
  then show "pt_direction (fst (snd (trade_tick ps s e))) = LONG"
    and "pt_stop_price (fst (snd s)) \<le> pt_stop_price (fst (snd (trade_tick ps s e)))"
    using l by (auto simp: s not_looser_def split: prod.splits)
qed

interpretation short_trail: monotone_system "trade_tick ps" "\<lambda>s. pt_direction (fst (snd s)) = SHORT"
    "\<lambda>s. - pt_stop_price (fst (snd s))" for ps
proof
  fix s :: exit_state and e assume l: "pt_direction (fst (snd s)) = SHORT"
  obtain pe t r where s: "s = (pe, t, r)" by (metis prod_cases3)
  have "not_looser t (trade_tick ps s e)"
    using process_not_looser by (cases r; cases e) (auto simp: s not_looser_def)
  then show "pt_direction (fst (snd (trade_tick ps s e))) = SHORT"
    and "- pt_stop_price (fst (snd s)) \<le> - pt_stop_price (fst (snd (trade_tick ps s e)))"
    using l by (auto simp: s not_looser_def split: prod.splits)
qed

text \<open>C19. Over any sequence of ticks the stop of an open trade only moves towards the price: up for a
  long, down for a short, whatever the prices, funding rates, DCA fills and policies in between.\<close>

theorem stop_never_widens:
  "case foldl (trade_tick ps) (pe, t, Held) ticks of
     (pe', t', r) \<Rightarrow> pt_direction t' = pt_direction t \<and>
       (if pt_direction t = LONG then pt_stop_price t \<le> pt_stop_price t' else pt_stop_price t' \<le> pt_stop_price t)"
proof (cases "pt_direction t")
  case LONG
  with long_trail.run_level [of "(pe, t, Held)" ps ticks] long_trail.run_inv [of "(pe, t, Held)" ps ticks]
  show ?thesis by (auto split: prod.split)
next
  case SHORT
  with short_trail.run_level [of "(pe, t, Held)" ps ticks] short_trail.run_inv [of "(pe, t, Held)" ps ticks]
  show ?thesis by (auto split: prod.split)
qed


section \<open>Funding\<close>

lemma funding_due_cong [simp]:
  "funding_due ps now (t\<lparr>pt_funding_paid := x, pt_funding_periods := y\<rparr>) = funding_due ps now t"
  by (simp add: funding_due_def)

definition fund_all ::
  "paper_settings \<Rightarrow> paper_engine \<times> paper_trade \<Rightarrow> (exit_writes \<times> int \<times> rat) list \<Rightarrow> paper_engine \<times> paper_trade" where
  "fund_all ps s visits =
     foldl (\<lambda>(pe, t) (w, now, rate). case apply_funding ps w now rate pe t of (pe', t', r) \<Rightarrow> (pe', t')) s visits"

lemma apply_funding_periods:
  "pt_funding_periods (fst (snd (apply_funding ps w now rate pe t))) = max (pt_funding_periods t) (funding_due ps now t)"
  "funding_due ps n2 (fst (snd (apply_funding ps w now rate pe t))) = funding_due ps n2 t"
  by (simp_all add: apply_funding_def Let_def)

text \<open>Funding is charged per elapsed interval, exactly once: after any sequence of passes, at any
  times and rates, in or out of order, with writes that succeed or raise, the number of charged periods is the
  largest number that was due at one of them, and repeating the last pass charges nothing.\<close>

theorem funding_charged_once:
  "pt_funding_periods (snd (fund_all ps (pe, t) visits)) =
     foldl max (pt_funding_periods t) (map (\<lambda>(w, now, rate). funding_due ps now t) visits) \<and>
   fund_all ps (pe, t) (visits @ [(w1, now, r1), (w2, now, r2)]) = fund_all ps (pe, t) (visits @ [(w1, now, r1)])"
proof -
  have "pt_funding_periods (snd (fund_all ps (p, u) vs)) =
          foldl max (pt_funding_periods u) (map (\<lambda>(w, now, rate). funding_due ps now u) vs)" for p u vs
  proof (induction vs arbitrary: p u)
    case (Cons v vs)
    obtain w now rate where v: "v = (w, now, rate)" by (metis prod_cases3)
    obtain p1 u1 r where a: "apply_funding ps w now rate p u = (p1, u1, r)" by (metis prod_cases3)
    have "pt_funding_periods u1 = max (pt_funding_periods u) (funding_due ps now u)"
      and "\<And>n. funding_due ps n u1 = funding_due ps n u"
      using apply_funding_periods [where ps = ps and w = w and now = now and rate = rate and pe = p and t = u] a by simp_all
    with Cons.IH [of p1 u1] a v show ?case
      by (simp add: fund_all_def)
  qed (simp add: fund_all_def)
  moreover have "apply_funding ps w2 now r2 p1 u1 = (p1, u1, Held)" if "apply_funding ps w1 now r1 p u = (p1, u1, r)" for p u p1 u1 r
    using that by (auto simp: apply_funding_def Let_def split: if_splits)
  ultimately show ?thesis
    by (auto simp: fund_all_def split: prod.splits)
qed

section \<open>The second leg\<close>

text \<open>\<open>bought s\<close>: how many second legs the trade holds, counted by its DCA state.\<close>

definition legs_filled :: "exit_state \<Rightarrow> int" where
  "legs_filled s = (case pt_dca (fst (snd s)) of None \<Rightarrow> 0 | Some d \<Rightarrow> dp_fill_count d)"

definition dca_sound :: "exit_state \<Rightarrow> bool" where
  "dca_sound s = (case pt_dca (fst (snd s)) of None \<Rightarrow> True | Some d \<Rightarrow> dca_inv d)"

text \<open>A check keeps the DCA invariant and changes the fill count only by one fill of an unfilled leg.\<close>

definition dca_kept :: "exit_state \<Rightarrow> exit_state \<Rightarrow> bool" where
  "dca_kept s0 s \<longleftrightarrow> (dca_sound s0 \<longrightarrow> dca_sound s \<and> legs_filled s0 \<le> legs_filled s)"

lemma dca_kept_trans: "dca_kept a b \<Longrightarrow> dca_kept b c \<Longrightarrow> dca_kept a c"
  by (auto simp: dca_kept_def)

lemma dca_kept_same [simp]: "pt_dca (fst (snd a)) = pt_dca (fst (snd b)) \<Longrightarrow> dca_kept a b"
  by (simp add: dca_kept_def dca_sound_def legs_filled_def)

lemma close_trade_dca_kept [simp]: "dca_kept (pe, t, r) (close_trade ps w now x reason pe' t)"
proof (cases "pt_dca t")
  case (Some d)
  from dca_step_inv [of d "DcaClose now reason"] dca_step_fills [of d "DcaClose now reason"] Some
  show ?thesis
    by (simp add: dca_kept_def dca_sound_def legs_filled_def close_trade_def Let_def close_dca_def)
qed (simp add: close_trade_def Let_def close_dca_def)

lemma fill_second_leg_kept:
  assumes "pt_dca t = Some d"
  shows "dca_kept (pe, t, r) (fst (fill_second_leg ps now price q d pe' t), snd (fill_second_leg ps now price q d pe' t), r2)"
  using dca_step_inv [of d "DcaFill now p q" for p] dca_step_fills [of d "DcaFill now p q" for p]
  by (simp add: dca_kept_def dca_sound_def legs_filled_def fill_second_leg_def Let_def assms)

lemma dca_kept_result: "dca_kept (pe, t, Held) s \<Longrightarrow> dca_kept (pe', t, r) s"
  by (simp add: dca_kept_def dca_sound_def legs_filled_def)

lemma later_phase_dca_kept:
  assumes "f \<in> {horizon_phase, dca_phase, breakeven_phase, tp1_phase, tp2_phase, trailing_phase, expiry_phase}"
  shows "dca_kept (pe, t, Held) (f ps w now price pe t)"
proof -
  have trail: "dca_kept (pe, t, Held) (close_trade ps w now x reason pe (t\<lparr>pt_stop_price := y\<rparr>))" for x reason y
    by (rule dca_kept_trans [of _ "(pe, t\<lparr>pt_stop_price := y\<rparr>, Held)"]) simp_all
  from assms consider "f = dca_phase" | "f = trailing_phase" | "f = horizon_phase" | "f = breakeven_phase"
    | "f = tp1_phase" | "f = tp2_phase" | "f = expiry_phase" by blast
  then show ?thesis
  proof cases
    case 1
    then show ?thesis
      using fill_second_leg_kept [of t _ pe Held ps now price _ pe Held]
      by (auto simp: dca_phase_def split: option.split prod.split) (metis fst_conv snd_conv)
  next
    case 2
    then show ?thesis using trail by (simp add: trailing_phase_def check_trailing_stop_def Let_def)
  qed (simp_all add: horizon_phase_def breakeven_phase_def tp1_phase_def tp2_phase_def expiry_phase_def
        split: option.split)
qed

lemma process_dca_kept: "dca_kept (pe, t, Held) (process_trade ps w now price rate pe t)"
proof -
  have stop: "dca_kept (p, u, Held) (stop_phase ps w now price p u)" for p u
  proof (cases "reached_down (pt_direction u) price (active_stop ps u)")
    case True
    then have "snd (stop_phase ps w now price p u) = snd (close_trade ps w now (adverse_exit ps (pt_direction u) (active_stop ps u))
        (stop_reason u (price \<noteq> active_stop ps u)) p u)" by (rule stop_phase_hit)
    then show ?thesis
      using close_trade_dca_kept [of p u Held ps w now _ _ p] unfolding dca_kept_def dca_sound_def legs_filled_def by metis
  qed (simp add: stop_phase_miss)
  have "dca_kept (pe, t, Held) (exit_checks ps w now price p (marked_trade ps now price rate t))" for p
  proof (rule exit_checks_rule)
    show "dca_kept (pe, t, Held) (stop_phase ps w now price p (marked_trade ps now price rate t))"
      using dca_kept_trans [of _ "(p, marked_trade ps now price rate t, Held)"] stop by simp
  next
    fix f pe' t'
    assume "f \<in> {horizon_phase, dca_phase, breakeven_phase, tp1_phase, tp2_phase, trailing_phase, expiry_phase}"
      and "dca_kept (pe, t, Held) (pe', t', Held)"
    then show "dca_kept (pe, t, Held) (f ps w now price pe' t')"
      using later_phase_dca_kept dca_kept_trans by blast
  qed
  then show ?thesis by (simp add: process_trade_marked dca_kept_def dca_sound_def legs_filled_def)
qed

interpretation leg: monotone_system "trade_tick ps" dca_sound legs_filled for ps
proof
  fix s e assume "dca_sound s"
  obtain pe t r where s: "s = (pe, t, r)" by (metis prod_cases3)
  have "dca_kept s (trade_tick ps s e)"
    using dca_kept_result [OF process_dca_kept] by (cases r; cases e) (simp_all add: s)
  with \<open>dca_sound s\<close> show "dca_sound (trade_tick ps s e)" and "legs_filled s \<le> legs_filled (trade_tick ps s e)"
    by (auto simp: dca_kept_def)
qed

text \<open>Whatever the ticks, a trade opened with a fresh DCA state buys the second leg at most once,
  and a bought leg is never forgotten: along any run the number of filled legs is zero or one and
  does not go down at any later tick.\<close>

theorem second_leg_at_most_once:
  "let t = t0\<lparr>pt_dca := Some (create_initial_state now pid fp fq atr ds dir tp entry)\<rparr>;
       before = foldl (trade_tick ps) (pe, t, Held) ticks;
       after = foldl (trade_tick ps) (pe, t, Held) (ticks @ later)
   in legs_filled before \<in> {0, 1} \<and> legs_filled after \<in> {0, 1} \<and> legs_filled before \<le> legs_filled after"
proof -
  define s0 where "s0 = (pe, t0\<lparr>pt_dca := Some (create_initial_state now pid fp fq atr ds dir tp entry)\<rparr>, Held)"
  have s0: "dca_sound s0" by (simp add: dca_sound_def s0_def create_initial_inv)
  have run: "dca_sound (foldl (trade_tick ps) s0 es)" for es by (rule leg.run_inv [OF s0])
  have count: "legs_filled s \<in> {0, 1}" if "dca_sound s" for s
    using that by (auto simp: dca_sound_def legs_filled_def dca_inv_def split: option.splits)
  show ?thesis
    using count [OF run [of ticks]] count [OF run [of "ticks @ later"]]
      leg.run_level [where s = "foldl (trade_tick ps) s0 ticks" and es = later and ps = ps, OF run]
    unfolding Let_def s0_def [symmetric] by simp
qed


section \<open>The account does not decide the exits\<close>

text \<open>A check is blind when what it does with the trade does not depend on the engine.\<close>

definition blind :: "(paper_engine \<Rightarrow> paper_trade \<Rightarrow> exit_state) \<Rightarrow> bool" where
  "blind f \<longleftrightarrow> (\<forall>pe pe' t. snd (f pe t) = snd (f pe' t))"

lemma close_trade_blind: "snd (close_trade ps w now x reason pe t) = snd (close_trade ps w now x reason pe' t)"
  by (simp add: close_trade_result)

lemma unless_closed_blind:
  assumes "blind f" and "snd s = snd s'"
  shows "snd (unless_closed f s) = snd (unless_closed f s')"
proof -
  obtain pe t r where s: "s = (pe, t, r)" by (metis prod_cases3)
  obtain pe' where s': "s' = (pe', t, r)" using assms(2) s by (cases s') auto
  show ?thesis using assms(1) by (cases r) (auto simp: s s' blind_def)
qed

lemma later_phase_blind:
  assumes "f \<in> {horizon_phase, dca_phase, breakeven_phase, tp1_phase, tp2_phase, trailing_phase, expiry_phase}"
  shows "blind (f ps w now price)"
proof -
  from assms consider "f = dca_phase" | "f = trailing_phase" | "f = horizon_phase" | "f = breakeven_phase"
    | "f = tp1_phase" | "f = tp2_phase" | "f = expiry_phase" by blast
  then show ?thesis
    by cases (auto simp: blind_def dca_phase_def fill_second_leg_def trailing_phase_def check_trailing_stop_def
        horizon_phase_def breakeven_phase_def tp1_phase_def tp2_phase_def expiry_phase_def Let_def
        close_trade_result split: option.split)
qed

lemma stop_phase_blind: "snd (stop_phase ps w now price pe t) = snd (stop_phase ps w now price pe' t)"
proof (cases "reached_down (pt_direction t) price (active_stop ps t)")
  case True
  from stop_phase_hit [OF this] show ?thesis by (metis close_trade_blind)
qed (simp add: stop_phase_miss)

lemma exit_checks_blind: "snd (exit_checks ps w now price pe t) = snd (exit_checks ps w now price pe' t)"
  unfolding exit_checks_def
  by ((rule unless_closed_blind, rule later_phase_blind, simp)+) (rule stop_phase_blind)

text \<open>What happens to a trade in a pass depends on the trade, the price, the rate, the clock and the
  answers to its own writes only: the balance, the drawdown, the halt and the other positions play no part.\<close>

lemma process_trade_blind:
  "snd (process_trade ps w now price rate pe t) = snd (process_trade ps w now price rate pe' t)"
  using exit_checks_blind by (simp add: process_trade_marked)

section \<open>Concrete trades\<close>

definition demo_paper_settings :: paper_settings where
  "demo_paper_settings = \<lparr>ps_initial_balance = 1000, ps_max_open_positions = 2, ps_max_daily_loss = 1 / 16,
     ps_max_consecutive_losses = 2, ps_paper_mode = True, ps_cooldown_minutes = 60, ps_regime_filter = True,
     ps_regime_whitelist = [], ps_risk_per_trade = 1 / 128, ps_slippage = 1 / 1024, ps_taker_fee = 0,
     ps_max_symbol_exposure = 1, ps_max_gross_exposure = 2, ps_max_net_exposure = 2,
     ps_min_effective_risk = 0,
     ps_policies = [((''fixed'', LONG), \<lparr>ep_policy = ''FIXED_HORIZON_V1'', ep_enabled = True,
       ep_hold_minutes = 30, ep_trailing_enabled = False, ep_tp_enabled = False\<rparr>)],
     ps_dca = demo_dca_settings, ps_atr_stop_multiple = 3 / 2, ps_ttl_multiplier = 1,
     ps_funding_interval_hours = 8, ps_severe_gap_r = 1 / 2, ps_severe_extra_r = 1 / 2,
     ps_gate_mode = GateEnforce\<rparr>"

definition demo_engine :: paper_engine where
  "demo_engine = \<lparr>pe_balance = 1000, pe_open = [], pe_peak_balance = 1000, pe_peak_equity = 1000,
     pe_max_drawdown = 0, pe_marks = [], pe_daily_loss = 0, pe_losses = 0, pe_cooldown = None,
     pe_halt = False, pe_risk_day = 0, pe_gaps = [], pe_last_gap = None, pe_gate_since = None,
     pe_gate_reason = None, pe_rows = []\<rparr>"

definition demo_trade :: paper_trade where
  "demo_trade = \<lparr>pt_trade_id = Some 1, pt_setup_id = ''s1'', pt_symbol = ''BTCUSDT'', pt_scanner = ''scan'',
     pt_direction = LONG, pt_entry_price = 1024, pt_entry_fee = 0, pt_stop_price = 1000,
     pt_target_1 = Some 1100, pt_target_2 = None, pt_size = 1, pt_risk_usdt = 24, pt_entered_at = 0,
     pt_entry_market = 1024, pt_entry_slippage = 0, pt_mfe = 0, pt_mae = 0, pt_timeframe = ''1h'',
     pt_highest = 1024, pt_lowest = Some 1024, pt_funding_paid = 0, pt_funding_periods = 0,
     pt_dca_enabled = False, pt_dca = None, pt_policy = ''DEFAULT'', pt_planned_exit = None\<rparr>"

lemma close_gross_marked [simp]: "close_gross x (marked_trade ps now price rate t) = close_gross x t"
  by (simp add: close_gross_def market_entry_def marked_trade_def funded_trade_def update_watermarks_def Let_def)

text \<open>A stop exit does not depend on the market price that triggered it, and it pays the configured
  slippage twice: the gross result is computed at the stop moved by the slippage, and the close
  moves that price by the slippage again to get the recorded exit price.\<close>

theorem stop_exit_slips_twice:
  "if reached_down (pt_direction t) price (active_stop ps t) \<and> \<not> funding_raises ps w now rate t
   then (case attempted (snd (snd (process_trade ps w now price rate pe t))) of
      Some row \<Rightarrow> (let d = pt_direction t; once = adverse_exit ps d (active_stop ps t)
                    in cl_gross row = close_gross once t \<and> cl_exit_price row = py_round (adverse_exit ps d once) 6)
    | None \<Rightarrow> False)
   else True"
proof (cases "reached_down (pt_direction t) price (active_stop ps t) \<and> \<not> funding_raises ps w now rate t")
  case True
  let ?m = "marked_trade ps now price rate t"
  have "reached_down (pt_direction ?m) price (active_stop ps ?m)" using True by simp
  note hit = exit_checks_hit [OF this, where w = w and now = now and pe = "fst (apply_funding ps w now rate pe t)"]
    stop_phase_hit [OF this, where w = w and now = now and pe = "fst (apply_funding ps w now rate pe t)"]
  have "attempted (snd (snd (process_trade ps w now price rate pe t))) =
      Some (closed_record ps (adverse_exit ps (pt_direction t) (active_stop ps t))
        (stop_reason ?m (price \<noteq> active_stop ps t)) ?m)"
    using hit True by (simp add: process_trade_marked)
  with True show ?thesis by (simp add: closed_record_def Let_def)
next
  case False
  then show ?thesis by (simp only: if_False)
qed

text \<open>The time exit of the fixed horizon moves the price to the side that improves the result: the
  gross of the close is never below the gross at the market price itself.\<close>

theorem horizon_exit_improves_price:
  assumes "fixed_horizon ps t" and "pt_planned_exit t = Some due" and "due \<le> now"
    and "0 \<le> price" and "is_double price" and "0 \<le> ps_slippage ps" and "0 \<le> pt_size t"
    and "\<not> reached_down (pt_direction t) price (active_stop ps t)" and "\<not> funding_raises ps w now rate t"
  shows "case attempted (snd (snd (process_trade ps w now price rate pe t))) of None \<Rightarrow> False
         | Some row \<Rightarrow> cl_reason row = ''FIXED_HORIZON'' \<and> close_gross price t \<le> cl_gross row"
proof -
  let ?m = "marked_trade ps now price rate t"
  have "fixed_horizon ps ?m" "pt_planned_exit ?m = Some due"
    using assms(1,2) by (simp_all add: fixed_horizon_def marked_trade_def update_watermarks_def funded_trade_def Let_def)
  then have "exit_checks ps w now price p ?m = close_trade ps w now (adverse_entry ps (pt_direction t) price) ''FIXED_HORIZON'' p ?m" for p
    using assms(3,8) stop_phase_miss [of ?m price ps w now p]
    by (simp add: exit_checks_def horizon_phase_def)
  moreover have "close_gross price t \<le> close_gross (adverse_entry ps (pt_direction t) price) t"
  proof -
    have one: "1 \<le> fadd 1 (ps_slippage ps)" "fsub 1 (ps_slippage ps) \<le> 1"
      using fadd_ge_left [of 1 "ps_slippage ps"] fsub_le_left [of 1 "ps_slippage ps"] assms(6) by simp_all
    have "price \<le> fmul price (fadd 1 (ps_slippage ps))" "fmul price (fsub 1 (ps_slippage ps)) \<le> price"
      using one fl_mono [of price "price * fadd 1 (ps_slippage ps)"] fl_mono [of "price * fsub 1 (ps_slippage ps)" price]
        mult_left_mono [OF one(1) assms(4)] mult_left_mono [OF one(2) assms(4)] assms(5)
      by (simp_all add: fmul_def)
    then have "signed_move (pt_direction t) (market_entry t) price
        \<le> signed_move (pt_direction t) (market_entry t) (adverse_entry ps (pt_direction t) price)"
      by (simp add: signed_move_def adverse_entry_def fsub_mono)
    then show ?thesis
      unfolding close_gross_def fmul_def using assms(7) by (intro fl_mono mult_right_mono) auto
  qed
  ultimately show ?thesis
    using assms(9) by (simp add: process_trade_marked closed_record_def)
qed

lemma fl_numeral_le: "numeral n \<le> (2 ^ 53 :: int) \<Longrightarrow> fl (numeral n) = numeral n"
  using fl_of_int [of "numeral n"] by simp

lemma fl_neg_numeral_le: "numeral n \<le> (2 ^ 53 :: int) \<Longrightarrow> fl (- numeral n) = - numeral n"
  using fl_of_int [of "- numeral n"] by simp

lemma fl_one: "fl 1 = 1"
  using fl_of_int [of 1] by simp

lemmas fl_eval = fadd_def fsub_def fmul_def fdiv_def fl_numeral_le fl_neg_numeral_le fl_one

theorem horizon_exit_improves_price_witness:
  "case attempted (snd (snd (process_trade demo_paper_settings writes_succeed 9 1024 0 demo_engine
       (demo_trade\<lparr>pt_scanner := ''fixed'', pt_policy := ''FIXED_HORIZON_V1'', pt_planned_exit := Some 5\<rparr>)))) of
     None \<Rightarrow> False
   | Some row \<Rightarrow> cl_reason row = ''FIXED_HORIZON'' \<and>
       close_gross 1024 (demo_trade\<lparr>pt_scanner := ''fixed'', pt_policy := ''FIXED_HORIZON_V1'', pt_planned_exit := Some 5\<rparr>)
         \<le> cl_gross row"
  by (rule horizon_exit_improves_price [where due = 5])
    (simp_all add: demo_paper_settings_def demo_trade_def fixed_horizon_def is_double_def fl_eval reached_down_def
      active_stop_def funding_raises_def writes_succeed_def)

text \<open>A breakeven exit after the second leg books a loss: the result of the whole position is
  computed from the price of the first leg, although the exit price is the average entry.\<close>

theorem breakeven_exit_books_loss:
  "let d = create_initial_state 0 (Some 1) 1024 1 64 demo_dca_settings LONG 0 1024;
       t = demo_trade\<lparr>pt_stop_price := 928, pt_target_1 := None, pt_dca_enabled := True, pt_dca := Some d\<rparr>
   in case attempted (snd (snd (foldl (trade_tick (demo_paper_settings\<lparr>ps_slippage := 0\<rparr>)) (demo_engine, t, Held)
             [(writes_succeed, 60000000, 976, 0), (writes_succeed, 120000000, 1000, 0)]))) of
        None \<Rightarrow> False
      | Some row \<Rightarrow> cl_reason row = ''DCA_BREAKEVEN'' \<and> cl_gross row = - 48 \<and> cl_net row = - 48"
  by (simp add: process_trade_def apply_funding_def funding_due_def total_seconds_def fl_eval
      demo_paper_settings_def demo_trade_def demo_dca_settings_def create_initial_state_def Let_def
      calculate_dca_price_def calculate_stop_price_def validate_invariants_def default_dca_def
      exit_checks_def stop_phase_def active_stop_def fixed_horizon_def effective_stop_price_def reached_down_def
      horizon_phase_def dca_phase_def is_dca_active_def terminal_defs check_dca_level_def dca_fill_qty_def
      fill_second_leg_def adverse_entry_def fill_dca_def calculate_avg_entry_def update_watermarks_def
      breakeven_phase_def check_breakeven_tp_def tp1_phase_def tp2_phase_def trailing_phase_def dca_filled_def
      expiry_phase_def is_expired_def lower_mark_def close_trade_result writes_succeed_def closed_record_def close_gross_def
      market_entry_def signed_move_def close_net_def close_exit_fee_def close_exit_slippage_def adverse_exit_def)

text \<open>A close whose write raises is booked twice: the account already carries the loss, the trade is still
  open, and the next pass closes it again. Here a loss of 24 is taken twice and counts as two losses.\<close>

definition close_raises :: exit_writes where
  "close_raises = \<lparr>ew_funding = (\<lambda>_ _ _. True), ew_close = (\<lambda>_. False)\<rparr>"

lemma stop_phase_exact:
  "price = active_stop ps t \<Longrightarrow> stop_phase ps w now price pe t =
     close_trade ps w now (adverse_exit ps (pt_direction t) price) (stop_reason t False) pe t"
  by (cases "close_trade ps w now (adverse_exit ps (pt_direction t) price) (stop_reason t False) pe t" rule: prod_cases3)
    (auto simp: stop_phase_def reached_down_def Let_def split: exit_result.split)

definition flat_settings :: paper_settings where
  "flat_settings = demo_paper_settings\<lparr>ps_slippage := 0\<rparr>"

abbreviation demo_marked :: paper_trade where
  "demo_marked \<equiv> update_watermarks 1000 demo_trade"

lemma demo_stop_tick:
  assumes "now \<in> {60000000, 120000000}" "t \<in> {demo_trade, demo_marked}"
  shows "process_trade flat_settings w now 1000 0 pe t = close_trade flat_settings w now 1000 ''STOP_LOSS'' pe demo_marked"
proof -
  have "update_watermarks 1000 demo_marked = demo_marked"
    by (simp add: update_watermarks_def lower_mark_def demo_trade_def Let_def fl_eval)
  then have m: "update_watermarks 1000 t = demo_marked" using assms(2) by auto
  have a: "active_stop flat_settings demo_marked = 1000" "adverse_exit flat_settings LONG 1000 = 1000"
    "pt_direction demo_trade = LONG" "stop_reason demo_marked False = ''STOP_LOSS''"
    by (simp_all add: demo_trade_def active_stop_def fixed_horizon_def effective_stop_price_def dca_filled_def
        update_watermarks_def Let_def adverse_exit_def flat_settings_def demo_paper_settings_def stop_reason_def fl_eval)
  have f: "apply_funding flat_settings w now 0 pe t = (pe, t, Held)"
    using assms by (auto simp: apply_funding_def funding_due_def total_seconds_def flat_settings_def demo_paper_settings_def
        demo_trade_def update_watermarks_def Let_def fl_eval)
  show ?thesis by (simp add: process_trade_def f exit_checks_def stop_phase_exact a m)
qed

theorem raised_close_books_twice:
  "case foldl (trade_tick flat_settings) (demo_engine, demo_trade, Held)
      [(close_raises, 60000000, 1000, 0), (writes_succeed, 120000000, 1000, 0)] of
     (pe, t, r) \<Rightarrow> pe_balance demo_engine = 1000 \<and> pe_balance pe = 952 \<and> pe_losses pe = 2 \<and>
       (case r of Shut row \<Rightarrow> cl_net row = - 24 | _ \<Rightarrow> False)"
proof -
  let ?ps = flat_settings and ?m = demo_marked
  have a: "adverse_exit ?ps LONG 1000 = 1000"
    by (simp add: adverse_exit_def flat_settings_def demo_paper_settings_def fl_eval)
  have one: "close_trade ?ps close_raises 60000000 1000 ''STOP_LOSS'' demo_engine ?m =
      (fst (close_trade ?ps close_raises 60000000 1000 ''STOP_LOSS'' demo_engine ?m), ?m,
       Aborted (Some (closed_record ?ps 1000 ''STOP_LOSS'' ?m)))"
    by (simp add: close_trade_def close_raises_def Let_def)
  have q: "pt_direction demo_trade = LONG" "market_entry ?m = 1024" "pt_size demo_trade = 1" "pt_entry_fee ?m = 0" "pt_funding_paid ?m = 0"
    "pt_entry_slippage ?m = 0" "ps_taker_fee ?ps = 0"
    by (simp_all add: market_entry_def demo_trade_def update_watermarks_def flat_settings_def demo_paper_settings_def Let_def)
  have row: "cl_net (closed_record ?ps 1000 ''STOP_LOSS'' ?m) = - 24" "close_gross 1000 ?m = - 24" "close_exit_fee ?ps 1000 ?m = 0"
    "close_exit_slippage ?ps 1000 ?m = 0" "close_net ?ps 1000 ?m = - 24"
    by (simp_all add: closed_record_def close_gross_def close_net_def close_exit_fee_def close_exit_slippage_def a q
        signed_move_def fl_eval)
  have acc: "pe_balance (fst (close_trade ?ps w now 1000 ''STOP_LOSS'' pe ?m)) = fadd (pe_balance pe) (- 24) \<and>
      pe_losses (fst (close_trade ?ps w now 1000 ''STOP_LOSS'' pe ?m)) = pe_losses pe + 1" for w now pe
    by (simp add: close_trade_def row book_result_def book_peak_def Let_def fl_eval)
  let ?p = "fst (close_trade ?ps close_raises 60000000 1000 ''STOP_LOSS'' demo_engine ?m)"
  have run: "foldl (trade_tick ?ps) (demo_engine, demo_trade, Held)
      [(close_raises, 60000000, 1000, 0), (writes_succeed, 120000000, 1000, 0)] =
    close_trade ?ps writes_succeed 120000000 1000 ''STOP_LOSS'' ?p ?m"
    by (simp add: demo_stop_tick) (subst one, simp add: demo_stop_tick)
  have "snd (snd (close_trade ?ps writes_succeed 120000000 1000 ''STOP_LOSS'' ?p ?m)) = Shut (closed_record ?ps 1000 ''STOP_LOSS'' ?m)"
    by (simp add: close_trade_result writes_succeed_def Let_def)
  with acc [of writes_succeed 120000000 ?p] acc [of close_raises 60000000 demo_engine] row(1) show ?thesis
    unfolding run by (simp add: split_beta demo_engine_def fl_eval)
qed

end
