(* ===== verification/PySum.thy ===== *)
theory PySum
  imports Float64
begin

text \<open>
  \<^verbatim>\<open>sum\<close> of a list of floats as CPython 3.12 computes it: compensated summation
  (Neumaier's variant of Kahan's), which keeps the running total and a running correction and adds
  them at the end. The correction can be negative; the lemmas show that it never outweighs the total
  of non-negative terms.
\<close>

definition sum_step :: "rat \<times> rat \<Rightarrow> rat \<Rightarrow> rat \<times> rat" where
  "sum_step s x =
     (case s of (f, c) \<Rightarrow>
        let t = fadd f x in (t, fadd c (if \<bar>f\<bar> \<ge> \<bar>x\<bar> then fadd (fsub f t) x else fadd (fsub x t) f)))"

definition py_sum :: "rat list \<Rightarrow> rat" where
  "py_sum xs = (case foldl sum_step (0, 0) xs of (f, c) \<Rightarrow> if c \<noteq> 0 then fadd f c else f)"

section \<open>Relative rounding errors of sums\<close>

text \<open>Multiples of the smallest positive double: sums of doubles stay on this grid, where rounding has a
  purely relative error.\<close>

definition tiny :: rat where
  "tiny = 2 powi (- 1074)"

definition on_grid :: "rat \<Rightarrow> bool" where
  "on_grid x \<longleftrightarrow> (\<exists>m :: int. x = of_int m * tiny)"

lemma on_grid_add: "on_grid x \<Longrightarrow> on_grid y \<Longrightarrow> on_grid (x + y)"
  unfolding on_grid_def by (metis distrib_right of_int_add)

lemma on_grid_uminus: "on_grid x \<Longrightarrow> on_grid (- x)"
  unfolding on_grid_def by (metis mult_minus_left of_int_minus)

lemma on_grid_diff: "on_grid x \<Longrightarrow> on_grid y \<Longrightarrow> on_grid (x - y)"
  using on_grid_add [of x "- y"] on_grid_uminus [of y] by simp

lemma ulp_grid: "\<exists>k. 2 powi ulp_exp x = of_int (2 ^ k) * tiny"
proof -
  have "ulp_exp x \<ge> - 1074" by (simp add: ulp_exp_def)
  then have "ulp_exp x = int (nat (ulp_exp x + 1074)) + (- 1074)" by simp
  then have "2 powi ulp_exp x = 2 powi int (nat (ulp_exp x + 1074)) * tiny"
    unfolding tiny_def by (metis power_int_add zero_neq_numeral)
  then have "2 powi ulp_exp x = of_int (2 ^ nat (ulp_exp x + 1074)) * tiny"
    by (simp only: power_int_of_nat of_int_power of_int_numeral)
  then show ?thesis by blast
qed

lemma on_grid_fl: "on_grid (fl x)"
proof (cases "x = 0")
  case False
  obtain k where k: "2 powi ulp_exp x = of_int (2 ^ k) * tiny" using ulp_grid by blast
  have "fl x = of_int (round_even (x / 2 powi ulp_exp x) * 2 ^ k) * tiny"
    using False by (simp only: fl_def k if_False of_int_mult mult.assoc)
  then show ?thesis unfolding on_grid_def by blast
qed (auto simp: on_grid_def)

lemma on_grid_double: "is_double x \<Longrightarrow> on_grid x"
  using on_grid_fl [of x] by (simp add: is_double_def)

lemma on_grid_0 [simp]: "on_grid 0"
  unfolding on_grid_def by (intro exI [of _ 0]) simp

lemma fl_error_ulp:
  assumes "x \<noteq> 0"
  shows "\<bar>fl x - x\<bar> \<le> 1 / 2 * 2 powi ulp_exp x"
proof -
  let ?u = "2 powi ulp_exp x :: rat"
  have u: "0 < ?u" by simp
  have "fl x - x = (of_int (round_even (x / ?u)) - x / ?u) * ?u"
    using assms u by (simp add: fl_def left_diff_distrib)
  then have "\<bar>fl x - x\<bar> = \<bar>of_int (round_even (x / ?u)) - x / ?u\<bar> * ?u" using u by (simp add: abs_mult)
  also have "\<dots> \<le> 1 / 2 * ?u" using round_even_error u by (intro mult_right_mono) auto
  finally show ?thesis .
qed

lemma fl_grid_exact: "ulp_exp x = - 1074 \<Longrightarrow> on_grid x \<Longrightarrow> fl x = x"
proof -
  assume a: "ulp_exp x = - 1074" "on_grid x"
  obtain m where m: "x = of_int m * tiny" using a(2) by (auto simp: on_grid_def)
  have t: "2 powi ulp_exp x = tiny" "tiny \<noteq> 0" by (simp_all only: a tiny_def) simp
  have "x / tiny = of_int m" using t(2) by (simp add: m)
  then have "of_int (round_even (x / tiny)) * tiny = x" by (simp only: round_even_of_int) (simp add: m)
  then show ?thesis by (simp only: fl_def t(1)) simp
qed

lemma fl_rel_error:
  assumes "on_grid x"
  shows "\<bar>fl x - x\<bar> \<le> \<bar>x\<bar> / 2 ^ 53"
proof (cases "x = 0 \<or> ulp_exp x = - 1074")
  case True
  then show ?thesis using fl_grid_exact [OF _ assms] by auto
next
  case False
  then have e: "ulp_exp x = fexp \<bar>x\<bar> - 52" and x: "x \<noteq> 0" by (auto simp: ulp_exp_def)
  have "\<bar>fl x - x\<bar> \<le> 1 / 2 * 2 powi ulp_exp x" using x by (rule fl_error_ulp)
  also have "\<dots> = 2 powi fexp \<bar>x\<bar> / 2 ^ 53" by (simp add: e power_int_diff)
  also have "\<dots> \<le> \<bar>x\<bar> / 2 ^ 53" using fexp_bounds(1) [of "\<bar>x\<bar>"] x by (simp add: divide_right_mono)
  finally show ?thesis .
qed

section \<open>Sums of non-negative terms\<close>

definition ueps :: rat where
  "ueps = 1 / 2 ^ 53"

lemma fl_rel_normal:
  assumes "2 powi - 1022 \<le> \<bar>x\<bar>"
  shows "\<bar>fl x - x\<bar> \<le> \<bar>x\<bar> * ueps"
proof -
  have pos: "0 < \<bar>x\<bar>" using assms by (rule less_le_trans [rotated]) simp
  then have x: "x \<noteq> 0" by simp
  have "- 1022 \<le> fexp \<bar>x\<bar>" using fexp_le_iff [OF pos, of "- 1022"] assms by simp
  then have e: "ulp_exp x = fexp \<bar>x\<bar> - 52" by (simp add: ulp_exp_def x)
  have "\<bar>fl x - x\<bar> \<le> 1 / 2 * 2 powi ulp_exp x" using x by (rule fl_error_ulp)
  also have "\<dots> = 2 powi fexp \<bar>x\<bar> / 2 ^ 53" by (simp add: e power_int_diff)
  also have "\<dots> \<le> \<bar>x\<bar> / 2 ^ 53" using fexp_bounds(1) [OF pos] by (simp add: divide_right_mono)
  finally show ?thesis by (simp add: ueps_def)
qed

lemma fl_upper: "on_grid x \<Longrightarrow> \<bar>fl x\<bar> \<le> \<bar>x\<bar> * (1 + ueps)"
proof -
  assume "on_grid x"
  from fl_rel_error [OF this] have "\<bar>fl x\<bar> \<le> \<bar>x\<bar> + \<bar>x\<bar> / 2 ^ 53" by linarith
  then show ?thesis by (simp only: ueps_def distrib_left) simp
qed

text \<open>One correction is small relative to the new total.\<close>

lemma correction_small:
  assumes "0 \<le> a" "0 \<le> b" "is_double a" "is_double b"
  shows "\<bar>fadd (fsub a (fadd a b)) b\<bar> \<le> 6 * ueps * fadd a b"
proof -
  let ?s = "a + b" let ?t = "fadd a b" let ?u = "fsub a ?t"
  have g: "on_grid a" "on_grid b" "on_grid ?t" "on_grid ?u"
    using assms(3,4) by (auto intro: on_grid_double)
  have t: "\<bar>?t - ?s\<bar> \<le> ueps * ?s"
    using fl_rel_error [OF on_grid_add [OF g(1,2)]] assms(1,2) by (simp add: fadd_def ueps_def)
  have u: "\<bar>?u - (a - ?t)\<bar> \<le> ueps * \<bar>a - ?t\<bar>"
    using fl_rel_error [OF on_grid_diff [OF g(1,3)]] by (simp add: fsub_def ueps_def)
  have e: "0 < ueps" "ueps \<le> 1 / 100" by (simp_all add: ueps_def)
  have es: "0 \<le> ueps * ?s" using e(1) assms by simp
  have "ueps * ?s \<le> 1 / 100 * ?s" using e assms by (intro mult_right_mono) auto
  then have ts: "99 / 100 * ?s \<le> ?t" using t by (simp add: abs_le_iff algebra_simps)
  have "\<bar>a - ?t\<bar> \<le> b + ueps * ?s" using t assms(2) by (auto simp: abs_le_iff)
  also have "\<dots> \<le> ?s + 1 / 100 * ?s" using \<open>ueps * ?s \<le> 1 / 100 * ?s\<close> assms(1) by linarith
  also have "\<dots> = 101 / 100 * ?s" by simp
  finally have "ueps * \<bar>a - ?t\<bar> \<le> ueps * (101 / 100 * ?s)" using e(1) by (intro mult_left_mono) simp_all
  then have "ueps * \<bar>a - ?t\<bar> \<le> 101 / 100 * (ueps * ?s)" by (simp only: mult.left_commute)
  moreover have "\<bar>?u + b\<bar> \<le> \<bar>?u - (a - ?t)\<bar> + \<bar>?t - ?s\<bar>" by linarith
  ultimately have u': "\<bar>?u + b\<bar> \<le> 201 / 100 * (ueps * ?s)" using u t by linarith
  have "\<bar>fadd ?u b\<bar> \<le> \<bar>?u + b\<bar> * (1 + ueps)"
    using fl_upper [OF on_grid_add [OF g(4,2)]] unfolding fadd_def [of "fsub a (fadd a b)" b] .
  also have "\<dots> \<le> 201 / 100 * (ueps * ?s) * (101 / 100)"
    using u' e es by (intro mult_mono) auto
  also have "\<dots> \<le> 6 * (ueps * (99 / 100 * ?s))" using es by (simp add: algebra_simps)
  also have "\<dots> \<le> 6 * (ueps * ?t)" using ts e(1) by (intro mult_left_mono) auto
  finally show ?thesis by (simp add: mult.assoc)
qed

text \<open>The state of the loop after \<open>n\<close> non-negative terms.\<close>

definition sum_ok :: "nat \<Rightarrow> rat \<times> rat \<Rightarrow> bool" where
  "sum_ok n s \<longleftrightarrow> 0 \<le> fst s \<and> is_double (fst s) \<and> on_grid (snd s) \<and> \<bar>snd s\<bar> \<le> 8 * of_nat n * ueps * fst s"

lemma sum_ok_step:
  assumes "sum_ok n s" "0 \<le> x" "is_double x" "n < 2 ^ 40"
  shows "sum_ok (Suc n) (sum_step s x)"
proof -
  obtain f c where s: "s = (f, c)" by (cases s)
  let ?t = "fadd f x"
  define k where "k = (if \<bar>f\<bar> \<ge> \<bar>x\<bar> then fadd (fsub f ?t) x else fadd (fsub x ?t) f)"
  have f: "0 \<le> f" "is_double f" "on_grid c" "\<bar>c\<bar> \<le> 8 * of_nat n * ueps * f" using assms(1) by (auto simp: sum_ok_def s)
  have comm: "fadd x f = ?t" by (simp add: fadd_def add.commute)
  have k: "\<bar>k\<bar> \<le> 6 * ueps * ?t" "on_grid k"
    using correction_small [OF f(1) assms(2) f(2) assms(3)] correction_small [OF assms(2) f(1) assms(3) f(2)]
    by (auto simp: k_def comm intro: on_grid_double)
  have ft: "f \<le> ?t" using f(2) assms(2) by (rule fadd_ge_left)
  have e: "0 < ueps" by (simp add: ueps_def)
  have "8 * of_nat n * ueps * f \<le> 8 * of_nat n * ueps * ?t" using ft e by (intro mult_left_mono) auto
  then have ck: "\<bar>c + k\<bar> \<le> (8 * of_nat n + 6) * (ueps * ?t)" using f(4) k(1) by (simp add: algebra_simps abs_le_iff)
  have small: "(8 * of_nat n + 6) * ueps \<le> 2"
  proof -
    have "(of_nat n :: rat) \<le> of_nat (2 ^ 40)" using assms(4) by (intro of_nat_mono) simp
    then show ?thesis by (simp add: ueps_def)
  qed
  have et: "0 \<le> ueps * ?t" using e ft f(1) by simp
  have "\<bar>fadd c k\<bar> \<le> \<bar>c + k\<bar> * (1 + ueps)" unfolding fadd_def using f(3) k(2) by (intro fl_upper on_grid_add)
  also have "\<dots> \<le> (8 * of_nat n + 6) * (ueps * ?t) * (1 + ueps)" using ck e by (intro mult_right_mono) auto
  also have "\<dots> = (8 * of_nat n + 6) * (ueps * ?t) + ((8 * of_nat n + 6) * ueps) * (ueps * ?t)" by (simp add: algebra_simps)
  also have "\<dots> \<le> (8 * of_nat n + 6) * (ueps * ?t) + 2 * (ueps * ?t)"
    using small et by (intro add_left_mono mult_right_mono)
  finally have "\<bar>fadd c k\<bar> \<le> 8 * of_nat (Suc n) * ueps * ?t" by (simp add: algebra_simps)
  moreover have "sum_step s x = (?t, fadd c k)" by (simp add: sum_step_def s Let_def k_def)
  ultimately show ?thesis using ft f(1) by (auto simp: sum_ok_def intro: on_grid_double)
qed

lemma sum_ok_fold:
  "sum_ok n s \<Longrightarrow> list_all (\<lambda>x. 0 \<le> x \<and> is_double x) xs \<Longrightarrow> n + length xs \<le> 2 ^ 40 \<Longrightarrow>
    sum_ok (n + length xs) (foldl sum_step s xs)"
proof (induction xs arbitrary: n s)
  case (Cons x xs)
  then have "sum_ok (Suc n) (sum_step s x)" by (intro sum_ok_step) auto
  with Cons.IH [of "Suc n" "sum_step s x"] Cons.prems show ?case by simp
qed simp

lemma py_sum_nonneg:
  assumes "list_all (\<lambda>x. 0 \<le> x \<and> is_double x) xs" "length xs \<le> 2 ^ 40"
  shows "0 \<le> py_sum xs"
proof -
  obtain f c where fc: "foldl sum_step (0, 0) xs = (f, c)" by fastforce
  have "sum_ok (0 + length xs) (foldl sum_step (0, 0) xs)"
    using assms by (intro sum_ok_fold) (simp_all add: sum_ok_def)
  then have s: "0 \<le> f" "\<bar>c\<bar> \<le> 8 * of_nat (length xs) * ueps * f" by (simp_all add: fc sum_ok_def)
  have "(of_nat (length xs) :: rat) \<le> of_nat (2 ^ 40)" using assms(2) by (intro of_nat_mono)
  then have "8 * of_nat (length xs) * ueps \<le> 1" by (simp add: ueps_def)
  then have "8 * of_nat (length xs) * ueps * f \<le> 1 * f" using s(1) by (intro mult_right_mono)
  then have "0 \<le> f + c" using s(2) by (simp add: abs_le_iff)
  then show ?thesis using s(1) by (simp add: py_sum_def fc fadd_def f64.rnd_nonneg)
qed

lemma is_double_sum_step: "is_double (fst (sum_step s x))"
  by (simp add: sum_step_def Let_def split: prod.split)

lemma is_double_py_sum [simp]: "is_double (py_sum xs)"
proof -
  have "is_double (fst s) \<Longrightarrow> is_double (fst (foldl sum_step s xs))" for s
    by (induction xs arbitrary: s) (simp_all add: is_double_sum_step)
  from this [of "(0, 0)"] show ?thesis by (auto simp: py_sum_def split: prod.split)
qed

end
