(* ===== verification/PaperEngine.thy ===== *)
theory PaperEngine
  imports PaperTrade PySum
begin

text \<open>
  The paper trading engine over all trades (\<^verbatim>\<open>src/app/paper/engine.py\<close>): restart recovery,
  the daily rollover, the entry gates and position sizing of \<^verbatim>\<open>check_entries\<close>, and
  \<^verbatim>\<open>check_exits\<close> over the open positions. What the repository answers is the environment
  record. Of the persistence calls that return nothing the two that re-raise a failure
  are modelled, the funding and the close rows; the others swallow their exceptions and are left out.
\<close>

section \<open>Marks, equity, exposure\<close>

definition set_marks :: "(string \<times> rat) list \<Rightarrow> paper_engine \<Rightarrow> paper_engine" where
  "set_marks prices pe = pe\<lparr>pe_marks := fold (\<lambda>(k, v). dput k v) prices (pe_marks pe)\<rparr>"

definition unrealized_pnl :: "paper_engine \<Rightarrow> rat" where
  "unrealized_pnl pe =
     foldl (\<lambda>u (symb, t). case dget (pe_marks pe) symb of None \<Rightarrow> u
              | Some m \<Rightarrow> fadd u (fmul (signed_move (pt_direction t) (market_entry t) m) (pt_size t)))
       0 (pe_open pe)"

definition mtm_equity :: "paper_engine \<Rightarrow> rat" where
  "mtm_equity pe = fadd (pe_balance pe) (unrealized_pnl pe)"

definition notional_of :: "paper_engine \<Rightarrow> direction \<Rightarrow> rat" where
  "notional_of pe d =
     foldl (\<lambda>n (symb, t). if pt_direction t = d
              then fadd n (max 0 (fmul (dget_or (pe_marks pe) (pt_symbol t) (market_entry t)) (pt_size t)))
              else n) 0 (pe_open pe)"

record exposure_report =
  xr_gross :: rat
  xr_long :: rat
  xr_short :: rat
  xr_net :: rat

definition portfolio_exposure :: "paper_settings \<Rightarrow> paper_engine \<Rightarrow> exposure_report" where
  "portfolio_exposure ps pe =
     (let l = notional_of pe LONG; s = notional_of pe SHORT; e = mtm_equity pe;
          den = (if e > 0 then e else ps_initial_balance ps)
      in \<lparr>xr_gross = fdiv (fadd l s) den, xr_long = fdiv l den, xr_short = fdiv s den,
          xr_net = fdiv (fsub l s) den\<rparr>)"

definition update_equity_drawdown :: "paper_engine \<Rightarrow> paper_engine" where
  "update_equity_drawdown pe =
     (let e = mtm_equity pe; peak = max (pe_peak_equity pe) e
      in pe\<lparr>pe_peak_equity := peak, pe_max_drawdown := max (pe_max_drawdown pe) (drawdown_of peak e)\<rparr>)"

section \<open>Restart recovery and the daily rollover\<close>

text \<open>\<open>re_raises\<close>: the lookup or the insert of the setup's trade raised; \<open>re_risk_raises\<close>: the query of the risk
  state raised.\<close>

record repo_env =
  re_risk_state :: "(rat \<times> int \<times> int option) option"
  re_executed :: "string \<Rightarrow> bool"
  re_save :: "string \<Rightarrow> int option"
  re_use_pg :: bool
  re_raises :: "string \<Rightarrow> bool"
  re_risk_raises :: bool

definition load_risk_state :: "repo_env \<Rightarrow> int \<Rightarrow> paper_engine \<Rightarrow> paper_engine" where
  "load_risk_state env now pe =
     (case re_risk_state env of
        None \<Rightarrow> pe
      | Some (loss, losses, until) \<Rightarrow>
          let pe = pe\<lparr>pe_daily_loss := loss, pe_losses := losses\<rparr>
          in case until of None \<Rightarrow> pe
             | Some c \<Rightarrow> if c > now then pe\<lparr>pe_cooldown := Some c\<rparr>
                         else pe\<lparr>pe_losses := 0, pe_cooldown := None\<rparr>)"

definition utc_day :: "int \<Rightarrow> int" where
  "utc_day now = now div (86400 * 1000000)"

definition refresh_daily_risk :: "repo_env \<Rightarrow> int \<Rightarrow> paper_engine \<Rightarrow> paper_engine" where
  "refresh_daily_risk env now pe =
     (if utc_day now = pe_risk_day pe then pe
      else (load_risk_state env now pe)\<lparr>pe_risk_day := utc_day now\<rparr>)"

definition new_engine :: "paper_settings \<Rightarrow> int \<Rightarrow> paper_engine" where
  "new_engine ps now =
     \<lparr>pe_balance = ps_initial_balance ps, pe_open = [], pe_peak_balance = ps_initial_balance ps,
      pe_peak_equity = ps_initial_balance ps, pe_max_drawdown = 0, pe_marks = [], pe_daily_loss = 0,
      pe_losses = 0, pe_cooldown = None, pe_halt = False, pe_risk_day = utc_day now, pe_gaps = [],
      pe_last_gap = None, pe_gate_since = None, pe_gate_reason = None, pe_rows = []\<rparr>"

definition load_account_state :: "(rat \<times> rat) option \<Rightarrow> paper_engine \<Rightarrow> paper_engine" where
  "load_account_state snapshot pe =
     (case snapshot of None \<Rightarrow> pe
      | Some (balance, dd) \<Rightarrow> pe\<lparr>pe_balance := balance, pe_max_drawdown := dd,
          pe_peak_balance := (if dd < 1 then fdiv balance (fsub 1 dd) else balance)\<rparr>)"

text \<open>A row of \<^verbatim>\<open>get_open_paper_trades\<close>; the execution policy and the planned exit are not read
  back.\<close>

record open_row =
  ow_id :: int
  ow_setup :: string
  ow_symbol :: string
  ow_scanner :: string
  ow_direction :: direction
  ow_entry :: rat
  ow_fee :: rat
  ow_stop :: rat
  ow_tp1 :: "rat option"
  ow_tp2 :: "rat option"
  ow_size :: rat
  ow_risk :: rat
  ow_balance_before :: rat
  ow_entered :: int
  ow_market :: "rat option"
  ow_slippage :: rat
  ow_mfe :: rat
  ow_mae :: rat
  ow_timeframe :: string
  ow_funding :: rat
  ow_periods :: int
  ow_dca_enabled :: bool
  ow_dca :: "dca_position option"

definition trade_of_row :: "open_row \<Rightarrow> paper_trade" where
  "trade_of_row r =
     \<lparr>pt_trade_id = Some (ow_id r), pt_setup_id = ow_setup r, pt_symbol = ow_symbol r,
      pt_scanner = ow_scanner r, pt_direction = ow_direction r, pt_entry_price = ow_entry r,
      pt_entry_fee = ow_fee r, pt_stop_price = ow_stop r, pt_target_1 = ow_tp1 r, pt_target_2 = ow_tp2 r,
      pt_size = ow_size r, pt_risk_usdt = ow_risk r, pt_entered_at = ow_entered r,
      pt_entry_market = (case ow_market r of Some m \<Rightarrow> m | None \<Rightarrow> ow_entry r),
      pt_entry_slippage = ow_slippage r, pt_mfe = ow_mfe r, pt_mae = ow_mae r,
      pt_timeframe = ow_timeframe r, pt_highest = 0, pt_lowest = None, pt_funding_paid = ow_funding r,
      pt_funding_periods = ow_periods r, pt_dca_enabled = ow_dca_enabled r,
      pt_dca = (if ow_dca_enabled r then ow_dca r else None), pt_policy = ''DEFAULT'',
      pt_planned_exit = None\<rparr>"

fun earliest_row :: "open_row \<Rightarrow> open_row list \<Rightarrow> open_row" where
  "earliest_row r [] = r"
| "earliest_row r (s # ss) = earliest_row (if ow_entered s < ow_entered r then s else r) ss"

definition load_open_trades :: "open_row list \<Rightarrow> bool \<Rightarrow> paper_engine \<Rightarrow> paper_engine" where
  "load_open_trades rows loaded pe =
     (let pe1 = pe\<lparr>pe_open := foldl (\<lambda>d r. dput (ow_symbol r) (trade_of_row r) d) (pe_open pe) rows\<rparr>
      in case rows of [] \<Rightarrow> pe1
         | r # rs \<Rightarrow> if loaded then pe1
             else pe1\<lparr>pe_balance := fsub (ow_balance_before (earliest_row r rs))
                                        (py_sum (map ow_fee rows))\<rparr>)"

definition load_safety_gate ::
  "paper_settings \<Rightarrow> (bool \<times> string option \<times> int option) option \<Rightarrow> paper_engine \<Rightarrow> paper_engine" where
  "load_safety_gate ps gate pe =
     (case gate of None \<Rightarrow> pe
      | Some (blocked, reason, since) \<Rightarrow>
          if \<not> blocked then pe
          else if ps_gate_mode ps \<noteq> GateEnforce then pe
          else pe\<lparr>pe_halt := True, pe_gate_since := since,
                  pe_gate_reason := Some (case reason of Some r \<Rightarrow> if r = '''' then ''SAFETY_GATE'' else r
                                          | None \<Rightarrow> ''SAFETY_GATE'')\<rparr>)"

definition start_engine ::
  "paper_settings \<Rightarrow> repo_env \<Rightarrow> int \<Rightarrow> (rat \<times> rat) option \<Rightarrow> open_row list \<Rightarrow>
   (bool \<times> string option \<times> int option) option \<Rightarrow> paper_engine" where
  "start_engine ps env now snapshot rows gate =
     load_safety_gate ps gate (load_risk_state env now
       (load_open_trades rows (snapshot \<noteq> None) (load_account_state snapshot (new_engine ps now))))"

section \<open>Entries\<close>

record candidate =
  cd_setup :: string
  cd_scanner :: string
  cd_symbol :: string
  cd_direction :: direction
  cd_zone_low :: rat
  cd_zone_high :: rat
  cd_invalidation :: rat
  cd_target_1 :: "rat option"
  cd_target_2 :: "rat option"
  cd_timeframe :: string
  cd_regime :: "string option"

text \<open>The consecutive-loss gate: \<open>None\<close> stops the scan of the candidates.\<close>

definition loss_gate :: "paper_settings \<Rightarrow> int \<Rightarrow> paper_engine \<Rightarrow> paper_engine option" where
  "loss_gate ps now pe =
     (if pe_losses pe \<ge> ps_max_consecutive_losses ps
      then if ps_paper_mode ps \<and> ps_cooldown_minutes ps > 0
           then (case pe_cooldown pe of
                   None \<Rightarrow> Some (pe\<lparr>pe_cooldown := Some (cooldown_from ps now)\<rparr>)
                 | Some c \<Rightarrow> if c \<le> now then Some (pe\<lparr>pe_losses := 0, pe_cooldown := None\<rparr>) else None)
           else None
      else Some pe)"

definition regime_rejects :: "paper_settings \<Rightarrow> candidate \<Rightarrow> bool" where
  "regime_rejects ps c =
     (case cd_regime c of
        None \<Rightarrow> False
      | Some regime \<Rightarrow>
          if \<not> ps_regime_filter ps \<or> regime = '''' then False
          else case dget (ps_regime_whitelist ps) (cd_scanner c, cd_direction c) of
                 Some allowed \<Rightarrow> regime \<notin> set allowed
               | None \<Rightarrow> cd_direction c = LONG \<and> regime = ''TREND_DOWN'' \<or>
                         cd_direction c = SHORT \<and> regime = ''TREND_UP'')"

definition validate_geometry :: "candidate \<Rightarrow> rat \<Rightarrow> bool" where
  "validate_geometry c price =
     (if cd_direction c = LONG then cd_invalidation c < price else cd_invalidation c > price)"

record position_plan =
  pp_entry :: rat
  pp_distance :: rat
  pp_quantity :: rat
  pp_risk :: rat
  pp_fee :: rat
  pp_slippage :: rat

definition notional_cap :: "paper_settings \<Rightarrow> paper_engine \<Rightarrow> direction \<Rightarrow> rat" where
  "notional_cap ps pe d =
     (let l = notional_of pe LONG; s = notional_of pe SHORT; e = mtm_equity pe;
          gross_remaining = max 0 (fsub (fsub (fmul e (ps_max_gross_exposure ps)) l) s);
          net_limit = fmul e (ps_max_net_exposure ps); net = fsub l s;
          net_remaining = (if d = LONG then fsub net_limit net else fadd net_limit net)
      in max 0 (min gross_remaining net_remaining))"

definition plan_position :: "paper_settings \<Rightarrow> paper_engine \<Rightarrow> candidate \<Rightarrow> rat \<Rightarrow> position_plan option" where
  "plan_position ps pe c price =
     (let entry = adverse_entry ps (cd_direction c) price;
          distance = \<bar>fsub entry (cd_invalidation c)\<bar>
      in if distance \<le> 0 \<or> entry \<le> 0 then None
      else let requested = fmul (pe_balance pe) (ps_risk_per_trade ps);
               cap = fdiv (fmul (pe_balance pe) (ps_max_symbol_exposure ps)) entry;
               q = min (min (fdiv requested distance) cap) (fdiv (notional_cap ps pe (cd_direction c)) entry);
               risk = fmul distance q;
               fee = fmul (fmul entry q) (ps_taker_fee ps);
               slip = fmul \<bar>fsub entry price\<bar> q;
               ratio = (if requested > 0 then fdiv risk requested else 0)
           in if q \<le> 0 then None
              else if ratio < ps_min_effective_risk ps then None
              else if fsub (fsub (pe_balance pe) fee) slip \<le> 0 then None
              else Some \<lparr>pp_entry = entry, pp_distance = distance, pp_quantity = q, pp_risk = risk,
                         pp_fee = fee, pp_slippage = slip\<rparr>)"

definition entry_policy :: "paper_settings \<Rightarrow> int \<Rightarrow> candidate \<Rightarrow> string \<times> int option" where
  "entry_policy ps now c =
     (case dget (ps_policies ps) (cd_scanner c, cd_direction c) of
        Some p \<Rightarrow> if ep_enabled p \<and> ep_policy p \<in> {''FIXED_HORIZON_V1'', ''FIXED_TP_SL_HORIZON_V1''}
                  then (ep_policy p, Some (now + ep_hold_minutes p * 60000000)) else (''DEFAULT'', None)
      | None \<Rightarrow> (''DEFAULT'', None))"

definition new_trade ::
  "paper_settings \<Rightarrow> int \<Rightarrow> int option \<Rightarrow> candidate \<Rightarrow> rat \<Rightarrow> position_plan \<Rightarrow> paper_trade" where
  "new_trade ps now trade_id c price p =
     \<lparr>pt_trade_id = trade_id, pt_setup_id = cd_setup c, pt_symbol = cd_symbol c, pt_scanner = cd_scanner c,
      pt_direction = cd_direction c, pt_entry_price = py_round (pp_entry p) 6,
      pt_entry_fee = py_round (pp_fee p) 6, pt_stop_price = py_round (cd_invalidation c) 6,
      pt_target_1 = cd_target_1 c, pt_target_2 = cd_target_2 c, pt_size = py_round (pp_quantity p) 6,
      pt_risk_usdt = py_round (pp_risk p) 6, pt_entered_at = now, pt_entry_market = py_round price 6,
      pt_entry_slippage = py_round (pp_slippage p) 6, pt_mfe = 0, pt_mae = 0,
      pt_timeframe = cd_timeframe c, pt_highest = price, pt_lowest = Some price, pt_funding_paid = 0,
      pt_funding_periods = 0, pt_dca_enabled = False, pt_dca = None,
      pt_policy = fst (entry_policy ps now c), pt_planned_exit = snd (entry_policy ps now c)\<rparr>"

text \<open>The split of a fresh position when DCA is on and its levels are valid.\<close>

definition attach_dca :: "paper_settings \<Rightarrow> int \<Rightarrow> candidate \<Rightarrow> position_plan \<Rightarrow> paper_trade \<Rightarrow> paper_trade" where
  "attach_dca ps now c p t =
     (let atr = (if ps_atr_stop_multiple ps > 0 then fdiv (pp_distance p) (ps_atr_stop_multiple ps) else 0);
          split = calculate_position_split (pp_quantity p) (ds_initial_entry_pct (ps_dca ps))
                    (ds_dca_entry_pct (ps_dca ps)) 8;
          d = create_initial_state now (pt_trade_id t) (pp_entry p) (fst split) atr (ps_dca ps)
                (cd_direction c) (case cd_target_1 c of Some x \<Rightarrow> x | None \<Rightarrow> 0) (pp_entry p)
      in if ds_enabled (ps_dca ps) \<and> atr > 0 \<and> fst split > 0 \<and> snd split > 0 \<and> dp_enabled d
         then t\<lparr>pt_size := fst split, pt_risk_usdt := fmul (pp_distance p) (fst split),
                pt_dca_enabled := True, pt_dca := Some d\<rparr>
         else t)"

datatype entry_outcome =
    EntryStop paper_engine | EntrySkip paper_engine | EntryOpened paper_engine paper_trade | EntryRaised paper_engine

definition open_position ::
  "paper_settings \<Rightarrow> repo_env \<Rightarrow> int \<Rightarrow> (string \<times> rat) list \<Rightarrow> candidate \<Rightarrow> rat \<Rightarrow> paper_engine \<Rightarrow> entry_outcome" where
  "open_position ps env now prices c price pe0 =
     (if adverse_entry ps (cd_direction c) price \<le> 0 \<or>
         \<bar>fsub (adverse_entry ps (cd_direction c) price) (cd_invalidation c)\<bar> \<le> 0
      then EntrySkip pe0
      else let pe = set_marks prices pe0 in
        case plan_position ps pe c price of
          None \<Rightarrow> EntrySkip pe
        | Some p \<Rightarrow>
            if re_raises env (cd_setup c) then EntryRaised pe
            else if re_executed env (cd_setup c) then EntrySkip pe
            else let trade_id = re_save env (cd_setup c) in
              if trade_id = None \<and> re_use_pg env then EntrySkip pe
              else let t = attach_dca ps now c p (new_trade ps now trade_id c price p)
                in EntryOpened
                     (pe\<lparr>pe_balance := fsub (pe_balance pe) (fadd (pp_fee p) (pp_slippage p)),
                         pe_open := dput (cd_symbol c) t (pe_open pe),
                         pe_marks := dput (cd_symbol c) price (pe_marks pe)\<rparr>) t)"

definition candidate_step ::
  "paper_settings \<Rightarrow> repo_env \<Rightarrow> int \<Rightarrow> (string \<times> rat) list \<Rightarrow> candidate \<Rightarrow> paper_engine \<Rightarrow> entry_outcome" where
  "candidate_step ps env now prices c pe =
     (case dget prices (cd_symbol c) of
        None \<Rightarrow> EntrySkip pe
      | Some price \<Rightarrow>
          if dhas (pe_open pe) (cd_symbol c) then EntrySkip pe
          else if int (length (pe_open pe)) \<ge> ps_max_open_positions ps then EntryStop pe
          else if pe_daily_loss pe \<ge> fmul (ps_initial_balance ps) (ps_max_daily_loss ps) then EntryStop pe
          else case loss_gate ps now pe of
            None \<Rightarrow> EntryStop pe
          | Some pe1 \<Rightarrow>
              if regime_rejects ps c then EntrySkip pe1
              else if \<not> (cd_zone_low c \<le> price \<and> price \<le> cd_zone_high c) then EntrySkip pe1
              else if \<not> validate_geometry c price then EntrySkip pe1
              else open_position ps env now prices c price pe1)"

text \<open>The opened trades and whether the pass returned them: an exception ends it with the trades opened so far in
  the book.\<close>

fun entries_loop ::
  "paper_settings \<Rightarrow> repo_env \<Rightarrow> int \<Rightarrow> (string \<times> rat) list \<Rightarrow> candidate list \<Rightarrow> paper_engine \<Rightarrow>
   paper_engine \<times> paper_trade list \<times> bool" where
  "entries_loop ps env now prices [] pe = (pe, [], True)"
| "entries_loop ps env now prices (c # cs) pe =
     (case candidate_step ps env now prices c pe of
        EntryStop pe' \<Rightarrow> (pe', [], True)
      | EntrySkip pe' \<Rightarrow> entries_loop ps env now prices cs pe'
      | EntryOpened pe' t \<Rightarrow>
          (case entries_loop ps env now prices cs pe' of (pe'', ts, ok) \<Rightarrow> (pe'', t # ts, ok))
      | EntryRaised pe' \<Rightarrow> (pe', [], False))"

definition refresh_raises :: "repo_env \<Rightarrow> int \<Rightarrow> paper_engine \<Rightarrow> bool" where
  "refresh_raises env now pe \<longleftrightarrow> utc_day now \<noteq> pe_risk_day pe \<and> re_risk_raises env"

definition check_entries ::
  "paper_settings \<Rightarrow> repo_env \<Rightarrow> int \<Rightarrow> candidate list \<Rightarrow> (string \<times> rat) list \<Rightarrow> paper_engine \<Rightarrow>
   paper_engine \<times> paper_trade list \<times> bool" where
  "check_entries ps env now cands prices pe0 =
     (if refresh_raises env now pe0 then (pe0, [], False)
      else let pe = refresh_daily_risk env now pe0
        in if pe_halt pe then (pe, [], True) else entries_loop ps env now prices cands pe)"

section \<open>Exits\<close>

text \<open>The trade objects are updated in place while the dictionary is iterated; the closed ones
  are removed afterwards. An exception leaves the loop at the trade that raised it, and with it the pass: nothing
  is removed and no result is returned.\<close>

fun exits_loop ::
  "paper_settings \<Rightarrow> exit_writes \<Rightarrow> int \<Rightarrow> (string \<times> rat) list \<Rightarrow> (string \<times> rat) list \<Rightarrow> (string \<times> paper_trade) list \<Rightarrow>
   paper_engine \<Rightarrow> paper_engine \<times> (string \<times> closed_row) list \<times> bool" where
  "exits_loop ps w now prices rates [] pe = (pe, [], True)"
| "exits_loop ps w now prices rates ((symb, t) # rest) pe =
     (case dget prices symb of
        None \<Rightarrow> exits_loop ps w now prices rates rest pe
      | Some price \<Rightarrow>
          (case process_trade ps w now price (dget_or rates symb 0)
                  (pe\<lparr>pe_marks := dput symb price (pe_marks pe)\<rparr>) t of
             (pe1, t1, r) \<Rightarrow>
               let pe2 = pe1\<lparr>pe_open := dput symb t1 (pe_open pe1)\<rparr>
               in case r of
                    Held \<Rightarrow> exits_loop ps w now prices rates rest pe2
                  | Shut row \<Rightarrow>
                      (case exits_loop ps w now prices rates rest pe2 of (pe3, shut, ok) \<Rightarrow> (pe3, (symb, row) # shut, ok))
                  | Aborted row \<Rightarrow> (pe2, [], False)))"

definition drop_symbols :: "string list \<Rightarrow> paper_engine \<Rightarrow> paper_engine" where
  "drop_symbols syms pe =
     pe\<lparr>pe_open := fold ddel syms (pe_open pe), pe_marks := fold ddel syms (pe_marks pe)\<rparr>"

definition check_exits ::
  "paper_settings \<Rightarrow> exit_writes \<Rightarrow> int \<Rightarrow> (string \<times> rat) list \<Rightarrow> (string \<times> rat) list \<Rightarrow> paper_engine \<Rightarrow>
   paper_engine \<times> closed_row list option" where
  "check_exits ps w now prices rates pe =
     (case exits_loop ps w now prices rates (pe_open pe) pe of
        (pe1, shut, ok) \<Rightarrow>
          if ok then (update_equity_drawdown (drop_symbols (map fst shut) pe1), Some (map snd shut)) else (pe1, None))"

text \<open>The state changes of \<^verbatim>\<open>snapshot\<close>; its dictionary of rounded figures is left out.\<close>

definition take_snapshot :: "int \<Rightarrow> (string \<times> rat) list \<Rightarrow> paper_engine \<Rightarrow> paper_engine" where
  "take_snapshot now prices pe = cleanup_gaps now (update_equity_drawdown (set_marks prices pe))"

section \<open>Exits: one pass over the book\<close>

text \<open>What a pass does to one open trade at a price: the updated trade and how its handling ends. It is
  computed with an arbitrary engine, because the account does not decide the exits.\<close>

definition trade_outcome ::
  "paper_settings \<Rightarrow> exit_writes \<Rightarrow> int \<Rightarrow> (string \<times> rat) list \<Rightarrow> (string \<times> rat) list \<Rightarrow> string \<Rightarrow> paper_trade \<Rightarrow>
   paper_trade \<times> exit_result" where
  "trade_outcome ps w now prices rates symb t =
     (case dget prices symb of None \<Rightarrow> (t, Held)
      | Some price \<Rightarrow> snd (process_trade ps w now price (dget_or rates symb 0) (new_engine ps now) t))"

lemma process_trade_outcome:
  "dget prices symb = Some price \<Longrightarrow>
   snd (process_trade ps w now price (dget_or rates symb 0) pe t) = trade_outcome ps w now prices rates symb t"
  by (simp add: trade_outcome_def process_trade_blind [of ps w now price _ pe])

fun closes :: "string \<Rightarrow> exit_result \<Rightarrow> (string \<times> closed_row) list" where
  "closes symb (Shut row) = [(symb, row)]"
| "closes symb r = []"

fun booked :: "exit_result \<Rightarrow> closed_row list" where
  "booked r = (case attempted r of None \<Rightarrow> [] | Some row \<Rightarrow> [row])"

fun was_aborted :: "exit_result \<Rightarrow> bool" where
  "was_aborted (Aborted row) = True"
| "was_aborted r = False"

text \<open>Over a part of the book: the trades it closes, the close rows it books, the trades that end it.\<close>

definition closed_rows ::
  "paper_settings \<Rightarrow> exit_writes \<Rightarrow> int \<Rightarrow> (string \<times> rat) list \<Rightarrow> (string \<times> rat) list \<Rightarrow> (string \<times> paper_trade) list \<Rightarrow>
   (string \<times> closed_row) list" where
  "closed_rows ps w now prices rates book =
     concat (map (\<lambda>(symb, t). closes symb (snd (trade_outcome ps w now prices rates symb t))) book)"

definition booked_rows ::
  "paper_settings \<Rightarrow> exit_writes \<Rightarrow> int \<Rightarrow> (string \<times> rat) list \<Rightarrow> (string \<times> rat) list \<Rightarrow> (string \<times> paper_trade) list \<Rightarrow>
   closed_row list" where
  "booked_rows ps w now prices rates book =
     concat (map (\<lambda>(symb, t). booked (snd (trade_outcome ps w now prices rates symb t))) book)"

definition raises ::
  "paper_settings \<Rightarrow> exit_writes \<Rightarrow> int \<Rightarrow> (string \<times> rat) list \<Rightarrow> (string \<times> rat) list \<Rightarrow> string \<times> paper_trade \<Rightarrow> bool" where
  "raises ps w now prices rates x =
     (case x of (symb, t) \<Rightarrow> was_aborted (snd (trade_outcome ps w now prices rates symb t)))"

text \<open>What a loop handles that ends at the first element with \<open>P\<close>.\<close>

fun reached :: "('a \<Rightarrow> bool) \<Rightarrow> 'a list \<Rightarrow> 'a list" where
  "reached P [] = []"
| "reached P (x # xs) = x # (if P x then [] else reached P xs)"

lemma reached_all: "list_all (\<lambda>x. \<not> P x) xs \<Longrightarrow> reached P xs = xs"
  by (induction xs) auto

lemma reached_prefix: "\<exists>ys. xs = reached P xs @ ys"
  by (induction xs) auto

lemma reached_dget: "dwf d \<Longrightarrow> dget (reached P d) k = Some v \<Longrightarrow> dget d k = Some v"
  using reached_prefix [of d P] by (metis (no_types, lifting) map_add_Some_iff map_of_append dwf_dget_iff map_of_SomeD Un_iff set_append)

lemma dwf_reached: "dwf d \<Longrightarrow> dwf (reached P d)"
  using reached_prefix [of d P] by (metis distinct_append dwf_def map_append)

text \<open>No check touches the book itself.\<close>

lemma close_trade_open [simp]: "pe_open (fst (close_trade ps w now x reason pe t)) = pe_open pe"
  by (simp add: close_trade_def book_peak_def book_result_def Let_def)

lemma stop_phase_open [simp]: "pe_open (fst (stop_phase ps w now price pe t)) = pe_open pe"
  by (rule stop_phase_engine) (simp_all add: record_stop_gap_event_def cleanup_gaps_def activate_safety_gate_def Let_def)

lemma process_trade_open [simp]: "pe_open (fst (process_trade ps w now price rate pe t)) = pe_open pe"
proof -
  have "pe_open (fst (f ps w now price p u)) = pe_open pe"
    if "f \<in> {horizon_phase, dca_phase, breakeven_phase, tp1_phase, tp2_phase, trailing_phase, expiry_phase}"
      and "pe_open (fst (p, u, Held)) = pe_open pe" for f p u
  proof -
    from that(1) consider "f = dca_phase" | "f = trailing_phase" | "f = horizon_phase" | "f = breakeven_phase"
      | "f = tp1_phase" | "f = tp2_phase" | "f = expiry_phase" by blast
    then show ?thesis
      using that(2)
      by cases (auto simp: dca_phase_def fill_second_leg_def trailing_phase_def check_trailing_stop_def
          horizon_phase_def breakeven_phase_def tp1_phase_def tp2_phase_def expiry_phase_def Let_def
          split: option.split)
  qed
  moreover have f: "pe_open (fst (apply_funding ps w now rate pe t)) = pe_open pe"
    by (simp add: apply_funding_def Let_def)
  ultimately have "pe_open (fst (exit_checks ps w now price (fst (apply_funding ps w now rate pe t))
      (marked_trade ps now price rate t))) = pe_open pe"
    by (intro exit_checks_rule [where Q = "\<lambda>s. pe_open (fst s) = pe_open pe"]) simp_all
  with f show ?thesis by (simp add: process_trade_marked)
qed

text \<open>Every handling appends the close it booked, written or not.\<close>

lemma close_trade_rows [simp]:
  "pe_rows (fst (close_trade ps w now x reason pe t)) = pe_rows pe @ [closed_record ps x reason t]"
  by (simp add: close_trade_def book_peak_def book_result_def Let_def)

lemma record_gap_rows [simp]: "pe_rows (record_stop_gap_event ps now t x y b p) = pe_rows p"
  by (simp add: record_stop_gap_event_def cleanup_gaps_def activate_safety_gate_def Let_def)

definition rows_of :: "closed_row list \<Rightarrow> exit_state \<Rightarrow> bool" where
  "rows_of rs s \<longleftrightarrow> pe_rows (fst s) = rs @ booked (snd (snd s))"

lemma rows_of_close [simp]: "rows_of rs (close_trade ps w now x reason pe t) \<longleftrightarrow> pe_rows pe = rs"
  by (simp add: rows_of_def)

lemma stop_phase_rows: "pe_rows pe = rs \<Longrightarrow> rows_of rs (stop_phase ps w now price pe t)"
proof (cases "reached_down (pt_direction t) price (active_stop ps t)")
  case True
  assume rs: "pe_rows pe = rs"
  let ?x = "adverse_exit ps (pt_direction t) (active_stop ps t)" and ?r = "stop_reason t (price \<noteq> active_stop ps t)"
  obtain pe1 t1 r where c: "close_trade ps w now ?x ?r pe t = (pe1, t1, r)" by (metis prod_cases3)
  have "rows_of rs (pe1, t1, r)" using rs rows_of_close [of rs ps w now ?x ?r pe t] by (simp add: c)
  then show ?thesis using True by (cases r) (simp_all add: stop_phase_def c Let_def rows_of_def)
qed (simp add: stop_phase_miss rows_of_def)

lemma later_phase_rows:
  assumes "f \<in> {horizon_phase, dca_phase, breakeven_phase, tp1_phase, tp2_phase, trailing_phase, expiry_phase}"
    and "rows_of rs (p, u, Held)"
  shows "rows_of rs (f ps w now price p u)"
proof -
  have p: "pe_rows p = rs" using assms(2) by (simp add: rows_of_def)
  from assms(1) consider "f = dca_phase" | "f = trailing_phase" | "f = horizon_phase" | "f = breakeven_phase"
    | "f = tp1_phase" | "f = tp2_phase" | "f = expiry_phase" by blast
  then show ?thesis
    using assms(2) p
    by cases (auto simp: dca_phase_def fill_second_leg_def trailing_phase_def check_trailing_stop_def
        horizon_phase_def breakeven_phase_def tp1_phase_def tp2_phase_def expiry_phase_def Let_def rows_of_def
        split: option.split)
qed

lemma process_trade_rows: "rows_of (pe_rows pe) (process_trade ps w now price rate pe t)"
proof -
  have f: "pe_rows (fst (apply_funding ps w now rate pe t)) = pe_rows pe"
    by (simp add: apply_funding_def Let_def)
  have "rows_of (pe_rows pe) (exit_checks ps w now price (fst (apply_funding ps w now rate pe t)) (marked_trade ps now price rate t))"
    by (rule exit_checks_rule, rule stop_phase_rows [OF f], rule later_phase_rows)
  then show ?thesis using f by (simp add: process_trade_marked rows_of_def)
qed

definition updated_book ::
  "paper_settings \<Rightarrow> exit_writes \<Rightarrow> int \<Rightarrow> (string \<times> rat) list \<Rightarrow> (string \<times> rat) list \<Rightarrow> (string \<times> paper_trade) list \<Rightarrow>
   (string \<times> paper_trade) list \<Rightarrow> (string \<times> paper_trade) list" where
  "updated_book ps w now prices rates book open0 =
     foldl (\<lambda>d (symb, t). if dhas prices symb then dput symb (fst (trade_outcome ps w now prices rates symb t)) d else d)
       open0 book"

text \<open>The loop in terms of the outcomes of the single trades: what it returns, the book and the booked closes.\<close>

lemma exits_loop_spec:
  "snd (exits_loop ps w now prices rates book pe) =
     (closed_rows ps w now prices rates (reached (raises ps w now prices rates) book),
      list_all (\<lambda>x. \<not> raises ps w now prices rates x) book) \<and>
   pe_open (fst (exits_loop ps w now prices rates book pe)) =
     updated_book ps w now prices rates (reached (raises ps w now prices rates) book) (pe_open pe) \<and>
   pe_rows (fst (exits_loop ps w now prices rates book pe)) =
     pe_rows pe @ booked_rows ps w now prices rates (reached (raises ps w now prices rates) book)"
proof (induction book arbitrary: pe)
  case Nil
  show ?case by (simp add: closed_rows_def booked_rows_def updated_book_def)
next
  case (Cons x rest)
  obtain symb t where x: "x = (symb, t)" by (cases x)
  show ?case
  proof (cases "dget prices symb")
    case None
    then have "trade_outcome ps w now prices rates symb t = (t, Held)" by (simp add: trade_outcome_def)
    with Cons.IH [of pe] None show ?thesis
      by (simp add: x raises_def closed_rows_def booked_rows_def updated_book_def dhas_def)
  next
    case (Some price)
    let ?pe = "pe\<lparr>pe_marks := dput symb price (pe_marks pe)\<rparr>"
    obtain p t1 r where p: "process_trade ps w now price (dget_or rates symb 0) ?pe t = (p, t1, r)" by (metis prod_cases3)
    have o: "trade_outcome ps w now prices rates symb t = (t1, r)"
      using process_trade_outcome [OF Some, of ps w now rates ?pe t] by (simp only: p snd_conv)
    have k: "pe_open p = pe_open pe" "pe_rows p = pe_rows pe @ booked r"
      using process_trade_open [of ps w now price "dget_or rates symb 0" ?pe t]
        process_trade_rows [of ?pe ps w now price "dget_or rates symb 0" t] p by (simp_all add: rows_of_def)
    show ?thesis
      using Cons.IH [of "p\<lparr>pe_open := dput symb t1 (pe_open p)\<rparr>"]
      by (cases r) (auto simp: x Some p o k raises_def closed_rows_def booked_rows_def updated_book_def dhas_def split_beta)
  qed
qed

lemma updated_book_get:
  assumes "dwf book"
  shows "dget (updated_book ps w now prices rates book open0) k =
    (case dget book k of
       Some t \<Rightarrow> if dhas prices k then Some (fst (trade_outcome ps w now prices rates k t)) else dget open0 k
     | None \<Rightarrow> dget open0 k)"
  using assms
proof (induction book arbitrary: open0)
  case (Cons x rest)
  obtain symb t where x: "x = (symb, t)" by (cases x)
  have fresh: "dget rest symb = None" and wf: "dwf rest"
    using Cons.prems by (simp_all add: x dwf_def map_of_eq_None_iff)
  show ?case
    using Cons.IH [OF wf] fresh by (auto simp: x updated_book_def split: option.split)
qed (simp add: updated_book_def)

lemma closed_rows_iff:
  "dwf book \<Longrightarrow> k \<in> fst ` set (closed_rows ps w now prices rates book) \<longleftrightarrow>
     (case dget book k of None \<Rightarrow> False | Some t \<Rightarrow> closes k (snd (trade_outcome ps w now prices rates k t)) \<noteq> [])"
proof (induction book)
  case (Cons x rest)
  obtain symb t where x: "x = (symb, t)" by (cases x)
  have fresh: "dget rest symb = None" and wf: "dwf rest"
    using Cons.prems by (simp_all add: x dwf_def map_of_eq_None_iff)
  have "fst ` set (closes symb r) = (if closes symb r = [] then {} else {symb})" for r
    by (cases r) simp_all
  then show ?case
    using Cons.IH [OF wf] fresh by (auto simp: x closed_rows_def image_Un split: option.split)
qed (simp add: closed_rows_def)

lemma dwf_fold_del: "dwf d \<Longrightarrow> dwf (fold ddel ks d)"
  by (induction ks arbitrary: d) auto

lemma updated_book_wf: "dwf open0 \<Longrightarrow> dwf (updated_book ps w now prices rates book open0)"
  unfolding updated_book_def by (rule foldl_invariant) (auto split: prod.split)

text \<open>The book after a pass: without an exception every trade as its own checks left it and the closed ones
  gone; after one, the trades up to the one that raised as their checks left them, the closed ones among them
  still in the book, and the others untouched.\<close>

definition book_after ::
  "paper_settings \<Rightarrow> exit_writes \<Rightarrow> int \<Rightarrow> (string \<times> rat) list \<Rightarrow> (string \<times> rat) list \<Rightarrow> (string \<times> paper_trade) list \<Rightarrow>
   string \<Rightarrow> paper_trade option" where
  "book_after ps w now prices rates book k =
     (if list_all (\<lambda>x. \<not> raises ps w now prices rates x) book
      then (case dget book k of
              None \<Rightarrow> None
            | Some t \<Rightarrow> (case trade_outcome ps w now prices rates k t of (t', Held) \<Rightarrow> Some t' | _ \<Rightarrow> None))
      else (case dget (reached (raises ps w now prices rates) book) k of
              None \<Rightarrow> dget book k
            | Some t \<Rightarrow> Some (fst (trade_outcome ps w now prices rates k t))))"

lemma check_exits_facts:
  assumes "dwf (pe_open pe)"
  shows "snd (check_exits ps w now prices rates pe) =
      (if list_all (\<lambda>x. \<not> raises ps w now prices rates x) (pe_open pe)
       then Some (map snd (closed_rows ps w now prices rates (pe_open pe))) else None)"
    and "dget (pe_open (fst (check_exits ps w now prices rates pe))) k = book_after ps w now prices rates (pe_open pe) k"
    and "dwf (pe_open (fst (check_exits ps w now prices rates pe)))"
    and "pe_rows (fst (check_exits ps w now prices rates pe)) =
      pe_rows pe @ booked_rows ps w now prices rates (reached (raises ps w now prices rates) (pe_open pe))"
proof -
  let ?P = "raises ps w now prices rates" and ?book = "pe_open pe"
  obtain pe1 shut ok where loop: "exits_loop ps w now prices rates ?book pe = (pe1, shut, ok)" by (metis prod_cases3)
  have spec: "shut = closed_rows ps w now prices rates (reached ?P ?book)" "ok = list_all (\<lambda>x. \<not> ?P x) ?book"
    "pe_open pe1 = updated_book ps w now prices rates (reached ?P ?book) ?book"
    "pe_rows pe1 = pe_rows pe @ booked_rows ps w now prices rates (reached ?P ?book)"
    using exits_loop_spec [of ps w now prices rates ?book pe] by (simp_all add: loop)
  have all: "reached ?P ?book = ?book" if ok using that spec(2) by (simp add: reached_all)
  have step: "check_exits ps w now prices rates pe =
      (if ok then (update_equity_drawdown (drop_symbols (map fst shut) pe1), Some (map snd shut)) else (pe1, None))"
    by (simp add: check_exits_def loop)
  have open_eq: "pe_open (fst (check_exits ps w now prices rates pe)) = (if ok then fold ddel (map fst shut) (pe_open pe1) else pe_open pe1)"
    by (simp add: step update_equity_drawdown_def drop_symbols_def Let_def)
  show "snd (check_exits ps w now prices rates pe) =
      (if list_all (\<lambda>x. \<not> ?P x) ?book then Some (map snd (closed_rows ps w now prices rates ?book)) else None)"
    using all by (simp add: step spec(1,2))
  show "pe_rows (fst (check_exits ps w now prices rates pe)) = pe_rows pe @ booked_rows ps w now prices rates (reached ?P ?book)"
    using spec(4) by (simp add: step update_equity_drawdown_def drop_symbols_def Let_def)
  have wf: "dwf (pe_open pe1)" unfolding spec(3) by (rule updated_book_wf [OF assms])
  then show "dwf (pe_open (fst (check_exits ps w now prices rates pe)))"
    by (simp add: open_eq dwf_fold_del)
  have skipped: "trade_outcome ps w now prices rates k t = (t, Held)" if "dget prices k = None" for t
    using that by (simp add: trade_outcome_def)
  note get = updated_book_get [OF dwf_reached [OF assms, of ?P], of ps w now prices rates ?book k]
  show "dget (pe_open (fst (check_exits ps w now prices rates pe))) k = book_after ps w now prices rates ?book k"
  proof (cases ok)
    case False
    then show ?thesis
      using get skipped reached_dget [OF assms, of ?P k]
      by (auto simp: open_eq book_after_def spec(2,3) dhas_def split: option.split)
  next
    case True
    have raise: "\<not> was_aborted (snd (trade_outcome ps w now prices rates k t))" if "dget ?book k = Some t" for t
      using True spec(2) map_of_SomeD [OF that] by (auto simp: list_all_iff raises_def)
    have c: "closes k r \<noteq> [] \<longleftrightarrow> (case r of Shut row \<Rightarrow> True | _ \<Rightarrow> False)" for r
      by (cases r) simp_all
    show ?thesis
      unfolding open_eq if_P [OF True] dict.lookup_del_fold spec(1,3) all [OF True] updated_book_get [OF assms] set_map
        closed_rows_iff [OF assms] c book_after_def
      using True raise skipped unfolding spec(2)
      by (cases "dget ?book k"; cases "dget prices k")
        (auto simp: dhas_def split: option.splits prod.splits exit_result.splits)
  qed
qed

text \<open>C17. One pass over the exits. When no write of the pass raises, the closed rows are, in the order of the
  book, those of the trades that their own price, funding rate and the clock close, and nothing else, and a
  symbol is in the book afterwards exactly if it was and its trade was not closed, with the trade as its own
  checks left it, untouched when the pass has no price for it; neither the balance, nor the safety halt, nor
  the order of the book changes which trades close. When the write of a funding or of a close raises, the pass
  ends there with no result: the trades after it are not checked and nothing is removed, so every trade that
  was closed before it stays in the book. In both cases the account has booked exactly the closes of the trades
  that the pass reached, the one whose row could not be written included.\<close>

theorem check_exits_spec:
  assumes "dwf (pe_open pe)"
  shows "case check_exits ps w now prices rates pe of (pe', result) \<Rightarrow>
     (let book = pe_open pe; stops = raises ps w now prices rates
      in dwf (pe_open pe') \<and>
         pe_rows pe' = pe_rows pe @ booked_rows ps w now prices rates (reached stops book) \<and>
         (if list_all (\<lambda>x. \<not> stops x) book
          then result = Some (map snd (closed_rows ps w now prices rates book)) \<and>
               dget (pe_open pe') k =
                 (case dget book k of
                    None \<Rightarrow> None
                  | Some t \<Rightarrow> (case trade_outcome ps w now prices rates k t of (t', Held) \<Rightarrow> Some t' | _ \<Rightarrow> None))
          else result = None \<and>
               dget (pe_open pe') k =
                 (case dget (reached stops book) k of
                    None \<Rightarrow> dget book k
                  | Some t \<Rightarrow> Some (fst (trade_outcome ps w now prices rates k t)))))"
proof -
  obtain pe' result where r: "check_exits ps w now prices rates pe = (pe', result)" by fastforce
  note facts = check_exits_facts [OF assms, of ps w now prices rates, unfolded r fst_conv snd_conv]
  show ?thesis using facts(1,3,4) facts(2) [of k] by (simp add: r book_after_def Let_def)
qed

section \<open>Entries: the gates\<close>

lemma set_marks_open [simp]: "pe_open (set_marks prices pe) = pe_open pe" "pe_halt (set_marks prices pe) = pe_halt pe"
  "pe_daily_loss (set_marks prices pe) = pe_daily_loss pe" "pe_max_drawdown (set_marks prices pe) = pe_max_drawdown pe"
  by (simp_all add: set_marks_def)

lemma loss_gate_keeps:
  "loss_gate ps now pe = Some pe1 \<Longrightarrow> pe_open pe1 = pe_open pe \<and> pe_halt pe1 = pe_halt pe \<and>
     pe_daily_loss pe1 = pe_daily_loss pe \<and> pe_max_drawdown pe1 = pe_max_drawdown pe"
  by (auto simp: loss_gate_def split: if_splits option.splits)

text \<open>What one candidate can do to the book.\<close>

lemma candidate_step_cases:
  obtains (stop) "candidate_step ps env now prices c pe = EntryStop pe"
  | (skip) pe' where "candidate_step ps env now prices c pe = EntrySkip pe'" and "pe_open pe' = pe_open pe"
      and "pe_halt pe' = pe_halt pe" and "pe_daily_loss pe' = pe_daily_loss pe"
      and "pe_max_drawdown pe' = pe_max_drawdown pe"
  | (raised) pe' where "candidate_step ps env now prices c pe = EntryRaised pe'" and "pe_open pe' = pe_open pe"
      and "pe_halt pe' = pe_halt pe" and "pe_daily_loss pe' = pe_daily_loss pe"
      and "pe_max_drawdown pe' = pe_max_drawdown pe"
  | (opened) pe' t price where "candidate_step ps env now prices c pe = EntryOpened pe' t"
      and "pe_open pe' = dput (cd_symbol c) t (pe_open pe)" and "dget (pe_open pe) (cd_symbol c) = None"
      and "int (length (pe_open pe)) < ps_max_open_positions ps"
      and "pe_daily_loss pe < fmul (ps_initial_balance ps) (ps_max_daily_loss ps)"
      and "pe_halt pe' = pe_halt pe" and "pe_daily_loss pe' = pe_daily_loss pe"
      and "pe_max_drawdown pe' = pe_max_drawdown pe"
      and "dget prices (cd_symbol c) = Some price" and "cd_zone_low c \<le> price" and "price \<le> cd_zone_high c"
      and "validate_geometry c price" and "\<not> regime_rejects ps c" and "loss_gate ps now pe \<noteq> None"
      and "\<not> re_executed env (cd_setup c)" and "pt_symbol t = cd_symbol c" and "pt_direction t = cd_direction c"
      and "pt_setup_id t = cd_setup c"
proof -
  have op: "(\<exists>pe'. open_position ps env now prices c price q = EntrySkip pe' \<and> pe_open pe' = pe_open q \<and>
        pe_halt pe' = pe_halt q \<and> pe_daily_loss pe' = pe_daily_loss q \<and> pe_max_drawdown pe' = pe_max_drawdown q) \<or>
      (\<exists>pe'. open_position ps env now prices c price q = EntryRaised pe' \<and> pe_open pe' = pe_open q \<and>
        pe_halt pe' = pe_halt q \<and> pe_daily_loss pe' = pe_daily_loss q \<and> pe_max_drawdown pe' = pe_max_drawdown q) \<or>
      (\<exists>pe' t. open_position ps env now prices c price q = EntryOpened pe' t \<and>
        pe_open pe' = dput (cd_symbol c) t (pe_open q) \<and> pe_halt pe' = pe_halt q \<and>
        pe_daily_loss pe' = pe_daily_loss q \<and> pe_max_drawdown pe' = pe_max_drawdown q \<and> \<not> re_executed env (cd_setup c) \<and>
        pt_symbol t = cd_symbol c \<and> pt_direction t = cd_direction c \<and> pt_setup_id t = cd_setup c)"
    for price q
    by (simp add: open_position_def Let_def attach_dca_def new_trade_def split: option.split)
  show ?thesis
  proof (cases "dget prices (cd_symbol c)")
    case None
    then show ?thesis by (intro skip [of pe]) (simp_all add: candidate_step_def)
  next
    case (Some price)
    show ?thesis
    proof (cases "dhas (pe_open pe) (cd_symbol c)")
      case True
      with Some show ?thesis by (intro skip [of pe]) (simp_all add: candidate_step_def)
    next
      case False
      show ?thesis
      proof (cases "int (length (pe_open pe)) \<ge> ps_max_open_positions ps \<or>
          pe_daily_loss pe \<ge> fmul (ps_initial_balance ps) (ps_max_daily_loss ps) \<or> loss_gate ps now pe = None")
        case True
        with Some False show ?thesis by (intro stop) (auto simp: candidate_step_def)
      next
        case limits: False
        then obtain pe1 where g: "loss_gate ps now pe = Some pe1" by auto
        note keeps = loss_gate_keeps [OF g]
        show ?thesis
        proof (cases "regime_rejects ps c \<or> \<not> (cd_zone_low c \<le> price \<and> price \<le> cd_zone_high c) \<or>
            \<not> validate_geometry c price")
          case True
          with Some False limits g keeps show ?thesis
            by (intro skip [of pe1]) (auto simp: candidate_step_def)
        next
          case filters: False
          then have step: "candidate_step ps env now prices c pe = open_position ps env now prices c price pe1"
            using Some False limits g by (simp add: candidate_step_def)
          show ?thesis
            using op [of price pe1] keeps Some False limits filters g
            by (auto simp: step dhas_def not_le intro: skip raised opened)
        qed
      qed
    qed
  qed
qed

text \<open>The candidate behind an opened trade: its gates hold at the price of the pass.\<close>

definition backed_by :: "paper_settings \<Rightarrow> repo_env \<Rightarrow> (string \<times> rat) list \<Rightarrow> paper_trade \<Rightarrow> candidate \<Rightarrow> bool" where
  "backed_by ps env prices t c \<longleftrightarrow>
     pt_symbol t = cd_symbol c \<and> pt_direction t = cd_direction c \<and> pt_setup_id t = cd_setup c \<and>
     \<not> regime_rejects ps c \<and> \<not> re_executed env (cd_setup c) \<and>
     (case dget prices (cd_symbol c) of None \<Rightarrow> False
      | Some price \<Rightarrow> cd_zone_low c \<le> price \<and> price \<le> cd_zone_high c \<and> validate_geometry c price)"

definition entries_ok ::
  "paper_settings \<Rightarrow> repo_env \<Rightarrow> (string \<times> rat) list \<Rightarrow> candidate list \<Rightarrow> paper_engine \<Rightarrow>
   paper_engine \<times> paper_trade list \<times> bool \<Rightarrow> bool" where
  "entries_ok ps env prices cands pe r \<longleftrightarrow>
     (let old = pe_open pe; new = pe_open (fst r) in
      dwf new \<and> dget old \<subseteq>\<^sub>m dget new \<and> length new = length old + length (fst (snd r)) \<and>
      (if fst (snd r) = [] then new = old else int (length new) \<le> ps_max_open_positions ps) \<and>
      list_all (\<lambda>t. dget new (pt_symbol t) = Some t \<and> dget old (pt_symbol t) = None \<and>
                    list_ex (backed_by ps env prices t) cands) (fst (snd r)))"

lemma entries_loop_ok:
  "dwf (pe_open pe) \<Longrightarrow> entries_ok ps env prices cands pe (entries_loop ps env now prices cands pe)"
proof (induction cands arbitrary: pe)
  case Nil
  then show ?case by (simp add: entries_ok_def)
next
  case (Cons c cs)
  show ?case
  proof (cases rule: candidate_step_cases [of ps env now prices c pe])
    case stop
    with Cons.prems show ?thesis by (simp add: entries_ok_def)
  next
    case (skip pe')
    with Cons.IH [of pe'] Cons.prems show ?thesis
      by (auto simp: entries_ok_def Let_def list_all_iff)
  next
    case (raised pe')
    with Cons.prems show ?thesis by (simp add: entries_ok_def)
  next
    case (opened pe' t price)
    obtain pe2 ts ok where e: "entries_loop ps env now prices cs pe' = (pe2, ts, ok)" by (metis prod_cases3)
    have ih: "entries_ok ps env prices cs pe' (pe2, ts, ok)"
      using Cons.IH [of pe'] Cons.prems opened(2) e by simp
    have b: "backed_by ps env prices t c" using opened by (simp add: backed_by_def)
    have le: "dget (pe_open pe) \<subseteq>\<^sub>m dget (pe_open pe')"
      using opened(2,3) by (auto simp: map_le_def)
    have t: "dget (pe_open pe2) (pt_symbol t) = Some t"
      using ih opened(2) opened(16) by (auto simp: entries_ok_def Let_def map_le_def dom_def)
    have old: "dget (pe_open pe) k = None" if "dget (pe_open pe') k = None" for k
      using that opened(2) by (auto split: if_splits)
    have len: "length (pe_open pe') = Suc (length (pe_open pe))"
      using opened(2,3) by (simp add: length_dput)
    show ?thesis
      using ih b le t len opened(1,3,4,16) map_le_trans [OF le] old e
      by (auto simp: entries_ok_def Let_def list_all_iff list_ex_iff split: if_splits)
  qed
qed

lemma refresh_daily_risk_keeps [simp]:
  "pe_open (refresh_daily_risk env now pe) = pe_open pe" "pe_halt (refresh_daily_risk env now pe) = pe_halt pe"
  "pe_max_drawdown (refresh_daily_risk env now pe) = pe_max_drawdown pe"
  by (simp_all add: refresh_daily_risk_def load_risk_state_def Let_def split: option.split)

lemma check_entries_cases:
  obtains (refresh) "check_entries ps env now cands prices pe = (pe, [], False)"
  | (halt) "pe_halt pe" "check_entries ps env now cands prices pe = (refresh_daily_risk env now pe, [], True)"
  | (loop) "\<not> pe_halt pe"
      "check_entries ps env now cands prices pe = entries_loop ps env now prices cands (refresh_daily_risk env now pe)"
  by (cases "refresh_raises env now pe"; cases "pe_halt pe") (simp_all add: check_entries_def Let_def)

lemma check_entries_ok:
  assumes "dwf (pe_open pe)"
  shows "entries_ok ps env prices cands pe (check_entries ps env now cands prices pe)"
proof (cases rule: check_entries_cases [of ps env now cands prices pe])
  case loop
  with entries_loop_ok [of "refresh_daily_risk env now pe" ps env prices cands now] assms show ?thesis
    by (simp only: entries_ok_def refresh_daily_risk_keeps)
qed (use assms in \<open>simp_all add: entries_ok_def Let_def\<close>)

text \<open>C18. A pass over the candidates keeps the book sound and within its limits, also when the database raises in
  the middle of it: one position per symbol, the positions that were open stay exactly as they were, every new
  one is reported (returned to the caller unless an exception ended the pass) and is backed by a candidate whose
  entry zone, geometry and regime admit the current price and whose setup was never executed, the book ends at
  most at the configured number of positions when anything was opened, and a halted engine opens nothing.\<close>

theorem check_entries_sound:
  assumes "dwf (pe_open pe)"
  shows "case check_entries ps env now cands prices pe of (pe', opened, ok) \<Rightarrow>
     dwf (pe_open pe') \<and> dget (pe_open pe) \<subseteq>\<^sub>m dget (pe_open pe') \<and>
     length (pe_open pe') = length (pe_open pe) + length opened \<and>
     (if opened = [] then pe_open pe' = pe_open pe
      else int (length (pe_open pe')) \<le> ps_max_open_positions ps \<and> \<not> pe_halt pe) \<and>
     list_all (\<lambda>t. dget (pe_open pe') (pt_symbol t) = Some t \<and> dget (pe_open pe) (pt_symbol t) = None \<and>
                   list_ex (backed_by ps env prices t) cands) opened"
proof -
  have "fst (snd (check_entries ps env now cands prices pe)) = []" if "pe_halt pe"
    using that by (cases rule: check_entries_cases [of ps env now cands prices pe]) simp_all
  with check_entries_ok [OF assms, of ps env prices cands now] show ?thesis
    by (auto simp: entries_ok_def Let_def split: prod.split if_splits)
qed

section \<open>Runs of the engine\<close>

datatype engine_event =
    Entries repo_env int "candidate list" "(string \<times> rat) list"
  | Exits exit_writes int "(string \<times> rat) list" "(string \<times> rat) list"
  | Snapshot int "(string \<times> rat) list"

fun engine_step :: "paper_settings \<Rightarrow> paper_engine \<Rightarrow> engine_event \<Rightarrow> paper_engine" where
  "engine_step ps pe (Entries env now cands prices) = fst (check_entries ps env now cands prices pe)"
| "engine_step ps pe (Exits w now prices rates) = fst (check_exits ps w now prices rates pe)"
| "engine_step ps pe (Snapshot now prices) = take_snapshot now prices pe"

text \<open>What no operation takes back: the halt and the recorded drawdown.\<close>

definition grows :: "paper_engine \<Rightarrow> paper_engine \<Rightarrow> bool" where
  "grows pe pe' \<longleftrightarrow> (pe_halt pe \<longrightarrow> pe_halt pe') \<and> pe_max_drawdown pe \<le> pe_max_drawdown pe'"

lemma grows_refl [simp]: "grows pe pe"
  by (simp add: grows_def)

lemma grows_trans: "grows a b \<Longrightarrow> grows b c \<Longrightarrow> grows a c"
  by (auto simp: grows_def)

lemma grows_same: "pe_halt b = pe_halt a \<Longrightarrow> pe_max_drawdown b = pe_max_drawdown a \<Longrightarrow> grows a b"
  by (simp add: grows_def)

lemma close_trade_grows: "grows pe (fst (close_trade ps w now x reason pe t))"
  by (simp add: grows_def close_trade_def book_peak_def book_result_def Let_def)

lemma record_gap_grows: "grows pe (record_stop_gap_event ps now t x y b pe)"
  by (simp add: grows_def record_stop_gap_event_def cleanup_gaps_def activate_safety_gate_def Let_def)

lemma stop_phase_grows: "grows pe (fst (stop_phase ps w now price pe t))"
proof (rule stop_phase_engine [where P = "grows pe"])
  show "grows pe (fst (close_trade ps w now x r pe t))" for x r by (rule close_trade_grows)
  show "grows pe (record_stop_gap_event ps now u x y b p)" if "grows pe p" for u x y b p
    using that record_gap_grows grows_trans by blast
qed simp

lemma later_phase_grows:
  assumes "f \<in> {horizon_phase, dca_phase, breakeven_phase, tp1_phase, tp2_phase, trailing_phase, expiry_phase}"
  shows "grows pe (fst (f ps w now price pe t))"
proof -
  have fill: "grows pe (fst (fill_second_leg ps now price q d pe t))" for q d
    by (simp add: fill_second_leg_def Let_def grows_def)
  from assms consider "f = dca_phase" | "f = trailing_phase" | "f = horizon_phase" | "f = breakeven_phase"
    | "f = tp1_phase" | "f = tp2_phase" | "f = expiry_phase" by blast
  then show ?thesis
    using fill
    by cases (simp_all add: dca_phase_def trailing_phase_def check_trailing_stop_def horizon_phase_def
        breakeven_phase_def tp1_phase_def tp2_phase_def expiry_phase_def Let_def close_trade_grows case_prod_beta
        split: option.split)
qed

lemma process_trade_grows: "grows pe (fst (process_trade ps w now price rate pe t))"
proof -
  have f: "grows pe (fst (apply_funding ps w now rate pe t))"
    by (simp add: apply_funding_def Let_def grows_def)
  have "grows pe (fst (exit_checks ps w now price (fst (apply_funding ps w now rate pe t)) (marked_trade ps now price rate t)))"
  proof (rule exit_checks_rule [where Q = "\<lambda>s. grows pe (fst s)"])
    show "grows pe (fst (stop_phase ps w now price (fst (apply_funding ps w now rate pe t)) (marked_trade ps now price rate t)))"
      using f stop_phase_grows grows_trans by blast
  next
    fix f and p :: paper_engine and u :: paper_trade
    assume f: "f \<in> {horizon_phase, dca_phase, breakeven_phase, tp1_phase, tp2_phase, trailing_phase, expiry_phase}"
      and "grows pe (fst (p, u, Held))"
    then have "grows pe p" by simp
    from grows_trans [OF this later_phase_grows [OF f]] show "grows pe (fst (f ps w now price p u))" .
  qed
  with f show ?thesis by (simp add: process_trade_marked)
qed

lemma exits_loop_grows: "grows pe (fst (exits_loop ps w now prices rates book pe))"
proof (induction book arbitrary: pe)
  case (Cons x rest)
  obtain symb t where x: "x = (symb, t)" by (cases x)
  show ?case
  proof (cases "dget prices symb")
    case None
    then show ?thesis using Cons.IH by (simp add: x)
  next
    case (Some price)
    let ?pe = "pe\<lparr>pe_marks := dput symb price (pe_marks pe)\<rparr>"
    obtain p t1 r where p: "process_trade ps w now price (dget_or rates symb 0) ?pe t = (p, t1, r)" by (metis prod_cases3)
    let ?p = "p\<lparr>pe_open := dput symb t1 (pe_open p)\<rparr>"
    have "grows ?pe p"
      using process_trade_grows [of ?pe ps w now price "dget_or rates symb 0" t] by (simp only: p fst_conv)
    then have g: "grows pe ?p" by (simp add: grows_def)
    have "fst (exits_loop ps w now prices rates (x # rest) pe) =
        (case r of Aborted row \<Rightarrow> ?p | _ \<Rightarrow> fst (exits_loop ps w now prices rates rest ?p))"
      by (cases r) (simp_all add: x Some p split_beta Let_def)
    then show ?thesis using g grows_trans [OF g Cons.IH] by (simp split: exit_result.split)
  qed
qed simp

lemma check_exits_grows: "grows pe (fst (check_exits ps w now prices rates pe))"
proof -
  have u: "grows p (update_equity_drawdown (drop_symbols ks p))" for p ks
    by (simp add: grows_def update_equity_drawdown_def drop_symbols_def Let_def)
  obtain p rows ok where l: "exits_loop ps w now prices rates (pe_open pe) pe = (p, rows, ok)" by (metis prod_cases3)
  then have "grows pe p" using exits_loop_grows [of pe ps w now prices rates "pe_open pe"] by simp
  then show ?thesis using grows_trans [OF _ u] by (simp add: check_exits_def l)
qed

lemma entries_loop_grows: "grows pe (fst (entries_loop ps env now prices cands pe))"
proof (induction cands arbitrary: pe)
  case (Cons c cs)
  show ?case
  proof (cases rule: candidate_step_cases [of ps env now prices c pe])
    case (skip pe')
    with Cons.IH [of pe'] show ?thesis by (simp add: grows_def)
  next
    case (raised pe')
    then show ?thesis by (simp add: grows_def)
  next
    case (opened pe' t price)
    obtain pe2 ts ok where "entries_loop ps env now prices cs pe' = (pe2, ts, ok)" by (metis prod_cases3)
    with Cons.IH [of pe'] opened(1,6,8) show ?thesis by (simp add: grows_def)
  qed simp
qed simp

lemma check_entries_grows: "grows pe (fst (check_entries ps env now cands prices pe))"
proof (cases rule: check_entries_cases [of ps env now cands prices pe])
  case loop
  then show ?thesis
    using entries_loop_grows [of "refresh_daily_risk env now pe" ps env now prices cands] by (simp add: grows_def)
qed (simp_all add: grows_def)

lemma take_snapshot_grows: "grows pe (take_snapshot now prices pe)"
  by (simp add: grows_def take_snapshot_def cleanup_gaps_def update_equity_drawdown_def set_marks_def Let_def)

lemma take_snapshot_open: "pe_open (take_snapshot now prices pe) = pe_open pe"
  by (simp add: take_snapshot_def cleanup_gaps_def update_equity_drawdown_def Let_def)

lemma engine_step_grows: "grows pe (engine_step ps pe e)"
  by (cases e) (simp_all add: check_entries_grows check_exits_grows take_snapshot_grows)

interpretation halt: latched_system "engine_step ps" pe_halt "\<lambda>_. False" for ps
  using engine_step_grows by unfold_locales (simp add: grows_def)

interpretation drawdown: monotone_system "engine_step ps" "\<lambda>pe. dwf (pe_open pe)" pe_max_drawdown for ps
proof
  fix pe :: paper_engine and e assume wf: "dwf (pe_open pe)"
  show "dwf (pe_open (engine_step ps pe e))"
  proof (cases e)
    case (Entries env now cands prices)
    then show ?thesis
      using check_entries_ok [OF wf, of ps env prices cands now] by (simp add: entries_ok_def Let_def)
  next
    case (Exits w now prices rates)
    then show ?thesis using check_exits_facts(3) [OF wf] by simp
  next
    case (Snapshot now prices)
    then show ?thesis using wf by (simp add: take_snapshot_open)
  qed
  show "pe_max_drawdown pe \<le> pe_max_drawdown (engine_step ps pe e)"
    using engine_step_grows by (simp add: grows_def)
qed

text \<open>The safety halt is sticky and effective: once it is set, no sequence of passes clears it and
  no later pass over the candidates opens a position.\<close>

theorem halt_is_sticky:
  "let pe' = foldl (engine_step ps) (activate_safety_gate t reason pe) events
   in pe_halt pe' \<and> fst (snd (check_entries ps env now cands prices pe')) = []"
proof -
  have "pe_halt (activate_safety_gate t reason pe)" by (simp add: activate_safety_gate_def)
  then have "pe_halt (foldl (engine_step ps) (activate_safety_gate t reason pe) events)"
    by (rule halt.run_latched) simp
  then show ?thesis by (simp add: check_entries_def)
qed

text \<open>Along any run of entry and exit passes over a book with one position per symbol, the book
  stays of that kind and the recorded maximal drawdown never decreases.\<close>

theorem drawdown_never_shrinks:
  assumes "dwf (pe_open pe)"
  shows "dwf (pe_open (foldl (engine_step ps) pe events)) \<and>
         pe_max_drawdown pe \<le> pe_max_drawdown (foldl (engine_step ps) pe events)"
  using drawdown.run_inv [OF assms] drawdown.run_level [OF assms] by blast

lemma severe_gap_halts_stop:
  assumes "reached_down (pt_direction t) price (active_stop ps t)" and "price \<noteq> active_stop ps t"
    and "\<not> dca_filled t" and "ps_gate_mode ps = GateEnforce"
    and "gap_severe ps t price (close_net ps (adverse_exit ps (pt_direction t) (active_stop ps t)) t)"
  shows "case exit_checks ps w now price pe t of (pe', t', r) \<Rightarrow> pe_halt pe' \<or> was_aborted r"
proof -
  have "cl_net (closed_record ps x r t) = close_net ps x t" for x r by (simp add: closed_record_def)
  with assms show ?thesis
    by (simp add: exit_checks_hit stop_phase_def stop_reason_def close_trade_def Let_def record_stop_gap_event_def
        activate_safety_gate_def)
qed

text \<open>A severe stop gap under the enforcing gate halts the engine in the same pass that closes the
  trade; when the write of the close raises, the gap is not recorded and nothing halts.\<close>

theorem severe_gap_halts:
  assumes "reached_down (pt_direction t) price (active_stop ps t)" and "price \<noteq> active_stop ps t"
    and "\<not> dca_filled t" and "ps_gate_mode ps = GateEnforce" and "funding_due ps now t \<le> pt_funding_periods t"
    and "gap_severe ps t price (close_net ps (adverse_exit ps (pt_direction t) (active_stop ps t)) t)"
  shows "case process_trade ps w now price rate pe t of (pe', t', r) \<Rightarrow> pe_halt pe' \<or> was_aborted r"
proof -
  let ?m = "marked_trade ps now price rate t"
  have m: "?m = update_watermarks price t" "\<not> funding_raises ps w now rate t"
    using assms(5) by (simp_all add: marked_trade_def funded_trade_def funding_raises_def Let_def)
  have entry: "market_entry ?m = market_entry t" "pt_entry_slippage ?m = pt_entry_slippage t"
    "pt_risk_usdt ?m = pt_risk_usdt t" "pt_entry_fee ?m = pt_entry_fee t" "pt_funding_paid ?m = pt_funding_paid t"
    by (simp_all add: m update_watermarks_def market_entry_def Let_def)
  have net: "close_net ps x ?m = close_net ps x t" "expected_stop_net ps ?m = expected_stop_net ps t" for x
    by (simp_all add: close_net_def close_gross_def close_exit_fee_def close_exit_slippage_def
        expected_stop_net_def entry Let_def)
  then have "gap_severe ps ?m price (close_net ps (adverse_exit ps (pt_direction ?m) (active_stop ps ?m)) ?m)"
    using assms(6) by (simp add: gap_severe_def entry Let_def split: if_splits)
  then show ?thesis
    unfolding process_trade_marked if_not_P [OF m(2)] using assms(1-4)
    by (intro severe_gap_halts_stop) (simp_all add: dca_filled_def)
qed

text \<open>A restart forgets the execution policies: no trade loaded from the database is a
  fixed-horizon trade or has a planned exit, whatever was stored, so its time exit never runs.\<close>

theorem restart_forgets_policies:
  "list_all (\<lambda>(symb, t). \<not> fixed_horizon ps t \<and> pt_planned_exit t = None)
     (pe_open (start_engine ps env now snapshot rows gate))"
proof -
  have keep: "list_all P (dput k v d)" if "list_all P d" "P (k, v)" for P k v and d :: "(string \<times> paper_trade) list"
    using that by (induction d) auto
  have "list_all (\<lambda>(symb, t). \<not> fixed_horizon ps t \<and> pt_planned_exit t = None)
          (foldl (\<lambda>d r. dput (ow_symbol r) (trade_of_row r) d) [] rows)"
    by (rule foldl_invariant) (auto intro!: keep simp: fixed_horizon_def trade_of_row_def)
  moreover have "pe_open (start_engine ps env now snapshot rows gate) =
      foldl (\<lambda>d r. dput (ow_symbol r) (trade_of_row r) d) [] rows"
    by (simp add: start_engine_def load_safety_gate_def load_risk_state_def load_open_trades_def
        load_account_state_def new_engine_def Let_def split: option.split list.split)
  ultimately show ?thesis by simp
qed

section \<open>Concrete passes\<close>

definition plain_settings :: paper_settings where
  "plain_settings = demo_paper_settings\<lparr>ps_initial_balance := 1024, ps_max_daily_loss := 1 / 8, ps_slippage := 0,
     ps_dca := demo_dca_settings\<lparr>ds_enabled := False\<rparr>\<rparr>"

definition demo_repo :: repo_env where
  "demo_repo = \<lparr>re_risk_state = None, re_executed = (\<lambda>_. False), re_save = (\<lambda>_. Some 7), re_use_pg = True,
     re_raises = (\<lambda>_. False), re_risk_raises = False\<rparr>"

definition demo_candidate :: candidate where
  "demo_candidate = \<lparr>cd_setup = ''s9'', cd_scanner = ''scan'', cd_symbol = ''BTCUSDT'', cd_direction = LONG,
     cd_zone_low = 1000, cd_zone_high = 1040, cd_invalidation = 1016, cd_target_1 = None, cd_target_2 = None,
     cd_timeframe = ''1h'', cd_regime = None\<rparr>"

lemma demo_book_wf: "dwf (pe_open (demo_engine\<lparr>pe_open := [(''BTCUSDT'', demo_trade)]\<rparr>))"
  by (simp add: dwf_def)

lemmas plain_eval = plain_settings_def demo_paper_settings_def demo_dca_settings_def demo_repo_def demo_candidate_def
  demo_engine_def fl_eval

lemma demo_gate:
  "loss_gate plain_settings 60000000 (demo_engine\<lparr>pe_balance := 1024, pe_losses := 2\<rparr>) =
     Some (demo_engine\<lparr>pe_balance := 1024, pe_losses := 2, pe_cooldown := Some 3660000000\<rparr>)"
  by (simp add: loss_gate_def cooldown_from_def floor_second_def plain_eval)

definition demo_cooled :: paper_engine where
  "demo_cooled = set_marks [(''BTCUSDT'', 1024)]
     (demo_engine\<lparr>pe_balance := 1024, pe_losses := 2, pe_cooldown := Some 3660000000\<rparr>)"

lemma demo_plan:
  "plan_position plain_settings demo_cooled demo_candidate 1024 =
     Some \<lparr>pp_entry = 1024, pp_distance = 8, pp_quantity = 1, pp_risk = 8, pp_fee = 0, pp_slippage = 0\<rparr>"
proof -
  have b: "pe_balance demo_cooled = 1024" "mtm_equity demo_cooled = 1024" "notional_of demo_cooled d = 0" for d
    by (simp_all add: demo_cooled_def set_marks_def mtm_equity_def unrealized_pnl_def notional_of_def
        demo_engine_def fl_eval)
  have c: "notional_cap plain_settings demo_cooled LONG = 2048"
    by (simp add: notional_cap_def b plain_settings_def demo_paper_settings_def fl_eval)
  have p: "ps_slippage plain_settings = 0" "ps_risk_per_trade plain_settings = 1 / 128"
    "ps_max_symbol_exposure plain_settings = 1" "ps_taker_fee plain_settings = 0"
    "ps_min_effective_risk plain_settings = 0"
    by (simp_all add: plain_settings_def demo_paper_settings_def)
  show ?thesis
    by (simp add: plan_position_def demo_candidate_def adverse_entry_def p b c Let_def fl_eval)
qed

text \<open>When the losing streak reaches its limit and no cooldown is running, the pass starts the
  cooldown and goes on with the same candidate: the position is opened although the limit is
  reached.\<close>

theorem cooldown_start_lets_entry_through:
  "case check_entries plain_settings demo_repo 60000000 [demo_candidate] [(''BTCUSDT'', 1024)]
          (demo_engine\<lparr>pe_balance := 1024, pe_losses := 2\<rparr>) of
     (pe', opened, ok) \<Rightarrow> ok \<and> length opened = 1 \<and> pe_losses pe' = 2 \<and> pe_cooldown pe' = Some 3660000000"
proof -
  let ?pe = "demo_engine\<lparr>pe_balance := 1024, pe_losses := 2\<rparr>"
  have r: "refresh_daily_risk demo_repo 60000000 ?pe = ?pe"
    by (simp add: refresh_daily_risk_def utc_day_def demo_engine_def)
  have e: "pe_open ?pe = []" "pe_daily_loss ?pe = 0" "pe_halt ?pe = False" by (simp_all add: demo_engine_def)
  have l: "fmul (ps_initial_balance plain_settings) (ps_max_daily_loss plain_settings) = 128"
    "ps_max_open_positions plain_settings = 2"
    by (simp_all add: plain_settings_def demo_paper_settings_def fl_eval)
  have c: "cd_symbol demo_candidate = ''BTCUSDT''" "cd_direction demo_candidate = LONG" "cd_zone_low demo_candidate = 1000"
    "cd_zone_high demo_candidate = 1040" "\<not> regime_rejects plain_settings demo_candidate"
    "validate_geometry demo_candidate 1024" "cd_invalidation demo_candidate = 1016"
    by (simp_all add: demo_candidate_def regime_rejects_def validate_geometry_def)
  have a: "adverse_entry plain_settings LONG 1024 = 1024"
    by (simp add: adverse_entry_def plain_settings_def fl_eval)
  have "candidate_step plain_settings demo_repo 60000000 [(''BTCUSDT'', 1024)] demo_candidate ?pe =
      open_position plain_settings demo_repo 60000000 [(''BTCUSDT'', 1024)] demo_candidate 1024
        (demo_engine\<lparr>pe_balance := 1024, pe_losses := 2, pe_cooldown := Some 3660000000\<rparr>)"
    by (simp add: candidate_step_def c e l demo_gate dhas_def)
  moreover have "\<exists>pe' t. open_position plain_settings demo_repo 60000000 [(''BTCUSDT'', 1024)] demo_candidate 1024
        (demo_engine\<lparr>pe_balance := 1024, pe_losses := 2, pe_cooldown := Some 3660000000\<rparr>) = EntryOpened pe' t \<and>
        pe_losses pe' = 2 \<and> pe_cooldown pe' = Some 3660000000"
    unfolding open_position_def demo_cooled_def [symmetric] Let_def demo_plan
    by (simp add: c a fl_eval demo_repo_def demo_cooled_def set_marks_def)
  ultimately show ?thesis
    by (auto simp: check_entries_def refresh_raises_def demo_repo_def r [unfolded demo_repo_def] e Let_def)
qed

text \<open>The demo trade at its stop, with a database that refuses the close: the pass ends without a result, one close
  is booked and the trade is still open.\<close>

lemma demo_outcome:
  "trade_outcome flat_settings close_raises 60000000 [(''BTCUSDT'', 1000)] [] ''BTCUSDT'' demo_trade =
     (demo_marked, Aborted (Some (closed_record flat_settings 1000 ''STOP_LOSS'' demo_marked)))"
  by (simp add: trade_outcome_def dget_or_def demo_stop_tick close_trade_result close_raises_def Let_def)

theorem check_exits_spec_witness:
  "case check_exits flat_settings close_raises 60000000 [(''BTCUSDT'', 1000)] []
     (demo_engine\<lparr>pe_open := [(''BTCUSDT'', demo_trade)]\<rparr>) of (pe', result) \<Rightarrow>
     result = None \<and> map cl_reason (pe_rows pe') = [''STOP_LOSS''] \<and> dget (pe_open pe') ''BTCUSDT'' = Some demo_marked"
proof -
  have r: "raises flat_settings close_raises 60000000 [(''BTCUSDT'', 1000)] [] (''BTCUSDT'', demo_trade)"
    by (simp add: raises_def demo_outcome)
  have b: "pe_open (demo_engine\<lparr>pe_open := [(''BTCUSDT'', demo_trade)]\<rparr>) = [(''BTCUSDT'', demo_trade)]"
    "pe_rows (demo_engine\<lparr>pe_open := [(''BTCUSDT'', demo_trade)]\<rparr>) = []"
    by (simp_all add: demo_engine_def)
  show ?thesis
    using check_exits_spec [OF demo_book_wf, of flat_settings close_raises 60000000 "[(''BTCUSDT'', 1000)]" "[]" "''BTCUSDT''"]
    unfolding b Let_def by (simp add: r booked_rows_def demo_outcome split_beta)
qed

theorem check_entries_sound_witness:
  "case check_entries plain_settings demo_repo 60000000 [demo_candidate] [(''BTCUSDT'', 1024)]
     (demo_engine\<lparr>pe_open := [(''BTCUSDT'', demo_trade)]\<rparr>) of
   (pe', opened, ok) \<Rightarrow> dget (pe_open pe') ''BTCUSDT'' = Some demo_trade"
  using check_entries_sound [OF demo_book_wf, where ps = plain_settings and env = demo_repo and now = 60000000 and
      cands = "[demo_candidate]" and prices = "[(''BTCUSDT'', 1024)]"]
  by (auto simp: map_le_def dom_def split: prod.splits)

theorem drawdown_never_shrinks_witness:
  "0 \<le> pe_max_drawdown (foldl (engine_step plain_settings) (demo_engine\<lparr>pe_open := [(''BTCUSDT'', demo_trade)]\<rparr>)
     [Exits writes_succeed 60000000 [(''BTCUSDT'', 1000)] [], Entries demo_repo 120000000 [demo_candidate] [(''BTCUSDT'', 1024)]])"
  using drawdown_never_shrinks [OF demo_book_wf, of plain_settings
      "[Exits writes_succeed 60000000 [(''BTCUSDT'', 1000)] [], Entries demo_repo 120000000 [demo_candidate] [(''BTCUSDT'', 1024)]]"]
  by (simp add: demo_engine_def)

theorem severe_gap_halts_witness:
  "case process_trade plain_settings w 60000000 952 0 demo_engine demo_trade of (pe', t', r) \<Rightarrow> pe_halt pe' \<or> was_aborted r"
  by (rule severe_gap_halts)
    (simp_all add: reached_down_def active_stop_def fixed_horizon_def effective_stop_price_def dca_filled_def
      funding_due_def total_seconds_def gap_severe_def demo_trade_def plain_eval)

end
