(* ===== verification/ShadowEngine.thy ===== *)
theory ShadowEngine
  imports PaperEngine PySum
begin

text \<open>
  The shadow engine (\<^verbatim>\<open>src/app/paper/shadow_engine.py\<close>): for every short trade that the paper
  engine opens from the source scanner it opens a counterfactual long trade with a fixed stop and target,
  which is closed by price or by age and never touches the paper account. The repository is a parameter
  that may raise while saving; the columns that a shadow copies for reports (score, regime) are left out.
\<close>

section \<open>State\<close>

record shadow_config =
  hc_enabled :: bool
  hc_mode :: string
  hc_scanner :: string
  hc_direction :: direction
  hc_stop_pct :: rat
  hc_target_pct :: rat

text \<open>Lowest and highest prices start at the price of the entry.\<close>

record shadow_trade =
  hs_id :: "int option"
  hs_source :: "int option"
  hs_setup :: string
  hs_symbol :: string
  hs_entry :: rat
  hs_fee :: rat
  hs_stop :: rat
  hs_target :: rat
  hs_size :: rat
  hs_risk :: rat
  hs_entered :: int
  hs_market :: rat
  hs_slippage :: rat
  hs_mfe :: rat
  hs_mae :: rat
  hs_highest :: rat
  hs_lowest :: rat
  hs_funding :: rat

record shadow_engine =
  he_open :: "(int option \<times> shadow_trade) list"
  he_index :: "(string \<times> int option set) list"

definition SHADOW_EXPIRY_MINUTES :: int where
  "SHADOW_EXPIRY_MINUTES = 240"

definition shadow_enabled :: "shadow_config \<Rightarrow> bool" where
  "shadow_enabled hc \<longleftrightarrow> hc_enabled hc \<and> hc_mode hc = ''shadow''"

definition index_add :: "string \<Rightarrow> int option \<Rightarrow> (string \<times> int option set) list \<Rightarrow> (string \<times> int option set) list" where
  "index_add symb k d = dput symb (insert k (dget_or d symb {})) d"

definition index_del :: "string \<Rightarrow> int option \<Rightarrow> (string \<times> int option set) list \<Rightarrow> (string \<times> int option set) list" where
  "index_del symb k d =
     (case dget d symb of
        None \<Rightarrow> d
      | Some ks \<Rightarrow> if ks - {k} = {} then ddel symb d else dput symb (ks - {k}) d)"

section \<open>Entries\<close>

definition shadow_entry_price :: "paper_settings \<Rightarrow> paper_trade \<Rightarrow> rat" where
  "shadow_entry_price ps src = fmul (pt_entry_price src) (fadd 1 (ps_slippage ps))"

definition shadow_stop :: "shadow_config \<Rightarrow> rat \<Rightarrow> rat" where
  "shadow_stop hc entry = fmul entry (fsub 1 (fdiv (hc_stop_pct hc) 100))"

definition shadow_target :: "shadow_config \<Rightarrow> rat \<Rightarrow> rat" where
  "shadow_target hc entry = fmul entry (fadd 1 (fdiv (hc_target_pct hc) 100))"

definition shadow_size :: "paper_settings \<Rightarrow> rat \<Rightarrow> rat \<Rightarrow> rat" where
  "shadow_size ps entry distance =
     min (fdiv (fmul (ps_initial_balance ps) (ps_risk_per_trade ps)) distance)
         (fdiv (fmul (ps_initial_balance ps) (ps_max_symbol_exposure ps)) entry)"

definition new_shadow :: "paper_settings \<Rightarrow> shadow_config \<Rightarrow> int \<Rightarrow> paper_trade \<Rightarrow> rat \<Rightarrow> shadow_trade option" where
  "new_shadow ps hc now src price =
     (let entry = shadow_entry_price ps src; stop = shadow_stop hc entry; distance = \<bar>fsub entry stop\<bar>
      in if distance \<le> 0 \<or> entry \<le> 0 then None
         else let quantity = shadow_size ps entry distance in
           if quantity \<le> 0 then None
           else Some
             \<lparr>hs_id = None, hs_source = pt_trade_id src, hs_setup = pt_setup_id src, hs_symbol = pt_symbol src,
              hs_entry = py_round entry 6,
              hs_fee = py_round (fmul (fmul entry quantity) (ps_taker_fee ps)) 6,
              hs_stop = py_round stop 6, hs_target = py_round (shadow_target hc entry) 6,
              hs_size = py_round quantity 6, hs_risk = py_round (fmul distance quantity) 6, hs_entered = now,
              hs_market = py_round (pt_entry_price src) 6,
              hs_slippage = py_round (fmul \<bar>fsub entry (pt_entry_price src)\<bar> quantity) 6,
              hs_mfe = 0, hs_mae = 0, hs_highest = price, hs_lowest = price, hs_funding = 0\<rparr>)"

text \<open>The repository answers with the row id, with nothing, or raises (\<open>None\<close>). The result says whether
  the call raised, and otherwise which trade was opened.\<close>

definition check_shadow_entries ::
  "paper_settings \<Rightarrow> shadow_config \<Rightarrow> (shadow_trade \<Rightarrow> int option option) \<Rightarrow> int \<Rightarrow> paper_trade \<Rightarrow> rat \<Rightarrow> shadow_engine \<Rightarrow>
   shadow_trade option option \<times> shadow_engine" where
  "check_shadow_entries ps hc save now src price he =
     (if \<not> shadow_enabled hc then (Some None, he)
      else if pt_scanner src \<noteq> hc_scanner hc \<or> pt_direction src \<noteq> hc_direction hc then (Some None, he)
      else if dhas (he_open he) (pt_trade_id src) then (Some None, he)
      else case new_shadow ps hc now src price of
             None \<Rightarrow> (Some None, he)
           | Some t \<Rightarrow>
               (case save t of
                  None \<Rightarrow> (None, he)
                | Some None \<Rightarrow> (Some None, he)
                | Some (Some i) \<Rightarrow>
                    (let t' = t\<lparr>hs_id := Some i\<rparr>
                     in (Some (Some t'),
                         he\<lparr>he_open := dput (hs_source t) t' (he_open he),
                            he_index := index_add (hs_symbol t) (hs_source t) (he_index he)\<rparr>))))"

section \<open>Exits\<close>

definition shadow_marked :: "rat \<Rightarrow> shadow_trade \<Rightarrow> shadow_trade" where
  "shadow_marked price t =
     (let hi = max (hs_highest t) price; lo = min (hs_lowest t) price
      in t\<lparr>hs_highest := hi, hs_lowest := lo, hs_mfe := max (hs_mfe t) (fsub hi (hs_entry t)),
           hs_mae := max (hs_mae t) (fsub (hs_entry t) lo)\<rparr>)"

text \<open>The update that the repository is asked to make when a shadow closes.\<close>

record shadow_close =
  hz_trade :: shadow_trade
  hz_reason :: string
  hz_exit :: rat
  hz_fee :: rat
  hz_pnl :: rat
  hz_r :: rat
  hz_percent :: rat
  hz_slippage :: rat
  hz_mfe_r :: rat
  hz_mae_r :: rat
  hz_duration :: rat

definition close_shadow_trade :: "paper_settings \<Rightarrow> int \<Rightarrow> shadow_trade \<Rightarrow> rat \<Rightarrow> string \<Rightarrow> shadow_close" where
  "close_shadow_trade ps now t exit_price reason =
     (let adjusted = fmul exit_price (fsub 1 (ps_slippage ps));
          market = (if hs_market t \<noteq> 0 then hs_market t else hs_entry t);
          gross = fmul (fsub exit_price market) (hs_size t);
          exit_fee = fmul (fmul adjusted (hs_size t)) (ps_taker_fee ps);
          slippage = fadd (hs_slippage t) (fmul \<bar>fsub adjusted exit_price\<bar> (hs_size t));
          net = fsub (fsub (fsub (fsub gross (hs_fee t)) exit_fee) (hs_funding t)) slippage;
          notional = fmul (hs_entry t) (hs_size t);
          distance = (if hs_size t > 0 then fdiv (hs_risk t) (hs_size t) else 0)
      in \<lparr>hz_trade = t\<lparr>hs_market := market\<rparr>, hz_reason = reason, hz_exit = py_round adjusted 6, hz_fee = py_round exit_fee 6,
          hz_pnl = py_round net 2, hz_r = py_round (if hs_risk t > 0 then fdiv net (hs_risk t) else 0) 4,
          hz_percent = py_round (if notional > 0 then fmul (fdiv net notional) 100 else 0) 2,
          hz_slippage = py_round slippage 6,
          hz_mfe_r = py_round (if distance > 0 then fdiv (hs_mfe t) distance else 0) 6,
          hz_mae_r = py_round (if distance > 0 then fdiv (hs_mae t) distance else 0) 6,
          hz_duration = py_round (total_seconds (now - hs_entered t)) 1\<rparr>)"

definition age_minutes :: "int \<Rightarrow> shadow_trade \<Rightarrow> rat" where
  "age_minutes now t = fdiv (total_seconds (now - hs_entered t)) 60"

text \<open>The exit checks for one marked trade, in the order of the code.\<close>

definition shadow_exit :: "paper_settings \<Rightarrow> int \<Rightarrow> rat \<Rightarrow> shadow_trade \<Rightarrow> shadow_close option" where
  "shadow_exit ps now price t =
     (if price \<le> hs_stop t
      then Some (close_shadow_trade ps now t (fmul (hs_stop t) (fsub 1 (ps_slippage ps)))
                   (if price < hs_stop t then ''STOP_LOSS_GAP'' else ''STOP_LOSS''))
      else if price \<ge> hs_target t then Some (close_shadow_trade ps now t (hs_target t) ''TAKE_PROFIT_1'')
      else if age_minutes now t > of_int SHADOW_EXPIRY_MINUTES
      then Some (close_shadow_trade ps now t (fmul price (fsub 1 (ps_slippage ps)))
                   (if price > hs_entry t then ''EXPIRED_PROFITABLE'' else ''EXPIRED''))
      else None)"

text \<open>The trades are updated in place while the dictionary is iterated.\<close>

fun shadow_loop ::
  "paper_settings \<Rightarrow> int \<Rightarrow> (string \<times> rat) list \<Rightarrow> (int option \<times> shadow_trade) list \<Rightarrow>
   (int option \<times> shadow_trade) list \<times> (int option \<times> shadow_close) list" where
  "shadow_loop ps now prices [] = ([], [])"
| "shadow_loop ps now prices ((k, t) # rest) =
     (case shadow_loop ps now prices rest of (book, shut) \<Rightarrow>
        (case dget prices (hs_symbol t) of
           None \<Rightarrow> ((k, t) # book, shut)
         | Some price \<Rightarrow>
             (let t' = shadow_marked price t
              in ((k, t') # book,
                  case shadow_exit ps now price t' of None \<Rightarrow> shut | Some z \<Rightarrow> (k, z) # shut))))"

definition remove_shadow :: "shadow_engine \<Rightarrow> int option \<Rightarrow> shadow_engine" where
  "remove_shadow he k =
     (case dget (he_open he) k of
        None \<Rightarrow> he
      | Some t \<Rightarrow> he\<lparr>he_open := ddel k (he_open he), he_index := index_del (hs_symbol t) k (he_index he)\<rparr>)"

definition check_shadow_exits ::
  "paper_settings \<Rightarrow> shadow_config \<Rightarrow> int \<Rightarrow> (string \<times> rat) list \<Rightarrow> shadow_engine \<Rightarrow> shadow_close list \<times> shadow_engine" where
  "check_shadow_exits ps hc now prices he =
     (if \<not> shadow_enabled hc then ([], he)
      else case shadow_loop ps now prices (he_open he) of
             (book, shut) \<Rightarrow> (map snd shut, foldl remove_shadow (he\<lparr>he_open := book\<rparr>) (map fst shut)))"

section \<open>Loading\<close>

record shadow_row =
  hr_id :: int
  hr_source :: "int option"
  hr_setup :: string
  hr_symbol :: string
  hr_entry :: rat
  hr_fee :: rat
  hr_stop :: rat
  hr_target :: rat
  hr_size :: rat
  hr_risk :: rat
  hr_entered :: int
  hr_market :: rat
  hr_slippage :: rat
  hr_mfe :: rat
  hr_mae :: rat
  hr_funding :: rat

definition shadow_of_row :: "shadow_row \<Rightarrow> shadow_trade" where
  "shadow_of_row r =
     \<lparr>hs_id = Some (hr_id r), hs_source = hr_source r, hs_setup = hr_setup r, hs_symbol = hr_symbol r,
      hs_entry = hr_entry r, hs_fee = hr_fee r, hs_stop = hr_stop r, hs_target = hr_target r, hs_size = hr_size r,
      hs_risk = hr_risk r, hs_entered = hr_entered r, hs_market = hr_market r, hs_slippage = hr_slippage r,
      hs_mfe = hr_mfe r, hs_mae = hr_mae r, hs_highest = hr_market r, hs_lowest = hr_market r, hs_funding = hr_funding r\<rparr>"

definition load_shadow :: "shadow_engine \<Rightarrow> shadow_row \<Rightarrow> shadow_engine" where
  "load_shadow he r =
     (if hr_source r = None then he
      else he\<lparr>he_open := dput (hr_source r) (shadow_of_row r) (he_open he),
              he_index := index_add (hr_symbol r) (hr_source r) (he_index he)\<rparr>)"

definition start_shadow :: "shadow_row list \<Rightarrow> shadow_engine" where
  "start_shadow rows = foldl load_shadow \<lparr>he_open = [], he_index = []\<rparr> rows"

section \<open>One pass over the exits\<close>

text \<open>What a pass does to one open shadow.\<close>

definition marked_at :: "(string \<times> rat) list \<Rightarrow> shadow_trade \<Rightarrow> shadow_trade" where
  "marked_at prices t = (case dget prices (hs_symbol t) of None \<Rightarrow> t | Some price \<Rightarrow> shadow_marked price t)"

definition shut_at :: "paper_settings \<Rightarrow> int \<Rightarrow> (string \<times> rat) list \<Rightarrow> shadow_trade \<Rightarrow> shadow_close option" where
  "shut_at ps now prices t =
     (case dget prices (hs_symbol t) of None \<Rightarrow> None | Some price \<Rightarrow> shadow_exit ps now price (shadow_marked price t))"

lemma marked_keeps [simp]: "hs_symbol (shadow_marked p t) = hs_symbol t" "hs_source (shadow_marked p t) = hs_source t"
  "hs_symbol (marked_at prices t) = hs_symbol t" "hs_source (marked_at prices t) = hs_source t"
  by (simp_all add: shadow_marked_def marked_at_def Let_def split: option.split)

lemma shadow_loop_fst: "fst (shadow_loop ps now prices d) = map (\<lambda>(k, t). (k, marked_at prices t)) d"
  by (induction d rule: shadow_loop.induct)
    (auto simp: marked_at_def Let_def split: option.split prod.split)

lemma shadow_loop_snd:
  "snd (shadow_loop ps now prices d) =
     List.map_filter (\<lambda>(k, t). map_option (Pair k) (shut_at ps now prices t)) d"
  by (induction d rule: shadow_loop.induct)
    (auto simp: shut_at_def Let_def map_filter_simps split: option.split prod.split)

lemma remove_shadow_open: "he_open (remove_shadow he k) = ddel k (he_open he)"
  by (auto simp: remove_shadow_def map_of_eq_None_iff delete_id split: option.split)

lemma fold_remove_open: "he_open (foldl remove_shadow he ks) = fold ddel ks (he_open he)"
  by (induction ks arbitrary: he) (simp_all add: remove_shadow_open)

lemma shut_keys:
  assumes "dwf d"
  shows "k \<in> set (map fst (snd (shadow_loop ps now prices d))) \<longleftrightarrow>
    (case dget d k of None \<Rightarrow> False | Some t \<Rightarrow> shut_at ps now prices t \<noteq> None)"
proof -
  have "k \<in> set (map fst (snd (shadow_loop ps now prices d))) \<longleftrightarrow> (\<exists>t. (k, t) \<in> set d \<and> shut_at ps now prices t \<noteq> None)"
    by (force simp: shadow_loop_snd List.map_filter_def image_iff)
  also have "\<dots> \<longleftrightarrow> (\<exists>t. dget d k = Some t \<and> shut_at ps now prices t \<noteq> None)"
    by (simp only: dwf_dget_iff [OF assms])
  finally show ?thesis by (simp split: option.split)
qed

lemma marked_book: "dget (map (\<lambda>(k, t). (k, marked_at prices t)) d) k = map_option (marked_at prices) (dget d k)"
  using dget_map_ran [of "\<lambda>_. marked_at prices" d k] by simp

lemma shadow_exits_book:
  assumes "dwf (he_open he)" "shadow_enabled hc"
  shows "dget (he_open (snd (check_shadow_exits ps hc now prices he))) k =
    (case dget (he_open he) k of None \<Rightarrow> None
     | Some t \<Rightarrow> if shut_at ps now prices t = None then Some (marked_at prices t) else None)"
proof -
  obtain book shut where l: "shadow_loop ps now prices (he_open he) = (book, shut)" by fastforce
  have book: "book = map (\<lambda>(k, t). (k, marked_at prices t)) (he_open he)"
    using shadow_loop_fst [of ps now prices "he_open he"] by (simp add: l)
  have shut: "k \<in> set (map fst shut) \<longleftrightarrow> (case dget (he_open he) k of None \<Rightarrow> False | Some t \<Rightarrow> shut_at ps now prices t \<noteq> None)"
    using shut_keys [OF assms(1), of k ps now prices] by (simp add: l)
  have "dget (he_open (snd (check_shadow_exits ps hc now prices he))) k = (if k \<in> set (map fst shut) then None else dget book k)"
    using assms(2) by (simp add: check_shadow_exits_def l fold_remove_open dict.lookup_del_fold)
  then show ?thesis unfolding shut book marked_book by (cases "dget (he_open he) k") simp_all
qed

text \<open>A pass over the shadows closes exactly the trades whose own price and age call for it, each once and in
  the order of the book; every other trade stays, with its price marks updated when there is a price for it
  and untouched otherwise.\<close>

theorem shadow_exits_spec:
  assumes "dwf (he_open he)" "shadow_enabled hc"
  shows "fst (check_shadow_exits ps hc now prices he) =
      List.map_filter (shut_at ps now prices) (dvals (he_open he)) \<and>
    dget (he_open (snd (check_shadow_exits ps hc now prices he))) k =
      (case dget (he_open he) k of None \<Rightarrow> None
       | Some t \<Rightarrow> if shut_at ps now prices t = None then Some (marked_at prices t) else None)"
proof -
  have "map snd (List.map_filter (\<lambda>(k, t). map_option (Pair k) (f t)) d) = List.map_filter f (dvals d)" for f d
    by (induction d) (auto simp: map_filter_simps split: option.split)
  then have "fst (check_shadow_exits ps hc now prices he) = List.map_filter (shut_at ps now prices) (dvals (he_open he))"
    using assms(2) shadow_loop_snd [of ps now prices "he_open he"] by (simp add: check_shadow_exits_def split_beta)
  with shadow_exits_book [OF assms] show ?thesis by simp
qed

section \<open>The index by symbol\<close>

definition index_ok :: "shadow_engine \<Rightarrow> bool" where
  "index_ok he \<longleftrightarrow> dwf (he_open he) \<and>
     (\<forall>s. dget (he_index he) s =
        (let ks = {k. \<exists>t. dget (he_open he) k = Some t \<and> hs_symbol t = s} in if ks = {} then None else Some ks)) \<and>
     (\<forall>k t. dget (he_open he) k = Some t \<longrightarrow> hs_source t = k)"

text \<open>The keys of the shadows of a symbol.\<close>

definition keys_of :: "(int option \<times> shadow_trade) list \<Rightarrow> string \<Rightarrow> int option set" where
  "keys_of d s = {k. \<exists>t. dget d k = Some t \<and> hs_symbol t = s}"

definition set_option :: "'a set \<Rightarrow> 'a set option" where
  "set_option ks = (if ks = {} then None else Some ks)"

lemma index_ok_iff:
  "index_ok he \<longleftrightarrow> dwf (he_open he) \<and> (\<forall>s. dget (he_index he) s = set_option (keys_of (he_open he) s)) \<and>
     (\<forall>k t. dget (he_open he) k = Some t \<longrightarrow> hs_source t = k)"
  by (simp add: index_ok_def keys_of_def set_option_def Let_def)

lemma dget_index_add: "dget (index_add s k d) u = (if u = s then Some (insert k (dget_or d s {})) else dget d u)"
  by (simp add: index_add_def)

lemma index_add_ok:
  assumes "index_ok he" "dget (he_open he) k = None" "hs_source t = k"
  shows "index_ok (he\<lparr>he_open := dput k t (he_open he), he_index := index_add (hs_symbol t) k (he_index he)\<rparr>)"
proof -
  have d: "dget_or (he_index he) s {} = keys_of (he_open he) s" for s
    using assms(1) by (auto simp: index_ok_iff set_option_def dget_or_def)
  have k: "keys_of (dput k t (he_open he)) s = (if s = hs_symbol t then insert k (keys_of (he_open he) s) else keys_of (he_open he) s)" for s
    using assms(2) by (auto simp: keys_of_def)
  show ?thesis
    using assms(1,3) by (auto simp: index_ok_iff dget_index_add d k set_option_def)
qed

lemma dget_index_del:
  "dget (index_del s k d) u =
     (if u = s then (case dget d s of None \<Rightarrow> None | Some ks \<Rightarrow> set_option (ks - {k})) else dget d u)"
  by (simp add: index_del_def set_option_def split: option.split)

lemma remove_shadow_ok:
  assumes "index_ok he"
  shows "index_ok (remove_shadow he k)"
proof (cases "dget (he_open he) k")
  case None
  with assms show ?thesis by (simp add: remove_shadow_def)
next
  case (Some t)
  have kk: "keys_of (ddel k (he_open he)) s = keys_of (he_open he) s - (if s = hs_symbol t then {k} else {})" for s
    using Some by (auto simp: keys_of_def split: if_splits)
  have ix: "dget (he_index he) s = set_option (keys_of (he_open he) s)" for s using assms by (simp add: index_ok_iff)
  have "k \<in> keys_of (he_open he) (hs_symbol t)" using Some by (simp add: keys_of_def)
  with assms Some show ?thesis
    by (auto simp: remove_shadow_def index_ok_iff dget_index_del kk ix set_option_def split: if_splits)
qed

lemma fold_remove_ok: "index_ok he \<Longrightarrow> index_ok (foldl remove_shadow he ks)"
  by (rule foldl_invariant) (simp_all add: remove_shadow_ok)

lemma mark_book_ok:
  assumes "index_ok he"
  shows "index_ok (he\<lparr>he_open := map (\<lambda>(k, t). (k, marked_at prices t)) (he_open he)\<rparr>)"
proof -
  have "keys_of (map (\<lambda>(k, t). (k, marked_at prices t)) (he_open he)) s = keys_of (he_open he) s" for s
    by (auto simp: keys_of_def marked_book)
  moreover have "dwf (map (\<lambda>(k, t). (k, marked_at prices t)) (he_open he))"
    using assms dwf_map_ran [of "he_open he" "\<lambda>_. marked_at prices"] by (simp add: index_ok_iff)
  ultimately show ?thesis using assms by (auto simp: index_ok_iff marked_book)
qed

lemma shadow_exits_ok:
  assumes "index_ok he"
  shows "index_ok (snd (check_shadow_exits ps hc now prices he))"
proof -
  have b: "fst (shadow_loop ps now prices (he_open he)) = map (\<lambda>(k, t). (k, marked_at prices t)) (he_open he)"
    by (rule shadow_loop_fst)
  show ?thesis
    using mark_book_ok [OF assms, of prices] assms
    by (auto simp: check_shadow_exits_def split_beta b intro: fold_remove_ok)
qed

lemma new_shadow_source: "new_shadow ps hc now src price = Some t \<Longrightarrow> hs_source t = pt_trade_id src"
  by (auto simp: new_shadow_def Let_def split: if_splits)

lemma shadow_entries_ok:
  assumes "index_ok he"
  shows "index_ok (snd (check_shadow_entries ps hc save now src price he))"
proof -
  have "index_ok (he\<lparr>he_open := dput (hs_source t) (t\<lparr>hs_id := Some i\<rparr>) (he_open he),
      he_index := index_add (hs_symbol t) (hs_source t) (he_index he)\<rparr>)"
    if "dget (he_open he) (pt_trade_id src) = None" "new_shadow ps hc now src price = Some t" for t i
    using index_add_ok [OF assms, of "hs_source t" "t\<lparr>hs_id := Some i\<rparr>"] that new_shadow_source [OF that(2)] by simp
  then show ?thesis
    using assms by (auto simp: check_shadow_entries_def dhas_def Let_def split: option.split)
qed

datatype shadow_event =
    ShadowEntry "shadow_trade \<Rightarrow> int option option" int paper_trade rat
  | ShadowExits int "(string \<times> rat) list"

fun shadow_step :: "paper_settings \<Rightarrow> shadow_config \<Rightarrow> shadow_engine \<Rightarrow> shadow_event \<Rightarrow> shadow_engine" where
  "shadow_step ps hc he (ShadowEntry save now src price) = snd (check_shadow_entries ps hc save now src price he)"
| "shadow_step ps hc he (ShadowExits now prices) = snd (check_shadow_exits ps hc now prices he)"

interpretation shadow: event_system "shadow_step ps hc" index_ok for ps hc
proof
  show "index_ok (shadow_step ps hc he e)" if "index_ok he" for he e
    using that by (cases e) (simp_all add: shadow_entries_ok shadow_exits_ok)
qed

lemma load_shadow_ok:
  assumes "index_ok he" "dget (he_open he) (hr_source r) = None"
  shows "index_ok (load_shadow he r)"
  using assms index_add_ok [OF assms(1,2), of "shadow_of_row r"] by (simp add: load_shadow_def shadow_of_row_def)

lemma start_shadow_ok: "distinct (map hr_source rows) \<Longrightarrow> index_ok (start_shadow rows)"
proof -
  have run: "index_ok (foldl load_shadow he rows)"
    if "index_ok he" "distinct (map hr_source rows)" "\<forall>r\<in>set rows. dget (he_open he) (hr_source r) = None" for he rows
    using that
  proof (induction rows arbitrary: he)
    case (Cons r rows)
    have "index_ok (load_shadow he r)" using Cons.prems by (intro load_shadow_ok) auto
    moreover have "\<forall>q\<in>set rows. dget (he_open (load_shadow he r)) (hr_source q) = None"
    proof
      fix q assume q: "q \<in> set rows"
      have "hr_source q \<noteq> hr_source r" using Cons.prems(2) q by (metis distinct.simps(2) imageI list.set_map list.simps(9))
      moreover have "dget (he_open he) (hr_source q) = None" using Cons.prems(3) q by simp
      ultimately show "dget (he_open (load_shadow he r)) (hr_source q) = None" by (simp add: load_shadow_def)
    qed
    ultimately show ?case using Cons.IH [of "load_shadow he r"] Cons.prems(2) by simp
  qed simp
  have "index_ok \<lparr>he_open = [], he_index = []\<rparr>" by (simp add: index_ok_def)
  from run [OF this] show "distinct (map hr_source rows) \<Longrightarrow> index_ok (start_shadow rows)"
    by (simp add: start_shadow_def)
qed

text \<open>The symbol index never goes stale: after loading rows with different source trades and any entries and
  exit passes, there is at most one shadow per source trade, filed under that source, and the index
  holds for every symbol exactly the shadows of that symbol, with no empty set left behind.\<close>

theorem shadow_index_exact:
  assumes "distinct (map hr_source rows)"
  shows "let he = foldl (shadow_step ps hc) (start_shadow rows) events
    in dwf (he_open he) \<and> dget (he_index he) symb = set_option (keys_of (he_open he) symb) \<and>
       (case dget (he_open he) k of None \<Rightarrow> True | Some t \<Rightarrow> hs_source t = k)"
proof -
  have "index_ok (foldl (shadow_step ps hc) (start_shadow rows) events)"
    by (intro shadow.run_inv start_shadow_ok assms)
  then show ?thesis by (auto simp: index_ok_iff Let_def split: option.split)
qed

section \<open>The geometry of a shadow\<close>

lemma new_shadow_prices:
  assumes "new_shadow ps hc now src price = Some t"
  shows "hs_entry t = py_round (shadow_entry_price ps src) 6"
    and "hs_stop t = py_round (shadow_stop hc (shadow_entry_price ps src)) 6"
    and "hs_target t = py_round (shadow_target hc (shadow_entry_price ps src)) 6"
    and "0 < shadow_entry_price ps src"
  using assms by (auto simp: new_shadow_def Let_def split: if_splits)

lemma shadow_stop_le:
  assumes "0 \<le> hc_stop_pct hc" "0 \<le> e" "is_double e"
  shows "shadow_stop hc e \<le> e"
proof -
  have "0 \<le> fdiv (hc_stop_pct hc) 100" using assms(1) by (simp add: fdiv_nonneg)
  then have "fsub 1 (fdiv (hc_stop_pct hc) 100) \<le> 1" by (intro fsub_le_left) simp_all
  then have "e * fsub 1 (fdiv (hc_stop_pct hc) 100) \<le> e" using assms(2) by (simp add: mult_left_le)
  then show ?thesis using assms(3) unfolding shadow_stop_def fmul_def is_double_def by (rule f64.rnd_le_rep [rotated])
qed

lemma shadow_target_ge:
  assumes "0 \<le> hc_target_pct hc" "0 \<le> e" "is_double e"
  shows "e \<le> shadow_target hc e"
proof -
  have "0 \<le> fdiv (hc_target_pct hc) 100" using assms(1) by (simp add: fdiv_nonneg)
  then have "1 \<le> fadd 1 (fdiv (hc_target_pct hc) 100)" by (intro fadd_ge_left) simp_all
  then have "e \<le> e * fadd 1 (fdiv (hc_target_pct hc) 100)" using assms(2) by (simp add: mult_le_cancel_left1)
  then show ?thesis using assms(3) unfolding shadow_target_def fmul_def is_double_def by (rule f64.rnd_ge_rep [rotated])
qed

text \<open>The geometry of a shadow is never inverted: with percentages that are not negative its recorded stop is at
  most its entry and its target at least its entry, and a price strictly between them closes nothing
  before the expiry.\<close>

theorem shadow_geometry:
  assumes "new_shadow ps hc now src price = Some t" "0 \<le> hc_stop_pct hc" "0 \<le> hc_target_pct hc"
  shows "hs_stop t \<le> hs_entry t \<and> hs_entry t \<le> hs_target t \<and>
    (if hs_stop t < p \<and> p < hs_target t \<and> age_minutes later t \<le> of_int SHADOW_EXPIRY_MINUTES
     then shadow_exit ps later p t = None else True)"
proof -
  let ?e = "shadow_entry_price ps src"
  have e: "0 \<le> ?e" "is_double ?e" using new_shadow_prices(4) [OF assms(1)] by (simp_all add: shadow_entry_price_def)
  show ?thesis
    using shadow_stop_le [OF assms(2) e] shadow_target_ge [OF assms(3) e] new_shadow_prices(1-3) [OF assms(1)]
    by (auto simp: shadow_exit_def intro: py_round_mono)
qed

text \<open>Rounding to six decimals joins the prices near ten millionths.\<close>

lemma round_micro:
  assumes "95 / 10 ^ 7 < (x :: rat)" "x < 105 / 10 ^ 7"
  shows "py_round x 6 = fl (10 / 10 ^ 6)"
proof -
  have "\<bar>of_int (round_even (x * 10 ^ 6)) - x * 10 ^ 6\<bar> \<le> 1 / 2" by (rule round_even_error)
  moreover have "19 / 2 < x * 10 ^ 6" "x * 10 ^ 6 < 21 / 2" using assms by simp_all
  ultimately have "(9 :: rat) < of_int (round_even (x * 10 ^ 6))" "of_int (round_even (x * 10 ^ 6)) < (11 :: rat)"
    unfolding abs_le_iff by linarith+
  then have "round_even (x * 10 ^ 6) = 10" by linarith
  then show ?thesis by (simp add: py_round_def)
qed

text \<open>The price ranges of a shadow of a coin that costs a hundred thousandth.\<close>

lemma micro_prices:
  assumes p: "41 / 2 ^ 22 \<le> pt_entry_price src" "pt_entry_price src \<le> 42 / 2 ^ 22"
    and slip: "0 \<le> ps_slippage ps" "ps_slippage ps \<le> 1 / 2 ^ 10"
    and cfg: "hc_stop_pct hc = 5 / 2" "hc_target_pct hc = 3"
  defines "e \<equiv> shadow_entry_price ps src"
  shows "41 / 2 ^ 22 \<le> e" "e \<le> 43050 / 2 ^ 32" "20459 / 2 ^ 31 \<le> shadow_stop hc e"
    "shadow_target hc e \<le> 45417750 / 2 ^ 42"
proof -
  have one: "1 \<le> fadd 1 (ps_slippage ps)" using slip(1) by (intro fadd_ge_left) simp_all
  have slip_up: "fadd 1 (ps_slippage ps) \<le> 1025 / 2 ^ 10"
    unfolding fadd_def using fl_dyadic [of 1025 10] slip(2) by (intro f64.rnd_le_rep) simp_all
  have "41 / 2 ^ 22 * 1 \<le> pt_entry_price src * fadd 1 (ps_slippage ps)" using p(1) one by (intro mult_mono) simp_all
  then show lo: "41 / 2 ^ 22 \<le> e"
    unfolding e_def shadow_entry_price_def fmul_def using fl_dyadic [of 41 22] by (intro f64.rnd_ge_rep) simp_all
  have "pt_entry_price src * fadd 1 (ps_slippage ps) \<le> 42 / 2 ^ 22 * (1025 / 2 ^ 10)"
    using p slip_up one by (intro mult_mono) simp_all
  then show hi: "e \<le> 43050 / 2 ^ 32"
    unfolding e_def shadow_entry_price_def fmul_def using fl_dyadic [of 43050 32] by (intro f64.rnd_le_rep) simp_all
  have "fdiv (5 / 2) 100 \<le> 13 / 2 ^ 9" unfolding fdiv_def using fl_dyadic [of 13 9] by (intro f64.rnd_le_rep) simp_all
  then have "499 / 2 ^ 9 \<le> fsub 1 (fdiv (5 / 2) 100)"
    unfolding fsub_def using fl_dyadic [of 499 9] by (intro f64.rnd_ge_rep) simp_all
  then have "41 / 2 ^ 22 * (499 / 2 ^ 9) \<le> e * fsub 1 (fdiv (5 / 2) 100)" using lo by (intro mult_mono) simp_all
  then show "20459 / 2 ^ 31 \<le> shadow_stop hc e"
    unfolding shadow_stop_def cfg fmul_def using fl_dyadic [of 20459 31] by (intro f64.rnd_ge_rep) simp_all
  have "fdiv 3 100 \<le> 31 / 2 ^ 10" unfolding fdiv_def using fl_dyadic [of 31 10] by (intro f64.rnd_le_rep) simp_all
  then have up: "fadd 1 (fdiv 3 100) \<le> 1055 / 2 ^ 10"
    unfolding fadd_def using fl_dyadic [of 1055 10] by (intro f64.rnd_le_rep) simp_all
  have "0 \<le> fadd 1 (fdiv 3 100)" by (simp add: fadd_nonneg fdiv_nonneg)
  then have "e * fadd 1 (fdiv 3 100) \<le> 43050 / 2 ^ 32 * (1055 / 2 ^ 10)" using lo hi up by (intro mult_mono) simp_all
  then show "shadow_target hc e \<le> 45417750 / 2 ^ 42"
    unfolding shadow_target_def cfg fmul_def using fl_dyadic [of 45417750 42] by (intro f64.rnd_le_rep) simp_all
qed

text \<open>On a coin that costs about a hundred thousandth the rounding of prices to six decimals collapses the
  shadow: with the default distances of 2.5 and 3 percent its stop, its entry and its target are the same
  number, so the first pass at the unchanged entry price books a stop loss.\<close>

theorem micro_price_stops_at_once:
  assumes "41 / 2 ^ 22 \<le> pt_entry_price src" "pt_entry_price src \<le> 42 / 2 ^ 22"
    and "0 \<le> ps_slippage ps" "ps_slippage ps \<le> 1 / 2 ^ 10"
    and "hc_stop_pct hc = 5 / 2" "hc_target_pct hc = 3" and new: "new_shadow ps hc now src price = Some t"
  shows "hs_stop t = hs_entry t \<and> hs_target t = hs_entry t \<and>
    map_option hz_reason (shadow_exit ps later (hs_entry t) (shadow_marked (hs_entry t) t)) = Some ''STOP_LOSS''"
proof -
  let ?e = "shadow_entry_price ps src"
  note m = micro_prices [OF assms(1-6)]
  have e: "0 \<le> ?e" "is_double ?e" using m(1) by (simp_all add: shadow_entry_price_def)
  have le: "shadow_stop hc ?e \<le> ?e" "?e \<le> shadow_target hc ?e"
    using shadow_stop_le [OF _ e] shadow_target_ge [OF _ e] assms(5,6) by simp_all
  have "py_round ?e 6 = fl (10 / 10 ^ 6)" "py_round (shadow_stop hc ?e) 6 = fl (10 / 10 ^ 6)"
    "py_round (shadow_target hc ?e) 6 = fl (10 / 10 ^ 6)"
    using m le by (intro round_micro; simp)+
  then have "hs_stop t = hs_entry t" "hs_target t = hs_entry t" using new_shadow_prices(1-3) [OF new] by simp_all
  then show ?thesis by (simp add: shadow_exit_def shadow_marked_def close_shadow_trade_def Let_def)
qed

section \<open>Concrete shadows\<close>

definition demo_shadow_config :: shadow_config where
  "demo_shadow_config = \<lparr>hc_enabled = True, hc_mode = ''shadow'', hc_scanner = ''scan'', hc_direction = SHORT,
     hc_stop_pct = 5 / 2, hc_target_pct = 3\<rparr>"

definition micro_source :: paper_trade where
  "micro_source = demo_trade\<lparr>pt_direction := SHORT, pt_entry_price := 41 / 2 ^ 22\<rparr>"

lemma micro_shadow: "\<exists>t. new_shadow plain_settings demo_shadow_config 0 micro_source 1 = Some t"
proof -
  let ?e = "shadow_entry_price plain_settings micro_source" and ?ps = plain_settings
  have e: "?e = 41 / 2 ^ 22"
    using fl_dyadic [of 41 22] by (simp add: shadow_entry_price_def micro_source_def plain_settings_def fmul_def fadd_def fl_one)
  have "12 / 2 ^ 9 \<le> fdiv (5 / 2) 100" unfolding fdiv_def using fl_dyadic [of 12 9] by (intro f64.rnd_ge_rep) simp_all
  then have "fsub 1 (fdiv (5 / 2) 100) \<le> 500 / 2 ^ 9"
    unfolding fsub_def using fl_dyadic [of 500 9] by (intro f64.rnd_le_rep) simp_all
  then have "shadow_stop demo_shadow_config ?e \<le> 41 / 2 ^ 22 * (500 / 2 ^ 9)"
    unfolding shadow_stop_def fmul_def e using fl_dyadic [of 20500 31]
    by (intro f64.rnd_le_rep) (simp_all add: demo_shadow_config_def)
  then have "492 / 2 ^ 31 \<le> ?e - shadow_stop demo_shadow_config ?e" by (simp add: e)
  then have d: "492 / 2 ^ 31 \<le> fsub ?e (shadow_stop demo_shadow_config ?e)"
    unfolding fsub_def using fl_dyadic [of 492 31] by (intro f64.rnd_ge_rep) simp_all
  let ?d = "\<bar>fsub ?e (shadow_stop demo_shadow_config ?e)\<bar>"
  have "0 \<le> shadow_stop demo_shadow_config ?e"
    unfolding shadow_stop_def by (intro fmul_nonneg) (simp_all add: e fsub_nonneg fdiv_def demo_shadow_config_def f64.rnd_le_rep fl_one)
  then have "fsub ?e (shadow_stop demo_shadow_config ?e) \<le> 1"
    unfolding fsub_def by (intro f64.rnd_le_rep) (simp_all add: e fl_one)
  with d have d1: "0 < ?d" "?d \<le> 1" by simp_all
  have m: "fmul (ps_initial_balance ?ps) (ps_risk_per_trade ?ps) = 8" "fmul (ps_initial_balance ?ps) (ps_max_symbol_exposure ?ps) = 1024"
    by (simp_all add: plain_settings_def demo_paper_settings_def fmul_def fl_numeral_le)
  have "8 \<le> 8 / ?d" using d1 by (simp add: le_divide_eq)
  then have "8 \<le> fdiv 8 ?d" unfolding fdiv_def by (intro f64.rnd_ge_rep) (simp_all add: fl_numeral_le)
  moreover have "1024 \<le> fdiv 1024 ?e" unfolding fdiv_def e by (intro f64.rnd_ge_rep) (simp_all add: fl_numeral_le)
  ultimately have "0 < shadow_size ?ps ?e ?d" by (simp add: shadow_size_def m)
  with d1 show ?thesis by (simp add: new_shadow_def Let_def e)
qed

theorem micro_price_stops_at_once_witness:
  "case new_shadow plain_settings demo_shadow_config 0 micro_source 1 of
     None \<Rightarrow> False | Some t \<Rightarrow> hs_stop t = hs_entry t \<and> hs_target t = hs_entry t"
proof -
  obtain t where t: "new_shadow plain_settings demo_shadow_config 0 micro_source 1 = Some t" using micro_shadow by blast
  have "41 / 2 ^ 22 \<le> pt_entry_price micro_source" "pt_entry_price micro_source \<le> 42 / 2 ^ 22"
    "0 \<le> ps_slippage plain_settings" "ps_slippage plain_settings \<le> 1 / 2 ^ 10"
    "hc_stop_pct demo_shadow_config = 5 / 2" "hc_target_pct demo_shadow_config = 3"
    by (simp_all add: micro_source_def plain_settings_def demo_shadow_config_def)
  from micro_price_stops_at_once [OF this t, of 0] show ?thesis by (simp add: t)
qed

theorem shadow_geometry_witness:
  "case new_shadow plain_settings demo_shadow_config 0 micro_source 1 of
     None \<Rightarrow> False | Some t \<Rightarrow> hs_stop t \<le> hs_entry t \<and> hs_entry t \<le> hs_target t"
proof -
  obtain t where t: "new_shadow plain_settings demo_shadow_config 0 micro_source 1 = Some t" using micro_shadow by blast
  have "0 \<le> hc_stop_pct demo_shadow_config" "0 \<le> hc_target_pct demo_shadow_config" by (simp_all add: demo_shadow_config_def)
  from shadow_geometry [OF t this, of 0 0] show ?thesis by (simp add: t)
qed

definition demo_row :: shadow_row where
  "demo_row = \<lparr>hr_id = 3, hr_source = Some 1, hr_setup = ''s1'', hr_symbol = ''BTCUSDT'', hr_entry = 1024, hr_fee = 0,
     hr_stop = 1000, hr_target = 1100, hr_size = 1, hr_risk = 24, hr_entered = 0, hr_market = 1024, hr_slippage = 0,
     hr_mfe = 0, hr_mae = 0, hr_funding = 0\<rparr>"

theorem shadow_index_exact_witness:
  "dwf (he_open (foldl (shadow_step plain_settings demo_shadow_config) (start_shadow [demo_row]) [ShadowExits 9 [(''BTCUSDT'', 900)]]))"
  using shadow_index_exact [of "[demo_row]" plain_settings demo_shadow_config "[ShadowExits 9 [(''BTCUSDT'', 900)]]"]
  by (simp add: Let_def del: foldl_Cons shadow_step.simps)

theorem shadow_exits_spec_witness:
  "map hz_reason (fst (check_shadow_exits plain_settings demo_shadow_config 9 [(''BTCUSDT'', 900)] (start_shadow [demo_row]))) =
     [''STOP_LOSS_GAP'']"
  using shadow_exits_spec [of "start_shadow [demo_row]" demo_shadow_config plain_settings 9 "[(''BTCUSDT'', 900)]" "Some 1"]
  by (simp add: start_shadow_def load_shadow_def demo_row_def shadow_of_row_def demo_shadow_config_def shadow_enabled_def
      dwf_def shut_at_def shadow_exit_def shadow_marked_def close_shadow_trade_def map_filter_simps Let_def)

end
