(* ===== verification/Decimal.thy ===== *)
theory Decimal
  imports Prelude
begin

text \<open>
  Decimal texts of integers, as \<^verbatim>\<open>str(n)\<close> and f-strings print them and \<^verbatim>\<open>int(s)\<close> reads them.
\<close>

fun nat_text :: "nat \<Rightarrow> string" where
  "nat_text n = (if n < 10 then [char_of (48 + n)] else nat_text (n div 10) @ [char_of (48 + n mod 10)])"

declare nat_text.simps [simp del]

definition int_text :: "int \<Rightarrow> string" where
  "int_text k = (if k < 0 then CHR ''-'' # nat_text (nat (- k)) else nat_text (nat k))"

definition digit_val :: "char \<Rightarrow> nat option" where
  "digit_val c = (let n = (of_char c :: nat) in if 48 \<le> n \<and> n \<le> 57 then Some (n - 48) else None)"

fun parse_digits :: "nat \<Rightarrow> string \<Rightarrow> nat option" where
  "parse_digits acc [] = Some acc"
| "parse_digits acc (c # cs) =
     (case digit_val c of None \<Rightarrow> None | Some d \<Rightarrow> parse_digits (10 * acc + d) cs)"

text \<open>\<^verbatim>\<open>int(s)\<close> on the decimal texts; the other spellings Python accepts (blanks, underscores, a
  leading plus) do not occur in a text the program wrote.\<close>

definition parse_int :: "string \<Rightarrow> int option" where
  "parse_int s =
     (case s of [] \<Rightarrow> None
      | c # cs \<Rightarrow> if c = CHR ''-'' then (if cs = [] then None else map_option (\<lambda>n. - int n) (parse_digits 0 cs))
                 else map_option int (parse_digits 0 s))"

lemma digit_val_digit: "d < 10 \<Longrightarrow> digit_val (char_of (48 + d)) = Some d"
  by (simp add: digit_val_def Let_def of_char_of)

lemma parse_digits_append:
  "parse_digits acc (xs @ ys) = (case parse_digits acc xs of None \<Rightarrow> None | Some a \<Rightarrow> parse_digits a ys)"
  by (induction xs arbitrary: acc) (auto split: option.split)

lemma parse_nat_text: "parse_digits 0 (nat_text n) = Some n"
proof (induction n rule: nat_text.induct)
  case (1 n)
  then show ?case
    by (subst nat_text.simps) (auto simp: parse_digits_append digit_val_digit)
qed

lemma nat_text_digits: "c \<in> set (nat_text n) \<Longrightarrow> digit_val c \<noteq> None"
proof (induction n rule: nat_text.induct)
  case (1 n)
  then show ?case
    by (subst (asm) (2) nat_text.simps) (auto simp: digit_val_digit split: if_splits)
qed

lemma nat_text_clean: "CHR '':'' \<notin> set (nat_text n)" "CHR ''-'' \<notin> set (nat_text n)"
  using nat_text_digits [of "CHR '':''" n] nat_text_digits [of "CHR ''-''" n] by (auto simp: digit_val_def)

lemma nat_text_nonempty [simp]: "nat_text n \<noteq> []"
  by (subst nat_text.simps) simp

lemma parse_int_text: "0 \<le> k \<Longrightarrow> parse_int (int_text k) = Some k"
proof -
  assume k: "0 \<le> k"
  obtain c cs where c: "nat_text (nat k) = c # cs" by (cases "nat_text (nat k)") auto
  moreover have "c \<noteq> CHR ''-''" using nat_text_clean(2) [of "nat k"] by (auto simp: c)
  ultimately show ?thesis using k parse_nat_text [of "nat k"] by (simp add: parse_int_def int_text_def)
qed

lemma int_text_clean: "0 \<le> k \<Longrightarrow> CHR '':'' \<notin> set (int_text k)"
  by (simp add: int_text_def nat_text_clean)

end
