(* ===== verification/Indicators.thy ===== *)
theory Indicators
  imports PySum
begin

text \<open>
  Candles and the technical indicators of \<^verbatim>\<open>src/app/indicators/technical.py\<close>, and the
  market snapshot that \<^verbatim>\<open>MarketDataService.build_snapshot\<close>
  (\<^verbatim>\<open>src/app/market_data/market_data_service.py\<close>) computes from them. Periods are
  natural numbers, so a negative period of the source is the period 0 here: both take the same branch
  wherever the source checks the period. The Bollinger bands, which need a power
  function, are in the theory \<open>MarketView\<close>.
\<close>

section \<open>Errors\<close>

datatype py_error = ValueError string | ZeroDivisionError

definition div_checked :: "rat \<Rightarrow> rat \<Rightarrow> py_error + rat" where
  "div_checked a b = (if b = 0 then Inl ZeroDivisionError else Inr (fdiv a b))"

section \<open>Candles\<close>

record candle =
  cl_time :: int
  cl_open :: rat
  cl_high :: rat
  cl_low :: rat
  cl_close :: rat
  cl_volume :: rat

text \<open>\<^verbatim>\<open>zip(xs, xs[1:])\<close>\<close>

definition neighbours :: "'a list \<Rightarrow> ('a \<times> 'a) list" where
  "neighbours xs = zip xs (tl xs)"

text \<open>\<^verbatim>\<open>xs[-n:]\<close> for a positive \<^verbatim>\<open>n\<close>.\<close>

definition last_n :: "nat \<Rightarrow> 'a list \<Rightarrow> 'a list" where
  "last_n n xs = drop (length xs - n) xs"

section \<open>Indicators\<close>

definition percent_change :: "rat \<Rightarrow> rat \<Rightarrow> rat" where
  "percent_change current previous = (if previous \<noteq> 0 then fmul (fdiv (fsub current previous) previous) 100 else 0)"

definition simple_ma :: "rat list \<Rightarrow> nat \<Rightarrow> py_error + rat" where
  "simple_ma values period =
     (if period = 0 \<or> length values < period then Inl (ValueError ''insufficient values for moving average'')
      else Inr (fdiv (py_sum (last_n period values)) (of_nat period)))"

text \<open>One step of Wilder's smoothing.\<close>

definition wilder :: "nat \<Rightarrow> rat \<Rightarrow> rat \<Rightarrow> rat" where
  "wilder period v x = fdiv (fadd (fmul v (of_nat (period - 1))) x) (of_nat period)"

definition wilder_all :: "nat \<Rightarrow> rat list \<Rightarrow> rat" where
  "wilder_all period xs = foldl (wilder period) (fdiv (py_sum (take period xs)) (of_nat period)) (drop period xs)"

definition rsi_wilder :: "rat list \<Rightarrow> nat \<Rightarrow> py_error + rat" where
  "rsi_wilder closes period =
     (if period = 0 \<or> length closes \<le> period then Inl (ValueError ''RSI requires period + 1 closes'')
      else let changes = map (\<lambda>(a, b). fsub b a) (neighbours closes);
               avg_gain = wilder_all period (map (\<lambda>c. max c 0) changes);
               avg_loss = wilder_all period (map (\<lambda>c. max (- c) 0) changes)
           in if avg_loss = 0 then Inr (if avg_gain \<noteq> 0 then 100 else 50)
              else Inr (fsub 100 (fdiv 100 (fadd 1 (fdiv avg_gain avg_loss)))))"

definition true_range :: "candle \<times> candle \<Rightarrow> rat" where
  "true_range pc =
     (case pc of (previous, current) \<Rightarrow>
        max (fsub (cl_high current) (cl_low current))
          (max \<bar>fsub (cl_high current) (cl_close previous)\<bar> \<bar>fsub (cl_low current) (cl_close previous)\<bar>))"

definition atr_wilder :: "candle list \<Rightarrow> nat \<Rightarrow> py_error + rat" where
  "atr_wilder candles period =
     (if period = 0 \<or> length candles \<le> period then Inl (ValueError ''ATR requires period + 1 candles'')
      else Inr (wilder_all period (map true_range (neighbours candles))))"

definition volume_ratio :: "rat list \<Rightarrow> nat \<Rightarrow> py_error + rat" where
  "volume_ratio volumes period =
     (if length volumes \<le> period then Inl (ValueError ''volume ratio requires period + 1 values'')
      else rbind (div_checked (py_sum (last_n period (butlast volumes))) (of_nat period))
        (\<lambda>average. Inr (if average \<noteq> 0 then fdiv (last volumes) average else 0)))"

definition ema_step :: "rat \<Rightarrow> rat \<Rightarrow> rat \<Rightarrow> rat" where
  "ema_step multiplier result val = fadd (fmul (fsub val result) multiplier) result"

definition ema :: "rat list \<Rightarrow> nat \<Rightarrow> py_error + rat" where
  "ema values period =
     (if length values < period then Inl (ValueError ''EMA requires more values'')
      else rbind (div_checked (py_sum (take period values)) (of_nat period))
        (\<lambda>start. Inr (foldl (ema_step (fdiv 2 (of_nat (period + 1)))) start (drop period values))))"

definition ema_slope :: "rat list \<Rightarrow> nat \<Rightarrow> nat \<Rightarrow> py_error + rat" where
  "ema_slope values period lookback =
     (if length values < period + lookback then Inl (ValueError ''EMA slope requires more values'')
      else rbind (ema values period)
        (\<lambda>current. rbind (ema (if lookback = 0 then [] else take (length values - lookback) values) period)
          (\<lambda>past. Inr (if past = 0 then 0 else fmul (fdiv (fsub current past) past) 100))))"

definition plus_dm :: "candle \<times> candle \<Rightarrow> rat" where
  "plus_dm pc =
     (case pc of (prev, cur) \<Rightarrow>
        let up = fsub (cl_high cur) (cl_high prev); down = fsub (cl_low prev) (cl_low cur)
        in if up > down \<and> up > 0 then up else 0)"

definition minus_dm :: "candle \<times> candle \<Rightarrow> rat" where
  "minus_dm pc =
     (case pc of (prev, cur) \<Rightarrow>
        let up = fsub (cl_high cur) (cl_high prev); down = fsub (cl_low prev) (cl_low cur)
        in if down > up \<and> down > 0 then down else 0)"

definition directional_index :: "rat \<Rightarrow> rat \<Rightarrow> rat \<Rightarrow> rat" where
  "directional_index atr p m =
     (let plus_di = fdiv (fmul 100 p) atr; minus_di = fdiv (fmul 100 m) atr; di_sum = fadd plus_di minus_di
      in if di_sum = 0 then 0 else fdiv (fmul 100 \<bar>fsub plus_di minus_di\<bar>) di_sum)"

text \<open>The loop state: the three smoothed values and the list of indices so far.\<close>

definition adx_step :: "nat \<Rightarrow> rat \<times> rat \<times> rat \<times> rat list \<Rightarrow> candle \<times> candle \<Rightarrow> rat \<times> rat \<times> rat \<times> rat list" where
  "adx_step period s pc =
     (case s of (a, p, m, dxs) \<Rightarrow>
        let a' = wilder period a (true_range pc); p' = wilder period p (plus_dm pc); m' = wilder period m (minus_dm pc)
        in (a', p', m', if a' = 0 then dxs else dxs @ [directional_index a' p' m']))"

definition adx_indices :: "candle list \<Rightarrow> nat \<Rightarrow> rat list" where
  "adx_indices candles period =
     (let pairs = neighbours candles;
          start = (\<lambda>f. fdiv (py_sum (take period (map f pairs))) (of_nat period))
      in snd (snd (snd (foldl (adx_step period) (start true_range, start plus_dm, start minus_dm, []) (drop period pairs)))))"

definition adx :: "candle list \<Rightarrow> nat \<Rightarrow> py_error + rat" where
  "adx candles period =
     (if length candles \<le> period + 1 then Inl (ValueError ''ADX requires more candles'')
      else if period = 0 then Inl ZeroDivisionError
      else let dxs = adx_indices candles period
           in if dxs = [] then Inr 0
              else if length dxs \<ge> period then Inr (wilder_all period dxs)
              else Inr (fdiv (py_sum dxs) (of_nat (length dxs))))"

section \<open>Ranges of the indicators\<close>

text \<open>No period of the settings comes near this bound on the compensated sums.\<close>

definition sane_period :: "nat \<Rightarrow> bool" where
  "sane_period period \<longleftrightarrow> period \<le> 2 ^ 40"

definition nonneg_doubles :: "rat list \<Rightarrow> bool" where
  "nonneg_doubles xs \<longleftrightarrow> list_all (\<lambda>x. 0 \<le> x \<and> is_double x) xs"

lemma nonneg_doubles_take: "nonneg_doubles xs \<Longrightarrow> nonneg_doubles (take n xs)"
  by (auto simp: nonneg_doubles_def list_all_iff dest: in_set_takeD)

lemma nonneg_doubles_drop: "nonneg_doubles xs \<Longrightarrow> nonneg_doubles (drop n xs)"
  by (auto simp: nonneg_doubles_def list_all_iff dest: in_set_dropD)

lemma nonneg_doubles_map: "(\<And>x. 0 \<le> f x \<and> is_double (f x)) \<Longrightarrow> nonneg_doubles (map f xs)"
  by (auto simp: nonneg_doubles_def list_all_iff)

lemma wilder_nonneg: "0 \<le> v \<Longrightarrow> 0 \<le> x \<Longrightarrow> 0 \<le> wilder p v x"
  by (simp add: wilder_def fdiv_nonneg fadd_nonneg fmul_nonneg)

lemma wilder_fold_nonneg: "0 \<le> v \<Longrightarrow> nonneg_doubles xs \<Longrightarrow> 0 \<le> foldl (wilder p) v xs"
  by (induction xs arbitrary: v) (auto simp: nonneg_doubles_def wilder_nonneg)

lemma start_nonneg: "nonneg_doubles xs \<Longrightarrow> sane_period p \<Longrightarrow> 0 \<le> fdiv (py_sum (take p xs)) (of_nat p)"
  by (intro fdiv_nonneg py_sum_nonneg nonneg_doubles_take [unfolded nonneg_doubles_def])
    (simp_all add: sane_period_def nonneg_doubles_def)

lemma wilder_all_nonneg: "nonneg_doubles xs \<Longrightarrow> sane_period p \<Longrightarrow> 0 \<le> wilder_all p xs"
  unfolding wilder_all_def by (intro wilder_fold_nonneg start_nonneg nonneg_doubles_drop)

lemma is_double_uminus [simp]: "is_double (- x) \<longleftrightarrow> is_double x"
  by (simp add: is_double_def fl_minus)

lemma is_double_abs [simp]: "is_double x \<Longrightarrow> is_double \<bar>x\<bar>"
  by (simp add: abs_if)

lemma rsi_formula_range:
  assumes "0 \<le> g" "0 \<le> l"
  shows "0 \<le> fsub 100 (fdiv 100 (fadd 1 (fdiv g l)))" "fsub 100 (fdiv 100 (fadd 1 (fdiv g l))) \<le> 100"
proof -
  have one: "1 \<le> fadd 1 (fdiv g l)" using assms by (intro fadd_ge_left fdiv_nonneg) simp_all
  have d100: "is_double 100" using fl_of_int [of 100] by (simp add: is_double_def)
  have "100 / fadd 1 (fdiv g l) \<le> 100" using one by (simp add: divide_le_eq)
  then have q: "0 \<le> fdiv 100 (fadd 1 (fdiv g l))" "fdiv 100 (fadd 1 (fdiv g l)) \<le> 100"
    using one d100 fl_mono [of "100 / fadd 1 (fdiv g l)" 100] by (auto simp: fdiv_nonneg) (simp add: fdiv_def)
  from fsub_nonneg [OF q(2)] fsub_le_left [OF d100 q(1)]
  show "0 \<le> fsub 100 (fdiv 100 (fadd 1 (fdiv g l)))" "fsub 100 (fdiv 100 (fadd 1 (fdiv g l))) \<le> 100" .
qed

lemma rsi_bounds:
  assumes "sane_period period" "rsi_wilder closes period = Inr r"
  shows "0 \<le> r \<and> r \<le> 100"
proof -
  let ?ch = "map (\<lambda>(a, b). fsub b a) (neighbours closes)"
  have dc: "is_double c" if "c \<in> set ?ch" for c using that by auto
  have g: "0 \<le> wilder_all period (map (\<lambda>c. max c 0) ?ch)" and l: "0 \<le> wilder_all period (map (\<lambda>c. max (- c) 0) ?ch)"
    using assms(1) dc by (auto intro!: wilder_all_nonneg simp: nonneg_doubles_def list_all_iff)
  show ?thesis
    using assms(2) rsi_formula_range [OF g l] by (auto simp: rsi_wilder_def Let_def split: if_splits)
qed

lemma true_range_ok: "0 \<le> true_range pc \<and> is_double (true_range pc)"
  by (auto simp: true_range_def max_def split: prod.split)

lemma atr_nonneg:
  assumes "sane_period period" "atr_wilder candles period = Inr a"
  shows "0 \<le> a"
  using assms(2) wilder_all_nonneg [OF nonneg_doubles_map [of true_range "neighbours candles"] assms(1)] true_range_ok
  by (auto simp: atr_wilder_def split: if_splits)

text \<open>The indicators are sane for every price history, in floating point: the RSI lies between 0 and
  100 and the average true range is never negative.\<close>

theorem indicators_in_range:
  assumes "sane_period period"
  shows "(case rsi_wilder closes period of Inl e \<Rightarrow> True | Inr r \<Rightarrow> 0 \<le> r \<and> r \<le> 100) \<and>
    (case atr_wilder candles period of Inl e \<Rightarrow> True | Inr a \<Rightarrow> 0 \<le> a)"
  using rsi_bounds [OF assms] atr_nonneg [OF assms] by (auto split: sum.split)

theorem indicators_in_range_witness:
  "(case rsi_wilder [1, 2, 3] 2 of Inl e \<Rightarrow> True | Inr r \<Rightarrow> 0 \<le> r \<and> r \<le> 100) \<and>
    (case atr_wilder [] 2 of Inl e \<Rightarrow> True | Inr a \<Rightarrow> 0 \<le> a)"
  by (rule indicators_in_range) (simp add: sane_period_def)

end
