(* ===== verification/Scanners.thy ===== *)
theory Scanners
  imports Json Decimal Indicators "HOL-Library.List_Lexorder" "HOL-Library.Char_ord"
begin

text \<open>
  The setups that the scanners propose and the gates every setup meets
  (\<^verbatim>\<open>src/app/scanners\<close>): identity and deduplication, the aggregation of
  contradicting signals, the scanner/direction gates, risk geometry, scoring and calibration, the
  expectancy filter and the regime filter. The scanners themselves are in the theories
  \<open>Momentum\<close>, \<open>OosScanner\<close>, \<open>Structure\<close> and \<open>Trend\<close>: here what they return is a
  list of setups.
\<close>

section \<open>Setups\<close>

datatype setup_state =
    DETECTED | CONFIRMED | READY_TO_TRADE | CONFLICT | EXECUTED | SEARCHING | POI_FOUND | LIQUIDITY_SWEPT
  | CHOCH_CONFIRMED | WAITING_RETEST | SETUP_READY | EXPIRED | INVALIDATED

text \<open>Times are microseconds; the candle open time is in milliseconds, 0 when unknown.\<close>

record setup_candidate =
  sc_id :: string
  sc_scanner :: string
  sc_version :: string
  sc_symbol :: string
  sc_direction :: string
  sc_htf_tf :: string
  sc_setup_tf :: string
  sc_entry_tf :: string
  sc_detected :: int
  sc_started :: int
  sc_candle :: int
  sc_price :: rat
  sc_low :: rat
  sc_high :: rat
  sc_stop :: rat
  sc_t1 :: "rat option"
  sc_t2 :: "rat option"
  sc_score :: rat
  sc_regime :: "string option"
  sc_reasons :: "string list"
  sc_features :: "(string \<times> json) list"
  sc_sources :: "int list"
  sc_state :: setup_state

text \<open>\<^verbatim>\<open>features.get(k)\<close> and the truth value of a feature.\<close>

definition feature :: "setup_candidate \<Rightarrow> string \<Rightarrow> json" where
  "feature c k = (case dget (sc_features c) k of None \<Rightarrow> JNull | Some v \<Rightarrow> v)"

fun truthy :: "json \<Rightarrow> bool" where
  "truthy JNull = False"
| "truthy (JBool b) = b"
| "truthy (JInt n) = (n \<noteq> 0)"
| "truthy (JFloat q) = (q \<noteq> 0)"
| "truthy (JStr s) = (s \<noteq> [])"
| "truthy (JArr xs) = (xs \<noteq> [])"
| "truthy (JObj d) = (d \<noteq> [])"

definition flagged :: "string \<Rightarrow> setup_candidate \<Rightarrow> bool" where
  "flagged k c = truthy (feature c k)"

definition with_feature :: "string \<Rightarrow> json \<Rightarrow> setup_candidate \<Rightarrow> setup_candidate" where
  "with_feature k v c = c\<lparr>sc_features := dput k v (sc_features c)\<rparr>"

definition fingerprint_of :: "setup_candidate \<Rightarrow> string" where
  "fingerprint_of c =
     sc_scanner c @ ''|'' @ sc_symbol c @ ''|'' @ sc_direction c @ ''|'' @ sc_entry_tf c @ ''|'' @ int_text (sc_candle c)"

section \<open>Deduplication\<close>

record dedup =
  de_seen :: "(string \<times> setup_candidate) list"
  de_tolerance :: rat

definition is_duplicate :: "dedup \<Rightarrow> setup_candidate \<Rightarrow> bool" where
  "is_duplicate de c =
     (case dget (de_seen de) (fingerprint_of c) of
        None \<Rightarrow> False
      | Some x \<Rightarrow>
          if sc_candle c \<noteq> 0 then True
          else if sc_price x > 0 \<and> fdiv \<bar>fsub (sc_price c) (sc_price x)\<bar> (sc_price x) < de_tolerance de then True
          else sc_started c = sc_started x)"

definition accept :: "dedup \<Rightarrow> setup_candidate \<Rightarrow> dedup" where
  "accept de c = de\<lparr>de_seen := dput (fingerprint_of c) c (de_seen de)\<rparr>"

text \<open>The list keeps, for every candidate, whether it was accepted.\<close>

fun dedup_marks :: "dedup \<Rightarrow> setup_candidate list \<Rightarrow> bool list \<times> dedup" where
  "dedup_marks de [] = ([], de)"
| "dedup_marks de (c # cs) =
     (if is_duplicate de c
      then (case dedup_marks de cs of (ms, de') \<Rightarrow> (False # ms, de'))
      else (case dedup_marks (accept de c) cs of (ms, de') \<Rightarrow> (True # ms, de')))"

definition kept :: "bool list \<Rightarrow> setup_candidate list \<Rightarrow> setup_candidate list" where
  "kept ms cs = map snd (filter fst (zip ms cs))"

definition dropped :: "bool list \<Rightarrow> setup_candidate list \<Rightarrow> setup_candidate list" where
  "dropped ms cs = map snd (filter (\<lambda>p. \<not> fst p) (zip ms cs))"

definition filter_new :: "dedup \<Rightarrow> setup_candidate list \<Rightarrow> setup_candidate list \<times> dedup" where
  "filter_new de cs = (case dedup_marks de cs of (ms, de') \<Rightarrow> (kept ms cs, de'))"

definition contains_key :: "dedup \<Rightarrow> setup_candidate \<Rightarrow> bool" where
  "contains_key de c = dhas (de_seen de) (fingerprint_of c)"

definition age_seconds :: "int \<Rightarrow> int \<Rightarrow> rat" where
  "age_seconds now t = fdiv (of_int (now - t)) 1000000"

definition dedup_cleanup :: "int \<Rightarrow> rat \<Rightarrow> dedup \<Rightarrow> dedup" where
  "dedup_cleanup now max_age de =
     de\<lparr>de_seen := filter (\<lambda>(k, c). \<not> age_seconds now (sc_detected c) > max_age) (de_seen de)\<rparr>"

definition dedup_clear :: "dedup \<Rightarrow> dedup" where
  "dedup_clear de = de\<lparr>de_seen := []\<rparr>"

section \<open>Contradicting signals\<close>

record aggregation =
  ag_symbol :: string
  ag_status :: setup_state
  ag_long_score :: rat
  ag_short_score :: rat
  ag_signals :: "setup_candidate list"

definition trade_candidates :: "aggregation \<Rightarrow> setup_candidate list" where
  "trade_candidates a =
     (if ag_status a \<noteq> READY_TO_TRADE then [] else filter (\<lambda>c. sc_state c = READY_TO_TRADE) (ag_signals a))"

definition sum_scores :: "setup_candidate list \<Rightarrow> rat" where
  "sum_scores cs = py_sum (map sc_score cs)"

definition resolve_symbol :: "string \<Rightarrow> (string \<times> setup_candidate) list \<Rightarrow> aggregation \<times> (string \<times> setup_candidate) list" where
  "resolve_symbol s signals =
     (let recent = filter (\<lambda>c. sc_symbol c = s) (dvals signals);
          has_long = list_ex (\<lambda>c. sc_direction c = ''LONG'') recent;
          has_short = list_ex (\<lambda>c. sc_direction c = ''SHORT'') recent;
          status = (if has_long \<and> has_short then CONFLICT else READY_TO_TRADE);
          resolved = map (\<lambda>c. c\<lparr>sc_state := status\<rparr>) recent
      in (\<lparr>ag_symbol = s, ag_status = status,
           ag_long_score = sum_scores (filter (\<lambda>c. sc_direction c = ''LONG'') resolved),
           ag_short_score = sum_scores (filter (\<lambda>c. sc_direction c = ''SHORT'') resolved),
           ag_signals = resolved\<rparr>,
          foldl (\<lambda>d c. dput (fingerprint_of c) c d) signals resolved))"

fun resolve_symbols :: "string list \<Rightarrow> (string \<times> setup_candidate) list \<Rightarrow> aggregation list \<times> (string \<times> setup_candidate) list" where
  "resolve_symbols [] signals = ([], signals)"
| "resolve_symbols (s # ss) signals =
     (case resolve_symbol s signals of (a, d1) \<Rightarrow>
        (case resolve_symbols ss d1 of (as, d2) \<Rightarrow> (a # as, d2)))"

text \<open>The rolling window is in microseconds; the constructor rejects a window that is not positive.\<close>

definition resolve_signals ::
  "int \<Rightarrow> int \<Rightarrow> setup_candidate list \<Rightarrow> (string \<times> setup_candidate) list \<Rightarrow> aggregation list \<times> (string \<times> setup_candidate) list" where
  "resolve_signals window now cands signals =
     (let recent = filter (\<lambda>(k, c). sc_detected c \<ge> now - window) signals;
          added = foldl (\<lambda>d c. dput (fingerprint_of c) (c\<lparr>sc_state := DETECTED\<rparr>) d) recent cands
      in resolve_symbols (sort (remdups (map sc_symbol cands))) added)"

section \<open>Scanner and direction gates\<close>

record gate_row =
  ga_scanner :: string
  ga_direction :: string
  ga_status :: string
  ga_regimes :: "string list"
  ga_reason :: "string option"

record gate_decision =
  gd_allowed :: bool
  gd_status :: string
  gd_code :: "string option"
  gd_reason :: "string option"
  gd_regimes :: "string list"

record gate_policy =
  gp_gates :: "((string \<times> string) \<times> gate_row) list"
  gp_fallback :: "((string \<times> string) \<times> gate_row) list"

definition upper_whitelist ::
  "(string \<times> (string \<times> string list) list) list \<Rightarrow> (string \<times> (string \<times> string list) list) list" where
  "upper_whitelist wl =
     foldl (\<lambda>d (s, dirs). dput (str_upper s)
        (foldl (\<lambda>d2 (dir, rs). dput (str_upper dir) (map str_upper rs) d2) [] dirs) d) [] wl"

definition fallback_gate ::
  "(string \<times> string) list \<Rightarrow> (string \<times> (string \<times> string list) list) list \<Rightarrow> string \<Rightarrow> string \<Rightarrow> gate_row" where
  "fallback_gate blocked wl s d =
     (if (s, d) \<in> set blocked
      then \<lparr>ga_scanner = s, ga_direction = d, ga_status = ''BLOCKED'', ga_regimes = [], ga_reason = Some ''static fallback blocklist''\<rparr>
      else case dget (dget_or wl s []) d of
             Some rs \<Rightarrow> \<lparr>ga_scanner = s, ga_direction = d, ga_status = ''REGIME'', ga_regimes = rs,
                         ga_reason = Some ''static fallback regime policy''\<rparr>
           | None \<Rightarrow> \<lparr>ga_scanner = s, ga_direction = d, ga_status = ''ENABLED'', ga_regimes = [],
                      ga_reason = Some ''static fallback enabled''\<rparr>)"

definition static_fallback ::
  "string list \<Rightarrow> (string \<times> string) list \<Rightarrow> (string \<times> (string \<times> string list) list) list \<Rightarrow> gate_policy" where
  "static_fallback scanners blocked wl =
     (let bl = map (\<lambda>(s, d). (str_upper s, str_upper d)) blocked; w = upper_whitelist wl
      in \<lparr>gp_gates = [],
          gp_fallback = foldl (\<lambda>g s. foldl (\<lambda>g d. dput (str_upper s, d) (fallback_gate bl w (str_upper s) d) g) g
             [''LONG'', ''SHORT'']) [] scanners\<rparr>)"

text \<open>\<open>None\<close>: the repository raised.\<close>

definition load_for_cycle ::
  "gate_row list option \<Rightarrow> string list \<Rightarrow> (string \<times> string) list \<Rightarrow> (string \<times> (string \<times> string list) list) list \<Rightarrow>
   gate_policy" where
  "load_for_cycle rows scanners blocked wl =
     (let fb = static_fallback scanners blocked wl in
      case rows of None \<Rightarrow> fb
      | Some gs \<Rightarrow>
          \<lparr>gp_gates = foldl (\<lambda>d g. dput (str_upper (ga_scanner g), str_upper (ga_direction g)) g d) [] gs,
           gp_fallback = gp_fallback fb\<rparr>)"

definition gate_for :: "gate_policy \<Rightarrow> string \<Rightarrow> string \<Rightarrow> gate_row option" where
  "gate_for pol s d =
     (case dget (gp_gates pol) (str_upper s, str_upper d) of
        Some g \<Rightarrow> Some g | None \<Rightarrow> dget (gp_fallback pol) (str_upper s, str_upper d))"

definition gate_evaluate :: "gate_policy \<Rightarrow> string \<Rightarrow> string \<Rightarrow> string option \<Rightarrow> gate_decision" where
  "gate_evaluate pol s d regime =
     (case gate_for pol s d of
        None \<Rightarrow> \<lparr>gd_allowed = False, gd_status = ''UNKNOWN'', gd_code = Some ''DIRECTION_GATE_UNKNOWN'',
                 gd_reason = Some ''missing gate configuration'', gd_regimes = []\<rparr>
      | Some g \<Rightarrow>
          (let st = str_upper (ga_status g);
               answer = (\<lambda>ok code. \<lparr>gd_allowed = ok, gd_status = st, gd_code = code, gd_reason = ga_reason g,
                                    gd_regimes = ga_regimes g\<rparr>)
           in if st = ''ENABLED'' then answer True None
              else if st = ''BLOCKED'' then answer False (Some ''DIRECTION_GATE_BLOCKED'')
              else if st = ''OBSERVE_ONLY'' then answer False (Some ''DIRECTION_GATE_OBSERVE_ONLY'')
              else if st = ''REGIME''
              then (if str_upper (case regime of None \<Rightarrow> [] | Some r \<Rightarrow> r) \<in> set (ga_regimes g)
                    then answer True None else answer False (Some ''DIRECTION_GATE_REGIME''))
              else answer False (Some ''DIRECTION_GATE_UNKNOWN'')))"

section \<open>Risk geometry\<close>

text \<open>\<open>None\<close>: a tradable geometry.\<close>

definition geometry_fault :: "setup_candidate \<Rightarrow> string option" where
  "geometry_fault c =
     (if sc_low c \<le> 0 \<or> sc_high c \<le> 0 then Some ''ENTRY_ZONE_MISSING''
      else if sc_low c > sc_high c then Some ''ENTRY_ZONE_INVERTED''
      else if sc_stop c \<le> 0 then Some ''STOP_MISSING''
      else case sc_t1 c of None \<Rightarrow> Some ''TARGET_1_MISSING''
      | Some t1 \<Rightarrow>
          if t1 \<le> 0 then Some ''TARGET_1_MISSING''
          else if sc_direction c = ''LONG''
          then if sc_stop c \<ge> sc_low c
               then if sc_stop c \<le> sc_high c then Some ''STOP_INSIDE_ENTRY_ZONE'' else Some ''STOP_ABOVE_ENTRY_ZONE''
               else if t1 \<le> sc_high c
               then if t1 \<ge> sc_low c then Some ''TARGET_INSIDE_ENTRY_ZONE'' else Some ''TARGET_BELOW_ENTRY_ZONE''
               else None
          else if sc_direction c = ''SHORT''
          then if sc_stop c \<le> sc_high c
               then if sc_stop c \<ge> sc_low c then Some ''STOP_INSIDE_ENTRY_ZONE'' else Some ''STOP_BELOW_ENTRY_ZONE''
               else if t1 \<ge> sc_low c
               then if t1 \<le> sc_high c then Some ''TARGET_INSIDE_ENTRY_ZONE'' else Some ''TARGET_ABOVE_ENTRY_ZONE''
               else None
          else Some ''UNKNOWN_DIRECTION'')"

definition validate_risk_geometry :: "setup_candidate \<Rightarrow> bool \<times> string option" where
  "validate_risk_geometry c = (geometry_fault c = None, geometry_fault c)"


section \<open>Scoring\<close>

definition CONFIRMATION_WEIGHTS :: "(string \<times> rat \<times> string) list" where
  "CONFIRMATION_WEIGHTS =
     [(''rr_ratio'', 15, ''RR_EXCELLENT''),
      (''stop_distance_atr'', 10, ''TIGHT_STOP''),
      (''displacement_strength'', 10, ''DISPLACEMENT''),
      (''volume_ratio'', 8, ''VOLUME_QUALITY''),
      (''rejection_strength'', 8, ''REJECTION_QUALITY''),
      (''sweep_depth'', 8, ''SWEEP_DEPTH''),
      (''ob_distance'', 5, ''OB_PROXIMITY''),
      (''retest_distance'', 5, ''RETEST_QUALITY''),
      (''pullback_quality'', 5, ''PULLBACK_QUALITY''),
      (''regime_alignment'', 5, ''REGIME_ALIGNED''),
      (''rsi_confirmation'', 3, ''RSI_CONFIRMATION''),
      (''volume_spike'', 3, ''VOLUME_SPIKE''),
      (''squeeze_duration'', 5, ''SQUEEZE_DURATION''),
      (''expansion_ratio'', 5, ''EXPANSION_RATIO''),
      (''bb_width_percentile'', 3, ''BB_SQUEEZE''),
      (''exhaustion_magnitude'', 5, ''EXHAUSTION_MAGNITUDE''),
      (''body_ratio'', 3, ''CANDLE_BODY_RATIO''),
      (''htf_context'', 0, ''HTF_CONTEXT''),
      (''stop_distance_ok'', 0, ''ACCEPTABLE_STOP''),
      (''volume_confirmation'', 5, ''VOLUME_CONFIRMATION''),
      (''structure_break'', 3, ''STRUCTURE_QUALITY''),
      (''retest_quality'', 5, ''RETEST_QUALITY''),
      (''level_touch_count'', 5, ''LEVEL_TOUCHES''),
      (''trend_alignment'', 0, ''TREND_ALIGNMENT''),
      (''pullback_to_ema'', 0, ''PULLBACK_TO_EMA''),
      (''rsi_cool'', 0, ''RSI_COOL'')]"

fun quality :: "json \<Rightarrow> rat" where
  "quality (JBool b) = (if b then 1 else 0)"
| "quality (JInt n) = max 0 (min (fl (of_int n)) 1)"
| "quality (JFloat q) = max 0 (min q 1)"
| "quality _ = 0"

definition reward_to_risk :: "setup_candidate \<Rightarrow> rat" where
  "reward_to_risk c =
     (case sc_t1 c of None \<Rightarrow> 0
      | Some t1 \<Rightarrow>
          let risk = \<bar>fsub (sc_price c) (sc_stop c)\<bar>
          in if risk \<le> 0 then 0 else fdiv \<bar>fsub t1 (sc_price c)\<bar> risk)"

definition feature_step :: "setup_candidate \<Rightarrow> rat \<times> string list \<Rightarrow> string \<times> rat \<times> string \<Rightarrow> rat \<times> string list" where
  "feature_step c acc w =
     (case (acc, w) of ((score, reasons), (key, weight, reason)) \<Rightarrow>
        if weight \<le> 0 then (score, reasons)
        else let q = quality (feature c key) in
          if q > 0 then (fadd score (fmul weight q), reasons @ [reason]) else (score, reasons))"

definition rr_bonus :: "setup_candidate \<Rightarrow> rat \<times> string list \<Rightarrow> rat \<times> string list" where
  "rr_bonus c acc =
     (if feature c ''rr_ratio'' \<noteq> JNull then acc
      else let rr = reward_to_risk c in
        if rr \<ge> 2 then (fadd (fst acc) 10, snd acc @ [''RR_STRONG''])
        else if rr \<ge> 3 / 2 then (fadd (fst acc) 5, snd acc @ [''RR_GOOD'']) else acc)"

text \<open>\<^verbatim>\<open>features.get("atr", 0)\<close> compared with a number: \<open>None\<close> where Python raises TypeError.\<close>

definition atr_value :: "setup_candidate \<Rightarrow> rat option" where
  "atr_value c =
     (case dget (sc_features c) ''atr'' of
        None \<Rightarrow> Some 0
      | Some (JBool b) \<Rightarrow> Some (if b then 1 else 0)
      | Some (JInt n) \<Rightarrow> Some (of_int n)
      | Some (JFloat q) \<Rightarrow> Some q
      | Some _ \<Rightarrow> None)"

definition stop_bonus :: "setup_candidate \<Rightarrow> rat \<times> string list \<Rightarrow> (rat \<times> string list) option" where
  "stop_bonus c acc =
     (if feature c ''stop_distance_atr'' \<noteq> JNull then Some acc
      else case atr_value c of None \<Rightarrow> None
        | Some a \<Rightarrow>
            if a > 0 \<and> fdiv \<bar>fsub (sc_price c) (sc_stop c)\<bar> (fl a) < 3 / 2
            then Some (fadd (fst acc) 5, snd acc @ [''TIGHT_STOP'']) else Some acc)"

text \<open>\<open>None\<close>: the scoring raised.\<close>

definition score_candidate :: "setup_candidate \<Rightarrow> setup_candidate option" where
  "score_candidate c =
     (case stop_bonus c (rr_bonus c (foldl (feature_step c) (10, [''VALID_SETUP'']) CONFIRMATION_WEIGHTS)) of
        None \<Rightarrow> None
      | Some (score, reasons) \<Rightarrow> Some (c\<lparr>sc_score := py_round (min score 100) 2, sc_reasons := reasons\<rparr>))"

section \<open>Calibration across scanners\<close>

definition by_scanner :: "setup_candidate list \<Rightarrow> (string \<times> setup_candidate list) list" where
  "by_scanner cs = foldl (\<lambda>d c. dput (sc_scanner c) (dget_or d (sc_scanner c) [] @ [c]) d) [] cs"

definition normalized_score :: "rat \<Rightarrow> rat \<Rightarrow> rat \<Rightarrow> rat" where
  "normalized_score lo width s = py_round (fadd (fmul (fdiv (fsub s lo) width) 80) 10) 2"

definition calibrate_group :: "setup_candidate list \<Rightarrow> setup_candidate list" where
  "calibrate_group cs =
     (if length cs < 2 then cs
      else let lo = Min (set (map sc_score cs)); width = fsub (Max (set (map sc_score cs))) lo in
        if width > 0
        then map (\<lambda>c. c\<lparr>sc_score := normalized_score lo width (sc_score c)\<rparr>) cs
        else map (\<lambda>c. c\<lparr>sc_score := 50\<rparr>) cs)"

definition calibrate_scores :: "setup_candidate list \<Rightarrow> setup_candidate list" where
  "calibrate_scores cs = concat (map (\<lambda>(s, g). calibrate_group g) (by_scanner cs))"

section \<open>Expectancy\<close>

record expectancy =
  ex_samples :: int
  ex_avg_r :: rat
  ex_win_rate :: rat
  ex_profit_factor :: rat

definition is_profitable ::
  "((string \<times> string) \<times> expectancy) list \<Rightarrow> string \<Rightarrow> string \<Rightarrow> rat \<Rightarrow> int \<Rightarrow> rat \<Rightarrow> bool \<Rightarrow> bool" where
  "is_profitable recs s d min_avg_r min_samples min_pf paper =
     (case dget recs (s, d) of
        None \<Rightarrow> paper
      | Some r \<Rightarrow> if ex_samples r < min_samples then paper
                  else ex_avg_r r > min_avg_r \<and> ex_profit_factor r \<ge> min_pf)"

text \<open>The thresholds of one call of \<^verbatim>\<open>filter_candidates\<close>.\<close>

record evidence =
  ev_records :: "((string \<times> string) \<times> expectancy) list"
  ev_min_avg_r :: rat
  ev_min_samples :: int
  ev_min_pf :: rat
  ev_enforce :: bool
  ev_blocked :: "(string \<times> string) list"
  ev_paper :: bool

definition evidence_accepts :: "evidence \<Rightarrow> setup_candidate \<Rightarrow> bool" where
  "evidence_accepts ev c \<longleftrightarrow>
     (str_upper (sc_scanner c), str_upper (sc_direction c)) \<notin> set (ev_blocked ev) \<and>
     (\<not> ev_enforce ev \<or>
      is_profitable (ev_records ev) (sc_scanner c) (sc_direction c) (ev_min_avg_r ev) (ev_min_samples ev)
        (ev_min_pf ev) (ev_paper ev))"

definition filter_candidates :: "evidence \<Rightarrow> setup_candidate list \<Rightarrow> setup_candidate list \<times> nat" where
  "filter_candidates ev cs = (filter (evidence_accepts ev) cs, length (filter (\<lambda>c. \<not> evidence_accepts ev c) cs))"

section \<open>Market context\<close>

record market_context =
  mc_symbol :: string
  mc_5m :: "candle list"
  mc_15m :: "candle list"
  mc_1h :: "candle list"
  mc_4h :: "candle list"
  mc_regime :: "string option"

definition candles_of :: "market_context \<Rightarrow> string \<Rightarrow> candle list" where
  "candles_of ctx tf =
     (if tf = ''5m'' then mc_5m ctx else if tf = ''15m'' then mc_15m ctx
      else if tf = ''1h'' then mc_1h ctx else if tf = ''4h'' then mc_4h ctx else [])"

definition attach_signal_candle :: "market_context \<Rightarrow> setup_candidate \<Rightarrow> setup_candidate" where
  "attach_signal_candle ctx c =
     (if sc_candle c \<noteq> 0 then c
      else let cs = candles_of ctx (sc_entry_tf c) in
        if cs = [] then c else c\<lparr>sc_candle := cl_time (last cs)\<rparr>)"

definition attach_context :: "market_context \<Rightarrow> setup_candidate \<Rightarrow> setup_candidate" where
  "attach_context ctx c =
     (let c1 = attach_signal_candle ctx c
      in if sc_regime c1 = None then c1\<lparr>sc_regime := mc_regime ctx\<rparr> else c1)"

definition regime_allows ::
  "(string \<times> (string \<times> string list) list) list \<Rightarrow> string \<Rightarrow> setup_candidate \<Rightarrow> bool" where
  "regime_allows wl regime c =
     (case dget (dget_or wl (sc_scanner c) []) (sc_direction c) of
        Some rs \<Rightarrow> regime \<in> set rs
      | None \<Rightarrow> \<not> (sc_direction c = ''LONG'' \<and> regime = ''TREND_DOWN'' \<or>
                  sc_direction c = ''SHORT'' \<and> regime = ''TREND_UP''))"

definition apply_regime_filter ::
  "market_context \<Rightarrow> (string \<times> (string \<times> string list) list) list \<Rightarrow> setup_candidate list \<Rightarrow> setup_candidate list" where
  "apply_regime_filter ctx wl cs =
     (case mc_regime ctx of
        None \<Rightarrow> cs
      | Some r \<Rightarrow> if r = [] then cs else filter (regime_allows wl r) cs)"

definition EXPIRATION_BASE :: "(string \<times> int) list" where
  "EXPIRATION_BASE = [(''5m'', 12), (''15m'', 8), (''1h'', 6), (''4h'', 4)]"

text \<open>\<open>None\<close>: the timeframe has no number and \<^verbatim>\<open>int\<close> raised.\<close>

definition setup_expired :: "int \<Rightarrow> rat \<Rightarrow> setup_candidate \<Rightarrow> bool option" where
  "setup_expired now ttl c =
     (case parse_int (filter (\<lambda>x. x \<noteq> CHR ''m'' \<and> x \<noteq> CHR ''h'') (sc_setup_tf c)) of
        None \<Rightarrow> None
      | Some n \<Rightarrow>
          let minutes = (if CHR ''h'' \<in> set (sc_setup_tf c) then n * 60 else n);
              candles = fmul (of_int (dget_or EXPIRATION_BASE (sc_setup_tf c) 8)) ttl
          in Some (age_seconds now (sc_detected c) > fmul (fmul candles (of_int minutes)) 60))"

fun check_expiration :: "int \<Rightarrow> rat \<Rightarrow> setup_candidate list \<Rightarrow> setup_candidate list option" where
  "check_expiration now ttl [] = Some []"
| "check_expiration now ttl (c # cs) =
     (case setup_expired now ttl c of None \<Rightarrow> None
      | Some old \<Rightarrow> map_option (\<lambda>r. if old then c # r else r) (check_expiration now ttl cs))"


section \<open>Properties of the gates\<close>

text \<open>A geometry is accepted exactly when the whole entry zone is positive and in order, the stop is
  positive and lies beyond the whole zone on the losing side, and the first target beyond it on the
  winning side.\<close>

theorem geometry_accepts_iff:
  "fst (validate_risk_geometry c) \<longleftrightarrow> 0 < sc_low c \<and> sc_low c \<le> sc_high c \<and>
     (case sc_t1 c of None \<Rightarrow> False
      | Some t \<Rightarrow> (sc_direction c = ''LONG'' \<and> 0 < sc_stop c \<and> sc_stop c < sc_low c \<and> sc_high c < t) \<or>
                  (sc_direction c = ''SHORT'' \<and> sc_high c < sc_stop c \<and> 0 < t \<and> t < sc_low c))"
  by (cases "sc_t1 c") (auto simp: validate_risk_geometry_def geometry_fault_def)

text \<open>The reason codes that the validator can return; two documented ones are missing.\<close>

lemma geometry_codes:
  "case geometry_fault c of None \<Rightarrow> True
   | Some r \<Rightarrow> r \<in> {''ENTRY_ZONE_MISSING'', ''ENTRY_ZONE_INVERTED'', ''STOP_MISSING'', ''TARGET_1_MISSING'',
      ''STOP_INSIDE_ENTRY_ZONE'', ''STOP_ABOVE_ENTRY_ZONE'', ''STOP_BELOW_ENTRY_ZONE'', ''TARGET_INSIDE_ENTRY_ZONE'',
      ''TARGET_ABOVE_ENTRY_ZONE'', ''TARGET_BELOW_ENTRY_ZONE'', ''UNKNOWN_DIRECTION''}"
  by (cases "sc_t1 c") (auto simp: geometry_fault_def)

lemma gate_allowed_iff:
  "gd_allowed (gate_evaluate pol s d regime) \<longleftrightarrow>
     (case gate_for pol s d of None \<Rightarrow> False
      | Some g \<Rightarrow> str_upper (ga_status g) = ''ENABLED'' \<or>
          (str_upper (ga_status g) = ''REGIME'' \<and> str_upper (case regime of None \<Rightarrow> [] | Some r \<Rightarrow> r) \<in> set (ga_regimes g)))"
  by (auto simp: gate_evaluate_def Let_def split: option.split)

lemma dget_fold_const:
  "dget (foldl (\<lambda>g s. foldl (\<lambda>g d. dput (str_upper s, d) (F (str_upper s) d) g) g ds) acc ss) (s, d) =
     (if (\<exists>x\<in>set ss. str_upper x = s) \<and> d \<in> set ds then Some (F s d) else dget acc (s, d))"
proof -
  have inner: "dget (foldl (\<lambda>g d. dput (u, d) (F u d) g) acc ds) (s, d) =
      (if u = s \<and> d \<in> set ds then Some (F s d) else dget acc (s, d))" for acc u
    by (induction ds arbitrary: acc) auto
  show ?thesis by (induction ss arbitrary: acc) (auto simp: inner)
qed

lemma fallback_gate_for:
  "dget (gp_fallback (static_fallback scanners blocked wl)) (s, d) =
    (if (\<exists>x\<in>set scanners. str_upper x = s) \<and> d \<in> {''LONG'', ''SHORT''}
     then Some (fallback_gate (map (\<lambda>(s, d). (str_upper s, str_upper d)) blocked) (upper_whitelist wl) s d) else None)"
  unfolding static_fallback_def Let_def gate_policy.select_convs dget_fold_const by simp

lemma rows_gate_for:
  "dget (foldl (\<lambda>d g. dput (str_upper (ga_scanner g), str_upper (ga_direction g)) g d) acc gs) k =
    (case find (\<lambda>g. (str_upper (ga_scanner g), str_upper (ga_direction g)) = k) (rev gs) of
       Some g \<Rightarrow> Some g | None \<Rightarrow> dget acc k)"
proof (induction gs arbitrary: acc rule: rev_induct)
  case (snoc g gs)
  then show ?case by auto
qed simp

lemma upper_statuses:
  "str_upper ''BLOCKED'' = ''BLOCKED''" "str_upper ''REGIME'' = ''REGIME''" "str_upper ''ENABLED'' = ''ENABLED''"
  by code_simp+

text \<open>The gates are closed by default: a scanner and direction that the database does not mention
  (or cannot answer for) is let through only when it is a known scanner with a plain direction that the
  static blocklist does not name, and then only in its whitelisted regimes if it has any.\<close>

theorem gate_closed_by_default:
  assumes "case rows of None \<Rightarrow> True
      | Some gs \<Rightarrow> find (\<lambda>g. str_upper (ga_scanner g) = str_upper s \<and> str_upper (ga_direction g) = str_upper d) (rev gs) = None"
    and "gd_allowed (gate_evaluate (load_for_cycle rows scanners blocked wl) s d regime)"
  shows "str_upper s \<in> set (map str_upper scanners) \<and> str_upper d \<in> {''LONG'', ''SHORT''} \<and>
    (str_upper s, str_upper d) \<notin> set (map (\<lambda>(s, d). (str_upper s, str_upper d)) blocked) \<and>
    (case dget (dget_or (upper_whitelist wl) (str_upper s) []) (str_upper d) of None \<Rightarrow> True
     | Some rs \<Rightarrow> str_upper (case regime of None \<Rightarrow> [] | Some r \<Rightarrow> r) \<in> set rs)"
proof -
  have "gate_for (load_for_cycle rows scanners blocked wl) s d =
      dget (gp_fallback (static_fallback scanners blocked wl)) (str_upper s, str_upper d)"
    using assms(1) by (auto simp: gate_for_def load_for_cycle_def Let_def static_fallback_def rows_gate_for split: option.splits)
  then show ?thesis
    using assms(2) unfolding gate_allowed_iff fallback_gate_for
    by (auto simp: fallback_gate_def upper_statuses intro: rev_image_eqI split: if_splits option.splits)
qed

theorem gate_closed_by_default_witness:
  "str_upper ''alpha'' \<in> set (map str_upper [''ALPHA'']) \<and> str_upper ''long'' \<in> {''LONG'', ''SHORT''} \<and>
    (str_upper ''alpha'', str_upper ''long'') \<notin> set (map (\<lambda>(s, d). (str_upper s, str_upper d)) [(''ALPHA'', ''SHORT'')]) \<and>
    (case dget (dget_or (upper_whitelist [(''ALPHA'', [(''LONG'', [''TREND_UP''])])]) (str_upper ''alpha'') []) (str_upper ''long'') of
       None \<Rightarrow> True | Some rs \<Rightarrow> str_upper (case Some ''trend_up'' of None \<Rightarrow> [] | Some r \<Rightarrow> r) \<in> set rs)"
proof (rule gate_closed_by_default [where rows = None])
  show "gd_allowed (gate_evaluate (load_for_cycle None [''ALPHA''] [(''ALPHA'', ''SHORT'')] [(''ALPHA'', [(''LONG'', [''TREND_UP''])])])
      ''alpha'' ''long'' (Some ''trend_up''))"
    by code_simp
qed simp

section \<open>One setup per candle\<close>

lemma filter_new_Nil: "filter_new de [] = ([], de)"
  by (simp add: filter_new_def kept_def)

lemma filter_new_Cons:
  "filter_new de (c # cs) =
    (if is_duplicate de c then filter_new de cs
     else (c # fst (filter_new (accept de c) cs), snd (filter_new (accept de c) cs)))"
  by (simp add: filter_new_def kept_def split: prod.split)

lemma contains_accept: "contains_key (accept de c) x \<longleftrightarrow> fingerprint_of x = fingerprint_of c \<or> contains_key de x"
  by (auto simp: contains_key_def accept_def dhas_def)

lemma contains_filter_new: "contains_key de x \<Longrightarrow> contains_key (snd (filter_new de cs)) x"
  by (induction cs arbitrary: de) (auto simp: filter_new_Nil filter_new_Cons contains_accept)

lemma duplicate_contained: "is_duplicate de c \<Longrightarrow> contains_key de c"
  by (auto simp: is_duplicate_def contains_key_def dhas_def split: option.splits)

text \<open>Every candidate that went through \<^verbatim>\<open>filter_new\<close> has its key in the table afterwards, accepted or
  not.\<close>

lemma filter_new_contains: "c \<in> set cs \<Longrightarrow> contains_key (snd (filter_new de cs)) c"
  by (induction cs arbitrary: de)
    (auto simp: filter_new_Cons contains_accept intro: contains_filter_new dest: duplicate_contained)

lemma fresh_contained: "contains_key de c \<Longrightarrow> sc_candle c \<noteq> 0 \<Longrightarrow> is_duplicate de c"
  by (auto simp: is_duplicate_def contains_key_def dhas_def split: option.splits)

lemma filter_new_fresh:
  "c \<in> set (fst (filter_new de cs)) \<Longrightarrow> sc_candle c \<noteq> 0 \<Longrightarrow> \<not> contains_key de c"
proof (induction cs arbitrary: de)
  case (Cons a cs)
  show ?case
  proof (cases "is_duplicate de a")
    case False
    with Cons.prems(1) consider "c = a" | "c \<in> set (fst (filter_new (accept de a) cs))"
      by (auto simp: filter_new_Cons)
    then show ?thesis
    proof cases
      case 1
      with False Cons.prems(2) fresh_contained [of de c] show ?thesis by auto
    next
      case 2
      with Cons.IH [OF 2 Cons.prems(2)] show ?thesis by (simp add: contains_accept)
    qed
  qed (use Cons in \<open>simp add: filter_new_Cons\<close>)
qed (simp add: filter_new_Nil)

lemma filter_new_distinct:
  "distinct (map fingerprint_of (filter (\<lambda>c. sc_candle c \<noteq> 0) (fst (filter_new de cs))))"
proof (induction cs arbitrary: de)
  case (Cons c cs)
  have "fingerprint_of c \<notin> fingerprint_of ` {x \<in> set (fst (filter_new (accept de c) cs)). sc_candle x \<noteq> 0}"
    using filter_new_fresh [of _ "accept de c" cs] by (force simp: contains_accept)
  with Cons show ?case by (auto simp: filter_new_Cons)
qed (simp add: filter_new_Nil)

text \<open>What the successive scan cycles of a process accept.\<close>

fun dedup_run :: "dedup \<Rightarrow> setup_candidate list list \<Rightarrow> setup_candidate list" where
  "dedup_run de [] = []"
| "dedup_run de (cs # css) = fst (filter_new de cs) @ dedup_run (snd (filter_new de cs)) css"

lemma dedup_run_fresh:
  "c \<in> set (dedup_run de css) \<Longrightarrow> sc_candle c \<noteq> 0 \<Longrightarrow> \<not> contains_key de c"
  by (induction css arbitrary: de) (auto dest: filter_new_fresh contains_filter_new)

text \<open>C10. One setup per candle: over any number of scan cycles, no two setups of the same scanner, symbol,
  direction, timeframe and (known) candle are ever accepted, however their prices move.\<close>

theorem one_setup_per_candle:
  "distinct (map fingerprint_of (filter (\<lambda>c. sc_candle c \<noteq> 0) (dedup_run de css)))"
proof (induction css arbitrary: de)
  case (Cons cs css)
  have "fingerprint_of c \<noteq> fingerprint_of x"
    if "c \<in> set (fst (filter_new de cs))" "x \<in> set (dedup_run (snd (filter_new de cs)) css)" "sc_candle x \<noteq> 0" for c x
  proof
    assume eq: "fingerprint_of c = fingerprint_of x"
    have "c \<in> set cs" using that(1) by (auto simp: filter_new_def kept_def dest!: set_zip_rightD split: prod.splits)
    then have "contains_key (snd (filter_new de cs)) c" by (rule filter_new_contains)
    then have "contains_key (snd (filter_new de cs)) x" using eq by (simp add: contains_key_def)
    with dedup_run_fresh [OF that(2,3)] show False by simp
  qed
  with Cons filter_new_distinct [of de cs] show ?case by (auto simp: image_iff)
qed simp


section \<open>Scores\<close>

lemma quality_bounds: "0 \<le> quality j" "quality j \<le> 1"
  by (cases j; simp)+

lemma weights_nonneg: "list_all (\<lambda>(k, w, r). 0 \<le> w) CONFIRMATION_WEIGHTS"
  by (simp add: CONFIRMATION_WEIGHTS_def)

definition score_ok :: "rat \<times> string list \<Rightarrow> bool" where
  "score_ok acc \<longleftrightarrow> is_double (fst acc) \<and> 10 \<le> fst acc"

lemma score_ok_add: "score_ok acc \<Longrightarrow> 0 \<le> x \<Longrightarrow> score_ok (fadd (fst acc) x, rs)"
  using fadd_ge_left [of "fst acc" x] by (auto simp: score_ok_def)

lemma feature_step_ok: "score_ok acc \<Longrightarrow> 0 \<le> fst (snd w) \<Longrightarrow> score_ok (feature_step c acc w)"
  using score_ok_add [of acc] quality_bounds
  by (auto simp: feature_step_def Let_def fmul_nonneg score_ok_def split: prod.split)

lemma features_ok: "list_all (\<lambda>(k, w, r). 0 \<le> w) ws \<Longrightarrow> score_ok acc \<Longrightarrow> score_ok (foldl (feature_step c) acc ws)"
proof (induction ws arbitrary: acc)
  case (Cons w ws)
  then have "score_ok (feature_step c acc w)" by (intro feature_step_ok) (auto split: prod.splits)
  with Cons show ?case by simp
qed simp

lemma rr_bonus_ok: "score_ok acc \<Longrightarrow> score_ok (rr_bonus c acc)"
  using score_ok_add [of acc 10] score_ok_add [of acc 5] by (auto simp: rr_bonus_def Let_def)

lemma stop_bonus_ok: "score_ok acc \<Longrightarrow> stop_bonus c acc = Some acc' \<Longrightarrow> score_ok acc'"
  using score_ok_add [of acc 5] by (auto simp: stop_bonus_def split: if_splits option.splits)

text \<open>Every score is between 10 and 100, and scoring changes nothing but the score and its reasons.\<close>

lemma score_in_range:
  "score_candidate c = Some c' \<Longrightarrow> 10 \<le> sc_score c' \<and> sc_score c' \<le> 100 \<and>
     c'\<lparr>sc_score := sc_score c, sc_reasons := sc_reasons c\<rparr> = c"
proof -
  assume a: "score_candidate c = Some c'"
  then obtain s rs where b: "stop_bonus c (rr_bonus c (foldl (feature_step c) (10, [''VALID_SETUP'']) CONFIRMATION_WEIGHTS)) = Some (s, rs)"
    and c': "c' = c\<lparr>sc_score := py_round (min s 100) 2, sc_reasons := rs\<rparr>"
    by (auto simp: score_candidate_def split: option.splits)
  have "score_ok (10, [''VALID_SETUP''])" using fl_of_int [of 10] by (simp add: score_ok_def is_double_def)
  then have "score_ok (s, rs)" using stop_bonus_ok [OF rr_bonus_ok [OF features_ok [OF weights_nonneg]] b] by blast
  then have "py_round (of_int 10) 2 \<le> py_round (min s 100) 2" "py_round (min s 100) 2 \<le> py_round (of_int 100) 2"
    by (auto intro!: py_round_mono simp: score_ok_def)
  then show ?thesis unfolding c' py_round_int [of 10, simplified] by (simp add: py_round_int [of 10, simplified] py_round_int [of 100, simplified])
qed

lemma calibrated_range:
  assumes "lo \<le> s" "s \<le> hi" "0 < fsub hi lo"
  shows "10 \<le> normalized_score lo (fsub hi lo) s" and "normalized_score lo (fsub hi lo) s \<le> 90"
proof -
  let ?q = "fdiv (fsub s lo) (fsub hi lo)"
  have one: "fl 1 = 1" and n80: "fl 80 = 80" and n90: "fl 90 = 90" and n10: "fl 10 = 10"
    using fl_of_int [of 1] fl_of_int [of 80] fl_of_int [of 90] fl_of_int [of 10] by simp_all
  have a: "0 \<le> fsub s lo" "fsub s lo \<le> fsub hi lo"
    using assms by (auto intro: fsub_nonneg fsub_mono)
  then have q: "0 \<le> ?q" "?q \<le> 1"
    using assms(3) fl_mono [of "fsub s lo / fsub hi lo" 1] by (auto simp: one fdiv_nonneg) (simp add: fdiv_def divide_le_eq)
  then have m: "0 \<le> fmul ?q 80" "fmul ?q 80 \<le> 80"
    using fmul_mono [of ?q 1 80 80] by (auto simp: fmul_nonneg) (simp add: fmul_def n80)
  then have "fadd 0 10 \<le> fadd (fmul ?q 80) 10" "fadd (fmul ?q 80) 10 \<le> fadd 80 10" by (auto intro: fadd_mono)
  then have "of_int 10 \<le> fadd (fmul ?q 80) 10" "fadd (fmul ?q 80) 10 \<le> of_int 90" by (simp_all add: fadd_def n90 n10)
  then show "10 \<le> normalized_score lo (fsub hi lo) s" "normalized_score lo (fsub hi lo) s \<le> 90"
    unfolding normalized_score_def
    using py_round_mono [of "of_int 10" _ 2] py_round_mono [of _ "of_int 90" 2] py_round_int [of 10 2] py_round_int [of 90 2]
    by fastforce+
qed


text \<open>In a group of two or more with different scores the worst setup is always calibrated to 10.\<close>

lemma normalized_worst: "normalized_score lo r lo = 10"
  using py_round_int [of 10 2] fl_of_int [of 10] by (simp add: normalized_score_def fdiv_def fmul_def fadd_def)

lemma calibrate_group_map:
  assumes "2 \<le> length cs" "0 < fsub (Max (sc_score ` set cs)) (Min (sc_score ` set cs))"
  shows "calibrate_group cs = map (\<lambda>c. c\<lparr>sc_score := normalized_score (Min (sc_score ` set cs))
    (fsub (Max (sc_score ` set cs)) (Min (sc_score ` set cs))) (sc_score c)\<rparr>) cs"
  using assms by (simp add: calibrate_group_def Let_def)

lemma worst_calibrated:
  assumes "2 \<le> length cs" "c \<in> set cs" "sc_score c = Min (sc_score ` set cs)"
    and "0 < fsub (Max (sc_score ` set cs)) (Min (sc_score ` set cs))"
  shows "c\<lparr>sc_score := 10\<rparr> \<in> set (calibrate_group cs)"
proof -
  have "c\<lparr>sc_score := normalized_score (Min (sc_score ` set cs))
    (fsub (Max (sc_score ` set cs)) (Min (sc_score ` set cs))) (sc_score c)\<rparr> \<in> set (calibrate_group cs)"
    unfolding calibrate_group_map [OF assms(1,4)] set_map using assms(2) by (rule imageI)
  then show ?thesis unfolding assms(3) normalized_worst .
qed

lemma calibrate_group_range:
  assumes "2 \<le> length cs" "c \<in> set (calibrate_group cs)"
  shows "10 \<le> sc_score c \<and> sc_score c \<le> 90"
proof (cases "0 < fsub (Max (sc_score ` set cs)) (Min (sc_score ` set cs))")
  case True
  obtain x where x: "x \<in> set cs" "c = x\<lparr>sc_score := normalized_score (Min (sc_score ` set cs))
      (fsub (Max (sc_score ` set cs)) (Min (sc_score ` set cs))) (sc_score x)\<rparr>"
    using assms(2) unfolding calibrate_group_map [OF assms(1) True] by auto
  have "Min (sc_score ` set cs) \<le> sc_score x" "sc_score x \<le> Max (sc_score ` set cs)" using x(1) by simp_all
  from calibrated_range [OF this True] show ?thesis unfolding x(2) by simp
next
  case False
  then have "calibrate_group cs = map (\<lambda>c. c\<lparr>sc_score := 50\<rparr>) cs" using assms(1) by (simp add: calibrate_group_def Let_def)
  then show ?thesis using assms(2) by auto
qed

end
