(* ===== verification/ScanPipeline.thy ===== *)
theory ScanPipeline
  imports Scanners "HOL-Library.Multiset"
begin

text \<open>
  One scan of one symbol (\<^verbatim>\<open>ScannerOrchestrator.scan_all_with_stats\<close> in
  \<^verbatim>\<open>src/app/scanners/orchestrator.py\<close>): scoring, calibration, deduplication, geometry and
  score gates, the routing by the scanner/direction gates into tradeable, shadow and observe-only
  setups, the expectancy and regime filters and the counters. Durations, log texts and the fail-open
  research observer are left out.
\<close>

section \<open>The fixed scanner groups\<close>

definition ME_RESEARCH :: string where
  "ME_RESEARCH = ''ME_R_LONG_CLOSE_LOCATION_OOS_VALIDATION_V1''"

definition ME_REVERSE_V1 :: string where
  "ME_REVERSE_V1 = ''MOMENTUM_EXHAUSTION_REVERSE_LONG_V1''"

definition SHADOW_CONTROL_SCANNERS :: "string list" where
  "SHADOW_CONTROL_SCANNERS = [ME_REVERSE_V1, ''MOMENTUM_EXHAUSTION'', ''VOLATILITY_COMPRESSION'']"

definition SCORE_BYPASS_SCANNERS :: "string list" where
  "SCORE_BYPASS_SCANNERS = [''MOMENTUM_EXHAUSTION_REVERSE_LONG_V2'']"

definition HTF_KEYLEVEL_PROSPECTIVE_SCANNERS :: "string list" where
  "HTF_KEYLEVEL_PROSPECTIVE_SCANNERS =
     [''HTF_KEYLEVEL_SR_BREAK_POINT_B_V1_PROSPECTIVE'', ''HTF_KEYLEVEL_KEYLEVEL_BASELINE_V1_PROSPECTIVE'']"

definition RESEARCH_CAPTURE_SCANNERS :: "string list" where
  "RESEARCH_CAPTURE_SCANNERS = [''SUPPORT_RESISTANCE_REACTION'']"

definition me_clean :: "setup_candidate \<Rightarrow> bool" where
  "me_clean c \<longleftrightarrow> sc_scanner c = ME_RESEARCH \<and> sc_version c = ''1.2.0'' \<and>
     feature c ''oos_clean_observer_version'' = JStr ''1.2.0''"

section \<open>Scoring\<close>

text \<open>What the scanners returned: \<open>None\<close> for a scanner that raised.\<close>

type_synonym scan_input = "(string \<times> setup_candidate list option) list"

definition all_candidates :: "scan_input \<Rightarrow> setup_candidate list" where
  "all_candidates inp = concat (map (\<lambda>(n, r). case r of None \<Rightarrow> [] | Some cs \<Rightarrow> cs) inp)"

text \<open>\<open>None\<close>: the scoring raised, outside every handler.\<close>

fun score_all :: "setup_candidate list \<Rightarrow> setup_candidate list option" where
  "score_all [] = Some []"
| "score_all (c # cs) =
     (case (if sc_score c > 0 \<and> sc_reasons c \<noteq> [] then Some c else score_candidate c) of
        None \<Rightarrow> None | Some c' \<Rightarrow> map_option (\<lambda>r. c' # r) (score_all cs))"

definition ranked :: "market_context \<Rightarrow> setup_candidate list \<Rightarrow> setup_candidate list" where
  "ranked ctx cs = sort_key (\<lambda>c. - sc_score c) (calibrate_scores (map (attach_context ctx) cs))"

section \<open>Geometry and score gates\<close>

record rejection =
  rj_id :: string
  rj_status :: string
  rj_stage :: "string option"

definition score_gate :: "setup_candidate \<Rightarrow> bool" where
  "score_gate c \<longleftrightarrow> sc_scanner c \<in> set HTF_KEYLEVEL_PROSPECTIVE_SCANNERS \<or> sc_score c \<ge> 30 \<or>
     flagged ''_oos_rejected'' c \<or> sc_scanner c = ME_RESEARCH \<or>
     sc_scanner c \<in> set SHADOW_CONTROL_SCANNERS \<or> sc_scanner c \<in> set SCORE_BYPASS_SCANNERS"

definition passes_quality :: "setup_candidate \<Rightarrow> bool" where
  "passes_quality c \<longleftrightarrow> me_clean c \<or> (geometry_fault c = None \<and> score_gate c)"

definition quality_rejection :: "setup_candidate \<Rightarrow> rejection list" where
  "quality_rejection c =
     (if passes_quality c then []
      else if geometry_fault c \<noteq> None
      then [\<lparr>rj_id = sc_id c, rj_status = ''GEOMETRY_REJECTED'', rj_stage = Some ''risk_geometry''\<rparr>]
      else [\<lparr>rj_id = sc_id c, rj_status = ''SCORE_REJECTED'', rj_stage = Some ''score_gate''\<rparr>])"

definition dedup_rejections :: "setup_candidate list \<Rightarrow> setup_candidate list \<Rightarrow> rejection list" where
  "dedup_rejections unique scored =
     map (\<lambda>c. \<lparr>rj_id = sc_id c, rj_status = ''DEDUP_REJECTED'', rj_stage = Some ''deduplication''\<rparr>)
       (filter (\<lambda>c. sc_id c \<notin> set (map sc_id unique)) scored)"

text \<open>The re-attachment of rejected treatment setups that the deduplication removed.\<close>

definition reattach :: "dedup \<Rightarrow> setup_candidate list \<Rightarrow> setup_candidate list \<Rightarrow> setup_candidate list" where
  "reattach de scored unique =
     unique @ filter (\<lambda>c. \<not> contains_key de c) (filter (flagged ''_oos_rejected'') scored)"

definition research_capture :: "setup_candidate list \<Rightarrow> setup_candidate list" where
  "research_capture valid =
     map (\<lambda>c. with_feature ''_research_capture_reason'' (JStr ''independent_research_capture'')
                (with_feature ''_research_capture'' (JBool True) c))
       (filter (\<lambda>c. sc_scanner c \<in> set RESEARCH_CAPTURE_SCANNERS \<and> sc_direction c = ''LONG'') valid)"

definition early_mae_cohort :: "setup_candidate list \<Rightarrow> setup_candidate list" where
  "early_mae_cohort valid = filter (\<lambda>c. sc_scanner c = ME_REVERSE_V1 \<and> sc_direction c = ''LONG'') valid"

section \<open>Routing by the direction gates\<close>

datatype route = RouteAccept | RouteObserve json | RouteShadow | RouteReject gate_decision

definition regime_of :: "market_context \<Rightarrow> setup_candidate \<Rightarrow> string option" where
  "regime_of ctx c = (case sc_regime c of Some r \<Rightarrow> if r \<noteq> [] then Some r else mc_regime ctx | None \<Rightarrow> mc_regime ctx)"

definition reason_json :: "string option \<Rightarrow> json" where
  "reason_json r = (case r of None \<Rightarrow> JNull | Some s \<Rightarrow> JStr s)"

definition route_candidate :: "gate_policy \<Rightarrow> market_context \<Rightarrow> setup_candidate \<Rightarrow> route" where
  "route_candidate pol ctx c =
     (let d = gate_evaluate pol (sc_scanner c) (sc_direction c) (regime_of ctx c) in
      if sc_scanner c = ME_RESEARCH then RouteObserve (JStr ''ME_CLOSE_LOCATION_RESEARCH_ONLY'')
      else if gd_allowed d then RouteAccept
      else if flagged ''_oos_rejected'' c then RouteAccept
      else if gd_status d = ''OBSERVE_ONLY'' then RouteObserve (reason_json (gd_reason d))
      else if sc_scanner c \<in> set SHADOW_CONTROL_SCANNERS then RouteShadow
      else RouteReject d)"

definition observe_only :: "json \<Rightarrow> setup_candidate \<Rightarrow> setup_candidate" where
  "observe_only reason c = with_feature ''_observe_only_reason'' reason (with_feature ''_observe_only'' (JBool True) c)"

definition shadow_of :: "setup_candidate \<Rightarrow> setup_candidate" where
  "shadow_of c =
     (let c1 = with_feature ''_shadow_control_reason'' (JStr ''oos_experiment_baseline'')
                 (with_feature ''_shadow_control'' (JBool True) c)
      in if sc_scanner c = ME_REVERSE_V1 \<and> sc_direction c = ''LONG'' then c1\<lparr>sc_state := DETECTED\<rparr> else c1)"

definition blocked_of :: "gate_decision \<Rightarrow> setup_candidate \<Rightarrow> setup_candidate" where
  "blocked_of d c = with_feature ''_blocked_reason'' (reason_json (gd_reason d))
                      (with_feature ''_blocked_for_prospective'' (JBool True) c)"

record routed =
  ro_accepted :: "setup_candidate list"
  ro_shadow :: "setup_candidate list"
  ro_observe :: "setup_candidate list"
  ro_rejections :: "rejection list"

definition route_step :: "gate_policy \<Rightarrow> market_context \<Rightarrow> routed \<Rightarrow> setup_candidate \<Rightarrow> routed" where
  "route_step pol ctx ro c =
     (case route_candidate pol ctx c of
        RouteAccept \<Rightarrow> ro\<lparr>ro_accepted := ro_accepted ro @ [c]\<rparr>
      | RouteObserve r \<Rightarrow> ro\<lparr>ro_observe := ro_observe ro @ [observe_only r c]\<rparr>
      | RouteShadow \<Rightarrow> ro\<lparr>ro_shadow := ro_shadow ro @ [shadow_of c]\<rparr>
      | RouteReject d \<Rightarrow>
          ro\<lparr>ro_rejections := ro_rejections ro @ [\<lparr>rj_id = sc_id c, rj_status = ''GATE_REJECTED'', rj_stage = gd_code d\<rparr>],
             ro_observe := ro_observe ro @ [blocked_of d c]\<rparr>)"

definition route_all :: "gate_policy option \<Rightarrow> market_context \<Rightarrow> setup_candidate list \<Rightarrow> setup_candidate list \<Rightarrow> routed" where
  "route_all pol ctx retries valid =
     (let ro = \<lparr>ro_accepted = [], ro_shadow = [],
                ro_observe = map (observe_only (JStr ''ME_CLEAN_OOS_IDEMPOTENT_REDELIVERY'')) retries, ro_rejections = []\<rparr>
      in case pol of
           Some p \<Rightarrow> foldl (route_step p ctx) ro valid
         | None \<Rightarrow>
             ro\<lparr>ro_accepted := filter (\<lambda>c. sc_scanner c \<noteq> ME_RESEARCH) valid,
                ro_observe := ro_observe ro @ map (observe_only (JStr ''ME_CLOSE_LOCATION_RESEARCH_ONLY''))
                                (filter (\<lambda>c. sc_scanner c = ME_RESEARCH) valid)\<rparr>)"

section \<open>The scan\<close>

record scan_options =
  so_expectancy :: "evidence option"
  so_policy :: "gate_policy option"
  so_regime_filter :: bool
  so_whitelist :: "(string \<times> (string \<times> string list) list) list"

record scanner_counts =
  ct_found :: nat
  ct_errors :: nat
  ct_saved :: nat

record scan_report =
  sr_valid :: "setup_candidate list"
  sr_counts :: "(string \<times> scanner_counts) list"
  sr_observe :: "setup_candidate list"
  sr_research :: "setup_candidate list"
  sr_early_mae :: "setup_candidate list"
  sr_rejections :: "rejection list"
  sr_ready :: "(string \<times> string) list"
  sr_expectancy_rejected :: "setup_candidate list"
  sr_regime_rejected :: "setup_candidate list"

definition without_ids :: "setup_candidate list \<Rightarrow> setup_candidate list \<Rightarrow> setup_candidate list" where
  "without_ids after all = filter (\<lambda>c. sc_id c \<notin> set (map sc_id after)) all"

definition is_shadow :: "setup_candidate \<Rightarrow> bool" where
  "is_shadow c = flagged ''_shadow_control'' c"

text \<open>The evidence thresholds the scan passes to \<^verbatim>\<open>filter_candidates\<close>.\<close>

definition scan_evidence :: "((string \<times> string) \<times> expectancy) list \<Rightarrow> rat \<Rightarrow> int \<Rightarrow> bool \<Rightarrow> evidence" where
  "scan_evidence recs min_avg_r min_samples paper =
     \<lparr>ev_records = recs, ev_min_avg_r = min_avg_r, ev_min_samples = min_samples, ev_min_pf = fl (6 / 5),
      ev_enforce = True, ev_blocked = [], ev_paper = paper\<rparr>"

definition expectancy_stage ::
  "evidence option \<Rightarrow> setup_candidate list \<Rightarrow> setup_candidate list \<Rightarrow> setup_candidate list \<times> setup_candidate list" where
  "expectancy_stage ev valid observe =
     (case ev of
        None \<Rightarrow> (valid, [])
      | Some e \<Rightarrow>
          let tradeable = filter (\<lambda>c. \<not> is_shadow c) valid;
              after = fst (filter_candidates e tradeable)
          in (after @ filter is_shadow valid,
              without_ids after tradeable @
                (if observe = [] then [] else without_ids (fst (filter_candidates e observe)) observe)))"

definition regime_stage :: "scan_options \<Rightarrow> market_context \<Rightarrow> setup_candidate list \<Rightarrow> setup_candidate list \<times> setup_candidate list" where
  "regime_stage so ctx valid =
     (if so_regime_filter so
      then let after = apply_regime_filter ctx (so_whitelist so) valid in (after, without_ids after valid)
      else (valid, []))"

definition counts_of :: "scan_input \<Rightarrow> setup_candidate list \<Rightarrow> (string \<times> scanner_counts) list" where
  "counts_of inp valid =
     map (\<lambda>(n, r). (n, \<lparr>ct_found = (case r of None \<Rightarrow> 0 | Some cs \<Rightarrow> length cs),
                        ct_errors = (case r of None \<Rightarrow> 1 | Some _ \<Rightarrow> 0),
                        ct_saved = length (filter (\<lambda>c. sc_scanner c = n) valid)\<rparr>)) inp"

definition scan_report_of ::
  "scan_options \<Rightarrow> market_context \<Rightarrow> scan_input \<Rightarrow> bool list \<Rightarrow> dedup \<Rightarrow> setup_candidate list \<Rightarrow> scan_report" where
  "scan_report_of so ctx inp marks de scored =
     (let unique = kept marks scored;
          retries = filter me_clean (dropped marks scored);
          unique1 = reattach de scored unique;
          valid = filter passes_quality unique1;
          ro = route_all (so_policy so) ctx retries valid;
          valid1 = ro_accepted ro @ ro_shadow ro;
          ready = map (\<lambda>c. (sc_id c, sc_scanner c)) (filter (\<lambda>c. \<not> is_shadow c) (ro_accepted ro));
          (valid2, ex_rejected) = expectancy_stage (so_expectancy so) valid1 (ro_observe ro);
          (valid3, rg_rejected) = regime_stage so ctx valid2
      in \<lparr>sr_valid = valid3, sr_counts = counts_of inp valid3, sr_observe = ro_observe ro,
          sr_research = research_capture valid, sr_early_mae = early_mae_cohort valid,
          sr_rejections = dedup_rejections unique scored @ concat (map quality_rejection unique1) @ ro_rejections ro,
          sr_ready = ready, sr_expectancy_rejected = ex_rejected, sr_regime_rejected = rg_rejected\<rparr>)"

definition scan_all_with_stats ::
  "scan_options \<Rightarrow> market_context \<Rightarrow> scan_input \<Rightarrow> dedup \<Rightarrow> (scan_report \<times> dedup) option" where
  "scan_all_with_stats so ctx inp de =
     (case score_all (all_candidates inp) of
        None \<Rightarrow> None
      | Some cs \<Rightarrow>
          (let scored = ranked ctx cs in
           case dedup_marks de scored of (marks, de') \<Rightarrow> Some (scan_report_of so ctx inp marks de' scored, de')))"

definition scan_all ::
  "scan_options \<Rightarrow> market_context \<Rightarrow> scan_input \<Rightarrow> dedup \<Rightarrow> (setup_candidate list \<times> dedup) option" where
  "scan_all so ctx inp de = map_option (\<lambda>(r, d). (sr_valid r, d)) (scan_all_with_stats so ctx inp de)"


section \<open>What a scan returns\<close>

lemma route_step_one:
  "set (ro_accepted (route_step p ctx ro c)) = set (ro_accepted ro) \<union> (if route_candidate p ctx c = RouteAccept then {c} else {})"
  "set (ro_shadow (route_step p ctx ro c)) = set (ro_shadow ro) \<union> (if route_candidate p ctx c = RouteShadow then {shadow_of c} else {})"
  by (auto simp: route_step_def split: route.split)

lemma route_accepted_set:
  "set (ro_accepted (foldl (route_step p ctx) ro cs)) = set (ro_accepted ro) \<union> {c \<in> set cs. route_candidate p ctx c = RouteAccept}"
  by (induction cs arbitrary: ro) (auto simp: route_step_one)

lemma route_shadow_set:
  "set (ro_shadow (foldl (route_step p ctx) ro cs)) =
     set (ro_shadow ro) \<union> shadow_of ` {c \<in> set cs. route_candidate p ctx c = RouteShadow}"
  by (induction cs arbitrary: ro) (auto simp: route_step_one)

lemma with_feature_flagged: "flagged k (with_feature k' v c) = (if k = k' then truthy v else flagged k c)"
  by (simp add: flagged_def feature_def with_feature_def)

lemma shadow_of_flagged [simp]: "is_shadow (shadow_of c)"
  by (simp add: is_shadow_def shadow_of_def Let_def with_feature_flagged)
    (simp add: flagged_def feature_def with_feature_def)

lemma route_accept_iff:
  "route_candidate p ctx c = RouteAccept \<longleftrightarrow> sc_scanner c \<noteq> ME_RESEARCH \<and>
     (gd_allowed (gate_evaluate p (sc_scanner c) (sc_direction c) (regime_of ctx c)) \<or> flagged ''_oos_rejected'' c)"
  by (auto simp: route_candidate_def Let_def)

definition gate_passed :: "gate_policy option \<Rightarrow> market_context \<Rightarrow> setup_candidate \<Rightarrow> bool" where
  "gate_passed pol ctx c \<longleftrightarrow> sc_scanner c \<noteq> ME_RESEARCH \<and>
     (case pol of None \<Rightarrow> True
      | Some p \<Rightarrow> gd_allowed (gate_evaluate p (sc_scanner c) (sc_direction c) (regime_of ctx c)) \<or> flagged ''_oos_rejected'' c)"

lemma route_all_accepted: "set (ro_accepted (route_all pol ctx rs cs)) = {c \<in> set cs. gate_passed pol ctx c}"
  by (cases pol) (auto simp: route_all_def Let_def route_accepted_set route_accept_iff gate_passed_def)

lemma route_all_shadow: "c \<in> set (ro_shadow (route_all pol ctx rs cs)) \<Longrightarrow> is_shadow c"
  by (cases pol) (auto simp: route_all_def Let_def route_shadow_set)

lemma expectancy_stage_valid:
  "c \<in> set (fst (expectancy_stage ev valid obs)) \<longleftrightarrow> c \<in> set valid \<and>
     (is_shadow c \<or> (case ev of None \<Rightarrow> True | Some e \<Rightarrow> evidence_accepts e c))"
  by (auto simp: expectancy_stage_def filter_candidates_def Let_def split: option.split)

lemma regime_stage_valid:
  "c \<in> set (fst (regime_stage so ctx valid)) \<longleftrightarrow> c \<in> set valid \<and>
     (so_regime_filter so \<longrightarrow> (case mc_regime ctx of None \<Rightarrow> True | Some r \<Rightarrow> r = [] \<or> regime_allows (so_whitelist so) r c))"
  by (auto simp: regime_stage_def apply_regime_filter_def Let_def split: option.split)

lemma report_valid:
  "sr_valid (scan_report_of so ctx inp marks de scored) =
    fst (regime_stage so ctx (fst (expectancy_stage (so_expectancy so)
      (ro_accepted (route_all (so_policy so) ctx (filter me_clean (dropped marks scored))
         (filter passes_quality (reattach de scored (kept marks scored)))) @
       ro_shadow (route_all (so_policy so) ctx (filter me_clean (dropped marks scored))
         (filter passes_quality (reattach de scored (kept marks scored)))))
      (ro_observe (route_all (so_policy so) ctx (filter me_clean (dropped marks scored))
         (filter passes_quality (reattach de scored (kept marks scored))))))))"
  by (simp add: scan_report_of_def Let_def split: prod.split)

lemma tradeable_passed:
  assumes "c \<in> set (sr_valid (scan_report_of so ctx inp marks de scored))" and "\<not> is_shadow c"
  shows "gate_passed (so_policy so) ctx c \<and> geometry_fault c = None \<and> score_gate c \<and>
    (case so_expectancy so of None \<Rightarrow> True | Some e \<Rightarrow> evidence_accepts e c) \<and>
    (so_regime_filter so \<longrightarrow> (case mc_regime ctx of None \<Rightarrow> True | Some r \<Rightarrow> r = [] \<or> regime_allows (so_whitelist so) r c))"
  using assms route_all_shadow [of c]
  by (auto simp: report_valid regime_stage_valid expectancy_stage_valid route_all_accepted passes_quality_def gate_passed_def me_clean_def)

text \<open>C9. A setup that a scan returns for trading has passed every gate: it does not come from the
  research-only scanner, its risk geometry and score are accepted, its scanner and direction are let
  through in its regime (or it is marked as a rejected treatment observation), and it passes the
  expectancy and regime filters when they are on.\<close>

theorem scan_returns_only_gated:
  assumes "scan_all_with_stats so ctx inp de = Some (r, de')" and "c \<in> set (sr_valid r)" and "\<not> is_shadow c"
  shows "gate_passed (so_policy so) ctx c \<and> geometry_fault c = None \<and> score_gate c \<and>
    (case so_expectancy so of None \<Rightarrow> True | Some e \<Rightarrow> evidence_accepts e c) \<and>
    (so_regime_filter so \<longrightarrow> (case mc_regime ctx of None \<Rightarrow> True | Some r \<Rightarrow> r = [] \<or> regime_allows (so_whitelist so) r c))"
proof -
  obtain inp' marks de1 scored where "r = scan_report_of so ctx inp' marks de1 scored"
    using assms(1) by (auto simp: scan_all_with_stats_def Let_def split: option.splits prod.splits)
  from tradeable_passed [OF assms(2) [unfolded this] assms(3)] show ?thesis .
qed

section \<open>The re-attachment never happens\<close>

lemma marks_filter_new: "snd (dedup_marks de cs) = snd (filter_new de cs)" "kept (fst (dedup_marks de cs)) cs = fst (filter_new de cs)"
  by (simp_all add: filter_new_def split: prod.split)

lemma reattach_nothing: "reattach (snd (dedup_marks de scored)) scored unique = unique"
  using filter_new_contains [of _ scored de]
  by (auto simp: reattach_def marks_filter_new filter_empty_conv)

text \<open>The step that should bring back rejected treatment setups which the deduplication removed never
  brings one back: after the deduplication the key of every scored setup is in the table. What a scan
  returns is drawn from the accepted setups alone.\<close>

theorem reattach_is_dead:
  "case scan_all_with_stats so ctx inp de of None \<Rightarrow> True
   | Some (r, de') \<Rightarrow>
       (case score_all (all_candidates inp) of None \<Rightarrow> True
        | Some cs \<Rightarrow>
            reattach de' (ranked ctx cs) (fst (filter_new de (ranked ctx cs))) = fst (filter_new de (ranked ctx cs)))"
  using reattach_nothing
  by (auto simp: scan_all_with_stats_def Let_def marks_filter_new split: option.split prod.split)
    (metis marks_filter_new(1) reattach_nothing snd_conv)


section \<open>The counters\<close>

definition names :: "setup_candidate list \<Rightarrow> string multiset" where
  "names cs = image_mset sc_scanner (mset cs)"

lemma names_simps [simp]: "names [] = {#}" "names (c # cs) = add_mset (sc_scanner c) (names cs)" "names (xs @ ys) = names xs + names ys"
  by (simp_all add: names_def)

lemma names_map: "(\<And>c. sc_scanner (f c) = sc_scanner c) \<Longrightarrow> names (map f cs) = names cs"
  by (induction cs) auto

lemma names_filter: "names (filter P cs) \<subseteq># names cs"
  by (induction cs) (auto simp: subset_mset.le_iff_add intro: subset_mset.order_trans)

lemma names_count: "length (filter (\<lambda>c. sc_scanner c = n) cs) = count (names cs) n"
  by (induction cs) auto

lemma scorer_names: "score_candidate c = Some c' \<Longrightarrow> sc_scanner c' = sc_scanner c"
  by (auto simp: score_candidate_def split: option.splits)

lemma score_all_names: "score_all cs = Some cs' \<Longrightarrow> names cs' = names cs"
  by (induction cs arbitrary: cs') (auto split: option.splits if_splits dest: scorer_names)

lemma names_dput:
  "names (concat (dvals (dput k (dget_or d k [] @ [c]) d))) = add_mset (sc_scanner c) (names (concat (dvals d)))"
  by (induction d) (auto simp: dget_or_def split: option.splits)

lemma by_scanner_names: "names (concat (dvals (by_scanner cs))) = names cs"
proof -
  have "names (concat (dvals (foldl (\<lambda>d c. dput (sc_scanner c) (dget_or d (sc_scanner c) [] @ [c]) d) acc cs))) =
      names (concat (dvals acc)) + names cs" for acc
    by (induction cs arbitrary: acc) (auto simp: names_dput)
  from this [of "[]"] show ?thesis by (simp add: by_scanner_def)
qed

lemma calibrate_names: "names (calibrate_scores cs) = names cs"
proof -
  have g: "names (calibrate_group g) = names g" for g
    by (simp add: calibrate_group_def Let_def names_map)
  have "names (concat (map (\<lambda>(s, g). calibrate_group g) d)) = names (concat (dvals d))" for d
    by (induction d) (auto simp: g)
  from this [of "by_scanner cs"] show ?thesis unfolding calibrate_scores_def by_scanner_names .
qed

lemma attach_names: "sc_scanner (attach_context ctx c) = sc_scanner c"
  by (simp add: attach_context_def attach_signal_candle_def Let_def)

lemma ranked_names: "names (ranked ctx cs) = names cs"
proof -
  have "names (sort_key f xs) = names xs" for f :: "setup_candidate \<Rightarrow> rat" and xs by (simp add: names_def)
  then show ?thesis by (simp add: ranked_def calibrate_names names_map attach_names)
qed

lemma kept_names: "count (names (kept ms cs)) n \<le> count (names cs) n"
proof (induction cs arbitrary: ms)
  case (Cons c cs)
  then show ?case by (cases ms) (auto simp: kept_def intro: le_SucI)
qed (simp add: kept_def)

lemma filter_count: "count (names (filter P cs)) n \<le> count (names cs) n"
  by (rule mset_subset_eq_count) (rule names_filter)

lemma shadow_scanner [simp]: "sc_scanner (shadow_of c) = sc_scanner c"
  by (simp add: shadow_of_def with_feature_def Let_def)

text \<open>The setups of a routing that may be traded or followed as shadows.\<close>

definition routed_names :: "routed \<Rightarrow> string multiset" where
  "routed_names ro = names (ro_accepted ro) + names (ro_shadow ro)"

lemma route_step_count: "count (routed_names (route_step p ctx ro c)) n \<le> count (routed_names ro) n + count (names [c]) n"
  by (auto simp: route_step_def routed_names_def split: route.split)

lemma route_fold_count: "count (routed_names (foldl (route_step p ctx) ro cs)) n \<le> count (routed_names ro) n + count (names cs) n"
proof (induction cs arbitrary: ro)
  case (Cons c cs)
  from Cons.IH [of "route_step p ctx ro c"] route_step_count [of p ctx ro c n] show ?case
    by (simp split: if_splits)
qed simp

lemma route_count: "count (routed_names (route_all pol ctx rs cs)) n \<le> count (names cs) n"
proof (cases pol)
  case None
  then show ?thesis using filter_count [of _ cs n] by (simp add: route_all_def routed_names_def)
next
  case (Some p)
  then show ?thesis
    unfolding Some route_all_def Let_def option.case
    by (intro order_trans [OF route_fold_count]) (simp add: routed_names_def)
qed

lemma expectancy_count: "count (names (fst (expectancy_stage ev valid obs))) n \<le> count (names valid) n"
proof -
  have "count (names (filter P (filter (\<lambda>c. \<not> Q c) cs))) n + count (names (filter Q cs)) n \<le> count (names cs) n" for P Q cs
    by (induction cs) auto
  then show ?thesis by (auto simp: expectancy_stage_def filter_candidates_def Let_def split: option.split)
qed

lemma regime_count: "count (names (fst (regime_stage so ctx valid))) n \<le> count (names valid) n"
  by (auto simp: regime_stage_def apply_regime_filter_def Let_def filter_count split: option.split)

lemma report_count:
  "count (names (sr_valid (scan_report_of so ctx inp marks (snd (dedup_marks de scored)) scored))) n \<le> count (names scored) n"
proof -
  let ?u = "filter passes_quality (kept marks scored)"
  let ?ro = "route_all (so_policy so) ctx (filter me_clean (dropped marks scored)) ?u"
  have "count (names (sr_valid (scan_report_of so ctx inp marks (snd (dedup_marks de scored)) scored))) n \<le>
      count (names (ro_accepted ?ro @ ro_shadow ?ro)) n"
    unfolding report_valid reattach_nothing by (rule order_trans [OF regime_count expectancy_count])
  also have "\<dots> \<le> count (names ?u) n" using route_count [of "so_policy so" ctx _ ?u n] by (simp add: routed_names_def)
  also have "\<dots> \<le> count (names scored) n" by (rule order_trans [OF filter_count kept_names])
  finally show ?thesis .
qed

text \<open>Every scanner reports its setups under its own name.\<close>

definition own_names :: "scan_input \<Rightarrow> bool" where
  "own_names inp \<longleftrightarrow> distinct (dkeys inp) \<and>
     list_all (\<lambda>(n, r). case r of None \<Rightarrow> True | Some cs \<Rightarrow> list_all (\<lambda>c. sc_scanner c = n) cs) inp"

definition found_in :: "setup_candidate list option \<Rightarrow> nat" where
  "found_in r = (case r of None \<Rightarrow> 0 | Some cs \<Rightarrow> length cs)"

lemma own_count: "list_all (\<lambda>c. sc_scanner c = n) cs \<Longrightarrow> count (names cs) m = (if n = m then length cs else 0)"
  by (induction cs) auto

lemma all_candidates_simps:
  "all_candidates [] = []" "all_candidates ((n, r) # inp) = (case r of None \<Rightarrow> [] | Some cs \<Rightarrow> cs) @ all_candidates inp"
  by (simp_all add: all_candidates_def)

lemma own_names_Cons:
  "own_names ((n, r) # inp) \<Longrightarrow> n \<notin> set (dkeys inp) \<and> own_names inp \<and>
    count (names (case r of None \<Rightarrow> [] | Some cs \<Rightarrow> cs)) m = (if n = m then found_in r else 0)"
  by (auto simp: own_names_def found_in_def own_count split: option.splits)

lemma absent_count: "own_names inp \<Longrightarrow> m \<notin> set (dkeys inp) \<Longrightarrow> count (names (all_candidates inp)) m = 0"
proof (induction inp)
  case (Cons x inp)
  obtain n r where x: "x = (n, r)" by (cases x)
  from Cons own_names_Cons [OF Cons.prems(1) [unfolded x], of m] show ?case by (auto simp: x all_candidates_simps)
qed (simp add: all_candidates_simps)

lemma found_count: "own_names inp \<Longrightarrow> (m, q) \<in> set inp \<Longrightarrow> count (names (all_candidates inp)) m = found_in q"
proof (induction inp)
  case (Cons x inp)
  obtain n r where x: "x = (n, r)" by (cases x)
  note step = own_names_Cons [OF Cons.prems(1) [unfolded x], of m]
  show ?case
  proof (cases "n = m")
    case True
    with step Cons.prems(2) have "q = r" by (force simp: x)
    with step True show ?thesis using absent_count [of inp m] by (simp add: x all_candidates_simps)
  next
    case False
    with step Cons show ?thesis by (simp add: x all_candidates_simps)
  qed
qed simp

text \<open>The funnel of a scan only narrows: when every scanner reports under its own name, a scanner is
  never credited with more saved setups than it found (none if it raised), through scoring,
  calibration, deduplication, the re-attachment, the routing and the filters.\<close>

theorem saved_at_most_found:
  assumes "own_names inp" and "scan_all_with_stats so ctx inp de = Some (r, de')"
  shows "list_all (\<lambda>(n, k). ct_saved k \<le> ct_found k) (sr_counts r)"
proof -
  obtain cs marks where cs: "score_all (all_candidates inp) = Some cs" and
    r: "r = scan_report_of so ctx inp marks (snd (dedup_marks de (ranked ctx cs))) (ranked ctx cs)"
    using assms(2) by (auto simp: scan_all_with_stats_def Let_def split: option.splits prod.splits)
  have counts: "sr_counts r = counts_of inp (sr_valid r)"
    unfolding r by (simp add: scan_report_of_def Let_def split: prod.split)
  have "length (filter (\<lambda>c. sc_scanner c = n) (sr_valid r)) \<le> found_in q" if "(n, q) \<in> set inp" for n q
    unfolding found_count [OF assms(1) that, symmetric] score_all_names [OF cs, symmetric] names_count
    using report_count [of so ctx inp marks de "ranked ctx cs" n] by (simp add: r ranked_names)
  then show ?thesis unfolding counts by (force simp: counts_of_def list_all_iff found_in_def)
qed

section \<open>The worst setup of a scanner\<close>

lemma by_scanner_fold:
  "dget (foldl (\<lambda>d c. dput (sc_scanner c) (dget_or d (sc_scanner c) [] @ [c]) d) acc cs) n =
    (case filter (\<lambda>c. sc_scanner c = n) cs of [] \<Rightarrow> dget acc n | g # gs \<Rightarrow> Some (dget_or acc n [] @ g # gs))"
  by (induction cs arbitrary: acc) (auto simp: dget_or_def split: list.split)

lemma by_scanner_group:
  "filter (\<lambda>c. sc_scanner c = n) cs \<noteq> [] \<Longrightarrow> (n, filter (\<lambda>c. sc_scanner c = n) cs) \<in> set (by_scanner cs)"
  unfolding by_scanner_def by (rule map_of_SomeD) (simp add: by_scanner_fold, simp add: dget_or_def split: list.split)

lemma in_calibrated:
  "c \<in> set (calibrate_group (filter (\<lambda>x. sc_scanner x = n) cs)) \<Longrightarrow> filter (\<lambda>x. sc_scanner x = n) cs \<noteq> [] \<Longrightarrow>
    c \<in> set (calibrate_scores cs)"
  unfolding calibrate_scores_def using by_scanner_group [of n cs] by fastforce

lemma attach_same [simp]:
  "sc_score (attach_context ctx c) = sc_score c" "sc_features (attach_context ctx c) = sc_features c"
  "sc_id (attach_context ctx c) = sc_id c" "sc_version (attach_context ctx c) = sc_version c"
  "sc_scanner (attach_context ctx c) = sc_scanner c"
  by (simp_all add: attach_context_def attach_signal_candle_def Let_def)

text \<open>The scanners whose setups must reach a score of 30.\<close>

definition score_gated :: "setup_candidate \<Rightarrow> bool" where
  "score_gated c \<longleftrightarrow> sc_scanner c \<noteq> ME_RESEARCH \<and> \<not> flagged ''_oos_rejected'' c \<and>
     sc_scanner c \<notin> set (HTF_KEYLEVEL_PROSPECTIVE_SCANNERS @ SHADOW_CONTROL_SCANNERS @ SCORE_BYPASS_SCANNERS)"

text \<open>The calibration is relative, so it always sacrifices a setup: among two or more setups of a scored
  scanner with different scores, the worst one leaves the calibration with the score 10 and fails the
  score gate of 30, whatever its own score was.\<close>

theorem worst_setup_rejected:
  fixes ctx cs c
  defines "grp \<equiv> filter (\<lambda>x. sc_scanner x = sc_scanner c) cs"
  assumes "c \<in> set cs" and "score_gated c" and "2 \<le> length grp" and "sc_score c = Min (sc_score ` set grp)"
    and "0 < fsub (Max (sc_score ` set grp)) (Min (sc_score ` set grp))"
  shows "list_ex (\<lambda>x. sc_id x = sc_id c \<and> sc_score x = 10 \<and> \<not> passes_quality x) (ranked ctx cs)"
proof -
  let ?c = "attach_context ctx c" and ?cs = "map (attach_context ctx) cs"
  let ?g = "filter (\<lambda>x. sc_scanner x = sc_scanner c) ?cs"
  have g: "?g = map (attach_context ctx) grp" by (simp add: grp_def filter_map comp_def)
  have sc: "sc_score ` set ?g = sc_score ` set grp" unfolding g by (simp add: image_comp comp_def)
  have "?c\<lparr>sc_score := 10\<rparr> \<in> set (calibrate_group ?g)"
  proof (rule worst_calibrated)
    show "2 \<le> length ?g" using assms(4) unfolding g by simp
    show "?c \<in> set ?g" using assms(2) unfolding g grp_def by simp
  qed (use assms(5,6) in \<open>simp_all only: sc attach_same\<close>)
  then have "?c\<lparr>sc_score := 10\<rparr> \<in> set (ranked ctx cs)"
    unfolding ranked_def set_sort by (rule in_calibrated) (use assms(2) in \<open>auto simp: filter_empty_conv\<close>)
  moreover have "\<not> passes_quality (?c\<lparr>sc_score := 10\<rparr>)"
    using assms(3) by (simp add: score_gated_def passes_quality_def me_clean_def score_gate_def flagged_def feature_def)
  ultimately show ?thesis unfolding list_ex_iff by (intro bexI) simp_all
qed

section \<open>Concrete scans\<close>

text \<open>A setup as a scanner with its own score reports it.\<close>

definition sample_setup :: "string \<Rightarrow> int \<Rightarrow> rat \<Rightarrow> setup_candidate" where
  "sample_setup i candle score =
     \<lparr>sc_id = i, sc_scanner = ''ALPHA'', sc_version = ''1'', sc_symbol = ''BTCUSDT'', sc_direction = ''LONG'',
      sc_htf_tf = ''4h'', sc_setup_tf = ''1h'', sc_entry_tf = ''15m'', sc_detected = 0, sc_started = 0, sc_candle = candle,
      sc_price = 100, sc_low = 99, sc_high = 101, sc_stop = 95, sc_t1 = Some 110, sc_t2 = None, sc_score = score,
      sc_regime = None, sc_reasons = [''VALID_SETUP''], sc_features = [], sc_sources = [], sc_state = DETECTED\<rparr>"

definition sample_context :: market_context where
  "sample_context = \<lparr>mc_symbol = ''BTCUSDT'', mc_5m = [], mc_15m = [], mc_1h = [], mc_4h = [], mc_regime = Some ''TREND_UP''\<rparr>"

definition sample_options :: scan_options where
  "sample_options = \<lparr>so_expectancy = None, so_policy = Some (static_fallback [''ALPHA''] [] []), so_regime_filter = True,
     so_whitelist = []\<rparr>"

definition sample_input :: scan_input where
  "sample_input = [(''ALPHA'', Some [sample_setup ''a'' 1 40]), (''BETA'', None)]"

definition sample_dedup :: dedup where
  "sample_dedup = \<lparr>de_seen = [], de_tolerance = 0\<rparr>"

lemma sample_scan:
  "case scan_all_with_stats sample_options sample_context sample_input sample_dedup of None \<Rightarrow> False
   | Some (r, d) \<Rightarrow> map sc_id (sr_valid r) = [''a''] \<and> list_all (\<lambda>c. \<not> is_shadow c) (sr_valid r) \<and> length (sr_counts r) = 2"
  by code_simp

theorem scan_returns_only_gated_witness:
  "case scan_all_with_stats sample_options sample_context sample_input sample_dedup of None \<Rightarrow> False
   | Some (r, d) \<Rightarrow> sr_valid r \<noteq> [] \<and> list_all (\<lambda>c. gate_passed (so_policy sample_options) sample_context c \<and> geometry_fault c = None) (sr_valid r)"
proof -
  obtain r d where s: "scan_all_with_stats sample_options sample_context sample_input sample_dedup = Some (r, d)"
    and v: "map sc_id (sr_valid r) = [''a'']" "list_all (\<lambda>c. \<not> is_shadow c) (sr_valid r)"
    using sample_scan by (auto split: option.splits prod.splits)
  have "gate_passed (so_policy sample_options) sample_context c \<and> geometry_fault c = None" if "c \<in> set (sr_valid r)" for c
    using scan_returns_only_gated [OF s that] v(2) that by (simp add: list_all_iff)
  with s v(1) show ?thesis by (auto simp: list_all_iff)
qed

theorem saved_at_most_found_witness:
  "case scan_all_with_stats sample_options sample_context sample_input sample_dedup of None \<Rightarrow> False
   | Some (r, d) \<Rightarrow> sr_counts r \<noteq> [] \<and> list_all (\<lambda>(n, k). ct_saved k \<le> ct_found k) (sr_counts r)"
proof -
  have own: "own_names sample_input" by code_simp
  show ?thesis using sample_scan saved_at_most_found [OF own]
    by (auto split: option.splits prod.splits)
qed

theorem worst_setup_rejected_witness:
  "list_ex (\<lambda>x. sc_id x = ''b'' \<and> sc_score x = 10 \<and> \<not> passes_quality x)
    (ranked sample_context [sample_setup ''a'' 1 96, sample_setup ''b'' 2 95])"
proof -
  have "fl 1 = 1" using fl_of_int [of 1] by simp
  then have "list_ex (\<lambda>x. sc_id x = sc_id (sample_setup ''b'' 2 95) \<and> sc_score x = 10 \<and> \<not> passes_quality x)
      (ranked sample_context [sample_setup ''a'' 1 96, sample_setup ''b'' 2 95])"
    by (intro worst_setup_rejected)
      (simp_all add: sample_setup_def score_gated_def flagged_def feature_def fsub_def ME_RESEARCH_def
        HTF_KEYLEVEL_PROSPECTIVE_SCANNERS_def SHADOW_CONTROL_SCANNERS_def SCORE_BYPASS_SCANNERS_def ME_REVERSE_V1_def)
  then show ?thesis by (simp add: sample_setup_def)
qed

end
