(* ===== verification/PaperRunner.thy ===== *)
theory PaperRunner
  imports ShadowEngine ScanPipeline
begin

text \<open>
  The paper trading process (\<^verbatim>\<open>src/paper_runner.py\<close>, \<^verbatim>\<open>src/app/paper/position_monitor.py\<close>,
  \<^verbatim>\<open>src/app/paper/cli.py\<close>, \<^verbatim>\<open>src/app/paper/readiness.py\<close>): the slow entry cycle and
  the fast position monitor as two threads that share the engines, each with a reading phase outside the
  lock, a phase under it and the work on the shadow engine after it, the one-shot cycle of the command line and the readiness check. The
  exchange and the database are inputs; observers, logs and prints are left out.
\<close>

section \<open>Prices\<close>

text \<open>A ticker with its parsed last price, \<open>None\<close> when it is missing or no number; no list at all when
  the request raised.\<close>

definition pick_prices :: "string list \<Rightarrow> (string \<times> rat option) list \<Rightarrow> (string \<times> rat) list" where
  "pick_prices symbols tickers =
     foldl (\<lambda>d (s, p). if s \<in> set symbols then (case p of None \<Rightarrow> d | Some x \<Rightarrow> dput s x d) else d) [] tickers"

definition get_prices :: "string list \<Rightarrow> (string \<times> rat option) list option \<Rightarrow> (string \<times> rat) list" where
  "get_prices symbols tickers = (case tickers of None \<Rightarrow> [] | Some ts \<Rightarrow> pick_prices symbols ts)"

text \<open>The funding request of a symbol may raise.\<close>

definition get_funding_rates :: "(string \<Rightarrow> rat option) \<Rightarrow> string list \<Rightarrow> (string \<times> rat) list" where
  "get_funding_rates rate symbols =
     foldl (\<lambda>d s. case rate s of None \<Rightarrow> d | Some q \<Rightarrow> dput s q d) [] symbols"

section \<open>Setups from the database\<close>

record ready_row =
  rd_id :: string
  rd_symbol :: string
  rd_scanner :: string
  rd_direction :: string
  rd_score :: rat
  rd_low :: "rat option"
  rd_high :: "rat option"
  rd_stop :: "rat option"
  rd_t1 :: "rat option"
  rd_t2 :: "rat option"
  rd_regime :: "string option"
  rd_reference :: "rat option"
  rd_timeframe :: "string option"

text \<open>\<^verbatim>\<open>float(x) if x else d\<close>.\<close>

definition number_or_zero :: "rat option \<Rightarrow> rat" where
  "number_or_zero x = (case x of None \<Rightarrow> 0 | Some q \<Rightarrow> if q = 0 then 0 else fl q)"

definition number_or_none :: "rat option \<Rightarrow> rat option" where
  "number_or_none x = (case x of None \<Rightarrow> None | Some q \<Rightarrow> if q = 0 then None else Some (fl q))"

text \<open>The fields the row does not have take the defaults of the class.\<close>

definition ready_setup :: "int \<Rightarrow> ready_row \<Rightarrow> setup_candidate" where
  "ready_setup now r =
     \<lparr>sc_id = rd_id r, sc_scanner = rd_scanner r, sc_version = ''1.0.0'', sc_symbol = rd_symbol r,
      sc_direction = rd_direction r, sc_htf_tf = ''1h'', sc_setup_tf = ''15m'',
      sc_entry_tf = (case rd_timeframe r of None \<Rightarrow> ''5m'' | Some tf \<Rightarrow> if tf = '''' then ''5m'' else tf),
      sc_detected = now, sc_started = now, sc_candle = 0, sc_price = number_or_zero (rd_reference r),
      sc_low = number_or_zero (rd_low r), sc_high = number_or_zero (rd_high r), sc_stop = number_or_zero (rd_stop r),
      sc_t1 = number_or_none (rd_t1 r), sc_t2 = number_or_none (rd_t2 r), sc_score = fl (rd_score r),
      sc_regime = rd_regime r, sc_reasons = [], sc_features = [], sc_sources = [], sc_state = DETECTED\<rparr>"

text \<open>What the engine reads of a setup; it treats every direction but LONG as short.\<close>

definition engine_candidate :: "setup_candidate \<Rightarrow> candidate" where
  "engine_candidate c =
     \<lparr>cd_setup = sc_id c, cd_scanner = sc_scanner c, cd_symbol = sc_symbol c,
      cd_direction = (if sc_direction c = ''LONG'' then LONG else SHORT), cd_zone_low = sc_low c, cd_zone_high = sc_high c,
      cd_invalidation = sc_stop c, cd_target_1 = sc_t1 c, cd_target_2 = sc_t2 c, cd_timeframe = sc_entry_tf c,
      cd_regime = sc_regime c\<rparr>"

definition PAPER_DISABLED_SCANNERS :: "string list" where
  "PAPER_DISABLED_SCANNERS = [''MOMENTUM_EXHAUSTION'', ''MOMENTUM_EXHAUSTION_REVERSE_LONG_V1'']"

definition filter_paper_entry_candidates :: "setup_candidate list \<Rightarrow> setup_candidate list \<times> nat" where
  "filter_paper_entry_candidates cs =
     (filter (\<lambda>c. sc_scanner c \<notin> set PAPER_DISABLED_SCANNERS) cs,
      length (filter (\<lambda>c. sc_scanner c \<in> set PAPER_DISABLED_SCANNERS) cs))"

section \<open>The entry cycle\<close>

text \<open>What a cycle reads before it takes the lock. Gate rows are \<open>None\<close> when the query raised; the evidence
  is \<open>None\<close> when the expectancy filter is not loaded.\<close>

record cycle_env =
  ce_now :: int
  ce_stop :: bool
  ce_ready :: "ready_row list option"
  ce_tickers :: "(string \<times> rat option) list option"
  ce_gates :: "gate_row list option"
  ce_scanners :: "string list"
  ce_blocked :: "(string \<times> string) list"
  ce_whitelist :: "(string \<times> (string \<times> string list) list) list"
  ce_evidence :: "((string \<times> string) \<times> expectancy) list option"
  ce_min_avg_r :: rat
  ce_min_samples :: int
  ce_min_pf :: rat
  ce_enforce :: bool
  ce_paper :: bool

definition ready_setups :: "cycle_env \<Rightarrow> ready_row list" where
  "ready_setups ce = (if ce_stop ce then [] else case ce_ready ce of None \<Rightarrow> [] | Some rs \<Rightarrow> rs)"

definition gate_policy_of :: "cycle_env \<Rightarrow> gate_policy" where
  "gate_policy_of ce = load_for_cycle (ce_gates ce) (ce_scanners ce) (ce_blocked ce) (ce_whitelist ce)"

definition gate_passed :: "cycle_env \<Rightarrow> setup_candidate \<Rightarrow> bool" where
  "gate_passed ce c \<longleftrightarrow> gd_allowed (gate_evaluate (gate_policy_of ce) (sc_scanner c) (sc_direction c) (sc_regime c))"

text \<open>The runner passes neither the configured profit factor nor the enforcement switch: the defaults of the
  filter apply.\<close>

definition runner_evidence :: "cycle_env \<Rightarrow> ((string \<times> string) \<times> expectancy) list \<Rightarrow> evidence" where
  "runner_evidence ce recs =
     \<lparr>ev_records = recs, ev_min_avg_r = ce_min_avg_r ce, ev_min_samples = ce_min_samples ce, ev_min_pf = fl (6 / 5),
      ev_enforce = True, ev_blocked = [], ev_paper = ce_paper ce\<rparr>"

definition runner_candidates :: "cycle_env \<Rightarrow> setup_candidate list" where
  "runner_candidates ce =
     (let enabled = fst (filter_paper_entry_candidates (map (ready_setup (ce_now ce)) (ready_setups ce)));
          gated = filter (gate_passed ce) enabled
      in case ce_evidence ce of None \<Rightarrow> gated | Some recs \<Rightarrow> fst (filter_candidates (runner_evidence ce recs) gated))"

definition needed_symbols :: "cycle_env \<Rightarrow> paper_engine \<Rightarrow> string list" where
  "needed_symbols ce pe = remdups (map rd_symbol (ready_setups ce) @ dkeys (pe_open pe))"

text \<open>The work that waits for the lock: nothing without a ready setup.\<close>

definition entry_read :: "cycle_env \<Rightarrow> paper_engine \<Rightarrow> (setup_candidate list \<times> (string \<times> rat) list) option" where
  "entry_read ce pe =
     (if ready_setups ce = [] then None
      else Some (runner_candidates ce, get_prices (needed_symbols ce pe) (ce_tickers ce)))"

text \<open>The shadows of the opened trades, after the lock. A repository that raises ends the cycle.\<close>

fun shadow_entries ::
  "paper_settings \<Rightarrow> shadow_config \<Rightarrow> (shadow_trade \<Rightarrow> int option option) \<Rightarrow> int \<Rightarrow> (string \<times> rat) list \<Rightarrow> paper_trade list \<Rightarrow>
   shadow_engine \<Rightarrow> bool \<times> shadow_engine" where
  "shadow_entries ps hc save now prices [] he = (True, he)"
| "shadow_entries ps hc save now prices (t # ts) he =
     (case dget prices (pt_symbol t) of
        None \<Rightarrow> shadow_entries ps hc save now prices ts he
      | Some price \<Rightarrow>
          (case check_shadow_entries ps hc save now t price he of
             (None, he') \<Rightarrow> (False, he')
           | (Some _, he') \<Rightarrow> shadow_entries ps hc save now prices ts he'))"

record runner =
  ru_engine :: paper_engine
  ru_shadow :: "shadow_engine option"

record account_row =
  ac_balance :: rat
  ac_equity :: rat
  ac_open :: nat
  ac_drawdown :: rat
  ac_cooldown :: "int option"

definition account_of :: "paper_engine \<Rightarrow> account_row" where
  "account_of pe =
     \<lparr>ac_balance = pe_balance pe, ac_equity = pe_balance pe, ac_open = length (pe_open pe),
      ac_drawdown = pe_max_drawdown pe, ac_cooldown = pe_cooldown pe\<rparr>"

text \<open>Under the lock: the opened trades and whether \<^verbatim>\<open>check_entries\<close> returned them; they are handed on to the
  shadow engine with the prices of the cycle.\<close>

type_synonym shadow_work = "(paper_trade list \<times> (string \<times> rat) list) option"

definition entry_locked ::
  "paper_settings \<Rightarrow> shadow_config \<Rightarrow> repo_env \<Rightarrow> int \<Rightarrow> (setup_candidate list \<times> (string \<times> rat) list) option \<Rightarrow> runner \<Rightarrow>
   (paper_trade list \<times> bool) \<times> shadow_work \<times> runner" where
  "entry_locked ps hc env now work ru =
     (case work of
        None \<Rightarrow> (([], True), None, ru)
      | Some (cands, prices) \<Rightarrow>
          (case check_entries ps env now (map engine_candidate cands) prices (ru_engine ru) of
             (pe, opened, ok) \<Rightarrow>
               ((opened, ok),
                if ok \<and> ru_shadow ru \<noteq> None \<and> shadow_enabled hc \<and> opened \<noteq> [] then Some (opened, prices) else None,
                ru\<lparr>ru_engine := pe\<rparr>)))"

text \<open>After the lock: whether the work on the shadows came back.\<close>

definition entry_shadows ::
  "paper_settings \<Rightarrow> shadow_config \<Rightarrow> (shadow_trade \<Rightarrow> int option option) \<Rightarrow> int \<Rightarrow> shadow_work \<Rightarrow> runner \<Rightarrow> bool \<times> runner" where
  "entry_shadows ps hc save now work ru =
     (case (work, ru_shadow ru) of
        (Some (opened, prices), Some he) \<Rightarrow>
          (case shadow_entries ps hc save now prices opened he of (ok, he') \<Rightarrow> (ok, ru\<lparr>ru_shadow := Some he'\<rparr>))
      | _ \<Rightarrow> (True, ru))"

definition entry_commit ::
  "paper_settings \<Rightarrow> shadow_config \<Rightarrow> repo_env \<Rightarrow> (shadow_trade \<Rightarrow> int option option) \<Rightarrow> int \<Rightarrow>
   (setup_candidate list \<times> (string \<times> rat) list) option \<Rightarrow> runner \<Rightarrow> (paper_trade list \<times> bool) \<times> runner" where
  "entry_commit ps hc env save now work ru =
     (case entry_locked ps hc env now work ru of
        ((opened, ok), pending, ru1) \<Rightarrow>
          (case entry_shadows ps hc save now pending ru1 of (ok2, ru2) \<Rightarrow> ((opened, ok \<and> ok2), ru2)))"

text \<open>The whole cycle without interleaving, with the account row that it saves at its end.\<close>

definition run_entry_cycle ::
  "paper_settings \<Rightarrow> shadow_config \<Rightarrow> repo_env \<Rightarrow> (shadow_trade \<Rightarrow> int option option) \<Rightarrow> cycle_env \<Rightarrow> runner \<Rightarrow>
   (paper_trade list \<times> account_row option) \<times> runner" where
  "run_entry_cycle ps hc env save ce ru =
     (case entry_commit ps hc env save (ce_now ce) (entry_read ce (ru_engine ru)) ru of
        ((opened, ok), ru') \<Rightarrow> ((opened, if ok then Some (account_of (ru_engine ru')) else None), ru'))"

section \<open>The position monitor\<close>

text \<open>The prices and rates of the open symbols, read without the lock; nothing to do without a price.\<close>

definition monitor_read ::
  "(string \<times> rat option) list option \<Rightarrow> (string \<Rightarrow> rat option) \<Rightarrow> paper_engine \<Rightarrow> ((string \<times> rat) list \<times> (string \<times> rat) list) option" where
  "monitor_read tickers rate pe =
     (let symbols = dkeys (pe_open pe); prices = get_prices symbols tickers
      in if symbols = [] \<or> prices = [] then None else Some (prices, get_funding_rates rate symbols))"

text \<open>Under the lock: the result of the pass, and the prices for the shadow engine; \<open>None\<close> when an exception left
  the pass, and then the shadows are not checked either.\<close>

definition monitor_locked ::
  "paper_settings \<Rightarrow> shadow_config \<Rightarrow> exit_writes \<Rightarrow> int \<Rightarrow> ((string \<times> rat) list \<times> (string \<times> rat) list) option \<Rightarrow> runner \<Rightarrow>
   closed_row list option \<times> (string \<times> rat) list option \<times> runner" where
  "monitor_locked ps hc w now work ru =
     (case work of
        None \<Rightarrow> (Some [], None, ru)
      | Some (prices, rates) \<Rightarrow>
          (case check_exits ps w now prices rates (ru_engine ru) of
             (pe, rows) \<Rightarrow>
               (rows, if rows \<noteq> None \<and> shadow_enabled hc then Some prices else None, ru\<lparr>ru_engine := pe\<rparr>)))"

definition monitor_shadows ::
  "paper_settings \<Rightarrow> shadow_config \<Rightarrow> int \<Rightarrow> (string \<times> rat) list option \<Rightarrow> runner \<Rightarrow> shadow_close list \<times> runner" where
  "monitor_shadows ps hc now work ru =
     (case (work, ru_shadow ru) of
        (Some prices, Some he) \<Rightarrow>
          (case check_shadow_exits ps hc now prices he of (shut, he') \<Rightarrow> (shut, ru\<lparr>ru_shadow := Some he'\<rparr>))
      | _ \<Rightarrow> ([], ru))"

definition check_positions ::
  "paper_settings \<Rightarrow> shadow_config \<Rightarrow> exit_writes \<Rightarrow> int \<Rightarrow> (string \<times> rat option) list option \<Rightarrow> (string \<Rightarrow> rat option) \<Rightarrow> runner \<Rightarrow>
   (closed_row list \<times> shadow_close list) option \<times> runner" where
  "check_positions ps hc w now tickers rate ru =
     (case monitor_locked ps hc w now (monitor_read tickers rate (ru_engine ru)) ru of
        (rows, pending, ru1) \<Rightarrow>
          (case monitor_shadows ps hc now pending ru1 of
             (shut, ru2) \<Rightarrow> (map_option (\<lambda>rs. (rs, shut)) rows, ru2)))"

section \<open>The two threads\<close>

text \<open>Each thread holds what it read until it gets the lock, and after it the work for the shadow engine, which no
  lock protects.\<close>

record threads =
  th_runner :: runner
  th_entry :: "(setup_candidate list \<times> (string \<times> rat) list) option"
  th_monitor :: "((string \<times> rat) list \<times> (string \<times> rat) list) option"
  th_entry_shadow :: shadow_work
  th_monitor_shadow :: "(string \<times> rat) list option"

datatype thread_event =
    ReadEntries cycle_env
  | CommitEntries repo_env int
  | ShadowEntries "shadow_trade \<Rightarrow> int option option" int
  | ReadPositions "(string \<times> rat option) list option" "string \<Rightarrow> rat option"
  | CommitExits exit_writes int
  | ShadowExits int

fun thread_step :: "paper_settings \<Rightarrow> shadow_config \<Rightarrow> threads \<Rightarrow> thread_event \<Rightarrow> threads" where
  "thread_step ps hc th (ReadEntries ce) = th\<lparr>th_entry := entry_read ce (ru_engine (th_runner th))\<rparr>"
| "thread_step ps hc th (CommitEntries env now) =
     (case entry_locked ps hc env now (th_entry th) (th_runner th) of
        (r, pending, ru) \<Rightarrow> th\<lparr>th_entry := None, th_entry_shadow := pending, th_runner := ru\<rparr>)"
| "thread_step ps hc th (ShadowEntries save now) =
     th\<lparr>th_entry_shadow := None, th_runner := snd (entry_shadows ps hc save now (th_entry_shadow th) (th_runner th))\<rparr>"
| "thread_step ps hc th (ReadPositions tickers rate) =
     th\<lparr>th_monitor := monitor_read tickers rate (ru_engine (th_runner th))\<rparr>"
| "thread_step ps hc th (CommitExits w now) =
     (case monitor_locked ps hc w now (th_monitor th) (th_runner th) of
        (rows, pending, ru) \<Rightarrow> th\<lparr>th_monitor := None, th_monitor_shadow := pending, th_runner := ru\<rparr>)"
| "thread_step ps hc th (ShadowExits now) =
     th\<lparr>th_monitor_shadow := None, th_runner := snd (monitor_shadows ps hc now (th_monitor_shadow th) (th_runner th))\<rparr>"

section \<open>One cycle of the command line\<close>

text \<open>Here the prices may raise and the configured thresholds are passed on.\<close>

definition cli_candidates :: "cycle_env \<Rightarrow> setup_candidate list" where
  "cli_candidates ce =
     fst (filter_candidates
       \<lparr>ev_records = (case ce_evidence ce of None \<Rightarrow> [] | Some recs \<Rightarrow> recs), ev_min_avg_r = ce_min_avg_r ce,
        ev_min_samples = ce_min_samples ce, ev_min_pf = ce_min_pf ce, ev_enforce = ce_enforce ce, ev_blocked = [],
        ev_paper = ce_paper ce\<rparr>
       (filter (gate_passed ce) (map (ready_setup (ce_now ce)) (ready_setups ce))))"

text \<open>\<open>None\<close>: a request for the tickers or a database call raised.\<close>

definition cmd_run_once ::
  "paper_settings \<Rightarrow> repo_env \<Rightarrow> exit_writes \<Rightarrow> (string \<Rightarrow> rat option) \<Rightarrow> (string \<times> rat option) list option \<Rightarrow> cycle_env \<Rightarrow>
   paper_engine \<Rightarrow> (closed_row list \<times> paper_trade list \<times> paper_engine) option" where
  "cmd_run_once ps env w rate tickers ce pe =
     (let symbols = dkeys (pe_open pe)
      in case (if symbols = [] then Some ([], pe)
               else Option.bind tickers (\<lambda>ts.
                 case check_exits ps w (ce_now ce) (pick_prices symbols ts) (get_funding_rates rate symbols) pe of
                   (pe1, rows) \<Rightarrow> map_option (\<lambda>rs. (rs, pe1)) rows)) of
           None \<Rightarrow> None
         | Some (rows, pe1) \<Rightarrow>
             if \<not> ce_stop ce \<and> ce_ready ce = None then None
             else if ready_setups ce = [] then Some (rows, [], take_snapshot (ce_now ce) [] pe1)
             else (case ce_tickers ce of
                     None \<Rightarrow> None
                   | Some ts \<Rightarrow>
                       (case check_entries ps env (ce_now ce) (map engine_candidate (cli_candidates ce))
                               (pick_prices (needed_symbols ce pe1) ts) pe1 of
                          (pe2, opened, ok) \<Rightarrow>
                            if ok then Some (rows, opened, take_snapshot (ce_now ce) [] pe2) else None)))"

section \<open>Readiness for live trading\<close>

record scanner_stat =
  st_scanner :: string
  st_closed :: int
  st_avg_r :: rat
  st_pf :: rat

record forward_summary =
  fw_days :: rat
  fw_trades :: int
  fw_net :: rat
  fw_drawdown :: rat
  fw_avg_r :: rat
  fw_pf :: rat
  fw_stats :: "scanner_stat list"

record readiness_limits =
  rl_days :: rat
  rl_trades :: int
  rl_drawdown :: rat
  rl_avg_r :: rat
  rl_pf :: rat
  rl_samples :: int

datatype failed_check = DAYS | TRADES | NET_PNL | DRAWDOWN | AVG_R | PROFIT_FACTOR | TOXIC string

definition toxic :: "readiness_limits \<Rightarrow> scanner_stat \<Rightarrow> bool" where
  "toxic rl s \<longleftrightarrow> st_closed s \<ge> rl_samples rl \<and> (st_avg_r s \<le> 0 \<or> st_pf s < 1)"

definition assess_readiness :: "forward_summary \<Rightarrow> readiness_limits \<Rightarrow> failed_check list" where
  "assess_readiness fw rl =
     (if fw_days fw < rl_days rl then [DAYS] else []) @
     (if fw_trades fw < rl_trades rl then [TRADES] else []) @
     (if fw_net fw \<le> 0 then [NET_PNL] else []) @
     (if fw_drawdown fw > rl_drawdown rl then [DRAWDOWN] else []) @
     (if fw_avg_r fw \<le> rl_avg_r rl then [AVG_R] else []) @
     (if fw_pf fw \<le> rl_pf rl then [PROFIT_FACTOR] else []) @
     map (\<lambda>s. TOXIC (st_scanner s)) (filter (toxic rl) (fw_stats fw))"

definition eligible :: "forward_summary \<Rightarrow> readiness_limits \<Rightarrow> bool" where
  "eligible fw rl \<longleftrightarrow> assess_readiness fw rl = []"

section \<open>The threads keep the book sound\<close>

lemma dwf_length: "dwf d \<Longrightarrow> length d = card (dom (dget d))"
  using distinct_card [of "dkeys d"] by (simp add: dom_map_of_conv_image_fst dwf_def)

lemma check_exits_dom:
  assumes "dwf (pe_open pe)"
  shows "dom (dget (pe_open (fst (check_exits ps w now prices rates pe)))) \<subseteq> dom (dget (pe_open pe))"
proof
  fix k assume "k \<in> dom (dget (pe_open (fst (check_exits ps w now prices rates pe))))"
  then show "k \<in> dom (dget (pe_open pe))"
    using check_exits_facts(2) [OF assms, of ps w now prices rates k]
      reached_dget [OF assms, of "raises ps w now prices rates" k]
    by (cases "dget (pe_open pe) k") (auto simp: book_after_def split: if_splits option.splits)
qed

lemma check_exits_length:
  assumes "dwf (pe_open pe)"
  shows "length (pe_open (fst (check_exits ps w now prices rates pe))) \<le> length (pe_open pe)"
  unfolding dwf_length [OF assms] dwf_length [OF check_exits_facts(3) [OF assms]]
  by (intro card_mono check_exits_dom assms) (simp add: finite_dom_map_of)

lemma check_entries_length:
  assumes "dwf (pe_open pe)"
  shows "dwf (pe_open (fst (check_entries ps env now cands prices pe)))"
    and "int (length (pe_open (fst (check_entries ps env now cands prices pe)))) \<le>
      max (int (length (pe_open pe))) (ps_max_open_positions ps)"
  using check_entries_ok [OF assms, of ps env prices cands now]
  by (cases "fst (snd (check_entries ps env now cands prices pe)) = []"; simp add: entries_ok_def Let_def; fail)+

definition shadow_ok :: "shadow_engine option \<Rightarrow> bool" where
  "shadow_ok she = (case she of None \<Rightarrow> True | Some he \<Rightarrow> index_ok he)"

lemma shadow_entries_index_ok: "index_ok he \<Longrightarrow> index_ok (snd (shadow_entries ps hc save now prices ts he))"
proof (induction ts arbitrary: he)
  case (Cons t ts)
  show ?case
  proof (cases "dget prices (pt_symbol t)")
    case None
    with Cons show ?thesis by simp
  next
    case (Some price)
    obtain r he' where c: "check_shadow_entries ps hc save now t price he = (r, he')" by fastforce
    have "index_ok he'" using shadow_entries_ok [OF Cons.prems, of ps hc save now t price] by (simp add: c)
    with Cons.IH Some c show ?thesis by (cases r) simp_all
  qed
qed simp

text \<open>What each phase does to the two engines.\<close>

lemma entry_locked_result:
  "fst (entry_locked ps hc env now work ru) =
     (case work of None \<Rightarrow> ([], True)
      | Some (cands, prices) \<Rightarrow> snd (check_entries ps env now (map engine_candidate cands) prices (ru_engine ru)))"
  "snd (snd (entry_locked ps hc env now work ru)) =
     (case work of None \<Rightarrow> ru
      | Some (cands, prices) \<Rightarrow>
          ru\<lparr>ru_engine := fst (check_entries ps env now (map engine_candidate cands) prices (ru_engine ru))\<rparr>)"
  by (simp_all add: entry_locked_def split_beta split: option.split)

lemma entry_shadows_result:
  "ru_engine (snd (entry_shadows ps hc save now work ru)) = ru_engine ru"
  "shadow_ok (ru_shadow ru) \<Longrightarrow> shadow_ok (ru_shadow (snd (entry_shadows ps hc save now work ru)))"
  using shadow_entries_index_ok
  by (auto simp: entry_shadows_def shadow_ok_def split_beta split: option.split)

lemma entry_commit_opened:
  "fst (fst (entry_commit ps hc env save now work ru)) =
     (case work of None \<Rightarrow> []
      | Some (cands, prices) \<Rightarrow> fst (snd (check_entries ps env now (map engine_candidate cands) prices (ru_engine ru))))"
  using entry_locked_result(1) [of ps hc env now work ru]
  by (simp add: entry_commit_def split_beta split: option.split)

lemma monitor_locked_result:
  "snd (snd (monitor_locked ps hc w now work ru)) =
     (case work of None \<Rightarrow> ru
      | Some (prices, rates) \<Rightarrow> ru\<lparr>ru_engine := fst (check_exits ps w now prices rates (ru_engine ru))\<rparr>)"
  by (simp add: monitor_locked_def split_beta split: option.split)

lemma monitor_shadows_result:
  "ru_engine (snd (monitor_shadows ps hc now work ru)) = ru_engine ru"
  "ru_shadow (snd (monitor_shadows ps hc now work ru)) =
     (case work of None \<Rightarrow> ru_shadow ru
      | Some prices \<Rightarrow> map_option (\<lambda>he. snd (check_shadow_exits ps hc now prices he)) (ru_shadow ru))"
  by (simp_all add: monitor_shadows_def split_beta split: option.split)

text \<open>A step of a thread, on the engine and on the shadow engine.\<close>

lemma thread_step_runner:
  "th_runner (thread_step ps hc th e) =
     (case e of
        CommitEntries env now \<Rightarrow> snd (snd (entry_locked ps hc env now (th_entry th) (th_runner th)))
      | ShadowEntries save now \<Rightarrow> snd (entry_shadows ps hc save now (th_entry_shadow th) (th_runner th))
      | CommitExits w now \<Rightarrow> snd (snd (monitor_locked ps hc w now (th_monitor th) (th_runner th)))
      | ShadowExits now \<Rightarrow> snd (monitor_shadows ps hc now (th_monitor_shadow th) (th_runner th))
      | _ \<Rightarrow> th_runner th)"
  by (cases e) (simp_all add: split_beta)

definition runner_sound :: "paper_settings \<Rightarrow> nat \<Rightarrow> threads \<Rightarrow> bool" where
  "runner_sound ps n th \<longleftrightarrow> dwf (pe_open (ru_engine (th_runner th))) \<and>
     int (length (pe_open (ru_engine (th_runner th)))) \<le> max (int n) (ps_max_open_positions ps) \<and>
     shadow_ok (ru_shadow (th_runner th))"

interpretation runner: event_system "thread_step ps hc" "runner_sound ps n" for ps hc n
proof
  fix th :: threads and e assume s: "runner_sound ps n th"
  have wf: "dwf (pe_open (ru_engine (th_runner th)))" using s by (simp add: runner_sound_def)
  show "runner_sound ps n (thread_step ps hc th e)"
  proof (cases e)
    case (CommitEntries env now)
    have len: "int (length (pe_open (fst (check_entries ps env now cands prices (ru_engine (th_runner th))))))
        \<le> max (int n) (ps_max_open_positions ps)" for cands prices
      using check_entries_length(2) [OF wf, of ps env now cands prices] s unfolding runner_sound_def max_def by (auto split: if_splits)
    show ?thesis
      using s check_entries_length(1) [OF wf] len
      by (auto simp: CommitEntries runner_sound_def thread_step_runner entry_locked_result simp del: thread_step.simps
          split: option.split)
  next
    case (CommitExits w now)
    have len: "int (length (pe_open (fst (check_exits ps w now prices rates (ru_engine (th_runner th))))))
        \<le> max (int n) (ps_max_open_positions ps)" for prices rates
      using check_exits_length [OF wf, of ps w now prices rates] s by (simp add: runner_sound_def)
    show ?thesis
      using s check_exits_facts(3) [OF wf] len
      by (auto simp: CommitExits runner_sound_def thread_step_runner monitor_locked_result simp del: thread_step.simps
          split: option.split)
  next
    case (ShadowEntries save now)
    then show ?thesis
      using s by (simp add: runner_sound_def thread_step_runner entry_shadows_result)
  next
    case (ShadowExits now)
    have "shadow_ok (map_option (\<lambda>he. snd (check_shadow_exits ps hc now prices he)) (ru_shadow (th_runner th)))" for prices
      using s by (auto simp: runner_sound_def shadow_ok_def shadow_exits_ok split: option.split)
    then show ?thesis
      using s by (auto simp: ShadowExits runner_sound_def thread_step_runner monitor_shadows_result split: option.split)
  qed (use s in \<open>simp_all add: runner_sound_def\<close>)
qed

definition idle_threads :: "runner \<Rightarrow> threads" where
  "idle_threads ru =
     \<lparr>th_runner = ru, th_entry = None, th_monitor = None, th_entry_shadow = None, th_monitor_shadow = None\<rparr>"

lemma thread_step_grows: "grows (ru_engine (th_runner th)) (ru_engine (th_runner (thread_step ps hc th e)))"
  by (cases e)
    (auto simp: thread_step_runner entry_locked_result monitor_locked_result entry_shadows_result monitor_shadows_result
      check_entries_grows check_exits_grows simp del: thread_step.simps split: option.split)

interpretation runner_halt: latched_system "thread_step ps hc" "\<lambda>th. pe_halt (ru_engine (th_runner th))" "\<lambda>_. False" for ps hc
  using thread_step_grows by unfold_locales (simp add: grows_def)

text \<open>C28. However the entry cycle and the position monitor interleave, each acting under the lock on what it read
  before and on the shadow engine after the lock, and whatever database calls raise in between, the account stays
  sound: one position per symbol, never more positions than allowed or than the
  process started with, an exact shadow index, and a safety halt that is never lifted.\<close>

theorem paper_threads_sound:
  assumes "dwf (pe_open (ru_engine ru))" "shadow_ok (ru_shadow ru)"
  shows "let ru' = th_runner (foldl (thread_step ps hc) (idle_threads ru) events)
    in dwf (pe_open (ru_engine ru')) \<and>
       int (length (pe_open (ru_engine ru'))) \<le> max (int (length (pe_open (ru_engine ru)))) (ps_max_open_positions ps) \<and>
       shadow_ok (ru_shadow ru') \<and> (if pe_halt (ru_engine ru) then pe_halt (ru_engine ru') else True)"
proof -
  have "runner_sound ps (length (pe_open (ru_engine ru))) (idle_threads ru)"
    using assms by (simp add: runner_sound_def idle_threads_def)
  from runner.run_inv [OF this]
  have "runner_sound ps (length (pe_open (ru_engine ru))) (foldl (thread_step ps hc) (idle_threads ru) events)" .
  moreover have "pe_halt (ru_engine (th_runner (foldl (thread_step ps hc) (idle_threads ru) events)))" if "pe_halt (ru_engine ru)"
    using runner_halt.run_latched [of "idle_threads ru" events] that by (simp add: idle_threads_def)
  ultimately show ?thesis by (simp add: runner_sound_def Let_def)
qed

section \<open>Entries of a cycle\<close>

lemma runner_candidates_in:
  "c \<in> set (runner_candidates ce) \<Longrightarrow>
     \<exists>r\<in>set (ready_setups ce). c = ready_setup (ce_now ce) r \<and> rd_scanner r \<notin> set PAPER_DISABLED_SCANNERS \<and> gate_passed ce c \<and>
       (case ce_evidence ce of None \<Rightarrow> True | Some recs \<Rightarrow> evidence_accepts (runner_evidence ce recs) c)"
  by (auto simp: runner_candidates_def filter_paper_entry_candidates_def filter_candidates_def ready_setup_def Let_def
      split: option.splits)

text \<open>The row behind an opened trade: enabled, let through by the gate and by the evidence, with the price of the
  cycle in its entry zone and a geometry that the engine accepts.\<close>

definition entitled :: "paper_settings \<Rightarrow> repo_env \<Rightarrow> cycle_env \<Rightarrow> (string \<times> rat) list \<Rightarrow> paper_trade \<Rightarrow> ready_row \<Rightarrow> bool" where
  "entitled ps env ce prices t r \<longleftrightarrow>
     (let c = ready_setup (ce_now ce) r in
      \<not> ce_stop ce \<and> rd_scanner r \<notin> set PAPER_DISABLED_SCANNERS \<and> gate_passed ce c \<and>
      (case ce_evidence ce of None \<Rightarrow> True | Some recs \<Rightarrow> evidence_accepts (runner_evidence ce recs) c) \<and>
      backed_by ps env prices t (engine_candidate c))"

lemma ready_stopped: "r \<in> set (ready_setups ce) \<Longrightarrow> \<not> ce_stop ce"
  by (auto simp: ready_setups_def split: if_splits)

lemma entries_entitled:
  assumes "dwf (pe_open (ru_engine ru))"
  shows "list_all (\<lambda>t. dget (pe_open (ru_engine ru)) (pt_symbol t) = None \<and>
      list_ex (entitled ps env ce (get_prices (needed_symbols ce (ru_engine ru)) (ce_tickers ce)) t) (ready_setups ce))
    (fst (fst (run_entry_cycle ps hc env save ce ru)))"
proof -
  let ?pe = "ru_engine ru" and ?prices = "get_prices (needed_symbols ce (ru_engine ru)) (ce_tickers ce)"
  let ?opened = "fst (snd (check_entries ps env (ce_now ce) (map engine_candidate (runner_candidates ce)) ?prices ?pe))"
  have o: "fst (fst (run_entry_cycle ps hc env save ce ru)) = (if ready_setups ce = [] then [] else ?opened)"
    using entry_commit_opened [of ps hc env save "ce_now ce" "entry_read ce ?pe" ru]
    by (simp add: run_entry_cycle_def entry_read_def split_beta)
  have "list_ex (entitled ps env ce ?prices t) (ready_setups ce)"
    if b: "backed_by ps env ?prices t c" "c \<in> set (map engine_candidate (runner_candidates ce))" for t c
  proof -
    obtain x where x: "x \<in> set (runner_candidates ce)" "c = engine_candidate x" using b(2) by auto
    obtain r where r: "r \<in> set (ready_setups ce)" "x = ready_setup (ce_now ce) r" "rd_scanner r \<notin> set PAPER_DISABLED_SCANNERS"
      "gate_passed ce x" "case ce_evidence ce of None \<Rightarrow> True | Some recs \<Rightarrow> evidence_accepts (runner_evidence ce recs) x"
      using runner_candidates_in [OF x(1)] by blast
    have "entitled ps env ce ?prices t r"
      unfolding entitled_def Let_def r(2) [symmetric] using r(3-5) b(1) ready_stopped [OF r(1)] x(2) by blast
    with r(1) show ?thesis by (auto simp: list_ex_iff)
  qed
  moreover have "list_all (\<lambda>t. dget (pe_open ?pe) (pt_symbol t) = None \<and>
      list_ex (backed_by ps env ?prices t) (map engine_candidate (runner_candidates ce))) ?opened"
    using check_entries_ok [OF assms, of ps env ?prices "map engine_candidate (runner_candidates ce)" "ce_now ce"]
    by (auto simp: entries_ok_def Let_def list_all_iff)
  ultimately show ?thesis unfolding o list_all_iff by (auto simp: list_ex_iff)
qed

text \<open>Every position that an entry cycle opens is entitled to it by a ready setup of this cycle: no emergency
  stop, an enabled scanner, an open direction gate, accepted evidence, the price inside the entry zone, an
  accepted geometry and regime, and a setup that was never executed; and it opens in a symbol that was flat.\<close>

theorem cycle_entries_entitled:
  assumes "dwf (pe_open (ru_engine ru))"
  shows "list_all (\<lambda>t. dget (pe_open (ru_engine ru)) (pt_symbol t) = None \<and>
      list_ex (entitled ps env ce (get_prices (needed_symbols ce (ru_engine ru)) (ce_tickers ce)) t) (ready_setups ce))
    (fst (fst (run_entry_cycle ps hc env save ce ru)))"
  by (rule entries_entitled [OF assms])

section \<open>The stop file\<close>

fun stopped_event :: "thread_event \<Rightarrow> thread_event" where
  "stopped_event (ReadEntries ce) = ReadEntries (ce\<lparr>ce_stop := True\<rparr>)"
| "stopped_event e = e"

definition shrinking :: "paper_engine \<Rightarrow> threads \<Rightarrow> bool" where
  "shrinking pe th \<longleftrightarrow> th_entry th = None \<and> dwf (pe_open (ru_engine (th_runner th))) \<and>
     dom (dget (pe_open (ru_engine (th_runner th)))) \<subseteq> dom (dget (pe_open pe))"

lemma stopped_step:
  assumes "shrinking pe th"
  shows "shrinking pe (thread_step ps hc th (stopped_event e))"
proof (cases e)
  case (ReadEntries ce)
  then show ?thesis using assms by (simp add: shrinking_def entry_read_def ready_setups_def)
next
  case (CommitEntries env now)
  then show ?thesis using assms by (simp add: shrinking_def entry_locked_def)
next
  case (CommitExits w now)
  have wf: "dwf (pe_open (ru_engine (th_runner th)))" using assms by (simp add: shrinking_def)
  have e: "th_entry (thread_step ps hc th (CommitExits w now)) = th_entry th" by (simp add: split_beta)
  show ?thesis
  proof (cases "th_monitor th")
    case None
    then show ?thesis using assms e by (simp add: CommitExits shrinking_def thread_step_runner monitor_locked_result del: thread_step.simps)
  next
    case (Some x)
    obtain prices rates where x: "x = (prices, rates)" by fastforce
    show ?thesis
      using assms check_exits_dom [OF wf, of ps w now prices rates] check_exits_facts(3) [OF wf, of ps w now prices rates] Some e
      by (auto simp: CommitExits shrinking_def thread_step_runner monitor_locked_result x simp del: thread_step.simps)
  qed
qed (use assms in \<open>simp_all add: shrinking_def entry_shadows_result monitor_shadows_result\<close>)

text \<open>The operator's stop file works: while it exists no interleaving of the two threads opens a position in
  any symbol, and the open positions are still watched and can only be closed.\<close>

theorem stop_file_blocks_entries:
  assumes "dwf (pe_open (ru_engine ru))"
  shows "dom (dget (pe_open (ru_engine (th_runner (foldl (thread_step ps hc) (idle_threads ru) (map stopped_event events))))))
    \<subseteq> dom (dget (pe_open (ru_engine ru)))"
proof -
  have "shrinking (ru_engine ru) (foldl (thread_step ps hc) th (map stopped_event events))"
    if "shrinking (ru_engine ru) th" for th
    using that by (induction events arbitrary: th) (simp_all add: stopped_step)
  from this [of "idle_threads ru"] assms show ?thesis by (simp add: shrinking_def idle_threads_def)
qed

section \<open>Shadows that nobody watches\<close>

lemma pick_prices_in: "dget (pick_prices symbols tickers) s \<noteq> None \<Longrightarrow> s \<in> set symbols"
proof -
  have "dget (foldl (\<lambda>d (s, p). if s \<in> set symbols then (case p of None \<Rightarrow> d | Some x \<Rightarrow> dput s x d) else d) d tickers) s \<noteq> None \<Longrightarrow>
      s \<in> set symbols \<or> dget d s \<noteq> None" for d
    by (induction tickers arbitrary: d) (fastforce split: if_splits option.splits)+
  from this [of "[]"] show "dget (pick_prices symbols tickers) s \<noteq> None \<Longrightarrow> s \<in> set symbols" by (simp add: pick_prices_def)
qed

lemma get_prices_in: "dget (get_prices symbols tickers) s \<noteq> None \<Longrightarrow> s \<in> set symbols"
  by (cases tickers) (simp_all add: get_prices_def pick_prices_in)

definition monitor_pass ::
  "paper_settings \<Rightarrow> shadow_config \<Rightarrow> runner \<Rightarrow> exit_writes \<times> int \<times> (string \<times> rat option) list option \<times> (string \<Rightarrow> rat option) \<Rightarrow>
   runner" where
  "monitor_pass ps hc ru x = (case x of (w, now, tickers, rate) \<Rightarrow> snd (check_positions ps hc w now tickers rate ru))"

lemma check_positions_runner:
  "snd (check_positions ps hc w now tickers rate ru) =
     snd (monitor_shadows ps hc now (fst (snd (monitor_locked ps hc w now (monitor_read tickers rate (ru_engine ru)) ru)))
       (snd (snd (monitor_locked ps hc w now (monitor_read tickers rate (ru_engine ru)) ru))))"
  by (simp add: check_positions_def split_beta)

definition unwatched :: "int option \<Rightarrow> shadow_trade \<Rightarrow> runner \<Rightarrow> bool" where
  "unwatched k t ru \<longleftrightarrow> dwf (pe_open (ru_engine ru)) \<and> dget (pe_open (ru_engine ru)) (hs_symbol t) = None \<and>
     (case ru_shadow ru of None \<Rightarrow> False | Some he \<Rightarrow> index_ok he \<and> dget (he_open he) k = Some t)"

lemma monitor_pass_unwatched:
  assumes "unwatched k t ru"
  shows "unwatched k t (monitor_pass ps hc ru x)"
proof -
  obtain w now tickers rate where x: "x = (w, now, tickers, rate)" by (metis prod_cases4)
  obtain he where he: "ru_shadow ru = Some he" "index_ok he" "dget (he_open he) k = Some t"
    using assms by (auto simp: unwatched_def split: option.splits)
  have wf: "dwf (pe_open (ru_engine ru))" and gone: "dget (pe_open (ru_engine ru)) (hs_symbol t) = None"
    using assms by (simp_all add: unwatched_def)
  show ?thesis
  proof (cases "monitor_read tickers rate (ru_engine ru)")
    case None
    then show ?thesis
      using assms by (simp add: x monitor_pass_def check_positions_runner monitor_locked_def monitor_shadows_def)
  next
    case (Some r)
    obtain prices rates where r: "r = (prices, rates)" by fastforce
    have "prices = get_prices (dkeys (pe_open (ru_engine ru))) tickers"
      using Some by (auto simp: monitor_read_def r Let_def split: if_splits)
    then have np: "dget prices (hs_symbol t) = None"
      using get_prices_in gone by (metis map_of_eq_None_iff set_map)
    have main: "dget (pe_open (fst (check_exits ps w now prices rates (ru_engine ru)))) (hs_symbol t) = None"
      using check_exits_dom [OF wf, of ps w now prices rates] gone by auto
    let ?he = "snd (check_shadow_exits ps hc now prices he)"
    have "dwf (he_open he)" using he(2) by (simp add: index_ok_iff)
    then have "dget (he_open ?he) k = Some t"
    proof (cases "shadow_enabled hc")
      case True
      from shadow_exits_book [OF \<open>dwf (he_open he)\<close> True, of ps now prices k] show ?thesis
        using he(3) np by (simp add: shut_at_def marked_at_def)
    qed (simp add: check_shadow_exits_def he(3))
    then show ?thesis
      using check_exits_facts(3) [OF wf, of ps w now prices rates] main shadow_exits_ok [OF he(2)] he
      by (auto simp: x monitor_pass_def check_positions_runner Some r unwatched_def monitor_shadows_result
          monitor_locked_def split_beta split: option.split)
  qed
qed

text \<open>A shadow whose symbol has no position in the paper account is watched by nobody: whatever the prices and
  however much time passes, no number of monitor passes closes it or even marks it, neither at its stop
  nor at its target nor at its expiry.\<close>

theorem unwatched_shadow_never_closes:
  assumes "dwf (pe_open (ru_engine ru))" "dget (pe_open (ru_engine ru)) (hs_symbol t) = None"
    and "ru_shadow ru = Some he" "index_ok he" "dget (he_open he) k = Some t"
  shows "case ru_shadow (foldl (monitor_pass ps hc) ru passes) of
      None \<Rightarrow> False | Some he' \<Rightarrow> dget (he_open he') k = Some t"
proof -
  have "unwatched k t ru" using assms by (simp add: unwatched_def)
  then have "unwatched k t (foldl (monitor_pass ps hc) ru passes)"
    by (induction passes arbitrary: ru) (simp_all add: monitor_pass_unwatched)
  then show ?thesis by (auto simp: unwatched_def split: option.splits)
qed

section \<open>Readiness\<close>

text \<open>The result is eligible exactly when every threshold is met and no scanner with enough closed trades loses
  money or has a profit factor below one; nothing is eligible on an empty history when the thresholds are
  not negative.\<close>

lemma eligible_iff:
  "eligible fw rl \<longleftrightarrow> rl_days rl \<le> fw_days fw \<and> rl_trades rl \<le> fw_trades fw \<and> 0 < fw_net fw \<and>
     fw_drawdown fw \<le> rl_drawdown rl \<and> rl_avg_r rl < fw_avg_r fw \<and> rl_pf rl < fw_pf fw \<and>
     list_all (\<lambda>s. st_closed s < rl_samples rl \<or> (0 < st_avg_r s \<and> 1 \<le> st_pf s)) (fw_stats fw)"
  by (auto simp: eligible_def assess_readiness_def toxic_def filter_empty_conv list_all_iff not_less not_le)

section \<open>Concrete runs\<close>

definition demo_runner :: runner where
  "demo_runner = \<lparr>ru_engine = demo_engine\<lparr>pe_open := [(''BTCUSDT'', demo_trade)]\<rparr>, ru_shadow = Some (start_shadow [demo_row])\<rparr>"

lemma demo_runner_facts:
  "dwf (pe_open (ru_engine demo_runner))" "ru_shadow demo_runner = Some (start_shadow [demo_row])" "index_ok (start_shadow [demo_row])"
  by (simp_all add: demo_runner_def dwf_def start_shadow_ok)

theorem paper_threads_sound_witness:
  "dwf (pe_open (ru_engine (th_runner (foldl (thread_step plain_settings demo_shadow_config) (idle_threads demo_runner)
      [ReadPositions (Some [(''BTCUSDT'', Some 900)]) (\<lambda>_. None), CommitExits writes_succeed 9, ShadowExits 9]))))"
  using paper_threads_sound [of demo_runner plain_settings demo_shadow_config
      "[ReadPositions (Some [(''BTCUSDT'', Some 900)]) (\<lambda>_. None), CommitExits writes_succeed 9, ShadowExits 9]"] demo_runner_facts
  by (simp add: Let_def shadow_ok_def del: foldl_Cons thread_step.simps)

definition demo_ready :: ready_row where
  "demo_ready = \<lparr>rd_id = ''s9'', rd_symbol = ''ETHUSDT'', rd_scanner = ''SR'', rd_direction = ''LONG'', rd_score = 50,
     rd_low = Some 1000, rd_high = Some 1040, rd_stop = Some 900, rd_t1 = Some 1200, rd_t2 = None, rd_regime = None,
     rd_reference = Some 1024, rd_timeframe = None\<rparr>"

definition demo_cycle :: cycle_env where
  "demo_cycle = \<lparr>ce_now = 5, ce_stop = False, ce_ready = Some [demo_ready], ce_tickers = Some [(''ETHUSDT'', Some 1024)],
     ce_gates = None, ce_scanners = [''SR''], ce_blocked = [], ce_whitelist = [], ce_evidence = None, ce_min_avg_r = 0,
     ce_min_samples = 30, ce_min_pf = 1, ce_enforce = True, ce_paper = True\<rparr>"

theorem cycle_entries_entitled_witness:
  "list_all (\<lambda>t. dget (pe_open (ru_engine demo_runner)) (pt_symbol t) = None)
    (fst (fst (run_entry_cycle plain_settings demo_shadow_config demo_repo (\<lambda>_. None) demo_cycle demo_runner)))"
  using cycle_entries_entitled [OF demo_runner_facts(1), where ps = plain_settings and hc = demo_shadow_config and env = demo_repo
      and save = "\<lambda>_. None" and ce = demo_cycle]
  by (rule list.pred_mono_strong) simp

theorem stop_file_blocks_entries_witness:
  "dom (dget (pe_open (ru_engine (th_runner (foldl (thread_step plain_settings demo_shadow_config) (idle_threads demo_runner)
      (map stopped_event [ReadEntries demo_cycle, CommitEntries demo_repo 5])))))) \<subseteq> {''BTCUSDT''}"
  using stop_file_blocks_entries [OF demo_runner_facts(1), where ps = plain_settings and hc = demo_shadow_config
      and events = "[ReadEntries demo_cycle, CommitEntries demo_repo 5]"]
  by (simp add: demo_runner_def del: foldl_Cons thread_step.simps list.map)

theorem unwatched_shadow_never_closes_witness:
  "case ru_shadow (foldl (monitor_pass plain_settings demo_shadow_config)
      (demo_runner\<lparr>ru_engine := demo_engine\<lparr>pe_open := []\<rparr>\<rparr>) [(writes_succeed, 10 ^ 15, Some [(''BTCUSDT'', Some 1)], \<lambda>_. None)]) of
     None \<Rightarrow> False | Some he \<Rightarrow> dget (he_open he) (Some 1) = Some (shadow_of_row demo_row)"
proof -
  have "dget (he_open (start_shadow [demo_row])) (Some 1) = Some (shadow_of_row demo_row)"
    by (simp add: start_shadow_def load_shadow_def demo_row_def)
  from unwatched_shadow_never_closes [OF _ _ _ demo_runner_facts(3) this,
      of "demo_runner\<lparr>ru_engine := demo_engine\<lparr>pe_open := []\<rparr>\<rparr>"]
  show ?thesis using demo_runner_facts(2) by (simp del: foldl_Cons)
qed

end
