(* ===== verification/SetupStore.thy ===== *)
theory SetupStore
  imports PaperRunner "HOL-Library.Sublist" "HOL-Library.Multiset"
begin

text \<open>
  The tables that the scanner process and the paper process share
  (\<^verbatim>\<open>ScannerRepository\<close> in \<^verbatim>\<open>src/app/db/repository.py\<close>): the retry around a
  database operation, the upsert of setups with their unique keys, their expiry, the setups offered to the
  paper process, and the paper trades. A transaction takes effect as a whole or not at all; what the
  database answers to each attempt is a parameter, with the case that a commit took effect but its
  answer was lost. An instrument is identified with its symbol. The identifiers that failed attempts
  would burn are not skipped.
\<close>

section \<open>The retry\<close>

text \<open>An exception of the database: its SQLSTATE, if any, and its message.\<close>

type_synonym db_error = "string option \<times> string"

datatype 'a tried = Returned 'a | Threw db_error

record recovery =
  rc_rollback :: bool
  rc_reconnect :: bool
  rc_error :: db_error

definition IN_FAILED_TXN :: string where
  "IN_FAILED_TXN = ''25P02''"

definition RETRYABLE_SQLSTATES :: "string list" where
  "RETRYABLE_SQLSTATES = [''40P01'', ''40001'']"

definition MAX_RETRIES :: nat where
  "MAX_RETRIES = 2"

text \<open>Rolls back, or opens a new connection when that fails.\<close>

definition recover_connection :: "recovery \<Rightarrow> bool" where
  "recover_connection rc \<longleftrightarrow> rc_rollback rc \<or> rc_reconnect rc"

fun retry_loop ::
  "(nat \<Rightarrow> 's \<Rightarrow> 'a tried \<times> 's) \<Rightarrow> (nat \<Rightarrow> recovery) \<Rightarrow> nat \<Rightarrow> nat \<Rightarrow> db_error \<Rightarrow> 's \<Rightarrow> (db_error + 'a) \<times> 's" where
  "retry_loop act rcv n 0 last_exc db = (Inl last_exc, db)"
| "retry_loop act rcv n (Suc k) last_exc db =
     (case act n db of
        (Returned x, db') \<Rightarrow> (Inr x, db')
      | (Threw e, db') \<Rightarrow>
          if fst e = Some IN_FAILED_TXN then
            (if recover_connection (rcv n) then retry_loop act rcv (n + 1) k e db' else (Inl e, db'))
          else if (case fst e of None \<Rightarrow> False | Some s \<Rightarrow> s \<in> set RETRYABLE_SQLSTATES) then
            (if recover_connection (rcv n) then retry_loop act rcv (n + 1) k e db' else (Inl (rc_error (rcv n)), db'))
          else (Inl e, db'))"

definition with_retry ::
  "(nat \<Rightarrow> 's \<Rightarrow> 'a tried \<times> 's) \<Rightarrow> (nat \<Rightarrow> recovery) \<Rightarrow> 's \<Rightarrow> (db_error + 'a) \<times> 's" where
  "with_retry act rcv db = retry_loop act rcv 1 MAX_RETRIES (None, '''') db"

text \<open>What the database does with one transaction.\<close>

datatype tx_answer = TxOk | TxFails db_error | TxLost db_error

definition transact :: "('s \<Rightarrow> 'a \<times> 's) \<Rightarrow> (nat \<Rightarrow> tx_answer) \<Rightarrow> nat \<Rightarrow> 's \<Rightarrow> 'a tried \<times> 's" where
  "transact f txs n db =
     (case txs n of
        TxOk \<Rightarrow> (case f db of (x, db') \<Rightarrow> (Returned x, db'))
      | TxFails e \<Rightarrow> (Threw e, db)
      | TxLost e \<Rightarrow> (Threw e, snd (f db)))"

section \<open>The table of setups\<close>

record setup_row =
  row_setup :: setup_candidate
  row_run :: "int option"
  row_status :: setup_state
  row_reason :: "string option"

definition signal_key :: "setup_candidate \<Rightarrow> string \<times> string \<times> string \<times> string \<times> int" where
  "signal_key c = (sc_symbol c, sc_scanner c, sc_direction c, sc_entry_tf c, sc_candle c)"

definition row_key :: "setup_row \<Rightarrow> string \<times> string \<times> string \<times> string \<times> int" where
  "row_key r = signal_key (row_setup r)"

definition row_id :: "setup_row \<Rightarrow> string" where
  "row_id r = sc_id (row_setup r)"

definition stored_status :: "setup_candidate \<Rightarrow> setup_state" where
  "stored_status c = (if sc_state c = SETUP_READY then READY_TO_TRADE else sc_state c)"

text \<open>The check constraints of the table.\<close>

definition STORED_STATUSES :: "setup_state list" where
  "STORED_STATUSES = [DETECTED, CONFIRMED, READY_TO_TRADE, CONFLICT, EXECUTED, INVALIDATED, EXPIRED]"

definition storable :: "setup_candidate \<Rightarrow> bool" where
  "storable c \<longleftrightarrow> sc_direction c \<in> {''LONG'', ''SHORT''} \<and> stored_status c \<in> set STORED_STATUSES"

text \<open>\<^verbatim>\<open>ON CONFLICT DO UPDATE\<close>: identifier, version, time frames and start of the stored row remain, and
  so does its reason; the status is the new one whatever it was.\<close>

definition refreshed :: "int option \<Rightarrow> setup_candidate \<Rightarrow> setup_row \<Rightarrow> setup_row" where
  "refreshed run c r =
     r\<lparr>row_setup := c\<lparr>sc_id := row_id r, sc_version := sc_version (row_setup r), sc_htf_tf := sc_htf_tf (row_setup r),
                      sc_setup_tf := sc_setup_tf (row_setup r), sc_started := sc_started (row_setup r)\<rparr>,
       row_run := run, row_status := stored_status c\<rparr>"

definition upsert_setup :: "int option \<Rightarrow> setup_candidate \<Rightarrow> setup_row list \<Rightarrow> (db_error + unit) \<times> setup_row list" where
  "upsert_setup run c rows =
     (if \<not> storable c then (Inl (Some ''23514'', ''check constraint''), rows)
      else if sc_candle c > 0 \<and> list_ex (\<lambda>r. row_key r = signal_key c) rows
      then (Inr (), map (\<lambda>r. if row_key r = signal_key c then refreshed run c r else r) rows)
      else if list_ex (\<lambda>r. row_id r = sc_id c) rows then (Inl (Some ''23505'', ''duplicate key''), rows)
      else (Inr (), rows @ [\<lparr>row_setup = c, row_run = run, row_status = stored_status c, row_reason = None\<rparr>]))"

definition no_candle_error :: db_error where
  "no_candle_error = (None, ''signal_candle_open_time must be a non-zero candle timestamp'')"

definition save_setup :: "tx_answer \<Rightarrow> int option \<Rightarrow> setup_candidate \<Rightarrow> setup_row list \<Rightarrow> (db_error + unit) \<times> setup_row list" where
  "save_setup tx run c rows =
     (if sc_candle c = 0 then (Inl no_candle_error, rows)
      else case tx of
        TxOk \<Rightarrow> upsert_setup run c rows
      | TxFails e \<Rightarrow> (Inl e, rows)
      | TxLost e \<Rightarrow> (Inl e, snd (upsert_setup run c rows)))"

definition update_status :: "string \<Rightarrow> setup_state \<Rightarrow> string option \<Rightarrow> setup_row list \<Rightarrow> setup_row list" where
  "update_status i st reason rows =
     map (\<lambda>r. if row_id r = i then r\<lparr>row_status := st, row_reason := reason\<rparr> else r) rows"

definition ACTIVE_STATUSES :: "setup_state list" where
  "ACTIVE_STATUSES = [DETECTED, CONFIRMED, READY_TO_TRADE]"

definition minutes :: "int \<Rightarrow> int" where
  "minutes n = n * 60000000"

definition setup_ttl :: "string \<Rightarrow> int" where
  "setup_ttl tf =
     (if tf = ''5m'' then minutes 60 else if tf = ''15m'' then minutes 120 else if tf = ''1h'' then minutes 360
      else if tf = ''4h'' then minutes 960 else minutes 120)"

definition past_ttl :: "int \<Rightarrow> setup_row \<Rightarrow> bool" where
  "past_ttl now r \<longleftrightarrow> row_status r \<in> set ACTIVE_STATUSES \<and> sc_detected (row_setup r) < now - setup_ttl (sc_setup_tf (row_setup r))"

definition expire_rows :: "int \<Rightarrow> setup_row list \<Rightarrow> nat \<times> setup_row list" where
  "expire_rows now rows =
     (length (filter (past_ttl now) rows),
      map (\<lambda>r. if past_ttl now r then r\<lparr>row_status := EXPIRED, row_reason := Some ''TTL_EXCEEDED''\<rparr> else r) rows)"

definition past_age :: "int \<Rightarrow> int \<Rightarrow> setup_row \<Rightarrow> bool" where
  "past_age now age r \<longleftrightarrow> row_status r = READY_TO_TRADE \<and> sc_detected (row_setup r) < now - minutes age"

definition expire_stale_rows :: "int \<Rightarrow> int \<Rightarrow> setup_row list \<Rightarrow> nat \<times> setup_row list" where
  "expire_stale_rows now age rows =
     (length (filter (past_age now age) rows),
      map (\<lambda>r. if past_age now age r then r\<lparr>row_status := EXPIRED\<rparr> else r) rows)"

text \<open>The setups offered to the paper process, at a time of the clock of the database.\<close>

definition ready_row_of :: "setup_row \<Rightarrow> ready_row" where
  "ready_row_of r =
     (let c = row_setup r in
      \<lparr>rd_id = sc_id c, rd_symbol = sc_symbol c, rd_scanner = sc_scanner c, rd_direction = sc_direction c, rd_score = sc_score c,
       rd_low = Some (sc_low c), rd_high = Some (sc_high c), rd_stop = Some (sc_stop c), rd_t1 = sc_t1 c, rd_t2 = sc_t2 c,
       rd_regime = sc_regime c, rd_reference = Some (sc_price c), rd_timeframe = Some (sc_entry_tf c)\<rparr>)"

definition offered :: "int \<Rightarrow> setup_row \<Rightarrow> bool" where
  "offered now r \<longleftrightarrow> row_status r = READY_TO_TRADE \<and> sc_detected (row_setup r) > now - minutes 120"

text \<open>The answers of the query: the offered rows, best score first, equal scores in any order. One of them has
  equal scores in the order of the table.\<close>

definition ready_answer :: "int \<Rightarrow> setup_row list \<Rightarrow> ready_row list \<Rightarrow> bool" where
  "ready_answer dbnow rows ans \<longleftrightarrow>
     mset ans = mset (map ready_row_of (filter (offered dbnow) rows)) \<and> sorted_wrt (\<lambda>a b. rd_score b \<le> rd_score a) ans"

definition load_ready_setups :: "int \<Rightarrow> setup_row list \<Rightarrow> ready_row list" where
  "load_ready_setups dbnow rows = map ready_row_of (sort_key (\<lambda>r. - sc_score (row_setup r)) (filter (offered dbnow) rows))"

section \<open>The file of setups\<close>

text \<open>The backend without a database keeps the state of the setup itself, not the status of the table.\<close>

record file_record =
  fr_setup :: setup_candidate
  fr_status :: setup_state

definition save_jsonl :: "setup_candidate \<Rightarrow> file_record list \<Rightarrow> file_record list" where
  "save_jsonl c recs =
     (if list_ex (\<lambda>r. signal_key (fr_setup r) = signal_key c) recs
      then (let front = takeWhile (\<lambda>r. signal_key (fr_setup r) \<noteq> signal_key c) recs;
                rest = dropWhile (\<lambda>r. signal_key (fr_setup r) \<noteq> signal_key c) recs
            in front @ \<lparr>fr_setup = c\<lparr>sc_id := sc_id (fr_setup (hd rest))\<rparr>, fr_status = sc_state c\<rparr> # tl rest)
      else recs @ [\<lparr>fr_setup = c, fr_status = sc_state c\<rparr>])"

definition get_active_jsonl :: "string option \<Rightarrow> file_record list \<Rightarrow> file_record list" where
  "get_active_jsonl symbol recs =
     take 20 (sort_key (\<lambda>r. - sc_score (fr_setup r))
       (filter (\<lambda>r. fr_status r \<in> set ACTIVE_STATUSES \<and>
          (case symbol of None \<Rightarrow> True | Some s \<Rightarrow> s = '''' \<or> sc_symbol (fr_setup r) = s)) recs))"

section \<open>The table of paper trades\<close>

text \<open>An open trade has no closing data.\<close>

record trade_row =
  tw_id :: int
  tw_trade :: paper_trade
  tw_closed :: "closed_row option"

record paper_store =
  db_setups :: "setup_row list"
  db_trades :: "trade_row list"
  db_next :: int

definition tw_setup :: "trade_row \<Rightarrow> string" where
  "tw_setup w = pt_setup_id (tw_trade w)"

definition get_paper_trade_by_setup :: "string \<Rightarrow> paper_store \<Rightarrow> int option" where
  "get_paper_trade_by_setup i db = map_option tw_id (find (\<lambda>w. tw_setup w = i) (db_trades db))"

text \<open>One transaction: the trade is inserted and its setup marked as executed.\<close>

definition do_save_trade :: "paper_trade \<Rightarrow> paper_store \<Rightarrow> int option \<times> paper_store" where
  "do_save_trade t db =
     (case get_paper_trade_by_setup (pt_setup_id t) db of
        Some i \<Rightarrow> (None, db)
      | None \<Rightarrow> (Some (db_next db),
          db\<lparr>db_setups := map (\<lambda>r. if row_id r = pt_setup_id t then r\<lparr>row_status := EXECUTED\<rparr> else r) (db_setups db),
             db_trades := db_trades db @ [\<lparr>tw_id = db_next db, tw_trade = t, tw_closed = None\<rparr>],
             db_next := db_next db + 1\<rparr>))"

definition unique_violation :: "db_error \<Rightarrow> bool" where
  "unique_violation e \<longleftrightarrow> fst e = Some ''23505'' \<or> str_contains ''duplicate key'' (str_lower (snd e))"

definition save_paper_trade ::
  "(nat \<Rightarrow> tx_answer) \<Rightarrow> (nat \<Rightarrow> recovery) \<Rightarrow> paper_trade \<Rightarrow> paper_store \<Rightarrow> (db_error + int option) \<times> paper_store" where
  "save_paper_trade txs rcv t db =
     (case with_retry (transact (do_save_trade t) txs) rcv db of
        (Inl e, db') \<Rightarrow> (if unique_violation e then Inr None else Inl e, db')
      | (Inr r, db') \<Rightarrow> (Inr r, db'))"

definition do_close_trade :: "int \<Rightarrow> closed_row \<Rightarrow> paper_store \<Rightarrow> unit \<times> paper_store" where
  "do_close_trade i cl db =
     ((), db\<lparr>db_trades := map (\<lambda>w. if tw_id w = i then w\<lparr>tw_closed := Some cl\<rparr> else w) (db_trades db)\<rparr>)"

definition close_paper_trade ::
  "(nat \<Rightarrow> tx_answer) \<Rightarrow> (nat \<Rightarrow> recovery) \<Rightarrow> int option \<Rightarrow> closed_row \<Rightarrow> paper_store \<Rightarrow> (db_error + unit) \<times> paper_store" where
  "close_paper_trade txs rcv tid cl db =
     (if cl_reason cl \<notin> set PAPER_TRADE_EXIT_REASONS then (Inl (None, ''Unsupported paper trade exit reason''), db)
      else case tid of
        None \<Rightarrow> (Inr (), db)
      | Some i \<Rightarrow> with_retry (transact (do_close_trade i cl) txs) rcv db)"

definition do_save_funding :: "int \<Rightarrow> rat \<Rightarrow> int \<Rightarrow> paper_store \<Rightarrow> unit \<times> paper_store" where
  "do_save_funding i paid periods db =
     ((), db\<lparr>db_trades := map (\<lambda>w. if tw_id w = i \<and> tw_closed w = None
        then w\<lparr>tw_trade := (tw_trade w)\<lparr>pt_funding_paid := paid, pt_funding_periods := periods\<rparr>\<rparr> else w) (db_trades db)\<rparr>)"

definition update_paper_trade_funding ::
  "tx_answer \<Rightarrow> int option \<Rightarrow> rat \<Rightarrow> int \<Rightarrow> paper_store \<Rightarrow> (db_error + unit) \<times> paper_store" where
  "update_paper_trade_funding tx tid paid periods db =
     (case tid of
        None \<Rightarrow> (Inr (), db)
      | Some i \<Rightarrow> (case transact (do_save_funding i paid periods) (\<lambda>n. tx) 1 db of
          (Returned x, db') \<Rightarrow> (Inr x, db') | (Threw e, db') \<Rightarrow> (Inl e, db')))"

text \<open>The open trades for a restart, the last one entered first.\<close>

definition get_open_paper_trades :: "paper_store \<Rightarrow> trade_row list" where
  "get_open_paper_trades db =
     sort_key (\<lambda>w. - pt_entered_at (tw_trade w)) (filter (\<lambda>w. tw_closed w = None) (db_trades db))"

section \<open>Both processes on the tables\<close>

datatype store_event =
    SetupSaved tx_answer "int option" setup_candidate
  | SetupsExpired "nat \<Rightarrow> tx_answer" "nat \<Rightarrow> recovery" int
  | StaleExpired "nat \<Rightarrow> tx_answer" "nat \<Rightarrow> recovery" int int
  | StatusSet string setup_state "string option"
  | TradeSaved "nat \<Rightarrow> tx_answer" "nat \<Rightarrow> recovery" paper_trade
  | TradeClosed "nat \<Rightarrow> tx_answer" "nat \<Rightarrow> recovery" "int option" closed_row
  | FundingSaved tx_answer "int option" rat int

text \<open>A function on the setups, as an operation on the tables.\<close>

definition on_setups :: "(setup_row list \<Rightarrow> 'a \<times> setup_row list) \<Rightarrow> paper_store \<Rightarrow> 'a \<times> paper_store" where
  "on_setups f db = (case f (db_setups db) of (x, rows) \<Rightarrow> (x, db\<lparr>db_setups := rows\<rparr>))"

definition expire_setups :: "(nat \<Rightarrow> tx_answer) \<Rightarrow> (nat \<Rightarrow> recovery) \<Rightarrow> int \<Rightarrow> paper_store \<Rightarrow> (db_error + nat) \<times> paper_store" where
  "expire_setups txs rcv now = with_retry (transact (on_setups (expire_rows now)) txs) rcv"

definition expire_stale_setups ::
  "(nat \<Rightarrow> tx_answer) \<Rightarrow> (nat \<Rightarrow> recovery) \<Rightarrow> int \<Rightarrow> int \<Rightarrow> paper_store \<Rightarrow> (db_error + nat) \<times> paper_store" where
  "expire_stale_setups txs rcv now age = with_retry (transact (on_setups (expire_stale_rows now age)) txs) rcv"

fun store_step :: "paper_store \<Rightarrow> store_event \<Rightarrow> paper_store" where
  "store_step db (SetupSaved tx run c) = snd (on_setups (save_setup tx run c) db)"
| "store_step db (SetupsExpired txs rcv now) = snd (expire_setups txs rcv now db)"
| "store_step db (StaleExpired txs rcv now age) = snd (expire_stale_setups txs rcv now age db)"
| "store_step db (StatusSet i st reason) = db\<lparr>db_setups := update_status i st reason (db_setups db)\<rparr>"
| "store_step db (TradeSaved txs rcv t) = snd (save_paper_trade txs rcv t db)"
| "store_step db (TradeClosed txs rcv tid cl) = snd (close_paper_trade txs rcv tid cl db)"
| "store_step db (FundingSaved tx tid paid periods) = snd (update_paper_trade_funding tx tid paid periods db)"

definition empty_store :: paper_store where
  "empty_store = \<lparr>db_setups = [], db_trades = [], db_next = 1\<rparr>"

lemma load_ready_answer: "ready_answer dbnow rows (load_ready_setups dbnow rows)"
proof -
  let ?rows = "sort_key (\<lambda>r. - sc_score (row_setup r)) (filter (offered dbnow) rows)"
  have "sorted_wrt (\<lambda>a b. - sc_score (row_setup a) \<le> - sc_score (row_setup b)) ?rows"
    using sorted_sort_key [of "\<lambda>r. - sc_score (row_setup r)" "filter (offered dbnow) rows"] by (simp add: sorted_wrt_map)
  then show ?thesis
    by (simp add: ready_answer_def load_ready_setups_def sorted_wrt_map ready_row_of_def Let_def mset_map [symmetric] del: mset_map mset_filter)
      (simp add: mset_map)
qed

lemma ready_answer_set: "ready_answer dbnow rows ans \<Longrightarrow> set ans = ready_row_of ` {r \<in> set rows. offered dbnow r}"
  by (metis ready_answer_def set_mset_mset image_set set_filter)

section \<open>What a transaction with retries can do\<close>

lemma transact_keeps: "I db \<Longrightarrow> (\<And>d. I d \<Longrightarrow> I (snd (f d))) \<Longrightarrow> I (snd (transact f txs n db))"
  by (auto simp: transact_def split: tx_answer.split prod.split) (metis snd_conv)+

lemma retry_loop_keeps:
  assumes "\<And>n d. I d \<Longrightarrow> I (snd (act n d))" "I db"
  shows "I (snd (retry_loop act rcv n k e db))"
  using assms(2)
proof (induction k arbitrary: n e db)
  case (Suc k)
  obtain r db' where r: "act n db = (r, db')" by (metis surj_pair)
  have "I db'" using assms(1) [OF Suc.prems, of n] by (simp add: r)
  then show ?case using Suc.IH by (cases r) (auto simp: r)
qed simp

lemma with_retry_keeps: "I db \<Longrightarrow> (\<And>d. I d \<Longrightarrow> I (snd (f d))) \<Longrightarrow> I (snd (with_retry (transact f txs) rcv db))"
  unfolding with_retry_def by (rule retry_loop_keeps) (rule transact_keeps)

section \<open>The identity of setups\<close>

definition ident :: "setup_row \<Rightarrow> string \<times> string \<times> string \<times> string \<times> string \<times> int" where
  "ident r = (row_id r, row_key r)"

definition has_candle :: "setup_row \<Rightarrow> bool" where
  "has_candle r \<longleftrightarrow> sc_candle (row_setup r) > 0"

definition rows_ok :: "setup_row list \<Rightarrow> bool" where
  "rows_ok rows \<longleftrightarrow> distinct (map row_id rows) \<and> distinct (map row_key (filter has_candle rows))"

lemma refreshed_ident [simp]: "row_key r = signal_key c \<Longrightarrow> row_id (refreshed run c r) = row_id r \<and> row_key (refreshed run c r) = row_key r"
  by (simp add: refreshed_def row_key_def row_id_def signal_key_def)

lemma has_candle_key: "has_candle r \<longleftrightarrow> snd (snd (snd (snd (row_key r)))) > 0"
  by (simp add: has_candle_def row_key_def signal_key_def)

lemma same_idents:
  assumes "map ident rows' = map ident rows"
  shows "map row_id rows' = map row_id rows" "map row_key (filter has_candle rows') = map row_key (filter has_candle rows)"
    "rows_ok rows' \<longleftrightarrow> rows_ok rows"
proof -
  show ids: "map row_id rows' = map row_id rows"
    using arg_cong [OF assms, of "map fst"] by (simp add: ident_def comp_def)
  have "map row_key (filter has_candle xs) = filter (\<lambda>k. snd (snd (snd (snd k))) > 0) (map (snd \<circ> ident) xs)" for xs
    by (induction xs) (simp_all add: ident_def has_candle_key)
  from this [of rows'] this [of rows] show keys: "map row_key (filter has_candle rows') = map row_key (filter has_candle rows)"
    by (simp only: map_map [symmetric] assms)
  show "rows_ok rows' \<longleftrightarrow> rows_ok rows" unfolding rows_ok_def ids keys ..
qed

text \<open>What every operation does to the identities: it keeps them, or appends a fresh one.\<close>

definition extends :: "setup_row list \<Rightarrow> setup_row list \<Rightarrow> bool" where
  "extends rows rows' \<longleftrightarrow> prefix (map ident rows) (map ident rows') \<and> (rows_ok rows \<longrightarrow> rows_ok rows')"

lemma extends_same: "map ident rows' = map ident rows \<Longrightarrow> extends rows rows'"
proof -
  assume a: "map ident rows' = map ident rows"
  have "prefix (map ident rows) (map ident rows')" unfolding a by simp
  then show ?thesis using same_idents(3) [OF a] unfolding extends_def by blast
qed

lemma extends_trans: "extends a b \<Longrightarrow> extends b c \<Longrightarrow> extends a c"
  by (auto simp: extends_def)

lemma upsert_extends: "extends rows (snd (upsert_setup run c rows))"
proof -
  let ?r = "\<lparr>row_setup = c, row_run = run, row_status = stored_status c, row_reason = None\<rparr>"
  have upd: "map ident (map (\<lambda>r. if row_key r = signal_key c then refreshed run c r else r) rows) = map ident rows"
    by (simp add: ident_def)
  have new: "extends rows (rows @ [?r])"
    if "\<not> (sc_candle c > 0 \<and> list_ex (\<lambda>r. row_key r = signal_key c) rows)" "\<not> list_ex (\<lambda>r. row_id r = sc_id c) rows"
  proof -
    have k: "row_key ?r = signal_key c" "row_id ?r = sc_id c" "has_candle ?r \<longleftrightarrow> sc_candle c > 0"
      by (simp_all add: row_key_def row_id_def has_candle_def)
    have "rows_ok rows \<Longrightarrow> rows_ok (rows @ [?r])"
      unfolding rows_ok_def using that k by (auto simp: list_ex_iff)
    then show ?thesis by (simp add: extends_def)
  qed
  show ?thesis using new extends_same [OF upd] extends_same [OF refl, of rows] by (simp add: upsert_setup_def)
qed

lemma save_setup_extends: "extends rows (snd (save_setup tx run c rows))"
  using upsert_extends [of rows run c] extends_same [OF refl, of rows] by (auto simp: save_setup_def split: tx_answer.split)

lemma status_extends: "(\<And>r. row_setup (f r) = row_setup r) \<Longrightarrow> extends rows (map f rows)"
  by (rule extends_same) (simp add: ident_def row_id_def row_key_def)

section \<open>The invariant of the tables\<close>

definition store_ok :: "paper_store \<Rightarrow> bool" where
  "store_ok db \<longleftrightarrow> rows_ok (db_setups db) \<and> distinct (map tw_setup (db_trades db)) \<and>
     distinct (map tw_id (db_trades db)) \<and> list_all (\<lambda>w. tw_id w < db_next db) (db_trades db)"

text \<open>The step from one state of the tables to a later one.\<close>

definition later :: "paper_store \<Rightarrow> paper_store \<Rightarrow> bool" where
  "later db db' \<longleftrightarrow> extends (db_setups db) (db_setups db') \<and>
     prefix (map tw_setup (db_trades db)) (map tw_setup (db_trades db')) \<and> (store_ok db \<longrightarrow> store_ok db')"

lemma later_trans: "later a b \<Longrightarrow> later b c \<Longrightarrow> later a c"
  by (auto simp: later_def intro: extends_trans)

lemma later_refl [simp]: "later db db"
  by (simp add: later_def extends_same)

lemma later_setups: "extends (db_setups db) rows \<Longrightarrow> later db (db\<lparr>db_setups := rows\<rparr>)"
  by (auto simp: later_def store_ok_def extends_def)

lemma later_trades:
  assumes "\<And>w. tw_setup (f w) = tw_setup w" "\<And>w. tw_id (f w) = tw_id w"
  shows "later db (db\<lparr>db_trades := map f (db_trades db)\<rparr>)"
proof -
  have "tw_setup \<circ> f = tw_setup" "tw_id \<circ> f = tw_id" using assms by (simp_all add: fun_eq_iff)
  then show ?thesis by (simp add: later_def store_ok_def extends_same list_all_iff assms)
qed

lemma on_setups_later: "(\<And>rows. extends rows (snd (f rows))) \<Longrightarrow> later db (snd (on_setups f db))"
  by (simp add: on_setups_def later_setups split: prod.split) (metis later_setups snd_conv)

lemma with_retry_later: "(\<And>d. later d (snd (f d))) \<Longrightarrow> later db (snd (with_retry (transact f txs) rcv db))"
  by (rule with_retry_keeps [where I = "later db"]) (auto intro: later_trans)

lemma no_trade_yet: "get_paper_trade_by_setup i db = None \<longleftrightarrow> i \<notin> set (map tw_setup (db_trades db))"
  by (auto simp: get_paper_trade_by_setup_def find_None_iff)

lemma do_save_trade_later: "later db (snd (do_save_trade t db))"
proof (cases "get_paper_trade_by_setup (pt_setup_id t) db")
  case None
  let ?rows = "map (\<lambda>r. if row_id r = pt_setup_id t then r\<lparr>row_status := EXECUTED\<rparr> else r) (db_setups db)"
  have "extends (db_setups db) ?rows" by (rule status_extends) simp
  moreover have "pt_setup_id t \<notin> set (map tw_setup (db_trades db))" using None unfolding no_trade_yet .
  ultimately show ?thesis using None
    by (auto simp: do_save_trade_def later_def store_ok_def extends_def tw_setup_def list_all_iff)
qed (simp add: do_save_trade_def)

lemma store_step_later: "later db (store_step db e)"
proof (cases e)
  case (SetupSaved tx run c)
  then show ?thesis by (simp add: on_setups_later save_setup_extends)
next
  case (SetupsExpired txs rcv now)
  have "extends rows (snd (expire_rows now rows))" for rows by (simp add: expire_rows_def status_extends)
  then show ?thesis by (simp add: SetupsExpired expire_setups_def with_retry_later on_setups_later)
next
  case (StaleExpired txs rcv now age)
  have "extends rows (snd (expire_stale_rows now age rows))" for rows by (simp add: expire_stale_rows_def status_extends)
  then show ?thesis by (simp add: StaleExpired expire_stale_setups_def with_retry_later on_setups_later)
next
  case (StatusSet i st reason)
  then show ?thesis by (simp add: later_setups update_status_def status_extends)
next
  case (TradeSaved txs rcv t)
  have "later db (snd (with_retry (transact (do_save_trade t) txs) rcv db))" by (rule with_retry_later) (rule do_save_trade_later)
  then show ?thesis by (auto simp: TradeSaved save_paper_trade_def split: prod.split sum.split)
next
  case (TradeClosed txs rcv tid cl)
  have "later d (snd (do_close_trade i cl d))" for d i by (simp add: do_close_trade_def later_trades tw_setup_def)
  then show ?thesis by (auto simp: TradeClosed close_paper_trade_def with_retry_later split: option.split)
next
  case (FundingSaved tx tid paid periods)
  have l: "later d (snd (do_save_funding i paid periods d))" for d i by (simp add: do_save_funding_def later_trades tw_setup_def)
  show ?thesis
  proof (cases tid)
    case (Some i)
    have "later db (snd (transact (do_save_funding i paid periods) (\<lambda>n. tx) 1 db))"
      using transact_keeps [where I = "later db", OF later_refl later_trans [OF _ l]] .
    then show ?thesis by (auto simp: FundingSaved Some update_paper_trade_funding_def split: prod.split tried.split)
  qed (simp add: FundingSaved update_paper_trade_funding_def)
qed

lemma store_run_later: "later db (foldl store_step db es)"
proof (induction es arbitrary: db)
  case (Cons e es)
  show ?case using later_trans [OF store_step_later Cons.IH] by simp
qed simp

interpretation tables: event_system store_step store_ok
proof unfold_locales
  show "store_ok (store_step db e)" if "store_ok db" for db e
    using store_step_later [of db e] that unfolding later_def by blast
qed

lemma empty_store_ok: "store_ok empty_store"
  by (simp add: store_ok_def empty_store_def rows_ok_def)

section \<open>One trade per signal\<close>

text \<open>The signal of a trade: the identity of the setup with the trade's identifier.\<close>

definition traded_key :: "setup_row list \<Rightarrow> trade_row \<Rightarrow> (string \<times> string \<times> string \<times> string \<times> int) option" where
  "traded_key rows w = map_option row_key (find (\<lambda>r. row_id r = tw_setup w \<and> has_candle r) rows)"

definition traded_keys :: "paper_store \<Rightarrow> (string \<times> string \<times> string \<times> string \<times> int) list" where
  "traded_keys db = List.map_filter (traded_key (db_setups db)) (db_trades db)"

lemma key_determines_id:
  assumes "rows_ok rows" "r1 \<in> set rows" "r2 \<in> set rows" "has_candle r1" "has_candle r2" "row_key r1 = row_key r2"
  shows "row_id r1 = row_id r2"
proof -
  have "inj_on row_key (set (filter has_candle rows))" using assms(1) by (simp add: rows_ok_def distinct_map)
  then have "r1 = r2" using assms by (auto dest: inj_onD)
  then show ?thesis by simp
qed

lemma traded_key_Some: "traded_key rows w = Some k \<Longrightarrow> \<exists>r\<in>set rows. row_id r = tw_setup w \<and> has_candle r \<and> row_key r = k"
  by (auto simp: traded_key_def find_Some_iff)

lemma traded_distinct:
  assumes "rows_ok rows" "distinct (map tw_setup ws)"
  shows "distinct (List.map_filter (traded_key rows) ws)"
  using assms(2)
proof (induction ws)
  case (Cons w ws)
  show ?case
  proof (cases "traded_key rows w")
    case (Some k)
    have "k \<notin> set (List.map_filter (traded_key rows) ws)"
    proof
      assume "k \<in> set (List.map_filter (traded_key rows) ws)"
      then obtain v where v: "v \<in> set ws" "traded_key rows v = Some k" by (auto simp: List.map_filter_def)
      have "tw_setup v = tw_setup w"
        using traded_key_Some [OF v(2)] traded_key_Some [OF Some] key_determines_id [OF assms(1)] by metis
      then show False using Cons.prems v(1) by (simp add: image_iff) (metis)
    qed
    then show ?thesis using Cons Some by (simp add: map_filter_simps)
  qed (use Cons in \<open>simp add: map_filter_simps\<close>)
qed (simp add: map_filter_simps)

text \<open>C37. Whatever scanner and paper process do to the tables, in any order and with any failures, retries and
  lost answers of the database: a setup keeps its identifier and its signal (symbol, scanner, direction,
  time frame and candle) for ever, and no signal is ever traded twice, also when its setup is saved again
  after it was executed.\<close>

theorem one_trade_per_signal:
  "case foldl store_step empty_store es of db \<Rightarrow>
     distinct (traded_keys db) \<and> prefix (map ident (db_setups db)) (map ident (db_setups (foldl store_step db es')))"
proof -
  have "store_ok (foldl store_step empty_store es)" using tables.run_inv [OF empty_store_ok] .
  then show ?thesis using store_run_later
    by (auto simp: store_ok_def traded_keys_def traded_distinct later_def extends_def)
qed

text \<open>A setup that is saved again is ready again, whatever became of it: the status of an executed or
  expired row is overwritten and its reason stays.\<close>

lemma saved_again_is_ready:
  assumes "r \<in> set rows" "row_key r = signal_key c" "0 < sc_candle c" "storable c" "sc_state c = SETUP_READY"
  shows "\<exists>r'\<in>set (snd (save_setup TxOk run c rows)). row_id r' = row_id r \<and> row_status r' = READY_TO_TRADE \<and> row_reason r' = row_reason r"
proof -
  have "list_ex (\<lambda>r. row_key r = signal_key c) rows" using assms(1,2) by (auto simp: list_ex_iff)
  then have "refreshed run c r \<in> set (snd (save_setup TxOk run c rows))"
    using assms by (auto simp: save_setup_def upsert_setup_def)
  then show ?thesis using assms(2,5) by (intro bexI) (auto simp: refreshed_def stored_status_def row_id_def)
qed

text \<open>The file backend never offers what the scanners save: their state is not among the active ones.\<close>

lemma file_setups_inactive:
  assumes "list_all (\<lambda>c. sc_state c = SETUP_READY) cs"
  shows "get_active_jsonl symbol (foldl (\<lambda>recs c. save_jsonl c recs) [] cs) = []"
proof -
  have keep: "list_all (\<lambda>r. fr_status r = SETUP_READY) (save_jsonl c recs)"
    if "list_all (\<lambda>r. fr_status r = SETUP_READY) recs" "sc_state c = SETUP_READY" for c recs
  proof -
    have "set (tl (dropWhile P recs)) \<subseteq> set recs" for P
      by (metis list.set_sel(2) set_dropWhileD subsetI tl_Nil)
    then show ?thesis using that by (force simp: save_jsonl_def Let_def list_all_iff dest!: set_takeWhileD)
  qed
  have "list_all (\<lambda>r. fr_status r = SETUP_READY) (foldl (\<lambda>recs c. save_jsonl c recs) recs cs)"
    if "list_all (\<lambda>r. fr_status r = SETUP_READY) recs" for recs
    using assms that by (induction cs arbitrary: recs) (simp_all add: keep)
  from this [of "[]"] show ?thesis
    by (auto simp: get_active_jsonl_def ACTIVE_STATUSES_def list_all_iff filter_empty_conv)
qed

end
