(* ===== verification/CycleReport.thy ===== *)
theory CycleReport
  imports Json "HOL-Library.Sublist"
begin

text \<open>
  The completion report of a scanner cycle
  (\<^verbatim>\<open>src/app/scanners/cycle_completion_v1.py\<close>): what a rate-limit message proves, the
  classification of one failure, and the report with its counters, its status and its stored document.
  The copy of the message in a report and the log lines are left out.
\<close>

section \<open>Rate-limit messages\<close>

text \<open>\<^verbatim>\<open>re.search\<close>: the leftmost position at which \<open>f\<close> matches.\<close>

fun search :: "(string \<Rightarrow> 'a option) \<Rightarrow> string \<Rightarrow> 'a option" where
  "search f [] = f []"
| "search f (c # s) = (case f (c # s) of Some x \<Rightarrow> Some x | None \<Rightarrow> search f s)"

definition after :: "string \<Rightarrow> string \<Rightarrow> string option" where
  "after p s = (if starts_with p s then Some (drop (length p) s) else None)"

definition is_upper :: "char \<Rightarrow> bool" where
  "is_upper c \<longleftrightarrow> of_char c \<in> {65 .. 90 :: nat} \<or> c = CHR ''_''"

definition is_ascii_digit :: "char \<Rightarrow> bool" where
  "is_ascii_digit c \<longleftrightarrow> of_char c \<in> {48 .. 57 :: nat}"

definition is_space :: "char \<Rightarrow> bool" where
  "is_space c \<longleftrightarrow> of_char c \<in> {9, 10, 11, 12, 13, 28, 29, 30, 31, 32, 133, 160 :: nat}"

text \<open>A non-empty run without a closing bracket, followed by one.\<close>

definition up_to_bracket :: "string \<Rightarrow> string option" where
  "up_to_bracket s =
     (let r = takeWhile (\<lambda>c. c \<noteq> CHR '')'') s in
      if r = [] \<or> dropWhile (\<lambda>c. c \<noteq> CHR '')'') s = [] then None else Some r)"

definition DEFERRED :: string where
  "DEFERRED = ''deferred by shared rate limiter ''"

definition match_deferred :: "string \<Rightarrow> (string \<times> string option) option" where
  "match_deferred s =
     (case after (DEFERRED @ ''('') s of
        None \<Rightarrow> None
      | Some t \<Rightarrow>
          let res = takeWhile is_upper t; rest = dropWhile is_upper t in
          if res = [] then None
          else if starts_with '')'' rest then Some (res, None)
          else case after '': '' rest of
            None \<Rightarrow> None
          | Some u \<Rightarrow> map_option (\<lambda>reason. (res, Some reason)) (up_to_bracket u))"

text \<open>A number with an optional fraction.\<close>

definition match_number :: "string \<Rightarrow> (string \<times> string) option" where
  "match_number s =
     (let whole = takeWhile is_ascii_digit s; rest = dropWhile is_ascii_digit s;
          frac = (case rest of [] \<Rightarrow> [] | c # u \<Rightarrow> if c = CHR ''.'' then takeWhile is_ascii_digit u else [])
      in if whole = [] then None
         else if frac = [] then Some (whole, rest)
         else Some (whole @ ''.'' @ frac, drop (1 + length frac) rest))"

definition match_cooldown :: "string \<Rightarrow> string option" where
  "match_cooldown s =
     (case after ''rate-limit cooldown open ('' s of
        None \<Rightarrow> None
      | Some t \<Rightarrow> (case match_number t of
          None \<Rightarrow> None
        | Some (num, rest) \<Rightarrow> if starts_with ''s remaining)'' rest then Some num else None))"

definition match_rate_limited :: "string \<Rightarrow> string option" where
  "match_rate_limited s =
     (case after ''Rate limited on '' s of
        None \<Rightarrow> None
      | Some t \<Rightarrow>
          let word = takeWhile (\<lambda>c. \<not> is_space c) t; rest = dropWhile (\<lambda>c. \<not> is_space c) t in
          if word = [] then None
          else case after '' after '' rest of
            None \<Rightarrow> None
          | Some u \<Rightarrow>
              let count = takeWhile is_ascii_digit u; rest = dropWhile is_ascii_digit u in
              if count = [] then None
              else case after '' attempt(s) ('' rest of None \<Rightarrow> None | Some v \<Rightarrow> up_to_bracket v)"

datatype request_state = RATE_LIMIT_RESPONSE | LIMITER_PRE_SEND_SKIP | STATE_UNKNOWN

definition TELEMETRY_RATE_LIMIT :: string where
  "TELEMETRY_RATE_LIMIT = ''RATE_LIMIT''"

definition TELEMETRY_LIMITER_SKIP :: string where
  "TELEMETRY_LIMITER_SKIP = ''BYBIT_API_SKIP''"

definition parse_rate_limit_denial :: "string \<Rightarrow> string \<times> string option \<times> request_state" where
  "parse_rate_limit_denial message =
     (case search match_deferred message of
        Some (res, reason) \<Rightarrow> (res, reason, LIMITER_PRE_SEND_SKIP)
      | None \<Rightarrow>
     (case search match_cooldown message of
        Some left \<Rightarrow> (TELEMETRY_RATE_LIMIT, Some (''process_local_cooldown:'' @ left @ ''s''), STATE_UNKNOWN)
      | None \<Rightarrow>
          if str_contains ''limiter grant revoked before send'' message then (''REVOKED'', Some ''grant_revoked'', LIMITER_PRE_SEND_SKIP)
          else if str_contains ''shared rate limiter unavailable'' message
          then (''LIMITER_UNAVAILABLE'', Some ''limiter_state'', LIMITER_PRE_SEND_SKIP)
          else (case search match_rate_limited message of
              Some reason \<Rightarrow> (TELEMETRY_RATE_LIMIT, Some reason, RATE_LIMIT_RESPONSE)
            | None \<Rightarrow> (TELEMETRY_RATE_LIMIT, None, STATE_UNKNOWN))))"

section \<open>One failure\<close>

text \<open>An exception: whether it is a rate-limit error of the client, its message, and the attributes the
  client attached.\<close>

record client_error =
  xe_rate_limit :: bool
  xe_message :: string
  xe_result :: "string option"
  xe_reason :: "string option"
  xe_queue_wait :: "int option"
  xe_telemetry :: "string option"
  xe_ret_code :: "int option"

definition plain_error :: "string \<Rightarrow> client_error" where
  "plain_error m = \<lparr>xe_rate_limit = False, xe_message = m, xe_result = None, xe_reason = None, xe_queue_wait = None,
     xe_telemetry = None, xe_ret_code = None\<rparr>"

datatype stage = STAGE_MARKET_DATA | STAGE_SCAN | STAGE_ME_CAPTURE

datatype category = CATEGORY_FAILED | CATEGORY_SKIPPED

datatype error_class = MARKET_DATA_ERROR | RATE_LIMIT_SKIP | SCAN_ERROR | ME_CAPTURE_ERROR

record symbol_outcome =
  ou_symbol :: string
  ou_stage :: stage
  ou_category :: category
  ou_error :: error_class
  ou_rate_limit :: bool
  ou_result :: "string option"
  ou_reason :: "string option"
  ou_telemetry :: "string option"
  ou_state :: "request_state option"
  ou_queue_wait :: "int option"
  ou_ret_code :: "int option"

definition PRE_SEND_RESULTS :: "string list" where
  "PRE_SEND_RESULTS = [''BREAKER_OPEN'', ''SKIPPED'', ''REVOKED'', ''LIMITER_UNAVAILABLE'', ''STATE_UNAVAILABLE'']"

text \<open>\<^verbatim>\<open>a or b\<close> on optional texts.\<close>

definition or_text :: "string option \<Rightarrow> string option \<Rightarrow> string option" where
  "or_text a b = (case a of None \<Rightarrow> b | Some s \<Rightarrow> if s = [] then b else a)"

definition structured :: "client_error \<Rightarrow> bool" where
  "structured e \<longleftrightarrow> xe_result e \<noteq> None \<or> xe_reason e \<noteq> None \<or> xe_queue_wait e \<noteq> None \<or> xe_telemetry e \<noteq> None \<or> xe_ret_code e \<noteq> None"

text \<open>Result, reason and what is known of the request, for a rate-limit error.\<close>

definition limiter_context :: "client_error \<Rightarrow> string \<times> string option \<times> request_state" where
  "limiter_context e =
     (let parse = xe_result e = None \<or> xe_reason e = None; p = parse_rate_limit_denial (xe_message e);
          res = (if parse then or_text (xe_result e) (Some (fst p)) else xe_result e);
          reason = (if parse then or_text (xe_reason e) (fst (snd p)) else xe_reason e);
          res1 = (case res of None \<Rightarrow> TELEMETRY_RATE_LIMIT | Some r \<Rightarrow> r)
      in (res1, reason,
          if xe_telemetry e = Some TELEMETRY_RATE_LIMIT then RATE_LIMIT_RESPONSE
          else if xe_telemetry e = Some TELEMETRY_LIMITER_SKIP then LIMITER_PRE_SEND_SKIP
          else if structured e then
            (if res1 \<in> set PRE_SEND_RESULTS then LIMITER_PRE_SEND_SKIP
             else if res1 = TELEMETRY_RATE_LIMIT then RATE_LIMIT_RESPONSE else STATE_UNKNOWN)
          else snd (snd p)))"

definition derived_telemetry :: "string option \<Rightarrow> request_state \<Rightarrow> string option" where
  "derived_telemetry t st =
     (case t of
        Some x \<Rightarrow> Some x
      | None \<Rightarrow> (case st of LIMITER_PRE_SEND_SKIP \<Rightarrow> Some TELEMETRY_LIMITER_SKIP
          | RATE_LIMIT_RESPONSE \<Rightarrow> Some TELEMETRY_RATE_LIMIT | STATE_UNKNOWN \<Rightarrow> None))"

definition classify_symbol_failure :: "string \<Rightarrow> client_error \<Rightarrow> stage \<Rightarrow> symbol_outcome" where
  "classify_symbol_failure symbol e st =
     (let skipped = st \<noteq> STAGE_SCAN \<and> xe_rate_limit e;
          cl = (if st = STAGE_SCAN then SCAN_ERROR else if xe_rate_limit e then RATE_LIMIT_SKIP else MARKET_DATA_ERROR);
          base = \<lparr>ou_symbol = symbol, ou_stage = st, ou_category = (if skipped then CATEGORY_SKIPPED else CATEGORY_FAILED),
                  ou_error = cl, ou_rate_limit = xe_rate_limit e, ou_result = xe_result e, ou_reason = xe_reason e,
                  ou_telemetry = xe_telemetry e, ou_state = None, ou_queue_wait = xe_queue_wait e, ou_ret_code = xe_ret_code e\<rparr>
      in if \<not> xe_rate_limit e then base
         else case limiter_context e of (res, reason, known) \<Rightarrow>
           base\<lparr>ou_result := Some res, ou_reason := reason, ou_state := Some known,
                ou_telemetry := derived_telemetry (xe_telemetry e) known\<rparr>)"

definition classify_me_capture_failure :: "string \<Rightarrow> client_error \<Rightarrow> symbol_outcome" where
  "classify_me_capture_failure symbol e =
     \<lparr>ou_symbol = symbol, ou_stage = STAGE_ME_CAPTURE, ou_category = CATEGORY_FAILED, ou_error = ME_CAPTURE_ERROR,
      ou_rate_limit = False, ou_result = None, ou_reason = None, ou_telemetry = None, ou_state = None,
      ou_queue_wait = None, ou_ret_code = None\<rparr>"

section \<open>The report\<close>

record cycle_report =
  cy_expected :: nat
  cy_processed :: "string list"
  cy_failures :: "symbol_outcome list"
  cy_skips :: "symbol_outcome list"
  cy_scan_failures :: "symbol_outcome list"
  cy_capture_failures :: "symbol_outcome list"
  cy_persisted :: bool

definition new_report :: cycle_report where
  "new_report = \<lparr>cy_expected = 0, cy_processed = [], cy_failures = [], cy_skips = [], cy_scan_failures = [],
     cy_capture_failures = [], cy_persisted = False\<rparr>"

definition record_processed :: "string \<Rightarrow> cycle_report \<Rightarrow> cycle_report" where
  "record_processed symbol r = r\<lparr>cy_processed := cy_processed r @ [symbol]\<rparr>"

definition record_outcome :: "symbol_outcome \<Rightarrow> cycle_report \<Rightarrow> cycle_report" where
  "record_outcome u r =
     (if ou_stage u = STAGE_ME_CAPTURE then r\<lparr>cy_capture_failures := cy_capture_failures r @ [u]\<rparr>
      else if ou_stage u = STAGE_SCAN then r\<lparr>cy_scan_failures := cy_scan_failures r @ [u]\<rparr>
      else if ou_category u = CATEGORY_SKIPPED then r\<lparr>cy_skips := cy_skips r @ [u]\<rparr>
      else r\<lparr>cy_failures := cy_failures r @ [u]\<rparr>)"

definition outcomes :: "cycle_report \<Rightarrow> symbol_outcome list" where
  "outcomes r = cy_failures r @ cy_skips r @ cy_scan_failures r @ cy_capture_failures r"

definition failed_total :: "cycle_report \<Rightarrow> nat" where
  "failed_total r = length (cy_failures r) + length (cy_skips r) + length (cy_scan_failures r) + length (cy_capture_failures r)"

definition me_capture_error_symbols :: "cycle_report \<Rightarrow> string list" where
  "me_capture_error_symbols r = dkeys (foldl (\<lambda>d u. dput (ou_symbol u) () d) [] (cy_capture_failures r))"

definition state_symbols :: "request_state \<Rightarrow> cycle_report \<Rightarrow> string list" where
  "state_symbols st r = map ou_symbol (filter (\<lambda>u. ou_state u = Some st) (outcomes r))"

datatype completion = COMPLETE | PARTIAL | FAILED

definition completion_status :: "cycle_report \<Rightarrow> completion" where
  "completion_status r =
     (if cy_failures r = [] \<and> cy_skips r = [] \<and> cy_scan_failures r = [] \<and> cy_capture_failures r = [] \<and>
         length (cy_processed r) = cy_expected r then COMPLETE
      else if cy_processed r = [] \<and> cy_expected r > 0 then FAILED
      else PARTIAL)"

definition is_complete :: "cycle_report \<Rightarrow> bool" where
  "is_complete r \<longleftrightarrow> completion_status r = COMPLETE"

definition run_status :: "cycle_report \<Rightarrow> string" where
  "run_status r = (if completion_status r = COMPLETE then ''COMPLETED'' else ''PARTIAL'')"

section \<open>The stored document\<close>

fun stage_name :: "stage \<Rightarrow> string" where
  "stage_name STAGE_MARKET_DATA = ''MARKET_DATA''"
| "stage_name STAGE_SCAN = ''SCAN''"
| "stage_name STAGE_ME_CAPTURE = ''ME_CAPTURE''"

fun category_name :: "category \<Rightarrow> string" where
  "category_name CATEGORY_FAILED = ''FAILED''"
| "category_name CATEGORY_SKIPPED = ''SKIPPED''"

fun error_name :: "error_class \<Rightarrow> string" where
  "error_name MARKET_DATA_ERROR = ''MARKET_DATA_ERROR''"
| "error_name RATE_LIMIT_SKIP = ''RATE_LIMIT_SKIP''"
| "error_name SCAN_ERROR = ''SCAN_ERROR''"
| "error_name ME_CAPTURE_ERROR = ''ME_CAPTURE_ERROR''"

fun state_name :: "request_state \<Rightarrow> string" where
  "state_name RATE_LIMIT_RESPONSE = ''RATE_LIMIT_RESPONSE''"
| "state_name LIMITER_PRE_SEND_SKIP = ''LIMITER_PRE_SEND_SKIP''"
| "state_name STATE_UNKNOWN = ''UNKNOWN''"

fun completion_name :: "completion \<Rightarrow> string" where
  "completion_name COMPLETE = ''COMPLETE''"
| "completion_name PARTIAL = ''PARTIAL''"
| "completion_name FAILED = ''FAILED''"

definition opt_json :: "('a \<Rightarrow> json) \<Rightarrow> 'a option \<Rightarrow> json" where
  "opt_json f x = (case x of None \<Rightarrow> JNull | Some v \<Rightarrow> f v)"

definition outcome_payload :: "symbol_outcome \<Rightarrow> json" where
  "outcome_payload u = JObj
     [(''symbol'', JStr (ou_symbol u)), (''stage'', JStr (stage_name (ou_stage u))),
      (''category'', JStr (category_name (ou_category u))), (''error_type'', JStr (error_name (ou_error u))),
      (''rate_limit'', JBool (ou_rate_limit u)), (''result'', opt_json JStr (ou_result u)),
      (''reason'', opt_json JStr (ou_reason u)), (''telemetry_result'', opt_json JStr (ou_telemetry u)),
      (''request_state'', opt_json (\<lambda>x. JStr (state_name x)) (ou_state u)),
      (''queue_wait_ms'', opt_json JInt (ou_queue_wait u)), (''ret_code'', opt_json JInt (ou_ret_code u))]"

definition names_json :: "string list \<Rightarrow> json" where
  "names_json xs = JArr (map JStr xs)"

definition count_json :: "'a list \<Rightarrow> json" where
  "count_json xs = JInt (int (length xs))"

definition to_payload :: "cycle_report \<Rightarrow> bool \<Rightarrow> string option \<Rightarrow> json" where
  "to_payload r aborted status = JObj
     ([(''schema'', JStr ''SCANNER_CYCLE_COMPLETION_V1''),
       (''completion_status'', JStr (completion_name (completion_status r))),
       (''run_status'', JStr (case status of None \<Rightarrow> run_status r | Some x \<Rightarrow> x)),
       (''expected_symbols'', JInt (int (cy_expected r))), (''processed_symbols'', count_json (cy_processed r)),
       (''failed_count'', count_json (cy_failures r)), (''skipped_count'', count_json (cy_skips r)),
       (''scan_error_count'', count_json (cy_scan_failures r)), (''me_capture_error_count'', count_json (cy_capture_failures r)),
       (''failed_total'', JInt (int (failed_total r))),
       (''failed_symbols'', names_json (map ou_symbol (cy_failures r))),
       (''skipped_symbols'', names_json (map ou_symbol (cy_skips r))),
       (''scan_error_symbols'', names_json (map ou_symbol (cy_scan_failures r))),
       (''me_capture_error_symbols'', names_json (me_capture_error_symbols r)),
       (''unprocessed_symbols'', names_json (map ou_symbol (cy_failures r @ cy_skips r))),
       (''rate_limit_response_count'', count_json (state_symbols RATE_LIMIT_RESPONSE r)),
       (''limiter_pre_send_skip_count'', count_json (state_symbols LIMITER_PRE_SEND_SKIP r)),
       (''request_state_unknown_count'', count_json (state_symbols STATE_UNKNOWN r)),
       (''rate_limit_response_symbols'', names_json (state_symbols RATE_LIMIT_RESPONSE r)),
       (''limiter_pre_send_skip_symbols'', names_json (state_symbols LIMITER_PRE_SEND_SKIP r)),
       (''request_state_unknown_symbols'', names_json (state_symbols STATE_UNKNOWN r)),
       (''processed'', names_json (cy_processed r)), (''outcomes'', JArr (map outcome_payload (outcomes r)))] @
      (if aborted then [(''aborted'', JBool True)] else []))"

section \<open>What the parser recovers\<close>

lemma after_append [simp]: "after p (p @ s) = Some s"
  by (simp add: after_def starts_with_def)

lemma after_Some: "after p s = Some u \<Longrightarrow> s = p @ u"
  by (auto simp: after_def starts_with_def split: if_splits) (metis append_take_drop_id)

text \<open>A pattern that ends in the first opening bracket of the text is found where that bracket is.\<close>

lemma bracket_unique:
  assumes "CHR ''('' \<notin> set q" "CHR ''('' \<notin> set p" "p \<noteq> []"
  shows "after (q @ ''('') (p @ q @ ''('' @ t) = None"
proof (rule ccontr)
  assume "after (q @ ''('') (p @ q @ ''('' @ t) \<noteq> None"
  then obtain u where "p @ q @ ''('' @ t = (q @ ''('') @ u" using after_Some by blast
  then have "takeWhile (\<lambda>c. c \<noteq> CHR ''('') (p @ q @ CHR ''('' # t) = takeWhile (\<lambda>c. c \<noteq> CHR ''('') (q @ CHR ''('' # u)" by simp
  moreover have "takeWhile (\<lambda>c. c \<noteq> CHR ''('') (x @ CHR ''('' # v) = x" if "CHR ''('' \<notin> set x" for x v
    using that by (subst takeWhile_append2) auto
  from this [of "p @ q" t] this [of q u] have "takeWhile (\<lambda>c. c \<noteq> CHR ''('') (p @ q @ CHR ''('' # t) = p @ q"
    "takeWhile (\<lambda>c. c \<noteq> CHR ''('') (q @ CHR ''('' # u) = q" using assms by simp_all
  ultimately show False using assms(3) by simp
qed

lemma search_found:
  assumes "\<And>p'. p' \<noteq> [] \<Longrightarrow> suffix p' p \<Longrightarrow> f (p' @ s) = None" "f s = Some x"
  shows "search f (p @ s) = Some x"
  using assms(1)
proof (induction p)
  case Nil
  then show ?case using assms(2) by (cases s) simp_all
next
  case (Cons c p)
  have "search f (p @ s) = Some x" using Cons by (simp add: suffix_ConsI)
  moreover have "f (c # p @ s) = None" using Cons.prems [of "c # p"] by simp
  ultimately show ?case by simp
qed

lemma takeWhile_stop: "list_all P xs \<Longrightarrow> \<not> P c \<Longrightarrow> takeWhile P (xs @ c # s) = xs \<and> dropWhile P (xs @ c # s) = c # s"
  by (induction xs) simp_all

lemma match_deferred_at:
  assumes "takeWhile is_upper t = res" "dropWhile is_upper t = '': '' @ u" "res \<noteq> []" "up_to_bracket u = Some reason"
  shows "match_deferred (DEFERRED @ ''('' @ t) = Some (res, Some reason)"
proof -
  have "after (DEFERRED @ ''('') (DEFERRED @ ''('' @ t) = Some t" using after_append [of "DEFERRED @ ''(''" t] by simp
  moreover have "after '': '' ('': '' @ u) = Some u" by (rule after_append)
  moreover have "\<not> starts_with '')'' ('': '' @ u)" by (simp add: starts_with_def)
  ultimately show ?thesis using assms by (simp add: match_deferred_def Let_def)
qed

text \<open>What the client says about a refused request is read back unchanged: the result and the reason of a
  shared-limiter refusal with any prefix are recovered from its message, and the request counts as never
  sent.\<close>

theorem denial_read_back:
  assumes "CHR ''('' \<notin> set p" "res \<noteq> []" "list_all is_upper res" "reason \<noteq> []" "CHR '')'' \<notin> set reason"
  shows "parse_rate_limit_denial (p @ DEFERRED @ ''('' @ res @ '': '' @ reason @ '')'' @ rest) = (res, Some reason, LIMITER_PRE_SEND_SKIP)"
    (is "parse_rate_limit_denial (p @ DEFERRED @ ''('' @ ?t) = _")
proof -
  let ?u = "reason @ CHR '')'' # rest"
  have up: "takeWhile is_upper ?t = res" "dropWhile is_upper ?t = '': '' @ ?u"
    using takeWhile_stop [OF assms(3), of "CHR '':''" "'' '' @ ?u"] by (simp_all add: is_upper_def)
  have br: "up_to_bracket ?u = Some reason"
  proof -
    have "list_all (\<lambda>c. c \<noteq> CHR '')'') reason" using assms(5) by (auto simp: list_all_iff)
    from takeWhile_stop [OF this, of "CHR '')''" rest] show ?thesis using assms(4) by (simp add: up_to_bracket_def)
  qed
  have "match_deferred (DEFERRED @ ''('' @ ?t) = Some (res, Some reason)" by (rule match_deferred_at [OF up assms(2) br])
  moreover have "match_deferred (p' @ DEFERRED @ ''('' @ ?t) = None" if "p' \<noteq> []" "suffix p' p" for p'
  proof -
    have "CHR ''('' \<notin> set p'" using assms(1) set_mono_suffix [OF that(2)] by blast
    then show ?thesis using bracket_unique [of DEFERRED p' ?t] that(1) by (simp add: match_deferred_def DEFERRED_def)
  qed
  ultimately have "search match_deferred (p @ DEFERRED @ ''('' @ ?t) = Some (res, Some reason)"
    by (intro search_found)
  then show ?thesis by (simp add: parse_rate_limit_denial_def)
qed

theorem denial_read_back_witness:
  "parse_rate_limit_denial (''BTCUSDT: /v5/market/kline '' @ DEFERRED @ ''('' @ ''BREAKER_OPEN'' @ '': '' @ ''deadline'' @ '')'' @ '' not sent'') =
     (''BREAKER_OPEN'', Some ''deadline'', LIMITER_PRE_SEND_SKIP)"
  by (rule denial_read_back) (simp_all add: is_upper_def)

text \<open>A report counts each recorded failure once, whatever class it has.\<close>

lemma recorded_once: "failed_total (record_outcome u r) = failed_total r + 1"
  by (simp add: record_outcome_def failed_total_def)

lemma record_keeps [simp]:
  "cy_processed (record_outcome u r) = cy_processed r" "cy_expected (record_outcome u r) = cy_expected r"
  "cy_persisted (record_outcome u r) = cy_persisted r"
  by (simp_all add: record_outcome_def)

lemma complete_iff:
  "completion_status r = COMPLETE \<longleftrightarrow> failed_total r = 0 \<and> length (cy_processed r) = cy_expected r"
  by (auto simp: completion_status_def failed_total_def)

text \<open>A skipped or rate-limited request is never reported as sent unless the client or its message said so.\<close>

lemma sent_is_proven:
  assumes "ou_state (classify_symbol_failure symbol e st) = Some RATE_LIMIT_RESPONSE"
  shows "xe_telemetry e = Some TELEMETRY_RATE_LIMIT \<or> fst (limiter_context e) = TELEMETRY_RATE_LIMIT \<and>
    (structured e \<or> snd (snd (parse_rate_limit_denial (xe_message e))) = RATE_LIMIT_RESPONSE)"
proof -
  have known: "snd (snd (limiter_context e)) = RATE_LIMIT_RESPONSE"
    using assms by (auto simp: classify_symbol_failure_def Let_def split: if_splits prod.splits)
  have "fst (limiter_context e) = TELEMETRY_RATE_LIMIT"
    if "\<not> structured e" "snd (snd (parse_rate_limit_denial (xe_message e))) = RATE_LIMIT_RESPONSE"
    using that by (auto simp: limiter_context_def structured_def or_text_def Let_def parse_rate_limit_denial_def
      split: option.splits if_splits prod.splits)
  then show ?thesis using known by (auto simp: limiter_context_def Let_def split: if_splits)
qed

end
