(* ===== verification/ScanRunner.thy ===== *)
theory ScanRunner
  imports SetupStore CycleReport
begin

text \<open>
  The scanner process around the pipeline (\<^verbatim>\<open>src/scanner_runner.py\<close>): the choice of the configuration
  file, the startup that waits out temporary refusals of the rate limiter, one scan cycle over the
  universe with everything it stores, and one round of the main loop with its abort path. Contexts,
  scanner results, the order in which workers finish, the capture spool and the answers of the database
  are parameters. The research observers, which swallow every exception, and log lines are left out.
\<close>

section \<open>The configuration file\<close>

text \<open>What the operating system says about a path; \<open>None\<close> when looking at it raised.\<close>

record path_info =
  pi_exists :: bool
  pi_dir :: bool
  pi_readable :: bool

datatype config_source = SOURCE_DEFAULT | SOURCE_OVERRIDE

datatype config_error = EmptyOverride | RelativeOverride | MissingFile | IsDirectory | NotReadable | NotInspectable

definition strip_text :: "string \<Rightarrow> string" where
  "strip_text s = rev (dropWhile is_space (rev (dropWhile is_space s)))"

definition resolve_scanner_config_path ::
  "string \<Rightarrow> string option \<Rightarrow> (string \<Rightarrow> path_info option) \<Rightarrow> config_error + string \<times> config_source" where
  "resolve_scanner_config_path fallback raw look =
     (case raw of
        None \<Rightarrow> Inr (fallback, SOURCE_DEFAULT)
      | Some text \<Rightarrow>
          let value = strip_text text in
          if value = [] then Inl EmptyOverride
          else if \<not> starts_with ''/'' value then Inl RelativeOverride
          else case look value of
            None \<Rightarrow> Inl NotInspectable
          | Some q \<Rightarrow>
              if \<not> pi_exists q then Inl MissingFile
              else if pi_dir q then Inl IsDirectory
              else if \<not> pi_readable q then Inl NotReadable
              else Inr (value, SOURCE_OVERRIDE))"

section \<open>Startup\<close>

definition TEMPORARY_STARTUP_LIMITER_DENIAL_MARKERS :: "string list" where
  "TEMPORARY_STARTUP_LIMITER_DENIAL_MARKERS =
     [''deferred by shared rate limiter (BREAKER_OPEN'', ''deferred by shared rate limiter (SKIPPED'',
      ''limiter grant revoked before send'', ''Rate limited on '', ''request deferred: rate-limit cooldown open ('']"

definition is_temporary_startup_limiter_denial :: "client_error \<Rightarrow> bool" where
  "is_temporary_startup_limiter_denial e \<longleftrightarrow>
     xe_rate_limit e \<and> list_ex (\<lambda>m. str_contains m (xe_message e)) TEMPORARY_STARTUP_LIMITER_DENIAL_MARKERS"

definition STARTUP_RETRY_POLL_S :: rat where
  "STARTUP_RETRY_POLL_S = 1"

definition STARTUP_RETRY_MIN_INTERVAL_S :: rat where
  "STARTUP_RETRY_MIN_INTERVAL_S = 1 / 2"

text \<open>The wait polls the shutdown flag: \<open>stop k\<close> is its value at the \<open>k\<close>-th look. The fuel bounds the polls;
  the answer is whether to go on, and the number of looks.\<close>

fun wait_loop :: "nat \<Rightarrow> (nat \<Rightarrow> bool) \<Rightarrow> nat \<Rightarrow> rat \<Rightarrow> (bool \<times> nat) option" where
  "wait_loop 0 stop k remaining = None"
| "wait_loop (Suc fuel) stop k remaining =
     (if remaining > 0 then
        (if stop k then Some (False, k + 1)
         else wait_loop fuel stop (k + 1) (fsub remaining (min STARTUP_RETRY_POLL_S remaining)))
      else Some (\<not> stop k, k + 1))"

definition wait_before_startup_retry :: "(nat \<Rightarrow> bool) \<Rightarrow> nat \<Rightarrow> rat \<Rightarrow> (bool \<times> nat) option" where
  "wait_before_startup_retry stop k delay = wait_loop (nat \<lceil>delay\<rceil> + 1) stop k delay"

record startup_settings =
  sp_interval :: rat
  sp_max_interval :: rat
  sp_max_attempts :: int

definition startup_interval :: "startup_settings \<Rightarrow> rat" where
  "startup_interval sp = max STARTUP_RETRY_MIN_INTERVAL_S (sp_interval sp)"

definition startup_max_interval :: "startup_settings \<Rightarrow> rat" where
  "startup_max_interval sp = max (startup_interval sp) (sp_max_interval sp)"

definition startup_max_attempts :: "startup_settings \<Rightarrow> int" where
  "startup_max_attempts sp = max 0 (sp_max_attempts sp)"

text \<open>The universe of the \<open>n\<close>-th attempt, or what it raised. No result: out of fuel; the fuel bounds the attempts.\<close>

fun universe_loop ::
  "nat \<Rightarrow> startup_settings \<Rightarrow> (nat \<Rightarrow> client_error + 'u) \<Rightarrow> (nat \<Rightarrow> bool) \<Rightarrow> nat \<Rightarrow> nat \<Rightarrow> rat \<Rightarrow> (client_error + 'u option) option" where
  "universe_loop 0 sp answer stop n k delay = None"
| "universe_loop (Suc fuel) sp answer stop n k delay =
     (case answer n of
        Inr u \<Rightarrow> Some (Inr (Some u))
      | Inl e \<Rightarrow>
          if \<not> is_temporary_startup_limiter_denial e then Some (Inl e)
          else if 0 < startup_max_attempts sp \<and> startup_max_attempts sp \<le> int n then Some (Inl e)
          else case wait_before_startup_retry stop k delay of
            None \<Rightarrow> None
          | Some (go_on, k') \<Rightarrow>
              if \<not> go_on then Some (Inr None)
              else universe_loop fuel sp answer stop (n + 1) k' (min (fmul delay 2) (startup_max_interval sp)))"

definition initialize_scanner_universe ::
  "nat \<Rightarrow> startup_settings \<Rightarrow> (nat \<Rightarrow> client_error + 'u) \<Rightarrow> (nat \<Rightarrow> bool) \<Rightarrow> (client_error + 'u option) option" where
  "initialize_scanner_universe fuel sp answer stop =
     (if stop 0 then Some (Inr None) else universe_loop fuel sp answer stop 1 1 (startup_interval sp))"

text \<open>The ranked universe: the instruments of the exchange in the dynamic mode, else the configured symbols.\<close>

definition get_scanner_universe :: "string \<Rightarrow> (client_error + 'i list) \<Rightarrow> string list \<Rightarrow> (string \<Rightarrow> nat \<Rightarrow> 'i) \<Rightarrow> client_error + 'i list" where
  "get_scanner_universe mode instruments symbols item =
     (if mode = ''dynamic'' then
        (case instruments of
           Inl e \<Rightarrow> Inl e
         | Inr xs \<Rightarrow> if xs = [] then Inl (plain_error ''Dynamic scanner universe is empty; check liquidity thresholds'') else Inr xs)
      else if symbols = [] then Inl (plain_error ''Static scanner universe is empty'')
      else Inr (map (\<lambda>(s, i). item s i) (zip symbols [1..<length symbols + 1])))"

definition seconds_until_next_cycle :: "rat \<Rightarrow> int \<Rightarrow> rat \<Rightarrow> rat" where
  "seconds_until_next_cycle started interval now = max 0 (fsub (of_int interval) (fsub now started))"

section \<open>The state of the scanner process\<close>

text \<open>Time frame, direction, score and time of the setup that an event is about.\<close>

record event_row =
  en_type :: string
  en_scanner :: string
  en_symbol :: string
  en_run :: "int option"
  en_setup :: "(string \<times> string \<times> rat \<times> int) option"
  en_payload :: json

record error_row =
  er_symbol :: string
  er_scanner :: string
  er_run :: "int option"
  er_type :: string
  er_message :: string

record scanner_stat =
  sn_scanned :: nat
  sn_found :: nat
  sn_saved :: nat
  sn_errors :: nat

record run_row =
  rr_status :: string
  rr_scanned :: nat
  rr_failed :: nat
  rr_found :: nat
  rr_errors :: nat

text \<open>The tables, the deduplicator of the process, the report and the counters of the running cycle, and how
  many database calls were made.\<close>

record scanner_state =
  sx_store :: paper_store
  sx_events :: "event_row list"
  sx_errors :: "error_row list"
  sx_stats :: "((int \<times> string) \<times> scanner_stat) list"
  sx_runs :: "(int \<times> run_row) list"
  sx_dedup :: dedup
  sx_calls :: nat
  sx_report :: cycle_report
  sx_found :: nat
  sx_scanned :: nat
  sx_failed :: nat
  sx_tally :: "(string \<times> scanner_stat) list"

text \<open>A step raises a message, or not.\<close>

type_synonym step_result = "string option \<times> scanner_state"

definition then_do :: "step_result \<Rightarrow> (scanner_state \<Rightarrow> step_result) \<Rightarrow> step_result" where
  "then_do r f = (case r of (None, s) \<Rightarrow> f s | (Some m, s) \<Rightarrow> (Some m, s))"

fun each :: "('x \<Rightarrow> scanner_state \<Rightarrow> step_result) \<Rightarrow> 'x list \<Rightarrow> scanner_state \<Rightarrow> step_result" where
  "each f [] s = (None, s)"
| "each f (x # xs) s = then_do (f x s) (each f xs)"

section \<open>One cycle\<close>

record sweep_env =
  sw_finished :: "string list \<Rightarrow> string list"
  sw_context :: "string \<Rightarrow> client_error + market_context"
  sw_inputs :: "string \<Rightarrow> scan_input"
  sw_options :: scan_options
  sw_spool :: "(setup_candidate \<Rightarrow> client_error option) option"
  sw_answers :: "nat \<Rightarrow> tx_answer"
  sw_others :: "nat \<Rightarrow> store_event list"
  sw_run :: "int option"
  sw_scanners :: "string list"

text \<open>Before each call the other process may have worked on the tables.\<close>

definition meanwhile :: "sweep_env \<Rightarrow> scanner_state \<Rightarrow> scanner_state" where
  "meanwhile env s = s\<lparr>sx_store := foldl store_step (sx_store s) (sw_others env (sx_calls s))\<rparr>"

text \<open>One write to the database, with the next answer.\<close>

definition db_call :: "sweep_env \<Rightarrow> (scanner_state \<Rightarrow> scanner_state) \<Rightarrow> scanner_state \<Rightarrow> step_result" where
  "db_call env f s =
     (let s' = (meanwhile env s)\<lparr>sx_calls := sx_calls s + 1\<rparr> in
      case sw_answers env (sx_calls s) of
        TxOk \<Rightarrow> (None, f s')
      | TxFails e \<Rightarrow> (Some (snd e), s')
      | TxLost e \<Rightarrow> (Some (snd e), f s'))"

definition call_save_setup :: "sweep_env \<Rightarrow> setup_candidate \<Rightarrow> scanner_state \<Rightarrow> step_result" where
  "call_save_setup env c s =
     (case on_setups (save_setup (sw_answers env (sx_calls s)) (sw_run env) c) (sx_store (meanwhile env s)) of
        (r, db) \<Rightarrow> (case r of Inl e \<Rightarrow> Some (snd e) | Inr u \<Rightarrow> None, s\<lparr>sx_store := db, sx_calls := sx_calls s + 1\<rparr>))"

definition add_event :: "event_row \<Rightarrow> scanner_state \<Rightarrow> scanner_state" where
  "add_event en s = s\<lparr>sx_events := sx_events s @ [en]\<rparr>"

definition setup_event :: "sweep_env \<Rightarrow> string \<Rightarrow> setup_candidate \<Rightarrow> event_row" where
  "setup_event env symbol c =
     \<lparr>en_type = ''SETUP_DETECTED'', en_scanner = sc_scanner c, en_symbol = symbol, en_run = sw_run env,
      en_setup = Some (sc_setup_tf c, sc_direction c, sc_score c, sc_detected c),
      en_payload = JObj [(''entry_zone'', JArr [JFloat (sc_low c), JFloat (sc_high c)])]\<rparr>"

definition as_detected :: "setup_candidate \<Rightarrow> setup_candidate" where
  "as_detected c = c\<lparr>sc_state := DETECTED\<rparr>"

text \<open>A failure is counted, and recorded in the report.\<close>

definition count_failure :: "symbol_outcome \<Rightarrow> scanner_state \<Rightarrow> scanner_state" where
  "count_failure u s = s\<lparr>sx_failed := sx_failed s + 1, sx_report := record_outcome u (sx_report s)\<rparr>"

definition enqueue_capture :: "sweep_env \<Rightarrow> setup_candidate \<Rightarrow> scanner_state \<Rightarrow> scanner_state" where
  "enqueue_capture env c s =
     (case sw_spool env of
        None \<Rightarrow> s
      | Some put \<Rightarrow>
          if sc_scanner c \<noteq> ME_RESEARCH then s
          else case put c of None \<Rightarrow> s | Some e \<Rightarrow> count_failure (classify_me_capture_failure (sc_symbol c) e) s)"

definition stored_candidate :: "setup_candidate \<Rightarrow> setup_candidate" where
  "stored_candidate c = (if is_shadow c \<or> sc_scanner c = ME_RESEARCH then as_detected c else c)"

definition persist_candidate :: "sweep_env \<Rightarrow> string \<Rightarrow> setup_candidate \<Rightarrow> scanner_state \<Rightarrow> step_result" where
  "persist_candidate env symbol c s =
     (let c' = stored_candidate c in
      then_do (call_save_setup env c' (enqueue_capture env c' s)) (db_call env (add_event (setup_event env symbol c'))))"

text \<open>An observation is stored as detected; a failure to store it is swallowed.\<close>

definition observe_candidate :: "sweep_env \<Rightarrow> setup_candidate \<Rightarrow> scanner_state \<Rightarrow> step_result" where
  "observe_candidate env c s =
     (let c' = as_detected c in (None, snd (call_save_setup env c' (enqueue_capture env c' s))))"

definition add_counts :: "(string \<times> scanner_stat) list \<Rightarrow> string \<times> scanner_counts \<Rightarrow> (string \<times> scanner_stat) list" where
  "add_counts tally x =
     (case x of (n, k) \<Rightarrow> case dget tally n of
        None \<Rightarrow> tally
      | Some t \<Rightarrow> dput n \<lparr>sn_scanned = sn_scanned t + 1, sn_found = sn_found t + ct_found k,
          sn_saved = sn_saved t + ct_saved k, sn_errors = sn_errors t + ct_errors k\<rparr> tally)"

definition scan_body :: "sweep_env \<Rightarrow> string \<Rightarrow> market_context \<Rightarrow> scanner_state \<Rightarrow> step_result" where
  "scan_body env symbol ctx s =
     (case scan_all_with_stats (sw_options env) ctx (sw_inputs env symbol) (sx_dedup s) of
        None \<Rightarrow> (Some ''scoring failed'', s)
      | Some (rep, de) \<Rightarrow>
          then_do (each (persist_candidate env symbol) (sr_valid rep)
              (s\<lparr>sx_dedup := de, sx_tally := foldl add_counts (sx_tally s) (sr_counts rep)\<rparr>))
            (\<lambda>s1. then_do (each (observe_candidate env) (sr_observe rep) s1)
              (\<lambda>s2. (None, s2\<lparr>sx_found := sx_found s2 + length (sr_valid rep)\<rparr>))))"

definition fail_symbol :: "sweep_env \<Rightarrow> string \<Rightarrow> client_error \<Rightarrow> stage \<Rightarrow> scanner_state \<Rightarrow> step_result" where
  "fail_symbol env symbol e st s =
     (let u = classify_symbol_failure symbol e st;
          row = \<lparr>er_symbol = symbol, er_scanner = (if st = STAGE_SCAN then ''SCANNER'' else ''ALL''), er_run = sw_run env,
                 er_type = error_name (ou_error u), er_message = xe_message e\<rparr>
      in db_call env (\<lambda>s. s\<lparr>sx_errors := sx_errors s @ [row]\<rparr>) (count_failure u s))"

definition symbol_step :: "sweep_env \<Rightarrow> string \<Rightarrow> scanner_state \<Rightarrow> step_result" where
  "symbol_step env symbol s =
     (case sw_context env symbol of
        Inl e \<Rightarrow> fail_symbol env symbol e STAGE_MARKET_DATA s
      | Inr ctx \<Rightarrow>
          (case scan_body env symbol ctx
             (s\<lparr>sx_scanned := sx_scanned s + 1, sx_report := record_processed symbol (sx_report s)\<rparr>) of
             (None, s') \<Rightarrow> (None, s')
           | (Some m, s') \<Rightarrow> fail_symbol env symbol (plain_error m) STAGE_SCAN s'))"

definition save_run_stats :: "sweep_env \<Rightarrow> scanner_state \<Rightarrow> step_result" where
  "save_run_stats env s =
     (case sw_run env of
        None \<Rightarrow> (None, s)
      | Some run \<Rightarrow> each (\<lambda>(n, t). db_call env (\<lambda>s. s\<lparr>sx_stats := dput (run, n) t (sx_stats s)\<rparr>)) (sx_tally s) s)"

definition completion_event :: "int option \<Rightarrow> json \<Rightarrow> event_row" where
  "completion_event run payload =
     \<lparr>en_type = ''CYCLE_COMPLETION'', en_scanner = ''SCANNER'', en_symbol = '''', en_run = run, en_setup = None, en_payload = payload\<rparr>"

text \<open>The diagnostic row; that it could not be stored is swallowed.\<close>

definition persist_report :: "sweep_env \<Rightarrow> bool \<Rightarrow> string option \<Rightarrow> scanner_state \<Rightarrow> scanner_state" where
  "persist_report env aborted status s =
     (case db_call env (add_event (completion_event (sw_run env) (to_payload (sx_report s) aborted status))) s of
        (None, s') \<Rightarrow> s'\<lparr>sx_report := (sx_report s')\<lparr>cy_persisted := True\<rparr>\<rparr>
      | (Some m, s') \<Rightarrow> s')"

definition start_cycle :: "sweep_env \<Rightarrow> string list \<Rightarrow> scanner_state \<Rightarrow> scanner_state" where
  "start_cycle env symbols s =
     s\<lparr>sx_report := (sx_report s)\<lparr>cy_expected := length symbols\<rparr>, sx_found := 0, sx_scanned := 0, sx_failed := 0,
       sx_tally := map (\<lambda>n. (n, \<lparr>sn_scanned = 0, sn_found = 0, sn_saved = 0, sn_errors = 0\<rparr>)) (sw_scanners env)\<rparr>"

definition run_scan_cycle :: "sweep_env \<Rightarrow> string list \<Rightarrow> scanner_state \<Rightarrow> step_result" where
  "run_scan_cycle env symbols s =
     (let s0 = start_cycle env symbols s in
      if symbols = [] then (None, s0)
      else then_do (each (symbol_step env) (sw_finished env symbols) s0)
        (\<lambda>s1. then_do (save_run_stats env s1)
          (\<lambda>s2. (None, if \<not> is_complete (sx_report s2) \<and> \<not> cy_persisted (sx_report s2) then persist_report env False None s2 else s2))))"

section \<open>One round of the main loop\<close>

text \<open>Besides the cycle: the time and the answers of the expiry, the answers to both ways to finish the run, and
  what the refresh of the expectancy data raised.\<close>

record round_env =
  rv_sweep :: sweep_env
  rv_now :: int
  rv_expire :: "nat \<Rightarrow> tx_answer"
  rv_recovery :: "nat \<Rightarrow> recovery"
  rv_finish :: tx_answer
  rv_refresh :: "string option"
  rv_abort :: tx_answer

definition finish_run :: "tx_answer \<Rightarrow> int option \<Rightarrow> run_row \<Rightarrow> scanner_state \<Rightarrow> step_result" where
  "finish_run tx run row s =
     (case run of
        None \<Rightarrow> (None, s)
      | Some i \<Rightarrow>
          let s' = s\<lparr>sx_runs := (if dhas (sx_runs s) i then dput i row (sx_runs s) else sx_runs s)\<rparr> in
          case tx of TxOk \<Rightarrow> (None, s') | TxFails e \<Rightarrow> (Some (snd e), s) | TxLost e \<Rightarrow> (Some (snd e), s'))"

definition run_expiry :: "round_env \<Rightarrow> scanner_state \<Rightarrow> step_result" where
  "run_expiry rv s =
     (case expire_setups (rv_expire rv) (rv_recovery rv) (rv_now rv) (sx_store s) of
        (r, db) \<Rightarrow> (case r of Inl e \<Rightarrow> Some (snd e) | Inr n \<Rightarrow> None, s\<lparr>sx_store := db\<rparr>))"

definition report_aborted_cycle :: "sweep_env \<Rightarrow> scanner_state \<Rightarrow> scanner_state" where
  "report_aborted_cycle env s =
     (let r = sx_report s in
      if cy_expected r = 0 \<and> cy_processed r = [] \<and> outcomes r = [] then s
      else if cy_persisted r then s
      else persist_report env True (Some ''FAILED'') s)"

definition finished_row :: "scanner_state \<Rightarrow> run_row" where
  "finished_row s = \<lparr>rr_status = run_status (sx_report s), rr_scanned = sx_scanned s, rr_failed = sx_failed s,
     rr_found = sx_found s, rr_errors = sx_failed s\<rparr>"

text \<open>What the abort path writes: the counters take their defaults.\<close>

definition aborted_row :: run_row where
  "aborted_row = \<lparr>rr_status = ''FAILED'', rr_scanned = 0, rr_failed = 0, rr_found = 0, rr_errors = 1\<rparr>"

definition started_row :: run_row where
  "started_row = \<lparr>rr_status = ''RUNNING'', rr_scanned = 0, rr_failed = 0, rr_found = 0, rr_errors = 0\<rparr>"

definition start_round :: "round_env \<Rightarrow> scanner_state \<Rightarrow> scanner_state" where
  "start_round rv s =
     s\<lparr>sx_report := new_report,
       sx_runs := (case sw_run (rv_sweep rv) of None \<Rightarrow> sx_runs s | Some i \<Rightarrow> dput i started_row (sx_runs s))\<rparr>"

definition scan_round :: "round_env \<Rightarrow> string list \<Rightarrow> scanner_state \<Rightarrow> scanner_state" where
  "scan_round rv symbols s =
     (case then_do (run_scan_cycle (rv_sweep rv) symbols (start_round rv s))
        (\<lambda>s1. then_do (run_expiry rv s1)
          (\<lambda>s2. then_do (finish_run (rv_finish rv) (sw_run (rv_sweep rv)) (finished_row s2) s2)
            (\<lambda>s3. (rv_refresh rv, s3)))) of
        (None, s') \<Rightarrow> s'
      | (Some m, s') \<Rightarrow>
          report_aborted_cycle (rv_sweep rv) (snd (finish_run (rv_abort rv) (sw_run (rv_sweep rv)) aborted_row s')))"

section \<open>Every symbol and every failure is accounted for\<close>

text \<open>Symbols with a context or with a recorded reason for having none.\<close>

definition answered :: "cycle_report \<Rightarrow> nat" where
  "answered r = length (cy_processed r) + length (cy_failures r) + length (cy_skips r)"

definition accounts :: "scanner_state \<Rightarrow> bool" where
  "accounts s \<longleftrightarrow> sx_failed s = failed_total (sx_report s) \<and> sx_scanned s = length (cy_processed (sx_report s))"

text \<open>A step that answers \<open>n\<close> symbols and keeps the accounts.\<close>

definition advances :: "nat \<Rightarrow> scanner_state \<Rightarrow> scanner_state \<Rightarrow> bool" where
  "advances n s s' \<longleftrightarrow>
     (accounts s \<longrightarrow> accounts s') \<and> answered (sx_report s') = answered (sx_report s) + n \<and>
     cy_expected (sx_report s') = cy_expected (sx_report s) \<and> cy_persisted (sx_report s') = cy_persisted (sx_report s)"

lemma advances_refl [simp]: "advances 0 s s"
  by (simp add: advances_def)

lemma advances_trans: "advances n a b \<Longrightarrow> advances k b c \<Longrightarrow> advances (n + k) a c"
  by (auto simp: advances_def)

lemma advances_same:
  "sx_report s' = sx_report s \<Longrightarrow> sx_failed s' = sx_failed s \<Longrightarrow> sx_scanned s' = sx_scanned s \<Longrightarrow> advances 0 s s'"
  by (simp add: advances_def accounts_def)

lemma then_do_cases:
  obtains (raised) m where "fst r = Some m" "then_do r f = r" | (went_on) "fst r = None" "then_do r f = f (snd r)"
  by (cases r, cases "fst r") (auto simp: then_do_def)

lemma then_do_advances:
  assumes "advances n s (snd r)" "\<And>s1. advances 0 s1 (snd (f s1))"
  shows "advances n s (snd (then_do r f))"
  using then_do_cases [of r f] assms advances_trans [of n s "snd r" 0] by (metis add_0_right)

lemma each_advances: "(\<And>x s1. advances 0 s1 (snd (f x s1))) \<Longrightarrow> advances 0 s (snd (each f xs s))"
proof (induction xs arbitrary: s)
  case (Cons x xs)
  show ?case unfolding each.simps by (rule then_do_advances) (use Cons in auto)
qed simp

lemma db_call_advances:
  assumes "\<And>s1. sx_report (f s1) = sx_report s1 \<and> sx_failed (f s1) = sx_failed s1 \<and> sx_scanned (f s1) = sx_scanned s1"
  shows "advances 0 s (snd (db_call env f s))"
  by (rule advances_same) (auto simp: db_call_def meanwhile_def Let_def assms split: tx_answer.split)

lemma save_setup_advances: "advances 0 s (snd (call_save_setup env c s))"
  by (rule advances_same) (simp_all add: call_save_setup_def split: prod.split)

lemma failed_total_more [simp]:
  "failed_total (r\<lparr>cy_persisted := b\<rparr>) = failed_total r" "failed_total (r\<lparr>cy_expected := n\<rparr>) = failed_total r"
  "failed_total (r\<lparr>cy_processed := xs\<rparr>) = failed_total r"
  by (simp_all add: failed_total_def)

lemma count_failure_advances:
  "advances (if ou_stage u = STAGE_MARKET_DATA then 1 else 0) s (count_failure u s)"
  by (cases "ou_stage u") (auto simp: advances_def accounts_def count_failure_def failed_total_def answered_def record_outcome_def)

lemma enqueue_advances: "advances 0 s (enqueue_capture env c s)"
  using count_failure_advances [of "classify_me_capture_failure (sc_symbol c) e" s for e]
  by (auto simp: enqueue_capture_def classify_me_capture_failure_def split: option.split)

lemma persist_advances: "advances 0 s (snd (persist_candidate env symbol c s))"
proof -
  have "advances 0 s (snd (call_save_setup env (stored_candidate c) (enqueue_capture env (stored_candidate c) s)))"
    using advances_trans [OF enqueue_advances save_setup_advances] by simp
  then show ?thesis unfolding persist_candidate_def Let_def
    by (rule then_do_advances) (simp add: db_call_advances add_event_def)
qed

lemma observe_advances: "advances 0 s (snd (observe_candidate env c s))"
  using advances_trans [OF enqueue_advances save_setup_advances] by (simp add: observe_candidate_def Let_def)

lemma scan_body_advances: "advances 0 s (snd (scan_body env symbol ctx s))"
proof (cases "scan_all_with_stats (sw_options env) ctx (sw_inputs env symbol) (sx_dedup s)")
  case (Some x)
  obtain rep de where x: "x = (rep, de)" by (metis surj_pair)
  let ?s = "s\<lparr>sx_dedup := de, sx_tally := foldl add_counts (sx_tally s) (sr_counts rep)\<rparr>"
  have "advances 0 s (snd (each (persist_candidate env symbol) (sr_valid rep) ?s))"
    using advances_trans [OF advances_same [of ?s s] each_advances [OF persist_advances]] by simp
  then show ?thesis unfolding scan_body_def Some x option.case prod.case
    by (rule then_do_advances)
      (rule then_do_advances, rule each_advances, rule observe_advances, rule advances_same, simp_all)
qed (simp add: scan_body_def)

lemma fail_symbol_advances: "advances (if st = STAGE_MARKET_DATA then 1 else 0) s (snd (fail_symbol env symbol e st s))"
proof -
  let ?u = "classify_symbol_failure symbol e st"
  have "ou_stage ?u = st" by (auto simp: classify_symbol_failure_def Let_def split: prod.split)
  then have "advances (if st = STAGE_MARKET_DATA then 1 else 0) s (count_failure ?u s)" using count_failure_advances [of ?u s] by simp
  from advances_trans [OF this db_call_advances] show ?thesis unfolding fail_symbol_def Let_def by simp
qed

lemma processed_advances:
  "advances 1 s (s\<lparr>sx_scanned := sx_scanned s + 1, sx_report := record_processed symbol (sx_report s)\<rparr>)"
  by (simp add: advances_def accounts_def answered_def record_processed_def)

lemma symbol_step_advances: "advances 1 s (snd (symbol_step env symbol s))"
proof (cases "sw_context env symbol")
  case (Inl e)
  then show ?thesis using fail_symbol_advances [of STAGE_MARKET_DATA s env symbol e] by (simp add: symbol_step_def)
next
  case (Inr ctx)
  obtain m s' where b: "scan_body env symbol ctx (s\<lparr>sx_scanned := sx_scanned s + 1, sx_report := record_processed symbol (sx_report s)\<rparr>) = (m, s')"
    by (metis surj_pair)
  have adv: "advances 1 s s'"
    using advances_trans [OF processed_advances scan_body_advances, of s env symbol ctx symbol] unfolding b by simp
  show ?thesis
  proof (cases m)
    case (Some t)
    then show ?thesis using advances_trans [OF adv fail_symbol_advances [of STAGE_SCAN s' env symbol "plain_error t"]]
      unfolding symbol_step_def Inr sum.case b by simp
  next
    case None
    show ?thesis using adv unfolding symbol_step_def Inr sum.case b None by simp
  qed
qed

lemma symbols_advance:
  "\<exists>n\<le>length xs. advances n s (snd (each (symbol_step env) xs s)) \<and> (fst (each (symbol_step env) xs s) = None \<longrightarrow> n = length xs)"
proof (induction xs arbitrary: s)
  case Nil
  show ?case by simp
next
  case (Cons x xs)
  show ?case
  proof (cases rule: then_do_cases [of "symbol_step env x s" "each (symbol_step env) xs"])
    case (raised m)
    then show ?thesis using symbol_step_advances [of s env x] by (intro exI [of _ 1]) simp
  next
    case went_on
    obtain n where n: "n \<le> length xs" "advances n (snd (symbol_step env x s)) (snd (each (symbol_step env) xs (snd (symbol_step env x s))))"
      "fst (each (symbol_step env) xs (snd (symbol_step env x s))) = None \<longrightarrow> n = length xs" using Cons.IH by blast
    show ?thesis using advances_trans [OF symbol_step_advances n(2)] n went_on by (intro exI [of _ "1 + n"]) simp
  qed
qed

lemma save_stats_advances: "advances 0 s (snd (save_run_stats env s))"
  unfolding save_run_stats_def
  by (cases "sw_run env") (auto intro!: each_advances db_call_advances split: prod.split)

lemma persist_report_accounts:
  "accounts (persist_report env a st s) = accounts s" "answered (sx_report (persist_report env a st s)) = answered (sx_report s)"
  "failed_total (sx_report (persist_report env a st s)) = failed_total (sx_report s)"
  "completion_status (sx_report (persist_report env a st s)) = completion_status (sx_report s)"
  by (auto simp: persist_report_def db_call_def meanwhile_def Let_def add_event_def accounts_def answered_def completion_status_def failed_total_def
      split: tx_answer.split)

lemma start_cycle_accounts: "sx_report s = new_report \<Longrightarrow> accounts (start_cycle env symbols s) \<and> answered (sx_report (start_cycle env symbols s)) = 0 \<and>
    cy_expected (sx_report (start_cycle env symbols s)) = length symbols"
  by (simp add: start_cycle_def accounts_def answered_def new_report_def failed_total_def)

text \<open>What a cycle has counted when it returns or is aborted.\<close>

definition cycle_counted :: "string list \<Rightarrow> step_result \<Rightarrow> bool" where
  "cycle_counted symbols r \<longleftrightarrow>
     (case r of (m, s) \<Rightarrow>
        accounts s \<and> answered (sx_report s) \<le> length symbols \<and>
        (case m of Some t \<Rightarrow> True
         | None \<Rightarrow> answered (sx_report s) = length symbols \<and>
             (run_status (sx_report s) = ''COMPLETED'' \<longleftrightarrow> sx_failed s = 0)))"

lemma completed_iff:
  assumes "accounts s" "answered (sx_report s) = cy_expected (sx_report s)"
  shows "run_status (sx_report s) = ''COMPLETED'' \<longleftrightarrow> sx_failed s = 0"
  using assms by (auto simp: run_status_def complete_iff accounts_def answered_def failed_total_def)

lemma cycle_counts:
  assumes "length (sw_finished env symbols) = length symbols" "sx_report s = new_report"
  shows "cycle_counted symbols (run_scan_cycle env symbols s)"
proof (cases "symbols = []")
  case True
  have "run_status (sx_report (start_cycle env [] s)) = ''COMPLETED'' \<longleftrightarrow> sx_failed (start_cycle env [] s) = 0"
    by (rule completed_iff) (use start_cycle_accounts [OF assms(2), of env "[]"] in auto)
  then show ?thesis using start_cycle_accounts [OF assms(2), of env "[]"] True
    by (simp add: run_scan_cycle_def Let_def cycle_counted_def)
next
  case False
  let ?s0 = "start_cycle env symbols s" and ?r = "each (symbol_step env) (sw_finished env symbols) (start_cycle env symbols s)"
  obtain n where n: "n \<le> length symbols" "advances n ?s0 (snd ?r)" "fst ?r = None \<longrightarrow> n = length symbols"
    using symbols_advance [of "sw_finished env symbols" ?s0 env] assms(1) by auto
  note st = start_cycle_accounts [OF assms(2), of env symbols]
  show ?thesis
  proof (cases "fst ?r")
    case (Some t)
    then have "run_scan_cycle env symbols s = ?r"
      using False by (simp add: run_scan_cycle_def Let_def then_do_def split_beta)
        (metis (no_types, lifting) option.simps(5) prod.collapse)
    moreover obtain s1 where "?r = (Some t, s1)" using Some by (metis prod.collapse)
    ultimately show ?thesis using n st by (auto simp: cycle_counted_def advances_def)
  next
    case None
    then obtain s1 where r: "?r = (None, s1)" by (metis prod.collapse)
    obtain m s2 where q: "save_run_stats env s1 = (m, s2)" by (metis surj_pair)
    have "advances (length symbols + 0) ?s0 s2"
      using advances_trans [of "length symbols" ?s0 s1 0 s2] n r save_stats_advances [of s1 env] q by simp
    then have a: "accounts s2" "answered (sx_report s2) = length symbols" "cy_expected (sx_report s2) = length symbols"
      using st by (auto simp: advances_def)
    have "run_status (sx_report s2) = ''COMPLETED'' \<longleftrightarrow> sx_failed s2 = 0" using a by (intro completed_iff) simp_all
    moreover have "sx_failed (persist_report env False None s2) = sx_failed s2"
      by (auto simp: persist_report_def db_call_def meanwhile_def Let_def add_event_def split: tx_answer.split)
    moreover have "run_status (sx_report (persist_report env False None s2)) = run_status (sx_report s2)"
      by (simp add: run_status_def persist_report_accounts)
    ultimately show ?thesis using a False
      by (cases m) (simp_all add: run_scan_cycle_def Let_def r q then_do_def cycle_counted_def persist_report_accounts)
  qed
qed

text \<open>C38. The counters of a cycle tell the truth, whatever the exchange, the scanners and the database answer, also
  for an aborted cycle: the failures counted are those the report lists, the symbols scanned are those
  it lists as processed, and when the cycle returns, every symbol of the universe was processed or has a
  recorded reason, and the run is completed exactly when nothing failed.\<close>

theorem cycle_is_accounted:
  assumes "length (sw_finished env symbols) = length symbols" "sx_report s = new_report"
  shows "cycle_counted symbols (run_scan_cycle env symbols s)"
  by (rule cycle_counts [OF assms])

section \<open>Both processes\<close>

text \<open>What the paper process does to the tables.\<close>

fun paper_event :: "store_event \<Rightarrow> bool" where
  "paper_event (SetupSaved tx run c) = False"
| "paper_event (StatusSet i st reason) = False"
| "paper_event e = True"

datatype world_event = ScannerRound round_env "string list" | ScannerRestart dedup | PaperStep store_event

fun world_step :: "scanner_state \<Rightarrow> world_event \<Rightarrow> scanner_state" where
  "world_step s (ScannerRound rv symbols) = scan_round rv symbols s"
| "world_step s (ScannerRestart de) = s\<lparr>sx_dedup := de\<rparr>"
| "world_step s (PaperStep e) = s\<lparr>sx_store := store_step (sx_store s) e\<rparr>"

fun by_the_processes :: "world_event \<Rightarrow> bool" where
  "by_the_processes (ScannerRound rv symbols) \<longleftrightarrow> (\<forall>k. list_all paper_event (sw_others (rv_sweep rv) k))"
| "by_the_processes (ScannerRestart de) \<longleftrightarrow> True"
| "by_the_processes (PaperStep e) \<longleftrightarrow> paper_event e"

definition fresh_scanner :: "dedup \<Rightarrow> scanner_state" where
  "fresh_scanner de =
     \<lparr>sx_store = empty_store, sx_events = [], sx_errors = [], sx_stats = [], sx_runs = [], sx_dedup = de, sx_calls = 0,
      sx_report = new_report, sx_found = 0, sx_scanned = 0, sx_failed = 0, sx_tally = []\<rparr>"

fun sweeps :: "world_event list \<Rightarrow> (sweep_env \<times> string list) list" where
  "sweeps [] = []"
| "sweeps (ScannerRound rv symbols # es) = (rv_sweep rv, symbols) # sweeps es"
| "sweeps (e # es) = sweeps es"

section \<open>What is ready to trade has passed the gates\<close>

definition passed_gates :: "sweep_env \<Rightarrow> string \<Rightarrow> setup_candidate \<Rightarrow> bool" where
  "passed_gates env symbol c \<longleftrightarrow>
     (case sw_context env symbol of
        Inl e \<Rightarrow> False
      | Inr ctx \<Rightarrow>
          ScanPipeline.gate_passed (so_policy (sw_options env)) ctx c \<and>
          (case so_expectancy (sw_options env) of None \<Rightarrow> True | Some e \<Rightarrow> evidence_accepts e c) \<and>
          (if so_regime_filter (sw_options env)
           then (case mc_regime ctx of None \<Rightarrow> True | Some r \<Rightarrow> r = [] \<or> regime_allows (so_whitelist (sw_options env)) r c)
           else True))"

text \<open>Cleared by one of the cycles: sound geometry, a sufficient score, no shadow, and every gate of a symbol.\<close>

definition setup_cleared :: "(sweep_env \<times> string list) list \<Rightarrow> setup_candidate \<Rightarrow> bool" where
  "setup_cleared S c \<longleftrightarrow> geometry_fault c = None \<and> score_gate c \<and> \<not> is_shadow c \<and>
     list_ex (\<lambda>(env, symbols). list_ex (\<lambda>symbol. passed_gates env symbol c) (sw_finished env symbols)) S"

definition row_cleared :: "(sweep_env \<times> string list) list \<Rightarrow> setup_row \<Rightarrow> bool" where
  "row_cleared S r \<longleftrightarrow> (if row_status r = READY_TO_TRADE then setup_cleared S (row_setup r) else True)"

definition all_cleared :: "(sweep_env \<times> string list) list \<Rightarrow> scanner_state \<Rightarrow> bool" where
  "all_cleared S s \<longleftrightarrow> list_all (row_cleared S) (db_setups (sx_store s))"

lemma cleared_identity:
  "setup_cleared S (c\<lparr>sc_id := i, sc_version := v, sc_htf_tf := h, sc_setup_tf := t, sc_started := b\<rparr>) = setup_cleared S c"
proof -
  let ?c = "c\<lparr>sc_id := i, sc_version := v, sc_htf_tf := h, sc_setup_tf := t, sc_started := b\<rparr>"
  have f: "flagged k ?c = flagged k c" for k by (simp add: flagged_def feature_def)
  have "passed_gates env symbol ?c = passed_gates env symbol c" for env symbol
    by (simp add: passed_gates_def ScanPipeline.gate_passed_def regime_of_def f evidence_accepts_def regime_allows_def
        split: sum.split option.split)
  moreover have "geometry_fault ?c = geometry_fault c" by (cases "sc_t1 c") (simp_all add: geometry_fault_def)
  moreover have "score_gate ?c = score_gate c" by (simp add: score_gate_def f)
  ultimately show ?thesis by (simp add: setup_cleared_def is_shadow_def f)
qed

lemma refreshed_cleared:
  "(stored_status c = READY_TO_TRADE \<Longrightarrow> setup_cleared S c) \<Longrightarrow> row_cleared S (refreshed run c r)"
  by (simp add: row_cleared_def refreshed_def cleared_identity)

lemma save_setup_cleared:
  assumes "list_all (row_cleared S) rows" "stored_status c = READY_TO_TRADE \<Longrightarrow> setup_cleared S c"
  shows "list_all (row_cleared S) (snd (save_setup tx run c rows))"
proof -
  have "row_cleared S (refreshed run c r)" for r using assms(2) by (rule refreshed_cleared)
  moreover have "row_cleared S \<lparr>row_setup = c, row_run = run, row_status = stored_status c, row_reason = None\<rparr>"
    using assms(2) by (simp add: row_cleared_def)
  ultimately have "list_all (row_cleared S) (snd (upsert_setup run c rows))"
    using assms(1) by (auto simp: upsert_setup_def list_all_iff)
  then show ?thesis using assms(1) by (auto simp: save_setup_def split: tx_answer.split)
qed

lemma paper_event_cleared:
  assumes "paper_event e" "list_all (row_cleared S) (db_setups db)"
  shows "list_all (row_cleared S) (db_setups (store_step db e))"
proof -
  define P where "P = (\<lambda>d :: paper_store. list_all (row_cleared S) (db_setups d))"
  have P: "P db" using assms(2) by (simp add: P_def)
  have m: "P (d\<lparr>db_setups := map f (db_setups d)\<rparr>)" if "P d" "\<And>r. row_cleared S r \<Longrightarrow> row_cleared S (f r)" for d f
    using that by (auto simp: P_def list_all_iff)
  have r: "P (snd (with_retry (transact f txs) rcv db))" if "\<And>d. P d \<Longrightarrow> P (snd (f d))" for f :: "paper_store \<Rightarrow> 'b \<times> paper_store" and txs rcv
    by (rule with_retry_keeps [OF P that])
  have expired: "row_cleared S (if c r then r\<lparr>row_status := EXPIRED, row_reason := x\<rparr> else r)"
    "row_cleared S (if c r then r\<lparr>row_status := EXPIRED\<rparr> else r)" "row_cleared S (if c r then r\<lparr>row_status := EXECUTED\<rparr> else r)"
    if "row_cleared S r" for r c x using that by (simp_all add: row_cleared_def)
  have "P (store_step db e)" using assms(1)
  proof (cases e)
    case (SetupsExpired txs rcv now)
    show ?thesis unfolding SetupsExpired store_step.simps expire_setups_def
      by (rule r) (simp add: on_setups_def expire_rows_def m expired)
  next
    case (StaleExpired txs rcv now age)
    show ?thesis unfolding StaleExpired store_step.simps expire_stale_setups_def
      by (rule r) (simp add: on_setups_def expire_stale_rows_def m expired)
  next
    case (TradeSaved txs rcv t)
    have "P (snd (do_save_trade t d))" if "P d" for d
    proof -
      have "P (d\<lparr>db_setups := map (\<lambda>r. if row_id r = pt_setup_id t then r\<lparr>row_status := EXECUTED\<rparr> else r) (db_setups d)\<rparr>)"
        by (rule m [OF that]) (rule expired(3))
      then show ?thesis using that by (simp add: do_save_trade_def P_def split: option.split)
    qed
    then have "P (snd (with_retry (transact (do_save_trade t) txs) rcv db))" by (rule r)
    then show ?thesis by (auto simp: TradeSaved save_paper_trade_def split: prod.split sum.split)
  next
    case (TradeClosed txs rcv tid cl)
    have "P (snd (do_close_trade i cl d))" if "P d" for d i using that by (simp add: do_close_trade_def P_def)
    then have "P (snd (with_retry (transact (do_close_trade i cl) txs) rcv db))" for i by (rule r)
    then show ?thesis using P by (simp add: TradeClosed close_paper_trade_def split: option.split)
  next
    case (FundingSaved tx tid paid periods)
    have "P (snd (do_save_funding i paid periods d))" if "P d" for d i using that by (simp add: do_save_funding_def P_def)
    then have "P (snd (transact (do_save_funding i paid periods) (\<lambda>n. tx) 1 db))" for i by (rule transact_keeps [where I = P, OF P])
    note saved = this
    show ?thesis
    proof (cases tid)
      case (Some i)
      obtain q d where "transact (do_save_funding i paid periods) (\<lambda>n. tx) 1 db = (q, d)" by (metis surj_pair)
      then show ?thesis using saved [of i] unfolding FundingSaved store_step.simps update_paper_trade_funding_def Some
        by (cases q) simp_all
    qed (use P in \<open>simp add: FundingSaved update_paper_trade_funding_def\<close>)
  qed simp_all
  then show ?thesis by (simp add: P_def)
qed

lemma meanwhile_cleared:
  assumes "\<And>k. list_all paper_event (sw_others env k)" "all_cleared S s"
  shows "all_cleared S (meanwhile env s)"
proof -
  have "list_all (row_cleared S) (db_setups (foldl store_step db es))"
    if "list_all paper_event es" "list_all (row_cleared S) (db_setups db)" for es db
    using that by (induction es arbitrary: db) (simp_all add: paper_event_cleared)
  then show ?thesis using assms by (simp add: all_cleared_def meanwhile_def)
qed

lemma scan_gated:
  assumes "scan_all_with_stats so ctx inp de = Some (rep, de')" "c \<in> set (sr_valid rep)" "\<not> is_shadow c"
  shows "ScanPipeline.gate_passed (so_policy so) ctx c \<and> geometry_fault c = None \<and> score_gate c \<and>
    (case so_expectancy so of None \<Rightarrow> True | Some e \<Rightarrow> evidence_accepts e c) \<and>
    (so_regime_filter so \<longrightarrow> (case mc_regime ctx of None \<Rightarrow> True | Some r \<Rightarrow> r = [] \<or> regime_allows (so_whitelist so) r c))"
proof -
  obtain inp' marks de1 scored where "rep = scan_report_of so ctx inp' marks de1 scored"
    using assms(1) by (auto simp: scan_all_with_stats_def Let_def split: option.splits prod.splits)
  from tradeable_passed [OF assms(2) [unfolded this] assms(3)] show ?thesis .
qed

lemma each_keeps: "(\<And>x s. x \<in> set xs \<Longrightarrow> P s \<Longrightarrow> P (snd (f x s))) \<Longrightarrow> P s \<Longrightarrow> P (snd (each f xs s))"
proof (induction xs arbitrary: s)
  case (Cons x xs)
  have "P (snd (f x s))" using Cons.prems by simp
  then show ?case
    by (cases rule: then_do_cases [of "f x s" "each f xs"]) (use Cons in auto)
qed simp

lemma then_do_keeps: "P (snd r) \<Longrightarrow> (\<And>s. P s \<Longrightarrow> P (snd (f s))) \<Longrightarrow> P (snd (then_do r f))"
  by (cases rule: then_do_cases [of r f]) auto

text \<open>The steps of a cycle, for a cycle of the list \<open>S\<close> with a paper process beside it.\<close>

lemma db_call_cleared:
  assumes "\<And>k. list_all paper_event (sw_others env k)" "\<And>s. sx_store (f s) = sx_store s" "all_cleared S s"
  shows "all_cleared S (snd (db_call env f s))"
  using meanwhile_cleared [OF assms(1,3)] by (auto simp: db_call_def all_cleared_def Let_def assms(2) split: tx_answer.split)

lemma call_save_cleared:
  assumes "\<And>k. list_all paper_event (sw_others env k)" "stored_status c = READY_TO_TRADE \<Longrightarrow> setup_cleared S c" "all_cleared S s"
  shows "all_cleared S (snd (call_save_setup env c s))"
proof -
  have "all_cleared S (meanwhile env s)" using assms(1,3) by (rule meanwhile_cleared)
  then have "list_all (row_cleared S) (snd (save_setup tx run c (db_setups (sx_store (meanwhile env s)))))" for tx run
    using save_setup_cleared [OF _ assms(2)] by (simp add: all_cleared_def)
  then show ?thesis by (simp add: call_save_setup_def on_setups_def all_cleared_def split_beta)
qed

lemma enqueue_store [simp]: "sx_store (enqueue_capture env c s) = sx_store s"
  by (auto simp: enqueue_capture_def count_failure_def split: option.split)

lemma enqueue_cleared [simp]: "all_cleared S (enqueue_capture env c s) = all_cleared S s"
  by (simp add: all_cleared_def)

lemma observed_status: "is_shadow c \<or> sc_scanner c = ME_RESEARCH \<Longrightarrow> stored_status (stored_candidate c) = DETECTED"
  by (simp add: stored_candidate_def stored_status_def as_detected_def)

lemma symbol_step_cleared:
  assumes paper: "\<And>k. list_all paper_event (sw_others env k)" and S: "(env, symbols) \<in> set S" "symbol \<in> set (sw_finished env symbols)"
    and ok: "all_cleared S s"
  shows "all_cleared S (snd (symbol_step env symbol s))"
proof -
  have fails: "all_cleared S (snd (fail_symbol env symbol e st s))" if "all_cleared S s" for e st s
    unfolding fail_symbol_def Let_def
    by (rule db_call_cleared) (use that paper in \<open>simp_all add: all_cleared_def count_failure_def\<close>)
  show ?thesis
  proof (cases "sw_context env symbol")
    case (Inl e)
    then show ?thesis using fails [OF ok] by (simp add: symbol_step_def)
  next
    case (Inr ctx)
    have body: "all_cleared S (snd (scan_body env symbol ctx s1))" if "all_cleared S s1" for s1
    proof (cases "scan_all_with_stats (sw_options env) ctx (sw_inputs env symbol) (sx_dedup s1)")
      case (Some x)
      obtain rep de where x: "x = (rep, de)" by (metis surj_pair)
      have valid: "all_cleared S (snd (persist_candidate env symbol c s2))" if c: "c \<in> set (sr_valid rep)" and s2: "all_cleared S s2" for c s2
      proof -
        have "setup_cleared S (stored_candidate c)" if "stored_status (stored_candidate c) = READY_TO_TRADE"
        proof -
          have no: "\<not> (is_shadow c \<or> sc_scanner c = ME_RESEARCH)" using that observed_status [of c] by (metis setup_state.distinct(3))
          then have sh: "\<not> is_shadow c" and eq: "stored_candidate c = c" by (simp_all add: stored_candidate_def)
          have "passed_gates env symbol c" using scan_gated [OF Some [unfolded x] c sh] by (simp add: passed_gates_def Inr)
          then show ?thesis using scan_gated [OF Some [unfolded x] c sh] sh S unfolding eq
            by (auto simp: setup_cleared_def list_ex_iff)
        qed
        then show ?thesis unfolding persist_candidate_def Let_def
          by (intro then_do_keeps [where P = "all_cleared S"] call_save_cleared db_call_cleared paper)
            (simp_all add: s2 add_event_def)
      qed
      have observed: "all_cleared S (snd (observe_candidate env c s2))" if "all_cleared S s2" for c s2
        unfolding observe_candidate_def Let_def snd_conv
        by (rule call_save_cleared [OF paper]) (simp_all add: that stored_status_def as_detected_def)
      show ?thesis unfolding scan_body_def Some x option.case prod.case
      proof (intro then_do_keeps [where P = "all_cleared S"] each_keeps [where P = "all_cleared S"] valid observed)
        show "all_cleared S (s1\<lparr>sx_dedup := de, sx_tally := foldl add_counts (sx_tally s1) (sr_counts rep)\<rparr>)"
          using that by (simp add: all_cleared_def)
      qed (simp_all add: all_cleared_def)
    qed (use that in \<open>simp add: scan_body_def\<close>)
    let ?s1 = "s\<lparr>sx_scanned := sx_scanned s + 1, sx_report := record_processed symbol (sx_report s)\<rparr>"
    have "all_cleared S ?s1" using ok by (simp add: all_cleared_def)
    then have b: "all_cleared S (snd (scan_body env symbol ctx ?s1))" by (rule body)
    obtain m s' where m: "scan_body env symbol ctx ?s1 = (m, s')" by (metis surj_pair)
    show ?thesis
    proof (cases m)
      case (Some t)
      have "all_cleared S s'" using b unfolding m by simp
      then show ?thesis unfolding symbol_step_def Inr sum.case m Some by (simp add: fails)
    next
      case None
      show ?thesis using b unfolding symbol_step_def Inr sum.case m None by simp
    qed
  qed
qed

lemma persist_report_cleared:
  "(\<And>k. list_all paper_event (sw_others env k)) \<Longrightarrow> all_cleared S s \<Longrightarrow> all_cleared S (persist_report env a st s)"
  using db_call_cleared [of env "add_event (completion_event (sw_run env) (to_payload (sx_report s) a st))" S s]
  by (auto simp: persist_report_def add_event_def all_cleared_def split: prod.split option.split)

lemma run_cycle_cleared:
  assumes paper: "\<And>k. list_all paper_event (sw_others env k)" and S: "(env, symbols) \<in> set S" and ok: "all_cleared S s"
  shows "all_cleared S (snd (run_scan_cycle env symbols s))"
proof -
  have start: "all_cleared S (start_cycle env symbols s)" using ok by (simp add: start_cycle_def all_cleared_def)
  have syms: "all_cleared S (snd (each (symbol_step env) (sw_finished env symbols) (start_cycle env symbols s)))"
    by (rule each_keeps [where P = "all_cleared S"]) (auto intro: symbol_step_cleared [OF paper S] start)
  have stats: "all_cleared S (snd (save_run_stats env s1))" if "all_cleared S s1" for s1
    unfolding save_run_stats_def using that
    by (cases "sw_run env") (auto intro!: each_keeps [where P = "all_cleared S"] db_call_cleared paper split: prod.split)
  have "all_cleared S (snd (then_do (each (symbol_step env) (sw_finished env symbols) (start_cycle env symbols s))
      (\<lambda>s1. then_do (save_run_stats env s1)
        (\<lambda>s2. (None, if \<not> is_complete (sx_report s2) \<and> \<not> cy_persisted (sx_report s2) then persist_report env False None s2 else s2)))))"
    by (intro then_do_keeps [where P = "all_cleared S"] syms stats) (auto intro: persist_report_cleared [OF paper])
  then show ?thesis using start unfolding run_scan_cycle_def Let_def by (cases "symbols = []") simp_all
qed

lemma finish_run_cleared: "all_cleared S s \<Longrightarrow> all_cleared S (snd (finish_run tx run row s))"
  by (auto simp: finish_run_def all_cleared_def Let_def split: option.split tx_answer.split)

lemma scan_round_cleared:
  assumes paper: "\<And>k. list_all paper_event (sw_others (rv_sweep rv) k)" and S: "(rv_sweep rv, symbols) \<in> set S" and ok: "all_cleared S s"
  shows "all_cleared S (scan_round rv symbols s)"
proof -
  have start: "all_cleared S (start_round rv s)" using ok by (simp add: start_round_def all_cleared_def)
  have expiry: "all_cleared S (snd (run_expiry rv s1))" if "all_cleared S s1" for s1
    using paper_event_cleared [of "SetupsExpired (rv_expire rv) (rv_recovery rv) (rv_now rv)" S "sx_store s1"] that
    by (simp add: run_expiry_def all_cleared_def split_beta)
  let ?r = "then_do (run_scan_cycle (rv_sweep rv) symbols (start_round rv s))
        (\<lambda>s1. then_do (run_expiry rv s1)
          (\<lambda>s2. then_do (finish_run (rv_finish rv) (sw_run (rv_sweep rv)) (finished_row s2) s2)
            (\<lambda>s3. (rv_refresh rv, s3))))"
  have r: "all_cleared S (snd ?r)"
    by (intro then_do_keeps [where P = "all_cleared S"] run_cycle_cleared [OF paper S start] expiry finish_run_cleared) simp_all
  have "all_cleared S (report_aborted_cycle (rv_sweep rv) s1)" if "all_cleared S s1" for s1
    using that by (simp add: report_aborted_cycle_def Let_def persist_report_cleared paper)
  with r show ?thesis unfolding scan_round_def
    by (auto simp: finish_run_cleared split: prod.split option.split)
qed

lemma sweeps_in: "ScannerRound rv symbols \<in> set es \<Longrightarrow> (rv_sweep rv, symbols) \<in> set (sweeps es)"
  by (induction es rule: sweeps.induct) auto

lemma world_cleared:
  assumes "list_all by_the_processes es"
  shows "all_cleared (sweeps es) (foldl world_step (fresh_scanner de) es)"
proof -
  have step: "all_cleared (sweeps es) (world_step s e)" if "e \<in> set es" "all_cleared (sweeps es) s" for s e
  proof -
    have "by_the_processes e" using assms that(1) by (simp add: list_all_iff)
    show ?thesis
    proof (cases e)
      case (ScannerRound rv symbols)
      then have "all_cleared (sweeps es) (scan_round rv symbols s)"
        using \<open>by_the_processes e\<close> that sweeps_in [of rv symbols es] by (intro scan_round_cleared) simp_all
      then show ?thesis by (simp add: ScannerRound)
    qed (use that \<open>by_the_processes e\<close> in \<open>simp_all add: all_cleared_def paper_event_cleared\<close>)
  qed
  have "all_cleared (sweeps es) (foldl world_step s xs)" if "set xs \<subseteq> set es" "all_cleared (sweeps es) s" for s xs
    using that by (induction xs arbitrary: s) (auto simp: step)
  from this [of es] show ?thesis by (simp add: fresh_scanner_def all_cleared_def empty_store_def)
qed

text \<open>Over any rounds of the scanner, restarts, failures, retries and work of the paper process on the shared
  tables: a setup that is ready to trade has sound risk geometry, a sufficient score, is no shadow, and
  passed the direction gate, the evidence and the regime filter of some cycle; shadows, observations and
  research setups are never ready.\<close>

theorem ready_rows_cleared:
  assumes "list_all by_the_processes es"
  shows "list_all (row_cleared (sweeps es)) (db_setups (sx_store (foldl world_step (fresh_scanner de) es)))"
  using world_cleared [OF assms, of de] by (simp add: all_cleared_def)

text \<open>The paper process reads the tables: an answer of the query at a time of the database's own clock, and the
  trades that exist.\<close>

definition reads_tables :: "paper_store \<Rightarrow> int \<Rightarrow> repo_env \<Rightarrow> cycle_env \<Rightarrow> bool" where
  "reads_tables db dbnow env ce \<longleftrightarrow> (\<exists>ans. ce_ready ce = Some ans \<and> ready_answer dbnow (db_setups db) ans) \<and>
     (\<forall>i. re_executed env i \<longleftrightarrow> get_paper_trade_by_setup i db \<noteq> None)"

text \<open>The row behind a position: cleared by the scanner, offered, never traded, and with the position's symbol.\<close>

definition justified :: "(sweep_env \<times> string list) list \<Rightarrow> paper_store \<Rightarrow> int \<Rightarrow> paper_trade \<Rightarrow> setup_row \<Rightarrow> bool" where
  "justified S db now t r \<longleftrightarrow> row_id r = pt_setup_id t \<and> sc_symbol (row_setup r) = pt_symbol t \<and> setup_cleared S (row_setup r) \<and>
     offered now r \<and> pt_setup_id t \<notin> set (map tw_setup (db_trades db))"

lemma entry_justified:
  assumes rd: "reads_tables db dbnow env ce" and cleared: "list_all (row_cleared S) (db_setups db)"
    and e: "list_ex (entitled ps env ce prices t) (ready_setups ce)"
  shows "list_ex (\<lambda>r. justified S db dbnow t r \<and> entitled ps env ce prices t (ready_row_of r)) (db_setups db)"
proof -
  obtain q where q: "q \<in> set (ready_setups ce)" "entitled ps env ce prices t q" using e by (auto simp: list_ex_iff)
  obtain ans where ans: "ce_ready ce = Some ans" "ready_answer dbnow (db_setups db) ans" using rd by (auto simp: reads_tables_def)
  have "q \<in> set ans" using q(1) ans(1) by (auto simp: ready_setups_def split: if_splits)
  then obtain r where r: "r \<in> set (db_setups db)" "offered dbnow r" "q = ready_row_of r"
    using ready_answer_set [OF ans(2)] by blast
  have t: "pt_setup_id t = row_id r" "pt_symbol t = sc_symbol (row_setup r)" "\<not> re_executed env (row_id r)"
    using q(2) by (simp_all add: entitled_def backed_by_def Let_def engine_candidate_def ready_setup_def r(3) ready_row_of_def row_id_def)
  have "row_cleared S r" using cleared r(1) by (simp add: list_all_iff)
  then have "setup_cleared S (row_setup r)" using r(2) by (simp add: row_cleared_def offered_def)
  moreover have "pt_setup_id t \<notin> set (map tw_setup (db_trades db))"
    using t(3) rd no_trade_yet [of "row_id r" db] unfolding t(1) reads_tables_def by blast
  ultimately have "justified S db dbnow t r" using r(2) t by (simp add: justified_def)
  then show ?thesis using r(1) q(2) unfolding r(3) list_ex_iff by blast
qed

text \<open>C36. From the scanner to a position: every position that the paper process opens comes from a row of the
  shared table that is ready and fresh, whose setup passed every gate of some scanner cycle and has sound
  geometry, that was never traded before and that the gates, the evidence, the price zone and the
  geometry check of the paper process accept as well, and in a symbol that was flat, however rounds,
  restarts, failures and paper work led to the table.\<close>

theorem positions_come_from_cleared_setups:
  assumes "list_all by_the_processes es" "dwf (pe_open (ru_engine ru))"
    and "reads_tables (sx_store (foldl world_step (fresh_scanner de) es)) dbnow env ce"
  shows "case sx_store (foldl world_step (fresh_scanner de) es) of db \<Rightarrow>
    list_all (\<lambda>t. dget (pe_open (ru_engine ru)) (pt_symbol t) = None \<and>
      list_ex (\<lambda>r. justified (sweeps es) db dbnow t r \<and>
          entitled ps env ce (get_prices (needed_symbols ce (ru_engine ru)) (ce_tickers ce)) t (ready_row_of r)) (db_setups db))
    (fst (fst (run_entry_cycle ps hc env save ce ru)))"
proof -
  have "list_all (row_cleared (sweeps es)) (db_setups (sx_store (foldl world_step (fresh_scanner de) es)))"
    using world_cleared [OF assms(1), of de] by (simp add: all_cleared_def)
  note row = entry_justified [OF assms(3) this]
  show ?thesis using entries_entitled [OF assms(2), of ps env ce hc save] row unfolding list_all_iff by blast
qed

section \<open>One diagnostic row per cycle\<close>

definition completion_rows :: "scanner_state \<Rightarrow> nat" where
  "completion_rows s = length (filter (\<lambda>en. en_type en = ''CYCLE_COMPLETION'') (sx_events s))"

definition told :: "nat \<Rightarrow> scanner_state \<Rightarrow> bool" where
  "told n s \<longleftrightarrow> completion_rows s \<le> n + (if cy_persisted (sx_report s) then 1 else 0)"

definition answers_arrive :: "sweep_env \<Rightarrow> bool" where
  "answers_arrive env \<longleftrightarrow> (\<forall>k e. sw_answers env k \<noteq> TxLost e)"

lemma told_same: "told n s \<Longrightarrow> completion_rows s' = completion_rows s \<Longrightarrow> cy_persisted (sx_report s') = cy_persisted (sx_report s) \<Longrightarrow> told n s'"
  by (simp add: told_def)

lemma db_call_told:
  assumes "\<And>s. completion_rows (f s) = completion_rows s" "\<And>s. sx_report (f s) = sx_report s" "told n s"
  shows "told n (snd (db_call env f s))"
proof -
  let ?s = "(meanwhile env s)\<lparr>sx_calls := sx_calls s + 1\<rparr>"
  have "completion_rows ?s = completion_rows s" "sx_report ?s = sx_report s" by (simp_all add: completion_rows_def meanwhile_def)
  then have "told n ?s" "told n (f ?s)" using told_same [OF assms(3)] assms(1,2) by metis+
  then show ?thesis by (simp add: db_call_def Let_def split: tx_answer.split)
qed

lemma save_setup_told: "told n s \<Longrightarrow> told n (snd (call_save_setup env c s))"
  by (erule told_same) (simp_all add: call_save_setup_def completion_rows_def split_beta)

lemma enqueue_told: "told n s \<Longrightarrow> told n (enqueue_capture env c s)"
  by (erule told_same) (auto simp: enqueue_capture_def count_failure_def completion_rows_def split: option.split)

lemma fail_symbol_told: "told n s \<Longrightarrow> told n (snd (fail_symbol env symbol e st s))"
  unfolding fail_symbol_def Let_def
  by (rule db_call_told) (auto simp: completion_rows_def count_failure_def told_def)

lemma scan_body_told:
  assumes "told n s"
  shows "told n (snd (scan_body env symbol ctx s))"
proof (cases "scan_all_with_stats (sw_options env) ctx (sw_inputs env symbol) (sx_dedup s)")
  case (Some x)
  obtain rep de where x: "x = (rep, de)" by (metis surj_pair)
  have valid: "told n (snd (persist_candidate env symbol c s1))" if "told n s1" for c s1
    unfolding persist_candidate_def Let_def
    by (intro then_do_keeps [where P = "told n"] save_setup_told enqueue_told db_call_told)
      (simp_all add: that completion_rows_def add_event_def setup_event_def)
  have observed: "told n (snd (observe_candidate env c s1))" if "told n s1" for c s1
    using that by (simp add: observe_candidate_def Let_def save_setup_told enqueue_told)
  show ?thesis unfolding scan_body_def Some x option.case prod.case
    by (intro then_do_keeps [where P = "told n"] each_keeps [where P = "told n"] valid observed)
      (use assms in \<open>simp_all add: told_def completion_rows_def\<close>)
qed (use assms in \<open>simp add: scan_body_def\<close>)

lemma symbol_step_told:
  assumes "told n s"
  shows "told n (snd (symbol_step env symbol s))"
proof (cases "sw_context env symbol")
  case (Inr ctx)
  let ?s1 = "s\<lparr>sx_scanned := sx_scanned s + 1, sx_report := record_processed symbol (sx_report s)\<rparr>"
  have "told n ?s1" using assms by (simp add: told_def completion_rows_def record_processed_def)
  then have b: "told n (snd (scan_body env symbol ctx ?s1))" by (rule scan_body_told)
  obtain m s' where m: "scan_body env symbol ctx ?s1 = (m, s')" by (metis surj_pair)
  then have s': "told n s'" using b by simp
  show ?thesis
  proof (cases m)
    case (Some t)
    show ?thesis using fail_symbol_told [OF s'] unfolding symbol_step_def Inr sum.case m Some by simp
  next
    case None
    show ?thesis using s' unfolding symbol_step_def Inr sum.case m None by simp
  qed
qed (use assms in \<open>simp add: symbol_step_def fail_symbol_told\<close>)

lemma persist_report_told:
  assumes "answers_arrive env" "told n s" "\<not> cy_persisted (sx_report s)"
  shows "told n (persist_report env a st s)"
proof (cases "sw_answers env (sx_calls s)")
  case (TxLost e)
  then show ?thesis using assms(1) unfolding answers_arrive_def by metis
qed (use assms in \<open>simp_all add: persist_report_def db_call_def Let_def meanwhile_def add_event_def completion_event_def told_def completion_rows_def\<close>)

lemma run_cycle_told:
  assumes "answers_arrive env" "told n s"
  shows "told n (snd (run_scan_cycle env symbols s))"
proof -
  have start: "told n (start_cycle env symbols s)" using assms(2) by (simp add: start_cycle_def told_def completion_rows_def)
  have stats: "told n (snd (save_run_stats env s1))" if "told n s1" for s1
    unfolding save_run_stats_def using that
    by (cases "sw_run env") (auto intro!: each_keeps [where P = "told n"] db_call_told simp: completion_rows_def split: prod.split)
  have "told n (snd (then_do (each (symbol_step env) (sw_finished env symbols) (start_cycle env symbols s))
      (\<lambda>s1. then_do (save_run_stats env s1)
        (\<lambda>s2. (None, if \<not> is_complete (sx_report s2) \<and> \<not> cy_persisted (sx_report s2) then persist_report env False None s2 else s2)))))"
    by (intro then_do_keeps [where P = "told n"] each_keeps [where P = "told n"] symbol_step_told stats start)
      (auto intro: persist_report_told assms(1))
  then show ?thesis using start unfolding run_scan_cycle_def Let_def by (cases "symbols = []") simp_all
qed

lemma round_told:
  assumes "answers_arrive (rv_sweep rv)"
  shows "completion_rows (scan_round rv symbols s) \<le> completion_rows s + 1"
proof -
  let ?n = "completion_rows s"
  have start: "told ?n (start_round rv s)" by (simp add: start_round_def told_def completion_rows_def new_report_def)
  have fin: "told ?n (snd (finish_run tx run row s1))" if "told ?n s1" for tx run row s1
    using that by (auto simp: finish_run_def told_def completion_rows_def Let_def split: option.split tx_answer.split)
  have expiry: "told ?n (snd (run_expiry rv s1))" if "told ?n s1" for s1
    using that by (simp add: run_expiry_def told_def completion_rows_def split_beta)
  let ?r = "then_do (run_scan_cycle (rv_sweep rv) symbols (start_round rv s))
        (\<lambda>s1. then_do (run_expiry rv s1)
          (\<lambda>s2. then_do (finish_run (rv_finish rv) (sw_run (rv_sweep rv)) (finished_row s2) s2)
            (\<lambda>s3. (rv_refresh rv, s3))))"
  have r: "told ?n (snd ?r)"
    by (intro then_do_keeps [where P = "told ?n"] run_cycle_told [OF assms start] expiry fin) simp_all
  have "told ?n (report_aborted_cycle (rv_sweep rv) s1)" if "told ?n s1" for s1
    using that by (simp add: report_aborted_cycle_def Let_def persist_report_told assms)
  with r have "told ?n (scan_round rv symbols s)" unfolding scan_round_def
    by (auto simp: fin split: prod.split option.split)
  then show ?thesis by (simp add: told_def split: if_splits)
qed

text \<open>At most one diagnostic row is written per round, also when the cycle returned and the round died
  later, as long as no answer of the database is lost.\<close>

theorem one_diagnostic_row:
  assumes "answers_arrive (rv_sweep rv)"
  shows "completion_rows (scan_round rv symbols s) \<le> completion_rows s + 1"
  by (rule round_told [OF assms])

text \<open>A cycle that completed is recorded as failed, with all its counters zero, when the refresh of the
  expectancy data after it raises.\<close>

lemma refresh_failure_hides_cycle:
  assumes "run_scan_cycle (rv_sweep rv) symbols (start_round rv s) = (None, s1)" "run_expiry rv s1 = (None, s2)"
    and "sw_run (rv_sweep rv) = Some i" "dhas (sx_runs s2) i" "rv_finish rv = TxOk" "rv_refresh rv = Some m" "rv_abort rv = TxOk"
  shows "dget (sx_runs (scan_round rv symbols s)) i = Some aborted_row"
  using assms by (simp add: scan_round_def then_do_def finish_run_def report_aborted_cycle_def persist_report_def Let_def dhas_def
      db_call_def meanwhile_def add_event_def split: tx_answer.split)

section \<open>The startup ends, and with the first decisive answer\<close>

lemma poll_shrinks:
  assumes "remaining \<le> of_nat (Suc n)" "n \<le> 2 ^ 53"
  shows "fsub remaining (min STARTUP_RETRY_POLL_S remaining) \<le> of_nat n"
proof (cases "remaining \<le> 1")
  case True
  then show ?thesis using fl_of_int [of 0] by (simp add: STARTUP_RETRY_POLL_S_def fsub_def min_def)
next
  case False
  have "remaining - 1 \<le> of_int (int n)" using assms(1) by simp
  then have "fl (remaining - 1) \<le> fl (of_int (int n))" by (rule fl_mono)
  moreover have "fl (of_int (int n)) = of_int (int n)" using assms(2) by (intro fl_of_int) simp
  ultimately show ?thesis using False by (simp add: STARTUP_RETRY_POLL_S_def fsub_def min_def)
qed

lemma wait_loop_ends:
  "remaining \<le> of_nat n \<Longrightarrow> n \<le> 2 ^ 53 \<Longrightarrow>
    \<exists>go_on k'. wait_loop (n + 1) stop k remaining = Some (go_on, k') \<and> ((\<forall>j. \<not> stop j) \<longrightarrow> go_on)"
proof (induction n arbitrary: k remaining)
  case (Suc n)
  have n: "n \<le> 2 ^ 53" using Suc.prems(2) by simp
  show ?case using Suc.IH [OF poll_shrinks [OF Suc.prems(1) n] n, of "k + 1"] by auto
qed simp

text \<open>A delay that the polls in double precision can count down.\<close>

definition countable_delay :: "rat \<Rightarrow> bool" where
  "countable_delay delay \<longleftrightarrow> delay \<le> 2 ^ 53"

lemma wait_ends:
  assumes "countable_delay delay"
  shows "\<exists>go_on k'. wait_before_startup_retry stop k delay = Some (go_on, k') \<and> ((\<forall>j. \<not> stop j) \<longrightarrow> go_on)"
proof -
  have "\<lceil>delay\<rceil> \<le> 2 ^ 53" using assms by (simp add: countable_delay_def ceiling_le_iff)
  then have "nat \<lceil>delay\<rceil> \<le> 2 ^ 53" by (simp only: nat_le_iff of_nat_power of_nat_numeral)
  moreover have "delay \<le> of_nat (nat \<lceil>delay\<rceil>)" by linarith
  ultimately show ?thesis unfolding wait_before_startup_retry_def by (intro wait_loop_ends)
qed

definition decided :: "client_error + 'u \<Rightarrow> client_error + 'u option" where
  "decided a = (case a of Inl e \<Rightarrow> Inl e | Inr u \<Rightarrow> Inr (Some u))"

definition temporary :: "client_error + 'u \<Rightarrow> bool" where
  "temporary a \<longleftrightarrow> (case a of Inl e \<Rightarrow> is_temporary_startup_limiter_denial e | Inr u \<Rightarrow> False)"

lemma next_delay: "countable_delay (startup_max_interval sp) \<Longrightarrow> countable_delay (min d (startup_max_interval sp))"
  by (auto simp: countable_delay_def min_def)

lemma universe_loop_decides:
  assumes "\<forall>j. \<not> stop j" "countable_delay (startup_max_interval sp)"
    and "startup_max_attempts sp = 0 \<or> int (n + d) \<le> startup_max_attempts sp" "\<not> temporary (answer (n + d))"
    and "\<forall>i. n \<le> i \<and> i < n + d \<longrightarrow> temporary (answer i)" "countable_delay delay"
  shows "universe_loop (Suc d) sp answer stop n k delay = Some (decided (answer (n + d)))"
  using assms(3-6)
proof (induction d arbitrary: n k delay)
  case 0
  then show ?case by (cases "answer n") (simp_all add: temporary_def decided_def)
next
  case (Suc d)
  have "temporary (answer n)" using Suc.prems(3) by simp
  then obtain e where e: "answer n = Inl e" "is_temporary_startup_limiter_denial e"
    by (cases "answer n") (auto simp: temporary_def)
  obtain k' where w: "wait_before_startup_retry stop k delay = Some (True, k')" using wait_ends [OF Suc.prems(4), of stop k] assms(1) by auto
  have more: "\<not> (0 < startup_max_attempts sp \<and> startup_max_attempts sp \<le> int n)" using Suc.prems(1) by auto
  have "universe_loop (Suc d) sp answer stop (Suc n) k' (min (fmul delay 2) (startup_max_interval sp)) = Some (decided (answer (Suc n + d)))"
    by (rule Suc.IH) (use Suc.prems in \<open>auto intro: next_delay assms(2)\<close>)
  then show ?case unfolding universe_loop.simps(2) [of "Suc d"] e(1) sum.case w option.case prod.case if_not_P [OF more]
    using e(2) by (simp del: universe_loop.simps)
qed

lemma startup_delays: "countable_delay (startup_max_interval sp) \<Longrightarrow> countable_delay (startup_interval sp)"
  by (simp add: countable_delay_def startup_max_interval_def)

text \<open>C39. The startup waits out temporary refusals and nothing else: without a shutdown the first answer that is no
  temporary refusal decides, a universe is returned as it was found, and a permanent error is raised at
  once and unchanged, if the attempts allow to get there.\<close>

theorem startup_decides:
  assumes "\<forall>j. \<not> stop j" "countable_delay (startup_max_interval sp)"
    and "startup_max_attempts sp = 0 \<or> int (Suc d) \<le> startup_max_attempts sp"
    and "list_all (\<lambda>i. temporary (answer i)) [1..<Suc d]" "\<not> temporary (answer (Suc d))"
  shows "initialize_scanner_universe (Suc d) sp answer stop = Some (decided (answer (Suc d)))"
proof -
  have "universe_loop (Suc d) sp answer stop 1 1 (startup_interval sp) = Some (decided (answer (1 + d)))"
    by (rule universe_loop_decides) (use assms in \<open>auto simp: list_all_iff intro: startup_delays\<close>)
  then show ?thesis using assms(1) by (simp add: initialize_scanner_universe_def)
qed

text \<open>With a bound on the attempts the startup always ends within them, whatever is answered and whenever the
  shutdown comes.\<close>

theorem startup_ends:
  assumes "0 < startup_max_attempts sp" "countable_delay (startup_max_interval sp)"
  shows "initialize_scanner_universe (nat (startup_max_attempts sp)) sp answer stop \<noteq> None"
proof -
  have "universe_loop (Suc d) sp answer stop n k delay \<noteq> None"
    if "startup_max_attempts sp \<le> int (n + d)" "countable_delay delay" for d n k delay
    using that
  proof (induction d arbitrary: n k delay)
    case 0
    then show ?case using assms(1) by (auto split: sum.split)
  next
    case (Suc d)
    obtain go_on k' where w: "wait_before_startup_retry stop k delay = Some (go_on, k')" using wait_ends [OF Suc.prems(2)] by blast
    have "universe_loop (Suc d) sp answer stop (Suc n) k' (min (fmul delay 2) (startup_max_interval sp)) \<noteq> None"
      by (rule Suc.IH) (use Suc.prems in \<open>auto intro: next_delay assms(2)\<close>)
    then show ?case unfolding universe_loop.simps(2) [of "Suc d"] using w by (auto simp del: universe_loop.simps split: sum.split)
  qed
  from this [of 1 "nat (startup_max_attempts sp) - 1" "startup_interval sp" 1] show ?thesis
    using assms startup_delays [OF assms(2)] by (simp add: initialize_scanner_universe_def)
qed

text \<open>An override of the configuration file is used as given or refused; it never falls back.\<close>

lemma override_never_falls_back:
  "case resolve_scanner_config_path fallback (Some raw) look of
     Inl e \<Rightarrow> True
   | Inr (path, src) \<Rightarrow> src = SOURCE_OVERRIDE \<and> path = strip_text raw \<and> starts_with ''/'' path \<and>
       (case look path of None \<Rightarrow> False | Some q \<Rightarrow> pi_exists q \<and> \<not> pi_dir q \<and> pi_readable q)"
  by (simp add: resolve_scanner_config_path_def Let_def split: option.split)

section \<open>Research setups never reach the branch that is meant for them\<close>

lemma research_not_returned:
  assumes "scan_all_with_stats so ctx inp de = Some (rep, de')" "c \<in> set (sr_valid rep)"
  shows "sc_scanner c \<noteq> ME_RESEARCH"
proof -
  obtain marks de1 scored where rep: "rep = scan_report_of so ctx inp marks de1 scored"
    using assms(1) by (auto simp: scan_all_with_stats_def Let_def split: option.splits prod.splits)
  let ?ro = "route_all (so_policy so) ctx (filter me_clean (dropped marks scored))
    (filter passes_quality (reattach de1 scored (kept marks scored)))"
  have "c \<in> set (ro_accepted ?ro) \<or> c \<in> set (ro_shadow ?ro)"
    using assms(2) by (auto simp: rep report_valid regime_stage_valid expectancy_stage_valid)
  moreover have "sc_scanner x \<noteq> ME_RESEARCH" if "x \<in> set (ro_accepted ?ro)" for x
    using that by (auto simp: route_all_accepted ScanPipeline.gate_passed_def)
  moreover have "sc_scanner x \<noteq> ME_RESEARCH" if "x \<in> set (ro_shadow ?ro)" for x
  proof (cases "so_policy so")
    case (Some p)
    have "x \<in> shadow_of ` {y \<in> set (filter passes_quality (reattach de1 scored (kept marks scored))). route_candidate p ctx y = RouteShadow}"
      using that by (simp add: Some route_all_def Let_def route_shadow_set)
    then show ?thesis by (auto simp: route_candidate_def Let_def split: if_splits)
  qed (use that in \<open>simp add: route_all_def Let_def\<close>)
  ultimately show ?thesis by blast
qed

section \<open>Concrete worlds\<close>

definition demo_signal :: setup_candidate where
  "demo_signal = (sample_setup ''a'' 1 40)\<lparr>sc_state := SETUP_READY\<rparr>"

definition demo_sweep :: sweep_env where
  "demo_sweep = \<lparr>sw_finished = rev,
     sw_context = (\<lambda>symbol. if symbol = ''BTCUSDT'' then Inr sample_context else Inl (plain_error ''timeout'')),
     sw_inputs = (\<lambda>symbol. [(''ALPHA'', Some [demo_signal])]), sw_options = sample_options, sw_spool = None,
     sw_answers = (\<lambda>k. TxOk), sw_others = (\<lambda>k. []), sw_run = Some 1, sw_scanners = [''ALPHA'']\<rparr>"

definition demo_round :: round_env where
  "demo_round = \<lparr>rv_sweep = demo_sweep, rv_now = 5, rv_expire = (\<lambda>n. TxOk),
     rv_recovery = (\<lambda>n. \<lparr>rc_rollback = True, rc_reconnect = True, rc_error = (None, '''')\<rparr>),
     rv_finish = TxOk, rv_refresh = None, rv_abort = TxOk\<rparr>"

definition demo_world :: scanner_state where
  "demo_world = foldl world_step (fresh_scanner sample_dedup) [ScannerRound demo_round [''BTCUSDT'', ''ETHUSDT'']]"

lemma demo_world_rows:
  "map (\<lambda>r. (row_id r, row_status r)) (db_setups (sx_store demo_world)) = [(''a'', READY_TO_TRADE)]"
  "db_trades (sx_store demo_world) = []" "dget (sx_runs demo_world) 1 = Some \<lparr>rr_status = ''PARTIAL'', rr_scanned = 1, rr_failed = 1, rr_found = 1, rr_errors = 1\<rparr>"
  by code_simp+

theorem cycle_is_accounted_witness:
  "cycle_counted [''BTCUSDT'', ''ETHUSDT'']
     (run_scan_cycle demo_sweep [''BTCUSDT'', ''ETHUSDT''] (start_round demo_round (fresh_scanner sample_dedup)))"
  by (rule cycle_is_accounted) (simp_all add: demo_sweep_def start_round_def)

theorem ready_rows_cleared_witness:
  "list_all (row_cleared (sweeps [ScannerRound demo_round [''BTCUSDT'', ''ETHUSDT'']]))
     (db_setups (sx_store (foldl world_step (fresh_scanner sample_dedup) [ScannerRound demo_round [''BTCUSDT'', ''ETHUSDT'']])))"
  by (rule ready_rows_cleared) (simp add: demo_round_def demo_sweep_def)

text \<open>The cycle of the paper process over the tables of the demo.\<close>

definition demo_paper_cycle :: cycle_env where
  "demo_paper_cycle = demo_cycle\<lparr>ce_ready := Some (load_ready_setups 5 (db_setups (sx_store demo_world))),
     ce_tickers := Some [(''BTCUSDT'', Some 100)], ce_scanners := [''ALPHA'']\<rparr>"

definition demo_empty_runner :: runner where
  "demo_empty_runner = demo_runner\<lparr>ru_engine := demo_engine\<rparr>"

lemma demo_reads: "reads_tables (sx_store demo_world) 5 demo_repo demo_paper_cycle"
  using demo_world_rows(2) load_ready_answer
  by (simp add: reads_tables_def demo_paper_cycle_def demo_cycle_def demo_repo_def get_paper_trade_by_setup_def)

theorem positions_come_from_cleared_setups_witness:
  "case sx_store (foldl world_step (fresh_scanner sample_dedup) [ScannerRound demo_round [''BTCUSDT'', ''ETHUSDT'']]) of db \<Rightarrow>
    list_all (\<lambda>t. dget (pe_open (ru_engine demo_empty_runner)) (pt_symbol t) = None \<and>
      list_ex (\<lambda>r. justified (sweeps [ScannerRound demo_round [''BTCUSDT'', ''ETHUSDT'']]) db 5 t r \<and>
          entitled plain_settings demo_repo demo_paper_cycle
            (get_prices (needed_symbols demo_paper_cycle (ru_engine demo_empty_runner)) (ce_tickers demo_paper_cycle)) t (ready_row_of r))
        (db_setups db))
    (fst (fst (run_entry_cycle plain_settings demo_shadow_config demo_repo (\<lambda>_. None) demo_paper_cycle demo_empty_runner)))"
proof (rule positions_come_from_cleared_setups)
  show "list_all by_the_processes [ScannerRound demo_round [''BTCUSDT'', ''ETHUSDT'']]" by (simp add: demo_round_def demo_sweep_def)
  show "dwf (pe_open (ru_engine demo_empty_runner))" by (simp add: demo_empty_runner_def demo_engine_def)
  show "reads_tables (sx_store (foldl world_step (fresh_scanner sample_dedup) [ScannerRound demo_round [''BTCUSDT'', ''ETHUSDT'']])) 5
      demo_repo demo_paper_cycle"
    using demo_reads unfolding demo_world_def .
qed

text \<open>A startup that is refused once by the open breaker and then gets its universe.\<close>

definition demo_refusal :: client_error where
  "demo_refusal = (plain_error ''deferred by shared rate limiter (BREAKER_OPEN: breaker_cooldown)'')\<lparr>xe_rate_limit := True\<rparr>"

theorem startup_decides_witness:
  "initialize_scanner_universe 2 \<lparr>sp_interval = 5, sp_max_interval = 60, sp_max_attempts = 0\<rparr>
     (\<lambda>n. if n = 1 then Inl demo_refusal else Inr [''BTCUSDT'']) (\<lambda>k. False) = Some (Inr (Some [''BTCUSDT'']))"
proof -
  have t: "is_temporary_startup_limiter_denial demo_refusal" by code_simp
  have "initialize_scanner_universe (Suc 1) \<lparr>sp_interval = 5, sp_max_interval = 60, sp_max_attempts = 0\<rparr>
      (\<lambda>n. if n = 1 then Inl demo_refusal else Inr [''BTCUSDT'']) (\<lambda>k. False) = Some (decided (if Suc 1 = 1 then Inl demo_refusal else Inr [''BTCUSDT'']))"
    by (rule startup_decides)
      (simp_all add: t temporary_def startup_max_interval_def startup_interval_def startup_max_attempts_def countable_delay_def
        STARTUP_RETRY_MIN_INTERVAL_S_def)
  then show ?thesis by (simp add: decided_def numeral_2_eq_2)
qed

end
