(* ===== verification/LimiterState.thy ===== *)
theory LimiterState
  imports RetryPolicy Json Decimal "HOL-Library.List_Lexorder" "HOL-Library.Char_ord"
begin

text \<open>
  The shared state of the cross-process rate limiter and its refresh
  (\<^verbatim>\<open>src/app/exchange/global_rate_limiter.py\<close>): configuration with its range checks, the
  persisted document, the transaction context of one process, the clock rules, the pruning of
  demands and grants, the resolution of a dead recovery probe and the opening of the breaker.
  The document is typed: a text that \<^verbatim>\<open>json.loads\<close> or \<^verbatim>\<open>_validate\<close> rejects is the file content
  \<open>LimCorrupt\<close>. The answers of the clocks, the process table and the file system during one
  transaction are the environment record.
\<close>

section \<open>Configuration\<close>

record lim_config =
  lc_enabled :: bool
  lc_path :: string
  lc_g :: rat
  lc_burst :: rat
  lc_weights :: "(prio \<times> rat) list"
  lc_credit_k :: rat
  lc_min_poll :: rat
  lc_max_poll :: rat
  lc_demand_ttl :: rat
  lc_pending_capacity :: int
  lc_cooldowns :: "rat list"
  lc_success_target :: int
  lc_probe_lease :: rat
  lc_clock_cap :: rat
  lc_registry_capacity :: int
  lc_max_lifetime :: rat
  lc_loop_cap :: nat
  lc_max_wait :: rat
  lc_liveness_ttl :: rat
  lc_record_attempts :: nat
  lc_record_backoff :: rat

definition default_config :: "string \<Rightarrow> lim_config" where
  "default_config path =
     \<lparr>lc_enabled = False, lc_path = path, lc_g = 8, lc_burst = 12,
      lc_weights = [(P0, 4), (P1, 2), (P2, 3 / 2), (P3, 3 / 2)], lc_credit_k = 1,
      lc_min_poll = fl (5 / 1000), lc_max_poll = fl (5 / 100), lc_demand_ttl = 120,
      lc_pending_capacity = 1024, lc_cooldowns = [5, 30, 120], lc_success_target = 20,
      lc_probe_lease = 30, lc_clock_cap = 30, lc_registry_capacity = 8192, lc_max_lifetime = 60,
      lc_loop_cap = 10000, lc_max_wait = 30, lc_liveness_ttl = 15, lc_record_attempts = 3,
      lc_record_backoff = fl (5 / 100)\<rparr>"

text \<open>The range checks in their order; the path has already been resolved.\<close>

definition config_checks :: "lim_config \<Rightarrow> (bool \<times> string) list" where
  "config_checks cfg =
     [(lc_g cfg > 0, ''g_rps must be positive''),
      (lc_burst cfg \<ge> 1, ''burst must be >= 1''),
      (list_all (\<lambda>p. dget_or (lc_weights cfg) p 0 > 0) PRIORITY_ORDER, ''weight must be positive''),
      (lc_cooldowns cfg \<noteq> [] \<and> list_all (\<lambda>c. c \<ge> 0) (lc_cooldowns cfg), ''breaker_cooldowns_s must be non-negative''),
      (lc_success_target cfg \<ge> 1, ''recovery_success_target must be >= 1''),
      (lc_max_lifetime cfg > 0, ''max_lifetime_s must be positive''),
      (lc_max_wait cfg > 0, ''max_wait_s must be positive''),
      (lc_demand_ttl cfg > 0, ''demand_ttl_s must be positive''),
      (lc_liveness_ttl cfg > 0, ''pending_liveness_ttl_s must be positive''),
      (lc_record_attempts cfg \<ge> 1, ''record_retry_attempts must be >= 1''),
      (lc_record_backoff cfg \<ge> 0, ''record_retry_backoff_s must be non-negative''),
      (lc_registry_capacity cfg \<ge> ceiling (fmul (fmul 2 (lc_g cfg)) (lc_max_lifetime cfg)),
       ''registry_capacity'')]"

definition check_config :: "lim_config \<Rightarrow> string + lim_config" where
  "check_config cfg =
     rbind (rforeach (\<lambda>(ok, msg). guard ok msg) (config_checks cfg)) (\<lambda>_. Inr cfg)"

definition config_ok :: "lim_config \<Rightarrow> bool" where
  "config_ok cfg \<longleftrightarrow> check_config cfg = Inr cfg"

definition weight_total :: "lim_config \<Rightarrow> rat" where
  "weight_total cfg = foldl (\<lambda>s p. fadd s (dget_or (lc_weights cfg) p 0)) 0 PRIORITY_ORDER"

definition share :: "lim_config \<Rightarrow> prio \<Rightarrow> rat" where
  "share cfg p = fdiv (fmul (lc_g cfg) (dget_or (lc_weights cfg) p 0)) (weight_total cfg)"

definition credit :: "lim_config \<Rightarrow> prio \<Rightarrow> rat" where
  "credit cfg p = fmul (lc_credit_k cfg) (share cfg p)"

definition cooldown_for :: "lim_config \<Rightarrow> int \<Rightarrow> rat" where
  "cooldown_for cfg level =
     lc_cooldowns cfg ! nat (min (max (level - 1) 0) (int (length (lc_cooldowns cfg)) - 1))"

text \<open>The fields that shape the shared budget, and their digest (SHA-256 of the canonical text, a
  parameter).\<close>

definition shared_semantics :: "lim_config \<Rightarrow> (string \<times> json) list" where
  "shared_semantics cfg =
     [(''g_rps'', JFloat (lc_g cfg)), (''burst'', JFloat (lc_burst cfg)),
      (''weights'', JArr (map (\<lambda>p. JFloat (dget_or (lc_weights cfg) p 0)) PRIORITY_ORDER)),
      (''credit_k_s'', JFloat (lc_credit_k cfg)), (''breaker_cooldowns_s'', JArr (map JFloat (lc_cooldowns cfg))),
      (''recovery_success_target'', JInt (lc_success_target cfg)), (''probe_lease_s'', JFloat (lc_probe_lease cfg)),
      (''clock_step_cap_s'', JFloat (lc_clock_cap cfg)), (''registry_capacity'', JInt (lc_registry_capacity cfg)),
      (''max_lifetime_s'', JFloat (lc_max_lifetime cfg)), (''max_wait_s'', JFloat (lc_max_wait cfg)),
      (''demand_ttl_s'', JFloat (lc_demand_ttl cfg)), (''pending_liveness_ttl_s'', JFloat (lc_liveness_ttl cfg)),
      (''pending_capacity'', JInt (lc_pending_capacity cfg))]"

definition fingerprint :: "(json \<Rightarrow> string) \<Rightarrow> lim_config \<Rightarrow> string" where
  "fingerprint digest cfg = digest (JObj (shared_semantics cfg))"

section \<open>The shared document\<close>

datatype breaker_state = BKR_CLOSED | BKR_OPEN | BKR_RECOVERY

record pending_entry =
  pd_prio :: prio
  pd_pid :: int
  pd_boot :: string
  pd_registered :: rat
  pd_expire :: rat
  pd_lrid :: string

text \<open>Records written before the owner identity was added have neither: \<open>gr_owner = None\<close>.\<close>

record grant_rec =
  gr_prio :: prio
  gr_issued :: rat
  gr_outcome :: "string option"
  gr_probe :: bool
  gr_owner :: "(int \<times> string) option"
  gr_sent :: bool

record probe_rec =
  pb_holder :: string
  pb_pid :: int
  pb_boot :: string
  pb_witness :: string
  pb_granted :: rat
  pb_lease_until :: rat
  pb_stall_until :: rat
  pb_marker :: bool
  pb_stalled :: bool

record breaker_rec =
  bk_state :: breaker_state
  bk_level :: int
  bk_cooldown :: rat
  bk_streak :: int
  bk_unknown :: int
  bk_probe :: "probe_rec option"

record anomaly_counts =
  an_unknown_grant :: int
  an_probe_stalled :: int
  an_pending_pruned :: int
  an_reregistered :: int

record lim_state =
  ls_last_wall :: rat
  ls_last_mono :: "rat option"
  ls_boot :: string
  ls_epoch :: int
  ls_epoch_start :: rat
  ls_seq :: int
  ls_tokens :: rat
  ls_total :: int
  ls_epoch_grants :: int
  ls_refill :: rat
  ls_fingerprint :: "string option"
  ls_usage :: "(prio \<times> int) list"
  ls_pending :: "(string \<times> pending_entry) list"
  ls_grants :: "(string \<times> grant_rec) list"
  ls_breaker :: breaker_rec
  ls_anomalies :: anomaly_counts

definition zero_usage :: "(prio \<times> int) list" where
  "zero_usage = map (\<lambda>p. (p, 0)) PRIORITY_ORDER"

text \<open>The clock readings, the identity of the process and the answers of the system in one
  transaction. \<open>en_held\<close> says whether the lock of a witness file is held by anybody, and
  \<open>en_alive\<close> is false only for a process that is provably dead.\<close>

datatype write_answer = WriteOk | WriteFails | SyncFails

record lim_env =
  en_wall :: rat
  en_mono :: rat
  en_boot :: string
  en_pid :: int
  en_dir_ok :: bool
  en_lock_ok :: bool
  en_write :: write_answer
  en_witness_ok :: bool
  en_alive :: "int \<Rightarrow> bool"
  en_held :: "string \<Rightarrow> bool"
  en_digest :: "json \<Rightarrow> string"

definition default_state :: "lim_config \<Rightarrow> lim_env \<Rightarrow> lim_state" where
  "default_state cfg e =
     \<lparr>ls_last_wall = en_wall e, ls_last_mono = Some (en_mono e), ls_boot = en_boot e, ls_epoch = 1,
      ls_epoch_start = en_wall e, ls_seq = 0, ls_tokens = lc_burst cfg, ls_total = 0, ls_epoch_grants = 0,
      ls_refill = 0, ls_fingerprint = Some (fingerprint (en_digest e) cfg), ls_usage = zero_usage,
      ls_pending = [], ls_grants = [],
      ls_breaker = \<lparr>bk_state = BKR_CLOSED, bk_level = 0, bk_cooldown = 0, bk_streak = 0, bk_unknown = 0,
                    bk_probe = None\<rparr>,
      ls_anomalies = \<lparr>an_unknown_grant = 0, an_probe_stalled = 0, an_pending_pruned = 0, an_reregistered = 0\<rparr>\<rparr>"

section \<open>Grant identifiers\<close>

definition grant_id :: "int \<Rightarrow> int \<Rightarrow> string" where
  "grant_id epoch seq = ''e'' @ int_text epoch @ '':'' @ int_text seq"

text \<open>\<^verbatim>\<open>_gid_epoch\<close>: the text between the leading \<^verbatim>\<open>e\<close> and the first colon.\<close>

definition gid_epoch :: "string \<Rightarrow> int option" where
  "gid_epoch gid =
     (if CHR '':'' \<notin> set gid then None
      else let part = takeWhile (\<lambda>c. c \<noteq> CHR '':'') gid in
        if \<not> starts_with ''e'' part then None else parse_int (drop 1 part))"

text \<open>The epoch an identifier was issued in is read back from it.\<close>

lemma gid_epoch_grant_id: "0 \<le> ep \<Longrightarrow> gid_epoch (grant_id ep s) = Some ep"
proof -
  assume ep: "0 \<le> ep"
  have "takeWhile (\<lambda>c. c \<noteq> CHR '':'') (int_text ep @ xs) = int_text ep @ takeWhile (\<lambda>c. c \<noteq> CHR '':'') xs" for xs
    using int_text_clean [OF ep] by (intro takeWhile_append2) metis
  then have "takeWhile (\<lambda>c. c \<noteq> CHR '':'') (grant_id ep s) = CHR ''e'' # int_text ep"
    by (simp add: grant_id_def)
  then show ?thesis
    using parse_int_text [OF ep] by (simp add: gid_epoch_def grant_id_def starts_with_def)
qed

lemma grant_id_inject:
  assumes "0 \<le> ep" "0 \<le> ep'" "0 \<le> s" "0 \<le> s'" "grant_id ep s = grant_id ep' s'"
  shows "ep = ep' \<and> s = s'"
proof -
  have "Some ep = Some ep'"
    unfolding gid_epoch_grant_id [OF assms(1), of s, symmetric] gid_epoch_grant_id [OF assms(2), of s', symmetric]
    by (simp only: assms(5))
  then have ep: "ep = ep'" by simp
  have "int_text s = int_text s'" using assms(5) unfolding ep grant_id_def by simp
  then have "Some s = Some s'"
    unfolding parse_int_text [OF assms(3), symmetric] parse_int_text [OF assms(4), symmetric] by (rule arg_cong)
  with ep show ?thesis by simp
qed

definition base_name :: "string \<Rightarrow> string" where
  "base_name path = rev (takeWhile (\<lambda>c. c \<noteq> CHR ''/'') (rev path))"

definition witness_name :: "string \<Rightarrow> string \<Rightarrow> string" where
  "witness_name path gid =
     base_name path @ ''.'' @ map (\<lambda>c. if c = CHR '':'' then CHR ''-'' else c) gid @ ''.witness''"

text \<open>The grant identifier a file name of the witness directory stands for.\<close>

definition witness_gid :: "string \<Rightarrow> string \<Rightarrow> string option" where
  "witness_gid path nm =
     (let prefix = base_name path @ ''.''; suffix = ''.witness'' in
      if starts_with prefix nm \<and> starts_with (rev suffix) (rev nm)
      then Some (map (\<lambda>c. if c = CHR ''-'' then CHR '':'' else c)
             (drop (length prefix) (take (length nm - length suffix) nm)))
      else None)"

section \<open>The transaction context\<close>

datatype lim_error =
    DirUnavailable | LockUnavailable | ReadFailed | CorruptState | ConfigMismatch | WriteFailed
  | WitnessFailed | RegistryCapacity | PendingCapacity | LoopExceeded

text \<open>The document under work with the dirty flag, the witnesses this instance holds (by grant
  identifier) and the request identifiers whose drop failed.\<close>

record lim_tx =
  tx_st :: lim_state
  tx_dirty :: bool
  tx_held :: "string list"
  tx_leaked :: "string list"

abbreviation on_state :: "(lim_state \<Rightarrow> lim_state) \<Rightarrow> lim_tx \<Rightarrow> lim_tx" where
  "on_state f tx \<equiv> tx\<lparr>tx_st := f (tx_st tx)\<rparr>"

definition touch :: "(lim_state \<Rightarrow> lim_state) \<Rightarrow> lim_tx \<Rightarrow> lim_tx" where
  "touch f tx = tx\<lparr>tx_st := f (tx_st tx), tx_dirty := True\<rparr>"

definition upd_breaker :: "(breaker_rec \<Rightarrow> breaker_rec) \<Rightarrow> lim_state \<Rightarrow> lim_state" where
  "upd_breaker f st = st\<lparr>ls_breaker := f (ls_breaker st)\<rparr>"

definition upd_anomalies :: "(anomaly_counts \<Rightarrow> anomaly_counts) \<Rightarrow> lim_state \<Rightarrow> lim_state" where
  "upd_anomalies f st = st\<lparr>ls_anomalies := f (ls_anomalies st)\<rparr>"

definition release_witness :: "string \<Rightarrow> lim_tx \<Rightarrow> lim_tx" where
  "release_witness gid tx = tx\<lparr>tx_held := filter (\<lambda>g. g \<noteq> gid) (tx_held tx)\<rparr>"

section \<open>Opening the breaker\<close>

definition open_breaker :: "lim_config \<Rightarrow> rat \<Rightarrow> bool \<Rightarrow> lim_state \<Rightarrow> lim_state" where
  "open_breaker cfg wall bump st =
     (let br = ls_breaker st;
          level = (if bump then min (bk_level br + 1) (int (length (lc_cooldowns cfg))) else bk_level br)
      in st\<lparr>ls_breaker := br\<lparr>bk_level := level, bk_state := BKR_OPEN,
                             bk_cooldown := fadd wall (cooldown_for cfg level), bk_streak := 0, bk_probe := None\<rparr>,
            ls_epoch := ls_epoch st + 1, ls_epoch_start := wall, ls_epoch_grants := 0, ls_usage := zero_usage\<rparr>)"

definition apply_open :: "lim_config \<Rightarrow> rat \<Rightarrow> bool \<Rightarrow> lim_tx \<Rightarrow> lim_tx" where
  "apply_open cfg wall bump tx =
     (let tx1 = (case bk_probe (ls_breaker (tx_st tx)) of None \<Rightarrow> tx | Some p \<Rightarrow> release_witness (pb_holder p) tx)
      in touch (open_breaker cfg wall bump) tx1)"

text \<open>Closing a grant record that is still open.\<close>

definition close_grant :: "string \<Rightarrow> string \<Rightarrow> lim_state \<Rightarrow> lim_state" where
  "close_grant gid outcome st =
     (case dget (ls_grants st) gid of None \<Rightarrow> st
      | Some r \<Rightarrow> if gr_outcome r = None
                  then st\<lparr>ls_grants := dput gid (r\<lparr>gr_outcome := Some outcome\<rparr>) (ls_grants st)\<rparr> else st)"

definition drop_probe :: "breaker_rec \<Rightarrow> breaker_rec" where
  "drop_probe br = br\<lparr>bk_probe := None\<rparr>"

definition resolve_dead_probe :: "lim_config \<Rightarrow> rat \<Rightarrow> probe_rec \<Rightarrow> lim_tx \<Rightarrow> lim_tx" where
  "resolve_dead_probe cfg wall p tx =
     (let gid = pb_holder p;
          tx1 = touch (\<lambda>st. upd_breaker drop_probe
                  (close_grant gid (if pb_marker p then ''UNKNOWN'' else ''NOT_SENT'') st)) tx;
          tx2 = (if pb_marker p
                 then touch (upd_breaker (\<lambda>br. br\<lparr>bk_unknown := bk_unknown br + 1\<rparr>)) (apply_open cfg wall False tx1)
                 else tx1)
      in release_witness gid tx2)"

section \<open>Refresh\<close>

definition bump_pruned :: "int \<Rightarrow> lim_state \<Rightarrow> lim_state" where
  "bump_pruned n = upd_anomalies (\<lambda>a. a\<lparr>an_pending_pruned := an_pending_pruned a + n\<rparr>)"

definition heal_one :: "lim_tx \<Rightarrow> string \<Rightarrow> lim_tx" where
  "heal_one tx rid =
     (if dhas (ls_pending (tx_st tx)) rid
      then touch (\<lambda>st. bump_pruned 1 (st\<lparr>ls_pending := ddel rid (ls_pending st)\<rparr>)) tx else tx)"

definition self_heal :: "lim_tx \<Rightarrow> lim_tx" where
  "self_heal tx = (foldl heal_one tx (tx_leaked tx))\<lparr>tx_leaked := []\<rparr>"

datatype clock_step = StepForward | StepBackward | StepNormal

definition classify_step :: "lim_config \<Rightarrow> rat \<Rightarrow> rat \<Rightarrow> rat option \<Rightarrow> clock_step" where
  "classify_step cfg d_wall mnow last_mono =
     (case last_mono of
        None \<Rightarrow> if d_wall < 0 then StepBackward
                else if d_wall > lc_clock_cap cfg then StepForward else StepNormal
      | Some lm \<Rightarrow>
          let skew = fsub d_wall (fsub mnow lm)
          in if skew > lc_clock_cap cfg then StepForward
             else if skew < - lc_clock_cap cfg then StepBackward else StepNormal)"

definition rebaseline :: "lim_env \<Rightarrow> lim_state \<Rightarrow> lim_state" where
  "rebaseline e st = st\<lparr>ls_last_wall := en_wall e, ls_last_mono := Some (en_mono e)\<rparr>"

definition rearm :: "lim_config \<Rightarrow> rat \<Rightarrow> lim_state \<Rightarrow> lim_state" where
  "rearm cfg wall = upd_breaker (\<lambda>br.
     if bk_state br = BKR_OPEN
     then br\<lparr>bk_cooldown := max (bk_cooldown br) (fadd wall (cooldown_for cfg (bk_level br)))\<rparr> else br)"

definition refill_amount :: "lim_config \<Rightarrow> rat \<Rightarrow> rat \<Rightarrow> rat" where
  "refill_amount cfg delta tokens = min (fmul (lc_g cfg) delta) (max 0 (fsub (lc_burst cfg) tokens))"

definition refill :: "lim_config \<Rightarrow> lim_env \<Rightarrow> rat \<Rightarrow> lim_state \<Rightarrow> lim_state" where
  "refill cfg e delta st =
     (if delta > 0
      then let applied = refill_amount cfg delta (ls_tokens st)
        in st\<lparr>ls_tokens := fadd (ls_tokens st) applied, ls_refill := fadd (ls_refill st) applied,
              ls_last_wall := en_wall e, ls_last_mono := Some (en_mono e)\<rparr>
      else st\<lparr>ls_last_mono := Some (en_mono e)\<rparr>)"

definition clock_rules :: "lim_config \<Rightarrow> lim_env \<Rightarrow> lim_tx \<Rightarrow> lim_tx" where
  "clock_rules cfg e tx =
     (let st = tx_st tx in
      if ls_boot st \<noteq> en_boot e
      then touch (\<lambda>st. (rebaseline e st)\<lparr>ls_boot := en_boot e\<rparr>) tx
      else let d_wall = fsub (en_wall e) (ls_last_wall st) in
        case classify_step cfg d_wall (en_mono e) (ls_last_mono st) of
          StepForward \<Rightarrow> touch (\<lambda>st. rearm cfg (en_wall e) (rebaseline e st)) tx
        | StepBackward \<Rightarrow> touch (rebaseline e) tx
        | StepNormal \<Rightarrow> on_state (refill cfg e d_wall) tx)"

definition pending_dead :: "lim_env \<Rightarrow> pending_entry \<Rightarrow> bool" where
  "pending_dead e p \<longleftrightarrow> pd_expire p < en_wall e \<or> pd_boot p \<noteq> en_boot e \<or>
     (pd_pid p \<noteq> en_pid e \<and> \<not> en_alive e (pd_pid p))"

definition prune_pending :: "lim_env \<Rightarrow> lim_tx \<Rightarrow> lim_tx" where
  "prune_pending e tx =
     (let dead = filter (\<lambda>(rid, p). pending_dead e p) (ls_pending (tx_st tx)) in
      if dead = [] then tx
      else touch (\<lambda>st. bump_pruned (int (length dead))
                    (st\<lparr>ls_pending := filter (\<lambda>(rid, p). \<not> pending_dead e p) (ls_pending st)\<rparr>)) tx)"

definition mark_stalled :: "probe_rec \<Rightarrow> lim_state \<Rightarrow> lim_state" where
  "mark_stalled p st =
     upd_anomalies (\<lambda>a. a\<lparr>an_probe_stalled := an_probe_stalled a + 1\<rparr>)
       (upd_breaker (\<lambda>br. br\<lparr>bk_probe := Some (p\<lparr>pb_stalled := True\<rparr>)\<rparr>) st)"

definition resolve_probe :: "lim_config \<Rightarrow> lim_env \<Rightarrow> lim_tx \<Rightarrow> lim_tx" where
  "resolve_probe cfg e tx =
     (case bk_probe (ls_breaker (tx_st tx)) of
        None \<Rightarrow> tx
      | Some p \<Rightarrow>
          if pb_boot p \<noteq> en_boot e \<or> \<not> en_held e (pb_witness p) then resolve_dead_probe cfg (en_wall e) p tx
          else if en_wall e \<ge> pb_stall_until p \<and> \<not> pb_stalled p then touch (mark_stalled p) tx
          else tx)"

definition enter_recovery :: "lim_env \<Rightarrow> lim_tx \<Rightarrow> lim_tx" where
  "enter_recovery e tx =
     (let br = ls_breaker (tx_st tx) in
      if bk_state br = BKR_OPEN \<and> en_wall e \<ge> bk_cooldown br
      then touch (upd_breaker (\<lambda>br. br\<lparr>bk_state := BKR_RECOVERY, bk_probe := None, bk_streak := 0\<rparr>)) tx
      else tx)"

definition owner_dead :: "lim_env \<Rightarrow> grant_rec \<Rightarrow> bool" where
  "owner_dead e r \<longleftrightarrow> gr_outcome r = None \<and> \<not> gr_probe r \<and>
     (case gr_owner r of None \<Rightarrow> False
      | Some (pid, boot) \<Rightarrow> boot \<noteq> en_boot e \<or> (pid \<noteq> en_pid e \<and> \<not> en_alive e pid))"

definition reconcile_one :: "lim_env \<Rightarrow> grant_rec \<Rightarrow> grant_rec" where
  "reconcile_one e r =
     (if owner_dead e r then r\<lparr>gr_outcome := Some (if gr_sent r then ''UNKNOWN'' else ''NOT_SENT'')\<rparr> else r)"

definition reconcile_owners :: "lim_env \<Rightarrow> lim_tx \<Rightarrow> lim_tx" where
  "reconcile_owners e tx =
     (if list_ex (\<lambda>(g, r). owner_dead e r) (ls_grants (tx_st tx))
      then touch (\<lambda>st. st\<lparr>ls_grants := map (\<lambda>(g, r). (g, reconcile_one e r)) (ls_grants st)\<rparr>) tx else tx)"

definition grant_aged :: "lim_config \<Rightarrow> lim_env \<Rightarrow> grant_rec \<Rightarrow> bool" where
  "grant_aged cfg e r \<longleftrightarrow> gr_outcome r \<noteq> None \<and> fsub (en_wall e) (gr_issued r) \<ge> lc_max_lifetime cfg"

definition evict_grants :: "lim_config \<Rightarrow> lim_env \<Rightarrow> lim_tx \<Rightarrow> lim_tx" where
  "evict_grants cfg e tx =
     (if list_ex (\<lambda>(g, r). grant_aged cfg e r) (ls_grants (tx_st tx))
      then touch (\<lambda>st. st\<lparr>ls_grants := filter (\<lambda>(g, r). \<not> grant_aged cfg e r) (ls_grants st)\<rparr>) tx else tx)"

definition lim_refresh :: "lim_config \<Rightarrow> lim_env \<Rightarrow> lim_tx \<Rightarrow> lim_tx" where
  "lim_refresh cfg e tx =
     evict_grants cfg e (reconcile_owners e (enter_recovery e (resolve_probe cfg e
       (prune_pending e (clock_rules cfg e (self_heal tx))))))"

section \<open>Transactions\<close>

datatype lim_file = LimAbsent | LimUnreadable | LimCorrupt | LimDoc lim_state

definition lim_load :: "lim_config \<Rightarrow> lim_env \<Rightarrow> bool \<Rightarrow> lim_file \<Rightarrow> lim_error + (lim_state \<times> bool)" where
  "lim_load cfg e write file =
     (case file of
        LimAbsent \<Rightarrow> Inr (default_state cfg e, False)
      | LimUnreadable \<Rightarrow> Inl ReadFailed
      | LimCorrupt \<Rightarrow> Inl CorruptState
      | LimDoc st \<Rightarrow>
          (case ls_fingerprint st of
             None \<Rightarrow> if write then Inr (st\<lparr>ls_fingerprint := Some (fingerprint (en_digest e) cfg)\<rparr>, True)
                     else Inr (st, False)
           | Some f \<Rightarrow> if f \<noteq> fingerprint (en_digest e) cfg then Inl ConfigMismatch else Inr (st, False)))"

text \<open>One instance of the limiter in a process: the witnesses it holds and its failed drops.\<close>

record lim_proc =
  lp_held :: "string list"
  lp_leaked :: "string list"

definition proc_of :: "lim_tx \<Rightarrow> lim_proc" where
  "proc_of tx = \<lparr>lp_held = tx_held tx, lp_leaked = tx_leaked tx\<rparr>"

text \<open>A write transaction. The body returns a value or raises; what it changed is written on every
  exit when it is dirty, and a failing write raises unless the body already did. A failing
  directory sync happens after the replacement: the document is on disk and the error is raised.\<close>

definition lim_transaction ::
  "lim_config \<Rightarrow> lim_env \<Rightarrow> (lim_tx \<Rightarrow> (lim_error + 'a) \<times> lim_tx) \<Rightarrow> lim_file \<Rightarrow> lim_proc \<Rightarrow>
   (lim_error + 'a) \<times> lim_file \<times> lim_proc" where
  "lim_transaction cfg e body file p =
     (if \<not> en_dir_ok e then (Inl DirUnavailable, file, p)
      else if \<not> en_lock_ok e then (Inl LockUnavailable, file, p)
      else case lim_load cfg e True file of
        Inl err \<Rightarrow> (Inl err, file, p)
      | Inr (st, dirty) \<Rightarrow>
          (case body \<lparr>tx_st = st, tx_dirty = dirty, tx_held = lp_held p, tx_leaked = lp_leaked p\<rparr> of
             (r, tx) \<Rightarrow>
               if \<not> tx_dirty tx then (r, file, proc_of tx)
               else let file' = (if en_write e = WriteFails then file else LimDoc (tx_st tx))
                 in (if en_write e = WriteOk \<or> isl r then r else Inl WriteFailed, file', proc_of tx)))"

definition lim_read :: "lim_config \<Rightarrow> lim_env \<Rightarrow> lim_file \<Rightarrow> lim_error + lim_state" where
  "lim_read cfg e file =
     (if \<not> en_dir_ok e then Inl DirUnavailable else if \<not> en_lock_ok e then Inl LockUnavailable
      else rbind (lim_load cfg e False file) (\<lambda>(st, d). Inr st))"

end
