(* ===== verification/LimiterGrant.thy ===== *)
theory LimiterGrant
  imports LimiterState
begin

text \<open>
  The operations of the rate limiter on the shared document
  (\<^verbatim>\<open>src/app/exchange/global_rate_limiter.py\<close>): the selection among the waiting demands, the
  grant, \<^verbatim>\<open>acquire\<close> with its polling loop, \<^verbatim>\<open>prepare_send\<close>, \<^verbatim>\<open>record_result\<close> with its
  bounded retry, and the read-only views. An iteration of a loop meets its own environment and
  its own file content: other processes run between two transactions.
\<close>

section \<open>Selection\<close>

definition earlier :: "rat \<times> string \<Rightarrow> rat \<times> string \<Rightarrow> bool" where
  "earlier a b \<longleftrightarrow> fst a < fst b \<or> (fst a = fst b \<and> snd a < snd b)"

text \<open>The FIFO head of a class; demands whose drop failed in this instance are skipped.\<close>

definition head_of :: "string list \<Rightarrow> lim_state \<Rightarrow> prio \<Rightarrow> string option" where
  "head_of leaked st p =
     map_option snd
       (foldl (\<lambda>best (rid, d).
          if pd_prio d \<noteq> p \<or> rid \<in> set leaked then best
          else case best of None \<Rightarrow> Some (pd_registered d, rid)
               | Some b \<Rightarrow> if earlier (pd_registered d, rid) b then Some (pd_registered d, rid) else best)
        None (ls_pending st))"

definition usage_of :: "lim_state \<Rightarrow> prio \<Rightarrow> int" where
  "usage_of st p = dget_or (ls_usage st) p 0"

definition epoch_elapsed :: "lim_env \<Rightarrow> lim_state \<Rightarrow> rat" where
  "epoch_elapsed e st = max 0 (fsub (en_wall e) (ls_epoch_start st))"

definition allowance :: "lim_config \<Rightarrow> lim_env \<Rightarrow> lim_state \<Rightarrow> prio \<Rightarrow> rat" where
  "allowance cfg e st p = fadd (fmul (share cfg p) (epoch_elapsed e st)) (credit cfg p)"

definition eligible :: "lim_config \<Rightarrow> lim_env \<Rightarrow> lim_state \<Rightarrow> prio \<Rightarrow> bool" where
  "eligible cfg e st p \<longleftrightarrow> of_int (usage_of st p) \<le> allowance cfg e st p"

fun first_eligible :: "lim_config \<Rightarrow> lim_env \<Rightarrow> string list \<Rightarrow> lim_state \<Rightarrow> prio list \<Rightarrow> (prio \<times> string) option" where
  "first_eligible cfg e leaked st [] = None"
| "first_eligible cfg e leaked st (p # ps) =
     (case head_of leaked st p of
        Some h \<Rightarrow> if eligible cfg e st p then Some (p, h) else first_eligible cfg e leaked st ps
      | None \<Rightarrow> first_eligible cfg e leaked st ps)"

definition best_eligible :: "lim_config \<Rightarrow> lim_env \<Rightarrow> string list \<Rightarrow> lim_state \<Rightarrow> (prio \<times> string) option" where
  "best_eligible cfg e leaked st = first_eligible cfg e leaked st PRIORITY_ORDER"

text \<open>How many other classes wait; an empty identifier would not count.\<close>

definition other_heads :: "string list \<Rightarrow> lim_state \<Rightarrow> prio \<Rightarrow> int" where
  "other_heads leaked st p =
     int (length (filter (\<lambda>q. q \<noteq> p \<and> (case head_of leaked st q of None \<Rightarrow> False | Some h \<Rightarrow> h \<noteq> []))
       PRIORITY_ORDER))"

definition borrow_ratio :: "lim_config \<Rightarrow> lim_env \<Rightarrow> lim_state \<Rightarrow> prio \<Rightarrow> rat" where
  "borrow_ratio cfg e st p = fdiv (of_int (usage_of st p)) (max (allowance cfg e st p) (fl (1 / 1000000000)))"

definition borrow_candidate :: "lim_config \<Rightarrow> lim_env \<Rightarrow> string list \<Rightarrow> lim_state \<Rightarrow> (prio \<times> string) option" where
  "borrow_candidate cfg e leaked st =
     map_option snd
       (foldl (\<lambda>best p. case head_of leaked st p of
            None \<Rightarrow> best
          | Some h \<Rightarrow>
              if fsub (ls_tokens st) 1 < of_int (other_heads leaked st p) then best
              else let r = borrow_ratio cfg e st p in
                case best of None \<Rightarrow> Some (r, (p, h))
                | Some (rb, b) \<Rightarrow> if r < rb then Some (r, (p, h)) else best)
        None PRIORITY_ORDER)"

definition wait_hint :: "lim_config \<Rightarrow> lim_env \<Rightarrow> lim_state \<Rightarrow> prio \<Rightarrow> rat" where
  "wait_hint cfg e st p =
     (let tok = (if ls_tokens st < 1 then [fdiv (fsub 1 (ls_tokens st)) (lc_g cfg)] else []);
          use = (if of_int (usage_of st p) > credit cfg p
                 then [max 0 (fsub (fadd (ls_epoch_start st)
                                (fdiv (fsub (of_int (usage_of st p)) (credit cfg p)) (share cfg p))) (en_wall e))]
                 else []);
          hint = (case tok @ use of [] \<Rightarrow> lc_max_poll cfg | [a] \<Rightarrow> a | a # b # _ \<Rightarrow> min a b)
      in min (max hint (lc_min_poll cfg)) (lc_max_poll cfg))"

section \<open>The grant\<close>

record grant_info =
  gi_gid :: string
  gi_epoch :: int
  gi_probe :: bool

definition new_grant :: "lim_env \<Rightarrow> prio \<Rightarrow> bool \<Rightarrow> grant_rec" where
  "new_grant e p recovery =
     \<lparr>gr_prio = p, gr_issued = en_wall e, gr_outcome = None, gr_probe = recovery,
      gr_owner = Some (en_pid e, en_boot e), gr_sent = False\<rparr>"

definition new_probe :: "lim_config \<Rightarrow> lim_env \<Rightarrow> string \<Rightarrow> probe_rec" where
  "new_probe cfg e gid =
     \<lparr>pb_holder = gid, pb_pid = en_pid e, pb_boot = en_boot e, pb_witness = witness_name (lc_path cfg) gid,
      pb_granted = en_wall e, pb_lease_until = fadd (en_wall e) (lc_probe_lease cfg),
      pb_stall_until = fadd (en_wall e) (lc_probe_lease cfg), pb_marker = False, pb_stalled = False\<rparr>"

definition issue_grant :: "lim_config \<Rightarrow> lim_env \<Rightarrow> prio \<Rightarrow> string \<Rightarrow> bool \<Rightarrow> lim_state \<Rightarrow> lim_state" where
  "issue_grant cfg e p req recovery st =
     (let seq = ls_seq st + 1; gid = grant_id (ls_epoch st) seq;
          br = ls_breaker st
      in st\<lparr>ls_seq := seq, ls_tokens := fsub (ls_tokens st) 1,
            ls_usage := dput p (usage_of st p + 1) (ls_usage st),
            ls_epoch_grants := ls_epoch_grants st + 1, ls_total := ls_total st + 1,
            ls_grants := dput gid (new_grant e p recovery) (ls_grants st),
            ls_breaker := (if recovery then br\<lparr>bk_probe := Some (new_probe cfg e gid)\<rparr> else br),
            ls_pending := ddel req (ls_pending st)\<rparr>)"

text \<open>\<open>Inr None\<close>: not this demand's turn.\<close>

definition try_grant ::
  "lim_config \<Rightarrow> lim_env \<Rightarrow> prio \<Rightarrow> string \<Rightarrow> lim_tx \<Rightarrow> (lim_error + grant_info option) \<times> lim_tx" where
  "try_grant cfg e p req tx =
     (let st = tx_st tx; recovery = (bk_state (ls_breaker st) = BKR_RECOVERY) in
      if ls_tokens st < 1 then (Inr None, tx)
      else if recovery \<and> bk_probe (ls_breaker st) \<noteq> None then (Inr None, tx)
      else if (case best_eligible cfg e (tx_leaked tx) st of
                 Some c \<Rightarrow> c \<noteq> (p, req)
               | None \<Rightarrow> borrow_candidate cfg e (tx_leaked tx) st \<noteq> Some (p, req)) then (Inr None, tx)
      else if int (length (ls_grants st)) \<ge> lc_registry_capacity cfg then (Inl RegistryCapacity, tx)
      else if recovery \<and> \<not> en_witness_ok e then (Inl WitnessFailed, tx)
      else (Inr (Some \<lparr>gi_gid = grant_id (ls_epoch st) (ls_seq st + 1), gi_epoch = ls_epoch st, gi_probe = recovery\<rparr>),
            touch (issue_grant cfg e p req recovery) tx))"

definition drop_locked :: "string \<Rightarrow> lim_tx \<Rightarrow> lim_tx" where
  "drop_locked req tx =
     (if dhas (ls_pending (tx_st tx)) req then touch (\<lambda>st. st\<lparr>ls_pending := ddel req (ls_pending st)\<rparr>) tx else tx)"

definition drop_body :: "lim_config \<Rightarrow> lim_env \<Rightarrow> string \<Rightarrow> lim_tx \<Rightarrow> (lim_error + unit) \<times> lim_tx" where
  "drop_body cfg e req tx = (Inr (), drop_locked req (lim_refresh cfg e tx))"

text \<open>\<^verbatim>\<open>_drop\<close>: two attempts, then the demand is remembered as leaked.\<close>

definition lim_drop ::
  "lim_config \<Rightarrow> string \<Rightarrow> (lim_env \<times> lim_file) \<Rightarrow> (lim_env \<times> lim_file) \<Rightarrow> lim_proc \<Rightarrow> lim_file list \<times> lim_proc" where
  "lim_drop cfg req at1 at2 p =
     (case lim_transaction cfg (fst at1) (drop_body cfg (fst at1) req) (snd at1) p of
        (Inr _, f1, p1) \<Rightarrow> ([f1], p1)
      | (Inl _, f1, p1) \<Rightarrow>
          (case lim_transaction cfg (fst at2) (drop_body cfg (fst at2) req) (snd at2) p1 of
             (Inr _, f2, p2) \<Rightarrow> ([f1, f2], p2)
           | (Inl _, f2, p2) \<Rightarrow> ([f1, f2], p2\<lparr>lp_leaked := req # lp_leaked p2\<rparr>)))"

section \<open>Acquire\<close>

datatype grant_result = GRANTED | SKIPPED | BREAKER_OPEN | STATE_UNAVAILABLE

record grant_outcome =
  go_result :: grant_result
  go_gid :: string
  go_epoch :: int
  go_probe :: bool
  go_reason :: string

definition outcome_of :: "grant_result \<Rightarrow> string \<Rightarrow> grant_outcome" where
  "outcome_of r reason = \<lparr>go_result = r, go_gid = [], go_epoch = 0, go_probe = False, go_reason = reason\<rparr>"

fun error_code :: "lim_error \<Rightarrow> string" where
  "error_code DirUnavailable = ''dir_unavailable''"
| "error_code LockUnavailable = ''lock_unavailable''"
| "error_code ReadFailed = ''read_failed''"
| "error_code CorruptState = ''corrupt_state''"
| "error_code ConfigMismatch = ''config_mismatch''"
| "error_code WriteFailed = ''write_failed''"
| "error_code WitnessFailed = ''witness_failed''"
| "error_code RegistryCapacity = ''registry_capacity''"
| "error_code PendingCapacity = ''pending_capacity''"
| "error_code LoopExceeded = ''loop_exceeded''"

definition unavailable :: "lim_error \<Rightarrow> grant_outcome" where
  "unavailable err = outcome_of STATE_UNAVAILABLE (error_code err)"

text \<open>The demand of one call: its request identifier, and the time of its first registration once
  it is registered.\<close>

record demand =
  dm_prio :: prio
  dm_req :: string
  dm_lrid :: string
  dm_anchor :: "rat option"

definition entry_for :: "lim_config \<Rightarrow> lim_env \<Rightarrow> demand \<Rightarrow> rat \<Rightarrow> pending_entry" where
  "entry_for cfg e d anchor =
     \<lparr>pd_prio = dm_prio d, pd_pid = en_pid e, pd_boot = en_boot e, pd_registered = anchor,
      pd_expire = min (fadd anchor (lc_demand_ttl cfg)) (fadd (en_wall e) (lc_liveness_ttl cfg)),
      pd_lrid = take 64 (dm_lrid d)\<rparr>"

datatype register_result = RegError lim_error | RegExpired | RegOk

definition put_pending :: "string \<Rightarrow> pending_entry \<Rightarrow> lim_state \<Rightarrow> lim_state" where
  "put_pending req x st = st\<lparr>ls_pending := dput req x (ls_pending st)\<rparr>"

definition bump_reregistered :: "lim_state \<Rightarrow> lim_state" where
  "bump_reregistered = upd_anomalies (\<lambda>a. a\<lparr>an_reregistered := an_reregistered a + 1\<rparr>)"

text \<open>First registration, re-registration of a demand that was pruned while waiting, or renewal.\<close>

definition register_demand :: "lim_config \<Rightarrow> lim_env \<Rightarrow> demand \<Rightarrow> lim_tx \<Rightarrow> register_result \<times> demand \<times> lim_tx" where
  "register_demand cfg e d tx =
     (let st = tx_st tx; full = (int (length (ls_pending st)) \<ge> lc_pending_capacity cfg) in
      case dm_anchor d of
        None \<Rightarrow>
          if full then (RegError PendingCapacity, d, tx)
          else (RegOk, d\<lparr>dm_anchor := Some (en_wall e)\<rparr>, touch (put_pending (dm_req d) (entry_for cfg e d (en_wall e))) tx)
      | Some anchor \<Rightarrow>
          (case dget (ls_pending st) (dm_req d) of
             None \<Rightarrow>
               if fsub (en_wall e) anchor \<ge> lc_demand_ttl cfg then (RegExpired, d, drop_locked (dm_req d) tx)
               else if full then (RegError PendingCapacity, d, tx)
               else (RegOk, d, touch (\<lambda>st. bump_reregistered (put_pending (dm_req d) (entry_for cfg e d anchor) st)) tx)
           | Some x \<Rightarrow>
               if fsub (pd_expire x) (en_wall e) < fdiv (lc_liveness_ttl cfg) 2
               then (RegOk, d, touch (put_pending (dm_req d) (x\<lparr>pd_expire :=
                        min (fadd (pd_registered x) (lc_demand_ttl cfg)) (fadd (en_wall e) (lc_liveness_ttl cfg))\<rparr>)) tx)
               else (RegOk, d, tx)))"

text \<open>What one transaction of \<^verbatim>\<open>acquire\<close> ends with: an outcome, a grant, or a wait.\<close>

datatype acquire_step = AcqDone grant_outcome | AcqGrant grant_info | AcqWait rat

definition serve_demand ::
  "lim_config \<Rightarrow> lim_env \<Rightarrow> rat \<Rightarrow> demand \<Rightarrow> lim_tx \<Rightarrow> (lim_error + acquire_step) \<times> lim_tx" where
  "serve_demand cfg e budget d tx =
     (let br = ls_breaker (tx_st tx) in
      if bk_state br = BKR_OPEN
      then if dm_prio d = P3
           then (Inr (AcqDone (outcome_of BREAKER_OPEN ''breaker_open'')), drop_locked (dm_req d) tx)
           else let wait = max 0 (fsub (bk_cooldown br) (en_wall e)) in
             if wait \<ge> budget
             then (Inr (AcqDone (outcome_of BREAKER_OPEN ''breaker_cooldown_exceeds_deadline'')), drop_locked (dm_req d) tx)
             else (Inr (AcqWait (if wait > 0 then wait else lc_min_poll cfg)), tx)
      else case try_grant cfg e (dm_prio d) (dm_req d) tx of
          (Inl err, tx1) \<Rightarrow> (Inl err, tx1)
        | (Inr (Some g), tx1) \<Rightarrow> (Inr (AcqGrant g), tx1)
        | (Inr None, tx1) \<Rightarrow> (Inr (AcqWait (wait_hint cfg e (tx_st tx1) (dm_prio d))), tx1))"

definition acquire_body ::
  "lim_config \<Rightarrow> lim_env \<Rightarrow> rat \<Rightarrow> demand \<Rightarrow> lim_tx \<Rightarrow> (lim_error + acquire_step \<times> demand) \<times> lim_tx" where
  "acquire_body cfg e budget d tx =
     (case register_demand cfg e d (lim_refresh cfg e tx) of
        (RegError err, d1, tx1) \<Rightarrow> (Inl err, tx1)
      | (RegExpired, d1, tx1) \<Rightarrow> (Inr (AcqDone (outcome_of SKIPPED ''demand_expired''), d1), tx1)
      | (RegOk, d1, tx1) \<Rightarrow>
          (case serve_demand cfg e budget d1 tx1 of
             (Inl err, tx2) \<Rightarrow> (Inl err, tx2)
           | (Inr s, tx2) \<Rightarrow> (Inr (s, d1), tx2)))"

text \<open>One turn of the loop, with what it meets: the monotonic clock at its top, the environment and
  file of its transaction, those of a drop that may follow, the clock before the sleep and the
  jitter.\<close>

record acquire_turn =
  at_now :: rat
  at_env :: lim_env
  at_file :: lim_file
  at_drop1 :: "lim_env \<times> lim_file"
  at_drop2 :: "lim_env \<times> lim_file"
  at_later :: rat
  at_jitter :: rat

record acquire_report =
  ar_outcome :: grant_outcome
  ar_files :: "lim_file list"
  ar_sleeps :: "rat list"
  ar_proc :: lim_proc

definition skip_body :: "lim_config \<Rightarrow> lim_env \<Rightarrow> string \<Rightarrow> lim_tx \<Rightarrow> (lim_error + unit) \<times> lim_tx" where
  "skip_body cfg e req tx = (Inr (), drop_locked req (lim_refresh cfg e tx))"

definition sleep_time :: "lim_config \<Rightarrow> rat \<Rightarrow> rat \<Rightarrow> acquire_turn \<Rightarrow> rat option" where
  "sleep_time cfg deadline hint t =
     (let s = max (if hint \<noteq> 0 then hint else lc_max_poll cfg) (lc_min_poll cfg);
          remaining = fsub deadline (at_later t)
      in if remaining \<le> 0 then None
         else if remaining \<le> lc_min_poll cfg then Some remaining
         else Some (fadd (min s (fsub remaining (lc_min_poll cfg))) (at_jitter t)))"

definition after_drop :: "lim_config \<Rightarrow> grant_outcome \<Rightarrow> string \<Rightarrow> acquire_turn \<Rightarrow> lim_file list \<Rightarrow> rat list \<Rightarrow> lim_proc \<Rightarrow>
  acquire_report" where
  "after_drop cfg out req t files sleeps p =
     (case lim_drop cfg req (at_drop1 t) (at_drop2 t) p of
        (fs, p1) \<Rightarrow> \<lparr>ar_outcome = out, ar_files = files @ fs, ar_sleeps = sleeps, ar_proc = p1\<rparr>)"

fun acquire_loop ::
  "lim_config \<Rightarrow> rat \<Rightarrow> demand \<Rightarrow> acquire_turn list \<Rightarrow> acquire_turn \<Rightarrow> lim_file list \<Rightarrow> rat list \<Rightarrow> lim_proc \<Rightarrow>
   acquire_report" where
  "acquire_loop cfg deadline d [] end files sleeps p =
     after_drop cfg (unavailable LoopExceeded) (dm_req d) end files sleeps p"
| "acquire_loop cfg deadline d (t # ts) end files sleeps p =
     (let e = at_env t in
      if at_now t \<ge> deadline
      then (case lim_transaction cfg e (skip_body cfg e (dm_req d)) (at_file t) p of
              (r, f, p1) \<Rightarrow> \<lparr>ar_outcome = (case r of Inl err \<Rightarrow> unavailable err | Inr _ \<Rightarrow> outcome_of SKIPPED ''deadline''),
                            ar_files = files @ [f], ar_sleeps = sleeps, ar_proc = p1\<rparr>)
      else case lim_transaction cfg e (acquire_body cfg e (fsub deadline (at_now t)) d) (at_file t) p of
          (Inl err, f, p1) \<Rightarrow> after_drop cfg (unavailable err) (dm_req d) t (files @ [f]) sleeps p1
        | (Inr (AcqDone out, d1), f, p1) \<Rightarrow>
            \<lparr>ar_outcome = out, ar_files = files @ [f], ar_sleeps = sleeps, ar_proc = p1\<rparr>
        | (Inr (AcqGrant g, d1), f, p1) \<Rightarrow>
            \<lparr>ar_outcome = \<lparr>go_result = GRANTED, go_gid = gi_gid g, go_epoch = gi_epoch g, go_probe = gi_probe g,
                          go_reason = (if gi_probe g then ''recovery_probe'' else ''granted'')\<rparr>,
             ar_files = files @ [f], ar_sleeps = sleeps,
             ar_proc = (if gi_probe g then p1\<lparr>lp_held := gi_gid g # lp_held p1\<rparr> else p1)\<rparr>
        | (Inr (AcqWait hint, d1), f, p1) \<Rightarrow>
            acquire_loop cfg deadline d1 ts end (files @ [f])
              (case sleep_time cfg deadline hint t of None \<Rightarrow> sleeps | Some s \<Rightarrow> sleeps @ [s]) p1)"

definition acquire ::
  "lim_config \<Rightarrow> prio \<Rightarrow> rat \<Rightarrow> rat option \<Rightarrow> string \<Rightarrow> string \<Rightarrow> acquire_turn list \<Rightarrow> acquire_turn \<Rightarrow> lim_proc \<Rightarrow>
   acquire_report" where
  "acquire cfg p t0 deadline req lrid turns end pr =
     (if \<not> lc_enabled cfg
      then \<lparr>ar_outcome = \<lparr>go_result = GRANTED, go_gid = ''-'', go_epoch = 0, go_probe = False, go_reason = ''disabled''\<rparr>,
            ar_files = [], ar_sleeps = [], ar_proc = pr\<rparr>
      else let dl = (case deadline of None \<Rightarrow> fadd t0 (lc_max_wait cfg) | Some x \<Rightarrow> x) in
        if t0 \<ge> dl
        then \<lparr>ar_outcome = outcome_of SKIPPED ''deadline'', ar_files = [], ar_sleeps = [], ar_proc = pr\<rparr>
        else acquire_loop cfg dl \<lparr>dm_prio = p, dm_req = req, dm_lrid = lrid, dm_anchor = None\<rparr>
               (take (lc_loop_cap cfg) turns) end [] [] pr)"

section \<open>Before the send\<close>

definition bump_unknown :: "lim_state \<Rightarrow> lim_state" where
  "bump_unknown = upd_anomalies (\<lambda>a. a\<lparr>an_unknown_grant := an_unknown_grant a + 1\<rparr>)"

definition set_outcome :: "string \<Rightarrow> string \<Rightarrow> grant_rec \<Rightarrow> lim_state \<Rightarrow> lim_state" where
  "set_outcome gid out r st = st\<lparr>ls_grants := dput gid (r\<lparr>gr_outcome := Some out\<rparr>) (ls_grants st)\<rparr>"

definition mark_sent :: "string \<Rightarrow> grant_rec \<Rightarrow> lim_tx \<Rightarrow> lim_tx" where
  "mark_sent gid r tx =
     (if gr_sent r then tx else touch (\<lambda>st. st\<lparr>ls_grants := dput gid (r\<lparr>gr_sent := True\<rparr>) (ls_grants st)\<rparr>) tx)"

definition mark_probe :: "probe_rec \<Rightarrow> lim_tx \<Rightarrow> lim_tx" where
  "mark_probe p tx =
     (if pb_marker p then tx else touch (upd_breaker (\<lambda>br. br\<lparr>bk_probe := Some (p\<lparr>pb_marker := True\<rparr>)\<rparr>)) tx)"

definition prepare_body :: "lim_config \<Rightarrow> lim_env \<Rightarrow> string \<Rightarrow> lim_tx \<Rightarrow> (lim_error + bool) \<times> lim_tx" where
  "prepare_body cfg e gid tx0 =
     (let tx = lim_refresh cfg e tx0; st = tx_st tx in
      case dget (ls_grants st) gid of
        None \<Rightarrow> (Inr False, touch bump_unknown tx)
      | Some r \<Rightarrow>
          if gr_outcome r \<noteq> None then (Inr False, tx)
          else if gid_epoch gid \<noteq> Some (ls_epoch st) then (Inr False, touch (set_outcome gid ''REVOKED'' r) tx)
          else if gr_probe r
          then (case bk_probe (ls_breaker st) of
                  None \<Rightarrow> (Inr False, touch (set_outcome gid ''REVOKED'' r) tx)
                | Some p \<Rightarrow> if pb_holder p \<noteq> gid then (Inr False, touch (set_outcome gid ''REVOKED'' r) tx)
                            else (Inr True, mark_sent gid r (mark_probe p tx)))
          else (Inr True, mark_sent gid r tx))"

definition prepare_send :: "lim_config \<Rightarrow> lim_env \<Rightarrow> string \<Rightarrow> lim_file \<Rightarrow> lim_proc \<Rightarrow> bool \<times> lim_file \<times> lim_proc" where
  "prepare_send cfg e gid file p =
     (if \<not> lc_enabled cfg then (True, file, p)
      else case lim_transaction cfg e (prepare_body cfg e gid) file p of
             (r, file', p') \<Rightarrow> ((case r of Inl _ \<Rightarrow> False | Inr b \<Rightarrow> b), file', p'))"

section \<open>After the answer\<close>

definition VALID_OUTCOMES :: "string list" where
  "VALID_OUTCOMES = [''OK'', ''RATE_LIMIT'', ''TIMEOUT'', ''AUTH'', ''ERROR'', ''NOT_SENT'', ''REVOKED'']"

definition owns_slot :: "string \<Rightarrow> lim_state \<Rightarrow> bool" where
  "owns_slot gid st \<longleftrightarrow> (case bk_probe (ls_breaker st) of None \<Rightarrow> False | Some p \<Rightarrow> pb_holder p = gid)"

definition free_slot :: "string \<Rightarrow> lim_state \<Rightarrow> lim_state" where
  "free_slot gid st = (if owns_slot gid st then upd_breaker drop_probe st else st)"

definition count_success :: "lim_config \<Rightarrow> breaker_rec \<Rightarrow> breaker_rec" where
  "count_success cfg br =
     (let n = bk_streak br + 1 in
      if bk_state br = BKR_RECOVERY \<and> n \<ge> lc_success_target cfg
      then br\<lparr>bk_state := BKR_CLOSED, bk_level := 0, bk_streak := 0\<rparr> else br\<lparr>bk_streak := n\<rparr>)"

datatype record_answer = APPLIED | DUPLICATE | UNKNOWN_GRANT | REC_UNAVAILABLE | DISABLED

definition apply_result :: "lim_config \<Rightarrow> lim_env \<Rightarrow> string \<Rightarrow> string \<Rightarrow> int \<Rightarrow> lim_tx \<Rightarrow> lim_tx" where
  "apply_result cfg e gid out ep tx =
     (if out = ''RATE_LIMIT''
      then if ep \<noteq> ls_epoch (tx_st tx) then tx else apply_open cfg (en_wall e) True tx
      else if out = ''OK''
      then if ep \<noteq> ls_epoch (tx_st tx) then tx
           else touch (\<lambda>st. upd_breaker (count_success cfg) (free_slot gid st)) tx
      else on_state (free_slot gid) tx)"

definition record_body :: "lim_config \<Rightarrow> lim_env \<Rightarrow> string \<Rightarrow> string \<Rightarrow> lim_tx \<Rightarrow> (lim_error + record_answer) \<times> lim_tx" where
  "record_body cfg e gid out tx0 =
     (let tx = lim_refresh cfg e tx0 in
      case dget (ls_grants (tx_st tx)) gid of
        None \<Rightarrow> (Inr UNKNOWN_GRANT, touch bump_unknown tx)
      | Some r \<Rightarrow>
          if gr_outcome r \<noteq> None then (Inr DUPLICATE, tx)
          else (case gid_epoch gid of
                  None \<Rightarrow> (Inr UNKNOWN_GRANT, touch bump_unknown tx)
                | Some ep \<Rightarrow> (Inr APPLIED, apply_result cfg e gid out ep (touch (set_outcome gid out r) tx))))"

text \<open>The bounded retry: every attempt meets its own environment and file.\<close>

fun record_attempts ::
  "lim_config \<Rightarrow> string \<Rightarrow> string \<Rightarrow> (lim_env \<times> lim_file) list \<Rightarrow> lim_file list \<Rightarrow> lim_proc \<Rightarrow>
   record_answer \<times> lim_file list \<times> lim_proc" where
  "record_attempts cfg gid out [] files p = (REC_UNAVAILABLE, files, p)"
| "record_attempts cfg gid out ((e, f) # rest) files p =
     (case lim_transaction cfg e (record_body cfg e gid out) f p of
        (Inr a, f1, p1) \<Rightarrow> (a, files @ [f1], p1\<lparr>lp_held := filter (\<lambda>g. g \<noteq> gid) (lp_held p1)\<rparr>)
      | (Inl _, f1, p1) \<Rightarrow> record_attempts cfg gid out rest (files @ [f1]) p1)"

text \<open>\<open>None\<close> is the raised ValueError of an unknown outcome.\<close>

definition record_result ::
  "lim_config \<Rightarrow> string \<Rightarrow> string \<Rightarrow> (lim_env \<times> lim_file) list \<Rightarrow> lim_proc \<Rightarrow>
   (record_answer \<times> lim_file list \<times> lim_proc) option" where
  "record_result cfg gid out attempts p =
     (if \<not> lc_enabled cfg then Some (DISABLED, [], p)
      else if out \<notin> set VALID_OUTCOMES then None
      else Some (record_attempts cfg gid out (take (lc_record_attempts cfg) attempts) [] p))"

section \<open>Maintenance and views\<close>

definition refresh_body :: "lim_config \<Rightarrow> lim_env \<Rightarrow> lim_tx \<Rightarrow> (lim_error + unit) \<times> lim_tx" where
  "refresh_body cfg e tx = (Inr (), lim_refresh cfg e tx)"

definition grant_outcome_view :: "lim_config \<Rightarrow> lim_env \<Rightarrow> string \<Rightarrow> lim_file \<Rightarrow> string option" where
  "grant_outcome_view cfg e gid file =
     (if \<not> lc_enabled cfg then Some ''DISABLED''
      else case lim_read cfg e file of
        Inl err \<Rightarrow> Some (''UNAVAILABLE:'' @ error_code err)
      | Inr st \<Rightarrow> (case dget (ls_grants st) gid of None \<Rightarrow> Some ''ABSENT'' | Some r \<Rightarrow> gr_outcome r))"

text \<open>The witness files a cleanup may unlink: those of terminal grants whose lock nobody holds, at
  most \<open>max_files\<close> of them, in directory order.\<close>

definition prune_witness_files :: "lim_config \<Rightarrow> lim_env \<Rightarrow> nat \<Rightarrow> lim_file \<Rightarrow> string list \<Rightarrow> string list" where
  "prune_witness_files cfg e max_files file names =
     (if \<not> lc_enabled cfg then []
      else case lim_read cfg e file of
        Inl err \<Rightarrow> []
      | Inr st \<Rightarrow>
          take max_files (filter (\<lambda>nm. \<not> en_held e nm \<and>
            (case witness_gid (lc_path cfg) nm of None \<Rightarrow> False
             | Some gid \<Rightarrow> list_ex (\<lambda>(g, r). g = gid \<and> gr_outcome r \<noteq> None) (ls_grants st))) names))"

end
