(* ===== verification/LimiterSteps.thy ===== *)
theory LimiterSteps
  imports LimiterGrant
begin

text \<open>
  The abstract life of the shared limiter document: a step relation with one rule per kind of
  change, and the refinement lemmas that every operation of the limiter is a sequence of such
  steps. Invariants are proved once by induction over the rules and hold for every operation of
  every process, whatever the clocks, the process table and the file system answer.
\<close>

section \<open>The step relation\<close>

text \<open>A grant is open in the current epoch when it has no outcome yet and was issued in it.\<close>

definition open_grant :: "lim_state \<Rightarrow> string \<Rightarrow> bool" where
  "open_grant st g \<longleftrightarrow> (case dget (ls_grants st) g of None \<Rightarrow> False | Some r \<Rightarrow> gr_outcome r = None)"

definition finished :: "grant_rec \<Rightarrow> grant_rec \<Rightarrow> bool" where
  "finished r r' \<longleftrightarrow> r' = r \<or> (gr_outcome r = None \<and> (\<exists>out. r' = r\<lparr>gr_outcome := Some out\<rparr>))"

inductive lim_step :: "lim_config \<Rightarrow> lim_state \<Rightarrow> lim_state \<Rightarrow> bool" for cfg where
  book: "lim_step cfg st (st\<lparr>ls_last_wall := w, ls_last_mono := m, ls_boot := b, ls_pending := d,
           ls_anomalies := a, ls_fingerprint := f\<rparr>)"
| refill: "delta > 0 \<Longrightarrow> applied = refill_amount cfg delta (ls_tokens st) \<Longrightarrow>
    lim_step cfg st (st\<lparr>ls_tokens := fadd (ls_tokens st) applied, ls_refill := fadd (ls_refill st) applied\<rparr>)"
| cooldown: "lim_step cfg st (upd_breaker (\<lambda>br. br\<lparr>bk_cooldown := c, bk_unknown := n\<rparr>) st)"
| note_probe: "bk_probe (ls_breaker st) = Some p \<Longrightarrow> pb_holder p' = pb_holder p \<Longrightarrow>
    lim_step cfg st (upd_breaker (\<lambda>br. br\<lparr>bk_probe := Some p'\<rparr>) st)"
| close: "dget (ls_grants st) g = Some r \<Longrightarrow> gr_outcome r = None \<Longrightarrow>
    lim_step cfg st (st\<lparr>ls_grants := dput g (r\<lparr>gr_outcome := Some out\<rparr>) (ls_grants st)\<rparr>)"
| finish: "(\<And>g r. finished r (f g r)) \<Longrightarrow>
    lim_step cfg st (st\<lparr>ls_grants := map (\<lambda>(g, r). (g, f g r)) (ls_grants st)\<rparr>)"
| sent: "dget (ls_grants st) g = Some r \<Longrightarrow>
    lim_step cfg st (st\<lparr>ls_grants := dput g (r\<lparr>gr_sent := True\<rparr>) (ls_grants st)\<rparr>)"
| free: "(case bk_probe (ls_breaker st) of None \<Rightarrow> True | Some p \<Rightarrow> \<not> open_grant st (pb_holder p)) \<Longrightarrow>
    lim_step cfg st (upd_breaker drop_probe st)"
| trip: "lim_step cfg st (open_breaker cfg wall bump st)"
| recover: "bk_state (ls_breaker st) = BKR_OPEN \<Longrightarrow>
    lim_step cfg st (upd_breaker (\<lambda>br. br\<lparr>bk_state := BKR_RECOVERY, bk_probe := None, bk_streak := 0\<rparr>) st)"
| success: "lim_step cfg st (upd_breaker (count_success cfg) st)"
| evict: "(\<And>g r. \<not> keep g r \<Longrightarrow> gr_outcome r \<noteq> None) \<Longrightarrow>
    lim_step cfg st (st\<lparr>ls_grants := filter (\<lambda>(g, r). keep g r) (ls_grants st)\<rparr>)"
| grant: "1 \<le> ls_tokens st \<Longrightarrow> bk_state (ls_breaker st) \<noteq> BKR_OPEN \<Longrightarrow>
    (bk_state (ls_breaker st) = BKR_RECOVERY \<Longrightarrow> bk_probe (ls_breaker st) = None) \<Longrightarrow>
    int (length (ls_grants st)) < lc_registry_capacity cfg \<Longrightarrow>
    lim_step cfg st (issue_grant cfg e p req (bk_state (ls_breaker st) = BKR_RECOVERY) st)"

abbreviation lim_steps :: "lim_config \<Rightarrow> lim_state \<Rightarrow> lim_state \<Rightarrow> bool" where
  "lim_steps cfg \<equiv> (lim_step cfg)\<^sup>*\<^sup>*"

text \<open>Changes of the bookkeeping fields only, recognised by what they keep.\<close>

definition same_core :: "lim_state \<Rightarrow> lim_state \<Rightarrow> bool" where
  "same_core st st' \<longleftrightarrow> ls_epoch st' = ls_epoch st \<and> ls_epoch_start st' = ls_epoch_start st \<and>
     ls_seq st' = ls_seq st \<and> ls_tokens st' = ls_tokens st \<and> ls_total st' = ls_total st \<and>
     ls_epoch_grants st' = ls_epoch_grants st \<and> ls_refill st' = ls_refill st \<and>
     ls_usage st' = ls_usage st \<and> ls_grants st' = ls_grants st \<and> ls_breaker st' = ls_breaker st"

lemma steps_same_core: "same_core st st' \<Longrightarrow> lim_steps cfg st st'"
proof -
  assume "same_core st st'"
  then have "st' = st\<lparr>ls_last_wall := ls_last_wall st', ls_last_mono := ls_last_mono st', ls_boot := ls_boot st',
      ls_pending := ls_pending st', ls_anomalies := ls_anomalies st', ls_fingerprint := ls_fingerprint st'\<rparr>"
    by (cases st; cases st') (simp add: same_core_def)
  then show ?thesis using lim_step.book [of cfg st] by (metis r_into_rtranclp)
qed

lemma steps_trans: "lim_steps cfg a b \<Longrightarrow> lim_steps cfg b c \<Longrightarrow> lim_steps cfg a c"
  by (rule rtranclp_trans)

section \<open>Every operation is a sequence of steps\<close>

lemma touch_simps [simp]:
  "tx_st (touch f tx) = f (tx_st tx)" "tx_dirty (touch f tx)" "tx_held (touch f tx) = tx_held tx"
  "tx_leaked (touch f tx) = tx_leaked tx"
  by (simp_all add: touch_def)

lemma release_witness_simps [simp]:
  "tx_st (release_witness g tx) = tx_st tx" "tx_dirty (release_witness g tx) = tx_dirty tx"
  "tx_leaked (release_witness g tx) = tx_leaked tx"
  by (simp_all add: release_witness_def)

lemma upd_simps [simp]:
  "ls_breaker (upd_breaker f st) = f (ls_breaker st)" "ls_grants (upd_breaker f st) = ls_grants st"
  "ls_epoch (upd_breaker f st) = ls_epoch st" "ls_tokens (upd_breaker f st) = ls_tokens st"
  "ls_grants (upd_anomalies h st) = ls_grants st" "ls_breaker (upd_anomalies h st) = ls_breaker st"
  by (simp_all add: upd_breaker_def upd_anomalies_def)

lemma apply_open_st [simp]: "tx_st (apply_open cfg wall bump tx) = open_breaker cfg wall bump (tx_st tx)"
  by (simp add: apply_open_def Let_def split: option.split)

lemma self_heal_steps: "lim_steps cfg (tx_st tx) (tx_st (self_heal tx))"
proof -
  have "same_core (tx_st tx) (tx_st (foldl heal_one tx rs))" for rs
  proof (induction rs arbitrary: tx)
    case (Cons r rs)
    have "same_core (tx_st tx) (tx_st (heal_one tx r))"
      by (simp add: heal_one_def same_core_def bump_pruned_def upd_anomalies_def)
    with Cons.IH [of "heal_one tx r"] show ?case by (simp add: same_core_def)
  qed (simp add: same_core_def)
  then show ?thesis by (auto simp: self_heal_def intro: steps_same_core)
qed

lemma rebaseline_core: "same_core st (rebaseline e st)"
  by (simp add: rebaseline_def same_core_def)

lemma rearm_steps: "lim_steps cfg st (rearm cfg wall st)"
proof -
  have "rearm cfg wall st = upd_breaker (\<lambda>br. br\<lparr>bk_cooldown := bk_cooldown (ls_breaker (rearm cfg wall st)),
      bk_unknown := bk_unknown (ls_breaker st)\<rparr>) st"
    by (simp add: rearm_def upd_breaker_def)
  then show ?thesis using lim_step.cooldown [of cfg st] by (metis r_into_rtranclp)
qed

lemma refill_steps: "lim_steps cfg st (refill cfg e delta st)"
proof (cases "delta > 0")
  case True
  let ?a = "refill_amount cfg delta (ls_tokens st)"
  have "lim_step cfg st (st\<lparr>ls_tokens := fadd (ls_tokens st) ?a, ls_refill := fadd (ls_refill st) ?a\<rparr>)"
    by (rule lim_step.refill [OF True refl])
  moreover have "same_core (st\<lparr>ls_tokens := fadd (ls_tokens st) ?a, ls_refill := fadd (ls_refill st) ?a\<rparr>)
      (refill cfg e delta st)"
    using True by (simp add: refill_def same_core_def Let_def)
  ultimately show ?thesis using steps_same_core steps_trans by (metis r_into_rtranclp)
qed (auto simp: refill_def same_core_def intro: steps_same_core)

lemma clock_rules_steps: "lim_steps cfg (tx_st tx) (tx_st (clock_rules cfg e tx))"
proof -
  have "lim_steps cfg st (rearm cfg (en_wall e) (rebaseline e st))" for st
    using steps_same_core [OF rebaseline_core] rearm_steps steps_trans by blast
  moreover have "same_core st ((rebaseline e st)\<lparr>ls_boot := en_boot e\<rparr>)" for st
    by (simp add: rebaseline_def same_core_def)
  ultimately show ?thesis
    using refill_steps steps_same_core [OF rebaseline_core] steps_same_core
    by (simp add: clock_rules_def Let_def split: clock_step.split)
qed

lemma prune_pending_steps: "lim_steps cfg (tx_st tx) (tx_st (prune_pending e tx))"
  by (auto simp: prune_pending_def Let_def same_core_def bump_pruned_def upd_anomalies_def intro: steps_same_core)

lemma close_grant_steps: "lim_steps cfg st (close_grant gid out st)"
  by (auto simp: close_grant_def intro: lim_step.close split: option.split)

lemma close_grant_closed: "\<not> open_grant (close_grant gid out st) gid"
  by (auto simp: close_grant_def open_grant_def split: option.split)

lemma steps_free:
  "bk_probe (ls_breaker st) = Some p \<Longrightarrow> \<not> open_grant st (pb_holder p) \<Longrightarrow> lim_steps cfg st (upd_breaker drop_probe st)"
  by (rule r_into_rtranclp, rule lim_step.free) simp

lemma close_grant_breaker [simp]: "ls_breaker (close_grant gid out st) = ls_breaker st"
  by (simp add: close_grant_def split: option.split)

lemma steps_unknown: "lim_steps cfg st (upd_breaker (\<lambda>br. br\<lparr>bk_unknown := bk_unknown br + 1\<rparr>) st)"
proof -
  have "upd_breaker (\<lambda>br. br\<lparr>bk_unknown := bk_unknown br + 1\<rparr>) st =
      upd_breaker (\<lambda>br. br\<lparr>bk_cooldown := bk_cooldown (ls_breaker st), bk_unknown := bk_unknown (ls_breaker st) + 1\<rparr>) st"
    by (simp add: upd_breaker_def)
  then show ?thesis by (metis r_into_rtranclp lim_step.cooldown)
qed

lemma resolve_dead_probe_steps:
  assumes "bk_probe (ls_breaker (tx_st tx)) = Some p"
  shows "lim_steps cfg (tx_st tx) (tx_st (resolve_dead_probe cfg wall p tx))"
proof -
  define st1 where "st1 = close_grant (pb_holder p) (if pb_marker p then ''UNKNOWN'' else ''NOT_SENT'') (tx_st tx)"
  have "lim_steps cfg (tx_st tx) st1" unfolding st1_def by (rule close_grant_steps)
  also have "lim_steps cfg st1 (upd_breaker drop_probe st1)"
    using assms by (intro steps_free [of _ p]) (simp_all add: st1_def close_grant_closed)
  finally have a: "lim_steps cfg (tx_st tx) (upd_breaker drop_probe st1)" .
  have "lim_steps cfg (upd_breaker drop_probe st1) (open_breaker cfg wall False (upd_breaker drop_probe st1))"
    by (rule r_into_rtranclp, rule lim_step.trip)
  also note steps_unknown
  finally have b: "lim_steps cfg (upd_breaker drop_probe st1) (upd_breaker (\<lambda>br. br\<lparr>bk_unknown := bk_unknown br + 1\<rparr>)
      (open_breaker cfg wall False (upd_breaker drop_probe st1)))" .
  show ?thesis
    using a steps_trans [OF a b] by (cases "pb_marker p") (simp_all add: resolve_dead_probe_def Let_def st1_def)
qed

lemma steps_note:
  "bk_probe (ls_breaker st) = Some p \<Longrightarrow> pb_holder p' = pb_holder p \<Longrightarrow>
   lim_steps cfg st (upd_breaker (\<lambda>br. br\<lparr>bk_probe := Some p'\<rparr>) st)"
  by (rule r_into_rtranclp, rule lim_step.note_probe)

lemma resolve_probe_steps: "lim_steps cfg (tx_st tx) (tx_st (resolve_probe cfg e tx))"
proof (cases "bk_probe (ls_breaker (tx_st tx))")
  case (Some p)
  have "same_core (upd_breaker (\<lambda>br. br\<lparr>bk_probe := Some (p\<lparr>pb_stalled := True\<rparr>)\<rparr>) (tx_st tx))
      (mark_stalled p (tx_st tx))"
    by (simp add: mark_stalled_def same_core_def upd_anomalies_def)
  from steps_trans [OF steps_note [OF Some] steps_same_core [OF this]]
  have "lim_steps cfg (tx_st tx) (mark_stalled p (tx_st tx))" by simp
  then show ?thesis
    using resolve_dead_probe_steps [OF Some, of cfg "en_wall e"] by (simp add: resolve_probe_def Some)
qed (simp add: resolve_probe_def)

lemma enter_recovery_steps: "lim_steps cfg (tx_st tx) (tx_st (enter_recovery e tx))"
  by (auto simp: enter_recovery_def Let_def intro: lim_step.recover)

lemma reconcile_owners_steps: "lim_steps cfg (tx_st tx) (tx_st (reconcile_owners e tx))"
proof -
  have "finished r (reconcile_one e r)" for r
    by (auto simp: finished_def reconcile_one_def owner_dead_def)
  then show ?thesis
    by (auto simp: reconcile_owners_def intro!: r_into_rtranclp lim_step.finish [where f = "\<lambda>g. reconcile_one e"])
qed

lemma evict_grants_steps: "lim_steps cfg (tx_st tx) (tx_st (evict_grants cfg e tx))"
proof -
  have "lim_step cfg st (st\<lparr>ls_grants := filter (\<lambda>(g, r). \<not> grant_aged cfg e r) (ls_grants st)\<rparr>)" for st
    by (rule lim_step.evict) (simp add: grant_aged_def)
  then show ?thesis by (auto simp: evict_grants_def)
qed

lemma refresh_steps: "lim_steps cfg (tx_st tx) (tx_st (lim_refresh cfg e tx))"
  unfolding lim_refresh_def
  by (rule steps_trans [OF _ evict_grants_steps], rule steps_trans [OF _ reconcile_owners_steps],
      rule steps_trans [OF _ enter_recovery_steps], rule steps_trans [OF _ resolve_probe_steps],
      rule steps_trans [OF _ prune_pending_steps], rule steps_trans [OF self_heal_steps clock_rules_steps])

lemma drop_locked_steps: "lim_steps cfg (tx_st tx) (tx_st (drop_locked req tx))"
  by (auto simp: drop_locked_def same_core_def intro: steps_same_core)

lemma register_demand_core: "same_core (tx_st tx) (tx_st (snd (snd (register_demand cfg e d tx))))"
  by (simp add: register_demand_def drop_locked_def put_pending_def bump_reregistered_def upd_anomalies_def
      same_core_def Let_def split: option.split)

lemma try_grant_steps:
  assumes "bk_state (ls_breaker (tx_st tx)) \<noteq> BKR_OPEN"
  shows "lim_steps cfg (tx_st tx) (tx_st (snd (try_grant cfg e p req tx)))"
proof -
  have "lim_step cfg st (issue_grant cfg e p req (bk_state (ls_breaker st) = BKR_RECOVERY) st)"
    if "\<not> ls_tokens st < 1" "bk_state (ls_breaker st) \<noteq> BKR_OPEN"
      "\<not> (bk_state (ls_breaker st) = BKR_RECOVERY \<and> bk_probe (ls_breaker st) \<noteq> None)"
      "\<not> int (length (ls_grants st)) \<ge> lc_registry_capacity cfg" for st
    using that by (intro lim_step.grant) auto
  then show ?thesis
    using assms by (auto simp: try_grant_def Let_def)
qed

lemma serve_demand_steps: "lim_steps cfg (tx_st tx) (tx_st (snd (serve_demand cfg e budget d tx)))"
proof (cases "bk_state (ls_breaker (tx_st tx)) = BKR_OPEN")
  case True
  then show ?thesis using drop_locked_steps by (simp add: serve_demand_def Let_def)
next
  case False
  obtain r tx1 where t: "try_grant cfg e (dm_prio d) (dm_req d) tx = (r, tx1)" by fastforce
  from try_grant_steps [OF False, of cfg e "dm_prio d" "dm_req d"] False show ?thesis
    by (simp add: serve_demand_def Let_def t split: sum.split option.split)
qed

lemma acquire_body_steps: "lim_steps cfg (tx_st tx) (tx_st (snd (acquire_body cfg e budget d tx)))"
proof -
  obtain rr d1 tx1 where r: "register_demand cfg e d (lim_refresh cfg e tx) = (rr, d1, tx1)"
    by (metis prod_cases3)
  have a: "lim_steps cfg (tx_st tx) (tx_st tx1)"
    using refresh_steps [of cfg tx e] steps_same_core [OF register_demand_core, of cfg "lim_refresh cfg e tx" cfg e d] r
      steps_trans by auto
  obtain s tx2 where v: "serve_demand cfg e budget d1 tx1 = (s, tx2)" by fastforce
  from serve_demand_steps [of cfg tx1 e budget d1] v have "lim_steps cfg (tx_st tx1) (tx_st tx2)" by simp
  with a steps_trans [OF a this] show ?thesis
    by (simp add: acquire_body_def r v split: register_result.split sum.split)
qed

lemma set_outcome_steps:
  "dget (ls_grants st) gid = Some r \<Longrightarrow> gr_outcome r = None \<Longrightarrow> lim_steps cfg st (set_outcome gid out r st)"
  by (simp add: set_outcome_def lim_step.close r_into_rtranclp)

lemma mark_sent_steps:
  "dget (ls_grants (tx_st tx)) gid = Some r \<Longrightarrow> lim_steps cfg (tx_st tx) (tx_st (mark_sent gid r tx))"
  by (simp add: mark_sent_def lim_step.sent r_into_rtranclp)

lemma mark_probe_steps:
  "bk_probe (ls_breaker (tx_st tx)) = Some p \<Longrightarrow> lim_steps cfg (tx_st tx) (tx_st (mark_probe p tx))"
  by (simp add: mark_probe_def steps_note)

lemma mark_probe_grants [simp]: "ls_grants (tx_st (mark_probe p tx)) = ls_grants (tx_st tx)"
  by (simp add: mark_probe_def)

lemma prepare_body_steps: "lim_steps cfg (tx_st tx) (tx_st (snd (prepare_body cfg e gid tx)))"
proof -
  define u where "u = lim_refresh cfg e tx"
  have "lim_steps cfg (tx_st u) (tx_st (snd (prepare_body cfg e gid tx)))"
  proof (cases "dget (ls_grants (tx_st u)) gid")
    case None
    then show ?thesis
      by (simp add: prepare_body_def Let_def u_def [symmetric] bump_unknown_def steps_same_core same_core_def upd_anomalies_def)
  next
    case (Some r)
    have "lim_steps cfg (tx_st u) (tx_st (mark_sent gid r (mark_probe p u)))"
      if "bk_probe (ls_breaker (tx_st u)) = Some p" for p
      using mark_probe_steps [OF that, of cfg] mark_sent_steps [of "mark_probe p u" gid r cfg] Some steps_trans by auto
    then show ?thesis
      using Some set_outcome_steps [OF Some, of cfg] mark_sent_steps [OF Some, of cfg]
      by (auto simp: prepare_body_def Let_def u_def [symmetric] split: option.split)
  qed
  with refresh_steps [of cfg tx e] show ?thesis unfolding u_def by (rule steps_trans)
qed

lemma free_slot_steps: "\<not> open_grant st gid \<Longrightarrow> lim_steps cfg st (free_slot gid st)"
  by (auto simp: free_slot_def owns_slot_def intro: steps_free split: option.splits)

lemma set_outcome_closed: "\<not> open_grant (set_outcome gid out r st) gid"
  by (simp add: set_outcome_def open_grant_def)

lemma free_slot_grants [simp]: "ls_grants (free_slot gid st) = ls_grants st" "ls_epoch (free_slot gid st) = ls_epoch st"
  by (simp_all add: free_slot_def)

lemma apply_result_steps:
  assumes "\<not> open_grant (tx_st tx) gid"
  shows "lim_steps cfg (tx_st tx) (tx_st (apply_result cfg e gid out ep tx))"
proof -
  have "lim_steps cfg (tx_st tx) (upd_breaker (count_success cfg) (free_slot gid (tx_st tx)))"
    using free_slot_steps [OF assms, of cfg] lim_step.success by (rule rtranclp.rtrancl_into_rtrancl)
  then show ?thesis
    using free_slot_steps [OF assms, of cfg] lim_step.trip [of cfg "tx_st tx"]
    by (auto simp: apply_result_def)
qed

lemma record_body_steps: "lim_steps cfg (tx_st tx) (tx_st (snd (record_body cfg e gid out tx)))"
proof -
  define u where "u = lim_refresh cfg e tx"
  have bump: "lim_steps cfg (tx_st u) (bump_unknown (tx_st u))"
    by (simp add: bump_unknown_def steps_same_core same_core_def upd_anomalies_def)
  have "lim_steps cfg (tx_st u) (tx_st (apply_result cfg e gid out ep (touch (set_outcome gid out r) u)))"
    if "dget (ls_grants (tx_st u)) gid = Some r" "gr_outcome r = None" for r ep
  proof -
    have "lim_steps cfg (tx_st u) (tx_st (touch (set_outcome gid out r) u))"
      using set_outcome_steps [OF that] by simp
    also have "lim_steps cfg \<dots> (tx_st (apply_result cfg e gid out ep (touch (set_outcome gid out r) u)))"
      by (rule apply_result_steps) (simp add: set_outcome_closed)
    finally show ?thesis .
  qed
  with bump have "lim_steps cfg (tx_st u) (tx_st (snd (record_body cfg e gid out tx)))"
    by (auto simp: record_body_def Let_def u_def [symmetric] split: option.split)
  with refresh_steps [of cfg tx e] show ?thesis unfolding u_def by (rule steps_trans)
qed

lemma drop_body_steps: "lim_steps cfg (tx_st tx) (tx_st (snd (drop_body cfg e req tx)))"
  using steps_trans [OF refresh_steps [of cfg tx e] drop_locked_steps] by (simp add: drop_body_def)

lemma refresh_body_steps: "lim_steps cfg (tx_st tx) (tx_st (snd (refresh_body cfg e tx)))"
  by (simp add: refresh_body_def refresh_steps)

section \<open>The invariant of the document\<close>

text \<open>Identifiers name an epoch and a number not above the current ones, an open recovery probe of
  the current epoch is the holder of the probe slot, an open breaker has no probe, the usage per
  class adds up to the grants of the epoch, every grant has its own sequence number, the level stays
  on the ladder and the registry within its capacity.\<close>

definition issued_id :: "lim_state \<Rightarrow> string \<Rightarrow> bool" where
  "issued_id st g \<longleftrightarrow> (\<exists>ep n. g = grant_id ep n \<and> 0 \<le> ep \<and> ep \<le> ls_epoch st \<and> 1 \<le> n \<and> n \<le> ls_seq st)"

definition open_probe :: "lim_state \<Rightarrow> string \<Rightarrow> grant_rec \<Rightarrow> bool" where
  "open_probe st g r \<longleftrightarrow> gr_probe r \<and> gr_outcome r = None \<and> gid_epoch g = Some (ls_epoch st)"

definition registry_inv :: "lim_config \<Rightarrow> lim_state \<Rightarrow> bool" where
  "registry_inv cfg st \<longleftrightarrow> dwf (ls_grants st) \<and> 0 \<le> ls_epoch st \<and> 0 \<le> ls_seq st \<and>
     (\<forall>g r. dget (ls_grants st) g = Some r \<longrightarrow> issued_id st g) \<and>
     int (length (ls_grants st)) \<le> max 0 (lc_registry_capacity cfg)"

definition probe_inv :: "lim_state \<Rightarrow> bool" where
  "probe_inv st \<longleftrightarrow> (bk_state (ls_breaker st) = BKR_OPEN \<longrightarrow> bk_probe (ls_breaker st) = None) \<and>
     (\<forall>g r. dget (ls_grants st) g = Some r \<longrightarrow> open_probe st g r \<longrightarrow> owns_slot g st)"

definition usage_inv :: "lim_config \<Rightarrow> lim_state \<Rightarrow> bool" where
  "usage_inv cfg st \<longleftrightarrow> dkeys (ls_usage st) = PRIORITY_ORDER \<and> list_all (\<lambda>n. 0 \<le> n) (dvals (ls_usage st)) \<and>
     sum_list (dvals (ls_usage st)) = ls_epoch_grants st \<and> ls_total st = ls_seq st \<and>
     0 \<le> bk_level (ls_breaker st) \<and> bk_level (ls_breaker st) \<le> int (length (lc_cooldowns cfg))"

definition lim_inv :: "lim_config \<Rightarrow> lim_state \<Rightarrow> bool" where
  "lim_inv cfg st \<longleftrightarrow> registry_inv cfg st \<and> probe_inv st \<and> usage_inv cfg st"

lemma dget_map_ran2: "dget (map (\<lambda>(k, v). (k, f k v)) d) k = map_option (f k) (dget d k)"
  by (induction d) auto

lemma length_dput_present: "dget d k \<noteq> None \<Longrightarrow> length (dput k v d) = length d"
  by (simp add: length_dput)

lemma lim_step_registry: "lim_step cfg st st' \<Longrightarrow> registry_inv cfg st \<Longrightarrow> registry_inv cfg st'"
proof (induction rule: lim_step.induct)
  case (grant st e p req)
  let ?g = "grant_id (ls_epoch st) (ls_seq st + 1)"
  let ?st = "issue_grant cfg e p req (bk_state (ls_breaker st) = BKR_RECOVERY) st"
  have inv: "dwf (ls_grants st)" "0 \<le> ls_epoch st" "0 \<le> ls_seq st"
    and ids: "\<And>g r. dget (ls_grants st) g = Some r \<Longrightarrow> issued_id st g"
    using grant(5) by (auto simp: registry_inv_def)
  have new: "issued_id ?st ?g"
    unfolding issued_id_def using inv
    by (intro exI [of _ "ls_epoch st"] exI [of _ "ls_seq st + 1"]) (simp add: issue_grant_def Let_def)
  have old: "issued_id ?st g" if "issued_id st g" for g
    using that unfolding issued_id_def
    by (elim exE conjE, intro exI conjI) (assumption | simp add: issue_grant_def Let_def)+
  have "length (ls_grants ?st) \<le> Suc (length (ls_grants st))"
    by (simp add: issue_grant_def Let_def length_dput)
  then have len: "int (length (ls_grants ?st)) \<le> max 0 (lc_registry_capacity cfg)"
    using grant(4) by linarith
  have "issued_id ?st g" if "dget (ls_grants ?st) g = Some r" for g r
  proof (cases "g = ?g")
    case False
    with that have "dget (ls_grants st) g = Some r" by (simp add: issue_grant_def Let_def)
    then show ?thesis by (rule old [OF ids])
  qed (simp add: new)
  moreover have "dwf (ls_grants ?st)" "0 \<le> ls_epoch ?st" "0 \<le> ls_seq ?st"
    using inv by (simp_all add: issue_grant_def Let_def)
  ultimately show ?case unfolding registry_inv_def using len by blast
next
  case (evict keep st)
  have "int (length (ls_grants st)) \<le> n \<Longrightarrow> int (length (filter (\<lambda>(g, r). keep g r) (ls_grants st))) \<le> n" for n
    using length_filter_le [of "\<lambda>(g, r). keep g r" "ls_grants st"] by linarith
  with evict(2) show ?case
    by (auto simp: registry_inv_def issued_id_def dget_filter split: option.splits if_splits)
next
  case (trip st wall bump)
  then show ?case by (fastforce simp: registry_inv_def issued_id_def open_breaker_def Let_def)
qed (auto simp: registry_inv_def issued_id_def length_dput dget_map_ran2 upd_breaker_def split: if_splits)

lemma usage_issue:
  assumes "dkeys u = PRIORITY_ORDER"
  shows "dkeys (dput p n u) = PRIORITY_ORDER \<and> sum_list (dvals (dput p n u)) = sum_list (dvals u) - dget_or u p 0 + (n :: int)"
proof -
  obtain a b c d where u: "u = [(P0, a), (P1, b), (P2, c), (P3, d)]"
    using assms by (auto simp: PRIORITY_ORDER_def map_eq_Cons_conv)
  show ?thesis by (cases p) (simp_all add: u dget_or_def PRIORITY_ORDER_def)
qed

lemma usage_nonneg:
  assumes "list_all (\<lambda>n. 0 \<le> (n :: int)) (dvals u)"
  shows "0 \<le> dget_or u p 0" and "list_all (\<lambda>n. 0 \<le> n) (dvals (dput p (dget_or u p 0 + 1) u))"
proof -
  show a: "0 \<le> dget_or u p 0"
    using assms by (auto simp: dget_or_def list_all_iff split: option.split dest!: map_of_SomeD)
  have "list_all (\<lambda>n. 0 \<le> n) (dvals (dput p m u))" if "0 \<le> m" for m
    using assms that by (induction u) auto
  then show "list_all (\<lambda>n. 0 \<le> n) (dvals (dput p (dget_or u p 0 + 1) u))" using a by simp
qed

lemma zero_usage_inv: "dkeys zero_usage = PRIORITY_ORDER" "sum_list (dvals zero_usage) = 0"
  "list_all (\<lambda>n. 0 \<le> n) (dvals zero_usage)"
  by (simp_all add: zero_usage_def PRIORITY_ORDER_def)

lemma lim_step_usage: "lim_step cfg st st' \<Longrightarrow> usage_inv cfg st \<Longrightarrow> usage_inv cfg st'"
proof (induction rule: lim_step.induct)
  case (grant st e p req)
  then show ?case
    using usage_issue [of "ls_usage st" p "usage_of st p + 1"] usage_nonneg [of "ls_usage st" p]
    by (auto simp: usage_inv_def issue_grant_def Let_def usage_of_def)
next
  case (trip st wall bump)
  then show ?case by (auto simp: usage_inv_def open_breaker_def Let_def zero_usage_inv)
qed (auto simp: usage_inv_def upd_breaker_def drop_probe_def count_success_def Let_def)

lemma lim_step_probe:
  assumes "lim_step cfg st st'" and "registry_inv cfg st" and "probe_inv st"
  shows "probe_inv st'"
  using assms
proof (induction rule: lim_step.induct)
  case (grant st e p req)
  let ?g = "grant_id (ls_epoch st) (ls_seq st + 1)"
  show ?case
  proof (cases "bk_state (ls_breaker st) = BKR_RECOVERY")
    case True
    with grant(3) have "bk_probe (ls_breaker st) = None" by simp
    with grant(6) have "\<not> open_probe st g r" if "dget (ls_grants st) g = Some r" for g r
      using that by (auto simp: probe_inv_def owns_slot_def)
    with True show ?thesis
      by (auto simp: probe_inv_def issue_grant_def Let_def open_probe_def owns_slot_def new_probe_def split: if_splits)
  next
    case False
    with grant show ?thesis
      by (auto simp: probe_inv_def issue_grant_def Let_def open_probe_def owns_slot_def new_grant_def split: if_splits)
  qed
next
  case (trip st wall bump)
  have "gid_epoch g \<noteq> Some (ls_epoch st + 1)" if "dget (ls_grants st) g = Some r" for g r
    using that trip(1) by (force simp: registry_inv_def issued_id_def gid_epoch_grant_id)
  then show ?case by (auto simp: probe_inv_def open_breaker_def Let_def open_probe_def)
next
  case (free st)
  then show ?case
    by (auto simp: probe_inv_def open_probe_def owns_slot_def drop_probe_def open_grant_def split: option.splits)
next
  case (recover st)
  then have "bk_probe (ls_breaker st) = None" by (simp add: probe_inv_def)
  then have "\<not> open_probe st g r" if "dget (ls_grants st) g = Some r" for g r
    using recover(3) that unfolding probe_inv_def owns_slot_def by (metis option.simps(4))
  moreover have "open_probe (upd_breaker h st) g r = open_probe st g r" for h g r
    by (simp add: open_probe_def)
  ultimately show ?case by (simp add: probe_inv_def)
next
  case (note_probe st p p')
  then show ?case by (auto simp: probe_inv_def open_probe_def owns_slot_def)
next
  case (close st g r out)
  then show ?case by (auto simp: probe_inv_def open_probe_def owns_slot_def split: if_splits)
next
  case (sent st g r)
  then show ?case by (auto simp: probe_inv_def open_probe_def owns_slot_def split: if_splits)
next
  case (finish f st)
  have "gr_probe (f g r) = gr_probe r \<and> (gr_outcome (f g r) = None \<longrightarrow> gr_outcome r = None)" for g r
    using finish(1) [of r g] by (auto simp: finished_def)
  with finish(3) show ?case
    by (auto simp: probe_inv_def open_probe_def owns_slot_def dget_map_ran2)
next
  case (evict keep st)
  then show ?case
    by (auto simp: probe_inv_def open_probe_def owns_slot_def registry_inv_def dget_filter split: option.splits if_splits)
next
  case (success st)
  then show ?case by (auto simp: probe_inv_def open_probe_def owns_slot_def count_success_def Let_def)
qed (auto simp: probe_inv_def open_probe_def owns_slot_def upd_breaker_def)

lemma lim_step_inv: "lim_step cfg st st' \<Longrightarrow> lim_inv cfg st \<Longrightarrow> lim_inv cfg st'"
  using lim_step_registry lim_step_usage lim_step_probe by (auto simp: lim_inv_def)

lemma lim_steps_inv: "lim_steps cfg st st' \<Longrightarrow> lim_inv cfg st \<Longrightarrow> lim_inv cfg st'"
  by (induction rule: rtranclp_induct) (auto intro: lim_step_inv)

end
