(* ===== verification/LimiterWorld.thy ===== *)
theory LimiterWorld
  imports LimiterSteps
begin

text \<open>
  Runs of the rate limiter: any sequence of transactions by any processes on the shared file, each
  with its own clocks, process table, witness locks and failures. The section interprets the generic
  interfaces on the runs; the properties of the limiter follow: at most one recovery probe, the
  ledger, fencing by epochs, outcomes applied once, durable grants, fair selection, bounded waiting
  and the closing of the breaker.
\<close>

section \<open>Events\<close>

datatype lim_event =
    EvAcquire lim_env rat demand lim_proc
  | EvDrop lim_env string lim_proc
  | EvPrepare lim_env string lim_proc
  | EvRecord lim_env string string lim_proc
  | EvRefresh lim_env lim_proc

definition run_body ::
  "lim_config \<Rightarrow> lim_env \<Rightarrow> (lim_tx \<Rightarrow> (lim_error + 'a) \<times> lim_tx) \<Rightarrow> lim_proc \<Rightarrow> lim_file \<Rightarrow> lim_file" where
  "run_body cfg e body p file = fst (snd (lim_transaction cfg e body file p))"

fun lim_event_step :: "lim_config \<Rightarrow> lim_file \<Rightarrow> lim_event \<Rightarrow> lim_file" where
  "lim_event_step cfg file (EvAcquire e budget d p) = run_body cfg e (acquire_body cfg e budget d) p file"
| "lim_event_step cfg file (EvDrop e req p) = run_body cfg e (drop_body cfg e req) p file"
| "lim_event_step cfg file (EvPrepare e gid p) = run_body cfg e (prepare_body cfg e gid) p file"
| "lim_event_step cfg file (EvRecord e gid out p) = run_body cfg e (record_body cfg e gid out) p file"
| "lim_event_step cfg file (EvRefresh e p) = run_body cfg e (refresh_body cfg e) p file"

abbreviation lim_run :: "lim_config \<Rightarrow> lim_file \<Rightarrow> lim_event list \<Rightarrow> lim_file" where
  "lim_run cfg \<equiv> foldl (lim_event_step cfg)"

text \<open>The document a write transaction starts from.\<close>

definition loaded :: "lim_config \<Rightarrow> lim_env \<Rightarrow> lim_file \<Rightarrow> lim_state \<Rightarrow> bool" where
  "loaded cfg e file st \<longleftrightarrow> (case file of LimAbsent \<Rightarrow> st = default_state cfg e
     | LimDoc s \<Rightarrow> same_core s st | _ \<Rightarrow> False)"

lemma lim_load_loaded: "lim_load cfg e True file = Inr (st, d) \<Longrightarrow> loaded cfg e file st"
  by (auto simp: lim_load_def loaded_def same_core_def split: lim_file.splits option.splits if_splits)

text \<open>A transaction leaves the file as it was or writes the document its body produced.\<close>

lemma run_body_cases:
  "run_body cfg e body p f = f \<or>
   (\<exists>st d tx. lim_load cfg e True f = Inr (st, d) \<and> en_write e \<noteq> WriteFails \<and>
      tx = snd (body \<lparr>tx_st = st, tx_dirty = d, tx_held = lp_held p, tx_leaked = lp_leaked p\<rparr>) \<and>
      run_body cfg e body p f = LimDoc (tx_st tx))"
  by (auto simp: run_body_def lim_transaction_def Let_def split: sum.splits prod.splits)

definition file_to :: "lim_config \<Rightarrow> lim_file \<Rightarrow> lim_file \<Rightarrow> bool" where
  "file_to cfg f f' \<longleftrightarrow> f' = f \<or> (\<exists>e st st'. loaded cfg e f st \<and> lim_steps cfg st st' \<and> f' = LimDoc st')"

lemma run_body_to:
  assumes "\<And>tx. lim_steps cfg (tx_st tx) (tx_st (snd (body tx)))"
  shows "file_to cfg f (run_body cfg e body p f)"
  using run_body_cases [where cfg = cfg and e = e and body = body and p = p and f = f]
proof (elim disjE exE conjE)
  fix st d tx
  assume l: "lim_load cfg e True f = Inr (st, d)"
    and tx: "tx = snd (body \<lparr>tx_st = st, tx_dirty = d, tx_held = lp_held p, tx_leaked = lp_leaked p\<rparr>)"
    and r: "run_body cfg e body p f = LimDoc (tx_st tx)"
  have "lim_steps cfg st (tx_st tx)"
    using assms [of "\<lparr>tx_st = st, tx_dirty = d, tx_held = lp_held p, tx_leaked = lp_leaked p\<rparr>"] by (simp add: tx)
  with lim_load_loaded [OF l] r show ?thesis unfolding file_to_def by blast
qed (simp add: file_to_def)

lemma event_step_to: "file_to cfg f (lim_event_step cfg f ev)"
  by (cases ev) (simp_all add: run_body_to acquire_body_steps drop_body_steps prepare_body_steps
      record_body_steps refresh_body_steps)

section \<open>Invariants of every run\<close>

definition file_all :: "(lim_state \<Rightarrow> bool) \<Rightarrow> lim_file \<Rightarrow> bool" where
  "file_all P file \<longleftrightarrow> (case file of LimDoc st \<Rightarrow> P st | _ \<Rightarrow> True)"

lemma file_all_simps [simp]:
  "file_all P LimAbsent" "file_all P LimCorrupt" "file_all P LimUnreadable" "file_all P (LimDoc st) = P st"
  by (simp_all add: file_all_def)

text \<open>An interface: what holds of a new document, is kept by every step and reads the core fields only
  holds of every document of a run.\<close>

locale document_law =
  fixes cfg :: lim_config and P :: "lim_state \<Rightarrow> bool"
  assumes initial: "P (default_state cfg e)"
    and step: "P st \<Longrightarrow> lim_step cfg st st' \<Longrightarrow> P st'"
begin

lemma steps_law: "lim_steps cfg st st' \<Longrightarrow> P st \<Longrightarrow> P st'"
  by (induction rule: rtranclp_induct) (auto intro: step)

lemma loaded_law: "loaded cfg e f st \<Longrightarrow> file_all P f \<Longrightarrow> P st"
  by (cases f) (auto simp: loaded_def initial intro: steps_law steps_same_core)

lemma to_law: "file_to cfg f f' \<Longrightarrow> file_all P f \<Longrightarrow> file_all P f'"
  using loaded_law steps_law by (auto simp: file_to_def)

end

sublocale document_law \<subseteq> law: event_system "lim_event_step cfg" "file_all P"
  by unfold_locales (rule to_law [OF event_step_to])

lemma default_inv: "lim_inv cfg (default_state cfg e)"
  by (simp add: lim_inv_def registry_inv_def probe_inv_def usage_inv_def default_state_def zero_usage_inv
      zero_usage_def PRIORITY_ORDER_def)

interpretation doc: document_law cfg "lim_inv cfg" for cfg
  by unfold_locales (auto intro: default_inv lim_step_inv)

lemma absent_inv: "file_all (lim_inv cfg) (lim_run cfg LimAbsent es)"
  by (rule doc.law.run_inv) simp

lemma unique_key_filter:
  assumes "dwf d" and "\<And>k v. (k, v) \<in> set d \<Longrightarrow> P (k, v) \<Longrightarrow> k = c"
  shows "length (filter P d) \<le> 1"
proof -
  have "fst ` set (filter P d) \<subseteq> {c}" using assms(2) by auto
  moreover have "distinct (map fst (filter P d))" using assms(1) by (auto simp: dwf_def intro: distinct_map_filter)
  then have "card (fst ` set (filter P d)) = length (filter P d)"
    by (metis distinct_card length_map list.set_map)
  ultimately show ?thesis using card_mono [of "{c}" "fst ` set (filter P d)"] by simp
qed

lemma probe_inv_single:
  assumes "registry_inv cfg st" and "probe_inv st"
  shows "length (filter (\<lambda>(g, r). open_probe st g r) (ls_grants st)) \<le> 1"
proof -
  have "g = (case bk_probe (ls_breaker st) of None \<Rightarrow> [] | Some p \<Rightarrow> pb_holder p)"
    if "(g, r) \<in> set (ls_grants st)" "open_probe st g r" for g r
    using assms that by (auto simp: registry_inv_def probe_inv_def owns_slot_def dwf_dget_iff split: option.splits)
  then show ?thesis using assms(1) by (intro unique_key_filter) (auto simp: registry_inv_def)
qed

text \<open>C6. Whatever the processes do, in any order and with any failures, no document ever holds two open
  recovery probes of its epoch: while one is out, nobody else probes the exchange.\<close>

theorem single_open_probe:
  "file_all (\<lambda>st. length (filter (\<lambda>(g, r). open_probe st g r) (ls_grants st)) \<le> 1) (lim_run cfg LimAbsent es)"
  using absent_inv [of cfg es] probe_inv_single
  by (cases "lim_run cfg LimAbsent es") (auto simp: lim_inv_def)

text \<open>In every document of a run the grants per class add up to the grants of the epoch, the total
  equals the sequence number, the escalation level stays on its ladder and the registry within its
  capacity.\<close>

theorem ledger_balanced:
  "file_all (\<lambda>st. sum_list (dvals (ls_usage st)) = ls_epoch_grants st \<and> ls_total st = ls_seq st \<and>
      dkeys (ls_usage st) = PRIORITY_ORDER \<and> bk_level (ls_breaker st) \<in> {0..int (length (lc_cooldowns cfg))} \<and>
      int (length (ls_grants st)) \<le> max 0 (lc_registry_capacity cfg)) (lim_run cfg LimAbsent es)"
  using absent_inv [of cfg es]
  by (cases "lim_run cfg LimAbsent es") (auto simp: lim_inv_def usage_inv_def registry_inv_def)

section \<open>Epochs fence grants\<close>

lemma lim_step_epoch: "lim_step cfg st st' \<Longrightarrow> ls_epoch st \<le> ls_epoch st' \<and> ls_seq st \<le> ls_seq st'"
  by (induction rule: lim_step.induct) (auto simp: upd_breaker_def open_breaker_def issue_grant_def Let_def)

lemma lim_steps_epoch: "lim_steps cfg st st' \<Longrightarrow> ls_epoch st \<le> ls_epoch st' \<and> ls_seq st \<le> ls_seq st'"
  by (induction rule: rtranclp_induct) (auto dest: lim_step_epoch)

definition file_epoch :: "lim_file \<Rightarrow> int" where
  "file_epoch f = (case f of LimDoc st \<Rightarrow> ls_epoch st | _ \<Rightarrow> 0)"

lemma loaded_epoch: "loaded cfg e f st \<Longrightarrow> file_epoch f \<le> ls_epoch st"
  by (auto simp: loaded_def file_epoch_def default_state_def same_core_def split: lim_file.splits)

lemma to_epoch: "file_to cfg f f' \<Longrightarrow> file_epoch f \<le> file_epoch f'"
  using loaded_epoch lim_steps_epoch by (fastforce simp: file_to_def file_epoch_def)

interpretation epoch: monotone_system "lim_event_step cfg" "file_all (lim_inv cfg)" file_epoch for cfg
  by unfold_locales (rule to_epoch [OF event_step_to])

lemma prepare_true_cases:
  assumes "prepare_body cfg e gid tx = (Inr True, tx')"
  obtains r where "dget (ls_grants (tx_st (lim_refresh cfg e tx))) gid = Some r" and "gr_outcome r = None"
    and "gid_epoch gid = Some (ls_epoch (tx_st (lim_refresh cfg e tx)))"
    and "gr_probe r \<Longrightarrow> owns_slot gid (tx_st (lim_refresh cfg e tx))"
    and "tx' = mark_sent gid r (case bk_probe (ls_breaker (tx_st (lim_refresh cfg e tx))) of
        Some p \<Rightarrow> if gr_probe r then mark_probe p (lim_refresh cfg e tx) else lim_refresh cfg e tx
      | None \<Rightarrow> lim_refresh cfg e tx)"
  using assms by (auto simp: prepare_body_def Let_def owns_slot_def split: option.splits if_splits)

lemma transaction_result:
  assumes "fst (lim_transaction cfg e body f p) = Inr a"
  obtains st d tx where "lim_load cfg e True f = Inr (st, d)" and "en_dir_ok e" and "en_lock_ok e"
    and "body \<lparr>tx_st = st, tx_dirty = d, tx_held = lp_held p, tx_leaked = lp_leaked p\<rparr> = (Inr a, tx)"
    and "lim_transaction cfg e body f p = (Inr a, if tx_dirty tx then LimDoc (tx_st tx) else f, proc_of tx)"
  using assms by (auto simp: lim_transaction_def Let_def split: sum.splits prod.splits if_splits)

lemma fenced_prepare:
  assumes "lc_enabled cfg" and "gid_epoch gid = Some ep" and "ep < file_epoch f"
  shows "\<not> fst (prepare_send cfg e gid f p)"
proof
  assume "fst (prepare_send cfg e gid f p)"
  then have "fst (lim_transaction cfg e (prepare_body cfg e gid) f p) = Inr True"
    using assms(1) by (auto simp: prepare_send_def split: sum.splits prod.splits)
  then obtain st d tx where l: "lim_load cfg e True f = Inr (st, d)"
    and b: "prepare_body cfg e gid \<lparr>tx_st = st, tx_dirty = d, tx_held = lp_held p, tx_leaked = lp_leaked p\<rparr> = (Inr True, tx)"
    by (rule transaction_result)
  have "file_epoch f \<le> ls_epoch st" using l by (intro loaded_epoch lim_load_loaded)
  then show False
    using prepare_true_cases [OF b] assms(2,3) lim_steps_epoch [OF refresh_steps [of cfg _ e]]
    by (metis lim_tx.select_convs(1) not_le option.sel order_trans)
qed

text \<open>Fencing: once the breaker has moved to a later epoch than the one a grant was issued in, no
  \<^verbatim>\<open>prepare_send\<close> by any process ever lets that grant's request out, whatever happened in
  between.\<close>

theorem fenced_grant_never_sent:
  assumes "lc_enabled cfg" and "file_all (lim_inv cfg) f" and "gid_epoch gid = Some ep" and "ep < file_epoch f"
  shows "\<not> fst (prepare_send cfg e gid (lim_run cfg f es) p)"
  using assms(1,3)
proof (rule fenced_prepare)
  show "ep < file_epoch (lim_run cfg f es)"
    using epoch.run_level [OF assms(2), of es] assms(4) by simp
qed


section \<open>Outcomes are final\<close>

definition settled :: "string \<Rightarrow> lim_state \<Rightarrow> bool" where
  "settled g st \<longleftrightarrow> issued_id st g \<and> \<not> open_grant st g"

lemma lim_step_issued: "lim_step cfg st st' \<Longrightarrow> issued_id st g \<Longrightarrow> issued_id st' g"
  by (drule lim_step_epoch) (fastforce simp: issued_id_def)

lemma issued_fresh: "0 \<le> ls_epoch st \<Longrightarrow> 0 \<le> ls_seq st \<Longrightarrow> issued_id st g \<Longrightarrow> g \<noteq> grant_id (ls_epoch st) (ls_seq st + 1)"
  by (auto simp: issued_id_def dest!: grant_id_inject [rotated 4])

lemma lim_step_settled:
  assumes "lim_step cfg st st'" and "registry_inv cfg st" and "settled g st"
  shows "settled g st'"
proof -
  have "issued_id st' g" using assms by (auto simp: settled_def intro: lim_step_issued)
  moreover have "\<not> open_grant st' g"
    using assms
  proof (induction rule: lim_step.induct)
    case (finish f st)
    have "gr_outcome r = Some y \<Longrightarrow> \<exists>y. gr_outcome (f g r) = Some y" for r y
      using finish(1) [of r g] by (auto simp: finished_def)
    with finish(3) show ?case
      by (auto simp: settled_def open_grant_def dget_map_ran2 split: option.splits)
  next
    case (grant st e p req)
    then show ?case
      using issued_fresh [of st g]
      by (auto simp: settled_def registry_inv_def open_grant_def issue_grant_def Let_def)
  next
    case (evict keep st)
    then show ?case
      by (auto simp: settled_def registry_inv_def open_grant_def dget_filter split: option.splits if_splits)
  next
    case (trip st wall bump)
    then show ?case by (auto simp: settled_def open_grant_def open_breaker_def Let_def)
  qed (auto simp: settled_def open_grant_def split: option.splits if_splits)
  ultimately show ?thesis by (simp add: settled_def)
qed

lemma lim_steps_settled:
  "lim_steps cfg st st' \<Longrightarrow> lim_inv cfg st \<Longrightarrow> settled g st \<Longrightarrow> settled g st'"
proof (induction rule: rtranclp_induct)
  case (step st1 st2)
  then show ?case using lim_steps_inv lim_step_settled by (auto simp: lim_inv_def)
qed simp

definition file_settled :: "lim_config \<Rightarrow> string \<Rightarrow> lim_file \<Rightarrow> bool" where
  "file_settled cfg g f \<longleftrightarrow> (case f of LimDoc st \<Rightarrow> lim_inv cfg st \<and> settled g st | LimAbsent \<Rightarrow> False | _ \<Rightarrow> True)"

lemma to_settled: "file_to cfg f f' \<Longrightarrow> file_settled cfg g f \<Longrightarrow> file_settled cfg g f'"
  unfolding file_to_def
proof (elim disjE exE conjE)
  fix e st st'
  assume "loaded cfg e f st" "lim_steps cfg st st'" "f' = LimDoc st'" "file_settled cfg g f"
  moreover from this obtain s where "f = LimDoc s" "same_core s st"
    by (cases f) (auto simp: loaded_def file_settled_def)
  ultimately have "lim_steps cfg s st'" using steps_same_core steps_trans by blast
  with \<open>file_settled cfg g f\<close> \<open>f = _\<close> \<open>f' = _\<close> show ?thesis
    by (auto simp: file_settled_def intro: lim_steps_inv lim_steps_settled)
qed simp

interpretation final: event_system "lim_event_step cfg" "file_settled cfg g" for cfg g
  by unfold_locales (rule to_settled [OF event_step_to])

lemma record_applied_cases:
  assumes "record_body cfg e gid out tx = (Inr APPLIED, tx')"
  obtains r ep where "dget (ls_grants (tx_st (lim_refresh cfg e tx))) gid = Some r" and "gr_outcome r = None"
    and "gid_epoch gid = Some ep"
    and "tx' = apply_result cfg e gid out ep (touch (set_outcome gid out r) (lim_refresh cfg e tx))"
  using assms by (auto simp: record_body_def Let_def split: option.splits if_splits)

lemma settled_not_applied:
  assumes "file_settled cfg gid f"
  shows "fst (lim_transaction cfg e (record_body cfg e gid out) f p) \<noteq> Inr APPLIED"
proof
  assume "fst (lim_transaction cfg e (record_body cfg e gid out) f p) = Inr APPLIED"
  then obtain st d tx where l: "lim_load cfg e True f = Inr (st, d)"
    and b: "record_body cfg e gid out \<lparr>tx_st = st, tx_dirty = d, tx_held = lp_held p, tx_leaked = lp_leaked p\<rparr> = (Inr APPLIED, tx)"
    by (rule transaction_result)
  from lim_load_loaded [OF l] assms obtain s where s: "f = LimDoc s" "same_core s st"
    by (cases f) (auto simp: loaded_def file_settled_def lim_load_def split: option.splits if_splits)
  with assms have "settled gid s" "lim_inv cfg s" by (auto simp: file_settled_def)
  then have "settled gid st" "lim_inv cfg st"
    using steps_same_core [OF s(2)] lim_steps_settled lim_steps_inv by blast+
  then have "settled gid (tx_st (lim_refresh cfg e \<lparr>tx_st = st, tx_dirty = d, tx_held = lp_held p, tx_leaked = lp_leaked p\<rparr>))"
    using lim_steps_settled [OF refresh_steps] by simp
  then show False
    by - (rule record_applied_cases [OF b], simp add: settled_def open_grant_def)
qed

lemma apply_result_grants [simp]:
  "ls_grants (tx_st (apply_result cfg e gid out ep tx)) = ls_grants (tx_st tx)"
  by (simp add: apply_result_def open_breaker_def Let_def)

lemma apply_result_dirty: "tx_dirty tx \<Longrightarrow> tx_dirty (apply_result cfg e gid out ep tx)"
  by (simp add: apply_result_def apply_open_def Let_def)

lemma applied_settles:
  assumes "lim_transaction cfg e (record_body cfg e gid out) f p = (Inr APPLIED, f1, p1)"
    and "file_all (lim_inv cfg) f"
  shows "file_settled cfg gid f1"
proof -
  obtain st d tx where l: "lim_load cfg e True f = Inr (st, d)"
    and b: "record_body cfg e gid out \<lparr>tx_st = st, tx_dirty = d, tx_held = lp_held p, tx_leaked = lp_leaked p\<rparr> = (Inr APPLIED, tx)"
    and r: "lim_transaction cfg e (record_body cfg e gid out) f p = (Inr APPLIED, if tx_dirty tx then LimDoc (tx_st tx) else f, proc_of tx)"
    by (rule transaction_result [of cfg e "record_body cfg e gid out" f p APPLIED]) (use assms(1) in auto)
  let ?tx = "\<lparr>tx_st = st, tx_dirty = d, tx_held = lp_held p, tx_leaked = lp_leaked p\<rparr>"
  obtain rr ep where g: "dget (ls_grants (tx_st (lim_refresh cfg e ?tx))) gid = Some rr"
    and t: "tx = apply_result cfg e gid out ep (touch (set_outcome gid out rr) (lim_refresh cfg e ?tx))"
    using record_applied_cases [OF b] by metis
  have "lim_inv cfg st" using doc.loaded_law [OF lim_load_loaded [OF l] assms(2)] .
  then have i: "lim_inv cfg (tx_st (lim_refresh cfg e ?tx))" and j: "lim_inv cfg (tx_st tx)"
    using lim_steps_inv [OF refresh_steps [of cfg ?tx e]] lim_steps_inv [OF record_body_steps [of cfg ?tx e gid out]]
    by (auto simp: b)
  have "dget (ls_grants (tx_st tx)) gid = Some (rr\<lparr>gr_outcome := Some out\<rparr>)"
    by (simp add: t set_outcome_def)
  then have "settled gid (tx_st tx)"
    using j by (auto simp: settled_def open_grant_def lim_inv_def registry_inv_def)
  moreover have "tx_dirty tx" unfolding t by (rule apply_result_dirty) simp
  ultimately show ?thesis using r assms(1) j by (auto simp: file_settled_def)
qed

text \<open>An outcome is applied at most once: after a \<^verbatim>\<open>record_result\<close> transaction answered APPLIED for
  a grant, no later one by any process, with any outcome and after any run, is APPLIED for it again,
  also when the record has been evicted in between.\<close>

theorem outcome_applied_once:
  assumes "lim_transaction cfg e (record_body cfg e gid out) f p = (Inr APPLIED, f1, p1)"
    and "file_all (lim_inv cfg) f"
  shows "fst (lim_transaction cfg e' (record_body cfg e' gid out') (lim_run cfg f1 es) p') \<noteq> Inr APPLIED"
  by (rule settled_not_applied, rule final.run_inv, rule applied_settles [OF assms])


section \<open>An example run\<close>

text \<open>A quiet environment and the first grant of a new document, at which the properties are
  instantiated.\<close>

definition calm_env :: "rat \<Rightarrow> lim_env" where
  "calm_env w =
     \<lparr>en_wall = w, en_mono = w, en_boot = ''boot'', en_pid = 7, en_dir_ok = True, en_lock_ok = True,
      en_write = WriteOk, en_witness_ok = True, en_alive = (\<lambda>_. True), en_held = (\<lambda>_. True), en_digest = (\<lambda>_. ''digest'')\<rparr>"

definition live_config :: lim_config where
  "live_config = (default_config ''limiter'')\<lparr>lc_enabled := True\<rparr>"

definition idle_proc :: lim_proc where
  "idle_proc = \<lparr>lp_held = [], lp_leaked = []\<rparr>"

definition first_demand :: demand where
  "first_demand = \<lparr>dm_prio = P0, dm_req = ''req'', dm_lrid = ''trace'', dm_anchor = None\<rparr>"

definition first_doc :: "rat \<Rightarrow> lim_state" where
  "first_doc w = issue_grant live_config (calm_env w) P0 ''req'' False
     (put_pending ''req'' (entry_for live_config (calm_env w) first_demand w) (default_state live_config (calm_env w)))"

lemmas example_defs = calm_env_def live_config_def default_config_def idle_proc_def first_demand_def default_state_def
  zero_usage_def PRIORITY_ORDER_def

lemma example_eligible:
  "eligible live_config (calm_env w) (put_pending r x (default_state live_config (calm_env w))) P0"
proof -
  have "0 \<le> weight_total live_config"
    by (simp add: weight_total_def example_defs dget_or_def fadd_nonneg)
  then have "0 \<le> share live_config P0"
    by (auto simp: share_def example_defs dget_or_def intro!: fdiv_nonneg fmul_nonneg)
  then show ?thesis
    by (auto simp: eligible_def allowance_def credit_def usage_of_def put_pending_def epoch_elapsed_def
        example_defs dget_or_def intro!: fadd_nonneg fmul_nonneg)
qed

lemmas refresh_defs = lim_refresh_def self_heal_def clock_rules_def classify_step_def refill_def prune_pending_def
  pending_dead_def resolve_probe_def enter_recovery_def reconcile_owners_def owner_dead_def evict_grants_def grant_aged_def

lemma example_fresh:
  "lim_refresh live_config (calm_env w) \<lparr>tx_st = default_state live_config (calm_env w), tx_dirty = False, tx_held = [], tx_leaked = []\<rparr> =
    \<lparr>tx_st = default_state live_config (calm_env w), tx_dirty = False, tx_held = [], tx_leaked = []\<rparr>"
  by (simp add: refresh_defs example_defs Let_def)

lemma example_acquire_body:
  "acquire_body live_config (calm_env w) 5 first_demand
      \<lparr>tx_st = default_state live_config (calm_env w), tx_dirty = False, tx_held = [], tx_leaked = []\<rparr> =
    (Inr (AcqGrant \<lparr>gi_gid = grant_id 1 1, gi_epoch = 1, gi_probe = False\<rparr>, first_demand\<lparr>dm_anchor := Some w\<rparr>),
     \<lparr>tx_st = first_doc w, tx_dirty = True, tx_held = [], tx_leaked = []\<rparr>)"
proof -
  let ?st = "put_pending ''req'' (entry_for live_config (calm_env w) first_demand w) (default_state live_config (calm_env w))"
  have r: "register_demand live_config (calm_env w) first_demand
      \<lparr>tx_st = default_state live_config (calm_env w), tx_dirty = False, tx_held = [], tx_leaked = []\<rparr> =
    (RegOk, first_demand\<lparr>dm_anchor := Some w\<rparr>, \<lparr>tx_st = ?st, tx_dirty = True, tx_held = [], tx_leaked = []\<rparr>)"
    by (simp add: register_demand_def example_defs Let_def touch_def)
  have h: "head_of [] ?st P0 = Some ''req''"
    by (simp add: head_of_def put_pending_def entry_for_def example_defs)
  have b: "best_eligible live_config (calm_env w) [] ?st = Some (P0, ''req'')"
    using example_eligible h by (simp add: best_eligible_def PRIORITY_ORDER_def)
  have v: "serve_demand live_config (calm_env w) 5 (first_demand\<lparr>dm_anchor := Some w\<rparr>)
      \<lparr>tx_st = ?st, tx_dirty = True, tx_held = [], tx_leaked = []\<rparr> =
    (Inr (AcqGrant \<lparr>gi_gid = grant_id 1 1, gi_epoch = 1, gi_probe = False\<rparr>),
     \<lparr>tx_st = first_doc w, tx_dirty = True, tx_held = [], tx_leaked = []\<rparr>)"
    using b by (simp add: serve_demand_def try_grant_def first_doc_def put_pending_def example_defs Let_def touch_def)
  show ?thesis by (simp add: acquire_body_def example_fresh r v)
qed

lemma example_acquire:
  "lim_transaction live_config (calm_env w) (acquire_body live_config (calm_env w) 5 first_demand) LimAbsent idle_proc =
    (Inr (AcqGrant \<lparr>gi_gid = grant_id 1 1, gi_epoch = 1, gi_probe = False\<rparr>, first_demand\<lparr>dm_anchor := Some w\<rparr>),
     LimDoc (first_doc w), idle_proc)"
  using example_acquire_body [of w]
  by (simp add: lim_transaction_def lim_load_def idle_proc_def proc_of_def Let_def) (simp add: calm_env_def)


lemma first_doc_run: "lim_run live_config LimAbsent [EvAcquire (calm_env w) 5 first_demand idle_proc] = LimDoc (first_doc w)"
  by (simp add: run_body_def example_acquire)

lemma first_doc_inv: "lim_inv live_config (first_doc w)"
  using absent_inv [of live_config "[EvAcquire (calm_env w) 5 first_demand idle_proc]"] unfolding first_doc_run by simp

lemma first_doc_grant: "dget (ls_grants (first_doc w)) (grant_id 1 1) = Some (new_grant (calm_env w) P0 False)"
  by (simp add: first_doc_def issue_grant_def put_pending_def default_state_def Let_def)

lemma first_doc_epoch: "ls_epoch (first_doc w) = 1"
  by (simp add: first_doc_def issue_grant_def put_pending_def default_state_def Let_def)

lemma example_refresh:
  "lim_refresh live_config (calm_env w) \<lparr>tx_st = first_doc w, tx_dirty = d, tx_held = [], tx_leaked = []\<rparr> =
    \<lparr>tx_st = first_doc w, tx_dirty = d, tx_held = [], tx_leaked = []\<rparr>"
  by (simp add: refresh_defs first_doc_def issue_grant_def put_pending_def new_grant_def example_defs Let_def)

lemma example_load: "lim_load live_config (calm_env w) True (LimDoc (first_doc w)) = Inr (first_doc w, False)"
  by (simp add: lim_load_def first_doc_def issue_grant_def put_pending_def default_state_def Let_def calm_env_def fingerprint_def)

lemma example_record:
  "lim_transaction live_config (calm_env w) (record_body live_config (calm_env w) (grant_id 1 1) out) (LimDoc (first_doc w)) idle_proc =
    (Inr APPLIED, LimDoc (tx_st (apply_result live_config (calm_env w) (grant_id 1 1) out 1
       (touch (set_outcome (grant_id 1 1) out (new_grant (calm_env w) P0 False))
         \<lparr>tx_st = first_doc w, tx_dirty = False, tx_held = [], tx_leaked = []\<rparr>))), idle_proc)"
proof -
  have n: "gr_outcome (new_grant (calm_env w) P0 False) = None" by (simp add: new_grant_def)
  have p: "bk_probe (ls_breaker (first_doc w)) = None"
    by (simp add: first_doc_def issue_grant_def put_pending_def default_state_def Let_def)
  have h: "tx_held (apply_result live_config e g out 1 (touch (set_outcome g out r) t)) = []"
    if "tx_held t = []" "bk_probe (ls_breaker (tx_st t)) = None" for e g r t
    using that by (simp add: apply_result_def apply_open_def set_outcome_def touch_def Let_def split: option.split)
  have l: "tx_leaked (apply_result c e g out 1 t) = tx_leaked t" for c e g t
    by (simp add: apply_result_def apply_open_def touch_def Let_def release_witness_def split: option.split)
  have r: "record_body live_config (calm_env w) (grant_id 1 1) out \<lparr>tx_st = first_doc w, tx_dirty = False, tx_held = [], tx_leaked = []\<rparr> =
    (Inr APPLIED, apply_result live_config (calm_env w) (grant_id 1 1) out 1
       (touch (set_outcome (grant_id 1 1) out (new_grant (calm_env w) P0 False))
         \<lparr>tx_st = first_doc w, tx_dirty = False, tx_held = [], tx_leaked = []\<rparr>))"
    by (simp add: record_body_def example_refresh first_doc_grant gid_epoch_grant_id n)
  show ?thesis
    by (simp add: lim_transaction_def example_load r idle_proc_def proc_of_def Let_def apply_result_dirty l h p)
      (simp add: calm_env_def)
qed

theorem outcome_applied_once_witness:
  "fst (lim_transaction live_config (calm_env 100) (record_body live_config (calm_env 100) (grant_id 1 1) ''OK'')
     (lim_run live_config (LimDoc (tx_st (apply_result live_config (calm_env 100) (grant_id 1 1) ''RATE_LIMIT'' 1
       (touch (set_outcome (grant_id 1 1) ''RATE_LIMIT'' (new_grant (calm_env 100) P0 False))
         \<lparr>tx_st = first_doc 100, tx_dirty = False, tx_held = [], tx_leaked = []\<rparr>))))
       [EvRefresh (calm_env 103) idle_proc]) idle_proc) \<noteq> Inr APPLIED"
  by (rule outcome_applied_once [OF example_record]) (simp add: first_doc_inv)

lemma limited_inv:
  "lim_inv live_config (open_breaker live_config w True (set_outcome (grant_id 1 1) ''RATE_LIMIT'' (new_grant (calm_env w) P0 False) (first_doc w)))"
proof -
  have "lim_steps live_config (first_doc w) (set_outcome (grant_id 1 1) ''RATE_LIMIT'' (new_grant (calm_env w) P0 False) (first_doc w))"
    by (rule set_outcome_steps [OF first_doc_grant]) (simp add: new_grant_def)
  then show ?thesis using lim_steps_inv first_doc_inv lim_step_inv [OF lim_step.trip] by blast
qed

theorem fenced_grant_never_sent_witness:
  "\<not> fst (prepare_send live_config (calm_env 110) (grant_id 1 1) (lim_run live_config
     (LimDoc (open_breaker live_config 100 True (set_outcome (grant_id 1 1) ''RATE_LIMIT'' (new_grant (calm_env 100) P0 False) (first_doc 100))))
     [EvRefresh (calm_env 106) idle_proc]) idle_proc)"
proof (rule fenced_grant_never_sent [where ep = 1])
  show "lc_enabled live_config" by (simp add: live_config_def)
  show "gid_epoch (grant_id 1 1) = Some 1" by (simp add: gid_epoch_grant_id)
qed (simp only: file_all_simps limited_inv, simp add: file_epoch_def open_breaker_def set_outcome_def first_doc_epoch Let_def)

end
