(* ===== verification/LimiterBudget.thy ===== *)
theory LimiterBudget
  imports LimiterWorld
begin

text \<open>
  The token budget of the rate limiter in double precision, for the default sustained rate 8 and
  burst 12: the bucket never leaves its range, and over any run of transactions by any processes the
  grants are bounded by the tokens at hand plus eight per second of wall time.
\<close>

section \<open>Rounding in the range of the bucket\<close>

lemma ulp_below_16: "0 < x \<Longrightarrow> x < 16 \<Longrightarrow> ulp_exp x \<le> - 49"
  by (rule ulp_exp_le) simp_all

lemma fl_error_16:
  assumes "0 \<le> x" "x < 16"
  shows "\<bar>fl x - x\<bar> \<le> 1 / 2 ^ 50"
proof (cases "x = 0")
  case False
  with assms have x: "0 < x" by simp
  let ?u = "2 powi ulp_exp x :: rat"
  have u: "0 < ?u" "?u \<le> 1 / 2 ^ 49"
    using power_int_increasing [of "ulp_exp x" "- 49" "2 :: rat"] ulp_below_16 [OF x assms(2)] by (simp_all add: power_int_minus field_simps)
  have "fl x - x = (of_int (round_even (x / ?u)) - x / ?u) * ?u"
    using fl_pos_form [OF x] by (simp add: left_diff_distrib)
  then have "\<bar>fl x - x\<bar> = \<bar>of_int (round_even (x / ?u)) - x / ?u\<bar> * ?u" by (simp add: abs_mult)
  also have "\<dots> \<le> 1 / 2 * (1 / 2 ^ 49)"
    using round_even_error [of "x / ?u"] u by (intro mult_mono) auto
  finally show ?thesis by simp
qed simp

lemma fl_above_12: "fl (12 + 1 / 2 ^ 50) = 12"
proof -
  let ?x = "12 + 1 / 2 ^ 50 :: rat"
  have pos: "0 < ?x" by simp
  have "fexp ?x = 3"
    using fexp_le_iff [OF pos, of 3] fexp_le_iff [OF pos, of 4] by simp
  then have u: "ulp_exp ?x = - 49" by (simp add: ulp_exp_def)
  have "?x / 2 powi (- 49) = of_int (12 * 2 ^ 49) + 1 / 2" by (simp add: power_int_minus)
  moreover have "round_even (of_int (12 * 2 ^ 49) + 1 / 2) = 12 * 2 ^ 49"
  proof -
    have "floor (of_int (12 * 2 ^ 49) + 1 / 2 :: rat) = 12 * 2 ^ 49" by linarith
    then show ?thesis by (simp add: round_even_def Let_def)
  qed
  ultimately have "round_even (?x / 2 powi (- 49)) = 12 * 2 ^ 49" by simp
  then show ?thesis unfolding fl_pos_form [OF pos] u by (simp add: power_int_minus)
qed

text \<open>Filling up to the ceiling cannot overshoot it.\<close>

lemma fill_to_12:
  assumes "0 \<le> t" "t \<le> 12" "a \<le> fsub 12 t"
  shows "fadd t a \<le> 12"
proof -
  have "fsub 12 t \<le> 12 - t + 1 / 2 ^ 50"
    using fl_error_16 [of "12 - t"] assms unfolding fsub_def by linarith
  then have "t + a \<le> 12 + 1 / 2 ^ 50" using assms(3) by simp
  then show ?thesis using fl_mono fl_above_12 by (metis fadd_def)
qed

lemma take_one_exact:
  assumes "is_double t" "1 \<le> t" "t < 16"
  shows "fsub t 1 = t - 1"
proof -
  have pos: "0 < t" using assms by simp
  have "0 \<le> fexp t" using fexp_le_iff [OF pos, of 0] assms(2) by simp
  then have lo: "- 52 \<le> ulp_exp t" using pos by (simp add: ulp_exp_def)
  have hi: "ulp_exp t \<le> - 49" by (rule ulp_below_16 [OF pos assms(3)])
  define m where "m = round_even (t / 2 powi ulp_exp t)"
  define k where "k = nat (- ulp_exp t)"
  have k: "ulp_exp t = - int k" "k \<le> 52" using lo hi by (auto simp: k_def)
  have t: "t = of_int m * 2 powi ulp_exp t"
    using fl_pos_form [OF pos] assms(1) by (simp add: m_def)
  have m: "0 \<le> m" "m \<le> 2 ^ 53" using fl_significand [OF pos] by (auto simp: m_def)
  have one: "(1 :: rat) = of_int (2 ^ k) * 2 powi ulp_exp t" by (simp add: k(1) power_int_minus)
  have eq: "t - 1 = of_int (m - 2 ^ k) * 2 powi ulp_exp t"
    using t one by (simp add: left_diff_distrib)
  have "(2 :: int) ^ k \<le> 2 ^ 53" using k(2) by (intro power_increasing) auto
  then have "\<bar>m - 2 ^ k\<bar> \<le> 2 ^ 53" using m zero_le_power [of "2 :: int" k] by linarith
  then have "fl (of_int (m - 2 ^ k) * 2 powi ulp_exp t) = of_int (m - 2 ^ k) * 2 powi ulp_exp t"
    using lo by (intro fl_grid) auto
  then show ?thesis unfolding fsub_def eq .
qed

section \<open>The bucket stays in range\<close>

definition default_rate :: "lim_config \<Rightarrow> bool" where
  "default_rate cfg \<longleftrightarrow> lc_g cfg = 8 \<and> lc_burst cfg = 12"

definition bucket_ok :: "lim_state \<Rightarrow> bool" where
  "bucket_ok st \<longleftrightarrow> is_double (ls_tokens st) \<and> 0 \<le> ls_tokens st \<and> ls_tokens st \<le> 12"

lemma fl_12: "fl 12 = 12"
  using fl_of_int [of 12] by simp

lemma fl_8: "fl 8 = 8"
  using fl_of_int [of 8] by simp

lemma refill_amount_bounds:
  assumes "default_rate cfg" "0 < delta" "t \<le> 12"
  shows "0 \<le> refill_amount cfg delta t" "refill_amount cfg delta t \<le> fsub 12 t"
    "refill_amount cfg delta t \<le> fmul 8 delta"
  using assms fmul_nonneg [of 8 delta] fsub_nonneg [of t 12]
  by (auto simp: refill_amount_def default_rate_def)

lemma lim_step_bucket:
  assumes "lim_step cfg st st'" and "default_rate cfg" and "bucket_ok st"
  shows "bucket_ok st'"
  using assms
proof (induction rule: lim_step.induct)
  case (refill delta applied st)
  then show ?case
    using refill_amount_bounds [of cfg delta "ls_tokens st"] fill_to_12 [of "ls_tokens st" applied]
    by (auto simp: bucket_ok_def intro: fadd_nonneg)
next
  case (grant st e p req)
  then have "fsub (ls_tokens st) 1 \<le> ls_tokens st" by (intro fsub_le_left) (simp_all add: bucket_ok_def)
  with grant show ?case
    by (auto simp: bucket_ok_def issue_grant_def Let_def intro: fsub_nonneg)
next
  case (trip st wall bump)
  then show ?case by (simp add: bucket_ok_def open_breaker_def Let_def)
qed (simp_all add: bucket_ok_def upd_breaker_def)

text \<open>The law of the documents of a run under the default rate.\<close>

definition bucket_law :: "lim_config \<Rightarrow> lim_state \<Rightarrow> bool" where
  "bucket_law cfg st \<longleftrightarrow> (default_rate cfg \<longrightarrow> bucket_ok st)"

lemma default_bucket: "bucket_law cfg (default_state cfg e)"
  by (auto simp: bucket_law_def bucket_ok_def default_rate_def default_state_def is_double_def fl_12)

interpretation bucket: document_law cfg "bucket_law cfg" for cfg
  by unfold_locales (rule default_bucket, auto dest: lim_step_bucket simp: bucket_law_def)

text \<open>With the default rate the token bucket of every document is a number between 0 and the burst of
  12, however the credits and the grants of the processes interleave: rounding never overfills it and
  no grant is ever paid with a token that is not there.\<close>

theorem bucket_in_range:
  assumes "default_rate cfg"
  shows "file_all (\<lambda>st. 0 \<le> ls_tokens st \<and> ls_tokens st \<le> 12) (lim_run cfg LimAbsent es)"
proof -
  have "file_all (bucket_law cfg) (lim_run cfg LimAbsent es)" by (rule bucket.law.run_inv) simp
  with assms show ?thesis
    by (cases "lim_run cfg LimAbsent es") (auto simp: bucket_law_def bucket_ok_def)
qed

theorem bucket_in_range_witness:
  "0 \<le> ls_tokens (first_doc 100) \<and> ls_tokens (first_doc 100) \<le> 12"
  using bucket_in_range [of live_config "[EvAcquire (calm_env 100) 5 first_demand idle_proc]"]
  unfolding first_doc_run by (simp add: default_rate_def live_config_def default_config_def)


section \<open>The sustained rate\<close>

text \<open>Wall clock readings between 2004 and 2038; differences of two of them are exact.\<close>

definition wall_ok :: "rat \<Rightarrow> bool" where
  "wall_ok w \<longleftrightarrow> is_double w \<and> 2 ^ 30 \<le> w \<and> w < 2 ^ 31"

lemma wall_grid:
  assumes "wall_ok w"
  shows "\<exists>m. w = of_int m * 2 powi (- 22) \<and> \<bar>m\<bar> \<le> 2 ^ 53"
proof -
  have pos: "0 < w" using assms by (simp add: wall_ok_def)
  have "fexp w = 30"
    using assms fexp_le_iff [OF pos, of 30] fexp_le_iff [OF pos, of 31] by (auto simp: wall_ok_def)
  then have u: "ulp_exp w = - 22" using pos by (simp add: ulp_exp_def)
  show ?thesis
    using fl_pos_form [OF pos] fl_significand [OF pos] assms unfolding u wall_ok_def
    by (intro exI [of _ "round_even (w / 2 powi (- 22))"]) auto
qed

lemma wall_credit_exact:
  assumes "wall_ok w" "wall_ok w0"
  shows "fsub w w0 = w - w0" and "fmul 8 (fsub w w0) = 8 * (w - w0)"
proof -
  obtain m n where m: "w = of_int m * 2 powi (- 22)" and n: "w0 = of_int n * 2 powi (- 22)"
    using wall_grid assms by metis
  have eq: "w - w0 = of_int (m - n) * 2 powi (- 22)" by (simp add: m n left_diff_distrib)
  have "\<bar>w - w0\<bar> \<le> 2 ^ 31" using assms by (auto simp: wall_ok_def abs_le_iff)
  then have "\<bar>(of_int (m - n) :: rat)\<bar> \<le> of_int (2 ^ 53)"
    unfolding eq by (simp add: abs_mult power_int_minus field_simps)
  then have mn: "\<bar>m - n\<bar> \<le> 2 ^ 53" by (metis of_int_abs of_int_le_iff)
  show s: "fsub w w0 = w - w0"
    using fl_grid [OF mn, of "- 22"] unfolding fsub_def eq by simp
  have e8: "8 * (w - w0) = of_int (m - n) * 2 powi (- 19)" unfolding eq by (simp add: power_int_minus)
  show "fmul 8 (fsub w w0) = 8 * (w - w0)"
    unfolding fmul_def s e8 by (rule fl_grid [OF mn]) simp
qed

text \<open>What a change of the document costs: grants and tokens against the wall time that went by.\<close>

definition within_rate :: "rat \<Rightarrow> lim_state \<Rightarrow> lim_state \<Rightarrow> bool" where
  "within_rate c a b \<longleftrightarrow> ls_last_wall a \<le> ls_last_wall b \<longrightarrow>
     ls_tokens b + of_int (ls_total b) \<le> ls_tokens a + of_int (ls_total a) + 8 * (ls_last_wall b - ls_last_wall a) + c"

definition same_money :: "lim_state \<Rightarrow> lim_state \<Rightarrow> bool" where
  "same_money a b \<longleftrightarrow> ls_tokens b = ls_tokens a \<and> ls_total b = ls_total a \<and> ls_last_wall b = ls_last_wall a"

lemma same_money_refl [simp]: "same_money a a"
  by (simp add: same_money_def)

lemma same_money_trans: "same_money a b \<Longrightarrow> same_money b c \<Longrightarrow> same_money a c"
  by (simp add: same_money_def)

lemma self_heal_money: "same_money (tx_st tx) (tx_st (self_heal tx))" "ls_boot (tx_st (self_heal tx)) = ls_boot (tx_st tx)"
  "ls_last_mono (tx_st (self_heal tx)) = ls_last_mono (tx_st tx)"
proof -
  have "same_money (tx_st tx) (tx_st (foldl heal_one tx rs)) \<and> ls_boot (tx_st (foldl heal_one tx rs)) = ls_boot (tx_st tx) \<and>
      ls_last_mono (tx_st (foldl heal_one tx rs)) = ls_last_mono (tx_st tx)" for rs
  proof (induction rs arbitrary: tx)
    case (Cons r rs)
    show ?case using Cons.IH [of "heal_one tx r"]
      by (simp add: heal_one_def same_money_def bump_pruned_def upd_anomalies_def)
  qed simp
  from this [of "tx_leaked tx"] show "same_money (tx_st tx) (tx_st (self_heal tx))"
    "ls_boot (tx_st (self_heal tx)) = ls_boot (tx_st tx)" "ls_last_mono (tx_st (self_heal tx)) = ls_last_mono (tx_st tx)"
    by (simp_all add: self_heal_def)
qed

lemma open_breaker_money: "same_money st (open_breaker cfg wall bump st)"
  by (simp add: same_money_def open_breaker_def Let_def)

lemma stage_money:
  "same_money (tx_st tx) (tx_st (prune_pending e tx))" "same_money (tx_st tx) (tx_st (resolve_probe cfg e tx))"
  "same_money (tx_st tx) (tx_st (enter_recovery e tx))" "same_money (tx_st tx) (tx_st (reconcile_owners e tx))"
  "same_money (tx_st tx) (tx_st (evict_grants cfg e tx))" "same_money (tx_st tx) (tx_st (drop_locked req tx))"
  by (simp_all add: same_money_def prune_pending_def bump_pruned_def upd_anomalies_def resolve_probe_def
      resolve_dead_probe_def mark_stalled_def open_breaker_def close_grant_def upd_breaker_def enter_recovery_def
      reconcile_owners_def evict_grants_def drop_locked_def Let_def split: option.split)

lemma refresh_money: "same_money (tx_st (clock_rules cfg e (self_heal tx))) (tx_st (lim_refresh cfg e tx))"
  unfolding lim_refresh_def
  by (rule same_money_trans [OF _ stage_money(5)], rule same_money_trans [OF _ stage_money(4)],
      rule same_money_trans [OF _ stage_money(3)], rule same_money_trans [OF _ stage_money(2)], rule stage_money(1))


lemma rate_same: "same_money a b \<Longrightarrow> within_rate 0 a b"
  by (simp add: same_money_def within_rate_def)

lemma refill_rate:
  assumes "default_rate cfg" "bucket_ok st" "wall_ok (en_wall e)" "wall_ok (ls_last_wall st)"
  shows "within_rate (1 / 2 ^ 50) st (refill cfg e (fsub (en_wall e) (ls_last_wall st)) st)"
proof (cases "0 < fsub (en_wall e) (ls_last_wall st)")
  case True
  let ?d = "fsub (en_wall e) (ls_last_wall st)" and ?t = "ls_tokens st"
  let ?a = "refill_amount cfg ?d ?t"
  have t: "0 \<le> ?t" "?t \<le> 12" using assms(2) by (auto simp: bucket_ok_def)
  note a = refill_amount_bounds [OF assms(1) True t(2)]
  have "fsub 12 ?t \<le> 12 - ?t + 1 / 2 ^ 50"
    using fl_error_16 [of "12 - ?t"] t unfolding fsub_def by linarith
  then have "?t + ?a < 16" using a(2) t by simp
  then have "fadd ?t ?a \<le> ?t + ?a + 1 / 2 ^ 50"
    using fl_error_16 [of "?t + ?a"] a(1) t unfolding fadd_def by linarith
  moreover have "?a \<le> 8 * (en_wall e - ls_last_wall st)"
    using a(3) wall_credit_exact(2) [OF assms(3,4)] by simp
  ultimately show ?thesis using True by (simp add: within_rate_def refill_def Let_def)
qed (simp add: within_rate_def refill_def)

lemma clock_rate:
  assumes "default_rate cfg" "bucket_ok (tx_st tx)" "wall_ok (en_wall e)" "wall_ok (ls_last_wall (tx_st tx))"
  shows "within_rate (1 / 2 ^ 50) (tx_st tx) (tx_st (clock_rules cfg e tx))"
proof -
  have "within_rate (1 / 2 ^ 50) st ((rebaseline e st)\<lparr>ls_boot := b\<rparr>)" "within_rate (1 / 2 ^ 50) st (rebaseline e st)"
    "within_rate (1 / 2 ^ 50) st (rearm cfg w (rebaseline e st))" for st b w
    by (simp_all add: within_rate_def rebaseline_def rearm_def upd_breaker_def)
  then show ?thesis
    using refill_rate [OF assms] by (simp add: clock_rules_def Let_def split: clock_step.split)
qed

lemma refresh_rate:
  assumes "default_rate cfg" "bucket_ok (tx_st tx)" "wall_ok (en_wall e)" "wall_ok (ls_last_wall (tx_st tx))"
  shows "within_rate (1 / 2 ^ 50) (tx_st tx) (tx_st (lim_refresh cfg e tx))"
proof -
  have "within_rate (1 / 2 ^ 50) (tx_st (self_heal tx)) (tx_st (clock_rules cfg e (self_heal tx)))"
    using assms self_heal_money(1) [of tx] by (intro clock_rate) (simp_all add: same_money_def bucket_ok_def)
  then show ?thesis
    using self_heal_money(1) [of tx] refresh_money [of cfg e tx] by (simp add: within_rate_def same_money_def)
qed

text \<open>After its refresh a transaction takes at most one token, for one grant.\<close>

definition spends :: "lim_state \<Rightarrow> lim_state \<Rightarrow> bool" where
  "spends a b \<longleftrightarrow> same_money a b \<or>
     (1 \<le> ls_tokens a \<and> ls_tokens b = fsub (ls_tokens a) 1 \<and> ls_total b = ls_total a + 1 \<and> ls_last_wall b = ls_last_wall a)"

lemma spends_rate: "bucket_ok a \<Longrightarrow> spends a b \<Longrightarrow> within_rate 0 a b"
  using take_one_exact [of "ls_tokens a"] by (auto simp: spends_def within_rate_def bucket_ok_def same_money_def)

lemma register_money: "same_money (tx_st tx) (tx_st (snd (snd (register_demand cfg e d tx))))"
  using register_demand_core [of tx cfg e d]
  by (simp add: register_demand_def drop_locked_def put_pending_def bump_reregistered_def upd_anomalies_def
      same_money_def Let_def split: option.split)

lemma serve_spends: "spends (tx_st tx) (tx_st (snd (serve_demand cfg e budget d tx)))"
proof -
  have "spends st (issue_grant cfg e p req rc st)" if "\<not> ls_tokens st < 1" for st p req rc
    using that by (simp add: spends_def issue_grant_def Let_def)
  then have t: "spends (tx_st tx) (tx_st (snd (try_grant cfg e p req tx)))" for p req
    by (simp add: try_grant_def Let_def) (simp add: spends_def)
  obtain r tx1 where "try_grant cfg e (dm_prio d) (dm_req d) tx = (r, tx1)" by fastforce
  then show ?thesis
    using t [of "dm_prio d" "dm_req d"] stage_money(6) [of tx "dm_req d"]
    by (simp add: serve_demand_def Let_def spends_def split: sum.split option.split)
qed

lemma acquire_spends: "spends (tx_st (lim_refresh cfg e tx)) (tx_st (snd (acquire_body cfg e budget d tx)))"
proof -
  obtain rr d1 tx1 where r: "register_demand cfg e d (lim_refresh cfg e tx) = (rr, d1, tx1)"
    by (metis prod_cases3)
  obtain s tx2 where v: "serve_demand cfg e budget d1 tx1 = (s, tx2)" by fastforce
  have "same_money (tx_st (lim_refresh cfg e tx)) (tx_st tx1)" using register_money [of "lim_refresh cfg e tx" cfg e d] r by simp
  moreover have "spends (tx_st tx1) (tx_st tx2)" using serve_spends [of tx1 cfg e budget d1] v by simp
  ultimately show ?thesis
    by (simp add: acquire_body_def r v spends_def same_money_def split: register_result.split sum.split)
qed

lemma other_bodies_money:
  "same_money (tx_st (lim_refresh cfg e tx)) (tx_st (snd (prepare_body cfg e gid tx)))"
  "same_money (tx_st (lim_refresh cfg e tx)) (tx_st (snd (record_body cfg e gid out tx)))"
  "same_money (tx_st (lim_refresh cfg e tx)) (tx_st (snd (drop_body cfg e req tx)))"
  "same_money (tx_st (lim_refresh cfg e tx)) (tx_st (snd (refresh_body cfg e tx)))"
  using stage_money(6) [of "lim_refresh cfg e tx" req]
  by (simp_all add: prepare_body_def record_body_def drop_body_def refresh_body_def Let_def same_money_def
      bump_unknown_def upd_anomalies_def set_outcome_def mark_sent_def mark_probe_def upd_breaker_def
      apply_result_def free_slot_def open_breaker_def split: option.split)


lemma refresh_wall:
  "ls_last_wall (tx_st (lim_refresh cfg e tx)) \<in> {ls_last_wall (tx_st tx), en_wall e}"
proof -
  have "ls_last_wall (tx_st (clock_rules cfg e t)) \<in> {ls_last_wall (tx_st t), en_wall e}" for t
    by (simp add: clock_rules_def rebaseline_def rearm_def upd_breaker_def refill_def Let_def split: clock_step.split)
  from this [of "self_heal tx"] show ?thesis
    using self_heal_money(1) [of tx] refresh_money [of cfg e tx] by (simp add: same_money_def)
qed

text \<open>One transaction: the cost of its refresh and of at most one grant.\<close>

definition one_round :: "lim_env \<Rightarrow> lim_state \<Rightarrow> lim_state \<Rightarrow> bool" where
  "one_round e a b \<longleftrightarrow> within_rate (1 / 2 ^ 50) a b \<and> ls_last_wall b \<in> {ls_last_wall a, en_wall e}"

lemma body_round:
  assumes "default_rate cfg" "bucket_ok (tx_st tx)" "wall_ok (en_wall e)" "wall_ok (ls_last_wall (tx_st tx))"
    and "spends (tx_st (lim_refresh cfg e tx)) st'"
  shows "one_round e (tx_st tx) st'"
proof -
  let ?u = "tx_st (lim_refresh cfg e tx)"
  have "bucket_law cfg (tx_st tx)" using assms(2) by (simp add: bucket_law_def)
  then have "bucket_ok ?u"
    using bucket.steps_law [OF refresh_steps [of cfg tx e]] assms(1) by (simp add: bucket_law_def)
  then have "within_rate 0 ?u st'" using assms(5) by (rule spends_rate)
  moreover have w: "ls_last_wall st' = ls_last_wall ?u" using assms(5) by (auto simp: spends_def same_money_def)
  ultimately show ?thesis
    using refresh_rate [OF assms(1-4)] refresh_wall [of cfg e tx] by (auto simp: one_round_def within_rate_def)
qed

fun ev_env :: "lim_event \<Rightarrow> lim_env" where
  "ev_env (EvAcquire e budget d p) = e"
| "ev_env (EvDrop e req p) = e"
| "ev_env (EvPrepare e gid p) = e"
| "ev_env (EvRecord e gid out p) = e"
| "ev_env (EvRefresh e p) = e"

lemma run_body_round:
  assumes "default_rate cfg" "bucket_ok st" "wall_ok (en_wall e)" "wall_ok (ls_last_wall st)"
    and "\<And>tx. spends (tx_st (lim_refresh cfg e tx)) (tx_st (snd (body tx)))"
  shows "\<exists>st'. run_body cfg e body p (LimDoc st) = LimDoc st' \<and> bucket_ok st' \<and> one_round e st st'"
  using run_body_cases [where cfg = cfg and e = e and body = body and p = p and f = "LimDoc st"]
proof (elim disjE exE conjE)
  assume "run_body cfg e body p (LimDoc st) = LimDoc st"
  then show ?thesis using assms(2) by (simp add: one_round_def within_rate_def)
next
  fix s d tx
  assume l: "lim_load cfg e True (LimDoc st) = Inr (s, d)"
    and tx: "tx = snd (body \<lparr>tx_st = s, tx_dirty = d, tx_held = lp_held p, tx_leaked = lp_leaked p\<rparr>)"
    and r: "run_body cfg e body p (LimDoc st) = LimDoc (tx_st tx)"
  let ?tx = "\<lparr>tx_st = s, tx_dirty = d, tx_held = lp_held p, tx_leaked = lp_leaked p\<rparr>"
  have s: "ls_tokens s = ls_tokens st" "ls_total s = ls_total st" "ls_last_wall s = ls_last_wall st"
    using l by (auto simp: lim_load_def split: option.splits if_splits)
  have sp: "spends (tx_st (lim_refresh cfg e ?tx)) (tx_st tx)" using assms(5) [of ?tx] by (simp add: tx)
  have b: "bucket_ok (tx_st ?tx)" using assms(2) s by (simp add: bucket_ok_def)
  have "one_round e s (tx_st tx)"
    using body_round [OF assms(1) b assms(3) _ sp] assms(4) s by simp
  moreover have "bucket_ok (tx_st tx)"
  proof -
    have "bucket_ok (tx_st (lim_refresh cfg e ?tx))"
      using bucket.steps_law [OF refresh_steps [of cfg ?tx e]] b assms(1) by (simp add: bucket_law_def)
    then show ?thesis
      using sp fsub_nonneg [of 1 "ls_tokens (tx_st (lim_refresh cfg e ?tx))"]
        fsub_le_left [of "ls_tokens (tx_st (lim_refresh cfg e ?tx))" 1]
      by (auto simp: spends_def same_money_def bucket_ok_def)
  qed
  ultimately show ?thesis using r s by (auto simp: one_round_def within_rate_def)
qed

lemma event_round:
  assumes "default_rate cfg" "bucket_ok st" "wall_ok (en_wall (ev_env ev))" "wall_ok (ls_last_wall st)"
  shows "\<exists>st'. lim_event_step cfg (LimDoc st) ev = LimDoc st' \<and> bucket_ok st' \<and> one_round (ev_env ev) st st'"
  using assms acquire_spends other_bodies_money
  by (cases ev) (simp_all add: run_body_round spends_def)

definition file_wall :: "lim_file \<Rightarrow> rat" where
  "file_wall f = (case f of LimDoc st \<Rightarrow> ls_last_wall st | _ \<Rightarrow> 0)"

text \<open>A run on sane clocks in which no transaction moves the baseline of the document back.\<close>

fun forward_run :: "lim_config \<Rightarrow> lim_file \<Rightarrow> lim_event list \<Rightarrow> bool" where
  "forward_run cfg f [] \<longleftrightarrow> True"
| "forward_run cfg f (ev # es) \<longleftrightarrow> wall_ok (en_wall (ev_env ev)) \<and>
     file_wall f \<le> file_wall (lim_event_step cfg f ev) \<and> forward_run cfg (lim_event_step cfg f ev) es"

lemma run_rate:
  assumes "default_rate cfg" "bucket_ok st" "wall_ok (ls_last_wall st)" "forward_run cfg (LimDoc st) es"
  shows "\<exists>st'. lim_run cfg (LimDoc st) es = LimDoc st' \<and> bucket_ok st' \<and>
    ls_tokens st' + of_int (ls_total st') \<le> ls_tokens st + of_int (ls_total st) +
      8 * (ls_last_wall st' - ls_last_wall st) + of_nat (length es) / 2 ^ 50"
  using assms(2-4)
proof (induction es arbitrary: st)
  case (Cons ev es)
  then have w: "wall_ok (en_wall (ev_env ev))" by simp
  obtain s where s: "lim_event_step cfg (LimDoc st) ev = LimDoc s" "bucket_ok s" "one_round (ev_env ev) st s"
    using event_round [OF assms(1) Cons.prems(1) w Cons.prems(2)] by blast
  then have "wall_ok (ls_last_wall s)" using w Cons.prems(2) by (auto simp: one_round_def)
  moreover have "forward_run cfg (LimDoc s) es" and le: "ls_last_wall st \<le> ls_last_wall s"
    using Cons.prems(3) by (simp_all add: s(1) file_wall_def)
  ultimately obtain st' where "lim_run cfg (LimDoc s) es = LimDoc st'" "bucket_ok st'"
    "ls_tokens st' + of_int (ls_total st') \<le> ls_tokens s + of_int (ls_total s) +
      8 * (ls_last_wall st' - ls_last_wall s) + of_nat (length es) / 2 ^ 50"
    using Cons.IH [OF s(2)] by blast
  then show ?case
    using s le by (simp add: one_round_def within_rate_def add_divide_distrib right_diff_distrib)
qed simp

text \<open>C7. The sustained rate: over any run of transactions by any processes on sane clocks, the number of
  grants is at most the tokens at hand plus eight per second of the wall time the document went
  through, plus a rounding slack of \<open>2 ^ -50\<close> per transaction. Restarts, re-registrations, polls,
  recovery probes and breaker epochs never mint extra requests.\<close>

theorem sustained_rate:
  assumes "default_rate cfg" "bucket_ok st" "wall_ok (ls_last_wall st)" "forward_run cfg (LimDoc st) es"
    and "lim_run cfg (LimDoc st) es = LimDoc st'"
  shows "of_int (ls_total st' - ls_total st) \<le>
    ls_tokens st + 8 * (ls_last_wall st' - ls_last_wall st) + of_nat (length es) / 2 ^ 50"
  using run_rate [OF assms(1-4)] assms(5) by (auto simp: bucket_ok_def)


lemma first_doc_money:
  "ls_tokens (first_doc w) = 11" "ls_total (first_doc w) = 1" "ls_last_wall (first_doc w) = w"
  "ls_tokens (default_state live_config e) = 12" "ls_total (default_state live_config e) = 0"
proof -
  have "fsub 12 1 = 11" using take_one_exact [of 12] by (simp add: is_double_def fl_12)
  then show "ls_tokens (first_doc w) = 11" "ls_total (first_doc w) = 1" "ls_last_wall (first_doc w) = w"
    "ls_tokens (default_state live_config e) = 12" "ls_total (default_state live_config e) = 0"
    by (simp_all add: first_doc_def issue_grant_def put_pending_def default_state_def Let_def live_config_def
        default_config_def calm_env_def)
qed

lemma example_again:
  "lim_event_step live_config (LimDoc (default_state live_config (calm_env w))) (EvAcquire (calm_env w) 5 first_demand idle_proc) =
    LimDoc (first_doc w)"
proof -
  have "lim_load live_config (calm_env w) True (LimDoc (default_state live_config (calm_env w))) =
      Inr (default_state live_config (calm_env w), False)"
    by (simp add: lim_load_def default_state_def)
  then show ?thesis
    using example_acquire_body [of w]
    by (simp add: run_body_def lim_transaction_def idle_proc_def Let_def) (simp add: calm_env_def)
qed

theorem sustained_rate_witness:
  "of_int (ls_total (first_doc (2 ^ 30)) - ls_total (default_state live_config (calm_env (2 ^ 30)))) \<le>
    ls_tokens (default_state live_config (calm_env (2 ^ 30))) +
    8 * (ls_last_wall (first_doc (2 ^ 30)) - ls_last_wall (default_state live_config (calm_env (2 ^ 30)))) +
    of_nat (length [EvAcquire (calm_env (2 ^ 30)) 5 first_demand idle_proc]) / 2 ^ 50"
proof (rule sustained_rate)
  have w: "is_double (2 ^ 30)" using fl_of_int [of "2 ^ 30"] by (simp add: is_double_def)
  have l: "ls_last_wall (default_state live_config (calm_env w)) = w" for w
    by (simp add: default_state_def calm_env_def)
  show "default_rate live_config" by (simp add: default_rate_def live_config_def default_config_def)
  show "bucket_ok (default_state live_config (calm_env (2 ^ 30)))"
    by (simp add: bucket_ok_def first_doc_money is_double_def fl_12)
  show "wall_ok (ls_last_wall (default_state live_config (calm_env (2 ^ 30))))"
    unfolding l using w by (simp add: wall_ok_def)
  have "en_wall (calm_env w) = w" for w by (simp add: calm_env_def)
  then show "forward_run live_config (LimDoc (default_state live_config (calm_env (2 ^ 30))))
      [EvAcquire (calm_env (2 ^ 30)) 5 first_demand idle_proc]"
    using w by (simp del: lim_event_step.simps add: example_again file_wall_def l first_doc_money wall_ok_def)
  show "lim_run live_config (LimDoc (default_state live_config (calm_env (2 ^ 30))))
      [EvAcquire (calm_env (2 ^ 30)) 5 first_demand idle_proc] = LimDoc (first_doc (2 ^ 30))"
    by (simp del: lim_event_step.simps add: example_again)
qed

end
