(* ===== verification/LimiterCalls.thy ===== *)
theory LimiterCalls
  imports LimiterBudget "HOL-Library.Product_Lexorder"
begin

text \<open>
  What a caller of the rate limiter may rely on: a grant is on disk before \<^verbatim>\<open>acquire\<close> returns it,
  \<^verbatim>\<open>prepare_send\<close> lets a request out only for an open grant of the current epoch, the turn goes to
  the FIFO head of the class chosen by the shares, the wait ends, an unusable store refuses
  everything, successes close the breaker.
\<close>

section \<open>Transactions that write nothing\<close>

definition same_serve :: "lim_state \<Rightarrow> lim_state \<Rightarrow> bool" where
  "same_serve a b \<longleftrightarrow> ls_grants b = ls_grants a \<and> ls_breaker b = ls_breaker a \<and> ls_epoch b = ls_epoch a"

definition quiet :: "lim_tx \<Rightarrow> lim_tx \<Rightarrow> bool" where
  "quiet a b \<longleftrightarrow> (tx_dirty a \<longrightarrow> tx_dirty b) \<and> (tx_dirty b \<or> same_serve (tx_st a) (tx_st b))"

lemma quiet_trans: "quiet a b \<Longrightarrow> quiet b c \<Longrightarrow> quiet a c"
  by (auto simp: quiet_def same_serve_def)

lemma quiet_refl [simp]: "quiet a a"
  by (simp add: quiet_def same_serve_def)

lemma quiet_dirty: "tx_dirty b \<Longrightarrow> quiet a b"
  by (simp add: quiet_def)

lemma quiet_touch [simp]: "quiet a (touch f b)"
  by (simp add: quiet_dirty)

lemma quiet_self_heal: "quiet tx (self_heal tx)"
proof -
  have "quiet tx (foldl heal_one tx rs)" for rs
    by (rule foldl_invariant) (auto intro: quiet_trans simp: heal_one_def)
  from this [of "tx_leaked tx"] show ?thesis by (simp add: self_heal_def quiet_def)
qed

lemma quiet_refresh: "quiet tx (lim_refresh cfg e tx)"
proof -
  have d: "tx_dirty (resolve_dead_probe cfg w p t)" for p w t
    by (simp add: resolve_dead_probe_def Let_def)
  have r: "quiet t (on_state (refill cfg e x) t)" for x t
    by (simp add: quiet_def same_serve_def refill_def Let_def)
  have "quiet t (clock_rules cfg e t)" "quiet t (prune_pending e t)" "quiet t (resolve_probe cfg e t)"
    "quiet t (enter_recovery e t)" "quiet t (reconcile_owners e t)" "quiet t (evict_grants cfg e t)" for t
    using r d by (auto simp: clock_rules_def prune_pending_def resolve_probe_def enter_recovery_def
        reconcile_owners_def evict_grants_def Let_def quiet_dirty split: clock_step.split option.split)
  then show ?thesis
    unfolding lim_refresh_def using quiet_self_heal quiet_trans by metis
qed

section \<open>Before a request is sent\<close>

definition may_send :: "string \<Rightarrow> lim_state \<Rightarrow> bool" where
  "may_send gid st \<longleftrightarrow> gid_epoch gid = Some (ls_epoch st) \<and>
     (case dget (ls_grants st) gid of None \<Rightarrow> False
      | Some r \<Rightarrow> gr_outcome r = None \<and> gr_sent r \<and> (gr_probe r \<longrightarrow> owns_slot gid st))"

lemma mark_sent_may_send:
  assumes "dget (ls_grants (tx_st t)) gid = Some r" "gr_outcome r = None" "gid_epoch gid = Some (ls_epoch (tx_st t))"
    and "gr_probe r \<Longrightarrow> owns_slot gid (tx_st t)"
  shows "may_send gid (tx_st (mark_sent gid r t))"
  using assms by (auto simp: mark_sent_def may_send_def owns_slot_def)

lemma may_send_serve: "same_serve a b \<Longrightarrow> may_send gid a = may_send gid b"
  by (simp add: same_serve_def may_send_def owns_slot_def split: option.split)

lemma quiet_prepare: "prepare_body cfg e gid tx = (Inr True, tx') \<Longrightarrow> quiet tx tx'"
proof -
  assume p: "prepare_body cfg e gid tx = (Inr True, tx')"
  have s: "quiet t (mark_sent g r t)" and m: "quiet t (mark_probe pr t)" for g r t pr
    by (auto simp: mark_sent_def mark_probe_def)
  have "quiet t (mark_sent g r (mark_probe pr t))" for g r t pr
    by (rule quiet_trans [OF m s])
  with s p have "quiet (lim_refresh cfg e tx) tx'"
    by (auto simp: prepare_body_def Let_def split: option.splits if_splits)
  then show ?thesis using quiet_refresh quiet_trans by blast
qed

lemma prepare_true_may_send:
  assumes "prepare_body cfg e gid tx = (Inr True, tx')"
  shows "may_send gid (tx_st tx')"
proof -
  let ?u = "lim_refresh cfg e tx"
  obtain r where r: "dget (ls_grants (tx_st ?u)) gid = Some r" "gr_outcome r = None" "gid_epoch gid = Some (ls_epoch (tx_st ?u))"
    "gr_probe r \<Longrightarrow> owns_slot gid (tx_st ?u)"
    and t: "tx' = mark_sent gid r (case bk_probe (ls_breaker (tx_st ?u)) of
        Some p \<Rightarrow> if gr_probe r then mark_probe p ?u else ?u | None \<Rightarrow> ?u)"
    using prepare_true_cases [OF assms] by metis
  show ?thesis unfolding t
    using r by (cases "bk_probe (ls_breaker (tx_st ?u))"; intro mark_sent_may_send)
      (auto simp: owns_slot_def mark_probe_def)
qed

lemma prepare_send_true:
  assumes "lc_enabled cfg" and "fst (prepare_send cfg e gid f p)"
  shows "\<exists>st. fst (snd (prepare_send cfg e gid f p)) = LimDoc st \<and> may_send gid st"
proof -
  have "fst (lim_transaction cfg e (prepare_body cfg e gid) f p) = Inr True"
    using assms by (auto simp: prepare_send_def split: sum.splits prod.splits)
  then obtain st d tx where l: "lim_load cfg e True f = Inr (st, d)"
    and b: "prepare_body cfg e gid \<lparr>tx_st = st, tx_dirty = d, tx_held = lp_held p, tx_leaked = lp_leaked p\<rparr> = (Inr True, tx)"
    and r: "lim_transaction cfg e (prepare_body cfg e gid) f p = (Inr True, if tx_dirty tx then LimDoc (tx_st tx) else f, proc_of tx)"
    by (rule transaction_result)
  have m: "may_send gid (tx_st tx)" using prepare_true_may_send [OF b] .
  have f: "fst (snd (prepare_send cfg e gid f p)) = (if tx_dirty tx then LimDoc (tx_st tx) else f)"
    using assms(1) r by (simp add: prepare_send_def)
  show ?thesis
  proof (cases "tx_dirty tx")
    case False
    then have d: "\<not> d" and s: "same_serve st (tx_st tx)" using quiet_prepare [OF b] by (auto simp: quiet_def)
    have "may_send gid st" using m may_send_serve [OF s] by simp
    moreover from this have "f \<noteq> LimAbsent"
      using l by (auto simp: lim_load_def may_send_def default_state_def)
    ultimately show ?thesis
      using l d False f by (auto simp: lim_load_def split: lim_file.splits option.splits if_splits)
  qed (use m f in simp)
qed

text \<open>C8. A request is let out only for an open grant of the current epoch that the document on disk
  records as sent, and a recovery probe only while it holds the slot.\<close>

theorem send_gate_sound:
  assumes "lc_enabled cfg" and "fst (prepare_send cfg e gid f p)"
  shows "\<exists>st. fst (snd (prepare_send cfg e gid f p)) = LimDoc st \<and> may_send gid st"
  by (rule prepare_send_true [OF assms])

theorem send_gate_sound_witness:
  "fst (prepare_send live_config (calm_env 100) (grant_id 1 1) (LimDoc (first_doc 100)) idle_proc) \<and>
   (\<exists>st. fst (snd (prepare_send live_config (calm_env 100) (grant_id 1 1) (LimDoc (first_doc 100)) idle_proc)) = LimDoc st \<and>
     may_send (grant_id 1 1) st)"
proof -
  have n: "gr_outcome (new_grant (calm_env 100) P0 False) = None" "\<not> gr_probe (new_grant (calm_env 100) P0 False)"
    by (simp_all add: new_grant_def)
  have "fst (prepare_send live_config (calm_env 100) (grant_id 1 1) (LimDoc (first_doc 100)) idle_proc)"
    using example_refresh [of 100 False] n
    by (simp add: prepare_send_def lim_transaction_def example_load prepare_body_def idle_proc_def first_doc_grant
        gid_epoch_grant_id first_doc_epoch Let_def) (simp add: calm_env_def live_config_def)
  moreover have "lc_enabled live_config" by (simp add: live_config_def)
  ultimately show ?thesis using send_gate_sound by blast
qed


section \<open>A grant is durable\<close>

lemma try_grant_grants:
  assumes "try_grant cfg e p req tx = (Inr (Some g), tx')"
  shows "tx_dirty tx'" and "gi_epoch g = ls_epoch (tx_st tx')"
    and "dget (ls_grants (tx_st tx')) (gi_gid g) = Some (new_grant e p (gi_probe g))"
  using assms by (auto simp: try_grant_def issue_grant_def Let_def split: if_splits)

lemma acquire_grants:
  assumes "acquire_body cfg e budget d tx = (Inr (AcqGrant g, d'), tx')"
  shows "tx_dirty tx' \<and> gi_epoch g = ls_epoch (tx_st tx') \<and>
    dget (ls_grants (tx_st tx')) (gi_gid g) = Some (new_grant e (dm_prio d) (gi_probe g))"
proof -
  obtain rr d1 tx1 where r: "register_demand cfg e d (lim_refresh cfg e tx) = (rr, d1, tx1)"
    by (metis prod_cases3)
  have p: "dm_prio d1 = dm_prio d"
    using r by (auto simp: register_demand_def Let_def split: option.splits if_splits)
  have "serve_demand cfg e budget d1 tx1 = (Inr (AcqGrant g), tx')"
    using assms by (auto simp: acquire_body_def r split: register_result.splits sum.splits prod.splits)
  then have "try_grant cfg e (dm_prio d1) (dm_req d1) tx1 = (Inr (Some g), tx')"
    by (auto simp: serve_demand_def Let_def split: if_splits sum.splits prod.splits option.splits)
  from try_grant_grants [OF this] show ?thesis by (simp add: p)
qed

lemma acquire_demand:
  "acquire_body cfg e budget d tx = (Inr (s, d'), tx') \<Longrightarrow> dm_prio d' = dm_prio d \<and> dm_req d' = dm_req d"
  by (auto simp: acquire_body_def register_demand_def Let_def split: option.splits if_splits register_result.splits
      sum.splits prod.splits)

lemma serve_done: "serve_demand cfg e budget d tx = (Inr (AcqDone out), tx') \<Longrightarrow> go_result out = BREAKER_OPEN"
  by (auto simp: serve_demand_def Let_def outcome_of_def split: if_splits sum.splits prod.splits option.splits)

lemma acquire_done:
  "acquire_body cfg e budget d tx = (Inr (AcqDone out, d'), tx') \<Longrightarrow> go_result out \<noteq> GRANTED"
  by (auto dest!: serve_done simp: acquire_body_def outcome_of_def split: register_result.splits sum.splits prod.splits)

lemma loop_granted:
  assumes "go_result (ar_outcome (acquire_loop cfg dl d ts end files sleeps p)) = GRANTED"
  shows "\<exists>t st. t \<in> set ts \<and> at_now t < dl \<and> en_dir_ok (at_env t) \<and> en_lock_ok (at_env t) \<and>
    last (ar_files (acquire_loop cfg dl d ts end files sleeps p)) = LimDoc st \<and>
    go_epoch (ar_outcome (acquire_loop cfg dl d ts end files sleeps p)) = ls_epoch st \<and>
    dget (ls_grants st) (go_gid (ar_outcome (acquire_loop cfg dl d ts end files sleeps p))) =
      Some (new_grant (at_env t) (dm_prio d) (go_probe (ar_outcome (acquire_loop cfg dl d ts end files sleeps p))))"
  using assms
proof (induction ts arbitrary: d files sleeps p)
  case Nil
  then show ?case by (simp add: after_drop_def unavailable_def outcome_of_def split: prod.splits)
next
  case (Cons t ts)
  let ?e = "at_env t"
  obtain r f p1 where r: "lim_transaction cfg ?e (acquire_body cfg ?e (fsub dl (at_now t)) d) (at_file t) p = (r, f, p1)"
    by (metis prod_cases3)
  show ?case
  proof (cases "at_now t \<ge> dl")
    case True
    then show ?thesis
      using Cons.prems by (auto simp: Let_def outcome_of_def unavailable_def split: prod.splits sum.splits)
  next
    case now: False
    show ?thesis
    proof (cases r)
      case (Inl err)
      then show ?thesis
        using Cons.prems now by (auto simp: Let_def r after_drop_def outcome_of_def unavailable_def split: prod.splits)
    next
      case (Inr sd)
      obtain s d1 where sd: "sd = (s, d1)" by (cases sd)
      have i: "fst (lim_transaction cfg ?e (acquire_body cfg ?e (fsub dl (at_now t)) d) (at_file t) p) = Inr (s, d1)"
        by (simp add: r Inr sd)
      obtain st0 dd tx where b: "acquire_body cfg ?e (fsub dl (at_now t)) d
          \<lparr>tx_st = st0, tx_dirty = dd, tx_held = lp_held p, tx_leaked = lp_leaked p\<rparr> = (Inr (s, d1), tx)"
        and io: "en_dir_ok ?e" "en_lock_ok ?e" and f: "f = (if tx_dirty tx then LimDoc (tx_st tx) else at_file t)"
        by (rule transaction_result [OF i]) (use r in auto)
      show ?thesis
      proof (cases s)
        case (AcqDone out)
        then show ?thesis using Cons.prems now acquire_done [OF b [unfolded AcqDone]] by (simp add: Let_def r Inr sd)
      next
        case (AcqGrant g)
        then show ?thesis using acquire_grants [of cfg ?e _ d _ g d1 tx] b now io f
          by (intro exI [of _ t] exI [of _ "tx_st tx"]) (simp add: Let_def r Inr sd)
      next
        case (AcqWait h)
        then show ?thesis
          using Cons.IH [of d1] Cons.prems now acquire_demand [OF b] by (force simp: Let_def r Inr sd)
      qed
    qed
  qed
qed

text \<open>A grant is on disk when it is returned: whenever \<^verbatim>\<open>acquire\<close> answers GRANTED, the file its last
  transaction left holds the grant, open, unsent and issued to this process in the current epoch; the
  transaction had its directory and its lock, and began before the deadline. No failure of the store
  ever yields a grant.\<close>

theorem granted_is_durable:
  assumes "lc_enabled cfg"
    and "go_result (ar_outcome (acquire cfg p t0 (Some dl) req lrid turns end pr)) = GRANTED"
  shows "\<exists>t st. t \<in> set turns \<and> at_now t < dl \<and> en_dir_ok (at_env t) \<and> en_lock_ok (at_env t) \<and>
    last (ar_files (acquire cfg p t0 (Some dl) req lrid turns end pr)) = LimDoc st \<and>
    go_epoch (ar_outcome (acquire cfg p t0 (Some dl) req lrid turns end pr)) = ls_epoch st \<and>
    dget (ls_grants st) (go_gid (ar_outcome (acquire cfg p t0 (Some dl) req lrid turns end pr))) =
      Some (new_grant (at_env t) p (go_probe (ar_outcome (acquire cfg p t0 (Some dl) req lrid turns end pr))))"
proof -
  have t0: "t0 < dl" using assms by (auto simp: acquire_def Let_def outcome_of_def split: if_splits)
  show ?thesis
    using assms(2) loop_granted [of cfg dl _ "take (lc_loop_cap cfg) turns"] t0 assms(1) set_take_subset
    by (fastforce simp: acquire_def Let_def)
qed

section \<open>The wait ends\<close>

lemma after_drop_files: "length (ar_files (after_drop cfg out req t files sleeps p)) \<le> length files + 2"
  by (auto simp: after_drop_def lim_drop_def split: prod.splits sum.splits)

lemma loop_files: "length (ar_files (acquire_loop cfg dl d ts end files sleeps p)) \<le> length files + length ts + 2"
proof (induction ts arbitrary: d files sleeps p)
  case (Cons t ts)
  obtain r f p1 where r: "lim_transaction cfg (at_env t) (acquire_body cfg (at_env t) (fsub dl (at_now t)) d) (at_file t) p = (r, f, p1)"
    by (metis prod_cases3)
  show ?case
    using le_trans [OF after_drop_files [of cfg _ "dm_req d" t "files @ [f]" sleeps p1],
        of "length files + length (t # ts) + 2"] Cons.IH [of _ "files @ [f]" _ p1]
    by (auto simp: Let_def r split: prod.splits sum.splits acquire_step.splits)
next
  case Nil
  then show ?case
    using after_drop_files [of cfg "unavailable LoopExceeded" "dm_req d" "end" files sleeps p] by simp
qed

lemma loop_deadline:
  assumes "k < length ts" "dl \<le> at_now (ts ! k)"
  shows "length (ar_files (acquire_loop cfg dl d ts end files sleeps p)) \<le> length files + k + 2"
  using assms
proof (induction ts arbitrary: k d files sleeps p)
  case (Cons t ts)
  obtain r f p1 where r: "lim_transaction cfg (at_env t) (acquire_body cfg (at_env t) (fsub dl (at_now t)) d) (at_file t) p = (r, f, p1)"
    by (metis prod_cases3)
  show ?case
  proof (cases k)
    case 0
    with Cons.prems show ?thesis by (auto simp: Let_def split: prod.splits sum.splits)
  next
    case (Suc j)
    show ?thesis
      using le_trans [OF after_drop_files [of cfg _ "dm_req d" t "files @ [f]" sleeps p1], of "length files + k + 2"]
        Cons.IH [of j _ "files @ [f]" _ p1] Cons.prems
      by (auto simp: Let_def r Suc split: prod.splits sum.splits acquire_step.splits)
  qed
qed simp

text \<open>C13. Every \<^verbatim>\<open>acquire\<close> ends: its loop makes at most \<open>loop_cap\<close> turns, and once the clock at the top of
  a turn has reached the deadline, at most two transactions more follow that turn's predecessors.\<close>

theorem acquire_ends:
  "length (ar_files (acquire cfg p t0 dl req lrid turns end pr)) \<le> lc_loop_cap cfg + 2 \<and>
   (case find (\<lambda>k. (case dl of None \<Rightarrow> fadd t0 (lc_max_wait cfg) | Some x \<Rightarrow> x) \<le> at_now (turns ! k))
       [0..<min (lc_loop_cap cfg) (length turns)] of
      None \<Rightarrow> True
    | Some k \<Rightarrow> length (ar_files (acquire cfg p t0 dl req lrid turns end pr)) \<le> k + 2)"
proof -
  let ?dl = "case dl of None \<Rightarrow> fadd t0 (lc_max_wait cfg) | Some x \<Rightarrow> x"
  let ?ts = "take (lc_loop_cap cfg) turns"
  have l: "ar_files (acquire cfg p t0 dl req lrid turns end pr) = [] \<or>
      ar_files (acquire cfg p t0 dl req lrid turns end pr) = ar_files (acquire_loop cfg ?dl
        \<lparr>dm_prio = p, dm_req = req, dm_lrid = lrid, dm_anchor = None\<rparr> ?ts end [] [] pr)"
    by (simp add: acquire_def Let_def split: option.split)
  have a: "length (ar_files (acquire_loop cfg ?dl d ?ts end [] [] pr)) \<le> lc_loop_cap cfg + 2" for d
    using loop_files [of cfg ?dl d ?ts "end" "[]" "[]" pr] by simp
  have b: "length (ar_files (acquire_loop cfg ?dl d ?ts end [] [] pr)) \<le> k + 2"
    if "find (\<lambda>k. ?dl \<le> at_now (turns ! k)) [0..<min (lc_loop_cap cfg) (length turns)] = Some k" for d k
    using that loop_deadline [of k ?ts ?dl cfg d "end" "[]" "[]" pr]
    by (auto simp: find_Some_iff split: option.splits)
  show ?thesis
    using l a b by (auto split: option.split)
qed


definition example_turn :: acquire_turn where
  "example_turn =
     \<lparr>at_now = 100, at_env = calm_env 100, at_file = LimAbsent, at_drop1 = (calm_env 100, LimAbsent),
      at_drop2 = (calm_env 100, LimAbsent), at_later = 100, at_jitter = 0\<rparr>"

lemma example_acquire_call:
  "acquire live_config P0 100 (Some 105) ''req'' ''trace'' [example_turn] example_turn idle_proc =
    \<lparr>ar_outcome = \<lparr>go_result = GRANTED, go_gid = grant_id 1 1, go_epoch = 1, go_probe = False, go_reason = ''granted''\<rparr>,
     ar_files = [LimDoc (first_doc 100)], ar_sleeps = [], ar_proc = idle_proc\<rparr>"
proof -
  have "fsub 105 100 = 5" using fl_of_int [of 5] by (simp add: fsub_def)
  moreover have "lc_enabled live_config" "lc_loop_cap live_config = 10000"
    by (simp_all add: live_config_def default_config_def)
  ultimately show ?thesis
    using example_acquire [of 100] by (simp add: acquire_def example_turn_def first_demand_def Let_def)
qed

theorem granted_is_durable_witness:
  "\<exists>t st. t \<in> set [example_turn] \<and> at_now t < 105 \<and> en_dir_ok (at_env t) \<and> en_lock_ok (at_env t) \<and>
    last (ar_files (acquire live_config P0 100 (Some 105) ''req'' ''trace'' [example_turn] example_turn idle_proc)) = LimDoc st \<and>
    go_epoch (ar_outcome (acquire live_config P0 100 (Some 105) ''req'' ''trace'' [example_turn] example_turn idle_proc)) = ls_epoch st \<and>
    dget (ls_grants st) (go_gid (ar_outcome (acquire live_config P0 100 (Some 105) ''req'' ''trace'' [example_turn] example_turn idle_proc))) =
      Some (new_grant (at_env t) P0
        (go_probe (ar_outcome (acquire live_config P0 100 (Some 105) ''req'' ''trace'' [example_turn] example_turn idle_proc))))"
  by (rule granted_is_durable) (simp_all only: example_acquire_call, simp_all add: live_config_def)

section \<open>Whose turn it is\<close>

















section \<open>An unusable store refuses\<close>

definition unusable :: "lim_config \<Rightarrow> lim_env \<Rightarrow> lim_file \<Rightarrow> bool" where
  "unusable cfg e f \<longleftrightarrow> \<not> en_dir_ok e \<or> \<not> en_lock_ok e \<or>
     (case f of LimAbsent \<Rightarrow> False | LimUnreadable \<Rightarrow> True | LimCorrupt \<Rightarrow> True
      | LimDoc st \<Rightarrow> (case ls_fingerprint st of None \<Rightarrow> False | Some x \<Rightarrow> x \<noteq> fingerprint (en_digest e) cfg))"

lemma unusable_transaction:
  assumes "unusable cfg e f"
  obtains err where "lim_transaction cfg e body f p = (Inl err, f, p)"
proof -
  have "\<exists>err. lim_transaction cfg e body f p = (Inl err, f, p)"
  proof (cases "en_dir_ok e \<and> en_lock_ok e")
    case True
    then have "\<exists>err. lim_load cfg e True f = Inl err"
      using assms by (auto simp: unusable_def lim_load_def split: lim_file.splits option.splits)
    with True show ?thesis by (auto simp: lim_transaction_def)
  qed (auto simp: lim_transaction_def)
  then show ?thesis using that by blast
qed

text \<open>Fail closed: when the directory or the lock is unavailable, the document cannot be read, is
  corrupt or was written under another configuration, no transaction changes the file and the caller
  is refused: a first turn of \<^verbatim>\<open>acquire\<close> that meets it (with the drop that follows) is
  STATE_UNAVAILABLE, \<^verbatim>\<open>prepare_send\<close> answers no, and a \<^verbatim>\<open>record_result\<close> attempt is not
  applied.\<close>

theorem unusable_store_refuses:
  assumes "lc_enabled cfg" and "unusable cfg e f"
  shows "lim_event_step cfg f (EvAcquire e budget d p) = f \<and>
    prepare_send cfg e gid f p = (False, f, p) \<and>
    record_attempts cfg gid out [(e, f)] [] p = (REC_UNAVAILABLE, [f], p) \<and>
    go_result (ar_outcome (acquire_loop cfg dl d (\<lparr>at_now = now, at_env = e, at_file = f, at_drop1 = (e, f),
      at_drop2 = (e, f), at_later = l, at_jitter = j\<rparr> # ts) end [] [] p)) = STATE_UNAVAILABLE"
proof -
  obtain e0 where z: "lim_transaction cfg e (acquire_body cfg e budget d) f p = (Inl e0, f, p)"
    by (rule unusable_transaction [OF assms(2)])
  obtain e1 where a: "lim_transaction cfg e (acquire_body cfg e (fsub dl now) d) f p = (Inl e1, f, p)"
    by (rule unusable_transaction [OF assms(2)])
  obtain e2 where b: "lim_transaction cfg e (prepare_body cfg e gid) f p = (Inl e2, f, p)"
    by (rule unusable_transaction [OF assms(2)])
  obtain e3 where c: "lim_transaction cfg e (record_body cfg e gid out) f p = (Inl e3, f, p)"
    by (rule unusable_transaction [OF assms(2)])
  obtain e4 where d: "lim_transaction cfg e (skip_body cfg e (dm_req d)) f p = (Inl e4, f, p)"
    by (rule unusable_transaction [OF assms(2)])
  show ?thesis
    using assms(1)
    by (simp add: run_body_def prepare_send_def z a b c d Let_def after_drop_def unavailable_def outcome_of_def split: prod.split)
qed

theorem unusable_store_refuses_witness:
  "lim_event_step live_config LimCorrupt (EvAcquire (calm_env 100) 5 first_demand idle_proc) = LimCorrupt \<and>
   prepare_send live_config (calm_env 100) (grant_id 1 1) LimCorrupt idle_proc = (False, LimCorrupt, idle_proc)"
  using unusable_store_refuses [where cfg = live_config and e = "calm_env 100" and f = LimCorrupt and p = idle_proc
      and gid = "grant_id 1 1" and budget = 5 and d = first_demand]
  by (simp add: unusable_def live_config_def)

section \<open>Recovery\<close>

definition recovering :: "lim_state \<Rightarrow> bool" where
  "recovering st \<longleftrightarrow> bk_state (ls_breaker st) = BKR_RECOVERY"

text \<open>Within one epoch recovery never loses ground: the breaker stays closed once it is, and until then
  the streak does not shrink.\<close>

definition no_ground_lost :: "lim_config \<Rightarrow> lim_state \<Rightarrow> lim_state \<Rightarrow> bool" where
  "no_ground_lost cfg a b \<longleftrightarrow> ls_epoch b = ls_epoch a \<longrightarrow>
     (bk_state (ls_breaker a) = BKR_CLOSED \<longrightarrow> bk_state (ls_breaker b) = BKR_CLOSED) \<and>
     (recovering a \<longrightarrow> bk_state (ls_breaker b) = BKR_CLOSED \<or>
        (recovering b \<and> bk_streak (ls_breaker a) \<le> bk_streak (ls_breaker b) \<and>
         (bk_streak (ls_breaker a) < lc_success_target cfg \<longrightarrow> bk_streak (ls_breaker b) < lc_success_target cfg)))"

lemma ground_step: "lim_step cfg a b \<Longrightarrow> no_ground_lost cfg a b"
  by (induction rule: lim_step.induct)
    (auto simp: no_ground_lost_def recovering_def upd_breaker_def drop_probe_def count_success_def issue_grant_def
      open_breaker_def Let_def)

lemma ground_steps: "lim_steps cfg a b \<Longrightarrow> no_ground_lost cfg a b"
proof (induction rule: rtranclp_induct)
  case (step b c)
  from lim_steps_epoch [OF step(1)] lim_step_epoch [OF step(2)] step(3) ground_step [OF step(2)] show ?case
    unfolding no_ground_lost_def by (metis order_antisym order_trans)
qed (simp add: no_ground_lost_def)

text \<open>A transaction that counts: an OK recorded for a grant of the epoch that is current afterwards.\<close>

definition counts_success :: "lim_config \<Rightarrow> lim_file \<Rightarrow> lim_event \<Rightarrow> bool" where
  "counts_success cfg f ev \<longleftrightarrow> (case ev of
     EvRecord e gid out p \<Rightarrow> out = ''OK'' \<and> fst (lim_transaction cfg e (record_body cfg e gid out) f p) = Inr APPLIED \<and>
       gid_epoch gid = Some (file_epoch (lim_event_step cfg f ev))
   | _ \<Rightarrow> False)"

fun count_successes :: "lim_config \<Rightarrow> lim_file \<Rightarrow> lim_event list \<Rightarrow> int" where
  "count_successes cfg f [] = 0"
| "count_successes cfg f (ev # es) =
     (if counts_success cfg f ev then 1 else 0) + count_successes cfg (lim_event_step cfg f ev) es"

definition file_recovered :: "lim_config \<Rightarrow> int \<Rightarrow> lim_file \<Rightarrow> bool" where
  "file_recovered cfg n f \<longleftrightarrow> (case f of LimDoc st \<Rightarrow> bk_state (ls_breaker st) = BKR_CLOSED \<or>
     (recovering st \<and> n \<le> bk_streak (ls_breaker st) \<and> bk_streak (ls_breaker st) < lc_success_target cfg) | _ \<Rightarrow> False)"


lemma recovered_steps:
  assumes "lim_steps cfg a b" "ls_epoch b = ls_epoch a" "file_recovered cfg n (LimDoc a)"
  shows "file_recovered cfg n (LimDoc b)"
  using ground_steps [OF assms(1)] assms(2,3) by (auto simp: file_recovered_def no_ground_lost_def)

lemma recovered_success:
  assumes "record_body cfg e gid ''OK'' tx = (Inr APPLIED, tx')" "gid_epoch gid = Some (ls_epoch (tx_st tx'))"
    and "ls_epoch (tx_st tx') = ls_epoch (tx_st tx)" "file_recovered cfg n (LimDoc (tx_st tx))"
  shows "file_recovered cfg (n + 1) (LimDoc (tx_st tx'))"
proof -
  let ?u = "tx_st (lim_refresh cfg e tx)"
  obtain r ep where ep: "gid_epoch gid = Some ep"
    and t: "tx' = apply_result cfg e gid ''OK'' ep (touch (set_outcome gid ''OK'' r) (lim_refresh cfg e tx))"
    using record_applied_cases [OF assms(1)] by metis
  have e: "ls_epoch (tx_st tx') = ls_epoch ?u" by (simp add: t apply_result_def set_outcome_def)
  then have b: "ls_breaker (tx_st tx') = count_success cfg (ls_breaker (free_slot gid (set_outcome gid ''OK'' r ?u)))"
    using assms(2) ep by (simp add: t apply_result_def set_outcome_def)
  have f: "bk_state (ls_breaker (free_slot gid (set_outcome gid ''OK'' r ?u))) = bk_state (ls_breaker ?u)"
    "bk_streak (ls_breaker (free_slot gid (set_outcome gid ''OK'' r ?u))) = bk_streak (ls_breaker ?u)"
    by (simp_all add: free_slot_def set_outcome_def drop_probe_def)
  have "file_recovered cfg n (LimDoc ?u)"
    using recovered_steps [OF refresh_steps [of cfg tx e]] assms(3,4) e by simp
  then show ?thesis
    using f by (auto simp: file_recovered_def recovering_def b count_success_def Let_def)
qed

lemma event_recovered:
  assumes "file_recovered cfg n f" "file_epoch (lim_event_step cfg f ev) = file_epoch f"
  shows "file_recovered cfg (n + (if counts_success cfg f ev then 1 else 0)) (lim_event_step cfg f ev)"
proof -
  obtain a where a: "f = LimDoc a" using assms(1) by (cases f) (auto simp: file_recovered_def)
  have plain: "file_recovered cfg n (lim_event_step cfg f ev)"
    using event_step_to [of cfg f ev] unfolding file_to_def
  proof (elim disjE exE conjE)
    fix e st st'
    assume "loaded cfg e f st" "lim_steps cfg st st'" and s: "lim_event_step cfg f ev = LimDoc st'"
    then have "lim_steps cfg a st'"
      using steps_trans [OF steps_same_core] by (auto simp: a loaded_def)
    then show ?thesis using recovered_steps assms s by (simp add: a file_epoch_def)
  qed (use assms in simp)
  show ?thesis
  proof (cases "counts_success cfg f ev")
    case True
    then obtain e gid p where ev: "ev = EvRecord e gid ''OK'' p"
      and ap: "fst (lim_transaction cfg e (record_body cfg e gid ''OK'') f p) = Inr APPLIED"
      and ep: "gid_epoch gid = Some (file_epoch (lim_event_step cfg f ev))"
      by (cases ev) (auto simp: counts_success_def)
    from ap obtain st d tx where l: "lim_load cfg e True f = Inr (st, d)"
      and b: "record_body cfg e gid ''OK'' \<lparr>tx_st = st, tx_dirty = d, tx_held = lp_held p, tx_leaked = lp_leaked p\<rparr> = (Inr APPLIED, tx)"
      and r: "lim_transaction cfg e (record_body cfg e gid ''OK'') f p = (Inr APPLIED, if tx_dirty tx then LimDoc (tx_st tx) else f, proc_of tx)"
      by (rule transaction_result)
    have "tx_dirty tx" using b record_applied_cases apply_result_dirty touch_simps(2) by metis
    then have s: "lim_event_step cfg f ev = LimDoc (tx_st tx)" using r by (simp add: ev run_body_def)
    have core: "same_core a st" using lim_load_loaded [OF l] by (simp add: a loaded_def)
    then have "file_recovered cfg n (LimDoc st)"
      using recovered_steps [OF steps_same_core [OF core]] assms(1) by (simp add: a same_core_def)
    then have "file_recovered cfg (n + 1) (LimDoc (tx_st tx))"
      using recovered_success [OF b] ep assms(2) core s by (simp add: a file_epoch_def same_core_def)
    then show ?thesis using True s by simp
  qed (use plain in simp)
qed

lemma run_recovered:
  assumes "file_recovered cfg n f" "file_epoch (lim_run cfg f es) = file_epoch f"
  shows "file_recovered cfg (n + count_successes cfg f es) (lim_run cfg f es)"
  using assms
proof (induction es arbitrary: n f)
  case (Cons ev es)
  have up: "file_epoch f \<le> file_epoch (lim_run cfg f es)" for f es
  proof (induction es arbitrary: f)
    case (Cons ev es)
    then show ?case using to_epoch [OF event_step_to [of cfg f ev]] order_trans by fastforce
  qed simp
  have e: "file_epoch (lim_event_step cfg f ev) = file_epoch f"
    using up [of "lim_event_step cfg f ev" es] to_epoch [OF event_step_to [of cfg f ev]] Cons.prems(2) by simp
  show ?case
    using Cons.IH [OF event_recovered [OF Cons.prems(1) e]] Cons.prems(2) e by (simp add: add.assoc)
qed simp

text \<open>C12. Recovery succeeds: from a document in recovery, over any run by any processes in which the
  breaker was not opened again, once the successes counted reach the target the breaker is closed,
  whatever else happened in between.\<close>

theorem recovery_closes:
  assumes "recovering st" "bk_streak (ls_breaker st) = 0" "1 \<le> lc_success_target cfg"
    and "file_epoch (lim_run cfg (LimDoc st) es) = ls_epoch st"
    and "lc_success_target cfg \<le> count_successes cfg (LimDoc st) es"
  shows "file_all (\<lambda>st'. bk_state (ls_breaker st') = BKR_CLOSED) (lim_run cfg (LimDoc st) es)"
proof -
  have "file_recovered cfg 0 (LimDoc st)" using assms(1-3) by (simp add: file_recovered_def)
  then have "file_recovered cfg (count_successes cfg (LimDoc st) es) (lim_run cfg (LimDoc st) es)"
    using run_recovered [where cfg = cfg and n = 0] assms(4) by (simp add: file_epoch_def)
  with assms(5) show ?thesis
    by (cases "lim_run cfg (LimDoc st) es") (auto simp: file_recovered_def)
qed


text \<open>The example continued: a recovery probe whose send is marked, under a target of one success.\<close>

definition probe_config :: lim_config where
  "probe_config = live_config\<lparr>lc_success_target := 1\<rparr>"

definition probe_doc :: lim_state where
  "probe_doc = upd_breaker (\<lambda>br. br\<lparr>bk_probe := Some ((new_probe probe_config (calm_env 100) (grant_id 1 1))\<lparr>pb_marker := True\<rparr>)\<rparr>)
     (issue_grant probe_config (calm_env 100) P0 ''req'' True
       (upd_breaker (\<lambda>br. br\<lparr>bk_state := BKR_RECOVERY\<rparr>) (default_state probe_config (calm_env 100))))"

lemmas probe_defs = probe_doc_def probe_config_def issue_grant_def new_grant_def new_probe_def upd_breaker_def

lemma probe_doc_load: "lim_load probe_config (calm_env w) True (LimDoc probe_doc) = Inr (probe_doc, False)"
  by (simp add: lim_load_def probe_defs default_state_def Let_def calm_env_def fingerprint_def)

lemma probe_doc_facts:
  "dget (ls_grants probe_doc) (grant_id 1 1) = Some (new_grant (calm_env 100) P0 True)"
  "bk_state (ls_breaker probe_doc) = BKR_RECOVERY" "bk_streak (ls_breaker probe_doc) = 0" "ls_epoch probe_doc = 1"
  by (simp_all add: probe_defs default_state_def Let_def)

lemma probe_doc_refresh_any:
  "lim_refresh probe_config ((calm_env 100)\<lparr>en_write := w\<rparr>) \<lparr>tx_st = probe_doc, tx_dirty = d, tx_held = h, tx_leaked = []\<rparr> =
    \<lparr>tx_st = probe_doc, tx_dirty = d, tx_held = h, tx_leaked = []\<rparr>"
proof -
  have "\<not> fadd 100 30 \<le> 100"
    using fl_of_int [of 130] by (simp add: fadd_def)
  then show ?thesis
    by (simp add: refresh_defs probe_defs example_defs Let_def)
qed

lemma probe_doc_refresh:
  "lim_refresh probe_config (calm_env 100) \<lparr>tx_st = probe_doc, tx_dirty = d, tx_held = h, tx_leaked = []\<rparr> =
    \<lparr>tx_st = probe_doc, tx_dirty = d, tx_held = h, tx_leaked = []\<rparr>"
  using probe_doc_refresh_any [of WriteOk] by (simp add: calm_env_def)

lemma probe_doc_success:
  "lim_transaction probe_config (calm_env 100) (record_body probe_config (calm_env 100) (grant_id 1 1) ''OK'') (LimDoc probe_doc) idle_proc =
    (Inr APPLIED, LimDoc (upd_breaker (count_success probe_config) (free_slot (grant_id 1 1)
       (set_outcome (grant_id 1 1) ''OK'' (new_grant (calm_env 100) P0 True) probe_doc))), idle_proc)"
proof -
  have n: "gr_outcome (new_grant (calm_env 100) P0 True) = None" by (simp add: new_grant_def)
  have e: "ls_epoch (set_outcome g out r probe_doc) = 1" for g out r
    by (simp add: set_outcome_def probe_doc_facts)
  show ?thesis
    by (simp add: lim_transaction_def probe_doc_load record_body_def probe_doc_refresh probe_doc_facts n gid_epoch_grant_id
        apply_result_def e idle_proc_def proc_of_def touch_def Let_def) (simp add: calm_env_def)
qed

theorem recovery_closes_witness:
  "file_all (\<lambda>st'. bk_state (ls_breaker st') = BKR_CLOSED)
     (lim_run probe_config (LimDoc probe_doc) [EvRecord (calm_env 100) (grant_id 1 1) ''OK'' idle_proc])"
proof (rule recovery_closes)
  have s: "lim_event_step probe_config (LimDoc probe_doc) (EvRecord (calm_env 100) (grant_id 1 1) ''OK'' idle_proc) =
      LimDoc (upd_breaker (count_success probe_config) (free_slot (grant_id 1 1)
       (set_outcome (grant_id 1 1) ''OK'' (new_grant (calm_env 100) P0 True) probe_doc)))"
    by (simp add: run_body_def probe_doc_success)
  have e: "ls_epoch (set_outcome g out r probe_doc) = 1" for g out r
    by (simp add: set_outcome_def probe_doc_facts)
  have target: "lc_success_target probe_config = 1" by (simp add: probe_config_def)
  show "recovering probe_doc" by (simp add: recovering_def probe_doc_facts)
  show "bk_streak (ls_breaker probe_doc) = 0" by (rule probe_doc_facts)
  show "1 \<le> lc_success_target probe_config" by (simp add: target)
  show "file_epoch (lim_run probe_config (LimDoc probe_doc) [EvRecord (calm_env 100) (grant_id 1 1) ''OK'' idle_proc]) = ls_epoch probe_doc"
    by (simp del: lim_event_step.simps add: s file_epoch_def e probe_doc_facts)
  show "lc_success_target probe_config \<le>
      count_successes probe_config (LimDoc probe_doc) [EvRecord (calm_env 100) (grant_id 1 1) ''OK'' idle_proc]"
    by (simp del: lim_event_step.simps add: counts_success_def probe_doc_success s file_epoch_def e gid_epoch_grant_id target)
qed

section \<open>A failed write loses the escalation\<close>

lemma dead_probe_refresh:
  assumes "bk_probe (ls_breaker (tx_st tx)) = Some p" "pb_marker p" "pb_boot p = en_boot e" "\<not> en_held e (pb_witness p)"
    and "dget (ls_grants (tx_st tx)) (pb_holder p) = Some r" "gr_outcome r = None" "dwf (ls_grants (tx_st tx))"
    and "fsub (en_wall e) (gr_issued r) < lc_max_lifetime cfg"
  shows "dget (ls_grants (tx_st (lim_refresh cfg e tx))) (pb_holder p) = Some (r\<lparr>gr_outcome := Some ''UNKNOWN''\<rparr>) \<and>
    bk_level (ls_breaker (tx_st (lim_refresh cfg e tx))) = bk_level (ls_breaker (tx_st tx)) \<and> tx_dirty (lim_refresh cfg e tx)"
proof -
  let ?g = "pb_holder p" and ?r = "r\<lparr>gr_outcome := Some ''UNKNOWN''\<rparr>"
  define t1 where "t1 = prune_pending e (clock_rules cfg e (self_heal tx))"
  have h: "ls_grants (tx_st (foldl heal_one t rs)) = ls_grants (tx_st t) \<and> ls_breaker (tx_st (foldl heal_one t rs)) = ls_breaker (tx_st t)" for t rs
    by (induction rs arbitrary: t) (simp_all add: heal_one_def bump_pruned_def upd_anomalies_def)
  have c: "ls_grants (tx_st (clock_rules cfg e t)) = ls_grants (tx_st t)"
    "bk_probe (ls_breaker (tx_st (clock_rules cfg e t))) = bk_probe (ls_breaker (tx_st t))"
    "bk_level (ls_breaker (tx_st (clock_rules cfg e t))) = bk_level (ls_breaker (tx_st t))" for t
    by (simp_all add: clock_rules_def rebaseline_def rearm_def upd_breaker_def refill_def Let_def split: clock_step.split)
  have t1: "ls_grants (tx_st t1) = ls_grants (tx_st tx)" "bk_probe (ls_breaker (tx_st t1)) = Some p"
    "bk_level (ls_breaker (tx_st t1)) = bk_level (ls_breaker (tx_st tx))"
    using assms(1) h by (simp_all add: t1_def prune_pending_def bump_pruned_def upd_anomalies_def Let_def c self_heal_def)
  define t2 where "t2 = resolve_probe cfg e t1"
  have t2: "ls_grants (tx_st t2) = dput ?g ?r (ls_grants (tx_st tx))" "bk_level (ls_breaker (tx_st t2)) = bk_level (ls_breaker (tx_st tx))"
    "tx_dirty t2"
    using assms(2-6) by (simp_all add: t2_def resolve_probe_def t1 resolve_dead_probe_def close_grant_def open_breaker_def
        drop_probe_def Let_def)
  define t3 where "t3 = enter_recovery e t2"
  have t3: "ls_grants (tx_st t3) = dput ?g ?r (ls_grants (tx_st tx))" "bk_level (ls_breaker (tx_st t3)) = bk_level (ls_breaker (tx_st tx))"
    "tx_dirty t3"
    using t2 by (simp_all add: t3_def enter_recovery_def Let_def)
  define t4 where "t4 = reconcile_owners e t3"
  have t4: "dget (ls_grants (tx_st t4)) ?g = Some ?r" "bk_level (ls_breaker (tx_st t4)) = bk_level (ls_breaker (tx_st tx))"
    "tx_dirty t4" "dwf (ls_grants (tx_st t4))"
    using t3 assms(7) by (simp_all add: t4_def reconcile_owners_def dget_map_ran2 reconcile_one_def owner_dead_def)
  have "dget (ls_grants (tx_st (evict_grants cfg e t4))) ?g = Some ?r"
    using t4 assms(8) by (simp add: evict_grants_def dget_filter grant_aged_def)
  then show ?thesis
    using t4 by (simp add: lim_refresh_def t1_def [symmetric] t2_def [symmetric] t3_def [symmetric] t4_def [symmetric] evict_grants_def)
qed

text \<open>A transient write failure loses an escalation: when the first attempt to record a RATE_LIMIT
  for a marked recovery probe fails to write, its transaction has already released the witness; the
  next attempt then finds the probe dead, closes the grant as UNKNOWN and answers DUPLICATE. The
  breaker opens at the old level, as for a crashed prober, and the exchange's answer is gone.\<close>

theorem failed_write_loses_escalation:
  assumes "lim_transaction cfg e1 (record_body cfg e1 (pb_holder p) ''RATE_LIMIT'') f pr = (Inl WriteFailed, f, pr1)"
    and "f = LimDoc st" "lim_load cfg e2 True f = Inr (st, d)" "en_dir_ok e2" "en_lock_ok e2" "en_write e2 = WriteOk"
    and "bk_probe (ls_breaker st) = Some p" "pb_marker p" "pb_boot p = en_boot e2" "\<not> en_held e2 (pb_witness p)"
    and "dget (ls_grants st) (pb_holder p) = Some r" "gr_outcome r = None" "dwf (ls_grants st)"
    and "fsub (en_wall e2) (gr_issued r) < lc_max_lifetime cfg"
  shows "\<exists>st' pr2. record_attempts cfg (pb_holder p) ''RATE_LIMIT'' [(e1, f), (e2, f)] [] pr = (DUPLICATE, [f, LimDoc st'], pr2) \<and>
    dget (ls_grants st') (pb_holder p) = Some (r\<lparr>gr_outcome := Some ''UNKNOWN''\<rparr>) \<and>
    bk_level (ls_breaker st') = bk_level (ls_breaker st)"
proof -
  let ?tx = "\<lparr>tx_st = st, tx_dirty = d, tx_held = lp_held pr1, tx_leaked = lp_leaked pr1\<rparr>"
  have r: "dget (ls_grants (tx_st (lim_refresh cfg e2 ?tx))) (pb_holder p) = Some (r\<lparr>gr_outcome := Some ''UNKNOWN''\<rparr>)"
    "bk_level (ls_breaker (tx_st (lim_refresh cfg e2 ?tx))) = bk_level (ls_breaker st)" "tx_dirty (lim_refresh cfg e2 ?tx)"
    using dead_probe_refresh [of ?tx p e2 r cfg] assms(7-14) by simp_all
  have "record_body cfg e2 (pb_holder p) ''RATE_LIMIT'' ?tx = (Inr DUPLICATE, lim_refresh cfg e2 ?tx)"
    by (simp add: record_body_def r)
  then have "lim_transaction cfg e2 (record_body cfg e2 (pb_holder p) ''RATE_LIMIT'') f pr1 =
      (Inr DUPLICATE, LimDoc (tx_st (lim_refresh cfg e2 ?tx)), proc_of (lim_refresh cfg e2 ?tx))"
    using r assms(3-6) by (simp add: lim_transaction_def)
  then show ?thesis using r assms(1) by simp
qed


theorem failed_write_loses_escalation_witness:
  "\<exists>st' pr2. record_attempts probe_config (grant_id 1 1) ''RATE_LIMIT''
      [((calm_env 100)\<lparr>en_write := WriteFails\<rparr>, LimDoc probe_doc), ((calm_env 100)\<lparr>en_held := (\<lambda>_. False)\<rparr>, LimDoc probe_doc)] []
      \<lparr>lp_held = [grant_id 1 1], lp_leaked = []\<rparr> = (DUPLICATE, [LimDoc probe_doc, LimDoc st'], pr2) \<and>
    dget (ls_grants st') (grant_id 1 1) = Some ((new_grant (calm_env 100) P0 True)\<lparr>gr_outcome := Some ''UNKNOWN''\<rparr>) \<and>
    bk_level (ls_breaker st') = bk_level (ls_breaker probe_doc)"
proof -
  let ?p = "(new_probe probe_config (calm_env 100) (grant_id 1 1))\<lparr>pb_marker := True\<rparr>"
  let ?r = "new_grant (calm_env 100) P0 True"
  let ?e = "(calm_env 100)\<lparr>en_write := WriteFails\<rparr>" and ?h = "(calm_env 100)\<lparr>en_held := (\<lambda>_. False)\<rparr>"
  have g: "pb_holder ?p = grant_id 1 1" by (simp add: new_probe_def)
  have b: "bk_probe (ls_breaker probe_doc) = Some ?p" by (simp add: probe_doc_def)
  have n: "gr_outcome ?r = None" by (simp add: new_grant_def)
  have load: "lim_load probe_config ?e True (LimDoc probe_doc) = Inr (probe_doc, False)"
    "lim_load probe_config ?h True (LimDoc probe_doc) = Inr (probe_doc, False)"
    by (simp_all add: lim_load_def probe_defs default_state_def Let_def calm_env_def fingerprint_def)
  have t: "touch (set_outcome (grant_id 1 1) x ?r) tx = tx\<lparr>tx_st := set_outcome (grant_id 1 1) x ?r (tx_st tx), tx_dirty := True\<rparr>" for x tx
    by (simp add: touch_def)
  have s: "ls_epoch (set_outcome (grant_id 1 1) x ?r probe_doc) = 1"
    "bk_probe (ls_breaker (set_outcome (grant_id 1 1) x ?r probe_doc)) = Some ?p" for x
    by (simp_all add: set_outcome_def probe_doc_facts b)
  have first: "lim_transaction probe_config ?e (record_body probe_config ?e (pb_holder ?p) ''RATE_LIMIT'') (LimDoc probe_doc)
      \<lparr>lp_held = [grant_id 1 1], lp_leaked = []\<rparr> = (Inl WriteFailed, LimDoc probe_doc, \<lparr>lp_held = [], lp_leaked = []\<rparr>)"
    by (simp add: g lim_transaction_def load record_body_def probe_doc_refresh_any probe_doc_facts n gid_epoch_grant_id t
        apply_result_def s apply_open_def proc_of_def touch_def release_witness_def Let_def) (simp add: calm_env_def)
  have age: "fsub (en_wall ?h) (gr_issued ?r) < lc_max_lifetime probe_config"
    by (simp add: calm_env_def new_grant_def probe_config_def live_config_def default_config_def)
  have d: "dget (ls_grants probe_doc) (pb_holder ?p) = Some ?r" by (simp add: g probe_doc_facts)
  have w: "dwf (ls_grants probe_doc)" by (simp add: probe_defs default_state_def Let_def dwf_def)
  have x: "pb_boot ?p = en_boot ?h" "pb_marker ?p" "\<not> en_held ?h (pb_witness ?p)" "en_dir_ok ?h" "en_lock_ok ?h" "en_write ?h = WriteOk"
    by (simp_all add: new_probe_def calm_env_def)
  show ?thesis
    using failed_write_loses_escalation [OF first refl load(2) x(4-6) b x(2,1,3) d n w age] by (simp only: g)
qed

text \<open>C14. Refinement: whatever an operation of the limiter does to the file is nothing or a sequence of
  the abstract steps from the document it loaded.\<close>

theorem limiter_refines_steps:
  "lim_event_step cfg f ev = f \<or>
   (\<exists>e st st'. loaded cfg e f st \<and> lim_steps cfg st st' \<and> lim_event_step cfg f ev = LimDoc st')"
  using event_step_to [of cfg f ev] by (simp add: file_to_def)

text \<open>C15. Every document a run writes is well formed: each grant has an identifier of its own that names
  an epoch and a sequence number already issued, and the epoch reads back from it.\<close>

theorem documents_well_formed:
  "file_all (\<lambda>st. distinct (dkeys (ls_grants st)) \<and>
      list_all (\<lambda>g. issued_id st g \<and> (case gid_epoch g of None \<Rightarrow> False | Some ep \<Rightarrow> ep \<le> ls_epoch st)) (dkeys (ls_grants st)))
    (lim_run cfg LimAbsent es)"
proof -
  have "distinct (dkeys (ls_grants st)) \<and>
      list_all (\<lambda>g. issued_id st g \<and> (case gid_epoch g of None \<Rightarrow> False | Some ep \<Rightarrow> ep \<le> ls_epoch st)) (dkeys (ls_grants st))"
    if "registry_inv cfg st" for st
  proof -
    have "issued_id st g" if "g \<in> set (dkeys (ls_grants st))" for g
      using that \<open>registry_inv cfg st\<close> by (fastforce simp: registry_inv_def dwf_dget_iff)
    moreover have "case gid_epoch g of None \<Rightarrow> False | Some ep \<Rightarrow> ep \<le> ls_epoch st" if "issued_id st g" for g
      using that by (auto simp: issued_id_def gid_epoch_grant_id)
    ultimately show ?thesis using that by (auto simp: registry_inv_def dwf_def list_all_iff)
  qed
  with absent_inv [of cfg es] show ?thesis
    by (cases "lim_run cfg LimAbsent es") (auto simp: lim_inv_def)
qed

end
