(* ===== verification/Outcome.thy ===== *)
theory Outcome
  imports ScanPipeline "HOL-Library.Sublist"
begin

text \<open>
  The judgement of a setup by the candles that follow it
  (\<^verbatim>\<open>src/app/scanners/outcome.py\<close>): the entry on the first touch of the entry zone, or
  at the confirmation for the FVG scanner, then bar by bar the stop, the second and the first
  target, the excursions in units of risk, and the expiry after the last bar.
\<close>

datatype outcome_event = NO_ENTRY | TP1 | TP2 | SL | EXPIRED_AT_CLOSE | EXPIRED_BE

datatype outcome_error = BadSetup string | BadFeatureType

record signal_outcome =
  oc_id :: string
  oc_symbol :: string
  oc_scanner :: string
  oc_direction :: string
  oc_touched :: bool
  oc_event :: outcome_event
  oc_r :: rat
  oc_mfe :: rat
  oc_mae :: rat
  oc_to_entry :: "nat option"
  oc_to_exit :: "nat option"
  oc_entry :: "rat option"
  oc_exit :: "rat option"
  oc_adjusted :: rat

definition entry_price :: "setup_candidate \<Rightarrow> rat" where
  "entry_price c = (if sc_direction c = ''LONG'' then sc_high c else sc_low c)"

definition price_to_r :: "setup_candidate \<Rightarrow> rat \<Rightarrow> rat \<Rightarrow> rat \<Rightarrow> rat" where
  "price_to_r c price entry risk =
     (if sc_direction c = ''LONG'' then fdiv (fsub price entry) risk else fdiv (fsub entry price) risk)"

section \<open>Walking the bars\<close>

definition favorable_r :: "setup_candidate \<Rightarrow> rat \<Rightarrow> rat \<Rightarrow> candle \<Rightarrow> rat" where
  "favorable_r c entry risk x = price_to_r c (if sc_direction c = ''LONG'' then cl_high x else cl_low x) entry risk"

definition adverse_r :: "setup_candidate \<Rightarrow> rat \<Rightarrow> rat \<Rightarrow> candle \<Rightarrow> rat" where
  "adverse_r c entry risk x = price_to_r c (if sc_direction c = ''LONG'' then cl_low x else cl_high x) entry risk"

definition stop_touched :: "setup_candidate \<Rightarrow> candle \<Rightarrow> bool" where
  "stop_touched c x \<longleftrightarrow> (if sc_direction c = ''LONG'' then cl_low x \<le> sc_stop c else cl_high x \<ge> sc_stop c)"

definition target_touched :: "setup_candidate \<Rightarrow> rat \<Rightarrow> candle \<Rightarrow> bool" where
  "target_touched c t x \<longleftrightarrow> (if sc_direction c = ''LONG'' then cl_high x \<ge> t else cl_low x \<le> t)"

text \<open>What one bar does to an open position. A missing first target cannot occur: the geometry was
  accepted.\<close>

definition bar_exit :: "setup_candidate \<Rightarrow> candle \<Rightarrow> (outcome_event \<times> rat) option" where
  "bar_exit c x =
     (if stop_touched c x then Some (SL, sc_stop c)
      else if (case sc_t2 c of None \<Rightarrow> False | Some t \<Rightarrow> target_touched c t x) then map_option (\<lambda>t. (TP2, t)) (sc_t2 c)
      else case sc_t1 c of None \<Rightarrow> None | Some t \<Rightarrow> if target_touched c t x then Some (TP1, t) else None)"

text \<open>The bars from the entry on, the first with number \<open>i\<close>: the excursions and the exit.\<close>

fun track ::
  "setup_candidate \<Rightarrow> rat \<Rightarrow> rat \<Rightarrow> nat \<Rightarrow> rat \<Rightarrow> rat \<Rightarrow> candle list \<Rightarrow> rat \<times> rat \<times> (outcome_event \<times> rat \<times> nat) option" where
  "track c entry risk i mfe mae [] = (mfe, mae, None)"
| "track c entry risk i mfe mae (x # xs) =
     (let mfe' = max mfe (favorable_r c entry risk x); mae' = min mae (adverse_r c entry risk x)
      in case bar_exit c x of
           Some (ev, p) \<Rightarrow> (mfe', mae', Some (ev, p, i))
         | None \<Rightarrow> track c entry risk (i + 1) mfe' mae' xs)"

definition zone_touched :: "setup_candidate \<Rightarrow> candle \<Rightarrow> bool" where
  "zone_touched c x \<longleftrightarrow> cl_low x \<le> sc_high c \<and> cl_high x \<ge> sc_low c"

fun find_entry :: "setup_candidate \<Rightarrow> nat \<Rightarrow> candle list \<Rightarrow> (nat \<times> candle list) option" where
  "find_entry c i [] = None"
| "find_entry c i (x # xs) = (if zone_touched c x then Some (i, x # xs) else find_entry c (i + 1) xs)"

definition expiry_breakeven :: "setup_candidate \<Rightarrow> bool" where
  "expiry_breakeven c \<longleftrightarrow> feature c ''recommended_expiry_policy'' = JStr ''BREAKEVEN''"

text \<open>The outcome of an entered position.\<close>

definition settle ::
  "setup_candidate \<Rightarrow> rat \<Rightarrow> rat \<Rightarrow> rat \<Rightarrow> nat \<Rightarrow> candle list \<Rightarrow> rat \<times> rat \<times> (outcome_event \<times> rat \<times> nat) option \<Rightarrow>
   signal_outcome" where
  "settle c fee entry risk entry_index future tracked =
     (case tracked of (mfe, mae, ex) \<Rightarrow>
        let last_close = (if future = [] then entry else cl_close (last future));
            (event, exit_price, result, exit_index) =
              (case ex of
                 Some (ev, p, i) \<Rightarrow> (ev, p, price_to_r c p entry risk, i)
               | None \<Rightarrow>
                   if expiry_breakeven c then (EXPIRED_BE, entry, 0, if future = [] then entry_index else length future)
                   else (EXPIRED_AT_CLOSE, last_close, price_to_r c last_close entry risk,
                         if future = [] then entry_index else length future))
        in \<lparr>oc_id = sc_id c, oc_symbol = sc_symbol c, oc_scanner = sc_scanner c, oc_direction = sc_direction c,
            oc_touched = True, oc_event = event, oc_r = py_round result 6, oc_mfe = py_round mfe 6, oc_mae = py_round mae 6,
            oc_to_entry = Some entry_index, oc_to_exit = Some exit_index, oc_entry = Some entry, oc_exit = Some exit_price,
            oc_adjusted = py_round (fsub result fee) 6\<rparr>)"

definition no_entry :: "setup_candidate \<Rightarrow> signal_outcome" where
  "no_entry c =
     \<lparr>oc_id = sc_id c, oc_symbol = sc_symbol c, oc_scanner = sc_scanner c, oc_direction = sc_direction c,
      oc_touched = False, oc_event = NO_ENTRY, oc_r = 0, oc_mfe = 0, oc_mae = 0, oc_to_entry = None, oc_to_exit = None,
      oc_entry = None, oc_exit = None, oc_adjusted = 0\<rparr>"

section \<open>The evaluation\<close>

fun number_of :: "json \<Rightarrow> rat option" where
  "number_of (JBool b) = Some (if b then 1 else 0)"
| "number_of (JInt n) = Some (fl (of_int n))"
| "number_of (JFloat q) = Some q"
| "number_of _ = None"

fun exact_number :: "json \<Rightarrow> rat option" where
  "exact_number (JBool b) = Some (if b then 1 else 0)"
| "exact_number (JInt n) = Some (of_int n)"
| "exact_number (JFloat q) = Some q"
| "exact_number _ = None"

definition FVG :: string where
  "FVG = ''FVG_REACTION_LONG_LOCAL_STRUCT_V1''"

definition evaluate_touch :: "setup_candidate \<Rightarrow> candle list \<Rightarrow> nat \<Rightarrow> rat \<Rightarrow> outcome_error + signal_outcome" where
  "evaluate_touch c candles max_bars fee =
     (let future = take max_bars (filter (\<lambda>x. cl_time x > sc_candle c) candles);
          entry = entry_price c; risk = \<bar>fsub entry (sc_stop c)\<bar>
      in if risk \<le> 0 then Inl (BadSetup ''risk must be positive'')
         else case find_entry c 1 future of
                None \<Rightarrow> Inr (no_entry c)
              | Some (i, bars) \<Rightarrow> Inr (settle c fee entry risk i future (track c entry risk i 0 0 bars)))"

definition evaluate_confirmed :: "setup_candidate \<Rightarrow> candle list \<Rightarrow> nat \<Rightarrow> rat \<Rightarrow> outcome_error + signal_outcome" where
  "evaluate_confirmed c candles max_bars fee =
     (let start = exact_number (feature c ''confirmation_at'');
          price = feature c ''entry_price''
      in if candles \<noteq> [] \<and> start = None then Inl BadFeatureType
         else case (if truthy price then number_of price else Some (sc_high c)) of
                None \<Rightarrow> Inl BadFeatureType
              | Some entry \<Rightarrow>
                  (let future = take max_bars (filter (\<lambda>x. case start of None \<Rightarrow> False | Some t \<Rightarrow> of_int (cl_time x) > t) candles);
                       risk = \<bar>fsub entry (sc_stop c)\<bar>
                   in if risk \<le> 0 then Inl (BadSetup ''risk must be positive'')
                      else Inr (settle c fee entry risk 0 future (track c entry risk 1 0 0 future))))"

definition evaluate_setup_outcome :: "setup_candidate \<Rightarrow> candle list \<Rightarrow> nat \<Rightarrow> rat \<Rightarrow> outcome_error + signal_outcome" where
  "evaluate_setup_outcome c candles max_bars fee =
     (case geometry_fault c of
        Some reason \<Rightarrow> Inl (BadSetup reason)
      | None \<Rightarrow>
          if max_bars = 0 then Inl (BadSetup ''max_bars must be positive'')
          else if sc_scanner c = FVG \<and> feature c ''confirmation_at'' \<noteq> JNull
          then evaluate_confirmed c candles max_bars fee
          else evaluate_touch c candles max_bars fee)"

section \<open>Exits\<close>

lemma track_append:
  "track c e r i f a xs = (f', a', Some x) \<Longrightarrow> track c e r i f a (xs @ ys) = (f', a', Some x)"
  by (induction xs arbitrary: i f a) (auto simp: Let_def split: option.splits)

lemma find_entry_append: "find_entry c i xs = Some (j, zs) \<Longrightarrow> find_entry c i (xs @ ys) = Some (j, zs @ ys)"
  by (induction xs arbitrary: i) (auto split: if_splits)

lemma settle_exit: "settle c fee e r i future (f, a, Some x) = settle c fee e r i future' (f, a, Some x)"
  by (simp add: settle_def Let_def split: prod.split)

definition decided :: "signal_outcome \<Rightarrow> bool" where
  "decided oc \<longleftrightarrow> oc_event oc = SL \<or> oc_event oc = TP1 \<or> oc_event oc = TP2"

lemma settle_undecided: "\<not> decided (settle c fee e r i future (f, a, None))"
  by (simp add: settle_def decided_def Let_def)

lemma settle_decided: "decided (settle c fee e r i future (f, a, x)) \<Longrightarrow> x \<noteq> None"
  using settle_undecided by metis

lemma future_grows: "\<exists>zs. take n (filter P (cs @ ds)) = take n (filter P cs) @ zs"
  by (rule exI [of _ "take (n - length (filter P cs)) (filter P ds)"]) simp

lemma touch_stable:
  assumes "evaluate_touch c cs n fee = Inr oc" "decided oc"
  shows "evaluate_touch c (cs @ ds) n fee = Inr oc"
proof -
  let ?e = "entry_price c" and ?f = "take n (filter (\<lambda>x. cl_time x > sc_candle c) cs)"
  let ?r = "\<bar>fsub ?e (sc_stop c)\<bar>"
  obtain zs where z: "take n (filter (\<lambda>x. cl_time x > sc_candle c) (cs @ ds)) = ?f @ zs" using future_grows by blast
  have r: "\<not> ?r \<le> 0" using assms(1) by (auto simp: evaluate_touch_def Let_def split: if_splits)
  obtain i bars where fe: "find_entry c 1 ?f = Some (i, bars)"
    using assms by (auto simp: evaluate_touch_def Let_def no_entry_def decided_def split: if_splits option.splits)
  obtain f a x where tr: "track c ?e ?r i 0 0 bars = (f, a, x)" by (cases "track c ?e ?r i 0 0 bars") auto
  have oc: "oc = settle c fee ?e ?r i ?f (f, a, x)" using assms(1) r fe tr by (simp add: evaluate_touch_def Let_def)
  then obtain y where x: "x = Some y" using settle_decided assms(2) by blast
  have "track c ?e ?r i 0 0 (bars @ zs) = (f, a, x)" using track_append tr unfolding x by blast
  then show ?thesis
    using r find_entry_append [OF fe, of zs]
    unfolding evaluate_touch_def Let_def z by (simp add: oc x) (rule settle_exit)
qed

lemma confirmed_stable:
  assumes "evaluate_confirmed c cs n fee = Inr oc" "decided oc"
  shows "evaluate_confirmed c (cs @ ds) n fee = Inr oc"
proof -
  have "exact_number (feature c ''confirmation_at'') \<noteq> None"
  proof
    assume none: "exact_number (feature c ''confirmation_at'') = None"
    then have "cs = []" using assms(1) by (cases cs) (auto simp: evaluate_confirmed_def)
    then have "\<exists>e r f. oc = settle c fee e r 0 [] f \<and> f = (0, 0, None)"
      using assms(1) by (auto simp: evaluate_confirmed_def Let_def split: option.splits if_splits)
    then show False using assms(2) settle_undecided by metis
  qed
  then obtain t where start: "exact_number (feature c ''confirmation_at'') = Some t" by blast
  obtain e where e: "(if truthy (feature c ''entry_price'') then number_of (feature c ''entry_price'') else Some (sc_high c)) = Some e"
    using assms(1) by (cases "if truthy (feature c ''entry_price'') then number_of (feature c ''entry_price'') else Some (sc_high c)")
      (simp_all add: evaluate_confirmed_def start)
  let ?f = "take n (filter (\<lambda>x. of_int (cl_time x) > t) cs)" and ?r = "\<bar>fsub e (sc_stop c)\<bar>"
  obtain zs where z: "take n (filter (\<lambda>x. of_int (cl_time x) > t) (cs @ ds)) = ?f @ zs" using future_grows by blast
  have r: "\<not> ?r \<le> 0" using assms(1) by (auto simp: evaluate_confirmed_def Let_def start e split: if_splits)
  obtain f a x where tr: "track c e ?r 1 0 0 ?f = (f, a, x)" by (cases "track c e ?r 1 0 0 ?f") auto
  have oc: "oc = settle c fee e ?r 0 ?f (f, a, x)" using assms(1) r tr by (simp add: evaluate_confirmed_def Let_def start e)
  then obtain y where x: "x = Some y" using settle_decided assms(2) by blast
  have "track c e ?r 1 0 0 (?f @ zs) = (f, a, x)" using track_append tr unfolding x by blast
  then show ?thesis
    using r unfolding evaluate_confirmed_def Let_def start e option.case z by (simp add: e oc x) (rule settle_exit)
qed

text \<open>C25. A decided outcome never changes: when the candles known so far already show the stop or a target
  hit, no candle that arrives later alters any figure of the outcome.\<close>

theorem decided_outcome_is_final:
  assumes "evaluate_setup_outcome c cs max_bars fee = Inr oc" and "decided oc"
  shows "evaluate_setup_outcome c (cs @ later) max_bars fee = Inr oc"
  using assms touch_stable confirmed_stable
  by (auto simp: evaluate_setup_outcome_def split: option.splits if_splits)


section \<open>The stop comes first\<close>

text \<open>What the walk over the bars finds: no earlier bar touched the stop, and a target is only taken on a bar
  that did not touch the stop either.\<close>

lemma track_exit:
  "track c e r i f a xs = (f', a', Some (ev, p, j)) \<Longrightarrow>
    i \<le> j \<and> j - i < length xs \<and> list_all (\<lambda>x. \<not> stop_touched c x) (take (j - i) xs) \<and> bar_exit c (xs ! (j - i)) = Some (ev, p)"
proof (induction xs arbitrary: i f a)
  case (Cons x xs)
  show ?case
  proof (cases "bar_exit c x")
    case None
    then have "track c e r (i + 1) (max f (favorable_r c e r x)) (min a (adverse_r c e r x)) xs = (f', a', Some (ev, p, j))"
      using Cons.prems by (simp add: Let_def)
    from Cons.IH [OF this] None show ?thesis
      by (auto simp: bar_exit_def take_Cons' nth_Cons' Suc_diff_le split: if_splits)
  next
    case (Some y)
    then show ?thesis using Cons.prems by (cases y) (simp add: Let_def)
  qed
qed simp

lemma track_none: "track c e r i f a xs = (f', a', None) \<Longrightarrow> list_all (\<lambda>x. \<not> stop_touched c x) xs"
proof (induction xs arbitrary: i f a)
  case (Cons x xs)
  then show ?case by (auto simp: Let_def bar_exit_def split: option.splits prod.splits if_splits)
qed simp

lemma find_entry_suffix: "find_entry c i xs = Some (j, zs) \<Longrightarrow> zs \<noteq> [] \<and> suffix zs xs"
  by (induction xs arbitrary: i) (auto split: if_splits intro: suffix_ConsI)

lemma bar_exit_cases:
  "bar_exit c x = Some (ev, p) \<Longrightarrow> (ev = SL \<and> p = sc_stop c \<and> stop_touched c x) \<or>
    (ev = TP2 \<and> sc_t2 c = Some p \<and> \<not> stop_touched c x) \<or> (ev = TP1 \<and> sc_t1 c = Some p \<and> \<not> stop_touched c x)"
  by (auto simp: bar_exit_def split: if_splits option.splits)

section \<open>At most one unit of risk is lost\<close>

definition sane_candle :: "candle \<Rightarrow> bool" where
  "sane_candle x \<longleftrightarrow> cl_low x \<le> cl_close x \<and> cl_close x \<le> cl_high x"

text \<open>A second target, when there is one, is on the winning side of the stop.\<close>

definition second_target_sane :: "setup_candidate \<Rightarrow> bool" where
  "second_target_sane c \<longleftrightarrow>
     (case sc_t2 c of None \<Rightarrow> True | Some t \<Rightarrow> if sc_direction c = ''LONG'' then sc_stop c \<le> t else t \<le> sc_stop c)"

text \<open>Prices on the winning side of the stop cost at most one unit of risk.\<close>

definition beyond_stop :: "setup_candidate \<Rightarrow> rat \<Rightarrow> bool" where
  "beyond_stop c p \<longleftrightarrow> (if sc_direction c = ''LONG'' then sc_stop c \<le> p else p \<le> sc_stop c)"

lemma fsub_flip: "fsub a b = - fsub b a"
  using fl_minus [of "b - a"] by (simp add: fsub_def)

lemma price_to_r_stop:
  assumes "0 < \<bar>fsub e (sc_stop c)\<bar>" "beyond_stop c e"
  shows "price_to_r c (sc_stop c) e \<bar>fsub e (sc_stop c)\<bar> = - 1"
proof (cases "sc_direction c = ''LONG''")
  case True
  have "0 \<le> fsub e (sc_stop c)" using assms(2) True by (intro fsub_nonneg) (simp add: beyond_stop_def)
  with assms(1) True show ?thesis
    by (simp add: price_to_r_def fsub_flip [of "sc_stop c" e] fdiv_def fl_minus is_double_1 [unfolded is_double_def])
next
  case False
  have "0 \<le> fsub (sc_stop c) e" using assms(2) False by (intro fsub_nonneg) (simp add: beyond_stop_def)
  with assms(1) False show ?thesis
    by (simp add: price_to_r_def fsub_flip [of e "sc_stop c"] fdiv_def fl_minus is_double_1 [unfolded is_double_def])
qed

lemma price_to_r_mono:
  assumes "beyond_stop c p" "0 < r"
  shows "price_to_r c (sc_stop c) e r \<le> price_to_r c p e r"
  using assms unfolding price_to_r_def fdiv_def beyond_stop_def
  by (auto intro!: fl_mono divide_right_mono fsub_mono)

lemma price_to_r_bound:
  assumes "beyond_stop c p" "beyond_stop c e" "0 < \<bar>fsub e (sc_stop c)\<bar>"
  shows "- 1 \<le> price_to_r c p e \<bar>fsub e (sc_stop c)\<bar>"
  using price_to_r_mono [OF assms(1,3), where e = e] price_to_r_stop [OF assms(3,2)] by simp

lemma round_bound: "- 1 \<le> x \<Longrightarrow> - 1 \<le> py_round x n"
  using py_round_mono [of "- 1" x n] py_round_int [of "- 1" n] by simp

lemma geometry_beyond:
  assumes "geometry_fault c = None"
  shows "beyond_stop c (entry_price c)" "case sc_t1 c of None \<Rightarrow> False | Some t \<Rightarrow> beyond_stop c t"
  using assms
  by (auto simp: geometry_fault_def beyond_stop_def entry_price_def split: option.splits if_splits)

lemma not_touched_beyond: "sane_candle x \<Longrightarrow> \<not> stop_touched c x \<Longrightarrow> beyond_stop c (cl_close x)"
  by (auto simp: sane_candle_def stop_touched_def beyond_stop_def split: if_splits)

text \<open>The figures of a settled position.\<close>

lemma settle_bound:
  assumes "track c e r i 0 0 bars = t" "bars = [] \<longrightarrow> future = []" "bars \<noteq> [] \<longrightarrow> last future = last bars \<and> future \<noteq> []"
    and "r = \<bar>fsub e (sc_stop c)\<bar>" "0 < r" "beyond_stop c e" "geometry_fault c = None" "second_target_sane c"
    and "list_all sane_candle bars"
  shows "- 1 \<le> oc_r (settle c fee e r k future t)"
proof -
  note bound = price_to_r_bound [OF _ assms(6) assms(5) [unfolded assms(4)], folded assms(4)]
  obtain f a x where t: "t = (f, a, x)" by (cases t) auto
  show ?thesis
  proof (cases x)
    case None
    then have nt: "list_all (\<lambda>x. \<not> stop_touched c x) bars" using track_none assms(1) t by blast
    have "beyond_stop c (if future = [] then e else cl_close (last future))"
    proof (cases "bars = []")
      case False
      then have "last bars \<in> set bars" by simp
      with nt assms(9) have "beyond_stop c (cl_close (last bars))" by (intro not_touched_beyond) (auto simp: list_all_iff)
      with False assms(3) show ?thesis by simp
    qed (use assms in simp)
    from bound [OF this] show ?thesis by (auto simp: settle_def t None Let_def intro!: round_bound)
  next
    case (Some y)
    obtain ev p j where y: "y = (ev, p, j)" by (cases y) auto
    have b: "bar_exit c (bars ! (j - i)) = Some (ev, p)" using track_exit assms(1) t Some y by metis
    have "beyond_stop c p"
      using bar_exit_cases [OF b] geometry_beyond(2) [OF assms(7)] assms(8)
      by (auto simp: beyond_stop_def second_target_sane_def split: option.splits)
    from bound [OF this] show ?thesis by (simp add: settle_def t Some y Let_def round_bound)
  qed
qed

text \<open>A setup that enters on the touch of its zone never loses more than one unit of risk: with candles
  whose close lies in their range and a second target on the winning side of the stop, every result is
  at least -1 R, and a stopped-out setup books exactly -1 R.\<close>

theorem touch_outcome_bounded:
  assumes "geometry_fault c = None" and "evaluate_touch c candles max_bars fee = Inr oc"
    and "list_all sane_candle candles" and "second_target_sane c"
  shows "- 1 \<le> oc_r oc \<and> (if oc_event oc = SL then oc_r oc = - 1 else True)"
proof -
  let ?future = "take max_bars (filter (\<lambda>x. cl_time x > sc_candle c) candles)"
  let ?e = "entry_price c" let ?r = "\<bar>fsub ?e (sc_stop c)\<bar>"
  have r: "0 < ?r" using assms(2) by (auto simp: evaluate_touch_def Let_def split: if_splits)
  show ?thesis
  proof (cases "find_entry c 1 ?future")
    case None
    then have "oc = no_entry c" using assms(2) r by (simp add: evaluate_touch_def Let_def)
    then show ?thesis by (simp add: no_entry_def)
  next
    case (Some q)
    obtain i bars where q: "q = (i, bars)" by (cases q)
    have oc: "oc = settle c fee ?e ?r i ?future (track c ?e ?r i 0 0 bars)"
      using assms(2) r Some q by (simp add: evaluate_touch_def Let_def)
    have sf: "bars \<noteq> [] \<and> suffix bars ?future" using find_entry_suffix Some q by blast
    then have lst: "bars \<noteq> [] \<longrightarrow> last ?future = last bars \<and> ?future \<noteq> []"
      by (metis append_is_Nil_conv last_appendR suffix_def)
    have "set bars \<subseteq> set candles" using sf by (auto dest!: set_mono_suffix in_set_takeD)
    then have sane: "list_all sane_candle bars" using assms(3) by (auto simp: list_all_iff)
    have bnd: "- 1 \<le> oc_r oc" unfolding oc
      using sf lst by (intro settle_bound [OF refl _ lst refl r geometry_beyond(1) [OF assms(1)] assms(1,4) sane]) simp
    moreover have "oc_r oc = - 1" if "oc_event oc = SL"
    proof -
      have "decided oc" using that by (simp add: decided_def)
      then obtain f a ev p j where t: "track c ?e ?r i 0 0 bars = (f, a, Some (ev, p, j))"
        unfolding oc using settle_decided by (metis option.exhaust_sel prod_cases3)
      then have "ev = SL" using that by (simp add: oc settle_def Let_def)
      with t bar_exit_cases [of c _ ev p] track_exit [OF t] have "p = sc_stop c" by blast
      then have "oc_r oc = py_round (- 1) 6"
        using price_to_r_stop [OF r geometry_beyond(1) [OF assms(1)]] by (simp add: oc t settle_def Let_def)
      then show ?thesis using py_round_int [of "- 1" 6] by simp
    qed
    ultimately show ?thesis by simp
  qed
qed


section \<open>A target is only taken when the stop was never touched\<close>

lemma find_entry_index: "find_entry c k xs = Some (j, zs) \<Longrightarrow> k \<le> j \<and> zs = drop (j - k) xs"
proof (induction xs arbitrary: k)
  case (Cons x xs)
  show ?case
  proof (cases "zone_touched c x")
    case False
    then have "k + 1 \<le> j \<and> zs = drop (j - (k + 1)) xs" using Cons.IH [of "k + 1"] Cons.prems by simp
    then show ?thesis by (simp add: drop_Cons')
  qed (use Cons in auto)
qed simp

text \<open>The bars of a position, from its entry bar to its exit bar.\<close>

definition held_bars :: "setup_candidate \<Rightarrow> candle list \<Rightarrow> nat \<Rightarrow> signal_outcome \<Rightarrow> candle list" where
  "held_bars c candles max_bars oc =
     (case (oc_to_entry oc, oc_to_exit oc) of
        (Some i, Some j) \<Rightarrow> drop (i - 1) (take j (take max_bars (filter (\<lambda>x. cl_time x > sc_candle c) candles)))
      | _ \<Rightarrow> [])"

text \<open>The judgement is conservative: when a setup counts as having reached a target, no bar from its entry
  to that target touched the stop, not even the bar of the target itself.\<close>

theorem target_means_stop_untouched:
  assumes "evaluate_touch c candles max_bars fee = Inr oc" and "oc_event oc = TP1 \<or> oc_event oc = TP2"
  shows "list_all (\<lambda>x. \<not> stop_touched c x) (held_bars c candles max_bars oc) \<and> held_bars c candles max_bars oc \<noteq> []"
proof -
  let ?future = "take max_bars (filter (\<lambda>x. cl_time x > sc_candle c) candles)"
  let ?e = "entry_price c" let ?r = "\<bar>fsub ?e (sc_stop c)\<bar>"
  have r: "\<not> ?r \<le> 0" using assms(1) by (auto simp: evaluate_touch_def Let_def split: if_splits)
  have d: "decided oc" using assms(2) by (auto simp: decided_def)
  obtain i bars where q: "find_entry c 1 ?future = Some (i, bars)"
    using assms r by (cases "find_entry c 1 ?future") (auto simp: evaluate_touch_def Let_def no_entry_def)
  have oc: "oc = settle c fee ?e ?r i ?future (track c ?e ?r i 0 0 bars)"
    using assms(1) r q by (simp add: evaluate_touch_def Let_def)
  obtain f a ev p j where t: "track c ?e ?r i 0 0 bars = (f, a, Some (ev, p, j))"
    using d unfolding oc using settle_decided by (metis option.exhaust_sel prod_cases3)
  have ev: "oc_event oc = ev" "oc_to_entry oc = Some i" "oc_to_exit oc = Some j" by (simp_all add: oc t settle_def Let_def)
  have b: "bars = drop (i - 1) ?future" "1 \<le> i" using find_entry_index [OF q] by simp_all
  note tr = track_exit [OF t]
  have ns: "\<not> stop_touched c (bars ! (j - i))" using bar_exit_cases [of c "bars ! (j - i)" ev p] tr assms(2) ev(1) by auto
  have held: "held_bars c candles max_bars oc = take (Suc (j - i)) bars"
    using b(2) tr unfolding held_bars_def ev by (simp add: b(1) take_drop Suc_diff_le)
  have "take (Suc (j - i)) bars = take (j - i) bars @ [bars ! (j - i)]" using tr by (intro take_Suc_conv_app_nth) simp
  with tr ns show ?thesis unfolding held by simp
qed

section \<open>Concrete outcomes\<close>

definition bar :: "int \<Rightarrow> rat \<Rightarrow> rat \<Rightarrow> rat \<Rightarrow> candle" where
  "bar t hi lo c = \<lparr>cl_time = t, cl_open = c, cl_high = hi, cl_low = lo, cl_close = c, cl_volume = 0\<rparr>"

definition judged :: setup_candidate where
  "judged = (sample_setup ''a'' 1 40)\<lparr>sc_stop := 91, sc_t1 := Some 111\<rparr>"

lemma judged_outcome:
  "\<exists>oc. evaluate_touch judged [bar 2 102 98 100, bar 3 112 99 105] 48 0 = Inr oc \<and> oc_event oc = TP1"
  "geometry_fault judged = None" "sc_scanner judged \<noteq> FVG"
  by (simp_all add: evaluate_touch_def judged_def sample_setup_def entry_price_def bar_def zone_touched_def bar_exit_def
      stop_touched_def target_touched_def settle_def Let_def fsub_def fl_of_int [of 10, simplified] geometry_fault_def FVG_def)

theorem decided_outcome_is_final_witness:
  "evaluate_setup_outcome judged [bar 2 102 98 100, bar 3 112 99 105, bar 4 112 1 2] 48 0 =
    evaluate_setup_outcome judged [bar 2 102 98 100, bar 3 112 99 105] 48 0"
proof -
  obtain oc where oc: "evaluate_touch judged [bar 2 102 98 100, bar 3 112 99 105] 48 0 = Inr oc" "oc_event oc = TP1"
    using judged_outcome(1) by blast
  then have "evaluate_setup_outcome judged [bar 2 102 98 100, bar 3 112 99 105] 48 0 = Inr oc" "decided oc"
    using judged_outcome(2,3) by (simp_all add: evaluate_setup_outcome_def decided_def)
  from decided_outcome_is_final [OF this, of "[bar 4 112 1 2]"] this(1) show ?thesis by simp
qed

theorem target_means_stop_untouched_witness:
  "\<exists>oc. evaluate_touch judged [bar 2 102 98 100, bar 3 112 99 105] 48 0 = Inr oc \<and>
    list_all (\<lambda>x. \<not> stop_touched judged x) (held_bars judged [bar 2 102 98 100, bar 3 112 99 105] 48 oc)"
  using judged_outcome(1) target_means_stop_untouched by blast

theorem touch_outcome_bounded_witness:
  "\<exists>oc. evaluate_touch judged [bar 2 102 98 100, bar 3 112 99 105] 48 0 = Inr oc \<and> - 1 \<le> oc_r oc"
proof -
  have "list_all sane_candle [bar 2 102 98 100, bar 3 112 99 105]" "second_target_sane judged"
    by (simp_all add: sane_candle_def bar_def second_target_sane_def judged_def sample_setup_def)
  with judged_outcome(1) touch_outcome_bounded [OF judged_outcome(2)] show ?thesis by metis
qed

text \<open>The second target is never validated: a setup with an accepted geometry and a second target below
  its stop counts as having reached the second target on its first bar, at a loss of ten units of risk.\<close>

theorem unchecked_second_target_books_loss:
  "geometry_fault (judged\<lparr>sc_t2 := Some 1\<rparr>) = None \<and>
    (case evaluate_setup_outcome (judged\<lparr>sc_t2 := Some 1\<rparr>) [bar 2 102 98 100] 48 0 of
       Inl e \<Rightarrow> False | Inr oc \<Rightarrow> oc_event oc = TP2 \<and> oc_exit oc = Some 1 \<and> oc_r oc = - 10)"
proof -
  have f: "fl 10 = 10" "fl (- 100) = - 100" "fl (- 10) = - 10"
    using fl_of_int [of 10] fl_of_int [of "- 100"] fl_of_int [of "- 10"] by simp_all
  have r: "py_round (- 10) 6 = - 10" using py_round_int [of "- 10" 6] by simp
  show ?thesis
    by (simp add: evaluate_setup_outcome_def evaluate_touch_def judged_def sample_setup_def entry_price_def bar_def zone_touched_def
        bar_exit_def stop_touched_def target_touched_def settle_def price_to_r_def Let_def fl_ops f r geometry_fault_def FVG_def)
qed

end
