(* ===== verification/Strategy.thy ===== *)
theory Strategy
  imports Indicators
begin

text \<open>
  The price/open-interest strategy of the bot: the market snapshot
  (\<^verbatim>\<open>src/app/market_data/market_data_service.py\<close>), its price/OI regime
  (\<^verbatim>\<open>src/app/strategy/regimes.py\<close>) and the stateful signal engine that the runtime and
  the backtest share (\<^verbatim>\<open>src/app/strategy/strategy_engine.py\<close>). The threshold
  dictionaries of the settings are records with the keys the code reads; reason texts of signals are
  left out.
\<close>

section \<open>Settings\<close>

record bot_settings =
  bs_volume_period :: nat
  bs_ma_period :: nat
  bs_atr_period :: nat
  bs_rsi_period :: nat
  bs_atr_stop_multiple :: rat
  bs_reward_risk :: rat
  bs_fomo_price :: rat
  bs_fomo_oi :: rat
  bs_fomo_atr :: rat
  bs_flat_price :: rat
  bs_funding_block :: rat
  bs_tr_price_min :: rat
  bs_tr_price_max :: rat
  bs_tr_oi_min :: rat
  bs_tr_volume_min :: rat
  bs_tr_funding_max :: rat
  bs_co_price_max :: rat
  bs_co_oi_min :: rat
  bs_co_volume_min :: rat
  bs_co_breakout_min :: rat
  bs_ca_price_max :: rat
  bs_ca_oi_max :: rat
  bs_ca_volume_min :: rat
  bs_ca_oi_stable :: rat
  bs_initial_balance :: rat
  bs_risk_per_trade :: rat
  bs_max_open :: nat
  bs_max_daily_loss :: rat
  bs_max_losses :: nat
  bs_max_exposure :: rat
  bs_taker_fee :: rat
  bs_slippage :: rat

section \<open>The market snapshot\<close>

record snapshot =
  ms_symbol :: string
  ms_time :: int
  ms_open :: rat
  ms_high :: rat
  ms_low :: rat
  ms_close :: rat
  ms_volume :: rat
  ms_oi :: rat
  ms_funding :: rat
  ms_atr :: rat
  ms_rsi :: rat
  ms_ma20 :: rat
  ms_price_15m :: rat
  ms_price_30m :: rat
  ms_price_1h :: rat
  ms_price_5m :: rat
  ms_oi_5m :: rat
  ms_oi_15m :: rat
  ms_oi_30m :: rat
  ms_oi_1h :: rat
  ms_volume_ratio :: rat
  ms_atr_percent :: rat
  ms_local_high :: rat
  ms_local_low :: rat
  ms_previous_high :: rat
  ms_previous_low :: rat

text \<open>\<^verbatim>\<open>bisect.bisect_right\<close> on the times of the series, by the halving of the
  library.\<close>

function bisect_right :: "int list \<Rightarrow> int \<Rightarrow> nat \<Rightarrow> nat \<Rightarrow> nat" where
  "bisect_right ts x lo hi =
     (if lo < hi
      then let mid = (lo + hi) div 2
           in if x < ts ! mid then bisect_right ts x lo mid else bisect_right ts x (mid + 1) hi
      else lo)"
  by auto
termination by (relation "measure (\<lambda>(ts, x, lo, hi). hi - lo)") auto

declare bisect_right.simps [simp del]

definition at_or_before :: "(int \<times> rat) list \<Rightarrow> int \<Rightarrow> rat" where
  "at_or_before series t =
     (let i = bisect_right (map fst series) t 0 (length series) in if i = 0 then 0 else snd (series ! (i - 1)))"

definition price_change :: "candle list \<Rightarrow> int \<Rightarrow> rat" where
  "price_change candles minutes =
     (let cur = last candles; past = filter (\<lambda>c. cl_time c \<le> cl_time cur - minutes * 60000) candles
      in if past = [] then 0 else percent_change (cl_close cur) (cl_close (last past)))"

definition oi_change :: "(int \<times> rat) list \<Rightarrow> int \<Rightarrow> int \<Rightarrow> rat" where
  "oi_change oi now minutes = percent_change (at_or_before oi now) (at_or_before oi (now - minutes * 60000))"

definition chronological :: "candle list \<Rightarrow> bool" where
  "chronological candles = list_all (\<lambda>(a, b). cl_time a < cl_time b) (neighbours candles)"

definition enough_candles :: "bot_settings \<Rightarrow> candle list \<Rightarrow> bool" where
  "enough_candles bs candles \<longleftrightarrow>
     length candles \<ge> max (bs_volume_period bs + 1) (max (bs_ma_period bs) (max (bs_atr_period bs + 1) 13))"

definition build_snapshot ::
  "bot_settings \<Rightarrow> string \<Rightarrow> candle list \<Rightarrow> (int \<times> rat) list \<Rightarrow> rat \<Rightarrow> py_error + snapshot" where
  "build_snapshot bs symbol candles oi funding =
     (if \<not> enough_candles bs candles then Inl (ValueError ''at least 21 chronological candles are required'')
      else if \<not> chronological candles then Inl (ValueError ''candles must be strictly chronological'')
      else let cur = last candles; prev = last (butlast candles); closes = map cl_close candles;
               lookback = last_n 20 (butlast candles); now = cl_time cur
           in rbind (atr_wilder candles (bs_atr_period bs)) (\<lambda>atr.
              rbind (rsi_wilder closes (bs_rsi_period bs)) (\<lambda>rsi.
              rbind (simple_ma closes (bs_ma_period bs)) (\<lambda>ma.
              rbind (volume_ratio (map cl_volume candles) (bs_volume_period bs)) (\<lambda>vr.
              Inr \<lparr>ms_symbol = symbol, ms_time = now, ms_open = cl_open cur, ms_high = cl_high cur,
                   ms_low = cl_low cur, ms_close = cl_close cur, ms_volume = cl_volume cur,
                   ms_oi = at_or_before oi now, ms_funding = funding, ms_atr = atr, ms_rsi = rsi, ms_ma20 = ma,
                   ms_price_15m = price_change candles 15, ms_price_30m = price_change candles 30,
                   ms_price_1h = price_change candles 60, ms_price_5m = price_change candles 5,
                   ms_oi_5m = oi_change oi now 5, ms_oi_15m = oi_change oi now 15,
                   ms_oi_30m = oi_change oi now 30, ms_oi_1h = oi_change oi now 60,
                   ms_volume_ratio = vr,
                   ms_atr_percent = (if cl_close cur \<noteq> 0 then fmul (fdiv atr (cl_close cur)) 100 else 0),
                   ms_local_high = Max (set (map cl_high lookback)), ms_local_low = Min (set (map cl_low lookback)),
                   ms_previous_high = cl_high prev, ms_previous_low = cl_low prev\<rparr>)))))"

section \<open>Regimes\<close>

datatype price_oi_regime =
    PRICE_UP_OI_UP | FOMO | PRICE_DOWN_OI_UP | PRICE_DOWN_OI_DOWN | PRICE_UP_OI_DOWN | FLAT_OI_UP | FLAT_OI_DOWN | NEUTRAL

definition classify_regime :: "snapshot \<Rightarrow> rat \<Rightarrow> rat \<Rightarrow> rat \<Rightarrow> price_oi_regime" where
  "classify_regime s flat fomo_price fomo_oi =
     (let price = ms_price_15m s; oi = ms_oi_15m s
      in if ms_price_1h s \<ge> fomo_price \<and> ms_oi_1h s \<ge> fomo_oi then FOMO
         else if \<bar>price\<bar> \<le> flat \<and> oi > 0 then FLAT_OI_UP
         else if \<bar>price\<bar> \<le> flat \<and> oi < 0 then FLAT_OI_DOWN
         else if price > 0 \<and> oi > 0 then PRICE_UP_OI_UP
         else if price < 0 \<and> oi > 0 then PRICE_DOWN_OI_UP
         else if price < 0 \<and> oi < 0 then PRICE_DOWN_OI_DOWN
         else if price > 0 \<and> oi < 0 then PRICE_UP_OI_DOWN
         else NEUTRAL)"

section \<open>The signal engine\<close>

datatype trade_side = LONG | SHORT

datatype trade_setup = TREND_START | OI_COMPRESSION | CAPITULATION

record trade_signal =
  ts_symbol :: string
  ts_setup :: trade_setup
  ts_side :: trade_side
  ts_entry :: rat
  ts_stop :: rat
  ts_take_profit :: rat

record decision =
  dn_signal :: "trade_signal option"
  dn_rejected :: "(trade_setup \<times> string) option"
  dn_state :: price_oi_regime

record armed =
  ar_upper :: rat
  ar_lower :: rat
  ar_time :: int

record strategy =
  st_compressions :: "(string \<times> armed) list"
  st_capitulations :: "(string \<times> armed) list"

definition new_strategy :: strategy where
  "new_strategy = \<lparr>st_compressions = [], st_capitulations = []\<rparr>"

definition make_signal :: "bot_settings \<Rightarrow> snapshot \<Rightarrow> trade_setup \<Rightarrow> trade_side \<Rightarrow> trade_signal" where
  "make_signal bs s kind side =
     (let distance = fmul (bs_atr_stop_multiple bs) (ms_atr s); c = ms_close s
      in case side of
           LONG \<Rightarrow>
             (let stop = min (fsub c distance) (ms_local_low s)
              in \<lparr>ts_symbol = ms_symbol s, ts_setup = kind, ts_side = LONG, ts_entry = c, ts_stop = stop,
                  ts_take_profit = fadd c (fmul (fsub c stop) (bs_reward_risk bs))\<rparr>)
         | SHORT \<Rightarrow>
             (let stop = max (fadd c distance) (ms_local_high s)
              in \<lparr>ts_symbol = ms_symbol s, ts_setup = kind, ts_side = SHORT, ts_entry = c, ts_stop = stop,
                  ts_take_profit = fsub c (fmul (fsub stop c) (bs_reward_risk bs))\<rparr>))"

definition is_fomo :: "bot_settings \<Rightarrow> snapshot \<Rightarrow> bool" where
  "is_fomo bs s \<longleftrightarrow> (ms_price_1h s \<ge> bs_fomo_price bs \<and> ms_oi_1h s \<ge> bs_fomo_oi bs) \<or>
     fsub (ms_high s) (ms_low s) \<ge> fmul (bs_fomo_atr bs) (ms_atr s)"

definition accepted :: "price_oi_regime \<Rightarrow> trade_signal \<Rightarrow> decision" where
  "accepted rg sig = \<lparr>dn_signal = Some sig, dn_rejected = None, dn_state = rg\<rparr>"

definition rejected :: "price_oi_regime \<Rightarrow> trade_setup \<Rightarrow> string \<Rightarrow> decision" where
  "rejected rg kind reason = \<lparr>dn_signal = None, dn_rejected = Some (kind, reason), dn_state = rg\<rparr>"

definition regime_now :: "bot_settings \<Rightarrow> snapshot \<Rightarrow> price_oi_regime" where
  "regime_now bs s = classify_regime s (bs_flat_price bs) (bs_fomo_price bs) (bs_fomo_oi bs)"

text \<open>The stages of one evaluation, each of which answers or passes on to the next.\<close>

definition breakout_stage :: "bot_settings \<Rightarrow> snapshot \<Rightarrow> strategy \<Rightarrow> (decision \<times> strategy) option" where
  "breakout_stage bs s st =
     (case dget (st_compressions st) (ms_symbol s) of
        None \<Rightarrow> None
      | Some a \<Rightarrow>
          if ms_time s > ar_time a \<and> ms_volume_ratio s \<ge> bs_co_breakout_min bs
          then (let st' = st\<lparr>st_compressions := ddel (ms_symbol s) (st_compressions st)\<rparr>
                in if ms_close s > ar_upper a
                   then Some (if is_fomo bs s then rejected (regime_now bs s) OI_COMPRESSION ''FOMO_FILTER''
                              else accepted (regime_now bs s) (make_signal bs s OI_COMPRESSION LONG), st')
                   else if ms_close s < ar_lower a
                   then Some (accepted (regime_now bs s) (make_signal bs s OI_COMPRESSION SHORT), st')
                   else None)
          else None)"

definition capitulation_stage :: "bot_settings \<Rightarrow> snapshot \<Rightarrow> strategy \<Rightarrow> (decision \<times> strategy) option" where
  "capitulation_stage bs s st =
     (case dget (st_capitulations st) (ms_symbol s) of
        None \<Rightarrow> None
      | Some a \<Rightarrow>
          if ms_time s > ar_time a \<and> ms_low s \<ge> ar_lower a \<and> ms_oi_5m s \<ge> bs_ca_oi_stable bs \<and>
             ms_close s > ms_open s \<and> ms_close s > ms_previous_high s
          then Some (accepted (regime_now bs s) (make_signal bs s CAPITULATION LONG),
                     st\<lparr>st_capitulations := ddel (ms_symbol s) (st_capitulations st)\<rparr>)
          else None)"

definition arm_capitulation :: "bot_settings \<Rightarrow> snapshot \<Rightarrow> strategy \<Rightarrow> (decision \<times> strategy) option" where
  "arm_capitulation bs s st =
     (if ms_price_1h s \<le> bs_ca_price_max bs \<and> ms_oi_1h s \<le> bs_ca_oi_max bs \<and> ms_volume_ratio s \<ge> bs_ca_volume_min bs
      then Some (rejected (regime_now bs s) CAPITULATION ''CAPITULATION_DETECTED_AWAIT_CONFIRMATION'',
                 st\<lparr>st_capitulations := dput (ms_symbol s)
                      \<lparr>ar_upper = ms_local_high s, ar_lower = ms_low s, ar_time = ms_time s\<rparr> (st_capitulations st)\<rparr>)
      else None)"

definition arm_compression :: "bot_settings \<Rightarrow> snapshot \<Rightarrow> strategy \<Rightarrow> (decision \<times> strategy) option" where
  "arm_compression bs s st =
     (if \<bar>ms_price_30m s\<bar> \<le> bs_co_price_max bs \<and> ms_oi_30m s \<ge> bs_co_oi_min bs \<and> ms_volume_ratio s \<ge> bs_co_volume_min bs
      then Some (rejected (regime_now bs s) OI_COMPRESSION ''SETUP_ARMED_AWAIT_BREAKOUT'',
                 st\<lparr>st_compressions := dput (ms_symbol s)
                      \<lparr>ar_upper = ms_local_high s, ar_lower = ms_local_low s, ar_time = ms_time s\<rparr> (st_compressions st)\<rparr>)
      else None)"

definition trend_candidate :: "bot_settings \<Rightarrow> snapshot \<Rightarrow> bool" where
  "trend_candidate bs s \<longleftrightarrow> ms_price_15m s > bs_tr_price_min bs \<and> ms_price_15m s < bs_tr_price_max bs \<and>
     ms_oi_15m s > bs_tr_oi_min bs \<and> ms_volume_ratio s > bs_tr_volume_min bs \<and> ms_close s > ms_local_high s"

definition trend_decision :: "bot_settings \<Rightarrow> snapshot \<Rightarrow> decision" where
  "trend_decision bs s =
     (if trend_candidate bs s
      then if is_fomo bs s then rejected (regime_now bs s) TREND_START ''FOMO_FILTER''
           else if ms_funding s \<ge> min (bs_tr_funding_max bs) (bs_funding_block bs)
           then rejected (regime_now bs s) TREND_START ''FUNDING_TOO_HIGH''
           else accepted (regime_now bs s) (make_signal bs s TREND_START LONG)
      else \<lparr>dn_signal = None, dn_rejected = None, dn_state = regime_now bs s\<rparr>)"

definition evaluate :: "bot_settings \<Rightarrow> snapshot \<Rightarrow> strategy \<Rightarrow> decision \<times> strategy" where
  "evaluate bs s st =
     (case breakout_stage bs s st of Some r \<Rightarrow> r
      | None \<Rightarrow>
        (case capitulation_stage bs s st of Some r \<Rightarrow> r
         | None \<Rightarrow>
           (case arm_capitulation bs s st of Some r \<Rightarrow> r
            | None \<Rightarrow>
              (case arm_compression bs s st of Some r \<Rightarrow> r
               | None \<Rightarrow> (trend_decision bs s, st)))))"

fun evaluate_all :: "bot_settings \<Rightarrow> snapshot list \<Rightarrow> strategy \<Rightarrow> decision list \<times> strategy" where
  "evaluate_all bs [] st = ([], st)"
| "evaluate_all bs (s # ss) st =
     (case evaluate bs s st of (d, st1) \<Rightarrow> (case evaluate_all bs ss st1 of (ds, st2) \<Rightarrow> (d # ds, st2)))"


section \<open>The search in the open-interest series\<close>

lemma sorted_wrt_le: "sorted ts \<Longrightarrow> i \<le> j \<Longrightarrow> j < length ts \<Longrightarrow> ts ! i \<le> (ts ! j :: int)"
  by (rule sorted_nth_mono)

text \<open>The halving keeps the answer between its bounds.\<close>

lemma bisect_right_spec:
  assumes "sorted ts" "lo \<le> hi" "hi \<le> length ts"
    and "\<And>i. i < lo \<Longrightarrow> ts ! i \<le> x" and "\<And>i. hi \<le> i \<Longrightarrow> i < length ts \<Longrightarrow> x < ts ! i"
  shows "bisect_right ts x lo hi \<le> length ts \<and> (\<forall>i < bisect_right ts x lo hi. ts ! i \<le> x) \<and>
    (\<forall>i. bisect_right ts x lo hi \<le> i \<longrightarrow> i < length ts \<longrightarrow> x < ts ! i)"
  using assms
proof (induction ts x lo hi rule: bisect_right.induct)
  case (1 ts x lo hi)
  show ?case
  proof (cases "lo < hi")
    case False
    then have "bisect_right ts x lo hi = lo" by (subst bisect_right.simps) simp
    moreover have "lo = hi" using False 1(4) by simp
    ultimately show ?thesis using 1(5-7) by simp
  next
    case True
    define mid where "mid = (lo + hi) div 2"
    have mid: "lo \<le> mid" "mid < hi" using True by (auto simp: mid_def)
    show ?thesis
    proof (cases "x < ts ! mid")
      case less: True
      have "x < ts ! i" if "mid \<le> i" "i < length ts" for i
        using less sorted_wrt_le [OF 1(3) that] by linarith
      with 1(1) [OF True mid_def less 1(3)] mid 1(5,6)
      have "bisect_right ts x lo mid \<le> length ts \<and> (\<forall>i < bisect_right ts x lo mid. ts ! i \<le> x) \<and>
          (\<forall>i. bisect_right ts x lo mid \<le> i \<longrightarrow> i < length ts \<longrightarrow> x < ts ! i)" by auto
      moreover have "bisect_right ts x lo hi = bisect_right ts x lo mid"
        using True less by (subst bisect_right.simps) (simp add: mid_def Let_def)
      ultimately show ?thesis by simp
    next
      case ge: False
      have "ts ! i \<le> x" if "i < mid + 1" for i
        using ge sorted_wrt_le [OF 1(3), of i mid] that mid 1(5) by auto
      with 1(2) [OF True mid_def ge 1(3)] mid 1(5,7)
      have "bisect_right ts x (mid + 1) hi \<le> length ts \<and> (\<forall>i < bisect_right ts x (mid + 1) hi. ts ! i \<le> x) \<and>
          (\<forall>i. bisect_right ts x (mid + 1) hi \<le> i \<longrightarrow> i < length ts \<longrightarrow> x < ts ! i)" by auto
      moreover have "bisect_right ts x lo hi = bisect_right ts x (mid + 1) hi"
        using True ge by (subst bisect_right.simps) (simp add: mid_def Let_def)
      ultimately show ?thesis by simp
    qed
  qed
qed

lemma filter_prefix:
  assumes "n \<le> length xs" "\<forall>i < n. P (xs ! i)" "\<forall>i. n \<le> i \<longrightarrow> i < length xs \<longrightarrow> \<not> P (xs ! i)"
  shows "filter P xs = take n xs"
proof -
  have "filter P (take n xs) = take n xs" using assms(1,2) by (auto simp: filter_id_conv in_set_conv_nth)
  moreover have "filter P (drop n xs) = []" using assms(1,3) by (auto simp: filter_empty_conv in_set_conv_nth)
  ultimately show ?thesis by (metis append_Nil2 append_take_drop_id filter_append)
qed

text \<open>On a series in time order, as the exchange client returns it, the binary search finds the value of
  the last point at or before the wanted time, and 0 when there is none: no later value is ever used.\<close>

theorem at_or_before_is_last:
  assumes "sorted (map fst series)"
  shows "at_or_before series t =
    (let past = filter (\<lambda>(u, v). u \<le> t) series in if past = [] then 0 else snd (last past))"
proof -
  let ?ts = "map fst series" and ?i = "bisect_right (map fst series) t 0 (length series)"
  have b: "?i \<le> length ?ts \<and> (\<forall>i < ?i. ?ts ! i \<le> t) \<and> (\<forall>i. ?i \<le> i \<longrightarrow> i < length ?ts \<longrightarrow> t < ?ts ! i)"
    by (rule bisect_right_spec [OF assms]) simp_all
  have f: "filter (\<lambda>(u, v). u \<le> t) series = take ?i series"
  proof (rule filter_prefix)
    show "\<forall>i < ?i. case series ! i of (u, v) \<Rightarrow> u \<le> t"
    proof (intro allI impI)
      fix i assume "i < ?i"
      with b have "?ts ! i \<le> t" "i < length series" by auto
      then show "case series ! i of (u, v) \<Rightarrow> u \<le> t" by (simp add: case_prod_unfold)
    qed
  qed (use b in \<open>auto simp: case_prod_unfold not_le\<close>)
  show ?thesis
  proof (cases "?i = 0")
    case False
    with b have "series \<noteq> []" by auto
    moreover from False have "last (take ?i series) = series ! (?i - 1)" using b by (subst last_conv_nth) (auto simp: min_def)
    ultimately show ?thesis using False by (simp add: at_or_before_def f Let_def)
  qed (simp add: at_or_before_def f Let_def)
qed

theorem at_or_before_is_last_witness: "at_or_before [(10, 1), (20, 2), (30, 3)] 25 = 2"
  using at_or_before_is_last [of "[(10, 1), (20, 2), (30, 3)]" 25] by simp

section \<open>Signals protect the position\<close>

definition protective :: "trade_signal \<Rightarrow> bool" where
  "protective g \<longleftrightarrow>
     (case ts_side g of
        LONG \<Rightarrow> ts_stop g \<le> ts_entry g \<and> ts_entry g \<le> ts_take_profit g
      | SHORT \<Rightarrow> ts_take_profit g \<le> ts_entry g \<and> ts_entry g \<le> ts_stop g)"

lemma make_signal_protective:
  assumes "0 \<le> bs_atr_stop_multiple bs" "0 \<le> bs_reward_risk bs" "0 \<le> ms_atr s" "is_double (ms_close s)"
  shows "protective (make_signal bs s kind side)"
proof -
  have d: "0 \<le> fmul (bs_atr_stop_multiple bs) (ms_atr s)" using assms(1,3) by (rule fmul_nonneg)
  have l: "fsub (ms_close s) (fmul (bs_atr_stop_multiple bs) (ms_atr s)) \<le> ms_close s"
    and h: "ms_close s \<le> fadd (ms_close s) (fmul (bs_atr_stop_multiple bs) (ms_atr s))"
    using assms(4) d by (auto intro: fsub_le_left fadd_ge_left)
  show ?thesis
    using l h assms(2,4)
    by (auto simp: protective_def make_signal_def Let_def min_le_iff_disj le_max_iff_disj split: trade_side.split
        intro!: fadd_ge_left fsub_le_left fmul_nonneg fsub_nonneg)
qed

lemma breakout_signal:
  "breakout_stage bs s st = Some (d, st') \<Longrightarrow> dn_signal d = Some g \<Longrightarrow> \<exists>kind side. g = make_signal bs s kind side"
  by (auto simp: breakout_stage_def accepted_def rejected_def Let_def intro!: exI split: option.splits if_splits)

lemma capitulation_signal:
  "capitulation_stage bs s st = Some (d, st') \<Longrightarrow> dn_signal d = Some g \<Longrightarrow> \<exists>kind side. g = make_signal bs s kind side"
  by (auto simp: capitulation_stage_def accepted_def intro!: exI split: option.splits if_splits)

lemma arm_signal:
  "arm_capitulation bs s st = Some (d, st') \<Longrightarrow> dn_signal d = None"
  "arm_compression bs s st = Some (d, st') \<Longrightarrow> dn_signal d = None"
  by (auto simp: arm_capitulation_def arm_compression_def rejected_def split: if_splits)

lemma trend_signal: "dn_signal (trend_decision bs s) = Some g \<Longrightarrow> \<exists>kind side. g = make_signal bs s kind side"
  by (auto simp: trend_decision_def accepted_def rejected_def intro!: exI split: if_splits)

lemma evaluate_signal:
  "evaluate bs s st = (d, st') \<Longrightarrow> dn_signal d = Some g \<Longrightarrow> \<exists>kind side. g = make_signal bs s kind side"
  using breakout_signal capitulation_signal arm_signal trend_signal
  by (fastforce simp: evaluate_def split: option.splits)

lemma build_snapshot_close_atr:
  assumes "build_snapshot bs symbol candles oi funding = Inr s"
  shows "ms_close s = cl_close (last candles)" and "atr_wilder candles (bs_atr_period bs) = Inr (ms_atr s)"
  using assms by (auto simp: build_snapshot_def Let_def rbind_Inr_iff split: if_splits)

text \<open>Every signal that the strategy gives on a snapshot of real candles protects the position: it enters
  at the last close, and its stop is on the losing side and its target on the winning side of the entry.\<close>

theorem signals_are_protective:
  assumes "build_snapshot bs symbol candles oi funding = Inr s" and "evaluate bs s st = (d, st')"
    and "dn_signal d = Some g" and "sane_period (bs_atr_period bs)" and "is_double (cl_close (last candles))"
    and "0 \<le> bs_atr_stop_multiple bs" and "0 \<le> bs_reward_risk bs"
  shows "protective g \<and> ts_entry g = cl_close (last candles)"
proof -
  obtain kind side where g: "g = make_signal bs s kind side" using evaluate_signal [OF assms(2,3)] by blast
  have "0 \<le> ms_atr s" using atr_nonneg [OF assms(4) build_snapshot_close_atr(2) [OF assms(1)]] .
  then have "protective g" unfolding g
    using assms(5-7) build_snapshot_close_atr(1) [OF assms(1)] by (intro make_signal_protective) simp_all
  then show ?thesis
    using build_snapshot_close_atr(1) [OF assms(1)] by (auto simp: g make_signal_def Let_def split: trade_side.split)
qed


section \<open>Symbols do not interfere\<close>

text \<open>Two engine states that hold the same setups for one symbol.\<close>

definition agree :: "string \<Rightarrow> strategy \<Rightarrow> strategy \<Rightarrow> bool" where
  "agree x a b \<longleftrightarrow> dget (st_compressions a) x = dget (st_compressions b) x \<and>
     dget (st_capitulations a) x = dget (st_capitulations b) x"

lemma stage_agree:
  assumes "agree (ms_symbol s) a b"
  shows "rel_option (rel_prod (=) (agree (ms_symbol s))) (breakout_stage bs s a) (breakout_stage bs s b)"
    "rel_option (rel_prod (=) (agree (ms_symbol s))) (capitulation_stage bs s a) (capitulation_stage bs s b)"
    "rel_option (rel_prod (=) (agree (ms_symbol s))) (arm_capitulation bs s a) (arm_capitulation bs s b)"
    "rel_option (rel_prod (=) (agree (ms_symbol s))) (arm_compression bs s a) (arm_compression bs s b)"
  using assms
  by (auto simp: breakout_stage_def capitulation_stage_def arm_capitulation_def arm_compression_def agree_def Let_def
      split: option.split)

lemma case_rel:
  "rel_option R x y \<Longrightarrow> R p q \<Longrightarrow> R (case x of Some r \<Rightarrow> r | None \<Rightarrow> p) (case y of Some r \<Rightarrow> r | None \<Rightarrow> q)"
  by (cases x; cases y) auto

lemma evaluate_agree:
  assumes "agree (ms_symbol s) a b"
  shows "fst (evaluate bs s a) = fst (evaluate bs s b)" "agree (ms_symbol s) (snd (evaluate bs s a)) (snd (evaluate bs s b))"
proof -
  have "rel_prod (=) (agree (ms_symbol s)) (evaluate bs s a) (evaluate bs s b)"
    unfolding evaluate_def
    by (rule case_rel [OF stage_agree(1) [OF assms] case_rel [OF stage_agree(2) [OF assms]
          case_rel [OF stage_agree(3) [OF assms] case_rel [OF stage_agree(4) [OF assms]]]]]) (simp add: assms)
  then show "fst (evaluate bs s a) = fst (evaluate bs s b)" "agree (ms_symbol s) (snd (evaluate bs s a)) (snd (evaluate bs s b))"
    by (auto elim: rel_prod.cases)
qed

lemma stage_other:
  assumes "x \<noteq> ms_symbol s"
  shows "pred_option (\<lambda>(d, st'). agree x st' st) (breakout_stage bs s st)"
    "pred_option (\<lambda>(d, st'). agree x st' st) (capitulation_stage bs s st)"
    "pred_option (\<lambda>(d, st'). agree x st' st) (arm_capitulation bs s st)"
    "pred_option (\<lambda>(d, st'). agree x st' st) (arm_compression bs s st)"
  using assms
  by (auto simp: breakout_stage_def capitulation_stage_def arm_capitulation_def arm_compression_def agree_def Let_def
      split: option.split)

lemma evaluate_other:
  assumes "x \<noteq> ms_symbol s"
  shows "agree x (snd (evaluate bs s st)) st"
  using stage_other [OF assms, where bs = bs and st = st]
  by (auto simp: evaluate_def agree_def split: option.split)

lemma agree_trans: "agree x a b \<Longrightarrow> agree x b c \<Longrightarrow> agree x a c"
  by (simp add: agree_def)

lemma evaluate_all_Cons:
  "fst (evaluate_all bs (s # ss) st) = fst (evaluate bs s st) # fst (evaluate_all bs ss (snd (evaluate bs s st)))"
  by (simp split: prod.split)

lemma evaluate_all_agree:
  "agree x a b \<Longrightarrow> map snd (filter (\<lambda>(s, d). ms_symbol s = x) (zip ss (fst (evaluate_all bs ss a)))) =
    fst (evaluate_all bs (filter (\<lambda>s. ms_symbol s = x) ss) b)"
proof (induction ss arbitrary: a b)
  case (Cons s ss)
  show ?case
  proof (cases "ms_symbol s = x")
    case True
    with Cons.prems evaluate_agree [where s = s and a = a and b = b and bs = bs] Cons.IH [of "snd (evaluate bs s a)" "snd (evaluate bs s b)"] show ?thesis
      by (simp add: evaluate_all_Cons del: evaluate_all.simps)
  next
    case False
    then have "agree x (snd (evaluate bs s a)) b"
      using evaluate_other [where x = x and s = s and bs = bs and st = a] Cons.prems agree_trans by metis
    with Cons.IH [of "snd (evaluate bs s a)" b] False show ?thesis by (simp add: evaluate_all_Cons del: evaluate_all.simps)
  qed
qed simp

text \<open>The symbols do not interfere: whatever the interleaving of the snapshots of several symbols, the
  decisions for one symbol are exactly those of an engine that sees this symbol alone.\<close>

theorem symbols_independent:
  "map snd (filter (\<lambda>(s, d). ms_symbol s = x) (zip ss (fst (evaluate_all bs ss st)))) =
    fst (evaluate_all bs (filter (\<lambda>s. ms_symbol s = x) ss) st)"
  by (rule evaluate_all_agree) (simp add: agree_def)

section \<open>One signal per armed setup\<close>

definition is_signal :: "trade_setup \<Rightarrow> decision \<Rightarrow> bool" where
  "is_signal kind d \<longleftrightarrow> (case dn_signal d of None \<Rightarrow> False | Some g \<Rightarrow> ts_setup g = kind)"

definition is_arming :: "string \<Rightarrow> decision \<Rightarrow> bool" where
  "is_arming reason d \<longleftrightarrow> (case dn_rejected d of None \<Rightarrow> False | Some (k, r) \<Rightarrow> r = reason)"

definition armed_count :: "(string \<times> armed) list \<Rightarrow> string \<Rightarrow> nat" where
  "armed_count d x = (if dhas d x then 1 else 0)"

lemma setup_of_signal [simp]: "ts_setup (make_signal bs s kind side) = kind"
  by (simp add: make_signal_def Let_def split: trade_side.split)

lemma compression_budget:
  "(if is_signal OI_COMPRESSION (fst (evaluate bs s st)) then 1 else 0) + armed_count (st_compressions (snd (evaluate bs s st))) (ms_symbol s)
    \<le> armed_count (st_compressions st) (ms_symbol s) + (if is_arming ''SETUP_ARMED_AWAIT_BREAKOUT'' (fst (evaluate bs s st)) then 1 else 0)"
proof (cases "breakout_stage bs s st")
  case (Some r)
  then show ?thesis
    by (auto simp: evaluate_def breakout_stage_def is_signal_def is_arming_def armed_count_def accepted_def rejected_def dhas_def Let_def
        split: option.splits if_splits)
next
  case br: None
  show ?thesis
  proof (cases "capitulation_stage bs s st")
    case (Some r)
    with br show ?thesis
      by (auto simp: evaluate_def capitulation_stage_def is_signal_def armed_count_def accepted_def split: option.splits if_splits)
  next
    case None
    with br show ?thesis
      by (auto simp: evaluate_def arm_capitulation_def arm_compression_def trend_decision_def is_signal_def is_arming_def armed_count_def
          accepted_def rejected_def dhas_def split: if_splits)
  qed
qed

lemma capitulation_budget:
  "(if is_signal CAPITULATION (fst (evaluate bs s st)) then 1 else 0) + armed_count (st_capitulations (snd (evaluate bs s st))) (ms_symbol s)
    \<le> armed_count (st_capitulations st) (ms_symbol s) +
      (if is_arming ''CAPITULATION_DETECTED_AWAIT_CONFIRMATION'' (fst (evaluate bs s st)) then 1 else 0)"
proof (cases "breakout_stage bs s st")
  case (Some r)
  then show ?thesis
    by (auto simp: evaluate_def breakout_stage_def is_signal_def armed_count_def accepted_def rejected_def Let_def
        split: option.splits if_splits)
next
  case br: None
  show ?thesis
  proof (cases "capitulation_stage bs s st")
    case (Some r)
    with br show ?thesis
      by (auto simp: evaluate_def capitulation_stage_def is_signal_def is_arming_def armed_count_def accepted_def dhas_def split: option.splits if_splits)
  next
    case None
    with br show ?thesis
      by (auto simp: evaluate_def arm_capitulation_def arm_compression_def trend_decision_def is_signal_def is_arming_def armed_count_def
          accepted_def rejected_def dhas_def split: if_splits)
  qed
qed

text \<open>C23. A compression or capitulation setup is spent by the signal it gives: over any run on one symbol
  there are at most as many such signals as setups were armed (one more if a setup was armed before).\<close>

theorem one_signal_per_arming:
  assumes "list_all (\<lambda>s. ms_symbol s = x) ss"
  shows "length (filter (is_signal OI_COMPRESSION) (fst (evaluate_all bs ss st))) \<le>
      armed_count (st_compressions st) x + length (filter (is_arming ''SETUP_ARMED_AWAIT_BREAKOUT'') (fst (evaluate_all bs ss st))) \<and>
    length (filter (is_signal CAPITULATION) (fst (evaluate_all bs ss st))) \<le>
      armed_count (st_capitulations st) x +
        length (filter (is_arming ''CAPITULATION_DETECTED_AWAIT_CONFIRMATION'') (fst (evaluate_all bs ss st)))"
  using assms
proof (induction ss arbitrary: st)
  case (Cons s ss)
  have x: "ms_symbol s = x" and rest: "list_all (\<lambda>s. ms_symbol s = x) ss" using Cons.prems by simp_all
  have cnt: "length (filter P (d # ds)) = (if P d then 1 else 0) + length (filter P ds)" for P :: "decision \<Rightarrow> bool" and d ds
    by simp
  note step = compression_budget [where s = s and st = st and bs = bs, unfolded x]
    capitulation_budget [where s = s and st = st and bs = bs, unfolded x]
  show ?case unfolding evaluate_all_Cons cnt
    using step Cons.IH [OF rest, where st = "snd (evaluate bs s st)"] by linarith
qed simp


section \<open>A concrete signal\<close>

definition sample_settings :: bot_settings where
  "sample_settings =
     \<lparr>bs_volume_period = 1, bs_ma_period = 1, bs_atr_period = 1, bs_rsi_period = 1, bs_atr_stop_multiple = 1, bs_reward_risk = 2,
      bs_fomo_price = 10, bs_fomo_oi = 10, bs_fomo_atr = 2, bs_flat_price = 0, bs_funding_block = 1,
      bs_tr_price_min = - 1, bs_tr_price_max = 1, bs_tr_oi_min = - 1, bs_tr_volume_min = - 1, bs_tr_funding_max = 1,
      bs_co_price_max = - 1, bs_co_oi_min = 1, bs_co_volume_min = 1, bs_co_breakout_min = 1,
      bs_ca_price_max = - 10, bs_ca_oi_max = - 10, bs_ca_volume_min = 1, bs_ca_oi_stable = 0,
      bs_initial_balance = 1000, bs_risk_per_trade = 1 / 2, bs_max_open = 1, bs_max_daily_loss = 1 / 2, bs_max_losses = 1,
      bs_max_exposure = 1, bs_taker_fee = 0, bs_slippage = 0\<rparr>"

definition flat_candle :: "int \<Rightarrow> candle" where
  "flat_candle i = \<lparr>cl_time = i * 300000, cl_open = 0, cl_high = 0, cl_low = 0, cl_close = 0, cl_volume = 0\<rparr>"

definition sample_candles :: "candle list" where
  "sample_candles = map flat_candle [0, 1, 2, 3, 4, 5, 6, 7, 8, 9, 10, 11] @
     [(flat_candle 12)\<lparr>cl_high := 1, cl_close := 1\<rparr>]"

definition sample_snapshot :: snapshot where
  "sample_snapshot =
     \<lparr>ms_symbol = ''X'', ms_time = 3600000, ms_open = 0, ms_high = 1, ms_low = 0, ms_close = 1, ms_volume = 0, ms_oi = 0,
      ms_funding = 0, ms_atr = 1, ms_rsi = 100, ms_ma20 = 1, ms_price_15m = 0, ms_price_30m = 0, ms_price_1h = 0, ms_price_5m = 0,
      ms_oi_5m = 0, ms_oi_15m = 0, ms_oi_30m = 0, ms_oi_1h = 0, ms_volume_ratio = 0, ms_atr_percent = 100,
      ms_local_high = 0, ms_local_low = 0, ms_previous_high = 0, ms_previous_low = 0\<rparr>"

lemma fl_small: "fl 1 = 1" "fl 2 = 2" "fl 100 = 100" "fl (- 1) = - 1"
  using fl_of_int [of 1] fl_of_int [of 2] fl_of_int [of 100] fl_of_int [of "- 1"] by simp_all

lemma at_or_before_Nil [simp]: "at_or_before [] t = 0"
  using at_or_before_is_last [of "[]" t] by simp

lemma sample_snapshot_built: "build_snapshot sample_settings ''X'' sample_candles [] 0 = Inr sample_snapshot"
  by (simp add: build_snapshot_def sample_settings_def sample_candles_def sample_snapshot_def flat_candle_def enough_candles_def
      chronological_def neighbours_def Let_def atr_wilder_def rsi_wilder_def simple_ma_def volume_ratio_def wilder_all_def wilder_def
      true_range_def py_sum_def sum_step_def div_checked_def last_n_def price_change_def oi_change_def percent_change_def fl_ops fl_small)

lemma sample_evaluated:
  "evaluate sample_settings sample_snapshot new_strategy =
    (accepted NEUTRAL (make_signal sample_settings sample_snapshot TREND_START LONG), new_strategy)"
  by (simp add: evaluate_def breakout_stage_def capitulation_stage_def arm_capitulation_def arm_compression_def trend_decision_def
      trend_candidate_def is_fomo_def regime_now_def classify_regime_def new_strategy_def sample_settings_def sample_snapshot_def
      Let_def fl_ops fl_small)

theorem signals_are_protective_witness:
  "protective (make_signal sample_settings sample_snapshot TREND_START LONG) \<and>
    ts_entry (make_signal sample_settings sample_snapshot TREND_START LONG) = cl_close (last sample_candles)"
proof (rule signals_are_protective [OF sample_snapshot_built sample_evaluated])
  show "is_double (cl_close (last sample_candles))" by (simp add: sample_candles_def flat_candle_def)
qed (simp_all add: accepted_def sample_settings_def sane_period_def)

text \<open>A crash arms the capitulation setup, and the rebound gives its one signal.\<close>

definition sample_crash :: snapshot where
  "sample_crash = sample_snapshot\<lparr>ms_price_1h := - 20, ms_oi_1h := - 20, ms_volume_ratio := 2\<rparr>"

definition sample_rebound :: snapshot where
  "sample_rebound = sample_snapshot\<lparr>ms_time := 3900000\<rparr>"

lemma sample_capitulation:
  "length (filter (is_signal CAPITULATION) (fst (evaluate_all sample_settings [sample_crash, sample_rebound] new_strategy))) = 1"
  "length (filter (is_arming ''CAPITULATION_DETECTED_AWAIT_CONFIRMATION'')
     (fst (evaluate_all sample_settings [sample_crash, sample_rebound] new_strategy))) = 1"
  by (simp_all add: evaluate_def breakout_stage_def capitulation_stage_def arm_capitulation_def new_strategy_def sample_settings_def
      sample_crash_def sample_rebound_def sample_snapshot_def is_signal_def is_arming_def accepted_def rejected_def make_signal_def Let_def)

theorem one_signal_per_arming_witness:
  "case fst (evaluate_all sample_settings [sample_crash, sample_rebound] new_strategy) of ds \<Rightarrow>
     length (filter (is_signal CAPITULATION) ds) = 1 \<and> length (filter (is_arming ''CAPITULATION_DETECTED_AWAIT_CONFIRMATION'') ds) = 1 \<and>
     length (filter (is_signal CAPITULATION) ds) \<le>
       armed_count (st_capitulations new_strategy) ''X'' + length (filter (is_arming ''CAPITULATION_DETECTED_AWAIT_CONFIRMATION'') ds)"
proof -
  have "list_all (\<lambda>s. ms_symbol s = ''X'') [sample_crash, sample_rebound]"
    by (simp add: sample_crash_def sample_rebound_def sample_snapshot_def)
  from one_signal_per_arming [OF this, of sample_settings new_strategy] sample_capitulation show ?thesis by blast
qed

end
