(* ===== verification/SimExchange.thy ===== *)
theory SimExchange
  imports Strategy "HOL-Library.Sublist"
begin

text \<open>
  The fill simulator of the price/open-interest bot and what surrounds it: position sizing and the
  daily and streak limits (\<^verbatim>\<open>src/app/risk/risk_manager.py\<close>), the simulated
  exchange (\<^verbatim>\<open>src/app/execution/paper_exchange.py\<close>), the replay of a history
  through the strategy (\<^verbatim>\<open>src/app/backtest/engine.py\<close>) and its report
  (\<^verbatim>\<open>src/app/backtest/metrics.py\<close>). Random trade ids, the market columns that a
  trade copies from its snapshot and the log files are left out; the calendar day is an input.
\<close>

section \<open>Position size\<close>

definition position_size :: "rat \<Rightarrow> rat \<Rightarrow> rat \<Rightarrow> rat \<Rightarrow> rat \<Rightarrow> py_error + rat \<times> rat" where
  "position_size balance risk_fraction entry stop max_exposure =
     (let distance = \<bar>fsub entry stop\<bar>
      in if balance \<le> 0 \<or> \<not> (0 < risk_fraction \<and> risk_fraction \<le> 1) \<or> distance \<le> 0 \<or> entry \<le> 0
         then Inl (ValueError ''invalid position sizing inputs'')
         else let risk = fmul balance risk_fraction
              in Inr (min (fdiv risk distance) (fdiv (fmul balance max_exposure) entry), risk))"

section \<open>Risk limits\<close>

record risk_manager =
  rm_start :: rat
  rm_daily_pnl :: rat
  rm_losses :: nat
  rm_day :: int

definition reset_day :: "int \<Rightarrow> risk_manager \<Rightarrow> risk_manager" where
  "reset_day today rm = (if today \<noteq> rm_day rm then rm\<lparr>rm_day := today, rm_daily_pnl := 0\<rparr> else rm)"

definition risk_reason :: "bot_settings \<Rightarrow> risk_manager \<Rightarrow> trade_signal \<Rightarrow> string list \<Rightarrow> string option" where
  "risk_reason bs rm sig symbols =
     (if ts_symbol sig \<in> set symbols then Some ''POSITION_ALREADY_OPEN''
      else if length symbols \<ge> bs_max_open bs then Some ''MAX_OPEN_POSITIONS''
      else if rm_daily_pnl rm \<le> fmul (- rm_start rm) (bs_max_daily_loss bs) then Some ''MAX_DAILY_LOSS''
      else if rm_losses rm \<ge> bs_max_losses bs then Some ''MAX_CONSECUTIVE_LOSSES''
      else None)"

definition risk_record :: "rat \<Rightarrow> risk_manager \<Rightarrow> risk_manager" where
  "risk_record pnl rm =
     rm\<lparr>rm_daily_pnl := fadd (rm_daily_pnl rm) pnl, rm_losses := (if pnl < 0 then rm_losses rm + 1 else 0)\<rparr>"

section \<open>The simulated exchange\<close>

record bot_trade =
  bt_time :: int
  bt_symbol :: string
  bt_setup :: trade_setup
  bt_side :: trade_side
  bt_entry :: rat
  bt_stop :: rat
  bt_target :: rat
  bt_size :: rat
  bt_risk :: rat
  bt_fee :: rat
  bt_slippage :: rat

record closed_trade =
  ct_trade :: bot_trade
  ct_exit :: rat
  ct_reason :: string
  ct_pnl :: rat
  ct_percent :: rat
  ct_r :: rat
  ct_fee :: rat
  ct_slippage :: rat
  ct_duration :: rat

record exchange =
  ex_balance :: rat
  ex_positions :: "(string \<times> bot_trade) list"
  ex_risk :: risk_manager

definition new_exchange :: "bot_settings \<Rightarrow> int \<Rightarrow> exchange" where
  "new_exchange bs today =
     \<lparr>ex_balance = bs_initial_balance bs, ex_positions = [],
      ex_risk = \<lparr>rm_start = bs_initial_balance bs, rm_daily_pnl = 0, rm_losses = 0, rm_day = today\<rparr>\<rparr>"

definition slipped_entry :: "bot_settings \<Rightarrow> trade_signal \<Rightarrow> rat" where
  "slipped_entry bs sig =
     fmul (ts_entry sig) (case ts_side sig of LONG \<Rightarrow> fadd 1 (bs_slippage bs) | SHORT \<Rightarrow> fsub 1 (bs_slippage bs))"

definition opened_trade :: "bot_settings \<Rightarrow> trade_signal \<Rightarrow> snapshot \<Rightarrow> rat \<Rightarrow> rat \<Rightarrow> bot_trade" where
  "opened_trade bs sig s quantity risk =
     (let entry = slipped_entry bs sig
      in \<lparr>bt_time = ms_time s, bt_symbol = ts_symbol sig, bt_setup = ts_setup sig, bt_side = ts_side sig, bt_entry = entry,
          bt_stop = ts_stop sig, bt_target = ts_take_profit sig, bt_size = quantity, bt_risk = risk,
          bt_fee = fmul (fmul entry quantity) (bs_taker_fee bs), bt_slippage = fmul \<bar>fsub entry (ts_entry sig)\<bar> quantity\<rparr>)"

text \<open>The answer is the trade or the reason of the refusal; an error is an exception.\<close>

definition open_position ::
  "bot_settings \<Rightarrow> int \<Rightarrow> trade_signal \<Rightarrow> snapshot \<Rightarrow> exchange \<Rightarrow> (py_error + (string + bot_trade)) \<times> exchange" where
  "open_position bs today sig s ex =
     (let ex1 = ex\<lparr>ex_risk := reset_day today (ex_risk ex)\<rparr>
      in case risk_reason bs (ex_risk ex1) sig (dkeys (ex_positions ex)) of
           Some reason \<Rightarrow> (Inr (Inl reason), ex1)
         | None \<Rightarrow>
             (case position_size (ex_balance ex) (bs_risk_per_trade bs) (slipped_entry bs sig) (ts_stop sig) (bs_max_exposure bs) of
                Inl e \<Rightarrow> (Inl e, ex1)
              | Inr (quantity, risk) \<Rightarrow>
                  (let t = opened_trade bs sig s quantity risk
                   in (Inr (Inr t),
                       ex1\<lparr>ex_balance := fsub (ex_balance ex) (bt_fee t),
                           ex_positions := dput (ts_symbol sig) t (ex_positions ex)\<rparr>))))"

definition signed_move :: "bot_trade \<Rightarrow> rat \<Rightarrow> rat" where
  "signed_move t price = (case bt_side t of LONG \<Rightarrow> fsub price (bt_entry t) | SHORT \<Rightarrow> fsub (bt_entry t) price)"

definition slipped_exit :: "bot_settings \<Rightarrow> bot_trade \<Rightarrow> rat \<Rightarrow> rat" where
  "slipped_exit bs t raw = fmul raw (case bt_side t of LONG \<Rightarrow> fsub 1 (bs_slippage bs) | SHORT \<Rightarrow> fadd 1 (bs_slippage bs))"

text \<open>A zero notional raises after the position and the balance have changed.\<close>

definition close_position ::
  "bot_settings \<Rightarrow> bot_trade \<Rightarrow> rat \<Rightarrow> int \<Rightarrow> string \<Rightarrow> exchange \<Rightarrow> (py_error + closed_trade) \<times> exchange" where
  "close_position bs t raw now reason ex =
     (let exit_price = slipped_exit bs t raw;
          exit_fee = fmul (fmul exit_price (bt_size t)) (bs_taker_fee bs);
          pnl = fsub (fmul (signed_move t exit_price) (bt_size t)) exit_fee;
          ex1 = ex\<lparr>ex_positions := ddel (bt_symbol t) (ex_positions ex), ex_balance := fadd (ex_balance ex) pnl\<rparr>
      in case div_checked pnl (fmul (bt_entry t) (bt_size t)) of
           Inl e \<Rightarrow> (Inl e, ex1)
         | Inr ratio \<Rightarrow>
             (Inr \<lparr>ct_trade = t, ct_exit = exit_price, ct_reason = reason, ct_pnl = pnl, ct_percent = fmul ratio 100,
                   ct_r = (if bt_risk t \<noteq> 0 then fdiv pnl (bt_risk t) else 0), ct_fee = fadd (bt_fee t) exit_fee,
                   ct_slippage = fadd (bt_slippage t) (fmul \<bar>fsub exit_price raw\<bar> (bt_size t)),
                   ct_duration = fdiv (of_int (now - bt_time t)) 1000\<rparr>,
              ex1\<lparr>ex_risk := risk_record pnl (ex_risk ex1)\<rparr>))"

definition stop_hit :: "snapshot \<Rightarrow> bot_trade \<Rightarrow> bool" where
  "stop_hit s t \<longleftrightarrow> (case bt_side t of LONG \<Rightarrow> ms_low s \<le> bt_stop t | SHORT \<Rightarrow> ms_high s \<ge> bt_stop t)"

definition target_hit :: "snapshot \<Rightarrow> bot_trade \<Rightarrow> bool" where
  "target_hit s t \<longleftrightarrow> (case bt_side t of LONG \<Rightarrow> ms_high s \<ge> bt_target t | SHORT \<Rightarrow> ms_low s \<le> bt_target t)"

text \<open>The stop after a snapshot that closed nothing: to the entry after one risk distance, and trailing
  after one and a half, both measured with the stop that was in force before the snapshot.\<close>

definition moved_stop :: "bot_settings \<Rightarrow> snapshot \<Rightarrow> bot_trade \<Rightarrow> rat" where
  "moved_stop bs s t =
     (let risk = \<bar>fsub (bt_entry t) (bt_stop t)\<bar>; step = fmul (bs_atr_stop_multiple bs) (ms_atr s)
      in case bt_side t of
           LONG \<Rightarrow>
             (let favorable = fsub (ms_high s) (bt_entry t);
                  stop1 = (if favorable \<ge> risk \<and> bt_stop t < bt_entry t then bt_entry t else bt_stop t)
              in if favorable \<ge> fmul (3 / 2) risk then max stop1 (fsub (ms_close s) step) else stop1)
         | SHORT \<Rightarrow>
             (let favorable = fsub (bt_entry t) (ms_low s);
                  stop1 = (if favorable \<ge> risk \<and> bt_stop t > bt_entry t then bt_entry t else bt_stop t)
              in if favorable \<ge> fmul (3 / 2) risk then min stop1 (fadd (ms_close s) step) else stop1))"

definition update_position ::
  "bot_settings \<Rightarrow> snapshot \<Rightarrow> exchange \<Rightarrow> (py_error + closed_trade option) \<times> exchange" where
  "update_position bs s ex =
     (case dget (ex_positions ex) (ms_symbol s) of
        None \<Rightarrow> (Inr None, ex)
      | Some t \<Rightarrow>
          if stop_hit s t
          then (case close_position bs t (bt_stop t) (ms_time s) ''STOP_LOSS'' ex of (r, ex') \<Rightarrow>
                  (case r of Inl e \<Rightarrow> Inl e | Inr c \<Rightarrow> Inr (Some c), ex'))
          else if target_hit s t
          then (case close_position bs t (bt_target t) (ms_time s) ''TAKE_PROFIT'' ex of (r, ex') \<Rightarrow>
                  (case r of Inl e \<Rightarrow> Inl e | Inr c \<Rightarrow> Inr (Some c), ex'))
          else (Inr None, ex\<lparr>ex_positions := dput (ms_symbol s) (t\<lparr>bt_stop := moved_stop bs s t\<rparr>) (ex_positions ex)\<rparr>))"

section \<open>Replaying a history\<close>

record replay =
  rp_exchange :: exchange
  rp_strategy :: strategy
  rp_closed :: "closed_trade list"
  rp_decisions :: "decision list"

definition open_decision :: "bot_settings \<Rightarrow> int \<Rightarrow> snapshot \<Rightarrow> decision \<Rightarrow> exchange \<Rightarrow> py_error + exchange" where
  "open_decision bs today s d ex =
     (case dn_signal d of
        None \<Rightarrow> Inr ex
      | Some sig \<Rightarrow> (case open_position bs today sig s ex of (Inl e, _) \<Rightarrow> Inl e | (Inr _, ex') \<Rightarrow> Inr ex'))"

text \<open>One snapshot, with the day on which it is replayed.\<close>

definition replay_step :: "bot_settings \<Rightarrow> snapshot \<times> int \<Rightarrow> replay \<Rightarrow> py_error + replay" where
  "replay_step bs sd rp =
     (case sd of (s, today) \<Rightarrow>
      (case update_position bs s (rp_exchange rp) of
         (Inl e, _) \<Rightarrow> Inl e
       | (Inr out, ex1) \<Rightarrow>
           (case evaluate bs s (rp_strategy rp) of (d, st) \<Rightarrow>
              rbind (open_decision bs today s d ex1)
                (\<lambda>ex2. Inr \<lparr>rp_exchange = ex2, rp_strategy = st,
                           rp_closed = rp_closed rp @ (case out of None \<Rightarrow> [] | Some c \<Rightarrow> [c]),
                           rp_decisions = rp_decisions rp @ [d]\<rparr>))))"

fun replay_all :: "bot_settings \<Rightarrow> (snapshot \<times> int) list \<Rightarrow> replay \<Rightarrow> py_error + replay" where
  "replay_all bs [] rp = Inr rp"
| "replay_all bs (sd # sds) rp = rbind (replay_step bs sd rp) (replay_all bs sds)"

definition run_backtest :: "bot_settings \<Rightarrow> int \<Rightarrow> (snapshot \<times> int) list \<Rightarrow> py_error + replay" where
  "run_backtest bs today history =
     replay_all bs (sort_key (\<lambda>sd. ms_time (fst sd)) history)
       \<lparr>rp_exchange = new_exchange bs today, rp_strategy = new_strategy, rp_closed = [], rp_decisions = []\<rparr>"

definition split_history :: "snapshot list \<Rightarrow> rat \<Rightarrow> rat \<Rightarrow> py_error + snapshot list \<times> snapshot list \<times> snapshot list" where
  "split_history snaps train validation =
     (if train \<le> 0 \<or> validation \<le> 0 \<or> fadd train validation \<ge> 1
      then Inl (ValueError ''invalid train/validation/OOS fractions'')
      else let ordered = sort_key ms_time snaps; n = of_nat (length ordered);
               a = nat (py_int (fmul n train)); b = nat (py_int (fmul n (fadd train validation)))
           in Inr (take a ordered, drop a (take b ordered), drop b ordered))"

section \<open>The report\<close>

record runs =
  rn_equity :: rat
  rn_peak :: rat
  rn_drawdown :: rat
  rn_wins :: nat
  rn_losses :: nat
  rn_max_wins :: nat
  rn_max_losses :: nat

definition runs_step :: "runs \<Rightarrow> rat \<Rightarrow> runs" where
  "runs_step r pnl =
     (let equity = fadd (rn_equity r) pnl; peak = max (rn_peak r) equity;
          w = (if pnl > 0 then rn_wins r + 1 else 0); l = (if pnl > 0 then 0 else rn_losses r + 1)
      in \<lparr>rn_equity = equity, rn_peak = peak, rn_drawdown = max (rn_drawdown r) (fsub peak equity),
          rn_wins = w, rn_losses = l, rn_max_wins = max (rn_max_wins r) w, rn_max_losses = max (rn_max_losses r) l\<rparr>)"

definition no_runs :: runs where
  "no_runs = \<lparr>rn_equity = 0, rn_peak = 0, rn_drawdown = 0, rn_wins = 0, rn_losses = 0, rn_max_wins = 0, rn_max_losses = 0\<rparr>"

record metrics =
  mt_trades :: nat
  mt_wins :: nat
  mt_losses :: nat
  mt_win_rate :: rat
  mt_profit_factor :: "rat option"
  mt_net :: rat
  mt_drawdown :: rat
  mt_max_wins :: nat
  mt_max_losses :: nat

text \<open>The counting part of \<^verbatim>\<open>calculate_metrics\<close>; the averages and the Sharpe ratio
  come from the statistics library. A profit factor \<open>None\<close> is infinite.\<close>

definition calculate_metrics :: "rat list \<Rightarrow> metrics" where
  "calculate_metrics pnls =
     (let wins = filter (\<lambda>x. x > 0) pnls; losses = filter (\<lambda>x. x < 0) pnls; r = foldl runs_step no_runs pnls
      in if pnls = []
         then \<lparr>mt_trades = 0, mt_wins = 0, mt_losses = 0, mt_win_rate = 0, mt_profit_factor = Some 0, mt_net = 0, mt_drawdown = 0,
               mt_max_wins = 0, mt_max_losses = 0\<rparr>
         else \<lparr>mt_trades = length pnls, mt_wins = length wins, mt_losses = length losses,
               mt_win_rate = fdiv (of_nat (length wins)) (of_nat (length pnls)),
               mt_profit_factor = (if losses \<noteq> [] then Some (fdiv (py_sum wins) \<bar>py_sum losses\<bar>)
                                   else if wins \<noteq> [] then None else Some 0),
               mt_net = py_sum pnls, mt_drawdown = rn_drawdown r, mt_max_wins = rn_max_wins r, mt_max_losses = rn_max_losses r\<rparr>)"


section \<open>Positions\<close>

definition exchange_ok :: "bot_settings \<Rightarrow> exchange \<Rightarrow> bool" where
  "exchange_ok bs ex \<longleftrightarrow> dwf (ex_positions ex) \<and> length (ex_positions ex) \<le> bs_max_open bs \<and>
     list_all (\<lambda>(k, t). bt_symbol t = k) (ex_positions ex)"

lemma keys_put: "list_all (\<lambda>(k, t). f t = k) d \<Longrightarrow> f t = k' \<Longrightarrow> list_all (\<lambda>(k, t). f t = k) (dput k' t d)"
  by (induction d) auto

lemma keys_del: "list_all P d \<Longrightarrow> list_all P (ddel k d)"
  by (induction d) auto

lemma reset_day_keeps [simp]: "rm_losses (reset_day today rm) = rm_losses rm" "rm_start (reset_day today rm) = rm_start rm"
  by (simp_all add: reset_day_def)

lemma opened_symbol [simp]: "bt_symbol (opened_trade bs sig s q r) = ts_symbol sig"
  by (simp add: opened_trade_def Let_def)

lemma open_ok:
  assumes "exchange_ok bs ex"
  shows "exchange_ok bs (snd (open_position bs today sig s ex))"
proof -
  have room: "ts_symbol sig \<notin> set (dkeys d) \<Longrightarrow> length d < n \<Longrightarrow> length (dput (ts_symbol sig) t d) \<le> n" for d :: "(string \<times> bot_trade) list" and n t
    using length_dput [of "ts_symbol sig" t d] by (auto simp: map_of_eq_None_iff)
  show ?thesis
    using assms
    by (auto simp: open_position_def exchange_ok_def risk_reason_def Let_def intro!: room keys_put split: option.split sum.split)
qed

lemma close_ok: "exchange_ok bs ex \<Longrightarrow> exchange_ok bs (snd (close_position bs t raw now reason ex))"
  using length_ddel_le [of "bt_symbol t" "ex_positions ex"]
  by (auto simp: close_position_def exchange_ok_def Let_def keys_del split: sum.split)

lemma update_ok: "exchange_ok bs ex \<Longrightarrow> exchange_ok bs (snd (update_position bs s ex))"
proof -
  assume ok: "exchange_ok bs ex"
  have "exchange_ok bs (ex\<lparr>ex_positions := dput (ms_symbol s) (t\<lparr>bt_stop := x\<rparr>) (ex_positions ex)\<rparr>)"
    if "dget (ex_positions ex) (ms_symbol s) = Some t" for t x
  proof -
    have "bt_symbol t = ms_symbol s" using ok map_of_SomeD [OF that] by (auto simp: exchange_ok_def list_all_iff)
    with ok that show ?thesis by (simp add: exchange_ok_def length_dput keys_put)
  qed
  with ok close_ok [OF ok] show ?thesis
    by (simp add: update_position_def split: option.split prod.split) (metis snd_conv)
qed

lemma replay_step_ok:
  assumes "exchange_ok bs (rp_exchange rp)" "replay_step bs sd rp = Inr rp'"
  shows "exchange_ok bs (rp_exchange rp')"
proof -
  obtain s today where sd: "sd = (s, today)" by (cases sd)
  obtain out ex1 where u: "update_position bs s (rp_exchange rp) = (Inr out, ex1)"
    using assms(2) by (auto simp: replay_step_def sd split: prod.splits sum.splits)
  have ok1: "exchange_ok bs ex1" using update_ok [OF assms(1), of s] by (simp add: u)
  have "exchange_ok bs ex2" if "open_decision bs today s d ex1 = Inr ex2" for d ex2
  proof (cases "dn_signal d")
    case (Some sig)
    with that open_ok [OF ok1, where today = today and sig = sig and s = s] show ?thesis
      by (auto simp: open_decision_def split: prod.splits sum.splits)
  qed (use that ok1 in \<open>simp add: open_decision_def\<close>)
  then show ?thesis using assms(2) by (auto simp: replay_step_def sd u rbind_Inr_iff split: prod.splits)
qed

lemma replay_all_ok: "exchange_ok bs (rp_exchange rp) \<Longrightarrow> replay_all bs sds rp = Inr rp' \<Longrightarrow> exchange_ok bs (rp_exchange rp')"
  by (induction sds arbitrary: rp) (auto simp: rbind_Inr_iff dest: replay_step_ok)

text \<open>Whatever the history, the replay of the bot never holds two positions in one symbol nor more
  positions than the settings allow.\<close>

theorem replay_positions_bounded:
  "case run_backtest bs today history of Inl e \<Rightarrow> True | Inr rp \<Rightarrow> exchange_ok bs (rp_exchange rp)"
proof -
  have ok: "exchange_ok bs (rp_exchange \<lparr>rp_exchange = new_exchange bs today, rp_strategy = new_strategy, rp_closed = [], rp_decisions = []\<rparr>)"
    by (simp add: new_exchange_def exchange_ok_def)
  show ?thesis unfolding run_backtest_def using replay_all_ok [OF ok] by (simp split: sum.split)
qed

section \<open>Stops\<close>

definition tighter :: "bot_trade \<Rightarrow> rat \<Rightarrow> bool" where
  "tighter t stop \<longleftrightarrow> (case bt_side t of LONG \<Rightarrow> bt_stop t \<le> stop | SHORT \<Rightarrow> stop \<le> bt_stop t)"

lemma moved_stop_tighter: "tighter t (moved_stop bs s t)"
  by (auto simp: tighter_def moved_stop_def Let_def split: trade_side.split)

text \<open>One price update of the simulated exchange is conservative: a snapshot that reaches the stop closes
  the trade at the stop, also when it reaches the target as well, and otherwise a trade that stays open
  keeps everything but its stop, which moves only towards the profit.\<close>

theorem update_is_conservative:
  assumes "dget (ex_positions ex) (ms_symbol s) = Some t" and "update_position bs s ex = (Inr out, ex')"
  shows "(case out of
      Some c \<Rightarrow> ct_trade c = t \<and> ct_exit c = slipped_exit bs t (if stop_hit s t then bt_stop t else bt_target t) \<and>
        (stop_hit s t \<or> target_hit s t)
    | None \<Rightarrow> \<not> stop_hit s t \<and> \<not> target_hit s t \<and>
        (case dget (ex_positions ex') (ms_symbol s) of None \<Rightarrow> False
         | Some u \<Rightarrow> u = t\<lparr>bt_stop := bt_stop u\<rparr> \<and> tighter t (bt_stop u)))"
  using assms moved_stop_tighter [of t bs s]
  by (auto simp: update_position_def close_position_def Let_def split: if_splits sum.splits prod.splits)

section \<open>The streak limit is final\<close>

definition halted :: "bot_settings \<Rightarrow> exchange \<Rightarrow> bool" where
  "halted bs ex \<longleftrightarrow> ex_positions ex = [] \<and> rm_losses (ex_risk ex) \<ge> bs_max_losses bs"

lemma halted_open:
  assumes "halted bs ex"
  shows "\<exists>ex'. open_decision bs today s d ex = Inr ex' \<and> halted bs ex' \<and> ex_balance ex' = ex_balance ex"
proof (cases "dn_signal d")
  case (Some sig)
  have "risk_reason bs (reset_day today (ex_risk ex)) sig [] \<noteq> None"
    using assms by (simp add: halted_def risk_reason_def)
  with assms Some show ?thesis by (auto simp: open_decision_def open_position_def halted_def Let_def)
qed (use assms in \<open>simp add: open_decision_def\<close>)

lemma halted_step:
  assumes "halted bs (rp_exchange rp)"
  shows "\<exists>rp'. replay_step bs sd rp = Inr rp' \<and> halted bs (rp_exchange rp') \<and> rp_closed rp' = rp_closed rp \<and>
    ex_balance (rp_exchange rp') = ex_balance (rp_exchange rp)"
proof -
  obtain s today where sd: "sd = (s, today)" by (cases sd)
  obtain d st where e: "evaluate bs s (rp_strategy rp) = (d, st)" by (cases "evaluate bs s (rp_strategy rp)")
  have "update_position bs s (rp_exchange rp) = (Inr None, rp_exchange rp)"
    using assms by (simp add: update_position_def halted_def)
  moreover obtain ex2 where "open_decision bs today s d (rp_exchange rp) = Inr ex2" "halted bs ex2"
    "ex_balance ex2 = ex_balance (rp_exchange rp)"
    using halted_open [OF assms] by blast
  ultimately show ?thesis by (simp add: replay_step_def sd e)
qed

text \<open>The limit on consecutive losses never ends by itself: once it is reached with no position open, no
  history whatever, over any number of days, opens or closes a trade again or changes the balance.\<close>

theorem loss_streak_halts_forever:
  assumes "halted bs (rp_exchange rp)"
  shows "case replay_all bs sds rp of Inl e \<Rightarrow> False
    | Inr rp' \<Rightarrow> halted bs (rp_exchange rp') \<and> rp_closed rp' = rp_closed rp \<and>
        ex_balance (rp_exchange rp') = ex_balance (rp_exchange rp)"
  using assms
proof (induction sds arbitrary: rp)
  case (Cons sd sds)
  obtain rp1 where r: "replay_step bs sd rp = Inr rp1" "halted bs (rp_exchange rp1)" "rp_closed rp1 = rp_closed rp"
    "ex_balance (rp_exchange rp1) = ex_balance (rp_exchange rp)"
    using halted_step [OF Cons.prems] by blast
  from Cons.IH [OF r(2)] show ?case by (simp add: r split: sum.splits)
qed simp

section \<open>No look-ahead\<close>

lemma replay_append: "replay_all bs (xs @ ys) rp = rbind (replay_all bs xs rp) (replay_all bs ys)"
proof (induction xs arbitrary: rp)
  case (Cons x xs)
  show ?case by (cases "replay_step bs x rp") (simp_all add: Cons.IH)
qed simp

lemma replay_step_extends:
  "replay_step bs sd rp = Inr rp' \<Longrightarrow> prefix (rp_closed rp) (rp_closed rp') \<and> prefix (rp_decisions rp) (rp_decisions rp')"
  by (auto simp: replay_step_def rbind_Inr_iff split: prod.splits sum.splits)

lemma replay_extends:
  "replay_all bs sds rp = Inr rp' \<Longrightarrow> prefix (rp_closed rp) (rp_closed rp') \<and> prefix (rp_decisions rp) (rp_decisions rp')"
proof (induction sds arbitrary: rp)
  case (Cons sd sds)
  then obtain rp1 where r: "replay_step bs sd rp = Inr rp1" "replay_all bs sds rp1 = Inr rp'" by (auto simp: rbind_Inr_iff)
  from replay_step_extends [OF r(1)] Cons.IH [OF r(2)] show ?case by (auto intro: prefix_order.order_trans)
qed simp

text \<open>C24. The backtest does not look ahead: cutting the history off after any point keeps every decision and
  every closed trade up to that point as it is.\<close>

theorem backtest_no_lookahead:
  assumes "sorted (map (\<lambda>sd. ms_time (fst sd)) (xs @ ys))" and "run_backtest bs today (xs @ ys) = Inr rp"
  shows "case run_backtest bs today xs of Inl e \<Rightarrow> False
    | Inr rp1 \<Rightarrow> prefix (rp_closed rp1) (rp_closed rp) \<and> prefix (rp_decisions rp1) (rp_decisions rp)"
proof -
  have srt: "sort_key (\<lambda>sd. ms_time (fst sd)) zs = zs" if "sorted (map (\<lambda>sd. ms_time (fst sd)) zs)" for zs :: "(snapshot \<times> int) list"
    using that by (rule sort_key_id_if_sorted)
  have s1: "sorted (map (\<lambda>sd. ms_time (fst sd)) xs)" using assms(1) by (simp add: sorted_append)
  from assms(2) obtain rp1 where "run_backtest bs today xs = Inr rp1" "replay_all bs ys rp1 = Inr rp"
    by (auto simp: run_backtest_def srt [OF assms(1)] srt [OF s1] replay_append rbind_Inr_iff)
  with replay_extends show ?thesis by auto
qed

section \<open>The split of a history\<close>

text \<open>Training, validation and out-of-sample parts are disjoint, in time order, and together the whole
  sorted history.\<close>

theorem split_partitions:
  assumes "split_history snaps train validation = Inr (a, b, c)" and "is_double train"
  shows "a @ b @ c = sort_key ms_time snaps"
proof -
  let ?o = "sort_key ms_time snaps" and ?n = "of_nat (length (sort_key ms_time snaps)) :: rat"
  let ?a = "nat (py_int (fmul ?n train))" and ?b = "nat (py_int (fmul ?n (fadd train validation)))"
  have e: "a = take ?a ?o" "b = drop ?a (take ?b ?o)" "c = drop ?b ?o" and pos: "0 < train" "0 < validation"
    using assms by (auto simp: split_history_def Let_def split: if_splits)
  have "train \<le> fadd train validation" using assms(2) pos by (intro fadd_ge_left) simp_all
  then have m: "fmul ?n train \<le> fmul ?n (fadd train validation)" using pos by (intro fmul_mono) simp_all
  have "0 \<le> fmul ?n train" using pos by (intro fmul_nonneg) simp_all
  with m have "?a \<le> ?b" by (simp add: py_int_def nat_mono floor_mono)
  then have "take ?a ?o = take ?a (take ?b ?o)" by (simp add: min_def)
  then have "a @ b = take ?b ?o" unfolding e by (metis append_take_drop_id)
  then show ?thesis by (metis append_assoc append_take_drop_id e(3))
qed

section \<open>The report\<close>

text \<open>What the loop of the report keeps after the profits \<open>ps\<close>.\<close>

definition runs_ok :: "rat list \<Rightarrow> runs \<Rightarrow> bool" where
  "runs_ok ps r \<longleftrightarrow> 0 \<le> rn_drawdown r \<and> rn_equity r \<le> rn_peak r \<and>
     rn_wins r \<le> length (filter (\<lambda>x. x > 0) ps) \<and> rn_losses r \<le> length (filter (\<lambda>x. \<not> x > 0) ps) \<and>
     rn_max_wins r \<le> length (filter (\<lambda>x. x > 0) ps) \<and> rn_max_losses r \<le> length (filter (\<lambda>x. \<not> x > 0) ps)"

lemma runs_step_ok: "runs_ok ps r \<Longrightarrow> runs_ok (ps @ [p]) (runs_step r p)"
  by (auto simp: runs_ok_def runs_step_def Let_def le_max_iff_disj)

lemma runs_fold_ok: "runs_ok ps r \<Longrightarrow> runs_ok (ps @ qs) (foldl runs_step r qs)"
proof (induction qs arbitrary: ps r)
  case (Cons q qs)
  from Cons.IH [OF runs_step_ok [OF Cons.prems, of q]] show ?case by simp
qed simp

lemma split_count: "length (filter (\<lambda>x. x > 0) ps) + length (filter (\<lambda>x. \<not> x > 0) ps) = length ps"
  by (rule sum_length_filter_compl)

text \<open>The report is consistent: wins and losses do not exceed the trades, the longest winning streak does
  not exceed the wins, the longest losing streak does not exceed the trades that are not wins (it counts
  flat trades too), and the drawdown is not negative.\<close>

theorem metrics_consistent:
  "let m = calculate_metrics ps in
    mt_wins m + mt_losses m \<le> mt_trades m \<and> mt_max_wins m \<le> mt_wins m \<and>
    mt_max_losses m \<le> mt_trades m - mt_wins m \<and> 0 \<le> mt_drawdown m"
proof -
  have ok: "runs_ok ps (foldl runs_step no_runs ps)"
    using runs_fold_ok [of "[]" no_runs ps] by (simp add: runs_ok_def no_runs_def)
  have "length (filter (\<lambda>x. x < 0) ps) \<le> length (filter (\<lambda>x. \<not> x > 0) ps)" by (induction ps) auto
  with ok split_count [of ps] show ?thesis
    by (auto simp: calculate_metrics_def Let_def runs_ok_def)
qed

lemma flat_trade_extends_losing_streak:
  "mt_losses (calculate_metrics [0]) = 0 \<and> mt_max_losses (calculate_metrics [0]) = 1"
  by (simp add: calculate_metrics_def runs_step_def no_runs_def Let_def)


section \<open>Concrete runs\<close>

lemma fl_numeral: "(numeral n :: int) \<le> 2 ^ 53 \<Longrightarrow> fl (numeral n) = numeral n" "(numeral n :: int) \<le> 2 ^ 53 \<Longrightarrow> fl (- numeral n) = - numeral n"
  using fl_of_int [of "numeral n"] fl_of_int [of "- numeral n"] by simp_all

definition sample_trade :: bot_trade where
  "sample_trade =
     \<lparr>bt_time = 0, bt_symbol = ''X'', bt_setup = TREND_START, bt_side = LONG, bt_entry = 1, bt_stop = 1, bt_target = 1,
      bt_size = 1, bt_risk = 0, bt_fee = 0, bt_slippage = 0\<rparr>"

definition sample_exchange :: "(string \<times> bot_trade) list \<Rightarrow> nat \<Rightarrow> exchange" where
  "sample_exchange ps losses =
     \<lparr>ex_balance = 1000, ex_positions = ps, ex_risk = \<lparr>rm_start = 1000, rm_daily_pnl = 0, rm_losses = losses, rm_day = 0\<rparr>\<rparr>"

theorem update_is_conservative_witness:
  "case fst (update_position sample_settings sample_snapshot (sample_exchange [(''X'', sample_trade)] 0)) of
     Inr (Some c) \<Rightarrow> ct_exit c = slipped_exit sample_settings sample_trade 1 \<and> target_hit sample_snapshot sample_trade
   | _ \<Rightarrow> False"
proof -
  have t: "dget (ex_positions (sample_exchange [(''X'', sample_trade)] 0)) (ms_symbol sample_snapshot) = Some sample_trade"
    by (simp add: sample_exchange_def sample_snapshot_def)
  have hit: "stop_hit sample_snapshot sample_trade" "target_hit sample_snapshot sample_trade"
    by (simp_all add: stop_hit_def target_hit_def sample_snapshot_def sample_trade_def)
  obtain c ex' where "close_position sample_settings sample_trade (bt_stop sample_trade) (ms_time sample_snapshot) ''STOP_LOSS''
      (sample_exchange [(''X'', sample_trade)] 0) = (Inr c, ex')"
    by (simp add: close_position_def div_checked_def Let_def sample_trade_def fl_ops fl_small)
  then have u: "update_position sample_settings sample_snapshot (sample_exchange [(''X'', sample_trade)] 0) = (Inr (Some c), ex')"
    using hit by (simp add: update_position_def t)
  have "bt_stop sample_trade = 1" by (simp add: sample_trade_def)
  with update_is_conservative [OF t u] hit show ?thesis by (simp add: u)
qed

definition halted_replay :: replay where
  "halted_replay = \<lparr>rp_exchange = sample_exchange [] 1, rp_strategy = new_strategy, rp_closed = [], rp_decisions = []\<rparr>"

theorem loss_streak_halts_forever_witness:
  "case replay_all sample_settings [(sample_snapshot, 1), (sample_snapshot, 2)] halted_replay of
     Inl e \<Rightarrow> False | Inr rp \<Rightarrow> halted sample_settings (rp_exchange rp) \<and> ex_balance (rp_exchange rp) = 1000"
proof -
  have h: "halted sample_settings (rp_exchange halted_replay)"
    by (simp add: halted_def halted_replay_def sample_exchange_def sample_settings_def)
  show ?thesis using loss_streak_halts_forever [OF h, of "[(sample_snapshot, 1), (sample_snapshot, 2)]"]
    by (auto simp: halted_replay_def sample_exchange_def split: sum.splits)
qed

definition no_room :: bot_settings where
  "no_room = sample_settings\<lparr>bs_max_open := 0\<rparr>"

lemma no_room_evaluated: "\<exists>sig. evaluate no_room (sample_snapshot\<lparr>ms_time := n\<rparr>) new_strategy = (accepted NEUTRAL sig, new_strategy)"
  by (simp add: evaluate_def breakout_stage_def capitulation_stage_def arm_capitulation_def arm_compression_def trend_decision_def
      trend_candidate_def is_fomo_def regime_now_def classify_regime_def new_strategy_def no_room_def sample_settings_def
      sample_snapshot_def Let_def fl_ops fl_small) (simp add: accepted_def)

lemma no_room_step:
  assumes "ex_positions (rp_exchange rp) = []" "rp_strategy rp = new_strategy"
  shows "\<exists>rp'. replay_step no_room (sample_snapshot\<lparr>ms_time := n\<rparr>, 0) rp = Inr rp' \<and> ex_positions (rp_exchange rp') = [] \<and>
    rp_strategy rp' = new_strategy \<and> length (rp_decisions rp') = Suc (length (rp_decisions rp))"
proof -
  obtain sig where "evaluate no_room (sample_snapshot\<lparr>ms_time := n\<rparr>) new_strategy = (accepted NEUTRAL sig, new_strategy)"
    using no_room_evaluated by blast
  then show ?thesis
    using assms by (simp add: replay_step_def update_position_def open_decision_def accepted_def open_position_def risk_reason_def
        Let_def) (simp add: no_room_def)
qed

definition sample_history :: "(snapshot \<times> int) list" where
  "sample_history = [(sample_snapshot\<lparr>ms_time := 1\<rparr>, 0), (sample_snapshot\<lparr>ms_time := 2\<rparr>, 0)]"

lemma sample_replayed: "\<exists>rp. run_backtest no_room 0 sample_history = Inr rp \<and> length (rp_decisions rp) = 2"
proof -
  let ?r0 = "\<lparr>rp_exchange = new_exchange no_room 0, rp_strategy = new_strategy, rp_closed = [], rp_decisions = []\<rparr>"
  obtain r1 where r1: "replay_step no_room (sample_snapshot\<lparr>ms_time := 1\<rparr>, 0) ?r0 = Inr r1" "ex_positions (rp_exchange r1) = []"
    "rp_strategy r1 = new_strategy" "length (rp_decisions r1) = 1"
    using no_room_step [of ?r0 1] by (auto simp: new_exchange_def)
  obtain r2 where "replay_step no_room (sample_snapshot\<lparr>ms_time := 2\<rparr>, 0) r1 = Inr r2" "length (rp_decisions r2) = 2"
    using no_room_step [OF r1(2,3), of 2] r1(4) by auto
  with r1(1) show ?thesis by (simp add: run_backtest_def sample_history_def)
qed

theorem backtest_no_lookahead_witness:
  "case run_backtest no_room 0 (take 1 sample_history) of Inl e \<Rightarrow> False | Inr rp \<Rightarrow> True"
proof -
  obtain rp where r: "run_backtest no_room 0 (take 1 sample_history @ drop 1 sample_history) = Inr rp"
    using sample_replayed by auto
  have "sorted (map (\<lambda>sd. ms_time (fst sd)) (take 1 sample_history @ drop 1 sample_history))" by (simp add: sample_history_def)
  from backtest_no_lookahead [OF this r] show ?thesis by (auto split: sum.splits)
qed

theorem split_partitions_witness:
  "case split_history [sample_snapshot, sample_snapshot] (1 / 4) (1 / 4) of Inl e \<Rightarrow> False
   | Inr (a, b, c) \<Rightarrow> a @ b @ c = [sample_snapshot, sample_snapshot]"
proof -
  have p: "of_int 1 * 2 powi (- 2) = (1 / 4 :: rat)" "of_int 1 * 2 powi (- 1) = (1 / 2 :: rat)" by (simp_all add: power_int_minus)
  have "fl (of_int 1 * 2 powi (- 2)) = of_int 1 * 2 powi (- 2)" "fl (of_int 1 * 2 powi (- 1)) = of_int 1 * 2 powi (- 1)"
    by (rule fl_grid; simp)+
  then have d: "is_double (1 / 4)" "fl (1 / 2) = 1 / 2" unfolding p is_double_def .
  have "\<exists>a b c. split_history [sample_snapshot, sample_snapshot] (1 / 4) (1 / 4) = Inr (a, b, c)"
    by (simp add: split_history_def Let_def fadd_def d)
  then obtain a b c where s: "split_history [sample_snapshot, sample_snapshot] (1 / 4) (1 / 4) = Inr (a, b, c)" by blast
  from split_partitions [OF s d(1)] show ?thesis by (simp add: s)
qed

end
