(* ===== verification/CandleRanges.thy ===== *)
theory CandleRanges
  imports Float64 Decimal
begin

text \<open>
  Time ranges of candles (\<^verbatim>\<open>src/app/analytics/candle_ranges.py\<close>): the windows that
  closed trades need, their merging, the gaps that the database reports in them and the batching of
  the gaps for the exchange. Times are microseconds since the epoch; a range is half open. Ranges and
  gaps have the same four fields, so one record stands for both.
\<close>

section \<open>Ranges\<close>

record span =
  sp_instrument :: int
  sp_timeframe :: string
  sp_from :: int
  sp_to :: int

text \<open>The constructor of a range refuses an empty one (\<open>None\<close>: ValueError); a gap is not checked.\<close>

definition candle_range :: "int \<Rightarrow> string \<Rightarrow> int \<Rightarrow> int \<Rightarrow> span option" where
  "candle_range i tf a b =
     (if a \<ge> b then None else Some \<lparr>sp_instrument = i, sp_timeframe = tf, sp_from = a, sp_to = b\<rparr>)"

definition merge_step :: "span list \<Rightarrow> span \<Rightarrow> span list" where
  "merge_step merged cur =
     (let l = last merged in
      if sp_from cur \<le> sp_to l then butlast merged @ [l\<lparr>sp_to := max (sp_to l) (sp_to cur)\<rparr>] else merged @ [cur])"

definition merge_spans :: "span list \<Rightarrow> span list" where
  "merge_spans xs = (case sort_key sp_from xs of [] \<Rightarrow> [] | y # ys \<Rightarrow> foldl merge_step [y] ys)"

text \<open>The four copies of this loop in the source.\<close>

definition planner_merge_ranges :: "span list \<Rightarrow> span list" where
  "planner_merge_ranges = merge_spans"

definition planner_merge_gaps :: "span list \<Rightarrow> span list" where
  "planner_merge_gaps = merge_spans"

section \<open>Required ranges\<close>

definition hour :: int where
  "hour = 3600 * 1000000"

text \<open>The clock is read separately for a missing start and a missing end.\<close>

definition required_range ::
  "int \<Rightarrow> int \<Rightarrow> int \<Rightarrow> string \<Rightarrow> int option \<Rightarrow> int option \<Rightarrow> int option \<Rightarrow> int \<Rightarrow> int \<Rightarrow> span option" where
  "required_range now1 now2 i tf signal entry exit horizon lookback =
     (let a = (case signal of Some t \<Rightarrow> t | None \<Rightarrow> (case entry of Some t \<Rightarrow> t | None \<Rightarrow> now1)) - lookback * hour;
          b = (case exit of Some t \<Rightarrow> t | None \<Rightarrow> now2) + horizon
      in candle_range i tf a b)"

record trade_times =
  tt_instrument :: "int option"
  tt_signal :: "int option"
  tt_entry :: "int option"
  tt_exit :: "int option"

text \<open>A trade without an instrument (or with the id 0) is skipped; \<open>None\<close>: an empty range raised.\<close>

fun collect_ranges ::
  "int \<Rightarrow> string \<Rightarrow> int \<Rightarrow> int \<Rightarrow> trade_times list \<Rightarrow> (int \<times> span list) list \<Rightarrow> (int \<times> span list) list option" where
  "collect_ranges now tf horizon lookback [] d = Some d"
| "collect_ranges now tf horizon lookback (t # ts) d =
     (case tt_instrument t of
        None \<Rightarrow> collect_ranges now tf horizon lookback ts d
      | Some i \<Rightarrow>
          if i = 0 then collect_ranges now tf horizon lookback ts d
          else case required_range now now i tf (tt_signal t) (tt_entry t) (tt_exit t) horizon lookback of
                 None \<Rightarrow> None
               | Some r \<Rightarrow> collect_ranges now tf horizon lookback ts (dput i (dget_or d i [] @ [r]) d))"

definition ranges_for_trades ::
  "int \<Rightarrow> string \<Rightarrow> int \<Rightarrow> int \<Rightarrow> trade_times list \<Rightarrow> (int \<times> span list) list option" where
  "ranges_for_trades now tf horizon lookback ts =
     map_option (map (\<lambda>(i, rs). (i, planner_merge_ranges rs))) (collect_ranges now tf horizon lookback ts [])"

section \<open>Gaps\<close>

definition clip_gap :: "int \<Rightarrow> string \<Rightarrow> span \<Rightarrow> int option \<times> int option \<Rightarrow> span list" where
  "clip_gap i tf r g =
     (case g of
        (Some a, Some b) \<Rightarrow>
          (let s = max a (sp_from r); e = min b (sp_to r)
           in if s < e then [\<lparr>sp_instrument = i, sp_timeframe = tf, sp_from = s, sp_to = e\<rparr>] else [])
      | _ \<Rightarrow> [])"

definition extract_gaps :: "int \<Rightarrow> string \<Rightarrow> span list \<Rightarrow> (int option \<times> int option) list \<Rightarrow> span list" where
  "extract_gaps i tf required coverage =
     planner_merge_gaps (concat (map (\<lambda>r. concat (map (clip_gap i tf r) coverage)) required))"

section \<open>Batches\<close>

definition TIMEFRAME_MINUTES :: "(string \<times> int) list" where
  "TIMEFRAME_MINUTES =
     [(''1'', 1), (''3'', 3), (''5'', 5), (''15'', 15), (''30'', 30), (''60'', 60), (''120'', 120), (''240'', 240),
      (''360'', 360), (''720'', 720), (''D'', 1440), (''W'', 10080), (''M'', 43200)]"

definition timeframe_to_minutes :: "string \<Rightarrow> int" where
  "timeframe_to_minutes tf = dget_or TIMEFRAME_MINUTES tf 5"

definition minutes_of :: "int \<Rightarrow> rat" where
  "minutes_of d = fdiv (fdiv (of_int d) 1000000) 60"

definition estimate_candle_count :: "span \<Rightarrow> int" where
  "estimate_candle_count g =
     py_int (fdiv (minutes_of (sp_to g - sp_from g)) (of_int (timeframe_to_minutes (sp_timeframe g)))) + 1"

text \<open>The loop state: the finished batches, the open batch and its candles.\<close>

definition batch_step :: "int \<Rightarrow> span list list \<times> span list \<times> int \<Rightarrow> span \<Rightarrow> span list list \<times> span list \<times> int" where
  "batch_step limit s g =
     (case s of (batches, cur, n) \<Rightarrow>
        let k = estimate_candle_count g
        in if n + k > limit \<and> cur \<noteq> [] then (batches @ [cur], [g], k) else (batches, cur @ [g], n + k))"

definition split_gaps :: "span list \<Rightarrow> int \<Rightarrow> span list list" where
  "split_gaps gaps limit =
     (case foldl (batch_step limit) ([], [], 0) gaps of (batches, cur, n) \<Rightarrow> if cur = [] then batches else batches @ [cur])"

section \<open>The time a list of ranges covers\<close>

definition span_set :: "span \<Rightarrow> int set" where
  "span_set s = {sp_from s ..< sp_to s}"

definition covered :: "span list \<Rightarrow> int set" where
  "covered xs = (\<Union>s\<in>set xs. span_set s)"

lemma covered_simps [simp]: "covered [] = {}" "covered (x # xs) = span_set x \<union> covered xs" "covered (xs @ ys) = covered xs \<union> covered ys"
  by (auto simp: covered_def)

text \<open>In order and apart: every range ends strictly before the next one starts.\<close>

definition apart :: "span list \<Rightarrow> bool" where
  "apart xs = sorted_wrt (\<lambda>a b. sp_from a \<le> sp_from b \<and> sp_to a < sp_from b) xs"

lemma merge_step_covered:
  assumes "xs \<noteq> []" "sp_from (last xs) \<le> sp_from x"
  shows "covered (merge_step xs x) = covered xs \<union> span_set x"
proof -
  obtain ys l where xs: "xs = ys @ [l]" using assms(1) by (metis append_butlast_last_id)
  show ?thesis using assms(2) by (auto simp: xs merge_step_def Let_def span_set_def)
qed

text \<open>What the loop keeps, with \<open>m\<close> the least start still to come.\<close>

definition merging :: "int \<Rightarrow> span list \<Rightarrow> bool" where
  "merging m xs \<longleftrightarrow> xs \<noteq> [] \<and> sp_from (last xs) \<le> m \<and>
     sorted_wrt (\<lambda>a b. sp_from a \<le> sp_from b \<and> sp_to a < sp_from b) xs"

lemma merging_step:
  assumes "merging m xs" "m \<le> sp_from x"
  shows "merging (sp_from x) (merge_step xs x)"
proof -
  obtain ys l where xs: "xs = ys @ [l]" using assms(1) by (metis append_butlast_last_id merging_def)
  show ?thesis
    using assms by (auto simp: xs merging_def merge_step_def Let_def sorted_wrt_append intro: order_trans)
qed

lemma merge_fold:
  "merging m xs \<Longrightarrow> sorted (map sp_from ys) \<Longrightarrow> list_all (\<lambda>y. m \<le> sp_from y) ys \<Longrightarrow>
    apart (foldl merge_step xs ys) \<and> covered (foldl merge_step xs ys) = covered xs \<union> covered ys"
proof (induction ys arbitrary: m xs)
  case (Cons y ys)
  have m: "merging (sp_from y) (merge_step xs y)" using Cons.prems by (intro merging_step) auto
  have c: "covered (merge_step xs y) = covered xs \<union> span_set y"
    using Cons.prems by (intro merge_step_covered) (auto simp: merging_def)
  have "list_all (\<lambda>z. sp_from y \<le> sp_from z) ys" using Cons.prems(2) by (simp add: list_all_iff)
  from Cons.IH [OF m _ this] Cons.prems(2) c show ?case by auto
qed (simp add: merging_def apart_def)

lemma merge_spans_spec: "apart (merge_spans xs) \<and> covered (merge_spans xs) = covered xs"
proof (cases "sort_key sp_from xs")
  case Nil
  then have "xs = []" by (metis length_0_conv length_sort)
  then show ?thesis by (simp add: merge_spans_def apart_def)
next
  case (Cons y ys)
  have s: "sorted (map sp_from (y # ys))" using sorted_sort_key [of sp_from xs] Cons by simp
  have c: "covered xs = covered (y # ys)" using set_sort [of sp_from xs] unfolding covered_def Cons by simp
  have m: "merging (sp_from y) [y]" by (simp add: merging_def)
  have "sorted (map sp_from ys)" "list_all (\<lambda>z. sp_from y \<le> sp_from z) ys" using s by (simp_all add: list_all_iff)
  from merge_fold [OF m this] show ?thesis by (simp add: merge_spans_def Cons c)
qed

lemma apart_merge:
  assumes "apart xs"
  shows "merge_spans xs = xs"
proof -
  have "foldl merge_step (zs @ [y]) ys = zs @ y # ys" if "apart (y # ys)" for zs y ys
    using that
  proof (induction ys arbitrary: zs y)
    case (Cons x ys)
    then have "merge_step (zs @ [y]) x = (zs @ [y]) @ [x]" by (simp add: merge_step_def apart_def)
    with Cons.IH [of x "zs @ [y]"] Cons.prems show ?case by (simp add: apart_def)
  qed simp
  from this [of _ _ "[]"] have f: "foldl merge_step [y] ys = y # ys" if "apart (y # ys)" for y ys using that by simp
  have "sorted (map sp_from xs)" unfolding sorted_map
    using assms [unfolded apart_def] by (rule sorted_wrt_mono_rel [rotated]) simp
  then have "sort_key sp_from xs = xs" by (rule sort_key_id_if_sorted)
  with assms f show ?thesis by (cases xs) (simp_all add: merge_spans_def)
qed

text \<open>Merging keeps exactly the time that the ranges cover and makes the list canonical: the merged
  ranges are in order, no two of them touch, and merging again changes nothing.\<close>

theorem merge_is_canonical:
  "covered (merge_spans xs) = covered xs \<and> apart (merge_spans xs) \<and> merge_spans (merge_spans xs) = merge_spans xs"
  using merge_spans_spec [of xs] apart_merge by blast

lemma covered_concat: "covered (concat (map f xs)) = (\<Union>x\<in>set xs. covered (f x))"
  by (induction xs) auto

lemma clip_gap_covered:
  "covered (clip_gap i tf r g) = span_set r \<inter> (case g of (Some a, Some b) \<Rightarrow> {a ..< b} | _ \<Rightarrow> {})"
  by (auto simp: clip_gap_def span_set_def Let_def split: option.split prod.split)

text \<open>The time that the database reports as missing.\<close>

definition missing :: "(int option \<times> int option) list \<Rightarrow> int set" where
  "missing coverage = (\<Union>g\<in>set coverage. case g of (Some a, Some b) \<Rightarrow> {a ..< b} | _ \<Rightarrow> {})"

text \<open>C26. The extracted gaps are exactly the missing time inside the required ranges: no gap is lost, none
  reaches outside the ranges, and no two gaps overlap or touch.\<close>

theorem gaps_are_exact:
  "covered (extract_gaps i tf required coverage) = covered required \<inter> missing coverage \<and>
    apart (extract_gaps i tf required coverage)"
proof -
  have "covered (concat (map (\<lambda>r. concat (map (clip_gap i tf r) coverage)) required)) = covered required \<inter> missing coverage"
    unfolding covered_concat clip_gap_covered covered_def [of required] missing_def by blast
  with merge_spans_spec show ?thesis by (simp add: extract_gaps_def planner_merge_gaps_def)
qed

section \<open>The windows of the trades\<close>

definition window :: "int \<Rightarrow> int \<Rightarrow> int \<Rightarrow> trade_times \<Rightarrow> int set" where
  "window now horizon lookback t =
     {(case tt_signal t of Some s \<Rightarrow> s | None \<Rightarrow> (case tt_entry t of Some e \<Rightarrow> e | None \<Rightarrow> now)) - lookback * hour ..<
      (case tt_exit t of Some x \<Rightarrow> x | None \<Rightarrow> now) + horizon}"

lemma required_range_set:
  "required_range now now i tf (tt_signal t) (tt_entry t) (tt_exit t) h l = Some r \<Longrightarrow> span_set r = window now h l t"
  by (auto simp: required_range_def candle_range_def window_def span_set_def Let_def split: if_splits)

definition windows_of :: "int \<Rightarrow> int \<Rightarrow> int \<Rightarrow> int \<Rightarrow> trade_times list \<Rightarrow> int set" where
  "windows_of now h l i ts = (\<Union>t\<in>set ts. if tt_instrument t = Some i then window now h l t else {})"

lemma collect_covered:
  assumes "collect_ranges now tf h l ts d = Some d'" "i \<noteq> 0"
  shows "covered (dget_or d' i []) = covered (dget_or d i []) \<union> windows_of now h l i ts"
  using assms(1)
proof (induction ts arbitrary: d)
  case (Cons t ts)
  show ?case
  proof (cases "tt_instrument t = None \<or> tt_instrument t = Some 0")
    case True
    then have "collect_ranges now tf h l ts d = Some d'" using Cons.prems by auto
    from Cons.IH [OF this] True assms(2) show ?thesis by (auto simp: windows_of_def)
  next
    case False
    then obtain j where j: "tt_instrument t = Some j" "j \<noteq> 0" by auto
    obtain r where r: "required_range now now j tf (tt_signal t) (tt_entry t) (tt_exit t) h l = Some r"
      "collect_ranges now tf h l ts (dput j (dget_or d j [] @ [r]) d) = Some d'"
      using Cons.prems j by (auto split: option.splits)
    have w: "span_set r = window now h l t" using r(1) by (rule required_range_set)
    from Cons.IH [OF r(2)] w j show ?thesis by (auto simp: windows_of_def dget_or_def)
  qed
qed (simp add: windows_of_def)

text \<open>The plan for a list of trades covers, for every instrument, exactly the windows of its trades, from
  the lookback before the signal to the horizon after the exit, in ranges that are apart.\<close>

theorem plan_covers_windows:
  assumes "ranges_for_trades now tf horizon lookback ts = Some plan" and "i \<noteq> 0"
  shows "covered (dget_or plan i []) = windows_of now horizon lookback i ts \<and> apart (dget_or plan i [])"
proof -
  obtain d where d: "collect_ranges now tf horizon lookback ts [] = Some d"
    and plan: "plan = map (\<lambda>(i, rs). (i, planner_merge_ranges rs)) d"
    using assms(1) by (auto simp: ranges_for_trades_def)
  have "dget plan i = map_option merge_spans (dget d i)"
    unfolding plan planner_merge_ranges_def by (rule dget_map_ran)
  moreover have "merge_spans [] = []" by (simp add: merge_spans_def)
  ultimately have "dget_or plan i [] = merge_spans (dget_or d i [])" by (simp add: dget_or_def split: option.split)
  with merge_spans_spec [of "dget_or d i []"] collect_covered [OF d assms(2)] show ?thesis
    by (simp add: dget_or_def)
qed

section \<open>Batches keep the gaps\<close>

definition batch_ok :: "int \<Rightarrow> span list \<Rightarrow> bool" where
  "batch_ok limit b \<longleftrightarrow> b \<noteq> [] \<and> (length b = 1 \<or> sum_list (map estimate_candle_count b) \<le> limit)"

lemma batch_fold:
  assumes "list_all (batch_ok limit) bs" "n = sum_list (map estimate_candle_count cur)" "cur \<noteq> [] \<longrightarrow> batch_ok limit cur"
    and "foldl (batch_step limit) (bs, cur, n) gs = (bs', cur', n')"
  shows "list_all (batch_ok limit) bs' \<and> (cur' \<noteq> [] \<longrightarrow> batch_ok limit cur') \<and> concat bs' @ cur' = concat bs @ cur @ gs"
  using assms
proof (induction gs arbitrary: bs cur n)
  case (Cons g gs)
  let ?k = "estimate_candle_count g"
  show ?case
  proof (cases "n + ?k > limit \<and> cur \<noteq> []")
    case True
    then have "batch_step limit (bs, cur, n) g = (bs @ [cur], [g], ?k)" by (simp add: batch_step_def Let_def)
    then have "foldl (batch_step limit) (bs @ [cur], [g], ?k) gs = (bs', cur', n')" using Cons.prems(4) by simp
    from Cons.IH [OF _ _ _ this] Cons.prems(1,3) True show ?thesis by (simp add: batch_ok_def)
  next
    case False
    then have "batch_step limit (bs, cur, n) g = (bs, cur @ [g], n + ?k)" by (auto simp: batch_step_def Let_def)
    then have f: "foldl (batch_step limit) (bs, cur @ [g], n + ?k) gs = (bs', cur', n')" using Cons.prems(4) by simp
    have "batch_ok limit (cur @ [g])" using False Cons.prems(2) by (auto simp: batch_ok_def)
    with Cons.IH [OF Cons.prems(1) _ _ f] Cons.prems(2) show ?thesis by simp
  qed
qed simp

text \<open>Batching loses and reorders nothing: the batches put together are the gaps, no batch is empty, and a
  batch with more than one gap stays within the limit of candles per request.\<close>

theorem batches_partition_gaps:
  "concat (split_gaps gaps limit) = gaps \<and> list_all (batch_ok limit) (split_gaps gaps limit)"
proof -
  obtain bs cur n where f: "foldl (batch_step limit) ([], [], 0) gaps = (bs, cur, n)" by (cases "foldl (batch_step limit) ([], [], 0) gaps") auto
  from batch_fold [OF _ _ _ f] show ?thesis by (auto simp: split_gaps_def f)
qed

theorem plan_covers_windows_witness:
  "case ranges_for_trades 0 ''5'' hour 24 [\<lparr>tt_instrument = Some 7, tt_signal = None, tt_entry = Some 0, tt_exit = Some 5\<rparr>] of
     None \<Rightarrow> False | Some plan \<Rightarrow> covered (dget_or plan 7 []) = {- 24 * hour ..< 5 + hour}"
proof -
  let ?t = "\<lparr>tt_instrument = Some 7, tt_signal = None, tt_entry = Some 0, tt_exit = Some 5\<rparr>"
  obtain plan where p: "ranges_for_trades 0 ''5'' hour 24 [?t] = Some plan"
    by (simp add: ranges_for_trades_def required_range_def candle_range_def hour_def)
  from plan_covers_windows [OF p, of 7] show ?thesis by (simp add: p windows_of_def window_def)
qed

end
