(* ===== verification/CandleSync.thy ===== *)
theory CandleSync
  imports CandleRanges
begin

text \<open>
  Synchronisation of candles with the exchange (\<^verbatim>\<open>src/app/analytics/candle_sync.py\<close>):
  timeframe texts, the alignment of times to the candle grid, the batched download of a gap with its
  point-in-time cutoff, the table of candles (\<^verbatim>\<open>src/app/analytics/repository.py\<close>) with the coverage function of
  the database (\<^verbatim>\<open>src/sql/migrations/012_align_candle_coverage_grid.sql\<close>), and the reconciliation of the required
  ranges. The exchange, and what the database answers to each write, are parameters; the rows of the
  exchange are lists of texts. The table holds the one market that the program writes.
\<close>

section \<open>Timeframes\<close>

definition strip :: "string \<Rightarrow> string" where
  "strip s = rev (dropWhile (\<lambda>c. c = CHR '' '') (rev (dropWhile (\<lambda>c. c = CHR '' '') s)))"

definition is_digits :: "string \<Rightarrow> bool" where
  "is_digits s \<longleftrightarrow> s \<noteq> [] \<and> list_all (\<lambda>c. digit_val c \<noteq> None) s"

definition DIRECT_TIMEFRAMES :: "string list" where
  "DIRECT_TIMEFRAMES = [''1'', ''3'', ''5'', ''15'', ''30'', ''60'', ''120'', ''240'', ''360'', ''720'']"

definition digits_of :: "string \<Rightarrow> int" where
  "digits_of s = (case parse_int s of Some n \<Rightarrow> n | None \<Rightarrow> 0)"

text \<open>\<open>None\<close>: ValueError.\<close>

definition normalize_timeframe :: "string \<Rightarrow> string option" where
  "normalize_timeframe raw =
     (let s = str_lower (strip raw); body = butlast s
      in if s \<in> set DIRECT_TIMEFRAMES then Some s
         else if s \<noteq> [] \<and> last s = CHR ''m'' \<and> is_digits body then Some (int_text (digits_of body))
         else if s \<noteq> [] \<and> last s = CHR ''h'' \<and> is_digits body then Some (int_text (digits_of body * 60))
         else if s \<in> {''d'', ''1d'', ''day''} then Some ''D''
         else if s \<in> {''w'', ''1w'', ''week''} then Some ''W''
         else if s \<in> {''m'', ''month''} then Some ''M''
         else None)"

definition minute :: int where
  "minute = 60 * 1000000"

definition day :: int where
  "day = 86400 * 1000000"

definition align_to_grid :: "int \<Rightarrow> string \<Rightarrow> int" where
  "align_to_grid t tf =
     (let m = timeframe_to_minutes tf; start = t - t mod day; total = (t mod day) div minute
      in if m \<ge> 1440 then start else start + (total div m) * m * minute)"

section \<open>Rows of the exchange\<close>

record stored_candle =
  sd_instrument :: int
  sd_timeframe :: string
  sd_open_time :: int
  sd_close_time :: int
  sd_open :: rat
  sd_high :: rat
  sd_low :: rat
  sd_close :: rat
  sd_volume :: rat
  sd_turnover :: "rat option"

definition candle_valid :: "stored_candle \<Rightarrow> bool" where
  "candle_valid c \<longleftrightarrow> sd_open c > 0 \<and> sd_high c > 0 \<and> sd_low c > 0 \<and> sd_close c > 0 \<and> sd_volume c \<ge> 0 \<and>
     (case sd_turnover c of None \<Rightarrow> True | Some q \<Rightarrow> q \<ge> 0) \<and> sd_open_time c < sd_close_time c \<and>
     sd_high c \<ge> sd_open c \<and> sd_high c \<ge> sd_close c \<and> sd_high c \<ge> sd_low c \<and> sd_low c \<le> sd_open c \<and> sd_low c \<le> sd_close c"

text \<open>\<^verbatim>\<open>float(text)\<close> of a plain decimal text, the form the exchange sends.\<close>

definition parse_float :: "string \<Rightarrow> rat option" where
  "parse_float s =
     (let neg = (case s of [] \<Rightarrow> False | c # _ \<Rightarrow> c = CHR ''-''); u = (if neg then tl s else s);
          w = takeWhile (\<lambda>c. c \<noteq> CHR ''.'') u; f = tl (dropWhile (\<lambda>c. c \<noteq> CHR ''.'') u)
      in if w @ f = [] \<or> CHR ''.'' \<in> set f then None
         else map_option (\<lambda>n. fl ((if neg then - 1 else 1) * of_nat n / 10 ^ length f)) (parse_digits 0 (w @ f)))"

text \<open>Every failure of the parsing is caught and drops the row: \<open>None\<close>.\<close>

definition parse_candle :: "int \<Rightarrow> string \<Rightarrow> int option \<Rightarrow> string list \<Rightarrow> stored_candle option" where
  "parse_candle i tf cutoff row =
     (if length row < 7 then None
      else case parse_int (row ! 0) of None \<Rightarrow> None
      | Some ms \<Rightarrow>
          (let open_time = ms * 1000; close_time = open_time + timeframe_to_minutes tf * minute
           in if (case cutoff of None \<Rightarrow> False | Some c \<Rightarrow> close_time > c) then None
              else case map parse_float (take 5 (tl row)) of
                     [Some op, Some hi, Some lo, Some cl, Some vo] \<Rightarrow>
                       (case (if row ! 6 = [] then Some None else map_option Some (parse_float (row ! 6))) of
                          None \<Rightarrow> None
                        | Some turnover \<Rightarrow>
                            (let c = \<lparr>sd_instrument = i, sd_timeframe = tf, sd_open_time = open_time, sd_close_time = close_time,
                                      sd_open = op, sd_high = hi, sd_low = lo, sd_close = cl, sd_volume = vo, sd_turnover = turnover\<rparr>
                             in if candle_valid c then Some c else None))
                   | _ \<Rightarrow> None))"

section \<open>Batches\<close>

text \<open>The exchange: start and end in milliseconds and the row limit to a return code and rows, or nothing
  when the request raised.\<close>

type_synonym exchange_api = "int \<Rightarrow> int \<Rightarrow> int \<Rightarrow> (int \<times> string list list) option"

definition to_millis :: "int \<Rightarrow> int" where
  "to_millis t = py_int (fmul (fdiv (of_int t) 1000000) 1000)"

definition batch_limit :: "string \<Rightarrow> int \<Rightarrow> int option" where
  "batch_limit tf d = map_option (\<lambda>n. min 200 (py_int (fdiv (minutes_of d) (of_int n)) + 1)) (parse_int tf)"

definition fetch_batch :: "exchange_api \<Rightarrow> string \<Rightarrow> int \<Rightarrow> int \<Rightarrow> string list list option" where
  "fetch_batch api tf a b =
     (case batch_limit tf (b - a) of None \<Rightarrow> None
      | Some limit \<Rightarrow>
          (case api (to_millis a) (to_millis b) limit of None \<Rightarrow> None
           | Some (code, rows) \<Rightarrow> if code \<noteq> 0 then None else Some rows))"

definition BATCH :: int where
  "BATCH = 8 * hour"

function sync_loop ::
  "exchange_api \<Rightarrow> int \<Rightarrow> string \<Rightarrow> int option \<Rightarrow> int \<Rightarrow> int \<Rightarrow> stored_candle list \<times> (int \<times> int) list" where
  "sync_loop api i tf cutoff a b =
     (if a < b
      then let e = min (a + BATCH) b
           in case sync_loop api i tf cutoff e b of (cs, failed) \<Rightarrow>
                (case fetch_batch api tf a e of
                   None \<Rightarrow> (cs, (a, e) # failed)
                 | Some rows \<Rightarrow> (List.map_filter (parse_candle i tf cutoff) rows @ cs, failed))
      else ([], []))"
  by auto
termination
  by (relation "measure (\<lambda>(api, i, tf, cutoff, a, b). nat (b - a))") (auto simp: BATCH_def hour_def)

declare sync_loop.simps [simp del]

section \<open>The table of candles\<close>

type_synonym candle_id = "int \<times> string \<times> int"

type_synonym candle_table = "candle_id \<rightharpoonup> stored_candle"

definition candle_key :: "stored_candle \<Rightarrow> candle_id" where
  "candle_key c = (sd_instrument c, sd_timeframe c, sd_open_time c)"

text \<open>What the database does with one candle: the lookup raises, the upsert takes effect and is confirmed, it takes
  effect but its answer is lost, or it does not take effect.\<close>

datatype store_reply = LookupRaises | Confirmed | AnswerLost | Refused

text \<open>The upsert: whether it was confirmed, and the table.\<close>

definition insert_candle :: "store_reply \<Rightarrow> stored_candle \<Rightarrow> candle_table \<Rightarrow> bool \<times> candle_table" where
  "insert_candle reply c db =
     (reply = Confirmed, if reply \<in> {Confirmed, AnswerLost} then db(candle_key c \<mapsto> c) else db)"

text \<open>The table and the number of candles written so far; the \<open>n\<close>-th candle gets the \<open>n\<close>-th reply.\<close>

record candle_db =
  cd_table :: candle_table
  cd_writes :: nat

definition count_candle :: "bool \<Rightarrow> bool \<Rightarrow> nat \<times> nat \<times> nat \<Rightarrow> nat \<times> nat \<times> nat" where
  "count_candle ok exists k =
     (case k of (ins, upd, rej) \<Rightarrow> if \<not> ok then (ins, upd, rej + 1) else if exists then (ins, upd + 1, rej) else (ins + 1, upd, rej))"

fun insert_loop ::
  "(nat \<Rightarrow> store_reply) \<Rightarrow> stored_candle list \<Rightarrow> nat \<times> nat \<times> nat \<Rightarrow> candle_db \<Rightarrow> (nat \<times> nat \<times> nat) \<times> candle_db" where
  "insert_loop replies [] k db = (k, db)"
| "insert_loop replies (c # cs) k db =
     (let reply = replies (cd_writes db); db' = db\<lparr>cd_writes := cd_writes db + 1\<rparr> in
      if reply = LookupRaises then insert_loop replies cs (count_candle False False k) db'
      else case insert_candle reply c (cd_table db) of
        (ok, table) \<Rightarrow> insert_loop replies cs (count_candle ok (cd_table db (candle_key c) \<noteq> None) k) (db'\<lparr>cd_table := table\<rparr>))"

text \<open>The numbers of inserted, updated and rejected candles, and the database.\<close>

definition insert_candles_batch ::
  "(nat \<Rightarrow> store_reply) \<Rightarrow> stored_candle list \<Rightarrow> candle_db \<Rightarrow> (nat \<times> nat \<times> nat) \<times> candle_db" where
  "insert_candles_batch replies cs db = insert_loop replies cs (0, 0, 0) db"

definition clamp :: "int option \<Rightarrow> int \<Rightarrow> int" where
  "clamp cutoff b = (case cutoff of None \<Rightarrow> b | Some c \<Rightarrow> if b > c then c else b)"

definition fetch_and_store ::
  "exchange_api \<Rightarrow> (nat \<Rightarrow> store_reply) \<Rightarrow> int \<Rightarrow> string \<Rightarrow> int option \<Rightarrow> int \<Rightarrow> int \<Rightarrow> candle_db \<Rightarrow>
   (nat \<times> nat \<times> nat \<times> (int \<times> int) list) \<times> candle_db" where
  "fetch_and_store api replies i tf cutoff a b db =
     (let b' = clamp cutoff b
      in if a \<ge> b' then ((0, 0, 0, []), db)
         else case sync_loop api i tf cutoff a b' of (cs, failed) \<Rightarrow>
           if cs \<noteq> [] then
             (case insert_candles_batch replies cs db of ((ins, upd, rej), db') \<Rightarrow> ((ins, upd, rej, failed), db'))
           else ((0, 0, 0, failed), db))"

section \<open>Coverage\<close>

definition candle_length :: "string \<Rightarrow> int" where
  "candle_length tf = timeframe_to_minutes tf * minute"

lemma minutes_positive: "0 < timeframe_to_minutes tf"
proof -
  have "list_all (\<lambda>(k, v). 0 < v) TIMEFRAME_MINUTES" by (simp add: TIMEFRAME_MINUTES_def)
  then show ?thesis
    by (auto simp: timeframe_to_minutes_def dget_or_def list_all_iff dest!: map_of_SomeD split: option.split)
qed

text \<open>The end of the scan: the whole minutes of the day rounded up to the candle length, the seconds ignored.\<close>

definition scan_end :: "int \<Rightarrow> string \<Rightarrow> int" where
  "scan_end t tf =
     (let m = timeframe_to_minutes tf; start = t - t mod day; total = (t mod day) div minute
      in if m \<ge> 1440 then start + m * minute else start + ((total + m - 1) div m) * m * minute)"

text \<open>The loop over the slots, with the gap that is open, if any.\<close>

function scan_slots :: "(int \<Rightarrow> bool) \<Rightarrow> string \<Rightarrow> int \<Rightarrow> int \<Rightarrow> (int \<times> int) option \<Rightarrow> (int \<times> int) list" where
  "scan_slots exists tf t stop gap =
     (if t < stop then
        let nxt = t + candle_length tf in
        if \<not> exists t then scan_slots exists tf nxt stop (Some (case gap of None \<Rightarrow> t | Some (g, e) \<Rightarrow> g, nxt))
        else case gap of
          None \<Rightarrow> scan_slots exists tf nxt stop None
        | Some ge \<Rightarrow> ge # scan_slots exists tf nxt stop None
      else case gap of None \<Rightarrow> [] | Some ge \<Rightarrow> [ge])"
  by auto
termination
  by (relation "measure (\<lambda>(exists, tf, t, stop, gap). nat (stop - t))")
    (use minutes_positive in \<open>auto simp: candle_length_def minute_def Let_def\<close>)

declare scan_slots.simps [simp del]

definition check_candle_coverage :: "candle_table \<Rightarrow> int \<Rightarrow> string \<Rightarrow> int \<Rightarrow> int \<Rightarrow> (int \<times> int) list" where
  "check_candle_coverage table i tf a b =
     scan_slots (\<lambda>t. table (i, tf, t) \<noteq> None) tf (align_to_grid a tf) (scan_end b tf) None"

section \<open>Reconciliation\<close>

definition sync_merge_ranges :: "span list \<Rightarrow> span list" where
  "sync_merge_ranges = merge_spans"

definition coalesce_gaps :: "span list \<Rightarrow> span list" where
  "coalesce_gaps = merge_spans"

definition gaps_of :: "candle_table \<Rightarrow> int \<Rightarrow> string \<Rightarrow> span \<Rightarrow> span list" where
  "gaps_of table i tf r =
     map (\<lambda>(a, b). \<lparr>sp_instrument = i, sp_timeframe = tf, sp_from = a, sp_to = b\<rparr>)
       (check_candle_coverage table i tf (sp_from r) (sp_to r))"

text \<open>The gaps of the required ranges; \<open>answers n\<close> says whether the \<open>n\<close>-th query answers, otherwise it raises.\<close>

definition raw_gaps :: "(nat \<Rightarrow> bool) \<Rightarrow> candle_table \<Rightarrow> int \<Rightarrow> string \<Rightarrow> span list \<Rightarrow> span list option" where
  "raw_gaps answers table i tf required =
     (let merged = sync_merge_ranges required in
      if list_all answers [0..<length merged] then Some (concat (map (gaps_of table i tf) merged)) else None)"

fun store_gaps ::
  "exchange_api \<Rightarrow> (nat \<Rightarrow> store_reply) \<Rightarrow> int \<Rightarrow> string \<Rightarrow> int option \<Rightarrow> span list \<Rightarrow> candle_db \<Rightarrow>
   (nat \<times> nat \<times> nat \<times> (int \<times> int) list) \<times> candle_db" where
  "store_gaps api replies i tf cutoff [] db = ((0, 0, 0, []), db)"
| "store_gaps api replies i tf cutoff (g # gs) db =
     (case fetch_and_store api replies i tf cutoff (sp_from g) (sp_to g) db of
        ((n1, u1, r1, f1), db1) \<Rightarrow>
          (case store_gaps api replies i tf cutoff gs db1 of
             ((n2, u2, r2, f2), db2) \<Rightarrow> ((n1 + n2, u1 + u2, r1 + r2, f1 @ f2), db2)))"

text \<open>\<open>None\<close>: a coverage query raised; then nothing is downloaded.\<close>

definition reconcile_candles ::
  "exchange_api \<Rightarrow> (nat \<Rightarrow> store_reply) \<Rightarrow> (nat \<Rightarrow> bool) \<Rightarrow> int \<Rightarrow> string \<Rightarrow> int option \<Rightarrow> span list \<Rightarrow> candle_db \<Rightarrow>
   ((span list \<times> nat \<times> nat \<times> nat \<times> (int \<times> int) list) \<times> candle_db) option" where
  "reconcile_candles api replies answers i tf cutoff required db =
     (case raw_gaps answers (cd_table db) i tf required of
        None \<Rightarrow> None
      | Some raw \<Rightarrow>
          let gaps = coalesce_gaps raw
          in case store_gaps api replies i tf cutoff gaps db of ((n, u, r, f), db') \<Rightarrow> Some ((gaps, n, u, r, f), db'))"

text \<open>\<open>None\<close>: the query raised.\<close>

definition check_post_exit_coverage :: "bool \<Rightarrow> candle_table \<Rightarrow> int \<Rightarrow> string \<Rightarrow> int \<Rightarrow> int \<Rightarrow> bool option" where
  "check_post_exit_coverage answers table i tf exit_time horizon =
     (if answers then Some (length (check_candle_coverage table i tf exit_time (exit_time + horizon)) = 0) else None)"

section \<open>The grid\<close>

lemma intraday_divides: "timeframe_to_minutes tf < 1440 \<Longrightarrow> timeframe_to_minutes tf dvd 1440"
proof -
  have "list_all (\<lambda>(k, v). v < 1440 \<longrightarrow> v dvd 1440) TIMEFRAME_MINUTES" by (simp add: TIMEFRAME_MINUTES_def)
  then show "timeframe_to_minutes tf < 1440 \<Longrightarrow> timeframe_to_minutes tf dvd 1440"
    by (auto simp: timeframe_to_minutes_def dget_or_def list_all_iff dest!: map_of_SomeD split: option.splits)
qed

text \<open>On the time line the alignment is the division by the length of the candle (a day at most).\<close>

definition grid :: "string \<Rightarrow> int" where
  "grid tf = min (timeframe_to_minutes tf) 1440 * minute"

lemma align_is_floor: "align_to_grid t tf = t - t mod grid tf"
proof (cases "timeframe_to_minutes tf \<ge> 1440")
  case True
  then show ?thesis by (simp add: align_to_grid_def grid_def Let_def day_def minute_def)
next
  case False
  let ?m = "timeframe_to_minutes tf"
  have "?m dvd 1440" using intraday_divides [of tf] False by simp
  then obtain k where k: "1440 = ?m * k" by (elim dvdE)
  have m: "0 < ?m" "0 < minute" by (simp_all add: minutes_positive minute_def)
  have g: "grid tf = ?m * minute" using False by (simp add: grid_def)
  have "day = 1440 * minute" by (simp add: day_def minute_def)
  then have d: "day = ?m * minute * k" using k by (metis mult.assoc mult.commute)
  have dv: "?m * minute dvd day" unfolding d by (rule dvd_triv_left)
  have "(t mod day) div minute div ?m * ?m * minute = (t mod day) div (?m * minute) * (?m * minute)"
    using zdiv_zmult2_eq [of ?m "t mod day" minute] m by (simp add: ac_simps)
  also have "\<dots> = t mod day - (t mod day) mod (?m * minute)" by (simp add: minus_mod_eq_div_mult)
  also have "\<dots> = t mod day - t mod (?m * minute)" using dv by (simp add: mod_mod_cancel)
  finally show ?thesis using False by (simp add: align_to_grid_def Let_def g)
qed

text \<open>Alignment is a floor onto the candle grid: it never moves a time forward, moves it back by less than
  one candle (less than a day for the day, week and month frames), lands on the grid, keeps the order of
  times and changes nothing the second time.\<close>

theorem align_floor:
  "align_to_grid t tf \<le> t \<and> t - align_to_grid t tf < grid tf \<and> align_to_grid t tf mod grid tf = 0 \<and>
    align_to_grid (align_to_grid t tf) tf = align_to_grid t tf"
proof -
  have g: "0 < grid tf" using minutes_positive [of tf] by (simp add: grid_def minute_def)
  have z: "(t - t mod grid tf) mod grid tf = 0" by (simp add: minus_mod_eq_mult_div)
  show ?thesis using g z by (simp add: align_is_floor pos_mod_bound pos_mod_sign)
qed

section \<open>Downloads\<close>

text \<open>The windows of the requests for a range.\<close>

function windows :: "int \<Rightarrow> int \<Rightarrow> (int \<times> int) list" where
  "windows a b = (if a < b then (a, min (a + BATCH) b) # windows (min (a + BATCH) b) b else [])"
  by auto
termination by (relation "measure (\<lambda>(a, b). nat (b - a))") (auto simp: BATCH_def hour_def)

declare windows.simps [simp del]

lemma sync_loop_windows:
  "fst (sync_loop api i tf cutoff a b) =
     concat (map (\<lambda>(x, y). case fetch_batch api tf x y of None \<Rightarrow> [] | Some rows \<Rightarrow> List.map_filter (parse_candle i tf cutoff) rows)
       (windows a b)) \<and>
   snd (sync_loop api i tf cutoff a b) = filter (\<lambda>(x, y). fetch_batch api tf x y = None) (windows a b)"
proof (induction api i tf cutoff a b rule: sync_loop.induct)
  case (1 api i tf cutoff a b)
  then show ?case
    by (subst (1 2) sync_loop.simps, subst (1 2) windows.simps) (auto simp: Let_def split: option.split prod.split)
qed

lemma windows_cover: "(\<Union>(x, y)\<in>set (windows a b). {x ..< y}) = {a ..< b}"
proof (induction a b rule: windows.induct)
  case (1 a b)
  show ?case
  proof (cases "a < b")
    case True
    have B: "0 < BATCH" by (simp add: BATCH_def hour_def)
    have w: "windows a b = (a, min (a + BATCH) b) # windows (min (a + BATCH) b) b" using True by (subst windows.simps) simp
    have "(\<Union>(x, y)\<in>set (windows a b). {x ..< y}) = {a ..< min (a + BATCH) b} \<union> {min (a + BATCH) b ..< b}"
      using 1 [OF True] by (simp add: w)
    also have "\<dots> = {a ..< b}" using True B by (intro ivl_disj_un_two) simp_all
    finally show ?thesis .
  next
    case False
    then show ?thesis by (subst windows.simps) simp
  qed
qed

lemma windows_bounds: "(x, y) \<in> set (windows a b) \<Longrightarrow> a \<le> x \<and> x < y \<and> y \<le> b \<and> y - x \<le> BATCH"
proof (induction a b rule: windows.induct)
  case (1 a b)
  have "0 < BATCH" by (simp add: BATCH_def hour_def)
  with 1 show ?case by (subst (asm) (2) windows.simps) (auto split: if_splits)
qed

lemma parsed_valid:
  "parse_candle i tf cutoff row = Some c \<Longrightarrow> candle_valid c \<and> (case cutoff of None \<Rightarrow> True | Some k \<Rightarrow> sd_close_time c \<le> k) \<and>
    sd_close_time c = sd_open_time c + timeframe_to_minutes tf * minute"
  by (auto simp: parse_candle_def Let_def split: if_splits option.splits list.splits)

definition settled :: "string \<Rightarrow> int option \<Rightarrow> stored_candle \<Rightarrow> bool" where
  "settled tf cutoff c \<longleftrightarrow> candle_valid c \<and> sd_close_time c = sd_open_time c + timeframe_to_minutes tf * minute \<and>
     (case cutoff of None \<Rightarrow> True | Some k \<Rightarrow> sd_close_time c \<le> k)"

lemma sync_loop_settled: "list_all (settled tf cutoff) (fst (sync_loop api i tf cutoff a b))"
proof -
  have "settled tf cutoff c" if "c \<in> set (List.map_filter (parse_candle i tf cutoff) rows)" for c rows
  proof -
    obtain row where "parse_candle i tf cutoff row = Some c" using \<open>c \<in> _\<close> by (auto simp: List.map_filter_def)
    from parsed_valid [OF this] show ?thesis by (simp add: settled_def)
  qed
  then show ?thesis by (auto simp: sync_loop_windows list_all_iff split: option.splits)
qed

section \<open>What is written\<close>

text \<open>A property of the stored candles that every candle of a batch has.\<close>

definition table_all :: "(stored_candle \<Rightarrow> bool) \<Rightarrow> candle_table \<Rightarrow> bool" where
  "table_all P table \<longleftrightarrow> (\<forall>k c. table k = Some c \<longrightarrow> P c)"

lemma insert_candle_all: "table_all P table \<Longrightarrow> P c \<Longrightarrow> table_all P (snd (insert_candle reply c table))"
  by (auto simp: table_all_def insert_candle_def split: if_splits)

lemma insert_loop_all:
  "table_all P (cd_table db) \<Longrightarrow> list_all P cs \<Longrightarrow> table_all P (cd_table (snd (insert_loop replies cs k db)))"
proof (induction cs arbitrary: k db)
  case (Cons c cs)
  show ?case using Cons.prems insert_candle_all [OF Cons.prems(1), of c "replies (cd_writes db)"]
    by (auto simp: Let_def split: prod.split intro!: Cons.IH)
qed simp

lemma fetch_and_store_all:
  assumes "table_all P (cd_table db)" "list_all P (fst (sync_loop api i tf cutoff a (clamp cutoff b)))"
  shows "table_all P (cd_table (snd (fetch_and_store api replies i tf cutoff a b db)))"
proof (cases "sync_loop api i tf cutoff a (clamp cutoff b)")
  case (Pair cs failed)
  have "table_all P (cd_table (snd (insert_candles_batch replies cs db)))"
    unfolding insert_candles_batch_def using assms Pair by (intro insert_loop_all) simp_all
  then show ?thesis using assms(1) by (auto simp: fetch_and_store_def Pair Let_def split: prod.split)
qed

lemma store_gaps_all:
  assumes "\<And>a b. list_all P (fst (sync_loop api i tf cutoff a b))"
  shows "table_all P (cd_table db) \<Longrightarrow> table_all P (cd_table (snd (store_gaps api replies i tf cutoff gs db)))"
proof (induction gs arbitrary: db)
  case (Cons g gs)
  note fetch_and_store_all [OF Cons.prems assms, where a = "sp_from g" and b = "sp_to g" and replies = replies]
  from Cons.IH [OF this] show ?case by (simp add: split_beta)
qed simp

text \<open>Nothing unfinished is stored: whatever the exchange and the database answer, every candle that a
  reconciliation of an empty table writes is well formed (positive prices, the high and low around the
  open and close), as long as its timeframe and closed at the observation cutoff.\<close>

theorem reconciled_candles_closed:
  "case reconcile_candles api replies answers i tf cutoff required \<lparr>cd_table = (\<lambda>k. None), cd_writes = 0\<rparr> of
     None \<Rightarrow> True | Some (out, db') \<Rightarrow> table_all (settled tf cutoff) (cd_table db')"
proof -
  have "table_all (settled tf cutoff) (cd_table (snd (store_gaps api replies i tf cutoff gs \<lparr>cd_table = (\<lambda>k. None), cd_writes = 0\<rparr>)))" for gs
    by (rule store_gaps_all) (simp_all add: sync_loop_settled table_all_def)
  then show ?thesis by (auto simp: reconcile_candles_def Let_def split_beta split: option.split)
qed

section \<open>Candles that are not stored are rejected\<close>

text \<open>The one candle of every key that the exchange has, and the keys of a list for which the table holds
  something else.\<close>

definition agrees :: "(candle_id \<Rightarrow> stored_candle) \<Rightarrow> stored_candle list \<Rightarrow> bool" where
  "agrees f cs \<longleftrightarrow> list_all (\<lambda>c. f (candle_key c) = c) cs"

definition absent :: "(candle_id \<Rightarrow> stored_candle) \<Rightarrow> candle_id set \<Rightarrow> candle_table \<Rightarrow> candle_id set" where
  "absent f K table = {k \<in> K. table k \<noteq> Some (f k)}"

definition rejected :: "nat \<times> nat \<times> nat \<Rightarrow> nat" where
  "rejected k = snd (snd k)"

lemma count_rejected [simp]: "rejected (count_candle ok exists k) = rejected k + (if ok then 0 else 1)"
  by (simp add: rejected_def count_candle_def split: prod.split)

lemma card_insert_le_Suc: "card (insert x A) \<le> card A + 1"
  by (cases "finite A") (simp_all add: card_insert_if)

lemma insert_loop_absent:
  "agrees f cs \<Longrightarrow> finite K \<Longrightarrow>
    case insert_loop replies cs k db of (k', db') \<Rightarrow>
      rejected k \<le> rejected k' \<and> absent f K (cd_table db') \<subseteq> absent f K (cd_table db) \<and>
      card (absent f (candle_key ` set cs) (cd_table db')) + rejected k \<le> rejected k'"
proof (induction cs arbitrary: k db K)
  case Nil
  then show ?case by (simp add: absent_def)
next
  case (Cons c cs)
  let ?r = "replies (cd_writes db)" and ?q = "candle_key c"
  have a: "agrees f cs" "f ?q = c" using Cons.prems(1) by (simp_all add: agrees_def)
  define table where "table = (if ?r \<in> {Confirmed, AnswerLost} then (cd_table db)(?q \<mapsto> c) else cd_table db)"
  define k1 where "k1 = count_candle (?r = Confirmed) (?r \<noteq> LookupRaises \<and> cd_table db ?q \<noteq> None) k"
  define db1 where "db1 = db\<lparr>cd_writes := cd_writes db + 1, cd_table := table\<rparr>"
  have l: "insert_loop replies (c # cs) k db = insert_loop replies cs k1 db1"
    by (cases ?r) (simp_all add: Let_def insert_candle_def table_def k1_def db1_def)
  obtain k' db' where r: "insert_loop replies cs k1 db1 = (k', db')" by (cases "insert_loop replies cs k1 db1")
  note ih = Cons.IH [OF a(1), where k = k1 and db = db1, unfolded r prod.case]
  have t1: "absent f L (cd_table db1) \<subseteq> absent f L (cd_table db)" for L
    using a(2) by (auto simp: absent_def db1_def table_def)
  have mono: "rejected k1 \<le> rejected k'" "absent f K (cd_table db') \<subseteq> absent f K (cd_table db)"
    using ih [OF Cons.prems(2)] t1 [of K] by auto
  have rk: "rejected k \<le> rejected k1" by (simp add: k1_def)
  let ?A = "absent f (candle_key ` set cs) (cd_table db')"
  have fin: "finite ?A" by (simp add: absent_def)
  have card: "card ?A + rejected k1 \<le> rejected k'" using ih [of K] Cons.prems(2) by blast
  have "card (absent f (candle_key ` set (c # cs)) (cd_table db')) + rejected k \<le> rejected k'"
  proof (cases "?r = Confirmed")
    case True
    have "absent f {?q} (cd_table db1) = {}" using True a(2) by (auto simp: absent_def db1_def table_def)
    then have "absent f {?q} (cd_table db') = {}" using ih [of "{?q}"] by auto
    then have "absent f (candle_key ` set (c # cs)) (cd_table db') = ?A" by (auto simp: absent_def)
    then show ?thesis using card rk by simp
  next
    case False
    have "absent f (candle_key ` set (c # cs)) (cd_table db') \<subseteq> insert ?q ?A" by (auto simp: absent_def)
    from order_trans [OF card_mono [OF finite.insertI [OF fin] this] card_insert_le_Suc]
    have "card (absent f (candle_key ` set (c # cs)) (cd_table db')) \<le> card ?A + 1" .
    moreover have "rejected k1 = rejected k + 1" using False by (simp add: k1_def)
    ultimately show ?thesis using card by simp
  qed
  moreover have "rejected k \<le> rejected k'" using mono(1) rk by simp
  ultimately show ?case unfolding l r prod.case using mono(2) by blast
qed

text \<open>The keys that the windows of a range have parsed.\<close>

definition parsed_keys :: "exchange_api \<Rightarrow> int \<Rightarrow> string \<Rightarrow> int option \<Rightarrow> int \<Rightarrow> int \<Rightarrow> candle_id set" where
  "parsed_keys api i tf cutoff a b = candle_key ` set (fst (sync_loop api i tf cutoff a (clamp cutoff b)))"

lemma empty_range: "\<not> a < b \<Longrightarrow> sync_loop api i tf cutoff a b = ([], [])"
  by (subst sync_loop.simps) simp

lemma fetch_and_store_absent:
  assumes "agrees f (fst (sync_loop api i tf cutoff a (clamp cutoff b)))" "finite K"
  shows "case fetch_and_store api replies i tf cutoff a b db of ((n, u, r, failed), db') \<Rightarrow>
      absent f K (cd_table db') \<subseteq> absent f K (cd_table db) \<and>
      card (absent f (parsed_keys api i tf cutoff a b) (cd_table db')) \<le> r \<and>
      failed = snd (sync_loop api i tf cutoff a (clamp cutoff b))"
proof -
  obtain cs failed where sl: "sync_loop api i tf cutoff a (clamp cutoff b) = (cs, failed)" by (cases "sync_loop api i tf cutoff a (clamp cutoff b)")
  show ?thesis
  proof (cases "a < clamp cutoff b \<and> cs \<noteq> []")
    case True
    obtain n u r db' where b: "insert_loop replies cs (0, 0, 0) db = ((n, u, r), db')" by (metis prod_cases3 surj_pair)
    from insert_loop_absent [OF _ assms(2), where f = f and cs = cs and replies = replies and k = "(0, 0, 0)" and db = db] assms(1) True show ?thesis
      by (simp add: fetch_and_store_def Let_def sl insert_candles_batch_def b parsed_keys_def rejected_def)
  next
    case False
    then have "cs = []" "\<not> a < clamp cutoff b \<Longrightarrow> failed = []" using empty_range [of a "clamp cutoff b" api i tf cutoff] sl by auto
    then show ?thesis by (auto simp: fetch_and_store_def Let_def sl parsed_keys_def absent_def)
  qed
qed

lemma store_gaps_absent:
  assumes "\<And>a b. agrees f (fst (sync_loop api i tf cutoff a b))"
  shows "finite K \<Longrightarrow> case store_gaps api replies i tf cutoff gs db of ((n, u, r, failed), db') \<Rightarrow>
      absent f K (cd_table db') \<subseteq> absent f K (cd_table db) \<and>
      card (absent f (\<Union>g\<in>set gs. parsed_keys api i tf cutoff (sp_from g) (sp_to g)) (cd_table db')) \<le> r \<and>
      set failed = (\<Union>g\<in>set gs. set (snd (sync_loop api i tf cutoff (sp_from g) (clamp cutoff (sp_to g)))))"
proof (induction gs arbitrary: db K)
  case Nil
  then show ?case by (simp add: absent_def)
next
  case (Cons g gs)
  let ?P = "\<lambda>g. parsed_keys api i tf cutoff (sp_from g) (sp_to g)"
  obtain n1 u1 r1 f1 db1 where f: "fetch_and_store api replies i tf cutoff (sp_from g) (sp_to g) db = ((n1, u1, r1, f1), db1)"
    by (metis prod_cases4 surj_pair)
  obtain n2 u2 r2 f2 db2 where s: "store_gaps api replies i tf cutoff gs db1 = ((n2, u2, r2, f2), db2)"
    by (metis prod_cases4 surj_pair)
  note one = fetch_and_store_absent [OF assms, where a = "sp_from g" and b = "sp_to g" and replies = replies and db = db, unfolded f prod.case]
  note rest = Cons.IH [where db = db1, unfolded s prod.case]
  have fin: "finite (?P g)" "finite (\<Union>g\<in>set gs. ?P g)" by (simp_all add: parsed_keys_def)
  have a: "absent f (\<Union>g\<in>set (g # gs). ?P g) (cd_table db2) = absent f (?P g) (cd_table db2) \<union> absent f (\<Union>g\<in>set gs. ?P g) (cd_table db2)"
    by (auto simp: absent_def)
  have fa: "finite (absent f (?P g) (cd_table db1))" using fin(1) by (simp add: absent_def)
  have "card (absent f (?P g) (cd_table db2)) \<le> card (absent f (?P g) (cd_table db1))"
    using rest [OF fin(1)] fa by (intro card_mono) blast+
  then have "card (absent f (?P g) (cd_table db2)) \<le> r1" using one [OF fin(1)] by linarith
  then have "card (absent f (\<Union>g\<in>set (g # gs). ?P g) (cd_table db2)) \<le> r1 + r2"
    unfolding a using rest [OF fin(1)] card_Un_le [of "absent f (?P g) (cd_table db2)" "absent f (\<Union>g\<in>set gs. ?P g) (cd_table db2)"] by linarith
  moreover have "absent f K (cd_table db2) \<subseteq> absent f K (cd_table db)" using one [OF Cons.prems] rest [OF Cons.prems] by blast
  moreover have "set (f1 @ f2) = (\<Union>g\<in>set (g # gs). set (snd (sync_loop api i tf cutoff (sp_from g) (clamp cutoff (sp_to g)))))"
    using one [OF Cons.prems] rest [OF Cons.prems] by auto
  ultimately show ?case by (simp add: f s)
qed

section \<open>The one-minute frame\<close>

text \<open>An exchange that always answers, with at most as many rows as it is asked for.\<close>

definition obedient :: "exchange_api \<Rightarrow> bool" where
  "obedient api \<longleftrightarrow> (\<forall>a b l. (case api a b l of None \<Rightarrow> False | Some (code, rows) \<Rightarrow> code = 0 \<and> length rows \<le> nat l))"

lemma obedientD: "obedient api \<Longrightarrow> case api a b l of None \<Rightarrow> False | Some (code, rows) \<Rightarrow> code = 0 \<and> length rows \<le> nat l"
  by (simp add: obedient_def)

lemma one_minute_limit: "batch_limit ''1'' BATCH = Some 200"
proof -
  have e: "minutes_of BATCH = 480"
    using fl_of_int [of 28800] fl_of_int [of 480] by (simp add: minutes_of_def BATCH_def hour_def fdiv_def)
  have "parse_int ''1'' = Some 1" by code_simp
  moreover have "fdiv 480 (of_int 1) = 480" using fl_of_int [of 480] by (simp add: fdiv_def)
  ultimately show ?thesis by (simp add: batch_limit_def e py_int_def)
qed

lemma map_filter_length: "length (List.map_filter f xs) \<le> length xs"
  by (simp add: List.map_filter_def)

text \<open>A full window of the one-minute frame holds 480 candles, but the request asks for 200: with an exchange
  that answers and keeps to the limit, at most 200 are stored and no failed range is reported.\<close>

theorem one_minute_window_truncated:
  assumes "obedient api"
  shows "length (fst (sync_loop api i ''1'' cutoff a (a + 480 * minute))) \<le> 200 \<and>
    snd (sync_loop api i ''1'' cutoff a (a + 480 * minute)) = []"
proof -
  have B: "480 * minute = BATCH" "0 < BATCH" by (simp_all add: minute_def BATCH_def hour_def)
  have w: "windows a (a + BATCH) = [(a, a + BATCH)]"
    using B by (subst windows.simps, simp, subst windows.simps, simp)
  obtain code rows where r: "api (to_millis a) (to_millis (a + BATCH)) 200 = Some (code, rows)" "code = 0" "length rows \<le> 200"
    using obedientD [OF assms, where a = "to_millis a" and b = "to_millis (a + BATCH)" and l = 200]
    by (cases "api (to_millis a) (to_millis (a + BATCH)) 200") auto
  have f: "fetch_batch api ''1'' a (a + BATCH) = Some rows" using r by (simp add: fetch_batch_def one_minute_limit)
  show ?thesis using r(3) map_filter_length [of "parse_candle i ''1'' cutoff" rows] by (simp add: sync_loop_windows B w f)
qed

theorem one_minute_window_truncated_witness:
  "length (fst (sync_loop (\<lambda>a b l. Some (0, [])) 1 ''1'' None 0 (0 + 480 * minute))) \<le> 200"
proof -
  have "obedient (\<lambda>a b l. Some (0, []))" by (simp add: obedient_def)
  from one_minute_window_truncated [OF this, of 1 None 0] show ?thesis by blast
qed

section \<open>Timeframe texts\<close>

text \<open>Normalising a timeframe changes none of the frames that the minutes are known of, so every reader agrees on
  them; of the rest, one month is read as one minute, and a frame of 45 minutes is accepted although its
  length is unknown and counts as five minutes.\<close>

theorem canonical_timeframes:
  "list_all (\<lambda>(tf, m). normalize_timeframe tf = Some tf \<and> timeframe_to_minutes tf = m) TIMEFRAME_MINUTES \<and>
   normalize_timeframe ''1M'' = Some ''1'' \<and> normalize_timeframe ''45m'' = Some ''45'' \<and> timeframe_to_minutes ''45'' = 5"
  by code_simp

end
