(* ===== verification/CandleBackfill.thy ===== *)
theory CandleBackfill
  imports CandleSync
begin

text \<open>
  What a reconciliation of candles achieves, from the required ranges to the table: every missing candle is
  seen by the coverage function of the database, requested in one of the windows, and stored, rejected or
  part of a failed range. The exchange is any that keeps to its documented answers. Floating-point
  times and limits are those of the program.
\<close>

section \<open>The download brings every candle of the history\<close>

lemma py_int_mono:
  assumes "x \<le> y"
  shows "py_int x \<le> py_int y"
proof (cases "x < 0 \<and> 0 \<le> y")
  case True
  then have "ceiling x \<le> 0" "0 \<le> floor y" by (simp_all add: ceiling_le_iff)
  moreover have "py_int x = ceiling x" "py_int y = floor y" using True by (simp_all add: py_int_def)
  ultimately show ?thesis by linarith
next
  case False
  then show ?thesis using assms by (auto simp: py_int_def floor_mono ceiling_mono)
qed

lemma py_int_of_int [simp]: "py_int (of_int k) = k"
  by (simp add: py_int_def)

lemma py_int_le: "of_int k \<le> x \<Longrightarrow> k \<le> py_int x"
  using py_int_mono [of "of_int k" x] by simp

lemma py_int_less:
  assumes "x < of_int k" "0 < k"
  shows "py_int x < k"
proof (cases "0 \<le> x")
  case True
  then show ?thesis using assms(1) by (simp add: py_int_def floor_less_iff)
next
  case False
  then have "ceiling x \<le> 0" by (simp add: ceiling_le_iff)
  moreover have "py_int x = ceiling x" using False by (simp add: py_int_def)
  ultimately show ?thesis using assms(2) by linarith
qed

lemma to_millis_mono: "x \<le> y \<Longrightarrow> to_millis x \<le> to_millis y"
proof -
  assume "x \<le> y"
  then have "fl (of_int x / 1000000) \<le> fl (of_int y / 1000000)" by (intro fl_mono) simp
  then have "fl (fl (of_int x / 1000000) * 1000) \<le> fl (fl (of_int y / 1000000) * 1000)" by (intro fl_mono) simp
  then show ?thesis by (simp add: to_millis_def fmul_def fdiv_def py_int_mono)
qed

lemma to_millis_second:
  assumes "0 < s" "s \<le> 5000000000"
  shows "to_millis (s * 1000000) = s * 1000"
proof -
  have s: "fl (of_int s) = of_int s" using assms by (intro fl_of_int) simp
  have m: "fl (of_int s * 1000) = of_int (s * 1000)" using fl_of_int [of "s * 1000"] assms by simp
  have "(of_int (s * 1000000) :: rat) / 1000000 = of_int s" by simp
  then show ?thesis unfolding to_millis_def fmul_def fdiv_def by (simp only: s m py_int_of_int)
qed

text \<open>A time before a whole second is not rounded up to it.\<close>

lemma to_millis_before:
  assumes "0 < s" "s \<le> 4000000000" "y < s * 1000000"
  shows "to_millis y < s * 1000"
proof -
  have "(of_int y :: rat) \<le> of_int (s * 1000000 - 1)" using assms(3) by (simp only: of_int_le_iff)
  then have "(of_int y :: rat) / 1000000 \<le> of_int (s * 2 ^ 20 - 1) / 2 ^ 20" by (simp add: field_simps)
  then have "fl (of_int y / 1000000) \<le> fl (of_int (s * 2 ^ 20 - 1) / 2 ^ 20)" by (rule fl_mono)
  also have "\<dots> = of_int (s * 2 ^ 20 - 1) / 2 ^ 20" using assms by (intro fl_dyadic) simp_all
  finally have "fl (of_int y / 1000000) * 1000 \<le> of_int (s * 1000 * 2 ^ 11 - 1) / 2 ^ 11" by (simp add: field_simps)
  then have "fl (fl (of_int y / 1000000) * 1000) \<le> fl (of_int (s * 1000 * 2 ^ 11 - 1) / 2 ^ 11)" by (rule fl_mono)
  also have "\<dots> = of_int (s * 1000 * 2 ^ 11 - 1) / 2 ^ 11" using assms by (intro fl_dyadic) simp_all
  finally have "fl (fl (of_int y / 1000000) * 1000) < of_int (s * 1000)" by (simp add: field_simps)
  then show ?thesis unfolding to_millis_def fmul_def fdiv_def using assms(1) by (intro py_int_less) simp_all
qed

text \<open>What the exchange documents: the candles of its history whose opening time lies between start and end, both
  included, at most as many as asked for. A candle opens on the grid of its frame, once.\<close>

definition row_open :: "string list \<Rightarrow> int option" where
  "row_open row = (case row of [] \<Rightarrow> None | t # ts \<Rightarrow> parse_int t)"

definition opens_between :: "int \<Rightarrow> int \<Rightarrow> string list \<Rightarrow> bool" where
  "opens_between a b row \<longleftrightarrow> (case row_open row of None \<Rightarrow> False | Some ms \<Rightarrow> a \<le> ms \<and> ms \<le> b)"

definition sound_history :: "string \<Rightarrow> string list list \<Rightarrow> bool" where
  "sound_history tf hist \<longleftrightarrow> distinct (map row_open hist) \<and>
     list_all (\<lambda>row. case row_open row of None \<Rightarrow> False
       | Some ms \<Rightarrow> 0 < ms \<and> ms \<le> 4000000000000 \<and> ms * 1000 mod candle_length tf = 0) hist"

definition serves :: "string \<Rightarrow> string list list \<Rightarrow> exchange_api \<Rightarrow> bool" where
  "serves tf hist api \<longleftrightarrow> sound_history tf hist \<and>
     (\<forall>a b l rows. api a b l = Some (0, rows) \<longrightarrow> rows = take (nat l) (filter (opens_between a b) hist))"

text \<open>The frames that are counted in minutes and whose batches fit into one request.\<close>

definition BATCHED_TIMEFRAMES :: "string list" where
  "BATCHED_TIMEFRAMES = [''3'', ''5'', ''15'', ''30'', ''60'', ''120'', ''240'', ''360'', ''720'']"

lemma batched_minutes:
  assumes "tf \<in> set BATCHED_TIMEFRAMES"
  shows "parse_int tf = Some (timeframe_to_minutes tf)" "3 \<le> timeframe_to_minutes tf" "timeframe_to_minutes tf < 1440"
proof -
  have "list_all (\<lambda>tf. parse_int tf = Some (timeframe_to_minutes tf) \<and> 3 \<le> timeframe_to_minutes tf \<and> timeframe_to_minutes tf < 1440)
      BATCHED_TIMEFRAMES" by code_simp
  then show "parse_int tf = Some (timeframe_to_minutes tf)" "3 \<le> timeframe_to_minutes tf" "timeframe_to_minutes tf < 1440"
    using assms by (auto simp: list_all_iff)
qed

lemma batch_limit_enough:
  assumes "tf \<in> set BATCHED_TIMEFRAMES" "0 \<le> d" "d \<le> BATCH"
  obtains l where "batch_limit tf d = Some l" "d div candle_length tf + 1 \<le> l"
proof -
  let ?m = "timeframe_to_minutes tf" and ?k = "d div candle_length tf"
  note m = batched_minutes [OF assms(1)]
  have T: "0 < candle_length tf" using m(2) by (simp add: candle_length_def minute_def)
  have kT: "?k * candle_length tf \<le> d" using T by (simp add: minus_mod_eq_div_mult [symmetric])
  have k0: "0 \<le> ?k" using T assms(2) by (simp add: pos_imp_zdiv_nonneg_iff)
  have k: "?k * ?m \<le> 480"
  proof -
    have "?k * ?m * minute \<le> d" using kT by (simp only: candle_length_def mult.assoc)
    also have "\<dots> \<le> 480 * minute" using assms(3) by (simp add: BATCH_def hour_def minute_def)
    finally have "?k * ?m * minute \<le> 480 * minute" .
    then show ?thesis by (simp only: minute_def mult_le_cancel_right_pos)
  qed
  then have k160: "?k \<le> 160" using mult_left_mono [OF m(2) k0] by simp
  have e: "fl (of_int n) = of_int n" if "\<bar>n\<bar> \<le> 28800" for n using that by (intro fl_of_int) simp
  define n where "n = ?k * ?m"
  have n: "0 \<le> n" "n \<le> 480" using k0 m(2) k by (simp_all add: n_def)
  have "n * 60 * 1000000 \<le> d" using kT by (simp only: n_def candle_length_def minute_def mult.assoc)
  then have "(of_int (n * 60 * 1000000) :: rat) \<le> of_int d" by (simp only: of_int_le_iff)
  then have "fl (of_int (n * 60)) \<le> fl (of_int d / 1000000)" by (intro fl_mono) simp
  moreover have "fl (of_int (n * 60)) = of_int (n * 60)" using n by (intro e) simp
  ultimately have "fl (of_int n) \<le> fl (fl (of_int d / 1000000) / 60)" by (intro fl_mono) simp
  moreover have "fl (of_int n) = of_int n" using n by (intro e) simp
  ultimately have mins: "of_int (?k * ?m) \<le> minutes_of d" unfolding n_def [symmetric] by (simp add: minutes_of_def fdiv_def)
  have "fl (of_int ?k) \<le> fl (minutes_of d / of_int ?m)" using mins m(2) by (intro fl_mono) (simp add: field_simps)
  then have "of_int ?k \<le> fdiv (minutes_of d) (of_int ?m)" using e [of ?k] k0 k160 by (simp add: fdiv_def)
  then have "?k \<le> py_int (fdiv (minutes_of d) (of_int ?m))" by (rule py_int_le)
  then show thesis using k160 m(1) by (intro that [of "min 200 (py_int (fdiv (minutes_of d) (of_int ?m)) + 1)"]) (simp_all add: batch_limit_def)
qed

text \<open>At most one multiple of the candle length per candle length.\<close>

lemma grid_points:
  fixes T x y :: int
  assumes "finite S" "0 < T" "x \<le> y" "\<And>o'. o' \<in> S \<Longrightarrow> x \<le> o' \<and> o' \<le> y \<and> o' mod T = 0"
  shows "int (card S) \<le> (y - x) div T + 1"
proof -
  have inj: "inj_on (\<lambda>p. (p - x) div T) S"
  proof (rule inj_onI)
    fix p q assume pq: "p \<in> S" "q \<in> S" "(p - x) div T = (q - x) div T"
    have "(p - x) - (q - x) = (p - x) mod T - (q - x) mod T"
      using div_mult_mod_eq [of "p - x" T] div_mult_mod_eq [of "q - x" T] unfolding pq(3) by linarith
    then have "\<bar>p - q\<bar> < T"
      using pos_mod_bound [OF assms(2), of "p - x"] pos_mod_bound [OF assms(2), of "q - x"]
        pos_mod_sign [OF assms(2), of "p - x"] pos_mod_sign [OF assms(2), of "q - x"] by linarith
    moreover have "T dvd p - q" using pq(1,2) assms(4) by (simp add: dvd_diff mod_eq_0_iff_dvd)
    ultimately show "p = q" using zdvd_imp_le [of T "p - q"] zdvd_imp_le [of T "q - p"]
      by (cases "p - q" "0 :: int" rule: linorder_cases) (auto simp: dvd_diff_commute)
  qed
  have "(\<lambda>p. (p - x) div T) ` S \<subseteq> {0 .. (y - x) div T}"
    using assms(2,4) by (auto simp: pos_imp_zdiv_nonneg_iff intro!: zdiv_mono1)
  then have "card ((\<lambda>p. (p - x) div T) ` S) \<le> card {0 .. (y - x) div T}" by (intro card_mono) simp_all
  then have "card S \<le> nat ((y - x) div T + 1)" by (simp add: card_image [OF inj])
  moreover have "0 \<le> (y - x) div T" using assms(2,3) by (simp add: pos_imp_zdiv_nonneg_iff)
  ultimately show ?thesis by linarith
qed
lemma minute_seconds: "x mod minute = 0 \<Longrightarrow> \<exists>z. x = z * 1000000"
proof -
  assume "x mod minute = 0"
  then have "minute dvd x" by (simp add: mod_eq_0_iff_dvd)
  then have "60 * 1000000 dvd x" by (simp add: minute_def)
  then have "1000000 dvd x" by (rule dvd_trans [rotated]) simp
  then show ?thesis by (metis dvd_div_mult_self)
qed

text \<open>A batch of at most eight hours that starts on a whole minute brings every candle that opens in it.\<close>

lemma fetch_batch_complete:
  assumes "tf \<in> set BATCHED_TIMEFRAMES" "serves tf hist api" "x mod minute = 0" "x < y" "y - x \<le> BATCH"
    and "fetch_batch api tf x y = Some rows" "row \<in> set hist" "row_open row = Some ms" "x \<le> ms * 1000" "ms * 1000 \<le> y"
  shows "row \<in> set rows"
proof -
  let ?T = "candle_length tf" and ?between = "opens_between (to_millis x) (to_millis y)"
  note m = batched_minutes [OF assms(1)]
  have T: "0 < ?T" using m(2) by (simp add: candle_length_def minute_def)
  obtain l where l: "batch_limit tf (y - x) = Some l" "(y - x) div ?T + 1 \<le> l"
    using batch_limit_enough [OF assms(1), of "y - x"] assms(4,5) by auto
  have rows: "rows = take (nat l) (filter ?between hist)"
  proof -
    have "api (to_millis x) (to_millis y) l = Some (0, rows)"
      using assms(6) by (auto simp: fetch_batch_def l(1) split: option.splits prod.splits if_splits)
    then show ?thesis using assms(2) unfolding serves_def by blast
  qed
  have sound: "sound_history tf hist" using assms(2) by (simp add: serves_def)
  have open_of: "\<exists>s. row_open r = Some (s * 1000) \<and> 0 < s \<and> s \<le> 4000000000 \<and> s * 1000000 mod ?T = 0" if "r \<in> set hist" for r
  proof -
    have "case row_open r of None \<Rightarrow> False | Some ms \<Rightarrow> 0 < ms \<and> ms \<le> 4000000000000 \<and> ms * 1000 mod ?T = 0"
      using sound that unfolding sound_history_def list_all_iff by blast
    then obtain n where n: "row_open r = Some n" "0 < n" "n \<le> 4000000000000" "n * 1000 mod ?T = 0"
      by (cases "row_open r") simp_all
    have "?T dvd n * 1000" using n(4) by (simp add: mod_eq_0_iff_dvd)
    moreover have "1000000 dvd ?T" by (simp add: candle_length_def minute_def)
    ultimately have "1000000 dvd n * 1000" by (metis dvd_trans)
    then have "1000 dvd n" using dvd_mult_cancel_right [of 1000 1000 n] by simp
    then obtain s where "n = s * 1000" by (metis dvd_div_mult_self)
    then show ?thesis using n by (intro exI [of _ s]) (auto simp: mod_eq_0_iff_dvd ac_simps)
  qed
  have window: "x \<le> n * 1000 \<and> n * 1000 \<le> y" if r: "r \<in> set hist" "?between r" "row_open r = Some n" for r n
  proof -
    obtain s where s: "n = s * 1000" "0 < s" "s \<le> 4000000000" using open_of [OF r(1)] r(3) by auto
    have b: "to_millis x \<le> s * 1000" "s * 1000 \<le> to_millis y" using r(2,3) s(1) by (simp_all add: opens_between_def)
    have "s * 1000000 \<le> y" using to_millis_before [OF s(2,3), of y] b(2) by linarith
    moreover have "x \<le> s * 1000000"
    proof (rule ccontr)
      assume "\<not> x \<le> s * 1000000"
      moreover obtain z where z: "x = z * 1000000" using minute_seconds [OF assms(3)] by blast
      ultimately have "s + 1 \<le> z" by simp
      then have "(s + 1) * 1000000 \<le> x" unfolding z by simp
      then have "to_millis ((s + 1) * 1000000) \<le> to_millis x" by (rule to_millis_mono)
      moreover have "to_millis ((s + 1) * 1000000) = (s + 1) * 1000" using s by (intro to_millis_second) simp_all
      ultimately show False using b(1) by simp
    qed
    ultimately show ?thesis by (simp add: s(1))
  qed
  let ?S = "set (filter ?between hist)"
  have dist: "distinct (map row_open (filter ?between hist))" using sound by (simp add: sound_history_def distinct_map inj_on_def)
  have inj: "inj_on (\<lambda>r. the (row_open r) * 1000) ?S"
    using dist open_of by (auto simp: distinct_map inj_on_def) (metis option.sel)
  have "int (card ((\<lambda>r. the (row_open r) * 1000) ` ?S)) \<le> (y - x) div ?T + 1"
  proof (rule grid_points [OF _ T])
    show "x \<le> q \<and> q \<le> y \<and> q mod ?T = 0" if q: "q \<in> (\<lambda>r. the (row_open r) * 1000) ` ?S" for q
    proof -
      obtain r where r: "r \<in> set hist" "?between r" "q = the (row_open r) * 1000" using q by auto
      obtain s where s: "row_open r = Some (s * 1000)" "s * 1000000 mod ?T = 0" using open_of [OF r(1)] by auto
      show ?thesis using window [OF r(1,2) s(1)] s r(3) by (simp add: ac_simps)
    qed
  qed (use assms(4) in simp_all)
  then have few: "int (card ((\<lambda>r. the (row_open r) * 1000) ` ?S)) \<le> l" using l(2) by linarith
  have "int (length (filter ?between hist)) \<le> l"
  proof -
    have "card ((\<lambda>r. the (row_open r) * 1000) ` ?S) = card ?S" by (rule card_image [OF inj])
    also have "\<dots> = length (filter ?between hist)" using dist by (intro distinct_card) (simp add: distinct_map)
    finally show ?thesis using few by simp
  qed
  then have "rows = filter ?between hist" by (simp add: rows)
  moreover have "?between row"
  proof -
    obtain s where s: "ms = s * 1000" "0 < s" "s \<le> 4000000000" using open_of [OF assms(7)] assms(8) by auto
    have exact: "to_millis (s * 1000000) = s * 1000" using s by (intro to_millis_second) simp_all
    have "to_millis x \<le> to_millis (s * 1000000)" "to_millis (s * 1000000) \<le> to_millis y"
      using assms(9,10) by (simp_all add: s(1) to_millis_mono)
    then show ?thesis by (simp add: opens_between_def assms(8) s(1) exact)
  qed
  ultimately show ?thesis using assms(7) by simp
qed

section \<open>From a required range to the request\<close>

lemma windows_whole: "(x, y) \<in> set (windows a b) \<Longrightarrow> a mod minute = 0 \<Longrightarrow> x mod minute = 0"
proof (induction a b rule: windows.induct)
  case (1 a b)
  show ?case
  proof (cases "a < b")
    case True
    have w: "windows a b = (a, min (a + BATCH) b) # windows (min (a + BATCH) b) b" using True by (subst windows.simps) simp
    have "BATCH = minute * 480" by (simp add: BATCH_def hour_def minute_def)
    then have step: "(a + BATCH) mod minute = 0" using 1(3) mod_mult_self2 [of a minute 480] by metis
    consider "x = a" | "(x, y) \<in> set (windows (a + BATCH) b)" | "(x, y) \<in> set (windows b b)"
      using 1(2) by (auto simp: w min_def split: if_splits)
    then show ?thesis
    proof cases
      case 2
      then have "a + BATCH < b" using windows_bounds by fastforce
      then show ?thesis using 1(1) [OF True] 2 step by simp
    next
      case 3
      then show ?thesis by (subst (asm) windows.simps) simp
    qed (use 1(3) in simp)
  next
    case False
    then show ?thesis using 1(2) by (subst (asm) windows.simps) simp
  qed
qed

text \<open>The scan reports only gaps on the grid, and every slot without a candle lies in one of them.\<close>

definition gap_before :: "string \<Rightarrow> int \<Rightarrow> (int \<times> int) option \<Rightarrow> bool" where
  "gap_before tf t gap \<longleftrightarrow> (case gap of None \<Rightarrow> True
     | Some (g, e) \<Rightarrow> g mod candle_length tf = 0 \<and> e mod candle_length tf = 0 \<and> g \<le> e \<and> e \<le> t)"

lemma candle_length_pos: "0 < candle_length tf"
  using minutes_positive [of tf] by (simp add: candle_length_def minute_def)

lemma scan_slots_step:
  assumes "t < stop"
  shows "scan_slots exists tf t stop gap =
     (if \<not> exists t then scan_slots exists tf (t + candle_length tf) stop (Some (case gap of None \<Rightarrow> t | Some (g, e) \<Rightarrow> g, t + candle_length tf))
      else (case gap of None \<Rightarrow> [] | Some ge \<Rightarrow> [ge]) @ scan_slots exists tf (t + candle_length tf) stop None)"
  using assms by (subst scan_slots.simps) (simp add: Let_def split: option.split)

lemma scan_slots_spec:
  "t mod candle_length tf = 0 \<Longrightarrow> gap_before tf t gap \<Longrightarrow>
    list_all (\<lambda>(x, y). x mod candle_length tf = 0 \<and> y mod candle_length tf = 0) (scan_slots exists tf t stop gap) \<and>
    (case gap of None \<Rightarrow> True | Some (g, e) \<Rightarrow> list_ex (\<lambda>(x, y). x = g \<and> e \<le> y) (scan_slots exists tf t stop gap)) \<and>
    (t \<le> q \<longrightarrow> q mod candle_length tf = 0 \<longrightarrow> q < stop \<longrightarrow> \<not> exists q \<longrightarrow>
      list_ex (\<lambda>(x, y). x \<le> q \<and> q + candle_length tf \<le> y) (scan_slots exists tf t stop gap))"
proof (induction exists tf t stop gap rule: scan_slots.induct)
  case (1 exists tf t stop gap)
  let ?L = "candle_length tf"
  have L: "0 < ?L" by (rule candle_length_pos)
  have nxt: "(t + ?L) mod ?L = 0" using 1(4) by simp
  have later: "t + ?L \<le> q" if "t \<le> q" "q \<noteq> t" "q mod ?L = 0"
  proof -
    have "?L dvd q - t" using that(3) 1(4) by (simp add: dvd_diff mod_eq_0_iff_dvd)
    then have "?L \<le> q - t" using that(1,2) by (intro zdvd_imp_le) simp_all
    then show ?thesis by simp
  qed
  show ?case
  proof (cases "t < stop")
    case False
    then show ?thesis using 1(5) by (subst (1 2 3) scan_slots.simps) (auto simp: gap_before_def split: option.split)
  next
    case True
    show ?thesis
    proof (cases "exists t")
      case False
      define gap' where "gap' = Some (case gap of None \<Rightarrow> t | Some (g, e) \<Rightarrow> g, t + ?L)"
      have s: "scan_slots exists tf t stop gap = scan_slots exists tf (t + ?L) stop gap'"
        using False by (simp add: scan_slots_step [OF True] gap'_def)
      have "gap_before tf (t + ?L) gap'" using 1(4,5) nxt L by (auto simp: gap'_def gap_before_def split: option.splits)
      note ih = 1(1) [OF True refl False nxt, folded gap'_def, OF this]
      have open_gap: "list_ex (\<lambda>(x, y). x = (case gap of None \<Rightarrow> t | Some (g, e) \<Rightarrow> g) \<and> t + ?L \<le> y) (scan_slots exists tf (t + ?L) stop gap')"
        using ih by (simp add: gap'_def)
      show ?thesis unfolding s
      proof (intro conjI impI)
        show "list_all (\<lambda>(x, y). x mod ?L = 0 \<and> y mod ?L = 0) (scan_slots exists tf (t + ?L) stop gap')" using ih by blast
        show "case gap of None \<Rightarrow> True | Some (g, e) \<Rightarrow> list_ex (\<lambda>(x, y). x = g \<and> e \<le> y) (scan_slots exists tf (t + ?L) stop gap')"
        proof (cases gap)
          case (Some ge)
          obtain g e where ge: "ge = (g, e)" by (cases ge)
          have "e \<le> t + ?L" using 1(5) L by (simp add: gap_before_def Some ge)
          have "list_ex (\<lambda>(x, y). x = g \<and> e \<le> y) (scan_slots exists tf (t + ?L) stop gap')"
          proof -
            obtain y where y: "(g, y) \<in> set (scan_slots exists tf (t + ?L) stop gap')" "t + ?L \<le> y"
              using open_gap by (auto simp: Some ge list_ex_iff)
            have "e \<le> y" using y(2) \<open>e \<le> t + ?L\<close> by linarith
            then show ?thesis using y(1) by (auto simp: list_ex_iff)
          qed
          then show ?thesis by (simp add: Some ge)
        qed simp
        assume q: "t \<le> q" "q mod ?L = 0" "q < stop" "\<not> exists q"
        show "list_ex (\<lambda>(x, y). x \<le> q \<and> q + ?L \<le> y) (scan_slots exists tf (t + ?L) stop gap')"
        proof (cases "q = t")
          case True
          have "(case gap of None \<Rightarrow> t | Some (g, e) \<Rightarrow> g) \<le> t" using 1(5) by (auto simp: gap_before_def split: option.splits)
          then show ?thesis using open_gap unfolding True list_ex_iff by fastforce
        next
          case False
          then show ?thesis using ih later [OF q(1) False q(2)] q by blast
        qed
      qed
    next
      case ex: True
      have s: "scan_slots exists tf t stop gap = (case gap of None \<Rightarrow> [] | Some ge \<Rightarrow> [ge]) @ scan_slots exists tf (t + ?L) stop None"
        using ex by (simp add: scan_slots_step [OF True])
      have ih: "list_all (\<lambda>(x, y). x mod ?L = 0 \<and> y mod ?L = 0) (scan_slots exists tf (t + ?L) stop None) \<and>
          (t + ?L \<le> q \<longrightarrow> q mod ?L = 0 \<longrightarrow> q < stop \<longrightarrow> \<not> exists q \<longrightarrow>
            list_ex (\<lambda>(x, y). x \<le> q \<and> q + ?L \<le> y) (scan_slots exists tf (t + ?L) stop None))"
        using 1(2,3) [OF True refl] ex nxt by (cases gap) (auto simp: gap_before_def)
      have later': "t \<le> q \<Longrightarrow> q mod ?L = 0 \<Longrightarrow> \<not> exists q \<Longrightarrow> t + ?L \<le> q" using ex later by (cases "q = t") simp_all
      show ?thesis unfolding s using ih later' 1(5) by (cases gap) (auto simp: gap_before_def)
    qed
  qed
qed

text \<open>Every slot on the grid whose candle lies inside the range is scanned.\<close>

lemma scan_end_reaches:
  assumes "timeframe_to_minutes tf < 1440" "q mod candle_length tf = 0" "q + candle_length tf \<le> b"
  shows "q < scan_end b tf"
proof -
  let ?m = "timeframe_to_minutes tf" and ?d = "b mod day"
  have m: "0 < ?m" by (rule minutes_positive)
  obtain k where k: "q + candle_length tf = minute * k"
    using assms(2) by (metis candle_length_def dvd_add_triv_right_iff dvd_def dvd_mult mod_eq_0_iff_dvd dvd_trans dvd_triv_right)
  have "minute * k \<le> b - ?d + (?d div minute) * minute"
  proof -
    have "day = minute * 1440" by (simp add: day_def minute_def)
    then obtain j where j: "b - ?d = minute * j" by (metis dvd_minus_mod dvd_def mult.assoc)
    have "minute * (k - j) \<le> ?d" using assms(3) k j by (simp add: algebra_simps)
    then have "k - j \<le> ?d div minute" by (simp add: minute_def)
    then show ?thesis unfolding j by (simp add: minute_def algebra_simps)
  qed
  also have "(?d div minute) * minute \<le> ((?d div minute + ?m - 1) div ?m) * ?m * minute"
  proof -
    have "?d div minute \<le> ((?d div minute + ?m - 1) div ?m) * ?m"
      using m div_mult_mod_eq [of "?d div minute + ?m - 1" ?m] pos_mod_bound [OF m, of "?d div minute + ?m - 1"] by linarith
    then show ?thesis by (simp add: minute_def)
  qed
  finally show ?thesis using k candle_length_pos [of tf] assms(1) by (simp add: scan_end_def Let_def)
qed

lemma grid_is_length: "timeframe_to_minutes tf < 1440 \<Longrightarrow> grid tf = candle_length tf"
  by (simp add: grid_def candle_length_def)

lemma coverage_spec:
  assumes "timeframe_to_minutes tf < 1440"
  shows "list_all (\<lambda>(x, y). x mod candle_length tf = 0 \<and> y mod candle_length tf = 0) (check_candle_coverage table i tf a b)"
    and "q mod candle_length tf = 0 \<Longrightarrow> a \<le> q \<Longrightarrow> q + candle_length tf \<le> b \<Longrightarrow> table (i, tf, q) = None \<Longrightarrow>
      list_ex (\<lambda>(x, y). x \<le> q \<and> q + candle_length tf \<le> y) (check_candle_coverage table i tf a b)"
proof -
  have al: "align_to_grid a tf mod candle_length tf = 0" "align_to_grid a tf \<le> a"
    using align_floor [of a tf] grid_is_length [OF assms] by simp_all
  note s = scan_slots_spec [OF al(1), where gap = None and exists = "\<lambda>t. table (i, tf, t) \<noteq> None" and stop = "scan_end b tf"]
  show "list_all (\<lambda>(x, y). x mod candle_length tf = 0 \<and> y mod candle_length tf = 0) (check_candle_coverage table i tf a b)"
    using s by (simp add: check_candle_coverage_def gap_before_def)
  assume q: "q mod candle_length tf = 0" "a \<le> q" "q + candle_length tf \<le> b" "table (i, tf, q) = None"
  have "align_to_grid a tf \<le> q" using al(2) q(2) by simp
  moreover have "q < scan_end b tf" using scan_end_reaches [OF assms q(1,3)] .
  ultimately show "list_ex (\<lambda>(x, y). x \<le> q \<and> q + candle_length tf \<le> y) (check_candle_coverage table i tf a b)"
    using s [of q] q(1,4) by (simp add: check_candle_coverage_def gap_before_def)
qed

text \<open>Merging keeps every range inside one of the merged ranges, and takes its ends from the given ranges.\<close>

lemma merge_contains:
  assumes "r \<in> set xs" "sp_from r < sp_to r"
  shows "\<exists>m\<in>set (merge_spans xs). sp_from m \<le> sp_from r \<and> sp_to r \<le> sp_to m"
proof -
  have cov: "covered (merge_spans xs) = covered xs" and ap: "apart (merge_spans xs)" using merge_spans_spec [of xs] by auto
  have r: "span_set r \<subseteq> covered (merge_spans xs)" unfolding cov using assms(1) by (auto simp: covered_def)
  have "sp_from r \<in> span_set r" using assms(2) by (simp add: span_set_def)
  then obtain m where m: "m \<in> set (merge_spans xs)" "sp_from m \<le> sp_from r" "sp_from r < sp_to m"
    using r by (auto simp: covered_def span_set_def)
  have "sp_to r \<le> sp_to m"
  proof (rule ccontr)
    assume "\<not> sp_to r \<le> sp_to m"
    then have "sp_to m \<in> span_set r" using m by (simp add: span_set_def)
    then obtain m' where m': "m' \<in> set (merge_spans xs)" "sp_from m' \<le> sp_to m" "sp_to m < sp_to m'"
      using r by (auto simp: covered_def span_set_def)
    obtain p q where pq: "p < length (merge_spans xs)" "q < length (merge_spans xs)" "merge_spans xs ! p = m" "merge_spans xs ! q = m'"
      using m(1) m'(1) by (metis in_set_conv_nth)
    have "p \<noteq> q" using pq m' by auto
    then consider "p < q" | "q < p" by linarith
    then show False
    proof cases
      case 1
      then show False using ap pq m' sorted_wrt_nth_less [of _ "merge_spans xs" p q] unfolding apart_def by fastforce
    next
      case 2
      then show False using ap pq m m' sorted_wrt_nth_less [of _ "merge_spans xs" q p] unfolding apart_def by fastforce
    qed
  qed
  then show ?thesis using m by blast
qed

lemma merge_step_ends:
  assumes "ms \<noteq> []" "list_all (\<lambda>s. P (sp_from s) \<and> P (sp_to s)) ms" "P (sp_from x) \<and> P (sp_to x)"
  shows "merge_step ms x \<noteq> [] \<and> list_all (\<lambda>s. P (sp_from s) \<and> P (sp_to s)) (merge_step ms x)"
proof -
  obtain ys l where "ms = ys @ [l]" using assms(1) by (metis append_butlast_last_id)
  then show ?thesis using assms(2,3) by (simp add: merge_step_def Let_def max_def)
qed

lemma merge_ends:
  assumes "list_all (\<lambda>s. P (sp_from s) \<and> P (sp_to s)) xs"
  shows "list_all (\<lambda>s. P (sp_from s) \<and> P (sp_to s)) (merge_spans xs)"
proof -
  have "list_all (\<lambda>s. P (sp_from s) \<and> P (sp_to s)) (foldl merge_step ms ys)"
    if "ms \<noteq> []" "list_all (\<lambda>s. P (sp_from s) \<and> P (sp_to s)) ms" "list_all (\<lambda>s. P (sp_from s) \<and> P (sp_to s)) ys" for ms ys
    using that
  proof (induction ys arbitrary: ms)
    case (Cons y ys)
    have "P (sp_from y) \<and> P (sp_to y)" using Cons.prems(3) by simp
    from merge_step_ends [OF Cons.prems(1,2) this] Cons.IH Cons.prems(3) show ?case by simp
  qed simp
  moreover have "list_all (\<lambda>s. P (sp_from s) \<and> P (sp_to s)) (sort_key sp_from xs)" using assms by (simp add: list_all_iff)
  ultimately show ?thesis by (auto simp: merge_spans_def split: list.split)
qed

text \<open>The coalesced gap that holds a missing candle of a required range.\<close>

lemma gap_found:
  assumes "timeframe_to_minutes tf < 1440" "raw_gaps answers table i tf required = Some raw" "q mod candle_length tf = 0"
    and "list_ex (\<lambda>r. sp_from r \<le> q \<and> q + candle_length tf \<le> sp_to r) required" "table (i, tf, q) = None"
  obtains g where "g \<in> set (coalesce_gaps raw)" "sp_from g \<le> q" "q + candle_length tf \<le> sp_to g" "sp_from g mod minute = 0"
proof -
  have L: "0 < candle_length tf" by (rule candle_length_pos)
  obtain r where r: "r \<in> set required" "sp_from r \<le> q" "q + candle_length tf \<le> sp_to r" using assms(4) by (auto simp: list_ex_iff)
  have "sp_from r < sp_to r" using r L by simp
  from merge_contains [OF r(1) this] obtain m where m: "m \<in> set (sync_merge_ranges required)" "sp_from m \<le> q" "q + candle_length tf \<le> sp_to m"
    using r unfolding sync_merge_ranges_def by fastforce
  have raw: "raw = concat (map (gaps_of table i tf) (sync_merge_ranges required))"
    using assms(2) by (simp add: raw_gaps_def Let_def split: if_splits)
  obtain x y where xy: "(x, y) \<in> set (check_candle_coverage table i tf (sp_from m) (sp_to m))" "x \<le> q" "q + candle_length tf \<le> y"
    using coverage_spec(2) [where table = table and i = i, OF assms(1,3) m(2,3) assms(5)] by (auto simp: list_ex_iff)
  let ?s = "\<lparr>sp_instrument = i, sp_timeframe = tf, sp_from = x, sp_to = y\<rparr>"
  have "?s \<in> set raw" using m(1) xy(1) by (force simp: raw gaps_of_def)
  from merge_contains [OF this] obtain g where g: "g \<in> set (merge_spans raw)" "sp_from g \<le> x" "y \<le> sp_to g"
    using xy(2,3) L by auto
  have on_minute: "z mod minute = 0" if "z mod candle_length tf = 0" for z
  proof -
    have "candle_length tf dvd z" using that by (simp add: mod_eq_0_iff_dvd)
    then have "minute dvd z" by (rule dvd_trans [rotated]) (simp add: candle_length_def)
    then show ?thesis by (simp add: mod_eq_0_iff_dvd)
  qed
  have "sp_from s mod minute = 0 \<and> sp_to s mod minute = 0" if mem: "s \<in> set raw" for s
  proof -
    obtain m' where "s \<in> set (gaps_of table i tf m')" using mem by (auto simp: raw)
    then obtain u v where uv: "(u, v) \<in> set (check_candle_coverage table i tf (sp_from m') (sp_to m'))" "sp_from s = u" "sp_to s = v"
      by (auto simp: gaps_of_def)
    then show ?thesis using coverage_spec(1) [OF assms(1), of table i "sp_from m'" "sp_to m'"] on_minute by (auto simp: list_all_iff)
  qed
  then have "list_all (\<lambda>s. sp_from s mod minute = 0 \<and> sp_to s mod minute = 0) raw" by (simp add: list_all_iff)
  from merge_ends [OF this] have "sp_from g mod minute = 0" using g(1) by (simp add: list_all_iff)
  then show thesis using g xy that [of g] by (simp add: coalesce_gaps_def)
qed

section \<open>No due candle is lost unnoticed\<close>

text \<open>A candle of the history is due if it parses (it is well formed and closed at the cutoff), lies in a required
  range and is not in the table.\<close>

definition due :: "int \<Rightarrow> string \<Rightarrow> int option \<Rightarrow> span list \<Rightarrow> candle_table \<Rightarrow> string list \<Rightarrow> bool" where
  "due i tf cutoff required table row \<longleftrightarrow>
     (case parse_candle i tf cutoff row of None \<Rightarrow> False
      | Some c \<Rightarrow> table (candle_key c) = None \<and>
          list_ex (\<lambda>r. sp_from r \<le> sd_open_time c \<and> sd_close_time c \<le> sp_to r) required)"

definition held :: "int \<Rightarrow> string \<Rightarrow> int option \<Rightarrow> candle_table \<Rightarrow> string list \<Rightarrow> bool" where
  "held i tf cutoff table row \<longleftrightarrow>
     (case parse_candle i tf cutoff row of None \<Rightarrow> False | Some c \<Rightarrow> table (candle_key c) = Some c)"

definition in_failed :: "(int \<times> int) list \<Rightarrow> string list \<Rightarrow> bool" where
  "in_failed failed row \<longleftrightarrow>
     (case row_open row of None \<Rightarrow> False | Some ms \<Rightarrow> list_ex (\<lambda>(x, y). x \<le> ms * 1000 \<and> ms * 1000 < y) failed)"

text \<open>The number of writes between two states of the database that were not confirmed.\<close>

definition unconfirmed :: "(nat \<Rightarrow> store_reply) \<Rightarrow> candle_db \<Rightarrow> candle_db \<Rightarrow> nat" where
  "unconfirmed replies db db' = length (filter (\<lambda>n. replies n \<noteq> Confirmed) [cd_writes db..<cd_writes db'])"

lemma insert_loop_counts:
  "case insert_loop replies cs k db of (k', db') \<Rightarrow>
     cd_writes db \<le> cd_writes db' \<and> rejected k' = rejected k + unconfirmed replies db db' \<and>
     dom (cd_table db) \<subseteq> dom (cd_table db')"
proof (induction cs arbitrary: k db)
  case (Cons c cs)
  let ?r = "replies (cd_writes db)"
  define table where "table = (if ?r \<in> {Confirmed, AnswerLost} then (cd_table db)(candle_key c \<mapsto> c) else cd_table db)"
  define k1 where "k1 = count_candle (?r = Confirmed) (?r \<noteq> LookupRaises \<and> cd_table db (candle_key c) \<noteq> None) k"
  define db1 where "db1 = db\<lparr>cd_writes := cd_writes db + 1, cd_table := table\<rparr>"
  have l: "insert_loop replies (c # cs) k db = insert_loop replies cs k1 db1"
    by (cases ?r) (simp_all add: Let_def insert_candle_def table_def k1_def db1_def)
  obtain k' db' where r: "insert_loop replies cs k1 db1 = (k', db')" by (cases "insert_loop replies cs k1 db1")
  note ih = Cons.IH [where k = k1 and db = db1, unfolded r prod.case]
  have w: "cd_writes db1 = Suc (cd_writes db)" by (simp add: db1_def)
  then have "[cd_writes db..<cd_writes db'] = cd_writes db # [cd_writes db1..<cd_writes db']"
    using ih by (simp add: upt_conv_Cons)
  then have "unconfirmed replies db db' = (if ?r = Confirmed then 0 else 1) + unconfirmed replies db1 db'"
    by (simp add: unconfirmed_def)
  moreover have "dom (cd_table db) \<subseteq> dom (cd_table db1)" by (auto simp: db1_def table_def)
  ultimately show ?case unfolding l r prod.case using ih w by (auto simp: k1_def)
qed (simp add: unconfirmed_def)

lemma unconfirmed_add:
  "cd_writes a \<le> cd_writes b \<Longrightarrow> cd_writes b \<le> cd_writes c \<Longrightarrow>
    unconfirmed replies a c = unconfirmed replies a b + unconfirmed replies b c"
  unfolding unconfirmed_def by (metis filter_append length_append upt_add_eq_append le_add_diff_inverse)

lemma fetch_and_store_counts:
  "case fetch_and_store api replies i tf cutoff a b db of ((n, u, r, failed), db') \<Rightarrow>
     cd_writes db \<le> cd_writes db' \<and> r = unconfirmed replies db db' \<and> dom (cd_table db) \<subseteq> dom (cd_table db')"
proof (cases "sync_loop api i tf cutoff a (clamp cutoff b)")
  case (Pair cs failed)
  show ?thesis
    using insert_loop_counts [where replies = replies and cs = cs and k = "(0, 0, 0)" and db = db]
    by (auto simp: fetch_and_store_def Pair Let_def insert_candles_batch_def rejected_def unconfirmed_def split: prod.splits)
qed

lemma store_gaps_counts:
  "case store_gaps api replies i tf cutoff gs db of ((n, u, r, failed), db') \<Rightarrow>
     cd_writes db \<le> cd_writes db' \<and> r = unconfirmed replies db db' \<and> dom (cd_table db) \<subseteq> dom (cd_table db')"
proof (induction gs arbitrary: db)
  case (Cons g gs)
  obtain n1 u1 r1 f1 db1 where f: "fetch_and_store api replies i tf cutoff (sp_from g) (sp_to g) db = ((n1, u1, r1, f1), db1)"
    by (metis prod_cases4 surj_pair)
  obtain n2 u2 r2 f2 db2 where s: "store_gaps api replies i tf cutoff gs db1 = ((n2, u2, r2, f2), db2)"
    by (metis prod_cases4 surj_pair)
  note one = fetch_and_store_counts [where api = api and replies = replies and i = i and tf = tf and cutoff = cutoff and a = "sp_from g"
    and b = "sp_to g" and db = db, unfolded f prod.case]
  note rest = Cons.IH [where db = db1, unfolded s prod.case]
  show ?case using one rest unconfirmed_add [where a = db and b = db1 and c = db2 and replies = replies] by (auto simp: f s)
qed (simp add: unconfirmed_def)

text \<open>The candles of the history, by key.\<close>

definition candle_of :: "int \<Rightarrow> string \<Rightarrow> int option \<Rightarrow> string list list \<Rightarrow> candle_id \<Rightarrow> stored_candle" where
  "candle_of i tf cutoff hist k = the (find (\<lambda>c. candle_key c = k) (List.map_filter (parse_candle i tf cutoff) hist))"

lemma parse_open:
  assumes "parse_candle i tf cutoff row = Some c"
  shows "row_open row = Some (sd_open_time c div 1000) \<and> sd_open_time c mod 1000 = 0 \<and>
    candle_key c = (i, tf, sd_open_time c) \<and> sd_close_time c = sd_open_time c + candle_length tf"
proof -
  obtain t ts where "row = t # ts" using assms by (cases row) (auto simp: parse_candle_def)
  then show ?thesis using assms
    by (auto simp: parse_candle_def row_open_def candle_key_def candle_length_def Let_def split: if_splits option.splits list.splits)
qed

lemma same_open:
  assumes "sound_history tf hist" "r \<in> set hist" "r' \<in> set hist"
    and "parse_candle i tf cutoff r = Some c" "parse_candle i tf cutoff r' = Some c'" "candle_key c = candle_key c'"
  shows "r = r'"
proof -
  have "row_open r = row_open r'" using parse_open [OF assms(4)] parse_open [OF assms(5)] assms(6) by simp
  moreover have "inj_on row_open (set hist)" using assms(1) by (simp add: sound_history_def distinct_map)
  ultimately show ?thesis using assms(2,3) by (auto dest: inj_onD)
qed

lemma candle_of_parsed:
  assumes "sound_history tf hist" "r \<in> set hist" "parse_candle i tf cutoff r = Some c"
  shows "candle_of i tf cutoff hist (candle_key c) = c"
proof -
  let ?cs = "List.map_filter (parse_candle i tf cutoff) hist"
  have "c \<in> set ?cs" using assms(2,3) by (force simp: List.map_filter_def)
  then obtain d where d: "find (\<lambda>d. candle_key d = candle_key c) ?cs = Some d"
    by (cases "find (\<lambda>d. candle_key d = candle_key c) ?cs") (auto simp: find_None_iff)
  then have "d \<in> set ?cs" "candle_key d = candle_key c" by (auto simp: find_Some_iff)
  then obtain r' where r': "r' \<in> set hist" "parse_candle i tf cutoff r' = Some d" by (auto simp: List.map_filter_def)
  have "r = r'" using same_open [OF assms(1,2) r'(1) assms(3) r'(2)] \<open>candle_key d = candle_key c\<close> by simp
  then show ?thesis using assms(3) r'(2) d by (simp add: candle_of_def)
qed

lemma fetched_from_history:
  assumes "serves tf hist api" "fetch_batch api tf x y = Some rows"
  shows "set rows \<subseteq> set hist"
proof -
  obtain l where "api (to_millis x) (to_millis y) l = Some (0, rows)"
    using assms(2) by (auto simp: fetch_batch_def split: option.splits prod.splits if_splits)
  then have "rows = take (nat l) (filter (opens_between (to_millis x) (to_millis y)) hist)" using assms(1) unfolding serves_def by blast
  then show ?thesis using set_take_subset by fastforce
qed

lemma history_agrees:
  assumes "serves tf hist api"
  shows "agrees (candle_of i tf cutoff hist) (fst (sync_loop api i tf cutoff a b))"
proof -
  have sound: "sound_history tf hist" using assms by (simp add: serves_def)
  have "candle_of i tf cutoff hist (candle_key c) = c" if c: "c \<in> set (fst (sync_loop api i tf cutoff a b))" for c
  proof -
    obtain x y where "c \<in> set (case fetch_batch api tf x y of None \<Rightarrow> [] | Some rows \<Rightarrow> List.map_filter (parse_candle i tf cutoff) rows)"
      using c unfolding sync_loop_windows [THEN conjunct1] by auto
    then obtain rows where f: "fetch_batch api tf x y = Some rows" "c \<in> set (List.map_filter (parse_candle i tf cutoff) rows)"
      by (cases "fetch_batch api tf x y") simp_all
    then obtain row where "row \<in> set rows" "parse_candle i tf cutoff row = Some c" by (auto simp: List.map_filter_def)
    then show ?thesis using fetched_from_history [OF assms f(1)] candle_of_parsed [OF sound] by blast
  qed
  then show ?thesis by (simp add: agrees_def list_all_iff)
qed

text \<open>A due candle is parsed in one of the gaps, or lies in a window that failed.\<close>

lemma due_requested:
  assumes "tf \<in> set BATCHED_TIMEFRAMES" "serves tf hist api" "raw_gaps answers table i tf required = Some raw"
    and "row \<in> set hist" "parse_candle i tf cutoff row = Some c" "due i tf cutoff required table row"
  shows "\<exists>g\<in>set (coalesce_gaps raw). candle_key c \<in> parsed_keys api i tf cutoff (sp_from g) (sp_to g) \<or>
    in_failed (snd (sync_loop api i tf cutoff (sp_from g) (clamp cutoff (sp_to g)))) row"
proof -
  let ?q = "sd_open_time c" and ?L = "candle_length tf"
  note m = batched_minutes [OF assms(1)]
  note p = parse_open [OF assms(5)]
  have L: "0 < ?L" by (rule candle_length_pos)
  have ro: "row_open row = Some (?q div 1000)" "?q div 1000 * 1000 = ?q" using p by auto
  have "case row_open row of None \<Rightarrow> False | Some ms \<Rightarrow> 0 < ms \<and> ms \<le> 4000000000000 \<and> ms * 1000 mod ?L = 0"
    using assms(2,4) by (simp add: serves_def sound_history_def list_all_iff)
  then have q: "?q mod ?L = 0" by (simp add: ro)
  have d: "table (i, tf, ?q) = None" "list_ex (\<lambda>r. sp_from r \<le> ?q \<and> ?q + ?L \<le> sp_to r) required"
    using assms(6) p by (simp_all add: due_def assms(5))
  obtain g where g: "g \<in> set (coalesce_gaps raw)" "sp_from g \<le> ?q" "?q + ?L \<le> sp_to g" "sp_from g mod minute = 0"
    using gap_found [OF m(3) assms(3) q d(2,1)] .
  let ?b = "clamp cutoff (sp_to g)"
  have "?q < ?b" using g(3) L parsed_valid [OF assms(5)] p by (auto simp: clamp_def split: option.splits)
  then have "?q \<in> (\<Union>(x, y)\<in>set (windows (sp_from g) ?b). {x ..< y})" using g(2) by (simp add: windows_cover)
  then obtain x y where w: "(x, y) \<in> set (windows (sp_from g) ?b)" "x \<le> ?q" "?q < y" by auto
  have wb: "x < y" "y - x \<le> BATCH" using windows_bounds [OF w(1)] by auto
  have wm: "x mod minute = 0" using windows_whole [OF w(1) g(4)] .
  show ?thesis
  proof (cases "fetch_batch api tf x y")
    case None
    then have "(x, y) \<in> set (snd (sync_loop api i tf cutoff (sp_from g) ?b))" using w(1) by (simp add: sync_loop_windows)
    then have "in_failed (snd (sync_loop api i tf cutoff (sp_from g) ?b)) row"
      using w(2,3) ro by (auto simp: in_failed_def list_ex_iff)
    then show ?thesis using g(1) by blast
  next
    case (Some rows)
    have "row \<in> set rows"
      by (rule fetch_batch_complete [OF assms(1,2) wm wb Some assms(4) ro(1)]) (use w(2,3) ro(2) in simp_all)
    then have "c \<in> set (fst (sync_loop api i tf cutoff (sp_from g) ?b))"
      using w(1) Some assms(5) by (force simp: sync_loop_windows List.map_filter_def)
    then show ?thesis using g(1) by (auto simp: parsed_keys_def)
  qed
qed

text \<open>C27. Reconciliation loses nothing unnoticed: with an exchange that keeps to its documented answers, of all the
  candles of its history that are due, the ones that the database does not hold afterwards and that lie in
  no reported failed range are at most as many as the reported rejections. Only ranges whose request really
  failed are reported, the rejections are the writes that the database did not confirm, and no stored
  candle disappears. Nothing is claimed of rows that do not parse, and the one-minute frame is left out.\<close>

theorem due_candles_stored_or_reported:
  assumes "tf \<in> set BATCHED_TIMEFRAMES" "serves tf hist api"
  shows "case reconcile_candles api replies answers i tf cutoff required db of
      None \<Rightarrow> \<not> list_all answers [0..<length (sync_merge_ranges required)]
    | Some ((gaps, n, u, r, failed), db') \<Rightarrow>
        length (filter (\<lambda>row. due i tf cutoff required (cd_table db) row \<and> \<not> held i tf cutoff (cd_table db') row \<and>
          \<not> in_failed failed row) hist) \<le> r \<and>
        r = unconfirmed replies db db' \<and> list_all (\<lambda>(x, y). y - x \<le> BATCH \<and> fetch_batch api tf x y = None) failed \<and>
        dom (cd_table db) \<subseteq> dom (cd_table db')"
proof (cases "raw_gaps answers (cd_table db) i tf required")
  case None
  then show ?thesis by (simp add: reconcile_candles_def raw_gaps_def Let_def split: if_splits)
next
  case (Some raw)
  let ?f = "candle_of i tf cutoff hist" and ?gs = "coalesce_gaps raw"
  let ?K = "\<Union>g\<in>set ?gs. parsed_keys api i tf cutoff (sp_from g) (sp_to g)"
  obtain n u r failed db' where s: "store_gaps api replies i tf cutoff ?gs db = ((n, u, r, failed), db')"
    by (metis prod_cases4 surj_pair)
  have sound: "sound_history tf hist" using assms(2) by (simp add: serves_def)
  note ab = store_gaps_absent [OF history_agrees [OF assms(2)], where K = "{}" and i = i and cutoff = cutoff and replies = replies
    and gs = ?gs and db = db, unfolded s prod.case, OF finite.emptyI]
  let ?lost = "\<lambda>row. due i tf cutoff required (cd_table db) row \<and> \<not> held i tf cutoff (cd_table db') row \<and> \<not> in_failed failed row"
  let ?key = "\<lambda>row. candle_key (the (parse_candle i tf cutoff row))"
  have lost: "?key row \<in> absent ?f ?K (cd_table db')" if l: "row \<in> set hist" "?lost row" for row
  proof -
    obtain c where c: "parse_candle i tf cutoff row = Some c" using l(2) by (auto simp: due_def split: option.splits)
    obtain g where g: "g \<in> set ?gs" "candle_key c \<in> parsed_keys api i tf cutoff (sp_from g) (sp_to g) \<or>
        in_failed (snd (sync_loop api i tf cutoff (sp_from g) (clamp cutoff (sp_to g)))) row"
      using due_requested [OF assms Some l(1) c] l(2) by blast
    have "set (snd (sync_loop api i tf cutoff (sp_from g) (clamp cutoff (sp_to g)))) \<subseteq> set failed" using ab g(1) by auto
    then have "\<not> in_failed (snd (sync_loop api i tf cutoff (sp_from g) (clamp cutoff (sp_to g)))) row"
      using l(2) by (auto simp: in_failed_def list_ex_iff split: option.splits)
    then have "candle_key c \<in> ?K" using g by blast
    then show ?thesis using l(2) candle_of_parsed [OF sound l(1) c] by (simp add: absent_def held_def c)
  qed
  have "inj_on ?key (set (filter ?lost hist))"
    using same_open [OF sound] by (auto simp: inj_on_def due_def split: option.splits)
  then have "length (filter ?lost hist) = card (?key ` set (filter ?lost hist))"
    using distinct_card [of "filter ?lost hist"] sound by (simp add: card_image sound_history_def distinct_map del: set_filter)
  also have "\<dots> \<le> card (absent ?f ?K (cd_table db'))"
    using lost by (intro card_mono) (auto simp: absent_def parsed_keys_def)
  finally have few: "length (filter ?lost hist) \<le> r" using ab by simp
  have fails: "list_all (\<lambda>(x, y). y - x \<le> BATCH \<and> fetch_batch api tf x y = None) failed"
    using ab windows_bounds by (fastforce simp: list_all_iff sync_loop_windows)
  show ?thesis using few fails store_gaps_counts [where api = api and replies = replies and i = i and tf = tf and cutoff = cutoff and gs = ?gs and db = db] s
    by (simp add: reconcile_candles_def Some Let_def)
qed

section \<open>Concrete reconciliations\<close>

text \<open>A history of three candles of five minutes; the last row has no prices.\<close>

definition demo_row :: "string \<Rightarrow> string list" where
  "demo_row ms = [ms, ''1'', ''2'', ''1'', ''1'', ''0'', '''']"

definition demo_history :: "string list list" where
  "demo_history = [demo_row ''300000'', demo_row ''600000'', [''900000'']]"

definition demo_exchange :: exchange_api where
  "demo_exchange a b l = Some (0, take (nat l) (filter (opens_between a b) demo_history))"

definition demo_ranges :: "span list" where
  "demo_ranges = [\<lparr>sp_instrument = 7, sp_timeframe = ''5'', sp_from = 60000000, sp_to = 1500000000\<rparr>]"

definition empty_candles :: candle_db where
  "empty_candles = \<lparr>cd_table = (\<lambda>k. None), cd_writes = 0\<rparr>"

text \<open>The second write is refused.\<close>

definition demo_replies :: "nat \<Rightarrow> store_reply" where
  "demo_replies n = (if n = 1 then Refused else Confirmed)"

definition demo_candle :: "int \<Rightarrow> stored_candle" where
  "demo_candle t = \<lparr>sd_instrument = 7, sd_timeframe = ''5'', sd_open_time = t, sd_close_time = t + 300000000, sd_open = 1, sd_high = 2,
     sd_low = 1, sd_close = 1, sd_volume = 0, sd_turnover = None\<rparr>"

lemma demo_frame [simp]: "timeframe_to_minutes ''5'' = 5" "candle_length ''5'' = 300000000"
  by (simp_all add: timeframe_to_minutes_def TIMEFRAME_MINUTES_def dget_or_def candle_length_def minute_def)

lemma demo_opens [simp]:
  "row_open (demo_row ''300000'') = Some 300000" "row_open (demo_row ''600000'') = Some 600000" "row_open [''900000''] = Some 900000"
  by (simp_all add: row_open_def demo_row_def parse_int_def digit_val_def)

lemma demo_parsed [simp]:
  "parse_candle 7 ''5'' None (demo_row ''300000'') = Some (demo_candle 300000000)"
  "parse_candle 7 ''5'' None (demo_row ''600000'') = Some (demo_candle 600000000)"
  "parse_candle 7 ''5'' None [''900000''] = None"
proof -
  have f: "parse_float ''1'' = Some 1" "parse_float ''2'' = Some 2" "parse_float ''0'' = Some 0"
    using fl_of_int [of 1] fl_of_int [of 2] by (simp_all add: parse_float_def digit_val_def)
  have i: "parse_int ''300000'' = Some 300000" "parse_int ''600000'' = Some 600000"
    by (simp_all add: parse_int_def digit_val_def)
  show "parse_candle 7 ''5'' None (demo_row ''300000'') = Some (demo_candle 300000000)"
    "parse_candle 7 ''5'' None (demo_row ''600000'') = Some (demo_candle 600000000)"
    by (simp_all add: parse_candle_def demo_row_def f i demo_candle_def candle_valid_def minute_def)
qed (simp add: parse_candle_def)

lemma demo_serves: "serves ''5'' demo_history demo_exchange"
  by (simp add: serves_def demo_exchange_def sound_history_def demo_history_def)

lemma demo_coverage: "check_candle_coverage (\<lambda>k. None) 7 ''5'' 60000000 1500000000 = [(0, 1500000000)]"
proof -
  have "align_to_grid 60000000 ''5'' = 0" "scan_end 1500000000 ''5'' = 1500000000"
    by (simp_all add: align_to_grid_def scan_end_def day_def minute_def)
  then show ?thesis by (simp add: check_candle_coverage_def scan_slots.simps)
qed

lemma demo_fetch: "fetch_batch demo_exchange ''5'' 0 1500000000 = Some demo_history"
proof -
  have "minutes_of 1500000000 = 25"
    using fl_of_int [of 1500] fl_of_int [of 25] by (simp add: minutes_of_def fdiv_def)
  moreover have "fdiv 25 5 = 5" using fl_of_int [of 5] by (simp add: fdiv_def)
  moreover have "parse_int ''5'' = Some 5" by (simp add: parse_int_def digit_val_def)
  ultimately have l: "batch_limit ''5'' 1500000000 = Some 6" by (simp add: batch_limit_def py_int_def)
  have m: "to_millis 0 = 0" "to_millis 1500000000 = 1500000"
    using to_millis_second [of 1500] by (simp_all add: to_millis_def fmul_def fdiv_def py_int_def)
  show ?thesis by (simp add: fetch_batch_def l m demo_exchange_def demo_history_def opens_between_def)
qed

lemma demo_sync: "sync_loop demo_exchange 7 ''5'' None 0 1500000000 = ([demo_candle 300000000, demo_candle 600000000], [])"
proof -
  have "min (0 + BATCH) 1500000000 = 1500000000" by (simp add: BATCH_def hour_def)
  then show ?thesis
    by (subst sync_loop.simps, subst sync_loop.simps) (simp add: demo_fetch demo_history_def List.map_filter_def)
qed

lemma demo_reconciled:
  "reconcile_candles demo_exchange demo_replies (\<lambda>n. True) 7 ''5'' None demo_ranges empty_candles =
     Some (([\<lparr>sp_instrument = 7, sp_timeframe = ''5'', sp_from = 0, sp_to = 1500000000\<rparr>], 1, 0, 1, []),
       \<lparr>cd_table = (\<lambda>k. None)((7, ''5'', 300000000) \<mapsto> demo_candle 300000000), cd_writes = 2\<rparr>)"
proof -
  have "raw_gaps (\<lambda>n. True) (\<lambda>k. None) 7 ''5'' demo_ranges = Some [\<lparr>sp_instrument = 7, sp_timeframe = ''5'', sp_from = 0, sp_to = 1500000000\<rparr>]"
    by (simp add: raw_gaps_def demo_ranges_def sync_merge_ranges_def merge_spans_def gaps_of_def demo_coverage list_all_iff)
  then show ?thesis
    by (simp add: reconcile_candles_def empty_candles_def coalesce_gaps_def merge_spans_def fetch_and_store_def clamp_def demo_sync
        insert_candles_batch_def insert_candle_def demo_replies_def candle_key_def count_candle_def)
      (simp add: demo_candle_def)
qed

text \<open>The row without prices is missing afterwards, and neither the counts nor the failed ranges tell.\<close>

theorem unreadable_row_vanishes:
  "case reconcile_candles demo_exchange demo_replies (\<lambda>n. True) 7 ''5'' None demo_ranges empty_candles of
     None \<Rightarrow> False
   | Some ((gaps, n, u, r, failed), db') \<Rightarrow> (n, u, r, failed) = (1, 0, 1, []) \<and> cd_table db' (7, ''5'', 900000000) = None"
  by (simp add: demo_reconciled)

theorem due_candles_stored_or_reported_witness:
  "case reconcile_candles demo_exchange demo_replies (\<lambda>n. True) 7 ''5'' None demo_ranges empty_candles of
     None \<Rightarrow> False
   | Some ((gaps, n, u, r, failed), db') \<Rightarrow> n = 1 \<and> r = 1 \<and> failed = [] \<and>
       map (due 7 ''5'' None demo_ranges (cd_table empty_candles)) demo_history = [True, True, False] \<and>
       map (held 7 ''5'' None (cd_table db')) demo_history = [True, False, False] \<and>
       length (filter (\<lambda>row. due 7 ''5'' None demo_ranges (cd_table empty_candles) row \<and> \<not> held 7 ''5'' None (cd_table db') row \<and>
         \<not> in_failed failed row) demo_history) \<le> r"
proof -
  have tf: "''5'' \<in> set BATCHED_TIMEFRAMES" by (simp add: BATCHED_TIMEFRAMES_def)
  have due: "map (due 7 ''5'' None demo_ranges (cd_table empty_candles)) demo_history = [True, True, False]"
    by (simp add: demo_history_def due_def demo_ranges_def empty_candles_def demo_candle_def)
  have held: "map (held 7 ''5'' None ((\<lambda>k. None)((7, ''5'', 300000000) \<mapsto> demo_candle 300000000))) demo_history = [True, False, False]"
    by (simp add: demo_history_def held_def demo_candle_def candle_key_def)
  show ?thesis
    using due_candles_stored_or_reported [OF tf demo_serves, where replies = demo_replies and answers = "\<lambda>n. True" and i = 7 and cutoff = None
      and required = demo_ranges and db = empty_candles] due held
    by (simp add: demo_reconciled)
qed

text \<open>The comment of the coverage function says that the end is aligned up to the next candle; the seconds are not
  counted, so a range that ends within the first minute of a candle never asks for that candle.\<close>

theorem last_partial_minute_not_scanned:
  "check_candle_coverage (\<lambda>k. None) i ''5'' 0 (59 * 1000000) = [] \<and>
   check_post_exit_coverage True (\<lambda>k. None) i ''5'' 0 (59 * 1000000) = Some True"
proof -
  have "align_to_grid 0 ''5'' = 0" "scan_end (59 * 1000000) ''5'' = 0"
    by (simp_all add: align_to_grid_def scan_end_def day_def minute_def)
  then have "check_candle_coverage (\<lambda>k. None) i ''5'' 0 (59 * 1000000) = []"
    unfolding check_candle_coverage_def by (subst scan_slots.simps) simp
  then show ?thesis by (simp add: check_post_exit_coverage_def)
qed

end
