(* ===== verification/Swings.thy ===== *)
theory Swings
  imports Indicators
begin

text \<open>
  The swing engine of the scanners (\<^verbatim>\<open>src/app/scanners/swing_engine.py\<close>): swing points,
  order blocks, change of character, displacement, liquidity sweeps and rejections over a list of
  candles. A lookback is a natural number; every scanner passes 3 or 5, so the division by the
  lookback and the slices \<^verbatim>\<open>candles[-n:]\<close> have a positive length.
\<close>

section \<open>Swing points\<close>

record swing_point =
  sp_time :: int
  sp_price :: rat
  sp_direction :: string
  sp_index :: nat

text \<open>\<^verbatim>\<open>max(xs)\<close> and \<^verbatim>\<open>min(xs)\<close> of a non-empty list.\<close>

definition py_max :: "rat list \<Rightarrow> rat" where
  "py_max xs = foldl max (hd xs) (tl xs)"

definition py_min :: "rat list \<Rightarrow> rat" where
  "py_min xs = foldl min (hd xs) (tl xs)"

definition is_swing_high :: "candle list \<Rightarrow> nat \<Rightarrow> nat \<Rightarrow> bool" where
  "is_swing_high cs lookback i =
     list_all (\<lambda>j. cl_high (cs ! (i - j)) \<le> cl_high (cs ! i) \<and> cl_high (cs ! (i + j)) \<le> cl_high (cs ! i)) [1..<lookback + 1]"

definition is_swing_low :: "candle list \<Rightarrow> nat \<Rightarrow> nat \<Rightarrow> bool" where
  "is_swing_low cs lookback i =
     list_all (\<lambda>j. cl_low (cs ! (i - j)) \<ge> cl_low (cs ! i) \<and> cl_low (cs ! (i + j)) \<ge> cl_low (cs ! i)) [1..<lookback + 1]"

definition find_swing_highs :: "candle list \<Rightarrow> nat \<Rightarrow> swing_point list" where
  "find_swing_highs cs lookback =
     map (\<lambda>i. \<lparr>sp_time = cl_time (cs ! i), sp_price = cl_high (cs ! i), sp_direction = ''high'', sp_index = i\<rparr>)
       (filter (is_swing_high cs lookback) [lookback..<length cs - lookback])"

definition find_swing_lows :: "candle list \<Rightarrow> nat \<Rightarrow> swing_point list" where
  "find_swing_lows cs lookback =
     map (\<lambda>i. \<lparr>sp_time = cl_time (cs ! i), sp_price = cl_low (cs ! i), sp_direction = ''low'', sp_index = i\<rparr>)
       (filter (is_swing_low cs lookback) [lookback..<length cs - lookback])"

definition find_nearest_swing_high :: "candle list \<Rightarrow> rat option" where
  "find_nearest_swing_high cs =
     (let highs = find_swing_highs cs 3 in if highs = [] then None else Some (sp_price (last highs)))"

definition find_nearest_swing_low :: "candle list \<Rightarrow> rat option" where
  "find_nearest_swing_low cs =
     (let lows = find_swing_lows cs 3 in if lows = [] then None else Some (sp_price (last lows)))"

section \<open>Order blocks\<close>

record order_block =
  ob_type :: string
  ob_high :: rat
  ob_low :: rat
  ob_time :: int
  ob_index :: nat

definition candle_body :: "candle \<Rightarrow> rat" where
  "candle_body c = fsub (cl_close c) (cl_open c)"

definition candle_range :: "candle \<Rightarrow> rat" where
  "candle_range c = fsub (cl_high c) (cl_low c)"

definition block_of :: "string \<Rightarrow> candle \<Rightarrow> nat \<Rightarrow> order_block" where
  "block_of kind c i = \<lparr>ob_type = kind, ob_high = cl_high c, ob_low = cl_low c, ob_time = cl_time c, ob_index = i\<rparr>"

definition order_blocks_at :: "candle list \<Rightarrow> nat \<Rightarrow> nat \<Rightarrow> order_block list" where
  "order_blocks_at cs lookback i =
     (let body_prev = candle_body (cs ! (i - 1)); body_curr = candle_body (cs ! i);
          avg_range = fdiv (py_sum (map candle_range (take lookback (drop (i - lookback) cs)))) (of_nat lookback);
          strong = candle_range (cs ! i) > fmul avg_range (fl (8 / 10))
      in (if body_prev < 0 \<and> body_curr > 0 \<and> body_curr > fmul 2 \<bar>body_prev\<bar> \<and> strong
          then [block_of ''bullish'' (cs ! (i - 1)) (i - 1)] else []) @
         (if body_prev > 0 \<and> body_curr < 0 \<and> \<bar>body_curr\<bar> > fmul 2 body_prev \<and> strong
          then [block_of ''bearish'' (cs ! i) i] else []))"

definition find_order_blocks :: "candle list \<Rightarrow> nat \<Rightarrow> order_block list" where
  "find_order_blocks cs lookback = concat (map (order_blocks_at cs lookback) [lookback + 1..<length cs])"

section \<open>Change of character, displacement, sweep, rejection\<close>

text \<open>\<^verbatim>\<open>xs[-2]\<close>\<close>

definition second_last :: "'a list \<Rightarrow> 'a" where
  "second_last xs = xs ! (length xs - 2)"

definition detect_choch :: "candle list \<Rightarrow> nat \<Rightarrow> string option" where
  "detect_choch cs lookback =
     (if length cs < lookback * 3 then None
      else let highs = find_swing_highs cs lookback; lows = find_swing_lows cs lookback
           in if length highs < 2 \<or> length lows < 2 then None
              else let last_close = cl_close (last cs)
                   in if last_close > sp_price (last highs) \<and> sp_price (last lows) < sp_price (second_last lows)
                      then Some ''bullish_choch''
                      else if last_close < sp_price (last lows) \<and> sp_price (last highs) > sp_price (second_last highs)
                      then Some ''bearish_choch'' else None)"

definition mean_of :: "rat list \<Rightarrow> nat \<Rightarrow> rat" where
  "mean_of xs n = fdiv (py_sum xs) (of_nat n)"

definition detect_displacement :: "candle list \<Rightarrow> nat \<Rightarrow> rat \<Rightarrow> string option" where
  "detect_displacement cs n threshold =
     (if length cs < n + 1 then None
      else let recent = last_n n cs;
               avg_range = mean_of (map candle_range (last_n 20 cs)) (min 20 (length cs));
               avg_vol = mean_of (map cl_volume (last_n 20 cs)) (min 20 (length cs));
               total_move = fsub (cl_close (last recent)) (cl_open (hd recent));
               total_range = fsub (py_max (map cl_high recent)) (py_min (map cl_low recent));
               avg_recent_vol = mean_of (map cl_volume recent) n
           in if total_range > fmul avg_range threshold \<and> avg_recent_vol > avg_vol
              then if total_move > 0 then Some ''bullish_displacement''
                   else if total_move < 0 then Some ''bearish_displacement'' else None
              else None)"

definition detect_liquidity_sweep :: "candle list \<Rightarrow> rat \<Rightarrow> bool \<Rightarrow> bool" where
  "detect_liquidity_sweep cs level is_high =
     (if cs = [] then False
      else if is_high then cl_high (last cs) > level \<and> cl_close (last cs) < level
      else cl_low (last cs) < level \<and> cl_close (last cs) > level)"

definition detect_rejection :: "candle \<Rightarrow> string \<Rightarrow> bool" where
  "detect_rejection c direction =
     (let body = \<bar>candle_body c\<bar>
      in if direction = ''bullish''
         then fsub (min (cl_open c) (cl_close c)) (cl_low c) > fmul 2 body \<and> body > 0
         else fsub (cl_high c) (max (cl_open c) (cl_close c)) > fmul 2 body \<and> body > 0)"

section \<open>Swings never repaint\<close>

lemma is_swing_high_append:
  "i + lookback < length cs \<Longrightarrow> is_swing_high (cs @ later) lookback i = is_swing_high cs lookback i"
  unfolding is_swing_high_def by (intro list.pred_cong refl) (auto simp: nth_append)

lemma is_swing_low_append:
  "i + lookback < length cs \<Longrightarrow> is_swing_low (cs @ later) lookback i = is_swing_low cs lookback i"
  unfolding is_swing_low_def by (intro list.pred_cong refl) (auto simp: nth_append)

lemma swing_range_append:
  "[lookback..<length (cs @ later) - lookback] =
     [lookback..<length cs - lookback] @ [max lookback (length cs - lookback)..<length (cs @ later) - lookback]"
proof (cases "lookback \<le> length cs - lookback")
  case True
  then have "length (cs @ later) - lookback = (length cs - lookback) + length later" by simp
  then show ?thesis using upt_add_eq_append [OF True, of "length later"] True by (simp add: max_def)
next
  case False
  then show ?thesis by (simp add: max_def)
qed

text \<open>A list of indices filtered by a predicate that only looks at settled candles.\<close>

lemma settled_scan:
  assumes "\<And>i. i + lookback < length cs \<Longrightarrow> P' i = P i \<and> f' i = f i"
  shows "map f' (filter P' [lookback..<length (cs @ later) - lookback]) =
    map f (filter P [lookback..<length cs - lookback]) @
    map f' (filter P' [max lookback (length cs - lookback)..<length (cs @ later) - lookback])"
proof -
  have "map f' (filter P' [lookback..<length cs - lookback]) = map f (filter P [lookback..<length cs - lookback])"
    using assms by (intro map_cong filter_cong) auto
  then show ?thesis by (simp only: swing_range_append filter_append map_append)
qed

lemma swing_highs_append:
  obtains rest where "find_swing_highs (cs @ later) lookback = find_swing_highs cs lookback @ rest"
    "list_all (\<lambda>s. length cs \<le> sp_index s + lookback) rest"
proof (rule that)
  show "find_swing_highs (cs @ later) lookback = find_swing_highs cs lookback @
      map (\<lambda>i. \<lparr>sp_time = cl_time ((cs @ later) ! i), sp_price = cl_high ((cs @ later) ! i), sp_direction = ''high'', sp_index = i\<rparr>)
        (filter (is_swing_high (cs @ later) lookback) [max lookback (length cs - lookback)..<length (cs @ later) - lookback])"
    unfolding find_swing_highs_def by (rule settled_scan) (simp add: is_swing_high_append nth_append)
qed (auto simp: list_all_iff)

lemma swing_lows_append:
  obtains rest where "find_swing_lows (cs @ later) lookback = find_swing_lows cs lookback @ rest"
    "list_all (\<lambda>s. length cs \<le> sp_index s + lookback) rest"
proof (rule that)
  show "find_swing_lows (cs @ later) lookback = find_swing_lows cs lookback @
      map (\<lambda>i. \<lparr>sp_time = cl_time ((cs @ later) ! i), sp_price = cl_low ((cs @ later) ! i), sp_direction = ''low'', sp_index = i\<rparr>)
        (filter (is_swing_low (cs @ later) lookback) [max lookback (length cs - lookback)..<length (cs @ later) - lookback])"
    unfolding find_swing_lows_def by (rule settled_scan) (simp add: is_swing_low_append nth_append)
qed (auto simp: list_all_iff)

text \<open>New candles never repaint the past: the swing points found in a history are exactly the first ones
  found in every longer history, and each point that a longer history adds needed a candle of the extension
  to confirm it.\<close>

theorem swings_never_repaint:
  "take (length (find_swing_highs cs lookback)) (find_swing_highs (cs @ later) lookback) = find_swing_highs cs lookback \<and>
   take (length (find_swing_lows cs lookback)) (find_swing_lows (cs @ later) lookback) = find_swing_lows cs lookback \<and>
   list_all (\<lambda>s. length cs \<le> sp_index s + lookback) (drop (length (find_swing_highs cs lookback)) (find_swing_highs (cs @ later) lookback)) \<and>
   list_all (\<lambda>s. length cs \<le> sp_index s + lookback) (drop (length (find_swing_lows cs lookback)) (find_swing_lows (cs @ later) lookback))"
proof -
  obtain h where h: "find_swing_highs (cs @ later) lookback = find_swing_highs cs lookback @ h"
    "list_all (\<lambda>s. length cs \<le> sp_index s + lookback) h" by (rule swing_highs_append)
  obtain l where l: "find_swing_lows (cs @ later) lookback = find_swing_lows cs lookback @ l"
    "list_all (\<lambda>s. length cs \<le> sp_index s + lookback) l" by (rule swing_lows_append)
  show ?thesis by (simp add: h l)
qed

section \<open>Bullish and bearish detection are mirror images\<close>

text \<open>The candle of the negated price.\<close>

definition mirror :: "candle \<Rightarrow> candle" where
  "mirror c = \<lparr>cl_time = cl_time c, cl_open = - cl_open c, cl_high = - cl_low c, cl_low = - cl_high c,
              cl_close = - cl_close c, cl_volume = cl_volume c\<rparr>"

lemma mirror_simps [simp]:
  "cl_time (mirror c) = cl_time c" "cl_open (mirror c) = - cl_open c" "cl_high (mirror c) = - cl_low c"
  "cl_low (mirror c) = - cl_high c" "cl_close (mirror c) = - cl_close c" "cl_volume (mirror c) = cl_volume c"
  by (simp_all add: mirror_def)

lemma fsub_mirror [simp]: "fsub (- a) (- b) = - fsub a b"
  using fl_minus [of "a - b"] by (simp add: fsub_def)

lemma fsub_swap: "fsub (- a) (- b) = fsub b a"
  by (simp add: fsub_def)

lemma range_mirror [simp]: "candle_range (mirror c) = candle_range c"
  by (simp add: candle_range_def fsub_swap del: fsub_mirror)

lemma body_mirror [simp]: "candle_body (mirror c) = - candle_body c"
  by (simp add: candle_body_def)

lemma range_comp_mirror [simp]: "candle_range \<circ> mirror = candle_range" "cl_volume \<circ> mirror = cl_volume"
  by (simp_all add: fun_eq_iff)

lemma foldl_max_mirror: "foldl max (- a) (map uminus xs) = - foldl min a (xs :: rat list)"
  by (induction xs arbitrary: a) (simp_all add: minus_min_eq_max [symmetric])

lemma foldl_min_mirror: "foldl min (- a) (map uminus xs) = - foldl max a (xs :: rat list)"
  by (induction xs arbitrary: a) (simp_all add: minus_max_eq_min [symmetric])

lemma extremes_mirror:
  assumes "cs \<noteq> []"
  shows "py_max (map (cl_high \<circ> mirror) cs) = - py_min (map cl_low cs)"
    "py_min (map (cl_low \<circ> mirror) cs) = - py_max (map cl_high cs)"
proof -
  from assms obtain c cs' where c: "cs = c # cs'" by (cases cs) auto
  show "py_max (map (cl_high \<circ> mirror) cs) = - py_min (map cl_low cs)"
    using foldl_max_mirror [of "cl_low c" "map cl_low cs'"] by (simp add: c py_max_def py_min_def o_def)
  show "py_min (map (cl_low \<circ> mirror) cs) = - py_max (map cl_high cs)"
    using foldl_min_mirror [of "cl_high c" "map cl_high cs'"] by (simp add: c py_max_def py_min_def o_def)
qed

lemma last_n_map: "last_n n (map f xs) = map f (last_n n xs)"
  by (simp add: last_n_def drop_map)

lemma swing_low_mirror: "i + lookback < length cs \<Longrightarrow> is_swing_low (map mirror cs) lookback i = is_swing_high cs lookback i"
  unfolding is_swing_low_def is_swing_high_def by (intro list.pred_cong refl) auto

lemma swing_high_mirror: "i + lookback < length cs \<Longrightarrow> is_swing_high (map mirror cs) lookback i = is_swing_low cs lookback i"
  unfolding is_swing_low_def is_swing_high_def by (intro list.pred_cong refl) auto

definition mirror_point :: "swing_point \<Rightarrow> swing_point" where
  "mirror_point s = s\<lparr>sp_price := - sp_price s, sp_direction := (if sp_direction s = ''high'' then ''low'' else ''high'')\<rparr>"

lemma find_lows_mirror: "find_swing_lows (map mirror cs) lookback = map mirror_point (find_swing_highs cs lookback)"
proof -
  have "filter (is_swing_low (map mirror cs) lookback) [lookback..<length cs - lookback] =
      filter (is_swing_high cs lookback) [lookback..<length cs - lookback]"
    by (rule filter_cong) (auto simp: swing_low_mirror)
  then show ?thesis by (auto simp: find_swing_lows_def find_swing_highs_def mirror_point_def)
qed

lemma find_highs_mirror: "find_swing_highs (map mirror cs) lookback = map mirror_point (find_swing_lows cs lookback)"
proof -
  have "filter (is_swing_high (map mirror cs) lookback) [lookback..<length cs - lookback] =
      filter (is_swing_low cs lookback) [lookback..<length cs - lookback]"
    by (rule filter_cong) (auto simp: swing_high_mirror)
  then show ?thesis by (auto simp: find_swing_lows_def find_swing_highs_def mirror_point_def)
qed

definition flip :: "string \<Rightarrow> string" where
  "flip d = (if d = ''bullish_choch'' then ''bearish_choch'' else if d = ''bearish_choch'' then ''bullish_choch''
             else if d = ''bullish_displacement'' then ''bearish_displacement''
             else if d = ''bearish_displacement'' then ''bullish_displacement'' else d)"

lemma mirror_point_price [simp]: "sp_price (mirror_point s) = - sp_price s"
  by (simp add: mirror_point_def)

lemma second_price_mirror:
  "2 \<le> length xs \<Longrightarrow> sp_price (second_last (map mirror_point xs)) = - sp_price (second_last xs)"
  by (simp add: second_last_def)

text \<open>The two cases of a change of character, as the scanner tests them.\<close>

lemma choch_cases:
  "detect_choch cs lookback =
     (if length cs < lookback * 3 \<or> length (find_swing_highs cs lookback) < 2 \<or> length (find_swing_lows cs lookback) < 2 then None
      else if cl_close (last cs) > sp_price (last (find_swing_highs cs lookback)) \<and>
        sp_price (last (find_swing_lows cs lookback)) < sp_price (second_last (find_swing_lows cs lookback))
      then Some ''bullish_choch''
      else if cl_close (last cs) < sp_price (last (find_swing_lows cs lookback)) \<and>
        sp_price (last (find_swing_highs cs lookback)) > sp_price (second_last (find_swing_highs cs lookback))
      then Some ''bearish_choch'' else None)"
  by (simp add: detect_choch_def Let_def)

lemma choch_mirror:
  "detect_choch (map mirror cs) lookback = map_option flip (detect_choch cs lookback) \<or>
   (detect_choch cs lookback = Some ''bullish_choch'' \<and> detect_choch (map mirror cs) lookback = Some ''bullish_choch'')"
proof (cases "length cs < lookback * 3 \<or> length (find_swing_highs cs lookback) < 2 \<or> length (find_swing_lows cs lookback) < 2")
  case True
  then show ?thesis by (auto simp: choch_cases find_lows_mirror find_highs_mirror)
next
  case False
  let ?h = "find_swing_highs cs lookback" and ?l = "find_swing_lows cs lookback"
  have ne: "?h \<noteq> []" "?l \<noteq> []" "2 \<le> length ?h" "2 \<le> length ?l" using False by auto
  have c: "cs \<noteq> []" using ne(1) by (auto simp: find_swing_highs_def)
  show ?thesis
    using False ne c
    by (simp add: choch_cases find_lows_mirror find_highs_mirror second_price_mirror last_map flip_def)
qed

lemma displacement_mirror:
  "detect_displacement (map mirror cs) (Suc n) threshold = map_option flip (detect_displacement cs (Suc n) threshold)"
proof (cases "length cs < Suc n + 1")
  case False
  let ?r = "last_n (Suc n) cs"
  have r: "?r \<noteq> []" using False by (simp add: last_n_def)
  have move: "fsub (cl_open (hd ?r)) (cl_close (last ?r)) = - fsub (cl_close (last ?r)) (cl_open (hd ?r))"
    using fsub_mirror [of "cl_close (last ?r)" "cl_open (hd ?r)"] by (simp only: fsub_swap)
  show ?thesis
    using False
    by (simp add: detect_displacement_def Let_def last_n_map r last_map hd_map extremes_mirror [OF r] fsub_swap move flip_def
          del: fsub_mirror)
qed (simp add: detect_displacement_def)

lemma sweep_mirror: "detect_liquidity_sweep (map mirror cs) (- level) (\<not> is_high) = detect_liquidity_sweep cs level is_high"
  by (auto simp: detect_liquidity_sweep_def last_map)

lemma rejection_mirror: "detect_rejection (mirror c) ''bearish'' = detect_rejection c ''bullish''"
  by (simp add: detect_rejection_def Let_def minus_min_eq_max [symmetric] fsub_swap del: fsub_mirror)

text \<open>Bullish and bearish detection are the same code in a mirror: on the history of the negated prices the
  engine finds the swing lows where it found the swing highs and reports the opposite displacement, sweep
  and rejection. A change of character is mirrored too, except where both of its cases hold at once: then
  it is called bullish on either side.\<close>

theorem detection_is_symmetric:
  "find_swing_lows (map mirror cs) lookback = map mirror_point (find_swing_highs cs lookback) \<and>
   find_swing_highs (map mirror cs) lookback = map mirror_point (find_swing_lows cs lookback) \<and>
   detect_displacement (map mirror cs) (Suc n) threshold = map_option flip (detect_displacement cs (Suc n) threshold) \<and>
   detect_liquidity_sweep (map mirror cs) (- level) (\<not> is_high) = detect_liquidity_sweep cs level is_high \<and>
   detect_rejection (mirror c) ''bearish'' = detect_rejection c ''bullish'' \<and>
   (detect_choch (map mirror cs) lookback = map_option flip (detect_choch cs lookback) \<or>
    (detect_choch cs lookback = Some ''bullish_choch'' \<and> detect_choch (map mirror cs) lookback = Some ''bullish_choch''))"
  using find_lows_mirror find_highs_mirror displacement_mirror sweep_mirror rejection_mirror choch_mirror by blast

text \<open>The order blocks are not mirrored: a bullish block is the opposite candle before the move, a bearish
  block is the moving candle itself.\<close>

lemma order_block_candle:
  assumes "b \<in> set (order_blocks_at cs lookback i)"
  shows "b = block_of (ob_type b) (cs ! ob_index b) (ob_index b) \<and>
    (ob_type b = ''bullish'' \<and> ob_index b = i - 1 \<or> ob_type b = ''bearish'' \<and> ob_index b = i)"
  using assms by (auto simp: order_blocks_at_def Let_def block_of_def split: if_splits)

end
