(* ===== verification/MarketView.thy ===== *)
theory MarketView
  imports Swings Scanners
begin

text \<open>
  What a scanner sees (\<^verbatim>\<open>src/app/scanners/context_builder.py\<close>,
  \<^verbatim>\<open>src/app/scanners/models.py\<close>): the candles of a symbol, the indicators of the hour, the
  levels of the day and the week and the market regime; and the quality features that the scanners
  compute in the same way. \<open>pw\<close> stands for the C library's \<^verbatim>\<open>pow\<close>, the exchange client for
  the candles it returns.
\<close>

section \<open>Snapshot, levels, view\<close>

record indicator_snapshot =
  in_atr :: rat
  in_rsi :: rat
  in_ema20 :: rat
  in_ema50 :: rat
  in_ema200 :: rat
  in_bb_upper :: rat
  in_bb_lower :: rat
  in_bb_width :: rat
  in_volume_sma :: rat
  in_adx :: rat
  in_slope50 :: rat

record market_levels =
  lv_day_high :: rat
  lv_day_low :: rat
  lv_week_high :: rat
  lv_week_low :: rat
  lv_swing_highs :: "rat list"
  lv_swing_lows :: "rat list"
  lv_support :: "rat list"
  lv_resistance :: "rat list"

record scan_view = market_context +
  vw_ind :: indicator_snapshot
  vw_levels :: market_levels
  vw_at :: int
  vw_fetch :: "int option"

type_synonym power = "rat \<Rightarrow> rat \<Rightarrow> rat"

definition bollinger_bands :: "power \<Rightarrow> rat list \<Rightarrow> nat \<Rightarrow> rat \<Rightarrow> py_error + rat \<times> rat \<times> rat" where
  "bollinger_bands pw values period num_std =
     (if length values < period
      then Inl (ValueError (''Bollinger Bands require at least '' @ int_text (int period) @ '' values''))
      else rbind (div_checked (py_sum (last_n period values)) (of_nat period))
        (\<lambda>middle. rbind (div_checked (py_sum (map (\<lambda>v. pw (fsub v middle) 2) (last_n period values))) (of_nat period))
          (\<lambda>variance. let std = pw variance (1 / 2)
             in Inr (fadd middle (fmul num_std std), middle, fsub middle (fmul num_std std)))))"

text \<open>\<^verbatim>\<open>f(x) if ok else d\<close>, \<open>None\<close> when \<^verbatim>\<open>f\<close> raised.\<close>

definition value_or :: "bool \<Rightarrow> py_error + 'a \<Rightarrow> 'a \<Rightarrow> 'a option" where
  "value_or ok r d = (if ok then (case r of Inl e \<Rightarrow> None | Inr x \<Rightarrow> Some x) else Some d)"

definition build_indicators :: "power \<Rightarrow> candle list \<Rightarrow> indicator_snapshot option" where
  "build_indicators pw candles =
     (if candles = [] then None
      else let closes = map cl_close candles; volumes = map cl_volume candles; n = length candles in
        Option.bind (value_or (n > 14) (atr_wilder candles 14) 0) (\<lambda>atr.
        Option.bind (value_or (n > 14) (rsi_wilder closes 14) 50) (\<lambda>rsi.
        Option.bind (value_or (n \<ge> 20) (ema closes 20) (last closes)) (\<lambda>ema20.
        Option.bind (value_or (n \<ge> 50) (ema closes 50) (last closes)) (\<lambda>ema50.
        Option.bind (value_or (n \<ge> 200) (ema closes 200) (last closes)) (\<lambda>ema200.
        Option.bind (value_or (n \<ge> 20) (bollinger_bands pw closes 20 2) (0, 0, 0)) (\<lambda>(upper, mid, lower).
        Option.bind (value_or (n > 15) (adx candles 14) 0) (\<lambda>adx_val.
        Option.bind (value_or (n \<ge> 55) (ema_slope closes 50 5) 0) (\<lambda>slope.
          Some \<lparr>in_atr = atr, in_rsi = rsi, in_ema20 = ema20, in_ema50 = ema50, in_ema200 = ema200,
                in_bb_upper = upper, in_bb_lower = lower,
                in_bb_width = (if mid > 0 then fdiv (fsub upper lower) mid else 0),
                in_volume_sma = fdiv (py_sum (last_n 20 volumes)) (of_nat (min 20 n)),
                in_adx = adx_val, in_slope50 = slope\<rparr>)))))))))"

definition no_levels :: market_levels where
  "no_levels = \<lparr>lv_day_high = 0, lv_day_low = 0, lv_week_high = 0, lv_week_low = 0, lv_swing_highs = [],
                lv_swing_lows = [], lv_support = [], lv_resistance = []\<rparr>"

definition find_levels :: "candle list \<Rightarrow> market_levels" where
  "find_levels days =
     (if length days < 5 then no_levels
      else let prev_day = second_last days; week = last_n 5 days
           in no_levels\<lparr>lv_day_high := cl_high prev_day, lv_day_low := cl_low prev_day,
                lv_week_high := py_max (map cl_high week), lv_week_low := py_min (map cl_low week)\<rparr>)"

definition classify_market_regime :: "indicator_snapshot \<Rightarrow> rat \<Rightarrow> string" where
  "classify_market_regime ind price =
     (if in_bb_width ind \<ge> fl (8 / 100) then ''HIGH_VOLATILITY''
      else if in_ema20 ind > in_ema50 ind \<and> in_ema50 ind > in_ema200 ind \<and> price > in_ema20 ind then ''TREND_UP''
      else if in_ema20 ind < in_ema50 ind \<and> in_ema50 ind < in_ema200 ind \<and> price < in_ema20 ind then ''TREND_DOWN''
      else ''RANGE'')"

text \<open>\<open>klines symbol interval limit\<close> is the client's answer, \<open>None\<close> when it raised; the two times are
  the clock before the requests and after them.\<close>

definition build_market_context ::
  "power \<Rightarrow> (string \<Rightarrow> string \<Rightarrow> nat \<Rightarrow> candle list option) \<Rightarrow> string \<Rightarrow> int \<Rightarrow> int \<Rightarrow> scan_view option" where
  "build_market_context pw klines symbol started evaluated =
     Option.bind (klines symbol ''5'' 200) (\<lambda>c5.
     Option.bind (klines symbol ''15'' 200) (\<lambda>c15.
     Option.bind (klines symbol ''60'' 200) (\<lambda>c60.
     Option.bind (klines symbol ''D'' 8) (\<lambda>days.
     Option.bind (build_indicators pw c60) (\<lambda>ind.
       Some \<lparr>mc_symbol = symbol, mc_5m = c5, mc_15m = c15, mc_1h = c60, mc_4h = [],
             mc_regime = Some (classify_market_regime ind (cl_close (last c60))),
             vw_ind = ind, vw_levels = find_levels days, vw_at = evaluated, vw_fetch = Some started\<rparr>)))))"

section \<open>Setups\<close>

text \<open>The literal \<open>n / 1000\<close>, for example \<^verbatim>\<open>0.998\<close>.\<close>

definition milli :: "int \<Rightarrow> rat" where
  "milli n = fl (of_int n / 1000)"

text \<open>What a \<^verbatim>\<open>SetupCandidate\<close> takes from its surroundings when it is built: a fresh identity and the
  clock.\<close>

type_synonym stamp = "string \<times> int"

definition new_setup :: "stamp \<Rightarrow> scan_view \<Rightarrow> string \<Rightarrow> string \<Rightarrow> string \<Rightarrow> setup_candidate" where
  "new_setup st v scanner version direction =
     \<lparr>sc_id = fst st, sc_scanner = scanner, sc_version = version, sc_symbol = mc_symbol v, sc_direction = direction,
      sc_htf_tf = ''1h'', sc_setup_tf = ''15m'', sc_entry_tf = ''5m'', sc_detected = vw_at v, sc_started = snd st,
      sc_candle = 0, sc_price = 0, sc_low = 0, sc_high = 0, sc_stop = 0, sc_t1 = None, sc_t2 = None, sc_score = 0,
      sc_regime = mc_regime v, sc_reasons = [], sc_features = [], sc_sources = [], sc_state = SETUP_READY\<rparr>"

definition opt_list :: "'a option \<Rightarrow> 'a list" where
  "opt_list r = (case r of None \<Rightarrow> [] | Some x \<Rightarrow> [x])"

text \<open>\<^verbatim>\<open>datetime.fromtimestamp(ms / 1000)\<close> in microseconds: the fraction of the float is rounded.\<close>

definition from_timestamp :: "rat \<Rightarrow> int" where
  "from_timestamp s = py_int s * 1000000 + round_even (fmul (s - of_int (py_int s)) 1000000)"

definition from_millis :: "int \<Rightarrow> int" where
  "from_millis ms = from_timestamp (fdiv (of_int ms) 1000)"

section \<open>Quality features\<close>

definition body_ratio :: "candle \<Rightarrow> rat" where
  "body_ratio c = (if candle_range c \<le> 0 then 0 else fsub 1 (min (fdiv \<bar>candle_body c\<bar> (candle_range c)) 1))"

definition exhaustion_magnitude :: "rat \<Rightarrow> rat \<Rightarrow> rat" where
  "exhaustion_magnitude recent prior =
     (if prior \<le> 0 then 0 else min (fdiv (fdiv \<bar>fsub recent prior\<bar> prior) (milli 20)) 1)"

definition average_volume :: "candle list \<Rightarrow> nat \<Rightarrow> rat" where
  "average_volume cs n = fdiv (py_sum (map cl_volume (last_n n cs))) (of_nat (min (length cs) n))"

definition volume_quality :: "candle list \<Rightarrow> rat \<Rightarrow> rat" where
  "volume_quality cs scale =
     (let avg = average_volume cs 10 in if avg > 0 then min (fdiv (fdiv (cl_volume (last cs)) avg) scale) 1 else 0)"

definition rr_raw :: "rat \<Rightarrow> rat \<Rightarrow> rat \<Rightarrow> rat" where
  "rr_raw entry stop target =
     (let risk = \<bar>fsub entry stop\<bar> in if risk > 0 then fdiv \<bar>fsub target entry\<bar> risk else 0)"

definition rr_ratio :: "rat \<Rightarrow> rat \<Rightarrow> rat \<Rightarrow> rat" where
  "rr_ratio entry stop target = min (fdiv (rr_raw entry stop target) 3) 1"

definition stop_atr :: "rat \<Rightarrow> rat \<Rightarrow> rat \<Rightarrow> rat" where
  "stop_atr entry stop atr = (if atr > 0 then fdiv \<bar>fsub entry stop\<bar> atr else 2)"

definition stop_distance_atr :: "rat \<Rightarrow> rat \<Rightarrow> rat \<Rightarrow> rat" where
  "stop_distance_atr entry stop atr = max 0 (fsub 1 (min (fdiv (stop_atr entry stop atr) 2) 1))"

definition rejection_strength :: "candle \<Rightarrow> rat" where
  "rejection_strength c =
     (let body = \<bar>candle_body c\<bar>
      in if candle_range c \<le> 0 \<or> body \<le> 0 then 0 else min (fdiv (fdiv (fsub (candle_range c) body) body) 3) 1)"

definition regime_alignment :: "string \<Rightarrow> string option \<Rightarrow> rat" where
  "regime_alignment direction regime =
     (if direction = ''LONG'' \<and> regime = Some ''TREND_UP'' \<or> direction = ''SHORT'' \<and> regime = Some ''TREND_DOWN''
      then 1 else milli 300)"

section \<open>Features lie in the unit interval\<close>

definition in_unit :: "rat \<Rightarrow> bool" where
  "in_unit q \<longleftrightarrow> 0 \<le> q \<and> q \<le> 1"

lemma in_unit_const [simp]: "in_unit 0" "in_unit 1"
  by (simp_all add: in_unit_def)

lemma in_unit_min: "0 \<le> q \<Longrightarrow> in_unit (min q 1)"
  by (simp add: in_unit_def min_def)

lemma in_unit_rest: "0 \<le> q \<Longrightarrow> q \<le> 1 \<Longrightarrow> in_unit (fsub 1 q)"
  by (simp add: in_unit_def fsub_nonneg fsub_le_left)

lemma in_unit_clip: "0 \<le> q \<Longrightarrow> in_unit (max 0 (fsub 1 (min q 1)))"
  using in_unit_rest [of "min q 1"] by (auto simp: in_unit_def min_def split: if_splits)

lemma in_unit_clamp: "in_unit (max 0 (min q 1))"
  by (auto simp: in_unit_def max_def min_def)

lemma rr_raw_nonneg: "0 \<le> rr_raw entry stop target"
  by (simp add: rr_raw_def Let_def fdiv_nonneg)

lemma stop_atr_nonneg: "0 \<le> stop_atr entry stop atr"
  by (simp add: stop_atr_def fdiv_nonneg)

lemma milli_nonneg [simp]: "0 \<le> n \<Longrightarrow> 0 \<le> milli n"
  by (simp add: milli_def f64.rnd_nonneg)

lemma milli_le_1: "n \<le> 1000 \<Longrightarrow> milli n \<le> 1"
  unfolding milli_def by (rule f64.rnd_le_rep) (use is_double_1 in \<open>simp_all add: is_double_def\<close>)

text \<open>The features of every scanner that do not depend on volumes or candle shapes.\<close>

lemma unit_features:
  "in_unit (body_ratio c)" "in_unit (exhaustion_magnitude recent prior)" "in_unit (rr_ratio entry stop target)"
  "in_unit (stop_distance_atr entry stop atr)" "in_unit (regime_alignment direction regime)"
proof -
  show "in_unit (body_ratio c)"
    by (auto simp: body_ratio_def intro!: in_unit_rest fdiv_nonneg)
  show "in_unit (exhaustion_magnitude recent prior)"
    by (auto simp: exhaustion_magnitude_def intro!: in_unit_min fdiv_nonneg)
  show "in_unit (rr_ratio entry stop target)"
    by (simp add: rr_ratio_def in_unit_min fdiv_nonneg rr_raw_nonneg)
  show "in_unit (stop_distance_atr entry stop atr)"
    by (simp add: stop_distance_atr_def in_unit_clip fdiv_nonneg stop_atr_nonneg)
  show "in_unit (regime_alignment direction regime)"
    by (simp add: regime_alignment_def in_unit_def milli_le_1)
qed

lemma volume_quality_unit: "0 \<le> cl_volume (last cs) \<Longrightarrow> 0 < scale \<Longrightarrow> in_unit (volume_quality cs scale)"
  by (auto simp: volume_quality_def Let_def intro!: in_unit_min fdiv_nonneg)

section \<open>Scaled prices keep their order\<close>

text \<open>A price that floating point can scale by a factor near one without losing precision.\<close>

definition sane_price :: "rat \<Rightarrow> bool" where
  "sane_price p \<longleftrightarrow> 1 / 2 ^ 100 \<le> p"

lemma sane_price_pos: "sane_price p \<Longrightarrow> 0 < p"
proof -
  assume "sane_price p"
  moreover have "0 < (1 / 2 ^ 100 :: rat)" by simp
  ultimately show ?thesis unfolding sane_price_def by linarith
qed

lemma fmul_near:
  assumes "sane_price p" "1 / 2 \<le> q"
  shows "\<bar>fmul p q - p * q\<bar> \<le> p * q * ueps"
proof -
  have pos: "0 < p" "0 < q" using assms sane_price_pos by auto
  have "(2::rat) powi - 1022 \<le> 2 powi - int 101" by (intro power_int_increasing) auto
  also have "\<dots> = 1 / 2 ^ 101" by (simp only: power_int_minus power_int_of_nat inverse_eq_divide)
  also have "\<dots> = 1 / 2 ^ 100 * (1 / 2)" by simp
  also have "\<dots> \<le> p * q"
    using assms(1) pos unfolding sane_price_def by (intro mult_mono assms(2)) auto
  finally show ?thesis using fl_rel_normal [of "p * q"] pos by (simp add: fmul_def abs_mult)
qed

lemma fmul_less:
  assumes p: "sane_price p" and q: "1 / 2 \<le> q" "q + 1 / 1024 \<le> r" "r \<le> 2"
  shows "fmul p q < fmul p r"
proof -
  have pos: "0 < p" using p by (rule sane_price_pos)
  have u: "0 < ueps" "ueps * 4 < 1 / 1024" by (simp_all add: ueps_def)
  have "q * (1 + ueps) = q + q * ueps" by (simp add: distrib_left)
  also have "\<dots> \<le> q + 2 * ueps" using q u by (intro add_left_mono mult_right_mono) simp_all
  also have "\<dots> < r - 2 * ueps" using q(2) u(2) by linarith
  also have "\<dots> \<le> r - r * ueps" using q u by (intro diff_left_mono mult_right_mono) simp_all
  finally have qr: "p * (q * (1 + ueps)) < p * (r - r * ueps)" using pos by (intro mult_strict_left_mono)
  have "fmul p q \<le> p * (q * (1 + ueps))"
    using fmul_near [OF p q(1)] by (simp add: distrib_left mult.assoc [symmetric] abs_le_iff)
  also note qr
  also have "p * (r - r * ueps) \<le> fmul p r"
    using fmul_near [OF p, of r] q by (simp add: right_diff_distrib mult.assoc [symmetric] abs_le_iff)
  finally show ?thesis .
qed

lemma fmul_pos: "sane_price p \<Longrightarrow> 1 / 2 \<le> q \<Longrightarrow> 0 < fmul p q"
proof -
  assume p: "sane_price p" and q: "1 / 2 \<le> q"
  have "0 < p * q" using sane_price_pos [OF p] q by simp
  then have "p * q * ueps < p * q" by (simp add: ueps_def)
  then show ?thesis using fmul_near [OF p q] by (simp add: abs_le_iff)
qed

lemma fl_ge_1024: "of_int m / 1024 \<le> x \<Longrightarrow> \<bar>m\<bar> \<le> 2 ^ 53 \<Longrightarrow> of_int m / 1024 \<le> fl x"
  using fl_dyadic [of m 10] by (intro f64.rnd_ge_rep) simp_all

lemma fl_le_1024: "x \<le> of_int m / 1024 \<Longrightarrow> \<bar>m\<bar> \<le> 2 ^ 53 \<Longrightarrow> fl x \<le> of_int m / 1024"
  using fl_dyadic [of m 10] by (intro f64.rnd_le_rep) simp_all

lemmas milli_ge = fl_ge_1024 [where x = "of_int n / 1000" for n, folded milli_def]
lemmas milli_le = fl_le_1024 [where x = "of_int n / 1000" for n, folded milli_def]

text \<open>The factors of the scanners, between neighbouring multiples of 1/1024.\<close>

lemma factor_bounds:
  "1021 / 1024 \<le> milli 998" "milli 998 \<le> 1022 / 1024" "1022 / 1024 \<le> milli 999" "milli 999 \<le> 1023 / 1024"
  "1025 / 1024 \<le> milli 1001" "milli 1001 \<le> 1026 / 1024" "1026 / 1024 \<le> milli 1002" "milli 1002 \<le> 1027 / 1024"
  using milli_ge [of 1021 998] milli_le [of 998 1022] milli_ge [of 1022 999] milli_le [of 999 1023]
    milli_ge [of 1025 1001] milli_le [of 1001 1026] milli_ge [of 1026 1002] milli_le [of 1002 1027] by simp_all

section \<open>The context exists exactly when the exchange answered\<close>

lemma value_or_total: "(ok \<Longrightarrow> \<exists>x. r = Inr x) \<Longrightarrow> \<exists>x. value_or ok r d = Some x"
  by (auto simp: value_or_def)

lemma indicator_answers:
  "14 < length cs \<Longrightarrow> \<exists>x. atr_wilder cs 14 = Inr x" "14 < length xs \<Longrightarrow> \<exists>x. rsi_wilder xs 14 = Inr x"
  "0 < p \<Longrightarrow> p \<le> length xs \<Longrightarrow> \<exists>x. ema xs p = Inr x" "20 \<le> length xs \<Longrightarrow> \<exists>x. bollinger_bands pw xs 20 2 = Inr x"
  "15 < length cs \<Longrightarrow> \<exists>x. adx cs 14 = Inr x" "55 \<le> length xs \<Longrightarrow> \<exists>x. ema_slope xs 50 5 = Inr x"
proof -
  show ema: "\<exists>x. ema xs p = Inr x" if "0 < p" "p \<le> length xs" for p and xs :: "rat list"
    using that by (simp add: ema_def div_checked_def)
  show "\<exists>x. ema_slope xs 50 5 = Inr x" if l: "55 \<le> length xs"
  proof -
    have "\<exists>a. ema xs 50 = Inr a" "\<exists>b. ema (take (length xs - 5) xs) 50 = Inr b" using l by (simp_all add: ema)
    then show ?thesis using l by (auto simp: ema_slope_def)
  qed
qed (simp_all add: atr_wilder_def rsi_wilder_def bollinger_bands_def div_checked_def adx_def Let_def)

lemma build_indicators_total: "build_indicators pw cs = None \<longleftrightarrow> cs = []"
proof (cases "cs = []")
  case False
  let ?xs = "map cl_close cs"
  obtain a where a: "value_or (length cs > 14) (atr_wilder cs 14) 0 = Some a"
    using value_or_total [OF indicator_answers(1)] by blast
  obtain r where r: "value_or (length cs > 14) (rsi_wilder ?xs 14) 50 = Some r"
    using value_or_total [OF indicator_answers(2) [of ?xs]] by (metis length_map)
  have e: "\<exists>x. value_or (p \<le> length cs) (ema ?xs p) (last ?xs) = Some x" if "0 < p" for p
    using that by (intro value_or_total indicator_answers(3)) simp_all
  obtain e1 e2 e3 where "value_or (20 \<le> length cs) (ema ?xs 20) (last ?xs) = Some e1"
    "value_or (50 \<le> length cs) (ema ?xs 50) (last ?xs) = Some e2" "value_or (200 \<le> length cs) (ema ?xs 200) (last ?xs) = Some e3"
    using e [of 20] e [of 50] e [of 200] by auto
  moreover obtain b where "value_or (20 \<le> length cs) (bollinger_bands pw ?xs 20 2) (0, 0, 0) = Some b"
    using value_or_total [OF indicator_answers(4) [of ?xs]] by (metis length_map)
  moreover obtain x where "value_or (length cs > 15) (adx cs 14) 0 = Some x"
    using value_or_total [OF indicator_answers(5)] by blast
  moreover obtain s where "value_or (55 \<le> length cs) (ema_slope ?xs 50 5) 0 = Some s"
    using value_or_total [OF indicator_answers(6) [of ?xs]] by (metis length_map)
  ultimately show ?thesis using False a r by (simp add: build_indicators_def Let_def split_beta)
qed (simp add: build_indicators_def)

text \<open>A scan context is missing only when the exchange client raised or the hour has no candle at all:
  every shorter history than an indicator needs has its default instead.\<close>

theorem context_exists_iff:
  "build_market_context pw klines s t0 t1 = None \<longleftrightarrow>
     klines s ''5'' 200 = None \<or> klines s ''15'' 200 = None \<or> klines s ''60'' 200 = None \<or>
     klines s ''D'' 8 = None \<or> klines s ''60'' 200 = Some []"
  by (cases "klines s ''5'' 200"; cases "klines s ''15'' 200"; cases "klines s ''60'' 200"; cases "klines s ''D'' 8")
    (auto simp: build_market_context_def build_indicators_total bind_eq_None_conv)

end
