(* ===== verification/Momentum.thy ===== *)
theory Momentum
  imports MarketView
begin

text \<open>
  The momentum exhaustion scanners: \<^verbatim>\<open>momentum_exhaustion.py\<close>, its reversal
  \<^verbatim>\<open>momentum_exhaustion_r.py\<close>, the frozen experiments
  \<^verbatim>\<open>momentum_exhaustion_reverse_long_v1.py\<close> and \<^verbatim>\<open>_v2.py\<close> and the funnel counters of the
  latter (\<^verbatim>\<open>funnel_diagnostics.py\<close>), all under \<^verbatim>\<open>src/app/scanners\<close>. Each scanner is
  written out as in its file: that they share one detection is a theorem. A stamp is the identity and
  the clock that a setup takes when it is built.
\<close>

section \<open>Momentum exhaustion\<close>

record exhaustion_params =
  ep_lookback :: nat
  ep_threshold :: rat

definition exhaustion_default :: exhaustion_params where
  "exhaustion_default = \<lparr>ep_lookback = 5, ep_threshold = milli 3\<rparr>"

definition view_atr :: "scan_view \<Rightarrow> rat \<Rightarrow> rat" where
  "view_atr v fallback = (if in_atr (vw_ind v) > 0 then in_atr (vw_ind v) else fallback)"

text \<open>RSI inside the overbought zone (65 to 80) or the oversold zone (35 to 20), as a fraction.\<close>

definition overbought :: "rat \<Rightarrow> rat" where
  "overbought rsi = max 0 (min (fdiv (fsub rsi 65) 15) 1)"

definition oversold :: "rat \<Rightarrow> rat" where
  "oversold rsi = max 0 (min (fdiv (fsub 35 rsi) 15) 1)"

definition exhaustion_features ::
  "candle list \<Rightarrow> rat \<Rightarrow> rat \<Rightarrow> rat \<Rightarrow> rat \<Rightarrow> rat \<Rightarrow> rat \<Rightarrow> rat \<Rightarrow> (string \<times> json) list" where
  "exhaustion_features c5 prior recent entry stop target atr rsi_conf =
     [(''exhaustion_magnitude'', JFloat (exhaustion_magnitude recent prior)),
      (''body_ratio'', JFloat (body_ratio (last c5))),
      (''rsi_confirmation'', JFloat rsi_conf),
      (''volume_ratio'', JFloat (volume_quality c5 2)),
      (''rr_ratio'', JFloat (rr_ratio entry stop target)),
      (''stop_distance_atr'', JFloat (stop_distance_atr entry stop atr))]"

definition me_scan_short :: "exhaustion_params \<Rightarrow> stamp \<Rightarrow> scan_view \<Rightarrow> setup_candidate option" where
  "me_scan_short ep st v =
     (let c15 = mc_15m v; c5 = mc_5m v in
      if length c15 < 30 \<or> length c5 < 15 then None
      else let highs = find_swing_highs c15 (ep_lookback ep) in
      if length highs < 2 then None
      else let prev_high = sp_price (second_last highs); recent_high = py_max (map cl_high (last_n 5 c5)) in
      if recent_high \<le> prev_high then None
      else let price = cl_close (last c5) in
      if price > fmul prev_high (fadd 1 (ep_threshold ep)) then None
      else if cl_close (last c5) > cl_open (last c5) then None
      else if candle_range (last c5) > 0 \<and> fdiv \<bar>candle_body (last c5)\<bar> (candle_range (last c5)) > milli 700 then None
      else if in_rsi (vw_ind v) < 65 then None
      else let atr = view_atr v (fmul price (milli 15));
               stop = fmul recent_high (milli 1002);
               target = fsub price (fmul atr 2)
        in Some ((new_setup st v ''MOMENTUM_EXHAUSTION'' ''2.0.0'' ''SHORT'')
             \<lparr>sc_price := recent_high, sc_low := fmul price (milli 998), sc_high := fmul price (milli 1001),
              sc_stop := stop, sc_t1 := Some target, sc_t2 := Some (fsub price (fmul atr 3)),
              sc_features := exhaustion_features c5 prev_high recent_high price stop target atr (overbought (in_rsi (vw_ind v)))
                @ [(''trigger_5m_close'', JFloat price)]\<rparr>))"

definition me_scan_long :: "exhaustion_params \<Rightarrow> stamp \<Rightarrow> scan_view \<Rightarrow> setup_candidate option" where
  "me_scan_long ep st v =
     (let c15 = mc_15m v; c5 = mc_5m v in
      if length c15 < 30 \<or> length c5 < 15 then None
      else let lows = find_swing_lows c15 (ep_lookback ep) in
      if length lows < 2 then None
      else let prev_low = sp_price (second_last lows); recent_low = py_min (map cl_low (last_n 5 c5)) in
      if recent_low \<ge> prev_low then None
      else let price = cl_close (last c5) in
      if price < fmul prev_low (fsub 1 (ep_threshold ep)) then None
      else if cl_close (last c5) < cl_open (last c5) then None
      else if candle_range (last c5) > 0 \<and> fdiv \<bar>candle_body (last c5)\<bar> (candle_range (last c5)) > milli 700 then None
      else if in_rsi (vw_ind v) > 35 then None
      else let atr = view_atr v (fmul price (milli 15));
               stop = fmul recent_low (milli 998);
               target = fadd price (fmul atr 2)
        in Some ((new_setup st v ''MOMENTUM_EXHAUSTION'' ''2.0.0'' ''LONG'')
             \<lparr>sc_price := recent_low, sc_low := fmul price (milli 999), sc_high := fmul price (milli 1002),
              sc_stop := stop, sc_t1 := Some target, sc_t2 := Some (fadd price (fmul atr 3)),
              sc_features := exhaustion_features c5 prev_low recent_low price stop target atr (oversold (in_rsi (vw_ind v)))\<rparr>))"

definition me_scan :: "exhaustion_params \<Rightarrow> stamp \<times> stamp \<Rightarrow> scan_view \<Rightarrow> setup_candidate list" where
  "me_scan ep sts v = opt_list (me_scan_short ep (fst sts) v) @ opt_list (me_scan_long ep (snd sts) v)"

section \<open>The reversed scanner\<close>

definition mer_scan_long :: "exhaustion_params \<Rightarrow> stamp \<Rightarrow> scan_view \<Rightarrow> setup_candidate option" where
  "mer_scan_long ep st v =
     (let c15 = mc_15m v; c5 = mc_5m v in
      if length c15 < 30 \<or> length c5 < 15 then None
      else let highs = find_swing_highs c15 (ep_lookback ep) in
      if length highs < 2 then None
      else let prev_high = sp_price (second_last highs); recent_high = py_max (map cl_high (last_n 5 c5)) in
      if recent_high \<le> prev_high then None
      else let price = cl_close (last c5) in
      if price > fmul prev_high (fadd 1 (ep_threshold ep)) then None
      else if cl_close (last c5) > cl_open (last c5) then None
      else if candle_range (last c5) > 0 \<and> fdiv \<bar>candle_body (last c5)\<bar> (candle_range (last c5)) > milli 700 then None
      else if in_rsi (vw_ind v) < 65 then None
      else let atr = view_atr v (fmul price (milli 15));
               stop = fmul (py_min (map cl_low (last_n 5 c5))) (milli 998);
               target = fadd price (fmul atr 2)
        in Some ((new_setup st v ''MOMENTUM_EXHAUSTION_R'' ''1.0.0'' ''LONG'')
             \<lparr>sc_price := recent_high, sc_low := fmul price (milli 998), sc_high := fmul price (milli 1001),
              sc_stop := stop, sc_t1 := Some target, sc_t2 := Some (fadd price (fmul atr 3)),
              sc_features := exhaustion_features c5 prev_high recent_high price stop target atr (overbought (in_rsi (vw_ind v)))\<rparr>))"

definition mer_scan_short :: "exhaustion_params \<Rightarrow> stamp \<Rightarrow> scan_view \<Rightarrow> setup_candidate option" where
  "mer_scan_short ep st v =
     (let c15 = mc_15m v; c5 = mc_5m v in
      if length c15 < 30 \<or> length c5 < 15 then None
      else let lows = find_swing_lows c15 (ep_lookback ep) in
      if length lows < 2 then None
      else let prev_low = sp_price (second_last lows); recent_low = py_min (map cl_low (last_n 5 c5)) in
      if recent_low \<ge> prev_low then None
      else let price = cl_close (last c5) in
      if price < fmul prev_low (fsub 1 (ep_threshold ep)) then None
      else if cl_close (last c5) < cl_open (last c5) then None
      else if candle_range (last c5) > 0 \<and> fdiv \<bar>candle_body (last c5)\<bar> (candle_range (last c5)) > milli 700 then None
      else if in_rsi (vw_ind v) > 35 then None
      else let atr = view_atr v (fmul price (milli 15));
               stop = fmul (py_max (map cl_high (last_n 5 c5))) (milli 1002);
               target = fsub price (fmul atr 2)
        in Some ((new_setup st v ''MOMENTUM_EXHAUSTION_R'' ''1.0.0'' ''SHORT'')
             \<lparr>sc_price := recent_low, sc_low := fmul price (milli 999), sc_high := fmul price (milli 1002),
              sc_stop := stop, sc_t1 := Some target, sc_t2 := Some (fsub price (fmul atr 3)),
              sc_features := exhaustion_features c5 prev_low recent_low price stop target atr (oversold (in_rsi (vw_ind v)))\<rparr>))"

definition mer_scan :: "exhaustion_params \<Rightarrow> stamp \<times> stamp \<Rightarrow> scan_view \<Rightarrow> setup_candidate list" where
  "mer_scan ep sts v = opt_list (mer_scan_long ep (fst sts) v) @ opt_list (mer_scan_short ep (snd sts) v)"

section \<open>The frozen reverse-long experiments\<close>

definition sl_pct :: rat where
  "sl_pct = milli 25"

definition tp_pct :: rat where
  "tp_pct = milli 30"

text \<open>What both versions append to their features.\<close>

definition lineage_features :: "(string \<times> json) list" where
  "lineage_features =
     [(''stop_loss_pct'', JFloat (fmul sl_pct 100)), (''take_profit_pct'', JFloat (fmul tp_pct 100)),
      (''hold_minutes'', JInt 240), (''source_scanner'', JStr ''MOMENTUM_EXHAUSTION''), (''source_direction'', JStr ''SHORT'')]"

definition v1_scan_long :: "exhaustion_params \<Rightarrow> stamp \<Rightarrow> scan_view \<Rightarrow> setup_candidate option" where
  "v1_scan_long ep st v =
     (let c15 = mc_15m v; c5 = mc_5m v in
      if length c15 < 30 \<or> length c5 < 15 then None
      else let highs = find_swing_highs c15 (ep_lookback ep) in
      if length highs < 2 then None
      else let prev_high = sp_price (second_last highs); recent_high = py_max (map cl_high (last_n 5 c5)) in
      if recent_high \<le> prev_high then None
      else let price = cl_close (last c5) in
      if price > fmul prev_high (fadd 1 (ep_threshold ep)) then None
      else if cl_close (last c5) > cl_open (last c5) then None
      else if candle_range (last c5) > 0 \<and> fdiv \<bar>candle_body (last c5)\<bar> (candle_range (last c5)) > milli 700 then None
      else if in_rsi (vw_ind v) < 65 then None
      else let atr = view_atr v (fmul price (milli 15));
               stop = fmul price (fsub 1 sl_pct);
               target = fmul price (fadd 1 tp_pct)
        in Some ((new_setup st v ''MOMENTUM_EXHAUSTION_REVERSE_LONG_V1'' ''1.0.0'' ''LONG'')
             \<lparr>sc_price := recent_high, sc_low := fmul price (milli 998), sc_high := fmul price (milli 1001),
              sc_stop := stop, sc_t1 := Some target, sc_t2 := None,
              sc_features := exhaustion_features c5 prev_high recent_high price stop target atr (overbought (in_rsi (vw_ind v)))
                @ lineage_features\<rparr>))"

definition v1_scan :: "exhaustion_params \<Rightarrow> stamp \<Rightarrow> scan_view \<Rightarrow> setup_candidate list" where
  "v1_scan ep st v = opt_list (v1_scan_long ep st v)"

section \<open>Funnel counters\<close>

definition PASS_COUNTERS :: "string list" where
  "PASS_COUNTERS =
     [''TOTAL_SCANS'', ''PASS_DATA_LENGTH'', ''PASS_SWING_HIGHS'', ''PASS_BREAK_PREV_HIGH'', ''PASS_RETURN_NEAR_HIGH'',
      ''PASS_BEARISH_CANDLE'', ''PASS_BODY_RATIO'', ''PASS_RSI_65'', ''PASS_RSI_DELTA_AVAILABLE'',
      ''PASS_RSI_DELTA_POSITIVE'', ''FINAL_SETUP'']"

definition REJECT_COUNTERS :: "string list" where
  "REJECT_COUNTERS =
     [''NO_DATA'', ''NO_SWINGS'', ''NO_BREAKOUT'', ''TOO_FAR_ABOVE_PREV_HIGH'', ''NOT_BEARISH'', ''BODY_TOO_LARGE'',
      ''RSI_BELOW_65'', ''RSI_DELTA_MISSING'', ''RSI_DELTA_NOT_POSITIVE'']"

type_synonym counters = "(string \<times> nat) list"

definition zero_counters :: counters where
  "zero_counters = map (\<lambda>k. (k, 0)) (PASS_COUNTERS @ REJECT_COUNTERS)"

definition count_of :: "counters \<Rightarrow> string \<Rightarrow> nat" where
  "count_of cs k = dget_or cs k 0"

definition total_rejects :: "counters \<Rightarrow> nat" where
  "total_rejects cs = sum_list (map (count_of cs) REJECT_COUNTERS)"

definition counters_empty :: "counters \<Rightarrow> bool" where
  "counters_empty cs \<longleftrightarrow> count_of cs ''TOTAL_SCANS'' = 0"

record funnel =
  fn_current :: counters
  fn_start :: int
  fn_all_time :: nat

definition new_funnel :: "int \<Rightarrow> funnel" where
  "new_funnel now = \<lparr>fn_current = zero_counters, fn_start = now, fn_all_time = 0\<rparr>"

definition bump :: "string \<Rightarrow> funnel \<Rightarrow> funnel" where
  "bump k f = f\<lparr>fn_current := dput k (count_of (fn_current f) k + 1) (fn_current f),
               fn_all_time := (if k = ''TOTAL_SCANS'' then fn_all_time f + 1 else fn_all_time f)\<rparr>"

text \<open>\<open>None\<close>: an unknown counter raised.\<close>

definition increment :: "string \<Rightarrow> funnel \<Rightarrow> funnel option" where
  "increment k f = (if k \<in> set (PASS_COUNTERS @ REJECT_COUNTERS) then Some (bump k f) else None)"

definition flush_funnel :: "int \<Rightarrow> funnel \<Rightarrow> (counters \<times> int) \<times> funnel" where
  "flush_funnel now f = ((fn_current f, fn_start f), f\<lparr>fn_current := zero_counters, fn_start := now\<rparr>)"

definition restore_funnel :: "counters \<times> int \<Rightarrow> funnel \<Rightarrow> funnel" where
  "restore_funnel saved f =
     f\<lparr>fn_current := foldl (\<lambda>cur (k, n). if n > 0 then dput k (count_of cur k + n) cur else cur) (fn_current f) (fst saved),
       fn_start := min (fn_start f) (snd saved)\<rparr>"

text \<open>One collector of \<^verbatim>\<open>flush_and_persist_all\<close>: what the repository is, and what it stored, each set with
  whether the write was confirmed. A write may take effect and still raise, when its answer is lost.\<close>

datatype funnel_repo = NoRepo | Disconnected | SaveFails | SaveLost | Saves

definition persist_funnel :: "funnel_repo \<Rightarrow> int \<Rightarrow> funnel \<Rightarrow> (bool \<times> counters) list \<times> funnel" where
  "persist_funnel repo now f =
     (case flush_funnel now f of ((cs, start), f') \<Rightarrow>
        if counters_empty cs then ([], f')
        else case repo of
               Saves \<Rightarrow> ([(True, cs)], f')
             | SaveLost \<Rightarrow> ([(False, cs)], restore_funnel (cs, start) f')
             | SaveFails \<Rightarrow> ([], restore_funnel (cs, start) f')
             | _ \<Rightarrow> ([], f'))"

section \<open>The second version, with its funnel\<close>

definition rsi_delta_3 :: "candle list \<Rightarrow> rat option" where
  "rsi_delta_3 c5 =
     (let closes = map cl_close c5 in
      if length closes < 18 then None
      else case (rsi_wilder closes 14, rsi_wilder (take (length closes - 3) closes) 14) of
             (Inr now, Inr prev) \<Rightarrow> Some (fsub now prev)
           | _ \<Rightarrow> None)"

text \<open>\<^verbatim>\<open>if not ok: increment(reject); return None\<close>, else \<^verbatim>\<open>increment(passed)\<close> and go on.\<close>

definition gate :: "bool \<Rightarrow> string \<Rightarrow> string \<Rightarrow> (funnel \<Rightarrow> funnel \<times> 'a option) \<Rightarrow> funnel \<Rightarrow> funnel \<times> 'a option" where
  "gate ok reject passed k f = (if ok then k (bump passed f) else (bump reject f, None))"

definition v2_scan_long :: "exhaustion_params \<Rightarrow> stamp \<Rightarrow> scan_view \<Rightarrow> funnel \<Rightarrow> funnel \<times> setup_candidate option" where
  "v2_scan_long ep st v f =
     (let c15 = mc_15m v; c5 = mc_5m v; highs = find_swing_highs c15 (ep_lookback ep);
          prev_high = sp_price (second_last highs); recent_high = py_max (map cl_high (last_n 5 c5));
          price = cl_close (last c5); delta = rsi_delta_3 c5; rsi = in_rsi (vw_ind v) in
      gate (\<not> (length c15 < 30 \<or> length c5 < 15)) ''NO_DATA'' ''PASS_DATA_LENGTH'' (
      gate (\<not> length highs < 2) ''NO_SWINGS'' ''PASS_SWING_HIGHS'' (
      gate (\<not> recent_high \<le> prev_high) ''NO_BREAKOUT'' ''PASS_BREAK_PREV_HIGH'' (
      gate (\<not> price > fmul prev_high (fadd 1 (ep_threshold ep))) ''TOO_FAR_ABOVE_PREV_HIGH'' ''PASS_RETURN_NEAR_HIGH'' (
      gate (\<not> cl_close (last c5) > cl_open (last c5)) ''NOT_BEARISH'' ''PASS_BEARISH_CANDLE'' (
      gate (\<not> (candle_range (last c5) > 0 \<and> fdiv \<bar>candle_body (last c5)\<bar> (candle_range (last c5)) > milli 700))
        ''BODY_TOO_LARGE'' ''PASS_BODY_RATIO'' (
      gate (\<not> rsi < 65) ''RSI_BELOW_65'' ''PASS_RSI_65'' (
      gate (delta \<noteq> None) ''RSI_DELTA_MISSING'' ''PASS_RSI_DELTA_AVAILABLE'' (
      gate (\<not> the delta \<le> 0) ''RSI_DELTA_NOT_POSITIVE'' ''PASS_RSI_DELTA_POSITIVE'' (\<lambda>f.
        let atr = view_atr v (fmul price (milli 15));
            stop = fmul price (fsub 1 sl_pct);
            target = fmul price (fadd 1 tp_pct)
        in (bump ''FINAL_SETUP'' f,
            Some ((new_setup st v ''MOMENTUM_EXHAUSTION_REVERSE_LONG_V2'' ''1.0.0'' ''LONG'')
              \<lparr>sc_price := recent_high, sc_low := fmul price (milli 998), sc_high := fmul price (milli 1001),
               sc_stop := stop, sc_t1 := Some target, sc_t2 := None,
               sc_features := exhaustion_features c5 prev_high recent_high price stop target atr (overbought rsi)
                 @ [(''rsi_14'', JFloat (py_round rsi 4)), (''rsi_14_3bars_ago'', JFloat (py_round (fsub rsi (the delta)) 4)),
                    (''rsi_delta_3'', JFloat (py_round (the delta) 4)), (''rsi_period'', JInt 14), (''rsi_timeframe'', JStr ''5m''),
                    (''entry_confirmation_rsi_rising'', JBool True)]
                 @ lineage_features\<rparr>)))))))))))
        (bump ''TOTAL_SCANS'' f))"

definition v2_scan :: "exhaustion_params \<Rightarrow> stamp \<Rightarrow> scan_view \<Rightarrow> funnel \<Rightarrow> funnel \<times> setup_candidate list" where
  "v2_scan ep st v f = (case v2_scan_long ep st v f of (f', r) \<Rightarrow> (f', opt_list r))"

section \<open>One detection, four scanners\<close>

text \<open>Where a setup stands in the market, without the plan to trade it.\<close>

definition place :: "setup_candidate \<Rightarrow> string \<times> rat \<times> rat \<times> rat \<times> string option \<times> int" where
  "place c = (sc_symbol c, sc_price c, sc_low c, sc_high c, sc_regime c, sc_detected c)"

definition directed :: "string \<Rightarrow> setup_candidate option \<Rightarrow> bool" where
  "directed d r \<longleftrightarrow> (case r of None \<Rightarrow> True | Some c \<Rightarrow> sc_direction c = d)"

lemma new_setup_simps [simp]:
  "sc_symbol (new_setup st v s n d) = mc_symbol v" "sc_regime (new_setup st v s n d) = mc_regime v"
  "sc_detected (new_setup st v s n d) = vw_at v" "sc_direction (new_setup st v s n d) = d"
  "sc_scanner (new_setup st v s n d) = s" "sc_state (new_setup st v s n d) = SETUP_READY"
  by (simp_all add: new_setup_def)

lemma directed_simps [simp]: "directed d None" "directed d (Some c) = (sc_direction c = d)"
  by (simp_all add: directed_def)

lemma gate_snd: "snd (gate ok r p k f) = (if ok then snd (k (bump p f)) else None)"
  by (simp add: gate_def)

lemma reversed_long: "map_option place (mer_scan_long ep st v) = map_option place (me_scan_short ep st v)"
  by (simp add: mer_scan_long_def me_scan_short_def Let_def place_def)

lemma reversed_short: "map_option place (mer_scan_short ep st v) = map_option place (me_scan_long ep st v)"
  by (simp add: mer_scan_short_def me_scan_long_def Let_def place_def)

lemma v1_place: "map_option place (v1_scan_long ep st v) = map_option place (me_scan_short ep st v)"
  by (simp add: v1_scan_long_def me_scan_short_def Let_def place_def)

lemma v2_place:
  "map_option place (snd (v2_scan_long ep st v f)) =
     (case rsi_delta_3 (mc_5m v) of None \<Rightarrow> None
      | Some d \<Rightarrow> if d > 0 then map_option place (me_scan_short ep st v) else None)"
  by (cases "rsi_delta_3 (mc_5m v)") (simp_all add: v2_scan_long_def me_scan_short_def Let_def gate_snd place_def)

text \<open>The reversed scanners detect exactly what the original detects: the reversed scanner and the first
  frozen experiment are LONG at the same place of the market where the original is SHORT, the second
  experiment on the same detection when in addition the RSI of the last closes rises, and the reversed
  SHORT where the original is LONG.\<close>

theorem reversed_scanners_share_detection:
  "map_option place (mer_scan_long ep st v) = map_option place (me_scan_short ep st v) \<and>
   map_option place (mer_scan_short ep st v) = map_option place (me_scan_long ep st v) \<and>
   map_option place (v1_scan_long ep st v) = map_option place (me_scan_short ep st v) \<and>
   map_option place (snd (v2_scan_long ep st v f)) =
     (case rsi_delta_3 (mc_5m v) of None \<Rightarrow> None
      | Some d \<Rightarrow> if d > 0 then map_option place (me_scan_short ep st v) else None) \<and>
   directed ''SHORT'' (me_scan_short ep st v) \<and> directed ''LONG'' (me_scan_long ep st v) \<and>
   directed ''LONG'' (mer_scan_long ep st v) \<and> directed ''SHORT'' (mer_scan_short ep st v) \<and>
   directed ''LONG'' (v1_scan_long ep st v) \<and> directed ''LONG'' (snd (v2_scan_long ep st v f))"
  by (intro conjI reversed_long reversed_short v1_place v2_place)
    (simp_all add: me_scan_short_def me_scan_long_def mer_scan_long_def mer_scan_short_def v1_scan_long_def
      v2_scan_long_def gate_snd Let_def)

section \<open>Quality features are normalised\<close>

definition QUALITY_KEYS :: "string list" where
  "QUALITY_KEYS = [''exhaustion_magnitude'', ''body_ratio'', ''rsi_confirmation'', ''volume_ratio'', ''rr_ratio'', ''stop_distance_atr'']"

definition unit_feature :: "json \<Rightarrow> bool" where
  "unit_feature j = (case j of JFloat q \<Rightarrow> in_unit q | _ \<Rightarrow> False)"

definition normalised :: "string list \<Rightarrow> setup_candidate \<Rightarrow> bool" where
  "normalised ks c \<longleftrightarrow> list_all (\<lambda>k. unit_feature (feature c k)) ks"

lemma exhaustion_features_normalised:
  assumes "sc_features c = exhaustion_features c5 prior recent entry stop target atr rsi_conf @ fs"
    "0 \<le> cl_volume (last c5)" "in_unit rsi_conf"
  shows "normalised QUALITY_KEYS c"
  using assms(2, 3) volume_quality_unit [of c5 2]
  by (simp add: normalised_def QUALITY_KEYS_def feature_def assms(1) exhaustion_features_def unit_feature_def unit_features)

lemma zones_unit: "in_unit (overbought r)" "in_unit (oversold r)"
  by (simp_all add: overbought_def oversold_def in_unit_clamp)

definition all_normalised :: "setup_candidate list \<Rightarrow> bool" where
  "all_normalised cs \<longleftrightarrow> list_all (normalised QUALITY_KEYS) cs"

lemma all_normalised_opt: "all_normalised (opt_list r) \<longleftrightarrow> (\<forall>c. r = Some c \<longrightarrow> normalised QUALITY_KEYS c)"
  by (auto simp: all_normalised_def opt_list_def split: option.splits)

lemma all_normalised_append: "all_normalised (xs @ ys) \<longleftrightarrow> all_normalised xs \<and> all_normalised ys"
  by (simp add: all_normalised_def)

lemma short_normalised: "0 \<le> cl_volume (last (mc_5m v)) \<Longrightarrow> me_scan_short ep st v = Some c \<Longrightarrow> normalised QUALITY_KEYS c"
  by (rule exhaustion_features_normalised [OF _ _ zones_unit(1)])
    (auto simp: me_scan_short_def Let_def split: if_splits)

lemma family_normalised:
  assumes "0 \<le> cl_volume (last (mc_5m v))"
  shows "me_scan_long ep st v = Some c \<Longrightarrow> normalised QUALITY_KEYS c"
    "mer_scan_long ep st v = Some c \<Longrightarrow> normalised QUALITY_KEYS c"
    "mer_scan_short ep st v = Some c \<Longrightarrow> normalised QUALITY_KEYS c"
    "v1_scan_long ep st v = Some c \<Longrightarrow> normalised QUALITY_KEYS c"
    "snd (v2_scan_long ep st v f) = Some c \<Longrightarrow> normalised QUALITY_KEYS c"
proof -
  note up = exhaustion_features_normalised [OF _ assms zones_unit(1)] and down = exhaustion_features_normalised [OF _ assms zones_unit(2)]
  show "me_scan_long ep st v = Some c \<Longrightarrow> normalised QUALITY_KEYS c"
    by (rule down [where fs = "[]"]) (auto simp: me_scan_long_def Let_def split: if_splits)
  show "mer_scan_long ep st v = Some c \<Longrightarrow> normalised QUALITY_KEYS c"
    by (rule up [where fs = "[]"]) (auto simp: mer_scan_long_def Let_def split: if_splits)
  show "mer_scan_short ep st v = Some c \<Longrightarrow> normalised QUALITY_KEYS c"
    by (rule down [where fs = "[]"]) (auto simp: mer_scan_short_def Let_def split: if_splits)
  show "v1_scan_long ep st v = Some c \<Longrightarrow> normalised QUALITY_KEYS c"
    by (rule up) (auto simp: v1_scan_long_def Let_def split: if_splits)
  show "snd (v2_scan_long ep st v f) = Some c \<Longrightarrow> normalised QUALITY_KEYS c"
    by (auto simp: v2_scan_long_def gate_snd Let_def intro!: up split: if_splits)
qed

text \<open>As the modules document, every quality feature of every setup that the four scanners build lies
  between 0 and 1, in floating point and for every market view whose last volume is not negative.\<close>

theorem exhaustion_features_in_unit:
  assumes "0 \<le> cl_volume (last (mc_5m v))"
  shows "all_normalised (me_scan ep sts v @ mer_scan ep sts v @ v1_scan ep st v @ snd (v2_scan ep st v f))"
  using short_normalised [OF assms] family_normalised [OF assms]
  by (auto simp: all_normalised_append me_scan_def mer_scan_def v1_scan_def v2_scan_def all_normalised_opt split_beta)

section \<open>The frozen experiments always have a tradable geometry\<close>

lemma plan_bounds:
  "1 / 2 \<le> fsub 1 sl_pct" "fsub 1 sl_pct + 1 / 1024 \<le> milli 998" "milli 1001 + 1 / 1024 \<le> fadd 1 tp_pct" "fadd 1 tp_pct \<le> 2"
proof -
  have s: "25 / 1024 \<le> sl_pct" "sl_pct \<le> 26 / 1024" and t: "30 / 1024 \<le> tp_pct" "tp_pct \<le> 31 / 1024"
    using milli_ge [of 25 25] milli_le [of 25 26] milli_ge [of 30 30] milli_le [of 30 31] by (simp_all add: sl_pct_def tp_pct_def)
  have "998 / 1024 \<le> fsub 1 sl_pct" "fsub 1 sl_pct \<le> 999 / 1024"
    unfolding fsub_def using s fl_ge_1024 [of 998 "1 - sl_pct"] fl_le_1024 [of "1 - sl_pct" 999] by simp_all
  moreover have "1054 / 1024 \<le> fadd 1 tp_pct" "fadd 1 tp_pct \<le> 1055 / 1024"
    unfolding fadd_def using t fl_ge_1024 [of 1054 "1 + tp_pct"] fl_le_1024 [of "1 + tp_pct" 1055] by simp_all
  ultimately show "1 / 2 \<le> fsub 1 sl_pct" "fsub 1 sl_pct + 1 / 1024 \<le> milli 998"
    "milli 1001 + 1 / 1024 \<le> fadd 1 tp_pct" "fadd 1 tp_pct \<le> 2"
    using factor_bounds by linarith+
qed

lemma fixed_plan_tradable:
  assumes "sane_price p" "sc_direction c = ''LONG''" "sc_low c = fmul p (milli 998)" "sc_high c = fmul p (milli 1001)"
    "sc_stop c = fmul p (fsub 1 sl_pct)" "sc_t1 c = Some (fmul p (fadd 1 tp_pct))"
  shows "geometry_fault c = None"
proof -
  have zone: "fmul p (milli 998) < fmul p (milli 1001)"
    using factor_bounds by (intro fmul_less assms(1)) linarith+
  have stop: "fmul p (fsub 1 sl_pct) < fmul p (milli 998)"
    using plan_bounds factor_bounds by (intro fmul_less assms(1)) linarith+
  have target: "fmul p (milli 1001) < fmul p (fadd 1 tp_pct)"
    using plan_bounds factor_bounds by (intro fmul_less assms(1)) linarith+
  have "0 < fmul p (fsub 1 sl_pct)" by (rule fmul_pos [OF assms(1) plan_bounds(1)])
  then show ?thesis using zone stop target by (simp add: geometry_fault_def assms(2-6))
qed

text \<open>Whatever the market looks like, a setup of the frozen reverse-long experiments passes the risk
  geometry gate: its stop lies below its entry zone and its target above, unless the price is a
  denormally small number.\<close>

theorem frozen_setups_tradable:
  assumes "sane_price (cl_close (last (mc_5m v)))"
  shows "list_all (\<lambda>c. geometry_fault c = None) (v1_scan ep st v @ snd (v2_scan ep st v f))"
proof -
  have "geometry_fault c = None" if "v1_scan_long ep st v = Some c" for c
    using that by (intro fixed_plan_tradable [OF assms]) (auto simp: v1_scan_long_def Let_def split: if_splits)
  moreover have "geometry_fault c = None" if "snd (v2_scan_long ep st v f) = Some c" for c
    using that by (intro fixed_plan_tradable [OF assms]) (auto simp: v2_scan_long_def gate_snd Let_def split: if_splits)
  ultimately show ?thesis by (auto simp: v1_scan_def v2_scan_def split_beta opt_list_def split: option.splits)
qed

text \<open>The reversed scanner has no such guarantee: when its signal candle closes on the low of the last five
  candles, its stop is the lower end of its entry zone.\<close>

lemma reversed_at_the_low_rejected:
  assumes "mer_scan_long ep st v = Some c" "py_min (map cl_low (last_n 5 (mc_5m v))) = cl_close (last (mc_5m v))"
  shows "geometry_fault c \<noteq> None"
  using assms by (auto simp: mer_scan_long_def Let_def geometry_fault_def split: if_splits option.splits)

section \<open>The funnel accounts for every scan\<close>

definition cnt :: "funnel \<Rightarrow> string \<Rightarrow> nat" where
  "cnt f k = count_of (fn_current f) k"

lemma count_put [simp]: "count_of (dput k n cs) j = (if j = k then n else count_of cs j)"
  by (simp add: count_of_def dget_or_def)

lemma cnt_bump [simp]: "cnt (bump k f) j = cnt f j + (if j = k then 1 else 0)"
  by (simp add: cnt_def bump_def)

lemma dwf_bump [simp]: "dwf (fn_current f) \<Longrightarrow> dwf (fn_current (bump k f))"
  by (simp add: bump_def)

text \<open>Each stage that was reached was either passed or rejected for its reason, and every scan that passed
  them all built a setup.\<close>

definition balanced :: "counters \<Rightarrow> bool" where
  "balanced cs \<longleftrightarrow>
     list_all (\<lambda>(p, r, q). count_of cs p = count_of cs r + count_of cs q) (zip PASS_COUNTERS (zip REJECT_COUNTERS (tl PASS_COUNTERS))) \<and>
     count_of cs ''PASS_RSI_DELTA_POSITIVE'' = count_of cs ''FINAL_SETUP''"

lemma balanced_total: "balanced cs \<Longrightarrow> count_of cs ''TOTAL_SCANS'' = count_of cs ''FINAL_SETUP'' + total_rejects cs"
  by (simp add: balanced_def PASS_COUNTERS_def REJECT_COUNTERS_def total_rejects_def)

lemma count_zero [simp]: "count_of zero_counters k = 0"
proof -
  have "count_of (map (\<lambda>k. (k, 0)) xs) k = 0" for xs by (induction xs) (auto simp: count_of_def dget_or_def)
  then show ?thesis by (simp only: zero_counters_def)
qed

lemma balanced_zero: "balanced zero_counters"
  by (simp add: balanced_def list_all_iff)

lemma dwf_zero: "dwf zero_counters"
  by (simp add: dwf_def zero_counters_def PASS_COUNTERS_def REJECT_COUNTERS_def)

text \<open>A scan under way: every equation holds but that of the stage it has just passed.\<close>

definition at_stage :: "nat \<Rightarrow> funnel \<Rightarrow> bool" where
  "at_stage i f \<longleftrightarrow>
     (\<forall>j<9. cnt f (PASS_COUNTERS ! j) = cnt f (REJECT_COUNTERS ! j) + cnt f (PASS_COUNTERS ! (j + 1)) + (if j = i then 1 else 0)) \<and>
     cnt f (PASS_COUNTERS ! 9) = cnt f (PASS_COUNTERS ! 10) + (if i = 9 then 1 else 0)"

lemma counter_names: "distinct (PASS_COUNTERS @ REJECT_COUNTERS)" "length PASS_COUNTERS = 11" "length REJECT_COUNTERS = 9"
  by (simp_all add: PASS_COUNTERS_def REJECT_COUNTERS_def)

lemma pass_index: "i < 11 \<Longrightarrow> j < 11 \<Longrightarrow> PASS_COUNTERS ! i = PASS_COUNTERS ! j \<longleftrightarrow> i = j"
  using counter_names by (simp add: nth_eq_iff_index_eq)

lemma reject_index: "i < 9 \<Longrightarrow> j < 9 \<Longrightarrow> REJECT_COUNTERS ! i = REJECT_COUNTERS ! j \<longleftrightarrow> i = j"
  using counter_names by (simp add: nth_eq_iff_index_eq)

lemma pass_reject:
  assumes "i < 11" "j < 9"
  shows "PASS_COUNTERS ! i \<noteq> REJECT_COUNTERS ! j" "REJECT_COUNTERS ! j \<noteq> PASS_COUNTERS ! i"
proof -
  have "PASS_COUNTERS ! i \<in> set PASS_COUNTERS" "REJECT_COUNTERS ! j \<in> set REJECT_COUNTERS"
    using assms counter_names by (metis nth_mem)+
  then show "PASS_COUNTERS ! i \<noteq> REJECT_COUNTERS ! j" "REJECT_COUNTERS ! j \<noteq> PASS_COUNTERS ! i"
    using counter_names(1) by auto
qed

lemma balanced_iff: "balanced (fn_current f) \<longleftrightarrow> at_stage 10 f"
proof -
  have nine: "(\<forall>j<9. P j) \<longleftrightarrow> list_all P [0..<9]" for P :: "nat \<Rightarrow> bool" by (auto simp: list_all_iff)
  have idx: "[0..<9] = [0, 1, 2, 3, 4, 5, 6, 7, 8 :: nat]" by (simp add: upt_rec)
  show ?thesis
    unfolding at_stage_def nine idx by (simp add: balanced_def cnt_def PASS_COUNTERS_def REJECT_COUNTERS_def)
qed

lemma scan_starts: "at_stage 10 f \<Longrightarrow> at_stage 0 (bump (PASS_COUNTERS ! 0) f)"
  by (auto simp: at_stage_def pass_index pass_reject)

lemma stage_passed: "i < 9 \<Longrightarrow> at_stage i f \<Longrightarrow> at_stage (i + 1) (bump (PASS_COUNTERS ! (i + 1)) f)"
  by (auto simp: at_stage_def pass_index pass_reject)

lemma stage_rejected: "i < 9 \<Longrightarrow> at_stage i f \<Longrightarrow> at_stage 10 (bump (REJECT_COUNTERS ! i) f)"
  by (auto simp: at_stage_def reject_index pass_reject)

lemma scan_done: "at_stage 9 f \<Longrightarrow> at_stage 10 (bump (PASS_COUNTERS ! 10) f)"
  by (auto simp: at_stage_def pass_index pass_reject)

lemma gate_stage:
  assumes "at_stage i f" "i < 9" "r = REJECT_COUNTERS ! i" "p = PASS_COUNTERS ! (i + 1)"
    "\<And>f. at_stage (i + 1) f \<Longrightarrow> at_stage 10 (fst (k f))"
  shows "at_stage 10 (fst (gate ok r p k f))"
  using stage_passed [OF assms(2, 1)] stage_rejected [OF assms(2, 1)] assms(5) by (simp add: gate_def assms(3, 4))

lemma v2_balanced:
  assumes "balanced (fn_current f)"
  shows "balanced (fn_current (fst (v2_scan_long ep st v f)))"
proof -
  have s: "at_stage 0 (bump ''TOTAL_SCANS'' f)"
    using scan_starts [of f] assms by (simp add: balanced_iff PASS_COUNTERS_def)
  have e: "at_stage 10 (bump ''FINAL_SETUP'' f)" if "at_stage (Suc (Suc (Suc (Suc (Suc (Suc (Suc (Suc (Suc 0))))))))) f" for f
    using scan_done [of f] that by (simp add: PASS_COUNTERS_def eval_nat_numeral)
  note g = gate_stage [unfolded PASS_COUNTERS_def REJECT_COUNTERS_def]
  show ?thesis
    unfolding balanced_iff v2_scan_long_def Let_def
    by (rule g [OF s], simp, simp, simp, (rule g, assumption, simp, simp, simp)+, simp add: e)
qed

text \<open>Scans and persist passes of one collector; the stored counters are the ones that took effect.\<close>

datatype funnel_event = FunnelScan exhaustion_params stamp scan_view | FunnelPersist funnel_repo int

fun funnel_step :: "funnel \<times> (bool \<times> counters) list \<Rightarrow> funnel_event \<Rightarrow> funnel \<times> (bool \<times> counters) list" where
  "funnel_step (f, stored) (FunnelScan ep st v) = (fst (v2_scan ep st v f), stored)"
| "funnel_step (f, stored) (FunnelPersist repo now) =
     (case persist_funnel repo now f of (saved, f') \<Rightarrow> (f', stored @ saved))"

definition scans_of :: "funnel_event list \<Rightarrow> nat" where
  "scans_of es = length (filter (\<lambda>e. case e of FunnelScan _ _ _ \<Rightarrow> True | _ \<Rightarrow> False) es)"

definition loses :: "funnel_event \<Rightarrow> bool" where
  "loses e \<longleftrightarrow> (case e of FunnelPersist NoRepo _ \<Rightarrow> True | FunnelPersist Disconnected _ \<Rightarrow> True | _ \<Rightarrow> False)"

definition total_stored :: "counters list \<Rightarrow> nat" where
  "total_stored stored = sum_list (map (\<lambda>cs. count_of cs ''TOTAL_SCANS'') stored)"

text \<open>The sets that were stored, and the ones among them that were stored without an answer.\<close>

definition stored_sets :: "(bool \<times> counters) list \<Rightarrow> counters list" where
  "stored_sets = map snd"

definition unanswered_sets :: "(bool \<times> counters) list \<Rightarrow> counters list" where
  "unanswered_sets st = map snd (filter (\<lambda>x. \<not> fst x) st)"

definition funnel_ok :: "funnel \<times> (bool \<times> counters) list \<Rightarrow> bool" where
  "funnel_ok s \<longleftrightarrow> dwf (fn_current (fst s)) \<and> balanced (fn_current (fst s)) \<and> list_all balanced (stored_sets (snd s))"

lemma restored_count:
  "dwf saved \<Longrightarrow> count_of (foldl (\<lambda>cur (k, n). if n > 0 then dput k (count_of cur k + n) cur else cur) cur saved) j =
     count_of cur j + count_of saved j"
proof (induction saved arbitrary: cur)
  case (Cons x saved)
  obtain k n where x: "x = (k, n)" by fastforce
  have "k \<notin> fst ` set saved" "dwf saved" using Cons.prems by (auto simp: x dwf_def)
  then have "count_of saved k = 0" by (simp add: count_of_def dget_or_def map_of_eq_None_iff [THEN iffD2])
  then show ?case using Cons.IH [OF \<open>dwf saved\<close>] by (auto simp: x) (simp_all add: count_of_def dget_or_def)
qed (simp add: count_of_def dget_or_def)

lemma restored_dwf:
  "dwf cur \<Longrightarrow> dwf (foldl (\<lambda>cur (k, n). if n > 0 then dput k (count_of cur k + n) cur else cur) cur saved)"
  by (induction saved arbitrary: cur) auto

text \<open>A failed save puts everything back: no counter differs from before the flush.\<close>

lemma failed_save_restores:
  assumes "dwf (fn_current f)"
  shows "count_of (fn_current (snd (persist_funnel SaveFails now f))) k = count_of (fn_current f) k \<or>
    counters_empty (fn_current f)"
  using assms by (simp add: persist_funnel_def flush_funnel_def restore_funnel_def restored_count)

lemma v2_counts:
  "dwf (fn_current f) \<Longrightarrow> dwf (fn_current (fst (v2_scan_long ep st v f)))"
  "count_of (fn_current (fst (v2_scan_long ep st v f))) ''TOTAL_SCANS'' = count_of (fn_current f) ''TOTAL_SCANS'' + 1"
  by (simp_all add: v2_scan_long_def gate_def Let_def cnt_def [symmetric])

lemma balanced_cong: "(\<And>k. count_of cs k = count_of cs' k) \<Longrightarrow> balanced cs = balanced cs'"
  by (simp add: balanced_def)

lemma restore_counts:
  assumes "dwf (fst s)"
  shows "count_of (fn_current (restore_funnel s f)) k = count_of (fn_current f) k + count_of (fst s) k"
    "dwf (fn_current f) \<Longrightarrow> dwf (fn_current (restore_funnel s f))"
  by (simp_all add: restore_funnel_def restored_count [OF assms] restored_dwf)

lemma persist_cases:
  assumes d: "dwf (fn_current f)" and p: "persist_funnel repo now f = (saved, f')"
  shows "dwf (fn_current f')" "balanced (fn_current f) \<Longrightarrow> balanced (fn_current f') \<and> list_all balanced (stored_sets saved)"
    "repo \<notin> {NoRepo, Disconnected} \<Longrightarrow>
      total_stored (stored_sets saved) + count_of (fn_current f') ''TOTAL_SCANS'' =
        count_of (fn_current f) ''TOTAL_SCANS'' + total_stored (unanswered_sets saved)"
proof -
  let ?z = "f\<lparr>fn_current := zero_counters, fn_start := now\<rparr>" and ?s = "(fn_current f, fn_start f)"
  have d': "dwf (fst ?s)" using d by simp
  have r: "balanced (fn_current (restore_funnel ?s ?z)) = balanced (fn_current f)"
    by (rule balanced_cong) (simp add: restore_counts [OF d'])
  have c: "f' = ?z \<and> (saved = [] \<and> (counters_empty (fn_current f) \<or> repo \<in> {NoRepo, Disconnected}) \<or> saved = [(True, fn_current f)]) \<or>
    f' = restore_funnel ?s ?z \<and> (saved = [] \<or> saved = [(False, fn_current f)])"
    using p by (cases repo) (auto simp: persist_funnel_def flush_funnel_def split: if_splits)
  show "dwf (fn_current f')" using c restore_counts(2) [OF d', of ?z] by (auto simp: dwf_zero)
  show "balanced (fn_current f) \<Longrightarrow> balanced (fn_current f') \<and> list_all balanced (stored_sets saved)"
    using c r by (auto simp: balanced_zero stored_sets_def)
  show "repo \<notin> {NoRepo, Disconnected} \<Longrightarrow>
      total_stored (stored_sets saved) + count_of (fn_current f') ''TOTAL_SCANS'' =
        count_of (fn_current f) ''TOTAL_SCANS'' + total_stored (unanswered_sets saved)"
    using c restore_counts(1) [OF d', of ?z] by (auto simp: total_stored_def counters_empty_def stored_sets_def unanswered_sets_def)
qed

lemma stored_sets_append [simp]: "stored_sets (a @ b) = stored_sets a @ stored_sets b"
  by (simp add: stored_sets_def)

lemma funnel_step_ok: "funnel_ok s \<Longrightarrow> funnel_ok (funnel_step s e)"
  by (cases s; cases e)
    (auto simp: funnel_ok_def v2_scan_def split_beta v2_counts(1) v2_balanced persist_cases [OF _ surjective_pairing])

interpretation funnel: event_system funnel_step funnel_ok
  by unfold_locales (rule funnel_step_ok)

lemma new_funnel_ok: "funnel_ok (new_funnel now, [])"
  by (simp add: funnel_ok_def new_funnel_def dwf_zero balanced_zero stored_sets_def)

lemma funnel_total:
  assumes "funnel_ok s" "list_all (\<lambda>e. \<not> loses e) es"
  shows "case foldl funnel_step s es of (f', st') \<Rightarrow>
    total_stored (stored_sets st') + count_of (fn_current f') ''TOTAL_SCANS'' + total_stored (unanswered_sets (snd s)) =
    total_stored (stored_sets (snd s)) + count_of (fn_current (fst s)) ''TOTAL_SCANS'' + scans_of es + total_stored (unanswered_sets st')"
  using assms
proof (induction es arbitrary: s)
  case (Cons e es)
  obtain f st where s: "s = (f, st)" by fastforce
  obtain f1 st1 where s1: "funnel_step s e = (f1, st1)" by fastforce
  have "total_stored (stored_sets st1) + count_of (fn_current f1) ''TOTAL_SCANS'' + total_stored (unanswered_sets st) =
      total_stored (stored_sets st) + count_of (fn_current f) ''TOTAL_SCANS'' + scans_of [e] + total_stored (unanswered_sets st1)"
  proof (cases e)
    case (FunnelScan ep stp v)
    then show ?thesis using s1 by (auto simp: s scans_of_def v2_scan_def split_beta v2_counts(2))
  next
    case (FunnelPersist repo now)
    obtain saved f' where p: "persist_funnel repo now f = (saved, f')" by fastforce
    have "repo \<notin> {NoRepo, Disconnected}" using Cons.prems FunnelPersist by (cases repo) (auto simp: loses_def)
    moreover have "st1 = st @ saved" "f1 = f'" using s1 by (simp_all add: FunnelPersist s p)
    ultimately show ?thesis
      using persist_cases(3) [OF _ p] Cons.prems(1)
      by (simp add: FunnelPersist s scans_of_def funnel_ok_def total_stored_def stored_sets_def unanswered_sets_def)
  qed
  moreover have "scans_of (e # es) = scans_of [e] + scans_of es" by (simp add: scans_of_def)
  ultimately show ?case
    using Cons.IH [OF funnel_step_ok [OF Cons.prems(1), of e]] Cons.prems by (simp add: s s1 [unfolded s] split_beta)
qed (simp add: scans_of_def split_beta)

text \<open>C30. The funnel of the second version accounts for every scan: after any run of scans and persist passes the
  current counters and every stored set balance stage by stage, so scans are setups plus rejections; and as
  long as a repository is connected, whether its saves succeed, fail or lose their answer, the stored counts
  and the current ones together are exactly the scans that were made and those of the sets that were stored
  without an answer, which are counted again.\<close>

theorem funnel_accounts_for_scans:
  fixes t0 :: int
  assumes "list_all (\<lambda>e. \<not> loses e) es"
  defines "s \<equiv> foldl funnel_step (new_funnel t0, []) es"
  shows "list_all balanced (fn_current (fst s) # stored_sets (snd s)) \<and>
    list_all (\<lambda>cs. count_of cs ''TOTAL_SCANS'' = count_of cs ''FINAL_SETUP'' + total_rejects cs) (fn_current (fst s) # stored_sets (snd s)) \<and>
    total_stored (stored_sets (snd s)) + count_of (fn_current (fst s)) ''TOTAL_SCANS'' =
      scans_of es + total_stored (unanswered_sets (snd s))"
proof -
  have "funnel_ok s" unfolding s_def by (rule funnel.run_inv [OF new_funnel_ok])
  then have b: "list_all balanced (fn_current (fst s) # stored_sets (snd s))" by (simp add: funnel_ok_def)
  moreover have "list_all (\<lambda>cs. count_of cs ''TOTAL_SCANS'' = count_of cs ''FINAL_SETUP'' + total_rejects cs)
      (fn_current (fst s) # stored_sets (snd s))"
    using b by (rule list.pred_mono_strong) (rule balanced_total)
  moreover have "total_stored (stored_sets (snd s)) + count_of (fn_current (fst s)) ''TOTAL_SCANS'' =
      scans_of es + total_stored (unanswered_sets (snd s))"
    using funnel_total [OF new_funnel_ok assms(1), of t0]
    by (simp add: s_def new_funnel_def total_stored_def stored_sets_def unanswered_sets_def split_beta)
  ultimately show ?thesis by blast
qed

text \<open>Without a connected repository the pass resets the counters and keeps nothing: the scans of the
  period are lost, although the counters are documented to be reset only on a successful write.\<close>

lemma unconnected_pass_loses:
  "repo = NoRepo \<or> repo = Disconnected \<Longrightarrow>
     persist_funnel repo now f = ([], f\<lparr>fn_current := zero_counters, fn_start := now\<rparr>)"
  by (auto simp: persist_funnel_def flush_funnel_def)

section \<open>Concrete scans\<close>

definition flat_candle :: "int \<Rightarrow> rat \<Rightarrow> candle" where
  "flat_candle t high = \<lparr>cl_time = t, cl_open = 105, cl_high = high, cl_low = 100, cl_close = 105, cl_volume = 1\<rparr>"

definition demo_highs :: "rat list" where
  "demo_highs = replicate 10 106 @ [110] @ replicate 9 106 @ [108] @ replicate 9 106"

definition demo_ind :: indicator_snapshot where
  "demo_ind = \<lparr>in_atr = 2, in_rsi = 70, in_ema20 = 104, in_ema50 = 103, in_ema200 = 102, in_bb_upper = 0, in_bb_lower = 0,
              in_bb_width = 0, in_volume_sma = 1, in_adx = 40, in_slope50 = 1\<rparr>"

definition demo_15m :: "candle list" where
  "demo_15m = map (flat_candle 0) demo_highs"

definition demo_view :: scan_view where
  "demo_view = \<lparr>mc_symbol = ''BTCUSDT'', mc_5m = replicate 15 (flat_candle 0 112), mc_15m = demo_15m,
               mc_1h = [], mc_4h = [], mc_regime = Some ''RANGE'', vw_ind = demo_ind, vw_levels = no_levels, vw_at = 0, vw_fetch = None\<rparr>"

lemma demo_swings: "map sp_price (find_swing_highs demo_15m 5) = [110, 108]" "length demo_15m = 30"
  by code_simp+

lemma demo_fields [simp]:
  "mc_15m demo_view = demo_15m" "length (mc_5m demo_view) = 15" "last (mc_5m demo_view) = flat_candle 0 112"
  "last_n 5 (mc_5m demo_view) = replicate 5 (flat_candle 0 112)" "vw_ind demo_view = demo_ind"
  by (simp_all add: demo_view_def last_n_def)

lemma flat_candle_simps [simp]:
  "cl_close (flat_candle t h) = 105" "cl_open (flat_candle t h) = 105" "cl_high (flat_candle t h) = h" "cl_low (flat_candle t h) = 100"
  "cl_volume (flat_candle t h) = 1" "candle_body (flat_candle t h) = 0"
  by (simp_all add: flat_candle_def candle_body_def)

lemma demo_detected: "me_scan_short exhaustion_default st demo_view \<noteq> None"
proof -
  let ?h = "find_swing_highs demo_15m 5"
  have l: "length ?h = 2" using arg_cong [OF demo_swings(1), of length] by simp
  have p: "sp_price (second_last ?h) = 110"
    using arg_cong [OF demo_swings(1), of "\<lambda>xs. xs ! 0"] l by (simp add: second_last_def)
  have five: "py_max (replicate 5 112) = 112" by (simp add: py_max_def eval_nat_numeral)
  have "1 \<le> fadd 1 (milli 3)" by (rule fadd_ge_left) simp_all
  then have "110 \<le> fmul 110 (fadd 1 (milli 3))"
    unfolding fmul_def using fl_of_int [of 110] by (intro f64.rnd_ge_rep) simp_all
  then have "\<not> fmul 110 (fadd 1 (milli 3)) < 105" by linarith
  then show ?thesis
    by (simp add: me_scan_short_def Let_def demo_ind_def exhaustion_default_def l p five demo_swings(2) fdiv_def not_less)
qed

definition demo_stamp :: stamp where
  "demo_stamp = (''setup-1'', 0)"

lemma demo_emitted: "me_scan exhaustion_default (demo_stamp, demo_stamp) demo_view \<noteq> []" "v1_scan exhaustion_default demo_stamp demo_view \<noteq> []"
proof -
  have "v1_scan_long exhaustion_default demo_stamp demo_view \<noteq> None"
    using arg_cong [OF v1_place [of exhaustion_default demo_stamp demo_view], of "\<lambda>r. r = None"] demo_detected by simp
  then show "v1_scan exhaustion_default demo_stamp demo_view \<noteq> []" by (auto simp: v1_scan_def opt_list_def)
  show "me_scan exhaustion_default (demo_stamp, demo_stamp) demo_view \<noteq> []"
    using demo_detected [of demo_stamp] by (auto simp: me_scan_def opt_list_def split: option.splits)
qed

theorem exhaustion_features_in_unit_witness:
  "me_scan exhaustion_default (demo_stamp, demo_stamp) demo_view \<noteq> [] \<and>
   all_normalised (me_scan exhaustion_default (demo_stamp, demo_stamp) demo_view @
     mer_scan exhaustion_default (demo_stamp, demo_stamp) demo_view @ v1_scan exhaustion_default demo_stamp demo_view @
     snd (v2_scan exhaustion_default demo_stamp demo_view (new_funnel 0)))"
  by (intro conjI demo_emitted exhaustion_features_in_unit) simp

theorem frozen_setups_tradable_witness:
  "v1_scan exhaustion_default demo_stamp demo_view \<noteq> [] \<and>
   list_all (\<lambda>c. geometry_fault c = None)
     (v1_scan exhaustion_default demo_stamp demo_view @ snd (v2_scan exhaustion_default demo_stamp demo_view (new_funnel 0)))"
  by (intro conjI demo_emitted frozen_setups_tradable) (simp add: sane_price_def)

definition demo_events :: "funnel_event list" where
  "demo_events = [FunnelScan exhaustion_default demo_stamp demo_view, FunnelPersist SaveFails 1, FunnelPersist SaveLost 2, FunnelPersist Saves 3]"

theorem funnel_accounts_for_scans_witness:
  "case foldl funnel_step (new_funnel 0, []) demo_events of (f, st) \<Rightarrow>
     list_all balanced (fn_current f # stored_sets st) \<and>
     total_stored (stored_sets st) + count_of (fn_current f) ''TOTAL_SCANS'' = 1 + total_stored (unanswered_sets st)"
proof -
  have "list_all (\<lambda>e. \<not> loses e) demo_events" by (simp add: demo_events_def loses_def)
  note f = funnel_accounts_for_scans [OF this, of 0]
  moreover have "scans_of demo_events = 1" by (simp add: scans_of_def demo_events_def)
  ultimately show ?thesis by (simp add: split_beta)
qed

text \<open>The write adds to the stored row, so the counts of a set whose answer was lost are in the table twice once
  it is written again, although the write is documented as idempotent.\<close>

lemma lost_answer_counts_twice:
  assumes "dwf (fn_current f)" "\<not> counters_empty (fn_current f)"
  shows "case foldl funnel_step (f, []) [FunnelPersist SaveLost t, FunnelPersist Saves u] of (f', st) \<Rightarrow>
    total_stored (stored_sets st) = 2 * count_of (fn_current f) ''TOTAL_SCANS''"
proof -
  let ?z = "f\<lparr>fn_current := zero_counters, fn_start := t\<rparr>"
  let ?g = "restore_funnel (fn_current f, fn_start f) ?z"
  have c: "count_of (fn_current ?g) k = count_of (fn_current f) k" for k using restore_counts(1) [of "(fn_current f, fn_start f)" ?z k] assms(1) by simp
  have "\<not> counters_empty (fn_current ?g)" using assms(2) by (simp add: counters_empty_def c)
  then show ?thesis using assms(2) c [of "''TOTAL_SCANS''"]
    by (simp add: persist_funnel_def flush_funnel_def total_stored_def stored_sets_def)
qed

end
