(* ===== verification/OosScanner.thy ===== *)
theory OosScanner
  imports Momentum ScanPipeline
begin

text \<open>
  The out-of-sample validation scanner (\<^verbatim>\<open>me_r_long_close_location_oos_validation.py\<close>), the
  context of closed candles it works on (\<^verbatim>\<open>me_r_close_location_asof_context.py\<close>) and the close
  location filter (\<^verbatim>\<open>close_location.py\<close>), all under \<^verbatim>\<open>src/app/scanners\<close>. Candle times
  are integer milliseconds, the evaluation time is in microseconds. The check for finite indicators
  has no counterpart: the model has no infinities. \<open>isofmt\<close> is \<^verbatim>\<open>datetime.isoformat\<close>.
\<close>

section \<open>Close location\<close>

definition CLOSE_LOCATION_THRESHOLD :: rat where
  "CLOSE_LOCATION_THRESHOLD = milli 700"

definition calculate_close_location :: "rat \<Rightarrow> rat \<Rightarrow> rat \<Rightarrow> rat option" where
  "calculate_close_location high low close =
     (let r = fsub high low in if r \<le> 0 then None else Some (fdiv (fsub close low) r))"

definition close_location_passes :: "rat \<Rightarrow> rat \<Rightarrow> rat \<Rightarrow> rat \<Rightarrow> bool \<times> rat option" where
  "close_location_passes high low close threshold =
     (case calculate_close_location high low close of None \<Rightarrow> (False, None) | Some x \<Rightarrow> (x \<ge> threshold, Some x))"

text \<open>The kinds of value that \<^verbatim>\<open>normalize_candle_timestamp\<close> tells apart; a naive datetime counts as
  UTC. \<^verbatim>\<open>datetime.fromtimestamp\<close> raises outside the years 1 to 9999.\<close>

datatype ts_value = TsNone | TsDatetime int | TsNumber rat | TsText string

definition in_datetime_range :: "int \<Rightarrow> bool" where
  "in_datetime_range t \<longleftrightarrow> - 62135596800000000 \<le> t \<and> t < 253402300800000000"

fun normalize_candle_timestamp :: "(int \<Rightarrow> string) \<Rightarrow> ts_value \<Rightarrow> string option" where
  "normalize_candle_timestamp isofmt TsNone = None"
| "normalize_candle_timestamp isofmt (TsDatetime t) = Some (isofmt t)"
| "normalize_candle_timestamp isofmt (TsNumber n) =
     (let ts = fl n; s = (if ts \<ge> 1000000000000 then fdiv ts 1000 else ts); t = from_timestamp s
      in if in_datetime_range t then Some (isofmt t) else None)"
| "normalize_candle_timestamp isofmt (TsText s) = (if CHR ''-'' \<in> set s \<and> CHR '':'' \<in> set s then Some s else None)"

definition text_json :: "string option \<Rightarrow> json" where
  "text_json r = (case r of None \<Rightarrow> JNull | Some s \<Rightarrow> JStr s)"

section \<open>The context of closed candles\<close>

definition asof_millis :: "int \<Rightarrow> int" where
  "asof_millis t = py_int (fmul (fdiv (of_int t) 1000000) 1000)"

fun closed_candles :: "int \<Rightarrow> string \<Rightarrow> int \<Rightarrow> int option \<Rightarrow> candle list \<Rightarrow> py_error + candle list" where
  "closed_candles asof tf interval previous [] = Inr []"
| "closed_candles asof tf interval previous (c # cs) =
     (let ts = cl_time c in
      if ts mod interval \<noteq> 0 then Inl (ValueError (tf @ '': unaligned candle timestamp '' @ int_text ts))
      else if (case previous of None \<Rightarrow> False | Some p \<Rightarrow> ts \<le> p)
      then Inl (ValueError (tf @ '': unordered or duplicate candles''))
      else if (case previous of None \<Rightarrow> False | Some p \<Rightarrow> ts - p \<noteq> interval)
      then Inl (ValueError (tf @ '': missing candle between '' @ int_text (the previous) @ '' and '' @ int_text ts))
      else rbind (closed_candles asof tf interval (Some ts) cs)
             (\<lambda>r. Inr (if ts + interval \<le> asof then c # r else r)))"

definition TF_5M :: int where "TF_5M = 300000"
definition TF_15M :: int where "TF_15M = 900000"
definition TF_1H :: int where "TF_1H = 3600000"

text \<open>\<open>Inr None\<close>: too little closed history. The hour is not empty where the indicators are built, so
  they exist (\<open>build_indicators_total\<close>).\<close>

definition clean_view :: "power \<Rightarrow> scan_view \<Rightarrow> candle list \<Rightarrow> candle list \<Rightarrow> candle list \<Rightarrow> scan_view option" where
  "clean_view pw v c5 c15 c60 =
     (if length c5 < 15 \<or> length c15 < 30 \<or> length c60 < 20 then None
      else case build_indicators pw c60 of
             None \<Rightarrow> None
           | Some ind \<Rightarrow>
               Some (v\<lparr>mc_5m := c5, mc_15m := c15, mc_1h := c60, vw_ind := ind,
                       mc_regime := Some (classify_market_regime ind (cl_close (last c60)))\<rparr>))"

definition build_me_clean_asof_context :: "power \<Rightarrow> scan_view \<Rightarrow> py_error + scan_view option" where
  "build_me_clean_asof_context pw v =
     (let asof = asof_millis (vw_at v) in
      rbind (closed_candles asof ''5m'' TF_5M None (mc_5m v)) (\<lambda>c5.
      rbind (closed_candles asof ''15m'' TF_15M None (mc_15m v)) (\<lambda>c15.
      rbind (closed_candles asof ''1h'' TF_1H None (mc_1h v)) (\<lambda>c60.
        Inr (clean_view pw v c5 c15 c60)))))"

section \<open>The scanner\<close>

definition signal_close_location :: "candle list \<Rightarrow> rat option \<times> ts_value" where
  "signal_close_location c5 =
     (if c5 = [] then (None, TsNone)
      else let c = last c5; r = candle_range c; ts = TsNumber (of_int (cl_time c))
           in if r \<le> 0 then (None, ts) else (Some (fdiv (fsub (cl_close c) (cl_low c)) r), ts))"

definition attach_oos_features ::
  "(int \<Rightarrow> string) \<Rightarrow> rat \<Rightarrow> setup_candidate \<Rightarrow> rat option \<Rightarrow> bool \<Rightarrow> ts_value \<Rightarrow> setup_candidate" where
  "attach_oos_features isofmt threshold c location passed ts =
     (let fs = foldl (\<lambda>d (k, x). dput k x d) (sc_features c)
        [(''oos_experiment_id'', JStr ME_RESEARCH),
         (''close_location'', case location of None \<Rightarrow> JNull | Some x \<Rightarrow> JFloat (py_round x 6)),
         (''close_location_threshold'', JFloat threshold),
         (''close_location_passed'', JBool passed),
         (''close_location_source_timestamp'', text_json (normalize_candle_timestamp isofmt ts)),
         (''close_location_decision_timestamp'', text_json (normalize_candle_timestamp isofmt (TsDatetime (sc_detected c))))]
      in c\<lparr>sc_features := fs, sc_scanner := ME_RESEARCH\<rparr>)"

definition signal_features :: "candle \<Rightarrow> (string \<times> json) list" where
  "signal_features c =
     [(''oos_signal_open'', JFloat (cl_open c)), (''oos_signal_high'', JFloat (cl_high c)),
      (''oos_signal_low'', JFloat (cl_low c)), (''oos_signal_close'', JFloat (cl_close c)),
      (''oos_signal_volume'', JFloat (cl_volume c)), (''oos_signal_candle_open_ms'', JInt (cl_time c)),
      (''oos_signal_entry_price'', JFloat (cl_close c)), (''oos_clean_observer_version'', JStr ''1.2.0'')]"

definition oos_candidate :: "(int \<Rightarrow> string) \<Rightarrow> rat \<Rightarrow> candle list \<Rightarrow> setup_candidate \<Rightarrow> setup_candidate" where
  "oos_candidate isofmt threshold c5 c =
     (case signal_close_location c5 of (location, ts) \<Rightarrow>
        let passed = (case location of None \<Rightarrow> False | Some x \<Rightarrow> x \<ge> threshold);
            c1 = attach_oos_features isofmt threshold c location passed ts;
            c2 = c1\<lparr>sc_features := foldl (\<lambda>d (k, x). dput k x d) (sc_features c1) (signal_features (last c5)),
                    sc_version := ''1.2.0'', sc_candle := cl_time (last c5)\<rparr>
        in if passed then c2
           else (with_feature ''_oos_rejection_reason'' (JStr ''CLOSE_LOCATION_LT_070'') (with_feature ''_oos_rejected'' (JBool True) c2))
                  \<lparr>sc_state := EXPIRED, sc_reasons := [''OOS_FILTER_REJECTED'']\<rparr>)"

definition unclosed :: "int \<Rightarrow> int \<Rightarrow> candle list \<Rightarrow> bool" where
  "unclosed asof interval cs \<longleftrightarrow> list_ex (\<lambda>c. cl_time c + interval > asof) cs"

definition asof_violation :: "int \<Rightarrow> scan_view \<Rightarrow> string option" where
  "asof_violation asof w =
     (if unclosed asof TF_5M (mc_5m w) then Some ''5m''
      else if unclosed asof TF_15M (mc_15m w) then Some ''15m''
      else if unclosed asof TF_1H (mc_1h w) then Some ''1h'' else None)"

definition oos_scan :: "power \<Rightarrow> (int \<Rightarrow> string) \<Rightarrow> exhaustion_params \<Rightarrow> rat \<Rightarrow> stamp \<Rightarrow> scan_view \<Rightarrow> py_error + setup_candidate list" where
  "oos_scan pw isofmt ep threshold st v =
     rbind (build_me_clean_asof_context pw v) (\<lambda>r.
       case r of
         None \<Rightarrow> Inr []
       | Some w \<Rightarrow>
           (case asof_violation (asof_millis (vw_at v)) w of
              Some tf \<Rightarrow> Inl (ValueError (''ME OOS ASOF violation: '' @ tf))
            | None \<Rightarrow> Inr (map (oos_candidate isofmt threshold (mc_5m w)) (v1_scan ep st w))))"

section \<open>Only closed candles matter\<close>

definition closed_at :: "int \<Rightarrow> int \<Rightarrow> candle \<Rightarrow> bool" where
  "closed_at asof interval c \<longleftrightarrow> cl_time c + interval \<le> asof"

lemma closed_candles_step:
  "closed_candles asof tf iv prev (d # cs) = Inr r \<longleftrightarrow>
     (\<exists>r'. closed_candles asof tf iv (Some (cl_time d)) cs = Inr r' \<and> r = (if cl_time d + iv \<le> asof then d # r' else r')) \<and>
     cl_time d mod iv = 0 \<and> (\<forall>p. prev = Some p \<longrightarrow> p < cl_time d \<and> cl_time d - p = iv)"
  by (cases prev) (auto simp: Let_def rbind_Inr_iff not_le)

declare closed_candles.simps(2) [simp del]

lemma closed_candles_later:
  "closed_candles asof tf iv (Some p) cs = Inr r \<Longrightarrow> c \<in> set cs \<Longrightarrow> p < cl_time c"
proof (induction cs arbitrary: p r)
  case (Cons d cs)
  then obtain r' where "closed_candles asof tf iv (Some (cl_time d)) cs = Inr r'" "p < cl_time d"
    by (auto simp: closed_candles_step)
  then show ?case using Cons.IH [of "cl_time d" r'] Cons.prems(2) by fastforce
qed simp

lemma closed_candles_filter:
  "closed_candles asof tf iv prev cs = Inr r \<Longrightarrow>
     r = filter (closed_at asof iv) cs \<and> closed_candles asof tf iv prev (filter (closed_at asof iv) cs) = Inr r"
proof (induction cs arbitrary: prev r)
  case (Cons d cs)
  from Cons.prems obtain r' where r': "closed_candles asof tf iv (Some (cl_time d)) cs = Inr r'"
    "r = (if cl_time d + iv \<le> asof then d # r' else r')"
    by (auto simp: closed_candles_step)
  note ih = Cons.IH [OF r'(1)]
  show ?case
  proof (cases "closed_at asof iv d")
    case True
    then show ?thesis using ih r' Cons.prems by (simp add: closed_candles_step closed_at_def)
  next
    case False
    then have e: "filter (closed_at asof iv) cs = []"
      using closed_candles_later [OF r'(1)] by (force simp: filter_empty_conv closed_at_def)
    have "\<not> cl_time d + iv \<le> asof" using False by (simp add: closed_at_def)
    then show ?thesis using e False ih r' by simp
  qed
qed simp

text \<open>The view without its unclosed candles.\<close>

definition strip_open :: "scan_view \<Rightarrow> scan_view" where
  "strip_open v = v\<lparr>mc_5m := filter (closed_at (asof_millis (vw_at v)) TF_5M) (mc_5m v),
                    mc_15m := filter (closed_at (asof_millis (vw_at v)) TF_15M) (mc_15m v),
                    mc_1h := filter (closed_at (asof_millis (vw_at v)) TF_1H) (mc_1h v)\<rparr>"

lemma clean_context_cases:
  assumes "build_me_clean_asof_context pw v = Inr r"
  obtains c5 c15 c60 where
    "closed_candles (asof_millis (vw_at v)) ''5m'' TF_5M None (mc_5m v) = Inr c5"
    "closed_candles (asof_millis (vw_at v)) ''15m'' TF_15M None (mc_15m v) = Inr c15"
    "closed_candles (asof_millis (vw_at v)) ''1h'' TF_1H None (mc_1h v) = Inr c60" "r = clean_view pw v c5 c15 c60"
  using assms by (auto simp: build_me_clean_asof_context_def Let_def rbind_Inr_iff)

lemma clean_view_fields: "clean_view pw v c5 c15 c60 = Some w \<Longrightarrow> mc_5m w = c5 \<and> mc_15m w = c15 \<and> mc_1h w = c60"
  by (auto simp: clean_view_def split: if_splits option.splits)

lemma filtered_closed: "closed_candles asof tf iv prev cs = Inr r \<Longrightarrow> \<not> unclosed asof iv r"
  using closed_candles_filter [of asof tf iv prev cs r] by (auto simp: unclosed_def list_ex_iff closed_at_def)

lemma clean_context_closed:
  assumes "build_me_clean_asof_context pw v = Inr (Some w)"
  shows "asof_violation (asof_millis (vw_at v)) w = None"
proof -
  obtain c5 c15 c60 where
    "closed_candles (asof_millis (vw_at v)) ''5m'' TF_5M None (mc_5m v) = Inr c5"
    "closed_candles (asof_millis (vw_at v)) ''15m'' TF_15M None (mc_15m v) = Inr c15"
    "closed_candles (asof_millis (vw_at v)) ''1h'' TF_1H None (mc_1h v) = Inr c60" "clean_view pw v c5 c15 c60 = Some w"
    by (rule clean_context_cases [OF assms]) simp
  from this(1-3) [THEN filtered_closed] clean_view_fields [OF this(4)] show ?thesis by (simp add: asof_violation_def)
qed

lemma strip_simps [simp]:
  "vw_at (strip_open v) = vw_at v" "mc_symbol (strip_open v) = mc_symbol v"
  "mc_5m (strip_open v) = filter (closed_at (asof_millis (vw_at v)) TF_5M) (mc_5m v)"
  "mc_15m (strip_open v) = filter (closed_at (asof_millis (vw_at v)) TF_15M) (mc_15m v)"
  "mc_1h (strip_open v) = filter (closed_at (asof_millis (vw_at v)) TF_1H) (mc_1h v)"
  by (simp_all add: strip_open_def)

lemma clean_view_strip: "clean_view pw (strip_open v) c5 c15 c60 = clean_view pw v c5 c15 c60"
  by (simp add: clean_view_def strip_open_def split: option.split)

lemma clean_context_strip:
  assumes "build_me_clean_asof_context pw v = Inr r"
  shows "build_me_clean_asof_context pw (strip_open v) = Inr r"
proof -
  obtain c5 c15 c60 where c:
    "closed_candles (asof_millis (vw_at v)) ''5m'' TF_5M None (mc_5m v) = Inr c5"
    "closed_candles (asof_millis (vw_at v)) ''15m'' TF_15M None (mc_15m v) = Inr c15"
    "closed_candles (asof_millis (vw_at v)) ''1h'' TF_1H None (mc_1h v) = Inr c60" and r: "r = clean_view pw v c5 c15 c60"
    by (rule clean_context_cases [OF assms])
  note s = c [THEN closed_candles_filter, THEN conjunct2]
  show ?thesis by (simp add: build_me_clean_asof_context_def Let_def s r clean_view_strip)
qed

lemma oos_scan_clean:
  "build_me_clean_asof_context pw v = Inr r \<Longrightarrow> oos_scan pw isofmt ep threshold st v =
     Inr (case r of None \<Rightarrow> [] | Some w \<Rightarrow> map (oos_candidate isofmt threshold (mc_5m w)) (v1_scan ep st w))"
  using clean_context_closed [of pw v] by (auto simp: oos_scan_def split: option.split)

text \<open>C29. The out-of-sample scanner never looks ahead: when it answers at all, its answer is the one it gives
  without any candle that is still open at the evaluation time; and its own check for open candles never
  fires, because the context it checks has none: the scanner raises only when the history itself is
  malformed.\<close>

theorem oos_no_lookahead:
  "(case oos_scan pw isofmt ep threshold st v of
      Inr cs \<Rightarrow> oos_scan pw isofmt ep threshold st (strip_open v) = Inr cs
    | Inl e \<Rightarrow> build_me_clean_asof_context pw v = Inl e)"
proof (cases "build_me_clean_asof_context pw v")
  case (Inr r)
  then show ?thesis by (simp add: oos_scan_clean clean_context_strip)
qed (simp add: oos_scan_def)

section \<open>What the filter decides\<close>

definition location_passed :: "rat \<Rightarrow> candle list \<Rightarrow> bool" where
  "location_passed threshold c5 = (case fst (signal_close_location c5) of None \<Rightarrow> False | Some x \<Rightarrow> x \<ge> threshold)"

lemma oos_candidate_facts:
  "me_clean (oos_candidate isofmt threshold c5 c)" "sc_direction (oos_candidate isofmt threshold c5 c) = sc_direction c"
  "sc_state (oos_candidate isofmt threshold c5 c) = (if location_passed threshold c5 then sc_state c else EXPIRED)"
  "flagged ''_oos_rejected'' (oos_candidate isofmt threshold c5 c) = (\<not> location_passed threshold c5 \<or> flagged ''_oos_rejected'' c)"
  by (simp_all add: oos_candidate_def split_beta Let_def attach_oos_features_def me_clean_def flagged_def feature_def with_feature_def
      location_passed_def signal_features_def)

lemma v1_setup_facts: "c \<in> set (v1_scan ep st v) \<Longrightarrow> sc_direction c = ''LONG'' \<and> sc_state c = SETUP_READY \<and> \<not> flagged ''_oos_rejected'' c"
  by (auto simp: v1_scan_def opt_list_def v1_scan_long_def Let_def flagged_def feature_def exhaustion_features_def lineage_features_def
      split: if_splits)

lemma clean_view_5m:
  "build_me_clean_asof_context pw v = Inr (Some w) \<Longrightarrow> mc_5m w = mc_5m (strip_open v)"
  by (erule clean_context_cases) (auto dest!: clean_view_fields [OF sym] closed_candles_filter)

text \<open>What the out-of-sample scanner builds is an observation, never a trade: each of its setups is a clean
  research setup that the quality gates let through and that every direction policy routes to observation
  only; it is ready exactly when the last closed candle closes in its upper part, and otherwise marked as
  rejected and expired.\<close>

theorem oos_setups_are_observations:
  "(case oos_scan pw isofmt ep threshold st v of
      Inl e \<Rightarrow> True
    | Inr cs \<Rightarrow> list_all (\<lambda>c. me_clean c \<and> passes_quality c \<and> sc_direction c = ''LONG'' \<and>
        route_candidate pol ctx c = RouteObserve (JStr ''ME_CLOSE_LOCATION_RESEARCH_ONLY'') \<and>
        sc_state c = (if location_passed threshold (mc_5m (strip_open v)) then SETUP_READY else EXPIRED) \<and>
        flagged ''_oos_rejected'' c = (\<not> location_passed threshold (mc_5m (strip_open v)))) cs)"
proof (cases "build_me_clean_asof_context pw v")
  case (Inr r)
  have "me_clean c \<Longrightarrow> passes_quality c \<and> route_candidate pol ctx c = RouteObserve (JStr ''ME_CLOSE_LOCATION_RESEARCH_ONLY'')" for c
    by (simp add: passes_quality_def route_candidate_def me_clean_def Let_def)
  then show ?thesis
    using Inr clean_view_5m [of pw v]
    by (auto simp: oos_scan_clean [OF Inr] list_all_iff oos_candidate_facts dest: v1_setup_facts split: option.split)
qed (simp add: oos_scan_def)

text \<open>The filter of the scanner and the pure function of \<^verbatim>\<open>close_location.py\<close> agree.\<close>

lemma location_passed_pure:
  "c5 \<noteq> [] \<Longrightarrow> location_passed threshold c5 = fst (close_location_passes (cl_high (last c5)) (cl_low (last c5)) (cl_close (last c5)) threshold)"
  by (simp add: location_passed_def signal_close_location_def close_location_passes_def calculate_close_location_def candle_range_def Let_def)

text \<open>A close location is a fraction for every candle whose close lies between its low and its high.\<close>

lemma close_location_unit:
  "calculate_close_location h l c = Some x \<Longrightarrow> l \<le> c \<Longrightarrow> c \<le> h \<Longrightarrow> in_unit x"
proof -
  assume a: "calculate_close_location h l c = Some x" "l \<le> c" "c \<le> h"
  then have r: "0 < fsub h l" and x: "x = fdiv (fsub c l) (fsub h l)"
    by (auto simp: calculate_close_location_def Let_def split: if_splits)
  have "fsub c l \<le> fsub h l" using a(3) by (intro fsub_mono) simp_all
  then have "fsub c l / fsub h l \<le> 1" using r by simp
  then have "x \<le> 1" unfolding x fdiv_def by (intro f64.rnd_le_rep) (use is_double_1 in \<open>simp_all add: is_double_def\<close>)
  moreover have "0 \<le> x" using a r by (simp add: x fdiv_nonneg fsub_nonneg)
  ultimately show ?thesis by (simp add: in_unit_def)
qed

end
