(* ===== verification/Structure.thy ===== *)
theory Structure
  imports OosScanner
begin

text \<open>
  The structure scanners under \<^verbatim>\<open>src/app/scanners\<close>: breakout and retest
  (\<^verbatim>\<open>breakout_retest.py\<close>), liquidity sweep with change of character
  (\<^verbatim>\<open>liquidity_sweep_choch.py\<close>), liquidity reversal (\<^verbatim>\<open>liquidity_reversal.py\<close>) and
  support/resistance reaction (\<^verbatim>\<open>support_resistance.py\<close>). Log lines are left out. Prices are
  positive wherever the code divides by one: a price of 0, which the exchange never lists, would raise.
\<close>

section \<open>Breakout and retest\<close>

record breakout_params =
  bp_lookback :: nat
  bp_breakout :: rat
  bp_retest :: rat

definition breakout_default :: breakout_params where
  "breakout_default = \<lparr>bp_lookback = 5, bp_breakout = milli 1, bp_retest = milli 3\<rparr>"

definition find_breakout_level :: "breakout_params \<Rightarrow> candle list \<Rightarrow> string \<Rightarrow> rat option" where
  "find_breakout_level bp cs direction =
     (let subset = last_n 50 cs;
          points = (if direction = ''LONG'' then find_swing_highs subset (bp_lookback bp) else find_swing_lows subset (bp_lookback bp))
      in if points = [] then None else Some (sp_price (last points)))"

definition breakout_features ::
  "breakout_params \<Rightarrow> rat \<Rightarrow> rat \<Rightarrow> rat \<Rightarrow> rat \<Rightarrow> rat \<Rightarrow> rat \<Rightarrow> rat \<Rightarrow> string \<Rightarrow> string option \<Rightarrow> (string \<times> json) list" where
  "breakout_features bp level price stop target atr vol avg_vol direction regime =
     [(''volume_ratio'', JFloat (if avg_vol > 0 then min (fdiv (fdiv vol avg_vol) 2) 1 else 0)),
      (''retest_distance'', JFloat (max 0 (fsub 1 (fdiv \<bar>fsub price level\<bar> (fmul level (bp_retest bp)))))),
      (''rr_ratio'', JFloat (rr_ratio level stop target)),
      (''stop_distance_atr'', JFloat (stop_distance_atr level stop atr)),
      (''regime_alignment'', JFloat (regime_alignment direction regime))]"

definition breakout_scan_long :: "breakout_params \<Rightarrow> stamp \<Rightarrow> scan_view \<Rightarrow> setup_candidate option" where
  "breakout_scan_long bp st v =
     (let c15 = mc_15m v; c5 = mc_5m v in
      if length c15 < 30 \<or> length c5 < 20 then None
      else case find_breakout_level bp c15 ''LONG'' of None \<Rightarrow> None | Some level \<Rightarrow>
      case find (\<lambda>c. cl_close c > fmul level (fadd 1 (bp_breakout bp))) (last_n 10 c15) of None \<Rightarrow> None | Some breakout \<Rightarrow>
      let vol = cl_volume breakout; avg_vol = mean_of (map cl_volume (last_n 20 c15)) 20 in
      if avg_vol \<le> 0 \<or> vol < fmul avg_vol (milli 1200) then None
      else let price = cl_close (last c5);
               zone_high = fmul level (fadd 1 (bp_retest bp)); zone_low = fmul level (fsub 1 (bp_retest bp)) in
      if \<not> (zone_low \<le> price \<and> price \<le> zone_high) then None
      else if cl_close (last c5) < cl_open (last c5) then None
      else let stop = fmul (py_min (map cl_low (last_n 5 c5))) (milli 998);
               atr = view_atr v (fmul level (milli 20));
               target = fadd level (fmul atr 2) in
      if stop \<ge> zone_low \<or> target \<le> zone_high then None
      else Some ((new_setup st v ''BREAKOUT_RETEST'' ''2.0.0'' ''LONG'')
             \<lparr>sc_started := from_millis (cl_time breakout), sc_price := level, sc_low := zone_low, sc_high := zone_high,
              sc_stop := stop, sc_t1 := Some target, sc_t2 := Some (fadd level (fmul atr (7 / 2))),
              sc_features := breakout_features bp level price stop target atr vol avg_vol ''LONG'' (mc_regime v)\<rparr>))"

definition breakout_scan_short :: "breakout_params \<Rightarrow> stamp \<Rightarrow> scan_view \<Rightarrow> setup_candidate option" where
  "breakout_scan_short bp st v =
     (let c15 = mc_15m v; c5 = mc_5m v in
      if length c15 < 30 \<or> length c5 < 20 then None
      else case find_breakout_level bp c15 ''SHORT'' of None \<Rightarrow> None | Some level \<Rightarrow>
      case find (\<lambda>c. cl_close c < fmul level (fsub 1 (bp_breakout bp))) (last_n 10 c15) of None \<Rightarrow> None | Some breakdown \<Rightarrow>
      let vol = cl_volume breakdown; avg_vol = mean_of (map cl_volume (last_n 20 c15)) 20 in
      if avg_vol \<le> 0 \<or> vol < fmul avg_vol (milli 1200) then None
      else let price = cl_close (last c5);
               zone_high = fmul level (fadd 1 (bp_retest bp)); zone_low = fmul level (fsub 1 (bp_retest bp)) in
      if \<not> (zone_low \<le> price \<and> price \<le> zone_high) then None
      else if cl_close (last c5) > cl_open (last c5) then None
      else let stop = fmul (py_max (map cl_high (last_n 5 c5))) (milli 1002);
               atr = view_atr v (fmul level (milli 20));
               target = fsub level (fmul atr 2) in
      if stop \<le> zone_high \<or> target \<ge> zone_low then None
      else Some ((new_setup st v ''BREAKOUT_RETEST'' ''2.0.0'' ''SHORT'')
             \<lparr>sc_started := from_millis (cl_time breakdown), sc_price := level, sc_low := zone_low, sc_high := zone_high,
              sc_stop := stop, sc_t1 := Some target, sc_t2 := Some (fsub level (fmul atr (7 / 2))),
              sc_features := breakout_features bp level price stop target atr vol avg_vol ''SHORT'' (mc_regime v)\<rparr>))"

definition breakout_scan :: "breakout_params \<Rightarrow> stamp \<times> stamp \<Rightarrow> scan_view \<Rightarrow> setup_candidate list" where
  "breakout_scan bp sts v = opt_list (breakout_scan_long bp (fst sts) v) @ opt_list (breakout_scan_short bp (snd sts) v)"

section \<open>Liquidity sweep and change of character\<close>

record sweep_params =
  wp_ob_lookback :: nat
  wp_lookback :: nat
  wp_margin :: rat

definition sweep_default :: sweep_params where
  "sweep_default = \<lparr>wp_ob_lookback = 5, wp_lookback = 5, wp_margin = milli 1\<rparr>"

definition displacement_strength :: "candle list \<Rightarrow> rat" where
  "displacement_strength cs =
     (let r = candle_range (last cs) in if r \<le> 0 then 0 else min (fdiv \<bar>candle_body (last cs)\<bar> r) 1)"

definition ob_distance :: "rat \<Rightarrow> order_block \<Rightarrow> rat" where
  "ob_distance price ob =
     (let center = fdiv (fadd (ob_high ob) (ob_low ob)) 2; half = fdiv (fsub (ob_high ob) (ob_low ob)) 2
      in if half \<le> 0 then 0 else max 0 (fsub 1 (fdiv \<bar>fsub price center\<bar> half)))"

definition volume_spike :: "candle list \<Rightarrow> nat \<Rightarrow> rat \<Rightarrow> bool" where
  "volume_spike cs n factor \<longleftrightarrow> (let avg = average_volume cs n in avg > 0 \<and> cl_volume (last cs) > fmul avg factor)"

definition sweep_depth_pct :: "rat \<Rightarrow> rat \<Rightarrow> rat" where
  "sweep_depth_pct swept level = (if level \<le> 0 then 0 else fdiv \<bar>fsub level swept\<bar> level)"

definition sweep_features ::
  "candle list \<Rightarrow> rat \<Rightarrow> rat \<Rightarrow> order_block \<Rightarrow> rat \<Rightarrow> rat \<Rightarrow> rat \<Rightarrow> rat \<Rightarrow> (string \<times> json) list" where
  "sweep_features c5 swept level ob entry stop target atr =
     [(''sweep_depth'', JFloat (min (fdiv (sweep_depth_pct swept level) (milli 20)) 1)),
      (''displacement_strength'', JFloat (displacement_strength c5)),
      (''ob_distance'', JFloat (ob_distance (cl_close (last c5)) ob)),
      (''rr_ratio'', JFloat (rr_ratio entry stop target)),
      (''stop_distance_atr'', JFloat (stop_distance_atr entry stop atr)),
      (''volume_spike'', JBool (volume_spike c5 20 (milli 1300))),
      (''rsi_confirmation'', JFloat (1 / 2))]"

definition block_at_price :: "string \<Rightarrow> rat \<Rightarrow> order_block list \<Rightarrow> order_block option" where
  "block_at_price kind price obs =
     find (\<lambda>ob. ob_low ob \<le> price \<and> price \<le> ob_high ob) (rev (filter (\<lambda>ob. ob_type ob = kind) obs))"

definition choch_scan_long :: "sweep_params \<Rightarrow> stamp \<Rightarrow> scan_view \<Rightarrow> setup_candidate option" where
  "choch_scan_long wp st v =
     (let c1h = mc_1h v; c15 = mc_15m v; c5 = mc_5m v in
      if length c1h < 30 \<or> length c15 < 30 \<or> length c5 < 20 then None
      else let price = cl_close (last c5) in
      case block_at_price ''bullish'' price (find_order_blocks c1h (wp_ob_lookback wp)) of None \<Rightarrow> None | Some ob \<Rightarrow>
      let lows = find_swing_lows c15 (wp_lookback wp) in
      if lows = [] then None
      else let recent_low = py_min (map cl_low (last_n 10 c5)); level = sp_price (last lows) in
      if \<not> list_ex (\<lambda>c. cl_low c < fmul level (fsub 1 (wp_margin wp))) (last_n 5 c5) then None
      else if price \<le> level then None
      else if detect_choch c15 (wp_lookback wp) \<noteq> Some ''bullish_choch'' then None
      else if detect_displacement c5 3 (3 / 2) \<noteq> Some ''bullish_displacement'' then None
      else let entry_low = max level (ob_low ob); entry_high = ob_high ob;
               stop = fmul recent_low (milli 998);
               atr = view_atr v (fmul (fsub entry_high entry_low) 2);
               target = fadd entry_high (fmul atr 2)
        in Some ((new_setup st v ''LIQUIDITY_SWEEP_CHOCH_OB'' ''2.0.0'' ''LONG'')
             \<lparr>sc_started := from_millis (ob_time ob), sc_price := level, sc_low := entry_low, sc_high := entry_high,
              sc_stop := stop, sc_t1 := Some target, sc_t2 := Some (fadd entry_high (fmul atr 3)),
              sc_features := sweep_features c5 (py_min (map cl_low (last_n 5 c5))) level ob entry_high stop target atr\<rparr>))"

definition choch_scan_short :: "sweep_params \<Rightarrow> stamp \<Rightarrow> scan_view \<Rightarrow> setup_candidate option" where
  "choch_scan_short wp st v =
     (let c1h = mc_1h v; c15 = mc_15m v; c5 = mc_5m v in
      if length c1h < 30 \<or> length c15 < 30 \<or> length c5 < 20 then None
      else let price = cl_close (last c5) in
      case block_at_price ''bearish'' price (find_order_blocks c1h (wp_ob_lookback wp)) of None \<Rightarrow> None | Some ob \<Rightarrow>
      let highs = find_swing_highs c15 (wp_lookback wp) in
      if highs = [] then None
      else let recent_high = py_max (map cl_high (last_n 10 c5)); level = sp_price (last highs) in
      if \<not> list_ex (\<lambda>c. cl_high c > fmul level (fadd 1 (wp_margin wp))) (last_n 5 c5) then None
      else if price \<ge> level then None
      else if detect_choch c15 (wp_lookback wp) \<noteq> Some ''bearish_choch'' then None
      else if detect_displacement c5 3 (3 / 2) \<noteq> Some ''bearish_displacement'' then None
      else let entry_high = min level (ob_high ob); entry_low = ob_low ob;
               stop = fmul recent_high (milli 1002);
               atr = view_atr v (fmul (fsub entry_high entry_low) 2);
               target = fsub entry_low (fmul atr 2)
        in Some ((new_setup st v ''LIQUIDITY_SWEEP_CHOCH_OB'' ''2.0.0'' ''SHORT'')
             \<lparr>sc_started := from_millis (ob_time ob), sc_price := level, sc_low := entry_low, sc_high := entry_high,
              sc_stop := stop, sc_t1 := Some target, sc_t2 := Some (fsub entry_low (fmul atr 3)),
              sc_features := sweep_features c5 (py_max (map cl_high (last_n 5 c5))) level ob entry_low stop target atr\<rparr>))"

definition choch_scan :: "sweep_params \<Rightarrow> stamp \<times> stamp \<Rightarrow> scan_view \<Rightarrow> setup_candidate list" where
  "choch_scan wp sts v = opt_list (choch_scan_long wp (fst sts) v) @ opt_list (choch_scan_short wp (snd sts) v)"

section \<open>Liquidity reversal\<close>

definition sweep_depth :: "rat \<Rightarrow> rat \<Rightarrow> rat" where
  "sweep_depth swept level = (if level \<le> 0 then 0 else min (fdiv (fdiv \<bar>fsub level swept\<bar> level) (milli 10)) 1)"

definition reversal_features ::
  "candle list \<Rightarrow> rat \<Rightarrow> rat \<Rightarrow> rat \<Rightarrow> rat \<Rightarrow> rat \<Rightarrow> string \<Rightarrow> string option \<Rightarrow> (string \<times> json) list" where
  "reversal_features c5 level swept stop target atr direction regime =
     [(''sweep_depth'', JFloat (sweep_depth swept level)),
      (''rejection_strength'', JFloat (rejection_strength (last c5))),
      (''rr_ratio'', JFloat (rr_ratio level stop target)),
      (''stop_distance_atr'', JFloat (stop_distance_atr level stop atr)),
      (''volume_spike'', JBool (volume_spike c5 10 (3 / 2))),
      (''regime_alignment'', JFloat (regime_alignment direction regime))]"

text \<open>The first level that a candle swept, with the first price beyond it.\<close>

fun first_sweep :: "(rat \<Rightarrow> rat \<Rightarrow> bool) \<Rightarrow> rat list \<Rightarrow> rat list \<Rightarrow> (rat \<times> rat) option" where
  "first_sweep beyond [] prices = None"
| "first_sweep beyond (level # levels) prices =
     (case find (beyond level) prices of Some p \<Rightarrow> Some (level, p) | None \<Rightarrow> first_sweep beyond levels prices)"

definition positive_levels :: "rat list \<Rightarrow> rat list" where
  "positive_levels xs = filter (\<lambda>x. x > 0) xs"

definition reversal_scan_long :: "nat \<Rightarrow> rat \<Rightarrow> stamp \<Rightarrow> scan_view \<Rightarrow> setup_candidate option" where
  "reversal_scan_long lookback margin st v =
     (let c15 = mc_15m v; c5 = mc_5m v; lv = vw_levels v in
      if length c15 < 30 \<or> length c5 < 15 then None
      else let lows = find_swing_lows c15 lookback in
      if length lows < 2 then None
      else case first_sweep (\<lambda>level p. p < fmul level (fsub 1 margin))
                 (sp_price (last lows) # positive_levels [lv_day_low lv, lv_week_low lv]) (map cl_low (last_n 8 c5)) of
             None \<Rightarrow> None | Some (level, swept) \<Rightarrow>
      let c = last c5 in
      if cl_close c \<le> level then None
      else if \<not> (cl_close c > cl_open c \<and> fsub (min (cl_open c) (cl_close c)) (cl_low c) > fmul 2 \<bar>candle_body c\<bar>) then None
      else if \<not> (detect_displacement (last_n 5 c5) 2 1 = Some ''bullish_displacement'' \<or> cl_close c > cl_high (second_last c15)) then None
      else let atr = view_atr v (fmul level (milli 20));
               stop = fmul (py_min (map cl_low (last_n 5 c5))) (milli 998);
               target = fadd level (fmul atr (3 / 2))
        in Some ((new_setup st v ''LIQUIDITY_REVERSAL'' ''2.0.0'' ''LONG'')
             \<lparr>sc_price := level, sc_low := level, sc_high := fmul level (milli 1003),
              sc_stop := stop, sc_t1 := Some target, sc_t2 := Some (fadd level (fmul atr 3)),
              sc_features := reversal_features c5 level swept stop target atr ''LONG'' (mc_regime v)\<rparr>))"

definition reversal_scan_short :: "nat \<Rightarrow> rat \<Rightarrow> stamp \<Rightarrow> scan_view \<Rightarrow> setup_candidate option" where
  "reversal_scan_short lookback margin st v =
     (let c15 = mc_15m v; c5 = mc_5m v; lv = vw_levels v in
      if length c15 < 30 \<or> length c5 < 15 then None
      else let highs = find_swing_highs c15 lookback in
      if length highs < 2 then None
      else case first_sweep (\<lambda>level p. p > fmul level (fadd 1 margin))
                 (sp_price (last highs) # positive_levels [lv_day_high lv, lv_week_high lv]) (map cl_high (last_n 8 c5)) of
             None \<Rightarrow> None | Some (level, swept) \<Rightarrow>
      let c = last c5 in
      if cl_close c \<ge> level then None
      else if \<not> (cl_close c < cl_open c \<and> fsub (cl_high c) (max (cl_open c) (cl_close c)) > fmul 2 \<bar>candle_body c\<bar>) then None
      else if \<not> (detect_displacement (last_n 5 c5) 2 1 = Some ''bearish_displacement'' \<or> cl_close c < cl_low (second_last c15)) then None
      else let atr = view_atr v (fmul level (milli 20));
               stop = fmul (py_max (map cl_high (last_n 5 c5))) (milli 1002);
               target = fsub level (fmul atr (3 / 2))
        in Some ((new_setup st v ''LIQUIDITY_REVERSAL'' ''2.0.0'' ''SHORT'')
             \<lparr>sc_price := level, sc_low := fmul level (milli 997), sc_high := level,
              sc_stop := stop, sc_t1 := Some target, sc_t2 := Some (fsub level (fmul atr 3)),
              sc_features := reversal_features c5 level swept stop target atr ''SHORT'' (mc_regime v)\<rparr>))"

definition reversal_scan :: "nat \<Rightarrow> rat \<Rightarrow> stamp \<times> stamp \<Rightarrow> scan_view \<Rightarrow> setup_candidate list" where
  "reversal_scan lookback margin sts v =
     (let lv = vw_levels v in
      if list_ex (\<lambda>x. x \<le> 0) [lv_day_high lv, lv_day_low lv, lv_week_high lv, lv_week_low lv] then []
      else opt_list (reversal_scan_long lookback margin (fst sts) v) @ opt_list (reversal_scan_short lookback margin (snd sts) v))"

section \<open>Support and resistance\<close>

record level_params =
  lp_touches_min :: nat
  lp_distance :: rat
  lp_lookback :: nat

definition level_default :: level_params where
  "level_default = \<lparr>lp_touches_min = 2, lp_distance = milli 5, lp_lookback = 5\<rparr>"

definition near_level :: "rat \<Rightarrow> rat \<Rightarrow> bool" where
  "near_level price level \<longleftrightarrow> fdiv \<bar>fsub price level\<bar> level < milli 3"

definition find_support_levels :: "level_params \<Rightarrow> candle list \<Rightarrow> rat list" where
  "find_support_levels lp cs =
     sort (remdups (filter (\<lambda>p. length (filter (\<lambda>c. near_level (cl_low c) p) cs) \<ge> lp_touches_min lp)
       (map sp_price (find_swing_lows cs (lp_lookback lp)))))"

definition find_resistance_levels :: "level_params \<Rightarrow> candle list \<Rightarrow> rat list" where
  "find_resistance_levels lp cs =
     sort (remdups (filter (\<lambda>p. length (filter (\<lambda>c. near_level (cl_high c) p) cs) \<ge> lp_touches_min lp)
       (map sp_price (find_swing_highs cs (lp_lookback lp)))))"

definition raw_touch_count :: "candle list \<Rightarrow> rat \<Rightarrow> nat" where
  "raw_touch_count cs level = length (filter (\<lambda>c. near_level (cl_low c) level \<or> near_level (cl_high c) level) cs)"

definition level_features ::
  "candle list \<Rightarrow> candle list \<Rightarrow> rat \<Rightarrow> rat \<Rightarrow> rat \<Rightarrow> rat \<Rightarrow> rat \<Rightarrow> string \<Rightarrow> string option \<Rightarrow> (string \<times> json) list" where
  "level_features c1h c5 level entry stop target atr direction regime =
     (let touches = raw_touch_count c1h level; c = last c5; risk = \<bar>fsub entry stop\<bar>;
          r = candle_range c; body = \<bar>candle_body c\<bar>;
          upper = fsub (cl_high c) (max (cl_open c) (cl_close c)); lower = fsub (min (cl_open c) (cl_close c)) (cl_low c);
          wick_total = fsub r body; avg_vol = average_volume c5 10
      in [(''level_touch_count'', JFloat (min (fdiv (of_nat touches) 5) 1)),
          (''rejection_strength'', JFloat (rejection_strength c)),
          (''rr_ratio'', JFloat (rr_ratio entry stop target)),
          (''stop_distance_atr'', JFloat (stop_distance_atr entry stop atr)),
          (''volume_spike'', JBool (volume_spike c5 10 (milli 1300))),
          (''regime_alignment'', JFloat (regime_alignment direction regime)),
          (''_raw_touch_count'', JInt (int touches)),
          (''_raw_level_distance_pct'', JFloat (if level > 0 then py_round (fmul (fdiv \<bar>fsub entry level\<bar> level) 100) 6 else 0)),
          (''_raw_atr'', JFloat (py_round atr 8)),
          (''_raw_atr_pct'', JFloat (py_round (if entry > 0 then fmul (fdiv atr entry) 100 else 0) 4)),
          (''_raw_candle_range'', JFloat (py_round r 8)),
          (''_raw_candle_body'', JFloat (py_round body 8)),
          (''_raw_upper_wick'', JFloat (py_round upper 8)),
          (''_raw_lower_wick'', JFloat (py_round lower 8)),
          (''_raw_wick_body_ratio'', JFloat (py_round (if body > 0 then fdiv wick_total body else 0) 4)),
          (''_raw_volume'', JFloat (py_round (cl_volume c) 2)),
          (''_raw_volume_ratio'', JFloat (py_round (if avg_vol > 0 then fdiv (cl_volume c) avg_vol else 0) 4)),
          (''_raw_rr'', JFloat (py_round (rr_raw entry stop target) 4)),
          (''_raw_risk_distance'', JFloat (py_round risk 8)),
          (''_raw_risk_distance_pct'', JFloat (if entry > 0 then py_round (fmul (fdiv risk entry) 100) 4 else 0)),
          (''_raw_stop_distance_atr'', JFloat (py_round (stop_atr entry stop atr) 4)),
          (''_raw_level_type'', JStr (if direction = ''LONG'' then ''support'' else ''resistance''))])"

definition closest_support :: "level_params \<Rightarrow> rat \<Rightarrow> rat list \<Rightarrow> rat option" where
  "closest_support lp price levels =
     find (\<lambda>level. level < price \<and> fdiv (fsub price level) price < fmul (lp_distance lp) 5) (rev (sort levels))"

definition closest_resistance :: "level_params \<Rightarrow> rat \<Rightarrow> rat list \<Rightarrow> rat option" where
  "closest_resistance lp price levels =
     find (\<lambda>level. level > price \<and> fdiv (fsub level price) price < fmul (lp_distance lp) 5) (sort levels)"

definition level_scan_long :: "level_params \<Rightarrow> stamp \<Rightarrow> scan_view \<Rightarrow> setup_candidate option" where
  "level_scan_long lp st v =
     (let c1h = mc_1h v; c15 = mc_15m v; c5 = mc_5m v in
      if length c1h < 30 \<or> length c15 < 20 \<or> length c5 < 15 then None
      else let levels = find_support_levels lp c1h in
      if levels = [] then None
      else let c = last c5; price = cl_close c in
      case closest_support lp price levels of None \<Rightarrow> None | Some level \<Rightarrow>
      if fdiv \<bar>fsub price level\<bar> level \<ge> lp_distance lp then None
      else if \<not> (cl_close c > cl_open c \<and> fsub (min (cl_open c) (cl_close c)) (cl_low c) > \<bar>candle_body c\<bar>) then None
      else if detect_displacement (last_n 5 c5) 2 1 \<noteq> Some ''bullish_displacement'' \<and> cl_close c < cl_high (second_last c15) then None
      else let atr = view_atr v (fmul level (milli 20));
               stop = fmul level (milli 995);
               target = fadd level (fmul atr 2)
        in Some ((new_setup st v ''SUPPORT_RESISTANCE_REACTION'' ''2.0.0'' ''LONG'')
             \<lparr>sc_price := level, sc_low := fmul level (milli 998), sc_high := fmul level (milli 1002),
              sc_stop := stop, sc_t1 := Some target, sc_t2 := Some (fadd level (fmul atr 3)),
              sc_features := level_features c1h c5 level level stop target atr ''LONG'' (mc_regime v)\<rparr>))"

definition level_scan_short :: "level_params \<Rightarrow> stamp \<Rightarrow> scan_view \<Rightarrow> setup_candidate option" where
  "level_scan_short lp st v =
     (let c1h = mc_1h v; c15 = mc_15m v; c5 = mc_5m v in
      if length c1h < 30 \<or> length c15 < 20 \<or> length c5 < 15 then None
      else let levels = find_resistance_levels lp c1h in
      if levels = [] then None
      else let c = last c5; price = cl_close c in
      case closest_resistance lp price levels of None \<Rightarrow> None | Some level \<Rightarrow>
      if fdiv \<bar>fsub price level\<bar> level \<ge> lp_distance lp then None
      else if \<not> (cl_close c < cl_open c \<and> fsub (cl_high c) (max (cl_open c) (cl_close c)) > \<bar>candle_body c\<bar>) then None
      else if detect_displacement (last_n 5 c5) 2 1 \<noteq> Some ''bearish_displacement'' \<and> cl_close c > cl_low (second_last c15) then None
      else let atr = view_atr v (fmul level (milli 20));
               stop = fmul level (milli 1005);
               target = fsub level (fmul atr 2)
        in Some ((new_setup st v ''SUPPORT_RESISTANCE_REACTION'' ''2.0.0'' ''SHORT'')
             \<lparr>sc_price := level, sc_low := fmul level (milli 998), sc_high := fmul level (milli 1002),
              sc_stop := stop, sc_t1 := Some target, sc_t2 := Some (fsub level (fmul atr 3)),
              sc_features := level_features c1h c5 level level stop target atr ''SHORT'' (mc_regime v)\<rparr>))"

definition level_scan :: "level_params \<Rightarrow> stamp \<times> stamp \<Rightarrow> scan_view \<Rightarrow> setup_candidate list" where
  "level_scan lp sts v = opt_list (level_scan_long lp (fst sts) v) @ opt_list (level_scan_short lp (snd sts) v)"

section \<open>Extremes of a list\<close>

lemma foldl_min_le: "foldl min a xs \<le> a" "x \<in> set xs \<Longrightarrow> foldl min a xs \<le> (x :: rat)"
proof -
  have "\<forall>x \<in> insert a (set xs). foldl min a xs \<le> x"
    by (induction xs arbitrary: a) (simp, force)
  then show "foldl min a xs \<le> a" "x \<in> set xs \<Longrightarrow> foldl min a xs \<le> x" by auto
qed

lemma foldl_max_ge: "a \<le> foldl max a xs" "x \<in> set xs \<Longrightarrow> (x :: rat) \<le> foldl max a xs"
proof -
  have "\<forall>x \<in> insert a (set xs). x \<le> foldl max a xs"
    by (induction xs arbitrary: a) (simp, force)
  then show "a \<le> foldl max a xs" "x \<in> set xs \<Longrightarrow> x \<le> foldl max a xs" by auto
qed

lemma foldl_min_in: "foldl min a xs \<in> insert a (set xs :: rat set)"
  by (induction xs arbitrary: a) (auto simp: min_def)

lemma foldl_max_in: "foldl max a xs \<in> insert a (set xs :: rat set)"
  by (induction xs arbitrary: a) (auto simp: max_def)

lemma py_min_le: "x \<in> set xs \<Longrightarrow> py_min xs \<le> x"
  by (cases xs) (auto simp: py_min_def foldl_min_le)

lemma py_max_ge: "x \<in> set xs \<Longrightarrow> x \<le> py_max xs"
  by (cases xs) (auto simp: py_max_def foldl_max_ge)

lemma py_min_in: "xs \<noteq> [] \<Longrightarrow> py_min xs \<in> set xs"
  using foldl_min_in by (cases xs) (auto simp: py_min_def)

lemma py_max_in: "xs \<noteq> [] \<Longrightarrow> py_max xs \<in> set xs"
  using foldl_max_in by (cases xs) (auto simp: py_max_def)

lemma last_n_subset: "set (last_n n xs) \<subseteq> set xs" "m \<le> n \<Longrightarrow> set (last_n m xs) \<subseteq> set (last_n n xs)"
  by (auto simp: last_n_def set_drop_subset_set_drop dest: in_set_dropD)

section \<open>Breakout setups are tradable\<close>

definition sane_candle :: "candle \<Rightarrow> bool" where
  "sane_candle c \<longleftrightarrow> sane_price (cl_low c) \<and> cl_low c \<le> cl_open c \<and> cl_low c \<le> cl_close c \<and> cl_open c \<le> cl_high c \<and>
     cl_close c \<le> cl_high c \<and> is_double (cl_low c) \<and> is_double (cl_high c) \<and> 0 \<le> cl_volume c"

definition sane_view :: "scan_view \<Rightarrow> bool" where
  "sane_view v \<longleftrightarrow> list_all sane_candle (mc_5m v) \<and> list_all sane_candle (mc_15m v) \<and> list_all sane_candle (mc_1h v)"

lemma sane_candle_high: "sane_candle c \<Longrightarrow> sane_price (cl_high c)"
  by (auto simp: sane_candle_def sane_price_def)

lemma swing_price_in:
  "s \<in> set (find_swing_highs cs n) \<Longrightarrow> sp_price s \<in> cl_high ` set cs" "s \<in> set (find_swing_lows cs n) \<Longrightarrow> sp_price s \<in> cl_low ` set cs"
  by (auto simp: find_swing_highs_def find_swing_lows_def)

lemma breakout_level_sane:
  assumes "list_all sane_candle cs" "find_breakout_level bp cs d = Some level"
  shows "sane_price level"
proof -
  obtain s where s: "level = sp_price s" "s \<in> set (find_swing_highs (last_n 50 cs) (bp_lookback bp)) \<union> set (find_swing_lows (last_n 50 cs) (bp_lookback bp))"
    using assms(2) by (auto simp: find_breakout_level_def Let_def split: if_splits)
  then obtain c where "c \<in> set cs" "level = cl_high c \<or> level = cl_low c"
    using swing_price_in last_n_subset(1) [of 50 cs] by blast
  then show ?thesis using assms(1) sane_candle_high by (auto simp: list_all_iff sane_candle_def)
qed

lemma retest_factors: "1 / 2 \<le> fsub 1 (milli 3)" "fsub 1 (milli 3) \<le> fadd 1 (milli 3)" "1 / 2 \<le> fadd 1 (milli 3)"
proof -
  have "3 / 1024 \<le> milli 3" "milli 3 \<le> 4 / 1024" using milli_ge [of 3 3] milli_le [of 3 4] by simp_all
  then have "1020 / 1024 \<le> fsub 1 (milli 3)"
    unfolding fsub_def using fl_ge_1024 [of 1020 "1 - milli 3"] by simp
  then show "1 / 2 \<le> fsub 1 (milli 3)" by linarith
  show "fsub 1 (milli 3) \<le> fadd 1 (milli 3)" unfolding fsub_def fadd_def by (intro fl_mono) simp
  have "1 \<le> fadd 1 (milli 3)" by (intro fadd_ge_left) simp_all
  then show "1 / 2 \<le> fadd 1 (milli 3)" by linarith
qed

lemma scaled_low_positive:
  assumes "list_all sane_candle cs" "cs \<noteq> []" "1 / 2 \<le> q"
  shows "0 < fmul (py_min (map cl_low cs)) q"
proof -
  have "py_min (map cl_low cs) \<in> set (map cl_low cs)" using assms(2) by (intro py_min_in) simp
  then have "sane_price (py_min (map cl_low cs))" using assms(1) by (auto simp: list_all_iff sane_candle_def)
  then show ?thesis using assms(3) by (rule fmul_pos)
qed

lemma breakout_long_tradable:
  assumes "sane_view v" "breakout_scan_long breakout_default st v = Some c"
  shows "geometry_fault c = None"
proof -
  obtain level where l: "find_breakout_level breakout_default (mc_15m v) ''LONG'' = Some level"
    and z: "sc_low c = fmul level (fsub 1 (milli 3))" "sc_high c = fmul level (fadd 1 (milli 3))" "sc_direction c = ''LONG''"
    and s: "sc_stop c = fmul (py_min (map cl_low (last_n 5 (mc_5m v)))) (milli 998)" "sc_stop c < sc_low c"
    and t: "sc_t1 c = Some (fadd level (fmul (view_atr v (fmul level (milli 20))) 2))"
      "sc_high c < fadd level (fmul (view_atr v (fmul level (milli 20))) 2)"
    and n: "20 \<le> length (mc_5m v)"
    using assms(2) by (auto simp: breakout_scan_long_def breakout_default_def Let_def not_le split: if_splits option.splits)
  have sane: "sane_price level" using breakout_level_sane [OF _ l] assms(1) by (simp add: sane_view_def)
  have zone: "0 < sc_low c" "sc_low c \<le> sc_high c"
    unfolding z using fmul_pos [OF sane retest_factors(1)] sane_price_pos [OF sane] retest_factors
    by (auto intro!: fmul_mono)
  have "list_all sane_candle (last_n 5 (mc_5m v))" "last_n 5 (mc_5m v) \<noteq> []"
    using assms(1) n last_n_subset(1) [of 5 "mc_5m v"] by (auto simp: sane_view_def list_all_iff last_n_def)
  then have "0 < sc_stop c" unfolding s using factor_bounds by (intro scaled_low_positive) linarith+
  then show ?thesis using zone s(2) t z(3) by (simp add: geometry_fault_def)
qed

lemma breakout_short_tradable:
  assumes "sane_view v" "breakout_scan_short breakout_default st v = Some c"
  shows "geometry_fault c = (if the (sc_t1 c) \<le> 0 then Some ''TARGET_1_MISSING'' else None)"
proof -
  obtain level where l: "find_breakout_level breakout_default (mc_15m v) ''SHORT'' = Some level"
    and z: "sc_low c = fmul level (fsub 1 (milli 3))" "sc_high c = fmul level (fadd 1 (milli 3))" "sc_direction c = ''SHORT''"
    and s: "sc_high c < sc_stop c"
    and t: "sc_t1 c = Some (fsub level (fmul (view_atr v (fmul level (milli 20))) 2))"
      "fsub level (fmul (view_atr v (fmul level (milli 20))) 2) < sc_low c"
    using assms(2) by (auto simp: breakout_scan_short_def breakout_default_def Let_def not_le split: if_splits option.splits)
  have sane: "sane_price level" using breakout_level_sane [OF _ l] assms(1) by (simp add: sane_view_def)
  have zone: "0 < sc_low c" "sc_low c \<le> sc_high c"
    unfolding z using fmul_pos [OF sane retest_factors(1)] sane_price_pos [OF sane] retest_factors
    by (auto intro!: fmul_mono)
  then have "0 < sc_stop c" using s by linarith
  then show ?thesis using zone s t z(3) by (simp add: geometry_fault_def)
qed

section \<open>The entry zone of a swept order block holds the price\<close>

lemma fmul_le_self: "0 \<le> x \<Longrightarrow> is_double x \<Longrightarrow> q \<le> 1 \<Longrightarrow> fmul x q \<le> x"
  unfolding fmul_def by (rule f64.rnd_le_rep) (simp_all add: is_double_def mult_left_le)

lemma fmul_ge_self: "0 \<le> x \<Longrightarrow> is_double x \<Longrightarrow> 1 \<le> q \<Longrightarrow> x \<le> fmul x q"
  unfolding fmul_def by (rule f64.rnd_ge_rep) (simp_all add: is_double_def mult_right_le_one_le mult_le_cancel_left1)

lemma view_atr_nonneg: "0 \<le> fallback \<Longrightarrow> 0 \<le> view_atr v fallback"
  by (simp add: view_atr_def)

lemma sane_lists:
  assumes "sane_view v"
  shows "list_all sane_candle (last_n n (mc_5m v))" "list_all sane_candle (mc_15m v)" "list_all sane_candle (mc_1h v)"
  using assms last_n_subset(1) [of n "mc_5m v"] by (auto simp: sane_view_def list_all_iff)

lemma sane_fields:
  "sane_candle c \<Longrightarrow> 0 \<le> cl_low c \<and> is_double (cl_low c) \<and> 0 \<le> cl_high c \<and> is_double (cl_high c) \<and> cl_low c \<le> cl_high c"
  using sane_price_pos [of "cl_low c"] by (auto simp: sane_candle_def)

lemma sane_swing:
  assumes "list_all sane_candle cs" "s \<in> set (find_swing_highs cs n) \<union> set (find_swing_lows cs n)"
  shows "0 \<le> sp_price s" "is_double (sp_price s)"
  using assms swing_price_in [of s cs n] sane_fields by (auto simp: list_all_iff)

lemma sane_block:
  assumes "list_all sane_candle cs" "b \<in> set (find_order_blocks cs n)"
  shows "is_double (ob_high b)" "is_double (ob_low b)" "ob_low b \<le> ob_high b"
proof -
  obtain i where i: "i < length cs" "b \<in> set (order_blocks_at cs n i)" using assms(2) by (auto simp: find_order_blocks_def)
  note b = order_block_candle [OF i(2)]
  have "ob_index b < length cs" using b i(1) by auto
  then have "sane_candle (cs ! ob_index b)" using assms(1) by (simp add: list_all_length)
  then show "is_double (ob_high b)" "is_double (ob_low b)" "ob_low b \<le> ob_high b"
    using conjunct1 [OF b] sane_fields by (metis block_of_def order_block.select_convs)+
qed

lemma block_at_price_facts:
  "block_at_price kind price obs = Some b \<Longrightarrow> b \<in> set obs \<and> ob_low b \<le> price \<and> price \<le> ob_high b"
  by (auto simp: block_at_price_def find_Some_iff nth_mem dest: nth_mem)
    (metis (no_types, lifting) filter_is_subset nth_mem set_rev subsetD length_rev)+

lemma choch_long_zone:
  assumes v: "sane_view v" and c: "choch_scan_long sweep_default st v = Some c"
  shows "sc_stop c < sc_low c \<and> sc_low c \<le> cl_close (last (mc_5m v)) \<and> cl_close (last (mc_5m v)) \<le> sc_high c \<and>
    sc_high c \<le> the (sc_t1 c)"
proof -
  let ?p = "cl_close (last (mc_5m v))" and ?lows = "find_swing_lows (mc_15m v) 5" and ?r = "py_min (map cl_low (last_n 10 (mc_5m v)))"
  obtain ob where ob: "block_at_price ''bullish'' ?p (find_order_blocks (mc_1h v) 5) = Some ob"
    and ne: "?lows \<noteq> []" and sw: "\<exists>k\<in>set (last_n 5 (mc_5m v)). cl_low k < fmul (sp_price (last ?lows)) (fsub 1 (milli 1))"
    and p: "sp_price (last ?lows) < ?p" and n: "20 \<le> length (mc_5m v)"
    and f: "sc_low c = max (sp_price (last ?lows)) (ob_low ob)" "sc_high c = ob_high ob" "sc_stop c = fmul ?r (milli 998)"
      "sc_t1 c = Some (fadd (ob_high ob) (fmul (view_atr v (fmul (fsub (ob_high ob) (sc_low c)) 2)) 2))"
    using c by (auto simp: choch_scan_long_def sweep_default_def Let_def not_le list_ex_iff split: if_splits option.splits)
  note b = block_at_price_facts [OF ob]
  have lev: "0 \<le> sp_price (last ?lows)" "is_double (sp_price (last ?lows))"
    using sane_swing [OF sane_lists(2) [OF v], of "last ?lows" 5] ne by auto
  obtain k where k: "k \<in> set (last_n 5 (mc_5m v))" "cl_low k < fmul (sp_price (last ?lows)) (fsub 1 (milli 1))" using sw by blast
  have "?r \<le> cl_low k" using k(1) last_n_subset(2) [of 5 10 "mc_5m v"] by (intro py_min_le) auto
  also have "\<dots> < sp_price (last ?lows)"
    using k(2) fmul_le_self [OF lev, of "fsub 1 (milli 1)"] fsub_le_left [of 1 "milli 1"] by simp
  finally have "?r < sp_price (last ?lows)" .
  moreover have "fmul ?r (milli 998) \<le> ?r"
  proof (rule fmul_le_self)
    have "?r \<in> set (map cl_low (last_n 10 (mc_5m v)))" using n by (intro py_min_in) (simp add: last_n_def)
    then show "0 \<le> ?r" "is_double ?r" using sane_lists(1) [OF v, of 10] sane_fields by (auto simp: list_all_iff)
  qed (simp add: milli_le_1)
  ultimately have "sc_stop c < sc_low c" by (simp add: f)
  moreover have "sc_low c \<le> ?p" "?p \<le> sc_high c" using p b by (simp_all add: f)
  moreover have "sc_high c \<le> the (sc_t1 c)"
  proof -
    have "0 \<le> fsub (ob_high ob) (sc_low c)" using calculation(2, 3) by (intro fsub_nonneg) (simp add: f)
    then show ?thesis
      using sane_block(1) [OF sane_lists(3) [OF v] conjunct1 [OF b]] unfolding f option.sel
      by (intro fadd_ge_left fmul_nonneg view_atr_nonneg) simp_all
  qed
  ultimately show ?thesis by blast
qed

lemma choch_short_zone:
  assumes v: "sane_view v" and c: "choch_scan_short sweep_default st v = Some c"
  shows "the (sc_t1 c) \<le> sc_low c \<and> sc_low c \<le> cl_close (last (mc_5m v)) \<and> cl_close (last (mc_5m v)) \<le> sc_high c \<and>
    sc_high c < sc_stop c"
proof -
  let ?p = "cl_close (last (mc_5m v))" and ?highs = "find_swing_highs (mc_15m v) 5" and ?r = "py_max (map cl_high (last_n 10 (mc_5m v)))"
  obtain ob where ob: "block_at_price ''bearish'' ?p (find_order_blocks (mc_1h v) 5) = Some ob"
    and ne: "?highs \<noteq> []" and sw: "\<exists>k\<in>set (last_n 5 (mc_5m v)). fmul (sp_price (last ?highs)) (fadd 1 (milli 1)) < cl_high k"
    and p: "?p < sp_price (last ?highs)" and n: "20 \<le> length (mc_5m v)"
    and f: "sc_high c = min (sp_price (last ?highs)) (ob_high ob)" "sc_low c = ob_low ob" "sc_stop c = fmul ?r (milli 1002)"
      "sc_t1 c = Some (fsub (ob_low ob) (fmul (view_atr v (fmul (fsub (sc_high c) (ob_low ob)) 2)) 2))"
    using c by (auto simp: choch_scan_short_def sweep_default_def Let_def not_le list_ex_iff split: if_splits option.splits)
  note b = block_at_price_facts [OF ob]
  have lev: "0 \<le> sp_price (last ?highs)" "is_double (sp_price (last ?highs))"
    using sane_swing [OF sane_lists(2) [OF v], of "last ?highs" 5] ne by auto
  obtain k where k: "k \<in> set (last_n 5 (mc_5m v))" "fmul (sp_price (last ?highs)) (fadd 1 (milli 1)) < cl_high k" using sw by blast
  have "sp_price (last ?highs) < cl_high k"
    using k(2) fmul_ge_self [OF lev, of "fadd 1 (milli 1)"] fadd_ge_left [of 1 "milli 1"] by simp
  also have "\<dots> \<le> ?r" using k(1) last_n_subset(2) [of 5 10 "mc_5m v"] by (intro py_max_ge) auto
  finally have "sp_price (last ?highs) < ?r" .
  moreover have "?r \<le> fmul ?r (milli 1002)"
  proof (rule fmul_ge_self)
    have "?r \<in> set (map cl_high (last_n 10 (mc_5m v)))" using n by (intro py_max_in) (simp add: last_n_def)
    then show "0 \<le> ?r" "is_double ?r" using sane_lists(1) [OF v, of 10] sane_fields by (auto simp: list_all_iff)
    show "1 \<le> milli 1002" using factor_bounds by linarith
  qed
  ultimately have "sc_high c < sc_stop c" by (simp add: f)
  moreover have "sc_low c \<le> ?p" "?p \<le> sc_high c" using p b by (simp_all add: f)
  moreover have "the (sc_t1 c) \<le> sc_low c"
  proof -
    have "0 \<le> fsub (sc_high c) (ob_low ob)" using calculation(2, 3) by (intro fsub_nonneg) (simp add: f)
    then show ?thesis
      using sane_block(2) [OF sane_lists(3) [OF v] conjunct1 [OF b]] unfolding f option.sel
      by (intro fsub_le_left fmul_nonneg view_atr_nonneg) simp_all
  qed
  ultimately show ?thesis by blast
qed

text \<open>What the structure scanners propose can be traded. A breakout setup passes the geometry gate, except that
  a SHORT whose target is not positive has no target; the entry zone of a swept order block holds the
  current price, its stop lies strictly on the far side of the zone and its target not inside it.\<close>

theorem structure_setups_tradable:
  assumes "sane_view v"
  shows "list_all (\<lambda>c. geometry_fault c = None \<or> (sc_direction c = ''SHORT'' \<and> geometry_fault c = Some ''TARGET_1_MISSING''))
      (breakout_scan breakout_default sts v) \<and>
    list_all (\<lambda>c. sc_low c \<le> cl_close (last (mc_5m v)) \<and> cl_close (last (mc_5m v)) \<le> sc_high c \<and>
        (if sc_direction c = ''LONG'' then sc_stop c < sc_low c \<and> sc_high c \<le> the (sc_t1 c)
         else sc_high c < sc_stop c \<and> the (sc_t1 c) \<le> sc_low c))
      (choch_scan sweep_default sts v)"
proof -
  have d: "breakout_scan_short breakout_default st v = Some c \<Longrightarrow> sc_direction c = ''SHORT''"
    "choch_scan_long sweep_default st v = Some c \<Longrightarrow> sc_direction c = ''LONG''"
    "choch_scan_short sweep_default st v = Some c \<Longrightarrow> sc_direction c = ''SHORT''" for st c
    by (auto simp: breakout_scan_short_def choch_scan_long_def choch_scan_short_def Let_def split: if_splits option.splits)
  show ?thesis
    using breakout_long_tradable [OF assms] breakout_short_tradable [OF assms] choch_long_zone [OF assms] choch_short_zone [OF assms] d
    by (auto simp: breakout_scan_def choch_scan_def opt_list_def split: option.split)
qed

section \<open>The weekly level\<close>

text \<open>The weekly low of a context never triggers a reversal: it is the lowest low of five days that include
  today, so no candle of today can fall below it, and the scanner answers as if there were no weekly low.\<close>

theorem weekly_low_is_dead:
  assumes "lv_week_low (vw_levels v) = lv_week_low (find_levels days)" "5 \<le> length days"
    and "list_all (\<lambda>c. cl_low (last days) \<le> cl_low c) (last_n 8 (mc_5m v))"
    and "list_all sane_candle days" "0 \<le> margin"
  shows "reversal_scan_long lookback margin st v =
    reversal_scan_long lookback margin st (v\<lparr>vw_levels := (vw_levels v)\<lparr>lv_week_low := 0\<rparr>\<rparr>)"
proof -
  let ?w = "lv_week_low (vw_levels v)" and ?five = "last_n 5 days"
  have w: "?w = py_min (map cl_low ?five)" using assms(1, 2) by (simp add: find_levels_def Let_def)
  have five: "?five \<noteq> []" "last ?five = last days" using assms(2) by (auto simp: last_n_def)
  have "py_min (map cl_low ?five) \<in> set (map cl_low ?five)" using five(1) by (intro py_min_in) simp
  then have d: "0 \<le> ?w" "is_double ?w"
    using assms(4) sane_fields last_n_subset(1) [of 5 days] by (auto simp: w list_all_iff)
  have "?w \<le> cl_low (last ?five)" unfolding w using five(1) by (intro py_min_le) simp
  moreover have "fmul ?w (fsub 1 margin) \<le> ?w" using d fsub_le_left [of 1 margin] assms(5) by (intro fmul_le_self) simp_all
  ultimately have "\<not> p < fmul ?w (fsub 1 margin)" if "p \<in> set (map cl_low (last_n 8 (mc_5m v)))" for p
    using that assms(3) five(2) by (fastforce simp: list_all_iff)
  then have none: "find (\<lambda>p. p < fmul ?w (fsub 1 margin)) (map cl_low (last_n 8 (mc_5m v))) = None"
    by (auto simp: find_None_iff)
  have "first_sweep (\<lambda>level p. p < fmul level (fsub 1 margin)) (x # positive_levels [y, ?w]) (map cl_low (last_n 8 (mc_5m v))) =
      first_sweep (\<lambda>level p. p < fmul level (fsub 1 margin)) (x # positive_levels [y, 0]) (map cl_low (last_n 8 (mc_5m v)))" for x y
    using none by (auto simp: positive_levels_def split: option.split)
  note same = this
  let ?v = "v\<lparr>vw_levels := (vw_levels v)\<lparr>lv_week_low := 0\<rparr>\<rparr>"
  have "view_atr ?v = view_atr v" "new_setup st ?v = new_setup st v" by (simp_all add: view_atr_def new_setup_def fun_eq_iff)
  then show ?thesis unfolding reversal_scan_long_def Let_def
    by (simp add: same del: first_sweep.simps cong: option.case_cong prod.case_cong if_cong)
qed

section \<open>The closest level\<close>

lemma find_first_max:
  assumes "sorted_wrt (\<ge>) xs" "find P xs = Some (x :: rat)" "y \<in> set xs" "P y"
  shows "y \<le> x"
  using assms by (induction xs) (auto split: if_splits)

lemma closest_support_greatest:
  assumes "closest_support lp price levels = Some l"
  shows "l \<in> set levels \<and> l < price \<and>
    (\<forall>m\<in>set levels. m < price \<and> fdiv (fsub price m) price < fmul (lp_distance lp) 5 \<longrightarrow> m \<le> l)"
proof -
  have s: "sorted_wrt (\<ge>) (rev (sort levels))" by (simp add: sorted_wrt_rev)
  have "l \<in> set levels \<and> l < price"
    using assms by (auto simp: closest_support_def find_Some_iff) (metis length_rev length_sort nth_mem set_rev set_sort)
  then show ?thesis using find_first_max [OF s assms [unfolded closest_support_def]] by auto
qed

section \<open>Quality features\<close>

lemma fdiv_le_1: "0 \<le> a \<Longrightarrow> a \<le> b \<Longrightarrow> fdiv a b \<le> 1"
  unfolding fdiv_def by (rule f64.rnd_le_rep) (use is_double_1 in \<open>auto simp: is_double_def divide_le_eq_1\<close>)

lemma body_le_range: "sane_candle c \<Longrightarrow> \<bar>candle_body c\<bar> \<le> candle_range c"
proof -
  assume c: "sane_candle c"
  have "fsub (cl_close c) (cl_open c) \<le> fsub (cl_high c) (cl_low c)" "fsub (cl_open c) (cl_close c) \<le> fsub (cl_high c) (cl_low c)"
    using c by (auto simp: sane_candle_def intro!: fsub_mono)
  moreover have "fsub (cl_open c) (cl_close c) = - fsub (cl_close c) (cl_open c)"
    using fsub_mirror [of "cl_close c" "cl_open c"] by (simp only: fsub_swap)
  ultimately show ?thesis by (simp add: candle_body_def candle_range_def abs_le_iff)
qed

lemma fdiv_2_pos: "\<not> fdiv x 2 \<le> 0 \<Longrightarrow> 0 \<le> x"
  using f64.rnd_pos_imp [of "x / 2"] by (simp add: fdiv_def not_le)

lemma structure_features_unit:
  assumes "sane_candle (last cs)"
  shows "in_unit (rejection_strength (last cs))" "in_unit (displacement_strength cs)" "in_unit (ob_distance price ob)"
    "in_unit (sweep_depth swept level)" "in_unit (min (fdiv (sweep_depth_pct swept level) (milli 20)) 1)"
  using body_le_range [OF assms]
  by (auto simp: rejection_strength_def displacement_strength_def ob_distance_def sweep_depth_def sweep_depth_pct_def Let_def
      intro!: in_unit_min fdiv_nonneg fsub_nonneg) (auto simp: in_unit_def intro!: fsub_le_left fdiv_nonneg dest: fdiv_2_pos)

definition STRUCTURE_KEYS :: "string list" where
  "STRUCTURE_KEYS = [''retest_distance'', ''volume_ratio'', ''sweep_depth'', ''displacement_strength'', ''ob_distance'', ''rr_ratio'',
     ''stop_distance_atr'', ''rsi_confirmation'', ''rejection_strength'', ''regime_alignment'', ''level_touch_count'']"

text \<open>Every documented quality feature that a setup has is a float in the unit interval.\<close>

definition features_in_unit :: "setup_candidate \<Rightarrow> bool" where
  "features_in_unit c \<longleftrightarrow> list_all (\<lambda>(k, x). k \<in> set STRUCTURE_KEYS \<longrightarrow> unit_feature x) (sc_features c)"

lemma breakout_unit:
  assumes "sane_candle b" "sane_price level"
  shows "list_all (\<lambda>(k, x). k \<in> set STRUCTURE_KEYS \<longrightarrow> unit_feature x)
    (breakout_features breakout_default level price stop target atr (cl_volume b) avg direction regime)"
proof -
  have "0 \<le> fdiv \<bar>fsub price level\<bar> (fmul level (milli 3))"
    using sane_price_pos [OF assms(2)] by (intro fdiv_nonneg fmul_nonneg) simp_all
  then have "in_unit (max 0 (fsub 1 (fdiv \<bar>fsub price level\<bar> (fmul level (milli 3)))))"
    by (auto simp: in_unit_def max_def intro: fsub_le_left)
  moreover have "in_unit (if avg > 0 then min (fdiv (fdiv (cl_volume b) avg) 2) 1 else 0)"
    using assms(1) by (auto simp: sane_candle_def intro!: in_unit_min fdiv_nonneg)
  ultimately show ?thesis
    by (simp add: breakout_features_def breakout_default_def STRUCTURE_KEYS_def unit_feature_def unit_features)
qed

lemma other_units:
  assumes "sane_candle (last c5)"
  shows "list_all (\<lambda>(k, x). k \<in> set STRUCTURE_KEYS \<longrightarrow> unit_feature x) (sweep_features c5 swept level ob entry stop target atr)"
    "list_all (\<lambda>(k, x). k \<in> set STRUCTURE_KEYS \<longrightarrow> unit_feature x) (reversal_features c5 level swept stop target atr direction regime)"
    "list_all (\<lambda>(k, x). k \<in> set STRUCTURE_KEYS \<longrightarrow> unit_feature x) (level_features c1h c5 level entry stop target atr direction regime)"
  using structure_features_unit [OF assms]
  by (simp_all add: sweep_features_def reversal_features_def level_features_def STRUCTURE_KEYS_def unit_feature_def unit_features Let_def
      in_unit_min fdiv_nonneg) (simp add: in_unit_def)

lemma find_in: "find P xs = Some x \<Longrightarrow> x \<in> set xs"
  by (auto simp: find_Some_iff)

lemma breakout_scan_unit:
  assumes "sane_view v"
  shows "breakout_scan_long breakout_default st v = Some c \<Longrightarrow> features_in_unit c"
    "breakout_scan_short breakout_default st v = Some c \<Longrightarrow> features_in_unit c"
proof -
  note s15 = sane_lists(2) [OF assms]
  have sub: "sane_candle b" if "find P (last_n 10 (mc_15m v)) = Some b" for P b
    using find_in [OF that] last_n_subset(1) [of 10 "mc_15m v"] s15 by (auto simp: list_all_iff)
  show "features_in_unit c" if "breakout_scan_long breakout_default st v = Some c"
    using that breakout_unit [OF sub breakout_level_sane [OF s15]]
    by (auto simp: breakout_scan_long_def Let_def features_in_unit_def split: if_splits option.splits)
  show "features_in_unit c" if "breakout_scan_short breakout_default st v = Some c"
    using that breakout_unit [OF sub breakout_level_sane [OF s15]]
    by (auto simp: breakout_scan_short_def Let_def features_in_unit_def split: if_splits option.splits)
qed

lemma others_scan_unit:
  assumes "sane_view v"
  shows "choch_scan_long wp st v = Some c \<Longrightarrow> features_in_unit c" "choch_scan_short wp st v = Some c \<Longrightarrow> features_in_unit c"
    "reversal_scan_long n m st v = Some c \<Longrightarrow> features_in_unit c" "reversal_scan_short n m st v = Some c \<Longrightarrow> features_in_unit c"
    "level_scan_long lp st v = Some c \<Longrightarrow> features_in_unit c" "level_scan_short lp st v = Some c \<Longrightarrow> features_in_unit c"
proof -
  have l: "sane_candle (last (mc_5m v))" if "15 \<le> length (mc_5m v)"
  proof -
    have "mc_5m v \<noteq> []" using that by auto
    then show ?thesis using assms last_in_set [of "mc_5m v"] by (auto simp: sane_view_def list_all_iff)
  qed
  note u = other_units [OF l]
  show "choch_scan_long wp st v = Some c \<Longrightarrow> features_in_unit c"
    using u(1) by (auto simp: choch_scan_long_def Let_def features_in_unit_def split: if_splits option.splits)
  show "choch_scan_short wp st v = Some c \<Longrightarrow> features_in_unit c"
    using u(1) by (auto simp: choch_scan_short_def Let_def features_in_unit_def split: if_splits option.splits)
  show "reversal_scan_long n m st v = Some c \<Longrightarrow> features_in_unit c"
    using u(2) by (auto simp: reversal_scan_long_def Let_def features_in_unit_def simp del: first_sweep.simps split: if_splits option.splits)
  show "reversal_scan_short n m st v = Some c \<Longrightarrow> features_in_unit c"
    using u(2) by (auto simp: reversal_scan_short_def Let_def features_in_unit_def simp del: first_sweep.simps split: if_splits option.splits)
  show "level_scan_long lp st v = Some c \<Longrightarrow> features_in_unit c"
    using u(3) by (auto simp: level_scan_long_def Let_def features_in_unit_def split: if_splits option.splits)
  show "level_scan_short lp st v = Some c \<Longrightarrow> features_in_unit c"
    using u(3) by (auto simp: level_scan_short_def Let_def features_in_unit_def split: if_splits option.splits)
qed

lemma opt_list_all: "list_all P (opt_list r) \<longleftrightarrow> (\<forall>c. r = Some c \<longrightarrow> P c)"
  by (auto simp: opt_list_def split: option.split)

text \<open>As the modules document, every quality feature of every setup of the structure scanners lies between 0
  and 1 on a market of sane candles.\<close>

theorem structure_features_normalised:
  assumes "sane_view v"
  shows "list_all features_in_unit (breakout_scan breakout_default sts v @ choch_scan sweep_default sts v @
    reversal_scan lookback margin sts v @ level_scan lp sts v)"
  using breakout_scan_unit [OF assms] others_scan_unit [OF assms]
  by (simp add: breakout_scan_def choch_scan_def reversal_scan_def level_scan_def Let_def opt_list_all)

section \<open>A concrete breakout\<close>

definition retest_candle :: candle where
  "retest_candle = \<lparr>cl_time = 0, cl_open = 108, cl_high = 112, cl_low = 100, cl_close = 112, cl_volume = 2\<rparr>"

definition retest_15m :: "candle list" where
  "retest_15m = map (flat_candle 0) (take 29 demo_highs) @ [retest_candle]"

definition retest_5m :: candle where
  "retest_5m = \<lparr>cl_time = 0, cl_open = 107, cl_high = 108, cl_low = 100, cl_close = 108, cl_volume = 1\<rparr>"

definition retest_view :: scan_view where
  "retest_view = demo_view\<lparr>mc_5m := replicate 20 retest_5m, mc_15m := retest_15m\<rparr>"

lemma retest_level: "find_breakout_level breakout_default retest_15m ''LONG'' = Some 108" "length retest_15m = 30"
  "map cl_volume (last_n 20 retest_15m) = replicate 19 1 @ [2]"
  "last_n 10 retest_15m = flat_candle 0 108 # replicate 8 (flat_candle 0 106) @ [retest_candle]"
  by code_simp+

lemma small_ints: "\<bar>n\<bar> \<le> 1000 \<Longrightarrow> fl (of_int n) = of_int n"
  by (rule fl_of_int) simp

lemma sum_step_ints:
  assumes "\<bar>a\<bar> + \<bar>x\<bar> \<le> 2 ^ 53"
  shows "sum_step (of_int a, 0) (of_int x) = (of_int (a + x), 0)"
proof -
  have f: "fl (of_int (a + x)) = of_int (a + x)" "fl (of_int (- x)) = of_int (- x)" "fl (of_int (- a)) = of_int (- a)"
    using assms by (intro fl_of_int; simp)+
  show ?thesis using f by (simp add: sum_step_def fadd_def fsub_def Let_def)
qed

lemma foldl_sum_ints:
  "\<bar>a\<bar> + sum_list (map abs xs) \<le> 2 ^ 53 \<Longrightarrow> foldl sum_step (of_int a, 0) (map of_int xs) = (of_int (a + sum_list xs), 0)"
proof (induction xs arbitrary: a)
  case (Cons x xs)
  have "0 \<le> sum_list (map abs xs)" by (induction xs) auto
  then have "sum_step (of_int a, 0) (of_int x) = (of_int (a + x), 0)" using Cons.prems by (intro sum_step_ints) simp
  then show ?case using Cons.IH [of "a + x"] Cons.prems by (simp add: add.assoc)
qed simp

lemma py_sum_ints: "sum_list (map abs xs) \<le> 2 ^ 53 \<Longrightarrow> py_sum (map of_int xs) = of_int (sum_list xs)"
  using foldl_sum_ints [of 0 xs] by (simp add: py_sum_def)

lemma retest_volume: "mean_of (map cl_volume (last_n 20 retest_15m)) 20 \<le> 1076 / 1024" "1 \<le> mean_of (map cl_volume (last_n 20 retest_15m)) 20"
proof -
  have "py_sum (map of_int (replicate 19 1 @ [2])) = 21" by (subst py_sum_ints) (simp_all add: sum_list_replicate)
  then have "py_sum (replicate 19 1 @ [2]) = 21" by simp
  then show "mean_of (map cl_volume (last_n 20 retest_15m)) 20 \<le> 1076 / 1024" "1 \<le> mean_of (map cl_volume (last_n 20 retest_15m)) 20"
    using fl_le_1024 [of "21 / 20" 1076] fl_ge_1024 [of 1024 "21 / 20"] by (simp_all add: mean_of_def retest_level fdiv_def)
qed

lemma retest_bounds:
  "fmul 108 (fadd 1 (milli 1)) \<le> 109" "108 \<le> fmul 108 (fadd 1 (milli 1))" "fmul 108 (fadd 1 (milli 3)) \<le> 109" "108 \<le> fmul 108 (fadd 1 (milli 3))"
  "fmul 108 (fsub 1 (milli 3)) \<le> 108" "107 \<le> fmul 108 (fsub 1 (milli 3))" "fmul 100 (milli 998) \<le> 100"
proof -
  have i: "fl 100 = 100" "fl 107 = 107" "fl 108 = 108" "fl 109 = 109" using small_ints [of 100] small_ints [of 107] small_ints [of 108] small_ints [of 109] by simp_all
  have m: "milli 1 \<le> 2 / 1024" "milli 3 \<le> 4 / 1024" using milli_le [of 1 2] milli_le [of 3 4] by simp_all
  have a: "fadd 1 (milli 1) \<le> 1026 / 1024" "fadd 1 (milli 3) \<le> 1028 / 1024" "1020 / 1024 \<le> fsub 1 (milli 3)"
    unfolding fadd_def fsub_def using m fl_le_1024 [of "1 + milli 1" 1026] fl_le_1024 [of "1 + milli 3" 1028] fl_ge_1024 [of 1020 "1 - milli 3"]
    by simp_all
  have b: "1 \<le> fadd 1 (milli 1)" "1 \<le> fadd 1 (milli 3)" "fsub 1 (milli 3) \<le> 1" by (auto intro: fadd_ge_left fsub_le_left)
  show "fmul 108 (fadd 1 (milli 1)) \<le> 109" "fmul 108 (fadd 1 (milli 3)) \<le> 109"
    unfolding fmul_def using a i(4) by (auto intro!: f64.rnd_le_rep)
  show "108 \<le> fmul 108 (fadd 1 (milli 1))" "108 \<le> fmul 108 (fadd 1 (milli 3))" "fmul 108 (fsub 1 (milli 3)) \<le> 108"
    using b i(3) by (auto intro!: fmul_ge_self fmul_le_self simp: is_double_def)
  show "107 \<le> fmul 108 (fsub 1 (milli 3))" unfolding fmul_def using a i(2) by (auto intro!: f64.rnd_ge_rep)
  show "fmul 100 (milli 998) \<le> 100" using i(1) by (intro fmul_le_self) (simp_all add: is_double_def milli_le_1)
qed

lemma retest_fields [simp]:
  "mc_15m retest_view = retest_15m" "length (mc_5m retest_view) = 20" "last (mc_5m retest_view) = retest_5m"
  "last_n 5 (mc_5m retest_view) = replicate 5 retest_5m" "vw_ind retest_view = demo_ind"
  by (simp_all add: retest_view_def last_n_def demo_view_def)

lemma retest_emitted: "breakout_scan breakout_default (demo_stamp, demo_stamp) retest_view \<noteq> []"
proof -
  have five: "py_min (replicate 5 100) = 100" by (simp add: py_min_def eval_nat_numeral)
  have fl: "fl 2 = 2" "fl 4 = 4" "fl 112 = 112" using small_ints [of 2] small_ints [of 4] small_ints [of 112] by simp_all
  have vol: "fmul (mean_of (map cl_volume (last_n 20 retest_15m)) 20) (milli 1200) \<le> 2"
  proof -
    have "milli 1200 \<le> 1229 / 1024" using milli_le [of 1200 1229] by simp
    then have "mean_of (map cl_volume (last_n 20 retest_15m)) 20 * milli 1200 \<le> 1076 / 1024 * (1229 / 1024)"
      using retest_volume by (intro mult_mono) simp_all
    then show ?thesis unfolding fmul_def using fl by (intro f64.rnd_le_rep) simp_all
  qed
  have f: "find (\<lambda>c. cl_close c > fmul 108 (fadd 1 (milli 1))) (last_n 10 retest_15m) = Some retest_candle"
  proof -
    have "find (\<lambda>c. cl_close c > fmul 108 (fadd 1 (milli 1))) (replicate 8 (flat_candle 0 106) @ [retest_candle]) = Some retest_candle"
      using retest_bounds(1, 2) by (simp add: eval_nat_numeral) (simp add: retest_candle_def)
    then show ?thesis using retest_bounds(2) by (simp add: retest_level(4))
  qed
  have "breakout_scan_long breakout_default demo_stamp retest_view \<noteq> None"
    using retest_volume retest_bounds vol five fl f retest_level(1, 2)
    by (simp add: breakout_scan_long_def Let_def breakout_default_def retest_5m_def view_atr_def demo_ind_def fadd_def [of 108 4]
        fmul_def [of 2 2] not_less not_le) (simp add: retest_candle_def)
  then show ?thesis by (auto simp: breakout_scan_def opt_list_def)
qed

lemma retest_sane: "sane_view retest_view"
proof -
  have d: "is_double 100" "is_double 106" "is_double 108" "is_double 110" "is_double 112"
    using small_ints [of 100] small_ints [of 106] small_ints [of 108] small_ints [of 110] small_ints [of 112] by (simp_all add: is_double_def)
  have "sane_candle (flat_candle 0 h)" if "is_double h" "105 \<le> h" for h
    using that d(1) by (simp add: sane_candle_def sane_price_def)
  moreover have "sane_candle retest_candle" "sane_candle retest_5m"
    using d by (simp_all add: sane_candle_def sane_price_def retest_candle_def retest_5m_def)
  ultimately show ?thesis
    using d by (auto simp: sane_view_def list_all_iff retest_view_def retest_15m_def demo_highs_def demo_view_def dest!: in_set_takeD)
qed

theorem structure_setups_tradable_witness:
  "breakout_scan breakout_default (demo_stamp, demo_stamp) retest_view \<noteq> [] \<and>
   list_all (\<lambda>c. geometry_fault c = None \<or> (sc_direction c = ''SHORT'' \<and> geometry_fault c = Some ''TARGET_1_MISSING''))
     (breakout_scan breakout_default (demo_stamp, demo_stamp) retest_view)"
  using structure_setups_tradable [OF retest_sane, of "(demo_stamp, demo_stamp)"] retest_emitted by blast

theorem structure_features_normalised_witness:
  "breakout_scan breakout_default (demo_stamp, demo_stamp) retest_view \<noteq> [] \<and>
   list_all features_in_unit (breakout_scan breakout_default (demo_stamp, demo_stamp) retest_view @
     choch_scan sweep_default (demo_stamp, demo_stamp) retest_view @ reversal_scan 5 (milli 1) (demo_stamp, demo_stamp) retest_view @
     level_scan level_default (demo_stamp, demo_stamp) retest_view)"
  using structure_features_normalised [OF retest_sane] retest_emitted by blast

theorem weekly_low_is_dead_witness:
  "reversal_scan_long 5 (milli 1) demo_stamp (retest_view\<lparr>vw_levels := find_levels (replicate 5 retest_5m)\<rparr>) =
   reversal_scan_long 5 (milli 1) demo_stamp (retest_view\<lparr>vw_levels := (find_levels (replicate 5 retest_5m))\<lparr>lv_week_low := 0\<rparr>\<rparr>)"
proof -
  let ?v = "retest_view\<lparr>vw_levels := find_levels (replicate 5 retest_5m)\<rparr>"
  have "list_all (\<lambda>c. cl_low (last (replicate 5 retest_5m)) \<le> cl_low c) (last_n 8 (mc_5m ?v))"
    by (simp add: retest_view_def last_n_def list_all_iff)
  moreover have "list_all sane_candle (replicate 5 retest_5m)"
    using retest_sane by (simp add: sane_view_def list_all_iff retest_view_def)
  ultimately show ?thesis
    using weekly_low_is_dead [where v = ?v and days = "replicate 5 retest_5m" and margin = "milli 1" and lookback = 5 and st = demo_stamp] by simp
qed

end
