(* ===== verification/Trend.thy ===== *)
theory Trend
  imports Structure
begin

text \<open>
  The trend and volatility scanners under \<^verbatim>\<open>src/app/scanners\<close>: the three versions of the trend
  pullback (\<^verbatim>\<open>trend_pullback.py\<close>, \<^verbatim>\<open>trend_pullback_v2.py\<close>,
  \<^verbatim>\<open>trend_pullback_v3.py\<close>) and volatility compression
  (\<^verbatim>\<open>volatility_compression.py\<close>). The scores are sums of small whole numbers, which floats add
  exactly. \<open>None\<close> around a result means that the scanner raised.
\<close>

section \<open>Trend pullback, first version\<close>

record trend_params =
  tp_tolerance :: rat
  tp_cool :: rat
  tp_directions :: "string list"
  tp_regimes :: "string list"
  tp_timeframe :: string
  tp_max_quality :: "rat option"
  tp_target_r :: "rat option"
  tp_stop_buffer :: rat

definition trend_v1_default :: trend_params where
  "trend_v1_default = \<lparr>tp_tolerance = milli 10, tp_cool = 55, tp_directions = [''LONG'', ''SHORT''],
     tp_regimes = [''TREND_UP'', ''TREND_DOWN'', ''RANGE''], tp_timeframe = ''5m'', tp_max_quality = Some (3 / 4),
     tp_target_r = None, tp_stop_buffer = milli 2\<rparr>"

definition signal_candles :: "trend_params \<Rightarrow> scan_view \<Rightarrow> candle list option" where
  "signal_candles tp v =
     (if tp_timeframe tp = ''15m'' then Some (mc_15m v) else if tp_timeframe tp = ''5m'' then Some (mc_5m v)
      else if tp_timeframe tp = ''1h'' then Some (mc_1h v) else None)"

definition regime_allowed :: "trend_params \<Rightarrow> scan_view \<Rightarrow> bool" where
  "regime_allowed tp v \<longleftrightarrow> tp_regimes tp = [] \<or> (case mc_regime v of None \<Rightarrow> False | Some r \<Rightarrow> r \<in> set (tp_regimes tp))"

definition near_ema :: "rat \<Rightarrow> rat \<Rightarrow> rat \<Rightarrow> bool" where
  "near_ema tolerance price e \<longleftrightarrow> fdiv \<bar>fsub price e\<bar> e < tolerance"

definition pullback_anchor :: "trend_params \<Rightarrow> rat \<Rightarrow> rat \<Rightarrow> rat \<Rightarrow> (string \<times> rat) option" where
  "pullback_anchor tp price ema20 ema50 =
     (let near20 = near_ema (tp_tolerance tp) price ema20; near50 = near_ema (tp_tolerance tp) price ema50
      in if near20 \<and> near50
         then (if \<bar>fsub price ema20\<bar> \<le> \<bar>fsub price ema50\<bar> then Some (''EMA20'', ema20) else Some (''EMA50'', ema50))
         else if near20 then Some (''EMA20'', ema20)
         else if near50 then Some (''EMA50'', ema50) else None)"

text \<open>\<^verbatim>\<open>1 - min(x, 1)\<close>: the integer 0 when the cap is taken.\<close>

definition clipped :: "rat \<Rightarrow> rat" where
  "clipped x = fsub 1 (min x 1)"

definition clipped_json :: "rat \<Rightarrow> json" where
  "clipped_json x = (if x > 1 then JInt 0 else JFloat (clipped x))"

definition quality_allowed :: "trend_params \<Rightarrow> rat \<Rightarrow> bool" where
  "quality_allowed tp q \<longleftrightarrow> (case tp_max_quality tp of None \<Rightarrow> True | Some m \<Rightarrow> q \<le> m)"

definition quality_points :: "rat \<Rightarrow> int \<times> string list" where
  "quality_points q =
     (if 1 / 4 \<le> q \<and> q \<le> 3 / 4 then (20, [''pullback_quality preferred range''])
      else if q \<le> milli 850 then (10, [''pullback_quality acceptable'']) else (0, []))"

definition add_points :: "(int \<times> string list) list \<Rightarrow> int \<times> string list" where
  "add_points parts = (min (sum_list (map fst parts)) 100, concat (map snd parts))"

definition score_trend_long :: "trend_params \<Rightarrow> scan_view \<Rightarrow> rat \<Rightarrow> candle \<Rightarrow> int \<times> string list" where
  "score_trend_long tp v q c =
     (let ind = vw_ind v in add_points
        [if mc_regime v = Some ''TREND_UP'' then (25, [''TREND_UP regime'']) else (0, []),
         if in_ema20 ind > in_ema50 ind \<and> in_ema50 ind > in_ema200 ind then (20, [''EMA20>EMA50>EMA200'']) else (0, []),
         quality_points q,
         if 45 \<le> in_rsi ind \<and> in_rsi ind \<le> tp_cool tp then (20, [''RSI cooled''])
         else if in_rsi ind \<le> tp_cool tp then (10, [''RSI below cool threshold'']) else (0, []),
         if cl_close c \<ge> cl_open c then (15, [''bullish signal candle'']) else (0, [])])"

definition score_trend_short :: "trend_params \<Rightarrow> scan_view \<Rightarrow> rat \<Rightarrow> candle \<Rightarrow> int \<times> string list" where
  "score_trend_short tp v q c =
     (let ind = vw_ind v in add_points
        [if mc_regime v = Some ''TREND_DOWN'' then (25, [''TREND_DOWN regime'']) else (0, []),
         if in_ema20 ind < in_ema50 ind \<and> in_ema50 ind < in_ema200 ind then (20, [''EMA20<EMA50<EMA200'']) else (0, []),
         quality_points q,
         if fsub 100 (tp_cool tp) \<le> in_rsi ind \<and> in_rsi ind \<le> 55 then (20, [''RSI cooled''])
         else if in_rsi ind \<ge> fsub 100 (tp_cool tp) then (10, [''RSI above cool threshold'']) else (0, []),
         if cl_close c \<le> cl_open c then (15, [''bearish signal candle'']) else (0, [])])"

definition target_json :: "rat option \<Rightarrow> json" where
  "target_json r = (case r of None \<Rightarrow> JNull | Some q \<Rightarrow> JFloat q)"

definition trend_v1_features :: "trend_params \<Rightarrow> string \<Rightarrow> rat \<Rightarrow> rat \<Rightarrow> rat \<Rightarrow> rat \<Rightarrow> (string \<times> json) list" where
  "trend_v1_features tp anchor_name anchor price rsi risk =
     [(''htf_context'', JBool True), (''trend_alignment'', JBool True), (''pullback_to_ema'', JBool True),
      (''pullback_anchor'', JStr anchor_name), (''pullback_anchor_price'', JFloat anchor),
      (''pullback_quality'', clipped_json (fdiv (fdiv \<bar>fsub price anchor\<bar> anchor) (tp_tolerance tp))),
      (''rsi_cool'', JBool True), (''rsi_confirmation'', clipped_json (fdiv \<bar>fsub rsi 50\<bar> 15)),
      (''stop_distance_ok'', JBool True), (''target_r'', target_json (tp_target_r tp)), (''risk_r'', JFloat risk),
      (''signal_timeframe'', JStr (tp_timeframe tp)), (''recommended_expiry_bars'', JInt 144),
      (''recommended_expiry_policy'', JStr ''BREAKEVEN'')]"

definition trend_v1_scan_long :: "trend_params \<Rightarrow> stamp \<Rightarrow> scan_view \<Rightarrow> setup_candidate option option" where
  "trend_v1_scan_long tp st v =
     (if \<not> regime_allowed tp v then Some None
      else case signal_candles tp v of None \<Rightarrow> None | Some cs \<Rightarrow>
      if length (mc_1h v) < 50 \<or> length cs < 20 then Some None
      else if tp_timeframe tp = ''15m'' \<and> length cs < 30 then Some None
      else let ind = vw_ind v; e20 = in_ema20 ind; e50 = in_ema50 ind in
      if e20 \<le> 0 \<or> e50 \<le> 0 \<or> in_ema200 ind \<le> 0 then Some None
      else if \<not> (e20 > e50 \<and> cl_close (last (mc_1h v)) > in_ema200 ind) then Some None
      else let c = last cs; price = cl_close c in
      case pullback_anchor tp price e20 e50 of None \<Rightarrow> Some None | Some (name, anchor) \<Rightarrow>
      let q = clipped (fdiv (fdiv \<bar>fsub price anchor\<bar> anchor) (tp_tolerance tp)) in
      if \<not> quality_allowed tp q then Some None
      else if in_rsi ind > tp_cool tp \<or> cl_close c < cl_open c then Some None
      else let low = fmul anchor (milli 998); high = fmul anchor (milli 1002);
               stop = fmul (py_min (map cl_low (last_n 3 cs))) (fsub 1 (tp_stop_buffer tp));
               risk = \<bar>fsub high stop\<bar> in
      case tp_target_r tp of None \<Rightarrow> None | Some r \<Rightarrow>
      let target = fadd high (fmul risk r) in
      if risk \<le> 0 \<or> stop \<ge> low \<or> target \<le> high then Some None
      else case score_trend_long tp v q c of (score, reasons) \<Rightarrow>
        Some (Some ((new_setup st v ''TREND_PULLBACK'' ''1.1.0'' ''LONG'')
          \<lparr>sc_setup_tf := tp_timeframe tp, sc_entry_tf := tp_timeframe tp, sc_candle := cl_time c,
           sc_price := price, sc_low := low, sc_high := high, sc_stop := stop, sc_t1 := Some target, sc_t2 := None,
           sc_score := of_int score, sc_reasons := reasons,
           sc_features := trend_v1_features tp name anchor price (in_rsi ind) risk\<rparr>)))"

definition trend_v1_scan_short :: "trend_params \<Rightarrow> stamp \<Rightarrow> scan_view \<Rightarrow> setup_candidate option option" where
  "trend_v1_scan_short tp st v =
     (if \<not> regime_allowed tp v then Some None
      else case signal_candles tp v of None \<Rightarrow> None | Some cs \<Rightarrow>
      if length (mc_1h v) < 50 \<or> length cs < 20 then Some None
      else if tp_timeframe tp = ''15m'' \<and> length cs < 30 then Some None
      else let ind = vw_ind v; e20 = in_ema20 ind; e50 = in_ema50 ind in
      if e20 \<le> 0 \<or> e50 \<le> 0 \<or> in_ema200 ind \<le> 0 then Some None
      else if \<not> (e20 < e50 \<and> cl_close (last (mc_1h v)) < in_ema200 ind) then Some None
      else let c = last cs; price = cl_close c in
      case pullback_anchor tp price e20 e50 of None \<Rightarrow> Some None | Some (name, anchor) \<Rightarrow>
      let q = clipped (fdiv (fdiv \<bar>fsub price anchor\<bar> anchor) (tp_tolerance tp)) in
      if \<not> quality_allowed tp q then Some None
      else if in_rsi ind < fsub 100 (tp_cool tp) \<or> cl_close c > cl_open c then Some None
      else let low = fmul anchor (milli 998); high = fmul anchor (milli 1002);
               stop = fmul (py_max (map cl_high (last_n 3 cs))) (fadd 1 (tp_stop_buffer tp));
               risk = \<bar>fsub low stop\<bar> in
      case tp_target_r tp of None \<Rightarrow> None | Some r \<Rightarrow>
      let target = fsub low (fmul risk r) in
      if risk \<le> 0 \<or> stop \<le> high \<or> target \<ge> low then Some None
      else case score_trend_short tp v q c of (score, reasons) \<Rightarrow>
        Some (Some ((new_setup st v ''TREND_PULLBACK'' ''1.1.0'' ''SHORT'')
          \<lparr>sc_setup_tf := tp_timeframe tp, sc_entry_tf := tp_timeframe tp, sc_candle := cl_time c,
           sc_price := price, sc_low := low, sc_high := high, sc_stop := stop, sc_t1 := Some target, sc_t2 := None,
           sc_score := of_int score, sc_reasons := reasons,
           sc_features := trend_v1_features tp name anchor price (in_rsi ind) risk\<rparr>)))"

definition trend_v1_scan :: "trend_params \<Rightarrow> stamp \<times> stamp \<Rightarrow> scan_view \<Rightarrow> setup_candidate list option" where
  "trend_v1_scan tp sts v =
     (case (if ''LONG'' \<in> set (tp_directions tp) then trend_v1_scan_long tp (fst sts) v else Some None) of None \<Rightarrow> None | Some long \<Rightarrow>
      case (if ''SHORT'' \<in> set (tp_directions tp) then trend_v1_scan_short tp (snd sts) v else Some None) of None \<Rightarrow> None | Some short \<Rightarrow>
        Some (opt_list long @ opt_list short))"

section \<open>Second version\<close>

definition trend_v2_default :: trend_params where
  "trend_v2_default = \<lparr>tp_tolerance = milli 12, tp_cool = 55, tp_directions = [''LONG''], tp_regimes = [''TREND_UP''],
     tp_timeframe = ''15m'', tp_max_quality = Some (3 / 4), tp_target_r = Some (1 / 2), tp_stop_buffer = milli 2\<rparr>"

definition ema_distance :: "rat \<Rightarrow> rat \<Rightarrow> rat \<Rightarrow> rat" where
  "ema_distance price e20 e50 = min (fdiv \<bar>fsub price e20\<bar> e20) (fdiv \<bar>fsub price e50\<bar> e50)"

definition trend_v2_features :: "trend_params \<Rightarrow> rat \<Rightarrow> rat \<Rightarrow> rat \<Rightarrow> (string \<times> json) list" where
  "trend_v2_features tp distance rsi risk =
     [(''htf_context'', JBool True), (''trend_alignment'', JBool True), (''pullback_to_ema'', JBool True),
      (''pullback_quality'', clipped_json (fdiv distance (tp_tolerance tp))), (''rsi_cool'', JBool True),
      (''rsi_confirmation'', clipped_json (fdiv \<bar>fsub rsi 50\<bar> 15)), (''stop_distance_ok'', JBool True),
      (''target_r'', target_json (tp_target_r tp)), (''risk_r'', JFloat risk), (''recommended_expiry_policy'', JStr ''BREAKEVEN'')]"

definition trend_v2_scan_long :: "trend_params \<Rightarrow> stamp \<Rightarrow> scan_view \<Rightarrow> setup_candidate option" where
  "trend_v2_scan_long tp st v =
     (if length (mc_1h v) < 50 \<or> length (mc_15m v) < 30 \<or> length (mc_5m v) < 20 then None
      else let ind = vw_ind v; e20 = in_ema20 ind; e50 = in_ema50 ind; c5 = mc_5m v in
      if e20 \<le> 0 \<or> e50 \<le> 0 \<or> in_ema200 ind \<le> 0 then None
      else if \<not> (e20 > e50 \<and> cl_close (last (mc_1h v)) > in_ema200 ind) then None
      else let price = cl_close (last c5) in
      if \<not> (near_ema (tp_tolerance tp) price e20 \<or> near_ema (tp_tolerance tp) price e50) then None
      else if in_rsi ind > tp_cool tp then None
      else if cl_close (last c5) < cl_open (last c5) then None
      else let stop = fmul (py_min (map cl_low (last_n 3 c5))) (fsub 1 (tp_stop_buffer tp));
               atr = view_atr v (fmul price (milli 15));
               low = fmul price (milli 998); high = fmul price (milli 1002); risk = fsub price stop in
      if risk \<le> 0 \<or> stop \<ge> low then None
      else let (target, t2) = (case tp_target_r tp of Some r \<Rightarrow> (fadd price (fmul risk r), None)
                 | None \<Rightarrow> (fadd price (fmul atr 2), Some (fadd price (fmul atr (7 / 2))))) in
      if target \<le> high then None
      else if \<not> quality_allowed tp (clipped (fdiv (ema_distance price e20 e50) (tp_tolerance tp))) then None
      else Some ((new_setup st v ''TREND_PULLBACK_V2'' ''1.0.0'' ''LONG'')
             \<lparr>sc_price := price, sc_low := low, sc_high := high, sc_stop := stop, sc_t1 := Some target, sc_t2 := t2,
              sc_features := trend_v2_features tp (ema_distance price e20 e50) (in_rsi ind) risk\<rparr>))"

definition trend_v2_scan_short :: "trend_params \<Rightarrow> stamp \<Rightarrow> scan_view \<Rightarrow> setup_candidate option" where
  "trend_v2_scan_short tp st v =
     (if length (mc_1h v) < 50 \<or> length (mc_5m v) < 20 then None
      else let ind = vw_ind v; e20 = in_ema20 ind; e50 = in_ema50 ind; c5 = mc_5m v in
      if e20 \<le> 0 \<or> e50 \<le> 0 \<or> in_ema200 ind \<le> 0 then None
      else if \<not> (e20 < e50 \<and> cl_close (last (mc_1h v)) < in_ema200 ind) then None
      else let price = cl_close (last c5) in
      if \<not> (near_ema (tp_tolerance tp) price e20 \<or> near_ema (tp_tolerance tp) price e50) then None
      else if in_rsi ind < fsub 100 (tp_cool tp) then None
      else if cl_close (last c5) > cl_open (last c5) then None
      else let stop = fmul (py_max (map cl_high (last_n 3 c5))) (fadd 1 (tp_stop_buffer tp));
               atr = view_atr v (fmul price (milli 15));
               low = fmul price (milli 998); high = fmul price (milli 1002); risk = fsub stop price in
      if risk \<le> 0 \<or> stop \<le> high then None
      else let (target, t2) = (case tp_target_r tp of Some r \<Rightarrow> (fsub price (fmul risk r), None)
                 | None \<Rightarrow> (fsub price (fmul atr 2), Some (fsub price (fmul atr (7 / 2))))) in
      if target \<ge> low then None
      else if \<not> quality_allowed tp (clipped (fdiv (ema_distance price e20 e50) (tp_tolerance tp))) then None
      else Some ((new_setup st v ''TREND_PULLBACK_V2'' ''1.0.0'' ''SHORT'')
             \<lparr>sc_price := price, sc_low := low, sc_high := high, sc_stop := stop, sc_t1 := Some target, sc_t2 := t2,
              sc_features := trend_v2_features tp (ema_distance price e20 e50) (in_rsi ind) risk\<rparr>))"

definition trend_v2_scan :: "trend_params \<Rightarrow> stamp \<times> stamp \<Rightarrow> scan_view \<Rightarrow> setup_candidate list" where
  "trend_v2_scan tp sts v =
     (if ''LONG'' \<in> set (tp_directions tp) then opt_list (trend_v2_scan_long tp (fst sts) v) else []) @
     (if ''SHORT'' \<in> set (tp_directions tp) then opt_list (trend_v2_scan_short tp (snd sts) v) else [])"

section \<open>Third version\<close>

text \<open>The third version has no RSI ceiling: it does not read \<open>tp_cool\<close>. Like the second it keeps
  \<open>tp_regimes\<close> without reading it.\<close>

record trend_v3_params = trend_params +
  tq_rsi :: rat
  tq_adx :: rat
  tq_slope :: rat
  tq_hour_start :: int
  tq_hour_end :: int
  tq_excluded_hours :: "int list"
  tq_excluded_symbols :: "string list"

definition EXCLUDED_SYMBOLS :: "string list" where
  "EXCLUDED_SYMBOLS = [''ONDOUSDT'', ''BNBUSDT'', ''SOLUSDT'']"

definition EXCLUDED_HOURS :: "int list" where
  "EXCLUDED_HOURS = [10, 15, 19]"

definition trend_v3_default :: trend_v3_params where
  "trend_v3_default = \<lparr>tp_tolerance = milli 12, tp_cool = 0, tp_directions = [''LONG''], tp_regimes = [''TREND_UP''],
     tp_timeframe = ''15m'', tp_max_quality = Some (3 / 4), tp_target_r = Some (1 / 2), tp_stop_buffer = milli 2,
     tq_rsi = 60, tq_adx = 35, tq_slope = 0, tq_hour_start = 6, tq_hour_end = 23,
     tq_excluded_hours = EXCLUDED_HOURS, tq_excluded_symbols = EXCLUDED_SYMBOLS\<rparr>"

definition is_symbol_excluded :: "trend_v3_params \<Rightarrow> string \<Rightarrow> bool" where
  "is_symbol_excluded tq s \<longleftrightarrow> s \<in> set (tq_excluded_symbols tq)"

text \<open>\<^verbatim>\<open>datetime.hour\<close> of a time in microseconds since the epoch (UTC).\<close>

definition hour_of :: "int \<Rightarrow> int" where
  "hour_of t = t div 3600000000 mod 24"

definition is_hour_allowed :: "trend_v3_params \<Rightarrow> int \<Rightarrow> bool" where
  "is_hour_allowed tq t =
     (if hour_of t < tq_hour_start tq \<or> hour_of t > tq_hour_end tq then False
      else if hour_of t \<in> set (tq_excluded_hours tq) then False else True)"

definition score_v3_long :: "scan_view \<Rightarrow> rat \<Rightarrow> rat \<Rightarrow> rat \<Rightarrow> rat \<Rightarrow> int" where
  "score_v3_long v q rsi adx_val slope =
     min (sum_list
       [if mc_regime v = Some ''TREND_UP'' then 20 else 0,
        if 1 / 4 \<le> q \<and> q \<le> 3 / 4 then 20 else if q \<le> milli 850 then 10 else 0,
        if rsi \<ge> 70 then 20 else if rsi \<ge> 60 then 15 else 5,
        if adx_val \<ge> 50 then 20 else if adx_val \<ge> 40 then 15 else if adx_val \<ge> 35 then 10 else 0,
        if slope \<ge> 1 / 2 then 20 else if slope \<ge> milli 200 then 15 else if slope > 0 then 10 else 0]) 100"

definition build_reasons :: "rat \<Rightarrow> rat \<Rightarrow> rat \<Rightarrow> rat \<Rightarrow> string list" where
  "build_reasons q rsi adx_val slope =
     [''TREND_UP alignment'', ''pullback_to_ema'',
      if q \<ge> 1 / 2 then ''pullback_quality high'' else ''pullback_quality acceptable''] @
     (if rsi \<ge> 70 then [''RSI strong momentum''] else if rsi \<ge> 60 then [''RSI momentum confirmed''] else []) @
     [if adx_val \<ge> 50 then ''ADX very strong trend'' else if adx_val \<ge> 40 then ''ADX strong trend'' else ''ADX trend confirmed'',
      if slope \<ge> 1 / 2 then ''EMA50 slope steep rising'' else if slope \<ge> milli 200 then ''EMA50 slope rising''
      else ''EMA50 slope positive'', ''hour_filter_passed'', ''symbol_not_excluded'']"

definition trend_v3_features :: "trend_v3_params \<Rightarrow> indicator_snapshot \<Rightarrow> rat \<Rightarrow> rat \<Rightarrow> (string \<times> json) list" where
  "trend_v3_features tq ind distance risk =
     [(''htf_context'', JBool True), (''trend_alignment'', JBool True), (''pullback_to_ema'', JBool True),
      (''pullback_quality'', clipped_json (fdiv distance (tp_tolerance tq))), (''rsi_momentum'', JBool True),
      (''rsi_confirmation'', clipped_json (fdiv \<bar>fsub (in_rsi ind) 70\<bar> 30)), (''adx_trend_strength'', JBool True),
      (''adx_value'', JFloat (in_adx ind)), (''ema50_slope_positive'', JBool True), (''ema50_slope_value'', JFloat (in_slope50 ind)),
      (''hour_filter'', JBool True), (''stop_distance_ok'', JBool True), (''target_r'', target_json (tp_target_r tq)),
      (''risk_r'', JFloat risk), (''signal_timeframe'', JStr (tp_timeframe tq)), (''recommended_expiry_bars'', JInt 144),
      (''recommended_expiry_policy'', JStr ''BREAKEVEN'')]"

definition trend_v3_scan_long :: "trend_v3_params \<Rightarrow> stamp \<Rightarrow> scan_view \<Rightarrow> setup_candidate option" where
  "trend_v3_scan_long tq st v =
     (if is_symbol_excluded tq (mc_symbol v) then None
      else if \<not> is_hour_allowed tq (vw_at v) then None
      else if length (mc_1h v) < 50 \<or> length (mc_15m v) < 30 \<or> length (mc_5m v) < 20 then None
      else let ind = vw_ind v; e20 = in_ema20 ind; e50 = in_ema50 ind; c5 = mc_5m v in
      if e20 \<le> 0 \<or> e50 \<le> 0 \<or> in_ema200 ind \<le> 0 then None
      else if \<not> (e20 > e50 \<and> cl_close (last (mc_1h v)) > in_ema200 ind) then None
      else if in_adx ind < tq_adx tq then None
      else if in_slope50 ind \<le> tq_slope tq then None
      else let price = cl_close (last c5) in
      if \<not> (near_ema (tp_tolerance tq) price e20 \<or> near_ema (tp_tolerance tq) price e50) then None
      else if in_rsi ind < tq_rsi tq then None
      else if cl_close (last c5) < cl_open (last c5) then None
      else let stop = fmul (py_min (map cl_low (last_n 3 c5))) (fsub 1 (tp_stop_buffer tq));
               atr = view_atr v (fmul price (milli 15));
               risk = \<bar>fsub price stop\<bar>;
               (target, t2) = (case tp_target_r tq of Some r \<Rightarrow> (fadd price (fmul risk r), None)
                 | None \<Rightarrow> (fadd price (fmul atr 2), Some (fadd price (fmul atr (7 / 2))))) in
      if risk \<le> 0 \<or> stop \<ge> price \<or> target \<le> price then None
      else let distance = ema_distance price e20 e50; q = clipped (fdiv distance (tp_tolerance tq)) in
      if \<not> quality_allowed (trend_params.truncate tq) q then None
      else Some ((new_setup st v ''TREND_PULLBACK_V3'' ''1.0.0'' ''LONG'')
             \<lparr>sc_setup_tf := tp_timeframe tq, sc_price := price,
              sc_low := fmul (min e20 e50) (milli 998), sc_high := fmul (max e20 e50) (milli 1002),
              sc_stop := stop, sc_t1 := Some target, sc_t2 := t2,
              sc_score := of_int (score_v3_long v q (in_rsi ind) (in_adx ind) (in_slope50 ind)),
              sc_reasons := build_reasons q (in_rsi ind) (in_adx ind) (in_slope50 ind),
              sc_features := trend_v3_features tq ind distance risk\<rparr>))"

definition trend_v3_scan_short :: "trend_v3_params \<Rightarrow> stamp \<Rightarrow> scan_view \<Rightarrow> setup_candidate option" where
  "trend_v3_scan_short tq st v = None"

definition trend_v3_scan :: "trend_v3_params \<Rightarrow> stamp \<times> stamp \<Rightarrow> scan_view \<Rightarrow> setup_candidate list" where
  "trend_v3_scan tq sts v =
     (if ''LONG'' \<in> set (tp_directions tq) then opt_list (trend_v3_scan_long tq (fst sts) v) else []) @
     (if ''SHORT'' \<in> set (tp_directions tq) then opt_list (trend_v3_scan_short tq (snd sts) v) else [])"

section \<open>Volatility compression\<close>

text \<open>The scanner's parameters have their default values (\<^verbatim>\<open>atr_period=14\<close>,
  \<^verbatim>\<open>squeeze_lookback=20\<close>, \<^verbatim>\<open>bb_squeeze_threshold=0.02\<close>), the only ones in use.\<close>

definition late_ranges :: "candle list \<Rightarrow> rat list" where
  "late_ranges cs = map candle_range (drop 14 cs)"

definition atr_percentile :: "candle list \<Rightarrow> rat" where
  "atr_percentile cs =
     (if length cs < 15 then 50
      else let ranges = late_ranges cs; current = mean_of (last_n 14 ranges) 14
           in fmul (fdiv (of_nat (length (filter (\<lambda>r. r < current) ranges))) (of_nat (length ranges))) 100)"

definition bb_squeeze :: "power \<Rightarrow> candle list \<Rightarrow> bool \<times> rat" where
  "bb_squeeze pw cs =
     (if length cs < 20 then (False, 1)
      else let closes = map cl_close (last_n 20 cs); mean = mean_of closes (length closes);
               variance = mean_of (map (\<lambda>c. pw (fsub c mean) 2) closes) (length closes);
               width = (if mean > 0 then fdiv (fmul 2 (pw variance (1 / 2))) mean else 0)
           in (width < milli 20, max 0 (fsub 1 (min (fdiv width (milli 20)) 1))))"

definition squeeze_duration :: "candle list \<Rightarrow> rat" where
  "squeeze_duration cs =
     (if length cs < 15 then 0
      else let ranges = late_ranges cs; current = mean_of (last_n 14 ranges) 14
           in min (fdiv (of_nat (length (takeWhile (\<lambda>r. r < current) (rev ranges)))) 20) 1)"

text \<open>\<^verbatim>\<open>candles[-3:]\<close> and \<^verbatim>\<open>candles[-8:-3]\<close>\<close>

definition recent_range :: "candle list \<Rightarrow> rat" where
  "recent_range cs = mean_of (map candle_range (last_n 3 cs)) 3"

definition previous_ranges :: "candle list \<Rightarrow> rat list" where
  "previous_ranges cs = map candle_range (take (length (last_n 8 cs) - 3) (last_n 8 cs))"

definition previous_range :: "candle list \<Rightarrow> rat" where
  "previous_range cs = mean_of (previous_ranges cs) 5"

definition expansion_ratio :: "candle list \<Rightarrow> rat" where
  "expansion_ratio cs =
     (if length cs < 8 then 0
      else if previous_range cs \<le> 0 then 0
      else max 0 (min (fdiv (fsub (fdiv (recent_range cs) (previous_range cs)) 1) 2) 1))"

definition detect_expansion :: "candle list \<Rightarrow> string option" where
  "detect_expansion cs =
     (if length cs < 3 \<or> previous_ranges cs = [] then None
      else if previous_range cs \<le> 0 \<or> fdiv (recent_range cs) (previous_range cs) < 3 / 2 then None
      else Some (if cl_close (last cs) > cl_open (last cs) then ''bullish_expansion'' else ''bearish_expansion''))"

definition volatility_features ::
  "power \<Rightarrow> candle list \<Rightarrow> candle list \<Rightarrow> rat \<Rightarrow> rat \<Rightarrow> rat \<Rightarrow> rat \<Rightarrow> (string \<times> json) list" where
  "volatility_features pw c15 c5 entry stop target atr =
     [(''squeeze_duration'', JFloat (squeeze_duration c15)), (''expansion_ratio'', JFloat (expansion_ratio c5)),
      (''bb_width_percentile'', JFloat (snd (bb_squeeze pw c15))), (''volume_ratio'', JFloat (volume_quality c5 (3 / 2))),
      (''rr_ratio'', JFloat (rr_ratio entry stop target)),
      (''stop_distance_atr'', JFloat (stop_distance_atr entry stop atr))]"

definition volatility_scan :: "power \<Rightarrow> stamp \<Rightarrow> scan_view \<Rightarrow> setup_candidate list" where
  "volatility_scan pw st v =
     (let c15 = mc_15m v; c5 = mc_5m v in
      if length c15 < 30 \<or> length c5 < 20 then []
      else if atr_percentile c15 > 30 \<and> \<not> fst (bb_squeeze pw c15) then []
      else case detect_expansion c5 of None \<Rightarrow> [] | Some expansion \<Rightarrow>
      let price = cl_close (last c5); atr = view_atr v (fmul price (milli 10)) in
      if expansion = ''bullish_expansion''
      then let stop = fmul (py_min (map cl_low (last_n 10 c15))) (milli 998); target = fadd price (fmul atr 2) in
        [(new_setup st v ''VOLATILITY_COMPRESSION'' ''2.0.0'' ''LONG'')
           \<lparr>sc_price := price, sc_low := fmul price (milli 999), sc_high := fmul price (milli 1002), sc_stop := stop,
            sc_t1 := Some target, sc_t2 := Some (fadd price (fmul atr 3)),
            sc_features := volatility_features pw c15 c5 price stop target atr\<rparr>]
      else let stop = fmul (py_max (map cl_high (last_n 10 c15))) (milli 1002); target = fsub price (fmul atr 2) in
        [(new_setup st v ''VOLATILITY_COMPRESSION'' ''2.0.0'' ''SHORT'')
           \<lparr>sc_price := price, sc_low := fmul price (milli 998), sc_high := fmul price (milli 1001), sc_stop := stop,
            sc_t1 := Some target, sc_t2 := Some (fsub price (fmul atr 3)),
            sc_features := volatility_features pw c15 c5 price stop target atr\<rparr>])"

section \<open>The first version never proposes anything by default\<close>

text \<open>The first trend scanner has no target in its default configuration, and multiplies the risk by the
  missing target before it looks at anything: a scan either raises or returns no setup at all, on every
  market.\<close>

theorem trend_v1_never_proposes:
  "case trend_v1_scan trend_v1_default sts v of None \<Rightarrow> True | Some cs \<Rightarrow> cs = []"
proof -
  have "tp_target_r trend_v1_default = None" by (simp add: trend_v1_default_def)
  then have "trend_v1_scan_long trend_v1_default st v \<noteq> Some (Some c)" "trend_v1_scan_short trend_v1_default st v \<noteq> Some (Some c)" for st c
    by (auto simp: trend_v1_scan_long_def trend_v1_scan_short_def Let_def split: if_splits option.splits)
  then show ?thesis
    by (auto simp: trend_v1_scan_def opt_list_def split: option.splits)
qed

section \<open>What the versions promise\<close>

lemma add_points_le: "fst (add_points ps) \<le> 100"
  by (simp add: add_points_def)

lemma score_v3_bounds:
  "rsi \<ge> 60 \<Longrightarrow> adx_val \<ge> 35 \<Longrightarrow> slope > 0 \<Longrightarrow> 35 \<le> score_v3_long v q rsi adx_val slope \<and> score_v3_long v q rsi adx_val slope \<le> 100"
  by (simp add: score_v3_long_def)

lemma reasons_count: "rsi \<ge> 60 \<Longrightarrow> length (build_reasons q rsi adx_val slope) = 8"
  by (simp add: build_reasons_def)

text \<open>The third trend scanner keeps its own filters: no setup for an excluded symbol or outside the hours
  from 6 to 23 without 10, 15 and 19; the stop is below the price and the target above it; the score lies between
  35 and 100 and eight reasons explain it.\<close>

theorem trend_v3_filters:
  "list_all (\<lambda>c. sc_symbol c = mc_symbol v \<and> sc_symbol c \<notin> {''ONDOUSDT'', ''BNBUSDT'', ''SOLUSDT''} \<and>
      6 \<le> hour_of (sc_detected c) \<and> hour_of (sc_detected c) \<notin> {10, 15, 19} \<and>
      sc_direction c = ''LONG'' \<and> sc_stop c < sc_price c \<and> sc_price c < the (sc_t1 c) \<and>
      35 \<le> sc_score c \<and> sc_score c \<le> 100 \<and> length (sc_reasons c) = 8)
    (trend_v3_scan trend_v3_default sts v)"
proof -
  have "sc_symbol c = mc_symbol v \<and> sc_symbol c \<notin> {''ONDOUSDT'', ''BNBUSDT'', ''SOLUSDT''} \<and>
      6 \<le> hour_of (sc_detected c) \<and> hour_of (sc_detected c) \<notin> {10, 15, 19} \<and>
      sc_direction c = ''LONG'' \<and> sc_stop c < sc_price c \<and> sc_price c < the (sc_t1 c) \<and>
      35 \<le> sc_score c \<and> sc_score c \<le> 100 \<and> length (sc_reasons c) = 8"
    if c: "trend_v3_scan_long trend_v3_default st v = Some c" for st c
  proof -
    let ?i = "vw_ind v"
    have f: "mc_symbol v \<notin> set EXCLUDED_SYMBOLS" "6 \<le> hour_of (vw_at v)" "hour_of (vw_at v) \<notin> set EXCLUDED_HOURS"
      "35 \<le> in_adx ?i" "0 < in_slope50 ?i" "60 \<le> in_rsi ?i"
      and p: "sc_symbol c = mc_symbol v" "sc_detected c = vw_at v" "sc_direction c = ''LONG''"
        "sc_stop c < sc_price c" "sc_price c < the (sc_t1 c)"
      and q: "\<exists>q. sc_score c = of_int (score_v3_long v q (in_rsi ?i) (in_adx ?i) (in_slope50 ?i)) \<and>
        sc_reasons c = build_reasons q (in_rsi ?i) (in_adx ?i) (in_slope50 ?i)"
      using c by (auto simp: trend_v3_scan_long_def trend_v3_default_def is_symbol_excluded_def is_hour_allowed_def Let_def
          not_le not_less split: if_splits)
    show ?thesis
      using f p q score_v3_bounds [of "in_rsi ?i" "in_adx ?i" "in_slope50 ?i" v] reasons_count [of "in_rsi ?i"]
      by (auto simp: EXCLUDED_SYMBOLS_def EXCLUDED_HOURS_def)
  qed
  moreover have "trend_v3_scan trend_v3_default sts v = opt_list (trend_v3_scan_long trend_v3_default (fst sts) v)"
    by (simp add: trend_v3_scan_def) (simp add: trend_v3_default_def)
  ultimately show ?thesis by (simp only: opt_list_all) blast
qed

lemma trend_v2_long_tradable:
  assumes "sane_view v" "trend_v2_scan_long trend_v2_default st v = Some c"
  shows "geometry_fault c = None"
proof -
  let ?c5 = "mc_5m v"
  define price where "price = cl_close (last ?c5)"
  have n: "20 \<le> length ?c5"
    and z: "sc_low c = fmul price (milli 998)" "sc_high c = fmul price (milli 1002)" "sc_direction c = ''LONG''"
    and s: "sc_stop c = fmul (py_min (map cl_low (last_n 3 ?c5))) (fsub 1 (milli 2))" "sc_stop c < sc_low c"
    and t: "\<exists>t. sc_t1 c = Some t \<and> sc_high c < t"
    using assms(2) by (auto simp: trend_v2_scan_long_def trend_v2_default_def Let_def not_le price_def split: if_splits)
  have "last ?c5 \<in> set ?c5" using n by (intro last_in_set) auto
  then have "sane_candle (last ?c5)" using assms(1) by (auto simp: sane_view_def list_all_iff)
  then have sane: "sane_price price" by (auto simp: sane_candle_def sane_price_def price_def)
  have zone: "0 < sc_low c" "sc_low c \<le> sc_high c"
    unfolding z using fmul_pos [OF sane, of "milli 998"] sane_price_pos [OF sane] factor_bounds
    by (auto intro!: fmul_mono)
  have three: "list_all sane_candle (last_n 3 ?c5)" "last_n 3 ?c5 \<noteq> []"
    using assms(1) n last_n_subset(1) [of 3 ?c5] by (auto simp: sane_view_def list_all_iff last_n_def)
  have "milli 2 \<le> 512 / 1024" using milli_le [of 2 512] by simp
  then have "512 / 1024 \<le> fsub 1 (milli 2)"
    unfolding fsub_def using fl_ge_1024 [of 512 "1 - milli 2"] by simp
  then have "0 < sc_stop c" unfolding s by (intro scaled_low_positive three) simp
  then show ?thesis using zone s(2) t z(3) by (auto simp: geometry_fault_def)
qed

text \<open>On a market of sane candles every setup of the second trend scanner passes the risk-geometry check of the
  pipeline: it validates its own plan before it emits it.\<close>

theorem trend_v2_setups_tradable:
  assumes "sane_view v"
  shows "list_all (\<lambda>c. geometry_fault c = None) (trend_v2_scan trend_v2_default sts v)"
proof -
  have "trend_v2_scan trend_v2_default sts v = opt_list (trend_v2_scan_long trend_v2_default (fst sts) v)"
    by (simp add: trend_v2_scan_def) (simp add: trend_v2_default_def)
  then show ?thesis using trend_v2_long_tradable [OF assms] by (simp add: opt_list_all)
qed

section \<open>Volatility features\<close>

definition VOLATILITY_KEYS :: "string list" where
  "VOLATILITY_KEYS = [''squeeze_duration'', ''expansion_ratio'', ''bb_width_percentile'', ''volume_ratio'', ''rr_ratio'', ''stop_distance_atr'']"

lemma bb_width_unit:
  assumes "\<forall>x. 0 \<le> pw x (1 / 2)"
  shows "in_unit (snd (bb_squeeze pw cs))"
proof -
  have "0 \<le> fdiv w (milli 20)" if "0 \<le> w" for w using that by (intro fdiv_nonneg) simp_all
  moreover have "0 \<le> fdiv (fmul 2 (pw x (1 / 2))) m" if "0 < m" for x m
    using that assms by (intro fdiv_nonneg fmul_nonneg) simp_all
  ultimately show ?thesis by (simp add: bb_squeeze_def Let_def in_unit_clip)
qed

lemma volatility_units:
  assumes "\<forall>x. 0 \<le> pw x (1 / 2)" "0 \<le> cl_volume (last c5)"
    and "sc_features c = volatility_features pw c15 c5 entry stop target atr"
  shows "normalised VOLATILITY_KEYS c"
proof -
  have "in_unit (squeeze_duration c15)" "in_unit (expansion_ratio c5)"
    by (auto simp: squeeze_duration_def expansion_ratio_def Let_def in_unit_clamp intro!: in_unit_min fdiv_nonneg)
  then show ?thesis
    using bb_width_unit [where pw = pw, OF assms(1)] volume_quality_unit [OF assms(2), of "3 / 2"]
    by (simp add: normalised_def VOLATILITY_KEYS_def feature_def assms(3) volatility_features_def unit_feature_def unit_features)
qed

text \<open>As the module documents, the six quality features of a volatility setup lie between 0 and 1: the
  square root must not be negative nor the last volume.\<close>

theorem volatility_features_in_unit:
  assumes "\<forall>x. 0 \<le> pw x (1 / 2)" "0 \<le> cl_volume (last (mc_5m v))"
  shows "list_all (normalised VOLATILITY_KEYS) (volatility_scan pw st v)"
  using volatility_units [where pw = pw, OF assms] by (auto simp: volatility_scan_def Let_def split: option.splits)

section \<open>Concrete setups\<close>

definition pullback_candle :: candle where
  "pullback_candle = \<lparr>cl_time = 0, cl_open = 103, cl_high = 106, cl_low = 96, cl_close = 104, cl_volume = 1\<rparr>"

definition hour_candle :: candle where
  "hour_candle = \<lparr>cl_time = 0, cl_open = 100, cl_high = 106, cl_low = 96, cl_close = 105, cl_volume = 1\<rparr>"

definition pullback_view :: scan_view where
  "pullback_view = demo_view\<lparr>mc_5m := replicate 20 pullback_candle, mc_15m := replicate 30 hour_candle, mc_1h := replicate 50 hour_candle,
     vw_ind := demo_ind\<lparr>in_rsi := 50, in_ema20 := 103, in_ema50 := 102, in_ema200 := 100\<rparr>\<rparr>"

lemma pullback_bounds:
  "fdiv \<bar>fsub 104 103\<bar> 103 < milli 12" "\<not> fsub 104 (fmul 96 (fsub 1 (milli 2))) \<le> 0"
  "fmul 96 (fsub 1 (milli 2)) < fmul 104 (milli 998)"
  "fmul 104 (milli 1002) < fadd 104 (fmul (fsub 104 (fmul 96 (fsub 1 (milli 2)))) (1 / 2))"
  "clipped (fdiv (ema_distance 104 103 102) (milli 12)) \<le> 3 / 4"
proof -
  have d: "fsub 104 103 = 1" "fsub 104 102 = 2" "fsub 104 96 = 8"
    unfolding fsub_def using small_ints [of 1] small_ints [of 2] small_ints [of 8] by simp_all
  have m: "12 / 1024 \<le> milli 12" "milli 12 \<le> 13 / 1024" using milli_ge [of 12 12] milli_le [of 12 13] by simp_all
  have q: "9 / 1024 \<le> fdiv 1 103" "fdiv 1 103 \<le> 10 / 1024" "20 / 1024 \<le> fdiv 2 102"
    unfolding fdiv_def using fl_ge_1024 [of 9 "1 / 103"] fl_le_1024 [of "1 / 103" 10] fl_ge_1024 [of 20 "2 / 102"] by simp_all
  show "fdiv \<bar>fsub 104 103\<bar> 103 < milli 12" using d q m by simp
  have "fsub 1 (milli 2) \<le> 1" using fsub_le_left [of 1 "milli 2"] by simp
  moreover have "is_double 96" using fl_of_int [of 96] by (simp add: is_double_def)
  ultimately have stop: "fmul 96 (fsub 1 (milli 2)) \<le> 96" by (intro fmul_le_self) simp_all
  have low: "103 < fmul 104 (milli 998)"
    unfolding fmul_def using fl_ge_1024 [of 106184 "104 * milli 998"] factor_bounds(1) by simp
  then show "fmul 96 (fsub 1 (milli 2)) < fmul 104 (milli 998)" using stop by linarith
  have high: "fmul 104 (milli 1002) \<le> 106808 / 1024"
    unfolding fmul_def using fl_le_1024 [of "104 * milli 1002" 106808] factor_bounds(8) by simp
  have risk: "8 \<le> fsub 104 (fmul 96 (fsub 1 (milli 2)))"
    using fsub_mono [of 104 104 "fmul 96 (fsub 1 (milli 2))" 96] stop d(3) by simp
  then show "\<not> fsub 104 (fmul 96 (fsub 1 (milli 2))) \<le> 0" by simp
  have "4 \<le> fmul (fsub 104 (fmul 96 (fsub 1 (milli 2)))) (1 / 2)"
    unfolding fmul_def [of _ "1 / 2"] using fl_ge_1024 [of 4096 "fsub 104 (fmul 96 (fsub 1 (milli 2))) * (1 / 2)"] risk by simp
  then have "108 \<le> fadd 104 (fmul (fsub 104 (fmul 96 (fsub 1 (milli 2)))) (1 / 2))"
    unfolding fadd_def using fl_ge_1024 [of 110592 "104 + fmul (fsub 104 (fmul 96 (fsub 1 (milli 2)))) (1 / 2)"] by simp
  then show "fmul 104 (milli 1002) < fadd 104 (fmul (fsub 104 (fmul 96 (fsub 1 (milli 2)))) (1 / 2))" using high by simp
  have dist: "9 / 1024 \<le> ema_distance 104 103 102" using q d by (simp add: ema_distance_def)
  have "256 / 1024 \<le> ema_distance 104 103 102 / milli 12"
    using dist m by (simp add: le_divide_eq)
  then have "256 / 1024 \<le> fdiv (ema_distance 104 103 102) (milli 12)"
    unfolding fdiv_def using fl_ge_1024 [of 256 "ema_distance 104 103 102 / milli 12"] by simp
  then have "1 - min (fdiv (ema_distance 104 103 102) (milli 12)) 1 \<le> 768 / 1024" by simp
  then show "clipped (fdiv (ema_distance 104 103 102) (milli 12)) \<le> 3 / 4"
    unfolding clipped_def fsub_def using fl_le_1024 [of "1 - min (fdiv (ema_distance 104 103 102) (milli 12)) 1" 768] by simp
qed

lemma pullback_fields [simp]:
  "length (mc_1h pullback_view) = 50" "length (mc_15m pullback_view) = 30" "length (mc_5m pullback_view) = 20"
  "last (mc_5m pullback_view) = pullback_candle" "last (mc_1h pullback_view) = hour_candle"
  "last_n 3 (mc_5m pullback_view) = replicate 3 pullback_candle" "in_rsi (vw_ind pullback_view) = 50"
  "in_ema20 (vw_ind pullback_view) = 103" "in_ema50 (vw_ind pullback_view) = 102" "in_ema200 (vw_ind pullback_view) = 100"
  by (simp_all add: pullback_view_def last_n_def demo_ind_def)

lemma pullback_low: "py_min (map cl_low (replicate 3 pullback_candle)) = 96"
  by (simp add: py_min_def pullback_candle_def eval_nat_numeral)

lemma pullback_emitted: "trend_v2_scan trend_v2_default (demo_stamp, demo_stamp) pullback_view \<noteq> []"
proof -
  have "trend_v2_scan_long trend_v2_default demo_stamp pullback_view \<noteq> None"
    using pullback_bounds pullback_low
    by (simp add: trend_v2_scan_long_def trend_v2_default_def Let_def near_ema_def quality_allowed_def not_le)
      (simp add: pullback_candle_def hour_candle_def)
  then show ?thesis by (auto simp: trend_v2_scan_def trend_v2_default_def opt_list_def split: option.splits)
qed

lemma pullback_sane: "sane_view pullback_view"
proof -
  have "is_double 96" "is_double 106" using fl_of_int [of 96] fl_of_int [of 106] by (simp_all add: is_double_def)
  then have "sane_candle pullback_candle" "sane_candle hour_candle"
    by (simp_all add: sane_candle_def pullback_candle_def hour_candle_def sane_price_def)
  then show ?thesis by (simp add: sane_view_def pullback_view_def list_all_iff)
qed

theorem trend_v2_setups_tradable_witness:
  "trend_v2_scan trend_v2_default (demo_stamp, demo_stamp) pullback_view \<noteq> [] \<and>
   list_all (\<lambda>c. geometry_fault c = None) (trend_v2_scan trend_v2_default (demo_stamp, demo_stamp) pullback_view)"
  using trend_v2_setups_tradable [OF pullback_sane] pullback_emitted by blast

definition calm_candle :: candle where
  "calm_candle = \<lparr>cl_time = 0, cl_open = 100, cl_high = 101, cl_low = 100, cl_close = 100, cl_volume = 1\<rparr>"

definition burst_candle :: candle where
  "burst_candle = \<lparr>cl_time = 0, cl_open = 100, cl_high = 104, cl_low = 100, cl_close = 103, cl_volume = 2\<rparr>"

definition squeeze_view :: scan_view where
  "squeeze_view = demo_view\<lparr>mc_5m := replicate 17 calm_candle @ replicate 3 burst_candle, mc_15m := replicate 30 calm_candle\<rparr>"

lemma mean_same: "\<bar>k\<bar> * int n \<le> 2 ^ 53 \<Longrightarrow> 0 < n \<Longrightarrow> n \<le> 1000 \<Longrightarrow> \<bar>k\<bar> \<le> 1000 \<Longrightarrow> mean_of (replicate n (of_int k)) n = of_int k"
proof -
  assume k: "\<bar>k\<bar> * int n \<le> 2 ^ 53" "0 < n" "\<bar>k\<bar> \<le> 1000"
  have "sum_list (map abs (replicate n k)) \<le> 2 ^ 53" using k(1) by (simp add: sum_list_replicate mult.commute)
  then have "py_sum (map of_int (replicate n k)) = of_int (sum_list (replicate n k))" by (rule py_sum_ints)
  then show ?thesis using k(2) small_ints [OF k(3)] by (simp add: mean_of_def sum_list_replicate fdiv_def)
qed

lemma squeeze_fields:
  "length (mc_15m squeeze_view) = 30" "length (mc_5m squeeze_view) = 20" "last (mc_5m squeeze_view) = burst_candle"
  "map candle_range (last_n 3 (mc_5m squeeze_view)) = replicate 3 (candle_range burst_candle)"
  "previous_ranges (mc_5m squeeze_view) = replicate 5 (candle_range calm_candle)"
  "late_ranges (mc_15m squeeze_view) = replicate 16 (candle_range calm_candle)"
  by (simp_all add: squeeze_view_def last_n_def previous_ranges_def late_ranges_def)

lemma squeeze_ranges: "candle_range calm_candle = 1" "candle_range burst_candle = 4"
  using small_ints [of 1] small_ints [of 4] by (simp_all add: candle_range_def calm_candle_def burst_candle_def fsub_def)

lemma squeeze_emitted: "volatility_scan pw demo_stamp squeeze_view \<noteq> []"
proof -
  have m: "mean_of (replicate 14 1) 14 = 1" "mean_of (replicate 5 1) 5 = 1" "mean_of (replicate 3 4) 3 = 4"
    using mean_same [of 1 14] mean_same [of 1 5] mean_same [of 4 3] by simp_all
  have f: "fdiv 0 16 = 0" "fdiv 4 1 = 4" using small_ints [of 4] by (simp_all add: fdiv_def)
  have "last_n 14 (replicate 16 (1 :: rat)) = replicate 14 1" by (simp add: last_n_def)
  then have "atr_percentile (mc_15m squeeze_view) = 0"
    using m f by (simp add: atr_percentile_def squeeze_fields squeeze_ranges Let_def fmul_def)
  moreover have "detect_expansion (mc_5m squeeze_view) \<noteq> None"
    using m f by (simp add: detect_expansion_def squeeze_fields squeeze_ranges previous_range_def recent_range_def)
  ultimately show ?thesis by (auto simp: volatility_scan_def Let_def squeeze_fields split: option.splits)
qed

text \<open>A stand-in for the square and the square root of a variance that is zero.\<close>

definition demo_power :: power where
  "demo_power x y = (if y = 2 then x * x else if x = 0 then 0 else 1)"

theorem volatility_features_in_unit_witness:
  "volatility_scan demo_power demo_stamp squeeze_view \<noteq> [] \<and>
   list_all (normalised VOLATILITY_KEYS) (volatility_scan demo_power demo_stamp squeeze_view)"
proof -
  have "\<forall>x. 0 \<le> demo_power x (1 / 2)" by (simp add: demo_power_def)
  moreover have "0 \<le> cl_volume (last (mc_5m squeeze_view))" by (simp add: squeeze_fields burst_candle_def)
  ultimately show ?thesis
    using volatility_features_in_unit [where pw = demo_power and v = squeeze_view and st = demo_stamp] squeeze_emitted by blast
qed

end
