(* ===== verification/CoverageGuard.thy ===== *)
theory CoverageGuard
  imports Indicators Decimal
begin

text \<open>
  The candle-coverage guard of the evaluators (\<^verbatim>\<open>src/app/research/candle_coverage_guard_v1.py\<close>) with
  the paged history of the client (\<^verbatim>\<open>BybitClient.get_klines_range\<close> in
  \<^verbatim>\<open>src/app/exchange/bybit_client.py\<close>). A candle carries an integer open time in milliseconds and finite
  prices, so the branches for unreadable times and for NaN have no counterpart; the diagnostics that a
  result carries for logs are left out, its status and its reason code are kept. The HTTP request of one
  page, with the parsing of its rows, is a parameter.
\<close>

section \<open>Statuses\<close>

datatype source_status = SOURCE_VALIDATED | SOURCE_INCOMPLETE_COVERAGE | SOURCE_FETCH_ERROR | SOURCE_NOT_YET_AVAILABLE

fun status_severity :: "source_status \<Rightarrow> nat" where
  "status_severity SOURCE_FETCH_ERROR = 3"
| "status_severity SOURCE_INCOMPLETE_COVERAGE = 2"
| "status_severity SOURCE_NOT_YET_AVAILABLE = 1"
| "status_severity SOURCE_VALIDATED = 0"

definition merge_status_step :: "source_status \<times> bool \<Rightarrow> source_status \<Rightarrow> source_status \<times> bool" where
  "merge_status_step acc status =
     (case acc of (worst, seen) \<Rightarrow>
        if status = SOURCE_VALIDATED then (worst, seen)
        else (if status_severity status > status_severity worst then status else worst, True))"

definition merge_source_status :: "source_status list \<Rightarrow> source_status option" where
  "merge_source_status ss =
     (case foldl merge_status_step (SOURCE_VALIDATED, False) ss of (worst, seen) \<Rightarrow> if seen then Some worst else None)"

fun fetch_status_stats_key :: "source_status \<Rightarrow> string" where
  "fetch_status_stats_key SOURCE_INCOMPLETE_COVERAGE = ''source_incomplete''"
| "fetch_status_stats_key SOURCE_FETCH_ERROR = ''source_fetch_error''"
| "fetch_status_stats_key SOURCE_NOT_YET_AVAILABLE = ''source_not_yet_available''"
| "fetch_status_stats_key SOURCE_VALIDATED = ''source_validated''"

type_synonym coverage = "source_status \<times> string"

definition covered :: "coverage \<Rightarrow> bool" where
  "covered r \<longleftrightarrow> fst r = SOURCE_VALIDATED"

section \<open>The grid\<close>

definition CANDLE_MS :: int where
  "CANDLE_MS = 300000"

definition PAGE_LIMIT :: int where
  "PAGE_LIMIT = 1000"

text \<open>\<^verbatim>\<open>int(value.timestamp() * 1000)\<close> of a time in microseconds.\<close>

definition datetime_to_ms :: "int \<Rightarrow> int" where
  "datetime_to_ms t = py_int (fmul (fdiv (of_int t) 1000000) 1000)"

definition latest_closed_grid_open_ms :: "int \<Rightarrow> int \<Rightarrow> int" where
  "latest_closed_grid_open_ms asof interval = asof div interval * interval - interval"

definition candle_is_closed :: "int \<Rightarrow> int \<Rightarrow> int \<Rightarrow> bool" where
  "candle_is_closed open_ms asof interval \<longleftrightarrow> open_ms + interval \<le> asof"

text \<open>\<^verbatim>\<open>range(a, b, step)\<close> for a positive step.\<close>

definition opens_between :: "int \<Rightarrow> int \<Rightarrow> int \<Rightarrow> int list" where
  "opens_between a b step = map (\<lambda>i. a + int i * step) [0..<nat ((b - a + step - 1) div step)]"

definition first_open_after :: "int \<Rightarrow> int \<Rightarrow> int" where
  "first_open_after signal interval = (signal div interval + 1) * interval"

section \<open>Validating one window\<close>

definition in_window :: "int \<Rightarrow> int \<Rightarrow> candle \<Rightarrow> bool" where
  "in_window signal cutoff c \<longleftrightarrow> signal < cl_time c \<and> cl_time c < cutoff"

definition unordered :: "int list \<Rightarrow> bool" where
  "unordered ts \<longleftrightarrow> list_ex (\<lambda>(a, b). b \<le> a) (neighbours ts)"

definition invalid_ohlc :: "candle \<Rightarrow> bool" where
  "invalid_ohlc c =
     (if cl_low c > cl_high c then True
      else \<not> (cl_low c \<le> cl_open c \<and> cl_open c \<le> cl_high c \<and> cl_low c \<le> cl_close c \<and> cl_close c \<le> cl_high c))"

definition validate_candle_coverage :: "candle list \<Rightarrow> int \<Rightarrow> int \<Rightarrow> int \<Rightarrow> int \<Rightarrow> bool \<Rightarrow> coverage" where
  "validate_candle_coverage cs signal cutoff asof interval demand_closed =
     (let first = first_open_after signal interval in
      if cutoff \<le> signal then (SOURCE_VALIDATED, ''WINDOW_EMPTY'')
      else if first \<ge> cutoff then (SOURCE_VALIDATED, ''WINDOW_WITHOUT_REQUIRED_CANDLE'')
      else let window = filter (in_window signal cutoff) cs; present = map cl_time window in
      if window = [] then (SOURCE_INCOMPLETE_COVERAGE, ''NO_CANDLES_IN_WINDOW'')
      else if \<not> distinct present then (SOURCE_INCOMPLETE_COVERAGE, ''DUPLICATE_TIMESTAMPS'')
      else if unordered (map cl_time (filter (\<lambda>c. \<not> cl_time c \<le> signal) cs)) then (SOURCE_INCOMPLETE_COVERAGE, ''CANDLE_ORDER_INVALID'')
      else if list_ex (\<lambda>t. t mod interval \<noteq> 0) present then (SOURCE_INCOMPLETE_COVERAGE, ''CANDLE_TIMESTAMP_OFF_GRID'')
      else if foldl min (hd present) present > first then (SOURCE_INCOMPLETE_COVERAGE, ''FIRST_REQUIRED_CANDLE_MISSING'')
      else let full = opens_between first cutoff interval;
               expected = (if demand_closed then full else filter (\<lambda>t. candle_is_closed t asof interval) full) in
      if list_ex (\<lambda>t. t \<notin> set present \<and> candle_is_closed t asof interval) expected then (SOURCE_INCOMPLETE_COVERAGE, ''CANDLE_GAP'')
      else if list_ex (\<lambda>t. \<not> candle_is_closed t asof interval) expected then (SOURCE_NOT_YET_AVAILABLE, ''REQUIRED_CANDLE_NOT_CLOSED'')
      else if list_ex (\<lambda>t. t \<notin> set full) present then (SOURCE_INCOMPLETE_COVERAGE, ''CANDLE_SPACING_INVALID'')
      else if list_ex invalid_ohlc window then (SOURCE_INCOMPLETE_COVERAGE, ''INVALID_OHLC'')
      else (SOURCE_VALIDATED, ''SOURCE_VALIDATED''))"

section \<open>Fetching\<close>

text \<open>What a call of the client did: the name of the exception with its message, a value that is no list, or
  candles.\<close>

datatype fetch_reply = Raised string string | WrongType | Rows "candle list"

definition classify_fetch_exception :: "string \<Rightarrow> string \<Rightarrow> bool \<Rightarrow> coverage" where
  "classify_fetch_exception name message pagination =
     (let lowered = str_lower message in
      if pagination \<and> str_contains ''exceeded'' lowered \<and> str_contains ''page'' lowered
      then (SOURCE_INCOMPLETE_COVERAGE, ''SOURCE_PAGINATION_TRUNCATED'')
      else if name = ''BybitRateLimitError'' \<or> str_contains ''rate limiter'' lowered
      then (SOURCE_FETCH_ERROR, ''BYBIT_RATE_LIMITER_DENY'')
      else if str_contains ''10006'' lowered then (SOURCE_FETCH_ERROR, ''BYBIT_RATE_LIMIT_EXHAUSTED'')
      else (SOURCE_FETCH_ERROR, ''SOURCE_FETCH_EXCEPTION''))"

record candle_client =
  kc_klines :: "string \<Rightarrow> int \<Rightarrow> fetch_reply"
  kc_range :: "(string \<Rightarrow> int \<Rightarrow> int \<Rightarrow> int \<Rightarrow> int \<Rightarrow> fetch_reply) option"

definition closed_only :: "int \<Rightarrow> int \<Rightarrow> candle list \<Rightarrow> candle list" where
  "closed_only start asof raw = filter (\<lambda>c. start \<le> cl_time c \<and> candle_is_closed (cl_time c) asof CANDLE_MS) raw"

definition fetch_plan :: "int \<Rightarrow> int \<Rightarrow> int \<times> int \<times> int" where
  "fetch_plan from_time to_time =
     (let started = datetime_to_ms from_time - CANDLE_MS; asof = datetime_to_ms to_time
      in (asof, started div CANDLE_MS * CANDLE_MS, latest_closed_grid_open_ms asof CANDLE_MS))"

definition fetch_candles_for_evaluation ::
  "candle_client \<Rightarrow> string \<Rightarrow> int \<Rightarrow> int \<Rightarrow> int \<Rightarrow> candle list \<times> coverage" where
  "fetch_candles_for_evaluation client symbol from_time to_time limit0 =
     (let page_limit = max 1 (min limit0 1000) in
      case fetch_plan from_time to_time of (asof, start, grid_end) \<Rightarrow>
      if grid_end < start then ([], (SOURCE_NOT_YET_AVAILABLE, ''NO_CLOSED_CANDLES_YET''))
      else let needed = (grid_end - start) div CANDLE_MS + 1 in
      if needed > page_limit
      then (case kc_range client of
              None \<Rightarrow> ([], (SOURCE_INCOMPLETE_COVERAGE, ''PAGINATION_UNAVAILABLE''))
            | Some get_range \<Rightarrow>
                (case get_range symbol start grid_end page_limit (needed div page_limit + 2) of
                   Raised name message \<Rightarrow> ([], classify_fetch_exception name message True)
                 | WrongType \<Rightarrow> ([], (SOURCE_FETCH_ERROR, ''SOURCE_FETCH_RESULT_TYPE_INVALID''))
                 | Rows raw \<Rightarrow>
                     (let candles = closed_only start asof raw
                      in if candles = [] then ([], (SOURCE_INCOMPLETE_COVERAGE, ''EMPTY_KLINE_RESPONSE''))
                         else (candles, (SOURCE_VALIDATED, ''SOURCE_VALIDATED'')))))
      else case kc_klines client symbol (min (needed + 10) 1000) of
             Raised name message \<Rightarrow> ([], classify_fetch_exception name message False)
           | WrongType \<Rightarrow> ([], (SOURCE_FETCH_ERROR, ''SOURCE_FETCH_RESULT_TYPE_INVALID''))
           | Rows raw \<Rightarrow>
               if raw = [] then ([], (SOURCE_INCOMPLETE_COVERAGE, ''EMPTY_KLINE_RESPONSE''))
               else (let candles = closed_only start asof raw
                     in if candles = [] then ([], (SOURCE_INCOMPLETE_COVERAGE, ''NO_CANDLES_IN_RANGE''))
                        else (candles, (SOURCE_VALIDATED, ''SOURCE_VALIDATED''))))"

section \<open>Paged history\<close>

text \<open>One page: the request raised or had a malformed payload (name and message), or its rows, \<open>None\<close> for
  a row that \<^verbatim>\<open>_parse_range_row\<close> rejects.\<close>

type_synonym page_request = "int \<Rightarrow> int \<Rightarrow> int \<Rightarrow> (string \<times> string) + candle option list"

definition store_row :: "int \<Rightarrow> int \<Rightarrow> (int \<times> candle) list \<Rightarrow> candle option \<Rightarrow> (int \<times> candle) list" where
  "store_row page_start page_end out row =
     (case row of None \<Rightarrow> out
      | Some c \<Rightarrow> if page_start \<le> cl_time c \<and> cl_time c \<le> page_end then dput (cl_time c) c out else out)"

definition page_end_of :: "int \<Rightarrow> int \<Rightarrow> int \<Rightarrow> int \<Rightarrow> int" where
  "page_end_of end_ms rows step start = min end_ms (start + rows * step - 1)"

definition page_rows_of :: "int \<Rightarrow> int \<Rightarrow> int \<Rightarrow> int \<Rightarrow> int" where
  "page_rows_of end_ms rows step start = min rows ((page_end_of end_ms rows step start - start) div step + 1)"

text \<open>The number is how many pages are still allowed.\<close>

fun range_pages ::
  "page_request \<Rightarrow> string \<Rightarrow> int \<Rightarrow> int \<Rightarrow> int \<Rightarrow> nat \<Rightarrow> int \<Rightarrow> (int \<times> candle) list \<Rightarrow> (string \<times> string) + (int \<times> candle) list" where
  "range_pages request too_many end_ms rows step 0 start out =
     (if start \<le> end_ms then Inl (''BybitError'', too_many) else Inr out)"
| "range_pages request too_many end_ms rows step (Suc n) start out =
     (if start \<le> end_ms
      then case request start (page_end_of end_ms rows step start) (page_rows_of end_ms rows step start) of
             Inl e \<Rightarrow> Inl e
           | Inr page \<Rightarrow>
               range_pages request too_many end_ms rows step n (page_end_of end_ms rows step start + 1)
                 (foldl (store_row start (page_end_of end_ms rows step start)) out page)
      else Inr out)"

definition get_klines_range :: "page_request \<Rightarrow> string \<Rightarrow> int \<Rightarrow> int \<Rightarrow> int \<Rightarrow> int \<Rightarrow> fetch_reply" where
  "get_klines_range request symbol start_ms end_ms page_size max_pages =
     (if end_ms < start_ms then Rows []
      else let rows = max 1 (min page_size 1000);
               too_many = symbol @ '': kline range fetch exceeded '' @ int_text max_pages @ '' pages'' in
      case range_pages request too_many end_ms rows CANDLE_MS (nat max_pages) start_ms [] of
        Inl (name, message) \<Rightarrow> Raised name message
      | Inr out \<Rightarrow> Rows (map (\<lambda>t. the (dget out t)) (sort (dkeys out))))"

section \<open>Worst status and failing closed\<close>

lemma merge_steps:
  "foldl merge_status_step (w, b) ss = (w', b') \<Longrightarrow>
     (b' \<longleftrightarrow> b \<or> (\<exists>s\<in>set ss. s \<noteq> SOURCE_VALIDATED)) \<and> (w' = w \<or> w' \<in> set ss) \<and>
     status_severity w \<le> status_severity w' \<and> (\<forall>s\<in>set ss. status_severity s \<le> status_severity w')"
proof (induction ss arbitrary: w b)
  case (Cons s ss)
  obtain v d where v: "merge_status_step (w, b) s = (v, d)" by (metis surj_pair)
  then have "status_severity w \<le> status_severity v \<and> status_severity s \<le> status_severity v \<and> (v = w \<or> v = s) \<and> (d \<longleftrightarrow> b \<or> s \<noteq> SOURCE_VALIDATED)"
    by (auto simp: merge_status_step_def split: if_splits)
  moreover have "foldl merge_status_step (v, d) ss = (w', b')" using Cons.prems v by simp
  ultimately show ?case using Cons.IH [of v d] by fastforce
qed simp

lemma merge_is_worst:
  "case merge_source_status ss of None \<Rightarrow> list_all (\<lambda>s. s = SOURCE_VALIDATED) ss
   | Some w \<Rightarrow> w \<in> set ss \<and> w \<noteq> SOURCE_VALIDATED \<and> list_all (\<lambda>s. status_severity s \<le> status_severity w) ss"
proof -
  obtain w b where f: "foldl merge_status_step (SOURCE_VALIDATED, False) ss = (w, b)" by (metis surj_pair)
  note m = merge_steps [OF f]
  have "w \<in> set ss \<and> w \<noteq> SOURCE_VALIDATED" if "s \<in> set ss" "s \<noteq> SOURCE_VALIDATED" for s
  proof -
    have "0 < status_severity s" using that(2) by (cases s) auto
    also have "\<dots> \<le> status_severity w" using m that(1) by blast
    finally have "w \<noteq> SOURCE_VALIDATED" by auto
    then show ?thesis using m by auto
  qed
  then show ?thesis using m by (auto simp: merge_source_status_def f list_all_iff)
qed

lemma fetch_fails_closed:
  "covered (snd (fetch_candles_for_evaluation client symbol from_time to_time limit0)) \<longleftrightarrow>
     fst (fetch_candles_for_evaluation client symbol from_time to_time limit0) \<noteq> []"
  by (auto simp: fetch_candles_for_evaluation_def Let_def covered_def classify_fetch_exception_def split: prod.split option.split fetch_reply.split)

section \<open>What a validated window proves\<close>

definition opens_in :: "int \<Rightarrow> int \<Rightarrow> int \<Rightarrow> int list" where
  "opens_in signal cutoff interval = opens_between (first_open_after signal interval) cutoff interval"

lemma int_div_ge:
  fixes k x d :: int
  assumes "0 < d"
  shows "k \<le> x div d \<longleftrightarrow> k * d \<le> x"
proof
  assume "k \<le> x div d"
  then have "k * d \<le> x div d * d" using assms by (intro mult_right_mono) simp_all
  also have "\<dots> \<le> x" using assms pos_mod_sign [of d x] div_mult_mod_eq [of x d] by linarith
  finally show "k * d \<le> x" .
next
  assume "k * d \<le> x"
  then have "k * d div d \<le> x div d" using assms by (intro zdiv_mono1)
  then show "k \<le> x div d" using assms by simp
qed

lemma steps_between:
  fixes a b step :: int
  assumes "0 < step"
  shows "i < nat ((b - a + step - 1) div step) \<longleftrightarrow> a + int i * step < b"
proof -
  have "int i < (b - a + step - 1) div step \<longleftrightarrow> int i + 1 \<le> (b - a + step - 1) div step" by linarith
  also have "\<dots> \<longleftrightarrow> (int i + 1) * step \<le> b - a + step - 1" using assms by (rule int_div_ge)
  also have "\<dots> \<longleftrightarrow> a + int i * step < b" by (simp add: algebra_simps) linarith
  finally show ?thesis by linarith
qed

lemma set_opens_between: "0 < step \<Longrightarrow> set (opens_between a b step) = {t. a \<le> t \<and> t < b \<and> (t - a) mod step = 0}"
proof -
  assume step: "0 < step"
  have "t \<in> set (opens_between a b step)" if t: "a \<le> t" "t < b" "(t - a) mod step = 0" for t
  proof -
    let ?i = "nat ((t - a) div step)"
    have "0 \<le> (t - a) div step" using t(1) step by (simp add: pos_imp_zdiv_nonneg_iff)
    then have "t = a + int ?i * step" using t(3) by (simp add: mod_eq_0_iff_dvd)
    moreover from this have "?i < nat ((b - a + step - 1) div step)" using steps_between [OF step, of ?i b a] t(2) by simp
    ultimately show ?thesis unfolding opens_between_def by (simp only: set_map set_upt) (rule image_eqI, assumption, simp)
  qed
  then show ?thesis using steps_between [OF step, of _ b a] step by (auto simp: opens_between_def)
qed

lemma opens_between_sorted: "0 < step \<Longrightarrow> sorted_wrt (<) (opens_between a b step)"
  by (simp add: opens_between_def sorted_wrt_map)

lemma opens_in_sorted: "0 < interval \<Longrightarrow> sorted_wrt (<) (opens_in signal cutoff interval)"
  unfolding opens_in_def by (rule opens_between_sorted)

lemma first_open_bounds: "0 < interval \<Longrightarrow> signal < first_open_after signal interval \<and> first_open_after signal interval \<le> signal + interval"
proof -
  assume "0 < interval"
  then have "0 \<le> signal mod interval" "signal mod interval < interval" by simp_all
  moreover have "signal div interval * interval + signal mod interval = signal" by simp
  moreover have "first_open_after signal interval = signal div interval * interval + interval"
    by (simp add: first_open_after_def distrib_right)
  ultimately show ?thesis by linarith
qed

lemma grid_point_after: "0 < interval \<Longrightarrow> t mod interval = 0 \<Longrightarrow> signal < t \<longleftrightarrow> first_open_after signal interval \<le> t"
proof -
  assume i: "0 < interval" and "t mod interval = 0"
  then obtain k where t: "t = k * interval" by (metis dvd_eq_mod_eq_0 dvdE mult.commute)
  have "k \<le> signal div interval \<longleftrightarrow> k * interval \<le> signal" using i by (rule int_div_ge)
  moreover have "(signal div interval + 1) * interval \<le> k * interval \<longleftrightarrow> signal div interval + 1 \<le> k"
    using i by (simp add: mult_le_cancel_right)
  ultimately show ?thesis unfolding t first_open_after_def by linarith
qed

lemma set_opens_in: "0 < interval \<Longrightarrow> set (opens_in signal cutoff interval) = {t. signal < t \<and> t < cutoff \<and> t mod interval = 0}"
proof -
  assume i: "0 < interval"
  have "(t - first_open_after signal interval) mod interval = t mod interval" for t
    by (simp add: first_open_after_def mod_diff_eq [symmetric])
  then show ?thesis using grid_point_after [OF i] by (auto simp: opens_in_def set_opens_between [OF i])
qed

lemma opens_in_Nil: "0 < interval \<Longrightarrow> opens_in signal cutoff interval = [] \<longleftrightarrow> first_open_after signal interval \<ge> cutoff"
proof -
  assume i: "0 < interval"
  have "first_open_after signal interval mod interval = 0" by (simp add: first_open_after_def)
  then have "first_open_after signal interval < cutoff \<longleftrightarrow> first_open_after signal interval \<in> set (opens_in signal cutoff interval)"
    using first_open_bounds [OF i] by (auto simp: set_opens_in [OF i])
  moreover have "set (opens_in signal cutoff interval) = {}" if "first_open_after signal interval \<ge> cutoff"
    using that grid_point_after [OF i, of _ signal] by (auto simp: set_opens_in [OF i])
  ultimately show ?thesis by (metis empty_iff linorder_not_less set_empty)
qed

lemma unordered_iff: "unordered ts \<longleftrightarrow> \<not> sorted_wrt (<) ts"
proof (induction ts rule: induct_list012)
  case (3 a b ts)
  then have "unordered (a # b # ts) \<longleftrightarrow> b \<le> a \<or> \<not> sorted_wrt (<) (b # ts)"
    by (simp add: unordered_def neighbours_def)
  then show ?case by fastforce
qed (simp_all add: unordered_def neighbours_def)

lemma sorted_lists_equal: "sorted_wrt (<) xs \<Longrightarrow> sorted_wrt (<) ys \<Longrightarrow> set xs = set ys \<Longrightarrow> xs = (ys :: int list)"
  by (intro sorted_distinct_set_unique) (auto simp: strict_sorted_iff)

text \<open>The candles that a formula reads inside the window.\<close>

abbreviation read_opens :: "candle list \<Rightarrow> int \<Rightarrow> int \<Rightarrow> int list" where
  "read_opens cs signal cutoff \<equiv> map cl_time (filter (in_window signal cutoff) cs)"

lemma foldl_min_gt: "foldl min a xs > (b :: int) \<longleftrightarrow> a > b \<and> (\<forall>x\<in>set xs. x > b)"
  by (induction xs arbitrary: a) auto

lemma window_sorted:
  assumes "sorted_wrt (<) (map cl_time (filter (\<lambda>c. \<not> cl_time c \<le> signal) cs))"
  shows "sorted_wrt (<) (read_opens cs signal cutoff)"
proof -
  have "filter (in_window signal cutoff) cs = filter (\<lambda>c. cl_time c < cutoff) (filter (\<lambda>c. \<not> cl_time c \<le> signal) cs)"
    by (auto simp: in_window_def not_le intro!: filter_cong)
  moreover have "sorted_wrt (\<lambda>c d. cl_time c < cl_time d) (filter (\<lambda>c. cl_time c < cutoff) (filter (\<lambda>c. \<not> cl_time c \<le> signal) cs))"
    using assms by (intro sorted_wrt_filter [where xs = "filter (\<lambda>c. \<not> cl_time c \<le> signal) cs"]) (simp add: sorted_wrt_map)
  ultimately show ?thesis by (simp add: sorted_wrt_map)
qed

lemma validated_iff:
  assumes i: "0 < interval"
  shows "covered (validate_candle_coverage cs signal cutoff asof interval True) \<longleftrightarrow>
    opens_in signal cutoff interval = [] \<or>
    read_opens cs signal cutoff = opens_in signal cutoff interval \<and>
    sorted_wrt (<) (map cl_time (filter (\<lambda>c. \<not> cl_time c \<le> signal) cs)) \<and>
    list_all (\<lambda>t. candle_is_closed t asof interval) (opens_in signal cutoff interval) \<and>
    list_all (\<lambda>c. \<not> invalid_ohlc c) (filter (in_window signal cutoff) cs)"
    (is "?ok \<longleftrightarrow> _ = [] \<or> ?path = ?grid \<and> ?sorted \<and> ?closed \<and> ?valid")
proof (cases "?grid = []")
  case True
  then have "first_open_after signal interval \<ge> cutoff" using opens_in_Nil [OF i] by simp
  then show ?thesis using True by (auto simp: validate_candle_coverage_def covered_def Let_def)
next
  case False
  then have first: "\<not> first_open_after signal interval \<ge> cutoff" using opens_in_Nil [OF i] by simp
  then have cut: "\<not> cutoff \<le> signal" using first_open_bounds [OF i, of signal] by linarith
  have g: "sorted_wrt (<) ?grid" by (rule opens_in_sorted [OF i])
  have unf: "?ok \<longleftrightarrow> ?path \<noteq> [] \<and> distinct ?path \<and> ?sorted \<and> list_all (\<lambda>t. t mod interval = 0) ?path \<and>
     \<not> foldl min (hd ?path) ?path > first_open_after signal interval \<and>
     list_all (\<lambda>t. t \<in> set ?path \<or> \<not> candle_is_closed t asof interval) ?grid \<and> ?closed \<and>
     list_all (\<lambda>t. t \<in> set ?grid) ?path \<and> ?valid"
    using first cut
    by (simp add: validate_candle_coverage_def covered_def Let_def opens_in_def unordered_iff list_ex_iff list_all_iff)
  show ?thesis
  proof
    assume ?ok
    then have p: ?sorted "list_all (\<lambda>t. t \<in> set ?path \<or> \<not> candle_is_closed t asof interval) ?grid" ?closed
      "list_all (\<lambda>t. t \<in> set ?grid) ?path" ?valid
      using unf by blast+
    have "set ?path = set ?grid" using p(2,3,4) by (auto simp: list_all_iff)
    then have "?path = ?grid" by (rule sorted_lists_equal [OF window_sorted [OF p(1)] g])
    then show "?grid = [] \<or> ?path = ?grid \<and> ?sorted \<and> ?closed \<and> ?valid" using p by blast
  next
    assume "?grid = [] \<or> ?path = ?grid \<and> ?sorted \<and> ?closed \<and> ?valid"
    then have p: "?path = ?grid" ?sorted ?closed ?valid using False by blast+
    have "first_open_after signal interval \<in> set ?grid"
      using first first_open_bounds [OF i, of signal] by (auto simp: set_opens_in [OF i] first_open_after_def)
    then have m: "\<not> foldl min (hd ?path) ?path > first_open_after signal interval"
      unfolding p(1) by (auto simp: foldl_min_gt)
    have "distinct ?path" "list_all (\<lambda>t. t mod interval = 0) ?path"
      using g set_opens_in [OF i] by (auto simp: p(1) strict_sorted_iff list_all_iff)
    moreover have "list_all (\<lambda>t. t \<in> set ?path \<or> \<not> candle_is_closed t asof interval) ?grid" "list_all (\<lambda>t. t \<in> set ?grid) ?path"
      by (simp_all add: p(1) list_all_iff)
    ultimately show ?ok using unf m False p by metis
  qed
qed

text \<open>C31. A window counts as covered exactly when no candle opens inside it, or the candles read inside it are
  the full five-minute grid of the window, in order with the later ones, each closed at the time of the check
  and with prices in order: a gap, a duplicate, a shift, a shuffle, a forming or a malformed candle is never
  accepted, and a perfect history never refused.\<close>

theorem coverage_validated_iff:
  "covered (validate_candle_coverage cs signal cutoff asof CANDLE_MS True) \<longleftrightarrow>
    opens_in signal cutoff CANDLE_MS = [] \<or>
    map cl_time (filter (in_window signal cutoff) cs) = opens_in signal cutoff CANDLE_MS \<and>
    sorted_wrt (<) (map cl_time (filter (\<lambda>c. \<not> cl_time c \<le> signal) cs)) \<and>
    list_all (\<lambda>t. candle_is_closed t asof CANDLE_MS) (opens_in signal cutoff CANDLE_MS) \<and>
    list_all (\<lambda>c. \<not> invalid_ohlc c) (filter (in_window signal cutoff) cs)"
  by (rule validated_iff) (simp add: CANDLE_MS_def)

text \<open>The check for candles off the spacing repeats the check for candles off the grid: it never fires.\<close>

lemma spacing_branch_is_dead:
  "0 < interval \<Longrightarrow> snd (validate_candle_coverage cs signal cutoff asof interval dc) \<noteq> ''CANDLE_SPACING_INVALID''"
  using set_opens_in [of interval signal cutoff]
  by (auto simp: validate_candle_coverage_def Let_def list_ex_iff opens_in_def in_window_def)

section \<open>The paged history is complete\<close>

text \<open>A history: the candle that opened at a time.\<close>

type_synonym history = "int \<Rightarrow> candle option"

definition history_ok :: "history \<Rightarrow> bool" where
  "history_ok H \<longleftrightarrow> (\<forall>t c. H t = Some c \<longrightarrow> cl_time c = t \<and> t mod CANDLE_MS = 0)"

text \<open>The documented answer of the exchange: when no more candles fit between the bounds than the page may hold,
  the page has them all, and only them.\<close>

definition answers_pages :: "history \<Rightarrow> page_request \<Rightarrow> bool" where
  "answers_pages H request \<longleftrightarrow>
     (\<forall>a b n. b - a < n * CANDLE_MS \<longrightarrow>
        (\<exists>page. request a b n = Inr page \<and>
           (\<forall>c. Some c \<in> set page \<longleftrightarrow> H (cl_time c) = Some c \<and> a \<le> cl_time c \<and> cl_time c \<le> b)))"

lemma store_rows:
  assumes "\<forall>c. Some c \<in> set page \<longrightarrow> H (cl_time c) = Some c" "dwf out"
  shows "dget (foldl (store_row a b) out page) t =
      (if a \<le> t \<and> t \<le> b \<and> (\<exists>c. Some c \<in> set page \<and> cl_time c = t) then H t else dget out t) \<and>
    dwf (foldl (store_row a b) out page)"
  using assms
proof (induction page arbitrary: out)
  case (Cons row page)
  have "dwf (store_row a b out row)" using Cons.prems(2) by (simp add: store_row_def split: option.split)
  moreover have "dget (store_row a b out row) t =
      (if a \<le> t \<and> t \<le> b \<and> (\<exists>c. row = Some c \<and> cl_time c = t) then H t else dget out t)"
    using Cons.prems(1) by (auto simp: store_row_def split: option.split)
  ultimately show ?case using Cons.IH [of "store_row a b out row"] Cons.prems(1) by auto
qed simp

lemma page_fits:
  assumes "0 < rows" "start \<le> end_ms"
  shows "page_end_of end_ms rows CANDLE_MS start - start < page_rows_of end_ms rows CANDLE_MS start * CANDLE_MS"
    "start \<le> page_end_of end_ms rows CANDLE_MS start" "page_end_of end_ms rows CANDLE_MS start \<le> end_ms"
proof -
  let ?e = "page_end_of end_ms rows CANDLE_MS start"
  have p: "0 < CANDLE_MS" by (simp add: CANDLE_MS_def)
  then have "CANDLE_MS \<le> rows * CANDLE_MS" using assms(1) by simp
  then show "start \<le> ?e" "?e \<le> end_ms" using assms(2) p by (simp_all add: page_end_of_def)
  have "?e - start < rows * CANDLE_MS" by (simp add: page_end_of_def)
  moreover have "?e - start < ((?e - start) div CANDLE_MS + 1) * CANDLE_MS"
    using int_div_ge [OF p, of "(?e - start) div CANDLE_MS + 1" "?e - start"] by linarith
  ultimately show "?e - start < page_rows_of end_ms rows CANDLE_MS start * CANDLE_MS"
    by (simp add: page_rows_of_def min_def)
qed

lemma range_pages_complete:
  assumes H: "history_ok H" "answers_pages H request" and r: "0 < rows"
    and n: "end_ms - start < int n * rows * CANDLE_MS"
    and out: "dwf out" "\<forall>t. dget out t = (if s0 \<le> t \<and> t < start then H t else None)" "s0 \<le> start" "start \<le> end_ms + 1"
  shows "\<exists>res. range_pages request too_many end_ms rows CANDLE_MS n start out = Inr res \<and> dwf res \<and>
    (\<forall>t. dget res t = (if s0 \<le> t \<and> t \<le> end_ms then H t else None))"
  using n out
proof (induction n arbitrary: start out)
  case 0
  then have "start = end_ms + 1" by simp
  then show ?case using 0 by auto
next
  case (Suc n)
  show ?case
  proof (cases "start \<le> end_ms")
    case False
    then have "start = end_ms + 1" using Suc.prems by simp
    then show ?thesis using Suc.prems by auto
  next
    case True
    let ?e = "page_end_of end_ms rows CANDLE_MS start"
    note fit = page_fits [OF r True]
    obtain page where page: "request start ?e (page_rows_of end_ms rows CANDLE_MS start) = Inr page"
      "\<And>c. Some c \<in> set page \<longleftrightarrow> H (cl_time c) = Some c \<and> start \<le> cl_time c \<and> cl_time c \<le> ?e"
      using H(2) fit(1) unfolding answers_pages_def by meson
    let ?out = "foldl (store_row start ?e) out page"
    have st: "dget ?out t = (if start \<le> t \<and> t \<le> ?e \<and> (\<exists>c. Some c \<in> set page \<and> cl_time c = t) then H t else dget out t)" "dwf ?out" for t
      using store_rows [of page H out start ?e t] page(2) Suc.prems(2) by blast+
    have new: "dget ?out t = (if s0 \<le> t \<and> t < ?e + 1 then H t else None)" for t
    proof (cases "start \<le> t \<and> t \<le> ?e \<and> H t \<noteq> None")
      case True
      then obtain c where "H t = Some c" by auto
      then have "Some c \<in> set page \<and> cl_time c = t" using True H(1) page(2) by (auto simp: history_ok_def)
      then show ?thesis using st(1) [of t] True Suc.prems(4) by auto
    next
      case False
      then have "dget ?out t = dget out t" using st(1) [of t] page(2) by auto
      then show ?thesis using False Suc.prems(3, 4) fit(2) by auto
    qed
    have "end_ms - (?e + 1) < int n * rows * CANDLE_MS \<or> ?e = end_ms"
      using Suc.prems(1) by (simp add: page_end_of_def min_def algebra_simps)
    moreover have "0 \<le> int n * rows * CANDLE_MS" using r by (simp add: CANDLE_MS_def)
    ultimately have "end_ms - (?e + 1) < int n * rows * CANDLE_MS" by linarith
    from Suc.IH [OF this st(2)] new fit Suc.prems(4) have
      "\<exists>res. range_pages request too_many end_ms rows CANDLE_MS n (?e + 1) ?out = Inr res \<and> dwf res \<and>
        (\<forall>t. dget res t = (if s0 \<le> t \<and> t \<le> end_ms then H t else None))" by simp
    then show ?thesis using True page(1) by simp
  qed
qed

lemma sorted_by_key: "dwf d \<Longrightarrow> sorted_wrt (<) (sort (dkeys d))" for d :: "(int \<times> 'a) list"
  by (simp add: strict_sorted_iff dwf_def)

lemma klines_range_complete:
  assumes H: "history_ok H" "answers_pages H request"
    and n: "start \<le> end_ms" "end_ms - start < max_pages * max 1 (min page_size 1000) * CANDLE_MS" "0 \<le> max_pages"
  shows "\<exists>cs. get_klines_range request symbol start end_ms page_size max_pages = Rows cs \<and> sorted_wrt (<) (map cl_time cs) \<and>
    (\<forall>c. c \<in> set cs \<longleftrightarrow> H (cl_time c) = Some c \<and> start \<le> cl_time c \<and> cl_time c \<le> end_ms)"
proof -
  let ?rows = "max 1 (min page_size 1000)"
  obtain msg where msg: "msg = symbol @ '': kline range fetch exceeded '' @ int_text max_pages @ '' pages''" by blast
  have "end_ms - start < int (nat max_pages) * ?rows * CANDLE_MS" using n by simp
  moreover have "\<forall>t. dget [] t = (if start \<le> t \<and> t < start then H t else None)" by auto
  moreover have "0 < ?rows" "start \<le> start" "start \<le> end_ms + 1" using n(1) by auto
  ultimately obtain res where res: "range_pages request msg end_ms ?rows CANDLE_MS (nat max_pages) start [] = Inr res"
      "dwf res" "\<And>t. dget res t = (if start \<le> t \<and> t \<le> end_ms then H t else None)"
    using range_pages_complete [OF H, of ?rows end_ms start "nat max_pages" "[]" start msg] dwf_Nil by metis
  let ?f = "\<lambda>t. the (dget res t)"
  have key: "t \<in> set (dkeys res) \<longleftrightarrow> start \<le> t \<and> t \<le> end_ms \<and> H t \<noteq> None" for t
  proof -
    have "t \<in> set (dkeys res) \<longleftrightarrow> dget res t \<noteq> None" by (metis map_of_eq_None_iff set_map)
    then show ?thesis unfolding res(3) by (cases "start \<le> t \<and> t \<le> end_ms") auto
  qed
  have time: "cl_time (?f t) = t" "H t = Some (?f t)" if "t \<in> set (dkeys res)" for t
    using that key [of t] res(3) [of t] H(1) by (auto simp: history_ok_def)
  have "map cl_time (map ?f (sort (dkeys res))) = sort (dkeys res)"
    unfolding map_map o_def by (rule map_idI) (use time(1) in simp)
  moreover have "c \<in> set (map ?f (sort (dkeys res))) \<longleftrightarrow> H (cl_time c) = Some c \<and> start \<le> cl_time c \<and> cl_time c \<le> end_ms" for c
  proof
    assume "c \<in> set (map ?f (sort (dkeys res)))"
    then obtain t where t: "t \<in> set (dkeys res)" "c = ?f t" by auto
    then show "H (cl_time c) = Some c \<and> start \<le> cl_time c \<and> cl_time c \<le> end_ms"
      using time [OF t(1)] key [of t] by simp
  next
    assume c: "H (cl_time c) = Some c \<and> start \<le> cl_time c \<and> cl_time c \<le> end_ms"
    then have "cl_time c \<in> set (dkeys res)" "?f (cl_time c) = c" using key res(3) [of "cl_time c"] by auto
    then show "c \<in> set (map ?f (sort (dkeys res)))" by (metis image_eqI set_map set_sort)
  qed
  ultimately show ?thesis
    using res(1) n(1) sorted_by_key [OF res(2)] unfolding get_klines_range_def Let_def msg by auto
qed

text \<open>The documented answer to a request for the latest candles: the newest ones, in order.\<close>

definition answers_latest :: "history \<Rightarrow> int \<Rightarrow> (int \<Rightarrow> fetch_reply) \<Rightarrow> bool" where
  "answers_latest H now klines \<longleftrightarrow>
     (\<forall>limit. \<exists>raw. klines limit = Rows raw \<and> sorted_wrt (<) (map cl_time raw) \<and>
        (\<forall>c\<in>set raw. H (cl_time c) = Some c) \<and>
        (\<forall>c. H (cl_time c) = Some c \<and> now - limit * CANDLE_MS < cl_time c \<and> cl_time c \<le> now \<longrightarrow> c \<in> set raw))"

definition paged_client :: "(string \<Rightarrow> page_request) \<Rightarrow> (string \<Rightarrow> int \<Rightarrow> fetch_reply) \<Rightarrow> candle_client" where
  "paged_client request klines =
     \<lparr>kc_klines = klines, kc_range = Some (\<lambda>symbol start end_ms size pages. get_klines_range (request symbol) symbol start end_ms size pages)\<rparr>"

lemma closed_only_sorted: "sorted_wrt (<) (map cl_time cs) \<Longrightarrow> sorted_wrt (<) (map cl_time (closed_only start asof cs))"
  by (simp add: closed_only_def sorted_wrt_map) (rule sorted_wrt_filter, assumption)

lemma set_closed_only: "c \<in> set (closed_only start asof cs) \<longleftrightarrow> c \<in> set cs \<and> start \<le> cl_time c \<and> candle_is_closed (cl_time c) asof CANDLE_MS"
  by (auto simp: closed_only_def)

lemma plan_bounds_ms:
  assumes "fetch_plan from_time to_time = (asof, start, grid_end)"
  shows "asof = datetime_to_ms to_time" "start \<le> datetime_to_ms from_time"
    "asof < grid_end + 2 * CANDLE_MS" "datetime_to_ms from_time < start + 2 * CANDLE_MS"
    "t mod CANDLE_MS = 0 \<Longrightarrow> candle_is_closed t asof CANDLE_MS \<longleftrightarrow> t \<le> grid_end"
    "t mod CANDLE_MS = 0 \<Longrightarrow> datetime_to_ms from_time < t \<Longrightarrow> start + CANDLE_MS \<le> t"
    "\<exists>k. grid_end - start = k * CANDLE_MS" "grid_end + CANDLE_MS \<le> asof"
proof -
  have p: "0 < CANDLE_MS" by (simp add: CANDLE_MS_def)
  let ?from = "datetime_to_ms from_time"
  have d: "asof = datetime_to_ms to_time" "start = (?from - CANDLE_MS) div CANDLE_MS * CANDLE_MS"
    "grid_end = asof div CANDLE_MS * CANDLE_MS - CANDLE_MS"
    using assms by (auto simp: fetch_plan_def latest_closed_grid_open_ms_def Let_def)
  have m: "x div CANDLE_MS * CANDLE_MS \<le> x" "x < x div CANDLE_MS * CANDLE_MS + CANDLE_MS" for x
    using int_div_ge [OF p, of "x div CANDLE_MS" x] int_div_ge [OF p, of "x div CANDLE_MS + 1" x] by (simp_all add: distrib_right)
  show "asof = datetime_to_ms to_time" by (rule d(1))
  show "start \<le> ?from" "?from < start + 2 * CANDLE_MS" using m [of "?from - CANDLE_MS"] p d(2) by linarith+
  show "asof < grid_end + 2 * CANDLE_MS" "grid_end + CANDLE_MS \<le> asof" using m [of asof] d(3) by linarith+
  have mult: "\<exists>k. t = k * CANDLE_MS" if "t mod CANDLE_MS = 0" for t using that by (metis dvd_eq_mod_eq_0 dvdE mult.commute)
  show "candle_is_closed t asof CANDLE_MS \<longleftrightarrow> t \<le> grid_end" if t: "t mod CANDLE_MS = 0" for t
  proof -
    obtain k where k: "t = k * CANDLE_MS" using mult [OF t] by blast
    have "(k + 1) * CANDLE_MS \<le> asof \<longleftrightarrow> k + 1 \<le> asof div CANDLE_MS" using int_div_ge [OF p] by blast
    also have "\<dots> \<longleftrightarrow> (k + 1) * CANDLE_MS \<le> asof div CANDLE_MS * CANDLE_MS" using p by (simp add: mult_le_cancel_right)
    finally show ?thesis unfolding candle_is_closed_def k d(3) by (simp add: distrib_right) linarith
  qed
  show "start + CANDLE_MS \<le> t" if t: "t mod CANDLE_MS = 0" "?from < t" for t
  proof -
    obtain k where k: "t = k * CANDLE_MS" using mult [OF t(1)] by blast
    have "start < (k - 1) * CANDLE_MS" using m(1) [of "?from - CANDLE_MS"] t(2) d(2) by (simp add: k left_diff_distrib)
    then have "(?from - CANDLE_MS) div CANDLE_MS < k - 1" unfolding d(2) using p by (simp add: mult_less_cancel_right)
    then show ?thesis unfolding d(2) k using p mult_right_mono [of "(?from - CANDLE_MS) div CANDLE_MS + 1" k CANDLE_MS] by (simp add: distrib_right)
  qed
  show "\<exists>k. grid_end - start = k * CANDLE_MS"
    unfolding d(2,3) by (rule exI [of _ "asof div CANDLE_MS - 1 - (?from - CANDLE_MS) div CANDLE_MS"]) (simp add: left_diff_distrib)
qed

lemma fetch_complete:
  fixes from_time to_time :: int and symbol :: string
  assumes H: "history_ok H" "answers_pages H (request symbol)" "answers_latest H (datetime_to_ms to_time) (klines symbol)"
  defines "cs \<equiv> fst (fetch_candles_for_evaluation (paged_client request klines) symbol from_time to_time PAGE_LIMIT)"
  shows "sorted_wrt (<) (map cl_time cs) \<and>
    (\<forall>c. c \<in> set cs \<longrightarrow> H (cl_time c) = Some c \<and> candle_is_closed (cl_time c) (datetime_to_ms to_time) CANDLE_MS) \<and>
    (\<forall>c. H (cl_time c) = Some c \<and> datetime_to_ms from_time < cl_time c \<and>
      candle_is_closed (cl_time c) (datetime_to_ms to_time) CANDLE_MS \<longrightarrow> c \<in> set cs)"
proof -
  have p: "0 < CANDLE_MS" by (simp add: CANDLE_MS_def)
  obtain asof start grid_end where plan: "fetch_plan from_time to_time = (asof, start, grid_end)" by (metis surj_pair)
  note b = plan_bounds_ms [OF plan]
  have need: "start \<le> cl_time c \<and> cl_time c \<le> grid_end"
    if "H (cl_time c) = Some c" "datetime_to_ms from_time < cl_time c" "candle_is_closed (cl_time c) asof CANDLE_MS" for c
  proof -
    have "cl_time c mod CANDLE_MS = 0" using that(1) H(1) unfolding history_ok_def by blast
    then show ?thesis using b(5) [of "cl_time c"] b(6) [of "cl_time c"] that(2, 3) p by linarith
  qed
  show ?thesis
  proof (cases "grid_end < start")
    case True
    then have "cs = []" by (simp add: cs_def fetch_candles_for_evaluation_def Let_def plan)
    then show ?thesis using need True b(1) by fastforce
  next
    case False
    let ?needed = "(grid_end - start) div CANDLE_MS + 1"
    obtain k where k: "grid_end - start = k * CANDLE_MS" using b(7) by blast
    then have needed: "?needed = k + 1" using p by simp
    have k0: "0 \<le> k" using k False p by (metis diff_ge_0_iff_ge linorder_not_less zero_le_mult_iff order_less_imp_le)
    obtain raw where raw: "cs = closed_only start asof raw" "sorted_wrt (<) (map cl_time raw)"
      "\<And>c. c \<in> set raw \<Longrightarrow> H (cl_time c) = Some c"
      "\<And>c. H (cl_time c) = Some c \<Longrightarrow> start + CANDLE_MS \<le> cl_time c \<Longrightarrow> cl_time c \<le> grid_end \<Longrightarrow> c \<in> set raw"
    proof (cases "?needed > 1000")
      case True
      have "grid_end - start < (?needed div 1000 + 2) * max 1 (min 1000 1000) * CANDLE_MS"
      proof -
        have "\<not> (?needed div 1000 + 1) * 1000 \<le> ?needed" using int_div_ge [of 1000 "?needed div 1000 + 1" ?needed] by simp
        then have "k < (?needed div 1000 + 2) * 1000" unfolding needed by simp
        then show ?thesis unfolding k using p by simp
      qed
      moreover have "0 \<le> ?needed div 1000 + 2" using k0 needed by simp
      ultimately obtain rs where rs: "get_klines_range (request symbol) symbol start grid_end 1000 (?needed div 1000 + 2) = Rows rs"
        "sorted_wrt (<) (map cl_time rs)" "\<And>c. c \<in> set rs \<longleftrightarrow> H (cl_time c) = Some c \<and> start \<le> cl_time c \<and> cl_time c \<le> grid_end"
        using klines_range_complete [OF H(1,2), of start grid_end "?needed div 1000 + 2" 1000 symbol] False by auto
      have "cs = closed_only start asof rs"
        using True False rs(1) by (simp add: cs_def fetch_candles_for_evaluation_def Let_def plan paged_client_def PAGE_LIMIT_def)
      then show ?thesis using that [of rs] rs(2,3) p by force
    next
      case small: False
      let ?limit = "min (?needed + 10) 1000"
      obtain rs where rs: "klines symbol ?limit = Rows rs" "sorted_wrt (<) (map cl_time rs)" "\<forall>c\<in>set rs. H (cl_time c) = Some c"
        "\<forall>c. H (cl_time c) = Some c \<and> asof - ?limit * CANDLE_MS < cl_time c \<and> cl_time c \<le> asof \<longrightarrow> c \<in> set rs"
        using H(3) b(1) unfolding answers_latest_def by blast
      have "?needed \<le> ?limit" using small by simp
      then have "(k + 1) * CANDLE_MS \<le> ?limit * CANDLE_MS" using needed p by (metis mult_right_mono order_less_imp_le)
      then have "asof - ?limit * CANDLE_MS < start + CANDLE_MS" using b(3) k by (simp add: distrib_right)
      moreover have "c \<le> asof" if "c \<le> grid_end" for c
        using that b(8) p by linarith
      ultimately have in_rs: "c \<in> set rs" if "H (cl_time c) = Some c" "start + CANDLE_MS \<le> cl_time c" "cl_time c \<le> grid_end" for c
        using that rs(4) by fastforce
      have "cs = closed_only start asof rs"
        using small False rs(1) by (simp add: cs_def fetch_candles_for_evaluation_def Let_def plan paged_client_def PAGE_LIMIT_def closed_only_def)
      then show ?thesis using that [of rs] rs(2,3) in_rs by blast
    qed
    have "c \<in> set cs" if c: "H (cl_time c) = Some c" "datetime_to_ms from_time < cl_time c" "candle_is_closed (cl_time c) asof CANDLE_MS" for c
    proof -
      have "cl_time c mod CANDLE_MS = 0" using c(1) H(1) unfolding history_ok_def by blast
      then show ?thesis using raw(4) [OF c(1) b(6) [OF _ c(2)]] need [OF c] c(3) by (simp add: raw(1) set_closed_only)
    qed
    moreover have "H (cl_time c) = Some c \<and> candle_is_closed (cl_time c) asof CANDLE_MS" if "c \<in> set cs" for c
      using that raw(1,3) by (simp add: set_closed_only)
    moreover have "sorted_wrt (<) (map cl_time cs)" unfolding raw(1) by (rule closed_only_sorted [OF raw(2)])
    ultimately show ?thesis using b(1) by blast
  qed
qed

text \<open>C32. With a client that answers as documented, the fetch loses nothing: it returns, in order, candles of the
  history that have closed, with every closed candle after the begin of the window among them, however long
  the window is. Pages never run out: the page budget of the fetch always suffices.\<close>

theorem fetch_is_complete:
  fixes from_time to_time :: int and symbol :: string
  assumes "history_ok H" "answers_pages H (request symbol)" "answers_latest H (datetime_to_ms to_time) (klines symbol)"
  defines "cs \<equiv> fst (fetch_candles_for_evaluation (paged_client request klines) symbol from_time to_time PAGE_LIMIT)"
  shows "sorted_wrt (<) (map cl_time cs) \<and>
    (\<forall>c. c \<in> set cs \<longrightarrow> H (cl_time c) = Some c \<and> candle_is_closed (cl_time c) (datetime_to_ms to_time) CANDLE_MS) \<and>
    (\<forall>c. H (cl_time c) = Some c \<and> datetime_to_ms from_time < cl_time c \<and>
      candle_is_closed (cl_time c) (datetime_to_ms to_time) CANDLE_MS \<longrightarrow> c \<in> set cs)"
  unfolding cs_def
  by (rule fetch_complete [where H = H and request = request and klines = klines and symbol = symbol and to_time = to_time, OF assms(1-3)])

lemma ms_of_seconds: "\<bar>s\<bar> \<le> 2 ^ 43 \<Longrightarrow> datetime_to_ms (s * 1000000) = s * 1000"
proof -
  assume s: "\<bar>s\<bar> \<le> 2 ^ 43"
  then have f: "fl (of_int s) = of_int s" "fl (of_int (s * 1000)) = of_int (s * 1000)" by (intro fl_of_int; simp)+
  have "fdiv (of_int (s * 1000000)) 1000000 = of_int s" using f(1) by (simp add: fdiv_def)
  moreover have "fmul (of_int s) 1000 = of_int (s * 1000)" using f(2) by (simp add: fmul_def)
  ultimately have "datetime_to_ms (s * 1000000) = py_int (of_int (s * 1000))" by (simp only: datetime_to_ms_def)
  also have "\<dots> = s * 1000" unfolding py_int_def by (simp only: floor_of_int ceiling_of_int if_cancel)
  finally show ?thesis .
qed

section \<open>A concrete history\<close>

definition hour_bar :: "int \<Rightarrow> candle" where
  "hour_bar t = \<lparr>cl_time = t, cl_open = 100, cl_high = 101, cl_low = 99, cl_close = 100, cl_volume = 1\<rparr>"

definition steady_history :: history where
  "steady_history t = (if t mod CANDLE_MS = 0 then Some (hour_bar t) else None)"

definition steady_pages :: page_request where
  "steady_pages a b n = Inr (map (\<lambda>t. Some (hour_bar t)) (opens_in (a - 1) (b + 1) CANDLE_MS))"

definition steady_klines :: "int \<Rightarrow> int \<Rightarrow> fetch_reply" where
  "steady_klines now limit = Rows (map hour_bar (opens_in (now - limit * CANDLE_MS) (now + 1) CANDLE_MS))"

lemma candle_ms_pos: "0 < CANDLE_MS"
  by (simp add: CANDLE_MS_def)

lemma hour_bar_time [simp]: "cl_time (hour_bar t) = t"
  by (simp add: hour_bar_def)

lemma steady_candle: "steady_history (cl_time c) = Some c \<longleftrightarrow> c = hour_bar (cl_time c) \<and> cl_time c mod CANDLE_MS = 0"
  by (auto simp: steady_history_def)

lemma steady_laws: "history_ok steady_history" "answers_pages steady_history steady_pages" "answers_latest steady_history now (steady_klines now)"
proof -
  show "history_ok steady_history" by (simp add: history_ok_def steady_history_def)
  show "answers_pages steady_history steady_pages"
    unfolding answers_pages_def steady_pages_def steady_candle by (auto simp: set_opens_in [OF candle_ms_pos] image_iff) force+
  show "answers_latest steady_history now (steady_klines now)"
    unfolding answers_latest_def steady_klines_def steady_candle
    by (auto simp: set_opens_in [OF candle_ms_pos] image_iff o_def opens_in_sorted [OF candle_ms_pos])
qed

theorem fetch_is_complete_witness:
  "hour_bar 300000 \<in> set (fst (fetch_candles_for_evaluation (paged_client (\<lambda>s. steady_pages) (\<lambda>s. steady_klines 1200000)) ''BTCUSDT'' 0 1200000000 PAGE_LIMIT))"
proof -
  have ms: "datetime_to_ms 0 = 0" "datetime_to_ms 1200000000 = 1200000"
    using ms_of_seconds [of 0] ms_of_seconds [of 1200] by simp_all
  have c: "steady_history (cl_time (hour_bar 300000)) = Some (hour_bar 300000)"
    "candle_is_closed (cl_time (hour_bar 300000)) 1200000 CANDLE_MS"
    by (simp_all add: steady_history_def CANDLE_MS_def candle_is_closed_def)
  show ?thesis
    using fetch_is_complete [where to_time = 1200000000 and from_time = 0 and symbol = "''BTCUSDT''" and H = steady_history
          and request = "\<lambda>s. steady_pages" and klines = "\<lambda>s. steady_klines 1200000",
        unfolded ms, OF steady_laws(1,2) steady_laws(3) [of 1200000]] c
    by fastforce
qed

end
