(* ===== verification/ShadowEval.thy ===== *)
theory ShadowEval
  imports CoverageGuard
begin

text \<open>
  The evaluator of the shadow signals (\<^verbatim>\<open>src/app/shadow/evaluator.py\<close>) over its two tables
  (\<^verbatim>\<open>src/app/shadow/repository.py\<close>): which signals a cycle reads, how it groups them by symbol,
  fetches one proven path per symbol, measures each mature horizon that the path covers, and when it
  makes an outcome final. Times of signals and clocks are in microseconds, candle times in milliseconds.
  The tables are lists with unique signal identifiers; each save and each cycle's connection may fail.
  The statistics keep every counter; the clock of the block events is left out.
\<close>

section \<open>Windows\<close>

definition HORIZONS :: "(string \<times> int) list" where
  "HORIZONS = [(''15m'', 15), (''30m'', 30), (''60m'', 60), (''120m'', 120), (''240m'', 240)]"

definition minutes_us :: "int \<Rightarrow> int" where
  "minutes_us m = m * 60000000"

definition DAY_US :: int where
  "DAY_US = 86400000000"

record shadow_signal =
  sg_id :: int
  sg_symbol :: string
  sg_time :: int
  sg_price :: rat

definition is_horizon_mature :: "int \<Rightarrow> int \<Rightarrow> int \<Rightarrow> bool" where
  "is_horizon_mature signal_time minutes now \<longleftrightarrow> now \<ge> signal_time + minutes_us minutes"

definition get_eod_exclusive :: "int \<Rightarrow> int" where
  "get_eod_exclusive signal_time = (signal_time + DAY_US) div DAY_US * DAY_US"

definition is_eod_mature :: "int \<Rightarrow> int \<Rightarrow> bool" where
  "is_eod_mature signal_time now \<longleftrightarrow> now \<ge> get_eod_exclusive signal_time"

text \<open>Label, cutoff in milliseconds and maturity of every window of a signal, in the order of the code.\<close>

definition horizon_windows :: "int \<Rightarrow> shadow_signal \<Rightarrow> (string \<times> int \<times> bool) list" where
  "horizon_windows now sg =
     map (\<lambda>(label, m). (label, datetime_to_ms (sg_time sg + minutes_us m), is_horizon_mature (sg_time sg) m now)) HORIZONS @
     [(''eod'', datetime_to_ms (get_eod_exclusive (sg_time sg)), is_eod_mature (sg_time sg) now)]"

section \<open>The frozen formulas\<close>

definition favorable :: "rat \<Rightarrow> candle \<Rightarrow> rat" where
  "favorable entry c = fmul (fdiv (fsub entry (cl_low c)) entry) 100"

definition adverse :: "rat \<Rightarrow> candle \<Rightarrow> rat" where
  "adverse entry c = fmul (fdiv (fsub (cl_high c) entry) entry) 100"

text \<open>\<open>None\<close> around the pair: the division by a zero price raised.\<close>

definition mfe_mae_for_window :: "candle list \<Rightarrow> rat \<Rightarrow> int \<Rightarrow> int option \<Rightarrow> (rat option \<times> rat option) option" where
  "mfe_mae_for_window cs entry signal_ms cutoff =
     (let window = filter (\<lambda>c. \<not> cl_time c \<le> signal_ms \<and> \<not> (case cutoff of None \<Rightarrow> False | Some t \<Rightarrow> cl_time c \<ge> t)) cs in
      if window = [] then Some (None, None)
      else if entry = 0 then None
      else Some (Some (foldl (\<lambda>m c. max m (favorable entry c)) 0 window), Some (foldl (\<lambda>m c. max m (adverse entry c)) 0 window)))"

definition TARGETS :: "(rat \<times> string) list" where
  "TARGETS = [(1 / 2, ''reached_minus_0_5''), (1, ''reached_minus_1_0''), (3 / 2, ''reached_minus_1_5''), (2, ''reached_minus_2_0'')]"

definition ADVERSE :: "(rat \<times> string) list" where
  "ADVERSE = [(1 / 2, ''hit_plus_0_5_before_target''), (1, ''hit_plus_1_0_before_target''), (3 / 2, ''hit_plus_1_5_before_target'')]"

definition hits_target :: "rat \<Rightarrow> rat \<Rightarrow> candle \<Rightarrow> bool" where
  "hits_target price pct c \<longleftrightarrow> cl_low c \<le> fmul price (fsub 1 (fdiv pct 100))"

definition hits_adverse :: "rat \<Rightarrow> rat \<Rightarrow> candle \<Rightarrow> bool" where
  "hits_adverse price pct c \<longleftrightarrow> cl_high c \<ge> fmul price (fadd 1 (fdiv pct 100))"

text \<open>The loop state: targets hit, adverse moves hit, and the flags set so far.\<close>

definition target_loop :: "rat \<Rightarrow> rat list \<times> (string \<times> bool) list \<Rightarrow> candle \<Rightarrow> (rat \<times> string) \<Rightarrow> rat list \<times> (string \<times> bool) list" where
  "target_loop price s c pk =
     (case s of (hit, flags) \<Rightarrow>
        if fst pk \<notin> set hit \<and> hits_target price (fst pk) c then (fst pk # hit, dput (snd pk) True flags) else (hit, flags))"

definition adverse_loop ::
  "rat \<Rightarrow> rat list \<Rightarrow> rat list \<times> (string \<times> bool) list \<Rightarrow> candle \<Rightarrow> (rat \<times> string) \<Rightarrow> rat list \<times> (string \<times> bool) list" where
  "adverse_loop price targets s c pk =
     (case s of (hit, flags) \<Rightarrow>
        if fst pk \<notin> set hit \<and> hits_adverse price (fst pk) c
        then (fst pk # hit, if targets = [] then dput (snd pk) True flags else flags) else (hit, flags))"

definition flags_step :: "rat \<Rightarrow> rat list \<times> rat list \<times> (string \<times> bool) list \<Rightarrow> candle \<Rightarrow> rat list \<times> rat list \<times> (string \<times> bool) list" where
  "flags_step price s c =
     (case s of (targets, adverses, flags) \<Rightarrow>
      case foldl (\<lambda>s. target_loop price s c) (targets, flags) TARGETS of (targets', flags') \<Rightarrow>
      case foldl (\<lambda>s. adverse_loop price targets' s c) (adverses, flags') ADVERSE of (adverses', flags'') \<Rightarrow>
        (targets', adverses', flags''))"

definition no_flags :: "(string \<times> bool) list" where
  "no_flags = map (\<lambda>(p, k). (k, False)) (TARGETS @ ADVERSE)"

definition check_target_achievement :: "candle list \<Rightarrow> rat \<Rightarrow> int option \<Rightarrow> (string \<times> bool) list" where
  "check_target_achievement cs price cutoff =
     snd (snd (foldl (flags_step price) ([], [], no_flags)
       (takeWhile (\<lambda>c. case cutoff of None \<Rightarrow> True | Some t \<Rightarrow> \<not> cl_time c \<ge> t) cs)))"

section \<open>Outcomes\<close>

type_synonym mark = "(rat option \<times> rat option) \<times> int"

record outcome_row =
  ow_marks :: "(string \<times> mark) list"
  ow_flags :: "(string \<times> bool) list"
  ow_final :: bool

definition marked :: "outcome_row option \<Rightarrow> string \<Rightarrow> bool" where
  "marked row label \<longleftrightarrow> (case row of None \<Rightarrow> False | Some r \<Rightarrow> dhas (ow_marks r) label)"

definition row_final :: "outcome_row option \<Rightarrow> bool" where
  "row_final row \<longleftrightarrow> (case row of None \<Rightarrow> False | Some r \<Rightarrow> ow_final r)"

definition merge_all :: "('k \<times> 'v) list \<Rightarrow> ('k \<times> 'v) list \<Rightarrow> ('k \<times> 'v) list" where
  "merge_all d new = foldl (\<lambda>d (k, v). dput k v d) d new"

text \<open>The upsert: only the columns of the update are written, \<^verbatim>\<open>is_final\<close> only when it is true.\<close>

record outcome_update =
  eu_marks :: "(string \<times> mark) list"
  eu_flags :: "(string \<times> bool) list option"

definition apply_update :: "outcome_update \<Rightarrow> outcome_row option \<Rightarrow> outcome_row" where
  "apply_update eu row =
     (let r = (case row of None \<Rightarrow> \<lparr>ow_marks = [], ow_flags = [], ow_final = False\<rparr> | Some r \<Rightarrow> r) in
      case eu_flags eu of
        None \<Rightarrow> r\<lparr>ow_marks := merge_all (ow_marks r) (eu_marks eu)\<rparr>
      | Some fs \<Rightarrow> r\<lparr>ow_marks := merge_all (ow_marks r) (eu_marks eu), ow_flags := merge_all (ow_flags r) fs, ow_final := True\<rparr>)"

section \<open>Statistics\<close>

record block_event =
  be_event :: string
  be_status :: source_status
  be_reason :: string
  be_horizon :: "string option"
  be_signal :: int
  be_symbol :: string

record eval_stats =
  st_horizons :: "(string \<times> nat) list"
  st_created :: nat
  st_updated :: nat
  st_finalized :: nat
  st_errors :: nat
  st_source :: "(string \<times> nat) list"
  st_coverage :: "(string \<times> nat) list"
  st_pending :: "(string \<times> nat) list"
  st_final_blocked :: nat
  st_events :: "block_event list"
  st_truncated :: nat

definition LABELS :: "string list" where
  "LABELS = map fst HORIZONS @ [''eod'']"

definition new_stats :: eval_stats where
  "new_stats = \<lparr>st_horizons = map (\<lambda>l. (l, 0)) LABELS, st_created = 0, st_updated = 0, st_finalized = 0, st_errors = 0,
     st_source = [(''source_fetch_error'', 0), (''source_incomplete'', 0), (''source_not_yet_available'', 0)],
     st_coverage = [], st_pending = map (\<lambda>l. (l, 0)) LABELS, st_final_blocked = 0, st_events = [], st_truncated = 0\<rparr>"

definition add_count :: "string \<Rightarrow> nat \<Rightarrow> (string \<times> nat) list \<Rightarrow> (string \<times> nat) list" where
  "add_count k n d = dput k (dget_or d k 0 + n) d"

definition MAX_DIAGNOSTIC_EVENTS :: nat where
  "MAX_DIAGNOSTIC_EVENTS = 500"

definition record_coverage_block :: "coverage \<Rightarrow> string option \<Rightarrow> eval_stats \<Rightarrow> eval_stats" where
  "record_coverage_block cov horizon st =
     st\<lparr>st_coverage := add_count (snd cov) 1 (st_coverage st),
        st_pending := (case horizon of None \<Rightarrow> st_pending st | Some h \<Rightarrow> add_count h 1 (st_pending st))\<rparr>"

definition record_finalization_block :: "coverage \<Rightarrow> eval_stats \<Rightarrow> eval_stats" where
  "record_finalization_block cov st =
     st\<lparr>st_final_blocked := st_final_blocked st + 1, st_coverage := add_count (snd cov) 1 (st_coverage st)\<rparr>"

definition record_block_event :: "string \<Rightarrow> coverage \<Rightarrow> string option \<Rightarrow> shadow_signal \<Rightarrow> eval_stats \<Rightarrow> eval_stats" where
  "record_block_event event cov horizon sg st =
     (if length (st_events st) \<ge> MAX_DIAGNOSTIC_EVENTS then st\<lparr>st_truncated := st_truncated st + 1\<rparr>
      else st\<lparr>st_events := st_events st @
        [\<lparr>be_event = event, be_status = fst cov, be_reason = snd cov, be_horizon = horizon, be_signal = sg_id sg, be_symbol = sg_symbol sg\<rparr>]\<rparr>)"

section \<open>One signal\<close>

text \<open>The state of the evaluation of one signal: statistics, new marks, and whether a formula raised.\<close>

type_synonym eval_state = "eval_stats \<times> (string \<times> mark) list \<times> bool"

definition measure_window ::
  "int \<Rightarrow> candle list \<Rightarrow> shadow_signal \<Rightarrow> outcome_row option \<Rightarrow> eval_state \<Rightarrow> string \<times> int \<times> bool \<Rightarrow> eval_state" where
  "measure_window now cs sg row s w =
     (case (s, w) of ((st, marks, raised), (label, cutoff, mature)) \<Rightarrow>
        if raised \<or> marked row label \<or> \<not> mature then s
        else let signal_ms = datetime_to_ms (sg_time sg);
                 cov = validate_candle_coverage cs signal_ms cutoff (datetime_to_ms now) CANDLE_MS True in
        if \<not> covered cov
        then (record_block_event ''coverage_blocked'' cov (Some label) sg (record_coverage_block cov (Some label) st), marks, raised)
        else case mfe_mae_for_window (filter (\<lambda>c. cl_time c > signal_ms) cs) (sg_price sg) signal_ms (Some cutoff) of
               None \<Rightarrow> (st, marks, True)
             | Some r \<Rightarrow> (st, marks @ [(label, (r, now))], raised))"

definition finalization ::
  "int \<Rightarrow> candle list \<Rightarrow> shadow_signal \<Rightarrow> outcome_row option \<Rightarrow> eval_stats \<Rightarrow> (string \<times> mark) list \<Rightarrow> eval_stats \<times> (string \<times> bool) list option" where
  "finalization now cs sg row st marks =
     (if list_all (\<lambda>l. marked row l \<or> dhas marks l) LABELS \<and> \<not> row_final row
      then let signal_ms = datetime_to_ms (sg_time sg); cutoff = datetime_to_ms (get_eod_exclusive (sg_time sg));
               cov = validate_candle_coverage cs signal_ms cutoff (datetime_to_ms now) CANDLE_MS True in
        if \<not> covered cov
        then (record_block_event ''finalization_blocked'' cov (Some ''eod'') sg (record_finalization_block cov st), None)
        else (st, Some (check_target_achievement (filter (\<lambda>c. cl_time c > signal_ms) cs) (sg_price sg) (Some cutoff)))
      else (st, None))"

text \<open>Statistics, the update to save (\<open>None\<close>: nothing to save) and whether it raised.\<close>

definition evaluate_signal ::
  "int \<Rightarrow> candle list \<Rightarrow> shadow_signal \<Rightarrow> outcome_row option \<Rightarrow> eval_stats \<Rightarrow> eval_stats \<times> outcome_update option \<times> bool" where
  "evaluate_signal now cs sg row st =
     (case foldl (measure_window now cs sg row) (st, [], False) (horizon_windows now sg) of (st1, marks, raised) \<Rightarrow>
        if raised then (st1, None, True)
        else case finalization now cs sg row st1 marks of (st2, flags) \<Rightarrow>
          if marks = [] \<and> flags = None then (st2, None, False)
          else (st2, Some \<lparr>eu_marks = marks, eu_flags = flags\<rparr>, False))"

definition count_saved :: "outcome_row option \<Rightarrow> outcome_update \<Rightarrow> eval_stats \<Rightarrow> eval_stats" where
  "count_saved row eu st =
     (let st1 = st\<lparr>st_horizons := foldl (\<lambda>d l. if dhas (eu_marks eu) l \<and> \<not> marked row l then add_count l 1 d else d) (st_horizons st) LABELS\<rparr>;
          st2 = (if row = None then st1\<lparr>st_created := st_created st1 + 1\<rparr> else st1\<lparr>st_updated := st_updated st1 + 1\<rparr>)
      in if eu_flags eu = None then st2 else st2\<lparr>st_finalized := st_finalized st2 + 1\<rparr>)"

type_synonym outcome_table = "(int \<times> outcome_row) list"

definition evaluate_and_save ::
  "(int \<Rightarrow> bool) \<Rightarrow> int \<Rightarrow> candle list \<Rightarrow> outcome_table \<times> eval_stats \<Rightarrow> shadow_signal \<times> outcome_row option \<Rightarrow> outcome_table \<times> eval_stats" where
  "evaluate_and_save saves now cs s sr =
     (case (s, sr) of ((db, st), (sg, row)) \<Rightarrow>
      case evaluate_signal now cs sg row st of (st1, update, raised) \<Rightarrow>
        if raised then (db, st1\<lparr>st_errors := st_errors st1 + 1\<rparr>)
        else case update of
               None \<Rightarrow> (db, st1)
             | Some eu \<Rightarrow>
                 if saves (sg_id sg) then (dput (sg_id sg) (apply_update eu (dget db (sg_id sg))) db, count_saved row eu st1)
                 else (db, st1\<lparr>st_errors := st_errors st1 + 1\<rparr>))"

section \<open>One cycle\<close>

text \<open>The query: signals with something left to do, the oldest first. \<open>day\<close> is the database's day start.\<close>

definition is_eligible :: "int \<Rightarrow> outcome_row option \<Rightarrow> shadow_signal \<Rightarrow> bool" where
  "is_eligible now row sg \<longleftrightarrow>
     (case row of
        None \<Rightarrow> sg_time sg \<le> now - minutes_us 15
      | Some r \<Rightarrow> \<not> ow_final r \<and>
          (list_ex (\<lambda>(l, m). \<not> dhas (ow_marks r) l \<and> sg_time sg \<le> now - minutes_us m) HORIZONS \<or>
           \<not> dhas (ow_marks r) ''eod'' \<and> sg_time sg < now div DAY_US * DAY_US \<or>
           list_all (\<lambda>l. dhas (ow_marks r) l) LABELS))"

definition get_eligible_signals ::
  "int \<Rightarrow> nat \<Rightarrow> shadow_signal list \<Rightarrow> outcome_table \<Rightarrow> (shadow_signal \<times> outcome_row option) list" where
  "get_eligible_signals now limit signals db =
     map (\<lambda>sg. (sg, dget db (sg_id sg)))
       (take limit (sort_key sg_time (filter (\<lambda>sg. is_eligible now (dget db (sg_id sg)) sg) signals)))"

definition group_by_symbol :: "(shadow_signal \<times> outcome_row option) list \<Rightarrow> (string \<times> (shadow_signal \<times> outcome_row option) list) list" where
  "group_by_symbol srs = foldl (\<lambda>d sr. dput (sg_symbol (fst sr)) (dget_or d (sg_symbol (fst sr)) [] @ [sr]) d) [] srs"

record eval_env =
  ev_now :: int
  ev_db_now :: int
  ev_connected :: bool
  ev_client :: candle_client
  ev_saves :: "int \<Rightarrow> bool"

definition source_blocked :: "coverage \<Rightarrow> (shadow_signal \<times> outcome_row option) list \<Rightarrow> eval_stats \<Rightarrow> eval_stats" where
  "source_blocked cov srs st =
     (let cov' = (if covered cov then (SOURCE_INCOMPLETE_COVERAGE, ''NO_CANDLES_IN_WINDOW'') else cov);
          st1 = st\<lparr>st_source := add_count (fetch_status_stats_key (fst cov')) (length srs) (st_source st),
                   st_errors := st_errors st + length srs\<rparr>
      in foldl (\<lambda>st (sg, row). record_block_event ''source_blocked'' cov' None sg st) st1 srs)"

definition evaluate_symbol ::
  "eval_env \<Rightarrow> outcome_table \<times> eval_stats \<Rightarrow> string \<times> (shadow_signal \<times> outcome_row option) list \<Rightarrow> outcome_table \<times> eval_stats" where
  "evaluate_symbol env s batch =
     (case (s, batch) of ((db, st), (symbol, srs)) \<Rightarrow>
        let oldest = foldl min (sg_time (fst (hd srs))) (map (sg_time \<circ> fst) srs) in
        case fetch_candles_for_evaluation (ev_client env) symbol oldest (ev_now env) PAGE_LIMIT of (cs, cov) \<Rightarrow>
          if cs = [] then (db, source_blocked cov srs st)
          else foldl (evaluate_and_save (ev_saves env) (ev_now env) cs) (db, st) srs)"

definition run_evaluation_cycle :: "shadow_signal list \<Rightarrow> outcome_table \<Rightarrow> eval_env \<Rightarrow> outcome_table \<times> eval_stats" where
  "run_evaluation_cycle signals db env =
     (let eligible = (if ev_connected env then get_eligible_signals (ev_db_now env) 5000 signals db else [])
      in foldl (evaluate_symbol env) (db, new_stats) (group_by_symbol eligible))"

section \<open>Dictionaries of updates\<close>

lemma dget_merge_all: "dwf new \<Longrightarrow> dget (merge_all d new) k = (case dget new k of None \<Rightarrow> dget d k | Some v \<Rightarrow> Some v)"
proof (induction new arbitrary: d)
  case (Cons kv new)
  obtain j v where kv: "kv = (j, v)" by (metis surj_pair)
  have "dwf new" "dget new j = None"
    using Cons.prems by (auto simp: kv dwf_def map_of_eq_None_iff)
  then show ?case using Cons.IH [of "dput j v d"] by (auto simp: merge_all_def kv split: option.split)
qed (simp add: merge_all_def)

lemma dwf_merge_all: "dwf d \<Longrightarrow> dwf (merge_all d new)"
  unfolding merge_all_def by (induction new arbitrary: d) (auto split: prod.splits)

lemma dhas_snoc: "dhas (xs @ [(l, v)]) k \<longleftrightarrow> dhas xs k \<or> k = l"
  by (auto simp: dhas_def map_add_def split: option.split)

section \<open>Statistics do not decide\<close>

text \<open>What one window contributes, without the statistics.\<close>

definition window_mark ::
  "int \<Rightarrow> candle list \<Rightarrow> shadow_signal \<Rightarrow> outcome_row option \<Rightarrow> string \<times> int \<times> bool \<Rightarrow> (rat option \<times> rat option) option option" where
  "window_mark now cs sg row w =
     (case w of (label, cutoff, mature) \<Rightarrow>
        let signal_ms = datetime_to_ms (sg_time sg) in
        if marked row label \<or> \<not> mature \<or> \<not> covered (validate_candle_coverage cs signal_ms cutoff (datetime_to_ms now) CANDLE_MS True)
        then None
        else Some (mfe_mae_for_window (filter (\<lambda>c. cl_time c > signal_ms) cs) (sg_price sg) signal_ms (Some cutoff)))"

fun marks_of ::
  "int \<Rightarrow> candle list \<Rightarrow> shadow_signal \<Rightarrow> outcome_row option \<Rightarrow> (string \<times> int \<times> bool) list \<Rightarrow> (string \<times> mark) list \<times> bool" where
  "marks_of now cs sg row [] = ([], False)"
| "marks_of now cs sg row (w # ws) =
     (case window_mark now cs sg row w of
        None \<Rightarrow> marks_of now cs sg row ws
      | Some None \<Rightarrow> ([], True)
      | Some (Some r) \<Rightarrow> (case marks_of now cs sg row ws of (ms, raised) \<Rightarrow> ((fst w, (r, now)) # ms, raised)))"

lemma measure_raised: "foldl (measure_window now cs sg row) (st, marks, True) ws = (st, marks, True)"
  by (induction ws) (auto simp: measure_window_def)

lemma measure_step:
  "\<exists>st'. measure_window now cs sg row (st, marks, False) w =
     (case window_mark now cs sg row w of
        None \<Rightarrow> (st', marks, False) | Some None \<Rightarrow> (st', marks, True)
      | Some (Some r) \<Rightarrow> (st', marks @ [(fst w, (r, now))], False))"
  by (cases w) (auto simp: measure_window_def window_mark_def Let_def split: option.split)

lemma measure_marks:
  "\<exists>st'. foldl (measure_window now cs sg row) (st, marks, False) ws =
     (st', marks @ fst (marks_of now cs sg row ws), snd (marks_of now cs sg row ws))"
proof (induction ws arbitrary: st marks)
  case (Cons w ws)
  obtain st' where st': "measure_window now cs sg row (st, marks, False) w =
     (case window_mark now cs sg row w of
        None \<Rightarrow> (st', marks, False) | Some None \<Rightarrow> (st', marks, True)
      | Some (Some r) \<Rightarrow> (st', marks @ [(fst w, (r, now))], False))"
    using measure_step by blast
  show ?case
  proof (cases "window_mark now cs sg row w")
    case None
    then show ?thesis using st' Cons.IH by simp
  next
    case (Some m)
    then show ?thesis using st' Cons.IH measure_raised by (cases m) (simp_all add: split_beta, metis append.assoc append_Cons append_Nil)
  qed
qed simp

text \<open>The flags a finalization writes, without the statistics.\<close>

definition flags_of :: "int \<Rightarrow> candle list \<Rightarrow> shadow_signal \<Rightarrow> outcome_row option \<Rightarrow> (string \<times> mark) list \<Rightarrow> (string \<times> bool) list option" where
  "flags_of now cs sg row marks =
     (let signal_ms = datetime_to_ms (sg_time sg); cutoff = datetime_to_ms (get_eod_exclusive (sg_time sg)) in
      if list_all (\<lambda>l. marked row l \<or> dhas marks l) LABELS \<and> \<not> row_final row \<and>
         covered (validate_candle_coverage cs signal_ms cutoff (datetime_to_ms now) CANDLE_MS True)
      then Some (check_target_achievement (filter (\<lambda>c. cl_time c > signal_ms) cs) (sg_price sg) (Some cutoff)) else None)"

lemma finalization_flags: "snd (finalization now cs sg row st marks) = flags_of now cs sg row marks"
  by (simp add: finalization_def flags_of_def Let_def)

definition update_of :: "int \<Rightarrow> candle list \<Rightarrow> shadow_signal \<Rightarrow> outcome_row option \<Rightarrow> outcome_update option" where
  "update_of now cs sg row =
     (case marks_of now cs sg row (horizon_windows now sg) of (marks, raised) \<Rightarrow>
        if raised \<or> marks = [] \<and> flags_of now cs sg row marks = None then None
        else Some \<lparr>eu_marks = marks, eu_flags = flags_of now cs sg row marks\<rparr>)"

lemma evaluate_signal_update: "fst (snd (evaluate_signal now cs sg row st)) = update_of now cs sg row"
proof -
  obtain st' where "foldl (measure_window now cs sg row) (st, [], False) (horizon_windows now sg) =
     (st', [] @ fst (marks_of now cs sg row (horizon_windows now sg)), snd (marks_of now cs sg row (horizon_windows now sg)))"
    using measure_marks by blast
  then show ?thesis
    by (cases "marks_of now cs sg row (horizon_windows now sg)")
      (auto simp: evaluate_signal_def update_of_def split_beta finalization_flags)
qed

lemma evaluate_signal_raised: "snd (snd (evaluate_signal now cs sg row st)) \<Longrightarrow> fst (snd (evaluate_signal now cs sg row st)) = None"
  by (auto simp: evaluate_signal_def split: prod.splits if_splits)

text \<open>How one evaluation changes a row.\<close>

definition evolve :: "(int \<Rightarrow> bool) \<Rightarrow> int \<Rightarrow> candle list \<Rightarrow> shadow_signal \<Rightarrow> outcome_row option \<Rightarrow> outcome_row option" where
  "evolve saves now cs sg row =
     (case update_of now cs sg row of None \<Rightarrow> row | Some eu \<Rightarrow> if saves (sg_id sg) then Some (apply_update eu row) else row)"

lemma save_step:
  assumes "row = dget db (sg_id sg)"
  shows "dget (fst (evaluate_and_save saves now cs (db, st) (sg, row))) i =
    (if i = sg_id sg then evolve saves now cs sg row else dget db i)"
  using assms evaluate_signal_update [of now cs sg row st] evaluate_signal_raised [of now cs sg row st]
  by (auto simp: evaluate_and_save_def evolve_def split_beta split: option.splits)

section \<open>What a cycle does to a row\<close>

abbreviation sr_id :: "shadow_signal \<times> outcome_row option \<Rightarrow> int" where
  "sr_id sr \<equiv> sg_id (fst sr)"

text \<open>The rows that the query read are still the rows of the table.\<close>

definition fresh :: "outcome_table \<Rightarrow> (shadow_signal \<times> outcome_row option) list \<Rightarrow> bool" where
  "fresh db srs \<longleftrightarrow> (\<forall>sr\<in>set srs. snd sr = dget db (sr_id sr))"

lemma fold_saves:
  assumes "distinct (map sr_id srs)" "fresh db srs"
  shows "dget (fst (foldl (evaluate_and_save saves now cs) (db, st) srs)) i =
    (case find (\<lambda>sr. sr_id sr = i) srs of None \<Rightarrow> dget db i | Some sr \<Rightarrow> evolve saves now cs (fst sr) (snd sr))"
  using assms
proof (induction srs arbitrary: db st)
  case (Cons sr srs)
  obtain sg row where sr: "sr = (sg, row)" by (metis surj_pair)
  obtain db' st' where s: "evaluate_and_save saves now cs (db, st) (sg, row) = (db', st')" by (metis surj_pair)
  have row: "row = dget db (sg_id sg)" using Cons.prems(2) by (simp add: sr fresh_def)
  have db': "dget db' j = (if j = sg_id sg then evolve saves now cs sg row else dget db j)" for j
    using save_step [OF row, of saves now cs st j] by (simp add: s)
  have "sr_id sr' \<noteq> sg_id sg" if "sr' \<in> set srs" for sr'
    using Cons.prems(1) that by (force simp: sr)
  then have "fresh db' srs" using Cons.prems(2) by (simp add: db' fresh_def)
  then have "dget (fst (foldl (evaluate_and_save saves now cs) (db', st') srs)) i =
    (case find (\<lambda>sr. sr_id sr = i) srs of None \<Rightarrow> dget db' i | Some sr \<Rightarrow> evolve saves now cs (fst sr) (snd sr))"
    using Cons.prems(1) by (intro Cons.IH) simp_all
  moreover have "find (\<lambda>sr. sr_id sr = i) srs = None" if "i = sg_id sg"
    using Cons.prems(1) that by (force simp: find_None_iff sr)
  ultimately show ?case by (auto simp: s sr db' split: option.split)
qed simp

lemma group_lookup:
  "dget (group_by_symbol srs) symbol =
     (let f = filter (\<lambda>sr. sg_symbol (fst sr) = symbol) srs in if f = [] then None else Some f)"
proof (induction srs rule: rev_induct)
  case (snoc sr srs)
  then show ?case by (auto simp: group_by_symbol_def dget_or_def Let_def)
qed (simp add: group_by_symbol_def)

lemma group_dwf: "dwf (group_by_symbol srs)"
  by (induction srs rule: rev_induct) (simp_all add: group_by_symbol_def)

definition batch_oldest :: "(shadow_signal \<times> outcome_row option) list \<Rightarrow> int" where
  "batch_oldest srs = foldl min (sg_time (fst (hd srs))) (map (sg_time \<circ> fst) srs)"

definition batch_candles :: "eval_env \<Rightarrow> string \<Rightarrow> (shadow_signal \<times> outcome_row option) list \<Rightarrow> candle list" where
  "batch_candles env symbol srs = fst (fetch_candles_for_evaluation (ev_client env) symbol (batch_oldest srs) (ev_now env) PAGE_LIMIT)"

definition batch_row :: "eval_env \<Rightarrow> string \<Rightarrow> (shadow_signal \<times> outcome_row option) list \<Rightarrow> shadow_signal \<Rightarrow> outcome_row option \<Rightarrow> outcome_row option" where
  "batch_row env symbol srs sg row =
     (if batch_candles env symbol srs = [] then row else evolve (ev_saves env) (ev_now env) (batch_candles env symbol srs) sg row)"

lemma symbol_step:
  assumes "distinct (map sr_id srs)" "fresh db srs"
  shows "dget (fst (evaluate_symbol env (db, st) (symbol, srs))) i =
    (case find (\<lambda>sr. sr_id sr = i) srs of None \<Rightarrow> dget db i | Some sr \<Rightarrow> batch_row env symbol srs (fst sr) (snd sr))"
proof (cases "batch_candles env symbol srs = []")
  case True
  then have "fst (evaluate_symbol env (db, st) (symbol, srs)) = db"
    by (simp add: evaluate_symbol_def batch_candles_def batch_oldest_def split_beta)
  moreover have "snd sr = dget db i" if "find (\<lambda>sr. sr_id sr = i) srs = Some sr" for sr
    using that assms(2) by (auto simp: find_Some_iff fresh_def)
  ultimately show ?thesis by (auto simp: batch_row_def True split: option.split)
next
  case False
  then have "evaluate_symbol env (db, st) (symbol, srs) =
      foldl (evaluate_and_save (ev_saves env) (ev_now env) (batch_candles env symbol srs)) (db, st) srs"
    by (simp add: evaluate_symbol_def batch_candles_def batch_oldest_def split_beta)
  then show ?thesis using False by (simp add: fold_saves [OF assms] batch_row_def split: option.split)
qed

text \<open>The groups of a cycle are independent: each row is touched by the group of its symbol only.\<close>

lemma fold_groups:
  assumes "distinct (map fst gs)" "distinct (map sr_id (concat (map snd gs)))"
    "fresh db (concat (map snd gs))"
  shows "dget (fst (foldl (evaluate_symbol env) (db, st) gs)) i =
    (case find (\<lambda>g. list_ex (\<lambda>sr. sr_id sr = i) (snd g)) gs of
       None \<Rightarrow> dget db i
     | Some (symbol, srs) \<Rightarrow>
         (case find (\<lambda>sr. sr_id sr = i) srs of None \<Rightarrow> dget db i | Some sr \<Rightarrow> batch_row env symbol srs (fst sr) (snd sr)))"
  using assms
proof (induction gs arbitrary: db st)
  case (Cons g gs)
  obtain symbol srs where g: "g = (symbol, srs)" by (metis surj_pair)
  obtain db' st' where s: "evaluate_symbol env (db, st) (symbol, srs) = (db', st')" by (metis surj_pair)
  have d: "distinct (map sr_id srs)" "fresh db srs"
    using Cons.prems(2,3) by (auto simp: g fresh_def)
  have db': "dget db' j = (case find (\<lambda>sr. sr_id sr = j) srs of None \<Rightarrow> dget db j | Some sr \<Rightarrow> batch_row env symbol srs (fst sr) (snd sr))" for j
    using symbol_step [OF d, of env st symbol j] by (simp add: s)
  have other: "dget db' j = dget db j" if "\<not> list_ex (\<lambda>sr. sr_id sr = j) srs" for j
  proof -
    have "find (\<lambda>sr. sr_id sr = j) srs = None" using that by (auto simp: find_None_iff list_ex_iff)
    then show ?thesis by (simp add: db')
  qed
  have apart: "\<not> list_ex (\<lambda>sr. sr_id sr = sr_id sr') srs" if "sr' \<in> set (concat (map snd gs))" for sr'
  proof
    assume "list_ex (\<lambda>sr. sr_id sr = sr_id sr') srs"
    then obtain sr where "sr \<in> set srs" "sr_id sr = sr_id sr'" unfolding list_ex_iff by blast
    then have "sr_id sr' \<in> sr_id ` set srs" by (metis image_eqI)
    moreover have "sr_id sr' \<in> sr_id ` set (concat (map snd gs))" using that by blast
    moreover have "sr_id ` set srs \<inter> sr_id ` set (concat (map snd gs)) = {}"
      using Cons.prems(2) by (simp add: g)
    ultimately show False by blast
  qed
  then have "fresh db' (concat (map snd gs))"
    using Cons.prems(3) other by (auto simp: fresh_def g)
  then have ih: "dget (fst (foldl (evaluate_symbol env) (db', st') gs)) i =
    (case find (\<lambda>g. list_ex (\<lambda>sr. sr_id sr = i) (snd g)) gs of
       None \<Rightarrow> dget db' i
     | Some (symbol, srs) \<Rightarrow>
         (case find (\<lambda>sr. sr_id sr = i) srs of None \<Rightarrow> dget db' i | Some sr \<Rightarrow> batch_row env symbol srs (fst sr) (snd sr)))"
    using Cons.prems(1,2) by (intro Cons.IH) (simp_all add: g)
  show ?case
  proof (cases "list_ex (\<lambda>sr. sr_id sr = i) srs")
    case True
    then have none: "find (\<lambda>g. list_ex (\<lambda>sr. sr_id sr = i) (snd g)) gs = None"
      using apart True by (fastforce simp: find_None_iff list_ex_iff)
    show ?thesis using ih True by (simp add: g s none db')
  next
    case False
    then show ?thesis using ih other [OF False] by (simp add: g s split: option.split prod.split)
  qed
qed simp

definition eligible_of :: "shadow_signal list \<Rightarrow> outcome_table \<Rightarrow> eval_env \<Rightarrow> (shadow_signal \<times> outcome_row option) list" where
  "eligible_of signals db env = (if ev_connected env then get_eligible_signals (ev_db_now env) 5000 signals db else [])"

definition same_symbol :: "shadow_signal \<Rightarrow> (shadow_signal \<times> outcome_row option) list \<Rightarrow> (shadow_signal \<times> outcome_row option) list" where
  "same_symbol sg srs = filter (\<lambda>sr. sg_symbol (fst sr) = sg_symbol sg) srs"

lemma eligible_sub: "sr \<in> set (get_eligible_signals now n signals db) \<Longrightarrow>
    fst sr \<in> set signals \<and> is_eligible now (dget db (sr_id sr)) (fst sr) \<and> snd sr = dget db (sr_id sr)"
  by (auto simp: get_eligible_signals_def dest!: in_set_takeD)

lemma eligible_distinct: "distinct (map sg_id signals) \<Longrightarrow> distinct (map sr_id (get_eligible_signals now n signals db))"
proof -
  let ?xs = "filter (\<lambda>sg. is_eligible now (dget db (sg_id sg)) sg) signals"
  assume "distinct (map sg_id signals)"
  then have "distinct (map sg_id ?xs)" by (rule distinct_map_filter)
  then have "distinct (map sg_id (sort_key sg_time ?xs))" by (simp add: distinct_map)
  then have "distinct (take n (map sg_id (sort_key sg_time ?xs)))" by (rule distinct_take)
  then show ?thesis by (simp add: get_eligible_signals_def o_def take_map)
qed

lemma group_member:
  assumes "(symbol, f) \<in> set (group_by_symbol srs)"
  shows "f = filter (\<lambda>sr. sg_symbol (fst sr) = symbol) srs"
proof -
  have "dget (group_by_symbol srs) symbol = Some f" using assms dwf_dget_iff [OF group_dwf] by blast
  then show ?thesis unfolding group_lookup by (auto simp: Let_def split: if_splits)
qed

lemma group_flat:
  assumes "distinct (map sr_id srs)"
  shows "distinct (map sr_id (concat (map snd (group_by_symbol srs))))" "set (concat (map snd (group_by_symbol srs))) \<subseteq> set srs"
proof -
  have g: "f = filter (\<lambda>sr. sg_symbol (fst sr) = symbol) srs" if "(symbol, f) \<in> set (group_by_symbol srs)" for symbol f
    using that by (rule group_member)
  then show "set (concat (map snd (group_by_symbol srs))) \<subseteq> set srs" by fastforce
  have "distinct (map sr_id (concat (map snd gs)))" if "dwf gs" "set gs \<subseteq> set (group_by_symbol srs)" for gs
    using that
  proof (induction gs)
    case (Cons h gs)
    obtain symbol f where h: "h = (symbol, f)" by (metis surj_pair)
    have f: "f = filter (\<lambda>sr. sg_symbol (fst sr) = symbol) srs" using g Cons.prems(2) by (simp add: h)
    have other: "sg_symbol (fst sr) \<noteq> symbol \<and> sr \<in> set srs" if sr: "sr \<in> set (concat (map snd gs))" for sr
    proof -
      obtain k f' where k: "(k, f') \<in> set gs" "sr \<in> set f'" using sr by auto
      then have "sr \<in> set srs \<and> sg_symbol (fst sr) = k" using g Cons.prems(2) by fastforce
      moreover have "k \<noteq> symbol" using Cons.prems(1) k(1) by (force simp: h dwf_def)
      ultimately show ?thesis by simp
    qed
    have inj: "inj_on sr_id (set srs)" using assms by (simp add: distinct_map)
    have "sr_id ` set f \<inter> sr_id ` set (concat (map snd gs)) = {}"
    proof (rule ccontr)
      assume "\<not> ?thesis"
      then obtain a b where ab: "a \<in> set f" "b \<in> set (concat (map snd gs))" "sr_id a = sr_id b" by blast
      then have "a \<in> set srs" "b \<in> set srs" using other by (auto simp: f)
      then have "a = b" using inj ab(3) by (meson inj_onD)
      then show False using other [OF ab(2)] ab(1) by (simp add: f)
    qed
    moreover have "distinct (map sr_id f)" unfolding f using assms by (rule distinct_map_filter)
    moreover have "distinct (map sr_id (concat (map snd gs)))" using Cons by (simp add: dwf_def)
    ultimately show ?case by (simp add: h)
  qed simp
  then show "distinct (map sr_id (concat (map snd (group_by_symbol srs))))" using group_dwf by blast
qed

lemma find_unique:
  assumes "x \<in> set xs" "P x" "\<And>y. y \<in> set xs \<Longrightarrow> P y \<Longrightarrow> y = x"
  shows "find P xs = Some x"
proof (cases "find P xs")
  case None
  then show ?thesis using assms(1,2) by (simp add: find_None_iff)
next
  case (Some y)
  then have "y \<in> set xs" "P y" by (auto simp: find_Some_iff)
  then show ?thesis using assms(3) Some by blast
qed

text \<open>The row of a signal after a cycle: as the batch of its symbol leaves it, when the query chose the signal.\<close>

lemma cycle_row:
  fixes signals db env
  assumes "distinct (map sg_id signals)"
  defines "srs \<equiv> eligible_of signals db env"
  shows "dget (fst (run_evaluation_cycle signals db env)) i =
    (case find (\<lambda>sr. sr_id sr = i) srs of
       None \<Rightarrow> dget db i
     | Some sr \<Rightarrow> batch_row env (sg_symbol (fst sr)) (same_symbol (fst sr) srs) (fst sr) (dget db i))"
proof -
  let ?gs = "group_by_symbol srs"
  have dist: "distinct (map sr_id srs)" unfolding srs_def eligible_of_def using eligible_distinct [OF assms(1)] by simp
  have fresh: "fresh db srs" unfolding srs_def eligible_of_def fresh_def using eligible_sub [of _ "ev_db_now env" 5000 signals db] by simp
  have run: "dget (fst (run_evaluation_cycle signals db env)) i =
    (case find (\<lambda>g. list_ex (\<lambda>sr. sr_id sr = i) (snd g)) ?gs of
       None \<Rightarrow> dget db i
     | Some (symbol, srs) \<Rightarrow>
         (case find (\<lambda>sr. sr_id sr = i) srs of None \<Rightarrow> dget db i | Some sr \<Rightarrow> batch_row env symbol srs (fst sr) (snd sr)))"
    unfolding run_evaluation_cycle_def Let_def eligible_of_def [symmetric] srs_def [symmetric]
    using group_dwf [of srs] group_flat [OF dist] fresh by (intro fold_groups) (auto simp: dwf_def fresh_def)
  have g: "f = filter (\<lambda>sr. sg_symbol (fst sr) = symbol) srs" if "(symbol, f) \<in> set ?gs" for symbol f
    using that by (rule group_member)
  show ?thesis
  proof (cases "find (\<lambda>sr. sr_id sr = i) srs")
    case None
    then have "find (\<lambda>g. list_ex (\<lambda>sr. sr_id sr = i) (snd g)) ?gs = None"
      using g by (fastforce simp: find_None_iff list_ex_iff)
    then show ?thesis by (simp add: run None)
  next
    case (Some sr)
    then have sr: "sr \<in> set srs" "sr_id sr = i" by (auto simp: find_Some_iff)
    let ?f = "same_symbol (fst sr) srs"
    have uniq: "sr' = sr" if "sr' \<in> set srs" "sr_id sr' = i" for sr'
      using that sr dist by (auto simp: distinct_map dest: inj_onD)
    have "dget ?gs (sg_symbol (fst sr)) = Some ?f"
      using sr by (auto simp: group_lookup same_symbol_def Let_def filter_empty_conv)
    then have grp: "(sg_symbol (fst sr), ?f) \<in> set ?gs" using dwf_dget_iff [OF group_dwf] by blast
    have "find (\<lambda>g. list_ex (\<lambda>sr. sr_id sr = i) (snd g)) ?gs = Some (sg_symbol (fst sr), ?f)"
    proof (rule find_unique [OF grp])
      show "list_ex (\<lambda>sr. sr_id sr = i) (snd (sg_symbol (fst sr), ?f))" unfolding list_ex_iff snd_conv same_symbol_def set_filter using sr by blast
      show "y = (sg_symbol (fst sr), ?f)" if y: "y \<in> set ?gs" "list_ex (\<lambda>sr. sr_id sr = i) (snd y)" for y
      proof -
        obtain k f where yk: "y = (k, f)" by (metis surj_pair)
        then have f: "f = filter (\<lambda>sr. sg_symbol (fst sr) = k) srs" using g y(1) by simp
        obtain sr' where "sr' \<in> set srs" "sg_symbol (fst sr') = k" "sr_id sr' = i" using y(2) by (auto simp: yk f list_ex_iff)
        then have "k = sg_symbol (fst sr)" using uniq by blast
        then show ?thesis by (simp add: yk f same_symbol_def)
      qed
    qed
    moreover have "find (\<lambda>sr. sr_id sr = i) ?f = Some sr"
    proof (rule find_unique)
      show "sr \<in> set ?f" using sr(1) by (simp add: same_symbol_def)
      show "sr_id sr = i" by (rule sr(2))
      show "y = sr" if "y \<in> set ?f" "sr_id y = i" for y using that uniq by (simp add: same_symbol_def)
    qed
    moreover have "snd sr = dget db i" using fresh sr by (auto simp: fresh_def)
    ultimately show ?thesis by (simp add: run Some)
  qed
qed

section \<open>Marks and flags against the true history\<close>

definition window_cutoff :: "shadow_signal \<Rightarrow> string \<Rightarrow> int" where
  "window_cutoff sg label =
     (if label = ''eod'' then datetime_to_ms (get_eod_exclusive (sg_time sg))
      else datetime_to_ms (sg_time sg + minutes_us (dget_or HORIZONS label 0)))"

definition true_window :: "history \<Rightarrow> int \<Rightarrow> int \<Rightarrow> candle list" where
  "true_window H signal cutoff = map (\<lambda>t. the (H t)) (opens_in signal cutoff CANDLE_MS)"

definition mark_true :: "history \<Rightarrow> shadow_signal \<Rightarrow> string \<Rightarrow> mark \<Rightarrow> bool" where
  "mark_true H sg label m =
     (let signal = datetime_to_ms (sg_time sg); cutoff = window_cutoff sg label in
      mfe_mae_for_window (true_window H signal cutoff) (sg_price sg) signal (Some cutoff) = Some (fst m) \<and>
      list_all (\<lambda>t. H t \<noteq> None \<and> candle_is_closed t (datetime_to_ms (snd m)) CANDLE_MS) (opens_in signal cutoff CANDLE_MS))"

definition row_true :: "history \<Rightarrow> shadow_signal \<Rightarrow> outcome_row \<Rightarrow> bool" where
  "row_true H sg r \<longleftrightarrow>
     list_all (\<lambda>l. case dget (ow_marks r) l of None \<Rightarrow> True | Some m \<Rightarrow> mark_true H sg l m) LABELS \<and>
     ow_flags r = (if ow_final r
       then check_target_achievement (true_window H (datetime_to_ms (sg_time sg)) (window_cutoff sg ''eod'')) (sg_price sg) None
       else []) \<and>
     (if ow_final r then list_all (\<lambda>l. dhas (ow_marks r) l) LABELS else True)"

lemma label_list: "LABELS = [''15m'', ''30m'', ''60m'', ''120m'', ''240m'', ''eod'']"
  by (simp add: LABELS_def HORIZONS_def)

lemma window_labels: "map fst (horizon_windows now sg) = LABELS"
  by (simp add: horizon_windows_def label_list HORIZONS_def)

lemma window_cutoffs: "(label, cutoff, mature) \<in> set (horizon_windows now sg) \<Longrightarrow> cutoff = window_cutoff sg label"
  by (auto simp: horizon_windows_def HORIZONS_def window_cutoff_def dget_or_def)

lemma marks_of_spec:
  "(l, m) \<in> set (fst (marks_of now cs sg row ws)) \<Longrightarrow>
     \<exists>cutoff mature r. (l, cutoff, mature) \<in> set ws \<and> m = (r, now) \<and> \<not> marked row l \<and>
       covered (validate_candle_coverage cs (datetime_to_ms (sg_time sg)) cutoff (datetime_to_ms now) CANDLE_MS True) \<and>
       mfe_mae_for_window (filter (\<lambda>c. cl_time c > datetime_to_ms (sg_time sg)) cs) (sg_price sg) (datetime_to_ms (sg_time sg)) (Some cutoff) = Some r"
proof (induction ws)
  case (Cons w ws)
  obtain label cutoff mature where w: "w = (label, cutoff, mature)" by (metis surj_pair)
  show ?case
  proof (cases "window_mark now cs sg row w")
    case None
    then have "(l, m) \<in> set (fst (marks_of now cs sg row ws))" using Cons.prems by simp
    from Cons.IH [OF this] show ?thesis unfolding list.set insert_iff by blast
  next
    case (Some x)
    then obtain r where r: "x = Some r" using Cons.prems by (cases x) simp_all
    consider "(l, m) = (label, (r, now))" | "(l, m) \<in> set (fst (marks_of now cs sg row ws))"
      using Cons.prems Some unfolding w r by (auto simp: split_beta)
    then show ?thesis
    proof cases
      case 1
      then show ?thesis using Some unfolding window_mark_def w r Let_def
        by (intro exI [of _ cutoff] exI [of _ mature] exI [of _ r]) (simp split: if_splits)
    next
      case 2
      from Cons.IH [OF this] show ?thesis unfolding list.set insert_iff by blast
    qed
  qed
qed simp

lemma marks_of_labels: "set (map fst (fst (marks_of now cs sg row ws))) \<subseteq> set (map fst ws)"
proof
  fix l assume "l \<in> set (map fst (fst (marks_of now cs sg row ws)))"
  then obtain m where "(l, m) \<in> set (fst (marks_of now cs sg row ws))" by auto
  from marks_of_spec [OF this] show "l \<in> set (map fst ws)" by force
qed

lemma marks_of_dwf: "distinct (map fst ws) \<Longrightarrow> dwf (fst (marks_of now cs sg row ws))"
proof (induction ws)
  case (Cons w ws)
  have "fst w \<notin> set (map fst (fst (marks_of now cs sg row ws)))"
    using Cons.prems marks_of_labels [of now cs sg row ws] by auto
  moreover have "dwf (fst (marks_of now cs sg row ws))" using Cons by simp
  ultimately show ?case by (auto simp: dwf_def split_beta split: option.split)
qed simp

text \<open>A covered window of a truthful response is the true window.\<close>

lemma covered_window:
  assumes H: "history_ok H" "\<forall>c\<in>set cs. H (cl_time c) = Some c"
    and cov: "covered (validate_candle_coverage cs signal cutoff asof CANDLE_MS True)"
  shows "filter (in_window signal cutoff) cs = true_window H signal cutoff"
    "list_all (\<lambda>t. H t \<noteq> None \<and> candle_is_closed t asof CANDLE_MS) (opens_in signal cutoff CANDLE_MS)"
    "takeWhile (\<lambda>c. \<not> cl_time c \<ge> cutoff) (filter (\<lambda>c. cl_time c > signal) cs) = true_window H signal cutoff"
proof -
  let ?w = "filter (in_window signal cutoff) cs" and ?g = "opens_in signal cutoff CANDLE_MS"
  have grid: "cl_time c mod CANDLE_MS = 0" if "c \<in> set cs" for c
    using H that unfolding history_ok_def by blast
  have read: "map (\<lambda>t. the (H t)) (map cl_time ?w) = ?w" using H(2) by (auto simp: o_def intro!: map_idI)
  have "filter (in_window signal cutoff) cs = true_window H signal cutoff \<and>
    list_all (\<lambda>t. H t \<noteq> None \<and> candle_is_closed t asof CANDLE_MS) ?g \<and>
    takeWhile (\<lambda>c. \<not> cl_time c \<ge> cutoff) (filter (\<lambda>c. cl_time c > signal) cs) = true_window H signal cutoff"
  proof (cases "?g = []")
    case True
    then have "\<not> in_window signal cutoff c" if "c \<in> set cs" for c
      using grid [OF that] set_opens_in [OF candle_ms_pos, of signal cutoff] by (auto simp: in_window_def)
    then have out: "\<not> (cl_time c > signal \<and> \<not> cl_time c \<ge> cutoff)" if "c \<in> set cs" for c
      using that unfolding in_window_def not_le by blast
    then have "?w = []" unfolding filter_empty_conv in_window_def by (meson linorder_not_le)
    moreover have "takeWhile (\<lambda>c. \<not> cl_time c \<ge> cutoff) (filter (\<lambda>c. cl_time c > signal) xs) = []" if "set xs \<subseteq> set cs" for xs
      using that out by (induction xs) auto
    ultimately have "?w = []" "takeWhile (\<lambda>c. \<not> cl_time c \<ge> cutoff) (filter (\<lambda>c. cl_time c > signal) cs) = []"
      by blast+
    then show ?thesis by (simp add: True true_window_def)
  next
    case False
    then have p: "map cl_time ?w = ?g" "sorted_wrt (<) (map cl_time (filter (\<lambda>c. \<not> cl_time c \<le> signal) cs))"
      "list_all (\<lambda>t. candle_is_closed t asof CANDLE_MS) ?g"
      using cov validated_iff [OF candle_ms_pos] by blast+
    have w: "?w = true_window H signal cutoff" using read unfolding true_window_def p(1) [symmetric] by simp
    have "H t \<noteq> None" if "t \<in> set ?g" for t
    proof -
      have "t \<in> cl_time ` set ?w" using that unfolding p(1) [symmetric] by simp
      then show ?thesis using H(2) by auto
    qed
    moreover have prefix: "takeWhile (\<lambda>c. \<not> cl_time c \<ge> cutoff) xs = filter (\<lambda>c. \<not> cl_time c \<ge> cutoff) xs"
      if "sorted_wrt (<) (map cl_time xs)" for xs
      using that by (induction xs) (auto intro!: filter_False [symmetric])
    have "sorted_wrt (<) (map cl_time (filter (\<lambda>c. cl_time c > signal) cs))" using p(2) by (simp add: not_le)
    then have "takeWhile (\<lambda>c. \<not> cl_time c \<ge> cutoff) (filter (\<lambda>c. cl_time c > signal) cs) = ?w"
      by (subst prefix) (auto simp: in_window_def not_le intro!: filter_cong)
    ultimately show ?thesis using p(3) w by (simp add: list_all_iff)
  qed
  then show "filter (in_window signal cutoff) cs = true_window H signal cutoff"
    "list_all (\<lambda>t. H t \<noteq> None \<and> candle_is_closed t asof CANDLE_MS) ?g"
    "takeWhile (\<lambda>c. \<not> cl_time c \<ge> cutoff) (filter (\<lambda>c. cl_time c > signal) cs) = true_window H signal cutoff"
    by blast+
qed

lemma mfe_reads_window:
  "mfe_mae_for_window (filter (\<lambda>c. cl_time c > signal) cs) price signal (Some cutoff) =
   mfe_mae_for_window (filter (in_window signal cutoff) cs) price signal (Some cutoff)"
proof -
  have "filter (\<lambda>c. \<not> cl_time c \<le> signal \<and> \<not> cl_time c \<ge> cutoff) (filter (\<lambda>c. cl_time c > signal) cs) =
     filter (\<lambda>c. \<not> cl_time c \<le> signal \<and> \<not> cl_time c \<ge> cutoff) (filter (in_window signal cutoff) cs)"
    by (auto simp: in_window_def intro!: filter_cong)
  then show ?thesis by (simp only: mfe_mae_for_window_def option.case)
qed

lemma takeWhile_all: "takeWhile (\<lambda>x. True) xs = xs"
  by (induction xs) simp_all

lemma flags_of_truth:
  assumes "history_ok H" "\<forall>c\<in>set cs. H (cl_time c) = Some c" "flags_of now cs sg row marks = Some fs"
  shows "fs = check_target_achievement (true_window H (datetime_to_ms (sg_time sg)) (window_cutoff sg ''eod'')) (sg_price sg) None"
    "list_all (\<lambda>l. marked row l \<or> dhas marks l) LABELS" "\<not> row_final row"
proof -
  let ?signal = "datetime_to_ms (sg_time sg)" and ?cutoff = "datetime_to_ms (get_eod_exclusive (sg_time sg))"
  have f: "list_all (\<lambda>l. marked row l \<or> dhas marks l) LABELS" "\<not> row_final row"
    "covered (validate_candle_coverage cs ?signal ?cutoff (datetime_to_ms now) CANDLE_MS True)"
    "fs = check_target_achievement (filter (\<lambda>c. cl_time c > ?signal) cs) (sg_price sg) (Some ?cutoff)"
    using assms(3) unfolding flags_of_def Let_def by (simp_all split: if_splits)
  show "list_all (\<lambda>l. marked row l \<or> dhas marks l) LABELS" "\<not> row_final row" by (rule f)+
  have w: "window_cutoff sg ''eod'' = ?cutoff" by (simp add: window_cutoff_def)
  show "fs = check_target_achievement (true_window H ?signal (window_cutoff sg ''eod'')) (sg_price sg) None"
    unfolding w f(4) check_target_achievement_def option.case covered_window(3) [OF assms(1,2) f(3)]
    by (simp add: takeWhile_all)
qed

lemma target_loop_dwf: "dwf (snd s) \<Longrightarrow> dwf (snd (target_loop price s c pk))"
  by (auto simp: target_loop_def split: prod.split)

lemma adverse_loop_dwf: "dwf (snd s) \<Longrightarrow> dwf (snd (adverse_loop price ts s c pk))"
  by (auto simp: adverse_loop_def split: prod.split)

lemma target_loops_dwf: "dwf (snd s) \<Longrightarrow> dwf (snd (foldl (\<lambda>s. target_loop price s c) s pks))"
  by (induction pks arbitrary: s) (simp_all add: target_loop_dwf)

lemma adverse_loops_dwf: "dwf (snd s) \<Longrightarrow> dwf (snd (foldl (\<lambda>s. adverse_loop price ts s c) s pks))"
  by (induction pks arbitrary: s) (simp_all add: adverse_loop_dwf)

lemma flags_step_dwf: "dwf (snd (snd s)) \<Longrightarrow> dwf (snd (snd (flags_step price s c)))"
  using target_loops_dwf [of "(fst s, snd (snd s))" price c TARGETS]
  by (auto simp: flags_step_def split_beta intro!: adverse_loops_dwf)

lemma flags_dwf: "dwf (check_target_achievement cs price cutoff)"
proof -
  have "dwf (snd (snd (foldl (flags_step price) s xs)))" if "dwf (snd (snd s))" for s xs
    using that by (induction xs arbitrary: s) (simp_all add: flags_step_dwf)
  moreover have "dwf no_flags" by (simp add: no_flags_def TARGETS_def ADVERSE_def dwf_def)
  ultimately show ?thesis by (simp add: check_target_achievement_def)
qed

lemma dput_fresh: "k \<notin> set (map fst d) \<Longrightarrow> dput k v d = d @ [(k, v)]"
  by (induction d) auto

lemma merge_all_fresh: "dwf (d @ new) \<Longrightarrow> merge_all d new = d @ new"
proof (induction new arbitrary: d)
  case (Cons kv new)
  obtain k v where kv: "kv = (k, v)" by (metis surj_pair)
  have "k \<notin> set (map fst d)" using Cons.prems by (simp add: dwf_def kv)
  then have "dput k v d = d @ [(k, v)]" by (rule dput_fresh)
  then show ?case using Cons.IH [of "d @ [(k, v)]"] Cons.prems by (simp add: merge_all_def kv)
qed (simp add: merge_all_def)

section \<open>One evaluation\<close>

lemma update_of_cases:
  assumes "update_of now cs sg row = Some eu"
  shows "eu_marks eu = fst (marks_of now cs sg row (horizon_windows now sg))"
    "eu_flags eu = flags_of now cs sg row (eu_marks eu)" "dwf (eu_marks eu)"
    "\<And>l m. dget (eu_marks eu) l = Some m \<Longrightarrow> l \<in> set LABELS \<and> \<not> marked row l"
proof -
  let ?ws = "horizon_windows now sg"
  show m: "eu_marks eu = fst (marks_of now cs sg row ?ws)" "eu_flags eu = flags_of now cs sg row (eu_marks eu)"
    using assms by (auto simp: update_of_def split_beta split: if_splits)
  have "distinct LABELS" by (simp add: label_list)
  then show d: "dwf (eu_marks eu)" unfolding m(1) by (intro marks_of_dwf) (simp add: window_labels)
  show "l \<in> set LABELS \<and> \<not> marked row l" if "dget (eu_marks eu) l = Some v" for l v
  proof -
    have "(l, v) \<in> set (fst (marks_of now cs sg row ?ws))"
      using that dwf_dget_iff [OF d] unfolding m(1) by blast
    from marks_of_spec [OF this] show ?thesis
      unfolding window_labels [of now sg, symmetric] by force
  qed
qed

definition row_of :: "outcome_row option \<Rightarrow> outcome_row" where
  "row_of row = (case row of None \<Rightarrow> \<lparr>ow_marks = [], ow_flags = [], ow_final = False\<rparr> | Some r \<Rightarrow> r)"

lemma row_of_simps [simp]: "row_of (Some r) = r" "row_of None = \<lparr>ow_marks = [], ow_flags = [], ow_final = False\<rparr>"
  by (simp_all add: row_of_def)

lemma row_of_marked: "marked row l \<longleftrightarrow> dhas (ow_marks (row_of row)) l" "row_final row \<longleftrightarrow> ow_final (row_of row)"
  by (auto simp: marked_def row_final_def row_of_def dhas_def split: option.split)

lemma apply_update_fields:
  "ow_marks (apply_update eu row) = merge_all (ow_marks (row_of row)) (eu_marks eu)"
  "ow_flags (apply_update eu row) = (case eu_flags eu of None \<Rightarrow> ow_flags (row_of row) | Some fs \<Rightarrow> merge_all (ow_flags (row_of row)) fs)"
  "ow_final (apply_update eu row) = (case eu_flags eu of None \<Rightarrow> ow_final (row_of row) | Some fs \<Rightarrow> True)"
  unfolding apply_update_def row_of_def [symmetric] by (simp_all add: Let_def split: option.split)

lemma row_true_new: "row_true H sg (row_of None)"
  by (simp add: row_true_def list_all_iff)

lemma update_keeps_truth:
  assumes H: "history_ok H" "\<forall>c\<in>set cs. H (cl_time c) = Some c"
    and row: "row_true H sg (row_of row)" and eu: "update_of now cs sg row = Some eu"
  shows "row_true H sg (apply_update eu row)"
proof -
  note u = update_of_cases [OF eu]
  let ?signal = "datetime_to_ms (sg_time sg)"
  have get: "dget (ow_marks (apply_update eu row)) l = (case dget (eu_marks eu) l of None \<Rightarrow> dget (ow_marks (row_of row)) l | Some m \<Rightarrow> Some m)" for l
    by (simp add: apply_update_fields dget_merge_all [OF u(3)])
  have "mark_true H sg l m" if "dget (eu_marks eu) l = Some m" for l m
  proof -
    have "(l, m) \<in> set (fst (marks_of now cs sg row (horizon_windows now sg)))"
      using that dwf_dget_iff [OF u(3)] u(1) by metis
    from marks_of_spec [OF this] obtain cutoff mature r where w: "(l, cutoff, mature) \<in> set (horizon_windows now sg)"
      and m: "m = (r, now)" and cov: "covered (validate_candle_coverage cs ?signal cutoff (datetime_to_ms now) CANDLE_MS True)"
      and mfe: "mfe_mae_for_window (filter (\<lambda>c. cl_time c > ?signal) cs) (sg_price sg) ?signal (Some cutoff) = Some r" by blast
    have cutoff: "cutoff = window_cutoff sg l" using window_cutoffs [OF w] .
    show ?thesis
      using mfe covered_window(1,2) [OF H cov] unfolding mfe_reads_window mark_true_def Let_def m cutoff by simp
  qed
  then have marks: "list_all (\<lambda>l. case dget (ow_marks (apply_update eu row)) l of None \<Rightarrow> True | Some m \<Rightarrow> mark_true H sg l m) LABELS"
    using row by (auto simp: get row_true_def list_all_iff split: option.splits)
  show ?thesis
  proof (cases "eu_flags eu")
    case None
    then show ?thesis using row marks
      by (auto simp: row_true_def apply_update_fields list_all_iff dhas_def dget_merge_all [OF u(3)] split: option.split)
  next
    case (Some fs)
    then have fl: "flags_of now cs sg row (eu_marks eu) = Some fs" using u(2) by simp
    note f = flags_of_truth [OF H fl]
    have "ow_flags (row_of row) = []" using row f(3) by (simp add: row_true_def row_of_marked)
    then have "ow_flags (apply_update eu row) = fs"
      using merge_all_fresh [of "[]" fs] flags_dwf unfolding f(1) by (simp add: apply_update_fields Some f(1))
    moreover have "list_all (\<lambda>l. dhas (ow_marks (apply_update eu row)) l) LABELS"
      using f(2) by (auto simp: list_all_iff dhas_def row_of_marked get split: option.split)
    ultimately show ?thesis using marks by (simp add: row_true_def apply_update_fields Some f(1))
  qed
qed

lemma evolve_cases:
  obtains "evolve saves now cs sg row = row"
  | eu where "update_of now cs sg row = Some eu" "evolve saves now cs sg row = Some (apply_update eu row)"
proof (cases "update_of now cs sg row")
  case None
  then show ?thesis using that(1) by (simp add: evolve_def)
next
  case (Some eu)
  then show ?thesis using that by (cases "saves (sg_id sg)") (simp_all add: evolve_def)
qed

lemma evolve_keeps_truth:
  assumes "history_ok H" "\<forall>c\<in>set cs. H (cl_time c) = Some c" "row_true H sg (row_of row)"
  shows "row_true H sg (row_of (evolve saves now cs sg row))"
  by (rule evolve_cases [of saves now cs sg row]) (use assms update_keeps_truth [OF assms] in auto)

lemma evolve_final:
  assumes "row = Some r"
  shows "\<exists>r'. evolve saves now cs sg row = Some r' \<and> (\<forall>l m. dget (ow_marks r) l = Some m \<longrightarrow> dget (ow_marks r') l = Some m)"
proof (rule evolve_cases [of saves now cs sg row])
  assume "evolve saves now cs sg row = row"
  then show ?thesis using assms by blast
next
  fix eu assume eu: "update_of now cs sg row = Some eu" "evolve saves now cs sg row = Some (apply_update eu row)"
  note u = update_of_cases [OF eu(1)]
  have "dget (ow_marks (apply_update eu row)) l = Some m" if m: "dget (ow_marks r) l = Some m" for l m
  proof -
    have "marked row l" using m by (simp add: marked_def assms dhas_def)
    then have "dget (eu_marks eu) l = None" using u(4) by (cases "dget (eu_marks eu) l") auto
    then show ?thesis using m by (simp add: apply_update_fields dget_merge_all [OF u(3)] assms)
  qed
  then show ?thesis using eu(2) by blast
qed

section \<open>Outcomes over many cycles\<close>

text \<open>Candles that the client returns and that have closed are those of the history.\<close>

definition offers :: "candle_client \<Rightarrow> string \<Rightarrow> candle list \<Rightarrow> bool" where
  "offers client symbol raw \<longleftrightarrow>
     (\<exists>limit. kc_klines client symbol limit = Rows raw) \<or>
     (\<exists>f start end_ms size pages. kc_range client = Some f \<and> f symbol start end_ms size pages = Rows raw)"

definition tells_truth :: "(string \<Rightarrow> history) \<Rightarrow> eval_env \<Rightarrow> bool" where
  "tells_truth H env \<longleftrightarrow>
     (\<forall>symbol raw. offers (ev_client env) symbol raw \<longrightarrow>
        (\<forall>c\<in>set (filter (\<lambda>c. candle_is_closed (cl_time c) (datetime_to_ms (ev_now env)) CANDLE_MS) raw). H symbol (cl_time c) = Some c))"

lemma fetched_closed:
  assumes "c \<in> set (fst (fetch_candles_for_evaluation client symbol from_time to_time limit0))"
  shows "candle_is_closed (cl_time c) (datetime_to_ms to_time) CANDLE_MS \<and>
    (\<exists>raw. c \<in> set raw \<and> offers client symbol raw)"
proof -
  obtain asof start grid_end where plan: "fetch_plan from_time to_time = (asof, start, grid_end)" by (metis surj_pair)
  have asof: "asof = datetime_to_ms to_time" using plan_bounds_ms(1) [OF plan] .
  obtain raw where raw: "c \<in> set (closed_only start asof raw)" "offers client symbol raw"
    using assms unfolding fetch_candles_for_evaluation_def plan Let_def offers_def
    by (auto split: if_splits option.splits fetch_reply.splits) blast+
  then show ?thesis unfolding set_closed_only asof by blast
qed

lemma batch_truth:
  assumes "tells_truth H env" "c \<in> set (batch_candles env symbol srs)"
  shows "H symbol (cl_time c) = Some c"
proof -
  obtain raw where "c \<in> set raw" "offers (ev_client env) symbol raw" "candle_is_closed (cl_time c) (datetime_to_ms (ev_now env)) CANDLE_MS"
    using fetched_closed assms(2) unfolding batch_candles_def by blast
  then show ?thesis using assms(1) unfolding tells_truth_def set_filter by blast
qed

text \<open>Signals are only added, under new identifiers; cycles run in between.\<close>

inductive evaluator_reach :: "(string \<Rightarrow> history) \<Rightarrow> shadow_signal list \<Rightarrow> outcome_table \<Rightarrow> bool" for H where
  empty_tables: "evaluator_reach H [] []"
| new_signal: "evaluator_reach H signals db \<Longrightarrow> sg_id sg \<notin> set (map sg_id signals) \<Longrightarrow> evaluator_reach H (signals @ [sg]) db"
| cycle: "evaluator_reach H signals db \<Longrightarrow> tells_truth H env \<Longrightarrow> evaluator_reach H signals (fst (run_evaluation_cycle signals db env))"

lemma cycle_choice:
  assumes "distinct (map sg_id signals)" "find (\<lambda>sr. sr_id sr = i) (eligible_of signals db env) = Some sr"
  shows "fst sr \<in> set signals" "sg_id (fst sr) = i" "is_eligible (ev_db_now env) (dget db i) (fst sr)"
proof -
  have sr: "sr \<in> set (eligible_of signals db env)" "sr_id sr = i" using assms(2) by (auto simp: find_Some_iff)
  then show "fst sr \<in> set signals" "sg_id (fst sr) = i" "is_eligible (ev_db_now env) (dget db i) (fst sr)"
    using eligible_sub [of sr "ev_db_now env" 5000 signals db] by (auto simp: eligible_of_def split: if_splits)
qed

lemma reach_rows:
  assumes H: "\<forall>symbol. history_ok (H symbol)" and reach: "evaluator_reach H signals db"
  shows "distinct (map sg_id signals) \<and> (\<forall>i. dget db i \<noteq> None \<longrightarrow> i \<in> set (map sg_id signals)) \<and>
    (\<forall>sg\<in>set signals. row_true (H (sg_symbol sg)) sg (row_of (dget db (sg_id sg))))"
  using reach
proof (induction rule: evaluator_reach.induct)
  case (new_signal signals db sg)
  moreover have "dget db (sg_id sg) = None" using new_signal by blast
  ultimately show ?case using row_true_new [of "H (sg_symbol sg)" sg] by fastforce
next
  case (cycle signals db env)
  have d: "distinct (map sg_id signals)" using cycle.IH by blast
  note row = cycle_row [OF d, of db env]
  have same: "sg = sg'" if "sg \<in> set signals" "sg' \<in> set signals" "sg_id sg = sg_id sg'" for sg sg'
    using d that by (auto simp: distinct_map dest: inj_onD)
  have "i \<in> set (map sg_id signals)" if "dget (fst (run_evaluation_cycle signals db env)) i \<noteq> None" for i
  proof (cases "find (\<lambda>sr. sr_id sr = i) (eligible_of signals db env)")
    case None
    then show ?thesis using that cycle.IH by (simp add: row)
  next
    case (Some sr)
    then show ?thesis using cycle_choice [OF d Some] by force
  qed
  moreover have "row_true (H (sg_symbol sg)) sg (row_of (dget (fst (run_evaluation_cycle signals db env)) (sg_id sg)))"
    if sg: "sg \<in> set signals" for sg
  proof (cases "find (\<lambda>sr. sr_id sr = sg_id sg) (eligible_of signals db env)")
    case None
    then show ?thesis using sg cycle.IH by (simp add: row)
  next
    case (Some sr)
    have sr: "fst sr = sg" using cycle_choice [OF d Some] same sg by blast
    have "\<forall>c\<in>set (batch_candles env (sg_symbol sg) srs). H (sg_symbol sg) (cl_time c) = Some c" for srs
      using batch_truth [OF cycle.hyps(2)] by blast
    then show ?thesis using cycle.IH sg H
      by (simp add: row Some sr batch_row_def evolve_keeps_truth)
  qed
  ultimately show ?case using d by blast
qed simp

lemma row_persists:
  assumes d: "distinct (map sg_id signals)" and r: "dget db i = Some r"
  shows "\<exists>r'. dget (fst (run_evaluation_cycle signals db env)) i = Some r' \<and>
    (\<forall>l m. dget (ow_marks r) l = Some m \<longrightarrow> dget (ow_marks r') l = Some m) \<and> (if ow_final r then r' = r else True)"
proof (cases "find (\<lambda>sr. sr_id sr = i) (eligible_of signals db env)")
  case None
  then show ?thesis using r by (simp add: cycle_row [OF d])
next
  case (Some sr)
  have "\<not> ow_final r" using cycle_choice(3) [OF d Some] by (simp add: r is_eligible_def)
  then show ?thesis using evolve_final [of "Some r" r] by (simp add: cycle_row [OF d] Some r batch_row_def)
qed

section \<open>Milliseconds of a time\<close>

lemma ms_mono: "a \<le> b \<Longrightarrow> datetime_to_ms a \<le> datetime_to_ms b"
proof -
  assume "a \<le> b"
  then have "(of_int a / 1000000 :: rat) \<le> of_int b / 1000000" by (simp add: divide_right_mono)
  then have "fdiv (of_int a) 1000000 * 1000 \<le> fdiv (of_int b) 1000000 * 1000" unfolding fdiv_def by (simp add: fl_mono)
  then have "fmul (fdiv (of_int a) 1000000) 1000 \<le> fmul (fdiv (of_int b) 1000000) 1000" unfolding fmul_def by (rule fl_mono)
  then show ?thesis unfolding datetime_to_ms_def py_int_def
    by (auto intro: floor_mono ceiling_mono) (meson ceiling_le_zero floor_less_zero linorder_not_le order.trans zero_le_floor le_less_linear less_imp_le)+
qed

lemma fl_near: "1 / 2 ^ 100 \<le> \<bar>x\<bar> \<or> x = 0 \<Longrightarrow> \<bar>fl x - x\<bar> \<le> \<bar>x\<bar> / 2 ^ 53"
proof -
  assume x: "1 / 2 ^ 100 \<le> \<bar>x\<bar> \<or> x = 0"
  have "(2 :: rat) powi - 1022 \<le> 1 / 2 ^ 100" by (simp add: power_int_def field_simps)
  then show ?thesis using x fl_rel_normal [of x] by (auto simp: ueps_def)
qed

lemma ms_near: "\<bar>t\<bar> \<le> 2 ^ 59 \<Longrightarrow> \<bar>of_int (datetime_to_ms t) - of_int t / 1000\<bar> < (2 :: rat)"
proof -
  assume t: "\<bar>t\<bar> \<le> 2 ^ 59"
  let ?x = "of_int t / 1000000 :: rat" and ?y = "fdiv (of_int t) 1000000" and ?z = "fmul (fdiv (of_int t) 1000000) 1000"
  have "(of_int \<bar>t\<bar> :: rat) \<le> of_int (2 ^ 59)" using t by (simp only: of_int_le_iff)
  then have t': "\<bar>of_int t :: rat\<bar> \<le> 2 ^ 59" by simp
  have one: "(1 :: rat) \<le> \<bar>of_int t\<bar>" if "t \<noteq> 0"
    using that by (metis of_int_1_le_iff of_int_abs zero_less_abs_iff int_one_le_iff_zero_less)
  have x0: "1 / 2 ^ 100 \<le> \<bar>?x\<bar> \<or> ?x = 0" using one by (cases "t = 0") simp_all
  have y: "\<bar>?y - ?x\<bar> \<le> 2 ^ 59 / 1000000 / 2 ^ 53"
    using fl_near [OF x0] t' unfolding fdiv_def by simp
  have y0: "1 / 2 ^ 100 \<le> \<bar>?y * 1000\<bar> \<or> ?y * 1000 = 0"
  proof (cases "t = 0")
    case False
    have "\<bar>?y - ?x\<bar> \<le> \<bar>?x\<bar> / 2 ^ 53" using fl_near [OF x0] unfolding fdiv_def .
    also have "\<bar>?x\<bar> / 2 ^ 53 \<le> \<bar>?x\<bar> / 2" by (rule divide_left_mono) simp_all
    finally have "\<bar>?x\<bar> / 2 \<le> \<bar>?y\<bar>" by linarith
    moreover have "1 / 1000000 \<le> \<bar>?x\<bar>" using one [OF False] by simp
    ultimately have "1 / 2000000 \<le> \<bar>?y\<bar>" by linarith
    then show ?thesis by (simp add: abs_mult)
  qed (simp add: fdiv_def)
  have "\<bar>?x\<bar> \<le> 2 ^ 59 / 1000000" using t' by simp
  then have "\<bar>?y\<bar> \<le> 2 ^ 59 / 1000000 + 2 ^ 59 / 1000000 / 2 ^ 53" using y by linarith
  then have y1: "\<bar>?y * 1000\<bar> \<le> 2 ^ 59 / 1000 + 1" by (simp add: abs_mult)
  have z: "\<bar>?z - ?y * 1000\<bar> \<le> (2 ^ 59 / 1000 + 1) / 2 ^ 53"
    using order.trans [OF fl_near [OF y0] divide_right_mono [OF y1]] unfolding fmul_def by simp
  have "\<bar>of_int (py_int ?z) - ?z\<bar> < 1" unfolding py_int_def by (auto simp: abs_less_iff) linarith+
  moreover have "\<bar>?y - ?x\<bar> \<le> 1 / 15625" using y by simp
  moreover have "\<bar>?z - ?y * 1000\<bar> \<le> 1 / 10" by (rule order.trans [OF z]) simp
  moreover have "?x * 1000 = of_int t / 1000" by simp
  ultimately show ?thesis unfolding datetime_to_ms_def by linarith
qed

lemma ms_gap: "0 \<le> a \<Longrightarrow> a + minutes_us m \<le> b \<Longrightarrow> b \<le> 2 ^ 59 \<Longrightarrow> 0 \<le> m \<Longrightarrow> datetime_to_ms a + m * 60000 - 4 < datetime_to_ms b"
proof -
  assume a: "0 \<le> a" "a + minutes_us m \<le> b" "b \<le> 2 ^ 59" "0 \<le> m"
  let ?b = "a + minutes_us m"
  have "\<bar>a\<bar> \<le> 2 ^ 59" "\<bar>?b\<bar> \<le> 2 ^ 59" using a by (simp_all add: minutes_us_def)
  from ms_near [OF this(1)] ms_near [OF this(2)]
  have "(of_int (datetime_to_ms a) + of_int m * 60000 - 4 :: rat) < of_int (datetime_to_ms ?b)"
    unfolding minutes_us_def by (simp add: add_divide_distrib abs_less_iff)
  then have "(of_int (datetime_to_ms a + m * 60000 - 4) :: rat) < of_int (datetime_to_ms ?b)" by simp
  then show ?thesis using ms_mono [OF a(2)] by (simp only: of_int_less_iff)
qed

section \<open>A proven day\<close>

definition valid_bars :: "history \<Rightarrow> int list \<Rightarrow> bool" where
  "valid_bars H ts \<longleftrightarrow> list_all (\<lambda>t. case H t of None \<Rightarrow> False | Some c \<Rightarrow> \<not> invalid_ohlc c) ts"

text \<open>A sorted part of the history with every bar of the window covers the window.\<close>

lemma window_proven:
  assumes H: "history_ok H" "\<forall>c\<in>set cs. H (cl_time c) = Some c" "sorted_wrt (<) (map cl_time cs)"
    and full: "\<And>t. t \<in> set (opens_in signal cutoff CANDLE_MS) \<Longrightarrow> the (H t) \<in> set cs"
    and bars: "valid_bars H (opens_in signal cutoff CANDLE_MS)" and past: "cutoff + CANDLE_MS \<le> asof"
  shows "covered (validate_candle_coverage cs signal cutoff asof CANDLE_MS True)"
proof -
  let ?w = "filter (in_window signal cutoff) cs" and ?g = "opens_in signal cutoff CANDLE_MS"
  have sub: "sorted_wrt (<) (map cl_time (filter P cs))" for P
    using H(3) unfolding sorted_wrt_map by (rule sorted_wrt_filter)
  have bar: "H t = Some (the (H t)) \<and> cl_time (the (H t)) = t \<and> \<not> invalid_ohlc (the (H t))" if t: "t \<in> set ?g" for t
  proof -
    obtain c where c: "H t = Some c" "\<not> invalid_ohlc c"
      using bars [unfolded valid_bars_def list_all_iff, THEN bspec, OF t] by (cases "H t") simp_all
    then show ?thesis using H(1) unfolding history_ok_def by simp
  qed
  have win: "c \<in> set ?w \<longleftrightarrow> c \<in> set cs \<and> cl_time c \<in> set ?g" for c
  proof -
    have "cl_time c mod CANDLE_MS = 0" if "c \<in> set cs" using that H(1,2) unfolding history_ok_def by blast
    then show ?thesis unfolding set_opens_in [OF candle_ms_pos] in_window_def by auto
  qed
  have "set (map cl_time ?w) = set ?g"
  proof (intro equalityI subsetI)
    show "t \<in> set ?g" if "t \<in> set (map cl_time ?w)" for t using that win by auto
    show "t \<in> set (map cl_time ?w)" if t: "t \<in> set ?g" for t
    proof -
      have "the (H t) \<in> set ?w" unfolding win using full [OF t] bar [OF t] t by simp
      then show ?thesis using bar [OF t] by force
    qed
  qed
  then have "map cl_time ?w = ?g" by (rule sorted_lists_equal [OF sub opens_in_sorted [OF candle_ms_pos]])
  moreover have "list_all (\<lambda>t. candle_is_closed t asof CANDLE_MS) ?g"
    using past by (auto simp: list_all_iff set_opens_in [OF candle_ms_pos] candle_is_closed_def)
  moreover have "list_all (\<lambda>c. \<not> invalid_ohlc c) ?w"
    unfolding list_all_iff
  proof
    fix c assume c: "c \<in> set ?w"
    then have "the (H (cl_time c)) = c" "cl_time c \<in> set ?g" using win H(2) by auto
    then show "\<not> invalid_ohlc c" using bar by metis
  qed
  ultimately show ?thesis using validated_iff [OF candle_ms_pos] sub by blast
qed

lemma mfe_returns: "price \<noteq> 0 \<Longrightarrow> mfe_mae_for_window cs price signal cutoff \<noteq> None"
  by (simp add: mfe_mae_for_window_def Let_def)

lemma marks_of_complete:
  assumes "\<And>label cutoff mature. (label, cutoff, mature) \<in> set ws \<Longrightarrow> mature \<and>
      covered (validate_candle_coverage cs (datetime_to_ms (sg_time sg)) cutoff (datetime_to_ms now) CANDLE_MS True)"
    and price: "sg_price sg \<noteq> 0"
  shows "\<not> snd (marks_of now cs sg row ws) \<and>
    list_all (\<lambda>l. marked row l \<or> dhas (fst (marks_of now cs sg row ws)) l) (map fst ws)"
  using assms(1)
proof (induction ws)
  case (Cons w ws)
  obtain label cutoff mature where w: "w = (label, cutoff, mature)" by (metis surj_pair)
  have ih: "\<not> snd (marks_of now cs sg row ws)"
    "list_all (\<lambda>l. marked row l \<or> dhas (fst (marks_of now cs sg row ws)) l) (map fst ws)"
    using Cons.IH Cons.prems by (metis list.set_intros(2))+
  have c: "mature" "covered (validate_candle_coverage cs (datetime_to_ms (sg_time sg)) cutoff (datetime_to_ms now) CANDLE_MS True)"
    using Cons.prems [of label cutoff mature] by (simp_all add: w)
  show ?case
  proof (cases "marked row label")
    case True
    then show ?thesis using ih by (simp add: w window_mark_def)
  next
    case False
    obtain r where "mfe_mae_for_window (filter (\<lambda>c. cl_time c > datetime_to_ms (sg_time sg)) cs) (sg_price sg)
        (datetime_to_ms (sg_time sg)) (Some cutoff) = Some r" using mfe_returns [OF price] by blast
    then have "window_mark now cs sg row w = Some (Some r)" using False c by (simp add: w window_mark_def Let_def)
    then show ?thesis using ih by (auto simp: w split_beta list_all_iff dhas_def)
  qed
qed simp

lemma eod_after: "sg_time sg < get_eod_exclusive (sg_time sg)"
proof -
  have "\<not> (sg_time sg + DAY_US) div DAY_US * DAY_US \<le> sg_time sg"
    using int_div_ge [of DAY_US "sg_time sg div DAY_US + 1" "sg_time sg"] by (simp add: DAY_US_def)
  then show ?thesis by (simp add: get_eod_exclusive_def)
qed

lemma eligible_when_due:
  assumes "sg_time sg + minutes_us 240 \<le> now" "get_eod_exclusive (sg_time sg) \<le> now" "\<not> row_final row"
  shows "is_eligible now row sg"
proof (cases row)
  case None
  then show ?thesis using assms(1) by (simp add: is_eligible_def minutes_us_def)
next
  case (Some r)
  have early: "sg_time sg \<le> now - minutes_us m" if "(l, m) \<in> set HORIZONS" for l m
    using that assms(1) by (auto simp: HORIZONS_def minutes_us_def)
  have "get_eod_exclusive (sg_time sg) \<le> now div DAY_US * DAY_US"
    using assms(2) int_div_ge [of DAY_US "(sg_time sg + DAY_US) div DAY_US" now]
    by (simp add: get_eod_exclusive_def DAY_US_def)
  then have "sg_time sg < now div DAY_US * DAY_US" using eod_after [of sg] by linarith
  moreover have "list_all (\<lambda>l. dhas (ow_marks r) l) LABELS"
    if "dhas (ow_marks r) ''eod''" "\<not> list_ex (\<lambda>(l, m). \<not> dhas (ow_marks r) l \<and> sg_time sg \<le> now - minutes_us m) HORIZONS"
    using that early by (fastforce simp: LABELS_def list_all_iff list_ex_iff)
  ultimately show ?thesis using assms(3) by (auto simp: is_eligible_def Some row_final_def)
qed

lemma due_chosen:
  assumes "distinct (map sg_id signals)" "length signals \<le> 5000" "sg \<in> set signals" "ev_connected env"
    "is_eligible (ev_db_now env) (dget db (sg_id sg)) sg"
  shows "find (\<lambda>sr. sr_id sr = sg_id sg) (eligible_of signals db env) = Some (sg, dget db (sg_id sg))"
proof (rule find_unique)
  let ?f = "filter (\<lambda>sg. is_eligible (ev_db_now env) (dget db (sg_id sg)) sg) signals"
  have "length ?f \<le> 5000" using assms(2) length_filter_le [of _ signals] order.trans by blast
  then have "eligible_of signals db env = map (\<lambda>sg. (sg, dget db (sg_id sg))) (sort_key sg_time ?f)"
    using assms(4) by (simp add: eligible_of_def get_eligible_signals_def)
  then show "(sg, dget db (sg_id sg)) \<in> set (eligible_of signals db env)"
    using assms(3,5) by simp
  show "sr_id (sg, dget db (sg_id sg)) = sg_id sg" by simp
  show "sr = (sg, dget db (sg_id sg))" if sr: "sr \<in> set (eligible_of signals db env)" "sr_id sr = sg_id sg" for sr
  proof -
    have "fst sr \<in> set signals" "snd sr = dget db (sr_id sr)"
      using sr(1) eligible_sub [of sr "ev_db_now env" 5000 signals db] by (auto simp: eligible_of_def split: if_splits)
    moreover have "fst sr = sg" using calculation(1) assms(1,3) sr(2) by (auto simp: distinct_map dest: inj_onD)
    ultimately show ?thesis by (metis prod.collapse)
  qed
qed

lemma fold_min_le: "x \<in> set (a # xs) \<Longrightarrow> foldl min a xs \<le> (x :: int)"
  using foldl_min_gt [of x a xs] by (metis linorder_not_le order_less_irrefl set_ConsD)

lemma batch_oldest_le: "sr \<in> set srs \<Longrightarrow> batch_oldest srs \<le> sg_time (fst sr)"
  unfolding batch_oldest_def by (rule fold_min_le) simp

text \<open>Everything a day needs: the client answers as documented, and every bar of the six windows exists and is valid.\<close>

definition proven_source ::
  "history \<Rightarrow> (string \<Rightarrow> page_request) \<Rightarrow> (string \<Rightarrow> int \<Rightarrow> fetch_reply) \<Rightarrow> eval_env \<Rightarrow> shadow_signal \<Rightarrow> bool" where
  "proven_source H request klines env sg \<longleftrightarrow>
     history_ok H \<and> ev_client env = paged_client request klines \<and> answers_pages H (request (sg_symbol sg)) \<and>
     answers_latest H (datetime_to_ms (ev_now env)) (klines (sg_symbol sg)) \<and>
     list_all (\<lambda>l. valid_bars H (opens_in (datetime_to_ms (sg_time sg)) (window_cutoff sg l) CANDLE_MS)) LABELS"

text \<open>Both clocks have passed every window, the evaluator's one by a candle and the rounding.\<close>

definition day_over :: "eval_env \<Rightarrow> shadow_signal \<Rightarrow> bool" where
  "day_over env sg \<longleftrightarrow>
     0 \<le> sg_time sg \<and> ev_now env \<le> 2 ^ 59 \<and>
     sg_time sg + minutes_us 246 \<le> ev_now env \<and> get_eod_exclusive (sg_time sg) + minutes_us 6 \<le> ev_now env \<and>
     sg_time sg + minutes_us 240 \<le> ev_db_now env \<and> get_eod_exclusive (sg_time sg) \<le> ev_db_now env"

lemma windows_past:
  assumes d: "day_over env sg" and w: "(label, cutoff, mature) \<in> set (horizon_windows (ev_now env) sg)"
  shows "mature" "cutoff + CANDLE_MS \<le> datetime_to_ms (ev_now env)"
proof -
  obtain t where t: "cutoff = datetime_to_ms t" "mature \<longleftrightarrow> t \<le> ev_now env" "0 \<le> t" "t + minutes_us 6 \<le> ev_now env"
    using w d eod_after [of sg]
    by (auto simp: horizon_windows_def HORIZONS_def day_over_def minutes_us_def is_horizon_mature_def is_eod_mature_def)
  show mature using t(2,4) by (simp add: minutes_us_def)
  show "cutoff + CANDLE_MS \<le> datetime_to_ms (ev_now env)"
    using ms_gap [OF t(3,4)] d by (simp add: t(1) CANDLE_MS_def day_over_def)
qed

lemma proven_windows:
  assumes src: "proven_source H request klines env sg" and over: "day_over env sg" and sg: "sr \<in> set srs" "fst sr = sg"
  defines "cs \<equiv> batch_candles env (sg_symbol sg) srs"
  shows "cs \<noteq> []" "(label, cutoff, mature) \<in> set (horizon_windows (ev_now env) sg) \<Longrightarrow> mature \<and>
    covered (validate_candle_coverage cs (datetime_to_ms (sg_time sg)) cutoff (datetime_to_ms (ev_now env)) CANDLE_MS True)"
proof -
  let ?signal = "datetime_to_ms (sg_time sg)" and ?asof = "datetime_to_ms (ev_now env)"
  have H: "history_ok H" and client: "ev_client env = paged_client request klines" and pages: "answers_pages H (request (sg_symbol sg))"
    and latest: "answers_latest H ?asof (klines (sg_symbol sg))"
    and bars: "list_all (\<lambda>l. valid_bars H (opens_in ?signal (window_cutoff sg l) CANDLE_MS)) LABELS"
    using src unfolding proven_source_def by blast+
  have cs: "sorted_wrt (<) (map cl_time cs)" "\<forall>c\<in>set cs. H (cl_time c) = Some c"
    "\<And>c. H (cl_time c) = Some c \<Longrightarrow> datetime_to_ms (batch_oldest srs) < cl_time c \<Longrightarrow> candle_is_closed (cl_time c) ?asof CANDLE_MS \<Longrightarrow> c \<in> set cs"
    using fetch_complete [where H = H and request = request and klines = klines and symbol = "sg_symbol sg" and to_time = "ev_now env"
        and from_time = "batch_oldest srs", OF H pages latest]
    unfolding cs_def batch_candles_def client by blast+
  have oldest: "datetime_to_ms (batch_oldest srs) \<le> ?signal"
    using ms_mono [OF batch_oldest_le [OF sg(1)]] sg(2) by simp
  have bar: "H t = Some (the (H t)) \<and> cl_time (the (H t)) = t" if "valid_bars H ts" "t \<in> set ts" for ts t
    using that H by (cases "H t") (auto simp: valid_bars_def list_all_iff history_ok_def)
  have has: "the (H t) \<in> set cs"
    if w: "(label, cutoff, mature) \<in> set (horizon_windows (ev_now env) sg)" and t: "t \<in> set (opens_in ?signal cutoff CANDLE_MS)"
    for label cutoff mature t
  proof -
    have "label \<in> set LABELS" using w window_labels [of "ev_now env" sg] by (metis fst_conv image_eqI set_map)
    then have "valid_bars H (opens_in ?signal cutoff CANDLE_MS)"
      using bars window_cutoffs [OF w] by (auto simp: list_all_iff)
    note b = bar [OF this t]
    have "?signal < t" "candle_is_closed t ?asof CANDLE_MS"
      using t windows_past(2) [OF over w] by (auto simp: set_opens_in [OF candle_ms_pos] candle_is_closed_def)
    then show ?thesis using b oldest by (intro cs(3)) auto
  qed
  show "mature \<and> covered (validate_candle_coverage cs ?signal cutoff ?asof CANDLE_MS True)"
    if w: "(label, cutoff, mature) \<in> set (horizon_windows (ev_now env) sg)"
  proof -
    have "label \<in> set LABELS" using w window_labels [of "ev_now env" sg] by (metis fst_conv image_eqI set_map)
    then have "valid_bars H (opens_in ?signal cutoff CANDLE_MS)"
      using bars window_cutoffs [OF w] by (auto simp: list_all_iff)
    then show ?thesis using windows_past [OF over w] window_proven [OF H cs(2,1) has [OF w]] by blast
  qed
  obtain mature where w: "(''15m'', window_cutoff sg ''15m'', mature) \<in> set (horizon_windows (ev_now env) sg)"
    by (simp add: horizon_windows_def HORIZONS_def window_cutoff_def dget_or_def)
  have "?signal + CANDLE_MS < window_cutoff sg ''15m''"
    using ms_gap [of "sg_time sg" 15 "sg_time sg + minutes_us 15"] over
    by (simp add: window_cutoff_def HORIZONS_def dget_or_def day_over_def minutes_us_def CANDLE_MS_def)
  then have "opens_in ?signal (window_cutoff sg ''15m'') CANDLE_MS \<noteq> []"
    using first_open_bounds [OF candle_ms_pos, of ?signal] unfolding opens_in_Nil [OF candle_ms_pos] by linarith
  then obtain t where "t \<in> set (opens_in ?signal (window_cutoff sg ''15m'') CANDLE_MS)" by (meson list.set_sel(1))
  from has [OF w this] show "cs \<noteq> []" by auto
qed

lemma day_finalised:
  assumes "distinct (map sg_id signals)" "length signals \<le> 5000" "sg \<in> set signals"
    "ev_connected env" "ev_saves env (sg_id sg)" "sg_price sg \<noteq> 0"
    "proven_source H request klines env sg" "day_over env sg"
  shows "case dget (fst (run_evaluation_cycle signals db env)) (sg_id sg) of None \<Rightarrow> False | Some r \<Rightarrow> ow_final r"
proof (cases "row_final (dget db (sg_id sg))")
  case True
  then obtain r where r: "dget db (sg_id sg) = Some r" "ow_final r" by (auto simp: row_final_def split: option.splits)
  then show ?thesis using row_persists [OF assms(1) r(1)] by auto
next
  case False
  let ?row = "dget db (sg_id sg)" and ?srs = "same_symbol sg (eligible_of signals db env)"
  let ?cs = "batch_candles env (sg_symbol sg) ?srs" and ?ws = "horizon_windows (ev_now env) sg"
  have el: "is_eligible (ev_db_now env) ?row sg"
    using assms(8) False by (intro eligible_when_due) (simp_all add: day_over_def)
  note f = due_chosen [OF assms(1-4) el]
  have mem: "(sg, ?row) \<in> set ?srs" using f by (auto simp: find_Some_iff same_symbol_def)
  note p = proven_windows [OF assms(7,8) mem fst_conv]
  have w: "mature \<and> covered (validate_candle_coverage ?cs (datetime_to_ms (sg_time sg)) cutoff (datetime_to_ms (ev_now env)) CANDLE_MS True)"
    if "(label, cutoff, mature) \<in> set ?ws" for label cutoff mature
    using that by (rule p(2))
  have m: "\<not> snd (marks_of (ev_now env) ?cs sg ?row ?ws)"
    "list_all (\<lambda>l. marked ?row l \<or> dhas (fst (marks_of (ev_now env) ?cs sg ?row ?ws)) l) LABELS"
    using marks_of_complete [where ws = ?ws and row = ?row and cs = ?cs and now = "ev_now env", OF _ assms(6)] w
    unfolding window_labels by metis+
  have "(''eod'', datetime_to_ms (get_eod_exclusive (sg_time sg)), is_eod_mature (sg_time sg) (ev_now env)) \<in> set ?ws"
    by (simp add: horizon_windows_def)
  then have "flags_of (ev_now env) ?cs sg ?row (fst (marks_of (ev_now env) ?cs sg ?row ?ws)) \<noteq> None"
    using p(2) m(2) False by (simp add: flags_of_def Let_def)
  then obtain eu where "update_of (ev_now env) ?cs sg ?row = Some eu" "eu_flags eu \<noteq> None"
    using m(1) by (auto simp: update_of_def split_beta)
  then show ?thesis using p(1) assms(5)
    by (auto simp: cycle_row [OF assms(1)] f batch_row_def evolve_def apply_update_fields)
qed

section \<open>What the target flags say\<close>

lemma target_loops:
  assumes "distinct (map fst pks)" "foldl (\<lambda>s. target_loop price s c) (hit, flags) pks = (hit', flags')"
  shows "set hit' = set hit \<union> {p \<in> fst ` set pks. hits_target price p c} \<and>
    dget flags' k = (if list_ex (\<lambda>pk. snd pk = k \<and> fst pk \<notin> set hit \<and> hits_target price (fst pk) c) pks then Some True else dget flags k)"
  using assms
proof (induction pks arbitrary: hit flags)
  case (Cons pk pks)
  obtain hit1 flags1 where s: "target_loop price (hit, flags) c pk = (hit1, flags1)" by (metis surj_pair)
  have ih: "set hit' = set hit1 \<union> {p \<in> fst ` set pks. hits_target price p c}"
    "dget flags' k = (if list_ex (\<lambda>pk. snd pk = k \<and> fst pk \<notin> set hit1 \<and> hits_target price (fst pk) c) pks then Some True else dget flags1 k)"
    using Cons.IH [of hit1 flags1] Cons.prems by (simp_all add: s)
  have new: "fst pk' \<noteq> fst pk" if "pk' \<in> set pks" for pk'
    using Cons.prems(1) that by (cases pk') (auto simp: image_iff)
  show ?case
  proof (cases "fst pk \<notin> set hit \<and> hits_target price (fst pk) c")
    case True
    then have "hit1 = fst pk # hit" "flags1 = dput (snd pk) True flags" using s by (auto simp: target_loop_def)
    then show ?thesis using ih new True by (auto simp: list_ex_iff)
  next
    case False
    then have "hit1 = hit" "flags1 = flags" using s by (auto simp: target_loop_def split: if_splits)
    then show ?thesis using ih new False by (auto simp: list_ex_iff)
  qed
qed simp

lemma adverse_loops:
  assumes "distinct (map fst pks)" "foldl (\<lambda>s. adverse_loop price ts s c) (hit, flags) pks = (hit', flags')"
  shows "set hit' = set hit \<union> {p \<in> fst ` set pks. hits_adverse price p c} \<and>
    dget flags' k = (if ts = [] \<and> list_ex (\<lambda>pk. snd pk = k \<and> fst pk \<notin> set hit \<and> hits_adverse price (fst pk) c) pks then Some True else dget flags k)"
  using assms
proof (induction pks arbitrary: hit flags)
  case (Cons pk pks)
  obtain hit1 flags1 where s: "adverse_loop price ts (hit, flags) c pk = (hit1, flags1)" by (metis surj_pair)
  have ih: "set hit' = set hit1 \<union> {p \<in> fst ` set pks. hits_adverse price p c}"
    "dget flags' k = (if ts = [] \<and> list_ex (\<lambda>pk. snd pk = k \<and> fst pk \<notin> set hit1 \<and> hits_adverse price (fst pk) c) pks then Some True else dget flags1 k)"
    using Cons.IH [of hit1 flags1] Cons.prems by (simp_all add: s)
  have new: "fst pk' \<noteq> fst pk" if "pk' \<in> set pks" for pk'
    using Cons.prems(1) that by (cases pk') (auto simp: image_iff)
  show ?case
  proof (cases "fst pk \<notin> set hit \<and> hits_adverse price (fst pk) c")
    case True
    then have "hit1 = fst pk # hit" "flags1 = (if ts = [] then dput (snd pk) True flags else flags)" using s by (auto simp: adverse_loop_def)
    then show ?thesis using ih new True by (auto simp: list_ex_iff)
  next
    case False
    then have "hit1 = hit" "flags1 = flags" using s by (auto simp: adverse_loop_def split: if_splits)
    then show ?thesis using ih new False by (auto simp: list_ex_iff)
  qed
qed simp

definition any_target :: "rat \<Rightarrow> candle \<Rightarrow> bool" where
  "any_target price c \<longleftrightarrow> list_ex (\<lambda>(p, k). hits_target price p c) TARGETS"

text \<open>The adverse move came in a candle up to which, and in which, no target was hit.\<close>

definition adverse_first :: "rat \<Rightarrow> rat \<Rightarrow> candle list \<Rightarrow> bool" where
  "adverse_first price p cs \<longleftrightarrow> list_ex (\<lambda>i. hits_adverse price p (cs ! i) \<and> \<not> list_ex (any_target price) (take (Suc i) cs)) [0..<length cs]"

lemma adverse_first_snoc:
  "adverse_first price p (cs @ [c]) \<longleftrightarrow> adverse_first price p cs \<or> hits_adverse price p c \<and> \<not> list_ex (any_target price) (cs @ [c])"
proof -
  have "list_ex (\<lambda>i. hits_adverse price p ((cs @ [c]) ! i) \<and> \<not> list_ex (any_target price) (take (Suc i) (cs @ [c]))) [0..<length cs] \<longleftrightarrow>
    adverse_first price p cs"
    unfolding adverse_first_def list_ex_iff by (auto simp: nth_append)
  then show ?thesis unfolding adverse_first_def by simp
qed

lemma adverse_first_seen: "list_ex (hits_adverse price p) cs \<Longrightarrow> \<not> list_ex (any_target price) cs \<Longrightarrow> adverse_first price p cs"
proof (induction cs rule: rev_induct)
  case (snoc c cs)
  then show ?case by (auto simp: adverse_first_snoc)
qed simp

lemma keyed_ex:
  assumes "(p, k) \<in> set xs" "\<And>x. x \<in> set xs \<Longrightarrow> snd x = k \<Longrightarrow> fst x = p"
  shows "list_ex (\<lambda>x. snd x = k \<and> fst x \<notin> A \<and> P (fst x)) xs \<longleftrightarrow> p \<notin> A \<and> P p"
  unfolding list_ex_iff using assms by (metis fst_conv snd_conv)

lemma keyed_none: "(\<And>x. x \<in> set xs \<Longrightarrow> snd x \<noteq> k) \<Longrightarrow> \<not> list_ex (\<lambda>x. snd x = k \<and> fst x \<notin> A \<and> P (fst x)) xs"
  unfolding list_ex_iff by blast

lemma flags_after:
  assumes "foldl (flags_step price) ([], [], no_flags) cs = (ts, as, flags)"
  shows "set ts = {p \<in> fst ` set TARGETS. list_ex (hits_target price p) cs} \<and>
    set as = {p \<in> fst ` set ADVERSE. list_ex (hits_adverse price p) cs} \<and>
    (\<forall>(p, k)\<in>set TARGETS. dget flags k = Some (list_ex (hits_target price p) cs)) \<and>
    (\<forall>(p, k)\<in>set ADVERSE. dget flags k = Some (adverse_first price p cs))"
  using assms
proof (induction cs arbitrary: ts as flags rule: rev_induct)
  case Nil
  then show ?case by (auto simp: no_flags_def TARGETS_def ADVERSE_def adverse_first_def)
next
  case (snoc c cs)
  obtain ts0 as0 flags0 where s0: "foldl (flags_step price) ([], [], no_flags) cs = (ts0, as0, flags0)" by (metis surj_pair)
  note ih = snoc.IH [OF s0]
  obtain ts1 flags1 where t1: "foldl (\<lambda>s. target_loop price s c) (ts0, flags0) TARGETS = (ts1, flags1)" by (metis surj_pair)
  obtain as1 flags2 where a1: "foldl (\<lambda>s. adverse_loop price ts1 s c) (as0, flags1) ADVERSE = (as1, flags2)" by (metis surj_pair)
  have "flags_step price (ts0, as0, flags0) c = (ts1, as1, flags2)" unfolding flags_step_def prod.case t1 a1 ..
  then have "ts1 = ts" "as1 = as" "flags2 = flags" using snoc.prems s0 by simp_all
  then have t: "foldl (\<lambda>s. target_loop price s c) (ts0, flags0) TARGETS = (ts, flags1)"
    and a: "foldl (\<lambda>s. adverse_loop price ts s c) (as0, flags1) ADVERSE = (as, flags)" using t1 a1 by simp_all
  have d: "distinct (map fst TARGETS)" "distinct (map fst ADVERSE)" by (simp_all add: TARGETS_def ADVERSE_def)
  have keys: "fst x = p" if "(p, k) \<in> set TARGETS" "x \<in> set TARGETS" "snd x = k" for x p k
    using that by (auto simp: TARGETS_def)
  have keys': "fst x = p" if "(p, k) \<in> set ADVERSE" "x \<in> set ADVERSE" "snd x = k" for x p k
    using that by (auto simp: ADVERSE_def)
  have apart: "snd y \<noteq> k" if "(p, k) \<in> set TARGETS" "y \<in> set ADVERSE" for p k y
    using that by (auto simp: TARGETS_def ADVERSE_def)
  have apart': "snd y \<noteq> k" if "(p, k) \<in> set ADVERSE" "y \<in> set TARGETS" for p k y
    using that by (auto simp: TARGETS_def ADVERSE_def)
  note tl = target_loops [OF d(1) t] and al = adverse_loops [OF d(2) a]
  have old: "set ts0 = {p \<in> fst ` set TARGETS. list_ex (hits_target price p) cs}"
    "set as0 = {p \<in> fst ` set ADVERSE. list_ex (hits_adverse price p) cs}" using ih by blast+
  have ts: "set ts = {p \<in> fst ` set TARGETS. list_ex (hits_target price p) (cs @ [c])}"
    unfolding conjunct1 [OF tl] old by auto
  have as: "set as = {p \<in> fst ` set ADVERSE. list_ex (hits_adverse price p) (cs @ [c])}"
    unfolding conjunct1 [OF al] old by auto
  have none: "ts = [] \<longleftrightarrow> \<not> list_ex (any_target price) (cs @ [c])"
  proof -
    have "ts = [] \<longleftrightarrow> set ts = {}" by simp
    then show ?thesis unfolding ts by (auto simp: any_target_def list_ex_iff image_iff) blast+
  qed
  have "dget flags k = Some (list_ex (hits_target price p) (cs @ [c]))" if pk: "(p, k) \<in> set TARGETS" for p k
  proof -
    have none: "\<not> list_ex (\<lambda>x. snd x = k \<and> fst x \<notin> set as0 \<and> hits_adverse price (fst x) c) ADVERSE"
      by (rule keyed_none) (rule apart [OF pk])
    have hit: "list_ex (\<lambda>x. snd x = k \<and> fst x \<notin> set ts0 \<and> hits_target price (fst x) c) TARGETS \<longleftrightarrow> p \<notin> set ts0 \<and> hits_target price p c"
      by (rule keyed_ex [OF pk]) (rule keys [OF pk])
    have "dget flags k = dget flags1 k" by (simp add: conjunct2 [OF al] none)
    also have "\<dots> = (if p \<notin> set ts0 \<and> hits_target price p c then Some True else dget flags0 k)"
      by (simp only: conjunct2 [OF tl] hit)
    also have "dget flags0 k = Some (list_ex (hits_target price p) cs)" using ih pk by blast
    also have "p \<in> set ts0 \<longleftrightarrow> list_ex (hits_target price p) cs" unfolding old using pk by (metis (mono_tags, lifting) fst_conv image_eqI mem_Collect_eq)
    finally show ?thesis by simp
  qed
  moreover have "dget flags k = Some (adverse_first price p (cs @ [c]))" if pk: "(p, k) \<in> set ADVERSE" for p k
  proof -
    have no: "\<not> list_ex (\<lambda>x. snd x = k \<and> fst x \<notin> set ts0 \<and> hits_target price (fst x) c) TARGETS"
      by (rule keyed_none) (rule apart' [OF pk])
    have hit: "list_ex (\<lambda>x. snd x = k \<and> fst x \<notin> set as0 \<and> hits_adverse price (fst x) c) ADVERSE \<longleftrightarrow> p \<notin> set as0 \<and> hits_adverse price p c"
      by (rule keyed_ex [OF pk]) (rule keys' [OF pk])
    have "dget flags k = (if ts = [] \<and> p \<notin> set as0 \<and> hits_adverse price p c then Some True else dget flags1 k)"
      by (simp only: conjunct2 [OF al] hit conj_assoc)
    also have "dget flags1 k = dget flags0 k"
      by (simp add: conjunct2 [OF tl] no)
    also have "dget flags0 k = Some (adverse_first price p cs)" using ih pk by blast
    also have "p \<in> set as0 \<longleftrightarrow> list_ex (hits_adverse price p) cs" unfolding old using pk by (metis (mono_tags, lifting) fst_conv image_eqI mem_Collect_eq)
    finally show ?thesis using none adverse_first_seen [of price p cs] unfolding adverse_first_snoc by auto
  qed
  ultimately show ?case using ts as by blast
qed

definition keeps_row :: "int \<Rightarrow> outcome_row \<Rightarrow> outcome_table \<Rightarrow> bool" where
  "keeps_row i r db \<longleftrightarrow>
     (case dget db i of
        None \<Rightarrow> False
      | Some r' \<Rightarrow> (\<forall>l m. dget (ow_marks r) l = Some m \<longrightarrow> dget (ow_marks r') l = Some m) \<and> (if ow_final r then r' = r else True))"

interpretation outcome: latched_system "\<lambda>db env. fst (run_evaluation_cycle signals db env)"
  "\<lambda>db. distinct (map sg_id signals) \<and> keeps_row i r db" "\<lambda>_. False" for signals i r
proof
  fix db env
  assume l: "distinct (map sg_id signals) \<and> keeps_row i r db"
  then obtain r1 where r1: "dget db i = Some r1" "\<forall>l m. dget (ow_marks r) l = Some m \<longrightarrow> dget (ow_marks r1) l = Some m"
    "if ow_final r then r1 = r else True" by (auto simp: keeps_row_def split: option.splits)
  obtain r2 where r2: "dget (fst (run_evaluation_cycle signals db env)) i = Some r2"
    "\<forall>l m. dget (ow_marks r1) l = Some m \<longrightarrow> dget (ow_marks r2) l = Some m" "if ow_final r1 then r2 = r1 else True"
    using row_persists [OF _ r1(1)] l by blast
  show "distinct (map sg_id signals) \<and> keeps_row i r (fst (run_evaluation_cycle signals db env))"
    using l r1 r2 by (auto simp: keeps_row_def)
qed

section \<open>Properties\<close>

text \<open>C33. However often the evaluator runs, with whatever failures of the source, the connection or a save, and
  however signals arrive in between: as long as closed candles that the source returns are those of the
  history, every stored mark is the frozen formula over the complete window of the history, written when each
  of its bars had closed, the target flags are those of the whole day's window, a row is final only with all
  six marks, and a row that is not final has no flags.\<close>

theorem outcomes_tell_the_history:
  assumes "\<forall>symbol. history_ok (H symbol)" "evaluator_reach H signals db"
  shows "list_all (\<lambda>sg. case dget db (sg_id sg) of None \<Rightarrow> True | Some r \<Rightarrow> row_true (H (sg_symbol sg)) sg r) signals"
  using reach_rows [OF assms] by (auto simp: list_all_iff split: option.split)

text \<open>C34. However many cycles run, with whatever failures, a mark once written never changes, and a final row
  never changes at all.\<close>

theorem outcomes_are_final:
  assumes "distinct (map sg_id signals)" "dget db i = Some r"
  shows "case dget (foldl (\<lambda>db env. fst (run_evaluation_cycle signals db env)) db envs) i of
    None \<Rightarrow> False
  | Some r' \<Rightarrow> (\<forall>l m. dget (ow_marks r) l = Some m \<longrightarrow> dget (ow_marks r') l = Some m) \<and> (if ow_final r then r' = r else True)"
  using outcome.run_latched [of signals i r db envs] assms by (simp add: keeps_row_def)

text \<open>C35. One cycle finishes a day: for a signal among at most five thousand, whose windows have passed, when the
  client answers as documented, the history has every bar and the save succeeds, the row is final after one
  cycle, whatever had been stored before.\<close>

theorem proven_day_is_finalised:
  assumes "distinct (map sg_id signals)" "length signals \<le> 5000" "sg \<in> set signals"
    "ev_connected env" "ev_saves env (sg_id sg)" "sg_price sg \<noteq> 0"
    "proven_source H request klines env sg" "day_over env sg"
  shows "case dget (fst (run_evaluation_cycle signals db env)) (sg_id sg) of None \<Rightarrow> False | Some r \<Rightarrow> ow_final r"
  by (rule day_finalised [OF assms])

text \<open>The target flags: a target flag says that some candle reached the target; an adverse flag says that some
  candle made the adverse move while neither it nor an earlier candle had reached any target. A candle that
  does both counts as target first.\<close>

theorem target_flags_spec:
  "list_all (\<lambda>(p, k). dget (check_target_achievement cs price None) k = Some (list_ex (hits_target price p) cs)) TARGETS \<and>
   list_all (\<lambda>(p, k). dget (check_target_achievement cs price None) k = Some (adverse_first price p cs)) ADVERSE"
proof -
  obtain ts as flags where f: "foldl (flags_step price) ([], [], no_flags) cs = (ts, as, flags)" by (metis surj_pair)
  then have "check_target_achievement cs price None = flags" by (simp add: check_target_achievement_def takeWhile_all)
  then show ?thesis using flags_after [OF f] unfolding list_all_iff by blast
qed

section \<open>Concrete runs\<close>

definition demo_signal :: shadow_signal where
  "demo_signal = \<lparr>sg_id = 1, sg_symbol = ''BTCUSDT'', sg_time = 0, sg_price = 100\<rparr>"

definition demo_env :: "candle_client \<Rightarrow> eval_env" where
  "demo_env client = \<lparr>ev_now = DAY_US + minutes_us 6, ev_db_now = DAY_US + minutes_us 6, ev_connected = True, ev_client = client, ev_saves = (\<lambda>i. True)\<rparr>"

definition demo_klines :: "string \<Rightarrow> int \<Rightarrow> fetch_reply" where
  "demo_klines symbol = steady_klines (datetime_to_ms (DAY_US + minutes_us 6))"

definition demo_client :: candle_client where
  "demo_client = \<lparr>kc_klines = demo_klines, kc_range = None\<rparr>"

lemma steady_valid: "valid_bars steady_history (opens_in a b CANDLE_MS)"
  by (auto simp: valid_bars_def list_all_iff set_opens_in [OF candle_ms_pos] steady_history_def hour_bar_def invalid_ohlc_def)

lemma demo_eod: "get_eod_exclusive 0 = DAY_US"
  by (simp add: get_eod_exclusive_def DAY_US_def)

theorem proven_day_is_finalised_witness:
  "case dget (fst (run_evaluation_cycle [demo_signal] [] (demo_env (paged_client (\<lambda>s. steady_pages) demo_klines)))) 1 of
     None \<Rightarrow> False | Some r \<Rightarrow> ow_final r"
proof -
  let ?env = "demo_env (paged_client (\<lambda>s. steady_pages) demo_klines)"
  have src: "proven_source steady_history (\<lambda>s. steady_pages) demo_klines ?env demo_signal"
    unfolding proven_source_def using steady_laws by (simp add: demo_env_def demo_klines_def steady_valid list_all_iff)
  have over: "day_over ?env demo_signal"
    by (simp add: day_over_def demo_env_def demo_signal_def demo_eod) (simp add: DAY_US_def minutes_us_def)
  show ?thesis
    using proven_day_is_finalised [where signals = "[demo_signal]" and db = "[]", OF _ _ _ _ _ _ src over]
    by (simp add: demo_env_def demo_signal_def)
qed

theorem outcomes_tell_the_history_witness:
  "list_all (\<lambda>sg. case dget (fst (run_evaluation_cycle [demo_signal] [] (demo_env demo_client))) (sg_id sg) of
      None \<Rightarrow> True | Some r \<Rightarrow> row_true steady_history sg r) [demo_signal]"
proof -
  let ?H = "\<lambda>symbol. steady_history"
  have truth: "tells_truth ?H (demo_env demo_client)"
    by (auto simp: tells_truth_def offers_def demo_env_def demo_client_def demo_klines_def steady_klines_def
      steady_history_def set_opens_in [OF candle_ms_pos])
  have "evaluator_reach ?H ([] @ [demo_signal]) []"
    by (rule new_signal [OF empty_tables]) simp
  then have "evaluator_reach ?H [demo_signal] (fst (run_evaluation_cycle [demo_signal] [] (demo_env demo_client)))"
    using cycle [OF _ truth] by fastforce
  then show ?thesis using outcomes_tell_the_history [of ?H] steady_laws(1) by blast
qed

text \<open>A final row, and a row with one mark.\<close>

theorem outcomes_are_final_witness:
  "case foldl (\<lambda>db env. fst (run_evaluation_cycle [demo_signal] db env))
      [(1, \<lparr>ow_marks = [(''15m'', ((Some 1, Some 2), 900000000))], ow_flags = [], ow_final = False\<rparr>),
       (2, \<lparr>ow_marks = [], ow_flags = [(''t'', True)], ow_final = True\<rparr>)] [demo_env demo_client, demo_env demo_client] of db \<Rightarrow>
     (case dget db 1 of None \<Rightarrow> False | Some r \<Rightarrow> dget (ow_marks r) ''15m'' = Some ((Some 1, Some 2), 900000000)) \<and>
     dget db 2 = Some \<lparr>ow_marks = [], ow_flags = [(''t'', True)], ow_final = True\<rparr>"
proof -
  let ?r1 = "\<lparr>ow_marks = [(''15m'', ((Some 1, Some 2), 900000000))], ow_flags = [], ow_final = False\<rparr>"
  let ?r2 = "\<lparr>ow_marks = [], ow_flags = [(''t'', True)], ow_final = True\<rparr>"
  have "distinct (map sg_id [demo_signal])" by simp
  note f = outcomes_are_final [OF this, where db = "[(1, ?r1), (2, ?r2)]" and envs = "[demo_env demo_client, demo_env demo_client]"]
  have "dget [(1 :: int, ?r1), (2, ?r2)] 1 = Some ?r1" "dget [(1 :: int, ?r1), (2, ?r2)] 2 = Some ?r2" by simp_all
  from f [OF this(1)] f [OF this(2)] show ?thesis by (simp split: option.splits)
qed

end
