(* ===== verification/ShadowScan.thy ===== *)
theory ShadowScan
  imports ShadowEval MarketView "HOL-Library.Multiset"
begin

text \<open>
  The collection of shadow signals: the wick rejection scanner
  (\<^verbatim>\<open>src/app/scanners/atr_wick_rejection_short.py\<close>), the runner that scans the universe and stores raw
  candidates (\<^verbatim>\<open>src/app/shadow/runner.py\<close>, \<^verbatim>\<open>save_signal\<close> of \<^verbatim>\<open>src/app/shadow/repository.py\<close>), and the
  two processes, runner and evaluator, on the shared tables. The power function, the answers of the
  client, the order in which workers finish and the outcome of each database call are parameters; the
  table of signals has its identifier sequence and its unique key.
\<close>

section \<open>The wick rejection scanner\<close>

record wick_signal =
  ws_symbol :: string
  ws_time :: int
  ws_price :: rat
  ws_candle :: candle
  ws_atr :: rat
  ws_atr_pct :: rat
  ws_wick :: rat
  ws_wick_atr :: rat
  ws_wick_pct :: rat
  ws_location :: rat
  ws_rsi :: rat
  ws_stoch :: "rat option"
  ws_bb :: "rat \<times> rat \<times> rat"
  ws_bb_width :: rat
  ws_bb_distance :: rat
  ws_ema :: "rat \<times> rat \<times> rat"
  ws_slope :: rat
  ws_volume_ratio :: rat
  ws_strict :: bool
  ws_oos_a :: bool
  ws_oos_b :: bool
  ws_oos_c :: bool
  ws_oos_version :: "string option"

record wick_params =
  wk_atr :: rat
  wk_location :: rat
  wk_rsi :: rat
  wk_proximity :: rat
  wk_slope :: rat
  wk_volume :: rat

definition wick_default :: wick_params where
  "wick_default = \<lparr>wk_atr = 3 / 2, wk_location = milli 300, wk_rsi = 60, wk_proximity = milli 20,
     wk_slope = fl (- 1 / 10000), wk_volume = milli 1200\<rparr>"

definition upper_wick :: "candle \<Rightarrow> rat" where
  "upper_wick c = fsub (cl_high c) (max (cl_open c) (cl_close c))"

definition wick_close_location :: "candle \<Rightarrow> rat" where
  "wick_close_location c =
     (let r = fsub (cl_high c) (cl_low c) in if r \<le> 0 then 1 / 2 else fdiv (fsub (cl_close c) (cl_low c)) r)"

definition rsi_series :: "rat list \<Rightarrow> nat \<Rightarrow> rat list" where
  "rsi_series closes period =
     concat (map (\<lambda>i. case rsi_wilder (take i closes) period of Inl e \<Rightarrow> [] | Inr r \<Rightarrow> [r]) [period + 1..<length closes + 1])"

definition stoch_rsi :: "rat list \<Rightarrow> nat \<Rightarrow> nat \<Rightarrow> rat option" where
  "stoch_rsi closes rsi_period stoch_period =
     (if length closes < rsi_period + stoch_period + 1 then None
      else let values = rsi_series closes rsi_period in
      if length values < stoch_period then None
      else let recent = last_n stoch_period values; lo = py_min recent; hi = py_max recent in
        Some (if fsub hi lo \<le> 0 then 1 / 2 else fdiv (fsub (last values) lo) (fsub hi lo)))"

definition ratio_or_0 :: "rat \<Rightarrow> rat \<Rightarrow> rat" where
  "ratio_or_0 a b = (if b > 0 then fdiv a b else 0)"

definition OOS_FILTER_VERSION :: string where
  "OOS_FILTER_VERSION = ''ATR_WICK_FILTER_OOS_V1''"

text \<open>The left side is an exception that leaves the scanner.\<close>

definition detect_raw_candidate :: "power \<Rightarrow> scan_view \<Rightarrow> py_error + wick_signal option" where
  "detect_raw_candidate pw v =
     (let cs = mc_5m v; c = last cs; closes = map cl_close cs; n = length cs in
      if n < 50 then Inr None
      else case atr_wilder cs 14 of
        Inl e \<Rightarrow> Inr None
      | Inr atr \<Rightarrow>
        rbind (rsi_wilder closes 14) (\<lambda>rsi.
        let stoch = stoch_rsi closes 14 14 in
        rbind (bollinger_bands pw closes 20 2) (\<lambda>(upper, mid, lower).
        rbind (ema closes 20) (\<lambda>fast.
        rbind (ema closes 50) (\<lambda>medium.
        rbind (if n \<ge> 200 then ema closes 200 else Inr medium) (\<lambda>slow.
        rbind (if n \<ge> 55 then ema_slope closes 50 5 else Inr 0) (\<lambda>slope.
        rbind (if n > 20 then volume_ratio (map cl_volume cs) 20 else Inr 1) (\<lambda>vol.
          if upper_wick c \<le> 0 then Inr None
          else Inr (Some \<lparr>ws_symbol = mc_symbol v, ws_time = vw_at v, ws_price = cl_close c, ws_candle = c,
            ws_atr = atr, ws_atr_pct = ratio_or_0 atr (cl_close c), ws_wick = upper_wick c,
            ws_wick_atr = ratio_or_0 (upper_wick c) atr, ws_wick_pct = ratio_or_0 (upper_wick c) (cl_close c),
            ws_location = wick_close_location c, ws_rsi = rsi, ws_stoch = stoch, ws_bb = (upper, mid, lower),
            ws_bb_width = ratio_or_0 (fsub upper lower) mid, ws_bb_distance = ratio_or_0 (fsub upper (cl_close c)) (cl_close c),
            ws_ema = (fast, medium, slow), ws_slope = slope, ws_volume_ratio = vol, ws_strict = False,
            ws_oos_a = (case stoch of None \<Rightarrow> False | Some s \<Rightarrow> s \<ge> milli 800),
            ws_oos_b = (case stoch of None \<Rightarrow> False | Some s \<Rightarrow> s \<ge> milli 800 \<and> vol \<le> 1),
            ws_oos_c = (case stoch of None \<Rightarrow> False | Some s \<Rightarrow> s \<ge> milli 600 \<and> vol \<le> 1),
            ws_oos_version = Some OOS_FILTER_VERSION\<rparr>)))))))))"

definition passes_strict_filters :: "wick_params \<Rightarrow> wick_signal \<Rightarrow> bool" where
  "passes_strict_filters wk ws \<longleftrightarrow>
     ws_rsi ws \<ge> wk_rsi wk \<and> ws_bb_distance ws \<le> wk_proximity wk \<and> ws_slope ws \<le> wk_slope wk \<and> ws_volume_ratio ws \<ge> wk_volume wk"

text \<open>The strict signal is built without the flags of the out-of-sample filters.\<close>

definition detect_signal :: "power \<Rightarrow> wick_params \<Rightarrow> scan_view \<Rightarrow> py_error + wick_signal option" where
  "detect_signal pw wk v =
     rbind (detect_raw_candidate pw v) (\<lambda>raw.
       case raw of
         None \<Rightarrow> Inr None
       | Some ws \<Rightarrow>
           if \<not> passes_strict_filters wk ws then Inr None
           else Inr (Some (ws\<lparr>ws_strict := True, ws_oos_a := False, ws_oos_b := False, ws_oos_c := False, ws_oos_version := None\<rparr>)))"

definition wick_score :: "wick_params \<Rightarrow> wick_signal \<Rightarrow> rat" where
  "wick_score wk ws =
     (let s1 = fadd 0 (fmul (min (fdiv (ws_wick_atr ws) 2) 1) 30);
          s2 = fadd s1 (fmul (fsub 1 (ws_location ws)) 20);
          s3 = fadd s2 (max 0 (fmul (min (fdiv (fsub (ws_rsi ws) (wk_rsi wk)) 20) 1) 15));
          s4 = fadd s3 (fmul (max 0 (fdiv (fsub (wk_proximity wk) (ws_bb_distance ws)) (wk_proximity wk))) 15);
          s5 = fadd s4 (max 0 (fmul (min (fdiv (fsub (ws_volume_ratio ws) 1) 1) 1) 10));
          s6 = fadd s5 (fmul (min (fdiv \<bar>ws_slope ws\<bar> (milli 1)) 1) 10)
      in py_round (min s6 100) 2)"

definition wick_features :: "wick_signal \<Rightarrow> (string \<times> json) list" where
  "wick_features ws =
     (case ws_bb ws of (upper, mid, lower) \<Rightarrow> case ws_ema ws of (fast, medium, slow) \<Rightarrow>
      [(''atr'', JFloat (ws_atr ws)), (''atr_pct'', JFloat (ws_atr_pct ws)), (''wick_size'', JFloat (ws_wick ws)),
       (''wick_atr'', JFloat (ws_wick_atr ws)), (''upper_wick_pct'', JFloat (ws_wick_pct ws)),
       (''close_location'', JFloat (ws_location ws)), (''rsi'', JFloat (ws_rsi ws)),
       (''stoch_rsi'', case ws_stoch ws of None \<Rightarrow> JNull | Some s \<Rightarrow> JFloat s),
       (''bb_upper'', JFloat upper), (''bb_mid'', JFloat mid), (''bb_lower'', JFloat lower),
       (''bb_width'', JFloat (ws_bb_width ws)), (''distance_to_upper_bb'', JFloat (ws_bb_distance ws)),
       (''ema_fast'', JFloat fast), (''ema_medium'', JFloat medium), (''ema_slow'', JFloat slow),
       (''ema_slope'', JFloat (ws_slope ws)), (''volume_ratio'', JFloat (ws_volume_ratio ws)),
       (''strict_pass'', JBool (ws_strict ws)), (''signal_version'', JStr ''1.0.0'')])"

definition wick_scan :: "power \<Rightarrow> wick_params \<Rightarrow> stamp \<Rightarrow> scan_view \<Rightarrow> py_error + setup_candidate list" where
  "wick_scan pw wk st v =
     rbind (detect_signal pw wk v) (\<lambda>r.
       case r of
         None \<Rightarrow> Inr []
       | Some ws \<Rightarrow>
           Inr [(new_setup st v ''ATR_WICK_REJECTION_SHORT_V1'' ''1.0.0'' ''SHORT'')
             \<lparr>sc_setup_tf := ''5m'', sc_candle := cl_time (last (mc_5m v)), sc_price := ws_price ws,
              sc_low := fmul (ws_price ws) (milli 999), sc_high := fmul (ws_price ws) (milli 1001),
              sc_stop := fmul (cl_high (ws_candle ws)) (milli 1002),
              sc_t1 := Some (fsub (cl_close (ws_candle ws)) (fmul (ws_atr ws) 2)),
              sc_t2 := Some (fsub (cl_close (ws_candle ws)) (fmul (ws_atr ws) 3)),
              sc_score := wick_score wk ws, sc_features := wick_features ws\<rparr>])"

section \<open>The context of the runner\<close>

text \<open>An exception of the client: its class and its message.\<close>

type_synonym raised = "string \<times> string"

definition error_or :: "py_error + 'a \<Rightarrow> 'a \<Rightarrow> 'a" where
  "error_or r d = (case r of Inl e \<Rightarrow> d | Inr x \<Rightarrow> x)"

definition shadow_indicators :: "power \<Rightarrow> candle list \<Rightarrow> py_error + indicator_snapshot" where
  "shadow_indicators pw cs =
     (let closes = map cl_close cs; volumes = map cl_volume cs; n = length cs;
          atr = (if n > 14 then error_or (atr_wilder cs 14) 0 else 0);
          rsi = (if n > 14 then error_or (rsi_wilder closes 14) 50 else 50) in
      rbind (if n \<ge> 20 then ema closes 20 else Inr (last closes)) (\<lambda>ema20.
      rbind (if n \<ge> 50 then ema closes 50 else Inr (last closes)) (\<lambda>ema50.
      rbind (if n \<ge> 200 then ema closes 200 else Inr (last closes)) (\<lambda>ema200.
      rbind (if n \<ge> 20 then bollinger_bands pw closes 20 2 else Inr (0, 0, 0)) (\<lambda>(upper, mid, lower).
      rbind (if n \<ge> 55 then ema_slope closes 50 5 else Inr 0) (\<lambda>slope.
        Inr \<lparr>in_atr = atr, in_rsi = rsi, in_ema20 = ema20, in_ema50 = ema50, in_ema200 = ema200,
             in_bb_upper = upper, in_bb_lower = lower, in_bb_width = ratio_or_0 (fsub upper lower) mid,
             in_volume_sma = (if volumes = [] then 0 else fdiv (py_sum (last_n 20 volumes)) (of_nat (min 20 (length volumes)))),
             in_adx = 0, in_slope50 = slope\<rparr>))))))"

definition closed_bars :: "int \<Rightarrow> candle list \<Rightarrow> candle list" where
  "closed_bars now cs = filter (\<lambda>c. datetime_to_ms now - cl_time c \<ge> CANDLE_MS) cs"

definition build_shadow_context :: "power \<Rightarrow> int \<Rightarrow> string \<Rightarrow> candle list \<Rightarrow> py_error + scan_view option" where
  "build_shadow_context pw now symbol cs =
     (if length cs < 50 then Inr None
      else let cl = closed_bars now cs in
      if length cl < 50 then Inr None
      else rbind (shadow_indicators pw cl) (\<lambda>ind.
        Inr (Some \<lparr>mc_symbol = symbol, mc_5m = cl, mc_15m = [], mc_1h = [], mc_4h = [],
             mc_regime = Some (classify_market_regime ind (cl_close (last cl))),
             vw_ind = ind, vw_levels = no_levels, vw_at = from_millis (cl_time (last cl)), vw_fetch = None\<rparr>)))"

section \<open>One cycle of the runner\<close>

definition is_rate_limit_error :: "raised \<Rightarrow> bool" where
  "is_rate_limit_error e \<longleftrightarrow>
     fst e = ''BybitRateLimitError'' \<or> str_contains ''Too many visits'' (snd e) \<or> str_contains ''Exceeded the API Rate Limit'' (snd e)"

text \<open>The client's answer for a symbol and the clock of the worker.\<close>

type_synonym worker_env = "string \<Rightarrow> (raised + candle list) \<times> int"

datatype scan_end = Candidate "wick_signal option" | RateLimited | ScanFailed

definition scan_symbol :: "power \<Rightarrow> wick_params \<Rightarrow> int \<Rightarrow> string \<Rightarrow> candle list \<Rightarrow> py_error + wick_signal option" where
  "scan_symbol pw wk now symbol cs =
     rbind (build_shadow_context pw now symbol cs) (\<lambda>ctx.
       case ctx of
         None \<Rightarrow> Inr None
       | Some v \<Rightarrow> rbind (detect_raw_candidate pw v) (\<lambda>raw.
           Inr (map_option (\<lambda>ws. ws\<lparr>ws_strict := passes_strict_filters wk ws\<rparr>) raw)))"

definition scan_symbol_fail_closed :: "power \<Rightarrow> wick_params \<Rightarrow> worker_env \<Rightarrow> string \<Rightarrow> scan_end" where
  "scan_symbol_fail_closed pw wk we symbol =
     (case we symbol of
        (Inl e, now) \<Rightarrow> if is_rate_limit_error e then RateLimited else ScanFailed
      | (Inr cs, now) \<Rightarrow>
          (case scan_symbol pw wk now symbol cs of
             Inl e \<Rightarrow> ScanFailed
           | Inr r \<Rightarrow> Candidate r))"

text \<open>The table of signals: the next identifier of its sequence, and its rows.\<close>

record signal_table =
  si_next :: int
  si_rows :: "(int \<times> wick_signal) list"

datatype save_status = INSERTED int | DUPLICATE | SAVE_ERROR

text \<open>How the database took one insert; an attempt uses up an identifier, also when it is no row. \<open>DbLost\<close>: the
  commit took effect and its answer was lost.\<close>

datatype db_answer = DbOk | DbRaised | DbLost | DbUnconnected

definition same_key :: "wick_signal \<Rightarrow> wick_signal \<Rightarrow> bool" where
  "same_key a b \<longleftrightarrow> ws_symbol a = ws_symbol b \<and> ws_time a = ws_time b"

definition insert_signal :: "wick_signal \<Rightarrow> signal_table \<Rightarrow> signal_table \<times> save_status" where
  "insert_signal ws t =
     (if list_ex (\<lambda>(i, old). same_key ws old) (si_rows t) then (t\<lparr>si_next := si_next t + 1\<rparr>, DUPLICATE)
      else (\<lparr>si_next = si_next t + 1, si_rows = si_rows t @ [(si_next t, ws)]\<rparr>, INSERTED (si_next t)))"

definition save_signal :: "db_answer \<Rightarrow> wick_signal \<Rightarrow> signal_table \<Rightarrow> signal_table \<times> save_status" where
  "save_signal answer ws t =
     (case answer of
        DbUnconnected \<Rightarrow> (t, SAVE_ERROR)
      | DbRaised \<Rightarrow> (t\<lparr>si_next := si_next t + 1\<rparr>, SAVE_ERROR)
      | DbLost \<Rightarrow> (fst (insert_signal ws t), SAVE_ERROR)
      | DbOk \<Rightarrow> insert_signal ws t)"

record scan_summary =
  su_symbols :: nat
  su_raw :: nat
  su_strict :: nat
  su_inserted :: nat
  su_duplicates :: nat
  su_scan_errors :: nat
  su_db_errors :: nat
  su_drops :: nat

text \<open>The first phase: results in the order in which the workers finish.\<close>

definition collect_step :: "scan_summary \<times> wick_signal list \<Rightarrow> scan_end \<Rightarrow> scan_summary \<times> wick_signal list" where
  "collect_step s r =
     (case s of (su, cands) \<Rightarrow>
        case r of
          ScanFailed \<Rightarrow> (su\<lparr>su_scan_errors := su_scan_errors su + 1\<rparr>, cands)
        | RateLimited \<Rightarrow> (su\<lparr>su_drops := su_drops su + 1\<rparr>, cands)
        | Candidate None \<Rightarrow> (su, cands)
        | Candidate (Some ws) \<Rightarrow>
            (su\<lparr>su_raw := su_raw su + 1, su_strict := su_strict su + (if ws_strict ws then 1 else 0)\<rparr>, cands @ [ws]))"

text \<open>The second phase: one insert after the other. \<open>db\<close> answers for each candidate.\<close>

definition persist_step ::
  "(wick_signal \<Rightarrow> db_answer) \<Rightarrow> scan_summary \<times> signal_table \<Rightarrow> wick_signal \<Rightarrow> scan_summary \<times> signal_table" where
  "persist_step db s ws =
     (case s of (su, t) \<Rightarrow>
      case save_signal (db ws) ws t of (t', status) \<Rightarrow>
        (case status of
           INSERTED i \<Rightarrow> su\<lparr>su_inserted := su_inserted su + 1\<rparr>
         | DUPLICATE \<Rightarrow> su\<lparr>su_duplicates := su_duplicates su + 1\<rparr>
         | SAVE_ERROR \<Rightarrow> su\<lparr>su_db_errors := su_db_errors su + 1\<rparr>, t'))"

record scan_env =
  se_workers :: worker_env
  se_finished :: "string list \<Rightarrow> string list"
  se_db :: "wick_signal \<Rightarrow> db_answer"

definition empty_summary :: "nat \<Rightarrow> scan_summary" where
  "empty_summary n = \<lparr>su_symbols = n, su_raw = 0, su_strict = 0, su_inserted = 0, su_duplicates = 0,
     su_scan_errors = 0, su_db_errors = 0, su_drops = 0\<rparr>"

definition run_scan :: "power \<Rightarrow> wick_params \<Rightarrow> scan_env \<Rightarrow> string list \<Rightarrow> signal_table \<Rightarrow> scan_summary \<times> signal_table" where
  "run_scan pw wk se symbols t =
     (case foldl collect_step (empty_summary (length symbols), [])
        (map (scan_symbol_fail_closed pw wk (se_workers se)) (se_finished se symbols)) of (su, cands) \<Rightarrow>
        foldl (persist_step (se_db se)) (su, t) cands)"

text \<open>The universe: the answer for the dynamic mode (\<open>None\<close> when it raised), the configured symbols, the default.\<close>

definition default_universe :: "string list" where
  "default_universe =
     [''BTCUSDT'', ''ETHUSDT'', ''SOLUSDT'', ''DOGEUSDT'', ''XRPUSDT'', ''ADAUSDT'', ''AVAXUSDT'', ''DOTUSDT'', ''LINKUSDT'', ''MATICUSDT'',
      ''UNIUSDT'', ''ATOMUSDT'', ''NEARUSDT'', ''FTMUSDT'', ''ALGOUSDT'', ''HBARUSDT'', ''VETUSDT'', ''ICPUSDT'', ''FILUSDT'', ''AAVEUSDT'']"

definition get_universe_symbols :: "string \<Rightarrow> string list option \<Rightarrow> string list \<Rightarrow> string list" where
  "get_universe_symbols mode liquid configured =
     (case (if mode = ''dynamic'' then liquid else None) of
        Some symbols \<Rightarrow> if symbols \<noteq> [] then symbols else if configured \<noteq> [] then configured else default_universe
      | None \<Rightarrow> if configured \<noteq> [] then configured else default_universe)"

section \<open>A scan reads closed bars only\<close>

lemma closed_bars_idem [simp]: "closed_bars now (closed_bars now cs) = closed_bars now cs"
  by (simp add: closed_bars_def)

lemma context_closed: "build_shadow_context pw now symbol (closed_bars now cs) = build_shadow_context pw now symbol cs"
proof -
  have "length (closed_bars now cs) \<le> length cs" by (simp add: closed_bars_def)
  then show ?thesis by (simp add: build_shadow_context_def Let_def)
qed

lemma detect_raw_fields:
  assumes "detect_raw_candidate pw v = Inr (Some ws)"
  shows "ws_symbol ws = mc_symbol v" "ws_time ws = vw_at v" "ws_candle ws = last (mc_5m v)" "ws_price ws = cl_close (last (mc_5m v))"
    "0 < upper_wick (ws_candle ws)" "50 \<le> length (mc_5m v)"
proof -
  have "ws_symbol ws = mc_symbol v \<and> ws_time ws = vw_at v \<and> ws_candle ws = last (mc_5m v) \<and> ws_price ws = cl_close (last (mc_5m v)) \<and>
    0 < upper_wick (ws_candle ws) \<and> 50 \<le> length (mc_5m v)"
    using assms unfolding detect_raw_candidate_def Let_def
    by (auto simp: rbind_Inr_iff split: if_splits sum.splits prod.splits)
  then show "ws_symbol ws = mc_symbol v" "ws_time ws = vw_at v" "ws_candle ws = last (mc_5m v)" "ws_price ws = cl_close (last (mc_5m v))"
    "0 < upper_wick (ws_candle ws)" "50 \<le> length (mc_5m v)" by blast+
qed

lemma context_fields:
  assumes "build_shadow_context pw now symbol cs = Inr (Some v)"
  shows "mc_symbol v = symbol" "mc_5m v = closed_bars now cs" "vw_at v = from_millis (cl_time (last (closed_bars now cs)))"
    "50 \<le> length (closed_bars now cs)"
  using assms by (auto simp: build_shadow_context_def Let_def rbind_Inr_iff split: if_splits)

lemma scan_fields:
  assumes "scan_symbol pw wk now symbol cs = Inr (Some ws)"
  defines "c \<equiv> last (closed_bars now cs)"
  shows "ws_symbol ws = symbol" "ws_candle ws = c" "ws_price ws = cl_close c" "ws_time ws = from_millis (cl_time c)"
    "c \<in> set (closed_bars now cs)" "0 < upper_wick c" "ws_strict ws \<longleftrightarrow> passes_strict_filters wk ws"
proof -
  obtain v raw where v: "build_shadow_context pw now symbol cs = Inr (Some v)" "detect_raw_candidate pw v = Inr (Some raw)"
    "ws = raw\<lparr>ws_strict := passes_strict_filters wk raw\<rparr>"
    using assms(1) unfolding scan_symbol_def by (auto simp: rbind_Inr_iff split: option.splits)
  note f = context_fields [OF v(1)] and g = detect_raw_fields [OF v(2)]
  show "ws_symbol ws = symbol" "ws_candle ws = c" "ws_price ws = cl_close c" "ws_time ws = from_millis (cl_time c)" "0 < upper_wick c"
    using f g by (simp_all add: v(3) c_def)
  have "closed_bars now cs \<noteq> []" using f(4) by auto
  then show "c \<in> set (closed_bars now cs)" by (simp add: c_def)
  show "ws_strict ws \<longleftrightarrow> passes_strict_filters wk ws" by (simp add: v(3) passes_strict_filters_def)
qed

section \<open>The table of signals\<close>

definition table_ok :: "signal_table \<Rightarrow> bool" where
  "table_ok t \<longleftrightarrow>
     distinct (map fst (si_rows t)) \<and> (\<forall>r\<in>set (si_rows t). fst r < si_next t) \<and>
     distinct (map (\<lambda>r. (ws_symbol (snd r), ws_time (snd r))) (si_rows t))"

lemma save_keeps_table: "table_ok t \<Longrightarrow> table_ok (fst (save_signal answer ws t))"
  by (cases answer) (force simp: save_signal_def insert_signal_def table_ok_def same_key_def list_ex_iff split: prod.splits)+

lemma save_rows:
  "case snd (save_signal answer ws t) of
     INSERTED i \<Rightarrow> si_rows (fst (save_signal answer ws t)) = si_rows t @ [(i, ws)]
   | DUPLICATE \<Rightarrow> si_rows (fst (save_signal answer ws t)) = si_rows t
   | SAVE_ERROR \<Rightarrow> si_rows (fst (save_signal answer ws t)) \<in> {si_rows t, si_rows t @ [(si_next t, ws)]}"
  by (cases answer) (auto simp: save_signal_def insert_signal_def)

lemma persist_keeps_table: "table_ok (snd s) \<Longrightarrow> table_ok (snd (persist_step db s ws))"
  using save_keeps_table [of "snd s" "db ws" ws] by (auto simp: persist_step_def split_beta)

lemma persist_all_keeps_table: "table_ok (snd s) \<Longrightarrow> table_ok (snd (foldl (persist_step db) s cands))"
  by (induction cands arbitrary: s) (simp_all add: persist_keeps_table)

lemma scan_keeps_table: "table_ok t \<Longrightarrow> table_ok (snd (run_scan pw wk se symbols t))"
  using persist_all_keeps_table by (auto simp: run_scan_def split_beta)

interpretation collector: event_system "\<lambda>t (se, symbols). snd (run_scan pw wk se symbols t)" table_ok for pw wk
  by unfold_locales (auto simp: scan_keeps_table)

section \<open>Every scan and every candidate is counted\<close>

lemma collect_counts:
  assumes "foldl collect_step (su, cands) rs = (su', cands')"
  shows "su_raw su' = su_raw su + length (filter (\<lambda>r. case r of Candidate (Some ws) \<Rightarrow> True | _ \<Rightarrow> False) rs) \<and>
    su_drops su' = su_drops su + count_list rs RateLimited \<and> su_scan_errors su' = su_scan_errors su + count_list rs ScanFailed \<and>
    length cands' + su_raw su = length cands + su_raw su' \<and>
    su_symbols su' = su_symbols su \<and> su_inserted su' = su_inserted su \<and> su_duplicates su' = su_duplicates su \<and> su_db_errors su' = su_db_errors su"
  using assms
proof (induction rs arbitrary: su cands)
  case (Cons r rs)
  obtain su1 cands1 where s: "collect_step (su, cands) r = (su1, cands1)" by (metis surj_pair)
  have ih: "foldl collect_step (su1, cands1) rs = (su', cands')" using Cons.prems by (simp add: s)
  show ?case
  proof (cases r)
    case (Candidate x)
    then show ?thesis using Cons.IH [OF ih] s by (cases x) (auto simp: collect_step_def)
  next
    case RateLimited
    then show ?thesis using Cons.IH [OF ih] s by (auto simp: collect_step_def)
  next
    case ScanFailed
    then show ?thesis using Cons.IH [OF ih] s by (auto simp: collect_step_def)
  qed
qed simp

lemma collect_cands:
  "snd (foldl collect_step s rs) = snd s @ concat (map (\<lambda>r. case r of Candidate (Some ws) \<Rightarrow> [ws] | _ \<Rightarrow> []) rs)"
proof (induction rs arbitrary: s)
  case (Cons r rs)
  have "snd (collect_step s r) = snd s @ (case r of Candidate (Some ws) \<Rightarrow> [ws] | _ \<Rightarrow> [])"
    by (auto simp: collect_step_def split_beta split: scan_end.split option.split)
  then show ?case using Cons by simp
qed simp

lemma persist_counts:
  assumes "foldl (persist_step db) (su, t) cands = (su', t')"
  shows "su_inserted su' + su_duplicates su' + su_db_errors su' = su_inserted su + su_duplicates su + su_db_errors su + length cands \<and>
    length (si_rows t) + su_inserted su' \<le> length (si_rows t') + su_inserted su \<and>
    length (si_rows t') + su_inserted su + su_db_errors su \<le> length (si_rows t) + su_inserted su' + su_db_errors su' \<and>
    su_raw su' = su_raw su \<and> su_drops su' = su_drops su \<and> su_scan_errors su' = su_scan_errors su \<and> su_symbols su' = su_symbols su \<and>
    (\<exists>new. si_rows t' = si_rows t @ new \<and> (\<forall>r\<in>set new. snd r \<in> set cands))"
  using assms
proof (induction cands arbitrary: su t)
  case (Cons ws cands)
  obtain t1 status where v: "save_signal (db ws) ws t = (t1, status)" by (metis surj_pair)
  obtain su1 where s: "persist_step db (su, t) ws = (su1, t1)" by (simp add: persist_step_def v)
  have ih: "foldl (persist_step db) (su1, t1) cands = (su', t')" using Cons.prems by (simp add: s)
  have rows: "case status of INSERTED i \<Rightarrow> si_rows t1 = si_rows t @ [(i, ws)] | DUPLICATE \<Rightarrow> si_rows t1 = si_rows t
     | SAVE_ERROR \<Rightarrow> si_rows t1 \<in> {si_rows t, si_rows t @ [(si_next t, ws)]}"
    using save_rows [of "db ws" ws t] unfolding v fst_conv snd_conv .
  show ?case
  proof (cases status)
    case (INSERTED i)
    then have "su1 = su\<lparr>su_inserted := su_inserted su + 1\<rparr>" using s by (simp add: persist_step_def v)
    then show ?thesis using Cons.IH [OF ih] rows INSERTED by auto
  next
    case DUPLICATE
    then have "su1 = su\<lparr>su_duplicates := su_duplicates su + 1\<rparr>" using s by (simp add: persist_step_def v)
    then show ?thesis using Cons.IH [OF ih] rows DUPLICATE by auto
  next
    case SAVE_ERROR
    then have "su1 = su\<lparr>su_db_errors := su_db_errors su + 1\<rparr>" using s by (simp add: persist_step_def v)
    then show ?thesis using Cons.IH [OF ih] rows SAVE_ERROR by auto
  qed
qed auto

lemma ends_partition:
  "length (filter (\<lambda>r. case r of Candidate (Some ws) \<Rightarrow> True | _ \<Rightarrow> False) rs) + count_list rs RateLimited + count_list rs ScanFailed +
     count_list rs (Candidate None) = length rs"
proof (induction rs)
  case (Cons r rs)
  show ?case
  proof (cases r)
    case (Candidate x)
    then show ?thesis using Cons by (cases x) simp_all
  qed (use Cons in simp_all)
qed simp

lemma scan_counts:
  assumes fin: "mset (se_finished se symbols) = mset symbols" and r: "run_scan pw wk se symbols t = (su, t')"
  shows "su_symbols su = length symbols \<and>
    su_raw su + su_drops su + su_scan_errors su + count_list (map (scan_symbol_fail_closed pw wk (se_workers se)) symbols) (Candidate None) = su_symbols su \<and>
    su_inserted su + su_duplicates su + su_db_errors su = su_raw su \<and>
    length (si_rows t) + su_inserted su \<le> length (si_rows t') \<and> length (si_rows t') \<le> length (si_rows t) + su_inserted su + su_db_errors su"
proof -
  let ?f = "scan_symbol_fail_closed pw wk (se_workers se)" and ?fin = "se_finished se symbols"
  obtain su1 cands where c: "foldl collect_step (empty_summary (length symbols), []) (map ?f ?fin) = (su1, cands)" by (metis surj_pair)
  then have p: "foldl (persist_step (se_db se)) (su1, t) cands = (su, t')" using r by (simp add: run_scan_def)
  have "length ?fin = length symbols" using fin by (rule mset_eq_length)
  moreover have "mset (map ?f ?fin) = mset (map ?f symbols)" using fin by (metis mset_map)
  then have "count_list (map ?f ?fin) (Candidate None) = count_list (map ?f symbols) (Candidate None)"
    by (metis count_mset)
  moreover have "su_raw su1 = length (filter (\<lambda>r. case r of Candidate (Some ws) \<Rightarrow> True | _ \<Rightarrow> False) (map ?f ?fin))"
    "su_drops su1 = count_list (map ?f ?fin) RateLimited" "su_scan_errors su1 = count_list (map ?f ?fin) ScanFailed"
    "length cands = su_raw su1" "su_symbols su1 = length symbols" "su_inserted su1 = 0" "su_duplicates su1 = 0" "su_db_errors su1 = 0"
    using collect_counts [OF c] unfolding empty_summary_def by simp_all
  moreover have "su_inserted su + su_duplicates su + su_db_errors su = su_inserted su1 + su_duplicates su1 + su_db_errors su1 + length cands"
    "length (si_rows t) + su_inserted su \<le> length (si_rows t') + su_inserted su1"
    "length (si_rows t') + su_inserted su1 + su_db_errors su1 \<le> length (si_rows t) + su_inserted su + su_db_errors su"
    "su_raw su = su_raw su1" "su_drops su = su_drops su1" "su_scan_errors su = su_scan_errors su1" "su_symbols su = su_symbols su1"
    using persist_counts [OF p] by blast+
  moreover note ends_partition [of "map ?f ?fin"]
  ultimately show ?thesis unfolding length_map by linarith
qed

lemma scan_new_rows:
  assumes "run_scan pw wk se symbols t = (su, t')"
  shows "\<exists>new. si_rows t' = si_rows t @ new \<and>
    (\<forall>r\<in>set new. \<exists>symbol. scan_symbol_fail_closed pw wk (se_workers se) symbol = Candidate (Some (snd r)))"
proof -
  let ?rs = "map (scan_symbol_fail_closed pw wk (se_workers se)) (se_finished se symbols)"
  obtain su1 cands where c: "foldl collect_step (empty_summary (length symbols), []) ?rs = (su1, cands)" by (metis surj_pair)
  then have p: "foldl (persist_step (se_db se)) (su1, t) cands = (su, t')" using assms by (simp add: run_scan_def)
  have cands: "cands = concat (map (\<lambda>r. case r of Candidate (Some ws) \<Rightarrow> [ws] | _ \<Rightarrow> []) ?rs)"
    using collect_cands [of "(empty_summary (length symbols), [])" ?rs] by (simp add: c)
  have "\<exists>symbol. scan_symbol_fail_closed pw wk (se_workers se) symbol = Candidate (Some ws)" if "ws \<in> set cands" for ws
    using that unfolding cands by (auto split: scan_end.splits option.splits)
  then show ?thesis using persist_counts [OF p] by metis
qed

section \<open>Runner and evaluator on the shared tables\<close>

definition stored_signals :: "signal_table \<Rightarrow> shadow_signal list" where
  "stored_signals t = map (\<lambda>(i, ws). \<lparr>sg_id = i, sg_symbol = ws_symbol ws, sg_time = ws_time ws, sg_price = ws_price ws\<rparr>) (si_rows t)"

datatype shadow_event = ScanCycle scan_env "string list" | EvalCycle eval_env

definition shadow_world_step :: "power \<Rightarrow> wick_params \<Rightarrow> signal_table \<times> outcome_table \<Rightarrow> shadow_event \<Rightarrow> signal_table \<times> outcome_table" where
  "shadow_world_step pw wk s e =
     (case (s, e) of
        ((t, db), ScanCycle se symbols) \<Rightarrow> (snd (run_scan pw wk se symbols t), db)
      | ((t, db), EvalCycle env) \<Rightarrow> (t, fst (run_evaluation_cycle (stored_signals t) db env)))"

definition no_tables :: "signal_table \<times> outcome_table" where
  "no_tables = (\<lparr>si_next = 1, si_rows = []\<rparr>, [])"

text \<open>Closed candles in the answers to a runner or an evaluator are those of the history.\<close>

definition event_truthful :: "(string \<Rightarrow> history) \<Rightarrow> shadow_event \<Rightarrow> bool" where
  "event_truthful H e \<longleftrightarrow>
     (case e of
        ScanCycle se symbols \<Rightarrow>
          (\<forall>symbol. case se_workers se symbol of (Inl err, now) \<Rightarrow> True
             | (Inr cs, now) \<Rightarrow> \<forall>c\<in>set (closed_bars now cs). H symbol (cl_time c) = Some c)
      | EvalCycle env \<Rightarrow> tells_truth H env)"

text \<open>A stored signal is the close of a candle of the history, at the candle's open time.\<close>

definition row_from_history :: "(string \<Rightarrow> history) \<Rightarrow> wick_signal \<Rightarrow> bool" where
  "row_from_history H ws \<longleftrightarrow>
     (\<exists>c. H (ws_symbol ws) (cl_time c) = Some c \<and> ws_price ws = cl_close c \<and> ws_time ws = from_millis (cl_time c) \<and> 0 < upper_wick c)"

definition shadow_world_ok :: "(string \<Rightarrow> history) \<Rightarrow> signal_table \<times> outcome_table \<Rightarrow> bool" where
  "shadow_world_ok H s \<longleftrightarrow>
     (case s of (t, db) \<Rightarrow>
        table_ok t \<and> (\<forall>r\<in>set (si_rows t). row_from_history H (snd r)) \<and> evaluator_reach H (stored_signals t) db)"

lemma stored_ids: "map sg_id (stored_signals t) = map fst (si_rows t)"
  by (auto simp: stored_signals_def)

lemma reach_more:
  assumes "evaluator_reach H signals db" "distinct (map sg_id (signals @ new))"
  shows "evaluator_reach H (signals @ new) db"
  using assms(2)
proof (induction new rule: rev_induct)
  case (snoc sg new)
  then have "evaluator_reach H ((signals @ new) @ [sg]) db" by (intro new_signal) auto
  then show ?case by simp
qed (simp add: assms(1))

lemma scanned_from_history:
  assumes "event_truthful H (ScanCycle se symbols)" "scan_symbol_fail_closed pw wk (se_workers se) symbol = Candidate (Some ws)"
  shows "row_from_history H ws"
proof -
  obtain cs now where w: "se_workers se symbol = (Inr cs, now)" "scan_symbol pw wk now symbol cs = Inr (Some ws)"
    using assms(2) by (auto simp: scan_symbol_fail_closed_def split: sum.splits prod.splits if_splits)
  note f = scan_fields [OF w(2)]
  have "\<forall>c\<in>set (closed_bars now cs). H symbol (cl_time c) = Some c"
    using assms(1) unfolding event_truthful_def shadow_event.case by (rule allE [where x = symbol]) (simp add: w(1))
  then show ?thesis using f unfolding row_from_history_def by metis
qed

lemma world_step_ok:
  assumes ok: "shadow_world_ok H s" and e: "event_truthful H e"
  shows "shadow_world_ok H (shadow_world_step pw wk s e)"
proof -
  obtain t db where s: "s = (t, db)" by (metis surj_pair)
  have t: "table_ok t" "\<forall>r\<in>set (si_rows t). row_from_history H (snd r)" "evaluator_reach H (stored_signals t) db"
    using ok by (auto simp: shadow_world_ok_def s)
  show ?thesis
  proof (cases e)
    case (ScanCycle se symbols)
    obtain su t' where r: "run_scan pw wk se symbols t = (su, t')" by (metis surj_pair)
    obtain new where new: "si_rows t' = si_rows t @ new"
      "\<forall>r\<in>set new. \<exists>symbol. scan_symbol_fail_closed pw wk (se_workers se) symbol = Candidate (Some (snd r))"
      using scan_new_rows [OF r] by blast
    have ok': "table_ok t'" using scan_keeps_table [OF t(1), of pw wk se symbols] by (simp add: r)
    have eq: "stored_signals t' = stored_signals t @ map (\<lambda>(i, ws). \<lparr>sg_id = i, sg_symbol = ws_symbol ws, sg_time = ws_time ws, sg_price = ws_price ws\<rparr>) new"
      by (simp add: stored_signals_def new(1))
    have "distinct (map sg_id (stored_signals t'))" unfolding stored_ids using ok' by (simp add: table_ok_def)
    then have "evaluator_reach H (stored_signals t') db" unfolding eq by (rule reach_more [OF t(3)])
    moreover have "\<forall>r\<in>set new. row_from_history H (snd r)"
      using new(2) scanned_from_history e unfolding ScanCycle by blast
    ultimately show ?thesis using t ok' by (auto simp: shadow_world_ok_def shadow_world_step_def s ScanCycle r new(1))
  next
    case (EvalCycle env)
    have "tells_truth H env" using e by (simp add: EvalCycle event_truthful_def)
    then show ?thesis using t cycle [OF t(3)] by (simp add: shadow_world_ok_def shadow_world_step_def s EvalCycle)
  qed
qed

section \<open>Properties\<close>

lemma millis_exact: "t mod 1000 = 0 \<Longrightarrow> \<bar>t\<bar> \<le> 2 ^ 50 \<Longrightarrow> from_millis t = t * 1000 \<and> datetime_to_ms (t * 1000) = t"
proof -
  assume t: "t mod 1000 = 0" "\<bar>t\<bar> \<le> 2 ^ 50"
  then obtain s where s: "t = s * 1000" by (metis dvd_eq_mod_eq_0 dvdE mult.commute)
  have b: "\<bar>s\<bar> \<le> 2 ^ 43" using t(2) unfolding s by simp
  then have f: "fl (of_int s) = of_int s" by (intro fl_of_int) simp
  have "py_int (of_int s) = s" unfolding py_int_def by (simp only: floor_of_int ceiling_of_int if_cancel)
  moreover have "fdiv (of_int t) 1000 = of_int s" using f by (simp add: fdiv_def s)
  moreover have "round_even 0 = 0" using round_even_of_int [of 0] by simp
  ultimately have "from_millis t = s * 1000000" by (simp add: from_millis_def from_timestamp_def fmul_def)
  moreover have e: "t * 1000 = s * 1000000" by (simp add: s)
  ultimately show ?thesis using ms_of_seconds [OF b] unfolding e by (simp add: s)
qed

definition history_within :: "history \<Rightarrow> bool" where
  "history_within H \<longleftrightarrow> (\<forall>t. H t \<noteq> None \<longrightarrow> \<bar>t\<bar> \<le> 2 ^ 50)"

definition signal_sound :: "(string \<Rightarrow> history) \<Rightarrow> outcome_table \<Rightarrow> shadow_signal \<Rightarrow> bool" where
  "signal_sound H db sg \<longleftrightarrow>
     (case H (sg_symbol sg) (datetime_to_ms (sg_time sg)) of
        None \<Rightarrow> False
      | Some c \<Rightarrow> sg_price sg = cl_close c \<and> 0 < upper_wick c \<and>
          list_all (\<lambda>l. list_all (\<lambda>t. cl_time c + CANDLE_MS \<le> t) (opens_in (datetime_to_ms (sg_time sg)) (window_cutoff sg l) CANDLE_MS)) LABELS) \<and>
     (case dget db (sg_id sg) of None \<Rightarrow> True | Some r \<Rightarrow> row_true (H (sg_symbol sg)) sg r)"

lemma world_run_ok:
  assumes "list_all (event_truthful H) es"
  shows "shadow_world_ok H (foldl (shadow_world_step pw wk) no_tables es)"
proof -
  have "shadow_world_ok H no_tables"
    by (simp add: shadow_world_ok_def no_tables_def table_ok_def stored_signals_def empty_tables)
  then show ?thesis using assms
    by (intro foldl_invariant [where P = "shadow_world_ok H"]) (simp_all add: list_all_iff world_step_ok)
qed

lemma world_sound:
  assumes H: "\<forall>symbol. history_ok (H symbol) \<and> history_within (H symbol)" and ok: "shadow_world_ok H (t, db)" and sg: "sg \<in> set (stored_signals t)"
  shows "signal_sound H db sg"
proof -
  obtain i ws where r: "(i, ws) \<in> set (si_rows t)" "sg = \<lparr>sg_id = i, sg_symbol = ws_symbol ws, sg_time = ws_time ws, sg_price = ws_price ws\<rparr>"
    using sg by (auto simp: stored_signals_def)
  obtain c where c: "H (ws_symbol ws) (cl_time c) = Some c" "ws_price ws = cl_close c" "ws_time ws = from_millis (cl_time c)" "0 < upper_wick c"
    using ok r(1) unfolding shadow_world_ok_def prod.case row_from_history_def by fastforce
  have grid: "cl_time c mod CANDLE_MS = 0" "\<bar>cl_time c\<bar> \<le> 2 ^ 50"
    using H c(1) unfolding history_ok_def history_within_def by blast+
  then obtain k where k: "cl_time c = k * CANDLE_MS" by (metis dvd_eq_mod_eq_0 dvdE mult.commute)
  have "cl_time c mod 1000 = 0" unfolding k CANDLE_MS_def by simp
  then have ms: "datetime_to_ms (sg_time sg) = cl_time c" using millis_exact grid(2) by (simp add: r(2) c(3))
  have first: "first_open_after (cl_time c) CANDLE_MS = cl_time c + CANDLE_MS"
    by (simp add: first_open_after_def k CANDLE_MS_def distrib_right)
  have "cl_time c + CANDLE_MS \<le> t'" if "t' \<in> set (opens_in (cl_time c) cutoff CANDLE_MS)" for t' cutoff
    using that grid_point_after [OF candle_ms_pos, of t' "cl_time c"] by (auto simp: set_opens_in [OF candle_ms_pos] first)
  moreover have "\<forall>symbol. history_ok (H symbol)" "evaluator_reach H (stored_signals t) db" using H ok by (auto simp: shadow_world_ok_def)
  then have "row_true (H (sg_symbol sg)) sg (row_of (dget db (sg_id sg)))" using reach_rows sg by blast
  moreover have "H (sg_symbol sg) (cl_time c) = Some c" "sg_price sg = cl_close c" using c by (simp_all add: r(2))
  ultimately show ?thesis using c(4) unfolding signal_sound_def ms by (auto simp: list_all_iff split: option.split)
qed

text \<open>C40. The whole shadow experiment, runner and evaluator in any order, with any failures of the client, the
  workers and the database: as long as closed candles in answers are those of the history, every stored signal
  is the close of a closed candle with an upper wick at that candle's open time, every candle of its outcome
  windows opens when that candle had closed or later, and its stored outcome tells the history.\<close>

theorem shadow_experiment_sound:
  assumes "\<forall>symbol. history_ok (H symbol) \<and> history_within (H symbol)" "list_all (event_truthful H) es"
  shows "case foldl (shadow_world_step pw wk) no_tables es of (t, db) \<Rightarrow> list_all (signal_sound H db) (stored_signals t)"
proof -
  obtain t db where s: "foldl (shadow_world_step pw wk) no_tables es = (t, db)" by (metis surj_pair)
  have "shadow_world_ok H (t, db)" using world_run_ok [OF assms(2), of pw wk] by (simp add: s)
  then show ?thesis using world_sound [OF assms(1)] by (simp add: s list_all_iff)
qed

text \<open>Every symbol of a scan is accounted for: it was dropped by the rate limit, failed, had no candidate, or its
  candidate was inserted, was a duplicate or met a database error; the table grew by the inserted ones, and by
  those whose commit took effect but whose answer was lost, which are among the database errors.\<close>

theorem scan_is_accounted:
  assumes "mset (se_finished se symbols) = mset symbols"
  shows "case run_scan pw wk se symbols t of (su, t') \<Rightarrow>
    su_raw su + su_drops su + su_scan_errors su + count_list (map (scan_symbol_fail_closed pw wk (se_workers se)) symbols) (Candidate None) = length symbols \<and>
    su_inserted su + su_duplicates su + su_db_errors su = su_raw su \<and>
    length (si_rows t) + su_inserted su \<le> length (si_rows t') \<and> length (si_rows t') \<le> length (si_rows t) + su_inserted su + su_db_errors su"
proof -
  obtain su t' where r: "run_scan pw wk se symbols t = (su, t')" by (metis surj_pair)
  show ?thesis using scan_counts [OF assms r] by (simp add: r)
qed

text \<open>Over any scans the stored signals have distinct identifiers, and no two have the same symbol and candle.\<close>

theorem one_signal_per_candle:
  "table_ok (foldl (\<lambda>t (se, symbols). snd (run_scan pw wk se symbols t)) \<lparr>si_next = 1, si_rows = []\<rparr> scans)"
  by (rule collector.run_inv) (simp add: table_ok_def)

text \<open>The outcome of a scan depends on the closed candles only: the forming candle changes nothing.\<close>

theorem shadow_scan_no_lookahead:
  "scan_symbol pw wk now symbol (closed_bars now cs) = scan_symbol pw wk now symbol cs"
  by (simp add: scan_symbol_def context_closed)

definition refused_scan :: scan_env where
  "refused_scan = \<lparr>se_workers = (\<lambda>symbol. (Inl (''BybitRateLimitError'', ''denied''), 0)), se_finished = rev, se_db = (\<lambda>ws. DbOk)\<rparr>"

theorem scan_is_accounted_witness:
  "case run_scan (\<lambda>x y. x) wick_default refused_scan [''BTCUSDT'', ''ETHUSDT''] \<lparr>si_next = 1, si_rows = []\<rparr> of (su, t') \<Rightarrow>
    su_raw su + su_drops su + su_scan_errors su +
      count_list (map (scan_symbol_fail_closed (\<lambda>x y. x) wick_default (se_workers refused_scan)) [''BTCUSDT'', ''ETHUSDT'']) (Candidate None) =
      length [''BTCUSDT'', ''ETHUSDT''] \<and>
    su_inserted su + su_duplicates su + su_db_errors su = su_raw su \<and>
    length (si_rows \<lparr>si_next = 1, si_rows = []\<rparr>) + su_inserted su \<le> length (si_rows t') \<and>
    length (si_rows t') \<le> length (si_rows \<lparr>si_next = 1, si_rows = []\<rparr>) + su_inserted su + su_db_errors su"
  by (rule scan_is_accounted) (simp add: refused_scan_def)

definition steady_now :: history where
  "steady_now t = (if \<bar>t\<bar> \<le> 2 ^ 50 then steady_history t else None)"

definition steady_scan :: scan_env where
  "steady_scan = \<lparr>se_workers = (\<lambda>symbol. (Inr (map hour_bar (opens_in (- 1) 30000001 CANDLE_MS)), 31000000000)), se_finished = id, se_db = (\<lambda>ws. DbOk)\<rparr>"

lemma steady_now_laws: "history_ok steady_now" "history_within steady_now" "event_truthful (\<lambda>symbol. steady_now) (ScanCycle steady_scan [''BTCUSDT''])"
proof -
  show "history_ok steady_now" by (simp add: history_ok_def steady_now_def steady_history_def)
  show "history_within steady_now" by (simp add: history_within_def steady_now_def)
  show "event_truthful (\<lambda>symbol. steady_now) (ScanCycle steady_scan [''BTCUSDT''])"
    by (auto simp: event_truthful_def steady_scan_def closed_bars_def steady_now_def steady_history_def set_opens_in [OF candle_ms_pos])
qed

theorem shadow_experiment_sound_witness:
  "case foldl (shadow_world_step (\<lambda>x y. x) wick_default) no_tables [ScanCycle steady_scan [''BTCUSDT'']] of (t, db) \<Rightarrow>
     list_all (signal_sound (\<lambda>symbol. steady_now) db) (stored_signals t)"
  by (rule shadow_experiment_sound) (simp_all add: steady_now_laws)

section \<open>The scanner does not raise\<close>

lemma indicators_defined:
  assumes "50 \<le> length cs"
  shows "\<exists>r. rsi_wilder (map cl_close cs) 14 = Inr r" "\<exists>r. atr_wilder cs 14 = Inr r"
    "\<exists>r. bollinger_bands pw (map cl_close cs) 20 2 = Inr r"
    "p \<noteq> 0 \<Longrightarrow> p \<le> length cs \<Longrightarrow> \<exists>r. ema (map cl_close cs) p = Inr r"
    "55 \<le> length cs \<Longrightarrow> \<exists>r. ema_slope (map cl_close cs) 50 5 = Inr r"
    "\<exists>r. volume_ratio (map cl_volume cs) 20 = Inr r"
  using assms by (auto simp: rsi_wilder_def atr_wilder_def bollinger_bands_def ema_def ema_slope_def volume_ratio_def div_checked_def Let_def)

lemma rbind_Inl_iff: "rbind r f = Inl e \<longleftrightarrow> r = Inl e \<or> (\<exists>a. r = Inr a \<and> f a = Inl e)"
  by (cases r) auto

lemma detect_never_raises: "detect_raw_candidate pw v \<noteq> Inl e"
proof (cases "length (mc_5m v) < 50")
  case False
  then have n: "50 \<le> length (mc_5m v)" by simp
  note d = indicators_defined [OF n]
  obtain r1 where r1: "rsi_wilder (map cl_close (mc_5m v)) 14 = Inr r1" using d(1) by blast
  obtain r2 where r2: "atr_wilder (mc_5m v) 14 = Inr r2" using d(2) by blast
  obtain u m l where r3: "bollinger_bands pw (map cl_close (mc_5m v)) 20 2 = Inr (u, m, l)" using d(3) [of pw] by auto
  obtain r4 where r4: "ema (map cl_close (mc_5m v)) 20 = Inr r4" using d(4) [of 20] n by auto
  obtain r5 where r5: "ema (map cl_close (mc_5m v)) 50 = Inr r5" using d(4) [of 50] n by auto
  obtain r6 where r6: "(if length (mc_5m v) \<ge> 200 then ema (map cl_close (mc_5m v)) 200 else Inr r5) = Inr r6"
    using d(4) [of 200] by (cases "length (mc_5m v) \<ge> 200") auto
  obtain r7 where r7: "(if length (mc_5m v) \<ge> 55 then ema_slope (map cl_close (mc_5m v)) 50 5 else Inr 0) = Inr r7"
    using d(5) by (cases "length (mc_5m v) \<ge> 55") auto
  obtain r8 where r8: "(if length (mc_5m v) > 20 then volume_ratio (map cl_volume (mc_5m v)) 20 else Inr 1) = Inr r8" using d(6) n by auto
  show ?thesis unfolding detect_raw_candidate_def Let_def r1 r2 r3 r4 r5 sum.case rbind.simps prod.case r6 r7 r8 using False by simp
qed (simp add: detect_raw_candidate_def)

lemma context_never_raises: "build_shadow_context pw now symbol cs \<noteq> Inl e"
proof (cases "length cs < 50 \<or> length (closed_bars now cs) < 50")
  case False
  let ?c = "closed_bars now cs"
  have n: "50 \<le> length ?c" using False by simp
  note d = indicators_defined [OF n]
  obtain u m l where r3: "bollinger_bands pw (map cl_close ?c) 20 2 = Inr (u, m, l)" using d(3) [of pw] by auto
  obtain r4 where r4: "ema (map cl_close ?c) 20 = Inr r4" using d(4) [of 20] n by auto
  obtain r5 where r5: "ema (map cl_close ?c) 50 = Inr r5" using d(4) [of 50] n by auto
  obtain r6 where r6: "(if length ?c \<ge> 200 then ema (map cl_close ?c) 200 else Inr (last (map cl_close ?c))) = Inr r6"
    using d(4) [of 200] by (cases "length ?c \<ge> 200") auto
  obtain r7 where r7: "(if length ?c \<ge> 55 then ema_slope (map cl_close ?c) 50 5 else Inr 0) = Inr r7"
    using d(5) by (cases "length ?c \<ge> 55") auto
  have "shadow_indicators pw ?c \<noteq> Inl e" for e
    unfolding shadow_indicators_def Let_def r6 r7 using n by (simp add: r3 r4 r5)
  then show ?thesis using False by (cases "shadow_indicators pw ?c") (auto simp: build_shadow_context_def Let_def)
qed (auto simp: build_shadow_context_def Let_def)

text \<open>A scan of a symbol fails exactly when the client raised something that is no rate-limit error; the
  indicators and the detection never raise, whatever the candles.\<close>

theorem scan_fails_iff_client:
  "scan_symbol_fail_closed pw wk we symbol = ScanFailed \<longleftrightarrow>
     (case we symbol of (Inl e, now) \<Rightarrow> \<not> is_rate_limit_error e | (Inr cs, now) \<Rightarrow> False)"
proof -
  have "scan_symbol pw wk now symbol cs \<noteq> Inl e" for now cs e
    using context_never_raises [of pw now symbol cs] detect_never_raises [of pw]
    by (auto simp: scan_symbol_def rbind_Inl_iff split: option.splits)
  then show ?thesis by (auto simp: scan_symbol_fail_closed_def split: sum.splits)
qed

end
