(* ===== verification/Spec2Isabelle.thy ===== *)
theory Spec2Isabelle
  imports OrderSubmit ScanRunner LimiterCalls Outcome SimExchange CandleBackfill Trend ShadowScan
begin

text \<open>
  A verification development of the trading bot: the client of the exchange with its retry budget,
  order guard and cross-process rate limiter; the scan pipeline with its scanners; the paper trading
  process; the synchronisation and judgement of candles; the shadow experiment. The
  definitions are translated from the Python files under \<^verbatim>\<open>src/\<close> and keep their names.

  \<^bold>\<open>How the program is put together.\<close> Every request to the exchange passes \<^verbatim>\<open>BybitClient\<close>: a GET is one
  budgeted logical call (deadline, attempts, retry storm guard, rate limiter), an order POST leaves
  only behind a durable reservation in the order journal. The limiter is one JSON document on disk that
  all processes share under a file lock. The scanner process reads candles, builds a context per symbol,
  asks the scanners for setups and passes them through deduplication, aggregation and the gates. The
  paper process takes ready setups, opens simulated positions and monitors them in a second thread that
  shares the engine. Offline parts fetch the candle history, judge setups and shadow signals by the
  candles that followed, and write outcomes.

  \<^bold>\<open>Shared material.\<close> \<open>Prelude\<close> holds dictionaries (association lists with the insertion order of
  Python), results with exceptions and the generic interfaces as locales: a keyed store, a system of
  events with an invariant, a quantity that no event decreases, a condition that only certain events
  release. The component theories interpret them on their own step functions. \<open>Float64\<close> and \<open>PySum\<close>
  are binary64 on finite values: a double is the rational it denotes and every operation rounds by
  \<open>fl\<close> (nearest, ties to even); \<^verbatim>\<open>sum\<close> is the compensated summation of CPython 3.12. \<open>Decimal\<close> and
  \<open>Json\<close> are integer texts and parsed JSON values.

  \<^bold>\<open>Exchange client\<close> (\<^verbatim>\<open>app/exchange\<close>). \<open>RetryPolicy\<close>: classification of an attempt, priorities and
  backoff. \<open>RetryGuards\<close>: storm window and rate-limit breaker. \<open>BudgetedGet\<close>: the loop of one GET with
  its fuel, the attempt budget, under which it is total. \<open>JournalDoc\<close>, \<open>OrderGuard\<close>, \<open>OrderWorld\<close>:
  the journal document with its canonical text, the guard of one process, and the guards of several
  processes on one disk as a fold over events with crashes. \<open>OrderSubmit\<close>: submission, reconciliation,
  and their composition with the guard; its central result is that no order is posted twice.

  \<^bold>\<open>Rate limiter\<close> (\<^verbatim>\<open>app/exchange/global_rate_limiter.py\<close>). \<open>LimiterState\<close> is the document and its
  refresh, \<open>LimiterGrant\<close> the operations, \<open>LimiterSteps\<close> an abstract step relation that every operation
  refines, \<open>LimiterWorld\<close> runs of transactions by any processes, \<open>LimiterBudget\<close> the tokens for the
  default rate 8 and burst 12 in double precision, \<open>LimiterCalls\<close> what a caller may rely on, with the
  bound on the transactions of one \<open>acquire\<close> and the closing of the breaker.

  \<^bold>\<open>Scanning\<close> (\<^verbatim>\<open>app/scanners\<close>, \<^verbatim>\<open>app/indicators\<close>). \<open>Indicators\<close>, \<open>Swings\<close> and \<open>MarketView\<close> are the
  indicators, the swing engine and the context with the shared quality features. \<open>Momentum\<close>,
  \<open>OosScanner\<close>, \<open>Structure\<close> and \<open>Trend\<close> are the scanners and the funnel counters. \<open>Scanners\<close> and
  \<open>ScanPipeline\<close> are identity, deduplication, aggregation, the gates and one scan of one symbol.
  \<open>ScanRunner\<close> is the scanner process around it (\<^verbatim>\<open>scanner_runner.py\<close>): configuration path, startup,
  one cycle over the universe and one round of the main loop, with the completion report of
  \<open>CycleReport\<close> (\<^verbatim>\<open>cycle_completion_v1.py\<close>). \<open>SetupStore\<close> is the tables that scanner and paper
  process share (\<^verbatim>\<open>app/db/repository.py\<close>); \<open>ScanRunner\<close> runs both processes on them and follows a
  position back to the gates that cleared its setup. The fuel of a wait is its length in polls, the fuel
  of the startup the number of attempts; both suffice by \<open>startup_decides\<close> and \<open>startup_ends\<close>.

  \<^bold>\<open>Trading.\<close> \<open>Dca\<close> is the two-legged order as a state machine, \<open>PaperTrade\<close> one open trade, with the
  writes of a funding charge and of a close that may raise and end the pass (\<open>Aborted\<close>),
  \<open>PaperEngine\<close> the account with its exit and entry passes, also when they are cut short by such a raise,
  \<open>ShadowEngine\<close> the shadow trades, \<open>PaperRunner\<close> the process with any interleaving of its two threads,
  the work under the trading lock and the shadow work after it as separate steps (\<^verbatim>\<open>app/paper\<close>, \<^verbatim>\<open>paper_runner.py\<close>). \<open>Strategy\<close> and \<open>SimExchange\<close>
  are the older price and open-interest bot with its fill simulator, risk limits and backtest
  (\<^verbatim>\<open>app/strategy\<close>, \<^verbatim>\<open>app/execution\<close>, \<^verbatim>\<open>app/risk\<close>, \<^verbatim>\<open>app/backtest\<close>).

  \<^bold>\<open>Candles and outcomes.\<close> \<open>CandleRanges\<close> and \<open>CandleSync\<close> are time ranges, gaps, the
  synchronisation of candles and their table (\<^verbatim>\<open>app/analytics\<close>) with the coverage function of the database
  (\<^verbatim>\<open>sql/migrations/012_align_candle_coverage_grid.sql\<close>); \<open>CandleBackfill\<close> follows a missing candle from a
  required range through the scan, the request and the upsert to the table (frames of 3 to 720 minutes, opening
  times up to the year 2096, for which the times in double precision are shown to be exact); \<open>Outcome\<close> judges a setup
  (\<^verbatim>\<open>app/scanners/outcome.py\<close>); \<open>CoverageGuard\<close> is the proof that a window of candles is complete
  and the paged history of the client (\<^verbatim>\<open>app/research/candle_coverage_guard_v1.py\<close>); \<open>ShadowEval\<close> is
  the evaluator of the shadow signals over its two tables, \<open>ShadowScan\<close> the runner that collects the
  signals with its wick rejection scanner, and both processes in any order on the shared tables
  (\<^verbatim>\<open>app/shadow\<close>).

  \<^bold>\<open>What the lemmas show.\<close> For each component: the effect of every operation on every branch, errors
  included; an invariant kept by every operation and lifted to runs of events, interleavings or
  processes; and what the component promises its clients. Several components have an abstract
  specification: the step relation of the limiter, the set semantics of ranges, the true history of
  candles for the coverage guard and the evaluator.

  \<^bold>\<open>Conventions and bounds.\<close> Times are integers in microseconds, candle times in milliseconds. Clocks,
  random numbers, the operating system, the file system, the database and the network are arguments
  (records of what the environment answers), also where they fail; raising is \<open>None\<close> or the left side
  of a sum. Loops are structural or carry fuel that the code itself provides (attempts, pages, the
  deadline), and where a loop could run out of it a theorem says that it does not under the hypotheses named
  there. Python's integers are unbounded, so no width is modelled.

  \<^bold>\<open>Not modelled.\<close> NaN and infinities; the texts of logs and of reports; SQL and the database layer
  beyond the rows a component reads and writes and the coverage function named above; HTTP, signing, and the parsing of exchange rows where it
  is a parameter; configuration loading, notifications, the scheduler, deployment; the scripts, the
  tools and most of the research and analytics code, which is reporting over stored data; the observers
  that the scanner process calls for research, which swallow every exception; of the repository the
  aggregated market signals, gate configuration, account snapshots, safety events, rows of the
  breakeven orders and of the shadow trades.
\<close>

end
